(* ===== verification/Prelude.thy ===== *)
theory Prelude
  imports Main "HOL-Library.Word" "HOL-Library.AList" "HOL-Library.Char_ord"
    "HOL-Library.List_Lexorder" "HOL-Library.Sublist" "HOL-Library.Multiset"
begin

text \<open>
  Shared vocabulary of the development: the parts of Go and of its standard library the
  components use, and the generic lemmas about them.

  \<^item> A Go string is a byte string: \<open>string\<close>, a list of 8-bit characters. The functions of the
    package \<open>strings\<close> work on bytes as long as every byte is ASCII and go through the Unicode
    tables otherwise. The tables are the parameter \<open>unicode\<close>, one function per routine, consulted
    for strings that hold a byte outside ASCII and for no other.
  \<^item> A Go map is an association list with distinct keys, or \<open>None\<close> for the nil map. Reading a nil
    map is reading an empty one; writing to it panics. The order of the list stands for the order
    one \<open>range\<close> over the map happens to take, which Go leaves open: every statement quantifies
    over all lists, hence over all orders.
  \<^item> A call that can fail is of type \<open>('e, 'a) out\<close>: a value, an error, or a panic.
\<close>

named_theorems go_simps
named_theorems bytes_simps

section \<open>Results\<close>

datatype ('e, 'a) out = Ret 'a | Fail 'e | Panic

fun out_ok :: "('e, 'a) out \<Rightarrow> bool" where
  "out_ok (Ret _) = True"
| "out_ok (Fail _) = False"
| "out_ok Panic = False"

lemma out_ok_iff: "out_ok r \<longleftrightarrow> (\<exists>v. r = Ret v)"
  by (cases r) auto

text \<open>A missing key reads as the zero value.\<close>

fun the_default :: "'a \<Rightarrow> 'a option \<Rightarrow> 'a" where
  "the_default d None = d"
| "the_default d (Some x) = x"

section \<open>Strings\<close>

definition is_ascii :: "char \<Rightarrow> bool" where
  "is_ascii c \<longleftrightarrow> (of_char c :: nat) < 128"

definition ascii :: "string \<Rightarrow> bool" where
  "ascii s \<longleftrightarrow> list_all is_ascii s"

record unicode =
  uni_lower :: "string \<Rightarrow> string"
  uni_trim :: "string \<Rightarrow> string"
  uni_fields :: "string \<Rightarrow> string list"

definition is_space :: "char \<Rightarrow> bool" where
  "is_space c \<longleftrightarrow> (let n = (of_char c :: nat) in n = 32 \<or> 9 \<le> n \<and> n \<le> 13)"

definition is_lower :: "char \<Rightarrow> bool" where
  "is_lower c \<longleftrightarrow> (let n = (of_char c :: nat) in 97 \<le> n \<and> n \<le> 122)"

definition is_upper :: "char \<Rightarrow> bool" where
  "is_upper c \<longleftrightarrow> (let n = (of_char c :: nat) in 65 \<le> n \<and> n \<le> 90)"

definition is_digit :: "char \<Rightarrow> bool" where
  "is_digit c \<longleftrightarrow> (let n = (of_char c :: nat) in 48 \<le> n \<and> n \<le> 57)"

definition lower_char :: "char \<Rightarrow> char" where
  "lower_char c = (if is_upper c then char_of ((of_char c :: nat) + 32) else c)"

definition upper_char :: "char \<Rightarrow> char" where
  "upper_char c = (if is_lower c then char_of ((of_char c :: nat) - 32) else c)"

fun trim_left :: "(char \<Rightarrow> bool) \<Rightarrow> string \<Rightarrow> string" where
  "trim_left p [] = []"
| "trim_left p (c # s) = (if p c then trim_left p s else c # s)"

definition trim_right :: "(char \<Rightarrow> bool) \<Rightarrow> string \<Rightarrow> string" where
  "trim_right p s = rev (trim_left p (rev s))"

definition trim_by :: "(char \<Rightarrow> bool) \<Rightarrow> string \<Rightarrow> string" where
  "trim_by p s = trim_right p (trim_left p s)"

fun split_by :: "(char \<Rightarrow> bool) \<Rightarrow> string \<Rightarrow> string list" where
  "split_by p [] = [[]]"
| "split_by p (c # s) =
     (if p c then [] # split_by p s
      else (c # hd (split_by p s)) # tl (split_by p s))"

definition split_on :: "char \<Rightarrow> string \<Rightarrow> string list" where
  "split_on c = split_by (\<lambda>d. d = c)"

fun join :: "string \<Rightarrow> string list \<Rightarrow> string" where
  "join sep [] = []"
| "join sep [s] = s"
| "join sep (s # t # ss) = s @ sep @ join sep (t # ss)"

definition TrimSpace :: "unicode \<Rightarrow> string \<Rightarrow> string" where
  "TrimSpace U s = (if ascii s then trim_by is_space s else uni_trim U s)"

definition ToLower :: "unicode \<Rightarrow> string \<Rightarrow> string" where
  "ToLower U s = (if ascii s then map lower_char s else uni_lower U s)"

definition Fields :: "unicode \<Rightarrow> string \<Rightarrow> string list" where
  "Fields U s = (if ascii s then filter (\<lambda>w. w \<noteq> []) (split_by is_space s) else uni_fields U s)"

definition HasPrefix :: "string \<Rightarrow> string \<Rightarrow> bool" where
  "HasPrefix s p \<longleftrightarrow> take (length p) s = p"

definition HasSuffix :: "string \<Rightarrow> string \<Rightarrow> bool" where
  "HasSuffix s t \<longleftrightarrow> length t \<le> length s \<and> drop (length s - length t) s = t"

definition TrimSuffix :: "string \<Rightarrow> string \<Rightarrow> string" where
  "TrimSuffix s t = (if HasSuffix s t then take (length s - length t) s else s)"

fun contains_str :: "string \<Rightarrow> string \<Rightarrow> bool" where
  "contains_str [] t = (t = [])"
| "contains_str (c # s) t = (HasPrefix (c # s) t \<or> contains_str s t)"

text \<open>Decimal rendering of a natural number, as \<open>strconv.Itoa\<close> and \<open>fmt\<close> write one.\<close>

fun digits_of :: "nat \<Rightarrow> string" where
  "digits_of n = (if n < 10 then [char_of (48 + n)] else digits_of (n div 10) @ [char_of (48 + n mod 10)])"

declare digits_of.simps [simp del]

definition dot :: char where "dot = CHR ''.''"
definition hyphen :: char where "hyphen = CHR ''-''"
definition nl :: char where "nl = CHR 0x0A"

subsection \<open>Facts about strings\<close>

lemma of_char_char_of_nat [simp]: "n < 256 \<Longrightarrow> (of_char (char_of n :: char) :: nat) = n"
  by (simp add: of_char_of)

lemma of_char_less_256 [simp]: "(of_char (c :: char) :: nat) < 256"
  by (metis nat_of_char_less_256)

lemma ascii_Nil [simp]: "ascii []" and ascii_Cons [simp]: "ascii (c # s) \<longleftrightarrow> is_ascii c \<and> ascii s"
  and ascii_append [simp]: "ascii (s @ t) \<longleftrightarrow> ascii s \<and> ascii t"
  by (simp_all add: ascii_def)

lemma ascii_iff: "ascii s \<longleftrightarrow> (\<forall>c \<in> set s. is_ascii c)"
  by (simp add: ascii_def list_all_iff)

lemma is_lower_not_upper: "is_lower c \<Longrightarrow> \<not> is_upper c"
  by (auto simp: is_lower_def is_upper_def Let_def)

lemma lower_char_id [simp]: "\<not> is_upper c \<Longrightarrow> lower_char c = c"
  by (simp add: lower_char_def)

lemma is_upper_lower_char [simp]: "\<not> is_upper (lower_char c)"
  by (auto simp: lower_char_def is_upper_def Let_def)

lemma lower_char_idem [simp]: "lower_char (lower_char c) = lower_char c"
  by simp

lemma is_ascii_lower_char [simp]: "is_ascii (lower_char c) = is_ascii c"
  by (auto simp: lower_char_def is_upper_def is_ascii_def Let_def)

lemma is_space_lower_char [simp]: "is_space (lower_char c) = is_space c"
  by (auto simp: lower_char_def is_upper_def is_space_def Let_def)

lemma ascii_map_lower [simp]: "ascii (map lower_char s) = ascii s"
  by (induction s) auto

lemma set_trim_left: "set (trim_left p s) \<subseteq> set s"
  by (induction s) auto

lemma set_trim_right: "set (trim_right p s) \<subseteq> set s"
  using set_trim_left [of p "rev s"] by (simp add: trim_right_def)

lemma set_trim_by: "set (trim_by p s) \<subseteq> set s"
  using set_trim_left [of p s] set_trim_right [of p "trim_left p s"] by (auto simp: trim_by_def)

lemma ascii_trim_by: "ascii s \<Longrightarrow> ascii (trim_by p s)"
  using set_trim_by [of p s] by (auto simp: ascii_iff)

lemma length_trim_by: "length (trim_by p s) \<le> length s"
proof -
  have "length (trim_left p t) \<le> length t" for t by (induction t) auto
  from this [of "rev (trim_left p s)"] this [of s] show ?thesis by (simp add: trim_by_def trim_right_def)
qed

lemma trim_left_hd: "trim_left p s \<noteq> [] \<Longrightarrow> \<not> p (hd (trim_left p s))"
  by (induction s) auto

lemma trim_left_id: "s = [] \<or> \<not> p (hd s) \<Longrightarrow> trim_left p s = s"
  by (cases s) auto

lemma trim_right_last: "trim_right p s \<noteq> [] \<Longrightarrow> \<not> p (last (trim_right p s))"
  using trim_left_hd [of p "rev s"] by (simp add: trim_right_def last_rev)

lemma trim_right_id: "s = [] \<or> \<not> p (last s) \<Longrightarrow> trim_right p s = s"
  using trim_left_id [of "rev s" p] by (auto simp: trim_right_def hd_rev)

lemma trim_left_suffix: "\<exists>t. s = t @ trim_left p s"
  by (induction s) (auto, metis append_Cons)

lemma trim_right_prefix: "\<exists>t. s = trim_right p s @ t"
  using trim_left_suffix [of "rev s" p] by (metis rev_append rev_rev_ident trim_right_def)

lemma trim_by_ends:
  assumes "trim_by p s \<noteq> []"
  shows "\<not> p (hd (trim_by p s))" and "\<not> p (last (trim_by p s))"
proof -
  show "\<not> p (last (trim_by p s))"
    using assms trim_right_last unfolding trim_by_def by blast
  obtain t where t: "trim_left p s = trim_by p s @ t"
    using trim_right_prefix unfolding trim_by_def by blast
  with assms have "trim_left p s \<noteq> []" and "hd (trim_left p s) = hd (trim_by p s)"
    by auto
  then show "\<not> p (hd (trim_by p s))"
    using trim_left_hd by metis
qed

lemma trim_by_id: "s = [] \<or> \<not> p (hd s) \<and> \<not> p (last s) \<Longrightarrow> trim_by p s = s"
  unfolding trim_by_def using trim_left_id trim_right_id by metis

lemma trim_by_none: "\<forall>c \<in> set s. \<not> p c \<Longrightarrow> trim_by p s = s"
  by (rule trim_by_id) (cases s, auto)

lemma split_by_ne [simp]: "split_by p s \<noteq> []"
  by (induction s) auto

lemma split_on_ne [simp]: "split_on c s \<noteq> []"
  by (simp add: split_on_def)

lemma split_on_Nil [simp]: "split_on c [] = [[]]"
  by (simp add: split_on_def)

lemma join_Cons: "ss \<noteq> [] \<Longrightarrow> join sep (s # ss) = s @ sep @ join sep ss"
  by (cases ss) auto

lemma split_by_no: "\<forall>c \<in> set s. \<not> p c \<Longrightarrow> split_by p s = [s]"
  by (induction s) auto

lemma join_Cons_Cons: "join sep ((c # s) # ss) = c # join sep (s # ss)"
  by (cases ss) auto

lemma join_split_on [simp]: "join [c] (split_on c s) = s"
  unfolding split_on_def
proof (induction s)
  case (Cons a s)
  then show ?case
    by (auto simp: join_Cons join_Cons_Cons)
qed simp

lemma split_by_append: "\<forall>c \<in> set s. \<not> p c \<Longrightarrow> p d \<Longrightarrow> split_by p (s @ d # t) = s # split_by p t"
  by (induction s) auto

lemma split_on_append: "c \<notin> set s \<Longrightarrow> split_on c (s @ c # t) = s # split_on c t"
  unfolding split_on_def by (rule split_by_append) auto

lemma split_on_join:
  assumes "ss \<noteq> []" and "\<forall>s \<in> set ss. c \<notin> set s"
  shows "split_on c (join [c] ss) = ss"
  using assms
proof (induction ss)
  case (Cons s ss)
  show ?case
  proof (cases "ss = []")
    case True
    with Cons.prems show ?thesis
      by (auto simp: split_on_def intro!: split_by_no)
  next
    case False
    with Cons show ?thesis
      by (simp add: join_Cons split_on_append)
  qed
qed simp

lemma split_by_pieces: "w \<in> set (split_by p s) \<Longrightarrow> \<forall>c \<in> set w. c \<in> set s \<and> \<not> p c"
proof (induction s arbitrary: w)
  case (Cons a s)
  have hd: "hd (split_by p s) \<in> set (split_by p s)"
    and tl: "\<And>x. x \<in> set (tl (split_by p s)) \<Longrightarrow> x \<in> set (split_by p s)"
    by (simp_all add: list.set_sel)
  from Cons.prems consider "p a" "w = [] \<or> w \<in> set (split_by p s)"
    | "\<not> p a" "w = a # hd (split_by p s)" | "\<not> p a" "w \<in> set (tl (split_by p s))"
    by (auto split: if_splits)
  then show ?case
    using Cons.IH hd tl by cases force+
qed simp

lemma split_on_pieces: "w \<in> set (split_on c s) \<Longrightarrow> c \<notin> set w \<and> set w \<subseteq> set s"
  unfolding split_on_def using split_by_pieces by fastforce

lemma HasPrefix_iff: "HasPrefix s p \<longleftrightarrow> (\<exists>t. s = p @ t)"
  unfolding HasPrefix_def by (metis append_eq_conv_conj append_take_drop_id)

lemma HasSuffix_iff: "HasSuffix s t \<longleftrightarrow> (\<exists>u. s = u @ t)"
proof
  assume "HasSuffix s t"
  then show "\<exists>u. s = u @ t"
    unfolding HasSuffix_def by (metis append_take_drop_id)
qed (auto simp: HasSuffix_def)

lemma HasPrefix_Nil [simp]: "HasPrefix s []"
  by (simp add: HasPrefix_def)

lemma HasPrefix_refl [simp]: "HasPrefix s s"
  by (simp add: HasPrefix_def)

lemma HasSuffix_append [simp]: "HasSuffix (u @ t) t"
  by (auto simp: HasSuffix_iff)

lemma TrimSuffix_append [simp]: "TrimSuffix (u @ t) t = u"
  by (simp add: TrimSuffix_def)

lemma TrimSuffix_no: "\<not> HasSuffix s t \<Longrightarrow> TrimSuffix s t = s"
  by (simp add: TrimSuffix_def)

lemma TrimSuffix_cases: "(\<exists>u. s = u @ t \<and> TrimSuffix s t = u) \<or> \<not> HasSuffix s t \<and> TrimSuffix s t = s"
  using TrimSuffix_no TrimSuffix_append by (metis HasSuffix_iff)

lemma set_TrimSuffix: "set (TrimSuffix s t) \<subseteq> set s"
  by (auto simp: TrimSuffix_def dest: in_set_takeD)

lemma contains_str_iff: "contains_str s t \<longleftrightarrow> (\<exists>u v. s = u @ t @ v)"
proof (induction s)
  case (Cons c s)
  show ?case
  proof
    assume "contains_str (c # s) t"
    then consider "HasPrefix (c # s) t" | "\<exists>u v. s = u @ t @ v"
      using Cons by auto
    then show "\<exists>u v. c # s = u @ t @ v"
      by cases (metis HasPrefix_iff append_Nil, metis append_Cons)
  next
    assume "\<exists>u v. c # s = u @ t @ v"
    then obtain u v where uv: "c # s = u @ t @ v" by blast
    show "contains_str (c # s) t"
    proof (cases u)
      case Nil
      with uv show ?thesis by (metis HasPrefix_iff append_Nil contains_str.simps(2))
    next
      case (Cons d u')
      with uv have "s = u' @ t @ v" by simp
      with \<open>contains_str s t = (\<exists>u v. s = u @ t @ v)\<close> show ?thesis by auto
    qed
  qed
qed auto

lemma digits_of_digits: "c \<in> set (digits_of n) \<Longrightarrow> is_digit c"
proof (induction n rule: digits_of.induct)
  case (1 n)
  then show ?case
    by (subst (asm) digits_of.simps) (auto simp: is_digit_def Let_def split: if_splits)
qed

lemma digits_of_ne [simp]: "digits_of n \<noteq> []"
  by (subst digits_of.simps) simp

lemma find_SomeD: "find P xs = Some x \<Longrightarrow> x \<in> set xs \<and> P x"
  by (induction xs) (auto split: if_splits)

lemma find_NoneD: "find P xs = None \<Longrightarrow> x \<in> set xs \<Longrightarrow> \<not> P x"
  by (induction xs) (auto split: if_splits)

section \<open>Maps\<close>

type_synonym ('k, 'v) gomap = "('k \<times> 'v) list option"

fun items :: "('k, 'v) gomap \<Rightarrow> ('k \<times> 'v) list" where
  "items None = []"
| "items (Some l) = l"

definition mget :: "('k, 'v) gomap \<Rightarrow> 'k \<Rightarrow> 'v option" where
  "mget m k = map_of (items m) k"

text \<open>Assigning to a key: \<open>None\<close> is the panic of a write to the nil map.\<close>

fun mput :: "'k \<Rightarrow> 'v \<Rightarrow> ('k, 'v) gomap \<Rightarrow> ('k, 'v) gomap option" where
  "mput k v None = None"
| "mput k v (Some l) = Some (Some (AList.update k v l))"

fun mdel :: "'k \<Rightarrow> ('k, 'v) gomap \<Rightarrow> ('k, 'v) gomap" where
  "mdel k None = None"
| "mdel k (Some l) = Some (AList.delete k l)"

text \<open>\<open>if m == nil \{ m = map[..]..\{\} \}\<close>.\<close>

definition ensure :: "('k, 'v) gomap \<Rightarrow> ('k, 'v) gomap" where
  "ensure m = Some (items m)"

text \<open>In place change of the value a key points to, for maps of pointers.\<close>

definition madjust :: "'k \<Rightarrow> ('v \<Rightarrow> 'v) \<Rightarrow> ('k, 'v) gomap \<Rightarrow> ('k, 'v) gomap" where
  "madjust k f m = map_option (map (\<lambda>(k', v). (k', if k' = k then f v else v))) m"

definition keys :: "('k, 'v) gomap \<Rightarrow> 'k set" where
  "keys m = fst ` set (items m)"

definition vals :: "('k, 'v) gomap \<Rightarrow> 'v list" where
  "vals m = map snd (items m)"

definition wf_map :: "('k, 'v) gomap \<Rightarrow> bool" where
  "wf_map m \<longleftrightarrow> distinct (map fst (items m))"

lemma items_ensure [simp]: "items (ensure m) = items m"
  by (simp add: ensure_def)

lemma ensure_Some [simp]: "ensure (Some l) = Some l"
  by (simp add: ensure_def)

lemma mget_ensure [simp]: "mget (ensure m) = mget m"
  by (rule ext) (simp add: mget_def)

lemma wf_map_ensure [simp]: "wf_map (ensure m) = wf_map m"
  by (simp add: wf_map_def)

lemma vals_ensure [simp]: "vals (ensure m) = vals m"
  by (simp add: vals_def)

lemma keys_ensure [simp]: "keys (ensure m) = keys m"
  by (simp add: keys_def)

lemma mget_put: "mput k v m = Some m' \<Longrightarrow> mget m' x = (if x = k then Some v else mget m x)"
  by (cases m) (auto simp: mget_def update_conv')

lemma wf_map_put: "mput k v m = Some m' \<Longrightarrow> wf_map m \<Longrightarrow> wf_map m'"
  by (cases m) (auto simp: wf_map_def distinct_update)

lemma mget_del: "wf_map m \<Longrightarrow> mget (mdel k m) x = (if x = k then None else mget m x)"
  by (cases m) (auto simp: mget_def delete_conv')

lemma wf_map_del: "wf_map m \<Longrightarrow> wf_map (mdel k m)"
  by (cases m) (auto simp: wf_map_def distinct_delete)

lemma items_adjust [simp]:
  "items (madjust k f m) = map (\<lambda>(k', v). (k', if k' = k then f v else v)) (items m)"
  by (cases m) (auto simp: madjust_def)

lemma fst_adjust [simp]: "fst \<circ> (\<lambda>(k', v). (k', if k' = k then f v else v)) = fst"
  by (rule ext) auto

lemma mget_adjust: "mget (madjust k f m) x = (if x = k then map_option f (mget m x) else mget m x)"
proof -
  have "map_of (map (\<lambda>(k', v). (k', if k' = k then f v else v)) l) x =
    (if x = k then map_option f (map_of l x) else map_of l x)" for l
    by (induction l) auto
  then show ?thesis by (simp add: mget_def)
qed

lemma wf_map_adjust [simp]: "wf_map (madjust k f m) = wf_map m"
  by (simp add: wf_map_def)

lemma keys_adjust [simp]: "keys (madjust k f m) = keys m"
  by (simp add: keys_def image_comp)

lemma mget_items: "wf_map m \<Longrightarrow> mget m k = Some v \<longleftrightarrow> (k, v) \<in> set (items m)"
  by (simp add: mget_def wf_map_def)

lemma mget_in_items: "mget m k = Some v \<Longrightarrow> (k, v) \<in> set (items m)"
  by (simp add: mget_def map_of_SomeD)

lemma mget_None_keys: "mget m k = None \<longleftrightarrow> k \<notin> keys m"
  by (simp add: mget_def keys_def map_of_eq_None_iff)

lemma vals_iff: "wf_map m \<Longrightarrow> v \<in> set (vals m) \<longleftrightarrow> (\<exists>k. mget m k = Some v)"
  by (force simp: vals_def mget_items)

lemma set_vals_put:
  assumes "mput k v m = Some m'" and "wf_map m"
  shows "x \<in> set (vals m') \<longleftrightarrow> x = v \<or> (\<exists>k'. k' \<noteq> k \<and> mget m k' = Some x)"
  using assms by (auto simp: vals_iff [OF wf_map_put] mget_put split: if_splits)

lemma items_del: "items (mdel k m) = AList.delete k (items m)"
  by (cases m) auto

lemma in_items_del: "(x, v) \<in> set (items (mdel k m)) \<longleftrightarrow> x \<noteq> k \<and> (x, v) \<in> set (items m)"
  by (auto simp: items_del AList.delete_eq)

lemma in_items_put:
  assumes "mput k v m = Some m'" and "wf_map m"
  shows "(x, y) \<in> set (items m') \<longleftrightarrow> (if x = k then y = v else (x, y) \<in> set (items m))"
  using assms mget_put [OF assms(1), of x] wf_map_put [OF assms]
  by (auto simp: mget_items [symmetric])

lemma mput_ensure: "\<exists>m'. mput k v (ensure m) = Some m'"
  by (simp add: ensure_def)

lemma mput_Some_iff: "(\<exists>m'. mput k v m = Some m') \<longleftrightarrow> m \<noteq> None"
  by (cases m) auto

text \<open>
  Two maps with the same contents, each in its own order: what two iterations over one map see.
\<close>

definition same_map :: "('k, 'v) gomap \<Rightarrow> ('k, 'v) gomap \<Rightarrow> bool" where
  "same_map m n \<longleftrightarrow> (m = None \<longleftrightarrow> n = None) \<and> mset (items m) = mset (items n)"

lemma same_map_refl [simp]: "same_map m m"
  by (simp add: same_map_def)

lemma same_map_sym: "same_map m n \<Longrightarrow> same_map n m"
  by (auto simp: same_map_def)

lemma same_map_items: "same_map m n \<Longrightarrow> set (items m) = set (items n)"
  by (auto simp: same_map_def dest: mset_eq_setD)

lemma same_map_wf: "same_map m n \<Longrightarrow> wf_map m \<longleftrightarrow> wf_map n"
  unfolding same_map_def wf_map_def by (metis mset_eq_imp_distinct_iff mset_map)

lemma same_map_get: "same_map m n \<Longrightarrow> wf_map m \<Longrightarrow> mget m k = mget n k"
  using same_map_items same_map_wf mget_items
  by (metis (no_types, lifting) not_None_eq)

lemma same_map_vals: "same_map m n \<Longrightarrow> mset (vals m) = mset (vals n)"
  unfolding same_map_def vals_def by (metis mset_map)

lemma same_map_nil: "same_map m n \<Longrightarrow> m = None \<longleftrightarrow> n = None"
  by (simp add: same_map_def)

end
