(* ===== verification/Netip.thy ===== *)
theory Netip
  imports Prelude
begin

text \<open>
  The part of Go's \<open>net/netip\<close> the program computes with: addresses of the two families, prefixes,
  and the operations on them (\<open>Next\<close>, \<open>Prev\<close>, \<open>Masked\<close>, \<open>Contains\<close>, \<open>Overlaps\<close>, \<open>As16\<close>,
  \<open>AddrFromSlice\<close>, \<open>Unmap\<close>). An address is a machine word of its family's width. IPv6 zones are
  left out: no constructor the program feeds an allocation from (\<open>AddrFromSlice\<close>, \<open>PrefixFrom\<close>,
  \<open>ParsePrefix\<close>) can produce one.

  The second half reads every operation as arithmetic on the address's number, which is what the
  allocator's proofs work with.
\<close>

unbundle bit_operations_syntax

datatype addr = AddrNone | Addr4 "32 word" | Addr6 "128 word"

datatype prefix = Prefix (paddr: addr) (pbits: int)

fun IsValid :: "addr \<Rightarrow> bool" where
  "IsValid AddrNone = False"
| "IsValid (Addr4 _) = True"
| "IsValid (Addr6 _) = True"

fun Is4 :: "addr \<Rightarrow> bool" where
  "Is4 (Addr4 _) = True"
| "Is4 (Addr6 _) = False"
| "Is4 AddrNone = False"

fun Is6 :: "addr \<Rightarrow> bool" where
  "Is6 (Addr6 _) = True"
| "Is6 (Addr4 _) = False"
| "Is6 AddrNone = False"

fun BitLen :: "addr \<Rightarrow> nat" where
  "BitLen AddrNone = 0"
| "BitLen (Addr4 _) = 32"
| "BitLen (Addr6 _) = 128"

definition PrefixIsValid :: "prefix \<Rightarrow> bool" where
  "PrefixIsValid p \<longleftrightarrow> 0 \<le> pbits p"

definition PrefixFrom :: "addr \<Rightarrow> int \<Rightarrow> prefix" where
  "PrefixFrom a n = Prefix a (if IsValid a \<and> 0 \<le> n \<and> n \<le> int (BitLen a) then n else - 1)"

definition PrefixNone :: prefix where
  "PrefixNone = Prefix AddrNone (- 1)"

fun addr_prefix :: "addr \<Rightarrow> int \<Rightarrow> prefix" where
  "addr_prefix AddrNone n = PrefixNone"
| "addr_prefix (Addr4 w) n =
     (if n < 0 \<or> 32 < n then PrefixNone else PrefixFrom (Addr4 (w AND NOT (mask (32 - nat n)))) n)"
| "addr_prefix (Addr6 w) n =
     (if n < 0 \<or> 128 < n then PrefixNone else PrefixFrom (Addr6 (w AND NOT (mask (128 - nat n)))) n)"

definition Masked :: "prefix \<Rightarrow> prefix" where
  "Masked p = addr_prefix (paddr p) (pbits p)"

fun Contains :: "prefix \<Rightarrow> addr \<Rightarrow> bool" where
  "Contains (Prefix (Addr4 b) n) (Addr4 w) = (0 \<le> n \<and> drop_bit (32 - nat n) (w XOR b) = 0)"
| "Contains (Prefix (Addr6 b) n) (Addr6 w) = (0 \<le> n \<and> (w XOR b) AND NOT (mask (128 - nat n)) = 0)"
| "Contains _ _ = False"

definition Overlaps :: "prefix \<Rightarrow> prefix \<Rightarrow> bool" where
  "Overlaps p q =
     (if \<not> PrefixIsValid p \<or> \<not> PrefixIsValid q then False
      else if p = q then True
      else if Is4 (paddr p) \<noteq> Is4 (paddr q) then False
      else let m = min (pbits p) (pbits q) in
        if m = 0 then True
        else paddr (addr_prefix (paddr p) m) = paddr (addr_prefix (paddr q) m))"

fun Next :: "addr \<Rightarrow> addr" where
  "Next AddrNone = AddrNone"
| "Next (Addr4 w) = (if w + 1 = 0 then AddrNone else Addr4 (w + 1))"
| "Next (Addr6 w) = (if w + 1 = 0 then AddrNone else Addr6 (w + 1))"

fun Prev :: "addr \<Rightarrow> addr" where
  "Prev AddrNone = AddrNone"
| "Prev (Addr4 w) = (if w = 0 then AddrNone else Addr4 (w - 1))"
| "Prev (Addr6 w) = (if w = 0 then AddrNone else Addr6 (w - 1))"

text \<open>
  \<open>As16\<close> is the sixteen bytes of an address, most significant first; an IPv4 address sits in its
  4-in-6 form, below \<open>::ffff:0:0\<close>.
\<close>

definition be_bytes :: "nat \<Rightarrow> nat \<Rightarrow> 8 word list" where
  "be_bytes m n = map (\<lambda>i. of_nat (n div 256 ^ (m - 1 - i))) [0..<m]"

definition be_nat :: "8 word list \<Rightarrow> nat" where
  "be_nat bs = foldl (\<lambda>acc b. acc * 256 + unat b) 0 bs"

fun as16_nat :: "addr \<Rightarrow> nat" where
  "as16_nat AddrNone = 0"
| "as16_nat (Addr4 w) = 0xffff * 2 ^ 32 + unat w"
| "as16_nat (Addr6 w) = unat w"

definition As16 :: "addr \<Rightarrow> 8 word list" where
  "As16 a = be_bytes 16 (as16_nat a)"

definition AddrFromSlice :: "8 word list \<Rightarrow> addr option" where
  "AddrFromSlice bs =
     (if length bs = 4 then Some (Addr4 (of_nat (be_nat bs)))
      else if length bs = 16 then Some (Addr6 (of_nat (be_nat bs)))
      else None)"

fun Unmap :: "addr \<Rightarrow> addr" where
  "Unmap (Addr6 w) = (if drop_bit 32 w = 0xffff then Addr4 (ucast w) else Addr6 w)"
| "Unmap a = a"

section \<open>Addresses as numbers\<close>

fun val :: "addr \<Rightarrow> nat" where
  "val AddrNone = 0"
| "val (Addr4 w) = unat w"
| "val (Addr6 w) = unat w"

definition same_family :: "addr \<Rightarrow> addr \<Rightarrow> bool" where
  "same_family a b \<longleftrightarrow> IsValid a \<and> BitLen a = BitLen b"

definition hostbits :: "prefix \<Rightarrow> nat" where
  "hostbits p = BitLen (paddr p) - nat (pbits p)"

definition wf_prefix :: "prefix \<Rightarrow> bool" where
  "wf_prefix p \<longleftrightarrow> IsValid (paddr p) \<and> 0 \<le> pbits p \<and> pbits p \<le> int (BitLen (paddr p))"

text \<open>
  The order of \<open>Addr.Compare\<close>: by family, then by number. It makes the library's order lemmas and
  \<open>sort\<close> apply to addresses.
\<close>

fun addr_rank :: "addr \<Rightarrow> nat" where
  "addr_rank AddrNone = 0"
| "addr_rank (Addr4 w) = 1 + unat w"
| "addr_rank (Addr6 w) = 1 + 2 ^ 32 + unat w"

lemma unat32_less: "unat (w :: 32 word) < 2 ^ 32"
  using unsigned_less [of w] by simp

lemma unat128_less: "unat (w :: 128 word) < 2 ^ 128"
  using unsigned_less [of w] by simp

lemma addr_rank_inj: "addr_rank a = addr_rank b \<longleftrightarrow> a = b"
proof (cases a; cases b)
  fix v w assume "a = Addr4 v" "b = Addr6 w"
  then show ?thesis using unat32_less [of v] by simp
next
  fix v w assume "a = Addr6 v" "b = Addr4 w"
  then show ?thesis using unat32_less [of w] by simp
qed (auto simp: word_unat_eq_iff)

instantiation addr :: linorder
begin

definition less_eq_addr_def: "a \<le> b \<longleftrightarrow> addr_rank a \<le> addr_rank b"
definition less_addr_def: "a < b \<longleftrightarrow> addr_rank a < addr_rank b"

instance
  by standard (auto simp: less_eq_addr_def less_addr_def addr_rank_inj)

end

lemma less_same_family: "same_family a b \<Longrightarrow> a < b \<longleftrightarrow> val a < val b"
  by (cases a; cases b) (auto simp: same_family_def less_addr_def)

lemma le_same_family: "same_family a b \<Longrightarrow> a \<le> b \<longleftrightarrow> val a \<le> val b"
  by (cases a; cases b) (auto simp: same_family_def less_eq_addr_def)

lemma val_inj: "same_family a b \<Longrightarrow> val a = val b \<longleftrightarrow> a = b"
  by (cases a; cases b) (auto simp: same_family_def word_unat_eq_iff)

lemma same_family_refl [simp]: "same_family a a \<longleftrightarrow> IsValid a"
  by (simp add: same_family_def)

lemma same_family_sym: "same_family a b \<Longrightarrow> same_family b a"
  by (cases a; cases b) (auto simp: same_family_def)

lemma same_family_trans: "same_family a b \<Longrightarrow> same_family b c \<Longrightarrow> same_family a c"
  by (simp add: same_family_def)

lemma val_less: "IsValid a \<Longrightarrow> val a < 2 ^ BitLen a"
  using unat32_less unat128_less by (cases a) auto

lemma IsValid_iff [simp]: "IsValid a \<longleftrightarrow> a \<noteq> AddrNone"
  by (cases a) auto

subsection \<open>Words\<close>

lemma unat_drop_bit:
  fixes w :: "'a::len word"
  shows "unat (drop_bit k w) = unat w div 2 ^ k"
proof -
  have "unat (drop_bit k w) = drop_bit k (unat w)"
    by (rule unat_drop_bit_eq)
  then show ?thesis by (simp only: drop_bit_eq_div)
qed

lemma unat_and_not_mask:
  fixes w :: "'a::len word"
  shows "unat (w AND NOT (mask k)) = unat w div 2 ^ k * 2 ^ k"
proof -
  have "w AND NOT (mask k) = push_bit k (drop_bit k w)"
    by (rule bit_word_eqI) (auto simp: bit_simps)
  moreover have "unat w div 2 ^ k * 2 ^ k < 2 ^ LENGTH('a)"
    using unsigned_less [of w] by (meson div_times_less_eq_dividend le_less_trans)
  moreover have "unat (push_bit k (drop_bit k w)) = take_bit LENGTH('a) (unat w div 2 ^ k * 2 ^ k)"
    by (simp only: unsigned_push_bit_eq unat_drop_bit push_bit_nat_def)
  ultimately show ?thesis
    by (simp only: take_bit_nat_eq_self)
qed

lemma drop_bit_xor_zero:
  fixes v w :: "'a::len word"
  shows "drop_bit k (v XOR w) = 0 \<longleftrightarrow> unat v div 2 ^ k = unat w div 2 ^ k"
proof -
  have "drop_bit k (v XOR w) = 0 \<longleftrightarrow> drop_bit k v = drop_bit k w"
    by (auto simp: bit_eq_iff bit_simps)
  also have "\<dots> \<longleftrightarrow> unat (drop_bit k v) = unat (drop_bit k w)"
    by (simp add: word_unat_eq_iff)
  finally show ?thesis
    by (simp only: unat_drop_bit)
qed

lemmas drop_bit_xor_zero' = drop_bit_xor_zero [simplified drop_bit_xor]

lemma unat_of_nat_eq: "n < 2 ^ LENGTH('a) \<Longrightarrow> unat (of_nat n :: 'a::len word) = n"
  by (simp add: unat_of_nat)

lemma BitLen_0 [simp]: "BitLen a = 0 \<longleftrightarrow> a = AddrNone" "0 = BitLen a \<longleftrightarrow> a = AddrNone"
  by (cases a; simp)+

lemma and_not_mask_zero:
  fixes w :: "'a::len word"
  shows "w AND NOT (mask k) = 0 \<longleftrightarrow> drop_bit k w = 0"
proof -
  have "w AND NOT (mask k) = 0 \<longleftrightarrow> unat w div 2 ^ k * 2 ^ k = 0"
    by (metis unat_and_not_mask unat_eq_zero)
  also have "\<dots> \<longleftrightarrow> unat (drop_bit k w) = 0"
    by (simp only: unat_drop_bit) simp
  finally show ?thesis by (simp add: unat_eq_zero)
qed

subsection \<open>Prefixes\<close>

lemma PrefixFrom_simps [simp]:
  "paddr (PrefixFrom a n) = a"
  "a \<noteq> AddrNone \<Longrightarrow> 0 \<le> n \<Longrightarrow> n \<le> int (BitLen a) \<Longrightarrow> pbits (PrefixFrom a n) = n"
  by (auto simp: PrefixFrom_def)

lemma PrefixFrom_valid: "PrefixIsValid (PrefixFrom a n) \<longleftrightarrow> a \<noteq> AddrNone \<and> 0 \<le> n \<and> n \<le> int (BitLen a)"
  by (simp add: PrefixFrom_def PrefixIsValid_def)

lemma wf_PrefixFrom: "wf_prefix (PrefixFrom a n) \<longleftrightarrow> a \<noteq> AddrNone \<and> 0 \<le> n \<and> n \<le> int (BitLen a)"
  by (auto simp: PrefixFrom_def wf_prefix_def)

lemma Contains_iff:
  assumes "wf_prefix p"
  shows "Contains p a \<longleftrightarrow>
    same_family (paddr p) a \<and> val a div 2 ^ hostbits p = val (paddr p) div 2 ^ hostbits p"
  using assms
  by (cases "(p, a)" rule: Contains.cases)
     (auto simp: wf_prefix_def same_family_def hostbits_def drop_bit_xor_zero' and_not_mask_zero)

lemma Contains_self: "wf_prefix p \<Longrightarrow> Contains p (paddr p)"
  by (simp add: Contains_iff same_family_def wf_prefix_def)

lemma Contains_family: "Contains p a \<Longrightarrow> same_family (paddr p) a"
  by (cases "(p, a)" rule: Contains.cases) (auto simp: same_family_def)

lemma Contains_valid: "Contains p a \<Longrightarrow> a \<noteq> AddrNone"
  by (cases "(p, a)" rule: Contains.cases) auto

lemma Contains_AddrNone [simp]: "\<not> Contains p AddrNone"
  using Contains_valid by blast

lemma Masked_addr:
  assumes "wf_prefix p"
  shows "same_family (paddr p) (paddr (Masked p))"
    and "val (paddr (Masked p)) = val (paddr p) div 2 ^ hostbits p * 2 ^ hostbits p"
    and "pbits (Masked p) = pbits p"
  using assms
  by (cases "paddr p"; auto simp: wf_prefix_def Masked_def same_family_def hostbits_def unat_and_not_mask)+

lemma Masked_wf: "wf_prefix p \<Longrightarrow> wf_prefix (Masked p)"
  by (cases "paddr p") (auto simp: wf_prefix_def Masked_def PrefixFrom_def)

lemma hostbits_Masked: "wf_prefix p \<Longrightarrow> hostbits (Masked p) = hostbits p"
  using Masked_addr [of p] by (simp add: hostbits_def same_family_def)

lemma Contains_Masked:
  assumes p: "wf_prefix p"
  shows "Contains (Masked p) a = Contains p a"
proof -
  have "same_family (paddr (Masked p)) a = same_family (paddr p) a"
    using Masked_addr(1) [OF p] same_family_sym same_family_trans by blast
  then show ?thesis
    using Masked_addr(2) [OF p] by (simp add: Contains_iff Masked_wf hostbits_Masked p)
qed

text \<open>A prefix as the block of numbers it covers: the first is \<open>base p\<close>, the last \<open>top p\<close>.\<close>

definition base :: "prefix \<Rightarrow> nat" where
  "base p = val (paddr p) div 2 ^ hostbits p * 2 ^ hostbits p"

definition top :: "prefix \<Rightarrow> nat" where
  "top p = base p + 2 ^ hostbits p - 1"

lemma block_iff: "(m :: nat) div k = n div k \<longleftrightarrow> n div k * k \<le> m \<and> m < n div k * k + k" if "0 < k"
proof
  assume "m div k = n div k"
  with that show "n div k * k \<le> m \<and> m < n div k * k + k"
    by (metis add.commute dividend_less_times_div div_times_less_eq_dividend mult.commute mult_Suc_right)
next
  assume "n div k * k \<le> m \<and> m < n div k * k + k"
  then show "m div k = n div k"
    using that by (metis add.commute div_nat_eqI mult.commute mult_Suc_right)
qed

lemma top_iff: "n \<le> top p \<longleftrightarrow> n < base p + 2 ^ hostbits p"
proof -
  have "0 < (2 :: nat) ^ hostbits p" by simp
  then show ?thesis unfolding top_def by linarith
qed

lemma Contains_block:
  "wf_prefix p \<Longrightarrow> Contains p a \<longleftrightarrow> same_family (paddr p) a \<and> base p \<le> val a \<and> val a \<le> top p"
  by (simp add: Contains_iff block_iff top_iff base_def)

lemma base_le_top: "base p \<le> top p"
  by (simp add: top_iff)

lemma top_less: "wf_prefix p \<Longrightarrow> top p < 2 ^ BitLen (paddr p)"
proof -
  assume p: "wf_prefix p"
  let ?k = "2 ^ hostbits p :: nat" and ?v = "val (paddr p)"
  have "?v < 2 ^ BitLen (paddr p)"
    using p by (intro val_less) (simp add: wf_prefix_def)
  moreover have e: "(2 :: nat) ^ BitLen (paddr p) = 2 ^ (BitLen (paddr p) - hostbits p) * ?k"
    using p by (simp add: wf_prefix_def hostbits_def flip: power_add)
  ultimately have "?v div ?k < 2 ^ (BitLen (paddr p) - hostbits p)"
    by (simp add: less_mult_imp_div_less)
  then have "(?v div ?k + 1) * ?k \<le> 2 ^ (BitLen (paddr p) - hostbits p) * ?k"
    by (intro mult_le_mono1) simp
  then have "(?v div ?k + 1) * ?k \<le> 2 ^ BitLen (paddr p)"
    by (simp only: e)
  then show ?thesis
    using top_iff [of "top p" p] by (simp add: base_def)
qed

lemma Next_val:
  "a \<noteq> AddrNone \<Longrightarrow>
   (if val a + 1 < 2 ^ BitLen a then same_family a (Next a) \<and> val (Next a) = val a + 1 else Next a = AddrNone)"
proof (cases a)
  case (Addr4 w)
  then show ?thesis
    using unat32_less [of w] word_unat_eq_iff [of "w + 1" 0]
    by (cases "unat w + 1 = 2 ^ 32") (auto simp: same_family_def unat_word_ariths)
next
  case (Addr6 w)
  then show ?thesis
    using unat128_less [of w] word_unat_eq_iff [of "w + 1" 0]
    by (cases "unat w + 1 = 2 ^ 128") (auto simp: same_family_def unat_word_ariths)
qed simp

lemma Prev_val:
  "a \<noteq> AddrNone \<Longrightarrow>
   (if 0 < val a then same_family a (Prev a) \<and> val (Prev a) = val a - 1 else Prev a = AddrNone)"
  by (cases a) (auto simp: same_family_def unat_minus_one unat_eq_zero unat_gt_0)

lemma Next_rank: "a \<noteq> AddrNone \<Longrightarrow> Next a \<noteq> AddrNone \<Longrightarrow> addr_rank (Next a) = addr_rank a + 1"
  using Next_val [of a]
  by (cases a; cases "Next a") (auto simp: same_family_def split: if_splits)

lemma Prev_rank: "a \<noteq> AddrNone \<Longrightarrow> addr_rank (Prev a) < addr_rank a"
  using Prev_val [of a]
  by (cases a; cases "Prev a") (auto simp: same_family_def split: if_splits)

lemma addr_rank_bound: "addr_rank a \<le> 2 ^ 32 + 2 ^ 128"
proof (cases a)
  case (Addr4 w) then show ?thesis using unat32_less [of w] by simp
next
  case (Addr6 w) then show ?thesis using unat128_less [of w] by simp
qed simp

lemma obtain_addr:
  assumes "a \<noteq> AddrNone" and "n < 2 ^ BitLen a"
  obtains b where "same_family a b" and "val b = n"
proof (cases a)
  case (Addr4 w)
  with assms that [of "Addr4 (of_nat n)"] show ?thesis
    by (simp add: same_family_def unat_of_nat_eq)
next
  case (Addr6 w)
  with assms that [of "Addr6 (of_nat n)"] show ?thesis
    by (simp add: same_family_def unat_of_nat_eq)
qed (use assms in simp)

subsection \<open>Bytes\<close>

lemma length_be_bytes [simp]: "length (be_bytes m n) = m"
  by (simp add: be_bytes_def)

lemma length_As16 [simp]: "length (As16 a) = 16"
  by (simp add: As16_def)

lemma be_bytes_Suc: "be_bytes (Suc m) n = be_bytes m (n div 256) @ [of_nat n]"
proof -
  have "n div 256 ^ (m - i) = n div 256 div 256 ^ (m - 1 - i)" if "i < m" for i
    using that by (simp add: div_mult2_eq [symmetric] flip: power_Suc) (metis Suc_diff_Suc diff_Suc_1 diff_commute)
  then show ?thesis
    by (simp add: be_bytes_def)
qed

lemma be_nat_snoc: "be_nat (bs @ [b]) = be_nat bs * 256 + unat b"
  by (simp add: be_nat_def)

lemma be_nat_Nil [simp]: "be_nat [] = 0"
  by (simp add: be_nat_def)

lemma be_nat_be_bytes: "be_nat (be_bytes m n) = n mod 256 ^ m"
proof (induction m arbitrary: n)
  case (Suc m)
  have "be_nat (be_bytes (Suc m) n) = (n div 256 mod 256 ^ m) * 256 + n mod 256"
    by (simp add: be_bytes_Suc be_nat_snoc Suc unat_of_nat)
  also have "\<dots> = n mod 256 ^ Suc m"
    by (simp add: mod_mult2_eq mult.commute)
  finally show ?case .
qed (simp add: be_bytes_def)

lemma be_nat_less: "be_nat bs < 256 ^ length bs"
proof (induction bs rule: rev_induct)
  case (snoc b bs)
  have "unat b < 256" using unsigned_less [of b] by simp
  with snoc show ?case by (simp add: be_nat_snoc)
qed simp

lemma be_nat_append: "be_nat (xs @ ys) = be_nat xs * 256 ^ length ys + be_nat ys"
proof (induction ys rule: rev_induct)
  case (snoc y ys)
  have "be_nat (xs @ ys @ [y]) = be_nat ((xs @ ys) @ [y])" by simp
  then show ?case
    by (simp only: be_nat_snoc snoc) (simp add: algebra_simps be_nat_snoc)
qed simp

lemma as16_less: "as16_nat a < 256 ^ 16"
proof (cases a)
  case (Addr4 w) then show ?thesis using unat32_less [of w] by simp
next
  case (Addr6 w) then show ?thesis using unat128_less [of w] by simp
qed simp

lemma be_nat_As16 [simp]: "be_nat (As16 a) = as16_nat a"
  using as16_less [of a] by (simp add: As16_def be_nat_be_bytes)

text \<open>Reading the bytes back gives the address, once a 4-in-6 form is unmapped.\<close>

definition unmap_if4 :: "bool \<Rightarrow> addr \<Rightarrow> addr" where
  "unmap_if4 four a = (if four then Unmap a else a)"

lemma drop_bit_32_unat:
  fixes w :: "128 word"
  shows "drop_bit 32 w = 0xffff \<longleftrightarrow> unat w div 2 ^ 32 = 0xffff"
proof -
  have "drop_bit 32 w = 0xffff \<longleftrightarrow> unat (drop_bit 32 w) = unat (0xffff :: 128 word)"
    by (simp add: word_unat_eq_iff)
  then show ?thesis by (simp only: unat_drop_bit) simp
qed

lemma Unmap_of_nat4:
  assumes "n < 2 ^ 32"
  shows "Unmap (Addr6 (of_nat (0xffff * 2 ^ 32 + n))) = Addr4 (of_nat n)"
proof -
  have u: "unat (of_nat (0xffff * 2 ^ 32 + n) :: 128 word) = 0xffff * 2 ^ 32 + n"
    using assms by (intro unat_of_nat_eq) simp
  have "drop_bit 32 (of_nat (0xffff * 2 ^ 32 + n) :: 128 word) = 0xffff"
    unfolding drop_bit_32_unat u using assms by simp
  moreover have "(ucast (of_nat (0xffff * 2 ^ 32 + n) :: 128 word) :: 32 word) = of_nat n"
  proof (rule word_unat_eq_iff [THEN iffD2])
    have "(0xffff * 2 ^ 32 + n) mod 2 ^ 32 = n"
      using assms by (simp only: mod_mult_self3 mod_less)
    then show "unat (ucast (of_nat (0xffff * 2 ^ 32 + n) :: 128 word) :: 32 word) = unat (of_nat n :: 32 word)"
      using assms u by (simp only: unsigned_ucast_eq take_bit_nat_def unat_of_nat_eq len_num1 len_bit0 len_bit1) (simp add: unat_of_nat)
  qed
  ultimately show ?thesis by simp
qed

lemma Unmap_other: "n < 2 ^ 128 \<Longrightarrow> n div 2 ^ 32 \<noteq> 0xffff \<Longrightarrow> Unmap (Addr6 (of_nat n)) = Addr6 (of_nat n)"
  by (simp add: drop_bit_32_unat unat_of_nat_eq)

end
