(* ===== verification/Text.thy ===== *)
theory Text
  imports Netip
begin

text \<open>
  Text the program exchanges and compares: hexadecimal (\<open>encoding/hex\<close>), decimal, the written form
  of addresses and prefixes (\<open>netip.Addr.String\<close>, \<open>netip.Prefix.String\<close>), host and port, and the
  newline-terminated lines its signed messages are made of.

  The lemmas say which characters a rendering can hold and that messages built of lines can be
  taken apart again, which is what the injectivity of every signed message rests on.
\<close>

definition hexdigit :: "nat \<Rightarrow> char" where
  "hexdigit n = char_of (if n < 10 then 48 + n else 87 + n)"

definition hex_encode :: "string \<Rightarrow> string" where
  "hex_encode s = concat (map (\<lambda>c. [hexdigit (of_char c div 16), hexdigit (of_char c mod 16)]) s)"

definition unhex :: "char \<Rightarrow> nat option" where
  "unhex c =
     (let n = of_char c in
      if 48 \<le> n \<and> n \<le> 57 then Some (n - 48)
      else if 97 \<le> n \<and> n \<le> 102 then Some (n - 87)
      else if 65 \<le> n \<and> n \<le> 70 then Some (n - 55)
      else None)"

fun hex_decode :: "string \<Rightarrow> string option" where
  "hex_decode [] = Some []"
| "hex_decode [c] = None"
| "hex_decode (a # b # s) =
     (case (unhex a, unhex b) of
        (Some x, Some y) \<Rightarrow> map_option (\<lambda>t. char_of (x * 16 + y) # t) (hex_decode s)
      | _ \<Rightarrow> None)"

fun hex_of :: "nat \<Rightarrow> string" where
  "hex_of n = (if n < 16 then [hexdigit n] else hex_of (n div 16) @ [hexdigit (n mod 16)])"

declare hex_of.simps [simp del]

definition groups6 :: "128 word \<Rightarrow> nat list" where
  "groups6 w = map (\<lambda>i. unat w div 2 ^ (16 * (7 - i)) mod 2 ^ 16) [0..<8]"

definition zero_run :: "nat list \<Rightarrow> nat \<times> nat" where
  "zero_run gs =
     foldl (\<lambda>(start, len) i.
              let l = length (takeWhile (\<lambda>g. g = 0) (drop i gs)) in
              if 2 \<le> l \<and> len < l then (i, l) else (start, len)) (0, 0) [0..<length gs]"

definition string6 :: "nat list \<Rightarrow> string" where
  "string6 gs =
     (let (start, len) = zero_run gs in
      if len = 0 then join '':'' (map hex_of gs)
      else join '':'' (map hex_of (take start gs)) @ ''::'' @ join '':'' (map hex_of (drop (start + len) gs)))"

definition string4 :: "nat \<Rightarrow> string" where
  "string4 n = join ''.'' (map (\<lambda>i. digits_of (n div 256 ^ (3 - i) mod 256)) [0..<4])"

fun AddrString :: "addr \<Rightarrow> string" where
  "AddrString AddrNone = ''invalid IP''"
| "AddrString (Addr4 w) = string4 (unat w)"
| "AddrString (Addr6 w) =
     (if unat w div 2 ^ 32 = 0xffff then ''::ffff:'' @ string4 (unat w mod 2 ^ 32) else string6 (groups6 w))"

definition PrefixString :: "prefix \<Rightarrow> string" where
  "PrefixString p =
     (if PrefixIsValid p then AddrString (paddr p) @ ''/'' @ digits_of (nat (pbits p))
      else ''invalid Prefix'')"

definition JoinHostPort :: "string \<Rightarrow> string \<Rightarrow> string" where
  "JoinHostPort host port =
     (if CHR '':'' \<in> set host then ''['' @ host @ '']:'' @ port else host @ '':'' @ port)"

definition unlines :: "string list \<Rightarrow> string" where
  "unlines ls = concat (map (\<lambda>l. l @ [nl]) ls)"

section \<open>Hexadecimal\<close>

lemma unhex_hexdigit: "n < 16 \<Longrightarrow> unhex (hexdigit n) = Some n"
  by (simp add: unhex_def hexdigit_def Let_def)

lemma hex_decode_encode [simp]: "hex_decode (hex_encode s) = Some s"
proof (induction s)
  case (Cons c s)
  have "(of_char c :: nat) div 16 < 16"
    using of_char_less_256 [of c] by (simp add: less_mult_imp_div_less)
  then show ?case
    using Cons by (simp add: hex_encode_def unhex_hexdigit)
qed (simp add: hex_encode_def)

lemma hex_encode_inj: "hex_encode s = hex_encode t \<longleftrightarrow> s = t"
  by (metis hex_decode_encode option.inject)

lemma length_hex_encode [simp]: "length (hex_encode s) = 2 * length s"
  by (induction s) (auto simp: hex_encode_def)

definition alnum :: "char \<Rightarrow> bool" where
  "alnum c \<longleftrightarrow> is_digit c \<or> is_lower c"

lemma hexdigit_alnum: "n < 16 \<Longrightarrow> alnum (hexdigit n)"
  by (auto simp: alnum_def hexdigit_def is_digit_def is_lower_def Let_def)

lemma hex_encode_chars: "c \<in> set (hex_encode s) \<Longrightarrow> alnum c"
proof (induction s)
  case (Cons d s)
  have "(of_char d :: nat) div 16 < 16"
    using of_char_less_256 [of d] by (simp add: less_mult_imp_div_less)
  then have "alnum (hexdigit (of_char d div 16))" and "alnum (hexdigit (of_char d mod 16))"
    by (simp_all add: hexdigit_alnum)
  with Cons show ?case by (auto simp: hex_encode_def)
qed (simp add: hex_encode_def)

lemma hex_of_chars: "c \<in> set (hex_of n) \<Longrightarrow> alnum c"
proof (induction n rule: hex_of.induct)
  case (1 n)
  show ?case
  proof (cases "n < 16")
    case True
    with "1.prems" hexdigit_alnum [OF True] show ?thesis by (simp add: hex_of.simps [of n])
  next
    case False
    with "1.prems" hexdigit_alnum [of "n mod 16"] "1.IH" show ?thesis by (auto simp: hex_of.simps [of n])
  qed
qed

section \<open>Characters of a rendering\<close>

text \<open>Nothing a prefix is written with can end a line or separate two prefixes.\<close>

definition inert :: "string \<Rightarrow> bool" where
  "inert s \<longleftrightarrow> (\<forall>c \<in> set s. c \<noteq> nl \<and> c \<noteq> CHR '','')"

lemma inert_simps [simp]:
  "inert []" "inert (c # s) \<longleftrightarrow> c \<noteq> nl \<and> c \<noteq> CHR '','' \<and> inert s" "inert (s @ t) \<longleftrightarrow> inert s \<and> inert t"
  by (auto simp: inert_def)

lemma nl_ne [simp]: "CHR '':'' \<noteq> nl" "CHR ''.'' \<noteq> nl" "CHR ''/'' \<noteq> nl" "CHR ''f'' \<noteq> nl"
  by (simp_all add: nl_def)

lemma inert_join: "inert sep \<Longrightarrow> (\<And>s. s \<in> set ss \<Longrightarrow> inert s) \<Longrightarrow> inert (join sep ss)"
  by (induction sep ss rule: join.induct) auto

lemma alnum_inert: "(\<And>c. c \<in> set s \<Longrightarrow> alnum c) \<Longrightarrow> inert s"
  unfolding inert_def alnum_def is_digit_def is_lower_def nl_def by force

lemma inert_digits [simp]: "inert (digits_of n)"
  by (rule alnum_inert) (simp add: alnum_def digits_of_digits)

lemma inert_hex_of [simp]: "inert (hex_of n)"
  by (rule alnum_inert) (rule hex_of_chars)

lemma inert_string4 [simp]: "inert (string4 n)"
  unfolding string4_def by (rule inert_join) auto

lemma inert_string6 [simp]: "inert (string6 gs)"
proof -
  have "inert (join '':'' (map hex_of hs))" for hs by (rule inert_join) auto
  then show ?thesis by (simp add: string6_def split: prod.split)
qed

lemma inert_AddrString [simp]: "inert (AddrString a)"
proof -
  have "inert ''invalid IP''" by (simp add: inert_def nl_def)
  then show ?thesis by (cases a) (simp_all del: inert_simps(2), simp_all)
qed

lemma inert_PrefixString: "inert (PrefixString p)"
proof -
  have "inert ''invalid Prefix''" by (simp add: inert_def nl_def)
  then show ?thesis by (simp add: PrefixString_def del: inert_simps(2)) simp
qed

lemma PrefixString_ne: "PrefixString p \<noteq> []"
  by (simp add: PrefixString_def)

section \<open>Lines\<close>

lemma unlines_simps [simp]:
  "unlines [] = []" "unlines (l # ls) = l @ nl # unlines ls" "unlines (ls @ ms) = unlines ls @ unlines ms"
  by (simp_all add: unlines_def)

lemma split_unlines: "\<forall>l \<in> set ls. nl \<notin> set l \<Longrightarrow> split_on nl (unlines ls) = ls @ [[]]"
  by (induction ls) (simp_all add: split_on_append)

lemma unlines_inj:
  assumes "\<forall>l \<in> set ls. nl \<notin> set l" and "\<forall>l \<in> set ms. nl \<notin> set l" and "unlines ls = unlines ms"
  shows "ls = ms"
  using split_unlines [OF assms(1)] split_unlines [OF assms(2)] assms(3) by (metis append_same_eq)

lemma join_comma_inj:
  assumes "\<forall>s \<in> set ss. c \<notin> set s \<and> s \<noteq> []" and "\<forall>s \<in> set ts. c \<notin> set s \<and> s \<noteq> []"
    and "join [c] ss = join [c] ts"
  shows "ss = ts"
proof -
  have ne: "us = []" if "join [c] us = []" "\<forall>s \<in> set us. c \<notin> set s \<and> s \<noteq> []" for us
  proof (cases us)
    case (Cons u vs)
    with that show ?thesis by (cases vs) auto
  qed simp
  show ?thesis
  proof (cases "ss = [] \<or> ts = []")
    case True
    with ne [of ss] ne [of ts] assms show ?thesis by (metis join.simps(1))
  next
    case False
    with split_on_join [of ss c] split_on_join [of ts c] assms show ?thesis by metis
  qed
qed

text \<open>A line \<open>key=value\<close> is determined by its two halves when the key has no \<open>=\<close>.\<close>

lemma pair_line_inj:
  assumes "c \<notin> set k" and "c \<notin> set l" and "k @ c # v = l @ c # w"
  shows "k = l \<and> v = w"
  using assms
proof (induction k arbitrary: l)
  case Nil
  then show ?case by (cases l) auto
next
  case (Cons a k)
  then show ?case by (cases l) auto
qed

end
