(* ===== verification/Parse.thy ===== *)
theory Parse
  imports Text
begin

text \<open>
  Reading text: the parsers of Go's library the program uses, \<open>strings.Cut\<close>, \<open>strconv.ParseUint\<close>,
  \<open>strconv.Atoi\<close>, \<open>netip.ParseAddr\<close>, \<open>netip.ParsePrefix\<close> and \<open>net.SplitHostPort\<close>. An error is
  \<open>None\<close>: the program passes its text on and never looks into it.

  The lemmas say that what comes out of a parser is well formed, and that the parsers read back what
  the program writes.
\<close>

section \<open>Cutting\<close>

definition cut_char :: "char \<Rightarrow> string \<Rightarrow> (string \<times> string) option" where
  "cut_char c s =
     (case dropWhile (\<lambda>d. d \<noteq> c) s of
        [] \<Rightarrow> None
      | _ # rest \<Rightarrow> Some (takeWhile (\<lambda>d. d \<noteq> c) s, rest))"

definition cut_last :: "char \<Rightarrow> string \<Rightarrow> (string \<times> string) option" where
  "cut_last c s = map_option (\<lambda>(a, b). (rev b, rev a)) (cut_char c (rev s))"

fun Cut :: "string \<Rightarrow> string \<Rightarrow> (string \<times> string) option" where
  "Cut [] sep = (if sep = [] then Some ([], []) else None)"
| "Cut (c # s) sep =
     (if HasPrefix (c # s) sep then Some ([], drop (length sep) (c # s))
      else map_option (\<lambda>(a, b). (c # a, b)) (Cut s sep))"

section \<open>Numbers\<close>

definition digits_val :: "string \<Rightarrow> nat" where
  "digits_val s = foldl (\<lambda>n c. 10 * n + (of_char c - 48)) 0 s"

definition decimal :: "string \<Rightarrow> nat option" where
  "decimal s = (if s \<noteq> [] \<and> list_all is_digit s then Some (digits_val s) else None)"

definition ParseUint16 :: "string \<Rightarrow> 16 word option" where
  "ParseUint16 s =
     (case decimal s of
        None \<Rightarrow> None
      | Some n \<Rightarrow> if n < 2 ^ 16 then Some (of_nat n) else None)"

definition Atoi :: "string \<Rightarrow> int option" where
  "Atoi s =
     (let negative = HasPrefix s ''-'';
          body = (if HasPrefix s ''-'' \<or> HasPrefix s ''+'' then tl s else s)
      in case decimal body of
           None \<Rightarrow> None
         | Some n \<Rightarrow>
             if negative then (if n \<le> 2 ^ 63 then Some (- int n) else None)
             else if n < 2 ^ 63 then Some (int n) else None)"

section \<open>Addresses\<close>

definition octet :: "string \<Rightarrow> nat option" where
  "octet s =
     (case decimal s of
        None \<Rightarrow> None
      | Some n \<Rightarrow> if 1 < length s \<and> hd s = CHR ''0'' \<or> 255 < n then None else Some n)"

definition parse4 :: "string \<Rightarrow> nat option" where
  "parse4 s =
     (case map octet (split_on dot s) of
        [Some a, Some b, Some c, Some d] \<Rightarrow> Some (((a * 256 + b) * 256 + c) * 256 + d)
      | _ \<Rightarrow> None)"

definition hex_val :: "string \<Rightarrow> nat" where
  "hex_val s = foldl (\<lambda>n c. 16 * n + the_default 0 (unhex c)) 0 s"

definition hex_run :: "string \<Rightarrow> string" where
  "hex_run s = takeWhile (\<lambda>c. unhex c \<noteq> None) s"

text \<open>
  The loop of \<open>parseIPv6\<close>, over the groups of 16 bits it has so far and the number of groups before
  the ellipsis.
\<close>

function groups_loop :: "string \<Rightarrow> nat list \<Rightarrow> nat option \<Rightarrow> (nat list \<times> nat option) option" where
  "groups_loop s gs ell =
     (if 8 \<le> length gs then (if s = [] then Some (gs, ell) else None)
      else
        (let run = hex_run s; rest = drop (length run) s in
         if run = [] \<or> 4 < length run then None
         else case rest of
                [] \<Rightarrow> Some (gs @ [hex_val run], ell)
              | c # tail \<Rightarrow>
                  if c = dot then
                    (if ell = None \<and> length gs \<noteq> 6 \<or> 6 < length gs then None
                     else map_option (\<lambda>n. (gs @ [n div 2 ^ 16, n mod 2 ^ 16], ell)) (parse4 s))
                  else if c \<noteq> CHR '':'' \<or> tail = [] then None
                  else if hd tail = CHR '':'' then
                    (if ell \<noteq> None then None
                     else if tl tail = [] then Some (gs @ [hex_val run], Some (length gs + 1))
                     else groups_loop (tl tail) (gs @ [hex_val run]) (Some (length gs + 1)))
                  else groups_loop tail (gs @ [hex_val run]) ell))"
  by pat_completeness auto
termination
  by (relation "measure (\<lambda>(s, gs, ell). 8 - length gs)") auto

declare groups_loop.simps [simp del]

definition groups_val :: "nat list \<Rightarrow> nat" where
  "groups_val gs = foldl (\<lambda>n g. 2 ^ 16 * n + g) 0 gs"

definition fill_groups :: "nat list \<Rightarrow> nat option \<Rightarrow> nat list option" where
  "fill_groups gs ell =
     (case ell of
        None \<Rightarrow> if length gs = 8 then Some gs else None
      | Some k \<Rightarrow> if 8 \<le> length gs then None else Some (take k gs @ replicate (8 - length gs) 0 @ drop k gs))"

definition parse6 :: "string \<Rightarrow> nat option" where
  "parse6 s =
     (if s = ''::'' then Some 0
      else case (if HasPrefix s ''::'' then groups_loop (drop 2 s) [] (Some 0) else groups_loop s [] None) of
             None \<Rightarrow> None
           | Some (gs, ell) \<Rightarrow> map_option groups_val (fill_groups gs ell))"

text \<open>An address and its zone. The zone is what keeps an address out of a prefix.\<close>

definition ParseAddr :: "string \<Rightarrow> (addr \<times> string) option" where
  "ParseAddr s =
     (case find (\<lambda>c. c \<in> {dot, CHR '':'', CHR ''%''}) s of
        None \<Rightarrow> None
      | Some c \<Rightarrow>
          if c = dot then map_option (\<lambda>n. (Addr4 (of_nat n), [])) (parse4 s)
          else if c = CHR ''%'' then None
          else (case cut_char (CHR ''%'') s of
                 None \<Rightarrow> map_option (\<lambda>n. (Addr6 (of_nat n), [])) (parse6 s)
               | Some (a, zone) \<Rightarrow> if zone = [] then None else map_option (\<lambda>n. (Addr6 (of_nat n), zone)) (parse6 a)))"

definition ParsePrefix :: "string \<Rightarrow> prefix option" where
  "ParsePrefix s =
     (case cut_last (CHR ''/'') s of
        None \<Rightarrow> None
      | Some (ip, bits) \<Rightarrow>
          (case ParseAddr ip of
             None \<Rightarrow> None
           | Some (a, zone) \<Rightarrow>
               if zone \<noteq> [] then None
               else if 1 < length bits \<and> \<not> (CHR ''1'' \<le> hd bits \<and> hd bits \<le> CHR ''9'') then None
               else (case Atoi bits of
                      None \<Rightarrow> None
                    | Some n \<Rightarrow> if n < 0 \<or> int (BitLen a) < n then None else Some (Prefix a n))))"

section \<open>Host and port\<close>

definition SplitHostPort :: "string \<Rightarrow> (string \<times> string) option" where
  "SplitHostPort s =
     (case cut_last (CHR '':'') s of
        None \<Rightarrow> None
      | Some (before, port) \<Rightarrow>
          if hd s = CHR ''['' then
            (case cut_char (CHR '']'') s of
               None \<Rightarrow> None
             | Some (inner, behind) \<Rightarrow>
                 if behind = CHR '':'' # port \<and> CHR ''['' \<notin> set (tl inner) \<and> CHR ''['' \<notin> set port \<and> CHR '']'' \<notin> set port
                 then Some (tl inner, port) else None)
          else if CHR '':'' \<in> set before \<or> CHR ''['' \<in> set s \<or> CHR '']'' \<in> set s then None
          else Some (before, port))"

section \<open>Facts about cutting\<close>

lemma cut_char_append:
  assumes "c \<notin> set a"
  shows "cut_char c (a @ c # b) = Some (a, b)"
proof -
  have "dropWhile (\<lambda>d. d \<noteq> c) (a @ c # b) = c # b" "takeWhile (\<lambda>d. d \<noteq> c) (a @ c # b) = a"
    using assms by (induction a) auto
  then show ?thesis by (simp add: cut_char_def)
qed

lemma cut_char_none: "cut_char c s = None \<longleftrightarrow> c \<notin> set s"
proof -
  have "cut_char c s = None \<longleftrightarrow> dropWhile (\<lambda>d. d \<noteq> c) s = []"
    by (simp add: cut_char_def del: dropWhile_eq_Nil_conv split: list.split)
  then show ?thesis by (auto simp only: dropWhile_eq_Nil_conv)
qed

lemma cut_char_Some: "cut_char c s = Some (a, b) \<longleftrightarrow> s = a @ c # b \<and> c \<notin> set a"
proof
  assume "cut_char c s = Some (a, b)"
  then show "s = a @ c # b \<and> c \<notin> set a"
    by (induction s arbitrary: a) (auto simp: cut_char_def split: list.splits if_splits)
qed (auto simp: cut_char_append)

lemma cut_last_Some: "cut_last c s = Some (a, b) \<longleftrightarrow> s = a @ c # b \<and> c \<notin> set b"
proof -
  have "cut_last c s = Some (a, b) \<longleftrightarrow> cut_char c (rev s) = Some (rev b, rev a)"
    by (auto simp: cut_last_def)
  also have "\<dots> \<longleftrightarrow> s = a @ c # b \<and> c \<notin> set b"
    by (auto simp: cut_char_Some) (metis append.assoc append_Cons append_Nil rev.simps(2) rev_append rev_rev_ident)
  finally show ?thesis .
qed

lemma cut_last_none: "cut_last c s = None \<longleftrightarrow> c \<notin> set s"
  by (simp add: cut_last_def cut_char_none)

lemma cut_last_append: "c \<notin> set b \<Longrightarrow> cut_last c (a @ c # b) = Some (a, b)"
  by (simp add: cut_last_Some)

text \<open>A host and a port that are joined come apart again.\<close>

lemma SplitHostPort_JoinHostPort:
  assumes "CHR ''['' \<notin> set h" "CHR '']'' \<notin> set h"
    and "CHR ''['' \<notin> set p" "CHR '']'' \<notin> set p" "CHR '':'' \<notin> set p"
  shows "SplitHostPort (JoinHostPort h p) = Some (h, p)"
proof (cases "CHR '':'' \<in> set h")
  case True
  have "cut_last (CHR '':'') (''['' @ h @ '']'' @ '':'' @ p) = Some (''['' @ h @ '']'', p)"
    using cut_last_append [OF assms(5), of "''['' @ h @ '']''"] by simp
  moreover have "cut_char (CHR '']'') (''['' @ h @ '']'' @ '':'' @ p) = Some (''['' @ h, '':'' @ p)"
    using cut_char_append [of "CHR '']''" "''['' @ h" "'':'' @ p"] assms(2) by simp
  ultimately show ?thesis using True assms by (simp add: SplitHostPort_def JoinHostPort_def)
next
  case False
  then have "cut_last (CHR '':'') (h @ '':'' @ p) = Some (h, p)" using cut_last_append [OF assms(5)] by simp
  moreover have "hd (h @ '':'' @ p) \<noteq> CHR ''[''" using assms(1) by (cases h) auto
  ultimately show ?thesis using False assms by (simp add: SplitHostPort_def JoinHostPort_def)
qed

section \<open>What the parsers accept\<close>

lemma ParseAddr_valid: "ParseAddr s = Some (a, z) \<Longrightarrow> IsValid a"
  by (auto simp: ParseAddr_def split: option.splits if_splits prod.splits)

lemma ParsePrefix_wf: "ParsePrefix s = Some p \<Longrightarrow> wf_prefix p"
  by (auto simp: ParsePrefix_def wf_prefix_def split: option.splits if_splits prod.splits dest: ParseAddr_valid)

section \<open>Reading back what is written\<close>

lemma digits_val_append: "digits_val (s @ [c]) = 10 * digits_val s + (of_char c - 48)"
  by (simp add: digits_val_def)

lemma decimal_digits_of [simp]: "decimal (digits_of n) = Some n"
proof -
  have "digits_val (digits_of n) = n"
  proof (induction n rule: digits_of.induct)
    case (1 n)
    have lt: "48 + n mod 10 < 256" by simp
    show ?case
    proof (cases "n < 10")
      case True
      then show ?thesis by (simp add: digits_of.simps [of n] digits_val_def)
    next
      case False
      then have "digits_val (digits_of n) = 10 * digits_val (digits_of (n div 10)) + n mod 10"
        using lt by (simp add: digits_of.simps [of n] digits_val_append)
      with 1 [OF False] show ?thesis by simp
    qed
  qed
  then show ?thesis using digits_of_digits [of _ n] by (simp add: decimal_def list_all_iff)
qed

lemma digits_of_lead: "0 < n \<Longrightarrow> hd (digits_of n) \<noteq> CHR ''0''"
proof (induction n rule: digits_of.induct)
  case (1 n)
  show ?case
  proof (cases "n < 10")
    case True
    then have "(of_char (char_of (48 + n) :: char) :: nat) \<noteq> of_char CHR ''0''" using 1(2) by simp
    then have "char_of (48 + n) \<noteq> CHR ''0''" by metis
    then show ?thesis using True by (simp add: digits_of.simps [of n])
  next
    case False
    then have "0 < n div 10" by (simp add: div_greater_zero_iff)
    with 1(1) [OF False] False show ?thesis by (simp add: digits_of.simps [of n])
  qed
qed

lemma digits_of_zero [simp]: "digits_of 0 = ''0''"
  by code_simp

lemma octet_digits_of: "n < 256 \<Longrightarrow> octet (digits_of n) = Some n"
  using digits_of_lead [of n] decimal_digits_of [of n] by (cases "n = 0") (simp_all add: octet_def)

lemma digits_of_no: "\<not> is_digit c \<Longrightarrow> c \<notin> set (digits_of n)"
  using digits_of_digits by blast

lemma Atoi_digits_of: "n < 2 ^ 63 \<Longrightarrow> Atoi (digits_of n) = Some (int n)"
proof -
  assume n: "n < 2 ^ 63"
  have "\<not> HasPrefix (digits_of n) ''-''" "\<not> HasPrefix (digits_of n) ''+''"
    using digits_of_no [of "CHR ''-''" n] digits_of_no [of "CHR ''+''" n] by (auto simp: HasPrefix_iff is_digit_def)
  then show ?thesis using n by (simp add: Atoi_def)
qed

lemma parse4_string4: "n < 2 ^ 32 \<Longrightarrow> parse4 (string4 n) = Some n"
proof -
  assume n: "n < 2 ^ 32"
  let ?o = "\<lambda>i. n div 256 ^ (3 - i) mod 256"
  have d: "dot \<notin> set (digits_of m)" for m by (rule digits_of_no) (simp add: dot_def is_digit_def)
  have j: "string4 n = join [dot] (map (\<lambda>i. digits_of (?o i)) [0..<4])" by (simp add: string4_def dot_def)
  have "split_on dot (string4 n) = map (\<lambda>i. digits_of (?o i)) [0..<4]"
    unfolding j by (rule split_on_join) (use d in auto)
  then have "map octet (split_on dot (string4 n)) = map (\<lambda>i. Some (?o i)) [0..<4]"
    using octet_digits_of by simp
  moreover have "[0..<4] = [0, 1, 2, 3 :: nat]" by (simp add: upt_rec)
  moreover have "((?o 0 * 256 + ?o 1) * 256 + ?o 2) * 256 + ?o 3 = n"
  proof -
    have "n div 256 div 256 div 256 < 256" using n by simp
    then have "?o 0 = n div 256 div 256 div 256" by (simp add: div_mult2_eq [symmetric])
    moreover have "?o 1 = n div 256 div 256 mod 256" "?o 2 = n div 256 mod 256" "?o 3 = n mod 256"
      by (simp_all add: div_mult2_eq [symmetric])
    ultimately show ?thesis by presburger
  qed
  ultimately show ?thesis by (simp add: parse4_def del: mod_less div_less)
qed

lemma string4_chars: "c \<in> set (string4 n) \<Longrightarrow> is_digit c \<or> c = dot"
proof -
  have "set (join ''.'' ss) \<subseteq> {dot} \<union> \<Union> (set ` set ss)" for ss
    by (induction "''.''" ss rule: join.induct) (auto simp: dot_def)
  moreover assume "c \<in> set (string4 n)"
  ultimately show ?thesis using digits_of_digits unfolding string4_def by fastforce
qed

lemma ParseAddr_string4: "ParseAddr (AddrString (Addr4 w)) = Some (Addr4 w, [])"
proof -
  have "dot \<in> set (string4 (unat w))"
    by (simp add: string4_def upt_rec dot_def)
  then obtain c where c: "find (\<lambda>c. c \<in> {dot, CHR '':'', CHR ''%''}) (string4 (unat w)) = Some c"
    using find_NoneD [of "\<lambda>c. c \<in> {dot, CHR '':'', CHR ''%''}" "string4 (unat w)" dot] by fastforce
  with string4_chars [of c] find_SomeD [OF c] have "c = dot" by (auto simp: is_digit_def)
  moreover have "parse4 (string4 (unat w)) = Some (unat w)" by (rule parse4_string4) (use unsigned_less [of w] in simp)
  ultimately show ?thesis using c by (simp add: ParseAddr_def)
qed

lemma bits_lead: "1 < length (digits_of n) \<Longrightarrow> CHR ''1'' \<le> hd (digits_of n) \<and> hd (digits_of n) \<le> CHR ''9''"
proof -
  assume l: "1 < length (digits_of n)"
  then have "0 < n" by (cases n) auto
  from digits_of_lead [OF this] have z: "hd (digits_of n) \<noteq> CHR ''0''" .
  have "is_digit (hd (digits_of n))" by (rule digits_of_digits [of _ n]) (use l in \<open>simp add: hd_in_set\<close>)
  moreover from z have "(of_char (hd (digits_of n)) :: nat) \<noteq> of_char CHR ''0''" by (simp only: of_char_eq_iff not_False_eq_True)
  ultimately show ?thesis by (auto simp: is_digit_def less_eq_char_def Let_def)
qed

lemma ParsePrefix_PrefixString4:
  assumes "wf_prefix (Prefix (Addr4 w) n)"
  shows "ParsePrefix (PrefixString (Prefix (Addr4 w) n)) = Some (Prefix (Addr4 w) n)"
proof -
  have n: "0 \<le> n" "n \<le> 32" using assms by (simp_all add: wf_prefix_def)
  have "CHR ''/'' \<notin> set (digits_of (nat n))" by (rule digits_of_no) (simp add: is_digit_def)
  then have "cut_last (CHR ''/'') (AddrString (Addr4 w) @ CHR ''/'' # digits_of (nat n)) = Some (AddrString (Addr4 w), digits_of (nat n))"
    by (rule cut_last_append)
  moreover have "Atoi (digits_of (nat n)) = Some n" using n by (subst Atoi_digits_of) simp_all
  ultimately show ?thesis using assms n ParseAddr_string4 [of w] bits_lead [of "nat n"]
    by (auto simp: ParsePrefix_def PrefixString_def PrefixIsValid_def simp del: AddrString.simps)
qed

lemma decimal_Some: "decimal s = Some n \<Longrightarrow> s \<noteq> [] \<and> (\<forall>c \<in> set s. is_digit c)"
  by (auto simp: decimal_def list_all_iff split: if_splits)

lemma parse4_chars:
  assumes "parse4 s = Some n" and "c \<in> set s"
  shows "is_digit c \<or> c = dot"
proof -
  from assms(1) obtain a b c' d where "map octet (split_on dot s) = [Some a, Some b, Some c', Some d]"
    by (auto simp: parse4_def split: list.splits option.splits)
  then have "None \<notin> octet ` set (split_on dot s)" by (metis (no_types, lifting) list.set_map empty_iff insert_iff list.set(1,2) option.distinct(1))
  then have "\<forall>c \<in> set w. is_digit c" if "w \<in> set (split_on dot s)" for w
    using that decimal_Some [of w] by (cases "decimal w") (auto simp: octet_def image_iff)
  moreover have "set (join [dot] ss) \<subseteq> {dot} \<union> \<Union> (set ` set ss)" for ss
    by (induction "[dot]" ss rule: join.induct) auto
  from this [of "split_on dot s"] have "set s \<subseteq> {dot} \<union> \<Union> (set ` set (split_on dot s))" by simp
  ultimately show ?thesis using assms(2) by blast
qed

lemma find_append: "find P (xs @ ys) = (case find P xs of Some c \<Rightarrow> Some c | None \<Rightarrow> find P ys)"
  by (induction xs) auto

text \<open>An address of IPv4 with something behind it is no address.\<close>

lemma ParseAddr_string4_slash: "ParseAddr (AddrString (Addr4 w) @ CHR ''/'' # t) = None"
proof -
  let ?P = "\<lambda>c. c \<in> {dot, CHR '':'', CHR ''%''}"
  have "dot \<in> set (string4 (unat w))" by (simp add: string4_def upt_rec dot_def)
  then obtain c where c: "find ?P (string4 (unat w)) = Some c"
    using find_NoneD [of ?P "string4 (unat w)" dot] by fastforce
  with string4_chars [of c] find_SomeD [OF c] have "c = dot" by (auto simp: is_digit_def)
  moreover have "parse4 (string4 (unat w) @ CHR ''/'' # t) = None"
    using parse4_chars [of "string4 (unat w) @ CHR ''/'' # t" _ "CHR ''/''"]
    by (cases "parse4 (string4 (unat w) @ CHR ''/'' # t)") (auto simp: is_digit_def dot_def)
  ultimately show ?thesis using c by (simp add: ParseAddr_def find_append)
qed

lemma PrefixString4_chars:
  assumes "wf_prefix (Prefix (Addr4 w) n)" and "c \<in> set (PrefixString (Prefix (Addr4 w) n))"
  shows "is_digit c \<or> c = dot \<or> c = CHR ''/''"
  using assms string4_chars digits_of_digits by (auto simp: PrefixString_def PrefixIsValid_def wf_prefix_def)

end
