(* ===== verification/Codec.thy ===== *)
theory Codec
  imports Text
begin

text \<open>
  The encodings of the standard library the authentication protocol goes through: unpadded base64
  with the URL alphabet (\<open>base64.RawURLEncoding\<close>), padded base64 (\<open>base64.StdEncoding\<close>) as far as
  comparing two encodings goes, and \<open>url.QueryEscape\<close>.

  The decoder is Go's: carriage returns and newlines are skipped, and the unused bits of the last
  character are not looked at.
\<close>

section \<open>Base64\<close>

definition b64_char :: "nat \<Rightarrow> char" where
  "b64_char n =
     (if n < 26 then char_of (65 + n)
      else if n < 52 then char_of (71 + n)
      else if n < 62 then char_of (n - 4)
      else if n = 62 then CHR ''-''
      else CHR ''_'')"

definition b64_digit :: "char \<Rightarrow> nat option" where
  "b64_digit c =
     (let n = (of_char c :: nat) in
      if is_upper c then Some (n - 65)
      else if is_lower c then Some (n - 71)
      else if is_digit c then Some (n + 4)
      else if c = CHR ''-'' then Some 62
      else if c = CHR ''_'' then Some 63
      else None)"

fun sextets :: "nat list \<Rightarrow> nat list" where
  "sextets [] = []"
| "sextets [a] = [a div 4, a mod 4 * 16]"
| "sextets [a, b] = [a div 4, a mod 4 * 16 + b div 16, b mod 16 * 4]"
| "sextets (a # b # c # r) = a div 4 # (a mod 4 * 16 + b div 16) # (b mod 16 * 4 + c div 64) # c mod 64 # sextets r"

fun octets :: "nat list \<Rightarrow> nat list option" where
  "octets [] = Some []"
| "octets [p] = None"
| "octets [p, q] = Some [p * 4 + q div 16]"
| "octets [p, q, r] = Some [p * 4 + q div 16, q mod 16 * 16 + r div 4]"
| "octets (p # q # r # s # t) =
     map_option (\<lambda>u. (p * 4 + q div 16) # (q mod 16 * 16 + r div 4) # (r mod 4 * 64 + s) # u) (octets t)"

fun all_some :: "'a option list \<Rightarrow> 'a list option" where
  "all_some [] = Some []"
| "all_some (None # xs) = None"
| "all_some (Some x # xs) = map_option ((#) x) (all_some xs)"

definition b64url_encode :: "string \<Rightarrow> string" where
  "b64url_encode s = map b64_char (sextets (map of_char s))"

definition b64url_decode :: "string \<Rightarrow> string option" where
  "b64url_decode s =
     (case all_some (map b64_digit (filter (\<lambda>c. c \<noteq> CHR 0x0A \<and> c \<noteq> CHR 0x0D) s)) of
        None \<Rightarrow> None
      | Some ns \<Rightarrow> map_option (map char_of) (octets ns))"

lemma sextets_bound: "\<forall>n \<in> set ns. n < 256 \<Longrightarrow> m \<in> set (sextets ns) \<Longrightarrow> m < 64"
  by (induction ns rule: sextets.induct) auto

lemma octets_sextets: "\<forall>n \<in> set ns. n < 256 \<Longrightarrow> octets (sextets ns) = Some ns"
proof (induction ns rule: sextets.induct)
  case (4 a b c r)
  have "(a mod 4 * 16 + b div 16) div 16 = a mod 4" "(a mod 4 * 16 + b div 16) mod 16 = b div 16"
    "(b mod 16 * 4 + c div 64) div 4 = b mod 16" "(b mod 16 * 4 + c div 64) mod 4 = c div 64"
    using 4(2) by auto
  then show ?case using 4 by simp
qed (auto simp: div_add1_eq)

lemma of_char_b64_char:
  assumes "n < 64"
  shows "(of_char (b64_char n) :: nat) =
    (if n < 26 then 65 + n else if n < 52 then 71 + n else if n < 62 then n - 4 else if n = 62 then 45 else 95)"
  using assms by (simp add: b64_char_def)

lemma b64_digit_char:
  assumes "n < 64"
  shows "b64_digit (b64_char n) = Some n"
proof -
  note o = of_char_b64_char [OF assms]
  consider "n < 26" | "26 \<le> n" "n < 52" | "52 \<le> n" "n < 62" | "n = 62" | "n = 63" using assms by linarith
  then show ?thesis
  proof cases
    case 1
    then show ?thesis using o by (simp add: b64_digit_def is_upper_def Let_def)
  next
    case 2
    then show ?thesis using o by (simp add: b64_digit_def is_upper_def is_lower_def Let_def)
  next
    case 3
    then have "48 \<le> n - 4" "n - 4 \<le> 57" by linarith+
    with 3 show ?thesis using o by (simp add: b64_digit_def is_upper_def is_lower_def is_digit_def Let_def)
  qed (simp_all add: b64_char_def b64_digit_def is_upper_def is_lower_def is_digit_def Let_def)
qed

definition b64url_ok :: "char \<Rightarrow> bool" where
  "b64url_ok c \<longleftrightarrow> is_upper c \<or> is_lower c \<or> is_digit c \<or> c = CHR ''-'' \<or> c = CHR ''_''"

lemma b64_char_ok:
  assumes "n < 64"
  shows "b64url_ok (b64_char n)"
proof -
  note o = of_char_b64_char [OF assms]
  consider "n < 26" | "26 \<le> n" "n < 52" | "52 \<le> n" "n < 62" | "n = 62" | "n = 63" using assms by linarith
  then show ?thesis
  proof cases
    case 1
    then show ?thesis using o by (simp add: b64url_ok_def is_upper_def Let_def)
  next
    case 2
    then show ?thesis using o by (simp add: b64url_ok_def is_lower_def Let_def)
  next
    case 3
    then have "48 \<le> n - 4" "n - 4 \<le> 57" by linarith+
    with 3 show ?thesis using o by (simp add: b64url_ok_def is_digit_def Let_def)
  qed (simp_all add: b64_char_def b64url_ok_def)
qed

lemma b64url_ok_line: "b64url_ok c \<Longrightarrow> c \<noteq> CHR 0x0A \<and> c \<noteq> CHR 0x0D \<and> c \<noteq> CHR 0x00 \<and> c \<noteq> CHR '':'' \<and> c \<noteq> nl"
  by (auto simp: b64url_ok_def nl_def is_upper_def is_lower_def is_digit_def)

lemma b64url_encode_ok: "c \<in> set (b64url_encode s) \<Longrightarrow> b64url_ok c"
  using sextets_bound [of "map of_char s"] b64_char_ok by (auto simp: b64url_encode_def)

lemma all_some_map: "all_some (map Some xs) = Some xs"
  by (induction xs) auto

theorem b64url_decode_encode [simp]: "b64url_decode (b64url_encode s) = Some s"
proof -
  let ?ns = "map of_char s :: nat list"
  have b: "\<forall>n \<in> set ?ns. n < 256" by auto
  have "filter (\<lambda>c. c \<noteq> CHR 0x0A \<and> c \<noteq> CHR 0x0D) (b64url_encode s) = b64url_encode s"
    using b64url_encode_ok b64url_ok_line by (auto simp: filter_id_conv)
  moreover have "map b64_digit (b64url_encode s) = map Some (sextets ?ns)"
    using sextets_bound [OF b] b64_digit_char by (auto simp: b64url_encode_def)
  ultimately show ?thesis
    by (simp add: b64url_decode_def all_some_map octets_sextets [OF b] comp_def)
qed

lemma b64url_encode_inj: "b64url_encode s = b64url_encode t \<longleftrightarrow> s = t"
  by (metis b64url_decode_encode option.inject)

section \<open>Escaping a query\<close>

definition unreserved :: "char \<Rightarrow> bool" where
  "unreserved c \<longleftrightarrow> is_upper c \<or> is_lower c \<or> is_digit c
     \<or> c = CHR ''-'' \<or> c = CHR ''_'' \<or> c = CHR ''.'' \<or> c = CHR ''~''"

definition upper_hex :: "nat \<Rightarrow> char" where
  "upper_hex n = (if n < 10 then char_of (48 + n) else char_of (55 + n))"

definition escape_char :: "char \<Rightarrow> string" where
  "escape_char c =
     (if unreserved c then [c]
      else if c = CHR '' '' then ''+''
      else [CHR ''%'', upper_hex ((of_char c :: nat) div 16), upper_hex ((of_char c :: nat) mod 16)])"

definition QueryEscape :: "string \<Rightarrow> string" where
  "QueryEscape s = concat (map escape_char s)"

lemma of_char_upper_hex: "n < 16 \<Longrightarrow> (of_char (upper_hex n) :: nat) = (if n < 10 then 48 + n else 55 + n)"
  by (simp add: upper_hex_def)

lemma upper_hex_inj:
  assumes "m < 16" and "n < 16" and "upper_hex m = upper_hex n"
  shows "m = n"
proof -
  have "(if m < 10 then 48 + m else 55 + m) = (if n < 10 then 48 + n else 55 + n)"
    using of_char_upper_hex [OF assms(1)] of_char_upper_hex [OF assms(2)] assms(3) by metis
  then show ?thesis by (simp split: if_splits)
qed

lemma reserved_marks: "\<not> unreserved (CHR ''%'')" "\<not> unreserved (CHR ''+'')"
  by (simp_all add: unreserved_def is_upper_def is_lower_def is_digit_def)

lemma nibbles: "(of_char (c :: char) :: nat) div 16 < 16" "(of_char c :: nat) mod 16 < 16"
  using of_char_less_256 [of c] by (simp_all add: less_mult_imp_div_less)

lemma escape_cases:
  obtains (plain) "unreserved c" "escape_char c = [c]"
  | (space) "c = CHR '' ''" "escape_char c = ''+''"
  | (hex) "escape_char c = [CHR ''%'', upper_hex ((of_char c :: nat) div 16), upper_hex ((of_char c :: nat) mod 16)]"
  by (cases "unreserved c"; cases "c = CHR '' ''") (auto simp: escape_char_def)

lemma hex_pair_inj:
  assumes "upper_hex ((of_char c :: nat) div 16) = upper_hex ((of_char d :: nat) div 16)"
    and "upper_hex ((of_char c :: nat) mod 16) = upper_hex ((of_char d :: nat) mod 16)"
  shows "c = d"
proof -
  have "(of_char c :: nat) = of_char d"
    using upper_hex_inj [OF nibbles(1) nibbles(1) assms(1)] upper_hex_inj [OF nibbles(2) nibbles(2) assms(2)]
    by (metis div_mult_mod_eq)
  then show ?thesis by simp
qed

lemma escape_char_inj:
  assumes "escape_char c @ s = escape_char d @ t"
  shows "c = d \<and> s = t"
  using escape_cases [of c]
proof cases
  case plain
  note c = this
  show ?thesis using escape_cases [of d] by cases (use assms c reserved_marks in auto)
next
  case space
  note c = this
  show ?thesis using escape_cases [of d] by cases (use assms c reserved_marks in auto)
next
  case hex
  note c = this
  show ?thesis
    using escape_cases [of d]
  proof cases
    case hex
    then show ?thesis using assms c hex_pair_inj [of c d] by simp
  qed (use assms c reserved_marks in auto)
qed

lemma QueryEscape_inj: "QueryEscape s = QueryEscape t \<longleftrightarrow> s = t"
proof
  have ne: "escape_char c \<noteq> []" for c by (simp add: escape_char_def)
  show "QueryEscape s = QueryEscape t \<Longrightarrow> s = t"
  proof (induction s arbitrary: t)
    case Nil
    then show ?case using ne by (cases t) (auto simp: QueryEscape_def)
  next
    case (Cons c s)
    then obtain d t' where t: "t = d # t'" using ne [of c] by (cases t) (auto simp: QueryEscape_def)
    with Cons.prems have "escape_char c @ QueryEscape s = escape_char d @ QueryEscape t'" by (simp add: QueryEscape_def)
    with escape_char_inj [OF this] Cons.IH t show ?case by simp
  qed
qed simp

definition mark :: "char \<Rightarrow> bool" where
  "mark c \<longleftrightarrow> c = CHR ''='' \<or> c = CHR ''&'' \<or> c = nl"

lemma unreserved_mark: "unreserved c \<Longrightarrow> \<not> mark c"
  by (auto simp: unreserved_def mark_def nl_def is_upper_def is_lower_def is_digit_def)

lemma upper_hex_mark:
  assumes "n < 16"
  shows "\<not> mark (upper_hex n)"
proof
  assume "mark (upper_hex n)"
  then have "(of_char (upper_hex n) :: nat) \<in> {61, 38, 10}" by (auto simp: mark_def nl_def)
  then show False using of_char_upper_hex [OF assms] by (simp split: if_splits)
qed

lemma QueryEscape_mark: "c \<in> set (QueryEscape s) \<Longrightarrow> \<not> mark c"
proof -
  have "\<not> mark c" if "c \<in> set (escape_char x)" for x
    using escape_cases [of x]
  proof cases
    case hex
    then show ?thesis using that upper_hex_mark nibbles [of x] by (auto simp: mark_def nl_def)
  qed (use that unreserved_mark in \<open>auto simp: mark_def nl_def\<close>)
  then show "c \<in> set (QueryEscape s) \<Longrightarrow> \<not> mark c" by (auto simp: QueryEscape_def)
qed

end
