(* ===== verification/Ipam.thy ===== *)
theory Ipam
  imports Text
begin

text \<open>
  Address management, \<open>src/internal/hub/ipam.go\<close>: the walks that pick a free address in a prefix
  (\<open>lowestFree\<close>, \<open>highestFree\<close>), the byte arithmetic under them (\<open>lastAddr\<close>, \<open>nextSubnet\<close>), the
  carving of instance prefixes out of the configured pools (\<open>allocateOverlay\<close>) and the sticky
  choice both families share (\<open>fromPool\<close>). A \<open>map[netip.Addr]struct\{\}\<close> used as a set is the list
  of its keys.

  Both walks are proved equal to the obvious specification, the least and the greatest free host
  of the prefix; the byte loops are proved to be addition and masking on the address's number.
\<close>

datatype ipam_err =
    InvalidPrefix
  | PoolExhausted
  | NoPoolConfigured
  | SizeDoesNotFit int prefix
  | PoolsFull string

definition KindConnector :: string where "KindConnector = ''connector''"
definition KindTenant :: string where "KindTenant = ''tenant''"
definition KindOwner :: string where "KindOwner = ''owner''"

section \<open>Definitions\<close>

definition isBroadcast :: "prefix \<Rightarrow> addr \<Rightarrow> bool" where
  "isBroadcast p a =
     (if \<not> Is4 a then False
      else if 31 \<le> pbits p then False
      else let n = Next a in \<not> IsValid n \<or> \<not> Contains p n)"

function lowest_loop :: "prefix \<Rightarrow> addr list \<Rightarrow> addr \<Rightarrow> ipam_err + addr" where
  "lowest_loop p taken a =
     (if Contains p a then
        if a \<notin> set taken \<and> \<not> isBroadcast p a then Inr a
        else lowest_loop p taken (Next a)
      else Inl PoolExhausted)"
  by pat_completeness auto
termination
proof (relation "measure (\<lambda>(p, t, a). if a = AddrNone then 0 else 2 ^ 32 + 2 ^ 128 + 1 - addr_rank a)", goal_cases)
  case (2 p t a)
  then have a: "a \<noteq> AddrNone" by (auto simp: Contains_valid)
  show ?case
  proof (cases "Next a = AddrNone")
    case False
    with a Next_rank [OF a False] addr_rank_bound [of "Next a"] show ?thesis by simp
  next
    case True
    then show ?thesis using a addr_rank_bound [of a] by simp
  qed
qed simp

declare lowest_loop.simps [simp del]

definition lowestFree :: "prefix \<Rightarrow> addr list \<Rightarrow> ipam_err + addr" where
  "lowestFree p taken =
     (if \<not> PrefixIsValid p then Inl InvalidPrefix
      else lowest_loop p taken (Next (paddr (Masked p))))"

definition set_host_bit :: "8 word list \<Rightarrow> nat \<Rightarrow> 8 word list" where
  "set_host_bit raw i = raw[15 - i div 8 := raw ! (15 - i div 8) OR push_bit (i mod 8) 1]"

definition lastAddr :: "prefix \<Rightarrow> addr" where
  "lastAddr p =
     (let b = paddr (Masked p);
          raw = foldl set_host_bit (As16 b) [0..<nat (int (BitLen b) - pbits p)]
      in case AddrFromSlice raw of
           None \<Rightarrow> AddrNone
         | Some out \<Rightarrow> if Is4 b then Unmap out else out)"

function highest_loop :: "prefix \<Rightarrow> addr list \<Rightarrow> addr \<Rightarrow> ipam_err + addr" where
  "highest_loop p taken a =
     (if Contains p a then
        if a \<notin> set taken \<and> \<not> isBroadcast p a \<and> a \<noteq> paddr (Masked p) then Inr a
        else highest_loop p taken (Prev a)
      else Inl PoolExhausted)"
  by pat_completeness auto
termination
  by (relation "measure (\<lambda>(p, t, a). addr_rank a)") (auto intro: Prev_rank dest: Contains_valid)

declare highest_loop.simps [simp del]

definition highestFree :: "prefix \<Rightarrow> addr list \<Rightarrow> ipam_err + addr" where
  "highestFree p taken =
     (if \<not> PrefixIsValid p then Inl InvalidPrefix
      else if \<not> IsValid (lastAddr p) then Inl InvalidPrefix
      else highest_loop p taken (lastAddr p))"

text \<open>The carry loop of \<open>nextSubnet\<close>, from index \<open>i - 1\<close> down to 0.\<close>

fun carry_loop :: "nat \<Rightarrow> 8 word list \<Rightarrow> 8 word \<Rightarrow> 8 word list \<times> 8 word" where
  "carry_loop 0 raw carry = (raw, carry)"
| "carry_loop (Suc i) raw carry =
     (let s = (ucast (raw ! i) :: 16 word) + ucast carry;
          raw' = raw[i := ucast s]
      in if s \<le> 0xff then (raw', 0) else carry_loop i raw' 1)"

definition nextSubnet :: "prefix \<Rightarrow> int \<Rightarrow> prefix option" where
  "nextSubnet p sz =
     (let a = paddr (Masked p); bits = int (BitLen a) in
      if sz < 0 \<or> bits < sz then None
      else let shift = nat (bits - sz);
               (raw, carry) = carry_loop (16 - shift div 8) (As16 a) (push_bit (shift mod 8) 1)
           in if carry \<noteq> 0 then None
              else case AddrFromSlice raw of
                     None \<Rightarrow> None
                   | Some n \<Rightarrow> Some (PrefixFrom (if Is4 a then Unmap n else n) sz))"

record Pool =
  pool_Prefix :: prefix
  pool_Size :: int

definition PoolString :: "Pool \<Rightarrow> string" where
  "PoolString p = PrefixString (pool_Prefix p) @ '' in /'' @
     (if pool_Size p < 0 then ''-'' @ digits_of (nat (- pool_Size p)) else digits_of (nat (pool_Size p)))"

definition poolList :: "Pool list \<Rightarrow> string" where
  "poolList pools = join '', '' (map (\<lambda>p. PrefixString (pool_Prefix p)) pools)"

definition reserveLighthouse :: "prefix \<Rightarrow> ipam_err + addr" where
  "reserveLighthouse p = lowestFree p []"

definition fromPool ::
  "prefix \<Rightarrow> (string, addr) gomap \<Rightarrow> string \<Rightarrow> string \<Rightarrow> addr list \<Rightarrow> ipam_err + addr" where
  "fromPool p held fingerprint kind reserved =
     (case mget held fingerprint of
        Some a \<Rightarrow> Inr a
      | None \<Rightarrow>
          let taken = vals held @ filter IsValid reserved in
          if kind = KindConnector then highestFree p taken else lowestFree p taken)"

section \<open>The byte loops are arithmetic\<close>

lemma carry_loop_length: "length (fst (carry_loop i raw c)) = length raw"
  by (induction i arbitrary: raw c) (auto simp: Let_def)

lemma carry_loop_drop: "i \<le> length raw \<Longrightarrow> drop i (fst (carry_loop i raw c)) = drop i raw"
proof (induction i arbitrary: raw c)
  case (Suc i)
  have "drop (Suc i) (fst (carry_loop i (raw[i := x]) 1)) = drop (Suc i) (raw[i := x])" for x
  proof -
    have "drop 1 (drop i (fst (carry_loop i (raw[i := x]) 1))) = drop 1 (drop i (raw[i := x]))"
      using Suc.IH [of "raw[i := x]" 1] Suc.prems by simp
    then show ?thesis by (simp del: drop_update_cancel)
  qed
  with Suc.prems show ?case by (simp add: Let_def)
qed simp

lemma unat_sum16:
  fixes b c :: "8 word"
  shows "unat ((ucast b :: 16 word) + ucast c) = unat b + unat c"
proof -
  have "unat b < 256" "unat c < 256"
    using unsigned_less [of b] unsigned_less [of c] by simp_all
  then show ?thesis
    by (simp add: unat_word_ariths unsigned_ucast_eq take_bit_nat_def)
qed

lemma carry_loop_value:
  "i \<le> length raw \<Longrightarrow>
   be_nat (take i (fst (carry_loop i raw c))) + unat (snd (carry_loop i raw c)) * 256 ^ i
     = be_nat (take i raw) + unat c"
proof (induction i arbitrary: raw c)
  case (Suc i)
  let ?s = "(ucast (raw ! i) :: 16 word) + ucast c"
  let ?raw = "raw[i := ucast ?s]"
  have us: "unat ?s = unat (raw ! i) + unat c" by (rule unat_sum16)
  have ub: "unat (ucast ?s :: 8 word) = (unat (raw ! i) + unat c) mod 256"
    by (simp add: unsigned_ucast_eq take_bit_nat_def us)
  have i: "i < length raw" using Suc.prems by simp
  have tk: "take (Suc i) xs = take i xs @ [xs ! i]" if "length xs = length raw" for xs :: "8 word list"
    using i that by (simp add: take_Suc_conv_app_nth)
  show ?case
  proof (cases "?s \<le> 0xff")
    case True
    then have "unat ?s \<le> unat (0xff :: 16 word)" by (simp only: word_le_nat_alt)
    with us have "unat (raw ! i) + unat c < 256" by simp
    with True i ub show ?thesis
      by (simp add: Let_def tk be_nat_snoc)
  next
    case False
    then have "unat (0xff :: 16 word) < unat ?s" by (simp only: word_le_nat_alt not_le)
    with us have g: "256 \<le> unat (raw ! i) + unat c" by simp
    have "unat (raw ! i) < 256" "unat c < 256"
      using unsigned_less [of "raw ! i"] unsigned_less [of c] by simp_all
    with g have m: "(unat (raw ! i) + unat c) mod 256 + 256 = unat (raw ! i) + unat c"
      by (simp add: mod_if) linarith
    let ?r = "carry_loop i ?raw 1"
    have IH: "be_nat (take i (fst ?r)) + unat (snd ?r) * 256 ^ i = be_nat (take i raw) + 1"
      using Suc.IH [of ?raw 1] i by simp
    have last: "fst ?r ! i = ucast ?s"
    proof -
      have "drop i (fst ?r) ! 0 = drop i ?raw ! 0"
        using carry_loop_drop [of i ?raw 1] i by simp
      then show ?thesis using i by (simp add: carry_loop_length)
    qed
    have "be_nat (take (Suc i) (fst ?r)) + unat (snd ?r) * 256 ^ Suc i
        = (be_nat (take i (fst ?r)) + unat (snd ?r) * 256 ^ i) * 256 + unat (ucast ?s :: 8 word)"
      using i by (simp add: tk carry_loop_length be_nat_snoc last distrib_right mult.assoc mult.commute [of 256])
    also have "\<dots> = be_nat (take i raw) * 256 + (256 + (unat (raw ! i) + unat c) mod 256)"
      by (simp add: IH ub)
    also have "\<dots> = be_nat (take (Suc i) raw) + unat c"
      using m i by (simp add: tk be_nat_snoc)
    finally show ?thesis using False by (simp add: Let_def)
  qed
qed simp

text \<open>Started at byte \<open>i\<close> with a carry, the loop adds that many units of byte \<open>i\<close> to the number.\<close>

lemma carry_loop_total:
  assumes "i \<le> length raw" and "carry_loop i raw c = (raw', c')"
  shows "be_nat raw' + unat c' * 256 ^ length raw = be_nat raw + unat c * 256 ^ (length raw - i)"
proof -
  let ?n = "length raw - i"
  have len: "length raw' = length raw"
    using carry_loop_length [of i raw c] assms(2) by simp
  have dr: "drop i raw' = drop i raw"
    using carry_loop_drop [OF assms(1), of c] assms(2) by simp
  have v: "be_nat (take i raw') + unat c' * 256 ^ i = be_nat (take i raw) + unat c"
    using carry_loop_value [OF assms(1), of c] assms(2) by simp
  have split: "be_nat xs = be_nat (take i xs) * 256 ^ ?n + be_nat (drop i xs)"
    if "length xs = length raw" for xs
    using be_nat_append [of "take i xs" "drop i xs"] that by simp
  have pw: "(256 :: nat) ^ length raw = 256 ^ i * 256 ^ ?n"
    using assms(1) by (simp flip: power_add)
  have "be_nat raw' + unat c' * 256 ^ length raw
      = (be_nat (take i raw') + unat c' * 256 ^ i) * 256 ^ ?n + be_nat (drop i raw)"
    by (simp add: split len dr pw algebra_simps)
  also have "\<dots> = be_nat raw + unat c * 256 ^ ?n"
    by (simp add: v split algebra_simps)
  finally show ?thesis .
qed

lemma unat_two_power: "k < 8 \<Longrightarrow> unat (2 ^ k :: 8 word) = 2 ^ k"
proof -
  assume "k < 8"
  then have "(2 :: nat) ^ k < 2 ^ LENGTH(8)" by (intro power_strict_increasing) simp_all
  then have "unat (of_nat (2 ^ k) :: 8 word) = 2 ^ k" by (rule unat_of_nat_eq)
  then show ?thesis by simp
qed

lemma carry_loop_addr:
  assumes "shift \<le> 128" and "carry_loop (16 - shift div 8) (As16 a) (push_bit (shift mod 8) 1) = (raw, c)"
  shows "be_nat raw + unat c * 2 ^ 128 = as16_nat a + 2 ^ shift" and "length raw = 16"
proof -
  have "shift div 8 \<le> 16" using assms(1) by simp
  then have e: "16 - (16 - shift div 8) = shift div 8" by simp
  have "(256 :: nat) ^ (shift div 8) = 2 ^ (8 * (shift div 8))"
    by (simp add: power_mult)
  then have "(2 :: nat) ^ (shift mod 8) * 256 ^ (shift div 8) = 2 ^ (shift mod 8 + 8 * (shift div 8))"
    by (simp only: power_add)
  then have "(2 :: nat) ^ (shift mod 8) * 256 ^ (shift div 8) = 2 ^ shift"
    by (simp only: mod_mult_div_eq)
  then show "be_nat raw + unat c * 2 ^ 128 = as16_nat a + 2 ^ shift"
    using carry_loop_total [OF _ assms(2)] by (simp add: push_bit_eq_mult unat_two_power e)
  show "length raw = 16"
    using carry_loop_length [of "16 - shift div 8" "As16 a" "push_bit (shift mod 8) 1"] assms(2) by simp
qed

lemma set_host_bit_bytes:
  assumes "i < 128"
  shows "set_host_bit (be_bytes 16 v) i = be_bytes 16 (v OR 2 ^ i)"
proof (rule nth_equalityI)
  fix j assume j: "j < length (set_host_bit (be_bytes 16 v) i)"
  then have j16: "j < 16" by (simp add: set_host_bit_def)
  have nth: "be_bytes 16 n ! j = of_nat (drop_bit (8 * (15 - j)) n)" for n
    using j16 by (simp add: be_bytes_def drop_bit_eq_div power_mult)
  have eq: "8 * (15 - j) + b = i \<longleftrightarrow> j = 15 - i div 8 \<and> b = i mod 8" if "b < 8" for b
  proof
    assume e: "8 * (15 - j) + b = i"
    then have "i div 8 = 15 - j" and "i mod 8 = b" using that by auto
    then show "j = 15 - i div 8 \<and> b = i mod 8" using j16 by simp
  next
    assume e: "j = 15 - i div 8 \<and> b = i mod 8"
    moreover have "i div 8 \<le> 15" using assms by simp
    ultimately have "15 - j = i div 8" by simp
    with e show "8 * (15 - j) + b = i" by simp
  qed
  show "set_host_bit (be_bytes 16 v) i ! j = be_bytes 16 (v OR 2 ^ i) ! j"
  proof (rule bit_word_eqI)
    fix b assume b: "b < LENGTH(8)"
    then have b8: "b < 8" by simp
    have "bit (set_host_bit (be_bytes 16 v) i ! j) b \<longleftrightarrow>
      bit v (8 * (15 - j) + b) \<or> j = 15 - i div 8 \<and> b = i mod 8"
      using j16 b8
      by (auto simp: set_host_bit_def nth_list_update nth bit_simps)
    also have "\<dots> \<longleftrightarrow> bit (be_bytes 16 (v OR 2 ^ i) ! j) b"
      using b8 eq [OF b8] by (auto simp: nth bit_simps)
    finally show "bit (set_host_bit (be_bytes 16 v) i ! j) b = bit (be_bytes 16 (v OR 2 ^ i) ! j) b" .
  qed
qed (simp add: set_host_bit_def)

lemma host_bits_fold:
  "n \<le> 128 \<Longrightarrow> foldl set_host_bit (be_bytes 16 v) [0..<n] = be_bytes 16 (v OR mask n)"
  by (induction n) (auto simp: set_host_bit_bytes mask_Suc_exp or.assoc or.commute or.left_commute)

lemma or_mask_aligned:
  assumes "(v :: nat) mod 2 ^ n = 0"
  shows "v OR mask n = v + (2 ^ n - 1)"
proof -
  have "v AND mask n = 0"
    using assms by (simp add: take_bit_eq_mod flip: take_bit_eq_mask)
  then have "v + mask n = v OR mask n"
    by (rule disjunctive_add_eq_or)
  then show ?thesis by (simp add: mask_eq_exp_minus_1)
qed

lemma nextSubnet_loop:
  assumes p: "wf_prefix p" and sz: "0 \<le> sz" "sz \<le> int (BitLen (paddr p))"
  defines "a \<equiv> paddr (Masked p)" and "h \<equiv> nat (int (BitLen (paddr p)) - sz)"
  shows "nextSubnet p sz =
    (if as16_nat a + 2 ^ h < 2 ^ 128
     then Some (PrefixFrom (unmap_if4 (Is4 a) (Addr6 (of_nat (as16_nat a + 2 ^ h)))) sz) else None)"
proof -
  obtain raw c where rc: "carry_loop (16 - h div 8) (As16 a) (push_bit (h mod 8) 1) = (raw, c)"
    by (cases "carry_loop (16 - h div 8) (As16 a) (push_bit (h mod 8) 1)") auto
  have bl: "BitLen a = BitLen (paddr p)"
    using Masked_addr(1) [OF p] by (simp add: a_def same_family_def)
  have h128: "h \<le> 128"
    by (cases "paddr p") (use sz in \<open>auto simp: h_def\<close>)
  note L = carry_loop_addr [OF h128 rc]
  have bl_less: "be_nat raw < 2 ^ 128"
    using be_nat_less [of raw] L(2) by simp
  have c: "c \<noteq> 0 \<longleftrightarrow> \<not> as16_nat a + 2 ^ h < 2 ^ 128"
  proof (cases "c = 0")
    case False
    then have "0 < unat c" by (simp add: unat_gt_0)
    then have "2 ^ 128 \<le> unat c * 2 ^ 128" by simp
    with L(1) False show ?thesis by linarith
  qed (use L(1) bl_less in simp)
  have v: "be_nat raw = as16_nat a + 2 ^ h" if "c = 0"
    using L(1) that by simp
  have slice: "AddrFromSlice raw = Some (Addr6 (of_nat (be_nat raw)))"
    using L(2) by (simp add: AddrFromSlice_def)
  have "nextSubnet p sz =
      (if c \<noteq> 0 then None else Some (PrefixFrom (unmap_if4 (Is4 a) (Addr6 (of_nat (be_nat raw)))) sz))"
    using sz bl rc slice unfolding nextSubnet_def unmap_if4_def
    by (simp add: Let_def a_def [symmetric] h_def)
  then show ?thesis using c v by (auto simp del: of_nat_add)
qed

text \<open>
  The successor of a subnet is the next multiple of its size. Past the last IPv4 subnet the sixteen
  byte form has no overflow to report: the carry moves into the 4-in-6 marker and what comes back is
  an IPv6 prefix, which no IPv4 pool contains.
\<close>

lemma nextSubnet_val:
  assumes p: "wf_prefix p" and sz: "0 \<le> sz" "sz \<le> int (BitLen (paddr p))"
  defines "h \<equiv> nat (int (BitLen (paddr p)) - sz)"
  shows "if base p + 2 ^ h < 2 ^ BitLen (paddr p)
         then \<exists>q. nextSubnet p sz = Some q \<and> same_family (paddr p) (paddr q) \<and> pbits q = sz
                \<and> val (paddr q) = base p + 2 ^ h
         else if Is4 (paddr p) then \<exists>w. nextSubnet p sz = Some (PrefixFrom (Addr6 w) sz)
         else nextSubnet p sz = None"
proof (cases "paddr p")
  case AddrNone
  with p show ?thesis by (simp add: wf_prefix_def)
next
  case (Addr4 w)
  define v where "v = base p"
  obtain w' where w': "paddr (Masked p) = Addr4 w'" and vw: "unat w' = v"
    using Masked_addr(1,2) [OF p] Addr4
    by (cases "paddr (Masked p)") (auto simp: same_family_def v_def base_def)
  have v32: "v < 2 ^ 32" using vw unat32_less [of w'] by simp
  have h32: "(2 :: nat) ^ h \<le> 2 ^ 32"
    using Addr4 sz by (intro power_increasing) (auto simp: h_def)
  have as: "as16_nat (paddr (Masked p)) = 0xffff * 2 ^ 32 + v" using w' vw by simp
  have n: "nextSubnet p sz = Some (PrefixFrom (Unmap (Addr6 (of_nat (0xffff * 2 ^ 32 + (v + 2 ^ h))))) sz)"
    using nextSubnet_loop [OF p sz] w' vw v32 h32
    by (simp add: as h_def [symmetric] unmap_if4_def add.assoc del: of_nat_add Unmap.simps)
  show ?thesis
  proof (cases "v + 2 ^ h < 2 ^ 32")
    case True
    then have "nextSubnet p sz = Some (PrefixFrom (Addr4 (of_nat (v + 2 ^ h))) sz)"
      unfolding n by (simp only: Unmap_of_nat4)
    moreover have "unat (of_nat (v + 2 ^ h) :: 32 word) = v + 2 ^ h"
      using True by (intro unat_of_nat_eq) simp
    ultimately show ?thesis
      using Addr4 sz True by (auto simp: v_def [symmetric] same_family_def simp del: of_nat_add)
  next
    case False
    have "(0xffff * 2 ^ 32 + (v + 2 ^ h)) div 2 ^ 32 = 0xffff + (v + 2 ^ h) div 2 ^ 32"
      by simp
    moreover have "(v + 2 ^ h) div 2 ^ 32 \<ge> 1" using False by simp
    ultimately have "(0xffff * 2 ^ 32 + (v + 2 ^ h)) div 2 ^ 32 \<noteq> 0xffff" by linarith
    moreover have "0xffff * 2 ^ 32 + (v + 2 ^ h) < 2 ^ 128" using v32 h32 by simp
    ultimately have "Unmap (Addr6 (of_nat (0xffff * 2 ^ 32 + (v + 2 ^ h)))) = Addr6 (of_nat (0xffff * 2 ^ 32 + (v + 2 ^ h)))"
      by (intro Unmap_other)
    then have "nextSubnet p sz = Some (PrefixFrom (Addr6 (of_nat (0xffff * 2 ^ 32 + (v + 2 ^ h)))) sz)"
      using n by simp
    then show ?thesis using False Addr4 by (auto simp: v_def)
  qed
next
  case (Addr6 w)
  obtain w' where w': "paddr (Masked p) = Addr6 w'" and vw: "unat w' = base p"
    using Masked_addr(1,2) [OF p] Addr6
    by (cases "paddr (Masked p)") (auto simp: same_family_def base_def)
  have n: "nextSubnet p sz =
    (if base p + 2 ^ h < 2 ^ 128 then Some (PrefixFrom (Addr6 (of_nat (base p + 2 ^ h))) sz) else None)"
    using nextSubnet_loop [OF p sz] w' vw
    by (simp add: h_def [symmetric] unmap_if4_def del: of_nat_add)
  have "unat (of_nat (base p + 2 ^ h) :: 128 word) = base p + 2 ^ h" if "base p + 2 ^ h < 2 ^ 128"
    using that by (intro unat_of_nat_eq) simp
  then show ?thesis
    using n Addr6 sz by (auto simp: same_family_def simp del: of_nat_add)
qed

section \<open>Carving instances out of the pools\<close>

lemma nextSubnet_bits:
  assumes "nextSubnet c sz = Some n"
  shows "pbits n = sz"
proof -
  define a where "a = paddr (Masked c)"
  define sh where "sh = nat (int (BitLen a) - sz)"
  obtain raw cy where rc: "carry_loop (16 - sh div 8) (As16 a) (push_bit (sh mod 8) 1) = (raw, cy)"
    by (cases "carry_loop (16 - sh div 8) (As16 a) (push_bit (sh mod 8) 1)") auto
  have "length raw = 16"
    using carry_loop_length [of "16 - sh div 8" "As16 a"] rc by (metis fst_conv length_As16)
  then have slice: "AddrFromSlice raw = Some (Addr6 (of_nat (be_nat raw)))"
    by (simp add: AddrFromSlice_def)
  have sz: "0 \<le> sz" "sz \<le> int (BitLen a)"
    using assms by (auto simp: nextSubnet_def Let_def a_def split: if_splits)
  have n: "n = PrefixFrom (unmap_if4 (Is4 a) (Addr6 (of_nat (be_nat raw)))) sz"
    using assms rc slice sz
    by (auto simp: nextSubnet_def Let_def unmap_if4_def sh_def a_def [symmetric] split: if_splits)
  have "BitLen a \<le> BitLen (unmap_if4 (Is4 a) (Addr6 w))" for w
    by (cases a) (auto simp: unmap_if4_def)
  moreover have "unmap_if4 (Is4 a) (Addr6 w) \<noteq> AddrNone" for w
    by (simp add: unmap_if4_def)
  ultimately show ?thesis
    using sz n by (metis (no_types, opaque_lifting) PrefixFrom_simps(2) dual_order.trans of_nat_mono)
qed

lemma nextSubnet_wf:
  assumes "nextSubnet c sz = Some n" and "pbits c = sz" and "paddr c \<noteq> AddrNone"
  shows "wf_prefix c"
proof -
  from assms(1) have "0 \<le> sz" "sz \<le> int (BitLen (paddr (Masked c)))"
    by (auto simp: nextSubnet_def Let_def split: if_splits)
  then show ?thesis
    using assms(2,3) by (cases "paddr c") (auto simp: wf_prefix_def Masked_def PrefixNone_def split: if_splits)
qed

lemma nextSubnet_rank:
  assumes n: "nextSubnet c sz = Some n" and b: "pbits c = sz" and f: "same_family (paddr c) (paddr n)"
  shows "addr_rank (paddr c) < addr_rank (paddr n)"
proof -
  have c: "wf_prefix c" using nextSubnet_wf [OF n b] f by (simp add: same_family_def)
  then have sz: "0 \<le> sz" "sz \<le> int (BitLen (paddr c))" using b by (auto simp: wf_prefix_def)
  have h: "nat (int (BitLen (paddr c)) - sz) = hostbits c"
    using b sz by (simp add: hostbits_def nat_diff_distrib')
  have "val (paddr n) = base c + 2 ^ hostbits c"
  proof (cases "base c + 2 ^ hostbits c < 2 ^ BitLen (paddr c)")
    case True
    with nextSubnet_val [OF c sz] n h show ?thesis by auto
  next
    case False
    with nextSubnet_val [OF c sz] n h f show ?thesis
      by (cases "paddr c") (auto simp: same_family_def)
  qed
  moreover have "val (paddr c) < base c + 2 ^ hostbits c"
    using Contains_self [OF c] by (simp add: Contains_block c top_iff)
  ultimately show ?thesis
    using less_same_family [OF f] by (simp add: less_addr_def)
qed

function overlay_loop :: "prefix \<Rightarrow> int \<Rightarrow> prefix list \<Rightarrow> prefix \<Rightarrow> prefix option" where
  "overlay_loop pool sz taken candidate =
     (if Contains pool (paddr candidate) then
        if candidate \<notin> set taken then Some candidate
        else case nextSubnet candidate sz of
               None \<Rightarrow> None
             | Some n \<Rightarrow> overlay_loop pool sz taken n
      else None)"
  by pat_completeness auto
termination
proof (relation "measure (\<lambda>(pool, sz, taken, c). if \<not> Contains pool (paddr c) then 0
    else if pbits c \<noteq> sz then 2 ^ 32 + 2 ^ 128 + 2 else 2 ^ 32 + 2 ^ 128 + 1 - addr_rank (paddr c))", goal_cases)
  case (2 pool sz taken c n)
  have nb: "pbits n = sz" using nextSubnet_bits 2(3) .
  show ?case
  proof (cases "Contains pool (paddr n) \<and> pbits c = sz")
    case True
    then have "same_family (paddr c) (paddr n)"
      using Contains_family 2(1) same_family_sym same_family_trans by blast
    with nextSubnet_rank [OF 2(3)] True nb 2(1) addr_rank_bound [of "paddr n"] show ?thesis by simp
  next
    case False
    with 2(1) nb addr_rank_bound [of "paddr c"] addr_rank_bound [of "paddr n"] show ?thesis by auto
  qed
qed simp

declare overlay_loop.simps [simp del]

fun pools_loop :: "Pool list \<Rightarrow> Pool list \<Rightarrow> prefix list \<Rightarrow> ipam_err + prefix" where
  "pools_loop pools [] taken = Inl (PoolsFull (poolList pools))"
| "pools_loop pools (p # ps) taken =
     (if pool_Size p < pbits (pool_Prefix p) \<or> int (BitLen (paddr (pool_Prefix p))) < pool_Size p
      then Inl (SizeDoesNotFit (pool_Size p) (pool_Prefix p))
      else case overlay_loop (pool_Prefix p) (pool_Size p) taken
                  (PrefixFrom (paddr (Masked (pool_Prefix p))) (pool_Size p)) of
             Some c \<Rightarrow> Inr c
           | None \<Rightarrow> pools_loop pools ps taken)"

definition allocateOverlay :: "Pool list \<Rightarrow> prefix list \<Rightarrow> ipam_err + prefix" where
  "allocateOverlay pools taken =
     (if pools = [] then Inl NoPoolConfigured else pools_loop pools pools taken)"

text \<open>What a pool can hand out: its aligned subnets of the configured size.\<close>

definition pool_fits :: "Pool \<Rightarrow> bool" where
  "pool_fits p \<longleftrightarrow> wf_prefix (pool_Prefix p) \<and> pbits (pool_Prefix p) \<le> pool_Size p
     \<and> pool_Size p \<le> int (BitLen (paddr (pool_Prefix p)))"

definition subnets :: "Pool \<Rightarrow> prefix set" where
  "subnets p = {c. wf_prefix c \<and> pbits c = pool_Size p \<and> Contains (pool_Prefix p) (paddr c)
     \<and> val (paddr c) = base c}"

lemma base_idem: "base c div 2 ^ hostbits c * 2 ^ hostbits c = base c"
  by (simp add: base_def)

lemma same_family_hostbits:
  "same_family (paddr c) (paddr d) \<Longrightarrow> pbits c = pbits d \<Longrightarrow> hostbits c = hostbits d"
  by (simp add: hostbits_def same_family_def)

lemma subnet_gap:
  assumes c: "wf_prefix c" and d: "wf_prefix d" and f: "same_family (paddr c) (paddr d)"
    and b: "pbits c = pbits d" and dv: "val (paddr d) = base d" and lt: "base c < base d"
  shows "base c + 2 ^ hostbits c \<le> base d"
proof -
  let ?k = "2 ^ hostbits c :: nat"
  have h: "hostbits d = hostbits c" using same_family_hostbits [OF f b] by simp
  obtain i where i: "base c = i * ?k" by (auto simp: base_def)
  obtain j where j: "base d = j * ?k" using h by (auto simp: base_def)
  from lt i j have "i < j" by simp
  then have "(i + 1) * ?k \<le> j * ?k" by (intro mult_le_mono1) simp
  with i j show ?thesis by simp
qed

lemma overlay_loop_spec:
  assumes P: "pool_fits p" and c: "c \<in> subnets p"
  shows "case overlay_loop (pool_Prefix p) (pool_Size p) taken c of
      Some r \<Rightarrow> r \<in> subnets p \<and> r \<notin> set taken
        \<and> (\<forall>d \<in> subnets p. val (paddr c) \<le> val (paddr d) \<and> val (paddr d) < val (paddr r) \<longrightarrow> d \<in> set taken)
    | None \<Rightarrow> \<forall>d \<in> subnets p. val (paddr c) \<le> val (paddr d) \<longrightarrow> d \<in> set taken"
  using c
proof (induction "2 ^ 129 - val (paddr c)" arbitrary: c rule: less_induct)
  case less
  define pp where "pp = pool_Prefix p"
  define sz where "sz = pool_Size p"
  from less.prems have c: "wf_prefix c" "pbits c = sz" "Contains pp (paddr c)" "val (paddr c) = base c"
    by (auto simp: subnets_def pp_def sz_def)
  have ppw: "wf_prefix pp" using P by (simp add: pool_fits_def pp_def)
  have fam: "same_family (paddr c) (paddr d)" if "d \<in> subnets p" for d
    using that c(3) Contains_family same_family_sym same_family_trans unfolding subnets_def pp_def by blast
  have same: "d = c" if d: "d \<in> subnets p" and "val (paddr d) = val (paddr c)" for d
  proof (rule prefix.expand)
    have "paddr c = paddr d" using val_inj [OF fam [OF d]] that(2) by simp
    moreover have "pbits d = sz" using d by (simp add: subnets_def sz_def)
    ultimately show "paddr d = paddr c \<and> pbits d = pbits c" using c(2) by simp
  qed
  have sz: "0 \<le> sz" "sz \<le> int (BitLen (paddr c))" using c(1,2) by (auto simp: wf_prefix_def)
  have h: "nat (int (BitLen (paddr c)) - sz) = hostbits c"
    using c(2) sz by (simp add: hostbits_def nat_diff_distrib')
  note nv = nextSubnet_val [OF c(1) sz, unfolded h]
  have gap: "base c + 2 ^ hostbits c \<le> val (paddr d)" if d: "d \<in> subnets p" "val (paddr c) < val (paddr d)" for d
    using subnet_gap [of c d] d c fam [OF d(1)] by (auto simp: subnets_def sz_def)
  show ?case
  proof (cases "c \<in> set taken")
    case False
    with c less.prems show ?thesis
      by (subst overlay_loop.simps) (auto simp: pp_def)
  next
    case True
    show ?thesis
    proof (cases "\<exists>n. nextSubnet c sz = Some n \<and> Contains pp (paddr n)")
      case True
      then obtain n where n: "nextSubnet c sz = Some n" "Contains pp (paddr n)" by blast
      have "same_family (paddr c) (paddr n)"
        using n(2) c(3) Contains_family same_family_sym same_family_trans by blast
      with nv n(1) have nn: "val (paddr n) = base c + 2 ^ hostbits c" "pbits n = sz"
        by (cases "paddr c"; auto simp: same_family_def split: if_splits)+
      have ns: "n \<in> subnets p"
      proof -
        have hn: "hostbits n = hostbits c"
          using same_family_hostbits [OF \<open>same_family (paddr c) (paddr n)\<close>] c(2) nn(2) by simp
        have "base n = val (paddr n)"
          by (simp add: base_def hn nn(1) div_mult_self3 add.commute base_def [of c])
        moreover have "wf_prefix n"
          using c(1,2) nn(2) \<open>same_family (paddr c) (paddr n)\<close>
          by (auto simp: wf_prefix_def same_family_def)
        ultimately show ?thesis using n nn by (simp add: subnets_def pp_def sz_def)
      qed
      have "val (paddr n) < 2 ^ BitLen (paddr n)"
        using n(2) by (intro val_less) (auto simp: Contains_valid)
      moreover have "(2 :: nat) ^ BitLen (paddr n) \<le> 2 ^ 129" by (cases "paddr n") auto
      ultimately have "val (paddr n) < 2 ^ 129" by linarith
      then have dec: "2 ^ 129 - val (paddr n) < 2 ^ 129 - val (paddr c)"
        using nn(1) c(4) by (intro diff_less_mono2) simp_all
      have step: "overlay_loop pp sz taken c = overlay_loop pp sz taken n"
        using c(3) n(1) \<open>c \<in> set taken\<close> by (subst overlay_loop.simps) simp
      have le: "val (paddr c) \<le> val (paddr d) \<Longrightarrow> d \<in> subnets p \<Longrightarrow> d \<noteq> c \<Longrightarrow> val (paddr n) \<le> val (paddr d)" for d
        using gap [of d] same [of d] nn(1) by (metis le_eq_less_or_eq)
      show ?thesis
        using less.hyps [OF dec ns] le \<open>c \<in> set taken\<close> step
        unfolding pp_def sz_def by (auto split: option.splits)
    next
      case False
      have stop: "overlay_loop pp sz taken c = None"
      proof (cases "nextSubnet c sz")
        case None
        with c(3) \<open>c \<in> set taken\<close> show ?thesis by (subst overlay_loop.simps) simp
      next
        case (Some n)
        with False have "overlay_loop pp sz taken n = None" by (subst overlay_loop.simps) simp
        with c(3) \<open>c \<in> set taken\<close> Some show ?thesis by (subst overlay_loop.simps) simp
      qed
      have "d \<in> set taken" if d: "d \<in> subnets p" "val (paddr c) \<le> val (paddr d)" for d
      proof (cases "val (paddr d) = val (paddr c)")
        case True
        with same d \<open>c \<in> set taken\<close> show ?thesis by blast
      next
        case ne: False
        have dle: "base c + 2 ^ hostbits c \<le> val (paddr d)" using gap d ne by simp
        have dc: "Contains pp (paddr d)" using d(1) by (simp add: subnets_def pp_def)
        have "val (paddr d) < 2 ^ BitLen (paddr c)"
          using val_less [of "paddr d"] dc fam [OF d(1)] by (auto simp: same_family_def Contains_valid)
        with dle nv obtain q where q: "nextSubnet c sz = Some q" "same_family (paddr c) (paddr q)"
          "val (paddr q) = base c + 2 ^ hostbits c" by auto
        have "same_family (paddr pp) (paddr q)"
          using q(2) c(3) Contains_family same_family_trans by blast
        moreover have "base pp \<le> val (paddr q)"
          using c(3,4) q(3) by (simp add: Contains_block ppw)
        moreover have "val (paddr q) \<le> top pp"
          using dc dle q(3) by (simp add: Contains_block ppw)
        ultimately have "Contains pp (paddr q)" by (simp add: Contains_block ppw)
        with False q(1) show ?thesis by blast
      qed
      with stop show ?thesis by (simp add: pp_def sz_def)
    qed
  qed
qed

lemma pool_start: "pool_fits p \<Longrightarrow> PrefixFrom (paddr (Masked (pool_Prefix p))) (pool_Size p) \<in> subnets p"
proof -
  let ?P = "pool_Prefix p" and ?m = "paddr (Masked (pool_Prefix p))"
  let ?c = "PrefixFrom ?m (pool_Size p)"
  assume fits: "pool_fits p"
  then have P: "wf_prefix ?P" by (simp add: pool_fits_def)
  note M = Masked_addr [OF P]
  have sz: "0 \<le> pool_Size p" "pbits ?P \<le> pool_Size p" "pool_Size p \<le> int (BitLen ?m)" "?m \<noteq> AddrNone"
    using fits P M(1) by (auto simp: pool_fits_def wf_prefix_def same_family_def)
  then have wf: "wf_prefix ?c" and pb: "pbits ?c = pool_Size p"
    by (simp_all add: wf_PrefixFrom)
  have "hostbits ?c \<le> hostbits ?P"
    using sz pb M(1) by (simp add: hostbits_def same_family_def nat_mono diff_le_mono2)
  then obtain k where k: "hostbits ?P = hostbits ?c + k" using le_Suc_ex by blast
  then have "val ?m mod 2 ^ hostbits ?c = 0"
    unfolding M(2) by (simp add: power_add mult.left_commute)
  then have "val ?m = base ?c"
    by (simp add: base_def) (metis add.right_neutral div_mult_mod_eq)
  moreover have "Contains ?P ?m"
    using M(1,2) base_le_top [of ?P] by (simp add: Contains_block P base_def)
  ultimately show ?thesis using wf pb by (simp add: subnets_def)
qed

lemma subnet_start:
  assumes "pool_fits p" and d: "d \<in> subnets p"
  shows "val (paddr (Masked (pool_Prefix p))) \<le> val (paddr d)"
proof -
  have P: "wf_prefix (pool_Prefix p)" using assms(1) by (simp add: pool_fits_def)
  show ?thesis using d by (simp add: subnets_def Contains_block P Masked_addr(2) [OF P] base_def)
qed

text \<open>Two subnets of one size are equal or share no address.\<close>

lemma same_size_disjoint:
  assumes "wf_prefix c" "wf_prefix d" "pbits c = pbits d"
    and "val (paddr c) = base c" "val (paddr d) = base d"
    and x: "Contains c x" "Contains d x"
  shows "c = d"
proof (rule prefix.expand)
  have f: "same_family (paddr c) (paddr d)"
    using x Contains_family same_family_sym same_family_trans by blast
  have "hostbits c = hostbits d" using same_family_hostbits [OF f assms(3)] .
  then have "base c = base d"
    using x assms(1,2) by (simp add: Contains_iff base_def)
  with val_inj [OF f] assms show "paddr c = paddr d \<and> pbits c = pbits d" by simp
qed

text \<open>
  \<open>pools_loop\<close> answers with the lowest untaken subnet of the first pool that has one, and refuses
  only when every subnet of every pool is taken.
\<close>

lemma pools_loop_spec:
  assumes "\<forall>p \<in> set ps. pool_fits p"
  shows "case pools_loop pools ps taken of
      Inr c \<Rightarrow> \<exists>us p vs. ps = us @ p # vs \<and> c \<in> subnets p \<and> c \<notin> set taken
        \<and> (\<forall>u \<in> set us. subnets u \<subseteq> set taken)
        \<and> (\<forall>d \<in> subnets p. val (paddr d) < val (paddr c) \<longrightarrow> d \<in> set taken)
    | Inl e \<Rightarrow> e = PoolsFull (poolList pools) \<and> (\<forall>p \<in> set ps. subnets p \<subseteq> set taken)"
  using assms
proof (induction ps)
  case (Cons p ps)
  let ?c = "PrefixFrom (paddr (Masked (pool_Prefix p))) (pool_Size p)"
  let ?r = "overlay_loop (pool_Prefix p) (pool_Size p) taken ?c"
  have p: "pool_fits p" using Cons.prems by simp
  have fit: "\<not> (pool_Size p < pbits (pool_Prefix p) \<or> int (BitLen (paddr (pool_Prefix p))) < pool_Size p)"
    using p by (simp add: pool_fits_def)
  note spec = overlay_loop_spec [OF p pool_start [OF p], of taken]
  have IH: "case pools_loop pools ps taken of
      Inr c \<Rightarrow> \<exists>us q vs. ps = us @ q # vs \<and> c \<in> subnets q \<and> c \<notin> set taken
        \<and> (\<forall>u \<in> set us. subnets u \<subseteq> set taken)
        \<and> (\<forall>d \<in> subnets q. val (paddr d) < val (paddr c) \<longrightarrow> d \<in> set taken)
    | Inl e \<Rightarrow> e = PoolsFull (poolList pools) \<and> (\<forall>p \<in> set ps. subnets p \<subseteq> set taken)"
    using Cons by simp
  show ?case
  proof (cases ?r)
    case (Some c)
    have "p # ps = [] @ p # ps" by simp
    then show ?thesis
      using Some spec subnet_start [OF p] fit by (auto intro!: exI [of _ "[]"])
  next
    case None
    then have "subnets p \<subseteq> set taken" using spec subnet_start [OF p] by auto
    moreover have "pools_loop pools (p # ps) taken = pools_loop pools ps taken"
      using None fit by simp
    ultimately show ?thesis
      using IH by (auto split: sum.splits) (metis append_Cons set_ConsD)
  qed
qed simp

section \<open>The hosts of a prefix\<close>

definition hosts :: "prefix \<Rightarrow> addr set" where
  "hosts p = {a. Contains p a \<and> a \<noteq> paddr (Masked p) \<and> \<not> isBroadcast p a}"

definition free :: "prefix \<Rightarrow> addr list \<Rightarrow> addr set" where
  "free p taken = hosts p - set taken"

lemma finite_addr: "finite (A :: addr set)"
proof -
  have "inj_on addr_rank A" by (simp add: inj_on_def addr_rank_inj)
  moreover have "addr_rank ` A \<subseteq> {..2 ^ 32 + 2 ^ 128}" using addr_rank_bound by auto
  ultimately show ?thesis by (rule inj_on_finite) simp
qed

lemma isBroadcast_iff:
  assumes p: "wf_prefix p" and a: "Contains p a"
  shows "isBroadcast p a \<longleftrightarrow> Is4 (paddr p) \<and> pbits p < 31 \<and> val a = top p"
proof -
  have f: "same_family (paddr p) a" "base p \<le> val a" "val a \<le> top p"
    using a by (simp_all add: Contains_block p)
  have a0: "a \<noteq> AddrNone" using a by (auto simp: Contains_valid)
  have "Is4 a = Is4 (paddr p)" using f(1) by (cases a; cases "paddr p") (auto simp: same_family_def)
  moreover have "Next a = AddrNone \<or> \<not> Contains p (Next a) \<longleftrightarrow> val a = top p"
  proof (cases "val a + 1 < 2 ^ BitLen a")
    case True
    with Next_val [OF a0] have "same_family a (Next a)" "val (Next a) = val a + 1" by auto
    then have "Contains p (Next a) \<longleftrightarrow> val a + 1 \<le> top p"
      using f same_family_trans [OF f(1)] by (simp add: Contains_block p)
    moreover have "Next a \<noteq> AddrNone"
      using \<open>same_family a (Next a)\<close> by (auto simp: same_family_def)
    ultimately show ?thesis using f(3) by auto
  next
    case False
    with Next_val [OF a0] have "Next a = AddrNone" by simp
    moreover have "val a = top p"
      using False top_less [OF p] f by (simp add: same_family_def)
    ultimately show ?thesis by simp
  qed
  ultimately show ?thesis by (auto simp: isBroadcast_def Let_def)
qed

lemma hosts_iff:
  assumes p: "wf_prefix p"
  shows "a \<in> hosts p \<longleftrightarrow> same_family (paddr p) a \<and> base p < val a
    \<and> (if Is4 (paddr p) \<and> pbits p < 31 then val a < top p else val a \<le> top p)"
proof (cases "Contains p a")
  case True
  then have f: "same_family (paddr p) a" "base p \<le> val a" "val a \<le> top p"
    by (simp_all add: Contains_block p)
  have "same_family (paddr (Masked p)) a"
    using f(1) Masked_addr(1) [OF p] same_family_sym same_family_trans by blast
  then have "a = paddr (Masked p) \<longleftrightarrow> val a = base p"
    using val_inj [of "paddr (Masked p)" a] Masked_addr(2) [OF p] by (auto simp: base_def)
  then show ?thesis
    using True f isBroadcast_iff [OF p True] by (auto simp: hosts_def)
next
  case False
  then show ?thesis by (auto simp: hosts_def Contains_block p split: if_splits)
qed

section \<open>The walks\<close>

lemma lowest_loop_spec:
  assumes "wf_prefix p" and "same_family (paddr p) a" and "base p \<le> val a"
  shows "case lowest_loop p t a of
      Inr r \<Rightarrow> Contains p r \<and> r \<notin> set t \<and> \<not> isBroadcast p r \<and> val a \<le> val r
        \<and> (\<forall>x. Contains p x \<and> val a \<le> val x \<and> val x < val r \<longrightarrow> x \<in> set t \<or> isBroadcast p x)
    | Inl e \<Rightarrow> e = PoolExhausted
        \<and> (\<forall>x. Contains p x \<and> val a \<le> val x \<longrightarrow> x \<in> set t \<or> isBroadcast p x)"
  using assms
proof (induction p t a rule: lowest_loop.induct)
  case (1 p t a)
  note p = "1.prems"(1) and f = "1.prems"(2,3)
  show ?case
  proof (cases "Contains p a \<and> (a \<in> set t \<or> isBroadcast p a)")
    case True
    then have step: "lowest_loop p t a = lowest_loop p t (Next a)"
      by (subst lowest_loop.simps) auto
    have a0: "a \<noteq> AddrNone" using True by (auto simp: Contains_valid)
    have eq: "x = a" if "Contains p x" "val x = val a" for x
      using val_inj [of a x] that f(1) Contains_family same_family_sym same_family_trans by metis
    show ?thesis
    proof (cases "val a + 1 < 2 ^ BitLen a")
      case lt: True
      with Next_val [OF a0] have n: "same_family a (Next a)" "val (Next a) = val a + 1" by auto
      have IH: "case lowest_loop p t (Next a) of
          Inr r \<Rightarrow> Contains p r \<and> r \<notin> set t \<and> \<not> isBroadcast p r \<and> val (Next a) \<le> val r
            \<and> (\<forall>x. Contains p x \<and> val (Next a) \<le> val x \<and> val x < val r \<longrightarrow> x \<in> set t \<or> isBroadcast p x)
        | Inl e \<Rightarrow> e = PoolExhausted
            \<and> (\<forall>x. Contains p x \<and> val (Next a) \<le> val x \<longrightarrow> x \<in> set t \<or> isBroadcast p x)"
        using True n p f same_family_trans by (intro "1.IH") auto
      have le: "val (Next a) \<le> val x" if "Contains p x" "val a \<le> val x" "x \<noteq> a" for x
        using eq [of x] that n(2) by (metis Suc_eq_plus1 Suc_leI le_eq_less_or_eq)
      show ?thesis
        using IH le True n(2) unfolding step by (auto split: sum.splits)
    next
      case max: False
      with Next_val [OF a0] have "Next a = AddrNone" by simp
      then have "lowest_loop p t (Next a) = Inl PoolExhausted" by (subst lowest_loop.simps) simp
      moreover have "x = a" if x: "Contains p x" "val a \<le> val x" for x
      proof (rule eq [OF x(1)])
        have "val x < 2 ^ BitLen a"
          using val_less [of x] x(1) f(1) Contains_family [OF x(1)] by (auto simp: same_family_def Contains_valid)
        with max x(2) show "val x = val a" by simp
      qed
      ultimately show ?thesis using True unfolding step by auto
    qed
  next
    case False
    show ?thesis
    proof (cases "Contains p a")
      case True
      with False show ?thesis by (subst lowest_loop.simps) auto
    next
      case out: False
      then have "\<not> (Contains p x \<and> val a \<le> val x)" for x
        using f by (auto simp: Contains_block [OF p])
      then show ?thesis using out by (subst lowest_loop.simps) auto
    qed
  qed
qed

lemma highest_loop_spec:
  assumes "wf_prefix p" and "same_family (paddr p) a" and "val a \<le> top p"
  shows "case highest_loop p t a of
      Inr r \<Rightarrow> r \<in> hosts p \<and> r \<notin> set t \<and> val r \<le> val a
        \<and> (\<forall>x \<in> hosts p. val x \<le> val a \<and> val r < val x \<longrightarrow> x \<in> set t)
    | Inl e \<Rightarrow> e = PoolExhausted \<and> (\<forall>x \<in> hosts p. val x \<le> val a \<longrightarrow> x \<in> set t)"
  using assms
proof (induction p t a rule: highest_loop.induct)
  case (1 p t a)
  note p = "1.prems"(1) and f = "1.prems"(2,3)
  have eq: "x = a" if "x \<in> hosts p" "val x = val a" for x
    using val_inj [of a x] that f(1) same_family_sym same_family_trans by (metis hosts_iff p)
  show ?case
  proof (cases "Contains p a \<and> (a \<in> set t \<or> a \<notin> hosts p)")
    case True
    then have step: "highest_loop p t a = highest_loop p t (Prev a)"
      by (subst highest_loop.simps) (auto simp: hosts_def)
    have a0: "a \<noteq> AddrNone" using True by (auto simp: Contains_valid)
    have at: "x \<in> set t" if "x \<in> hosts p" "val x = val a" for x
      using True eq [OF that] that(1) by auto
    show ?thesis
    proof (cases "0 < val a")
      case pos: True
      with Prev_val [OF a0] have n: "same_family a (Prev a)" "val (Prev a) = val a - 1" by auto
      have IH: "case highest_loop p t (Prev a) of
          Inr r \<Rightarrow> r \<in> hosts p \<and> r \<notin> set t \<and> val r \<le> val (Prev a)
            \<and> (\<forall>x \<in> hosts p. val x \<le> val (Prev a) \<and> val r < val x \<longrightarrow> x \<in> set t)
        | Inl e \<Rightarrow> e = PoolExhausted \<and> (\<forall>x \<in> hosts p. val x \<le> val (Prev a) \<longrightarrow> x \<in> set t)"
        using True n p f same_family_trans by (intro "1.IH") (auto simp: hosts_def)
      have le: "val x \<le> val (Prev a) \<or> x \<in> set t" if "x \<in> hosts p" "val x \<le> val a" for x
        using at [of x] that n(2) by linarith
      show ?thesis
        using IH le n(2) unfolding step by (fastforce split: sum.splits)
    next
      case zero: False
      with Prev_val [OF a0] have "Prev a = AddrNone" by simp
      then have "highest_loop p t (Prev a) = Inl PoolExhausted" by (subst highest_loop.simps) simp
      then show ?thesis using at zero unfolding step by auto
    qed
  next
    case False
    show ?thesis
    proof (cases "Contains p a")
      case True
      with False show ?thesis by (subst highest_loop.simps) (auto simp: hosts_def)
    next
      case out: False
      then have "\<not> (x \<in> hosts p \<and> val x \<le> val a)" for x
        using f by (auto simp: Contains_block [OF p] hosts_iff [OF p] split: if_splits)
      then show ?thesis using out by (subst highest_loop.simps) auto
    qed
  qed
qed

lemma lastAddr_val:
  assumes p: "wf_prefix p"
  shows "same_family (paddr p) (lastAddr p)" and "val (lastAddr p) = top p"
proof -
  let ?m = "paddr (Masked p)" and ?h = "hostbits p"
  note M = Masked_addr [OF p]
  have bl: "BitLen ?m = BitLen (paddr p)" using M(1) by (simp add: same_family_def)
  have h: "nat (int (BitLen ?m) - pbits p) = ?h"
    using p by (simp add: bl hostbits_def wf_prefix_def nat_diff_distrib')
  have h128: "?h \<le> 128" by (cases "paddr p") (auto simp: hostbits_def)
  have al: "as16_nat ?m mod 2 ^ ?h = 0"
  proof (cases ?m)
    case (Addr4 w)
    then have "?h \<le> 32" using bl by (simp add: hostbits_def)
    then have "(2 :: nat) ^ ?h dvd 2 ^ 32" by (rule le_imp_power_dvd)
    then have "(2 :: nat) ^ ?h dvd 0xffff * 2 ^ 32" by (rule dvd_mult)
    moreover have "2 ^ ?h dvd unat w" using M(2) Addr4 by simp
    ultimately show ?thesis using Addr4 by (simp only: as16_nat.simps dvd_add mod_eq_0_iff_dvd)
  qed (use M(2) in auto)
  define v where "v = as16_nat ?m + (2 ^ ?h - 1)"
  have raw: "foldl set_host_bit (As16 ?m) [0..<?h] = be_bytes 16 v"
    using host_bits_fold [OF h128, of "as16_nat ?m"] or_mask_aligned [OF al]
    by (simp add: As16_def v_def)
  have topv: "top p = val ?m + (2 ^ ?h - 1)"
    using M(2) by (simp add: top_def base_def)
  have tl: "top p < 2 ^ BitLen ?m" using top_less [OF p] bl by simp
  have v: "v < 2 ^ 128" and vt: "v = (if Is4 ?m then 0xffff * 2 ^ 32 else 0) + top p"
    using tl topv by (cases ?m; simp add: v_def)+
  have "be_nat (be_bytes 16 v) = v" using v by (simp add: be_nat_be_bytes)
  then have last: "lastAddr p = unmap_if4 (Is4 ?m) (Addr6 (of_nat v))"
    by (simp add: lastAddr_def Let_def h raw AddrFromSlice_def unmap_if4_def)
  have "same_family (paddr p) (lastAddr p) \<and> val (lastAddr p) = top p"
  proof (cases ?m)
    case (Addr4 w)
    then have "lastAddr p = Addr4 (of_nat (top p))"
      using last vt tl Unmap_of_nat4 [of "top p"] by (simp add: unmap_if4_def del: Unmap.simps of_nat_add)
    then show ?thesis using M(1) Addr4 tl by (simp add: same_family_def unat_of_nat_eq)
  next
    case (Addr6 w)
    then have "lastAddr p = Addr6 (of_nat (top p))"
      using last vt by (simp add: unmap_if4_def)
    then show ?thesis using M(1) Addr6 tl by (simp add: same_family_def unat_of_nat_eq)
  qed (use M(1) in \<open>simp add: same_family_def\<close>)
  then show "same_family (paddr p) (lastAddr p)" and "val (lastAddr p) = top p" by auto
qed

section \<open>Picking a free host\<close>

lemma wf_prefix_valid: "wf_prefix p \<Longrightarrow> PrefixIsValid p"
  by (simp add: wf_prefix_def PrefixIsValid_def)

lemma hosts_family: "wf_prefix p \<Longrightarrow> a \<in> hosts p \<Longrightarrow> b \<in> hosts p \<Longrightarrow> same_family a b"
  using hosts_iff same_family_sym same_family_trans by metis

lemma lowestFree_spec:
  assumes p: "wf_prefix p"
  shows "case lowestFree p t of
      Inr a \<Rightarrow> a \<in> free p t \<and> (\<forall>b \<in> free p t. a \<le> b)
    | Inl e \<Rightarrow> e = PoolExhausted \<and> free p t = {}"
proof -
  let ?m = "paddr (Masked p)" and ?n = "Next (paddr (Masked p))"
  note M = Masked_addr [OF p]
  have m0: "?m \<noteq> AddrNone" using Masked_wf [OF p] by (simp add: wf_prefix_def)
  have vm: "val ?m = base p" using M(2) by (simp add: base_def)
  have unf: "lowestFree p t = lowest_loop p t ?n"
    using wf_prefix_valid [OF p] by (simp add: lowestFree_def)
  show ?thesis
  proof (cases "base p + 1 < 2 ^ BitLen ?m")
    case True
    with Next_val [OF m0] vm have n: "same_family ?m ?n" "val ?n = base p + 1" by auto
    have fam: "same_family (paddr p) ?n" using M(1) n(1) same_family_trans by blast
    have hn: "x \<in> hosts p \<longleftrightarrow> Contains p x \<and> val ?n \<le> val x \<and> \<not> isBroadcast p x" for x
      using hosts_iff [OF p, of x] isBroadcast_iff [OF p, of x] Contains_block [OF p, of x] n(2)
      by (auto split: if_splits)
    have le: "x \<le> y \<longleftrightarrow> val x \<le> val y" if "x \<in> hosts p" "y \<in> hosts p" for x y
      using le_same_family hosts_family [OF p that] by blast
    show ?thesis
      using lowest_loop_spec [OF p fam, of t] n(2) hn le unfolding unf free_def
      by (fastforce split: sum.splits simp: not_less [symmetric])
  next
    case False
    with Next_val [OF m0] vm have "?n = AddrNone" by simp
    then have "lowest_loop p t ?n = Inl PoolExhausted" by (subst lowest_loop.simps) simp
    moreover have "hosts p = {}"
      using False top_less [OF p] M(1) by (auto simp: hosts_iff [OF p] same_family_def split: if_splits)
    ultimately show ?thesis by (simp add: unf free_def)
  qed
qed

lemma highestFree_spec:
  assumes p: "wf_prefix p"
  shows "case highestFree p t of
      Inr a \<Rightarrow> a \<in> free p t \<and> (\<forall>b \<in> free p t. b \<le> a)
    | Inl e \<Rightarrow> e = PoolExhausted \<and> free p t = {}"
proof -
  note L = lastAddr_val [OF p]
  have "lastAddr p \<noteq> AddrNone" using L(1) by (auto simp: same_family_def)
  then have unf: "highestFree p t = highest_loop p t (lastAddr p)"
    using wf_prefix_valid [OF p] by (simp add: highestFree_def)
  have le: "x \<le> y \<longleftrightarrow> val x \<le> val y" if "x \<in> hosts p" "y \<in> hosts p" for x y
    using le_same_family hosts_family [OF p that] by blast
  have "val x \<le> val (lastAddr p)" if "x \<in> hosts p" for x
    using that L(2) by (auto simp: hosts_iff [OF p] split: if_splits)
  then show ?thesis
    using highest_loop_spec [OF p L(1), of t] L(2) le unfolding unf free_def
    by (fastforce split: sum.splits simp: not_less [symmetric])
qed

lemma card_hosts:
  assumes p: "wf_prefix p"
  shows "card (hosts p) = 2 ^ hostbits p - (if Is4 (paddr p) \<and> pbits p < 31 then 2 else 1)"
proof -
  let ?hi = "if Is4 (paddr p) \<and> pbits p < 31 then top p else top p + 1"
  have p0: "paddr p \<noteq> AddrNone" using p by (simp add: wf_prefix_def)
  have "bij_betw val (hosts p) {base p<..<?hi}"
  proof (rule bij_betwI')
    fix x y assume "x \<in> hosts p" "y \<in> hosts p"
    then show "(val x = val y) = (x = y)" using val_inj hosts_family [OF p] by blast
  next
    fix x assume "x \<in> hosts p"
    then show "val x \<in> {base p<..<?hi}" by (auto simp: hosts_iff [OF p])
  next
    fix n assume n: "n \<in> {base p<..<?hi}"
    then have "n < 2 ^ BitLen (paddr p)" using top_less [OF p] by (auto split: if_splits)
    then obtain a where "same_family (paddr p) a" "val a = n" using obtain_addr [OF p0] by blast
    with n show "\<exists>a \<in> hosts p. n = val a"
      by (intro bexI [of _ a]) (auto simp: hosts_iff [OF p] split: if_splits)
  qed
  then have "card (hosts p) = card {base p<..<?hi}" by (rule bij_betw_same_card)
  then show ?thesis by (auto simp: top_def)
qed

text \<open>
  What a client of the walks relies on: a pick is a host of the prefix nobody holds, and it fails
  only when there is none. Both walks provide it, and the two kinds of member come from different
  ends of the same prefix because of nothing else.
\<close>

locale host_picker =
  fixes pick :: "prefix \<Rightarrow> addr list \<Rightarrow> ipam_err + addr"
  assumes pick_free: "wf_prefix p \<Longrightarrow> pick p t = Inr a \<Longrightarrow> a \<in> free p t"
    and pick_full: "wf_prefix p \<Longrightarrow> pick p t = Inl e \<Longrightarrow> e = PoolExhausted \<and> free p t = {}"
begin

lemma pick_succeeds_iff:
  assumes "wf_prefix p"
  shows "(\<exists>a. pick p t = Inr a) \<longleftrightarrow> free p t \<noteq> {}"
proof (cases "pick p t")
  case (Inl e)
  with pick_full [OF assms] show ?thesis by simp
next
  case (Inr a)
  with pick_free [OF assms] show ?thesis by auto
qed

lemma pick_room:
  assumes p: "wf_prefix p" and room: "card (set t \<inter> hosts p) < card (hosts p)"
  shows "\<exists>a. pick p t = Inr a \<and> a \<in> hosts p \<and> a \<notin> set t"
proof -
  have "free p t \<noteq> {}"
  proof
    assume "free p t = {}"
    then have "set t \<inter> hosts p = hosts p" by (auto simp: free_def)
    with room show False by simp
  qed
  then obtain a where "pick p t = Inr a" using pick_succeeds_iff [OF p] by blast
  with pick_free [OF p this] show ?thesis by (auto simp: free_def)
qed

end

interpretation lowest: host_picker lowestFree
  by unfold_locales (use lowestFree_spec in \<open>force split: sum.splits\<close>)+

interpretation highest: host_picker highestFree
  by unfold_locales (use highestFree_spec in \<open>force split: sum.splits\<close>)+

lemma fromPool_held: "mget held fp = Some a \<Longrightarrow> fromPool p held fp kind reserved = Inr a"
  by (simp add: fromPool_def)

lemma fromPool_new:
  assumes "wf_prefix p" and "mget held fp = None" and "fromPool p held fp kind reserved = Inr a"
  shows "a \<in> hosts p" and "a \<notin> set (vals held)" and "a \<notin> set reserved"
proof -
  have "a \<in> free p (vals held @ filter IsValid reserved)"
    using assms lowest.pick_free highest.pick_free by (auto simp: fromPool_def Let_def split: if_splits)
  moreover from this have "a \<noteq> AddrNone" by (auto simp: free_def hosts_def)
  ultimately show "a \<in> hosts p" and "a \<notin> set (vals held)" and "a \<notin> set reserved"
    by (auto simp: free_def)
qed

lemma fromPool_fails:
  assumes "wf_prefix p" and "fromPool p held fp kind reserved = Inl e"
  shows "e = PoolExhausted" and "mget held fp = None" and "hosts p \<subseteq> set (vals held) \<union> set reserved"
proof -
  let ?t = "vals held @ filter IsValid reserved"
  show "mget held fp = None" using assms(2) by (cases "mget held fp") (simp_all add: fromPool_def)
  then have "highestFree p ?t = Inl e \<or> lowestFree p ?t = Inl e"
    using assms(2) by (simp add: fromPool_def Let_def split: if_splits)
  then have "e = PoolExhausted \<and> free p ?t = {}"
    using lowest.pick_full [OF assms(1)] highest.pick_full [OF assms(1)] by blast
  then show "e = PoolExhausted" and "hosts p \<subseteq> set (vals held) \<union> set reserved"
    by (auto simp: free_def)
qed

section \<open>Properties\<close>

lemmas walk_eval = Masked_def PrefixIsValid_def PrefixFrom_def isBroadcast_def Let_def
  lowest_loop.simps highest_loop.simps lowestFree_def highestFree_def mask_eq_exp_minus_1

lemma lastAddr_eqI:
  assumes "wf_prefix p" and "same_family (paddr p) a" and "val a = top p"
  shows "lastAddr p = a"
  using lastAddr_val [OF assms(1)] assms(2,3) same_family_sym same_family_trans val_inj by metis

text \<open>
  \<open>lowestFree\<close> hands out the smallest address of the prefix that is neither the network
  address, nor the IPv4 broadcast address, nor taken, and reports exhaustion exactly when every such
  address is taken.
\<close>

theorem lowestFree_least:
  assumes "wf_prefix p"
  shows "lowestFree p taken =
    (if free p taken = {} then Inl PoolExhausted else Inr (Min (free p taken)))"
proof (cases "lowestFree p taken")
  case (Inl e)
  with lowestFree_spec [OF assms, of taken] show ?thesis by simp
next
  case (Inr a)
  with lowestFree_spec [OF assms, of taken] have "a \<in> free p taken" "\<forall>b \<in> free p taken. a \<le> b"
    by simp_all
  then have "Min (free p taken) = a" by (intro Min_eqI finite_addr) auto
  with Inr \<open>a \<in> free p taken\<close> show ?thesis by auto
qed

theorem lowestFree_least_witness:
  "lowestFree (Prefix (Addr4 0xC6130000) 24) [Addr4 0xC6130001] = Inr (Addr4 0xC6130002)
   \<and> Min (free (Prefix (Addr4 0xC6130000) 24) [Addr4 0xC6130001]) = Addr4 0xC6130002"
proof -
  have wf: "wf_prefix (Prefix (Addr4 0xC6130000) 24)" by (simp add: wf_prefix_def)
  have run: "lowestFree (Prefix (Addr4 0xC6130000) 24) [Addr4 0xC6130001] = Inr (Addr4 0xC6130002)"
    by (simp add: walk_eval)
  show ?thesis
    using lowestFree_least [OF wf, of "[Addr4 0xC6130001]"] run by (simp split: if_splits)
qed

text \<open>
  \<open>highestFree\<close> hands out the greatest free host of the prefix, so connectors fill it from the
  top while everybody else fills it from the bottom, and fails exactly when no host is free.
\<close>

theorem highestFree_greatest:
  assumes "wf_prefix p"
  shows "highestFree p taken =
    (if free p taken = {} then Inl PoolExhausted else Inr (Max (free p taken)))"
proof (cases "highestFree p taken")
  case (Inl e)
  with highestFree_spec [OF assms, of taken] show ?thesis by simp
next
  case (Inr a)
  with highestFree_spec [OF assms, of taken] have "a \<in> free p taken" "\<forall>b \<in> free p taken. b \<le> a"
    by simp_all
  then have "Max (free p taken) = a" by (intro Max_eqI finite_addr) auto
  with Inr \<open>a \<in> free p taken\<close> show ?thesis by auto
qed

theorem highestFree_greatest_witness:
  "highestFree (Prefix (Addr4 0xC6130000) 24) [Addr4 0xC61300FE] = Inr (Addr4 0xC61300FD)
   \<and> Max (free (Prefix (Addr4 0xC6130000) 24) [Addr4 0xC61300FE]) = Addr4 0xC61300FD"
proof -
  have wf: "wf_prefix (Prefix (Addr4 0xC6130000) 24)" by (simp add: wf_prefix_def)
  have "lastAddr (Prefix (Addr4 0xC6130000) 24) = Addr4 0xC61300FF"
    using wf by (intro lastAddr_eqI) (simp_all add: same_family_def top_def base_def hostbits_def)
  then have run: "highestFree (Prefix (Addr4 0xC6130000) 24) [Addr4 0xC61300FE] = Inr (Addr4 0xC61300FD)"
    by (simp add: walk_eval)
  show ?thesis
    using highestFree_greatest [OF wf, of "[Addr4 0xC61300FE]"] run by (simp split: if_splits)
qed

text \<open>
  The byte-wise carry of \<open>nextSubnet\<close> is addition of one subnet size to the network number.
  Where that leaves the family, IPv6 reports the end of the space, while IPv4 answers with an IPv6
  prefix, which is outside every IPv4 pool.
\<close>

theorem nextSubnet_successor:
  assumes "wf_prefix p" and "0 \<le> sz" and "sz \<le> int (BitLen (paddr p))"
  defines "step \<equiv> 2 ^ nat (int (BitLen (paddr p)) - sz)"
  shows "if base p + step < 2 ^ BitLen (paddr p)
         then \<exists>q. nextSubnet p sz = Some q \<and> same_family (paddr p) (paddr q) \<and> pbits q = sz
                \<and> val (paddr q) = base p + step
         else if Is4 (paddr p) then \<exists>w. nextSubnet p sz = Some (PrefixFrom (Addr6 w) sz)
         else nextSubnet p sz = None"
  using nextSubnet_val [OF assms(1-3)] by (simp add: step_def)

theorem nextSubnet_successor_witness:
  "nextSubnet (Prefix (Addr4 0xC613FF00) 24) 24 = Some (Prefix (Addr4 0xC6140000) 24)"
proof -
  have wf: "wf_prefix (Prefix (Addr4 0xC613FF00) 24)" by (simp add: wf_prefix_def)
  have b: "base (Prefix (Addr4 0xC613FF00) 24) = 0xC613FF00" by (simp add: base_def hostbits_def)
  obtain q where q: "nextSubnet (Prefix (Addr4 0xC613FF00) 24) 24 = Some q" "pbits q = 24"
    "same_family (Addr4 0xC613FF00) (paddr q)" "val (paddr q) = 0xC6140000"
    using nextSubnet_successor [OF wf, of 24] by (auto simp: b)
  moreover have "paddr q = Addr4 0xC6140000"
    using q(3,4) val_inj [of "paddr q" "Addr4 0xC6140000"] by (cases "paddr q") (simp_all add: same_family_def)
  ultimately show ?thesis by (cases q) simp
qed

text \<open>
  \<open>allocateOverlay\<close> takes the pools in the order they are configured and answers with the lowest
  subnet of the first pool that has one left; it refuses only when every subnet of every pool is
  taken, and what it hands out shares no address with a taken subnet of the same size.
\<close>

theorem allocateOverlay_lowest_untaken:
  assumes "pools \<noteq> []" and "\<forall>p \<in> set pools. pool_fits p"
  shows "case allocateOverlay pools taken of
      Inr c \<Rightarrow> \<exists>us p vs. pools = us @ p # vs \<and> c \<in> subnets p \<and> c \<notin> set taken
        \<and> (\<forall>u \<in> set us. subnets u \<subseteq> set taken)
        \<and> (\<forall>d \<in> subnets p. val (paddr d) < val (paddr c) \<longrightarrow> d \<in> set taken)
        \<and> (\<forall>d \<in> set taken. wf_prefix d \<and> val (paddr d) = base d \<and> pbits d = pbits c \<longrightarrow>
             (\<nexists>x. Contains c x \<and> Contains d x))
    | Inl e \<Rightarrow> e = PoolsFull (poolList pools) \<and> (\<forall>p \<in> set pools. subnets p \<subseteq> set taken)"
proof (cases "allocateOverlay pools taken")
  case (Inl e)
  with pools_loop_spec [OF assms(2), of pools taken] assms(1) show ?thesis
    by (simp add: allocateOverlay_def)
next
  case (Inr c)
  with pools_loop_spec [OF assms(2), of pools taken] assms(1)
  obtain us p vs where c: "pools = us @ p # vs" "c \<in> subnets p" "c \<notin> set taken"
    "\<forall>u \<in> set us. subnets u \<subseteq> set taken" "\<forall>d \<in> subnets p. val (paddr d) < val (paddr c) \<longrightarrow> d \<in> set taken"
    by (auto simp: allocateOverlay_def)
  have "\<nexists>x. Contains c x \<and> Contains d x"
    if "d \<in> set taken" "wf_prefix d" "val (paddr d) = base d" "pbits d = pbits c" for d
    using same_size_disjoint [of c d] that c(2,3) by (auto simp: subnets_def)
  with Inr c show ?thesis by simp blast
qed

definition example_pool :: Pool where
  "example_pool = \<lparr>pool_Prefix = Prefix (Addr4 0xC6130000) 16, pool_Size = 24\<rparr>"

theorem allocateOverlay_lowest_untaken_witness:
  "allocateOverlay [example_pool] [] = Inr (Prefix (Addr4 0xC6130000) 24)
   \<and> Prefix (Addr4 0xC6130000) 24 \<in> subnets example_pool"
proof -
  have run: "allocateOverlay [example_pool] [] = Inr (Prefix (Addr4 0xC6130000) 24)"
    by (simp add: walk_eval allocateOverlay_def overlay_loop.simps example_pool_def)
  have "pool_fits example_pool" by (simp add: pool_fits_def wf_prefix_def example_pool_def)
  then show ?thesis
    using allocateOverlay_lowest_untaken [of "[example_pool]" "[]"] run
    by (auto simp: Cons_eq_append_conv)
qed

end
