(* ===== verification/Names.thy ===== *)
theory Names
  imports Ipam
begin

text \<open>
  Names, \<open>src/internal/hub/name.go\<close>, \<open>src/internal/hub/certname.go\<close> and the domain half of
  \<open>src/internal/enroll/protocol.go\<close>: what an instance, a member and a zone may be called
  (\<open>ParseName\<close>, \<open>ParseMemberName\<close>, \<open>ParseDomain\<close>), the name that goes into a certificate
  (\<open>MemberCertName\<close>, \<open>LighthouseCertName\<close>) and the forced folding of a machine name (\<open>FoldLabel\<close>).

  Go's \<open>for _, r := range s\<close> walks the runes of a string, so the UTF-8 decoder of the language is
  spelled out in \<open>decode_rune\<close> and \<open>runes\<close>. A string is otherwise a list of bytes.
\<close>

section \<open>Runes\<close>

definition byte_at :: "string \<Rightarrow> nat \<Rightarrow> nat" where
  "byte_at s i = (if i < length s then of_char (s ! i) else 0)"

definition is_cont :: "nat \<Rightarrow> bool" where
  "is_cont b \<longleftrightarrow> 0x80 \<le> b \<and> b \<le> 0xBF"

text \<open>
  The first rune of a non-empty string and its width in bytes. Malformed input is \<open>U+FFFD\<close>, one
  byte wide.
\<close>

definition decode_rune :: "string \<Rightarrow> nat \<times> nat" where
  "decode_rune s =
     (let b0 = byte_at s 0; b1 = byte_at s 1; b2 = byte_at s 2; b3 = byte_at s 3 in
      if b0 < 0x80 then (b0, 1)
      else if 0xC2 \<le> b0 \<and> b0 \<le> 0xDF \<and> is_cont b1
        then ((b0 - 0xC0) * 64 + (b1 - 0x80), 2)
      else if 0xE0 \<le> b0 \<and> b0 \<le> 0xEF \<and> is_cont b1 \<and> is_cont b2
          \<and> (b0 = 0xE0 \<longrightarrow> 0xA0 \<le> b1) \<and> (b0 = 0xED \<longrightarrow> b1 \<le> 0x9F)
        then ((b0 - 0xE0) * 4096 + (b1 - 0x80) * 64 + (b2 - 0x80), 3)
      else if 0xF0 \<le> b0 \<and> b0 \<le> 0xF4 \<and> is_cont b1 \<and> is_cont b2 \<and> is_cont b3
          \<and> (b0 = 0xF0 \<longrightarrow> 0x90 \<le> b1) \<and> (b0 = 0xF4 \<longrightarrow> b1 \<le> 0x8F)
        then ((b0 - 0xF0) * 262144 + (b1 - 0x80) * 4096 + (b2 - 0x80) * 64 + (b3 - 0x80), 4)
      else (0xFFFD, 1))"

lemma decode_rune_width: "0 < snd (decode_rune s)"
  by (auto simp: decode_rune_def Let_def)

function runes :: "string \<Rightarrow> nat list" where
  "runes s = (if s = [] then [] else fst (decode_rune s) # runes (drop (snd (decode_rune s)) s))"
  by pat_completeness auto
termination
  by (relation "measure length") (use decode_rune_width in auto)

declare runes.simps [simp del]

definition label_rune :: "nat \<Rightarrow> bool" where
  "label_rune r \<longleftrightarrow> 97 \<le> r \<and> r \<le> 122 \<or> 48 \<le> r \<and> r \<le> 57 \<or> r = 45"

section \<open>Parsing\<close>

definition MaxNameLength :: nat where "MaxNameLength = 63"

datatype name_err =
    NameRequired
  | NameTooLong string nat
  | NameHyphen string
  | NameCharacter string
  | NameLooksLikeId string
  | DomainEmpty
  | DomainTooLong string
  | DomainEmptyLabel string
  | DomainLongLabel string
  | DomainHyphen string
  | DomainCharacter string

definition isHex :: "string \<Rightarrow> bool" where
  "isHex s = list_all (\<lambda>r. \<not> ((r < 48 \<or> 57 < r) \<and> (r < 97 \<or> 102 < r))) (runes s)"

definition ParseName :: "unicode \<Rightarrow> string \<Rightarrow> name_err + string" where
  "ParseName U raw =
     (let name = ToLower U (TrimSpace U raw) in
      if name = [] then Inl NameRequired
      else if MaxNameLength < length name then Inl (NameTooLong raw MaxNameLength)
      else if hd name = hyphen \<or> last name = hyphen then Inl (NameHyphen raw)
      else if \<not> list_all label_rune (runes name) then Inl (NameCharacter raw)
      else if length name = 16 \<and> isHex name then Inl (NameLooksLikeId raw)
      else Inr name)"

fun first_error :: "('a \<Rightarrow> 'e option) \<Rightarrow> 'a list \<Rightarrow> 'e option" where
  "first_error f [] = None"
| "first_error f (x # xs) = (case f x of Some e \<Rightarrow> Some e | None \<Rightarrow> first_error f xs)"

definition ParseMemberName :: "unicode \<Rightarrow> string \<Rightarrow> name_err + string" where
  "ParseMemberName U raw =
     (let name = TrimSuffix (ToLower U (TrimSpace U raw)) [dot] in
      if name = [] then Inl NameRequired
      else if 253 < length name then Inl (NameTooLong raw 253)
      else case first_error (\<lambda>label. case ParseName U label of Inl e \<Rightarrow> Some e | Inr _ \<Rightarrow> None)
                  (split_on dot name) of
             Some e \<Rightarrow> Inl e
           | None \<Rightarrow> Inr name)"

definition RootDomain :: string where "RootDomain = [dot]"

definition domain_label_error :: "string \<Rightarrow> string \<Rightarrow> name_err option" where
  "domain_label_error raw label =
     (if label = [] then Some (DomainEmptyLabel raw)
      else if 63 < length label then Some (DomainLongLabel raw)
      else if hd label = hyphen \<or> last label = hyphen then Some (DomainHyphen raw)
      else if \<not> list_all label_rune (runes label) then Some (DomainCharacter raw)
      else None)"

definition ParseDomain :: "unicode \<Rightarrow> string \<Rightarrow> name_err + string" where
  "ParseDomain U raw =
     (let name = ToLower U (TrimSpace U raw) in
      if name = RootDomain then Inr RootDomain
      else let name = TrimSuffix name [dot] in
        if name = [] then Inl DomainEmpty
        else if 253 < length name then Inl (DomainTooLong raw)
        else case first_error (domain_label_error raw) (split_on dot name) of
               Some e \<Rightarrow> Inl e
             | None \<Rightarrow> Inr name)"

section \<open>Certificate names\<close>

definition CertSuffix :: string where "CertSuffix = ''instance''"

definition LighthouseCertName :: "string \<Rightarrow> string" where
  "LighthouseCertName inst = ''hub.'' @ inst @ ''.'' @ CertSuffix"

definition certKind :: "string \<Rightarrow> string" where
  "certKind kind = (if kind = KindConnector then KindConnector else KindTenant)"

definition MemberCertName :: "string \<Rightarrow> string \<Rightarrow> string \<Rightarrow> string" where
  "MemberCertName kind name inst = name @ ''.'' @ certKind kind @ ''.'' @ inst @ ''.'' @ CertSuffix"

definition fold_rune :: "nat \<Rightarrow> char" where
  "fold_rune r = (if 97 \<le> r \<and> r \<le> 122 \<or> 48 \<le> r \<and> r \<le> 57 then char_of r else hyphen)"

text \<open>\<open>strings.ReplaceAll(name, "--", "-")\<close>: one pass, matches do not overlap.\<close>

fun replace_hh :: "string \<Rightarrow> string" where
  "replace_hh (a # b # s) =
     (if a = hyphen \<and> b = hyphen then hyphen # replace_hh s else a # replace_hh (b # s))"
| "replace_hh s = s"

lemma replace_hh_length: "length (replace_hh s) \<le> length s"
  by (induction s rule: replace_hh.induct) auto

lemma contains_hh: "contains_str s [hyphen, hyphen] \<longleftrightarrow> (\<exists>u v. s = u @ hyphen # hyphen # v)"
  by (simp add: contains_str_iff)

lemma replace_hh_shorter: "contains_str s [hyphen, hyphen] \<Longrightarrow> length (replace_hh s) < length s"
proof (induction s rule: replace_hh.induct)
  case (1 a b s)
  then show ?case
    using replace_hh_length [of s] by (auto simp: HasPrefix_def split: if_splits)
qed (auto simp: HasPrefix_def)

function collapse :: "string \<Rightarrow> string" where
  "collapse name = (if contains_str name [hyphen, hyphen] then collapse (replace_hh name) else name)"
  by pat_completeness auto
termination
  by (relation "measure length") (auto simp: replace_hh_shorter)

declare collapse.simps [simp del]

definition FoldLabel :: "unicode \<Rightarrow> string \<Rightarrow> string" where
  "FoldLabel U raw =
     (let name = collapse (trim_by (\<lambda>c. c = hyphen) (map fold_rune (runes (ToLower U (TrimSpace U raw)))));
          name = (if MaxNameLength < length name
                  then trim_by (\<lambda>c. c = hyphen) (take MaxNameLength name) else name)
      in if name = [] then ''node'' else name)"

section \<open>What the runes of a label are\<close>

definition label_char :: "char \<Rightarrow> bool" where
  "label_char c \<longleftrightarrow> label_rune (of_char c)"

lemma label_char_iff: "label_char c \<longleftrightarrow> is_lower c \<or> is_digit c \<or> c = hyphen"
proof -
  have "(of_char hyphen :: nat) = 45" by (simp add: hyphen_def)
  then have "(of_char c :: nat) = 45 \<longleftrightarrow> c = hyphen" by (metis of_char_eq_iff)
  then show ?thesis
    by (auto simp: label_char_def label_rune_def is_lower_def is_digit_def Let_def)
qed

lemma label_char_facts:
  assumes "label_char c"
  shows "is_ascii c" and "\<not> is_space c" and "\<not> is_upper c" and "c \<noteq> dot"
  using assms by (auto simp: label_char_def label_rune_def is_ascii_def is_space_def is_upper_def dot_def Let_def)

lemma decode_rune_ascii: "fst (decode_rune s) < 128 \<Longrightarrow> decode_rune s = (byte_at s 0, 1)"
  by (auto simp: decode_rune_def Let_def is_cont_def split: if_splits)

lemma decode_rune_byte: "is_ascii c \<Longrightarrow> decode_rune (c # s) = (of_char c, 1)"
  by (simp add: decode_rune_def Let_def byte_at_def is_ascii_def)

lemma runes_Nil [simp]: "runes [] = []"
  by (simp add: runes.simps)

lemma runes_Cons: "is_ascii c \<Longrightarrow> runes (c # s) = of_char c # runes s"
  by (subst runes.simps) (simp add: decode_rune_byte)

lemma runes_ascii: "ascii s \<Longrightarrow> runes s = map of_char s"
  by (induction s) (simp_all add: runes_Cons)

lemma runes_small:
  assumes "\<forall>r \<in> set (runes s). r < 128"
  shows "ascii s"
  using assms
proof (induction s rule: runes.induct)
  case (1 s)
  show ?case
  proof (cases s)
    case (Cons c t)
    with "1.prems" have "fst (decode_rune s) < 128" by (subst (asm) runes.simps) simp
    then have d: "decode_rune s = (byte_at s 0, 1)" and "is_ascii c"
      using decode_rune_ascii [of s] Cons by (auto simp: byte_at_def is_ascii_def)
    moreover have "ascii t"
      using "1.IH" "1.prems" d Cons runes.simps [of s] by simp
    ultimately show ?thesis using Cons by simp
  qed simp
qed

lemma label_runes: "list_all label_rune (runes s) \<longleftrightarrow> list_all label_char s"
proof
  assume l: "list_all label_rune (runes s)"
  then have "ascii s" by (intro runes_small) (auto simp: list_all_iff label_rune_def)
  with l show "list_all label_char s" by (simp add: runes_ascii list_all_iff label_char_def)
next
  assume l: "list_all label_char s"
  then have "ascii s" by (auto simp: list_all_iff ascii_def label_char_facts)
  with l show "list_all label_rune (runes s)" by (simp add: runes_ascii list_all_iff label_char_def)
qed

text \<open>A DNS label, and what the two foldings do to a string made of label characters.\<close>

definition dns_label :: "string \<Rightarrow> bool" where
  "dns_label s \<longleftrightarrow> s \<noteq> [] \<and> length s \<le> 63 \<and> hd s \<noteq> hyphen \<and> last s \<noteq> hyphen \<and> list_all label_char s"

lemma folded_id:
  assumes "\<forall>c \<in> set s. is_ascii c \<and> \<not> is_space c \<and> \<not> is_upper c"
  shows "TrimSpace U s = s" and "ToLower U s = s"
proof -
  have "ascii s" using assms by (simp add: ascii_iff)
  then show "TrimSpace U s = s" using assms by (simp add: TrimSpace_def trim_by_none)
  have "map lower_char s = s" using assms by (simp add: map_idI)
  then show "ToLower U s = s" using \<open>ascii s\<close> by (simp add: ToLower_def)
qed

lemma label_folded: "list_all label_char s \<Longrightarrow> TrimSpace U s = s \<and> ToLower U s = s"
  using folded_id [of s U] label_char_facts by (auto simp: list_all_iff)

definition instance_name :: "string \<Rightarrow> bool" where
  "instance_name s \<longleftrightarrow> dns_label s \<and> \<not> (length s = 16 \<and> isHex s)"

lemma ParseName_eq:
  "ParseName U raw = Inr n \<longleftrightarrow> n = ToLower U (TrimSpace U raw) \<and> instance_name n"
  by (auto simp: ParseName_def Let_def instance_name_def dns_label_def label_runes MaxNameLength_def)

lemma instance_name_folded: "instance_name n \<Longrightarrow> TrimSpace U n = n \<and> ToLower U n = n"
  by (simp add: instance_name_def dns_label_def label_folded)

text \<open>
  The contract of a name parser: what it accepts is well formed, and a well formed name is stored
  as it is. Two spellings of a name then have one stored form, and parsing what was stored changes
  nothing.
\<close>

locale name_parser =
  fixes parse :: "string \<Rightarrow> 'e + string" and wf :: "string \<Rightarrow> bool"
  assumes parse_wf: "parse raw = Inr n \<Longrightarrow> wf n"
    and parse_fixes: "wf n \<Longrightarrow> parse n = Inr n"
begin

lemma parse_idem: "parse raw = Inr n \<Longrightarrow> parse n = Inr n"
  using parse_wf parse_fixes by blast

lemma accepted_names: "(\<exists>raw. parse raw = Inr n) \<longleftrightarrow> wf n"
  using parse_wf parse_fixes by blast

end

interpretation instance_parser: name_parser "ParseName U" instance_name for U
  by unfold_locales (simp_all add: ParseName_eq instance_name_folded)

definition wf_domain :: "string \<Rightarrow> bool" where
  "wf_domain s \<longleftrightarrow> s = RootDomain \<or> length s \<le> 253 \<and> list_all dns_label (split_on dot s)"

lemma case_error_Inr [simp]: "(case x of None \<Rightarrow> Inr n | Some e \<Rightarrow> Inl e) = Inr m \<longleftrightarrow> x = None \<and> n = m"
  by (cases x) auto

lemma first_error_None: "first_error f xs = None \<longleftrightarrow> (\<forall>x \<in> set xs. f x = None)"
  by (induction xs) (auto split: option.splits)

lemma domain_label_ok: "domain_label_error raw l = None \<longleftrightarrow> dns_label l"
  by (auto simp: domain_label_error_def dns_label_def label_runes)

lemma ParseDomain_Inr:
  "ParseDomain U raw = Inr n \<longleftrightarrow>
    (let m = ToLower U (TrimSpace U raw) in
     if m = RootDomain then n = RootDomain
     else n = TrimSuffix m [dot] \<and> length n \<le> 253 \<and> list_all dns_label (split_on dot n))"
proof -
  have "first_error (domain_label_error raw) ls = None \<longleftrightarrow> list_all dns_label ls" for ls
    by (simp add: first_error_None domain_label_ok list_all_iff)
  moreover have "\<not> dns_label []" by (simp add: dns_label_def)
  ultimately show ?thesis by (auto simp: ParseDomain_def Let_def)
qed

lemma labels_chars:
  assumes "list_all dns_label (split_on dot s)" and "c \<in> set s"
  shows "label_char c \<or> c = dot"
proof -
  have "set s \<subseteq> \<Union> (set ` set (split_on dot s)) \<union> {dot}"
    unfolding split_on_def
  proof (induction s)
    case (Cons a s)
    then show ?case
      by (cases "split_by (\<lambda>d. d = dot) s") auto
  qed simp
  with assms show ?thesis by (auto simp: list_all_iff dns_label_def)
qed

lemma split_on_snoc: "split_on c (s @ [c]) = split_on c s @ [[]]"
  unfolding split_on_def
proof (induction s)
  case (Cons a s)
  then show ?case by (cases "split_by (\<lambda>d. d = c) s") auto
qed simp

lemma labels_no_trailing_dot: "list_all dns_label (split_on dot s) \<Longrightarrow> \<not> HasSuffix s [dot]"
  by (auto simp: HasSuffix_iff split_on_snoc dns_label_def)

lemma dotted_folded:
  assumes "list_all dns_label (split_on dot s)"
  shows "TrimSpace U s = s" and "ToLower U s = s"
proof -
  have "is_ascii c \<and> \<not> is_space c \<and> \<not> is_upper c" if "c \<in> set s" for c
    using labels_chars [OF assms that] label_char_facts [of c]
    by (auto simp: is_ascii_def is_space_def is_upper_def dot_def)
  then show "TrimSpace U s = s" and "ToLower U s = s" using folded_id by blast+
qed

lemma RootDomain_folded [simp]: "TrimSpace U RootDomain = RootDomain" "ToLower U RootDomain = RootDomain"
  using folded_id [of RootDomain U]
  by (auto simp: RootDomain_def dot_def is_ascii_def is_space_def is_upper_def)

interpretation domain_parser: name_parser "ParseDomain U" wf_domain for U
proof unfold_locales
  fix raw n
  assume "ParseDomain U raw = Inr n"
  then show "wf_domain n"
    by (auto simp: ParseDomain_Inr Let_def wf_domain_def split: if_splits)
next
  fix n
  assume "wf_domain n"
  then consider "n = RootDomain" | "length n \<le> 253" "list_all dns_label (split_on dot n)"
    by (auto simp: wf_domain_def)
  then show "ParseDomain U n = Inr n"
  proof cases
    case 1
    then show ?thesis by (simp add: ParseDomain_Inr)
  next
    case 2
    with dotted_folded [OF 2(2), of U] labels_no_trailing_dot [OF 2(2)] show ?thesis
      by (auto simp: ParseDomain_Inr TrimSuffix_no)
  qed
qed

lemma ParseMemberName_Inr:
  "ParseMemberName U raw = Inr n \<longleftrightarrow>
    n = TrimSuffix (ToLower U (TrimSpace U raw)) [dot] \<and> n \<noteq> [] \<and> length n \<le> 253
    \<and> (\<forall>l \<in> set (split_on dot n). \<exists>m. ParseName U l = Inr m)"
proof -
  have "first_error (\<lambda>l. case ParseName U l of Inl e \<Rightarrow> Some e | Inr _ \<Rightarrow> None) ls = None
      \<longleftrightarrow> (\<forall>l \<in> set ls. \<exists>m. ParseName U l = Inr m)" for ls
    by (auto simp: first_error_None split: sum.splits) (metis sum.exhaust)+
  then show ?thesis by (auto simp: ParseMemberName_def Let_def)
qed

text \<open>Away from white space the parsed name of a member is the dotted sequence of instance names it looks like.\<close>

definition member_name :: "string \<Rightarrow> bool" where
  "member_name s \<longleftrightarrow> length s \<le> 253 \<and> list_all instance_name (split_on dot s)"

lemma member_labels: "member_name s \<Longrightarrow> list_all dns_label (split_on dot s)"
  by (auto simp: member_name_def instance_name_def list_all_iff)

lemma member_name_parses: "member_name n \<Longrightarrow> ParseMemberName U n = Inr n"
  using dotted_folded [OF member_labels, of n U] labels_no_trailing_dot [OF member_labels, of n]
  by (auto simp: ParseMemberName_Inr TrimSuffix_no member_name_def list_all_iff instance_name_def dns_label_def
      intro!: exI instance_parser.parse_fixes)

section \<open>Folding\<close>

lemma collapse_no_hh: "\<not> contains_str (collapse s) [hyphen, hyphen]"
  by (induction s rule: collapse.induct) (subst collapse.simps, simp)

lemma replace_hh_ends:
  "s \<noteq> [] \<Longrightarrow> replace_hh s \<noteq> [] \<and> hd (replace_hh s) = hd s \<and> last (replace_hh s) = last s"
proof (induction s rule: replace_hh.induct)
  case (1 a b s)
  show ?case
  proof (cases "a = hyphen \<and> b = hyphen")
    case True
    with 1 show ?thesis by (cases s) auto
  next
    case False
    with 1 show ?thesis by auto
  qed
qed auto

lemma replace_hh_set: "set (replace_hh s) \<subseteq> set s"
  by (induction s rule: replace_hh.induct) auto

lemma collapse_ends:
  "s \<noteq> [] \<Longrightarrow> collapse s \<noteq> [] \<and> hd (collapse s) = hd s \<and> last (collapse s) = last s"
proof (induction s rule: collapse.induct)
  case (1 s)
  with replace_hh_ends [of s] show ?case by (subst (1 2 3) collapse.simps) auto
qed

lemma collapse_set: "set (collapse s) \<subseteq> set s"
proof (induction s rule: collapse.induct)
  case (1 s)
  with replace_hh_set [of s] show ?case by (subst collapse.simps) auto
qed

lemma collapse_id: "\<not> contains_str s [hyphen, hyphen] \<Longrightarrow> collapse s = s"
  by (subst collapse.simps) simp

lemma no_hh_infix:
  "\<not> contains_str (u @ s @ v) [hyphen, hyphen] \<Longrightarrow> \<not> contains_str s [hyphen, hyphen]"
  unfolding contains_str_iff by (metis append.assoc)

lemma fold_rune_label: "label_char (fold_rune r)"
proof -
  have "(of_char hyphen :: nat) = 45" by (simp add: hyphen_def)
  then show ?thesis by (auto simp: fold_rune_def label_char_def label_rune_def)
qed

lemma fold_rune_id: "label_char c \<Longrightarrow> fold_rune (of_char c) = c"
  unfolding label_char_iff
  by (auto simp: fold_rune_def is_lower_def is_digit_def Let_def hyphen_def)

text \<open>What folding produces: a DNS label without two hyphens in a row.\<close>

definition folded :: "string \<Rightarrow> bool" where
  "folded s \<longleftrightarrow> dns_label s \<and> \<not> contains_str s [hyphen, hyphen]"

lemma FoldLabel_folded: "folded (FoldLabel U raw)"
proof -
  define t where "t = trim_by (\<lambda>c. c = hyphen) (map fold_rune (runes (ToLower U (TrimSpace U raw))))"
  define n where "n = collapse t"
  define m where "m = (if 63 < length n then trim_by (\<lambda>c. c = hyphen) (take 63 n) else n)"
  have F: "FoldLabel U raw = (if m = [] then ''node'' else m)"
    by (simp add: FoldLabel_def Let_def MaxNameLength_def m_def n_def t_def)
  have lt: "\<forall>c \<in> set t. label_char c"
    unfolding t_def using set_trim_by fold_rune_label by fastforce
  then have ln: "\<forall>c \<in> set n. label_char c" using collapse_set n_def by blast
  have "set m \<subseteq> set n"
    unfolding m_def using set_trim_by [of _ "take 63 n"] set_take_subset [of 63 n] by auto
  with ln have lm: "\<forall>c \<in> set m. label_char c" by blast
  obtain u v where uv: "n = u @ m @ v"
  proof (cases "63 < length n")
    case True
    obtain u where u: "take 63 n = u @ trim_left (\<lambda>c. c = hyphen) (take 63 n)" using trim_left_suffix by blast
    obtain w where w: "trim_left (\<lambda>c. c = hyphen) (take 63 n) = m @ w"
      using trim_right_prefix [of "trim_left (\<lambda>c. c = hyphen) (take 63 n)" "\<lambda>c. c = hyphen"] True
      by (auto simp: m_def trim_by_def)
    have "n = take 63 n @ drop 63 n" by simp
    also have "\<dots> = u @ m @ (w @ drop 63 n)" using u w by simp
    finally show ?thesis using that by blast
  next
    case False
    then have "m = n" by (simp add: m_def)
    then show ?thesis using that [of "[]" "[]"] by simp
  qed
  have nh: "\<not> contains_str m [hyphen, hyphen]"
    using collapse_no_hh [of t] no_hh_infix uv unfolding n_def by metis
  have len: "length m \<le> 63"
    unfolding m_def using length_trim_by [of "\<lambda>c. c = hyphen" "take 63 n"] by auto
  have ends: "m \<noteq> [] \<Longrightarrow> hd m \<noteq> hyphen \<and> last m \<noteq> hyphen"
  proof (cases "63 < length n")
    case True
    then show "m \<noteq> [] \<Longrightarrow> hd m \<noteq> hyphen \<and> last m \<noteq> hyphen"
      using trim_by_ends [of "\<lambda>c. c = hyphen" "take 63 n"] by (simp add: m_def)
  next
    case False
    assume "m \<noteq> []"
    with False have mn: "m = n" by (simp add: m_def)
    have "collapse [] = []" by (rule collapse_id) simp
    with mn \<open>m \<noteq> []\<close> have "t \<noteq> []" unfolding n_def by metis
    moreover from this have "hd t \<noteq> hyphen" "last t \<noteq> hyphen"
      using trim_by_ends [of "\<lambda>c. c = hyphen"] unfolding t_def by blast+
    ultimately show "hd m \<noteq> hyphen \<and> last m \<noteq> hyphen"
      using collapse_ends [of t] mn by (simp add: n_def)
  qed
  have "folded ''node''"
    by (simp add: folded_def dns_label_def label_char_def label_rune_def hyphen_def HasPrefix_def)
  then show ?thesis
    using F lm nh len ends by (simp add: folded_def dns_label_def list_all_iff)
qed

lemma FoldLabel_id:
  assumes "folded s"
  shows "FoldLabel U s = s"
proof -
  from assms have l: "list_all label_char s" and s: "s \<noteq> []" "length s \<le> 63" "hd s \<noteq> hyphen" "last s \<noteq> hyphen"
    by (auto simp: folded_def dns_label_def)
  have "ascii s" using l label_char_facts by (auto simp: ascii_iff list_all_iff)
  then have "map fold_rune (runes s) = s"
    using l by (simp add: runes_ascii map_idI list_all_iff fold_rune_id)
  moreover have "collapse s = s" using assms by (intro collapse_id) (simp add: folded_def)
  ultimately show ?thesis
    using s label_folded [OF l, of U] trim_by_id [of s "\<lambda>c. c = hyphen"]
    by (simp add: FoldLabel_def MaxNameLength_def)
qed

section \<open>Certificate names\<close>

lemma certKind_dot: "dot \<notin> set (certKind k)"
  by (simp add: certKind_def KindConnector_def KindTenant_def dot_def)

lemma CertSuffix_dot: "dot \<notin> set CertSuffix"
  by (simp add: CertSuffix_def dot_def)

lemma dot_string: "''.'' = [dot]"
  by (simp add: dot_def)

lemma member_cert_split:
  assumes "dot \<notin> set inst"
  shows "rev (split_on dot (MemberCertName kind name inst)) =
    CertSuffix # inst # certKind kind # rev (split_on dot name)"
proof -
  have "split_on dot (name @ dot # t) = split_on dot name @ split_on dot t" for t
    unfolding split_on_def
  proof (induction name)
    case (Cons a s)
    then show ?case by (cases "split_by (\<lambda>d. d = dot) s") auto
  qed simp
  moreover have "split_on dot CertSuffix = [CertSuffix]"
    unfolding split_on_def using CertSuffix_dot by (intro split_by_no) auto
  ultimately show ?thesis
    using assms certKind_dot [of kind] by (simp add: MemberCertName_def dot_string split_on_append)
qed

lemma lighthouse_cert_split:
  assumes "dot \<notin> set inst"
  shows "rev (split_on dot (LighthouseCertName inst)) = [CertSuffix, inst, ''hub'']"
proof -
  have "split_on dot CertSuffix = [CertSuffix]"
    unfolding split_on_def using CertSuffix_dot by (intro split_by_no) auto
  then have "split_on dot (inst @ dot # CertSuffix) = [inst, CertSuffix]"
    using assms by (simp add: split_on_append)
  moreover have "split_on dot (''hub'' @ dot # t) = ''hub'' # split_on dot t" for t
    by (rule split_on_append) (simp add: dot_def)
  moreover have "LighthouseCertName inst = ''hub'' @ dot # inst @ dot # CertSuffix"
    by (simp add: LighthouseCertName_def dot_def)
  ultimately show ?thesis by simp
qed

lemma instance_name_dot: "instance_name n \<Longrightarrow> dot \<notin> set n"
  using label_char_facts(4) by (auto simp: instance_name_def dns_label_def list_all_iff)

section \<open>Properties\<close>

definition no_unicode :: unicode where
  "no_unicode = \<lparr>uni_lower = \<lambda>s. s, uni_trim = \<lambda>s. s, uni_fields = \<lambda>s. [s]\<rparr>"

text \<open>
  \<open>ParseName\<close> accepts exactly the names that fold to a DNS label not readable as an instance
  id, and stores the fold; a stored name parses to itself, whatever the Unicode tables say.
\<close>

theorem ParseName_stores_label:
  "(ParseName U raw = Inr n \<longleftrightarrow> n = ToLower U (TrimSpace U raw) \<and> instance_name n)
   \<and> (ParseName U raw = Inr n \<longrightarrow> ParseName V n = Inr n)"
  using ParseName_eq instance_parser.parse_wf instance_parser.parse_fixes by blast

theorem ParseName_stores_label_witness:
  "ParseName no_unicode ''  RailWay '' = Inr ''railway'' \<and> ParseName no_unicode ''railway'' = Inr ''railway''"
proof -
  have run: "ParseName no_unicode ''  RailWay '' = Inr ''railway''" by code_simp
  then show ?thesis using ParseName_stores_label [of no_unicode _ "''railway''" no_unicode] by blast
qed

text \<open>
  \<open>ParseDomain\<close> accepts the root or a dotted sequence of DNS labels of at most 253 bytes, and
  what it returns parses to itself.
\<close>

theorem ParseDomain_canonical:
  assumes "ParseDomain U raw = Inr n"
  shows "(n = RootDomain \<or> length n \<le> 253 \<and> (\<forall>l \<in> set (split_on dot n). dns_label l))
         \<and> ParseDomain V n = Inr n"
  using domain_parser.parse_wf [OF assms] domain_parser.parse_fixes
  by (auto simp: wf_domain_def list_all_iff)

theorem ParseDomain_canonical_witness:
  "ParseDomain no_unicode ''Prod.Example.COM.'' = Inr ''prod.example.com''
   \<and> ParseDomain no_unicode ''prod.example.com'' = Inr ''prod.example.com''"
proof -
  have run: "ParseDomain no_unicode ''Prod.Example.COM.'' = Inr ''prod.example.com''" by code_simp
  then show ?thesis using ParseDomain_canonical [OF run, of no_unicode] by blast
qed

text \<open>
  Without white space in it, a name \<open>ParseMemberName\<close> accepts is stored as a dotted sequence of
  at most 253 bytes whose labels are instance names, and parses to itself.
\<close>

theorem ParseMemberName_labels:
  assumes "ascii raw" and "\<forall>c \<in> set raw. \<not> is_space c" and "ParseMemberName U raw = Inr n"
  shows "member_name n \<and> ParseMemberName V n = Inr n"
proof -
  have "TrimSpace U raw = raw" using assms(1,2) by (simp add: TrimSpace_def trim_by_none)
  then have n: "n = TrimSuffix (map lower_char raw) [dot]" and len: "length n \<le> 253"
    and ls: "\<forall>l \<in> set (split_on dot n). \<exists>m. ParseName U l = Inr m"
    using assms(1,3) by (auto simp: ParseMemberName_Inr ToLower_def)
  have c: "is_ascii c \<and> \<not> is_space c \<and> \<not> is_upper c" if "c \<in> set n" for c
  proof -
    have "set n \<subseteq> lower_char ` set raw"
      using set_TrimSuffix [of "map lower_char raw" "[dot]"] by (simp add: n)
    with that obtain d where "d \<in> set raw" "c = lower_char d" by blast
    then show ?thesis using assms(1,2) by (simp add: ascii_iff)
  qed
  have "instance_name l" if "l \<in> set (split_on dot n)" for l
  proof -
    have "\<forall>c \<in> set l. is_ascii c \<and> \<not> is_space c \<and> \<not> is_upper c"
      using split_on_pieces [OF that] c by blast
    then show ?thesis using ls that folded_id [of l U] by (auto simp: ParseName_eq)
  qed
  then have "member_name n" using len by (simp add: member_name_def list_all_iff)
  then show ?thesis by (simp add: member_name_parses)
qed

theorem ParseMemberName_labels_witness:
  "ParseMemberName no_unicode ''Web.Prod.'' = Inr ''web.prod'' \<and> member_name ''web.prod''"
proof -
  have run: "ParseMemberName no_unicode ''Web.Prod.'' = Inr ''web.prod''" by code_simp
  have "ascii ''Web.Prod.''" and "\<forall>c \<in> set ''Web.Prod.''. \<not> is_space c" by code_simp+
  then show ?thesis using ParseMemberName_labels [OF _ _ run, of no_unicode] run by blast
qed

text \<open>
  \<open>ParseMemberName\<close> validates each label after trimming it and returns the name untrimmed, so a
  name with white space beside a dot is accepted as it stands, is no dotted sequence of labels, and
  parsing what was stored can change it again.
\<close>

theorem ParseMemberName_keeps_space:
  "ParseMemberName U ''web .prod'' = Inr ''web .prod''
   \<and> \<not> list_all dns_label (split_on dot ''web .prod'')
   \<and> ParseMemberName U ''web .'' = Inr ''web ''
   \<and> ParseMemberName U ''web '' = Inr ''web''"
proof (intro conjI)
  show "ParseMemberName U ''web .prod'' = Inr ''web .prod''" by code_simp
  show "\<not> list_all dns_label (split_on dot ''web .prod'')" by code_simp
  show "ParseMemberName U ''web .'' = Inr ''web ''" by code_simp
  show "ParseMemberName U ''web '' = Inr ''web''" by code_simp
qed

text \<open>
  \<open>FoldLabel\<close> never refuses: whatever it is given, it answers with a DNS label holding no two
  hyphens in a row, and leaves such a label as it is.
\<close>

theorem FoldLabel_label:
  "dns_label (FoldLabel U raw) \<and> \<not> contains_str (FoldLabel U raw) [hyphen, hyphen]
   \<and> FoldLabel V (FoldLabel U raw) = FoldLabel U raw"
  using FoldLabel_folded [of U raw] FoldLabel_id by (auto simp: folded_def)

text \<open>
  Certificate names of instances never collide: within the names instances may have, two
  certificate names of members agree only for the same member name, the same side (connector or
  machine) and the same instance, and none of them is a lighthouse's name.
\<close>

theorem MemberCertName_injective:
  assumes "instance_name i" and "instance_name j"
  shows "(MemberCertName k n i = MemberCertName l m j \<longleftrightarrow> n = m \<and> certKind k = certKind l \<and> i = j)
         \<and> MemberCertName k n i \<noteq> LighthouseCertName j"
proof -
  note dots = instance_name_dot [OF assms(1)] instance_name_dot [OF assms(2)]
  have "n = m \<and> certKind k = certKind l \<and> i = j" if "MemberCertName k n i = MemberCertName l m j"
    using member_cert_split [OF dots(1), of k n] member_cert_split [OF dots(2), of l m] that
    by simp (metis join_split_on rev_rev_ident)
  moreover have "MemberCertName k n i \<noteq> LighthouseCertName j"
  proof
    assume "MemberCertName k n i = LighthouseCertName j"
    then have "certKind k = ''hub''"
      using member_cert_split [OF dots(1), of k n] lighthouse_cert_split [OF dots(2)] by simp
    then show False by (simp add: certKind_def KindConnector_def KindTenant_def split: if_splits)
  qed
  ultimately show ?thesis by (auto simp: MemberCertName_def)
qed

theorem MemberCertName_injective_witness:
  "MemberCertName KindConnector ''web.prod'' ''railway'' \<noteq> LighthouseCertName ''railway''
   \<and> MemberCertName KindConnector ''web'' ''railway'' \<noteq> MemberCertName KindOwner ''web'' ''railway''"
proof -
  have i: "instance_name ''railway''" by code_simp
  have "certKind KindConnector \<noteq> certKind KindOwner" by code_simp
  then show ?thesis
    using MemberCertName_injective [OF i i, of KindConnector "''web''" KindOwner "''web''"]
      MemberCertName_injective [OF i i, of KindConnector "''web.prod''" KindOwner "''web''"] by blast
qed

end
