(* ===== verification/Protocol.thy ===== *)
theory Protocol
  imports Names
begin

text \<open>
  The wire protocol between the three roles, \<open>src/internal/enroll/protocol.go\<close>: the messages
  (\<open>Request\<close>, \<open>Bundle\<close>, \<open>Result\<close>, \<open>Decision\<close>), the bytes an enrollment's authentication code covers
  (\<open>Canonical\<close>, \<open>MAC\<close>, \<open>VerifyMAC\<close>) and the checks before a request is stored (\<open>Validate\<close>).

  HMAC-SHA256 is the argument \<open>hmac\<close>, a function from key and message to bytes; nothing is assumed
  of it here. A byte slice is a \<open>string\<close>. Times are integers, 0 the zero \<open>time.Time\<close>.
\<close>

type_synonym time = int

definition StatusPending :: string where "StatusPending = ''pending''"
definition StatusApproved :: string where "StatusApproved = ''approved''"
definition StatusRejected :: string where "StatusRejected = ''rejected''"

record Request =
  req_PublicKey :: string
  req_Name :: string
  req_Routes :: "prefix list"
  req_Domain :: string
  req_Hints :: "(string, string) gomap"

record EnrollRecord =
  rec_ID :: string
  rec_Status :: string
  rec_Request :: Request
  rec_Fingerprint :: string
  rec_OverlayAddress :: prefix
  rec_OverlayAddress6 :: prefix
  rec_SourceAddr :: string
  rec_ReceivedAt :: time
  rec_DecidedAt :: time

record Lighthouse =
  lh_OverlayAddress :: addr
  lh_OverlayAddress6 :: addr
  lh_Endpoints :: "string list"
  lh_Relay :: bool

record Bundle =
  bnd_Certificate :: string
  bnd_CA :: string
  bnd_OverlayAddress :: prefix
  bnd_OverlayAddress6 :: prefix
  bnd_Lighthouse :: Lighthouse
  bnd_MTU :: "32 word"
  bnd_Instance :: string
  bnd_Blocked :: "string list"

record Result =
  res_Status :: string
  res_RetryAfter :: int
  res_Bundle :: "Bundle option"
  res_Reason :: string

record Decision =
  dec_Status :: string
  dec_Bundle :: "Bundle option"
  dec_Reason :: string
  dec_Name :: string
  dec_Routes :: "prefix list"
  dec_Domain :: string
  dec_CertFingerprint :: string

record Error =
  err_Code :: string
  err_Message :: string

definition ErrorString :: "Error \<Rightarrow> string" where
  "ErrorString e = (if err_Message e = [] then err_Code e else err_Code e @ '': '' @ err_Message e)"

definition normalizePEM :: "unicode \<Rightarrow> string \<Rightarrow> string" where
  "normalizePEM U s = join '' '' (Fields U s)"

definition Canonical :: "unicode \<Rightarrow> Request \<Rightarrow> string" where
  "Canonical U r = unlines
     ([''robinet/v1/enroll'',
       ''public_key='' @ normalizePEM U (req_PublicKey r),
       ''name='' @ req_Name r,
       ''routes='' @ join '','' (sort (map PrefixString (req_Routes r))),
       ''domain='' @ req_Domain r]
      @ map (\<lambda>k. ''hint.'' @ k @ ''='' @ the_default [] (mget (req_Hints r) k))
          (sort (map fst (items (req_Hints r)))))"

definition MAC :: "(string \<Rightarrow> string \<Rightarrow> string) \<Rightarrow> unicode \<Rightarrow> Request \<Rightarrow> string \<Rightarrow> string" where
  "MAC hmac U r token = hex_encode (hmac token (Canonical U r))"

definition VerifyMAC :: "(string \<Rightarrow> string \<Rightarrow> string) \<Rightarrow> unicode \<Rightarrow> Request \<Rightarrow> string \<Rightarrow> string \<Rightarrow> bool" where
  "VerifyMAC hmac U r token mac =
     (case hex_decode (MAC hmac U r token) of
        None \<Rightarrow> False
      | Some want \<Rightarrow> (case hex_decode mac of None \<Rightarrow> False | Some got \<Rightarrow> want = got))"

datatype request_err =
    KeyMissing
  | TooManyRoutes nat
  | InvalidRoute prefix
  | RouteHostBits prefix
  | BadDomain name_err
  | TooManyHints nat

definition route_error :: "prefix \<Rightarrow> request_err option" where
  "route_error p =
     (if \<not> PrefixIsValid p then Some (InvalidRoute p)
      else if paddr p \<noteq> paddr (Masked p) then Some (RouteHostBits p)
      else None)"

definition check_hints :: "Request \<Rightarrow> request_err + Request" where
  "check_hints r =
     (if 64 < length (items (req_Hints r)) then Inl (TooManyHints (length (items (req_Hints r)))) else Inr r)"

definition Validate :: "unicode \<Rightarrow> Request \<Rightarrow> request_err + Request" where
  "Validate U r =
     (if TrimSpace U (req_PublicKey r) = [] then Inl KeyMissing
      else if 64 < length (req_Routes r) then Inl (TooManyRoutes (length (req_Routes r)))
      else case first_error route_error (req_Routes r) of
        Some e \<Rightarrow> Inl e
      | None \<Rightarrow>
          (if req_Domain r = [] then check_hints r
           else (case ParseDomain U (req_Domain r) of
                   Inl e \<Rightarrow> Inl (BadDomain e)
                 | Inr name \<Rightarrow> check_hints (r\<lparr>req_Domain := name\<rparr>))))"

section \<open>What the authentication code covers\<close>

text \<open>
  A request whose fields hold no newline, and no \<open>=\<close> in a hint's name. A name can still carry a
  newline when it comes straight from JSON, which is why this is a hypothesis and not a fact.
\<close>

definition line_safe :: "unicode \<Rightarrow> Request \<Rightarrow> bool" where
  "line_safe U r \<longleftrightarrow> nl \<notin> set (normalizePEM U (req_PublicKey r)) \<and> nl \<notin> set (req_Name r) \<and> nl \<notin> set (req_Domain r)
     \<and> wf_map (req_Hints r)
     \<and> (\<forall>(k, v) \<in> set (items (req_Hints r)). nl \<notin> set k \<and> CHR ''='' \<notin> set k \<and> nl \<notin> set v)"

lemma normalizePEM_nl: "ascii s \<Longrightarrow> nl \<notin> set (normalizePEM U s)"
proof -
  assume "ascii s"
  have "nl \<notin> set w" if "w \<in> set (split_by is_space s)" for w
    using split_by_pieces [OF that] by (auto simp: is_space_def nl_def)
  moreover have "nl \<notin> set (join '' '' ws)" if "\<forall>w \<in> set ws. nl \<notin> set w" for ws
    using that by (induction "'' ''" ws rule: join.induct) (auto simp: nl_def)
  ultimately show ?thesis using \<open>ascii s\<close> by (simp add: normalizePEM_def Fields_def)
qed

lemma hint_lines_inj:
  assumes "map (\<lambda>k. ''hint.'' @ k @ ''='' @ f k) ks = map (\<lambda>k. ''hint.'' @ k @ ''='' @ g k) ls"
    and "\<forall>k \<in> set ks \<union> set ls. CHR ''='' \<notin> set k"
  shows "ks = ls \<and> (\<forall>k \<in> set ks. f k = g k)"
  using assms
proof (induction ks arbitrary: ls)
  case (Cons k ks)
  then obtain l ms where l: "ls = l # ms" by (cases ls) auto
  with Cons.prems have "k @ CHR ''='' # f k = l @ CHR ''='' # g l" by simp
  with pair_line_inj [of "CHR ''=''" k l "f k" "g l"] Cons.prems(2) l have "k = l \<and> f k = g l" by simp
  with Cons l show ?case by auto
qed simp

lemma canonical_lines_nl:
  assumes "line_safe U r"
  shows "\<forall>l \<in> set ([''robinet/v1/enroll'',
       ''public_key='' @ normalizePEM U (req_PublicKey r),
       ''name='' @ req_Name r,
       ''routes='' @ join '','' (sort (map PrefixString (req_Routes r))),
       ''domain='' @ req_Domain r]
      @ map (\<lambda>k. ''hint.'' @ k @ ''='' @ the_default [] (mget (req_Hints r) k))
          (sort (map fst (items (req_Hints r))))). nl \<notin> set l"
proof -
  have "nl \<notin> set (join '','' ss)" if "\<forall>s \<in> set ss. nl \<notin> set s" for ss
    using that by (induction "'',''" ss rule: join.induct) (auto simp: nl_def)
  moreover have "nl \<notin> set (PrefixString p)" for p
    using inert_PrefixString [of p] by (auto simp: inert_def)
  ultimately have "nl \<notin> set (join '','' (sort (map PrefixString (req_Routes r))))" by auto
  moreover have "nl \<notin> set k \<and> nl \<notin> set (the_default [] (mget (req_Hints r) k))"
    if "k \<in> fst ` set (items (req_Hints r))" for k
  proof -
    obtain v where kv: "(k, v) \<in> set (items (req_Hints r))" using \<open>k \<in> fst ` _\<close> by auto
    with assms have "mget (req_Hints r) k = Some v" by (simp add: line_safe_def mget_items)
    with kv assms show ?thesis by (auto simp: line_safe_def)
  qed
  ultimately show ?thesis using assms by (auto simp: line_safe_def nl_def)
qed

lemma Canonical_inj:
  assumes safe: "line_safe U r" "line_safe U q" and eq: "Canonical U r = Canonical U q"
  shows "normalizePEM U (req_PublicKey r) = normalizePEM U (req_PublicKey q)"
    and "req_Name r = req_Name q"
    and "sort (map PrefixString (req_Routes r)) = sort (map PrefixString (req_Routes q))"
    and "req_Domain r = req_Domain q"
    and "mget (req_Hints r) = mget (req_Hints q)"
proof -
  note lines = unlines_inj [OF canonical_lines_nl [OF safe(1)] canonical_lines_nl [OF safe(2)]
      eq [unfolded Canonical_def]]
  let ?ks = "\<lambda>r. sort (map fst (items (req_Hints r)))"
  show "normalizePEM U (req_PublicKey r) = normalizePEM U (req_PublicKey q)"
    and "req_Name r = req_Name q" and "req_Domain r = req_Domain q"
    using lines by simp_all
  have c: "join [CHR '',''] (sort (map PrefixString (req_Routes r)))
         = join [CHR '',''] (sort (map PrefixString (req_Routes q)))"
    using lines by simp
  have "CHR '','' \<notin> set (PrefixString p) \<and> PrefixString p \<noteq> []" for p
    using inert_PrefixString [of p] PrefixString_ne by (auto simp: inert_def)
  then show "sort (map PrefixString (req_Routes r)) = sort (map PrefixString (req_Routes q))"
    by (intro join_comma_inj [OF _ _ c]) auto
  have keq: "\<forall>k \<in> set (?ks r) \<union> set (?ks q). CHR ''='' \<notin> set k"
    using safe by (auto simp: line_safe_def)
  have hints: "?ks r = ?ks q \<and>
      (\<forall>k \<in> set (?ks r). the_default [] (mget (req_Hints r) k) = the_default [] (mget (req_Hints q) k))"
    using lines by (intro hint_lines_inj [OF _ keq]) simp
  show "mget (req_Hints r) = mget (req_Hints q)"
  proof
    fix k
    have "set (?ks r) = set (?ks q)" using hints by simp
    then have kk: "keys (req_Hints r) = keys (req_Hints q)" by (simp add: keys_def)
    show "mget (req_Hints r) k = mget (req_Hints q) k"
    proof (cases "k \<in> keys (req_Hints r)")
      case True
      then obtain v w where "mget (req_Hints r) k = Some v" "mget (req_Hints q) k = Some w"
        using kk by (metis mget_None_keys option.exhaust)
      moreover have "k \<in> set (?ks r)" using True by (simp add: keys_def)
      ultimately show ?thesis using hints by fastforce
    next
      case False
      with kk show ?thesis by (metis mget_None_keys)
    qed
  qed
qed

lemma VerifyMAC_iff: "VerifyMAC hmac U r token mac \<longleftrightarrow> hex_decode mac = Some (hmac token (Canonical U r))"
  by (auto simp: VerifyMAC_def MAC_def split: option.splits)

section \<open>Properties\<close>

text \<open>
  The bytes under an enrollment's authentication code determine the request: two line-safe
  requests with the same canonical form ask with the same key, name, domain and hints, and for the
  same routes up to their order.
\<close>

theorem Canonical_determines_request:
  assumes "line_safe U r" and "line_safe U q" and "Canonical U r = Canonical U q"
  shows "normalizePEM U (req_PublicKey r) = normalizePEM U (req_PublicKey q)
    \<and> req_Name r = req_Name q
    \<and> mset (map PrefixString (req_Routes r)) = mset (map PrefixString (req_Routes q))
    \<and> req_Domain r = req_Domain q
    \<and> mget (req_Hints r) = mget (req_Hints q)"
  using Canonical_inj [OF assms] by (metis mset_sort)

definition example_request :: Request where
  "example_request = \<lparr>req_PublicKey = ''KEY'', req_Name = ''web'', req_Routes = [Prefix (Addr4 0x0A000000) 8],
     req_Domain = ''prod.internal'', req_Hints = Some [(''host'', ''web-1''), (''arch'', ''amd64'')]\<rparr>"

theorem Canonical_determines_request_witness:
  "Canonical no_unicode (example_request\<lparr>req_Hints := Some [(''arch'', ''amd64''), (''host'', ''web-1'')]\<rparr>)
     = Canonical no_unicode example_request
   \<and> mget (req_Hints example_request) = mget (Some [(''arch'', ''amd64''), (''host'', ''web-1'')])"
proof -
  let ?q = "example_request\<lparr>req_Hints := Some [(''arch'', ''amd64''), (''host'', ''web-1'')]\<rparr>"
  have l: "line_safe no_unicode example_request" "line_safe no_unicode ?q" by code_simp+
  have c: "Canonical no_unicode ?q = Canonical no_unicode example_request"
    by (simp add: Canonical_def example_request_def mget_def)
  show ?thesis using Canonical_determines_request [OF l(2,1) c] c by simp
qed

text \<open>
  \<open>VerifyMAC\<close> accepts exactly the hexadecimal spellings, in either case, of the code of this
  request under this token, \<open>MAC\<close>'s own among them.
\<close>

theorem VerifyMAC_correct:
  "VerifyMAC hmac U r token (MAC hmac U r token)
   \<and> (VerifyMAC hmac U r token mac \<longleftrightarrow> hex_decode mac = Some (hmac token (Canonical U r)))"
  by (simp add: VerifyMAC_iff MAC_def)

text \<open>
  A request \<open>Validate\<close> lets through has a key, at most 64 masked routes, at most 64 hints and a
  domain that is empty or in canonical form, and differs from the one submitted in the spelling of
  the domain only. Validating it again changes nothing.
\<close>

theorem Validate_sound:
  assumes "Validate U r = Inr q"
  shows "TrimSpace U (req_PublicKey q) \<noteq> [] \<and> length (req_Routes q) \<le> 64
    \<and> (\<forall>p \<in> set (req_Routes q). wf_prefix p \<longrightarrow> val (paddr p) = base p)
    \<and> (\<forall>p \<in> set (req_Routes q). PrefixIsValid p)
    \<and> length (items (req_Hints q)) \<le> 64
    \<and> (req_Domain q = [] \<longleftrightarrow> req_Domain r = []) \<and> (req_Domain q = [] \<or> wf_domain (req_Domain q))
    \<and> q = r\<lparr>req_Domain := req_Domain q\<rparr>
    \<and> Validate U q = Inr q"
proof -
  have ne: "wf_domain [] \<Longrightarrow> False" by (simp add: wf_domain_def RootDomain_def dns_label_def)
  have routes: "\<forall>p \<in> set (req_Routes r). PrefixIsValid p \<and> paddr p = paddr (Masked p)"
    using assms
    by (auto simp: Validate_def first_error_None route_error_def split: if_splits option.splits)
  have "val (paddr p) = base p" if "p \<in> set (req_Routes r)" "wf_prefix p" for p
    using routes that Masked_addr(2) [OF that(2)] by (auto simp: base_def)
  moreover have pk: "TrimSpace U (req_PublicKey r) \<noteq> []" and rl: "length (req_Routes r) \<le> 64"
    and fe: "first_error route_error (req_Routes r) = None"
    using assms by (auto simp: Validate_def split: if_splits option.splits)
  moreover consider "req_Domain r = []" "q = r" "length (items (req_Hints r)) \<le> 64"
    | n where "req_Domain r \<noteq> []" "ParseDomain U (req_Domain r) = Inr n" "q = r\<lparr>req_Domain := n\<rparr>"
      "length (items (req_Hints r)) \<le> 64"
    using assms pk rl fe
    by (auto simp: Validate_def check_hints_def split: if_splits sum.splits)
  then show ?thesis
  proof cases
    case 1
    then show ?thesis using calculation routes assms by auto
  next
    case 2
    have wf: "wf_domain n" using domain_parser.parse_wf 2(2) by blast
    with ne have "n \<noteq> []" by auto
    moreover have "Validate U q = Inr q"
      using pk rl fe 2 \<open>n \<noteq> []\<close> domain_parser.parse_fixes [OF wf]
      by (simp add: Validate_def check_hints_def)
    ultimately show ?thesis
      using 2 wf routes pk rl \<open>\<And>p. p \<in> set (req_Routes r) \<Longrightarrow> wf_prefix p \<Longrightarrow> val (paddr p) = base p\<close> by simp
  qed
qed

theorem Validate_sound_witness:
  "Validate no_unicode (example_request\<lparr>req_Domain := ''Prod.Internal.''\<rparr>) = Inr example_request
   \<and> wf_domain (req_Domain example_request)"
proof -
  have run: "Validate no_unicode (example_request\<lparr>req_Domain := ''Prod.Internal.''\<rparr>) = Inr example_request"
  proof -
    have "ParseDomain no_unicode ''Prod.Internal.'' = Inr ''prod.internal''" by code_simp
    moreover have "TrimSpace no_unicode ''KEY'' = ''KEY''" by code_simp
    ultimately show ?thesis
      by (simp add: Validate_def example_request_def check_hints_def route_error_def PrefixIsValid_def
          Masked_def PrefixFrom_def mask_eq_exp_minus_1)
  qed
  show ?thesis using Validate_sound [OF run] run by (auto simp: example_request_def)
qed

end
