(* ===== verification/Wrak.thy ===== *)
theory Wrak
  imports Codec Protocol
begin

text \<open>
  Requests signed by a machine, \<open>src/internal/wrak/identity.go\<close> and \<open>src/internal/wrak/nonce.go\<close>: the
  string both sides sign, the identity a key is written as, the check of an incoming request and the
  nonces that have been spent.

  Ed25519, SHA-2 and the RFC 3339 form of a time are the record \<open>crypto\<close>, an argument of the
  definitions that call them. A request carries what \<open>http.Request\<close> has of it: the host, the method,
  the decoded path, the query, the headers. Times and durations are nanoseconds, and the clock stands
  still during one call. \<open>VerifyRequest\<close> takes the store of nonces as the code does, as an interface
  that may be nil: the locale \<open>nonce_store\<close> says what the interface promises and proves that no request
  is accepted twice while its nonce is remembered; \<open>MemoryNonces\<close> is an interpretation of it.
\<close>

section \<open>Identities\<close>

record crypto =
  ed_Public :: "string \<Rightarrow> string"
  ed_Sign :: "string \<Rightarrow> string \<Rightarrow> string"
  ed_Verify :: "string \<Rightarrow> string \<Rightarrow> string \<Rightarrow> bool"
  cr_sha256 :: "string \<Rightarrow> string"
  cr_sha512 :: "string \<Rightarrow> string"
  tm_Format :: "time \<Rightarrow> string"
  tm_Parse :: "string \<Rightarrow> time option"

datatype wrak_err =
    NotSigned
  | IdentityPrefixMissing string
  | MalformedIdentity
  | IdentityLength nat
  | MalformedKey
  | KeyLength nat
  | MalformedTimestamp
  | OutsideWindow
  | MalformedSignature
  | SignatureDoesNotVerify
  | NonceUsed

definition IdentityPrefix :: string where "IdentityPrefix = ''ed25519:''"

definition ParseIdentity :: "string \<Rightarrow> wrak_err + string" where
  "ParseIdentity encoded =
     (case b64url_decode encoded of
        None \<Rightarrow> Inl MalformedKey
      | Some raw \<Rightarrow> if length raw \<noteq> 64 then Inl (KeyLength (length raw)) else Inr raw)"

definition PrivateIdentity :: "string \<Rightarrow> string" where
  "PrivateIdentity key = b64url_encode key"

definition PublicIdentity :: "string \<Rightarrow> string" where
  "PublicIdentity pub = IdentityPrefix @ b64url_encode pub"

definition CutPrefix :: "string \<Rightarrow> string \<Rightarrow> string option" where
  "CutPrefix s p = (if HasPrefix s p then Some (drop (length p) s) else None)"

definition ParsePublicIdentity :: "string \<Rightarrow> wrak_err + string" where
  "ParsePublicIdentity s =
     (case CutPrefix s IdentityPrefix of
        None \<Rightarrow> Inl (IdentityPrefixMissing s)
      | Some encoded \<Rightarrow>
          (case b64url_decode encoded of
             None \<Rightarrow> Inl MalformedIdentity
           | Some raw \<Rightarrow> if length raw \<noteq> 32 then Inl (IdentityLength (length raw)) else Inr raw))"

section \<open>Requests\<close>

record http_request =
  hr_Host :: string
  hr_Method :: string
  hr_Path :: string
  hr_Query :: "(string, string list) gomap"
  hr_Header :: "(string \<times> string) list"
  hr_RemoteAddr :: string

definition header :: "http_request \<Rightarrow> string \<Rightarrow> string" where
  "header r k = the_default [] (map_of (hr_Header r) k)"

definition set_header :: "string \<Rightarrow> string \<Rightarrow> http_request \<Rightarrow> http_request" where
  "set_header k v r = r\<lparr>hr_Header := AList.update k v (hr_Header r)\<rparr>"

definition HeaderIdentity :: string where "HeaderIdentity = ''Wrak-Identity''"
definition HeaderTimestamp :: string where "HeaderTimestamp = ''Wrak-Timestamp''"
definition HeaderNonce :: string where "HeaderNonce = ''Wrak-Nonce''"
definition HeaderSignature :: string where "HeaderSignature = ''Wrak-Signature''"

definition second :: time where "second = 1000000000"

definition Window :: time where "Window = 5 * 60 * second"

text \<open>A method is an HTTP token, which is ASCII.\<close>

definition ToUpper :: "string \<Rightarrow> string" where
  "ToUpper s = map upper_char s"

definition query_pairs :: "(string, string list) gomap \<Rightarrow> string list" where
  "query_pairs query = sort (concat (map (\<lambda>(key, values). map (\<lambda>value. QueryEscape key @ ''='' @ QueryEscape value) values) (items query)))"

definition canonicalRequest ::
  "crypto \<Rightarrow> unicode \<Rightarrow> string \<Rightarrow> string \<Rightarrow> string \<Rightarrow> (string, string list) gomap \<Rightarrow> string \<Rightarrow> string \<Rightarrow> string \<Rightarrow> string" where
  "canonicalRequest C U host method path query body timestamp nonce =
     unlines
       [''wrak/v1/request'',
        ''host='' @ ToLower U host,
        ''method='' @ ToUpper method,
        ''path='' @ path,
        ''query='' @ join ''&'' (query_pairs query),
        ''body_sha256='' @ hex_encode (cr_sha256 C body),
        ''timestamp='' @ timestamp,
        ''nonce='' @ nonce]"

definition canonical_of :: "crypto \<Rightarrow> unicode \<Rightarrow> http_request \<Rightarrow> string \<Rightarrow> string \<Rightarrow> string \<Rightarrow> string" where
  "canonical_of C U r body timestamp nonce =
     canonicalRequest C U (hr_Host r) (hr_Method r) (hr_Path r) (hr_Query r) body timestamp nonce"

definition SignRequest ::
  "crypto \<Rightarrow> unicode \<Rightarrow> string \<Rightarrow> time \<Rightarrow> string \<Rightarrow> http_request \<Rightarrow> string \<Rightarrow> http_request" where
  "SignRequest C U priv now nonceRaw r body =
     (let nonce = b64url_encode nonceRaw;
          timestamp = tm_Format C now;
          signature = ed_Sign C priv (canonical_of C U r body timestamp nonce)
      in set_header HeaderSignature (b64url_encode signature)
          (set_header HeaderNonce nonce
            (set_header HeaderTimestamp timestamp
              (set_header HeaderIdentity (PublicIdentity (ed_Public C priv)) r))))"

type_synonym 'n nonce_use = "'n \<Rightarrow> time \<Rightarrow> string \<Rightarrow> string \<Rightarrow> time \<Rightarrow> 'n \<times> bool"

definition VerifyRequest ::
  "crypto \<Rightarrow> unicode \<Rightarrow> 'n nonce_use option \<Rightarrow> time \<Rightarrow> http_request \<Rightarrow> string \<Rightarrow> 'n \<Rightarrow> 'n \<times> (wrak_err + string)" where
  "VerifyRequest C U seen now r body st =
     (let identity = header r HeaderIdentity;
          timestamp = header r HeaderTimestamp;
          nonce = header r HeaderNonce;
          signature = header r HeaderSignature
      in if identity = [] \<or> timestamp = [] \<or> nonce = [] \<or> signature = [] then (st, Inl NotSigned)
      else case ParsePublicIdentity identity of
             Inl e \<Rightarrow> (st, Inl e)
           | Inr pub \<Rightarrow>
      (case tm_Parse C timestamp of
             None \<Rightarrow> (st, Inl MalformedTimestamp)
           | Some when \<Rightarrow>
               if now - when > Window \<or> now - when < - Window then (st, Inl OutsideWindow)
               else
      (case b64url_decode signature of
             None \<Rightarrow> (st, Inl MalformedSignature)
           | Some raw \<Rightarrow>
               if \<not> ed_Verify C pub (canonical_of C U r body timestamp nonce) raw
               then (st, Inl SignatureDoesNotVerify)
               else (case seen of
                       None \<Rightarrow> (st, Inr identity)
                     | Some use \<Rightarrow>
                         (case use st now identity nonce Window of
                            (st', True) \<Rightarrow> (st', Inr identity)
                          | (st', False) \<Rightarrow> (st', Inl NonceUsed))))))"

definition ConstantTimeEqual :: "string \<Rightarrow> string \<Rightarrow> bool" where
  "ConstantTimeEqual a b \<longleftrightarrow> a = b"

section \<open>Nonces\<close>

record MemoryNonces =
  mn_seen :: "(string, time) gomap"
  mn_swept :: time

definition NewMemoryNonces :: MemoryNonces where
  "NewMemoryNonces = \<lparr>mn_seen = Some [], mn_swept = 0\<rparr>"

definition nonce_key :: "string \<Rightarrow> string \<Rightarrow> string" where
  "nonce_key identity nonce = identity @ [CHR 0x00] @ nonce"

definition sweep :: "time \<Rightarrow> (string, time) gomap \<Rightarrow> (string, time) gomap" where
  "sweep now m = map_option (filter (\<lambda>(k, expiry). \<not> expiry < now)) m"

text \<open>The map is made in \<open>NewMemoryNonces\<close> and never replaced, so writing to it does not panic.\<close>

definition Use :: "MemoryNonces nonce_use" where
  "Use m now identity nonce ttl =
     (let key = nonce_key identity nonce;
          m1 = (if now - mn_swept m > ttl then m\<lparr>mn_seen := sweep now (mn_seen m), mn_swept := now\<rparr> else m)
      in case mget (mn_seen m1) key of
           Some expiry \<Rightarrow>
             if now < expiry then (m1, False)
             else (m1\<lparr>mn_seen := the_default None (mput key (now + ttl) (mn_seen m1))\<rparr>, True)
         | None \<Rightarrow> (m1\<lparr>mn_seen := the_default None (mput key (now + ttl) (mn_seen m1))\<rparr>, True))"

section \<open>The string both sides sign\<close>

lemma peel_back:
  assumes "c \<notin> set a" and "c \<notin> set b" and "x @ c # a = y @ c # b"
  shows "a = b \<and> x = y"
proof -
  have "rev a @ c # rev x = rev b @ c # rev y" using arg_cong [OF assms(3), of rev] by simp
  with assms(1,2) pair_line_inj [of c "rev a" "rev b" "rev x" "rev y"] show ?thesis by simp
qed

lemma last_lines_inj:
  assumes "unlines (ls @ [l]) = unlines (ms @ [m])" and "ls \<noteq> []" and "ms \<noteq> []" and "nl \<notin> set l" and "nl \<notin> set m"
  shows "l = m \<and> unlines ls = unlines ms"
proof -
  obtain x y where xy: "unlines ls = x @ [nl]" "unlines ms = y @ [nl]"
    using assms(2,3) by (metis append_butlast_last_id append_assoc unlines_simps(1,2,3) append_Nil)
  from assms(1) have "x @ nl # l = y @ nl # m" by (simp add: xy)
  with peel_back [OF assms(4,5)] xy show ?thesis by simp
qed

definition query_list :: "(string, string list) gomap \<Rightarrow> (string \<times> string) list" where
  "query_list query = concat (map (\<lambda>(key, values). map (Pair key) values) (items query))"

definition escape_pair :: "string \<times> string \<Rightarrow> string" where
  "escape_pair kv = QueryEscape (fst kv) @ ''='' @ QueryEscape (snd kv)"

lemma query_pairs_eq: "query_pairs q = sort (map escape_pair (query_list q))"
  by (simp add: query_pairs_def query_list_def escape_pair_def map_concat comp_def split_def)

lemma escape_pair_inj: "inj escape_pair"
proof (rule injI)
  fix p q :: "string \<times> string"
  assume e: "escape_pair p = escape_pair q"
  have m: "CHR ''='' \<notin> set (QueryEscape s)" for s using QueryEscape_mark [of "CHR ''=''" s] by (auto simp: mark_def)
  from e have "QueryEscape (fst p) = QueryEscape (fst q) \<and> QueryEscape (snd p) = QueryEscape (snd q)"
    unfolding escape_pair_def using pair_line_inj [OF m m] by simp
  then show "p = q" by (simp add: QueryEscape_inj prod_eq_iff)
qed

lemma escape_pair_chars: "CHR ''&'' \<notin> set (escape_pair p) \<and> escape_pair p \<noteq> [] \<and> nl \<notin> set (escape_pair p)"
proof -
  have "CHR ''&'' \<notin> set (QueryEscape s)" "nl \<notin> set (QueryEscape s)" for s
    using QueryEscape_mark [of _ s] by (auto simp: mark_def)
  moreover have "CHR ''='' \<noteq> nl" by (simp add: nl_def)
  ultimately show ?thesis by (simp add: escape_pair_def)
qed

lemma query_line_inj:
  assumes "join ''&'' (query_pairs q) = join ''&'' (query_pairs q')"
  shows "mset (query_list q) = mset (query_list q')"
proof -
  have "\<forall>s \<in> set (query_pairs x). CHR ''&'' \<notin> set s \<and> s \<noteq> []" for x
    using escape_pair_chars by (auto simp: query_pairs_eq)
  with join_comma_inj [of "query_pairs q" "CHR ''&''" "query_pairs q'"] assms
  have "mset (map escape_pair (query_list q)) = mset (map escape_pair (query_list q'))"
    by (metis query_pairs_eq mset_sort)
  then have "image_mset escape_pair (mset (query_list q)) = image_mset escape_pair (mset (query_list q'))" by simp
  then show ?thesis using multiset.inj_map [OF escape_pair_inj] by (rule injD [rotated])
qed

lemma join_no_nl: "nl \<notin> set sep \<Longrightarrow> \<forall>s \<in> set ss. nl \<notin> set s \<Longrightarrow> nl \<notin> set (join sep ss)"
  by (induction sep ss rule: join.induct) auto

lemma query_line_no_nl: "nl \<notin> set (join ''&'' (query_pairs q))"
  using escape_pair_chars by (intro join_no_nl) (auto simp: query_pairs_eq nl_def)

lemma hex_no_nl: "nl \<notin> set (hex_encode s)"
  using hex_encode_chars by (force simp: alnum_def is_digit_def is_lower_def nl_def)

text \<open>What \<open>net/http\<close> lets through in a host, a method and a header has no newline in it.\<close>

definition one_line :: "unicode \<Rightarrow> string \<Rightarrow> string \<Rightarrow> string \<Rightarrow> string \<Rightarrow> bool" where
  "one_line U host method timestamp nonce \<longleftrightarrow>
     nl \<notin> set (ToLower U host) \<and> nl \<notin> set (ToUpper method) \<and> nl \<notin> set timestamp \<and> nl \<notin> set nonce"

text \<open>
  C11: the signed string determines the request: the host and the method up to case, the path, the
  parameters of the query up to order, the digest of the body, the time and the nonce. This holds
  although the path is signed decoded and may have newlines in it. A signature can therefore not be
  moved to another endpoint, host or payload.
\<close>

theorem canonicalRequest_determines:
  assumes "one_line U host method timestamp nonce" and "one_line U host' method' timestamp' nonce'"
    and "canonicalRequest C U host method path query body timestamp nonce
       = canonicalRequest C U host' method' path' query' body' timestamp' nonce'"
  shows "ToLower U host = ToLower U host' \<and> ToUpper method = ToUpper method' \<and> path = path'
    \<and> mset (query_list query) = mset (query_list query') \<and> cr_sha256 C body = cr_sha256 C body'
    \<and> timestamp = timestamp' \<and> nonce = nonce'"
proof -
  let ?h = "''host='' @ ToLower U host" and ?h' = "''host='' @ ToLower U host'"
  let ?m = "''method='' @ ToUpper method" and ?m' = "''method='' @ ToUpper method'"
  let ?q = "''query='' @ join ''&'' (query_pairs query)" and ?q' = "''query='' @ join ''&'' (query_pairs query')"
  let ?b = "''body_sha256='' @ hex_encode (cr_sha256 C body)" and ?b' = "''body_sha256='' @ hex_encode (cr_sha256 C body')"
  let ?t = "''timestamp='' @ timestamp" and ?t' = "''timestamp='' @ timestamp'"
  let ?n = "''nonce='' @ nonce" and ?n' = "''nonce='' @ nonce'"
  have safe: "nl \<notin> set ?h" "nl \<notin> set ?h'" "nl \<notin> set ?m" "nl \<notin> set ?m'" "nl \<notin> set ?q" "nl \<notin> set ?q'"
    "nl \<notin> set ?b" "nl \<notin> set ?b'" "nl \<notin> set ?t" "nl \<notin> set ?t'" "nl \<notin> set ?n" "nl \<notin> set ?n'"
    using assms(1,2) query_line_no_nl hex_no_nl by (auto simp: one_line_def) (auto simp: nl_def)
  have "?h @ nl # unlines [?m, ''path='' @ path, ?q, ?b, ?t, ?n] = ?h' @ nl # unlines [?m', ''path='' @ path', ?q', ?b', ?t', ?n']"
    using assms(3) by (simp add: canonicalRequest_def)
  from pair_line_inj [OF safe(1,2) this]
  have h: "?h = ?h'" and r1: "?m @ nl # unlines [''path='' @ path, ?q, ?b, ?t, ?n] = ?m' @ nl # unlines [''path='' @ path', ?q', ?b', ?t', ?n']"
    by simp_all
  from pair_line_inj [OF safe(3,4) r1]
  have m: "?m = ?m'" and r2: "unlines ([''path='' @ path, ?q, ?b, ?t] @ [?n]) = unlines ([''path='' @ path', ?q', ?b', ?t'] @ [?n'])"
    by simp_all
  from last_lines_inj [OF r2 _ _ safe(11,12)]
  have n: "?n = ?n'" and r3: "unlines ([''path='' @ path, ?q, ?b] @ [?t]) = unlines ([''path='' @ path', ?q', ?b'] @ [?t'])" by simp_all
  from last_lines_inj [OF r3 _ _ safe(9,10)]
  have t: "?t = ?t'" and r4: "unlines ([''path='' @ path, ?q] @ [?b]) = unlines ([''path='' @ path', ?q'] @ [?b'])" by simp_all
  from last_lines_inj [OF r4 _ _ safe(7,8)]
  have b: "?b = ?b'" and r5: "unlines ([''path='' @ path] @ [?q]) = unlines ([''path='' @ path'] @ [?q'])" by simp_all
  from last_lines_inj [OF r5 _ _ safe(5,6)]
  have q: "?q = ?q'" and p: "path = path'" by simp_all
  show ?thesis using h m n t b q p query_line_inj [of query query'] by (simp add: hex_encode_inj)
qed

definition example_crypto :: crypto where
  "example_crypto = \<lparr>ed_Public = take 32, ed_Sign = (\<lambda>key m. take 32 key @ m), ed_Verify = (\<lambda>pub m s. s = pub @ m),
     cr_sha256 = (\<lambda>s. s), cr_sha512 = (\<lambda>s. s), tm_Format = (\<lambda>_. ''now''), tm_Parse = (\<lambda>_. Some second)\<rparr>"

theorem canonicalRequest_determines_witness:
  "mset (query_list (Some [(''b'', [''2'']), (''a b'', [''1''])])) = mset (query_list (Some [(''a b'', [''1'']), (''b'', [''2''])]))"
proof -
  let ?q = "Some [(''b'', [''2'']), (''a b'', [''1''])]" and ?q' = "Some [(''a b'', [''1'']), (''b'', [''2''])]"
  have l: "one_line no_unicode ''Hub'' ''get'' ''t'' ''n''" "one_line no_unicode ''hub'' ''GET'' ''t'' ''n''"
    by code_simp+
  have "canonicalRequest example_crypto no_unicode ''Hub'' ''get'' ''/x'' ?q [] ''t'' ''n''
      = canonicalRequest example_crypto no_unicode ''hub'' ''GET'' ''/x'' ?q' [] ''t'' ''n''"
    by code_simp
  from canonicalRequest_determines [OF l this] show ?thesis by blast
qed

section \<open>Checking a request\<close>

lemma VerifyRequest_Inr:
  assumes "VerifyRequest C U seen now r body st = (st', Inr identity)"
  obtains pub moment raw where "identity = header r HeaderIdentity" and "identity \<noteq> []" and "header r HeaderNonce \<noteq> []"
    and "ParsePublicIdentity identity = Inr pub" and "tm_Parse C (header r HeaderTimestamp) = Some moment"
    and "- Window \<le> now - moment" and "now - moment \<le> Window" and "b64url_decode (header r HeaderSignature) = Some raw"
    and "ed_Verify C pub (canonical_of C U r body (header r HeaderTimestamp) (header r HeaderNonce)) raw"
    and "case seen of None \<Rightarrow> st' = st | Some use \<Rightarrow> use st now identity (header r HeaderNonce) Window = (st', True)"
  using assms
  by (auto simp: VerifyRequest_def Let_def not_less split: if_splits sum.splits option.splits prod.splits bool.splits)

text \<open>Whether the nonce was fresh is the last thing that is asked: until then nothing has changed.\<close>

lemma VerifyRequest_Inl:
  assumes "VerifyRequest C U seen now r body st = (st', Inl e)"
  shows "st' = st \<or> e = NonceUsed \<and> (\<exists>use. seen = Some use \<and> use st now (header r HeaderIdentity) (header r HeaderNonce) Window = (st', False))"
  using assms by (auto simp: VerifyRequest_def Let_def split: if_splits sum.splits option.splits prod.splits bool.splits)

lemma VerifyRequest_ok:
  assumes "header r HeaderIdentity \<noteq> []" "header r HeaderTimestamp \<noteq> []" "header r HeaderNonce \<noteq> []" "header r HeaderSignature \<noteq> []"
    and "ParsePublicIdentity (header r HeaderIdentity) = Inr pub" and "tm_Parse C (header r HeaderTimestamp) = Some moment"
    and "- Window \<le> now - moment" and "now - moment \<le> Window" and "b64url_decode (header r HeaderSignature) = Some raw"
    and "ed_Verify C pub (canonical_of C U r body (header r HeaderTimestamp) (header r HeaderNonce)) raw"
  shows "VerifyRequest C U (Some use) now r body st =
    (case use st now (header r HeaderIdentity) (header r HeaderNonce) Window of
       (st', True) \<Rightarrow> (st', Inr (header r HeaderIdentity)) | (st', False) \<Rightarrow> (st', Inl NonceUsed))"
  using assms by (simp add: VerifyRequest_def Let_def)

section \<open>A nonce is accepted once\<close>

text \<open>The requests served one after the other, each with the time it came in.\<close>

fun verify_all :: "crypto \<Rightarrow> unicode \<Rightarrow> 'n nonce_use \<Rightarrow> (time \<times> http_request \<times> string) list \<Rightarrow> 'n \<Rightarrow> 'n" where
  "verify_all C U use [] st = st"
| "verify_all C U use ((now, r, body) # rs) st = verify_all C U use rs (fst (VerifyRequest C U (Some use) now r body st))"

text \<open>
  What a store of nonces promises: it refuses what is spent, what it accepts is spent from then on for
  as long as it was told, and using other nonces does not bring one back.
\<close>

locale nonce_store =
  fixes use :: "'n nonce_use" and spent :: "'n \<Rightarrow> time \<Rightarrow> string \<Rightarrow> string \<Rightarrow> bool" and ok :: "'n \<Rightarrow> bool"
  assumes ok_use: "ok st \<Longrightarrow> ok (fst (use st now i n ttl))"
    and refuses: "ok st \<Longrightarrow> spent st now i n \<Longrightarrow> \<not> snd (use st now i n ttl)"
    and spends: "ok st \<Longrightarrow> use st now i n ttl = (st', True) \<Longrightarrow> now \<le> t \<Longrightarrow> t < now + ttl \<Longrightarrow> spent st' t i n"
    and keeps: "ok st \<Longrightarrow> spent st t i n \<Longrightarrow> now \<le> t \<Longrightarrow> spent (fst (use st now j m ttl)) t i n"
begin

lemma verify_ok: "ok st \<Longrightarrow> ok (fst (VerifyRequest C U (Some use) now r body st))"
  using ok_use [of st now "header r HeaderIdentity" "header r HeaderNonce" Window]
  by (cases "VerifyRequest C U (Some use) now r body st"; cases "snd (VerifyRequest C U (Some use) now r body st)")
    (auto dest!: VerifyRequest_Inl elim!: VerifyRequest_Inr)

lemma verify_keeps: "ok st \<Longrightarrow> spent st t i n \<Longrightarrow> now \<le> t \<Longrightarrow> spent (fst (VerifyRequest C U (Some use) now r body st)) t i n"
  using keeps [of st t i n now "header r HeaderIdentity" "header r HeaderNonce" Window]
  by (cases "VerifyRequest C U (Some use) now r body st"; cases "snd (VerifyRequest C U (Some use) now r body st)")
    (auto dest!: VerifyRequest_Inl elim!: VerifyRequest_Inr)

lemma verify_all_ok: "ok st \<Longrightarrow> ok (verify_all C U use rs st)"
  by (induction rs arbitrary: st) (auto simp: verify_ok)

lemma verify_all_keeps:
  "ok st \<Longrightarrow> spent st t i n \<Longrightarrow> \<forall>(now, _) \<in> set rs. now \<le> t \<Longrightarrow> spent (verify_all C U use rs st) t i n"
proof (induction rs arbitrary: st)
  case (Cons x rs)
  then show ?case by (cases x) (simp add: verify_ok verify_keeps)
qed simp

lemma no_replay:
  assumes "ok st" and "VerifyRequest C U (Some use) now r body st = (st1, Inr identity)"
    and "\<forall>(t', _) \<in> set rs. t' \<le> t" and "now \<le> t" and "t < now + Window"
    and "header r' HeaderIdentity = identity" and "header r' HeaderNonce = header r HeaderNonce"
  shows "\<exists>e. snd (VerifyRequest C U (Some use) t r' body' (verify_all C U use rs st1)) = Inl e"
proof -
  have u: "use st now identity (header r HeaderNonce) Window = (st1, True)"
    using assms(2) by (rule VerifyRequest_Inr) simp
  have ok1: "ok st1" using verify_ok [OF assms(1)] assms(2) by (metis fst_conv)
  have "spent (verify_all C U use rs st1) t identity (header r HeaderNonce)"
    by (rule verify_all_keeps [OF ok1 spends [OF assms(1) u assms(4,5)] assms(3)])
  from refuses [OF verify_all_ok [OF ok1] this]
  have refused: "\<not> snd (use (verify_all C U use rs st1) t identity (header r HeaderNonce) Window)" .
  show ?thesis
  proof (cases "VerifyRequest C U (Some use) t r' body' (verify_all C U use rs st1)")
    case (Pair st2 res)
    show ?thesis
    proof (cases res)
      case (Inr i)
      with Pair have "VerifyRequest C U (Some use) t r' body' (verify_all C U use rs st1) = (st2, Inr i)" by simp
      then have "use (verify_all C U use rs st1) t (header r' HeaderIdentity) (header r' HeaderNonce) Window = (st2, True)"
        by (rule VerifyRequest_Inr) simp
      with refused assms(6,7) show ?thesis by simp
    qed (use Pair in auto)
  qed
qed

end

section \<open>The nonces in memory\<close>

definition nonces_ok :: "MemoryNonces \<Rightarrow> bool" where
  "nonces_ok m \<longleftrightarrow> mn_seen m \<noteq> None \<and> wf_map (mn_seen m)"

definition nonce_spent :: "MemoryNonces \<Rightarrow> time \<Rightarrow> string \<Rightarrow> string \<Rightarrow> bool" where
  "nonce_spent m t identity nonce \<longleftrightarrow> (\<exists>expiry. mget (mn_seen m) (nonce_key identity nonce) = Some expiry \<and> t < expiry)"

lemma mget_sweep:
  assumes "wf_map m"
  shows "mget (sweep now m) k = (case mget m k of None \<Rightarrow> None | Some e \<Rightarrow> if e < now then None else Some e)"
    and "wf_map (sweep now m)" and "sweep now m = None \<longleftrightarrow> m = None"
proof -
  have "map_of (filter (\<lambda>(k, e). \<not> e < now) l) k = (case map_of l k of None \<Rightarrow> None | Some e \<Rightarrow> if e < now then None else Some e)"
    if "distinct (map fst l)" for l
    using that
  proof (induction l)
    case (Cons p l)
    moreover have "map_of l (fst p) = None" using Cons.prems by (simp add: map_of_eq_None_iff)
    ultimately show ?case by (cases p) (auto split: option.splits)
  qed simp
  then show "mget (sweep now m) k = (case mget m k of None \<Rightarrow> None | Some e \<Rightarrow> if e < now then None else Some e)"
    using assms by (cases m) (simp_all add: sweep_def mget_def wf_map_def)
  show "wf_map (sweep now m)"
    using assms by (cases m) (auto simp: sweep_def wf_map_def distinct_map inj_on_def)
  show "sweep now m = None \<longleftrightarrow> m = None" by (simp add: sweep_def)
qed

text \<open>The table after the sweep, and what \<open>Use\<close> does to it.\<close>

definition swept :: "time \<Rightarrow> time \<Rightarrow> MemoryNonces \<Rightarrow> MemoryNonces" where
  "swept now ttl m = (if now - mn_swept m > ttl then m\<lparr>mn_seen := sweep now (mn_seen m), mn_swept := now\<rparr> else m)"

lemma swept_ok: "nonces_ok m \<Longrightarrow> nonces_ok (swept now ttl m)"
  by (simp add: nonces_ok_def swept_def mget_sweep del: not_None_eq)

lemma swept_spent: "nonces_ok m \<Longrightarrow> nonce_spent m t i n \<Longrightarrow> now \<le> t \<Longrightarrow> nonce_spent (swept now ttl m) t i n"
  by (auto simp: nonces_ok_def nonce_spent_def swept_def mget_sweep)

lemma Use_eq:
  assumes "nonces_ok m"
  shows "Use m now i n ttl =
    (if nonce_spent (swept now ttl m) now i n then (swept now ttl m, False)
     else ((swept now ttl m)\<lparr>mn_seen := Some (AList.update (nonce_key i n) (now + ttl) (items (mn_seen (swept now ttl m))))\<rparr>, True))"
proof -
  obtain l where l: "mn_seen (swept now ttl m) = Some l" using swept_ok [OF assms, of now ttl] by (auto simp: nonces_ok_def)
  have "Use m now i n ttl =
     (case mget (mn_seen (swept now ttl m)) (nonce_key i n) of
        Some expiry \<Rightarrow>
          if now < expiry then (swept now ttl m, False)
          else ((swept now ttl m)\<lparr>mn_seen := the_default None (mput (nonce_key i n) (now + ttl) (mn_seen (swept now ttl m)))\<rparr>, True)
      | None \<Rightarrow> ((swept now ttl m)\<lparr>mn_seen := the_default None (mput (nonce_key i n) (now + ttl) (mn_seen (swept now ttl m)))\<rparr>, True))"
    by (simp only: Use_def swept_def [symmetric] Let_def)
  then show ?thesis by (auto simp: l nonce_spent_def split: option.splits)
qed

interpretation memory: nonce_store Use nonce_spent nonces_ok
proof
  fix st now i n ttl
  assume ok: "nonces_ok st"
  then show "nonces_ok (fst (Use st now i n ttl))"
    using swept_ok [OF ok, of now ttl]
    by (cases "mn_seen (swept now ttl st)") (auto simp: Use_eq nonces_ok_def wf_map_def distinct_update)
  show "\<not> snd (Use st now i n ttl)" if "nonce_spent st now i n"
    using ok swept_spent [OF ok that order_refl] by (simp add: Use_eq)
next
  fix st now i n ttl st' t
  assume ok: "nonces_ok st" and u: "Use st now i n ttl = (st', True)" and t: "now \<le> t" "t < now + ttl"
  have "mn_seen st' = Some (AList.update (nonce_key i n) (now + ttl) (items (mn_seen (swept now ttl st))))"
    using u by (auto simp: Use_eq [OF ok] split: if_splits)
  then show "nonce_spent st' t i n" using t by (simp add: nonce_spent_def mget_def update_conv)
next
  fix st t i n now j m ttl
  assume ok: "nonces_ok st" and s: "nonce_spent st t i n" and t: "now \<le> t"
  note sw = swept_spent [OF ok s t, of ttl]
  show "nonce_spent (fst (Use st now j m ttl)) t i n"
  proof (cases "nonce_key j m = nonce_key i n")
    case True
    then have "nonce_spent (swept now ttl st) now j m" using sw t by (auto simp: nonce_spent_def)
    then show ?thesis using sw by (simp add: Use_eq [OF ok])
  next
    case False
    then show ?thesis using sw by (auto simp: Use_eq [OF ok] nonce_spent_def mget_def update_conv)
  qed
qed

text \<open>
  C10: while its nonce is remembered, for \<open>Window\<close> after it was accepted, a request is not accepted
  again: whatever other requests come in between, genuine or not, and whatever the replayed one looks
  like otherwise.
\<close>

theorem VerifyRequest_no_replay:
  assumes "nonces_ok st" and "VerifyRequest C U (Some Use) now r body st = (st1, Inr identity)"
    and "\<forall>(t', _) \<in> set rs. t' \<le> t" and "now \<le> t" and "t < now + Window"
    and "header r' HeaderIdentity = identity" and "header r' HeaderNonce = header r HeaderNonce"
  shows "\<exists>e. snd (VerifyRequest C U (Some Use) t r' body' (verify_all C U Use rs st1)) = Inl e"
  by (rule memory.no_replay [OF assms])

text \<open>A request signed by the key made of 64 letters, and the state before it.\<close>

definition example_priv :: string where
  "example_priv = replicate 64 CHR ''k''"

definition example_call :: http_request where
  "example_call = \<lparr>hr_Host = ''hub'', hr_Method = ''GET'', hr_Path = ''/v1/instances'', hr_Query = Some [],
     hr_Header = [], hr_RemoteAddr = ''192.0.2.7:5000''\<rparr>"

definition signed_call :: http_request where
  "signed_call = SignRequest example_crypto no_unicode example_priv second ''nonce'' example_call []"

lemma set_header_get: "header (set_header k v r) x = (if x = k then v else header r x)"
  by (simp add: header_def set_header_def update_conv)

lemma set_header_other:
  "hr_Host (set_header k v r) = hr_Host r" "hr_Method (set_header k v r) = hr_Method r" "hr_Path (set_header k v r) = hr_Path r"
  "hr_Query (set_header k v r) = hr_Query r"
  by (simp_all add: set_header_def)

lemma header_names: "distinct [HeaderIdentity, HeaderTimestamp, HeaderNonce, HeaderSignature]"
  by (simp add: HeaderIdentity_def HeaderTimestamp_def HeaderNonce_def HeaderSignature_def)

lemma SignRequest_headers:
  assumes "s = SignRequest C U priv now nonceRaw r body"
  shows "header s HeaderIdentity = PublicIdentity (ed_Public C priv)" and "header s HeaderTimestamp = tm_Format C now"
    and "header s HeaderNonce = b64url_encode nonceRaw"
    and "header s HeaderSignature = b64url_encode (ed_Sign C priv (canonical_of C U r body (tm_Format C now) (b64url_encode nonceRaw)))"
    and "canonical_of C U s body = canonical_of C U r body"
  using header_names
  by (auto simp: assms SignRequest_def Let_def set_header_get set_header_other canonical_of_def fun_eq_iff)

lemma Parse_PublicIdentity: "length pub = 32 \<Longrightarrow> ParsePublicIdentity (PublicIdentity pub) = Inr pub"
  by (simp add: ParsePublicIdentity_def PublicIdentity_def CutPrefix_def HasPrefix_iff)

lemma b64url_encode_ne: "s \<noteq> [] \<Longrightarrow> b64url_encode s \<noteq> []"
  by (cases "map of_char s :: nat list" rule: sextets.cases) (auto simp: b64url_encode_def)

lemma signed_verifies:
  assumes "length (ed_Public C priv) = 32" and "\<And>m. ed_Verify C (ed_Public C priv) m (ed_Sign C priv m)"
    and "\<And>m. ed_Sign C priv m \<noteq> []" and "tm_Parse C (tm_Format C now) = Some (now - now mod second)" and "tm_Format C now \<noteq> []"
    and "nonceRaw \<noteq> []" and "now - Window \<le> later" and "later \<le> now + Window - second"
    and "i = PublicIdentity (ed_Public C priv)" and "n = b64url_encode nonceRaw"
  shows "VerifyRequest C U (Some use) later (SignRequest C U priv now nonceRaw r body) body st =
    (case use st later i n Window of (st', True) \<Rightarrow> (st', Inr i) | (st', False) \<Rightarrow> (st', Inl NonceUsed))"
proof -
  let ?s = "SignRequest C U priv now nonceRaw r body" and ?n = "b64url_encode nonceRaw"
  note h = SignRequest_headers [OF refl, of C U priv now nonceRaw r body]
  have m: "0 \<le> now mod second" "now mod second < second" by (simp_all add: second_def)
  show ?thesis
  proof (subst VerifyRequest_ok [where pub = "ed_Public C priv" and moment = "now - now mod second"
        and raw = "ed_Sign C priv (canonical_of C U r body (tm_Format C now) ?n)"])
    show "ParsePublicIdentity (header ?s HeaderIdentity) = Inr (ed_Public C priv)" by (simp add: h Parse_PublicIdentity assms(1))
    show "ed_Verify C (ed_Public C priv) (canonical_of C U ?s body (header ?s HeaderTimestamp) (header ?s HeaderNonce))
        (ed_Sign C priv (canonical_of C U r body (tm_Format C now) ?n))"
      by (simp add: h assms(2))
    show "- Window \<le> later - (now - now mod second)" "later - (now - now mod second) \<le> Window" using assms(7,8) m by linarith+
  qed (use assms(3-6,9,10) in \<open>simp_all add: h b64url_encode_ne PublicIdentity_def IdentityPrefix_def\<close>)
qed

lemma Use_fresh:
  assumes "nonces_ok st" and "\<not> nonce_spent st now i n"
  obtains st' where "Use st now i n ttl = (st', True)"
proof -
  have "\<not> nonce_spent (swept now ttl st) now i n"
    using assms by (auto simp: nonce_spent_def swept_def nonces_ok_def mget_sweep split: option.splits if_splits)
  then show ?thesis using that by (simp add: Use_eq [OF assms(1)])
qed

text \<open>
  What \<open>SignRequest\<close> signs \<open>VerifyRequest\<close> accepts, under the identity of the key, as long as the
  request arrives unaltered and within the window and its nonce is fresh; afterwards the nonce is
  spent. The timestamp has no fraction of a second, which the window has to have room for.
\<close>

theorem sign_then_verify:
  assumes "length (ed_Public C priv) = 32" and "\<And>m. ed_Verify C (ed_Public C priv) m (ed_Sign C priv m)"
    and "\<And>m. ed_Sign C priv m \<noteq> []" and "tm_Parse C (tm_Format C now) = Some (now - now mod second)" and "tm_Format C now \<noteq> []"
    and "nonceRaw \<noteq> []" and "now - Window \<le> later" and "later \<le> now + Window - second"
    and "nonces_ok st" and "\<not> nonce_spent st later (PublicIdentity (ed_Public C priv)) (b64url_encode nonceRaw)"
  shows "\<exists>st'. VerifyRequest C U (Some Use) later (SignRequest C U priv now nonceRaw r body) body st
      = (st', Inr (PublicIdentity (ed_Public C priv)))
    \<and> (\<forall>t. later \<le> t \<longrightarrow> t < later + Window \<longrightarrow> nonce_spent st' t (PublicIdentity (ed_Public C priv)) (b64url_encode nonceRaw))"
proof -
  obtain st' where u: "Use st later (PublicIdentity (ed_Public C priv)) (b64url_encode nonceRaw) Window = (st', True)"
    using Use_fresh [OF assms(9,10)] .
  then show ?thesis
    using signed_verifies [OF assms(1-8) refl refl, of U Use r body st] memory.spends [OF assms(9) u] by simp
qed

lemma example_laws:
  "length (ed_Public example_crypto example_priv) = 32"
  "ed_Verify example_crypto (ed_Public example_crypto example_priv) m (ed_Sign example_crypto example_priv m)"
  "ed_Sign example_crypto example_priv m \<noteq> []"
  "tm_Parse example_crypto (tm_Format example_crypto second) = Some (second - second mod second)"
  "tm_Format example_crypto second \<noteq> []"
  "nonces_ok NewMemoryNonces" "\<not> nonce_spent NewMemoryNonces t i n"
proof -
  have "length (take 32 example_priv) = 32" by (simp add: example_priv_def)
  then show "length (ed_Public example_crypto example_priv) = 32" "ed_Sign example_crypto example_priv m \<noteq> []"
    by (auto simp: example_crypto_def)
qed (simp_all add: example_crypto_def nonces_ok_def NewMemoryNonces_def wf_map_def nonce_spent_def mget_def)

lemma example_accepted:
  assumes "second - Window \<le> t" and "t \<le> Window"
  obtains st1 where "VerifyRequest example_crypto no_unicode (Some Use) t signed_call [] NewMemoryNonces
    = (st1, Inr (PublicIdentity (ed_Public example_crypto example_priv)))"
proof -
  obtain st1 where "Use NewMemoryNonces t (PublicIdentity (ed_Public example_crypto example_priv)) (b64url_encode ''nonce'') Window = (st1, True)"
    using Use_fresh [OF example_laws(6,7)] .
  then show ?thesis
    using that signed_verifies [OF example_laws(1,2,3,4,5), of "''nonce''" t _ _ no_unicode Use example_call "[]" NewMemoryNonces] assms
    by (simp add: signed_call_def)
qed

theorem sign_then_verify_witness:
  "\<exists>st'. VerifyRequest example_crypto no_unicode (Some Use) (2 * second) signed_call [] NewMemoryNonces
     = (st', Inr (PublicIdentity (ed_Public example_crypto example_priv)))"
  using sign_then_verify [OF example_laws(1,2,3,4,5), of "''nonce''" "2 * second" NewMemoryNonces no_unicode example_call "[]"]
    example_laws(6,7)
  by (auto simp: signed_call_def Window_def second_def)

text \<open>
  C37: the nonce is remembered for \<open>Window\<close> after it was used, but a request is taken for up to
  \<open>Window\<close> after the time it claims. A request dated by a clock that is ahead is accepted a second
  time once its nonce has been forgotten, with nothing about it changed.
\<close>

theorem replay_when_clock_ahead:
  assumes "nonces_ok st" and "VerifyRequest C U (Some Use) now r body st = (st1, Inr identity)"
    and "tm_Parse C (header r HeaderTimestamp) = Some moment" and "now \<le> moment"
    and "now + Window \<le> t" and "t \<le> moment + Window"
  shows "\<exists>st2. VerifyRequest C U (Some Use) t r body st1 = (st2, Inr identity)"
proof -
  from assms(2) obtain pub raw where V: "identity = header r HeaderIdentity" "identity \<noteq> []" "header r HeaderNonce \<noteq> []"
    "ParsePublicIdentity identity = Inr pub" "now - moment \<le> Window" "- Window \<le> now - moment"
    "b64url_decode (header r HeaderSignature) = Some raw"
    "ed_Verify C pub (canonical_of C U r body (header r HeaderTimestamp) (header r HeaderNonce)) raw"
    and u: "Use st now identity (header r HeaderNonce) Window = (st1, True)"
    using assms(3) by (elim VerifyRequest_Inr) auto
  have hd: "header r HeaderTimestamp \<noteq> []" "header r HeaderSignature \<noteq> []"
    using assms(2) by (auto simp: VerifyRequest_def Let_def split: if_splits)
  have ok1: "nonces_ok st1" using memory.ok_use [OF assms(1)] u by (metis fst_conv)
  have "mget (mn_seen st1) (nonce_key identity (header r HeaderNonce)) = Some (now + Window)"
    using u by (auto simp: Use_eq [OF assms(1)] mget_def update_conv split: if_splits)
  then have "\<not> nonce_spent (swept t Window st1) t identity (header r HeaderNonce)"
    using ok1 assms(5) by (auto simp: nonce_spent_def swept_def nonces_ok_def mget_sweep split: if_splits)
  then have "\<exists>st2. Use st1 t identity (header r HeaderNonce) Window = (st2, True)" by (simp add: Use_eq [OF ok1])
  moreover have "- Window \<le> t - moment" "t - moment \<le> Window" using assms(5,6) V(6) by linarith+
  ultimately show ?thesis
    using VerifyRequest_ok [of r pub C moment t raw U body Use st1] V hd assms(3) by auto
qed

theorem replay_when_clock_ahead_witness:
  "\<exists>st1 st2 i. VerifyRequest example_crypto no_unicode (Some Use) 0 signed_call [] NewMemoryNonces = (st1, Inr i)
     \<and> VerifyRequest example_crypto no_unicode (Some Use) (Window + second) signed_call [] st1 = (st2, Inr i)"
proof -
  obtain st1 where 1: "VerifyRequest example_crypto no_unicode (Some Use) 0 signed_call [] NewMemoryNonces
      = (st1, Inr (PublicIdentity (ed_Public example_crypto example_priv)))"
    by (rule example_accepted [of 0]) (auto simp: Window_def second_def)
  have "tm_Parse example_crypto (header signed_call HeaderTimestamp) = Some second" by (simp add: example_crypto_def)
  from replay_when_clock_ahead [OF example_laws(6) 1 this, of "Window + second"] 1 show ?thesis
    by (auto simp: Window_def second_def)
qed

theorem VerifyRequest_no_replay_witness:
  "\<exists>st1 i. VerifyRequest example_crypto no_unicode (Some Use) (2 * second) signed_call [] NewMemoryNonces = (st1, Inr i)
     \<and> (\<exists>e. snd (VerifyRequest example_crypto no_unicode (Some Use) (3 * second) signed_call []
          (verify_all example_crypto no_unicode Use [(2 * second, example_call, [])] st1)) = Inl e)"
proof -
  obtain st1 where 1: "VerifyRequest example_crypto no_unicode (Some Use) (2 * second) signed_call [] NewMemoryNonces
      = (st1, Inr (PublicIdentity (ed_Public example_crypto example_priv)))"
    by (rule example_accepted [of "2 * second"]) (auto simp: Window_def second_def)
  have i: "header signed_call HeaderIdentity = PublicIdentity (ed_Public example_crypto example_priv)"
    unfolding signed_call_def by (rule SignRequest_headers(1) [OF refl])
  have "\<exists>e. snd (VerifyRequest example_crypto no_unicode (Some Use) (3 * second) signed_call []
      (verify_all example_crypto no_unicode Use [(2 * second, example_call, [])] st1)) = Inl e"
    by (rule VerifyRequest_no_replay [OF example_laws(6) 1 _ _ _ i refl]) (auto simp: Window_def second_def)
  with 1 show ?thesis by blast
qed

text \<open>
  C38: a key has several spellings: the last character of an encoded identity has bits nobody looks
  at, and the identity is not part of what is signed. A captured request is therefore accepted a
  second time under another spelling of the identity that made it, which the nonces take for
  somebody else.
\<close>

theorem respelled_identity_replays:
  assumes "VerifyRequest C U (Some Use) now r body st = (st1, Inr identity)" and "nonces_ok st"
    and "ParsePublicIdentity other = ParsePublicIdentity identity" and "other \<noteq> []"
    and "\<And>t. \<not> nonce_spent st t other (header r HeaderNonce)" and "nonce_key other (header r HeaderNonce) \<noteq> nonce_key identity (header r HeaderNonce)"
  shows "\<exists>st2. VerifyRequest C U (Some Use) now (set_header HeaderIdentity other r) body st1 = (st2, Inr other)"
proof -
  let ?r = "set_header HeaderIdentity other r" and ?n = "header r HeaderNonce"
  from assms(1) obtain pub moment raw where V: "identity = header r HeaderIdentity" "?n \<noteq> []"
    "ParsePublicIdentity identity = Inr pub" "tm_Parse C (header r HeaderTimestamp) = Some moment"
    "- Window \<le> now - moment" "now - moment \<le> Window" "b64url_decode (header r HeaderSignature) = Some raw"
    "ed_Verify C pub (canonical_of C U r body (header r HeaderTimestamp) ?n) raw"
    and u: "Use st now identity ?n Window = (st1, True)"
    by (elim VerifyRequest_Inr) auto
  have hd: "header r HeaderTimestamp \<noteq> []" "header r HeaderSignature \<noteq> []"
    using assms(1) by (auto simp: VerifyRequest_def Let_def split: if_splits)
  have h: "header ?r HeaderIdentity = other" "header ?r HeaderTimestamp = header r HeaderTimestamp" "header ?r HeaderNonce = ?n"
    "header ?r HeaderSignature = header r HeaderSignature" "canonical_of C U ?r body = canonical_of C U r body"
    using header_names by (auto simp: set_header_get set_header_other canonical_of_def fun_eq_iff)
  have ok1: "nonces_ok st1" using memory.ok_use [OF assms(2)] u by (metis fst_conv)
  have "mget (mn_seen st1) (nonce_key other ?n) = mget (mn_seen (swept now Window st)) (nonce_key other ?n)"
    using u assms(6) by (auto simp: Use_eq [OF assms(2)] mget_def update_conv split: if_splits)
  then have "\<not> nonce_spent (swept now Window st1) now other ?n"
    using ok1 assms(2,5)
    by (auto simp: nonce_spent_def swept_def nonces_ok_def mget_sweep split: option.splits if_splits)
  then have "\<exists>st2. Use st1 now other ?n Window = (st2, True)" by (simp add: Use_eq [OF ok1])
  then show ?thesis
    using VerifyRequest_ok [of ?r pub C moment now raw U body Use st1] V hd assms(3,4) by (auto simp: h)
qed

theorem respelled_identity_replays_witness:
  "\<exists>st1 st2 i other. VerifyRequest example_crypto no_unicode (Some Use) 0 signed_call [] NewMemoryNonces = (st1, Inr i)
     \<and> other \<noteq> i \<and> VerifyRequest example_crypto no_unicode (Some Use) 0 (set_header HeaderIdentity other signed_call) [] st1 = (st2, Inr other)"
proof -
  let ?i = "PublicIdentity (ed_Public example_crypto example_priv)"
  let ?o = "butlast ?i @ ''t''"
  obtain st1 where 1: "VerifyRequest example_crypto no_unicode (Some Use) 0 signed_call [] NewMemoryNonces = (st1, Inr ?i)"
    by (rule example_accepted [of 0]) (auto simp: Window_def second_def)
  have o: "ParsePublicIdentity ?o = ParsePublicIdentity ?i" "?o \<noteq> ?i" "?o \<noteq> []" by code_simp+
  then have "nonce_key ?o n \<noteq> nonce_key ?i n" for n by (simp add: nonce_key_def)
  from respelled_identity_replays [OF 1 example_laws(6) o(1,3) example_laws(7) this] 1 o(2) show ?thesis by blast
qed

end
