(* ===== verification/Store.thy ===== *)
theory Store
  imports Protocol
begin

text \<open>
  The hub's state and the file it is kept in, \<open>src/internal/hub/store.go\<close>: registrations, members,
  requests and instances as records, the store that holds them in memory behind a lock, and the
  JSON file that is rewritten next to the old one and renamed over it.

  Every exported method of \<open>Store\<close> holds the mutex for its whole body, so a method is one step of
  the state. A pointer the store hands out is a value here: the callers only read it. What a write
  to the file can run into is the argument \<open>io\<close>, the call that fails if one does. A closure given
  to \<open>Update\<close> changes the instance in place: what it did before an error stays in memory, and only a
  closure that succeeds is followed by a write to the file.
\<close>

section \<open>Data\<close>

record Registration =
  reg_Identity :: string
  reg_Binder :: string
  reg_Name :: string
  reg_Key :: string
  reg_RegisteredAt :: time
  reg_LastSeenAt :: time

definition EventBan :: string where "EventBan = ''ban''"
definition EventUnban :: string where "EventUnban = ''unban''"

record MemberEvent =
  ev_Kind :: string
  ev_Note :: string
  ev_At :: time

record Member =
  mem_Kind :: string
  mem_Name :: string
  mem_Fingerprint :: string
  mem_Identity :: string
  mem_Binder :: string
  mem_Address :: prefix
  mem_Address6 :: prefix
  mem_Routes :: "prefix list"
  mem_Domain :: string
  mem_CertFingerprint :: string
  mem_Events :: "MemberEvent list"
  mem_JoinedAt :: time

definition Banned :: "Member \<Rightarrow> bool" where
  "Banned m = (if length (mem_Events m) = 0 then False else ev_Kind (last (mem_Events m)) = EventBan)"

record Burned =
  bur_Fingerprint :: string
  bur_CertFingerprint :: string

record Record = EnrollRecord +
  rec_Kind :: string
  rec_Identity :: string
  rec_Binder :: string
  rec_Bundle :: "Bundle option"
  rec_Reason :: string

record Instance =
  inst_ID :: string
  inst_Name :: string
  inst_Owner :: string
  inst_Binder :: string
  inst_Overlay :: prefix
  inst_Overlay6 :: prefix
  inst_Port :: "16 word"
  inst_LighthouseAddress :: addr
  inst_LighthouseAddress6 :: addr
  inst_TenantAddress :: addr
  inst_TenantAddress6 :: addr
  inst_LighthousePublicKey :: string
  inst_LighthouseKey :: string
  inst_LighthouseCert :: string
  inst_CACert :: string
  inst_Relay :: bool
  inst_SharedToken :: string
  inst_Allocations :: "(string, addr) gomap"
  inst_Allocations6 :: "(string, addr) gomap"
  inst_Requests :: "(string, Record) gomap"
  inst_Members :: "(string, Member) gomap"
  inst_Burned :: "Burned list"
  inst_CreatedAt :: time

record Resolver =
  rsv_Domain :: string
  rsv_Via :: addr
  rsv_Via6 :: addr
  rsv_Connector :: string

record Route =
  rt_Prefix :: prefix
  rt_Via :: addr
  rt_Connector :: string

record RouteTable =
  rtab_Instance :: string
  rtab_Overlay :: prefix
  rtab_Lighthouse :: Lighthouse
  rtab_Routes :: "Route list"
  rtab_Resolvers :: "Resolver list"
  rtab_Blocked :: "string list"
  rtab_MTU :: "32 word"

record state =
  st_Instances :: "(string, Instance) gomap"
  st_Identities :: "(string, Registration) gomap"

text \<open>
  Every error the hub reports. \<open>NoMember\<close> wraps \<open>ErrNotFound\<close>, so \<open>errors.Is\<close> sees through it.
\<close>

datatype io_fault = FMarshal | FMkdir | FOpen | FWrite | FSync | FClose | FRename

datatype hub_err =
    ErrNotFound
  | NoMember string
  | ErrAmbiguous
  | InstanceExists string
  | InstanceNameTaken string string
  | BadRequest request_err
  | OwnsInstance string
  | TenantAnnouncesRoutes
  | BadAuthentication
  | KeyRemoved string
  | Allocation ipam_err
  | NoFreePort "16 word" "16 word"
  | NoHostKey
  | CertificatesRequired
  | ApprovalNeedsCertificate
  | MemberNameTaken string string
  | UnknownDecision string
  | AlreadyBanned string
  | NotBanned string
  | OwnerStays string
  | BanFirst string
  | TokenRequired
  | NoCertificateYet string
  | YamlFailed
  | ConfigNotLoaded
  | NebulaFailed
  | ReloadFailed
  | BlocklistNotTaken hub_err
  | SaveFailed io_fault

fun is_not_found :: "hub_err \<Rightarrow> bool" where
  "is_not_found ErrNotFound = True"
| "is_not_found (NoMember _) = True"
| "is_not_found (BlocklistNotTaken e) = is_not_found e"
| "is_not_found _ = False"

section \<open>Membership\<close>

fun member_loop :: "string \<Rightarrow> Member list \<Rightarrow> Member option" where
  "member_loop identity [] = None"
| "member_loop identity (m # ms) =
     (if mem_Identity m = identity \<and> \<not> Banned m then Some m else member_loop identity ms)"

definition zero_member :: Member where
  "zero_member = \<lparr>mem_Kind = [], mem_Name = [], mem_Fingerprint = [], mem_Identity = [], mem_Binder = [],
     mem_Address = PrefixNone, mem_Address6 = PrefixNone, mem_Routes = [], mem_Domain = [],
     mem_CertFingerprint = [], mem_Events = [], mem_JoinedAt = 0\<rparr>"

definition MemberOf :: "Instance \<Rightarrow> string \<Rightarrow> Member option" where
  "MemberOf inst identity =
     (if identity = [] then None
      else case member_loop identity (vals (inst_Members inst)) of
             Some m \<Rightarrow> Some m
           | None \<Rightarrow>
               if identity = inst_Owner inst
               then Some (zero_member\<lparr>mem_Kind := KindOwner, mem_Identity := identity\<rparr>)
               else None)"

section \<open>The file\<close>

text \<open>
  What \<open>json.MarshalIndent\<close> followed by \<open>json.Unmarshal\<close> makes of the state: a map with \<open>omitempty\<close>
  that is empty is left out and comes back nil. Everything else comes back as it was written.
\<close>

definition omitempty :: "('k, 'v) gomap \<Rightarrow> ('k, 'v) gomap" where
  "omitempty m = (if items m = [] then None else m)"

definition json_record :: "Record \<Rightarrow> Record" where
  "json_record r = r\<lparr>rec_Request := (rec_Request r)\<lparr>req_Hints := omitempty (req_Hints (rec_Request r))\<rparr>\<rparr>"

definition map_vals :: "('v \<Rightarrow> 'w) \<Rightarrow> ('k, 'v) gomap \<Rightarrow> ('k, 'w) gomap" where
  "map_vals f = map_option (map (\<lambda>(k, v). (k, f v)))"

definition json_instance :: "Instance \<Rightarrow> Instance" where
  "json_instance inst = inst\<lparr>
     inst_Allocations := omitempty (inst_Allocations inst),
     inst_Allocations6 := omitempty (inst_Allocations6 inst),
     inst_Requests := omitempty (map_vals json_record (inst_Requests inst)),
     inst_Members := omitempty (inst_Members inst)\<rparr>"

definition json_state :: "state \<Rightarrow> state" where
  "json_state st = st\<lparr>st_Instances := map_vals json_instance (st_Instances st)\<rparr>"

text \<open>A file holds a complete image of a state or something that does not parse.\<close>

datatype image = Whole state | Torn

record fs =
  fs_file :: "image option"
  fs_tmp :: "image option"

record Store =
  st_state :: state
  st_fs :: fs

definition ensureMaps :: "Instance \<Rightarrow> Instance" where
  "ensureMaps inst = inst\<lparr>
     inst_Allocations := ensure (inst_Allocations inst),
     inst_Requests := ensure (inst_Requests inst),
     inst_Members := ensure (inst_Members inst)\<rparr>"

datatype open_err = CouldNotRead | CouldNotParse

definition OpenStore :: "bool \<Rightarrow> fs \<Rightarrow> open_err + Store" where
  "OpenStore readable f =
     (if fs_file f = None
      then Inr \<lparr>st_state = \<lparr>st_Instances = Some [], st_Identities = Some []\<rparr>, st_fs = f\<rparr>
      else if \<not> readable then Inl CouldNotRead
      else case fs_file f of
             Some (Whole st) \<Rightarrow>
               Inr \<lparr>st_state = st\<lparr>st_Instances := map_vals ensureMaps (ensure (st_Instances st)),
                                 st_Identities := ensure (st_Identities st)\<rparr>, st_fs = f\<rparr>
           | _ \<Rightarrow> Inl CouldNotParse)"

text \<open>
  \<open>save\<close>: the states of the two files between one call and the next, the last one being what it
  leaves behind. A process that dies during a save dies in one of them.
\<close>

definition save_trace :: "io_fault option \<Rightarrow> state \<Rightarrow> fs \<Rightarrow> fs list" where
  "save_trace io st f =
     (let opened = f\<lparr>fs_tmp := Some Torn\<rparr>;
          written = f\<lparr>fs_tmp := Some (Whole (json_state st))\<rparr>;
          removed = f\<lparr>fs_tmp := None\<rparr>
      in case io of
           Some FMarshal \<Rightarrow> [f]
         | Some FMkdir \<Rightarrow> [f]
         | Some FOpen \<Rightarrow> [f]
         | Some FWrite \<Rightarrow> [f, opened, removed]
         | Some FSync \<Rightarrow> [f, opened, written, removed]
         | Some FClose \<Rightarrow> [f, opened, written, removed]
         | Some FRename \<Rightarrow> [f, opened, written]
         | None \<Rightarrow> [f, opened, written, \<lparr>fs_file = Some (Whole (json_state st)), fs_tmp = None\<rparr>])"

definition save :: "io_fault option \<Rightarrow> Store \<Rightarrow> Store \<times> (hub_err, unit) out" where
  "save io s =
     (s\<lparr>st_fs := last (save_trace io (st_state s) (st_fs s))\<rparr>,
      case io of None \<Rightarrow> Ret () | Some e \<Rightarrow> Fail (SaveFailed e))"

section \<open>Operations\<close>

definition set_instances :: "(string, Instance) gomap \<Rightarrow> Store \<Rightarrow> Store" where
  "set_instances m s = s\<lparr>st_state := (st_state s)\<lparr>st_Instances := m\<rparr>\<rparr>"

definition set_identities :: "(string, Registration) gomap \<Rightarrow> Store \<Rightarrow> Store" where
  "set_identities m s = s\<lparr>st_state := (st_state s)\<lparr>st_Identities := m\<rparr>\<rparr>"

abbreviation instances :: "Store \<Rightarrow> (string, Instance) gomap" where
  "instances s \<equiv> st_Instances (st_state s)"

abbreviation identities :: "Store \<Rightarrow> (string, Registration) gomap" where
  "identities s \<equiv> st_Identities (st_state s)"

definition Register :: "io_fault option \<Rightarrow> time \<Rightarrow> Registration \<Rightarrow> Store \<Rightarrow> Store \<times> (hub_err, unit) out" where
  "Register io now r s =
     (case mget (identities s) (reg_Identity r) of
        Some existing \<Rightarrow>
          save io (set_identities (madjust (reg_Identity r)
            (\<lambda>e. e\<lparr>reg_Binder := reg_Binder r, reg_Name := reg_Name r, reg_Key := reg_Key r, reg_LastSeenAt := now\<rparr>)
            (identities s)) s)
      | None \<Rightarrow>
          (case mput (reg_Identity r) (r\<lparr>reg_RegisteredAt := now\<rparr>) (identities s) of
             None \<Rightarrow> (s, Panic)
           | Some m \<Rightarrow> save io (set_identities m s)))"

definition Identity :: "string \<Rightarrow> Store \<Rightarrow> (hub_err, Registration) out" where
  "Identity identity s = (case mget (identities s) identity of None \<Rightarrow> Fail ErrNotFound | Some r \<Rightarrow> Ret r)"

text \<open>A closure answers with the instance as it left it, whatever else it answers.\<close>

type_synonym 'a closure = "Instance \<Rightarrow> Instance \<times> (hub_err, 'a) out"

definition Update :: "io_fault option \<Rightarrow> string \<Rightarrow> 'a closure \<Rightarrow> Store \<Rightarrow> Store \<times> (hub_err, 'a) out" where
  "Update io iid fn s =
     (case mget (instances s) iid of
        None \<Rightarrow> (s, Fail ErrNotFound)
      | Some inst \<Rightarrow>
          (let (inst', r) = fn (ensureMaps inst);
               s' = set_instances (madjust iid (\<lambda>_. inst') (instances s)) s
           in case r of
                Fail e \<Rightarrow> (s', Fail e)
              | Panic \<Rightarrow> (s', Panic)
              | Ret a \<Rightarrow>
                  (case save io s' of
                     (s'', Ret _) \<Rightarrow> (s'', Ret a)
                   | (s'', Fail e) \<Rightarrow> (s'', Fail e)
                   | (s'', Panic) \<Rightarrow> (s'', Panic))))"

fun name_owner :: "string \<Rightarrow> Instance list \<Rightarrow> Instance option" where
  "name_owner name [] = None"
| "name_owner name (other # rest) = (if inst_Name other = name then Some other else name_owner name rest)"

definition Add :: "io_fault option \<Rightarrow> Instance \<Rightarrow> Store \<Rightarrow> Store \<times> (hub_err, unit) out" where
  "Add io inst s =
     (if mget (instances s) (inst_ID inst) \<noteq> None then (s, Fail (InstanceExists (inst_ID inst)))
      else case name_owner (inst_Name inst) (vals (instances s)) of
             Some other \<Rightarrow> (s, Fail (InstanceNameTaken (inst_Binder other) (inst_Name inst)))
           | None \<Rightarrow>
               (case mput (inst_ID inst) inst (instances s) of
                  None \<Rightarrow> (s, Panic)
                | Some m \<Rightarrow> save io (set_instances m s)))"

definition Remove :: "io_fault option \<Rightarrow> string \<Rightarrow> Store \<Rightarrow> Store \<times> (hub_err, unit) out" where
  "Remove io iid s =
     (if mget (instances s) iid = None then (s, Fail ErrNotFound)
      else save io (set_instances (mdel iid (instances s)) s))"

definition Get :: "string \<Rightarrow> Store \<Rightarrow> (hub_err, Instance) out" where
  "Get iid s = (case mget (instances s) iid of None \<Rightarrow> Fail ErrNotFound | Some inst \<Rightarrow> Ret inst)"

fun resolve_loop :: "string \<Rightarrow> Instance option \<Rightarrow> Instance list \<Rightarrow> (hub_err, Instance) out" where
  "resolve_loop name found [] = (case found of None \<Rightarrow> Fail ErrNotFound | Some inst \<Rightarrow> Ret inst)"
| "resolve_loop name found (inst # rest) =
     (if inst_Name inst \<noteq> name then resolve_loop name found rest
      else if found \<noteq> None then Fail ErrAmbiguous
      else resolve_loop name (Some inst) rest)"

definition Resolve :: "unicode \<Rightarrow> string \<Rightarrow> Store \<Rightarrow> (hub_err, Instance) out" where
  "Resolve U ref s =
     (case mget (instances s) ref of
        Some inst \<Rightarrow> Ret inst
      | None \<Rightarrow> resolve_loop (ToLower U (TrimSpace U ref)) None (vals (instances s)))"

definition Registrations :: "Store \<Rightarrow> Registration list" where
  "Registrations s = vals (identities s)"

definition ListInstances :: "Store \<Rightarrow> Instance list" where
  "ListInstances s = vals (instances s)"

definition UsedOverlays :: "Store \<Rightarrow> prefix list" where
  "UsedOverlays s = map inst_Overlay (vals (instances s))"

definition UsedOverlays6 :: "Store \<Rightarrow> prefix list" where
  "UsedOverlays6 s = filter PrefixIsValid (map inst_Overlay6 (vals (instances s)))"

definition UsedPorts :: "Store \<Rightarrow> 16 word list" where
  "UsedPorts s = map inst_Port (vals (instances s))"

section \<open>Facts about the operations\<close>

lemma items_map_vals [simp]: "items (map_vals f m) = map (\<lambda>(k, v). (k, f v)) (items m)"
  by (cases m) (simp_all add: map_vals_def)

lemma mget_map_vals [simp]: "mget (map_vals f m) k = map_option f (mget m k)"
  by (simp add: mget_def map_of_map)

lemma wf_map_map_vals [simp]: "wf_map (map_vals f m) = wf_map m"
  by (simp add: wf_map_def comp_def split_def)

lemma map_vals_None [simp]: "map_vals f m = None \<longleftrightarrow> m = None"
  by (simp add: map_vals_def)

lemma items_omitempty [simp]: "items (omitempty m) = items m"
  by (simp add: omitempty_def)

lemma omitempty_simps [simp]:
  "mget (omitempty m) = mget m" "wf_map (omitempty m) = wf_map m" "vals (omitempty m) = vals m"
  "keys (omitempty m) = keys m"
  by (auto simp: mget_def wf_map_def vals_def keys_def fun_eq_iff)

lemma store_simps [simp]:
  "instances (set_instances m s) = m" "identities (set_instances m s) = identities s"
  "identities (set_identities n s) = n" "instances (set_identities n s) = instances s"
  "st_fs (set_instances m s) = st_fs s" "st_fs (set_identities n s) = st_fs s"
  by (simp_all add: set_instances_def set_identities_def)

lemma save_state [simp]: "st_state (fst (save io s)) = st_state s"
  by (simp add: save_def)

lemma save_result: "snd (save io s) = (case io of None \<Rightarrow> Ret () | Some e \<Rightarrow> Fail (SaveFailed e))"
  by (simp add: save_def)

lemma save_file:
  "fs_file (st_fs (fst (save io s))) =
    (if io = None then Some (Whole (json_state (st_state s))) else fs_file (st_fs s))"
  by (auto simp: save_def save_trace_def Let_def split: option.split io_fault.split)

lemma save_not_panic: "snd (save io s) \<noteq> Panic"
  by (simp add: save_result split: option.split)

lemma save_trace_ne [simp]: "save_trace io st f \<noteq> []"
  by (auto simp: save_trace_def Let_def split: option.split io_fault.split)

text \<open>\<open>Update\<close> in one equation: the closure's effect in memory, and the outcome.\<close>

lemma Update_eq:
  assumes "mget (instances s) iid = Some inst" and "fn (ensureMaps inst) = (inst', r)"
  defines "s' \<equiv> set_instances (madjust iid (\<lambda>_. inst') (instances s)) s"
  shows "Update io iid fn s =
    (case r of
       Ret a \<Rightarrow> (fst (save io s'), case io of None \<Rightarrow> Ret a | Some e \<Rightarrow> Fail (SaveFailed e))
     | Fail e \<Rightarrow> (s', Fail e)
     | Panic \<Rightarrow> (s', Panic))"
  using assms(1,2) by (cases r; cases io) (simp_all add: Update_def s'_def save_def Let_def)

lemma Update_missing: "mget (instances s) iid = None \<Longrightarrow> Update io iid fn s = (s, Fail ErrNotFound)"
  by (simp add: Update_def)

lemma Update_instances:
  assumes "mget (instances s) iid = Some inst"
  shows "instances (fst (Update io iid fn s)) = madjust iid (\<lambda>_. fst (fn (ensureMaps inst))) (instances s)"
    and "identities (fst (Update io iid fn s)) = identities s"
proof -
  obtain inst' r where f: "fn (ensureMaps inst) = (inst', r)" by fastforce
  show "instances (fst (Update io iid fn s)) = madjust iid (\<lambda>_. fst (fn (ensureMaps inst))) (instances s)"
    and "identities (fst (Update io iid fn s)) = identities s"
    using Update_eq [where io = io and fn = fn, OF assms f] f by (cases r; simp)+
qed

lemma Update_get:
  "mget (instances (fst (Update io iid fn s))) k =
    (if k = iid then map_option (\<lambda>i. fst (fn (ensureMaps i))) (mget (instances s) k) else mget (instances s) k)"
proof (cases "mget (instances s) iid")
  case None
  then show ?thesis by (simp add: Update_missing)
next
  case (Some inst)
  then show ?thesis by (auto simp: Update_instances [OF Some] mget_adjust)
qed

lemma Update_file:
  "fs_file (st_fs (fst (Update io iid fn s))) = fs_file (st_fs s)
   \<or> fs_file (st_fs (fst (Update io iid fn s))) = Some (Whole (json_state (st_state (fst (Update io iid fn s)))))"
proof (cases "mget (instances s) iid")
  case None
  then show ?thesis by (simp add: Update_missing)
next
  case (Some inst)
  obtain inst' r where f: "fn (ensureMaps inst) = (inst', r)" by fastforce
  show ?thesis using Update_eq [where io = io and fn = fn, OF Some f] by (cases r) (auto simp: save_file)
qed

lemma Update_Ret:
  assumes "Update io iid fn s = (s', Ret a)"
  obtains inst inst' where "mget (instances s) iid = Some inst" and "fn (ensureMaps inst) = (inst', Ret a)"
    and "io = None" and "fs_file (st_fs s') = Some (Whole (json_state (st_state s')))"
proof (cases "mget (instances s) iid")
  case None
  with assms show ?thesis by (simp add: Update_missing)
next
  case (Some inst)
  obtain inst' r where f: "fn (ensureMaps inst) = (inst', r)" by fastforce
  from Update_eq [where io = io and fn = fn, OF Some f] assms have "r = Ret a" "io = None"
    by (auto split: out.splits option.splits)
  with Update_eq [where io = io and fn = fn, OF Some f] assms Some f that show ?thesis
    by (auto simp: save_file)
qed

lemma madjust_None [simp]: "madjust k f m = None \<longleftrightarrow> m = None"
  by (simp add: madjust_def)

lemma Add_cases:
  obtains (refused) e where "Add io inst s = (s, Fail e)"
  | (panic) "instances s = None" "Add io inst s = (s, Panic)"
  | (stored) m where "mget (instances s) (inst_ID inst) = None"
      "name_owner (inst_Name inst) (vals (instances s)) = None"
      "mput (inst_ID inst) inst (instances s) = Some m" "Add io inst s = save io (set_instances m s)"
proof (cases "mget (instances s) (inst_ID inst)")
  case None
  show ?thesis
  proof (cases "name_owner (inst_Name inst) (vals (instances s))")
    case no: None
    show ?thesis
    proof (cases "mput (inst_ID inst) inst (instances s)")
      case nil: None
      then have "instances s = None" by (cases "instances s") auto
      with None no nil show ?thesis by (intro panic) (simp_all add: Add_def)
    next
      case (Some m)
      with None no show ?thesis by (intro stored) (simp_all add: Add_def)
    qed
  next
    case (Some other)
    with None show ?thesis by (intro refused) (simp add: Add_def)
  qed
next
  case (Some i)
  then show ?thesis by (intro refused) (simp add: Add_def)
qed

lemma name_owner_None: "name_owner n is = None \<longleftrightarrow> (\<forall>i \<in> set is. inst_Name i \<noteq> n)"
  by (induction "is") auto

lemma member_loop_Some: "member_loop ident ms = Some m \<Longrightarrow> m \<in> set ms \<and> mem_Identity m = ident \<and> \<not> Banned m"
  by (induction ms) (auto split: if_splits)

lemma member_loop_None: "member_loop ident ms = None \<longleftrightarrow> (\<forall>m \<in> set ms. mem_Identity m = ident \<longrightarrow> Banned m)"
  by (induction ms) auto

section \<open>The invariant of the store\<close>

text \<open>
  Instances are filed under their own id, names are unique, and no map of the store itself is nil.
\<close>

definition state_ok :: "state \<Rightarrow> bool" where
  "state_ok st \<longleftrightarrow> st_Instances st \<noteq> None \<and> st_Identities st \<noteq> None
     \<and> wf_map (st_Instances st) \<and> wf_map (st_Identities st)
     \<and> (\<forall>k i. mget (st_Instances st) k = Some i \<longrightarrow> inst_ID i = k)
     \<and> (\<forall>k l i j. mget (st_Instances st) k = Some i \<longrightarrow> mget (st_Instances st) l = Some j
          \<longrightarrow> inst_Name i = inst_Name j \<longrightarrow> k = l)"

definition all_instances :: "(Instance \<Rightarrow> bool) \<Rightarrow> state \<Rightarrow> bool" where
  "all_instances I st \<longleftrightarrow> (\<forall>k i. mget (st_Instances st) k = Some i \<longrightarrow> I i)"

text \<open>The same holds of what is on disk, which is never torn.\<close>

definition store_inv :: "(Instance \<Rightarrow> bool) \<Rightarrow> Store \<Rightarrow> bool" where
  "store_inv I s \<longleftrightarrow> state_ok (st_state s) \<and> all_instances I (st_state s)
     \<and> fs_file (st_fs s) \<noteq> Some Torn
     \<and> (\<forall>st. fs_file (st_fs s) = Some (Whole st) \<longrightarrow> state_ok st \<and> all_instances I st)"

definition same_instance :: "Instance \<Rightarrow> Instance \<Rightarrow> bool" where
  "same_instance i j \<longleftrightarrow>
     j = i\<lparr>inst_Allocations := inst_Allocations j, inst_Allocations6 := inst_Allocations6 j,
          inst_Requests := inst_Requests j, inst_Members := inst_Members j\<rparr>
     \<and> same_map (inst_Allocations i) (inst_Allocations j) \<and> same_map (inst_Allocations6 i) (inst_Allocations6 j)
     \<and> same_map (inst_Requests i) (inst_Requests j) \<and> same_map (inst_Members i) (inst_Members j)"

text \<open>The same state with its maps in another order, which is what the next iteration may see.\<close>

definition same_state :: "state \<Rightarrow> state \<Rightarrow> bool" where
  "same_state st st' \<longleftrightarrow> same_map (st_Identities st) (st_Identities st')
     \<and> (st_Instances st = None \<longleftrightarrow> st_Instances st' = None)
     \<and> (\<exists>l. list_all2 (\<lambda>(k, i) (k', i'). k = k' \<and> same_instance i i') (items (st_Instances st)) l
            \<and> mset l = mset (items (st_Instances st')))"

text \<open>What a closure may not touch: the id and the name of the instance.\<close>

definition keeps_name :: "Instance \<Rightarrow> Instance \<Rightarrow> bool" where
  "keeps_name i j \<longleftrightarrow> inst_ID j = inst_ID i \<and> inst_Name j = inst_Name i"

lemma keeps_name_ensure [simp]: "keeps_name (ensureMaps i) j = keeps_name i j"
  by (simp add: keeps_name_def ensureMaps_def)

lemma keeps_name_json: "keeps_name i (json_instance i)"
  by (simp add: keeps_name_def json_instance_def)

lemma state_ok_map:
  assumes "state_ok st" and "\<And>i. keeps_name i (f i)"
  shows "state_ok (st\<lparr>st_Instances := map_vals f (st_Instances st)\<rparr>)"
  using assms by (force simp: state_ok_def keeps_name_def)

lemma all_instances_map:
  "all_instances (\<lambda>i. I (f i)) st \<Longrightarrow> all_instances I (st\<lparr>st_Instances := map_vals f (st_Instances st)\<rparr>)"
  by (auto simp: all_instances_def)

lemma state_ok_adjust:
  assumes "state_ok (st_state s)" and "\<And>i. mget (instances s) iid = Some i \<Longrightarrow> keeps_name i (g i)"
    and "st_Identities st' = identities s" and "st_Instances st' = madjust iid g (instances s)"
  shows "state_ok st'"
proof -
  have "madjust iid g (instances s) = None \<longleftrightarrow> instances s = None"
    by (simp add: madjust_def)
  then show ?thesis
    using assms by (auto simp: state_ok_def mget_adjust keeps_name_def split: if_splits)
qed

lemma same_state_get:
  assumes "same_state st st'" and "wf_map (st_Instances st)"
  shows "wf_map (st_Instances st')"
    and "rel_option same_instance (mget (st_Instances st) k) (mget (st_Instances st') k)"
proof -
  obtain l where l: "list_all2 (\<lambda>(k, i) (k', i'). k = k' \<and> same_instance i i') (items (st_Instances st)) l"
    and ms: "mset l = mset (items (st_Instances st'))" using assms(1) by (auto simp: same_state_def)
  have rel: "map fst (items (st_Instances st)) = map fst l \<and>
      rel_option same_instance (map_of (items (st_Instances st)) k) (map_of l k)"
    using l by (induction rule: list_all2_induct) auto
  then have dl: "distinct (map fst l)" using assms(2) by (simp add: wf_map_def)
  then show wf: "wf_map (st_Instances st')"
    using ms unfolding wf_map_def by (metis mset_eq_imp_distinct_iff mset_map)
  have "map_of l = map_of (items (st_Instances st'))"
    using dl wf ms by (intro map_of_inject_set [THEN iffD2]) (auto simp: wf_map_def dest: mset_eq_setD)
  then show "rel_option same_instance (mget (st_Instances st) k) (mget (st_Instances st') k)"
    using rel by (simp add: mget_def)
qed

lemma same_instance_fields:
  assumes "same_instance i j"
  shows "keeps_name i j"
    and "inst_Owner j = inst_Owner i" and "inst_Overlay j = inst_Overlay i" and "inst_Overlay6 j = inst_Overlay6 i"
    and "inst_LighthouseAddress j = inst_LighthouseAddress i" and "inst_LighthouseAddress6 j = inst_LighthouseAddress6 i"
    and "inst_TenantAddress j = inst_TenantAddress i" and "inst_TenantAddress6 j = inst_TenantAddress6 i"
    and "inst_Burned j = inst_Burned i" and "inst_Port j = inst_Port i"
proof -
  have j: "j = i\<lparr>inst_Allocations := inst_Allocations j, inst_Allocations6 := inst_Allocations6 j,
          inst_Requests := inst_Requests j, inst_Members := inst_Members j\<rparr>"
    using assms by (simp add: same_instance_def)
  show "keeps_name i j" unfolding keeps_name_def by (intro conjI; subst j, simp)
  show "inst_Owner j = inst_Owner i" and "inst_Overlay j = inst_Overlay i" and "inst_Overlay6 j = inst_Overlay6 i"
    and "inst_LighthouseAddress j = inst_LighthouseAddress i" and "inst_LighthouseAddress6 j = inst_LighthouseAddress6 i"
    and "inst_TenantAddress j = inst_TenantAddress i" and "inst_TenantAddress6 j = inst_TenantAddress6 i"
    and "inst_Burned j = inst_Burned i" and "inst_Port j = inst_Port i"
    by (subst j, simp)+
qed

lemma same_state_ok:
  assumes "same_state st st'" and "state_ok st"
  shows "state_ok st'"
proof -
  note wf = same_state_get [OF assms(1)]
  have i: "\<exists>i. mget (st_Instances st) k = Some i \<and> keeps_name i j"
    if "mget (st_Instances st') k = Some j" for k j
    using wf(2) [of k] that assms(2)
    by (cases "mget (st_Instances st) k") (auto simp: state_ok_def intro: same_instance_fields(1))
  have "wf_map (st_Instances st')" using wf(1) assms(2) by (simp add: state_ok_def)
  moreover have "wf_map (st_Identities st')" "st_Identities st' \<noteq> None" "st_Instances st' \<noteq> None"
    using assms same_map_wf [of "st_Identities st" "st_Identities st'"]
    by (auto simp: same_state_def state_ok_def same_map_def)
  moreover have "inst_ID j = k" if "mget (st_Instances st') k = Some j" for k j
    using i [OF that] assms(2) by (auto simp: state_ok_def keeps_name_def)
  moreover have "k = l" if kl: "mget (st_Instances st') k = Some j" "mget (st_Instances st') l = Some h"
    "inst_Name j = inst_Name h" for k l j h
  proof -
    obtain a b where "mget (st_Instances st) k = Some a" "mget (st_Instances st) l = Some b"
      "inst_Name a = inst_Name b"
      using i [OF kl(1)] i [OF kl(2)] kl(3) by (auto simp: keeps_name_def)
    with assms(2) show ?thesis unfolding state_ok_def by blast
  qed
  ultimately show ?thesis unfolding state_ok_def by blast
qed

text \<open>
  A property of single instances that survives what the store itself does to one: making its maps
  writable, a trip through the file, and another order of its maps. Every operation of the store
  then keeps it for all instances, in memory and on disk, provided the closures do; the hub's
  operations only have to show that.
\<close>

locale instance_invariant =
  fixes I :: "Instance \<Rightarrow> bool"
  assumes keep_ensure: "I i \<Longrightarrow> I (ensureMaps i)"
    and keep_json: "I i \<Longrightarrow> I (json_instance i)"
    and keep_order: "same_instance i j \<Longrightarrow> I i \<Longrightarrow> I j"
begin

lemma json_inv:
  assumes "state_ok st" and "all_instances I st"
  shows "state_ok (json_state st)" and "all_instances I (json_state st)"
proof -
  show "state_ok (json_state st)"
    unfolding json_state_def using assms(1) keeps_name_json by (intro state_ok_map)
  show "all_instances I (json_state st)"
    unfolding json_state_def using assms(2) keep_json
    by (intro all_instances_map) (auto simp: all_instances_def)
qed

lemma save_inv:
  assumes "state_ok (st_state s)" and "all_instances I (st_state s)"
    and "\<And>st. fs_file (st_fs s) = Some (Whole st) \<Longrightarrow> state_ok st \<and> all_instances I st"
    and "fs_file (st_fs s) \<noteq> Some Torn"
  shows "store_inv I (fst (save io s))"
  using assms json_inv [OF assms(1,2)] by (auto simp: store_inv_def save_file split: if_splits)

lemma Update_inv:
  assumes s: "store_inv I s"
    and fn: "\<And>i. mget (instances s) iid = Some i \<Longrightarrow> I (ensureMaps i) \<Longrightarrow>
      I (fst (fn (ensureMaps i))) \<and> keeps_name i (fst (fn (ensureMaps i)))"
  shows "store_inv I (fst (Update io iid fn s))"
proof (cases "mget (instances s) iid")
  case None
  then show ?thesis using s by (simp add: Update_missing)
next
  case (Some i)
  let ?s = "fst (Update io iid fn s)"
  have ok: "I (fst (fn (ensureMaps i))) \<and> keeps_name i (fst (fn (ensureMaps i)))"
    using s Some by (intro fn keep_ensure) (auto simp: store_inv_def all_instances_def)
  then have "state_ok (st_state ?s)"
    using s Some by (intro state_ok_adjust [OF _ _ Update_instances(2) Update_instances(1), OF _ _ Some Some])
      (auto simp: store_inv_def)
  moreover have "all_instances I (st_state ?s)"
    using s ok Some by (auto simp: all_instances_def store_inv_def Update_get split: if_splits)
  ultimately show ?thesis
    using Update_file [of io iid fn s] json_inv [of "st_state ?s"] s by (auto simp: store_inv_def)
qed

lemma save_changed:
  assumes "store_inv I s" and "state_ok (st_state t)" and "all_instances I (st_state t)" and "st_fs t = st_fs s"
  shows "store_inv I (fst (save io t))"
  using assms by (intro save_inv) (auto simp: store_inv_def)

lemma Add_inv:
  assumes s: "store_inv I s" and i: "I inst"
  shows "store_inv I (fst (Add io inst s))"
proof (cases rule: Add_cases [of io inst s])
  case (stored m)
  have ok: "state_ok (st_state s)" using s by (simp add: store_inv_def)
  then have wf: "wf_map (instances s)" by (simp add: state_ok_def)
  have names: "inst_Name j \<noteq> inst_Name inst" if "mget (instances s) k = Some j" for k j
    using stored(2) that vals_iff [OF wf] by (auto simp: name_owner_None)
  have m: "m \<noteq> None" using stored(3) by (cases "instances s") auto
  have "state_ok (st_state (set_instances m s))"
    unfolding state_ok_def store_simps
  proof (intro conjI allI impI)
    show "m \<noteq> None" "wf_map m" "identities s \<noteq> None" "wf_map (identities s)"
      using m wf_map_put [OF stored(3) wf] ok by (simp_all add: state_ok_def)
  next
    fix k j
    assume "mget m k = Some j"
    then show "inst_ID j = k"
      using ok by (auto simp: mget_put [OF stored(3)] state_ok_def split: if_splits)
  next
    fix k l a b
    assume "mget m k = Some a" "mget m l = Some b" "inst_Name a = inst_Name b"
    then show "k = l"
      using ok names names [symmetric] unfolding state_ok_def mget_put [OF stored(3)]
      by (metis option.inject)
  qed
  moreover have "all_instances I (st_state (set_instances m s))"
    using s i by (auto simp: all_instances_def store_inv_def mget_put [OF stored(3)] split: if_splits)
  ultimately show ?thesis using save_changed [OF s] stored(4) by simp
qed (use s in simp_all)

lemma Remove_inv:
  assumes s: "store_inv I s"
  shows "store_inv I (fst (Remove io iid s))"
proof (cases "mget (instances s) iid")
  case None
  then show ?thesis using s by (simp add: Remove_def)
next
  case (Some i)
  have ok: "state_ok (st_state s)" using s by (simp add: store_inv_def)
  then have wf: "wf_map (instances s)" by (simp add: state_ok_def)
  have "mdel iid (instances s) \<noteq> None" using ok by (cases "instances s") (auto simp: state_ok_def)
  then have "state_ok (st_state (set_instances (mdel iid (instances s)) s))"
    using ok wf_map_del [OF wf] by (auto simp: state_ok_def mget_del [OF wf] split: if_splits)
  moreover have "all_instances I (st_state (set_instances (mdel iid (instances s)) s))"
    using s by (auto simp: all_instances_def store_inv_def mget_del [OF wf] split: if_splits)
  ultimately show ?thesis using save_changed [OF s] Some by (simp add: Remove_def)
qed

lemma Register_inv:
  assumes s: "store_inv I s"
  shows "store_inv I (fst (Register io now r s))"
proof -
  have ok: "identities s \<noteq> None" "wf_map (identities s)" using s by (auto simp: store_inv_def state_ok_def)
  have step: "store_inv I (fst (save io (set_identities m s)))" if "m \<noteq> None" "wf_map m" for m
    using that s by (intro save_changed [OF s]) (auto simp: store_inv_def state_ok_def all_instances_def)
  show ?thesis
  proof (cases "mget (identities s) (reg_Identity r)")
    case None
    obtain m where m: "mput (reg_Identity r) (r\<lparr>reg_RegisteredAt := now\<rparr>) (identities s) = Some m"
      using ok(1) by (cases "identities s") auto
    then have "m \<noteq> None" by (cases "identities s") auto
    with None m step wf_map_put [OF m ok(2)] show ?thesis by (simp add: Register_def)
  next
    case (Some e)
    then show ?thesis using ok by (simp add: Register_def step del: not_None_eq)
  qed
qed

lemma OpenStore_inv:
  assumes f: "fs_file f \<noteq> Some Torn"
    "\<And>st. fs_file f = Some (Whole st) \<Longrightarrow> state_ok st \<and> all_instances I st"
    and s: "OpenStore readable f = Inr s"
  shows "store_inv I s"
proof (cases "fs_file f")
  case None
  with s show ?thesis
    by (auto simp: OpenStore_def store_inv_def state_ok_def all_instances_def mget_def wf_map_def)
next
  case (Some img)
  then obtain st where st: "img = Whole st" using f(1) by (cases img) auto
  with Some f(2) have ok: "state_ok st" "all_instances I st" by auto
  then have e: "ensure (st_Instances st) = st_Instances st" "ensure (st_Identities st) = st_Identities st"
    by (auto simp: state_ok_def)
  have s': "st_state s = st\<lparr>st_Instances := map_vals ensureMaps (st_Instances st)\<rparr>" "st_fs s = f"
    using s Some st e by (auto simp: OpenStore_def split: if_splits)
  have "state_ok (st_state s)"
    unfolding s' by (intro state_ok_map ok) (simp add: keeps_name_def ensureMaps_def)
  moreover have "all_instances I (st_state s)"
    unfolding s' using ok(2) keep_ensure by (intro all_instances_map) (auto simp: all_instances_def)
  ultimately show ?thesis using f s' by (auto simp: store_inv_def)
qed

lemma same_state_inv:
  assumes "same_state st st'" and "state_ok st" and "all_instances I st"
  shows "state_ok st'" and "all_instances I st'"
proof -
  show "state_ok st'" using same_state_ok assms by blast
  show "all_instances I st'"
    unfolding all_instances_def
  proof (intro allI impI)
    fix k j
    assume j: "mget (st_Instances st') k = Some j"
    have "rel_option same_instance (mget (st_Instances st) k) (mget (st_Instances st') k)"
      using same_state_get(2) [OF assms(1)] assms(2) by (simp add: state_ok_def)
    with j obtain i where "mget (st_Instances st) k = Some i" "same_instance i j"
      by (cases "mget (st_Instances st) k") auto
    with assms(3) keep_order show "I j" by (auto simp: all_instances_def)
  qed
qed

end

section \<open>Resolving\<close>

lemma resolve_loop_Some:
  "resolve_loop n (Some i) is = (if \<exists>j \<in> set is. inst_Name j = n then Fail ErrAmbiguous else Ret i)"
  by (induction "is") auto

lemma resolve_loop_unique:
  assumes "distinct (filter (\<lambda>i. inst_Name i = n) is)"
    and "\<forall>i \<in> set is. \<forall>j \<in> set is. inst_Name i = n \<longrightarrow> inst_Name j = n \<longrightarrow> i = j"
  shows "resolve_loop n None is = (case find (\<lambda>i. inst_Name i = n) is of None \<Rightarrow> Fail ErrNotFound | Some i \<Rightarrow> Ret i)"
  using assms
proof (induction "is")
  case (Cons i "is")
  show ?case
  proof (cases "inst_Name i = n")
    case True
    with Cons.prems have "\<not> (\<exists>j \<in> set is. inst_Name j = n)" by auto
    with True show ?thesis by (simp add: resolve_loop_Some)
  next
    case False
    with Cons show ?thesis by auto
  qed
qed simp

lemma distinct_named:
  assumes "state_ok st"
  shows "distinct (filter (\<lambda>i. inst_Name i = n) (vals (st_Instances st)))"
proof -
  have "inst_ID i = k" if "(k, i) \<in> set (items (st_Instances st))" for k i
    using assms that by (simp add: state_ok_def mget_items [symmetric])
  then have "map inst_ID (vals (st_Instances st)) = map fst (items (st_Instances st))"
    by (auto simp: vals_def)
  then have "distinct (map inst_ID (vals (st_Instances st)))"
    using assms by (simp add: state_ok_def wf_map_def)
  then show ?thesis by (simp add: distinct_map)
qed

lemma state_ok_id: "state_ok st \<Longrightarrow> mget (st_Instances st) k = Some i \<Longrightarrow> inst_ID i = k"
  by (simp add: state_ok_def)

lemma state_ok_named:
  assumes "state_ok st" and "mget (st_Instances st) k = Some i" and "mget (st_Instances st) l = Some j"
    and "inst_Name i = inst_Name j"
  shows "k = l"
  using assms unfolding state_ok_def by blast

lemma Resolve_eq:
  assumes ok: "state_ok (st_state s)"
  shows "Resolve U ref s = Ret i \<longleftrightarrow> mget (instances s) ref = Some i
      \<or> mget (instances s) ref = None \<and> inst_Name i = ToLower U (TrimSpace U ref)
        \<and> (\<exists>k. mget (instances s) k = Some i)"
    and "Resolve U ref s \<in> range Ret \<or> Resolve U ref s = Fail ErrNotFound"
proof -
  let ?n = "ToLower U (TrimSpace U ref)" and ?is = "vals (instances s)"
  have wf: "wf_map (instances s)" using ok by (simp add: state_ok_def)
  have uniq: "\<forall>i \<in> set ?is. \<forall>j \<in> set ?is. inst_Name i = ?n \<longrightarrow> inst_Name j = ?n \<longrightarrow> i = j"
  proof (intro ballI impI)
    fix a b
    assume "a \<in> set ?is" "b \<in> set ?is" and n: "inst_Name a = ?n" "inst_Name b = ?n"
    then obtain k l where kl: "mget (instances s) k = Some a" "mget (instances s) l = Some b"
      unfolding vals_iff [OF wf] by blast
    with state_ok_named [OF ok kl] n show "a = b" by simp
  qed
  have loop: "resolve_loop ?n None ?is
      = (case find (\<lambda>i. inst_Name i = ?n) ?is of None \<Rightarrow> Fail ErrNotFound | Some i \<Rightarrow> Ret i)"
    using resolve_loop_unique [OF distinct_named [OF ok] uniq] .
  have found: "find (\<lambda>i. inst_Name i = ?n) ?is = Some i \<longleftrightarrow> inst_Name i = ?n \<and> (\<exists>k. mget (instances s) k = Some i)"
  proof (cases "find (\<lambda>i. inst_Name i = ?n) ?is")
    case None
    then have "\<forall>j \<in> set ?is. inst_Name j \<noteq> ?n" by (auto simp: find_None_iff)
    with None show ?thesis by (auto simp: vals_iff [OF wf])
  next
    case (Some j)
    then have "j \<in> set ?is" "inst_Name j = ?n" by (auto simp: find_Some_iff)
    with uniq Some show ?thesis unfolding vals_iff [OF wf, symmetric] by auto
  qed
  show "Resolve U ref s = Ret i \<longleftrightarrow> mget (instances s) ref = Some i
      \<or> mget (instances s) ref = None \<and> inst_Name i = ?n \<and> (\<exists>k. mget (instances s) k = Some i)"
    using found by (auto simp: Resolve_def loop split: option.splits)
  show "Resolve U ref s \<in> range Ret \<or> Resolve U ref s = Fail ErrNotFound"
    by (auto simp: Resolve_def loop split: option.splits)
qed

lemma Resolve_stored:
  assumes "state_ok (st_state s)" and "Resolve U ref s = Ret i"
  shows "mget (instances s) (inst_ID i) = Some i"
  using assms(2) Resolve_eq(1) [OF assms(1), of U ref i] state_ok_id [OF assms(1)] by auto

section \<open>Properties\<close>

text \<open>
  A save never leaves a broken state file: whichever call fails, and wherever between two calls
  the process dies, the file holds what it held before or the complete new state; it is replaced
  exactly when the save reports success.
\<close>

theorem save_atomic:
  "(\<forall>f \<in> set (save_trace io (st_state s) (st_fs s)).
      fs_file f = fs_file (st_fs s) \<or> fs_file f = Some (Whole (json_state (st_state s))))
   \<and> st_state (fst (save io s)) = st_state s
   \<and> (snd (save io s) = Ret () \<longleftrightarrow> io = None)
   \<and> fs_file (st_fs (fst (save io s))) =
       (if snd (save io s) = Ret () then Some (Whole (json_state (st_state s))) else fs_file (st_fs s))"
  by (auto simp: save_file save_result save_trace_def Let_def split: option.split io_fault.split)

theorem save_atomic_witness:
  "fs_file (last (save_trace (Some FRename) \<lparr>st_Instances = Some [], st_Identities = Some []\<rparr>
     \<lparr>fs_file = None, fs_tmp = None\<rparr>)) = None"
  using save_atomic [of "Some FRename" "\<lparr>st_state = \<lparr>st_Instances = Some [], st_Identities = Some []\<rparr>,
      st_fs = \<lparr>fs_file = None, fs_tmp = None\<rparr>\<rparr>"]
  by (simp add: save_def)

text \<open>
  A hub restarted after a successful save comes up with every registration and every instance it
  had, each with the same allocations, members and requests, and with no nil map an enrollment could
  panic on.
\<close>

theorem OpenStore_after_save:
  assumes "state_ok (st_state s)" and "save None s = (s', Ret ())"
  shows "\<exists>t. OpenStore True (st_fs s') = Inr t
    \<and> identities t = identities s
    \<and> (\<forall>k. mget (instances t) k = map_option (\<lambda>i. ensureMaps (json_instance i)) (mget (instances s) k))
    \<and> (\<forall>k i. mget (instances t) k = Some i \<longrightarrow>
         inst_Allocations i \<noteq> None \<and> inst_Requests i \<noteq> None \<and> inst_Members i \<noteq> None)
    \<and> (\<forall>i. items (inst_Allocations (ensureMaps (json_instance i))) = items (inst_Allocations i)
         \<and> items (inst_Allocations6 (ensureMaps (json_instance i))) = items (inst_Allocations6 i)
         \<and> items (inst_Members (ensureMaps (json_instance i))) = items (inst_Members i)
         \<and> items (inst_Requests (ensureMaps (json_instance i)))
             = map (\<lambda>(k, r). (k, json_record r)) (items (inst_Requests i)))"
proof -
  have f: "fs_file (st_fs s') = Some (Whole (json_state (st_state s)))"
    using assms(2) save_file [of None s] by simp
  have n: "ensure (st_Instances (json_state (st_state s))) = st_Instances (json_state (st_state s))"
    "ensure (identities s) = identities s"
    using assms(1) by (auto simp: state_ok_def json_state_def map_vals_def)
  define t where "t = \<lparr>st_state = (json_state (st_state s))
      \<lparr>st_Instances := map_vals ensureMaps (st_Instances (json_state (st_state s)))\<rparr>, st_fs = st_fs s'\<rparr>"
  have t: "OpenStore True (st_fs s') = Inr t"
    using f n by (simp add: OpenStore_def t_def) (simp add: json_state_def)
  have g: "mget (instances t) k = map_option (\<lambda>i. ensureMaps (json_instance i)) (mget (instances s) k)" for k
    by (simp add: t_def json_state_def option.map_comp comp_def)
  have e: "inst_Allocations (ensureMaps i) \<noteq> None" "inst_Requests (ensureMaps i) \<noteq> None"
    "inst_Members (ensureMaps i) \<noteq> None" for i
    by (simp_all add: ensureMaps_def ensure_def)
  show ?thesis
  proof (intro exI [of _ t] conjI allI impI)
    fix k i
    assume "mget (instances t) k = Some i"
    then obtain j where "i = ensureMaps (json_instance j)" using g by auto
    then show "inst_Allocations i \<noteq> None" "inst_Requests i \<noteq> None" "inst_Members i \<noteq> None"
      using e by simp_all
  qed (use t g in \<open>simp_all add: t_def ensureMaps_def json_instance_def json_state_def\<close>)
qed

definition example_instance :: Instance where
  "example_instance = \<lparr>inst_ID = ''0011223344556677'', inst_Name = ''railway'', inst_Owner = ''ed25519:o'',
     inst_Binder = ''mara'', inst_Overlay = Prefix (Addr4 0xC6130000) 24, inst_Overlay6 = PrefixNone,
     inst_Port = 20000, inst_LighthouseAddress = Addr4 0xC6130001, inst_LighthouseAddress6 = AddrNone,
     inst_TenantAddress = Addr4 0xC6130002, inst_TenantAddress6 = AddrNone,
     inst_LighthousePublicKey = ''P'', inst_LighthouseKey = ''K'', inst_LighthouseCert = [], inst_CACert = [],
     inst_Relay = True, inst_SharedToken = [],
     inst_Allocations = Some [], inst_Allocations6 = Some [], inst_Requests = Some [],
     inst_Members = Some [(''ed25519:o'', zero_member\<lparr>mem_Kind := KindOwner, mem_Name := ''railway'',
       mem_Identity := ''ed25519:o'', mem_Binder := ''mara'', mem_Address := Prefix (Addr4 0xC6130002) 24,
       mem_JoinedAt := 1\<rparr>)],
     inst_Burned = [], inst_CreatedAt = 1\<rparr>"

definition example_store :: Store where
  "example_store = \<lparr>st_state = \<lparr>st_Instances = Some [(''0011223344556677'', example_instance)], st_Identities = Some []\<rparr>,
     st_fs = \<lparr>fs_file = None, fs_tmp = None\<rparr>\<rparr>"

lemma example_store_ok: "state_ok (st_state example_store)"
  by (simp add: state_ok_def example_store_def example_instance_def wf_map_def mget_def)

theorem OpenStore_after_save_witness:
  "\<exists>t. OpenStore True (st_fs (fst (save None example_store))) = Inr t
    \<and> mget (instances t) ''0011223344556677'' = Some (ensureMaps (json_instance example_instance))"
proof -
  have "save None example_store = (fst (save None example_store), Ret ())" by (simp add: save_def)
  from OpenStore_after_save [OF example_store_ok this] show ?thesis
    by (auto simp: example_store_def mget_def)
qed

text \<open>
  With instance names unique, \<open>Resolve\<close> is a function of the reference alone: an id always wins,
  otherwise the one instance whose stored name is the folded reference is found, and the answer is
  never "ambiguous", whatever order the map is walked in.
\<close>

theorem Resolve_unambiguous:
  assumes "state_ok (st_state s)"
  shows "(Resolve U ref s = Ret i \<longleftrightarrow> mget (instances s) ref = Some i
      \<or> mget (instances s) ref = None \<and> inst_Name i = ToLower U (TrimSpace U ref)
        \<and> (\<exists>k. mget (instances s) k = Some i))
    \<and> Resolve U ref s \<noteq> Fail ErrAmbiguous \<and> Resolve U ref s \<noteq> Panic"
  using Resolve_eq [OF assms, of U ref] by auto

theorem Resolve_unambiguous_witness:
  "Resolve no_unicode '' Railway'' example_store = Ret example_instance"
proof -
  have "ToLower no_unicode (TrimSpace no_unicode '' Railway'') = ''railway''" by code_simp
  then show ?thesis
    using Resolve_unambiguous [OF example_store_ok, of no_unicode "'' Railway''" example_instance]
    by (auto simp: example_store_def mget_def example_instance_def)
qed

text \<open>
  \<open>MemberOf\<close> lets in exactly the identities that have a member which is not banned, and the
  owner; it never answers with a banned member, nor for the empty identity a connector has.
\<close>

theorem MemberOf_lets_in:
  assumes "wf_map (inst_Members inst)"
  shows "(MemberOf inst ident \<noteq> None \<longleftrightarrow> ident \<noteq> [] \<and> (ident = inst_Owner inst
      \<or> (\<exists>fp m. mget (inst_Members inst) fp = Some m \<and> mem_Identity m = ident \<and> \<not> Banned m)))
    \<and> (\<forall>m. MemberOf inst ident = Some m \<longrightarrow> mem_Identity m = ident \<and> \<not> Banned m)"
proof (cases "member_loop ident (vals (inst_Members inst))")
  case None
  then have "\<nexists>fp m. mget (inst_Members inst) fp = Some m \<and> mem_Identity m = ident \<and> \<not> Banned m"
    using member_loop_None [of ident "vals (inst_Members inst)"] vals_iff [OF assms] by auto
  moreover have "\<not> Banned (zero_member\<lparr>mem_Kind := KindOwner, mem_Identity := ident\<rparr>)"
    by (simp add: Banned_def zero_member_def)
  ultimately show ?thesis using None by (auto simp: MemberOf_def)
next
  case (Some m)
  with member_loop_Some [OF Some] vals_iff [OF assms] show ?thesis by (auto simp: MemberOf_def)
qed

theorem MemberOf_lets_in_witness:
  "MemberOf example_instance ''ed25519:o'' \<noteq> None \<and> MemberOf example_instance ''ed25519:x'' = None"
proof -
  have wf: "wf_map (inst_Members example_instance)" by (simp add: example_instance_def wf_map_def)
  show ?thesis
    using MemberOf_lets_in [OF wf, of "''ed25519:o''"] MemberOf_lets_in [OF wf, of "''ed25519:x''"]
    by (auto simp: example_instance_def mget_def zero_member_def split: if_splits)
qed

end
