(* ===== verification/Alloc.thy ===== *)
theory Alloc
  imports Store
begin

text \<open>
  Addresses of one instance, the first half of \<open>src/internal/hub/ipam.go\<close>: \<open>allocate\<close> and
  \<open>allocate6\<close> hand a fingerprint its address in the instance's two prefixes and write it down in the
  instance. Both are the same contract over another prefix, another table and another set of
  reserved addresses, which is the locale \<open>address_pool\<close>.
\<close>

definition memberAddresses :: "Instance \<Rightarrow> bool \<Rightarrow> addr list" where
  "memberAddresses inst six =
     map (\<lambda>m. if six then paddr (mem_Address6 m) else paddr (mem_Address m)) (vals (inst_Members inst))"

definition allocate :: "Instance \<Rightarrow> string \<Rightarrow> string \<Rightarrow> Instance \<times> (ipam_err, addr) out" where
  "allocate inst fingerprint kind =
     (let inst = inst\<lparr>inst_Allocations := ensure (inst_Allocations inst)\<rparr> in
      case fromPool (inst_Overlay inst) (inst_Allocations inst) fingerprint kind
             (memberAddresses inst False @ [inst_LighthouseAddress inst, inst_TenantAddress inst]) of
        Inl e \<Rightarrow> (inst, Fail e)
      | Inr a \<Rightarrow>
          (case mput fingerprint a (inst_Allocations inst) of
             None \<Rightarrow> (inst, Panic)
           | Some m \<Rightarrow> (inst\<lparr>inst_Allocations := m\<rparr>, Ret a)))"

definition allocate6 :: "Instance \<Rightarrow> string \<Rightarrow> string \<Rightarrow> Instance \<times> (ipam_err, addr) out" where
  "allocate6 inst fingerprint kind =
     (if \<not> PrefixIsValid (inst_Overlay6 inst) then (inst, Ret AddrNone)
      else let inst = inst\<lparr>inst_Allocations6 := ensure (inst_Allocations6 inst)\<rparr> in
      case fromPool (inst_Overlay6 inst) (inst_Allocations6 inst) fingerprint kind
             (memberAddresses inst True @ [inst_LighthouseAddress6 inst, inst_TenantAddress6 inst]) of
        Inl e \<Rightarrow> (inst, Fail e)
      | Inr a \<Rightarrow>
          (case mput fingerprint a (inst_Allocations6 inst) of
             None \<Rightarrow> (inst, Panic)
           | Some m \<Rightarrow> (inst\<lparr>inst_Allocations6 := m\<rparr>, Ret a)))"

definition prefixOf :: "addr \<Rightarrow> prefix \<Rightarrow> prefix" where
  "prefixOf a overlay = (if \<not> IsValid a \<or> \<not> PrefixIsValid overlay then PrefixNone else PrefixFrom a (pbits overlay))"

lemma paddr_prefixOf: "paddr (prefixOf a p) = (if PrefixIsValid p then a else AddrNone)"
  by (simp add: prefixOf_def PrefixNone_def)

section \<open>A plan of addresses\<close>

text \<open>
  Every address a table holds is a host of the prefix outside the fixed addresses, and no two
  fingerprints hold the same one.
\<close>

definition addr_plan :: "prefix \<Rightarrow> addr list \<Rightarrow> (string, addr) gomap \<Rightarrow> bool" where
  "addr_plan p fixed table \<longleftrightarrow> wf_map table
     \<and> (\<forall>fp a. mget table fp = Some a \<longrightarrow> a \<in> hosts p \<and> a \<notin> set fixed)
     \<and> (\<forall>fp fp' a. mget table fp = Some a \<longrightarrow> mget table fp' = Some a \<longrightarrow> fp = fp')"

lemma addr_plan_ensure [simp]: "addr_plan p fixed (ensure m) = addr_plan p fixed m"
  by (simp add: addr_plan_def)

lemma addr_plan_del:
  assumes "addr_plan p fixed m"
  shows "addr_plan p fixed (mdel fp m)"
proof -
  have wf: "wf_map m" using assms by (simp add: addr_plan_def)
  show ?thesis
    using assms wf_map_del [OF wf] unfolding addr_plan_def mget_del [OF wf] by (auto split: if_splits)
qed

lemma addr_plan_put:
  assumes plan: "addr_plan p fixed m" and put: "mput fp a m = Some m'"
    and new: "mget m fp = Some a \<or> a \<in> hosts p \<and> a \<notin> set fixed \<and> a \<notin> set (vals m)"
  shows "addr_plan p fixed m'"
proof -
  have wf: "wf_map m" using plan by (simp add: addr_plan_def)
  have "a \<in> hosts p \<and> a \<notin> set fixed" and other: "\<And>x. mget m x = Some a \<Longrightarrow> x = fp"
    using new plan vals_iff [OF wf, of a] by (auto simp: addr_plan_def)
  then show ?thesis
    using plan wf_map_put [OF put wf] unfolding addr_plan_def mget_put [OF put]
    by (auto split: if_splits)
qed

locale address_pool =
  fixes alloc :: "Instance \<Rightarrow> string \<Rightarrow> string \<Rightarrow> Instance \<times> (ipam_err, addr) out"
    and overlay :: "Instance \<Rightarrow> prefix"
    and table :: "Instance \<Rightarrow> (string, addr) gomap"
    and fixed :: "Instance \<Rightarrow> addr list"
    and members :: "Instance \<Rightarrow> addr list"
    and set_table :: "(string, addr) gomap \<Rightarrow> Instance \<Rightarrow> Instance"
  assumes alloc_ret: "wf_prefix (overlay i) \<Longrightarrow> addr_plan (overlay i) (fixed i) (table i) \<Longrightarrow>
      alloc i fp kind = (j, Ret a) \<Longrightarrow>
      j = set_table (table j) i \<and> mput fp a (ensure (table i)) = Some (table j)
      \<and> (mget (table i) fp = Some a
         \<or> mget (table i) fp = None \<and> a \<in> hosts (overlay i) \<and> a \<notin> set (fixed i) \<and> a \<notin> set (vals (table i))
           \<and> a \<notin> set (members i))"
    and alloc_fail: "wf_prefix (overlay i) \<Longrightarrow> alloc i fp kind = (j, Fail e) \<Longrightarrow>
      j = set_table (ensure (table i)) i \<and> e = PoolExhausted \<and> mget (table i) fp = None
      \<and> hosts (overlay i) \<subseteq> set (vals (table i)) \<union> set (members i) \<union> set (fixed i)"
    and alloc_total: "wf_prefix (overlay i) \<Longrightarrow> snd (alloc i fp kind) \<noteq> Panic"
    and table_set: "table (set_table m i) = m"
begin

lemma alloc_get:
  assumes "wf_prefix (overlay i)" and "addr_plan (overlay i) (fixed i) (table i)" and "alloc i fp kind = (j, Ret a)"
  shows "mget (table j) x = (if x = fp then Some a else mget (table i) x)"
  using alloc_ret [OF assms] mget_put by fastforce

lemma alloc_plan:
  assumes "wf_prefix (overlay i)" and "addr_plan (overlay i) (fixed i) (table i)" and "alloc i fp kind = (j, Ret a)"
  shows "addr_plan (overlay i) (fixed i) (table j)"
  using alloc_ret [OF assms] assms(2) addr_plan_put [of "overlay i" "fixed i" "ensure (table i)" fp a "table j"]
  by auto

lemma alloc_host:
  assumes "wf_prefix (overlay i)" and "addr_plan (overlay i) (fixed i) (table i)" and "alloc i fp kind = (j, Ret a)"
  shows "a \<in> hosts (overlay i) \<and> a \<notin> set (fixed i)"
  using alloc_ret [OF assms] assms(2) unfolding addr_plan_def by blast

lemma alloc_sticky:
  assumes "wf_prefix (overlay i)" and "addr_plan (overlay i) (fixed i) (table i)"
    and "mget (table i) fp = Some b" and "alloc i fp kind = (j, r)"
  shows "r = Ret b \<and> (\<forall>x. mget (table j) x = mget (table i) x)"
proof (cases r)
  case (Ret a)
  then show ?thesis
    using alloc_ret [OF assms(1,2)] alloc_get [OF assms(1,2)] assms(3,4) by fastforce
next
  case (Fail e)
  then show ?thesis using alloc_fail [OF assms(1)] assms(3,4) by fastforce
next
  case Panic
  then show ?thesis using alloc_total [OF assms(1)] assms(4) by (metis snd_conv)
qed

lemma alloc_room:
  assumes "wf_prefix (overlay i)"
    and "length (vals (table i)) + length (members i) + length (fixed i) < card (hosts (overlay i))"
  shows "\<exists>j a. alloc i fp kind = (j, Ret a)"
proof (cases "alloc i fp kind")
  case (Pair j r)
  show ?thesis
  proof (cases r)
    case (Fail e)
    then have sub: "hosts (overlay i) \<subseteq> set (vals (table i) @ members i @ fixed i)"
      using alloc_fail [OF assms(1), of fp kind j e] Pair by auto
    have "card (hosts (overlay i)) \<le> length (vals (table i) @ members i @ fixed i)"
      using card_mono [OF _ sub] card_length [of "vals (table i) @ members i @ fixed i"] by (meson finite_set le_trans)
    then show ?thesis using assms(2) by simp
  next
    case Panic
    then show ?thesis using alloc_total [OF assms(1)] Pair by (metis snd_conv)
  qed (use Pair in auto)
qed

end

lemma alloc_cases:
  assumes "wf_prefix p"
  shows "case fromPool p (ensure tab) fp kind (others @ fixed) of
      Inl e \<Rightarrow> e = PoolExhausted \<and> mget tab fp = None \<and> hosts p \<subseteq> set (vals tab) \<union> set others \<union> set fixed
    | Inr a \<Rightarrow> mget tab fp = Some a
        \<or> mget tab fp = None \<and> a \<in> hosts p \<and> a \<notin> set fixed \<and> a \<notin> set (vals tab) \<and> a \<notin> set others"
proof (cases "fromPool p (ensure tab) fp kind (others @ fixed)")
  case (Inl e)
  with fromPool_fails [OF assms(1) Inl] show ?thesis by auto
next
  case (Inr a)
  show ?thesis
  proof (cases "mget tab fp")
    case None
    with Inr fromPool_new [OF assms(1) _ Inr] show ?thesis by simp
  next
    case (Some b)
    with Inr show ?thesis by (simp add: fromPool_held)
  qed
qed

lemma allocate_eq:
  "allocate i fp kind =
    (case fromPool (inst_Overlay i) (ensure (inst_Allocations i)) fp kind
        (memberAddresses i False @ [inst_LighthouseAddress i, inst_TenantAddress i]) of
       Inl e \<Rightarrow> (i\<lparr>inst_Allocations := ensure (inst_Allocations i)\<rparr>, Fail e)
     | Inr a \<Rightarrow> (i\<lparr>inst_Allocations := Some (AList.update fp a (items (inst_Allocations i)))\<rparr>, Ret a))"
  by (simp add: allocate_def Let_def memberAddresses_def ensure_def split: sum.split)

lemma allocate6_eq:
  "allocate6 i fp kind =
    (if \<not> PrefixIsValid (inst_Overlay6 i) then (i, Ret AddrNone)
     else case fromPool (inst_Overlay6 i) (ensure (inst_Allocations6 i)) fp kind
        (memberAddresses i True @ [inst_LighthouseAddress6 i, inst_TenantAddress6 i]) of
       Inl e \<Rightarrow> (i\<lparr>inst_Allocations6 := ensure (inst_Allocations6 i)\<rparr>, Fail e)
     | Inr a \<Rightarrow> (i\<lparr>inst_Allocations6 := Some (AList.update fp a (items (inst_Allocations6 i)))\<rparr>, Ret a))"
  by (simp add: allocate6_def Let_def memberAddresses_def ensure_def split: sum.split)

interpretation pool4: address_pool allocate inst_Overlay inst_Allocations
  "\<lambda>i. [inst_LighthouseAddress i, inst_TenantAddress i]" "\<lambda>i. memberAddresses i False"
  "\<lambda>m i. i\<lparr>inst_Allocations := m\<rparr>"
proof unfold_locales
  fix i :: Instance and fp kind :: string
  note c = alloc_cases [where p = "inst_Overlay i" and tab = "inst_Allocations i" and fp = fp and kind = kind
      and others = "memberAddresses i False" and fixed = "[inst_LighthouseAddress i, inst_TenantAddress i]"]
  assume wf: "wf_prefix (inst_Overlay i)"
  { fix j a
    assume "allocate i fp kind = (j, Ret a)"
    then show "j = i\<lparr>inst_Allocations := inst_Allocations j\<rparr>
        \<and> mput fp a (ensure (inst_Allocations i)) = Some (inst_Allocations j)
        \<and> (mget (inst_Allocations i) fp = Some a \<or> mget (inst_Allocations i) fp = None \<and> a \<in> hosts (inst_Overlay i)
           \<and> a \<notin> set [inst_LighthouseAddress i, inst_TenantAddress i] \<and> a \<notin> set (vals (inst_Allocations i))
           \<and> a \<notin> set (memberAddresses i False))"
      using c [OF wf] by (auto simp: allocate_eq ensure_def split: sum.splits) }
  { fix j e
    assume "allocate i fp kind = (j, Fail e)"
    then show "j = i\<lparr>inst_Allocations := ensure (inst_Allocations i)\<rparr> \<and> e = PoolExhausted
        \<and> mget (inst_Allocations i) fp = None \<and> hosts (inst_Overlay i) \<subseteq> set (vals (inst_Allocations i))
           \<union> set (memberAddresses i False) \<union> set [inst_LighthouseAddress i, inst_TenantAddress i]"
      using c [OF wf] by (simp add: allocate_eq split: sum.splits) }
  show "snd (allocate i fp kind) \<noteq> Panic" by (simp add: allocate_eq split: sum.split)
qed simp

interpretation pool6: address_pool allocate6 inst_Overlay6 inst_Allocations6
  "\<lambda>i. [inst_LighthouseAddress6 i, inst_TenantAddress6 i]" "\<lambda>i. memberAddresses i True"
  "\<lambda>m i. i\<lparr>inst_Allocations6 := m\<rparr>"
proof unfold_locales
  fix i :: Instance and fp kind :: string
  note c = alloc_cases [where p = "inst_Overlay6 i" and tab = "inst_Allocations6 i" and fp = fp and kind = kind
      and others = "memberAddresses i True" and fixed = "[inst_LighthouseAddress6 i, inst_TenantAddress6 i]"]
  assume wf: "wf_prefix (inst_Overlay6 i)"
  note v = wf_prefix_valid [OF wf]
  { fix j a
    assume "allocate6 i fp kind = (j, Ret a)"
    then show "j = i\<lparr>inst_Allocations6 := inst_Allocations6 j\<rparr>
        \<and> mput fp a (ensure (inst_Allocations6 i)) = Some (inst_Allocations6 j)
        \<and> (mget (inst_Allocations6 i) fp = Some a \<or> mget (inst_Allocations6 i) fp = None \<and> a \<in> hosts (inst_Overlay6 i)
           \<and> a \<notin> set [inst_LighthouseAddress6 i, inst_TenantAddress6 i] \<and> a \<notin> set (vals (inst_Allocations6 i))
           \<and> a \<notin> set (memberAddresses i True))"
      using c [OF wf] v by (auto simp: allocate6_eq ensure_def split: sum.splits) }
  { fix j e
    assume "allocate6 i fp kind = (j, Fail e)"
    then show "j = i\<lparr>inst_Allocations6 := ensure (inst_Allocations6 i)\<rparr> \<and> e = PoolExhausted
        \<and> mget (inst_Allocations6 i) fp = None \<and> hosts (inst_Overlay6 i) \<subseteq> set (vals (inst_Allocations6 i))
           \<union> set (memberAddresses i True) \<union> set [inst_LighthouseAddress6 i, inst_TenantAddress6 i]"
      using c [OF wf] v by (simp add: allocate6_eq split: sum.splits) }
  show "snd (allocate6 i fp kind) \<noteq> Panic" by (simp add: allocate6_eq split: sum.split)
qed simp

section \<open>Properties\<close>

text \<open>
  Allocation is sticky and collision free: a fingerprint that holds an address keeps it and
  nothing else changes; a new one gets a host of the prefix that is neither the lighthouse's, nor the
  owner's, nor held by any fingerprint or member; the plan of distinct addresses survives, and
  allocation fails only when every host is spoken for.
\<close>

theorem allocate_sticky_and_fresh:
  assumes "wf_prefix (inst_Overlay i)"
    and "addr_plan (inst_Overlay i) [inst_LighthouseAddress i, inst_TenantAddress i] (inst_Allocations i)"
  shows "case allocate i fp kind of
      (j, Ret a) \<Rightarrow> addr_plan (inst_Overlay j) [inst_LighthouseAddress j, inst_TenantAddress j] (inst_Allocations j)
        \<and> (\<forall>x. mget (inst_Allocations j) x = (if x = fp then Some a else mget (inst_Allocations i) x))
        \<and> (mget (inst_Allocations i) fp = Some a \<or> mget (inst_Allocations i) fp = None \<and> a \<in> hosts (inst_Overlay i)
           \<and> a \<notin> {inst_LighthouseAddress i, inst_TenantAddress i}
           \<and> a \<notin> set (vals (inst_Allocations i)) \<and> a \<notin> set (memberAddresses i False))
    | (j, Fail e) \<Rightarrow> e = PoolExhausted \<and> mget (inst_Allocations i) fp = None
        \<and> hosts (inst_Overlay i) \<subseteq> set (vals (inst_Allocations i)) \<union> set (memberAddresses i False)
            \<union> {inst_LighthouseAddress i, inst_TenantAddress i}
    | (j, Panic) \<Rightarrow> False"
proof (cases "allocate i fp kind")
  case (Pair j r)
  show ?thesis
  proof (cases r)
    case (Ret a)
    with Pair have run: "allocate i fp kind = (j, Ret a)" by simp
    have j: "j = i\<lparr>inst_Allocations := inst_Allocations j\<rparr>" using pool4.alloc_ret [OF assms run] by blast
    have "inst_Overlay j = inst_Overlay i" "inst_LighthouseAddress j = inst_LighthouseAddress i"
      "inst_TenantAddress j = inst_TenantAddress i" by (subst j, simp)+
    then show ?thesis
      using pool4.alloc_ret [OF assms run] pool4.alloc_plan [OF assms run] pool4.alloc_get [OF assms run] run
      by simp
  next
    case (Fail e)
    with Pair have run: "allocate i fp kind = (j, Fail e)" by simp
    show ?thesis using pool4.alloc_fail [OF assms(1) run] run by simp
  next
    case Panic
    with pool4.alloc_total [OF assms(1), of fp kind] Pair show ?thesis by simp
  qed
qed

theorem allocate_sticky_and_fresh_witness:
  "\<exists>j. allocate example_instance ''ab'' KindTenant = (j, Ret (Addr4 0xC6130003))
    \<and> mget (inst_Allocations j) ''ab'' = Some (Addr4 0xC6130003)"
proof -
  have wf: "wf_prefix (inst_Overlay example_instance)" by (simp add: wf_prefix_def example_instance_def)
  have plan: "addr_plan (inst_Overlay example_instance) [inst_LighthouseAddress example_instance,
      inst_TenantAddress example_instance] (inst_Allocations example_instance)"
    by (simp add: addr_plan_def example_instance_def wf_map_def mget_def)
  have run: "snd (allocate example_instance ''ab'' KindTenant) = Ret (Addr4 0xC6130003)"
    by (simp add: allocate_eq example_instance_def fromPool_def mget_def vals_def KindTenant_def KindConnector_def
        memberAddresses_def walk_eval)
  obtain j where j: "allocate example_instance ''ab'' KindTenant = (j, Ret (Addr4 0xC6130003))"
    using run by (metis prod.collapse)
  show ?thesis using allocate_sticky_and_fresh [OF wf plan, of "''ab''" KindTenant] j by simp
qed

text \<open>
  An instance whose IPv6 prefix has more hosts than it has allocations, members and the two fixed
  addresses always has an address left: \<open>allocate6\<close> succeeds for every fingerprint, independently of
  the IPv4 pool.
\<close>

theorem allocate6_room:
  assumes "wf_prefix (inst_Overlay6 i)"
    and "addr_plan (inst_Overlay6 i) [inst_LighthouseAddress6 i, inst_TenantAddress6 i] (inst_Allocations6 i)"
    and "length (vals (inst_Allocations6 i)) + length (vals (inst_Members i)) + 2
      < 2 ^ hostbits (inst_Overlay6 i) - (if Is4 (paddr (inst_Overlay6 i)) \<and> pbits (inst_Overlay6 i) < 31 then 2 else 1)"
  shows "\<exists>j a. allocate6 i fp kind = (j, Ret a) \<and> a \<noteq> AddrNone"
proof -
  have "length (vals (inst_Allocations6 i)) + length (memberAddresses i True)
      + length [inst_LighthouseAddress6 i, inst_TenantAddress6 i] < card (hosts (inst_Overlay6 i))"
    using assms(3) by (simp add: card_hosts [OF assms(1)] memberAddresses_def)
  then obtain j a where run: "allocate6 i fp kind = (j, Ret a)"
    using pool6.alloc_room [OF assms(1)] by blast
  then have "a \<noteq> AddrNone" using pool6.alloc_host [OF assms(1,2) run] by (auto simp: hosts_def)
  with run show ?thesis by blast
qed

theorem allocate6_room_witness:
  "\<exists>j a. allocate6 (example_instance\<lparr>inst_Overlay6 := Prefix (Addr6 0xfd000000000000000000000000000000) 112\<rparr>)
     ''ab'' KindConnector = (j, Ret a) \<and> a \<noteq> AddrNone"
proof -
  let ?i = "example_instance\<lparr>inst_Overlay6 := Prefix (Addr6 0xfd000000000000000000000000000000) 112\<rparr>"
  have wf: "wf_prefix (inst_Overlay6 ?i)" by (simp add: wf_prefix_def)
  have plan: "addr_plan (inst_Overlay6 ?i) [inst_LighthouseAddress6 ?i, inst_TenantAddress6 ?i] (inst_Allocations6 ?i)"
    by (simp add: addr_plan_def example_instance_def wf_map_def mget_def)
  show ?thesis
    by (rule allocate6_room [OF wf plan]) (simp add: example_instance_def vals_def hostbits_def)
qed

end
