(* ===== verification/Views.thy ===== *)
theory Views
  imports Alloc
begin

text \<open>
  What the hub reads out of an instance, \<open>src/internal/hub/hub.go\<close>: the configuration the daemon is
  started with, the route table and the resolvers every member is told, the blocklist, the burned
  keys, and the resolution of a member reference. None of these changes state.

  \<open>sort.Slice\<close> is a stable sort here. Go's is not, and ties are broken by the order of a map
  iteration anyway; nothing below depends on it.
\<close>

section \<open>Configuration\<close>

text \<open>An ssh public key is its wire form; an operator is a name and the keys that speak for it.\<close>

type_synonym ssh_key = string

record Config =
  cfg_APIAddr :: string
  cfg_NebulaBind :: string
  cfg_PublicEndpoint :: string
  cfg_PortMin :: "16 word"
  cfg_PortMax :: "16 word"
  cfg_Overlays :: "Pool list"
  cfg_Overlays6 :: "Pool list"
  cfg_Token :: string
  cfg_Binders :: "(string, ssh_key list) gomap"
  cfg_StatePath :: string
  cfg_MTU :: "32 word"
  cfg_Relay :: bool
  cfg_DNS :: bool
  cfg_NoLighthouseTun :: bool

section \<open>Reading an instance\<close>

definition blockedIn :: "Instance \<Rightarrow> string list" where
  "blockedIn inst = sort
     (map mem_CertFingerprint (filter (\<lambda>m. Banned m \<and> mem_CertFingerprint m \<noteq> []) (vals (inst_Members inst)))
      @ map bur_CertFingerprint (filter (\<lambda>b. bur_CertFingerprint b \<noteq> []) (inst_Burned inst)))"

definition burned :: "Instance \<Rightarrow> string \<Rightarrow> bool" where
  "burned inst fingerprint = list_ex (\<lambda>b. bur_Fingerprint b = fingerprint) (inst_Burned inst)"

definition memberIn :: "Instance \<Rightarrow> string \<Rightarrow> hub_err + (string \<times> Member)" where
  "memberIn inst ref =
     (case find (\<lambda>(fp, m). fp = ref \<or> HasPrefix fp ref \<or> mem_Name m = ref) (items (inst_Members inst)) of
        Some (fp, m) \<Rightarrow> Inr (fp, m)
      | None \<Rightarrow> Inl (NoMember ref))"

definition routesOf :: "Instance \<Rightarrow> Route list" where
  "routesOf inst = sort_key (\<lambda>r. PrefixString (rt_Prefix r))
     (concat (map (\<lambda>m. map (\<lambda>p. \<lparr>rt_Prefix = p, rt_Via = paddr (mem_Address m), rt_Connector = mem_Name m\<rparr>) (mem_Routes m))
        (filter (\<lambda>m. \<not> (mem_Kind m \<noteq> KindConnector \<or> Banned m)) (vals (inst_Members inst)))))"

definition resolversOf :: "Instance \<Rightarrow> Resolver list" where
  "resolversOf inst = sort_key rsv_Domain
     (map (\<lambda>m. \<lparr>rsv_Domain = mem_Domain m, rsv_Via = paddr (mem_Address m),
               rsv_Via6 = (if PrefixIsValid (mem_Address6 m) then paddr (mem_Address6 m) else AddrNone),
               rsv_Connector = mem_Name m\<rparr>)
       (filter (\<lambda>m. \<not> (mem_Kind m \<noteq> KindConnector \<or> Banned m) \<and> mem_Domain m \<noteq> []) (vals (inst_Members inst))))"

definition MemberCount :: "Instance \<Rightarrow> nat" where
  "MemberCount inst = length (filter (\<lambda>m. mem_Kind m \<noteq> KindOwner \<and> \<not> Banned m) (vals (inst_Members inst)))"

definition RouteTableOf :: "Config \<Rightarrow> Instance \<Rightarrow> RouteTable" where
  "RouteTableOf cfg inst =
     \<lparr>rtab_Instance = inst_Name inst, rtab_Overlay = inst_Overlay inst,
      rtab_Lighthouse = \<lparr>lh_OverlayAddress = inst_LighthouseAddress inst, lh_OverlayAddress6 = AddrNone,
        lh_Endpoints = [JoinHostPort (cfg_PublicEndpoint cfg) (digits_of (unat (inst_Port inst)))],
        lh_Relay = inst_Relay inst\<rparr>,
      rtab_Routes = routesOf inst, rtab_Resolvers = resolversOf inst, rtab_Blocked = blockedIn inst,
      rtab_MTU = cfg_MTU cfg\<rparr>"

definition withBlocklist :: "Bundle option \<Rightarrow> Instance \<Rightarrow> Bundle option" where
  "withBlocklist bundle inst =
     (case bundle of None \<Rightarrow> None | Some fresh \<Rightarrow> Some (fresh\<lparr>bnd_Blocked := blockedIn inst\<rparr>))"

section \<open>Facts\<close>

lemma set_blockedIn:
  assumes "wf_map (inst_Members i)"
  shows "c \<in> set (blockedIn i) \<longleftrightarrow> c \<noteq> [] \<and>
    ((\<exists>fp m. mget (inst_Members i) fp = Some m \<and> Banned m \<and> mem_CertFingerprint m = c)
     \<or> (\<exists>b \<in> set (inst_Burned i). bur_CertFingerprint b = c))"
  unfolding blockedIn_def by (auto simp: vals_iff [OF assms])

lemma burned_iff: "burned i fp \<longleftrightarrow> fp \<in> bur_Fingerprint ` set (inst_Burned i)"
  by (auto simp: burned_def list_ex_iff)

lemma memberIn_Inr:
  assumes "memberIn i ref = Inr (fp, m)"
  shows "(fp, m) \<in> set (items (inst_Members i)) \<and> (HasPrefix fp ref \<or> mem_Name m = ref)"
proof -
  have f: "find (\<lambda>(fp, m). fp = ref \<or> HasPrefix fp ref \<or> mem_Name m = ref) (items (inst_Members i)) = Some (fp, m)"
    using assms by (auto simp: memberIn_def split: option.splits)
  from find_SomeD [OF f] show ?thesis by auto
qed

lemma memberIn_get:
  assumes "wf_map (inst_Members i)" and "memberIn i ref = Inr (fp, m)"
  shows "mget (inst_Members i) fp = Some m" and "HasPrefix fp ref \<or> mem_Name m = ref"
  using memberIn_Inr [OF assms(2)] mget_items [OF assms(1)] by auto

lemma memberIn_Inl: "memberIn i ref = Inl e \<Longrightarrow> e = NoMember ref"
  by (auto simp: memberIn_def split: option.splits)

lemma set_routesOf:
  assumes "wf_map (inst_Members i)"
  shows "r \<in> set (routesOf i) \<longleftrightarrow>
    (\<exists>fp m. mget (inst_Members i) fp = Some m \<and> mem_Kind m = KindConnector \<and> \<not> Banned m
       \<and> rt_Prefix r \<in> set (mem_Routes m) \<and> rt_Via r = paddr (mem_Address m) \<and> rt_Connector r = mem_Name m)"
proof -
  have "r \<in> set (routesOf i) \<longleftrightarrow> (\<exists>m \<in> set (vals (inst_Members i)). mem_Kind m = KindConnector \<and> \<not> Banned m
      \<and> (\<exists>p \<in> set (mem_Routes m). r = \<lparr>rt_Prefix = p, rt_Via = paddr (mem_Address m), rt_Connector = mem_Name m\<rparr>))"
    by (auto simp: routesOf_def)
  also have "\<dots> \<longleftrightarrow> (\<exists>m \<in> set (vals (inst_Members i)). mem_Kind m = KindConnector \<and> \<not> Banned m
      \<and> rt_Prefix r \<in> set (mem_Routes m) \<and> rt_Via r = paddr (mem_Address m) \<and> rt_Connector r = mem_Name m)"
    by (cases r) auto
  finally show ?thesis unfolding Bex_def vals_iff [OF assms] by blast
qed

lemma set_resolversOf:
  assumes "wf_map (inst_Members i)" and "r \<in> set (resolversOf i)"
  shows "\<exists>fp m. mget (inst_Members i) fp = Some m \<and> mem_Kind m = KindConnector \<and> \<not> Banned m
       \<and> mem_Domain m \<noteq> [] \<and> rsv_Domain r = mem_Domain m \<and> rsv_Via r = paddr (mem_Address m) \<and> rsv_Connector r = mem_Name m"
proof -
  obtain m where "m \<in> set (vals (inst_Members i))" "mem_Kind m = KindConnector" "\<not> Banned m" "mem_Domain m \<noteq> []"
    "rsv_Domain r = mem_Domain m" "rsv_Via r = paddr (mem_Address m)" "rsv_Connector r = mem_Name m"
    using assms(2) by (auto simp: resolversOf_def)
  then show ?thesis unfolding vals_iff [OF assms(1)] by blast
qed

section \<open>Properties\<close>

text \<open>
  The route table lists exactly the prefixes of the connectors that are members and not banned,
  each by way of its own address and under its own name, sorted by the written form of the prefix;
  a resolver is listed for such a connector only.
\<close>

theorem route_table_sound:
  assumes "wf_map (inst_Members inst)"
  shows "(\<forall>r. r \<in> set (rtab_Routes (RouteTableOf cfg inst)) \<longleftrightarrow>
      (\<exists>fp m. mget (inst_Members inst) fp = Some m \<and> mem_Kind m = KindConnector \<and> \<not> Banned m
         \<and> rt_Prefix r \<in> set (mem_Routes m) \<and> rt_Via r = paddr (mem_Address m) \<and> rt_Connector r = mem_Name m))
    \<and> sorted (map (\<lambda>r. PrefixString (rt_Prefix r)) (rtab_Routes (RouteTableOf cfg inst)))
    \<and> (\<forall>r \<in> set (rtab_Resolvers (RouteTableOf cfg inst)). \<exists>fp m. mget (inst_Members inst) fp = Some m \<and> mem_Kind m = KindConnector
         \<and> \<not> Banned m \<and> rsv_Domain r = mem_Domain m \<and> rsv_Via r = paddr (mem_Address m))
    \<and> rtab_Blocked (RouteTableOf cfg inst) = blockedIn inst"
proof -
  have "rtab_Routes (RouteTableOf cfg inst) = routesOf inst" "rtab_Resolvers (RouteTableOf cfg inst) = resolversOf inst" "rtab_Blocked (RouteTableOf cfg inst) = blockedIn inst"
    by (simp_all add: RouteTableOf_def)
  moreover have "sorted (map (\<lambda>r. PrefixString (rt_Prefix r)) (routesOf inst))"
    by (simp add: routesOf_def)
  ultimately show ?thesis
    using set_routesOf [OF assms(1)] set_resolversOf [OF assms(1)] by simp blast
qed

definition example_member :: Member where
  "example_member = zero_member\<lparr>mem_Kind := KindConnector, mem_Name := ''web'', mem_Fingerprint := ''ab'',
     mem_Address := Prefix (Addr4 0xC61300FE) 24, mem_Routes := [Prefix (Addr4 0x0A000000) 8],
     mem_Domain := ''prod.internal'', mem_CertFingerprint := ''c1''\<rparr>"

definition example_config :: Config where
  "example_config = \<lparr>cfg_APIAddr = '':8443'', cfg_NebulaBind = ''0.0.0.0'', cfg_PublicEndpoint = ''hub.example'',
     cfg_PortMin = 20000, cfg_PortMax = 20001, cfg_Overlays = [example_pool], cfg_Overlays6 = [],
     cfg_Token = ''t'', cfg_Binders = Some [], cfg_StatePath = ''hub.json'', cfg_MTU = 1500, cfg_Relay = True,
     cfg_DNS = True, cfg_NoLighthouseTun = False\<rparr>"

theorem route_table_sound_witness:
  "\<exists>r \<in> set (rtab_Routes (RouteTableOf example_config (example_instance\<lparr>inst_Members := Some [(''ab'', example_member)]\<rparr>))).
     rt_Via r = Addr4 0xC61300FE \<and> rt_Connector r = ''web''"
proof -
  let ?i = "example_instance\<lparr>inst_Members := Some [(''ab'', example_member)]\<rparr>"
  have wf: "wf_map (inst_Members ?i)" by (simp add: wf_map_def)
  let ?r = "\<lparr>rt_Prefix = Prefix (Addr4 0x0A000000) 8, rt_Via = Addr4 0xC61300FE, rt_Connector = ''web''\<rparr>"
  have "?r \<in> set (rtab_Routes (RouteTableOf example_config ?i))"
    using route_table_sound [OF wf, of example_config]
    by (simp add: mget_def example_member_def zero_member_def Banned_def)
  then show ?thesis by (intro bexI [of _ ?r]) simp_all
qed

text \<open>
  A reference to a member resolves to a member it names or abbreviates, and fails with "not
  found" only when there is none. The empty reference abbreviates every fingerprint, so it resolves
  to whichever member the map yields first.
\<close>

theorem memberIn_resolves:
  assumes "wf_map (inst_Members inst)"
  shows "(\<forall>fp m. memberIn inst ref = Inr (fp, m) \<longrightarrow>
        mget (inst_Members inst) fp = Some m \<and> (HasPrefix fp ref \<or> mem_Name m = ref))
    \<and> (\<forall>e. memberIn inst ref = Inl e \<longrightarrow> is_not_found e
        \<and> (\<forall>fp m. mget (inst_Members inst) fp = Some m \<longrightarrow> \<not> HasPrefix fp ref \<and> mem_Name m \<noteq> ref))
    \<and> (memberIn inst [] = (case items (inst_Members inst) of [] \<Rightarrow> Inl (NoMember []) | p # _ \<Rightarrow> Inr p))"
proof (intro conjI allI impI)
  fix e fp m
  assume e: "memberIn inst ref = Inl e" and m: "mget (inst_Members inst) fp = Some m"
  then have "(fp, m) \<in> set (items (inst_Members inst))" by (simp add: mget_in_items)
  moreover have "find (\<lambda>(fp, m). fp = ref \<or> HasPrefix fp ref \<or> mem_Name m = ref) (items (inst_Members inst)) = None"
    using e by (auto simp: memberIn_def split: option.splits)
  ultimately show "\<not> HasPrefix fp ref" "mem_Name m \<noteq> ref" by (auto simp: find_None_iff)
next
  fix e
  assume "memberIn inst ref = Inl e"
  from memberIn_Inl [OF this] show "is_not_found e" by simp
next
  show "memberIn inst [] = (case items (inst_Members inst) of [] \<Rightarrow> Inl (NoMember []) | p # _ \<Rightarrow> Inr p)"
    by (auto simp: memberIn_def split: list.split)
qed (use memberIn_get [OF assms] in auto)

theorem memberIn_resolves_witness:
  "memberIn (example_instance\<lparr>inst_Members := Some [(''ab'', example_member)]\<rparr>) [] = Inr (''ab'', example_member)"
proof -
  let ?i = "example_instance\<lparr>inst_Members := Some [(''ab'', example_member)]\<rparr>"
  have wf: "wf_map (inst_Members ?i)" by (simp add: wf_map_def)
  show ?thesis using memberIn_resolves [OF wf] by simp
qed

end
