(* ===== verification/Bootstrap.thy ===== *)
theory Bootstrap
  imports Wrak Views
begin

text \<open>
  Enrolling a machine with an ssh key, \<open>src/internal/wrak/sshsig.go\<close> and
  \<open>src/internal/wrak/bootstrap.go\<close>: the message an ssh key signs, OpenSSH's SSHSIG wrapping of the
  signature, and the choice of a key.

  \<open>golang.org/x/crypto/ssh\<close> is not part of the repository: its wire format, its parsing of keys and
  signatures and the verification itself are the record \<open>sshlib\<close>, together with the PEM armor. An ssh
  public key is its wire form, which is what \<open>Marshal\<close> gives back; a nil key is \<open>None\<close>.
\<close>

section \<open>Signatures in the format of OpenSSH\<close>

definition sshsigMagic :: string where "sshsigMagic = ''SSHSIG''"
definition sshsigVersion :: "32 word" where "sshsigVersion = 1"
definition pemType :: string where "pemType = ''SSH SIGNATURE''"

record wrappedSig =
  ws_Magic :: string
  ws_Version :: "32 word"
  ws_PublicKey :: string
  ws_Namespace :: string
  ws_Reserved :: string
  ws_HashAlgorithm :: string
  ws_Signature :: string

record signedData =
  sd_Namespace :: string
  sd_Reserved :: string
  sd_HashAlgorithm :: string
  sd_Hash :: string

record sshlib =
  marshal_data :: "signedData \<Rightarrow> string"
  marshal_wrapped :: "wrappedSig \<Rightarrow> string"
  unmarshal_wrapped :: "string \<Rightarrow> wrappedSig option"
  unmarshal_sig :: "string \<Rightarrow> string option"
  marshal_sig :: "string \<Rightarrow> string"
  ParsePublicKey :: "string \<Rightarrow> ssh_key option"
  ParseAuthorizedKey :: "string \<Rightarrow> ssh_key option"
  MarshalAuthorizedKey :: "ssh_key \<Rightarrow> string"
  key_Verify :: "ssh_key \<Rightarrow> string \<Rightarrow> string \<Rightarrow> bool"
  pem_Encode :: "string \<Rightarrow> string \<Rightarrow> string"
  pem_Decode :: "string \<Rightarrow> (string \<times> string) option"

datatype sig_err =
    NotArmored
  | WrongArmor string
  | MalformedSSHSignature
  | BadPreamble
  | UnsupportedVersion "32 word"
  | WrongNamespace string
  | MalformedPublicKey
  | UnsupportedHash string
  | DoesNotVerify
  | CouldNotSign
  | KeyNotAuthorized
  | ManyKeys nat
  | BadRequestedKey
  | KeyNotHeld string
  | BadAuthorizedKey string

definition marshal :: "sshlib \<Rightarrow> signedData \<Rightarrow> string" where
  "marshal S s = sshsigMagic @ marshal_data S s"

definition hash :: "crypto \<Rightarrow> string \<Rightarrow> string \<Rightarrow> sig_err + string" where
  "hash C algorithm message =
     (if algorithm = ''sha256'' then Inr (cr_sha256 C message)
      else if algorithm = ''sha512'' then Inr (cr_sha512 C message)
      else Inl (UnsupportedHash algorithm))"

text \<open>A signer is a public key and what signing with it answers, which may be an error.\<close>

record Signer =
  sgn_PublicKey :: ssh_key
  sgn_Sign :: "string \<Rightarrow> string option"

definition SignSSHSIG :: "crypto \<Rightarrow> sshlib \<Rightarrow> Signer \<Rightarrow> string \<Rightarrow> string \<Rightarrow> sig_err + string" where
  "SignSSHSIG C S signer namespace message =
     (case hash C ''sha512'' message of
        Inl e \<Rightarrow> Inl e
      | Inr digest \<Rightarrow>
          (let blob = marshal S \<lparr>sd_Namespace = namespace, sd_Reserved = [], sd_HashAlgorithm = ''sha512'', sd_Hash = digest\<rparr>
           in case sgn_Sign signer blob of
                None \<Rightarrow> Inl CouldNotSign
              | Some sig \<Rightarrow>
                  Inr (pem_Encode S pemType (marshal_wrapped S
                    \<lparr>ws_Magic = sshsigMagic, ws_Version = sshsigVersion, ws_PublicKey = sgn_PublicKey signer,
                     ws_Namespace = namespace, ws_Reserved = [], ws_HashAlgorithm = ''sha512'',
                     ws_Signature = marshal_sig S sig\<rparr>))))"

definition VerifySSHSIG :: "crypto \<Rightarrow> sshlib \<Rightarrow> string \<Rightarrow> string \<Rightarrow> string \<Rightarrow> sig_err + ssh_key" where
  "VerifySSHSIG C S armored message namespace =
     (case pem_Decode S armored of
        None \<Rightarrow> Inl NotArmored
      | Some (btype, bytes) \<Rightarrow>
          if btype \<noteq> pemType then Inl (WrongArmor btype)
          else (case unmarshal_wrapped S bytes of
        None \<Rightarrow> Inl MalformedSSHSignature
      | Some wrapped \<Rightarrow>
          if ws_Magic wrapped \<noteq> sshsigMagic then Inl BadPreamble
          else if ws_Version wrapped \<noteq> sshsigVersion then Inl (UnsupportedVersion (ws_Version wrapped))
          else if ws_Namespace wrapped \<noteq> namespace then Inl (WrongNamespace (ws_Namespace wrapped))
          else (case ParsePublicKey S (ws_PublicKey wrapped) of
        None \<Rightarrow> Inl MalformedPublicKey
      | Some key \<Rightarrow>
          (case unmarshal_sig S (ws_Signature wrapped) of
        None \<Rightarrow> Inl MalformedSSHSignature
      | Some sig \<Rightarrow>
          (case hash C (ws_HashAlgorithm wrapped) message of
        Inl e \<Rightarrow> Inl e
      | Inr digest \<Rightarrow>
          if \<not> key_Verify S key
                (marshal S \<lparr>sd_Namespace = ws_Namespace wrapped, sd_Reserved = [],
                            sd_HashAlgorithm = ws_HashAlgorithm wrapped, sd_Hash = digest\<rparr>) sig
          then Inl DoesNotVerify
          else Inr key)))))"

definition AuthorizedKey :: "unicode \<Rightarrow> sshlib \<Rightarrow> ssh_key \<Rightarrow> string" where
  "AuthorizedKey U S key = TrimSpace U (MarshalAuthorizedKey S key)"

text \<open>Two encodings in \<open>base64.StdEncoding\<close> are equal exactly when what they encode is.\<close>

definition b64std_char :: "nat \<Rightarrow> char" where
  "b64std_char n = (if n = 62 then CHR ''+'' else if n = 63 then CHR ''/'' else b64_char n)"

definition b64std_encode :: "string \<Rightarrow> string" where
  "b64std_encode s = map b64std_char (sextets (map of_char s)) @ replicate ((3 - length s mod 3) mod 3) CHR ''=''"

definition SameKey :: "ssh_key option \<Rightarrow> ssh_key option \<Rightarrow> bool" where
  "SameKey a b =
     (case (a, b) of
        (Some x, Some y) \<Rightarrow> b64std_encode x = b64std_encode y
      | _ \<Rightarrow> False)"

section \<open>The message an ssh key signs\<close>

definition BootstrapNamespace :: string where "BootstrapNamespace = ''wrak-bootstrap-v1''"

record Bootstrap =
  boot_API :: string
  boot_Token :: string
  boot_Name :: string
  boot_Identity :: string

definition Message :: "unicode \<Rightarrow> Bootstrap \<Rightarrow> string" where
  "Message U b = unlines
     [''wrak/v1/bootstrap'',
      ''api='' @ ToLower U (boot_API b),
      ''registry_token='' @ boot_Token b,
      ''name='' @ boot_Name b,
      ''identity='' @ boot_Identity b]"

definition BootstrapSign :: "crypto \<Rightarrow> unicode \<Rightarrow> sshlib \<Rightarrow> Bootstrap \<Rightarrow> Signer \<Rightarrow> sig_err + string" where
  "BootstrapSign C U S b signer = SignSSHSIG C S signer BootstrapNamespace (Message U b)"

definition BootstrapVerify :: "crypto \<Rightarrow> unicode \<Rightarrow> sshlib \<Rightarrow> Bootstrap \<Rightarrow> string \<Rightarrow> ssh_key list \<Rightarrow> sig_err + ssh_key" where
  "BootstrapVerify C U S b armored authorized =
     (case VerifySSHSIG C S armored (Message U b) BootstrapNamespace of
        Inl e \<Rightarrow> Inl e
      | Inr key \<Rightarrow>
          (case find (\<lambda>candidate. SameKey (Some key) (Some candidate)) authorized of
             Some _ \<Rightarrow> Inr key
           | None \<Rightarrow> Inl KeyNotAuthorized))"

section \<open>Choosing a key\<close>

definition SignerFor :: "unicode \<Rightarrow> sshlib \<Rightarrow> Signer list \<Rightarrow> string \<Rightarrow> sig_err + Signer" where
  "SignerFor U S signers authorizedKey =
     (if TrimSpace U authorizedKey = [] then
        (case signers of [s] \<Rightarrow> Inr s | _ \<Rightarrow> Inl (ManyKeys (length signers)))
      else case ParseAuthorizedKey S authorizedKey of
             None \<Rightarrow> Inl BadRequestedKey
           | Some want \<Rightarrow>
               (case find (\<lambda>s. SameKey (Some (sgn_PublicKey s)) (Some want)) signers of
                  Some s \<Rightarrow> Inr s
                | None \<Rightarrow> Inl (KeyNotHeld (AuthorizedKey U S want))))"

fun authorized_loop :: "unicode \<Rightarrow> sshlib \<Rightarrow> string list \<Rightarrow> ssh_key list \<Rightarrow> sig_err + ssh_key list" where
  "authorized_loop U S [] acc = Inr acc"
| "authorized_loop U S (raw # rest) acc =
     (let entry = TrimSpace U raw in
      if entry = [] \<or> HasPrefix entry ''#'' then authorized_loop U S rest acc
      else case ParseAuthorizedKey S entry of
             None \<Rightarrow> Inl (BadAuthorizedKey entry)
           | Some key \<Rightarrow> authorized_loop U S rest (acc @ [key]))"

definition ParseAuthorizedKeys :: "unicode \<Rightarrow> sshlib \<Rightarrow> string list \<Rightarrow> sig_err + ssh_key list" where
  "ParseAuthorizedKeys U S entries = authorized_loop U S entries []"

section \<open>Facts\<close>

lemma sextets_inj:
  assumes "\<forall>n \<in> set ns. n < 256" and "\<forall>n \<in> set ms. n < 256" and "sextets ns = sextets ms"
  shows "ns = ms"
  using octets_sextets [OF assms(1)] octets_sextets [OF assms(2)] assms(3) by (metis option.inject)

lemma b64std_char_inj:
  assumes "m < 64" and "n < 64" and "b64std_char m = b64std_char n"
  shows "m = n"
proof -
  have o: "(of_char (b64std_char k) :: nat) =
      (if k < 26 then 65 + k else if k < 52 then 71 + k else if k < 62 then k - 4 else if k = 62 then 43 else 47)" if "k < 64" for k
    using of_char_b64_char [OF that] that by (simp add: b64std_char_def)
  have "(if m < 26 then 65 + m else if m < 52 then 71 + m else if m < 62 then m - 4 else if m = 62 then 43 else 47)
    = (if n < 26 then 65 + n else if n < 52 then 71 + n else if n < 62 then n - 4 else if n = 62 then 43 else (47 :: nat))"
    using o [OF assms(1)] o [OF assms(2)] unfolding assms(3) by (rule trans [OF sym])
  then show ?thesis using assms(1,2) by (auto split: if_splits)
qed

lemma b64std_char_eq: "n < 64 \<Longrightarrow> b64std_char n \<noteq> CHR ''=''"
proof
  assume n: "n < 64" and e: "b64std_char n = CHR ''=''"
  have "b64_char n \<noteq> CHR ''=''"
    using b64_char_ok [OF n] by (auto simp: b64url_ok_def is_upper_def is_lower_def is_digit_def)
  with e show False by (auto simp: b64std_char_def split: if_splits)
qed

lemma b64std_encode_inj: "b64std_encode s = b64std_encode t \<longleftrightarrow> s = t"
proof
  assume e: "b64std_encode s = b64std_encode t"
  let ?f = "\<lambda>s. map b64std_char (sextets (map of_char s))"
  have b: "\<forall>n \<in> set (map of_char u :: nat list). n < 256" for u :: string by auto
  have "takeWhile (\<lambda>c. c \<noteq> CHR ''='') (b64std_encode u) = ?f u" for u
    using sextets_bound [OF b] b64std_char_eq
    by (subst b64std_encode_def, subst takeWhile_append2) (auto simp: takeWhile_replicate)
  then have "?f s = ?f t" using e by metis
  then have "sextets (map of_char s) = sextets (map of_char t)"
    using sextets_bound [OF b [of s]] sextets_bound [OF b [of t]] b64std_char_inj
    by (intro map_inj_on [of b64std_char]) (auto simp: inj_on_def)
  then have "map (of_char :: char \<Rightarrow> nat) s = map of_char t" using sextets_inj [OF b b] by blast
  then show "s = t" by (rule map_injective) (simp add: inj_def)
qed simp

lemma SameKey_iff [simp]: "SameKey (Some a) (Some b) \<longleftrightarrow> a = b"
  by (simp add: SameKey_def b64std_encode_inj)

lemma VerifySSHSIG_Inr:
  assumes "VerifySSHSIG C S armored message namespace = Inr key"
  obtains w :: wrappedSig and sig digest where "ws_Namespace w = namespace" and "ParsePublicKey S (ws_PublicKey w) = Some key"
    and "hash C (ws_HashAlgorithm w) message = Inr digest"
    and "key_Verify S key (marshal S \<lparr>sd_Namespace = namespace, sd_Reserved = [],
           sd_HashAlgorithm = ws_HashAlgorithm w, sd_Hash = digest\<rparr>) sig"
proof -
  have "\<exists>(w :: wrappedSig) sig digest. ws_Namespace w = namespace \<and> ParsePublicKey S (ws_PublicKey w) = Some key
    \<and> hash C (ws_HashAlgorithm w) message = Inr digest
    \<and> key_Verify S key (marshal S \<lparr>sd_Namespace = namespace, sd_Reserved = [],
           sd_HashAlgorithm = ws_HashAlgorithm w, sd_Hash = digest\<rparr>) sig"
    using assms unfolding VerifySSHSIG_def
    by (auto split: option.splits prod.splits if_splits sum.splits)
  then show ?thesis using that by blast
qed

lemma count_unlines:
  "length (filter (\<lambda>x. x = nl) (unlines ls)) = length ls + sum_list (map (\<lambda>l. length (filter (\<lambda>x. x = nl) l)) ls)"
  by (induction ls) simp_all

lemma unlines_determine:
  assumes "length ls = length ms" and "\<forall>l \<in> set ms. nl \<notin> set l" and "unlines ls = unlines ms"
  shows "ls = ms"
proof -
  have none: "length (filter (\<lambda>x. x = nl) s) = 0 \<longleftrightarrow> nl \<notin> set s" for s by (auto simp: filter_empty_conv)
  have "sum_list (map (\<lambda>l. length (filter (\<lambda>x. x = nl) l)) ms) = 0"
    using assms(2) none by (auto simp: sum_list_eq_0_iff simp del: length_0_conv)
  then have "sum_list (map (\<lambda>l. length (filter (\<lambda>x. x = nl) l)) ls) = 0"
    using count_unlines [of ls] count_unlines [of ms] assms(1) unfolding assms(3) by linarith
  then have "\<forall>l \<in> set ls. nl \<notin> set l" using none by (simp only: sum_list_eq_0_iff) auto
  from unlines_inj [OF this assms(2,3)] show ?thesis .
qed

lemma BootstrapVerify_Inr:
  assumes "BootstrapVerify C U S b armored authorized = Inr key"
  shows "key \<in> set authorized" and "VerifySSHSIG C S armored (Message U b) BootstrapNamespace = Inr key"
  using assms by (auto simp: BootstrapVerify_def split: sum.splits option.splits dest!: find_SomeD)

section \<open>Properties\<close>

text \<open>
  C12: a registration is accepted only on the signature of an authorized key over the message this hub
  rebuilt, made for this purpose: its own token, the host the request came to, and the name and the
  identity that are being registered. The message determines the four of them, so a signature for one
  registration is good for no other; a name or a token that would need a newline to pretend otherwise
  is not the same message.
\<close>

theorem registration_is_authorized:
  assumes "BootstrapVerify C U S b armored authorized = Inr key"
    and "nl \<notin> set (ToLower U (boot_API c)) \<union> set (boot_Token c) \<union> set (boot_Name c) \<union> set (boot_Identity c)"
    and "Message U b = Message U c"
  shows "key \<in> set authorized
    \<and> (\<exists>algorithm digest sig. hash C algorithm (Message U b) = Inr digest \<and> key_Verify S key
         (marshal S \<lparr>sd_Namespace = BootstrapNamespace, sd_Reserved = [], sd_HashAlgorithm = algorithm, sd_Hash = digest\<rparr>) sig)
    \<and> ToLower U (boot_API b) = ToLower U (boot_API c) \<and> boot_Token b = boot_Token c
    \<and> boot_Name b = boot_Name c \<and> boot_Identity b = boot_Identity c"
proof -
  let ?f = "\<lambda>x. [''wrak/v1/bootstrap'', ''api='' @ ToLower U (boot_API x), ''registry_token='' @ boot_Token x,
      ''name='' @ boot_Name x, ''identity='' @ boot_Identity x]"
  have m: "unlines (?f b) = unlines (?f c)" using assms(3) by (simp only: Message_def)
  have "\<forall>l \<in> set (?f c). nl \<notin> set l" using assms(2) by (simp add: nl_def)
  from unlines_determine [OF _ this m]
  have "ToLower U (boot_API b) = ToLower U (boot_API c) \<and> boot_Token b = boot_Token c
      \<and> boot_Name b = boot_Name c \<and> boot_Identity b = boot_Identity c" by simp
  moreover obtain w :: wrappedSig and digest sig where "hash C (ws_HashAlgorithm w) (Message U b) = Inr digest"
    "key_Verify S key (marshal S \<lparr>sd_Namespace = BootstrapNamespace, sd_Reserved = [],
         sd_HashAlgorithm = ws_HashAlgorithm w, sd_Hash = digest\<rparr>) sig"
    using VerifySSHSIG_Inr [OF BootstrapVerify_Inr(2) [OF assms(1)]] by metis
  ultimately show ?thesis using BootstrapVerify_Inr(1) [OF assms(1)] by blast
qed

text \<open>A wire format, armor and keys to run the code on: a signature is the signed data itself.\<close>

definition example_sshlib :: sshlib where
  "example_sshlib = \<lparr>marshal_data = sd_Hash, marshal_wrapped = ws_Signature,
     unmarshal_wrapped = (\<lambda>s. Some \<lparr>ws_Magic = sshsigMagic, ws_Version = 1, ws_PublicKey = ''key'',
       ws_Namespace = BootstrapNamespace, ws_Reserved = [], ws_HashAlgorithm = ''sha512'', ws_Signature = s\<rparr>),
     unmarshal_sig = Some, marshal_sig = (\<lambda>s. s), ParsePublicKey = Some, ParseAuthorizedKey = Some,
     MarshalAuthorizedKey = (\<lambda>k. k), key_Verify = (\<lambda>k blob sig. sig = blob),
     pem_Encode = (\<lambda>t s. s), pem_Decode = (\<lambda>s. Some (pemType, s))\<rparr>"

definition example_bootstrap :: Bootstrap where
  "example_bootstrap = \<lparr>boot_API = ''Hub'', boot_Token = ''t'', boot_Name = ''n'', boot_Identity = ''i''\<rparr>"

theorem registration_is_authorized_witness:
  "''key'' \<in> set [''other'', ''key''] \<and> ToLower no_unicode (boot_API example_bootstrap) = ''hub''"
proof -
  have v: "BootstrapVerify example_crypto no_unicode example_sshlib example_bootstrap
      (sshsigMagic @ Message no_unicode example_bootstrap) [''other'', ''key''] = Inr ''key''"
    by code_simp
  have c: "nl \<notin> set (ToLower no_unicode (boot_API (example_bootstrap\<lparr>boot_API := ''hub''\<rparr>))) \<union> set (boot_Token (example_bootstrap\<lparr>boot_API := ''hub''\<rparr>))
      \<union> set (boot_Name (example_bootstrap\<lparr>boot_API := ''hub''\<rparr>)) \<union> set (boot_Identity (example_bootstrap\<lparr>boot_API := ''hub''\<rparr>))"
    by code_simp
  have m: "Message no_unicode example_bootstrap = Message no_unicode (example_bootstrap\<lparr>boot_API := ''hub''\<rparr>)" by code_simp
  have "ToLower no_unicode (boot_API (example_bootstrap\<lparr>boot_API := ''hub''\<rparr>)) = ''hub''" by code_simp
  with registration_is_authorized [OF v c m] show ?thesis by metis
qed

end
