(* ===== verification/Lighthouse.thy ===== *)
theory Lighthouse
  imports Views
begin

text \<open>
  The lighthouses, \<open>src/internal/hub/lighthouse.go\<close>: the nebula configuration rendered for an
  instance, and the map of the instances whose nebula is running, with the configuration each was
  last loaded from.

  Nebula and the yaml library are not part of the repository. They are the record \<open>nebula\<close>, an
  argument of every operation that calls them: writing and reading a configuration tree, whether a
  configuration loads, whether nebula starts from it, and whether a running nebula takes a new one.
\<close>

datatype yaml =
    YStr string
  | YInt int
  | YBool bool
  | YList "yaml list"
  | YMap "(string \<times> yaml) list"

record nebula =
  yaml_Marshal :: "yaml \<Rightarrow> string option"
  yaml_Unmarshal :: "string \<Rightarrow> yaml option"
  neb_LoadString :: "string \<Rightarrow> bool"
  neb_Main :: "string \<Rightarrow> bool"
  neb_ReloadConfigString :: "string \<Rightarrow> string \<Rightarrow> bool"

record lighthouse =
  lh_cfg :: "string option"

record lighthouses =
  lhs_dns :: bool
  lhs_noTun :: bool
  lhs_running :: "(string, lighthouse) gomap"

section \<open>Rendering\<close>

definition lighthouseDevice :: "Instance \<Rightarrow> string" where
  "lighthouseDevice inst = ''robinet-lh'' @ digits_of (unat (inst_Port inst))"

definition any_rule :: yaml where
  "any_rule = YMap [(''port'', YStr ''any''), (''proto'', YStr ''any''), (''host'', YStr ''any'')]"

definition lighthouse_pki :: "Instance \<Rightarrow> (string \<times> yaml) list" where
  "lighthouse_pki inst =
     [(''ca'', YStr (inst_CACert inst)), (''cert'', YStr (inst_LighthouseCert inst)), (''key'', YStr (inst_LighthouseKey inst))]
     @ (if 0 < length (blockedIn inst) then [(''blocklist'', YList (map YStr (blockedIn inst)))] else [])"

definition lighthouse_tree :: "Instance \<Rightarrow> string \<Rightarrow> bool \<Rightarrow> bool \<Rightarrow> yaml" where
  "lighthouse_tree inst bind dns noTun = YMap
     [(''pki'', YMap (lighthouse_pki inst)),
      (''static_host_map'', YMap []),
      (''lighthouse'', YMap
        [(''am_lighthouse'', YBool True), (''serve_dns'', YBool (dns \<and> \<not> noTun)),
         (''dns'', YMap [(''host'', YStr (AddrString (inst_LighthouseAddress inst))), (''port'', YInt 53)])]),
      (''listen'', YMap [(''host'', YStr bind), (''port'', YInt (int (unat (inst_Port inst))))]),
      (''punchy'', YMap [(''punch'', YBool True), (''respond'', YBool True), (''target_all_remotes'', YBool True)]),
      (''relay'', YMap [(''am_relay'', YBool (inst_Relay inst)), (''use_relays'', YBool False)]),
      (''tun'', YMap [(''dev'', YStr (lighthouseDevice inst)), (''disabled'', YBool noTun)]),
      (''firewall'', YMap [(''outbound'', YList [any_rule]), (''inbound'', YList [any_rule])]),
      (''logging'', YMap [(''level'', YStr ''info''), (''format'', YStr ''text'')])]"

definition lighthouseConfig :: "nebula \<Rightarrow> Instance \<Rightarrow> string \<Rightarrow> bool \<Rightarrow> bool \<Rightarrow> hub_err + string" where
  "lighthouseConfig N inst bind dns noTun =
     (if inst_CACert inst = [] \<or> inst_LighthouseCert inst = [] then Inl (NoCertificateYet (inst_ID inst))
      else case yaml_Marshal N (lighthouse_tree inst bind dns noTun) of
             None \<Rightarrow> Inl YamlFailed
           | Some raw \<Rightarrow> Inr raw)"

definition RedactedKey :: string where
  "RedactedKey = ''<redacted, --show-keys>''"

text \<open>Replacing a key of a tree's map that is there.\<close>

fun redact_tree :: "yaml \<Rightarrow> yaml" where
  "redact_tree (YMap tree) =
     (case map_of tree ''pki'' of
        Some (YMap pki) \<Rightarrow>
          (if map_of pki ''key'' \<noteq> None
           then YMap (AList.update ''pki'' (YMap (AList.update ''key'' (YStr RedactedKey) pki)) tree)
           else YMap tree)
      | _ \<Rightarrow> YMap tree)"
| "redact_tree t = t"

definition RedactKey :: "nebula \<Rightarrow> string \<Rightarrow> hub_err + string" where
  "RedactKey N raw =
     (case yaml_Unmarshal N raw of
        Some (YMap tree) \<Rightarrow>
          (case yaml_Marshal N (redact_tree (YMap tree)) of None \<Rightarrow> Inl YamlFailed | Some out \<Rightarrow> Inr out)
      | _ \<Rightarrow> Inl YamlFailed)"

definition LighthouseConfig :: "nebula \<Rightarrow> Instance \<Rightarrow> Config \<Rightarrow> bool \<Rightarrow> hub_err + string" where
  "LighthouseConfig N inst cfg showKeys =
     (case lighthouseConfig N inst (cfg_NebulaBind cfg) (cfg_DNS cfg) (cfg_NoLighthouseTun cfg) of
        Inl e \<Rightarrow> Inl e
      | Inr raw \<Rightarrow> if showKeys then Inr raw else RedactKey N raw)"

section \<open>Running\<close>

definition startLighthouse :: "nebula \<Rightarrow> Instance \<Rightarrow> string \<Rightarrow> bool \<Rightarrow> bool \<Rightarrow> hub_err + lighthouse" where
  "startLighthouse N inst bind dns noTun =
     (case lighthouseConfig N inst bind dns noTun of
        Inl e \<Rightarrow> Inl e
      | Inr raw \<Rightarrow>
          if \<not> neb_LoadString N raw then Inl ConfigNotLoaded
          else if \<not> neb_Main N raw then Inl NebulaFailed
          else Inr \<lparr>lh_cfg = Some raw\<rparr>)"

definition newLighthouses :: "bool \<Rightarrow> bool \<Rightarrow> lighthouses" where
  "newLighthouses dns noTun = \<lparr>lhs_dns = dns, lhs_noTun = noTun, lhs_running = Some []\<rparr>"

definition start_lh :: "nebula \<Rightarrow> Instance \<Rightarrow> string \<Rightarrow> lighthouses \<Rightarrow> lighthouses \<times> (hub_err, unit) out" where
  "start_lh N inst bind ls =
     (if mget (lhs_running ls) (inst_ID inst) \<noteq> None then (ls, Ret ())
      else case startLighthouse N inst bind (lhs_dns ls) (lhs_noTun ls) of
             Inl e \<Rightarrow> (ls, Fail e)
           | Inr lh \<Rightarrow>
               (case mput (inst_ID inst) lh (lhs_running ls) of
                  None \<Rightarrow> (ls, Panic)
                | Some m \<Rightarrow> (ls\<lparr>lhs_running := m\<rparr>, Ret ())))"

definition reload_lh :: "nebula \<Rightarrow> Instance \<Rightarrow> string \<Rightarrow> lighthouses \<Rightarrow> lighthouses \<times> (hub_err, unit) out" where
  "reload_lh N inst bind ls =
     (case mget (lhs_running ls) (inst_ID inst) of
        None \<Rightarrow> (ls, Ret ())
      | Some lh \<Rightarrow>
          (case lh_cfg lh of
             None \<Rightarrow> (ls, Ret ())
           | Some old \<Rightarrow>
               (case lighthouseConfig N inst bind (lhs_dns ls) (lhs_noTun ls) of
                  Inl e \<Rightarrow> (ls, Fail e)
                | Inr raw \<Rightarrow>
                    if neb_ReloadConfigString N old raw
                    then (ls\<lparr>lhs_running := madjust (inst_ID inst) (\<lambda>l. l\<lparr>lh_cfg := Some raw\<rparr>) (lhs_running ls)\<rparr>, Ret ())
                    else (ls, Fail ReloadFailed))))"

definition stop_lh :: "string \<Rightarrow> lighthouses \<Rightarrow> lighthouses" where
  "stop_lh iid ls = ls\<lparr>lhs_running := mdel iid (lhs_running ls)\<rparr>"

definition stopAll :: "lighthouses \<Rightarrow> lighthouses" where
  "stopAll ls = foldl (\<lambda>l iid. stop_lh iid l) ls (map fst (items (lhs_running ls)))"

definition isRunning :: "string \<Rightarrow> lighthouses \<Rightarrow> bool" where
  "isRunning iid ls \<longleftrightarrow> mget (lhs_running ls) iid \<noteq> None"

section \<open>Facts\<close>

text \<open>What a rendered configuration refuses: the entries of \<open>pki.blocklist\<close>.\<close>

fun ystr :: "yaml \<Rightarrow> string" where
  "ystr (YStr s) = s"
| "ystr _ = []"

fun ymap :: "yaml \<Rightarrow> (string \<times> yaml) list" where
  "ymap (YMap m) = m"
| "ymap _ = []"

fun ylist :: "yaml \<Rightarrow> yaml list" where
  "ylist (YList l) = l"
| "ylist _ = []"

definition tree_blocklist :: "yaml \<Rightarrow> string list" where
  "tree_blocklist t =
     (case map_of (ymap t) ''pki'' of
        None \<Rightarrow> []
      | Some pki \<Rightarrow> (case map_of (ymap pki) ''blocklist'' of None \<Rightarrow> [] | Some b \<Rightarrow> map ystr (ylist b)))"

lemma tree_blocklist_lighthouse: "tree_blocklist (lighthouse_tree i bind dns noTun) = blockedIn i"
  by (simp add: tree_blocklist_def lighthouse_tree_def lighthouse_pki_def comp_def)

text \<open>What the yaml library promises: a tree that was written reads back as it was.\<close>

definition yaml_roundtrip :: "nebula \<Rightarrow> bool" where
  "yaml_roundtrip N \<longleftrightarrow> (\<forall>t raw. yaml_Marshal N t = Some raw \<longrightarrow> yaml_Unmarshal N raw = Some t)"

definition running_blocklist :: "nebula \<Rightarrow> lighthouses \<Rightarrow> string \<Rightarrow> string list option" where
  "running_blocklist N ls iid =
     (case mget (lhs_running ls) iid of
        None \<Rightarrow> None
      | Some lh \<Rightarrow> (case lh_cfg lh of None \<Rightarrow> None | Some raw \<Rightarrow> map_option tree_blocklist (yaml_Unmarshal N raw)))"

definition lhs_ok :: "lighthouses \<Rightarrow> bool" where
  "lhs_ok ls \<longleftrightarrow> lhs_running ls \<noteq> None \<and> wf_map (lhs_running ls)
     \<and> (\<forall>iid lh. mget (lhs_running ls) iid = Some lh \<longrightarrow> lh_cfg lh \<noteq> None)"

lemma newLighthouses_ok: "lhs_ok (newLighthouses dns noTun)"
  by (simp add: lhs_ok_def newLighthouses_def wf_map_def mget_def)

lemma start_lh_ok:
  assumes "lhs_ok ls"
  shows "lhs_ok (fst (start_lh N i bind ls)) \<and> snd (start_lh N i bind ls) \<noteq> Panic"
proof (cases "mget (lhs_running ls) (inst_ID i)")
  case None
  obtain l where l: "lhs_running ls = Some l" using assms by (auto simp: lhs_ok_def)
  show ?thesis
  proof (cases "startLighthouse N i bind (lhs_dns ls) (lhs_noTun ls)")
    case (Inl e)
    with None assms show ?thesis by (simp add: start_lh_def)
  next
    case (Inr lh)
    then have "lh_cfg lh \<noteq> None" by (auto simp: startLighthouse_def split: sum.splits if_splits)
    moreover obtain m where m: "mput (inst_ID i) lh (lhs_running ls) = Some m" "m \<noteq> None" using l by auto
    ultimately show ?thesis
      using None Inr assms wf_map_put [OF m(1)]
      by (auto simp: start_lh_def lhs_ok_def mget_put [OF m(1)] split: if_splits)
  qed
qed (use assms in \<open>simp add: start_lh_def\<close>)

lemma start_lh_running:
  assumes "start_lh N i bind ls = (ls', Ret ())"
  shows "isRunning (inst_ID i) ls'"
proof (cases "mget (lhs_running ls) (inst_ID i)")
  case None
  with assms obtain lh m where m: "mput (inst_ID i) lh (lhs_running ls) = Some m" "ls' = ls\<lparr>lhs_running := m\<rparr>"
    by (auto simp: start_lh_def split: sum.splits option.splits)
  then show ?thesis by (simp add: isRunning_def mget_put [OF m(1)])
next
  case (Some lh)
  with assms show ?thesis by (auto simp: start_lh_def isRunning_def)
qed

lemma start_lh_blocklist:
  assumes "yaml_roundtrip N" and "mget (lhs_running ls) (inst_ID i) = None" and "start_lh N i bind ls = (ls', Ret ())"
  shows "running_blocklist N ls' (inst_ID i) = Some (blockedIn i)"
proof -
  obtain lh m where lh: "startLighthouse N i bind (lhs_dns ls) (lhs_noTun ls) = Inr lh"
    and m: "mput (inst_ID i) lh (lhs_running ls) = Some m" "ls' = ls\<lparr>lhs_running := m\<rparr>"
    using assms(2,3) by (auto simp: start_lh_def split: sum.splits option.splits)
  from lh obtain raw where "lh_cfg lh = Some raw"
    "yaml_Marshal N (lighthouse_tree i bind (lhs_dns ls) (lhs_noTun ls)) = Some raw"
    by (auto simp: startLighthouse_def lighthouseConfig_def split: sum.splits if_splits option.splits)
  with assms(1) m show ?thesis
    by (auto simp: running_blocklist_def yaml_roundtrip_def mget_put [OF m(1)] tree_blocklist_lighthouse)
qed

lemma reload_lh_ok:
  assumes "lhs_ok ls"
  shows "lhs_ok (fst (reload_lh N i bind ls)) \<and> snd (reload_lh N i bind ls) \<noteq> Panic"
  using assms
  by (auto simp: reload_lh_def lhs_ok_def mget_adjust simp del: not_None_eq split: option.splits sum.splits if_splits)

lemma reload_lh_blocklist:
  assumes "yaml_roundtrip N" and "lhs_ok ls" and "isRunning (inst_ID i) ls" and "reload_lh N i bind ls = (ls', Ret ())"
  shows "running_blocklist N ls' (inst_ID i) = Some (blockedIn i)"
proof -
  obtain lh old where lh: "mget (lhs_running ls) (inst_ID i) = Some lh" "lh_cfg lh = Some old"
    using assms(2,3) unfolding isRunning_def lhs_ok_def by blast
  then obtain raw where "yaml_Marshal N (lighthouse_tree i bind (lhs_dns ls) (lhs_noTun ls)) = Some raw"
    and "ls' = ls\<lparr>lhs_running := madjust (inst_ID i) (\<lambda>l. l\<lparr>lh_cfg := Some raw\<rparr>) (lhs_running ls)\<rparr>"
    using assms(4) by (auto simp: reload_lh_def lighthouseConfig_def split: sum.splits if_splits option.splits)
  with assms(1) lh show ?thesis
    by (auto simp: running_blocklist_def yaml_roundtrip_def mget_adjust tree_blocklist_lighthouse)
qed

lemma stop_lh_ok:
  assumes "lhs_ok ls"
  shows "lhs_ok (stop_lh iid ls)" and "\<not> isRunning iid (stop_lh iid ls)"
proof -
  have wf: "wf_map (lhs_running ls)" using assms by (simp add: lhs_ok_def)
  have "mdel iid (lhs_running ls) \<noteq> None" using assms by (cases "lhs_running ls") (auto simp: lhs_ok_def)
  then show "lhs_ok (stop_lh iid ls)"
    using assms wf_map_del [OF wf] by (auto simp: lhs_ok_def stop_lh_def mget_del [OF wf] split: if_splits)
  show "\<not> isRunning iid (stop_lh iid ls)" by (simp add: isRunning_def stop_lh_def mget_del [OF wf])
qed

lemma isRunning_stop: "lhs_ok ls \<Longrightarrow> isRunning x (stop_lh iid ls) \<longleftrightarrow> x \<noteq> iid \<and> isRunning x ls"
  by (simp add: isRunning_def stop_lh_def mget_del lhs_ok_def)

lemma stop_fold:
  assumes "lhs_ok ls"
  shows "lhs_ok (foldl (\<lambda>l iid. stop_lh iid l) ls is)"
    and "isRunning x (foldl (\<lambda>l iid. stop_lh iid l) ls is) \<longleftrightarrow> x \<notin> set is \<and> isRunning x ls"
  using assms by (induction "is" arbitrary: ls) (auto simp: stop_lh_ok isRunning_stop)

section \<open>Properties\<close>

text \<open>
  The configuration nebula is given for an instance refuses exactly the instance's blocklist, and
  exists exactly once both certificates are there; what is printed without \<open>--show-keys\<close> is the same
  tree with the signing key replaced, refusing the same certificates.
\<close>

theorem lighthouse_config_refuses:
  assumes "yaml_roundtrip N" and "LighthouseConfig N inst cfg False = Inr out"
  shows "inst_CACert inst \<noteq> [] \<and> inst_LighthouseCert inst \<noteq> []
    \<and> (\<exists>tree pki. yaml_Unmarshal N out = Some tree \<and> tree_blocklist tree = blockedIn inst
         \<and> map_of (ymap tree) ''pki'' = Some pki \<and> map_of (ymap pki) ''key'' = Some (YStr RedactedKey)
         \<and> map_of (ymap pki) ''ca'' = Some (YStr (inst_CACert inst)))"
proof -
  let ?t = "lighthouse_tree inst (cfg_NebulaBind cfg) (cfg_DNS cfg) (cfg_NoLighthouseTun cfg)"
  obtain raw where c: "inst_CACert inst \<noteq> []" "inst_LighthouseCert inst \<noteq> []" "yaml_Marshal N ?t = Some raw"
    "RedactKey N raw = Inr out"
    using assms(2) by (auto simp: LighthouseConfig_def lighthouseConfig_def split: sum.splits if_splits option.splits)
  then have "yaml_Unmarshal N raw = Some ?t" using assms(1) by (simp add: yaml_roundtrip_def)
  with c(4) have "yaml_Marshal N (redact_tree ?t) = Some out"
    by (auto simp: RedactKey_def lighthouse_tree_def split: option.splits)
  then have "yaml_Unmarshal N out = Some (redact_tree ?t)" using assms(1) by (simp add: yaml_roundtrip_def)
  then show ?thesis
    using c(1,2)
    by (simp add: lighthouse_tree_def lighthouse_pki_def tree_blocklist_def comp_def)
qed

text \<open>A library that can write two trees and nothing else.\<close>

definition two_trees :: "yaml \<Rightarrow> yaml \<Rightarrow> nebula" where
  "two_trees t u = \<lparr>yaml_Marshal = (\<lambda>x. if x = t then Some ''t'' else if x = u then Some ''u'' else None),
     yaml_Unmarshal = (\<lambda>s. if s = ''t'' then Some t else if s = ''u'' then Some u else None),
     neb_LoadString = (\<lambda>_. True), neb_Main = (\<lambda>_. True), neb_ReloadConfigString = (\<lambda>_ _. True)\<rparr>"

lemma two_trees_roundtrip: "yaml_roundtrip (two_trees t u)"
  by (simp add: yaml_roundtrip_def two_trees_def)

definition example_active :: Instance where
  "example_active = example_instance\<lparr>inst_CACert := ''CA'', inst_LighthouseCert := ''CERT''\<rparr>"

theorem lighthouse_config_refuses_witness:
  "\<exists>N out tree. LighthouseConfig N example_active example_config False = Inr out
     \<and> yaml_Unmarshal N out = Some tree \<and> tree_blocklist tree = blockedIn example_active"
proof -
  let ?t = "lighthouse_tree example_active (cfg_NebulaBind example_config) (cfg_DNS example_config)
      (cfg_NoLighthouseTun example_config)"
  define N where "N = two_trees ?t (redact_tree ?t)"
  have ne: "redact_tree ?t \<noteq> ?t"
    by (simp add: lighthouse_tree_def lighthouse_pki_def RedactedKey_def example_active_def example_instance_def)
  have "yaml_Marshal N ?t = Some ''t''" "yaml_Unmarshal N ''t'' = Some ?t" "yaml_Marshal N (redact_tree ?t) = Some ''u''"
    using ne by (simp_all add: N_def two_trees_def)
  moreover obtain tm where "?t = YMap tm" by (simp add: lighthouse_tree_def)
  ultimately have run: "LighthouseConfig N example_active example_config False = Inr ''u''"
    by (simp add: LighthouseConfig_def lighthouseConfig_def RedactKey_def)
      (simp add: example_active_def)
  have rt: "yaml_roundtrip N" by (simp add: N_def two_trees_roundtrip)
  show ?thesis using lighthouse_config_refuses [OF rt run] run by blast
qed

end
