(* ===== verification/Hub.thy ===== *)
theory Hub
  imports Lighthouse
begin

text \<open>
  The hub's operations, \<open>src/internal/hub/hub.go\<close>: creating and activating an instance, taking and
  deciding enrollments, banning, removing, deleting. An operation maps the hub to the hub it leaves
  behind and its outcome; the closures it hands to \<open>Update\<close> are definitions of their own.

  What the operations take from outside is explicit. \<open>env\<close> holds the functions that are not the
  repository's: the Unicode tables, SHA-256, HMAC-SHA256 and nebula. The arguments \<open>io\<close>, \<open>now\<close>, \<open>nid\<close>
  and \<open>hostkey\<close> are the fate of the write to the file, the clock, the random id and the generated key
  pair of one call.
\<close>

record env =
  env_unicode :: unicode
  env_sha256 :: "string \<Rightarrow> string"
  env_hmac :: "string \<Rightarrow> string \<Rightarrow> string"
  env_nebula :: nebula

record Hub =
  hub_cfg :: Config
  hub_store :: Store
  hub_lhs :: lighthouses

record Applicant =
  app_Kind :: string
  app_Identity :: string
  app_Binder :: string
  app_MAC :: string
  app_SourceAddr :: string

definition fingerprintOf :: "env \<Rightarrow> string \<Rightarrow> string" where
  "fingerprintOf V publicKeyPEM = hex_encode (env_sha256 V (join '' '' (Fields (env_unicode V) publicKeyPEM)))"

text \<open>Running a closure on the hub's store.\<close>

definition on_store :: "(Store \<Rightarrow> Store \<times> (hub_err, 'a) out) \<Rightarrow> Hub \<Rightarrow> Hub \<times> (hub_err, 'a) out" where
  "on_store f h = (let (s, r) = f (hub_store h) in (h\<lparr>hub_store := s\<rparr>, r))"

section \<open>Starting\<close>

datatype new_err = InvalidPortRange | PoolRequired | OpenFailed open_err

definition start_all :: "nebula \<Rightarrow> string \<Rightarrow> Instance list \<Rightarrow> lighthouses \<Rightarrow> lighthouses" where
  "start_all N bind is ls =
     foldl (\<lambda>l inst. if inst_LighthouseCert inst = [] then l else fst (start_lh N inst bind l)) ls is"

definition New :: "env \<Rightarrow> Config \<Rightarrow> bool \<Rightarrow> fs \<Rightarrow> new_err + Hub" where
  "New V cfg readable f =
     (if cfg_PortMin cfg = 0 \<or> cfg_PortMax cfg = 0 \<or> cfg_PortMax cfg < cfg_PortMin cfg then Inl InvalidPortRange
      else if length (cfg_Overlays cfg) = 0 then Inl PoolRequired
      else case OpenStore readable f of
             Inl e \<Rightarrow> Inl (OpenFailed e)
           | Inr store \<Rightarrow>
               Inr \<lparr>hub_cfg = cfg, hub_store = store,
                    hub_lhs = start_all (env_nebula V) (cfg_NebulaBind cfg) (ListInstances store)
                      (newLighthouses (cfg_DNS cfg) (cfg_NoLighthouseTun cfg))\<rparr>)"

definition Close :: "Hub \<Rightarrow> Hub" where
  "Close h = h\<lparr>hub_lhs := stopAll (hub_lhs h)\<rparr>"

section \<open>Instances\<close>

lemma unat_next:
  fixes p q :: "'a::len word"
  assumes "p < q"
  shows "unat (p + 1) = unat p + 1"
proof -
  have "unat p < unat q" using assms by (simp add: word_less_nat_alt)
  moreover have "unat q < 2 ^ LENGTH('a)" by (rule unsigned_less)
  ultimately have "unat p + 1 < 2 ^ LENGTH('a)" by linarith
  then show ?thesis by (simp add: unat_word_ariths)
qed

function port_loop :: "16 word list \<Rightarrow> 16 word \<Rightarrow> 16 word \<Rightarrow> 16 word option" where
  "port_loop used p hi =
     (if p \<le> hi then
        if p \<notin> set used then Some p
        else if p = hi then None
        else port_loop used (p + 1) hi
      else None)"
  by pat_completeness auto
termination
proof (relation "measure (\<lambda>(used, p, hi). unat hi - unat p)", goal_cases)
  case (2 used p hi)
  then have "p < hi" by simp
  then have "unat (p + 1) = unat p + 1" and "unat p < unat hi"
    by (simp_all only: unat_next word_less_nat_alt)
  then show ?case by simp
qed simp

declare port_loop.simps [simp del]

definition freePort :: "Hub \<Rightarrow> hub_err + 16 word" where
  "freePort h =
     (case port_loop (UsedPorts (hub_store h)) (cfg_PortMin (hub_cfg h)) (cfg_PortMax (hub_cfg h)) of
        Some p \<Rightarrow> Inr p
      | None \<Rightarrow> Inl (NoFreePort (cfg_PortMin (hub_cfg h)) (cfg_PortMax (hub_cfg h))))"

text \<open>One family of a new instance: its prefix, the lighthouse's address and the owner's.\<close>

definition carve :: "Pool list \<Rightarrow> prefix list \<Rightarrow> ipam_err + (prefix \<times> addr \<times> addr)" where
  "carve pools used =
     (case allocateOverlay pools used of
        Inl e \<Rightarrow> Inl e
      | Inr overlay \<Rightarrow>
          (case reserveLighthouse overlay of
             Inl e \<Rightarrow> Inl e
           | Inr lighthouse \<Rightarrow>
               (case lowestFree overlay [lighthouse] of
                  Inl e \<Rightarrow> Inl e
                | Inr tenant \<Rightarrow> Inr (overlay, lighthouse, tenant))))"

definition owner_member :: "string \<Rightarrow> string \<Rightarrow> string \<Rightarrow> prefix \<Rightarrow> addr \<Rightarrow> prefix \<Rightarrow> addr \<Rightarrow> time \<Rightarrow> Member" where
  "owner_member bndr owner name overlay tenantAddr overlay6 tenantAddr6 now =
     zero_member\<lparr>mem_Kind := KindOwner, mem_Name := name, mem_Identity := owner, mem_Binder := bndr,
       mem_Address := PrefixFrom tenantAddr (pbits overlay), mem_Address6 := prefixOf tenantAddr6 overlay6,
       mem_JoinedAt := now\<rparr>"

text \<open>
  \<open>CreateInstance\<close> up to the call of \<open>Add\<close>: everything it reads from the store is read here, each
  read under a lock of its own that is gone again before the instance is added.
\<close>

definition prepare_instance ::
  "time \<Rightarrow> string \<Rightarrow> (string \<times> string) option \<Rightarrow> string \<Rightarrow> string \<Rightarrow> string \<Rightarrow> string \<Rightarrow> Hub \<Rightarrow> hub_err + Instance" where
  "prepare_instance now nid hostkey bndr owner name sharedToken h =
     (case allocateOverlay (cfg_Overlays (hub_cfg h)) (UsedOverlays (hub_store h)) of
        Inl e \<Rightarrow> Inl (Allocation e)
      | Inr overlay \<Rightarrow>
     (case freePort h of
        Inl e \<Rightarrow> Inl e
      | Inr port \<Rightarrow>
     (case reserveLighthouse overlay of
        Inl e \<Rightarrow> Inl (Allocation e)
      | Inr lighthouseAddr \<Rightarrow>
     (case lowestFree overlay [lighthouseAddr] of
        Inl e \<Rightarrow> Inl (Allocation e)
      | Inr tenantAddr \<Rightarrow>
     (case (if 0 < length (cfg_Overlays6 (hub_cfg h))
            then carve (cfg_Overlays6 (hub_cfg h)) (UsedOverlays6 (hub_store h))
            else Inr (PrefixNone, AddrNone, AddrNone)) of
        Inl e \<Rightarrow> Inl (Allocation e)
      | Inr (overlay6, lighthouseAddr6, tenantAddr6) \<Rightarrow>
     (case hostkey of
        None \<Rightarrow> Inl NoHostKey
      | Some (pubPEM, keyPEM) \<Rightarrow>
          Inr \<lparr>inst_ID = nid, inst_Name = name, inst_Owner = owner, inst_Binder = bndr,
               inst_Overlay = overlay, inst_Overlay6 = overlay6, inst_Port = port,
               inst_LighthouseAddress = lighthouseAddr, inst_LighthouseAddress6 = lighthouseAddr6,
               inst_TenantAddress = tenantAddr, inst_TenantAddress6 = tenantAddr6,
               inst_LighthousePublicKey = pubPEM, inst_LighthouseKey = keyPEM,
               inst_LighthouseCert = [], inst_CACert = [],
               inst_Relay = cfg_Relay (hub_cfg h), inst_SharedToken = sharedToken,
               inst_Allocations = Some [], inst_Allocations6 = Some [], inst_Requests = Some [],
               inst_Members = Some [(owner, owner_member bndr owner name overlay tenantAddr overlay6 tenantAddr6 now)],
               inst_Burned = [], inst_CreatedAt = now\<rparr>))))))"

definition add_instance :: "io_fault option \<Rightarrow> Instance \<Rightarrow> Hub \<Rightarrow> Hub \<times> (hub_err, Instance) out" where
  "add_instance io inst h =
     (case on_store (Add io inst) h of
        (h', Ret _) \<Rightarrow> (h', Ret inst)
      | (h', Fail e) \<Rightarrow> (h', Fail e)
      | (h', Panic) \<Rightarrow> (h', Panic))"

definition CreateInstance ::
  "io_fault option \<Rightarrow> time \<Rightarrow> string \<Rightarrow> (string \<times> string) option \<Rightarrow> string \<Rightarrow> string \<Rightarrow> string \<Rightarrow> string
   \<Rightarrow> Hub \<Rightarrow> Hub \<times> (hub_err, Instance) out" where
  "CreateInstance io now nid hostkey bndr owner name sharedToken h =
     (case prepare_instance now nid hostkey bndr owner name sharedToken h of
        Inl e \<Rightarrow> (h, Fail e)
      | Inr inst \<Rightarrow> add_instance io inst h)"

definition activate_closure :: "unicode \<Rightarrow> string \<Rightarrow> string \<Rightarrow> unit closure" where
  "activate_closure U caCert lighthouseCert inst =
     (if TrimSpace U caCert = [] \<or> TrimSpace U lighthouseCert = [] then (inst, Fail CertificatesRequired)
      else (inst\<lparr>inst_CACert := caCert, inst_LighthouseCert := lighthouseCert\<rparr>, Ret ()))"

definition ActivateInstance ::
  "env \<Rightarrow> io_fault option \<Rightarrow> string \<Rightarrow> string \<Rightarrow> string \<Rightarrow> Hub \<Rightarrow> Hub \<times> (hub_err, unit) out" where
  "ActivateInstance V io iid caCert lighthouseCert h =
     (case on_store (Update io iid (activate_closure (env_unicode V) caCert lighthouseCert)) h of
        (h', Ret _) \<Rightarrow>
          (case Get iid (hub_store h') of
             Ret inst \<Rightarrow>
               (let (ls, r) = start_lh (env_nebula V) inst (cfg_NebulaBind (hub_cfg h')) (stop_lh iid (hub_lhs h'))
                in (h'\<lparr>hub_lhs := ls\<rparr>, r))
           | Fail e \<Rightarrow> (h', Fail e)
           | Panic \<Rightarrow> (h', Panic))
      | (h', Fail e) \<Rightarrow> (h', Fail e)
      | (h', Panic) \<Rightarrow> (h', Panic))"

section \<open>Enrollment\<close>

text \<open>A connector's name is parsed or dropped; a dropped one is kept as a hint.\<close>

definition name_request :: "unicode \<Rightarrow> Applicant \<Rightarrow> Request \<Rightarrow> Request option" where
  "name_request U who req =
     (if app_Kind who = KindConnector \<and> req_Name req \<noteq> [] then
        (case ParseMemberName U (req_Name req) of
           Inr name \<Rightarrow> Some (req\<lparr>req_Name := name\<rparr>)
         | Inl _ \<Rightarrow>
             map_option (\<lambda>hints. req\<lparr>req_Hints := hints, req_Name := []\<rparr>)
               (mput ''asked to be called'' (req_Name req) (ensure (req_Hints req))))
      else Some req)"

definition same_key_request :: "Instance \<Rightarrow> string \<Rightarrow> (string \<times> Record) option" where
  "same_key_request inst fingerprint =
     find (\<lambda>(k, r). rec_Fingerprint r = fingerprint) (items (inst_Requests inst))"

definition refresh_record :: "Request \<Rightarrow> Applicant \<Rightarrow> Record \<Rightarrow> Record" where
  "refresh_record req who existing =
     (let r = existing\<lparr>rec_Request := req, rec_SourceAddr := app_SourceAddr who\<rparr> in
      if rec_Status existing = StatusRejected
      then r\<lparr>rec_Status := StatusPending, rec_Reason := [], rec_DecidedAt := 0\<rparr> else r)"

definition new_record ::
  "time \<Rightarrow> string \<Rightarrow> Request \<Rightarrow> Applicant \<Rightarrow> string \<Rightarrow> Instance \<Rightarrow> addr \<Rightarrow> addr \<Rightarrow> Record" where
  "new_record now nid req who fingerprint inst a a6 =
     \<lparr>rec_ID = nid, rec_Status = StatusPending, rec_Request = req, rec_Fingerprint = fingerprint,
      rec_OverlayAddress = PrefixFrom a (pbits (inst_Overlay inst)),
      rec_OverlayAddress6 = prefixOf a6 (inst_Overlay6 inst),
      rec_SourceAddr = app_SourceAddr who, rec_ReceivedAt = now, rec_DecidedAt = 0,
      rec_Kind = app_Kind who, rec_Identity = app_Identity who, rec_Binder = app_Binder who,
      rec_Bundle = None, rec_Reason = []\<rparr>"

text \<open>The address and the error a call of \<open>allocate\<close> assigns; a panic leaves neither.\<close>

fun out_addr :: "(ipam_err, addr) out \<Rightarrow> addr" where
  "out_addr (Ret a) = a"
| "out_addr (Fail _) = AddrNone"
| "out_addr Panic = AddrNone"

fun out_err :: "(ipam_err, addr) out \<Rightarrow> ipam_err option" where
  "out_err (Fail e) = Some e"
| "out_err (Ret _) = None"
| "out_err Panic = None"

definition enroll_closure ::
  "env \<Rightarrow> time \<Rightarrow> string \<Rightarrow> Request \<Rightarrow> Applicant \<Rightarrow> string \<Rightarrow> Record option closure" where
  "enroll_closure V now nid req who fingerprint inst =
     (if app_Kind who = KindConnector \<and> inst_SharedToken inst \<noteq> []
          \<and> \<not> VerifyMAC (env_hmac V) (env_unicode V) req (inst_SharedToken inst) (app_MAC who)
      then (inst, Fail BadAuthentication)
      else if burned inst fingerprint then (inst, Fail (KeyRemoved (inst_Name inst)))
      else (case same_key_request inst fingerprint of
        Some (k, existing) \<Rightarrow>
          (inst\<lparr>inst_Requests := madjust k (\<lambda>_. refresh_record req who existing) (inst_Requests inst)\<rparr>,
           Ret (Some (refresh_record req who existing)))
      | None \<Rightarrow>
          (let (inst4, r4) = allocate inst fingerprint (app_Kind who);
               (inst6, r6) = allocate6 inst4 fingerprint (app_Kind who)
           in if r4 = Panic then (inst4, Panic)
              else if r6 = Panic then (inst6, Panic)
              else if \<not> IsValid (out_addr r4) \<and> \<not> IsValid (out_addr r6) then
                (case (out_err r4, out_err r6) of
                   (Some e, _) \<Rightarrow> (inst6, Fail (Allocation e))
                 | (None, Some e) \<Rightarrow> (inst6, Fail (Allocation e))
                 | (None, None) \<Rightarrow> (inst6, Ret None))
              else
                (let record = new_record now nid req who fingerprint inst6 (out_addr r4) (out_addr r6) in
                 case mput nid record (inst_Requests inst6) of
                   None \<Rightarrow> (inst6, Panic)
                 | Some m \<Rightarrow> (inst6\<lparr>inst_Requests := m\<rparr>, Ret (Some record))))))"

definition owns_already :: "env \<Rightarrow> Hub \<Rightarrow> string \<Rightarrow> Applicant \<Rightarrow> string option" where
  "owns_already V h ref who =
     (if app_Kind who = KindTenant \<and> app_Identity who \<noteq> [] then
        (case Resolve (env_unicode V) ref (hub_store h) of
           Ret inst \<Rightarrow> if inst_Owner inst = app_Identity who then Some (inst_Name inst) else None
         | Fail _ \<Rightarrow> None
         | Panic \<Rightarrow> None)
      else None)"

definition Enroll ::
  "env \<Rightarrow> io_fault option \<Rightarrow> time \<Rightarrow> string \<Rightarrow> string \<Rightarrow> Request \<Rightarrow> Applicant \<Rightarrow> Hub \<Rightarrow> Hub \<times> (hub_err, Record option) out" where
  "Enroll V io now nid ref req0 who h =
     (case Validate (env_unicode V) req0 of
        Inl e \<Rightarrow> (h, Fail (BadRequest e))
      | Inr req1 \<Rightarrow>
     (case name_request (env_unicode V) who req1 of
        None \<Rightarrow> (h, Panic)
      | Some req \<Rightarrow>
     (case owns_already V h ref who of
        Some name \<Rightarrow> (h, Fail (OwnsInstance name))
      | None \<Rightarrow>
          if app_Kind who = KindTenant \<and> 0 < length (req_Routes req) then (h, Fail TenantAnnouncesRoutes)
          else (case Resolve (env_unicode V) ref (hub_store h) of
                  Fail e \<Rightarrow> (h, Fail e)
                | Panic \<Rightarrow> (h, Panic)
                | Ret target \<Rightarrow>
                    on_store (Update io (inst_ID target)
                      (enroll_closure V now nid req who (fingerprintOf V (req_PublicKey req)))) h))))"

definition ResultOf :: "env \<Rightarrow> string \<Rightarrow> string \<Rightarrow> Hub \<Rightarrow> (hub_err, Result) out" where
  "ResultOf V ref requestID h =
     (case Resolve (env_unicode V) ref (hub_store h) of
        Fail e \<Rightarrow> Fail e
      | Panic \<Rightarrow> Panic
      | Ret inst \<Rightarrow>
          (case mget (inst_Requests inst) requestID of
             None \<Rightarrow> Fail ErrNotFound
           | Some record \<Rightarrow>
               Ret (if rec_Status record = StatusApproved
                    then \<lparr>res_Status = rec_Status record, res_RetryAfter = 0,
                          res_Bundle = withBlocklist (rec_Bundle record) inst, res_Reason = rec_Reason record\<rparr>
                    else \<lparr>res_Status = rec_Status record, res_RetryAfter = 30,
                          res_Bundle = None, res_Reason = rec_Reason record\<rparr>)))"

definition Pending :: "string \<Rightarrow> Hub \<Rightarrow> (hub_err, Record list) out" where
  "Pending instanceID h =
     (case Get instanceID (hub_store h) of
        Fail e \<Rightarrow> Fail e
      | Panic \<Rightarrow> Panic
      | Ret inst \<Rightarrow> Ret (filter (\<lambda>r. rec_Status r = StatusPending) (vals (inst_Requests inst))))"

section \<open>Decisions\<close>

definition approved_bundle :: "Config \<Rightarrow> Instance \<Rightarrow> Record \<Rightarrow> Bundle \<Rightarrow> Bundle" where
  "approved_bundle cfg inst record bundle =
     bundle\<lparr>bnd_OverlayAddress := rec_OverlayAddress record, bnd_OverlayAddress6 := rec_OverlayAddress6 record,
       bnd_Lighthouse := \<lparr>lh_OverlayAddress = inst_LighthouseAddress inst, lh_OverlayAddress6 = inst_LighthouseAddress6 inst,
         lh_Endpoints = [JoinHostPort (cfg_PublicEndpoint cfg) (digits_of (unat (inst_Port inst)))],
         lh_Relay = inst_Relay inst\<rparr>,
       bnd_MTU := (if bnd_MTU bundle = 0 then cfg_MTU cfg else bnd_MTU bundle),
       bnd_Instance := (if bnd_Instance bundle = [] then inst_Name inst else bnd_Instance bundle),
       bnd_Blocked := blockedIn inst\<rparr>"

definition decided_member :: "time \<Rightarrow> Record \<Rightarrow> string \<Rightarrow> Decision \<Rightarrow> Member" where
  "decided_member now record name d =
     \<lparr>mem_Kind = rec_Kind record, mem_Name = name, mem_Fingerprint = rec_Fingerprint record,
      mem_Identity = rec_Identity record, mem_Binder = rec_Binder record,
      mem_Address = rec_OverlayAddress record, mem_Address6 = rec_OverlayAddress6 record,
      mem_Routes = dec_Routes d, mem_Domain = dec_Domain d, mem_CertFingerprint = dec_CertFingerprint d,
      mem_Events = [], mem_JoinedAt = now\<rparr>"

definition name_holder :: "Instance \<Rightarrow> string \<Rightarrow> string \<Rightarrow> (string \<times> Member) option" where
  "name_holder inst fingerprint name =
     find (\<lambda>(fp, m). fp \<noteq> fingerprint \<and> mem_Name m = name \<and> name \<noteq> []) (items (inst_Members inst))"

definition set_record :: "string \<Rightarrow> (Record \<Rightarrow> Record) \<Rightarrow> Instance \<Rightarrow> Instance" where
  "set_record rid f inst = inst\<lparr>inst_Requests := madjust rid f (inst_Requests inst)\<rparr>"

definition decide_closure :: "Config \<Rightarrow> time \<Rightarrow> string \<Rightarrow> Decision \<Rightarrow> unit closure" where
  "decide_closure cfg now requestID d inst =
     (case mget (inst_Requests inst) requestID of
        None \<Rightarrow> (inst, Fail ErrNotFound)
      | Some record \<Rightarrow>
          if dec_Status d = StatusApproved then
            (case dec_Bundle d of
               None \<Rightarrow> (inst, Fail ApprovalNeedsCertificate)
             | Some b \<Rightarrow>
                 if bnd_Certificate b = [] then (inst, Fail ApprovalNeedsCertificate)
                 else
                   (let inst1 = set_record requestID
                          (\<lambda>r. r\<lparr>rec_Bundle := Some (approved_bundle cfg inst record b), rec_Status := StatusApproved\<rparr>) inst;
                        inst2 = inst1\<lparr>inst_Members := ensure (inst_Members inst1)\<rparr>;
                        name = (if dec_Name d = [] then req_Name (rec_Request record) else dec_Name d)
                    in case name_holder inst2 (rec_Fingerprint record) name of
                         Some (fp, m) \<Rightarrow> (inst2, Fail (MemberNameTaken (mem_Kind m) name))
                       | None \<Rightarrow>
                           (case mput (rec_Fingerprint record) (decided_member now record name d) (inst_Members inst2) of
                              None \<Rightarrow> (inst2, Panic)
                            | Some ms \<Rightarrow>
                                (set_record requestID (\<lambda>r. r\<lparr>rec_DecidedAt := now\<rparr>) (inst2\<lparr>inst_Members := ms\<rparr>), Ret ()))))
          else if dec_Status d = StatusRejected then
            (set_record requestID
               (\<lambda>r. r\<lparr>rec_Status := StatusRejected, rec_Bundle := None, rec_Reason := dec_Reason d, rec_DecidedAt := now\<rparr>) inst,
             Ret ())
          else (inst, Fail (UnknownDecision (dec_Status d))))"

definition Decide :: "io_fault option \<Rightarrow> time \<Rightarrow> string \<Rightarrow> string \<Rightarrow> Decision \<Rightarrow> Hub \<Rightarrow> Hub \<times> (hub_err, unit) out" where
  "Decide io now instanceID requestID d h =
     on_store (Update io instanceID (decide_closure (hub_cfg h) now requestID d)) h"

definition forget_closure :: "string \<Rightarrow> unit closure" where
  "forget_closure requestID inst =
     (if mget (inst_Requests inst) requestID = None then (inst, Fail ErrNotFound)
      else (inst\<lparr>inst_Requests := mdel requestID (inst_Requests inst)\<rparr>, Ret ()))"

definition Forget :: "io_fault option \<Rightarrow> string \<Rightarrow> string \<Rightarrow> Hub \<Rightarrow> Hub \<times> (hub_err, unit) out" where
  "Forget io instanceID requestID h = on_store (Update io instanceID (forget_closure requestID)) h"

definition Routes :: "string \<Rightarrow> Hub \<Rightarrow> (hub_err, RouteTable) out" where
  "Routes iid h =
     (case Get iid (hub_store h) of
        Ret inst \<Rightarrow> Ret (RouteTableOf (hub_cfg h) inst)
      | Fail e \<Rightarrow> Fail e
      | Panic \<Rightarrow> Panic)"

definition Delete :: "io_fault option \<Rightarrow> string \<Rightarrow> Hub \<Rightarrow> Hub \<times> (hub_err, unit) out" where
  "Delete io instanceID h =
     (case Get instanceID (hub_store h) of
        Fail e \<Rightarrow> (h, Fail e)
      | Panic \<Rightarrow> (h, Panic)
      | Ret inst \<Rightarrow> on_store (Remove io (inst_ID inst)) (h\<lparr>hub_lhs := stop_lh (inst_ID inst) (hub_lhs h)\<rparr>))"

section \<open>Bans\<close>

definition add_event :: "string \<Rightarrow> string \<Rightarrow> time \<Rightarrow> Member \<Rightarrow> Member" where
  "add_event kind note now m = m\<lparr>mem_Events := mem_Events m @ [\<lparr>ev_Kind = kind, ev_Note = note, ev_At = now\<rparr>]\<rparr>"

definition ban_closure :: "time \<Rightarrow> string \<Rightarrow> string \<Rightarrow> unit closure" where
  "ban_closure now ref note inst =
     (case memberIn inst ref of
        Inl e \<Rightarrow> (inst, Fail e)
      | Inr (fp, m) \<Rightarrow>
          if Banned m then (inst, Fail (AlreadyBanned (mem_Name m)))
          else (inst\<lparr>inst_Members := madjust fp (add_event EventBan note now) (inst_Members inst)\<rparr>, Ret ()))"

definition unban_closure :: "time \<Rightarrow> string \<Rightarrow> string \<Rightarrow> unit closure" where
  "unban_closure now ref note inst =
     (case memberIn inst ref of
        Inl e \<Rightarrow> (inst, Fail e)
      | Inr (fp, m) \<Rightarrow>
          if \<not> Banned m then (inst, Fail (NotBanned (mem_Name m)))
          else (inst\<lparr>inst_Members := madjust fp (add_event EventUnban note now) (inst_Members inst)\<rparr>, Ret ()))"

definition applyBlocklist :: "env \<Rightarrow> string \<Rightarrow> Hub \<Rightarrow> Hub \<times> (hub_err, unit) out" where
  "applyBlocklist V instanceID h =
     (case Get instanceID (hub_store h) of
        Fail e \<Rightarrow> (h, Fail e)
      | Panic \<Rightarrow> (h, Panic)
      | Ret inst \<Rightarrow>
          (case reload_lh (env_nebula V) inst (cfg_NebulaBind (hub_cfg h)) (hub_lhs h) of
             (ls, Ret _) \<Rightarrow> (h\<lparr>hub_lhs := ls\<rparr>, Ret ())
           | (ls, Fail e) \<Rightarrow> (h\<lparr>hub_lhs := ls\<rparr>, Fail (BlocklistNotTaken e))
           | (ls, Panic) \<Rightarrow> (h\<lparr>hub_lhs := ls\<rparr>, Panic)))"

definition and_then :: "Hub \<times> (hub_err, 'a) out \<Rightarrow> (Hub \<Rightarrow> Hub \<times> (hub_err, 'b) out) \<Rightarrow> Hub \<times> (hub_err, 'b) out" where
  "and_then x f = (case x of (h, Ret _) \<Rightarrow> f h | (h, Fail e) \<Rightarrow> (h, Fail e) | (h, Panic) \<Rightarrow> (h, Panic))"

definition Ban :: "env \<Rightarrow> io_fault option \<Rightarrow> time \<Rightarrow> string \<Rightarrow> string \<Rightarrow> string \<Rightarrow> Hub \<Rightarrow> Hub \<times> (hub_err, unit) out" where
  "Ban V io now instanceID ref note h =
     and_then (on_store (Update io instanceID (ban_closure now ref note)) h) (applyBlocklist V instanceID)"

definition Unban :: "env \<Rightarrow> io_fault option \<Rightarrow> time \<Rightarrow> string \<Rightarrow> string \<Rightarrow> string \<Rightarrow> Hub \<Rightarrow> Hub \<times> (hub_err, unit) out" where
  "Unban V io now instanceID ref note h =
     and_then (on_store (Update io instanceID (unban_closure now ref note)) h) (applyBlocklist V instanceID)"

definition drop_requests :: "string \<Rightarrow> (string, Record) gomap \<Rightarrow> (string, Record) gomap" where
  "drop_requests fp m = map_option (filter (\<lambda>(k, r). rec_Fingerprint r \<noteq> fp)) m"

definition remove_closure :: "string \<Rightarrow> Member closure" where
  "remove_closure ref inst =
     (case memberIn inst ref of
        Inl e \<Rightarrow> (inst, Fail e)
      | Inr (fp, m) \<Rightarrow>
          if mem_Kind m = KindOwner then (inst, Fail (OwnerStays (mem_Name m)))
          else if \<not> Banned m then (inst, Fail (BanFirst (mem_Name m)))
          else
            (inst\<lparr>inst_Burned := inst_Burned inst @ [\<lparr>bur_Fingerprint = fp, bur_CertFingerprint = mem_CertFingerprint m\<rparr>],
                 inst_Members := mdel fp (inst_Members inst),
                 inst_Allocations := mdel fp (inst_Allocations inst),
                 inst_Allocations6 := mdel fp (inst_Allocations6 inst),
                 inst_Requests := drop_requests fp (inst_Requests inst)\<rparr>, Ret m))"

definition RemoveMember :: "io_fault option \<Rightarrow> string \<Rightarrow> string \<Rightarrow> Hub \<Rightarrow> Hub \<times> (hub_err, Member) out" where
  "RemoveMember io instanceID ref h = on_store (Update io instanceID (remove_closure ref)) h"

definition token_closure :: "string \<Rightarrow> unit closure" where
  "token_closure token inst = (inst\<lparr>inst_SharedToken := token\<rparr>, Ret ())"

definition SetSharedToken :: "io_fault option \<Rightarrow> string \<Rightarrow> string \<Rightarrow> Hub \<Rightarrow> Hub \<times> (hub_err, unit) out" where
  "SetSharedToken io instanceID token h =
     (if token = [] then (h, Fail TokenRequired)
      else on_store (Update io instanceID (token_closure token)) h)"

definition Members :: "string \<Rightarrow> Hub \<Rightarrow> (hub_err, Member list) out" where
  "Members iid h =
     (case Get iid (hub_store h) of
        Ret inst \<Rightarrow> Ret (sort_key mem_Name (vals (inst_Members inst)))
      | Fail e \<Rightarrow> Fail e
      | Panic \<Rightarrow> Panic)"

end
