(* ===== verification/HubInv.thy ===== *)
theory HubInv
  imports Hub
begin

text \<open>
  The invariant of an instance and that every closure of the hub keeps it: addresses are handed out
  once, names are unique among members, a burned key is nowhere in the instance, and a request is
  either waiting or decided with the bundle that goes with its status.

  Closures that touch none of this (\<open>similar\<close>) are dealt with at once; the four that do, enrolling,
  approving, forgetting and removing, have a lemma each. The locale \<open>instance_invariant\<close> lifts the
  whole to the store.
\<close>

section \<open>The invariant\<close>

definition plan4_ok :: "Instance \<Rightarrow> bool" where
  "plan4_ok i \<longleftrightarrow> wf_prefix (inst_Overlay i)
     \<and> addr_plan (inst_Overlay i) [inst_LighthouseAddress i, inst_TenantAddress i] (inst_Allocations i)
     \<and> inst_LighthouseAddress i \<in> hosts (inst_Overlay i) \<and> inst_TenantAddress i \<in> hosts (inst_Overlay i)
     \<and> inst_LighthouseAddress i \<noteq> inst_TenantAddress i"

definition plan6_ok :: "Instance \<Rightarrow> bool" where
  "plan6_ok i \<longleftrightarrow>
     (if PrefixIsValid (inst_Overlay6 i)
      then wf_prefix (inst_Overlay6 i)
        \<and> addr_plan (inst_Overlay6 i) [inst_LighthouseAddress6 i, inst_TenantAddress6 i] (inst_Allocations6 i)
        \<and> inst_LighthouseAddress6 i \<in> hosts (inst_Overlay6 i) \<and> inst_TenantAddress6 i \<in> hosts (inst_Overlay6 i)
        \<and> inst_LighthouseAddress6 i \<noteq> inst_TenantAddress6 i
      else wf_map (inst_Allocations6 i) \<and> (\<forall>fp. mget (inst_Allocations6 i) fp = None)
        \<and> inst_LighthouseAddress6 i = AddrNone \<and> inst_TenantAddress6 i = AddrNone)"

text \<open>An address somebody uses is the one the table has for its key, or none.\<close>

definition holder :: "(string, addr) gomap \<Rightarrow> string \<Rightarrow> addr \<Rightarrow> bool" where
  "holder table fp a \<longleftrightarrow> a = AddrNone \<or> mget table fp = Some a"

definition member_ok :: "Instance \<Rightarrow> string \<Rightarrow> Member \<Rightarrow> bool" where
  "member_ok i fp m \<longleftrightarrow>
     (if fp = inst_Owner i
      then mem_Kind m = KindOwner \<and> paddr (mem_Address m) = inst_TenantAddress i
        \<and> paddr (mem_Address6 m) = inst_TenantAddress6 i
      else mem_Kind m \<noteq> KindOwner \<and> mem_Fingerprint m = fp \<and> list_all alnum fp
        \<and> holder (inst_Allocations i) fp (paddr (mem_Address m))
        \<and> holder (inst_Allocations6 i) fp (paddr (mem_Address6 m)))"

definition names_unique :: "(string, Member) gomap \<Rightarrow> bool" where
  "names_unique ms \<longleftrightarrow> (\<forall>fp gp m n. mget ms fp = Some m \<longrightarrow> mget ms gp = Some n
     \<longrightarrow> mem_Name m = mem_Name n \<longrightarrow> mem_Name m \<noteq> [] \<longrightarrow> fp = gp)"

definition members_ok :: "Instance \<Rightarrow> bool" where
  "members_ok i \<longleftrightarrow> wf_map (inst_Members i) \<and> \<not> list_all alnum (inst_Owner i)
     \<and> mget (inst_Members i) (inst_Owner i) \<noteq> None
     \<and> (\<forall>fp m. mget (inst_Members i) fp = Some m \<longrightarrow> member_ok i fp m)
     \<and> names_unique (inst_Members i)"

definition status_ok :: "Record \<Rightarrow> bool" where
  "status_ok r \<longleftrightarrow> rec_Status r \<in> {StatusPending, StatusApproved, StatusRejected}
     \<and> (rec_Bundle r \<noteq> None \<longleftrightarrow> rec_Status r = StatusApproved)"

definition request_ok :: "Instance \<Rightarrow> string \<Rightarrow> Record \<Rightarrow> bool" where
  "request_ok i k r \<longleftrightarrow> rec_ID r = k \<and> list_all alnum (rec_Fingerprint r) \<and> rec_Kind r \<noteq> KindOwner
     \<and> holder (inst_Allocations i) (rec_Fingerprint r) (paddr (rec_OverlayAddress r))
     \<and> holder (inst_Allocations6 i) (rec_Fingerprint r) (paddr (rec_OverlayAddress6 r)) \<and> status_ok r"

definition one_per_key :: "(string, Record) gomap \<Rightarrow> bool" where
  "one_per_key rs \<longleftrightarrow> (\<forall>k l r q. mget rs k = Some r \<longrightarrow> mget rs l = Some q
     \<longrightarrow> rec_Fingerprint r = rec_Fingerprint q \<longrightarrow> k = l)"

definition requests_ok :: "Instance \<Rightarrow> bool" where
  "requests_ok i \<longleftrightarrow> wf_map (inst_Requests i)
     \<and> (\<forall>k r. mget (inst_Requests i) k = Some r \<longrightarrow> request_ok i k r)
     \<and> one_per_key (inst_Requests i)"

definition absent :: "Instance \<Rightarrow> string \<Rightarrow> bool" where
  "absent i fp \<longleftrightarrow> mget (inst_Members i) fp = None \<and> mget (inst_Allocations i) fp = None
     \<and> mget (inst_Allocations6 i) fp = None
     \<and> (\<forall>k r. mget (inst_Requests i) k = Some r \<longrightarrow> rec_Fingerprint r \<noteq> fp)"

definition burned_ok :: "Instance \<Rightarrow> bool" where
  "burned_ok i \<longleftrightarrow> (\<forall>fp. burned i fp \<longrightarrow> absent i fp)"

definition inst_ok :: "Instance \<Rightarrow> bool" where
  "inst_ok i \<longleftrightarrow> plan4_ok i \<and> plan6_ok i \<and> members_ok i \<and> requests_ok i \<and> burned_ok i"

section \<open>Changes the invariant does not see\<close>

definition member_like :: "Member \<Rightarrow> Member \<Rightarrow> bool" where
  "member_like m n \<longleftrightarrow> mem_Kind n = mem_Kind m \<and> mem_Name n = mem_Name m \<and> mem_Fingerprint n = mem_Fingerprint m
     \<and> mem_Address n = mem_Address m \<and> mem_Address6 n = mem_Address6 m"

definition record_like :: "Record \<Rightarrow> Record \<Rightarrow> bool" where
  "record_like r q \<longleftrightarrow> rec_ID q = rec_ID r \<and> rec_Fingerprint q = rec_Fingerprint r \<and> rec_Kind q = rec_Kind r
     \<and> rec_OverlayAddress q = rec_OverlayAddress r \<and> rec_OverlayAddress6 q = rec_OverlayAddress6 r
     \<and> (status_ok r \<longrightarrow> status_ok q)"

definition similar :: "Instance \<Rightarrow> Instance \<Rightarrow> bool" where
  "similar i j \<longleftrightarrow> inst_Owner j = inst_Owner i \<and> inst_Overlay j = inst_Overlay i \<and> inst_Overlay6 j = inst_Overlay6 i
     \<and> inst_LighthouseAddress j = inst_LighthouseAddress i \<and> inst_LighthouseAddress6 j = inst_LighthouseAddress6 i
     \<and> inst_TenantAddress j = inst_TenantAddress i \<and> inst_TenantAddress6 j = inst_TenantAddress6 i
     \<and> inst_Burned j = inst_Burned i
     \<and> (wf_map (inst_Allocations i) \<longrightarrow> wf_map (inst_Allocations j) \<and> (\<forall>k. mget (inst_Allocations j) k = mget (inst_Allocations i) k))
     \<and> (wf_map (inst_Allocations6 i) \<longrightarrow> wf_map (inst_Allocations6 j) \<and> (\<forall>k. mget (inst_Allocations6 j) k = mget (inst_Allocations6 i) k))
     \<and> (wf_map (inst_Members i) \<longrightarrow> wf_map (inst_Members j)
          \<and> (\<forall>k. rel_option member_like (mget (inst_Members i) k) (mget (inst_Members j) k)))
     \<and> (wf_map (inst_Requests i) \<longrightarrow> wf_map (inst_Requests j)
          \<and> (\<forall>k. rel_option record_like (mget (inst_Requests i) k) (mget (inst_Requests j) k)))"

lemma member_like_refl [simp]: "member_like m m" and record_like_refl [simp]: "record_like r r"
  by (simp_all add: member_like_def record_like_def)

lemma rel_option_refl_like [simp]: "rel_option member_like x x" "rel_option record_like y y"
  by (cases x; simp) (cases y; simp)

lemma rel_back:
  "rel_option R x y \<Longrightarrow> y = Some b \<Longrightarrow> \<exists>a. x = Some a \<and> R a b"
  "rel_option R x y \<Longrightarrow> x = None \<longleftrightarrow> y = None"
  by (cases x; cases y; simp)+

lemma addr_plan_cong:
  assumes "addr_plan p fixed t" and "wf_map u" and "\<And>k. mget u k = mget t k"
  shows "addr_plan p fixed u"
  using assms by (simp add: addr_plan_def)

lemma similar_members:
  assumes s: "similar i j" and ok: "members_ok i" and al: "wf_map (inst_Allocations i)" "wf_map (inst_Allocations6 i)"
  shows "members_ok j"
proof -
  have wf: "wf_map (inst_Members j)"
    and rel: "\<And>k. rel_option member_like (mget (inst_Members i) k) (mget (inst_Members j) k)"
    using s ok by (auto simp: similar_def members_ok_def)
  have o: "inst_Owner j = inst_Owner i" using s by (simp add: similar_def)
  have mem: "member_ok j fp n \<and> (\<exists>m. mget (inst_Members i) fp = Some m \<and> mem_Name m = mem_Name n)"
    if n: "mget (inst_Members j) fp = Some n" for fp n
  proof -
    obtain m where m: "mget (inst_Members i) fp = Some m" "member_like m n" using rel_back(1) [OF rel n] by blast
    then have "member_ok i fp m" using ok by (simp add: members_ok_def)
    moreover have "holder (inst_Allocations j) fp a = holder (inst_Allocations i) fp a"
      "holder (inst_Allocations6 j) fp a = holder (inst_Allocations6 i) fp a" for a
      using s al by (simp_all add: similar_def holder_def)
    ultimately show ?thesis using m s by (simp add: member_ok_def member_like_def similar_def)
  qed
  have "names_unique (inst_Members j)"
    unfolding names_unique_def
  proof (intro allI impI)
    fix fp gp m n
    assume a: "mget (inst_Members j) fp = Some m" "mget (inst_Members j) gp = Some n"
      "mem_Name m = mem_Name n" "mem_Name m \<noteq> []"
    obtain m' n' where "mget (inst_Members i) fp = Some m'" "mget (inst_Members i) gp = Some n'"
      "mem_Name m' = mem_Name m" "mem_Name n' = mem_Name n"
      using mem [OF a(1)] mem [OF a(2)] by auto
    with a ok show "fp = gp" by (auto simp: members_ok_def names_unique_def)
  qed
  moreover have "mget (inst_Members j) (inst_Owner i) \<noteq> None"
    using rel_back(2) [OF rel] ok by (simp add: members_ok_def)
  ultimately show ?thesis using wf o mem ok by (simp add: members_ok_def)
qed

lemma similar_requests:
  assumes s: "similar i j" and ok: "requests_ok i" and al: "wf_map (inst_Allocations i)" "wf_map (inst_Allocations6 i)"
  shows "requests_ok j"
proof -
  have wf: "wf_map (inst_Requests j)"
    and rel: "\<And>k. rel_option record_like (mget (inst_Requests i) k) (mget (inst_Requests j) k)"
    using s ok by (auto simp: similar_def requests_ok_def)
  have req: "request_ok j k q \<and> (\<exists>r. mget (inst_Requests i) k = Some r \<and> rec_Fingerprint r = rec_Fingerprint q)"
    if q: "mget (inst_Requests j) k = Some q" for k q
  proof -
    obtain r where r: "mget (inst_Requests i) k = Some r" "record_like r q" using rel_back(1) [OF rel q] by blast
    then have "request_ok i k r" using ok by (simp add: requests_ok_def)
    with r s al show ?thesis by (auto simp: request_ok_def record_like_def similar_def holder_def)
  qed
  have "one_per_key (inst_Requests j)"
    unfolding one_per_key_def
  proof (intro allI impI)
    fix k l r q
    assume a: "mget (inst_Requests j) k = Some r" "mget (inst_Requests j) l = Some q" "rec_Fingerprint r = rec_Fingerprint q"
    obtain r' q' where "mget (inst_Requests i) k = Some r'" "mget (inst_Requests i) l = Some q'"
      "rec_Fingerprint r' = rec_Fingerprint q'"
      using req [OF a(1)] req [OF a(2)] a(3) by auto
    with ok show "k = l" by (auto simp: requests_ok_def one_per_key_def)
  qed
  then show ?thesis using wf req by (simp add: requests_ok_def)
qed

lemma plan6_wf: "plan6_ok i \<Longrightarrow> wf_map (inst_Allocations6 i)"
  by (auto simp: plan6_ok_def addr_plan_def split: if_splits)

lemma plan4_wf: "plan4_ok i \<Longrightarrow> wf_map (inst_Allocations i)"
  by (simp add: plan4_ok_def addr_plan_def)

lemma similar_ok:
  assumes s: "similar i j" and ok: "inst_ok i"
  shows "inst_ok j"
proof -
  have al: "wf_map (inst_Allocations i)" "wf_map (inst_Allocations6 i)"
    using ok plan4_wf plan6_wf by (auto simp: inst_ok_def)
  have "plan4_ok j"
    using s ok al by (auto simp: inst_ok_def plan4_ok_def similar_def intro: addr_plan_cong)
  moreover have "plan6_ok j"
    using s ok al by (auto simp: inst_ok_def plan6_ok_def similar_def intro: addr_plan_cong)
  moreover have "members_ok j" "requests_ok j"
    using similar_members [OF s _ al] similar_requests [OF s _ al] ok by (auto simp: inst_ok_def)
  moreover have "burned_ok j"
    unfolding burned_ok_def
  proof (intro allI impI)
    fix fp
    assume "burned j fp"
    then have a: "absent i fp" using s ok by (simp add: similar_def burned_def inst_ok_def burned_ok_def)
    have rel: "\<And>k. rel_option member_like (mget (inst_Members i) k) (mget (inst_Members j) k)"
      "\<And>k. rel_option record_like (mget (inst_Requests i) k) (mget (inst_Requests j) k)"
      using s ok by (auto simp: similar_def inst_ok_def members_ok_def requests_ok_def)
    have "rec_Fingerprint q \<noteq> fp" if q: "mget (inst_Requests j) k = Some q" for k q
    proof -
      obtain r where "mget (inst_Requests i) k = Some r" "rec_Fingerprint q = rec_Fingerprint r"
        using rel_back(1) [OF rel(2) q] by (auto simp: record_like_def)
      with a show ?thesis unfolding absent_def by metis
    qed
    then show "absent j fp"
      using a s al rel_back(2) [OF rel(1), of fp] by (auto simp: absent_def similar_def)
  qed
  ultimately show ?thesis by (simp add: inst_ok_def)
qed

lemma similar_ensure: "similar i (ensureMaps i)"
  by (simp add: similar_def ensureMaps_def)

lemma record_like_json: "record_like r (json_record r)"
  by (simp add: record_like_def json_record_def status_ok_def)

lemma similar_json: "similar i (json_instance i)"
proof -
  have "rel_option record_like x (map_option json_record x)" for x
    by (cases x) (simp_all add: record_like_json)
  then show ?thesis by (simp add: similar_def json_instance_def)
qed

lemma similar_order:
  assumes "same_instance i j"
  shows "similar i j"
proof -
  have m: "same_map (inst_Allocations i) (inst_Allocations j)" "same_map (inst_Allocations6 i) (inst_Allocations6 j)"
    "same_map (inst_Requests i) (inst_Requests j)" "same_map (inst_Members i) (inst_Members j)"
    using assms by (auto simp: same_instance_def)
  note get = same_map_get [OF m(1)] same_map_get [OF m(2)] same_map_get [OF m(3)] same_map_get [OF m(4)]
  note wf = same_map_wf [OF m(1)] same_map_wf [OF m(2)] same_map_wf [OF m(3)] same_map_wf [OF m(4)]
  show ?thesis
    using same_instance_fields [OF assms] get wf by (simp add: similar_def)
qed

interpretation instances_ok: instance_invariant inst_ok
  by unfold_locales (blast intro: similar_ok similar_ensure similar_json similar_order)+

section \<open>The closures\<close>

text \<open>
  What a closure promises: on an instance with writable maps it keeps the invariant, the id and the
  name, and it does not panic.
\<close>

definition writable :: "Instance \<Rightarrow> bool" where
  "writable i \<longleftrightarrow> inst_Allocations i \<noteq> None \<and> inst_Requests i \<noteq> None \<and> inst_Members i \<noteq> None"

lemma writable_ensure [simp]: "writable (ensureMaps i)"
  by (simp add: writable_def ensureMaps_def ensure_def)

definition safe_closure :: "'a closure \<Rightarrow> bool" where
  "safe_closure fn \<longleftrightarrow> (\<forall>i. inst_ok i \<longrightarrow> writable i \<longrightarrow>
     inst_ok (fst (fn i)) \<and> keeps_name i (fst (fn i)) \<and> snd (fn i) \<noteq> Panic
     \<and> set (inst_Burned i) \<subseteq> set (inst_Burned (fst (fn i))))"

lemma safe_closureI:
  assumes "\<And>i j r. inst_ok i \<Longrightarrow> writable i \<Longrightarrow> fn i = (j, r) \<Longrightarrow>
    inst_ok j \<and> keeps_name i j \<and> r \<noteq> Panic \<and> set (inst_Burned i) \<subseteq> set (inst_Burned j)"
  shows "safe_closure fn"
  unfolding safe_closure_def using assms by (metis prod.collapse)

lemma keeps_name_refl [simp]: "keeps_name i i"
  by (simp add: keeps_name_def)

lemma similar_safe:
  assumes "\<And>i j r. inst_ok i \<Longrightarrow> writable i \<Longrightarrow> fn i = (j, r) \<Longrightarrow> similar i j \<and> keeps_name i j \<and> r \<noteq> Panic"
  shows "safe_closure fn"
proof (rule safe_closureI)
  fix i j r
  assume "inst_ok i" "writable i" "fn i = (j, r)"
  from assms [OF this] similar_ok [OF _ \<open>inst_ok i\<close>]
  show "inst_ok j \<and> keeps_name i j \<and> r \<noteq> Panic \<and> set (inst_Burned i) \<subseteq> set (inst_Burned j)"
    by (simp add: similar_def)
qed

lemma similar_refl [simp]: "similar i i"
  by (simp add: similar_def)

lemma activate_safe: "safe_closure (activate_closure U ca cert)"
  by (rule similar_safe) (auto simp: activate_closure_def similar_def keeps_name_def split: if_splits)

lemma token_safe: "safe_closure (token_closure t)"
  by (rule similar_safe) (auto simp: token_closure_def similar_def keeps_name_def)

lemma similar_members_adjust:
  assumes "\<And>m. member_like m (f m)"
  shows "similar i (i\<lparr>inst_Members := madjust fp f (inst_Members i)\<rparr>)"
proof -
  have "rel_option member_like x (map_option f x)" for x by (cases x) (simp_all add: assms)
  then show ?thesis by (simp add: similar_def mget_adjust)
qed

lemma similar_requests_adjust:
  assumes "\<And>r. mget (inst_Requests i) rid = Some r \<Longrightarrow> record_like r (f r)"
  shows "similar i (i\<lparr>inst_Requests := madjust rid f (inst_Requests i)\<rparr>)"
proof -
  have "rel_option record_like (mget (inst_Requests i) rid) (map_option f (mget (inst_Requests i) rid))"
    using assms by (cases "mget (inst_Requests i) rid") simp_all
  then show ?thesis by (simp add: similar_def mget_adjust)
qed

lemma member_like_event: "member_like m (add_event k n t m)"
  by (simp add: member_like_def add_event_def)

lemma ban_safe: "safe_closure (ban_closure now ref note)"
  by (rule similar_safe)
    (auto simp: ban_closure_def keeps_name_def similar_members_adjust member_like_event split: sum.splits if_splits)

lemma unban_safe: "safe_closure (unban_closure now ref note)"
  by (rule similar_safe)
    (auto simp: unban_closure_def keeps_name_def similar_members_adjust member_like_event split: sum.splits if_splits)

subsection \<open>Taking things out\<close>

lemma mget_drop:
  assumes "wf_map m"
  shows "mget (drop_requests fp m) k = Some r \<longleftrightarrow> mget m k = Some r \<and> rec_Fingerprint r \<noteq> fp"
    and "wf_map (drop_requests fp m)"
proof -
  have "items (drop_requests fp m) = filter (\<lambda>(k, r). rec_Fingerprint r \<noteq> fp) (items m)"
    by (cases m) (simp_all add: drop_requests_def)
  moreover from this show wf: "wf_map (drop_requests fp m)"
    using assms by (simp add: wf_map_def distinct_map_filter)
  ultimately show "mget (drop_requests fp m) k = Some r \<longleftrightarrow> mget m k = Some r \<and> rec_Fingerprint r \<noteq> fp"
    by (auto simp: mget_items [OF wf] mget_items [OF assms])
qed

lemma names_unique_sub:
  "names_unique ms \<Longrightarrow> (\<And>fp m. mget ns fp = Some m \<Longrightarrow> mget ms fp = Some m) \<Longrightarrow> names_unique ns"
  unfolding names_unique_def by metis

lemma one_per_key_sub:
  "one_per_key rs \<Longrightarrow> (\<And>k r. mget qs k = Some r \<Longrightarrow> mget rs k = Some r) \<Longrightarrow> one_per_key qs"
  unfolding one_per_key_def by metis

lemma forget_safe: "safe_closure (forget_closure rid)"
proof (rule safe_closureI)
  fix i j r
  assume ok: "inst_ok i" and run: "forget_closure rid i = (j, r)"
  then have wf: "wf_map (inst_Requests i)" by (simp add: inst_ok_def requests_ok_def)
  have c: "j = i \<or> j = i\<lparr>inst_Requests := mdel rid (inst_Requests i)\<rparr>" "r \<noteq> Panic"
    using run by (auto simp: forget_closure_def split: if_splits)
  have "inst_ok (i\<lparr>inst_Requests := mdel rid (inst_Requests i)\<rparr>)"
  proof -
    let ?j = "i\<lparr>inst_Requests := mdel rid (inst_Requests i)\<rparr>"
    have sub: "mget (mdel rid (inst_Requests i)) k = Some q \<Longrightarrow> mget (inst_Requests i) k = Some q" for k q
      by (simp add: mget_del [OF wf] split: if_splits)
    have "request_ok ?j k q" if "mget (mdel rid (inst_Requests i)) k = Some q" for k q
      using ok sub [OF that] by (auto simp: inst_ok_def requests_ok_def request_ok_def)
    then have "requests_ok ?j"
      using ok one_per_key_sub [of "inst_Requests i" "mdel rid (inst_Requests i)"] sub wf_map_del [OF wf]
      by (auto simp: inst_ok_def requests_ok_def)
    moreover have "burned_ok ?j"
    proof -
      have "absent ?j fp" if "absent i fp" for fp
        using that sub unfolding absent_def by simp blast
      then show ?thesis using ok by (simp add: inst_ok_def burned_ok_def burned_def)
    qed
    ultimately show ?thesis
      using ok by (simp add: inst_ok_def plan4_ok_def plan6_ok_def members_ok_def member_ok_def)
  qed
  with c ok show "inst_ok j \<and> keeps_name i j \<and> r \<noteq> Panic \<and> set (inst_Burned i) \<subseteq> set (inst_Burned j)"
    by (auto simp: keeps_name_def)
qed

text \<open>The instance after a member has been taken out.\<close>

definition without_member :: "Instance \<Rightarrow> string \<Rightarrow> Member \<Rightarrow> Instance" where
  "without_member inst fp m =
     inst\<lparr>inst_Burned := inst_Burned inst @ [\<lparr>bur_Fingerprint = fp, bur_CertFingerprint = mem_CertFingerprint m\<rparr>],
        inst_Members := mdel fp (inst_Members inst),
        inst_Allocations := mdel fp (inst_Allocations inst),
        inst_Allocations6 := mdel fp (inst_Allocations6 inst),
        inst_Requests := drop_requests fp (inst_Requests inst)\<rparr>"

lemma without_member_plans:
  assumes "plan4_ok i" and "plan6_ok i"
  shows "plan4_ok (without_member i fp m)" and "plan6_ok (without_member i fp m)"
  using assms mget_del [OF plan6_wf] wf_map_del [OF plan6_wf]
  by (auto simp: without_member_def plan4_ok_def plan6_ok_def addr_plan_del)

lemma without_member_ok:
  assumes ok: "inst_ok i" and fp: "fp \<noteq> inst_Owner i"
  shows "inst_ok (without_member i fp m)"
proof -
  let ?j = "without_member i fp m"
  have wf: "wf_map (inst_Members i)" "wf_map (inst_Allocations i)" "wf_map (inst_Allocations6 i)" "wf_map (inst_Requests i)"
    using ok plan4_wf plan6_wf by (auto simp: inst_ok_def members_ok_def requests_ok_def)
  note get = mget_del [OF wf(1)] mget_del [OF wf(2)] mget_del [OF wf(3)] mget_drop(1) [OF wf(4)]
  have "members_ok ?j"
  proof -
    have sub: "mget (mdel fp (inst_Members i)) x = Some n \<Longrightarrow> mget (inst_Members i) x = Some n" for x n
      by (simp add: get split: if_splits)
    have "member_ok ?j x n" if "mget (mdel fp (inst_Members i)) x = Some n" for x n
    proof -
      have "member_ok i x n" using ok sub [OF that] by (simp add: inst_ok_def members_ok_def)
      moreover have "x \<noteq> fp" using that by (auto simp: get)
      ultimately show ?thesis by (auto simp: member_ok_def without_member_def holder_def get)
    qed
    moreover have "names_unique (mdel fp (inst_Members i))"
      using names_unique_sub sub ok unfolding inst_ok_def members_ok_def by blast
    moreover have "inst_Members ?j = mdel fp (inst_Members i)" "inst_Owner ?j = inst_Owner i"
      by (simp_all add: without_member_def)
    moreover have "mget (mdel fp (inst_Members i)) (inst_Owner i) \<noteq> None" "\<not> list_all alnum (inst_Owner i)"
      using ok fp by (simp_all add: get(1) inst_ok_def members_ok_def)
    ultimately show ?thesis using wf_map_del [OF wf(1)] unfolding members_ok_def by simp
  qed
  moreover have "requests_ok ?j"
  proof -
    have "request_ok ?j k q" if "mget (drop_requests fp (inst_Requests i)) k = Some q" for k q
      using ok that by (auto simp: get inst_ok_def requests_ok_def request_ok_def without_member_def holder_def)
    then show ?thesis
      using ok one_per_key_sub [of "inst_Requests i" "drop_requests fp (inst_Requests i)"] mget_drop(2) [OF wf(4)]
      by (auto simp: get inst_ok_def requests_ok_def without_member_def)
  qed
  moreover have "burned_ok ?j"
    unfolding burned_ok_def
  proof (intro allI impI)
    fix x
    assume "burned ?j x"
    then have "x = fp \<or> absent i x"
      using ok by (auto simp: burned_def without_member_def inst_ok_def burned_ok_def)
    then show "absent ?j x" by (auto simp: absent_def without_member_def get)
  qed
  moreover have "plan4_ok ?j" "plan6_ok ?j"
    using without_member_plans ok by (simp_all add: inst_ok_def)
  ultimately show ?thesis by (simp add: inst_ok_def)
qed

lemma remove_closure_Ret:
  assumes "remove_closure ref i = (j, Ret m)"
  obtains fp where "memberIn i ref = Inr (fp, m)" and "mem_Kind m \<noteq> KindOwner" and "Banned m" and "j = without_member i fp m"
  using assms by (auto simp: remove_closure_def without_member_def split: sum.splits if_splits)

lemma owner_kind:
  assumes "inst_ok i" and "mget (inst_Members i) fp = Some m"
  shows "fp = inst_Owner i \<longleftrightarrow> mem_Kind m = KindOwner"
proof -
  have "member_ok i fp m" using assms by (simp add: inst_ok_def members_ok_def)
  then show ?thesis by (auto simp: member_ok_def split: if_splits)
qed

lemma remove_safe: "safe_closure (remove_closure ref)"
proof (rule safe_closureI)
  fix i j r
  assume ok: "inst_ok i" and run: "remove_closure ref i = (j, r)"
  show "inst_ok j \<and> keeps_name i j \<and> r \<noteq> Panic \<and> set (inst_Burned i) \<subseteq> set (inst_Burned j)"
  proof (cases r)
    case (Ret m)
    with run obtain fp where fp: "memberIn i ref = Inr (fp, m)" "mem_Kind m \<noteq> KindOwner" "j = without_member i fp m"
      by (metis remove_closure_Ret)
    have "mget (inst_Members i) fp = Some m"
      using memberIn_get(1) [OF _ fp(1)] ok by (simp add: inst_ok_def members_ok_def)
    then have "fp \<noteq> inst_Owner i" using owner_kind [OF ok] fp(2) by simp
    from without_member_ok [OF ok this] fp Ret show ?thesis
      by (auto simp: keeps_name_def without_member_def)
  qed (use run ok in \<open>auto simp: remove_closure_def split: sum.splits if_splits\<close>)
qed

subsection \<open>Letting somebody in\<close>

lemma status_distinct [simp]:
  "StatusPending \<noteq> StatusApproved" "StatusApproved \<noteq> StatusPending" "StatusRejected \<noteq> StatusApproved"
  "StatusApproved \<noteq> StatusRejected" "StatusPending \<noteq> StatusRejected" "StatusRejected \<noteq> StatusPending"
  by (simp_all add: StatusPending_def StatusApproved_def StatusRejected_def)

lemma grow4:
  assumes ok: "inst_ok i" and plan: "addr_plan (inst_Overlay i) [inst_LighthouseAddress i, inst_TenantAddress i] A"
    and ext: "\<And>x b. mget (inst_Allocations i) x = Some b \<Longrightarrow> mget A x = Some b"
    and only: "\<And>x. x \<noteq> fp \<Longrightarrow> mget A x = mget (inst_Allocations i) x" and nb: "\<not> burned i fp"
  shows "inst_ok (i\<lparr>inst_Allocations := A\<rparr>)"
proof -
  let ?j = "i\<lparr>inst_Allocations := A\<rparr>"
  have h: "holder (inst_Allocations i) x a \<Longrightarrow> holder A x a" for x a
    using ext by (auto simp: holder_def)
  have "member_ok ?j x m" if "member_ok i x m" for x m
    using that h by (auto simp: member_ok_def split: if_splits)
  moreover have "request_ok ?j k r" if "request_ok i k r" for k r
    using that h by (simp add: request_ok_def)
  moreover have "absent ?j x" if "burned i x" "absent i x" for x
    using that nb only [of x] by (cases "x = fp") (auto simp: absent_def)
  ultimately show ?thesis
    using ok plan
    by (simp add: inst_ok_def plan4_ok_def plan6_ok_def members_ok_def requests_ok_def burned_ok_def burned_def)
qed

lemma grow6:
  assumes ok: "inst_ok i" and plan: "plan6_ok (i\<lparr>inst_Allocations6 := A\<rparr>)"
    and ext: "\<And>x b. mget (inst_Allocations6 i) x = Some b \<Longrightarrow> mget A x = Some b"
    and only: "\<And>x. x \<noteq> fp \<Longrightarrow> mget A x = mget (inst_Allocations6 i) x" and nb: "\<not> burned i fp"
  shows "inst_ok (i\<lparr>inst_Allocations6 := A\<rparr>)"
proof -
  let ?j = "i\<lparr>inst_Allocations6 := A\<rparr>"
  have h: "holder (inst_Allocations6 i) x a \<Longrightarrow> holder A x a" for x a
    using ext by (auto simp: holder_def)
  have "member_ok ?j x m" if "member_ok i x m" for x m
    using that h by (auto simp: member_ok_def split: if_splits)
  moreover have "request_ok ?j k r" if "request_ok i k r" for k r
    using that h by (simp add: request_ok_def)
  moreover have "absent ?j x" if "burned i x" "absent i x" for x
    using that nb only [of x] by (cases "x = fp") (auto simp: absent_def)
  ultimately show ?thesis
    using ok plan
    by (simp add: inst_ok_def plan4_ok_def members_ok_def requests_ok_def burned_ok_def burned_def)
qed

lemma allocate_ok:
  assumes ok: "inst_ok i" and nb: "\<not> burned i fp" and run: "allocate i fp kind = (j, r)"
  shows "inst_ok j \<and> j = i\<lparr>inst_Allocations := inst_Allocations j\<rparr> \<and> r \<noteq> Panic
    \<and> holder (inst_Allocations j) fp (out_addr r) \<and> (out_addr r = AddrNone \<longleftrightarrow> (\<exists>e. r = Fail e))"
proof -
  have wf: "wf_prefix (inst_Overlay i)"
    and plan: "addr_plan (inst_Overlay i) [inst_LighthouseAddress i, inst_TenantAddress i] (inst_Allocations i)"
    using ok by (simp_all add: inst_ok_def plan4_ok_def)
  show ?thesis
  proof (cases r)
    case (Ret a)
    with run have run: "allocate i fp kind = (j, Ret a)" by simp
    note law = pool4.alloc_ret [OF wf plan run] and get = pool4.alloc_get [OF wf plan run]
    have j: "j = i\<lparr>inst_Allocations := inst_Allocations j\<rparr>" using law by blast
    have "inst_ok (i\<lparr>inst_Allocations := inst_Allocations j\<rparr>)"
      using law get nb by (intro grow4 [OF ok pool4.alloc_plan [OF wf plan run]]) (auto simp: get split: if_splits)
    moreover have "a \<noteq> AddrNone" using pool4.alloc_host [OF wf plan run] by (auto simp: hosts_def)
    ultimately show ?thesis using j Ret get [of fp] by (simp add: holder_def)
  next
    case (Fail e)
    then have j: "j = i\<lparr>inst_Allocations := ensure (inst_Allocations i)\<rparr>"
      using pool4.alloc_fail [OF wf] run by blast
    have "inst_ok (i\<lparr>inst_Allocations := ensure (inst_Allocations i)\<rparr>)"
      using plan nb by (intro grow4 [OF ok]) simp_all
    then show ?thesis using j Fail by (simp add: holder_def)
  next
    case Panic
    then show ?thesis using pool4.alloc_total [OF wf] run by (metis snd_conv)
  qed
qed

lemma allocate6_ok:
  assumes ok: "inst_ok i" and nb: "\<not> burned i fp" and run: "allocate6 i fp kind = (j, r)"
  shows "inst_ok j \<and> j = i\<lparr>inst_Allocations6 := inst_Allocations6 j\<rparr> \<and> r \<noteq> Panic
    \<and> holder (inst_Allocations6 j) fp (out_addr r)"
proof (cases "PrefixIsValid (inst_Overlay6 i)")
  case False
  then have "j = i" "r = Ret AddrNone" using run by (simp_all add: allocate6_eq)
  then show ?thesis using ok by (simp add: holder_def)
next
  case valid: True
  have p6: "plan6_ok i" using ok by (simp add: inst_ok_def)
  with valid have wf: "wf_prefix (inst_Overlay6 i)"
    and plan: "addr_plan (inst_Overlay6 i) [inst_LighthouseAddress6 i, inst_TenantAddress6 i] (inst_Allocations6 i)"
    by (simp_all add: plan6_ok_def)
  have p: "plan6_ok (i\<lparr>inst_Allocations6 := A\<rparr>)"
    if "addr_plan (inst_Overlay6 i) [inst_LighthouseAddress6 i, inst_TenantAddress6 i] A" for A
    using p6 valid that by (simp add: plan6_ok_def)
  show ?thesis
  proof (cases r)
    case (Ret a)
    with run have run: "allocate6 i fp kind = (j, Ret a)" by simp
    note law = pool6.alloc_ret [OF wf plan run] and get = pool6.alloc_get [OF wf plan run]
    have j: "j = i\<lparr>inst_Allocations6 := inst_Allocations6 j\<rparr>" using law by blast
    have "inst_ok (i\<lparr>inst_Allocations6 := inst_Allocations6 j\<rparr>)"
      using law get nb by (intro grow6 [OF ok p [OF pool6.alloc_plan [OF wf plan run]]]) (auto simp: get split: if_splits)
    then show ?thesis using j Ret get [of fp] by (simp add: holder_def)
  next
    case (Fail e)
    then have j: "j = i\<lparr>inst_Allocations6 := ensure (inst_Allocations6 i)\<rparr>"
      using pool6.alloc_fail [OF wf] run by blast
    have "inst_ok (i\<lparr>inst_Allocations6 := ensure (inst_Allocations6 i)\<rparr>)"
      using nb by (intro grow6 [OF ok] p) (simp_all add: plan)
    then show ?thesis using j Fail by (simp add: holder_def)
  next
    case Panic
    then show ?thesis using pool6.alloc_total [OF wf] run by (metis snd_conv)
  qed
qed

lemma add_request_ok:
  assumes ok: "inst_ok i" and r: "request_ok i k r" and new: "\<And>l q. mget (inst_Requests i) l = Some q \<Longrightarrow> rec_Fingerprint q \<noteq> rec_Fingerprint r"
    and nb: "\<not> burned i (rec_Fingerprint r)" and put: "mput k r (inst_Requests i) = Some m"
  shows "inst_ok (i\<lparr>inst_Requests := m\<rparr>)"
proof -
  let ?j = "i\<lparr>inst_Requests := m\<rparr>"
  have wf: "wf_map (inst_Requests i)" using ok by (simp add: inst_ok_def requests_ok_def)
  have "request_ok ?j l q" if "mget m l = Some q" for l q
    using that r ok by (auto simp: mget_put [OF put] request_ok_def inst_ok_def requests_ok_def split: if_splits)
  moreover have "one_per_key m"
    using ok new unfolding one_per_key_def inst_ok_def requests_ok_def mget_put [OF put]
    by (auto split: if_splits) metis+
  ultimately have "requests_ok ?j" using wf_map_put [OF put wf] by (simp add: requests_ok_def)
  moreover have "absent ?j x" if "burned i x" for x
  proof -
    have "absent i x" using ok that by (simp add: inst_ok_def burned_ok_def)
    moreover have "rec_Fingerprint r \<noteq> x" using that nb by blast
    ultimately show ?thesis unfolding absent_def by (auto simp: mget_put [OF put])
  qed
  ultimately show ?thesis
    using ok by (simp add: inst_ok_def plan4_ok_def plan6_ok_def members_ok_def member_ok_def burned_ok_def burned_def)
qed

lemma add_member_ok:
  assumes ok: "inst_ok i" and m: "member_ok i fp m" and fp: "fp \<noteq> inst_Owner i"
    and name: "\<And>gp n. mget (inst_Members i) gp = Some n \<Longrightarrow> gp \<noteq> fp \<Longrightarrow> mem_Name n = mem_Name m \<Longrightarrow> mem_Name m = []"
    and nb: "\<not> burned i fp" and put: "mput fp m (inst_Members i) = Some ms"
  shows "inst_ok (i\<lparr>inst_Members := ms\<rparr>)"
proof -
  let ?j = "i\<lparr>inst_Members := ms\<rparr>"
  have wf: "wf_map (inst_Members i)" using ok by (simp add: inst_ok_def members_ok_def)
  have mem: "member_ok ?j x n" if "mget ms x = Some n" for x n
    using that m ok by (auto simp: mget_put [OF put] member_ok_def inst_ok_def members_ok_def split: if_splits)
  have "names_unique ms"
    unfolding names_unique_def
  proof (intro allI impI)
    fix x y a b
    assume "mget ms x = Some a" "mget ms y = Some b" and n: "mem_Name a = mem_Name b" "mem_Name a \<noteq> []"
    then have x: "if x = fp then a = m else mget (inst_Members i) x = Some a"
      and y: "if y = fp then b = m else mget (inst_Members i) y = Some b"
      by (auto simp: mget_put [OF put])
    have "names_unique (inst_Members i)" using ok by (simp add: inst_ok_def members_ok_def)
    then show "x = y"
      using x y n name [of x a] name [of y b] unfolding names_unique_def by (metis (full_types))
  qed
  then have "members_ok ?j"
    using ok mem fp wf_map_put [OF put wf] by (simp add: inst_ok_def members_ok_def mget_put [OF put])
  moreover have "absent ?j x" if "burned i x" for x
  proof -
    have "absent i x" using ok that by (simp add: inst_ok_def burned_ok_def)
    moreover have "fp \<noteq> x" using that nb by blast
    ultimately show ?thesis by (simp add: absent_def mget_put [OF put])
  qed
  ultimately show ?thesis
    using ok by (simp add: inst_ok_def plan4_ok_def plan6_ok_def requests_ok_def request_ok_def burned_ok_def burned_def)
qed

lemma same_key_Some:
  assumes "wf_map (inst_Requests i)" and "same_key_request i fp = Some (k, r)"
  shows "mget (inst_Requests i) k = Some r" and "rec_Fingerprint r = fp"
  using find_SomeD [OF assms(2) [unfolded same_key_request_def]] mget_items [OF assms(1)] by auto

lemma same_key_None:
  assumes "same_key_request i fp = None" and "mget (inst_Requests i) k = Some r"
  shows "rec_Fingerprint r \<noteq> fp"
  using find_NoneD [OF assms(1) [unfolded same_key_request_def] mget_in_items [OF assms(2)]] by simp

lemma record_like_refresh: "record_like r (refresh_record req who r)"
  by (auto simp: record_like_def refresh_record_def Let_def status_ok_def)

text \<open>The outcome of an enrollment that is neither refused nor a re-enrollment.\<close>

lemma enroll_new:
  assumes ok: "inst_ok i" and w: "writable i" and nb: "\<not> burned i fp" and alnum: "list_all alnum fp"
    and kind: "app_Kind who \<noteq> KindOwner" and none: "same_key_request i fp = None"
    and a4: "allocate i fp (app_Kind who) = (i4, r4)" and a6: "allocate6 i4 fp (app_Kind who) = (i6, r6)"
  shows "inst_ok i6" and "r4 \<noteq> Panic" and "r6 \<noteq> Panic" and "keeps_name i i6" and "inst_Burned i6 = inst_Burned i"
    and "inst_Requests i6 = inst_Requests i" and "out_addr r4 = AddrNone \<Longrightarrow> out_err r4 \<noteq> None"
    and "mput nid (new_record now nid req who fp i6 (out_addr r4) (out_addr r6)) (inst_Requests i6) = Some m
      \<Longrightarrow> inst_ok (i6\<lparr>inst_Requests := m\<rparr>)"
proof -
  note A4 = allocate_ok [OF ok nb a4]
  then obtain A where i4: "i4 = i\<lparr>inst_Allocations := A\<rparr>" by blast
  then have nb4: "\<not> burned i4 fp" using nb by (simp add: burned_def)
  note A6 = allocate6_ok [OF conjunct1 [OF A4] nb4 a6]
  obtain B where i6: "i6 = i\<lparr>inst_Allocations := A, inst_Allocations6 := B\<rparr>" using A6 i4 by blast
  show "inst_ok i6" "r4 \<noteq> Panic" "r6 \<noteq> Panic" using A4 A6 by blast+
  show "keeps_name i i6" "inst_Burned i6 = inst_Burned i" "inst_Requests i6 = inst_Requests i"
    by (simp_all add: i6 keeps_name_def)
  show "out_err r4 \<noteq> None" if "out_addr r4 = AddrNone" using A4 that by (cases r4) auto
  assume put: "mput nid (new_record now nid req who fp i6 (out_addr r4) (out_addr r6)) (inst_Requests i6) = Some m"
  have "holder A fp (out_addr r4)" "holder B fp (out_addr r6)" using A4 A6 by (simp_all add: i4 i6)
  then have "request_ok i6 nid (new_record now nid req who fp i6 (out_addr r4) (out_addr r6))"
    using alnum kind
    by (auto simp: request_ok_def new_record_def status_ok_def i6 paddr_prefixOf holder_def)
  then show "inst_ok (i6\<lparr>inst_Requests := m\<rparr>)"
    using same_key_None [OF none] nb
    by (intro add_request_ok [OF _ _ _ _ put] \<open>inst_ok i6\<close>) (auto simp: new_record_def i6 burned_def)
qed

lemma enroll_safe:
  assumes "list_all alnum fp" and "app_Kind who \<noteq> KindOwner"
  shows "safe_closure (enroll_closure V now nid req who fp)"
proof (rule safe_closureI)
  fix i j r
  assume ok: "inst_ok i" and w: "writable i" and run: "enroll_closure V now nid req who fp i = (j, r)"
  have wf: "wf_map (inst_Requests i)" using ok by (simp add: inst_ok_def requests_ok_def)
  let ?goal = "inst_ok j \<and> keeps_name i j \<and> r \<noteq> Panic \<and> set (inst_Burned i) \<subseteq> set (inst_Burned j)"
  consider (refused) "j = i" "r \<noteq> Panic"
    | (admitted) "\<not> burned i fp" "\<not> (app_Kind who = KindConnector \<and> inst_SharedToken i \<noteq> []
          \<and> \<not> VerifyMAC (env_hmac V) (env_unicode V) req (inst_SharedToken i) (app_MAC who))"
    using run by (auto simp: enroll_closure_def split: if_splits)
  then show ?goal
  proof cases
    case refused
    then show ?thesis using ok by simp
  next
    case admitted
    show ?thesis
    proof (cases "same_key_request i fp")
      case (Some kr)
      then obtain k old where kr: "same_key_request i fp = Some (k, old)" by (cases kr) auto
      have j: "j = i\<lparr>inst_Requests := madjust k (\<lambda>_. refresh_record req who old) (inst_Requests i)\<rparr>"
        and r: "r \<noteq> Panic" using run admitted kr by (auto simp: enroll_closure_def)
      have "similar i j"
        unfolding j using same_key_Some [OF wf kr]
        by (intro similar_requests_adjust) (simp add: record_like_refresh)
      then show ?thesis using similar_ok [OF _ ok] r by (simp add: j keeps_name_def)
    next
      case None
      obtain i4 r4 i6 r6 where a: "allocate i fp (app_Kind who) = (i4, r4)" "allocate6 i4 fp (app_Kind who) = (i6, r6)"
        by (metis prod.exhaust)
      note N = enroll_new [OF ok w admitted(1) assms None a]
      let ?rec = "new_record now nid req who fp i6 (out_addr r4) (out_addr r6)"
      obtain m where m: "mput nid ?rec (inst_Requests i6) = Some m"
        using N(6) w by (cases "inst_Requests i") (auto simp: writable_def)
      have "j = i6 \<or> j = i6\<lparr>inst_Requests := m\<rparr>" "r \<noteq> Panic"
        using run admitted None a N(2,3) m
        by (auto simp: enroll_closure_def Let_def split: if_splits option.splits)
      then show ?thesis
        using N(1,4,5) N(8) [OF m] by (auto simp: keeps_name_def)
    qed
  qed
qed

text \<open>The stages of an approval: the record is marked, then the member is entered.\<close>

lemma set_record_similar:
  assumes "\<And>r. mget (inst_Requests i) rid = Some r \<Longrightarrow> record_like r (f r)"
  shows "similar i (set_record rid f i)" and "keeps_name i (set_record rid f i)"
    and "inst_Members (set_record rid f i) = inst_Members i" and "inst_Burned (set_record rid f i) = inst_Burned i"
  using similar_requests_adjust [OF assms] by (simp_all add: set_record_def keeps_name_def)

lemma approve_mark_like:
  "record_like r (r\<lparr>rec_Bundle := Some b, rec_Status := StatusApproved\<rparr>)"
  by (simp add: record_like_def status_ok_def)

lemma reject_like:
  "record_like r (r\<lparr>rec_Status := StatusRejected, rec_Bundle := None, rec_Reason := x, rec_DecidedAt := now\<rparr>)"
  by (simp add: record_like_def status_ok_def)

lemma decided_like: "record_like r (r\<lparr>rec_DecidedAt := now\<rparr>)"
  by (simp add: record_like_def status_ok_def)

lemma name_holder_None:
  assumes "name_holder i fp name = None" and "mget (inst_Members i) gp = Some n" and "gp \<noteq> fp" and "mem_Name n = name"
  shows "name = []"
  using find_NoneD [OF assms(1) [unfolded name_holder_def] mget_in_items [OF assms(2)]] assms(3,4) by auto

lemma request_not_burned:
  assumes "inst_ok i" and "mget (inst_Requests i) k = Some r"
  shows "\<not> burned i (rec_Fingerprint r)"
  using assms unfolding inst_ok_def burned_ok_def absent_def by blast

lemma request_key_not_owner:
  assumes "inst_ok i" and "mget (inst_Requests i) k = Some r"
  shows "rec_Fingerprint r \<noteq> inst_Owner i"
  using assms unfolding inst_ok_def requests_ok_def request_ok_def members_ok_def by metis

lemma decide_member_ok:
  assumes ok: "inst_ok i" and r: "mget (inst_Requests i) k = Some r"
    and name: "name_holder i (rec_Fingerprint r) name = None"
    and put: "mput (rec_Fingerprint r) (decided_member now r name d) (inst_Members i) = Some ms"
  shows "inst_ok (i\<lparr>inst_Members := ms\<rparr>)"
proof -
  have "request_ok i k r" using ok r by (simp add: inst_ok_def requests_ok_def)
  then have "member_ok i (rec_Fingerprint r) (decided_member now r name d)"
    using request_key_not_owner [OF ok r] by (simp add: member_ok_def request_ok_def decided_member_def)
  then show ?thesis
    using request_key_not_owner [OF ok r] request_not_burned [OF ok r] name_holder_None [OF name]
    by (intro add_member_ok [OF ok _ _ _ _ put]) (auto simp: decided_member_def)
qed

lemma decide_approve_eq:
  assumes "mget (inst_Requests i) rid = Some r" and "dec_Status d = StatusApproved" and "dec_Bundle d = Some b"
    and "bnd_Certificate b \<noteq> []" and "inst_Members i = Some l"
    and "name = (if dec_Name d = [] then req_Name (rec_Request r) else dec_Name d)"
    and "i1 = set_record rid (\<lambda>r'. r'\<lparr>rec_Bundle := Some (approved_bundle cfg i r b), rec_Status := StatusApproved\<rparr>) i"
  shows "decide_closure cfg now rid d i =
    (case name_holder i (rec_Fingerprint r) name of
       Some (fp, m) \<Rightarrow> (i1, Fail (MemberNameTaken (mem_Kind m) name))
     | None \<Rightarrow> (set_record rid (\<lambda>r. r\<lparr>rec_DecidedAt := now\<rparr>)
         (i1\<lparr>inst_Members := Some (AList.update (rec_Fingerprint r) (decided_member now r name d) l)\<rparr>), Ret ()))"
proof -
  have m: "inst_Members i1 = Some l" "i1\<lparr>inst_Members := Some l\<rparr> = i1"
    and h: "name_holder i1 fp n = name_holder i fp n" for fp n
    by (simp_all add: assms(5,7) set_record_def name_holder_def)
  have "decide_closure cfg now rid d i =
     (let inst2 = i1\<lparr>inst_Members := ensure (inst_Members i1)\<rparr>
      in case name_holder inst2 (rec_Fingerprint r) name of
           Some (fp, m) \<Rightarrow> (inst2, Fail (MemberNameTaken (mem_Kind m) name))
         | None \<Rightarrow> (case mput (rec_Fingerprint r) (decided_member now r name d) (inst_Members inst2) of
              None \<Rightarrow> (inst2, Panic)
            | Some ms \<Rightarrow> (set_record rid (\<lambda>r. r\<lparr>rec_DecidedAt := now\<rparr>) (inst2\<lparr>inst_Members := ms\<rparr>), Ret ())))"
    unfolding decide_closure_def Let_def assms(6,7) using assms(1-4) by simp
  then show ?thesis by (simp add: m h split: option.split)
qed

text \<open>
  The branches of a decision. In \<open>taken\<close> the name is somebody else's: the error comes back, and the
  record has been marked as approved by then.
\<close>

lemma decide_cases:
  assumes "decide_closure cfg now rid d i = (j, res)" and "inst_Members i \<noteq> None"
  obtains (refused) e where "j = i" "res = Fail e" "\<And>kind n. e \<noteq> MemberNameTaken kind n"
  | (rejected) "dec_Status d = StatusRejected" "res = Ret ()"
      "j = set_record rid (\<lambda>r. r\<lparr>rec_Status := StatusRejected, rec_Bundle := None, rec_Reason := dec_Reason d, rec_DecidedAt := now\<rparr>) i"
  | (taken) r b fp m name where "mget (inst_Requests i) rid = Some r" "dec_Status d = StatusApproved" "dec_Bundle d = Some b"
      "name = (if dec_Name d = [] then req_Name (rec_Request r) else dec_Name d)"
      "name_holder i (rec_Fingerprint r) name = Some (fp, m)" "res = Fail (MemberNameTaken (mem_Kind m) name)"
      "j = set_record rid (\<lambda>r'. r'\<lparr>rec_Bundle := Some (approved_bundle cfg i r b), rec_Status := StatusApproved\<rparr>) i"
  | (approved) r b name ms i1 where "mget (inst_Requests i) rid = Some r" "dec_Status d = StatusApproved" "dec_Bundle d = Some b"
      "bnd_Certificate b \<noteq> []"
      "name = (if dec_Name d = [] then req_Name (rec_Request r) else dec_Name d)"
      "name_holder i (rec_Fingerprint r) name = None" "res = Ret ()"
      "i1 = set_record rid (\<lambda>r'. r'\<lparr>rec_Bundle := Some (approved_bundle cfg i r b), rec_Status := StatusApproved\<rparr>) i"
      "mput (rec_Fingerprint r) (decided_member now r name d) (inst_Members i) = Some ms"
      "j = set_record rid (\<lambda>r. r\<lparr>rec_DecidedAt := now\<rparr>) (i1\<lparr>inst_Members := ms\<rparr>)"
proof (cases "mget (inst_Requests i) rid")
  case None
  then show ?thesis using assms refused by (auto simp: decide_closure_def)
next
  case (Some r)
  obtain l where l: "inst_Members i = Some l" using assms(2) by auto
  let ?n = "if dec_Name d = [] then req_Name (rec_Request r) else dec_Name d"
  consider "dec_Status d = StatusRejected" | "dec_Status d \<noteq> StatusApproved" "dec_Status d \<noteq> StatusRejected"
    | "dec_Status d = StatusApproved" "dec_Bundle d = None \<or> (\<exists>b. dec_Bundle d = Some b \<and> bnd_Certificate b = [])"
    | b where "dec_Status d = StatusApproved" "dec_Bundle d = Some b" "bnd_Certificate b \<noteq> []"
    by (cases "dec_Bundle d") auto
  then show ?thesis
  proof cases
    case 1
    then show ?thesis using assms Some rejected by (auto simp: decide_closure_def)
  next
    case 2
    then show ?thesis using assms Some refused by (auto simp: decide_closure_def)
  next
    case 3
    then show ?thesis using assms Some refused by (auto simp: decide_closure_def)
  next
    case (4 b)
    note eq = decide_approve_eq [OF Some 4 l refl refl, of cfg now]
    show ?thesis
    proof (cases "name_holder i (rec_Fingerprint r) ?n")
      case None
      have put: "mput (rec_Fingerprint r) (decided_member now r ?n d) (inst_Members i)
          = Some (Some (AList.update (rec_Fingerprint r) (decided_member now r ?n d) l))"
        by (simp add: l)
      show ?thesis
        using assms(1) eq None by (intro approved [OF Some 4 refl None _ refl put]) simp_all
    next
      case fm: (Some fm)
      then obtain fp m where fm: "name_holder i (rec_Fingerprint r) ?n = Some (fp, m)" by (cases fm) auto
      show ?thesis
        using assms(1) eq fm by (intro taken [OF Some 4(1,2) refl fm]) simp_all
    qed
  qed
qed

lemma decide_safe: "safe_closure (decide_closure cfg now rid d)"
proof (rule safe_closureI)
  fix i j res
  assume ok: "inst_ok i" and w: "writable i" and run: "decide_closure cfg now rid d i = (j, res)"
  let ?goal = "inst_ok j \<and> keeps_name i j \<and> res \<noteq> Panic \<and> set (inst_Burned i) \<subseteq> set (inst_Burned j)"
  have "inst_Members i \<noteq> None" using w by (simp add: writable_def)
  from run this show ?goal
  proof (cases rule: decide_cases)
    case rejected
    then show ?thesis
      using similar_ok [OF set_record_similar(1) ok] reject_like by (simp add: set_record_def keeps_name_def)
  next
    case (taken r b fp m name)
    then show ?thesis
      using similar_ok [OF set_record_similar(1) ok] approve_mark_like by (simp add: set_record_def keeps_name_def)
  next
    case (approved r b name ms i1)
    let ?f = "\<lambda>r'. r'\<lparr>rec_Bundle := Some (approved_bundle cfg i r b), rec_Status := StatusApproved\<rparr>"
    have ok1: "inst_ok i1" unfolding approved(8) by (intro similar_ok [OF set_record_similar(1) ok] approve_mark_like)
    have m1: "inst_Members i1 = inst_Members i" and b1: "inst_Burned i1 = inst_Burned i"
      by (simp_all add: approved(8) set_record_def)
    have r1: "mget (inst_Requests i1) rid = Some (?f r)"
      using approved(1) by (simp add: approved(8) set_record_def mget_adjust)
    have "decided_member now (?f r) name d = decided_member now r name d" by (simp add: decided_member_def)
    moreover have "name_holder i1 (rec_Fingerprint r) name = None" using approved(6) m1 by (simp add: name_holder_def)
    ultimately have "inst_ok (i1\<lparr>inst_Members := ms\<rparr>)"
      using decide_member_ok [OF ok1 r1, of name now d ms] approved(9) m1 by simp
    then have "inst_ok j" unfolding approved(10) by (intro similar_ok [OF set_record_similar(1)] decided_like)
    then show ?thesis using b1 approved(7) by (simp add: approved(8,10) set_record_def keeps_name_def)
  qed (use ok in auto)
qed

end
