(* ===== verification/Reach.thy ===== *)
theory Reach
  imports HubInv
begin

text \<open>
  The hub as a state machine. A step is what happens under one lock: one method of the store, one
  change of the lighthouses; or the process dies at some point of a save and is started again; or
  the maps are found in another order. Requests served at the same time interleave these steps, and
  every operation of the hub is a sequence of them.

  The locale \<open>hub_invariant\<close> turns a property of single instances into a property of every state
  reachable by steps, and is interpreted twice: for the invariant of an instance, and for a key that
  has been burned in one instance.
\<close>

definition cfg_ok :: "Config \<Rightarrow> bool" where
  "cfg_ok cfg \<longleftrightarrow> (\<forall>p \<in> set (cfg_Overlays cfg) \<union> set (cfg_Overlays6 cfg). pool_fits p)"

section \<open>A new instance\<close>

lemma allocateOverlay_Inr:
  assumes "\<forall>p \<in> set pools. pool_fits p" and "allocateOverlay pools used = Inr c"
  shows "wf_prefix c" and "c \<notin> set used" and "val (paddr c) = base c"
proof -
  have "case pools_loop pools pools used of Inr c \<Rightarrow> \<exists>us p vs. pools = us @ p # vs \<and> c \<in> subnets p \<and> c \<notin> set used
        \<and> (\<forall>u \<in> set us. subnets u \<subseteq> set used)
        \<and> (\<forall>d \<in> subnets p. val (paddr d) < val (paddr c) \<longrightarrow> d \<in> set used)
    | Inl e \<Rightarrow> e = PoolsFull (poolList pools) \<and> (\<forall>p \<in> set pools. subnets p \<subseteq> set used)"
    using pools_loop_spec [OF assms(1), of pools used] .
  with assms(2) show "wf_prefix c" and "c \<notin> set used" and "val (paddr c) = base c"
    by (auto simp: allocateOverlay_def subnets_def split: if_splits)
qed

lemma two_hosts:
  assumes "wf_prefix p" and "reserveLighthouse p = Inr a" and "lowestFree p [a] = Inr b"
  shows "a \<in> hosts p" and "b \<in> hosts p" and "a \<noteq> b"
  using lowest.pick_free [OF assms(1) assms(2) [unfolded reserveLighthouse_def]] lowest.pick_free [OF assms(1,3)]
  by (auto simp: free_def)

lemma carve_Inr:
  assumes "\<forall>p \<in> set pools. pool_fits p" and "carve pools used = Inr (p, a, b)"
  shows "wf_prefix p" and "p \<notin> set used" and "a \<in> hosts p" and "b \<in> hosts p" and "a \<noteq> b"
proof -
  have s: "allocateOverlay pools used = Inr p" "reserveLighthouse p = Inr a" "lowestFree p [a] = Inr b"
    using assms(2) by (auto simp: carve_def split: sum.splits)
  note o = allocateOverlay_Inr [OF assms(1) s(1)]
  show "wf_prefix p" "p \<notin> set used" by (fact o)+
  show "a \<in> hosts p" "b \<in> hosts p" "a \<noteq> b" by (fact two_hosts [OF o(1) s(2,3)])+
qed

text \<open>The six stages of \<open>prepare_instance\<close>, and the instance that comes out.\<close>

lemma prepare_stages:
  assumes "prepare_instance now nid hk bndr owner name tok h = Inr inst"
  obtains overlay port a b o6 a6 b6 pub key where
    "allocateOverlay (cfg_Overlays (hub_cfg h)) (UsedOverlays (hub_store h)) = Inr overlay"
    "freePort h = Inr port" "reserveLighthouse overlay = Inr a" "lowestFree overlay [a] = Inr b"
    "(if cfg_Overlays6 (hub_cfg h) = [] then (o6, a6, b6) = (PrefixNone, AddrNone, AddrNone)
      else carve (cfg_Overlays6 (hub_cfg h)) (UsedOverlays6 (hub_store h)) = Inr (o6, a6, b6))"
    "hk = Some (pub, key)"
    "inst_ID inst = nid" "inst_Name inst = name" "inst_Owner inst = owner" "inst_Port inst = port"
    "inst_Overlay inst = overlay" "inst_LighthouseAddress inst = a" "inst_TenantAddress inst = b"
    "inst_Overlay6 inst = o6" "inst_LighthouseAddress6 inst = a6" "inst_TenantAddress6 inst = b6"
    "inst_Allocations inst = Some []" "inst_Allocations6 inst = Some []" "inst_Requests inst = Some []"
    "inst_Members inst = Some [(owner, owner_member bndr owner name overlay b o6 b6 now)]" "inst_Burned inst = []"
  using assms unfolding prepare_instance_def
  by (auto split: sum.splits option.splits prod.splits if_splits)

lemma prepare_ok:
  assumes cfg: "cfg_ok (hub_cfg h)" and owner: "\<not> list_all alnum owner"
    and run: "prepare_instance now nid hk bndr owner name tok h = Inr inst"
  shows "inst_ok inst" and "inst_ID inst = nid" and "inst_Name inst = name"
    and "inst_Overlay inst \<notin> set (UsedOverlays (hub_store h))"
    and "PrefixIsValid (inst_Overlay6 inst) \<Longrightarrow> inst_Overlay6 inst \<notin> set (UsedOverlays6 (hub_store h))"
    and "freePort h = Inr (inst_Port inst)"
proof -
  from run obtain overlay port a b o6 a6 b6 pub key where S:
    "allocateOverlay (cfg_Overlays (hub_cfg h)) (UsedOverlays (hub_store h)) = Inr overlay"
    "freePort h = Inr port" "reserveLighthouse overlay = Inr a" "lowestFree overlay [a] = Inr b"
    "(if cfg_Overlays6 (hub_cfg h) = [] then (o6, a6, b6) = (PrefixNone, AddrNone, AddrNone)
      else carve (cfg_Overlays6 (hub_cfg h)) (UsedOverlays6 (hub_store h)) = Inr (o6, a6, b6))"
    "hk = Some (pub, key)"
    "inst_ID inst = nid" "inst_Name inst = name" "inst_Owner inst = owner" "inst_Port inst = port"
    "inst_Overlay inst = overlay" "inst_LighthouseAddress inst = a" "inst_TenantAddress inst = b"
    "inst_Overlay6 inst = o6" "inst_LighthouseAddress6 inst = a6" "inst_TenantAddress6 inst = b6"
    "inst_Allocations inst = Some []" "inst_Allocations6 inst = Some []" "inst_Requests inst = Some []"
    "inst_Members inst = Some [(owner, owner_member bndr owner name overlay b o6 b6 now)]" "inst_Burned inst = []"
    by (rule prepare_stages)
  have fits: "\<forall>p \<in> set (cfg_Overlays (hub_cfg h)). pool_fits p" "\<forall>p \<in> set (cfg_Overlays6 (hub_cfg h)). pool_fits p"
    using cfg by (auto simp: cfg_ok_def)
  note o4 = allocateOverlay_Inr [OF fits(1) S(1)]
  note h4 = two_hosts [OF o4(1) S(3,4)]
  have empty: "addr_plan p f (Some [])" for p f by (simp add: addr_plan_def wf_map_def mget_def)
  have p4: "plan4_ok inst" unfolding plan4_ok_def using S(11-13,17) o4(1) h4 empty by simp
  have six: "(o6 = PrefixNone \<and> a6 = AddrNone \<and> b6 = AddrNone) \<or>
     wf_prefix o6 \<and> o6 \<notin> set (UsedOverlays6 (hub_store h)) \<and> a6 \<in> hosts o6 \<and> b6 \<in> hosts o6 \<and> a6 \<noteq> b6"
    using S(5) carve_Inr [OF fits(2)] by (auto split: if_splits)
  have none: "\<not> PrefixIsValid PrefixNone" by (simp add: PrefixIsValid_def PrefixNone_def)
  have p6: "plan6_ok inst"
    unfolding plan6_ok_def using S(14-16,18) six empty none wf_prefix_valid [of o6]
    by (auto simp: wf_map_def mget_def)
  have "paddr (prefixOf b6 o6) = b6" using six none by (auto simp: paddr_prefixOf wf_prefix_valid)
  then have "members_ok inst"
    using S(9,13,16,20) owner
    by (simp add: members_ok_def member_ok_def names_unique_def owner_member_def wf_map_def mget_def)
  moreover have "requests_ok inst" "burned_ok inst"
    using S(19,21) by (simp_all add: requests_ok_def one_per_key_def burned_ok_def burned_def wf_map_def mget_def)
  ultimately show "inst_ok inst" using p4 p6 by (simp add: inst_ok_def)
  show "inst_ID inst = nid" "inst_Name inst = name" "freePort h = Inr (inst_Port inst)" using S by simp_all
  show "inst_Overlay inst \<notin> set (UsedOverlays (hub_store h))" using o4 S(11) by simp
  show "PrefixIsValid (inst_Overlay6 inst) \<Longrightarrow> inst_Overlay6 inst \<notin> set (UsedOverlays6 (hub_store h))"
    using six none S(14) by auto
qed

section \<open>Steps\<close>

text \<open>\<open>X\<close> is a set of ids the random generator does not draw.\<close>

inductive hub_step :: "env \<Rightarrow> string set \<Rightarrow> Hub \<Rightarrow> Hub \<Rightarrow> bool" for V :: env and X :: "string set" where
  add: "hub_cfg h0 = hub_cfg h \<Longrightarrow> \<not> list_all alnum owner \<Longrightarrow> nid \<notin> X \<Longrightarrow>
    prepare_instance now nid hk bndr owner name tok h0 = Inr inst \<Longrightarrow>
    hub_step V X h (fst (add_instance io inst h))"
| activate: "hub_step V X h (fst (on_store (Update io iid (activate_closure U ca cert)) h))"
| enroll: "app_Kind who \<noteq> KindOwner \<Longrightarrow>
    hub_step V X h (fst (on_store (Update io iid (enroll_closure V now nid req who (fingerprintOf V key))) h))"
| decide: "hub_step V X h (fst (on_store (Update io iid (decide_closure (hub_cfg h) now rid d)) h))"
| forget: "hub_step V X h (fst (on_store (Update io iid (forget_closure rid)) h))"
| ban: "hub_step V X h (fst (on_store (Update io iid (ban_closure now ref note)) h))"
| unban: "hub_step V X h (fst (on_store (Update io iid (unban_closure now ref note)) h))"
| remove: "hub_step V X h (fst (on_store (Update io iid (remove_closure ref)) h))"
| token: "hub_step V X h (fst (on_store (Update io iid (token_closure tok)) h))"
| delete: "hub_step V X h (fst (on_store (Remove io iid) h))"
| register: "\<not> list_all alnum (reg_Identity r) \<Longrightarrow> hub_step V X h (fst (on_store (Register io now r) h))"
| start: "hub_step V X h (h\<lparr>hub_lhs := fst (start_lh (env_nebula V) inst bind (hub_lhs h))\<rparr>)"
| reload: "hub_step V X h (h\<lparr>hub_lhs := fst (reload_lh (env_nebula V) inst bind (hub_lhs h))\<rparr>)"
| stop: "hub_step V X h (h\<lparr>hub_lhs := stop_lh iid (hub_lhs h)\<rparr>)"
| reorder: "same_state (st_state (hub_store h)) st \<Longrightarrow>
    hub_step V X h (h\<lparr>hub_store := (hub_store h)\<lparr>st_state := st\<rparr>\<rparr>)"
| restart: "f \<in> set (save_trace io (st_state (hub_store h)) (st_fs (hub_store h))) \<Longrightarrow> cfg_ok cfg \<Longrightarrow>
    New V cfg readable f = Inr h' \<Longrightarrow> hub_step V X h h'"

text \<open>A hub that was started on an empty directory, and whatever it came to since.\<close>

inductive reachable :: "env \<Rightarrow> Hub \<Rightarrow> bool" for V :: env where
  fresh: "cfg_ok cfg \<Longrightarrow> New V cfg readable \<lparr>fs_file = None, fs_tmp = None\<rparr> = Inr h \<Longrightarrow> reachable V h"
| step: "reachable V h \<Longrightarrow> hub_step V {} h h' \<Longrightarrow> reachable V h'"

section \<open>Invariants over steps\<close>

lemma on_store_fst: "fst (on_store f h) = h\<lparr>hub_store := fst (f (hub_store h))\<rparr>"
  by (simp add: on_store_def split: prod.split)

lemma add_instance_fst: "fst (add_instance io inst h) = h\<lparr>hub_store := fst (Add io inst (hub_store h))\<rparr>"
  by (auto simp: add_instance_def on_store_def split: prod.splits out.splits)

lemma start_all_ok: "lhs_ok ls \<Longrightarrow> lhs_ok (start_all N bind is ls)"
  unfolding start_all_def by (induction "is" arbitrary: ls) (auto simp: start_lh_ok)

lemma fingerprint_alnum: "list_all alnum (fingerprintOf V key)"
  by (simp add: fingerprintOf_def list_all_iff hex_encode_chars)

definition hub_inv :: "(Instance \<Rightarrow> bool) \<Rightarrow> Hub \<Rightarrow> bool" where
  "hub_inv I h \<longleftrightarrow> store_inv I (hub_store h) \<and> lhs_ok (hub_lhs h) \<and> cfg_ok (hub_cfg h)"

locale hub_invariant = instance_invariant +
  fixes X :: "string set"
  assumes I_ok: "I i \<Longrightarrow> inst_ok i"
    and I_new: "inst_ok i \<Longrightarrow> inst_ID i \<notin> X \<Longrightarrow> I i"
    and I_change: "I i \<Longrightarrow> inst_ok j \<Longrightarrow> keeps_name i j \<Longrightarrow> set (inst_Burned i) \<subseteq> set (inst_Burned j) \<Longrightarrow> I j"
begin

lemma closure_step:
  assumes "store_inv I s" and "safe_closure fn"
  shows "store_inv I (fst (Update io iid fn s))"
proof (rule Update_inv [OF assms(1)])
  fix i
  assume "I (ensureMaps i)"
  moreover from this have "inst_ok (ensureMaps i)" by (rule I_ok)
  ultimately show "I (fst (fn (ensureMaps i))) \<and> keeps_name i (fst (fn (ensureMaps i)))"
    using assms(2) I_change [of "ensureMaps i"] unfolding safe_closure_def
    by (metis keeps_name_ensure writable_ensure)
qed

lemma save_trace_file:
  assumes "store_inv I s" and "f \<in> set (save_trace io (st_state s) (st_fs s))"
  shows "fs_file f \<noteq> Some Torn"
    and "fs_file f = Some (Whole st) \<Longrightarrow> state_ok st \<and> all_instances I st"
proof -
  have "fs_file f = fs_file (st_fs s) \<or> fs_file f = Some (Whole (json_state (st_state s)))"
    using assms(2) by (auto simp: save_trace_def Let_def split: option.splits io_fault.splits)
  then show "fs_file f \<noteq> Some Torn" and "fs_file f = Some (Whole st) \<Longrightarrow> state_ok st \<and> all_instances I st"
    using assms(1) json_inv [of "st_state s"] by (auto simp: store_inv_def)
qed

lemma New_inv:
  assumes "fs_file f \<noteq> Some Torn" and "\<And>st. fs_file f = Some (Whole st) \<Longrightarrow> state_ok st \<and> all_instances I st"
    and "cfg_ok cfg" and "New V cfg readable f = Inr h"
  shows "hub_inv I h"
proof -
  obtain s where s: "OpenStore readable f = Inr s" "hub_store h = s" "hub_cfg h = cfg"
    "hub_lhs h = start_all (env_nebula V) (cfg_NebulaBind cfg) (ListInstances s)
       (newLighthouses (cfg_DNS cfg) (cfg_NoLighthouseTun cfg))"
    using assms(4) by (auto simp: New_def split: if_splits sum.splits)
  then show ?thesis
    using OpenStore_inv [OF assms(1,2) s(1)] assms(3) start_all_ok [OF newLighthouses_ok] by (simp add: hub_inv_def)
qed

lemma hub_step_inv:
  assumes "hub_step V X h h'" and "hub_inv I h"
  shows "hub_inv I h'"
  using assms
proof (induction rule: hub_step.induct)
  case (add h0 h owner nid now hk bndr name tok inst io)
  then have "I inst" using prepare_ok [of h0] I_new by (metis hub_inv_def)
  then show ?case using Add_inv add by (simp add: hub_inv_def add_instance_fst)
next
  case (enroll who h io iid now nid req key)
  then show ?case by (simp add: hub_inv_def on_store_fst closure_step enroll_safe fingerprint_alnum)
next
  case (restart f io h cfg readable h')
  then have "store_inv I (hub_store h)" by (simp add: hub_inv_def)
  from save_trace_file [OF this restart(1)] restart(2,3) show ?case by (intro New_inv) auto
next
  case (reorder h st)
  then show ?case
    using same_state_inv [OF reorder(1)] by (auto simp: hub_inv_def store_inv_def)
qed (auto simp: hub_inv_def on_store_fst start_lh_ok reload_lh_ok stop_lh_ok
    intro: closure_step Remove_inv Register_inv activate_safe decide_safe forget_safe ban_safe unban_safe remove_safe token_safe)

lemma hub_steps_inv: "(hub_step V X)\<^sup>*\<^sup>* h h' \<Longrightarrow> hub_inv I h \<Longrightarrow> hub_inv I h'"
  by (induction rule: rtranclp_induct) (auto intro: hub_step_inv)

end

interpretation hub_ok: hub_invariant inst_ok "{}"
  by unfold_locales auto

text \<open>An instance in which a key has been burned, as long as its id is not drawn again.\<close>

lemma burned_similar: "similar i j \<Longrightarrow> burned j fp = burned i fp"
  by (simp add: similar_def burned_def)

interpretation burned_key: hub_invariant "\<lambda>i. inst_ok i \<and> (inst_ID i = iid \<longrightarrow> burned i fp)" "{iid}" for iid fp
proof unfold_locales
  fix i
  assume "inst_ok i \<and> (inst_ID i = iid \<longrightarrow> burned i fp)"
  then show "inst_ok (ensureMaps i) \<and> (inst_ID (ensureMaps i) = iid \<longrightarrow> burned (ensureMaps i) fp)"
    and "inst_ok (json_instance i) \<and> (inst_ID (json_instance i) = iid \<longrightarrow> burned (json_instance i) fp)"
    using similar_ok [OF similar_ensure] similar_ok [OF similar_json] burned_similar [OF similar_ensure]
      burned_similar [OF similar_json] keeps_name_json [of i]
    by (auto simp: keeps_name_def ensureMaps_def burned_def)
next
  fix i j
  assume "same_instance i j" "inst_ok i \<and> (inst_ID i = iid \<longrightarrow> burned i fp)"
  then show "inst_ok j \<and> (inst_ID j = iid \<longrightarrow> burned j fp)"
    using similar_ok [OF similar_order] burned_similar [OF similar_order] same_instance_fields(1)
    by (auto simp: keeps_name_def)
next
  fix i j
  assume "inst_ok i \<and> (inst_ID i = iid \<longrightarrow> burned i fp)" "inst_ok j" "keeps_name i j"
    "set (inst_Burned i) \<subseteq> set (inst_Burned j)"
  then show "inst_ok j \<and> (inst_ID j = iid \<longrightarrow> burned j fp)" by (auto simp: keeps_name_def burned_iff)
qed auto

lemma reachable_inv:
  assumes "reachable V h"
  shows "hub_inv inst_ok h"
  using assms
proof induction
  case (fresh cfg readable h)
  then show ?case by (intro hub_ok.New_inv) auto
next
  case (step h h')
  then show ?case using hub_ok.hub_step_inv by blast
qed

lemma reachable_instance:
  assumes "reachable V h" and "mget (instances (hub_store h)) k = Some i"
  shows "inst_ok i" and "inst_ID i = k" and "state_ok (st_state (hub_store h))"
  using reachable_inv [OF assms(1)] assms(2)
  by (auto simp: hub_inv_def store_inv_def all_instances_def state_ok_def)

end
