(* ===== verification/Settings.thy ===== *)
theory Settings
  imports Parse Bootstrap Reach
begin

text \<open>
  The hub's configuration, \<open>src/internal/hub/config.go\<close> and \<open>ParsePool\<close> of \<open>src/internal/hub/ipam.go\<close>:
  the file, the fragments merged into it, its defaults and checks, and the \<open>Config\<close> the hub runs on.

  The disk and the YAML library are parameters: \<open>disk\<close> says what reading a file and listing a
  directory give, \<open>yaml\<close> what a file holds once it is parsed.
\<close>

section \<open>Pools\<close>

datatype pool_err = NoPrefixLength string | NotAPool string | BadInstanceSize string | SizeDoesNotFit int prefix

definition ParsePool :: "unicode \<Rightarrow> string \<Rightarrow> pool_err + (prefix \<times> int)" where
  "ParsePool U raw =
     (let s = TrimSpace U raw in
      case cut_last (CHR ''/'') s of
        None \<Rightarrow> Inl (NoPrefixLength s)
      | Some (front, back) \<Rightarrow>
          (case ParsePrefix s of
             Some p \<Rightarrow>
               (let sz = (if Is6 (paddr p) then 112 else 24)
                in Inr (p, if sz < pbits p then pbits p else sz))
           | None \<Rightarrow>
               (case ParsePrefix front of
                  None \<Rightarrow> Inl (NotAPool s)
                | Some p \<Rightarrow>
                    (case Atoi back of
                       None \<Rightarrow> Inl (BadInstanceSize s)
                     | Some sz \<Rightarrow>
                         if sz < pbits p \<or> int (BitLen (paddr p)) < sz then Inl (SizeDoesNotFit sz p)
                         else Inr (Masked p, sz)))))"

section \<open>The file\<close>

record BinderEntry =
  be_Name :: string
  be_Key :: "string list"

record File =
  f_Endpoint :: string
  f_Bind :: string
  f_Listen :: string
  f_Entrypoint :: string
  f_Cert :: string
  f_TLSKey :: string
  f_StatePath :: string
  f_Overlays :: "string list"
  f_Ports :: string
  f_MTU :: "32 word"
  f_Relay :: "bool option"
  f_DNS :: "bool option"
  f_Token :: string
  f_Binder :: "BinderEntry list"
  f_Warnings :: "string list"

definition EntrypointHTTP :: string where "EntrypointHTTP = ''http''"
definition EntrypointHTTPS :: string where "EntrypointHTTPS = ''https''"

text \<open>A value that was not set stays as it was.\<close>

definition over :: "'a list \<Rightarrow> 'a list \<Rightarrow> 'a list" where
  "over old new = (if new = [] then old else new)"

definition over_ptr :: "'a option \<Rightarrow> 'a option \<Rightarrow> 'a option" where
  "over_ptr old new = (if new = None then old else new)"

definition merge :: "File \<Rightarrow> File \<Rightarrow> File" where
  "merge f other =
     \<lparr>f_Endpoint = over (f_Endpoint f) (f_Endpoint other),
      f_Bind = over (f_Bind f) (f_Bind other),
      f_Listen = over (f_Listen f) (f_Listen other),
      f_Entrypoint = over (f_Entrypoint f) (f_Entrypoint other),
      f_Cert = over (f_Cert f) (f_Cert other),
      f_TLSKey = over (f_TLSKey f) (f_TLSKey other),
      f_StatePath = over (f_StatePath f) (f_StatePath other),
      f_Overlays = over (f_Overlays f) (f_Overlays other),
      f_Ports = over (f_Ports f) (f_Ports other),
      f_MTU = (if f_MTU other = 0 then f_MTU f else f_MTU other),
      f_Relay = over_ptr (f_Relay f) (f_Relay other),
      f_DNS = over_ptr (f_DNS f) (f_DNS other),
      f_Token = over (f_Token f) (f_Token other),
      f_Binder = f_Binder f @ f_Binder other,
      f_Warnings = f_Warnings f @ f_Warnings other\<rparr>"

definition applyDefaults :: "File \<Rightarrow> File" where
  "applyDefaults f = f\<lparr>
     f_Bind := over ''0.0.0.0'' (f_Bind f),
     f_Listen := over '':8443'' (f_Listen f),
     f_StatePath := over ''/var/lib/robinet/hub.json'' (f_StatePath f),
     f_Overlays := over [''198.19.0.0/16/24''] (f_Overlays f),
     f_Entrypoint := over EntrypointHTTPS (f_Entrypoint f),
     f_Ports := over ''20000-24999'' (f_Ports f),
     f_MTU := (if f_MTU f = 0 then 1500 else f_MTU f),
     f_Relay := over_ptr (Some True) (f_Relay f),
     f_DNS := over_ptr (Some True) (f_DNS f)\<rparr>"

definition bareHost :: "string \<Rightarrow> string" where
  "bareHost s0 =
     (let s1 = (case Cut s0 ''://'' of Some (_, rest) \<Rightarrow> rest | None \<Rightarrow> s0);
          s = (case cut_char (CHR ''/'') s1 of Some (before, _) \<Rightarrow> before | None \<Rightarrow> s1)
      in if HasPrefix s ''['' then
           (case SplitHostPort s of
              Some (host, _) \<Rightarrow> host
            | None \<Rightarrow> trim_by (\<lambda>c. c = CHR ''['' \<or> c = CHR '']'') s)
         else if ParseAddr s \<noteq> None then s
         else (case SplitHostPort s of Some (host, _) \<Rightarrow> host | None \<Rightarrow> s))"

datatype file_err =
    EndpointRequired
  | EndpointIsURL string
  | EndpointHasPath string
  | EndpointHasPort string
  | TokenMissing
  | ErrNoBinders
  | CouldNotReadFile string
  | CouldNotParseFile string
  | CouldNotReadDir string
  | PoolError pool_err
  | OverlaysOverlap prefix prefix
  | NoIPv4Pool
  | BadEntrypoint string
  | BadPortRange string
  | BadLowPort string
  | BadHighPort string
  | PortRangeInverted string
  | BinderWithoutName
  | BinderTwice string
  | BinderKeys string sig_err
  | BinderWithoutKeys string
  | BindersShareKey string string string

definition validateEndpoint :: "unicode \<Rightarrow> string \<Rightarrow> file_err option" where
  "validateEndpoint U raw =
     (let endpoint = TrimSpace U raw; bare = bareHost endpoint in
      if endpoint = [] then Some EndpointRequired
      else if bare = endpoint then None
      else if contains_str endpoint ''://'' then Some (EndpointIsURL bare)
      else if contains_str endpoint ''/'' then Some (EndpointHasPath bare)
      else Some (EndpointHasPort bare))"

definition validate_file :: "unicode \<Rightarrow> File \<Rightarrow> file_err option" where
  "validate_file U f =
     (case validateEndpoint U (f_Endpoint f) of
        Some e \<Rightarrow> Some e
      | None \<Rightarrow>
          if TrimSpace U (f_Token f) = [] then Some TokenMissing
          else if length (f_Binder f) = 0 then Some ErrNoBinders
          else None)"

section \<open>Reading it\<close>

datatype dir_err = NoSuchDir | UnreadableDir

record disk =
  dk_ReadFile :: "string \<Rightarrow> string option"
  dk_ReadDir :: "string \<Rightarrow> dir_err + (string \<times> bool) list"

definition readConfig :: "disk \<Rightarrow> (string \<Rightarrow> File option) \<Rightarrow> string \<Rightarrow> file_err + File" where
  "readConfig D yaml path =
     (case dk_ReadFile D path of
        None \<Rightarrow> Inl (CouldNotReadFile path)
      | Some raw \<Rightarrow> (case yaml raw of None \<Rightarrow> Inl (CouldNotParseFile path) | Some f \<Rightarrow> Inr (f\<lparr>f_Warnings := []\<rparr>)))"

text \<open>The extension of a name without a slash, and the path of an entry of a directory.\<close>

definition Ext :: "string \<Rightarrow> string" where
  "Ext name = (case cut_last dot name of None \<Rightarrow> [] | Some (_, e) \<Rightarrow> dot # e)"

definition path_join :: "string \<Rightarrow> string \<Rightarrow> string" where
  "path_join dir name = dir @ ''/'' @ name"

definition configFilesIn :: "unicode \<Rightarrow> disk \<Rightarrow> string \<Rightarrow> dir_err + string list" where
  "configFilesIn U D dir =
     (case dk_ReadDir D dir of
        Inl e \<Rightarrow> Inl e
      | Inr entries \<Rightarrow>
          Inr (sort (map (\<lambda>(name, _). path_join dir name)
            (filter (\<lambda>(name, isdir). \<not> isdir \<and> ToLower U (Ext name) \<in> {''.yaml'', ''.yml''}) entries))))"

fun merge_files :: "disk \<Rightarrow> (string \<Rightarrow> File option) \<Rightarrow> string list \<Rightarrow> File \<Rightarrow> file_err + File" where
  "merge_files D yaml [] f = Inr f"
| "merge_files D yaml (extra # rest) f =
     (case readConfig D yaml extra of
        Inl e \<Rightarrow> Inl e
      | Inr part \<Rightarrow> merge_files D yaml rest (merge f part))"

definition missing_dir :: "string \<Rightarrow> string" where
  "missing_dir dir = dir @ '' does not exist, no binder fragments read from it''"

fun merge_dirs :: "unicode \<Rightarrow> disk \<Rightarrow> (string \<Rightarrow> File option) \<Rightarrow> string list \<Rightarrow> File \<Rightarrow> file_err + File" where
  "merge_dirs U D yaml [] f = Inr f"
| "merge_dirs U D yaml (dir # rest) f =
     (case configFilesIn U D dir of
        Inl NoSuchDir \<Rightarrow> merge_dirs U D yaml rest (f\<lparr>f_Warnings := f_Warnings f @ [missing_dir dir]\<rparr>)
      | Inl UnreadableDir \<Rightarrow> Inl (CouldNotReadDir dir)
      | Inr files \<Rightarrow>
          (case merge_files D yaml files f of
             Inl e \<Rightarrow> Inl e
           | Inr g \<Rightarrow> merge_dirs U D yaml rest g))"

text \<open>A file that was read comes back together with what \<open>validate\<close> says of it.\<close>

definition LoadFile ::
  "unicode \<Rightarrow> disk \<Rightarrow> (string \<Rightarrow> File option) \<Rightarrow> string \<Rightarrow> string list \<Rightarrow> File option \<times> file_err option" where
  "LoadFile U D yaml path dirs =
     (case readConfig D yaml path of
        Inl e \<Rightarrow> (None, Some e)
      | Inr f \<Rightarrow>
          (case merge_dirs U D yaml dirs f of
             Inl e \<Rightarrow> (None, Some e)
           | Inr g \<Rightarrow> (Some (applyDefaults g), validate_file U (applyDefaults g))))"

section \<open>What the hub runs on\<close>

definition parsePortRange :: "unicode \<Rightarrow> string \<Rightarrow> file_err + (16 word \<times> 16 word)" where
  "parsePortRange U s =
     (case cut_char hyphen s of
        None \<Rightarrow> Inl (BadPortRange s)
      | Some (lo, hi) \<Rightarrow>
          (case ParseUint16 (TrimSpace U lo) of
             None \<Rightarrow> Inl (BadLowPort s)
           | Some low \<Rightarrow>
               (case ParseUint16 (TrimSpace U hi) of
                  None \<Rightarrow> Inl (BadHighPort s)
                | Some high \<Rightarrow> if high < low then Inl (PortRangeInverted s) else Inr (low, high))))"

fun refuseOverlap :: "Pool list \<Rightarrow> file_err option" where
  "refuseOverlap [] = None"
| "refuseOverlap (a # rest) =
     (case find (\<lambda>b. Overlaps (pool_Prefix a) (pool_Prefix b)) rest of
        Some b \<Rightarrow> Some (OverlaysOverlap (pool_Prefix a) (pool_Prefix b))
      | None \<Rightarrow> refuseOverlap rest)"

text \<open>The pools of the file, by family.\<close>

fun read_pools :: "unicode \<Rightarrow> string list \<Rightarrow> Pool list \<Rightarrow> Pool list \<Rightarrow> file_err + (Pool list \<times> Pool list)" where
  "read_pools U [] pools pools6 = Inr (pools, pools6)"
| "read_pools U (raw # rest) pools pools6 =
     (case ParsePool U raw of
        Inl e \<Rightarrow> Inl (PoolError e)
      | Inr (p, sz) \<Rightarrow>
          if Is4 (paddr p) then read_pools U rest (pools @ [\<lparr>pool_Prefix = p, pool_Size = sz\<rparr>]) pools6
          else read_pools U rest pools (pools6 @ [\<lparr>pool_Prefix = p, pool_Size = sz\<rparr>]))"

fun read_binders ::
  "unicode \<Rightarrow> sshlib \<Rightarrow> BinderEntry list \<Rightarrow> (string \<times> ssh_key list) list \<Rightarrow> file_err + (string \<times> ssh_key list) list" where
  "read_binders U S [] acc = Inr acc"
| "read_binders U S (b # rest) acc =
     (let name = TrimSpace U (be_Name b) in
      if name = [] then Inl BinderWithoutName
      else if map_of acc name \<noteq> None then Inl (BinderTwice name)
      else case ParseAuthorizedKeys U S (be_Key b) of
             Inl e \<Rightarrow> Inl (BinderKeys name e)
           | Inr ks \<Rightarrow>
               if length ks = 0 then Inl (BinderWithoutKeys name)
               else read_binders U S rest (acc @ [(name, ks)]))"

definition FingerprintSHA256 :: "crypto \<Rightarrow> ssh_key \<Rightarrow> string" where
  "FingerprintSHA256 C key =
     ''SHA256:'' @ map b64std_char (sextets (map of_char (cr_sha256 C key)))"

text \<open>The keys of the binders one after the other, each with the name it was seen under.\<close>

fun seen_loop :: "crypto \<Rightarrow> (string \<times> ssh_key) list \<Rightarrow> (string \<times> string) list \<Rightarrow> file_err option" where
  "seen_loop C [] seen = None"
| "seen_loop C ((name, key) # rest) seen =
     (let fp = FingerprintSHA256 C key in
      case map_of seen fp of
        Some other \<Rightarrow> Some (BindersShareKey other name fp)
      | None \<Rightarrow> seen_loop C rest ((fp, name) # seen))"

definition binder_keys :: "(string \<times> ssh_key list) list \<Rightarrow> (string \<times> ssh_key) list" where
  "binder_keys bs = concat (map (\<lambda>(name, ks). map (Pair name) ks) bs)"

text \<open>
  \<open>order\<close> is the order in which the map of binders is walked. \<open>Relay\<close> and \<open>DNS\<close> are dereferenced,
  which panics on a file without its defaults.
\<close>

definition File_Config ::
  "crypto \<Rightarrow> unicode \<Rightarrow> sshlib \<Rightarrow> ((string \<times> ssh_key list) list \<Rightarrow> (string \<times> ssh_key list) list) \<Rightarrow> File \<Rightarrow> (file_err, Config) out" where
  "File_Config C U S order f =
     (case read_pools U (f_Overlays f) [] [] of
        Inl e \<Rightarrow> Fail e
      | Inr (pools, pools6) \<Rightarrow>
     (case refuseOverlap (pools @ pools6) of
        Some e \<Rightarrow> Fail e
      | None \<Rightarrow>
     if length pools = 0 then Fail NoIPv4Pool
     else if f_Entrypoint f \<noteq> EntrypointHTTP \<and> f_Entrypoint f \<noteq> EntrypointHTTPS then Fail (BadEntrypoint (f_Entrypoint f))
     else
     (case parsePortRange U (f_Ports f) of
        Inl e \<Rightarrow> Fail e
      | Inr (low, high) \<Rightarrow>
     (case read_binders U S (f_Binder f) [] of
        Inl e \<Rightarrow> Fail e
      | Inr bs \<Rightarrow>
     (case seen_loop C (binder_keys (order bs)) [] of
        Some e \<Rightarrow> Fail e
      | None \<Rightarrow>
     (case (f_Relay f, f_DNS f) of
        (Some relay, Some dns) \<Rightarrow>
          Ret \<lparr>cfg_APIAddr = f_Listen f, cfg_NebulaBind = f_Bind f, cfg_PublicEndpoint = f_Endpoint f,
               cfg_PortMin = low, cfg_PortMax = high, cfg_Overlays = pools, cfg_Overlays6 = pools6,
               cfg_Token = f_Token f, cfg_Binders = Some (order bs), cfg_StatePath = f_StatePath f,
               cfg_MTU = f_MTU f, cfg_Relay = relay, cfg_DNS = dns, cfg_NoLighthouseTun = False\<rparr>
      | _ \<Rightarrow> Panic))))))"

section \<open>Binders\<close>

definition AllKeys :: "(string, ssh_key list) gomap \<Rightarrow> ssh_key list" where
  "AllKeys bs = concat (vals bs)"

definition Match :: "(string, ssh_key list) gomap \<Rightarrow> ssh_key \<Rightarrow> string option" where
  "Match bs key =
     map_option fst (find (\<lambda>(name, ks). \<exists>candidate \<in> set ks. SameKey (Some key) (Some candidate)) (items bs))"

section \<open>Facts about pools\<close>

lemma div_coarser: "(a :: nat) div 2 ^ j = b div 2 ^ j \<Longrightarrow> j \<le> k \<Longrightarrow> a div 2 ^ k = b div 2 ^ k"
  by (metis div_mult2_eq le_add_diff_inverse power_add)

text \<open>Two prefixes that hold a common address overlap.\<close>

lemma Overlaps_common:
  assumes p: "wf_prefix p" "Contains p a" and q: "wf_prefix q" "Contains q a"
  shows "Overlaps p q"
proof -
  have sf: "same_family (paddr p) (paddr q)"
    using assms Contains_family same_family_sym same_family_trans by blast
  then have bl: "BitLen (paddr q) = BitLen (paddr p)" by (simp add: same_family_def)
  have valid: "PrefixIsValid p" "PrefixIsValid q" using p q by (simp_all add: wf_prefix_def PrefixIsValid_def)
  have is4: "Is4 (paddr p) = Is4 (paddr q)" using bl by (cases "paddr p"; cases "paddr q") simp_all
  define m where "m = min (pbits p) (pbits q)"
  have m: "0 \<le> m" "m \<le> pbits p" "m \<le> pbits q" using p q by (simp_all add: m_def wf_prefix_def)
  let ?p = "Prefix (paddr p) m" and ?q = "Prefix (paddr q) m"
  have wf: "wf_prefix ?p" "wf_prefix ?q" using p q m by (auto simp: wf_prefix_def)
  have hb: "hostbits ?q = hostbits ?p" "hostbits p \<le> hostbits ?p" "hostbits q \<le> hostbits ?p"
    using m bl by (simp_all add: hostbits_def diff_le_mono2 nat_mono)
  have "val (paddr p) div 2 ^ hostbits ?p = val (paddr q) div 2 ^ hostbits ?p"
    using div_coarser [OF _ hb(2)] div_coarser [OF _ hb(3)] p q by (metis Contains_iff)
  then have "val (paddr (Masked ?p)) = val (paddr (Masked ?q))" using Masked_addr(2) wf hb(1) by simp
  moreover have "same_family (paddr (Masked ?p)) (paddr (Masked ?q))"
    using sf Masked_addr(1) [OF wf(1)] Masked_addr(1) [OF wf(2)] same_family_sym same_family_trans by (metis prefix.sel(1))
  ultimately have "paddr (Masked ?p) = paddr (Masked ?q)" using val_inj by blast
  then show ?thesis using valid is4 by (simp add: Overlaps_def Masked_def m_def Let_def)
qed

lemma ParsePool_fits: "ParsePool U raw = Inr (p, sz) \<Longrightarrow> pool_fits \<lparr>pool_Prefix = p, pool_Size = sz\<rparr>"
proof -
  assume a: "ParsePool U raw = Inr (p, sz)"
  then consider (plain) "ParsePrefix (TrimSpace U raw) = Some p" "sz = max (pbits p) (if Is6 (paddr p) then 112 else 24)"
    | (sized) p0 where "p = Masked p0" "wf_prefix p0" "pbits p0 \<le> sz" "sz \<le> int (BitLen (paddr p0))"
    by (auto simp: ParsePool_def Let_def max_def dest: ParsePrefix_wf split: option.splits if_splits prod.splits)
  then show ?thesis
  proof cases
    case plain
    from ParsePrefix_wf [OF plain(1)] plain(2) show ?thesis by (cases "paddr p") (auto simp: pool_fits_def wf_prefix_def)
  next
    case sized
    with Masked_wf [OF sized(2)] Masked_addr(1,3) [OF sized(2)] show ?thesis by (simp add: pool_fits_def same_family_def)
  qed
qed

lemma TrimSpace_printable:
  assumes "\<forall>c \<in> set s. is_digit c \<or> c = dot \<or> c = CHR ''/''"
  shows "TrimSpace U s = s"
proof -
  have "ascii s" using assms by (force simp: ascii_iff is_ascii_def is_digit_def dot_def Let_def)
  moreover have "\<forall>c \<in> set s. \<not> is_space c" using assms by (force simp: is_space_def is_digit_def dot_def Let_def)
  ultimately show ?thesis by (simp add: TrimSpace_def trim_by_none)
qed

lemma ParsePool_sized:
  assumes "wf_prefix (Prefix (Addr4 w) n)" and "n \<le> int sz" and "sz \<le> 32"
  shows "ParsePool U (PrefixString (Prefix (Addr4 w) n) @ ''/'' @ digits_of sz) = Inr (Masked (Prefix (Addr4 w) n), int sz)"
proof -
  let ?p = "Prefix (Addr4 w) n" and ?s = "PrefixString (Prefix (Addr4 w) n) @ CHR ''/'' # digits_of sz"
  have "CHR ''/'' \<notin> set (digits_of sz)" by (rule digits_of_no) (simp add: is_digit_def)
  then have c: "cut_last (CHR ''/'') ?s = Some (PrefixString ?p, digits_of sz)" by (rule cut_last_append)
  have t: "TrimSpace U ?s = ?s"
    using PrefixString4_chars [OF assms(1)] digits_of_digits by (intro TrimSpace_printable) auto
  have "PrefixString ?p = AddrString (Addr4 w) @ CHR ''/'' # digits_of (nat n)"
    using assms(1) by (simp add: PrefixString_def PrefixIsValid_def wf_prefix_def)
  then have "ParsePrefix ?s = None" using c ParseAddr_string4_slash [of w] by (simp add: ParsePrefix_def)
  moreover have "Atoi (digits_of sz) = Some (int sz)" using assms(3) by (intro Atoi_digits_of) simp
  ultimately show ?thesis
    using c t ParsePrefix_PrefixString4 [OF assms(1)] assms(2,3) by (simp add: ParsePool_def Let_def)
qed

lemma ParsePool_plain:
  assumes "wf_prefix (Prefix (Addr4 w) n)"
  shows "ParsePool U (PrefixString (Prefix (Addr4 w) n)) = Inr (Prefix (Addr4 w) n, max n 24)"
proof -
  let ?p = "Prefix (Addr4 w) n"
  have "PrefixString ?p = AddrString (Addr4 w) @ CHR ''/'' # digits_of (nat n)"
    using assms by (simp add: PrefixString_def PrefixIsValid_def wf_prefix_def)
  moreover have "CHR ''/'' \<notin> set (digits_of (nat n))" by (rule digits_of_no) (simp add: is_digit_def)
  ultimately have "cut_last (CHR ''/'') (PrefixString ?p) = Some (AddrString (Addr4 w), digits_of (nat n))"
    using cut_last_append by metis
  moreover have "TrimSpace U (PrefixString ?p) = PrefixString ?p"
    using PrefixString4_chars [OF assms] by (intro TrimSpace_printable) blast
  ultimately show ?thesis
    using ParsePrefix_PrefixString4 [OF assms] by (simp add: ParsePool_def Let_def max_def)
qed

definition family_ok :: "Pool list \<Rightarrow> Pool list \<Rightarrow> bool" where
  "family_ok pools pools6 \<longleftrightarrow> (\<forall>p \<in> set pools. pool_fits p \<and> Is4 (paddr (pool_Prefix p)))
     \<and> (\<forall>p \<in> set pools6. pool_fits p \<and> Is6 (paddr (pool_Prefix p)))"

lemma read_pools_ok:
  "read_pools U raws pools pools6 = Inr (ps, ps6) \<Longrightarrow> family_ok pools pools6 \<Longrightarrow> family_ok ps ps6"
proof (induction U raws pools pools6 rule: read_pools.induct)
  case (2 U raw rest pools pools6)
  from 2(3) obtain p sz where p: "ParsePool U raw = Inr (p, sz)" by (auto split: sum.splits)
  note fits = ParsePool_fits [OF p]
  have "Is6 (paddr p)" if "\<not> Is4 (paddr p)"
    using fits that by (cases "paddr p") (auto simp: pool_fits_def wf_prefix_def)
  with 2(1,2) [OF p refl] 2(3,4) p fits show ?case by (auto simp: family_ok_def split: if_splits)
qed auto

lemma refuseOverlap_None:
  "refuseOverlap ps = None \<longleftrightarrow> sorted_wrt (\<lambda>a b. \<not> Overlaps (pool_Prefix a) (pool_Prefix b)) ps"
  by (induction ps rule: refuseOverlap.induct) (auto simp: find_None_iff split: option.splits dest: find_SomeD)

lemma disjoint_subnets:
  assumes "pool_fits p" and "pool_fits q" and "\<not> Overlaps (pool_Prefix p) (pool_Prefix q)"
  shows "subnets p \<inter> subnets q = {}"
  using assms Overlaps_common by (auto simp: subnets_def pool_fits_def)

section \<open>Facts about binders\<close>

lemma read_binders_ok:
  "read_binders U S es acc = Inr bs \<Longrightarrow> distinct (map fst acc) \<Longrightarrow> (\<forall>(n, ks) \<in> set acc. n \<noteq> [] \<and> ks \<noteq> [])
     \<Longrightarrow> distinct (map fst bs) \<and> (\<forall>(n, ks) \<in> set bs. n \<noteq> [] \<and> ks \<noteq> [])"
proof (induction U S es acc rule: read_binders.induct)
  case (2 U S b rest acc)
  let ?n = "TrimSpace U (be_Name b)"
  from 2(2) obtain ks where k: "?n \<noteq> []" "map_of acc ?n = None" "ParseAuthorizedKeys U S (be_Key b) = Inr ks" "ks \<noteq> []"
    "read_binders U S rest (acc @ [(?n, ks)]) = Inr bs"
    by (auto simp: Let_def simp del: not_None_eq split: if_splits sum.splits)
  have "?n \<notin> set (map fst acc)" using k(2) by (simp add: map_of_eq_None_iff)
  moreover have "\<forall>(n, ks) \<in> set (acc @ [(?n, ks)]). n \<noteq> [] \<and> ks \<noteq> []" using 2(4) k(1,4) by auto
  moreover have "distinct (map fst (acc @ [(?n, ks)]))" using 2(3) calculation(1) by auto
  ultimately show ?case
    using 2(1) [OF refl k(1) _ k(3) _ k(5)] k(2,4) by (simp add: Let_def)
qed auto

lemma seen_loop_None:
  "seen_loop C nks seen = None \<Longrightarrow> distinct (map (FingerprintSHA256 C \<circ> snd) nks)
     \<and> (\<forall>(n, k) \<in> set nks. map_of seen (FingerprintSHA256 C k) = None)"
proof (induction C nks seen rule: seen_loop.induct)
  case (2 C name key rest seen)
  let ?fp = "FingerprintSHA256 C key"
  from 2(2) have n: "map_of seen ?fp = None" "seen_loop C rest ((?fp, name) # seen) = None"
    by (auto simp: Let_def split: option.splits)
  from 2(1) [OF refl n] have d: "distinct (map (FingerprintSHA256 C \<circ> snd) rest)"
    "\<forall>(m, k) \<in> set rest. map_of ((?fp, name) # seen) (FingerprintSHA256 C k) = None" by blast+
  from d(2) have "\<forall>(m, k) \<in> set rest. FingerprintSHA256 C k \<noteq> ?fp \<and> map_of seen (FingerprintSHA256 C k) = None"
    by (auto split: if_splits)
  with n(1) d(1) show ?case by (auto simp: image_iff comp_def)
qed auto

lemma snd_binder_keys: "map snd (binder_keys bs) = AllKeys (Some bs)"
  by (induction bs) (auto simp: binder_keys_def AllKeys_def vals_def comp_def)

lemma seen_loop_distinct: "seen_loop C (binder_keys bs) [] = None \<Longrightarrow> distinct (AllKeys (Some bs))"
  using seen_loop_None [of C "binder_keys bs" "[]"] by (metis distinct_map map_map snd_binder_keys)

lemma distinct_concat_owner:
  "distinct (concat (map snd l)) \<Longrightarrow> x \<in> set l \<Longrightarrow> y \<in> set l \<Longrightarrow> k \<in> set (snd x) \<Longrightarrow> k \<in> set (snd y) \<Longrightarrow> x = y"
  by (induction l) auto

lemma Match_Some:
  assumes "wf_map bs" and "distinct (AllKeys bs)"
  shows "Match bs key = Some name \<longleftrightarrow> (\<exists>ks. mget bs name = Some ks \<and> key \<in> set ks)"
proof
  assume "Match bs key = Some name"
  then obtain ks where "find (\<lambda>(name, ks). \<exists>c \<in> set ks. SameKey (Some key) (Some c)) (items bs) = Some (name, ks)"
    by (auto simp: Match_def)
  from find_SomeD [OF this] show "\<exists>ks. mget bs name = Some ks \<and> key \<in> set ks"
    using mget_items [OF assms(1)] by auto
next
  assume "\<exists>ks. mget bs name = Some ks \<and> key \<in> set ks"
  then obtain ks where ks: "(name, ks) \<in> set (items bs)" "key \<in> set ks" using mget_in_items by metis
  let ?P = "\<lambda>(name, ks). \<exists>c \<in> set ks. SameKey (Some key) (Some c)"
  obtain n' ks' where f: "find ?P (items bs) = Some (n', ks')"
    using ks find_NoneD [of ?P "items bs" "(name, ks)"] by (cases "find ?P (items bs)") auto
  from find_SomeD [OF f] have k': "(n', ks') \<in> set (items bs)" "key \<in> set ks'" by auto
  have "(n', ks') = (name, ks)"
    using distinct_concat_owner [OF _ k'(1) ks(1), of key] k'(2) ks(2) assms(2) by (simp add: AllKeys_def vals_def)
  with f show "Match bs key = Some name" by (simp add: Match_def)
qed

lemma Match_None: "Match bs key = None \<longleftrightarrow> key \<notin> set (AllKeys bs)"
  by (auto simp: Match_def AllKeys_def vals_def find_None_iff)

section \<open>Properties\<close>

text \<open>What \<open>Config\<close> went through when it gave a configuration.\<close>

lemma File_Config_Ret:
  assumes "File_Config C U S order f = Ret cfg"
  obtains bs where "read_pools U (f_Overlays f) [] [] = Inr (cfg_Overlays cfg, cfg_Overlays6 cfg)"
    and "refuseOverlap (cfg_Overlays cfg @ cfg_Overlays6 cfg) = None" and "cfg_Overlays cfg \<noteq> []"
    and "parsePortRange U (f_Ports f) = Inr (cfg_PortMin cfg, cfg_PortMax cfg)"
    and "read_binders U S (f_Binder f) [] = Inr bs" and "seen_loop C (binder_keys (order bs)) [] = None"
    and "cfg_Binders cfg = Some (order bs)"
  using assms unfolding File_Config_def
  by (auto split: sum.splits prod.splits option.splits if_splits)

lemma File_Config_ok:
  assumes "File_Config C U S order f = Ret cfg"
  shows "family_ok (cfg_Overlays cfg) (cfg_Overlays6 cfg)" and "cfg_ok cfg"
proof -
  from assms have "read_pools U (f_Overlays f) [] [] = Inr (cfg_Overlays cfg, cfg_Overlays6 cfg)" by (rule File_Config_Ret)
  from read_pools_ok [OF this] show "family_ok (cfg_Overlays cfg) (cfg_Overlays6 cfg)" by (simp add: family_ok_def)
  then show "cfg_ok cfg" by (auto simp: cfg_ok_def family_ok_def)
qed

text \<open>
  C28: a configuration that is accepted is one the rest of the hub can rely on: every pool is a valid
  prefix whose instance size fits it, in the list of its family, with at least one pool of IPv4; no
  two pools can hand out the same prefix; and the port range is not inverted.
\<close>

theorem config_is_sound:
  assumes "File_Config C U S order f = Ret cfg"
  shows "cfg_ok cfg \<and> family_ok (cfg_Overlays cfg) (cfg_Overlays6 cfg) \<and> cfg_Overlays cfg \<noteq> []
    \<and> (\<forall>i j. i < j \<longrightarrow> j < length (cfg_Overlays cfg @ cfg_Overlays6 cfg) \<longrightarrow>
         subnets ((cfg_Overlays cfg @ cfg_Overlays6 cfg) ! i) \<inter> subnets ((cfg_Overlays cfg @ cfg_Overlays6 cfg) ! j) = {})
    \<and> cfg_PortMin cfg \<le> cfg_PortMax cfg"
proof -
  let ?ps = "cfg_Overlays cfg @ cfg_Overlays6 cfg"
  from assms obtain bs where F: "read_pools U (f_Overlays f) [] [] = Inr (cfg_Overlays cfg, cfg_Overlays6 cfg)"
    "refuseOverlap ?ps = None" "cfg_Overlays cfg \<noteq> []"
    "parsePortRange U (f_Ports f) = Inr (cfg_PortMin cfg, cfg_PortMax cfg)"
    by (rule File_Config_Ret)
  note fam = File_Config_ok(1) [OF assms]
  then have fits: "pool_fits p" if "p \<in> set ?ps" for p using that by (auto simp: family_ok_def)
  have "subnets (?ps ! i) \<inter> subnets (?ps ! j) = {}" if "i < j" "j < length ?ps" for i j
  proof (rule disjoint_subnets)
    show "pool_fits (?ps ! i)" "pool_fits (?ps ! j)" using that fits by (meson nth_mem less_trans)+
    show "\<not> Overlaps (pool_Prefix (?ps ! i)) (pool_Prefix (?ps ! j))"
      using F(2) that unfolding refuseOverlap_None sorted_wrt_iff_nth_less by blast
  qed
  moreover have "cfg_PortMin cfg \<le> cfg_PortMax cfg"
    using F(4) by (auto simp: parsePortRange_def split: option.splits prod.splits if_splits)
  ultimately show ?thesis using fam F(3) File_Config_ok(2) [OF assms] by blast
qed

text \<open>
  Whose signature it is does not depend on the order the map of binders is walked in: a key names
  the one binder it is listed under, and every key a registration is checked against names one.
\<close>

theorem key_names_one_binder:
  assumes "File_Config C U S order f = Ret cfg" and "\<forall>bs. mset (order bs) = mset bs"
  shows "(Match (cfg_Binders cfg) key = Some name \<longleftrightarrow> (\<exists>ks. mget (cfg_Binders cfg) name = Some ks \<and> key \<in> set ks))
    \<and> (key \<in> set (AllKeys (cfg_Binders cfg)) \<longleftrightarrow> (\<exists>n. Match (cfg_Binders cfg) key = Some n \<and> n \<noteq> []))"
proof -
  from assms(1) obtain bs where F: "read_binders U S (f_Binder f) [] = Inr bs"
    "seen_loop C (binder_keys (order bs)) [] = None" "cfg_Binders cfg = Some (order bs)"
    by (rule File_Config_Ret)
  have p: "mset (order bs) = mset bs" using assms(2) by blast
  have ok: "distinct (map fst bs)" "\<forall>(n, ks) \<in> set bs. n \<noteq> [] \<and> ks \<noteq> []"
    using read_binders_ok [OF F(1)] by simp_all
  have "distinct (map fst (order bs))" using ok(1) mset_eq_imp_distinct_iff [of "map fst (order bs)" "map fst bs"] p by simp
  then have wf: "wf_map (cfg_Binders cfg)" by (simp add: F(3) wf_map_def)
  have d: "distinct (AllKeys (cfg_Binders cfg))" using seen_loop_distinct [OF F(2)] by (simp add: F(3))
  have ne: "n \<noteq> []" if "mget (cfg_Binders cfg) n = Some ks" for n ks
    using mget_in_items [OF that] ok(2) mset_eq_setD [OF p] by (auto simp: F(3))
  have m: "Match (cfg_Binders cfg) key = Some n \<longleftrightarrow> (\<exists>ks. mget (cfg_Binders cfg) n = Some ks \<and> key \<in> set ks)" for n
    by (rule Match_Some [OF wf d])
  have "key \<in> set (AllKeys (cfg_Binders cfg)) \<longleftrightarrow> (\<exists>n. Match (cfg_Binders cfg) key = Some n \<and> n \<noteq> [])"
  proof (cases "Match (cfg_Binders cfg) key")
    case None
    then show ?thesis using Match_None [of "cfg_Binders cfg" key] by simp
  next
    case (Some n)
    then obtain ks where "mget (cfg_Binders cfg) n = Some ks" using m [of n] by blast
    then have "n \<noteq> []" by (rule ne)
    then show ?thesis using Some Match_None [of "cfg_Binders cfg" key] by simp
  qed
  with m show ?thesis by blast
qed

text \<open>A small configuration to run the code on.\<close>

definition example_file :: File where
  "example_file = \<lparr>f_Endpoint = ''hub.example'', f_Bind = [], f_Listen = [], f_Entrypoint = [], f_Cert = [], f_TLSKey = [],
     f_StatePath = [], f_Overlays = [''10.0.0.0/30/31''], f_Ports = ''1-2'', f_MTU = 0, f_Relay = None, f_DNS = None,
     f_Token = ''t'', f_Binder = [\<lparr>be_Name = ''ops '', be_Key = [''# mine'', ''k1'', ''k2'']\<rparr>], f_Warnings = []\<rparr>"

definition example_part :: File where
  "example_part = example_file\<lparr>f_Endpoint := [], f_Overlays := [], f_Ports := [], f_Token := ''u'',
     f_Binder := [\<lparr>be_Name = ''dev'', be_Key = [''k3'']\<rparr>]\<rparr>"

definition file_config :: Config where
  "file_config = \<lparr>cfg_APIAddr = '':8443'', cfg_NebulaBind = ''0.0.0.0'', cfg_PublicEndpoint = ''hub.example'',
     cfg_PortMin = 1, cfg_PortMax = 2,
     cfg_Overlays = [\<lparr>pool_Prefix = Prefix (Addr4 0x0A000000) 30, pool_Size = 31\<rparr>],
     cfg_Overlays6 = [],
     cfg_Token = ''t'', cfg_Binders = Some [(''ops'', [''k1'', ''k2''])], cfg_StatePath = ''/var/lib/robinet/hub.json'',
     cfg_MTU = 1500, cfg_Relay = True, cfg_DNS = True, cfg_NoLighthouseTun = False\<rparr>"

lemma example_stages:
  "parsePortRange no_unicode ''1-2'' = Inr (1, 2)"
  "read_binders no_unicode example_sshlib [\<lparr>be_Name = ''ops '', be_Key = [''# mine'', ''k1'', ''k2'']\<rparr>] [] = Inr [(''ops'', [''k1'', ''k2''])]"
  "seen_loop example_crypto (binder_keys (rev [(''ops'', [''k1'', ''k2''])])) [] = None"
proof -
  have "TrimSpace no_unicode ''1'' = ''1''" "TrimSpace no_unicode ''2'' = ''2''" "cut_char hyphen ''1-2'' = Some (''1'', ''2'')"
    by code_simp+
  then show "parsePortRange no_unicode ''1-2'' = Inr (1, 2)"
    by (simp add: parsePortRange_def ParseUint16_def decimal_def digits_val_def is_digit_def)
qed code_simp+

lemma digit_chars: "char_of (48 :: nat) = CHR ''0''" "char_of (49 :: nat) = CHR ''1''" "char_of (51 :: nat) = CHR ''3''"
  by code_simp+

lemma example_pools: "ParsePool no_unicode ''10.0.0.0/30/31'' = Inr (Prefix (Addr4 0x0A000000) 30, 31)"
proof -
  have "PrefixString (Prefix (Addr4 0x0A000000) 30) @ ''/'' @ digits_of 31 = ''10.0.0.0/30/31''"
    by (simp add: PrefixString_def PrefixIsValid_def string4_def digits_of.simps upt_rec digit_chars)
  with ParsePool_sized [of "0x0A000000" 30 31 no_unicode] show ?thesis
    by (simp add: wf_prefix_def Masked_def PrefixFrom_def mask_eq_exp_minus_1)
qed

lemma file_config_ret:
  "File_Config example_crypto no_unicode example_sshlib rev (applyDefaults example_file) = Ret file_config"
  using example_stages example_pools
  by (simp add: File_Config_def applyDefaults_def example_file_def file_config_def over_def over_ptr_def
      EntrypointHTTP_def EntrypointHTTPS_def)

theorem config_is_sound_witness: "cfg_ok file_config \<and> cfg_PortMin file_config \<le> cfg_PortMax file_config"
  using config_is_sound [OF file_config_ret] by blast

theorem key_names_one_binder_witness: "Match (cfg_Binders file_config) ''k2'' = Some ''ops''"
proof -
  have "\<exists>ks. mget (cfg_Binders file_config) ''ops'' = Some ks \<and> ''k2'' \<in> set ks"
    by (simp add: file_config_def mget_def)
  then show ?thesis using key_names_one_binder [OF file_config_ret, of "''k2''" "''ops''"] by simp
qed

subsection \<open>Fragments\<close>

lemma over_assoc: "over (over a b) c = over a (over b c)" "over_ptr (over_ptr x y) z = over_ptr x (over_ptr y z)"
  by (simp add: over_def) (cases y; cases z; simp add: over_ptr_def)

lemma merge_assoc: "merge (merge a b) c = merge a (merge b c)"
  by (simp add: merge_def over_assoc)

lemma merge_foldl:
  "f_Binder (foldl merge f parts) = concat (map f_Binder (f # parts))"
  "f_Token (foldl merge f parts) = foldl over (f_Token f) (map f_Token parts)"
  "f_Endpoint (foldl merge f parts) = foldl over (f_Endpoint f) (map f_Endpoint parts)"
  by (induction parts arbitrary: f) (simp_all add: merge_def)

lemma foldl_over: "foldl over x ys = last (x # filter (\<lambda>y. y \<noteq> []) ys)"
  by (induction ys arbitrary: x) (simp_all add: over_def)

definition fragments :: "unicode \<Rightarrow> disk \<Rightarrow> string list \<Rightarrow> string list" where
  "fragments U D dirs = concat (map (\<lambda>dir. case configFilesIn U D dir of Inr fs \<Rightarrow> fs | Inl _ \<Rightarrow> []) dirs)"

lemma merge_warnings: "merge (f\<lparr>f_Warnings := w\<rparr>) g = (merge f g)\<lparr>f_Warnings := w @ f_Warnings g\<rparr>"
  by (simp add: merge_def)

lemma foldl_merge_warnings:
  "\<forall>g \<in> set parts. f_Warnings g = [] \<Longrightarrow>
     foldl merge (f\<lparr>f_Warnings := w\<rparr>) parts = (foldl merge f parts)\<lparr>f_Warnings := w\<rparr>"
  by (induction parts arbitrary: f) (simp_all add: merge_warnings)

lemma readConfig_warnings: "readConfig D yaml path = Inr f \<Longrightarrow> f_Warnings f = []"
  by (auto simp: readConfig_def split: option.splits)

lemma merge_files_Inr:
  "merge_files D yaml files f = Inr g \<Longrightarrow> \<exists>parts. map (readConfig D yaml) files = map Inr parts \<and> g = foldl merge f parts"
proof (induction D yaml files f rule: merge_files.induct)
  case (2 D yaml extra rest f)
  from 2(2) obtain part where p: "readConfig D yaml extra = Inr part" "merge_files D yaml rest (merge f part) = Inr g"
    by (auto split: sum.splits)
  from 2(1) [OF p] obtain parts where "map (readConfig D yaml) rest = map Inr parts" "g = foldl merge (merge f part) parts"
    by blast
  with p(1) show ?case by (intro exI [of _ "part # parts"]) simp
qed simp

lemma map_readConfig_warnings: "map (readConfig D yaml) files = map Inr parts \<Longrightarrow> \<forall>g \<in> set parts. f_Warnings g = []"
  by (induction files arbitrary: parts) (auto simp: Cons_eq_map_conv map_eq_Cons_conv dest: readConfig_warnings)

lemma merge_dirs_Inr:
  "merge_dirs U D yaml dirs f = Inr g \<Longrightarrow>
     \<exists>parts w. map (readConfig D yaml) (fragments U D dirs) = map Inr parts \<and> g = (foldl merge f parts)\<lparr>f_Warnings := w\<rparr>"
proof (induction U D yaml dirs f rule: merge_dirs.induct)
  case (1 U D yaml f)
  then show ?case by (intro exI [of _ "[]"] exI [of _ "f_Warnings f"]) (simp add: fragments_def)
next
  case (2 U D yaml dir rest f)
  show ?case
  proof (cases "configFilesIn U D dir")
    case (Inl e)
    then have e: "e = NoSuchDir" using 2(3) by (cases e) auto
    let ?f = "f\<lparr>f_Warnings := f_Warnings f @ [missing_dir dir]\<rparr>"
    from 2(1) [OF Inl e] 2(3) Inl e obtain parts w where p: "map (readConfig D yaml) (fragments U D rest) = map Inr parts"
      "g = (foldl merge ?f parts)\<lparr>f_Warnings := w\<rparr>" by auto
    with foldl_merge_warnings [OF map_readConfig_warnings [OF p(1)]] Inl show ?thesis
      by (intro exI [of _ parts] exI [of _ w]) (simp add: fragments_def)
  next
    case (Inr files)
    with 2(3) obtain h where h: "merge_files D yaml files f = Inr h" "merge_dirs U D yaml rest h = Inr g"
      by (auto split: sum.splits)
    from merge_files_Inr [OF h(1)] obtain ps where ps: "map (readConfig D yaml) files = map Inr ps" "h = foldl merge f ps" by blast
    from 2(2) [OF Inr h] obtain parts w where "map (readConfig D yaml) (fragments U D rest) = map Inr parts"
      "g = (foldl merge h parts)\<lparr>f_Warnings := w\<rparr>" by blast
    with ps Inr show ?thesis by (intro exI [of _ "ps @ parts"] exI [of _ w]) (simp add: fragments_def)
  qed
qed

text \<open>
  Loading reads the file and then every fragment of every directory, directories in the order
  given and fragments in order of name within each. Binders add up, nobody's entry is lost; of
  the values that are set more than once, the last one wins, and an unset one changes nothing.
\<close>

theorem fragments_accumulate:
  assumes "LoadFile U D yaml path dirs = (Some f, e)"
  shows "\<exists>f0 parts. readConfig D yaml path = Inr f0 \<and> map (readConfig D yaml) (fragments U D dirs) = map Inr parts
    \<and> f_Binder f = concat (map f_Binder (f0 # parts))
    \<and> f_Token f = last ([] # filter (\<lambda>t. t \<noteq> []) (map f_Token (f0 # parts)))
    \<and> f_Endpoint f = last ([] # filter (\<lambda>t. t \<noteq> []) (map f_Endpoint (f0 # parts)))
    \<and> e = validate_file U f"
proof -
  from assms obtain f0 g where g: "readConfig D yaml path = Inr f0" "merge_dirs U D yaml dirs f0 = Inr g"
    "f = applyDefaults g" "e = validate_file U f"
    by (auto simp: LoadFile_def split: sum.splits)
  from merge_dirs_Inr [OF g(2)] obtain parts w where p: "map (readConfig D yaml) (fragments U D dirs) = map Inr parts"
    "g = (foldl merge f0 parts)\<lparr>f_Warnings := w\<rparr>" by blast
  have "f_Binder f = f_Binder (foldl merge f0 parts)" "f_Token f = f_Token (foldl merge f0 parts)"
    "f_Endpoint f = f_Endpoint (foldl merge f0 parts)" by (simp_all add: g(3) p(2) applyDefaults_def)
  then show ?thesis using g(1,4) p(1)
    by (intro exI [of _ f0] exI [of _ parts]) (simp add: merge_foldl foldl_over)
qed

definition example_disk :: disk where
  "example_disk = \<lparr>dk_ReadFile = Some,
     dk_ReadDir = (\<lambda>d. if d = ''d'' then Inr [(''b.yml'', False), (''a.YAML'', False), (''note'', False), (''c.yaml'', True)] else Inl NoSuchDir)\<rparr>"

definition example_yaml :: "string \<Rightarrow> File option" where
  "example_yaml s = Some (if s = ''hub.yaml'' then example_file else if s = ''d/a.YAML'' then example_part
     else example_part\<lparr>f_Token := []\<rparr>)"

lemma example_load:
  "fst (LoadFile no_unicode example_disk example_yaml ''hub.yaml'' [''none'', ''d'']) \<noteq> None"
  "fragments no_unicode example_disk [''none'', ''d''] = [''d/a.YAML'', ''d/b.yml'']"
  "readConfig example_disk example_yaml ''hub.yaml'' = Inr example_file"
  "map (readConfig example_disk example_yaml) [''d/a.YAML'', ''d/b.yml''] = [Inr example_part, Inr (example_part\<lparr>f_Token := []\<rparr>)]"
  by code_simp+

theorem fragments_accumulate_witness:
  "\<exists>f e. LoadFile no_unicode example_disk example_yaml ''hub.yaml'' [''none'', ''d''] = (Some f, e) \<and> f_Token f = ''u''
     \<and> map be_Name (f_Binder f) = [''ops '', ''dev'', ''dev'']"
proof -
  obtain f e where f: "LoadFile no_unicode example_disk example_yaml ''hub.yaml'' [''none'', ''d''] = (Some f, e)"
    using example_load(1) by (metis option.exhaust prod.collapse)
  from fragments_accumulate [OF f] obtain parts where
    "map Inr parts = [Inr example_part, (Inr (example_part\<lparr>f_Token := []\<rparr>) :: file_err + File)]"
    "f_Binder f = concat (map f_Binder (example_file # parts))"
    "f_Token f = last ([] # filter (\<lambda>t. t \<noteq> []) (map f_Token (example_file # parts)))"
    unfolding example_load(2,3,4) by (metis sum.inject(2))
  then have "parts = [example_part, example_part\<lparr>f_Token := []\<rparr>]"
    "f_Binder f = concat (map f_Binder (example_file # parts))"
    "f_Token f = last ([] # filter (\<lambda>t. t \<noteq> []) (map f_Token (example_file # parts)))"
    by (auto simp: map_eq_Cons_conv)
  then have "f_Token f = ''u''" "map be_Name (f_Binder f) = [''ops '', ''dev'', ''dev'']"
    by (simp_all add: example_part_def example_file_def)
  with f show ?thesis by (intro exI conjI)
qed

subsection \<open>Pools and endpoints\<close>

text \<open>
  A pool of IPv4 is read as it is written: \<open>network/bits/size\<close> gives the network without the bits
  behind it and the size, and \<open>network/bits\<close> alone carves it into pieces of 24 bits, or leaves it
  whole when it is smaller than that.
\<close>

theorem ParsePool_reads_back:
  assumes "wf_prefix (Prefix (Addr4 w) n)" and "n \<le> int sz" and "sz \<le> 32"
  shows "ParsePool U (PrefixString (Prefix (Addr4 w) n) @ ''/'' @ digits_of sz) = Inr (Masked (Prefix (Addr4 w) n), int sz)
    \<and> ParsePool U (PrefixString (Prefix (Addr4 w) n)) = Inr (Prefix (Addr4 w) n, max n 24)"
  using ParsePool_sized [OF assms] ParsePool_plain [OF assms(1)] by blast

theorem ParsePool_reads_back_witness:
  "ParsePool no_unicode (PrefixString (Prefix (Addr4 0x0A000000) 30) @ ''/'' @ digits_of 31)
     = Inr (Masked (Prefix (Addr4 0x0A000000) 30), 31)"
  using ParsePool_reads_back [of "0x0A000000" 30 31 no_unicode] by (simp add: wf_prefix_def)

lemma Cut_Some: "Cut s sep = Some (a, b) \<Longrightarrow> s = a @ sep @ b"
proof (induction s arbitrary: a)
  case (Cons c s)
  then show ?case by (cases "HasPrefix (c # s) sep") (auto simp: HasPrefix_iff)
qed (auto split: if_splits)

lemma SplitHostPort_shorter: "SplitHostPort s = Some (h, p) \<Longrightarrow> length h < length s"
  by (auto simp: SplitHostPort_def cut_last_Some cut_char_Some less_Suc_eq_le le_diff_conv split: option.splits if_splits)

text \<open>The host alone is what \<open>bareHost\<close> leaves as it is.\<close>

lemma bareHost_fixed:
  assumes "bareHost e = e" and "e \<noteq> []"
  shows "CHR ''/'' \<notin> set e" and "\<not> HasPrefix e ''[''" and "ParseAddr e \<noteq> None \<or> SplitHostPort e = None"
proof -
  define s1 where "s1 = (case Cut e ''://'' of Some (_, rest) \<Rightarrow> rest | None \<Rightarrow> e)"
  define s where "s = (case cut_char (CHR ''/'') s1 of Some (before, _) \<Rightarrow> before | None \<Rightarrow> s1)"
  define r where "r = (if HasPrefix s ''['' then
           (case SplitHostPort s of Some (host, _) \<Rightarrow> host | None \<Rightarrow> trim_by (\<lambda>c. c = CHR ''['' \<or> c = CHR '']'') s)
         else if ParseAddr s \<noteq> None then s
         else (case SplitHostPort s of Some (host, _) \<Rightarrow> host | None \<Rightarrow> s))"
  have r: "r = e" using assms(1) unfolding bareHost_def Let_def s1_def [symmetric] s_def [symmetric] r_def [symmetric] .
  have l1: "length s1 \<le> length e" "length s1 = length e \<Longrightarrow> s1 = e"
    using Cut_Some [of e "''://''"] by (auto simp: s1_def split: option.splits)
  have l2: "length s \<le> length s1" "length s = length s1 \<Longrightarrow> s = s1 \<and> CHR ''/'' \<notin> set s1"
    using cut_char_none [of "CHR ''/''" s1] by (auto simp: s_def cut_char_Some split: option.splits)
  have "length r \<le> length s"
    using SplitHostPort_shorter [of s] length_trim_by [of _ s] by (auto simp: r_def less_imp_le split: option.splits)
  with l1 l2 r have s: "s = e" "CHR ''/'' \<notin> set e" by auto
  show "CHR ''/'' \<notin> set e" by (fact s(2))
  have no: "SplitHostPort e = None" if "HasPrefix e ''['' \<or> ParseAddr e = None"
    using that r SplitHostPort_shorter [of e] unfolding r_def s(1) by (auto split: option.splits if_splits)
  show "\<not> HasPrefix e ''[''"
  proof
    assume h: "HasPrefix e ''[''"
    with r no have "trim_by (\<lambda>c. c = CHR ''['' \<or> c = CHR '']'') e = e" unfolding r_def s(1) by simp
    with trim_by_ends [of "\<lambda>c. c = CHR ''['' \<or> c = CHR '']''" e] h assms(2) show False by (auto simp: HasPrefix_iff)
  qed
  show "ParseAddr e \<noteq> None \<or> SplitHostPort e = None" using no by (cases "ParseAddr e = None") simp_all
qed

text \<open>
  An endpoint that is accepted is a bare host: not empty, without a scheme, a path, brackets in
  front or a port behind.
\<close>

theorem endpoint_is_bare:
  assumes "validateEndpoint U raw = None"
  shows "TrimSpace U raw \<noteq> [] \<and> CHR ''/'' \<notin> set (TrimSpace U raw) \<and> \<not> HasPrefix (TrimSpace U raw) ''[''
    \<and> (ParseAddr (TrimSpace U raw) \<noteq> None \<or> SplitHostPort (TrimSpace U raw) = None)"
proof -
  have e: "TrimSpace U raw \<noteq> []" "bareHost (TrimSpace U raw) = TrimSpace U raw"
    using assms by (auto simp: validateEndpoint_def Let_def split: if_splits)
  from bareHost_fixed [OF e(2,1)] e(1) show ?thesis by blast
qed

theorem endpoint_is_bare_witness: "SplitHostPort (TrimSpace no_unicode '' hub '') = None"
proof -
  have "validateEndpoint no_unicode '' hub '' = None" "ParseAddr (TrimSpace no_unicode '' hub '') = None" by code_simp+
  with endpoint_is_bare show ?thesis by blast
qed

end
