(* ===== verification/Examples.thy ===== *)
theory Examples
  imports Reach
begin

text \<open>
  A hub to try things on: an instance is created and activated, a connector enrolls, is approved and
  banned. Its nebula knows the two configurations this takes, with an empty blocklist and with the
  connector's certificate on it. SHA-256 and HMAC are stood in for by functions that can be computed
  by rewriting.
\<close>

abbreviation example_id :: string where
  "example_id \<equiv> ''0011223344556677''"

definition tree_open :: yaml where
  "tree_open = lighthouse_tree example_active ''0.0.0.0'' True False"

definition tree_blocked :: yaml where
  "tree_blocked = lighthouse_tree
     (example_active\<lparr>inst_Burned := [\<lparr>bur_Fingerprint = [], bur_CertFingerprint = ''c1''\<rparr>]\<rparr>) ''0.0.0.0'' True False"

definition example_env :: env where
  "example_env = \<lparr>env_unicode = no_unicode, env_sha256 = (\<lambda>s. s), env_hmac = (\<lambda>k m. k @ m),
     env_nebula = two_trees tree_open tree_blocked\<rparr>"

definition example_applicant :: Applicant where
  "example_applicant = \<lparr>app_Kind = KindConnector, app_Identity = [], app_Binder = [], app_MAC = [],
     app_SourceAddr = ''192.0.2.7''\<rparr>"

definition example_bundle :: Bundle where
  "example_bundle = \<lparr>bnd_Certificate = ''CERT'', bnd_CA = ''CA'', bnd_OverlayAddress = PrefixNone,
     bnd_OverlayAddress6 = PrefixNone,
     bnd_Lighthouse = \<lparr>lh_OverlayAddress = AddrNone, lh_OverlayAddress6 = AddrNone, lh_Endpoints = [], lh_Relay = False\<rparr>,
     bnd_MTU = 0, bnd_Instance = [], bnd_Blocked = []\<rparr>"

definition example_approval :: Decision where
  "example_approval = \<lparr>dec_Status = StatusApproved, dec_Bundle = Some example_bundle, dec_Reason = [], dec_Name = [],
     dec_Routes = [Prefix (Addr4 0x0A000000) 8], dec_Domain = ''prod.internal'', dec_CertFingerprint = ''c1''\<rparr>"

section \<open>The instance as it goes along\<close>

definition example_key :: string where
  "example_key = ''4b4559''"

definition record_pending :: Record where
  "record_pending = \<lparr>rec_ID = ''r1'', rec_Status = StatusPending, rec_Request = example_request,
     rec_Fingerprint = example_key, rec_OverlayAddress = Prefix (Addr4 0xC61300FE) 24, rec_OverlayAddress6 = PrefixNone,
     rec_SourceAddr = ''192.0.2.7'', rec_ReceivedAt = 2, rec_DecidedAt = 0, rec_Kind = KindConnector, rec_Identity = [],
     rec_Binder = [], rec_Bundle = None, rec_Reason = []\<rparr>"

definition inst_enrolled :: Instance where
  "inst_enrolled = example_active\<lparr>inst_Allocations := Some [(example_key, Addr4 0xC61300FE)],
     inst_Requests := Some [(''r1'', record_pending)]\<rparr>"

definition record_approved :: Record where
  "record_approved = record_pending\<lparr>rec_Bundle := Some (approved_bundle example_config inst_enrolled record_pending example_bundle),
     rec_Status := StatusApproved, rec_DecidedAt := 3\<rparr>"

definition member_admitted :: Member where
  "member_admitted = example_member\<lparr>mem_Fingerprint := example_key, mem_JoinedAt := 3\<rparr>"

definition inst_admitted :: Instance where
  "inst_admitted = inst_enrolled\<lparr>inst_Requests := Some [(''r1'', record_approved)],
     inst_Members := Some (items (inst_Members example_instance) @ [(example_key, member_admitted)])\<rparr>"

definition inst_banned :: Instance where
  "inst_banned = inst_admitted\<lparr>inst_Members := Some (items (inst_Members example_instance)
     @ [(example_key, add_event EventBan ''left'' 4 member_admitted)])\<rparr>"

lemmas example_defs = example_instance_def example_active_def inst_enrolled_def inst_admitted_def inst_banned_def
  record_pending_def record_approved_def member_admitted_def example_member_def zero_member_def example_key_def
  example_applicant_def example_approval_def example_bundle_def example_config_def example_env_def

section \<open>The hub as it goes along\<close>

definition hub_of :: "Instance \<Rightarrow> lighthouses \<Rightarrow> Hub" where
  "hub_of i ls = (let st = \<lparr>st_Instances = Some [(example_id, i)], st_Identities = Some []\<rparr> in
     \<lparr>hub_cfg = example_config, hub_store = \<lparr>st_state = st, st_fs = \<lparr>fs_file = Some (Whole (json_state st)), fs_tmp = None\<rparr>\<rparr>,
      hub_lhs = ls\<rparr>)"

definition hub_empty :: Hub where
  "hub_empty = \<lparr>hub_cfg = example_config,
     hub_store = \<lparr>st_state = \<lparr>st_Instances = Some [], st_Identities = Some []\<rparr>, st_fs = \<lparr>fs_file = None, fs_tmp = None\<rparr>\<rparr>,
     hub_lhs = newLighthouses True False\<rparr>"

definition lhs_open :: lighthouses where
  "lhs_open = \<lparr>lhs_dns = True, lhs_noTun = False, lhs_running = Some [(example_id, \<lparr>lh_cfg = Some ''t''\<rparr>)]\<rparr>"

definition lhs_blocked :: lighthouses where
  "lhs_blocked = \<lparr>lhs_dns = True, lhs_noTun = False, lhs_running = Some [(example_id, \<lparr>lh_cfg = Some ''u''\<rparr>)]\<rparr>"

lemma hub_of_simps [simp]:
  "hub_cfg (hub_of i ls) = example_config" "hub_lhs (hub_of i ls) = ls" "(hub_of i ls)\<lparr>hub_lhs := l\<rparr> = hub_of i l"
  "instances (hub_store (hub_of i ls)) = Some [(example_id, i)]" "identities (hub_store (hub_of i ls)) = Some []"
  "mget (Some [(example_id, x)]) example_id = Some x" "cfg_NebulaBind example_config = ''0.0.0.0''"
  by (simp_all add: hub_of_def mget_def Let_def example_config_def)

lemma hub_of_update:
  assumes "fn i = (j, Ret a)" and "ensureMaps i = i"
  shows "on_store (Update None example_id fn) (hub_of i ls) = (hub_of j ls, Ret a)"
proof -
  have f: "fn (ensureMaps i) = (j, Ret a)" using assms by simp
  have g: "mget (instances (hub_store (hub_of i ls))) example_id = Some i" by simp
  have "Update None example_id fn (hub_store (hub_of i ls)) = (hub_store (hub_of j ls), Ret a)"
    using Update_eq [where io = None and fn = fn, OF g f]
    by (simp add: save_def save_trace_def Let_def hub_of_def set_instances_def madjust_def json_state_def)
  then show ?thesis by (simp add: on_store_def hub_of_def Let_def)
qed

lemma example_ensure:
  "ensureMaps example_instance = example_instance" "ensureMaps example_active = example_active"
  "ensureMaps inst_enrolled = inst_enrolled" "ensureMaps inst_admitted = inst_admitted" "ensureMaps inst_banned = inst_banned"
  by (simp_all add: ensureMaps_def ensure_def example_defs)

lemma empty_reachable: "reachable example_env hub_empty"
proof (rule reachable.fresh)
  show "cfg_ok example_config"
    by (simp add: cfg_ok_def example_config_def pool_fits_def wf_prefix_def example_pool_def)
  show "New example_env example_config True \<lparr>fs_file = None, fs_tmp = None\<rparr> = Inr hub_empty"
    by (simp add: New_def hub_empty_def OpenStore_def example_config_def ListInstances_def start_all_def vals_def)
qed

lemma example_prepare:
  "prepare_instance 1 example_id (Some (''P'', ''K'')) ''mara'' ''ed25519:o'' ''railway'' [] hub_empty = Inr example_instance"
  by code_simp

lemma example_create:
  "CreateInstance None 1 example_id (Some (''P'', ''K'')) ''mara'' ''ed25519:o'' ''railway'' [] hub_empty
   = (hub_of example_instance (newLighthouses True False), Ret example_instance)"
proof -
  have "inst_ID example_instance = example_id" by (simp add: example_instance_def)
  then have "Add None example_instance (hub_store hub_empty) = (hub_store (hub_of example_instance l), Ret ())" for l
    by (simp add: Add_def hub_empty_def hub_of_def mget_def vals_def save_def save_trace_def Let_def set_instances_def)
  then show ?thesis
    unfolding CreateInstance_def example_prepare
    by (simp add: add_instance_def on_store_def) (simp add: hub_of_def hub_empty_def Let_def)
qed

lemma example_config_open:
  assumes "blockedIn i = []" and "i = example_active\<lparr>inst_Allocations := a, inst_Requests := r, inst_Members := m\<rparr>"
  shows "lighthouseConfig (env_nebula example_env) i ''0.0.0.0'' True False = Inr ''t''"
proof -
  have b: "blockedIn example_active = []"
    by (simp add: blockedIn_def example_active_def example_instance_def zero_member_def Banned_def vals_def)
  have "lighthouse_tree i ''0.0.0.0'' True False = tree_open"
    using b assms(1) by (simp add: tree_open_def lighthouse_tree_def lighthouse_pki_def assms(2) lighthouseDevice_def)
  moreover have "inst_CACert i \<noteq> []" "inst_LighthouseCert i \<noteq> []"
    by (simp_all add: assms(2) example_active_def)
  ultimately show ?thesis by (simp add: lighthouseConfig_def example_env_def two_trees_def)
qed

lemma example_activate:
  "ActivateInstance example_env None example_id ''CA'' ''CERT'' (hub_of example_instance (newLighthouses True False))
   = (hub_of example_active lhs_open, Ret ())"
proof -
  have t: "TrimSpace no_unicode ''CA'' \<noteq> []" "TrimSpace no_unicode ''CERT'' \<noteq> []" by code_simp+
  have c: "activate_closure (env_unicode example_env) ''CA'' ''CERT'' example_instance = (example_active, Ret ())"
    using t by (simp add: activate_closure_def example_active_def example_env_def)
  have "blockedIn example_active = []"
    by (simp add: blockedIn_def example_active_def example_instance_def zero_member_def Banned_def vals_def)
  then have "lighthouseConfig (env_nebula example_env) example_active ''0.0.0.0'' True False = Inr ''t''"
    by (rule example_config_open [where a = "inst_Allocations example_active" and r = "inst_Requests example_active"
          and m = "inst_Members example_active"]) simp
  then have "start_lh (env_nebula example_env) example_active ''0.0.0.0'' (newLighthouses True False) = (lhs_open, Ret ())"
    by (simp add: start_lh_def startLighthouse_def newLighthouses_def lhs_open_def example_env_def two_trees_def mget_def)
      (simp add: example_active_def example_instance_def)
  moreover have "stop_lh example_id (newLighthouses True False) = newLighthouses True False"
    by (simp add: stop_lh_def newLighthouses_def)
  ultimately show ?thesis
    using hub_of_update [where fn = "activate_closure (env_unicode example_env) ''CA'' ''CERT''", OF c example_ensure(1)]
    by (simp add: ActivateInstance_def Get_def)
qed

lemma example_allocate:
  "allocate example_active example_key KindConnector
   = (example_active\<lparr>inst_Allocations := Some [(example_key, Addr4 0xC61300FE)]\<rparr>, Ret (Addr4 0xC61300FE))"
proof -
  have wf: "wf_prefix (Prefix (Addr4 0xC6130000) 24)" by (simp add: wf_prefix_def)
  have "lastAddr (Prefix (Addr4 0xC6130000) 24) = Addr4 0xC61300FF"
    using wf by (intro lastAddr_eqI) (simp_all add: same_family_def top_def base_def hostbits_def)
  then have "highestFree (Prefix (Addr4 0xC6130000) 24) [Addr4 0xC6130002, Addr4 0xC6130001, Addr4 0xC6130002] = Inr (Addr4 0xC61300FE)"
    by (simp add: walk_eval)
  then show ?thesis
    by (simp add: allocate_eq fromPool_def memberAddresses_def mget_def vals_def example_active_def example_instance_def
        zero_member_def example_key_def)
qed

lemma example_fingerprint: "fingerprintOf example_env (req_PublicKey example_request) = example_key"
proof -
  have "hex_encode (join '' '' (Fields no_unicode ''KEY'')) = ''4b4559''" by code_simp
  then show ?thesis by (simp add: fingerprintOf_def example_env_def example_request_def example_key_def)
qed

lemma example_enroll_closure:
  "enroll_closure example_env 2 ''r1'' example_request example_applicant example_key example_active
   = (inst_enrolled, Ret (Some record_pending))"
proof -
  have a: "app_Kind example_applicant = KindConnector" by (simp add: example_applicant_def)
  have six: "allocate6 i fp k = (i, Ret AddrNone)" if "inst_Overlay6 i = PrefixNone" for i fp k
    using that by (simp add: allocate6_eq PrefixIsValid_def PrefixNone_def)
  show ?thesis
    unfolding enroll_closure_def a example_allocate
    by (simp add: six burned_def same_key_request_def new_record_def prefixOf_def PrefixFrom_def PrefixNone_def
        inst_enrolled_def record_pending_def example_active_def example_instance_def example_applicant_def Let_def)
qed

lemma example_resolve:
  assumes "inst_Name i = ''railway''"
  shows "Resolve (env_unicode example_env) ''railway'' (hub_store (hub_of i ls)) = Ret i"
proof -
  have "ToLower no_unicode (TrimSpace no_unicode ''railway'') = ''railway''" by code_simp
  then show ?thesis by (simp add: Resolve_def mget_def vals_def assms example_env_def)
qed

lemma example_enroll_in:
  assumes run: "enroll_closure example_env now nid example_request example_applicant example_key i = (j, Ret x)"
    and i: "inst_ID i = example_id" "inst_Name i = ''railway''" "ensureMaps i = i"
  shows "Enroll example_env None now nid ''railway'' example_request example_applicant (hub_of i ls) = (hub_of j ls, Ret x)"
proof -
  have v: "Validate no_unicode example_request = Inr example_request"
    and n: "name_request no_unicode example_applicant example_request = Some example_request" by code_simp+
  have u: "env_unicode example_env = no_unicode" by (simp add: example_env_def)
  have k: "app_Kind example_applicant \<noteq> KindTenant"
    by (simp add: example_applicant_def KindTenant_def KindConnector_def)
  show ?thesis
    using hub_of_update [where fn = "enroll_closure example_env now nid example_request example_applicant example_key",
        OF run i(3)] k example_resolve [OF i(2), of ls] i(1)
    by (simp add: Enroll_def u v n owns_already_def example_fingerprint)
qed

lemma example_enroll:
  "Enroll example_env None 2 ''r1'' ''railway'' example_request example_applicant (hub_of example_active lhs_open)
   = (hub_of inst_enrolled lhs_open, Ret (Some record_pending))"
  by (rule example_enroll_in [OF example_enroll_closure _ _ example_ensure(2)])
    (simp_all add: example_active_def example_instance_def)

lemma example_reenroll:
  "Enroll example_env None 7 ''r9'' ''railway'' example_request example_applicant (hub_of inst_enrolled lhs_open)
   = (hub_of inst_enrolled lhs_open, Ret (Some record_pending))"
proof (rule example_enroll_in [OF _ _ _ example_ensure(3)])
  show "enroll_closure example_env 7 ''r9'' example_request example_applicant example_key inst_enrolled
      = (inst_enrolled, Ret (Some record_pending))"
    by (simp add: enroll_closure_def burned_def same_key_request_def refresh_record_def madjust_def example_defs)
qed (simp_all add: inst_enrolled_def example_active_def example_instance_def)

lemma example_decide:
  "Decide None 3 example_id ''r1'' example_approval (hub_of inst_enrolled lhs_open) = (hub_of inst_admitted lhs_open, Ret ())"
proof -
  have r: "mget (inst_Requests inst_enrolled) ''r1'' = Some record_pending" by (simp add: inst_enrolled_def mget_def)
  have d: "dec_Status example_approval = StatusApproved" "dec_Bundle example_approval = Some example_bundle"
    "bnd_Certificate example_bundle \<noteq> []" by (simp_all add: example_approval_def example_bundle_def)
  have m: "inst_Members inst_enrolled = Some (items (inst_Members example_instance))"
    by (simp add: inst_enrolled_def example_active_def example_instance_def)
  have n: "(if dec_Name example_approval = [] then req_Name (rec_Request record_pending) else dec_Name example_approval) = ''web''"
    by (simp add: example_approval_def record_pending_def example_request_def)
  have h: "name_holder inst_enrolled (rec_Fingerprint record_pending) ''web'' = None"
    by (simp add: name_holder_def inst_enrolled_def example_active_def example_instance_def zero_member_def)
  have mem: "decided_member 3 record_pending ''web'' example_approval = member_admitted"
    by (simp add: decided_member_def member_admitted_def record_pending_def example_approval_def example_member_def zero_member_def)
  have "decide_closure example_config 3 ''r1'' example_approval inst_enrolled = (inst_admitted, Ret ())"
    unfolding decide_approve_eq [OF r d m refl refl] n h
    by (simp add: mem) (simp add: set_record_def madjust_def inst_admitted_def inst_enrolled_def record_approved_def record_pending_def
        example_active_def example_instance_def example_key_def)
  from hub_of_update [where fn = "decide_closure example_config 3 ''r1'' example_approval", OF this example_ensure(3)]
  show ?thesis by (simp add: Decide_def)
qed

lemma example_ban:
  "Ban example_env None 4 example_id ''web'' ''left'' (hub_of inst_admitted lhs_open) = (hub_of inst_banned lhs_blocked, Ret ())"
proof -
  have c: "ban_closure 4 ''web'' ''left'' inst_admitted = (inst_banned, Ret ())"
    by (simp add: ban_closure_def memberIn_def Banned_def madjust_def HasPrefix_def example_defs)
  have "lighthouse_tree inst_banned ''0.0.0.0'' True False = tree_blocked"
    by (simp add: tree_blocked_def lighthouse_tree_def lighthouse_pki_def lighthouseDevice_def blockedIn_def vals_def
        Banned_def add_event_def example_defs)
  moreover have "tree_open \<noteq> tree_blocked"
    by (simp add: tree_open_def tree_blocked_def lighthouse_tree_def lighthouse_pki_def blockedIn_def vals_def Banned_def example_defs)
  ultimately have "lighthouseConfig (env_nebula example_env) inst_banned ''0.0.0.0'' True False = Inr ''u''"
    by (simp add: lighthouseConfig_def) (simp add: example_env_def two_trees_def inst_banned_def inst_admitted_def inst_enrolled_def example_active_def)
  then have "reload_lh (env_nebula example_env) inst_banned ''0.0.0.0'' lhs_open = (lhs_blocked, Ret ())"
    by (simp add: reload_lh_def lhs_open_def mget_def)
      (simp add: lhs_blocked_def madjust_def example_env_def two_trees_def inst_banned_def inst_admitted_def inst_enrolled_def example_active_def example_instance_def)
  then show ?thesis
    using hub_of_update [where fn = "ban_closure 4 ''web'' ''left''", OF c example_ensure(4)]
    by (simp add: Ban_def and_then_def applyBlocklist_def Get_def)
qed

end
