(* ===== verification/Guarantees.thy ===== *)
theory Guarantees
  imports Examples
begin

text \<open>
  What the hub promises in every state it can come to: that no operation leaves the reachable states
  or panics, that addresses and names are handed out once, that a removed key stays out, that a ban
  reaches everything that has to enforce it, and how an enrollment goes from request to certificate.
\<close>

section \<open>Operations are steps\<close>

lemma reachable_steps: "(hub_step V {})\<^sup>*\<^sup>* h h' \<Longrightarrow> reachable V h \<Longrightarrow> reachable V h'"
  by (induction rule: rtranclp_induct) (auto intro: reachable.step)

lemma step1: "hub_step V X h h' \<Longrightarrow> (hub_step V X)\<^sup>*\<^sup>* h h'"
  by blast

lemma apply_steps: "(hub_step V X)\<^sup>*\<^sup>* h (fst (applyBlocklist V iid h))"
proof -
  have "fst (applyBlocklist V iid h) = h \<or>
      (\<exists>inst. fst (applyBlocklist V iid h) =
        h\<lparr>hub_lhs := fst (reload_lh (env_nebula V) inst (cfg_NebulaBind (hub_cfg h)) (hub_lhs h))\<rparr>)"
  proof (cases "Get iid (hub_store h)")
    case (Ret inst)
    obtain ls r where "reload_lh (env_nebula V) inst (cfg_NebulaBind (hub_cfg h)) (hub_lhs h) = (ls, r)" by fastforce
    with Ret show ?thesis by (intro disjI2 exI [of _ inst]) (cases r; simp add: applyBlocklist_def)
  qed (simp_all add: applyBlocklist_def)
  then show ?thesis using step1 [OF hub_step.reload, of V X h] by auto
qed

lemma and_then_steps:
  assumes "(hub_step V X)\<^sup>*\<^sup>* h (fst x)" and "\<And>g. (hub_step V X)\<^sup>*\<^sup>* g (fst (f g))"
  shows "(hub_step V X)\<^sup>*\<^sup>* h (fst (and_then x f))"
proof -
  obtain g r where x: "x = (g, r)" by fastforce
  show ?thesis
  proof (cases r)
    case (Ret a)
    then show ?thesis using assms(1) assms(2) [of g] by (auto simp: and_then_def x)
  qed (use assms(1) in \<open>simp_all add: and_then_def x\<close>)
qed

lemma activate_steps: "(hub_step V X)\<^sup>*\<^sup>* h (fst (ActivateInstance V io iid ca cert h))"
proof -
  let ?up = "on_store (Update io iid (activate_closure (env_unicode V) ca cert)) h"
  obtain g r where x: "?up = (g, r)" by fastforce
  have g: "(hub_step V X)\<^sup>*\<^sup>* h g" using hub_step.activate [of V X h io iid "env_unicode V" ca cert] x by auto
  let ?start = "\<lambda>inst. g\<lparr>hub_lhs := stop_lh iid (hub_lhs g),
      hub_lhs := fst (start_lh (env_nebula V) inst (cfg_NebulaBind (hub_cfg g)) (stop_lh iid (hub_lhs g)))\<rparr>"
  have s: "(hub_step V X)\<^sup>*\<^sup>* h (?start inst)" for inst
    using g hub_step.stop [of V X g iid] hub_step.start [of V X "g\<lparr>hub_lhs := stop_lh iid (hub_lhs g)\<rparr>" inst]
    by simp (meson rtranclp.rtrancl_into_rtrancl)
  have "fst (ActivateInstance V io iid ca cert h) = g \<or> (\<exists>inst. fst (ActivateInstance V io iid ca cert h) = ?start inst)"
    using x by (cases r; cases "Get iid (hub_store g)") (simp_all add: ActivateInstance_def split_beta, blast)
  then show ?thesis using g s by auto
qed

lemma enroll_steps:
  assumes "app_Kind who \<noteq> KindOwner"
  shows "(hub_step V X)\<^sup>*\<^sup>* h (fst (Enroll V io now nid ref req who h))"
proof -
  have "fst (Enroll V io now nid ref req who h) = h \<or> (\<exists>iid req' key. fst (Enroll V io now nid ref req who h)
      = fst (on_store (Update io iid (enroll_closure V now nid req' who (fingerprintOf V key))) h))"
    unfolding Enroll_def by (auto split: sum.split option.split out.split)
  then show ?thesis using hub_step.enroll [OF assms] by (auto intro: step1)
qed

lemma delete_steps: "(hub_step V X)\<^sup>*\<^sup>* h (fst (Delete io iid h))"
proof (cases "Get iid (hub_store h)")
  case (Ret inst)
  let ?g = "h\<lparr>hub_lhs := stop_lh (inst_ID inst) (hub_lhs h)\<rparr>"
  have "hub_step V X h ?g" "hub_step V X ?g (fst (on_store (Remove io (inst_ID inst)) ?g))"
    by (rule hub_step.stop, rule hub_step.delete)
  with Ret show ?thesis by (auto simp: Delete_def)
qed (simp_all add: Delete_def)

lemma create_steps:
  assumes "\<not> list_all alnum owner" and "nid \<notin> X"
  shows "(hub_step V X)\<^sup>*\<^sup>* h (fst (CreateInstance io now nid hk bndr owner name tok h))"
proof (cases "prepare_instance now nid hk bndr owner name tok h")
  case (Inr inst)
  from hub_step.add [OF refl assms Inr, of V io] Inr show ?thesis by (auto simp: CreateInstance_def)
qed (simp add: CreateInstance_def)

lemma simple_steps:
  "(hub_step V X)\<^sup>*\<^sup>* h (fst (Decide io now iid rid d h))"
  "(hub_step V X)\<^sup>*\<^sup>* h (fst (Forget io iid rid h))"
  "(hub_step V X)\<^sup>*\<^sup>* h (fst (Ban V io now iid ref note h))"
  "(hub_step V X)\<^sup>*\<^sup>* h (fst (Unban V io now iid ref note h))"
  "(hub_step V X)\<^sup>*\<^sup>* h (fst (RemoveMember io iid ref h))"
  "(hub_step V X)\<^sup>*\<^sup>* h (fst (SetSharedToken io iid tok h))"
  unfolding Decide_def Forget_def Ban_def Unban_def RemoveMember_def SetSharedToken_def
  by (auto intro!: and_then_steps apply_steps intro: step1 hub_step.intros)

lemmas operation_steps = create_steps activate_steps enroll_steps delete_steps simple_steps

section \<open>No panics\<close>

lemma on_store_snd: "snd (on_store f h) = snd (f (hub_store h))"
  by (simp add: on_store_def split: prod.split)

lemma Update_no_panic:
  assumes "hub_inv inst_ok h" and "safe_closure fn"
  shows "snd (on_store (Update io iid fn) h) \<noteq> Panic"
proof (cases "mget (instances (hub_store h)) iid")
  case None
  then show ?thesis by (simp add: on_store_snd Update_missing)
next
  case (Some inst)
  obtain j r where f: "fn (ensureMaps inst) = (j, r)" by fastforce
  have "inst_ok (ensureMaps inst)"
    using assms(1) Some similar_ok [OF similar_ensure] by (auto simp: hub_inv_def store_inv_def all_instances_def)
  then have "r \<noteq> Panic" using assms(2) f writable_ensure unfolding safe_closure_def by (metis snd_conv)
  then show ?thesis using Update_eq [where io = io and fn = fn, OF Some f] by (cases r) (auto simp: on_store_snd split: option.split)
qed

lemma and_then_no_panic:
  "snd x \<noteq> Panic \<Longrightarrow> (\<And>g r. x = (g, Ret r) \<Longrightarrow> snd (f g) \<noteq> Panic) \<Longrightarrow> snd (and_then x f) \<noteq> Panic"
  by (cases x; cases "snd x") (auto simp: and_then_def)

lemma apply_no_panic: "lhs_ok (hub_lhs h) \<Longrightarrow> snd (applyBlocklist V iid h) \<noteq> Panic"
  using reload_lh_ok [of "hub_lhs h" "env_nebula V" _ "cfg_NebulaBind (hub_cfg h)"]
  unfolding applyBlocklist_def Get_def by (simp split: out.split option.split prod.split) (metis snd_conv)

lemma UpdateNP:
  assumes "hub_inv inst_ok h" and "app_Kind who \<noteq> KindOwner"
  shows "snd (on_store (Update io iid (activate_closure U ca cert)) h) \<noteq> Panic"
    and "snd (on_store (Update io iid (enroll_closure V now nid req who (fingerprintOf V key))) h) \<noteq> Panic"
    and "snd (on_store (Update io iid (decide_closure cfg now rid d)) h) \<noteq> Panic"
    and "snd (on_store (Update io iid (forget_closure rid)) h) \<noteq> Panic"
    and "snd (on_store (Update io iid (ban_closure now ref note)) h) \<noteq> Panic"
    and "snd (on_store (Update io iid (unban_closure now ref note)) h) \<noteq> Panic"
    and "snd (on_store (Update io iid (remove_closure ref)) h) \<noteq> Panic"
    and "snd (on_store (Update io iid (token_closure tok)) h) \<noteq> Panic"
  by (intro Update_no_panic [OF assms(1)] activate_safe enroll_safe [OF fingerprint_alnum assms(2)] decide_safe
      forget_safe ban_safe unban_safe remove_safe token_safe)+

lemma on_store_lhs: "hub_lhs (fst (on_store f h)) = hub_lhs h" "hub_cfg (fst (on_store f h)) = hub_cfg h"
  by (simp_all add: on_store_fst)

lemma create_no_panic:
  assumes "hub_inv inst_ok h"
  shows "snd (CreateInstance io now nid hk bndr owner name tok h) \<noteq> Panic"
proof -
  have nn: "instances (hub_store h) \<noteq> None" using assms by (auto simp: hub_inv_def store_inv_def state_ok_def)
  have "snd (Add io inst (hub_store h)) \<noteq> Panic" for inst
    using Add_cases [of io inst "hub_store h"] nn save_not_panic by (metis snd_conv out.distinct)
  then show ?thesis
    by (auto simp: CreateInstance_def add_instance_def on_store_def split: sum.split prod.split out.split)
      (metis snd_conv)
qed

lemma activate_no_panic:
  assumes "hub_inv inst_ok h"
  shows "snd (ActivateInstance V io iid ca cert h) \<noteq> Panic"
proof -
  let ?up = "on_store (Update io iid (activate_closure (env_unicode V) ca cert)) h"
  obtain g r where x: "?up = (g, r)" by fastforce
  have r: "r \<noteq> Panic"
    using Update_no_panic [OF assms activate_safe, of io iid "env_unicode V" ca cert] x by simp
  have "lhs_ok (stop_lh iid (hub_lhs g))"
    using assms on_store_lhs(1) [of _ h] x stop_lh_ok(1) by (metis fst_conv hub_inv_def)
  then have "snd (start_lh (env_nebula V) inst b (stop_lh iid (hub_lhs g))) \<noteq> Panic" for inst b
    using start_lh_ok by blast
  then show ?thesis
    using x r by (cases r; cases "Get iid (hub_store g)") (auto simp: ActivateInstance_def Get_def split_beta split: option.splits)
qed

lemma enroll_no_panic:
  assumes "hub_inv inst_ok h" and "app_Kind who \<noteq> KindOwner"
  shows "snd (Enroll V io now nid ref req who h) \<noteq> Panic"
proof -
  have ok: "state_ok (st_state (hub_store h))" using assms(1) by (simp add: hub_inv_def store_inv_def)
  have "name_request U who q \<noteq> None" for U q
    by (auto simp: name_request_def ensure_def split: sum.split option.split)
  moreover have "Resolve U ref (hub_store h) \<noteq> Panic" for U
    using Resolve_eq(2) [OF ok, of U ref] by auto
  ultimately show ?thesis
    using UpdateNP(2) [OF assms]
    unfolding Enroll_def by (auto simp del: not_None_eq split: sum.split option.split out.split)
qed

lemma delete_no_panic: "snd (Delete io iid h) \<noteq> Panic"
  using save_not_panic by (auto simp: Delete_def Get_def on_store_snd Remove_def split: option.split)

lemma ban_no_panic:
  assumes inv: "hub_inv inst_ok h"
  shows "snd (Ban V io now iid ref note h) \<noteq> Panic" and "snd (Unban V io now iid ref note h) \<noteq> Panic"
proof -
  have lhs: "lhs_ok (hub_lhs (fst (on_store f h)))" for f :: "Store \<Rightarrow> Store \<times> (hub_err, unit) out"
    using inv by (simp add: on_store_fst hub_inv_def)
  show "snd (Ban V io now iid ref note h) \<noteq> Panic" and "snd (Unban V io now iid ref note h) \<noteq> Panic"
    unfolding Ban_def Unban_def using lhs Update_no_panic [OF inv ban_safe] Update_no_panic [OF inv unban_safe]
    by (intro and_then_no_panic apply_no_panic; metis fst_conv)+
qed

section \<open>The example is reachable\<close>

lemma example_owner: "\<not> list_all alnum ''ed25519:o''"
  by code_simp

lemma example_kind: "app_Kind example_applicant \<noteq> KindOwner"
  by (simp add: example_applicant_def KindConnector_def KindOwner_def)

lemma example_reachable:
  "reachable example_env (hub_of example_instance (newLighthouses True False))"
  "reachable example_env (hub_of example_active lhs_open)"
  "reachable example_env (hub_of inst_enrolled lhs_open)"
  "reachable example_env (hub_of inst_admitted lhs_open)"
  "reachable example_env (hub_of inst_banned lhs_blocked)"
proof -
  show 1: "reachable example_env (hub_of example_instance (newLighthouses True False))"
    using reachable_steps [OF create_steps [OF example_owner] empty_reachable] example_create by (metis empty_iff fst_conv)
  show 2: "reachable example_env (hub_of example_active lhs_open)"
    using reachable_steps [OF activate_steps 1] example_activate by (metis fst_conv)
  show 3: "reachable example_env (hub_of inst_enrolled lhs_open)"
    using reachable_steps [OF enroll_steps [OF example_kind] 2] example_enroll by (metis fst_conv)
  show 4: "reachable example_env (hub_of inst_admitted lhs_open)"
    using reachable_steps [OF simple_steps(1) 3] example_decide by (metis fst_conv)
  show "reachable example_env (hub_of inst_banned lhs_blocked)"
    using reachable_steps [OF simple_steps(3) 4] example_ban by (metis fst_conv)
qed

section \<open>Properties of every operation\<close>

text \<open>
  The reachable states are closed under every operation of the hub: whatever a request asks
  for, and whichever write of it fails, the hub ends in a state reached by steps each of which is
  atomic under a lock.
\<close>

theorem operations_stay_reachable:
  assumes "reachable V h" and "app_Kind who \<noteq> KindOwner" and "\<not> list_all alnum owner"
  shows "reachable V (fst (CreateInstance io now nid hk bndr owner name tok h))
    \<and> reachable V (fst (ActivateInstance V io iid ca cert h))
    \<and> reachable V (fst (Enroll V io now nid ref req who h))
    \<and> reachable V (fst (Decide io now iid rid d h))
    \<and> reachable V (fst (Forget io iid rid h))
    \<and> reachable V (fst (Ban V io now iid ref note h))
    \<and> reachable V (fst (Unban V io now iid ref note h))
    \<and> reachable V (fst (RemoveMember io iid ref h))
    \<and> reachable V (fst (SetSharedToken io iid tok h))
    \<and> reachable V (fst (Delete io iid h))"
  using reachable_steps [OF _ assms(1)] operation_steps assms(2,3) by (metis empty_iff)

theorem operations_stay_reachable_witness:
  "reachable example_env (fst (RemoveMember (Some FSync) example_id ''web'' (hub_of inst_banned lhs_blocked)))"
  using operations_stay_reachable [OF example_reachable(5) example_kind example_owner] by blast

text \<open>
  No operation panics in a reachable state: the maps it writes to exist, and no iterator runs
  off the end of an address range.
\<close>

theorem operations_never_panic:
  assumes "reachable V h" and "app_Kind who \<noteq> KindOwner"
  shows "snd (CreateInstance io now nid hk bndr owner name tok h) \<noteq> Panic
    \<and> snd (ActivateInstance V io iid ca cert h) \<noteq> Panic
    \<and> snd (Enroll V io now nid ref req who h) \<noteq> Panic
    \<and> snd (Decide io now iid rid d h) \<noteq> Panic
    \<and> snd (Forget io iid rid h) \<noteq> Panic
    \<and> snd (Ban V io now iid ref note h) \<noteq> Panic
    \<and> snd (Unban V io now iid ref note h) \<noteq> Panic
    \<and> snd (RemoveMember io iid ref h) \<noteq> Panic
    \<and> snd (SetSharedToken io iid tok h) \<noteq> Panic
    \<and> snd (Delete io iid h) \<noteq> Panic"
proof -
  have inv: "hub_inv inst_ok h" by (rule reachable_inv [OF assms(1)])
  note np = UpdateNP [OF inv assms(2)]
  have "snd (Ban V io now iid ref note h) \<noteq> Panic" "snd (Unban V io now iid ref note h) \<noteq> Panic"
    by (fact ban_no_panic [OF inv])+
  then show ?thesis
    using create_no_panic [OF inv] activate_no_panic [OF inv] enroll_no_panic [OF inv assms(2)] delete_no_panic np
    by (simp add: Decide_def Forget_def RemoveMember_def SetSharedToken_def)
qed

theorem operations_never_panic_witness:
  "snd (Decide None 3 example_id ''r1'' example_approval (hub_of inst_enrolled lhs_open)) \<noteq> Panic"
  using operations_never_panic [OF example_reachable(3) example_kind] by blast

section \<open>Addresses and names\<close>

lemma member_address:
  assumes ok: "inst_ok i" and m: "mget (inst_Members i) fp = Some m"
  defines "a \<equiv> paddr (mem_Address m)" and "b \<equiv> paddr (mem_Address6 m)"
  shows "a = AddrNone \<or> a \<in> hosts (inst_Overlay i) \<and> a \<noteq> inst_LighthouseAddress i
      \<and> (if fp = inst_Owner i then a = inst_TenantAddress i else mget (inst_Allocations i) fp = Some a)"
    and "b = AddrNone \<or> b \<in> hosts (inst_Overlay6 i) \<and> b \<noteq> inst_LighthouseAddress6 i
      \<and> (if fp = inst_Owner i then b = inst_TenantAddress6 i else mget (inst_Allocations6 i) fp = Some b)"
proof -
  have mo: "member_ok i fp m" and p4: "plan4_ok i" and p6: "plan6_ok i"
    using ok m by (auto simp: inst_ok_def members_ok_def)
  show "a = AddrNone \<or> a \<in> hosts (inst_Overlay i) \<and> a \<noteq> inst_LighthouseAddress i
      \<and> (if fp = inst_Owner i then a = inst_TenantAddress i else mget (inst_Allocations i) fp = Some a)"
    using mo p4 by (auto simp: member_ok_def plan4_ok_def addr_plan_def holder_def a_def split: if_splits)
  show "b = AddrNone \<or> b \<in> hosts (inst_Overlay6 i) \<and> b \<noteq> inst_LighthouseAddress6 i
      \<and> (if fp = inst_Owner i then b = inst_TenantAddress6 i else mget (inst_Allocations6 i) fp = Some b)"
    using mo p6 by (auto simp: member_ok_def plan6_ok_def addr_plan_def holder_def b_def split: if_splits)
qed

lemma plan_distinct:
  assumes "addr_plan p [l, t] table"
    and "if x then a = t else mget table fp = Some a" and "if y then b = t else mget table gp = Some b"
    and "\<not> (x \<and> y)" and "fp \<noteq> gp"
  shows "a \<noteq> b"
  using assms by (auto simp: addr_plan_def split: if_splits)

text \<open>
  C4: in every reachable state two members of an instance never share an address, in either family:
  every address in use is a host of the instance's prefix and is not the lighthouse's. This holds of
  banned members too, whose certificates are still good for the address.
\<close>

theorem member_addresses_unique:
  assumes "reachable V h" and "mget (instances (hub_store h)) iid = Some inst"
    and "mget (inst_Members inst) fp = Some m" and "mget (inst_Members inst) gp = Some n" and "fp \<noteq> gp"
  shows "(paddr (mem_Address m) = AddrNone \<or> paddr (mem_Address m) \<in> hosts (inst_Overlay inst)
        \<and> paddr (mem_Address m) \<noteq> inst_LighthouseAddress inst \<and> paddr (mem_Address m) \<noteq> paddr (mem_Address n))
    \<and> (paddr (mem_Address6 m) = AddrNone \<or> paddr (mem_Address6 m) \<in> hosts (inst_Overlay6 inst)
        \<and> paddr (mem_Address6 m) \<noteq> inst_LighthouseAddress6 inst \<and> paddr (mem_Address6 m) \<noteq> paddr (mem_Address6 n))"
proof -
  have ok: "inst_ok inst" by (rule reachable_instance [OF assms(1,2)])
  note M = member_address [OF ok assms(3)] and N = member_address [OF ok assms(4)]
  have p4: "addr_plan (inst_Overlay inst) [inst_LighthouseAddress inst, inst_TenantAddress inst] (inst_Allocations inst)"
    using ok by (simp add: inst_ok_def plan4_ok_def)
  have own: "\<not> (fp = inst_Owner inst \<and> gp = inst_Owner inst)" using assms(5) by blast
  have "paddr (mem_Address m) \<noteq> paddr (mem_Address n)" if "paddr (mem_Address m) \<noteq> AddrNone"
    using M(1) N(1) that plan_distinct [OF p4 _ _ own assms(5)] by metis
  moreover have "paddr (mem_Address6 m) \<noteq> paddr (mem_Address6 n)" if six: "paddr (mem_Address6 m) \<noteq> AddrNone"
  proof (cases "PrefixIsValid (inst_Overlay6 inst)")
    case True
    then have p6: "addr_plan (inst_Overlay6 inst) [inst_LighthouseAddress6 inst, inst_TenantAddress6 inst] (inst_Allocations6 inst)"
      using ok by (simp add: inst_ok_def plan6_ok_def)
    show ?thesis using M(2) N(2) six plan_distinct [OF p6 _ _ own assms(5)] by metis
  next
    case False
    then have "paddr (mem_Address6 m) = AddrNone"
      using M(2) ok by (auto simp: inst_ok_def plan6_ok_def split: if_splits)
    with six show ?thesis by simp
  qed
  ultimately show ?thesis using M N by blast
qed

theorem member_addresses_unique_witness:
  "paddr (mem_Address member_admitted) \<in> hosts (inst_Overlay inst_admitted)
   \<and> paddr (mem_Address member_admitted) \<noteq> inst_TenantAddress inst_admitted"
proof -
  obtain o' where o': "mget (inst_Members inst_admitted) ''ed25519:o'' = Some o'" "paddr (mem_Address o') = inst_TenantAddress inst_admitted"
    by (simp add: mget_def example_defs)
  have m: "mget (inst_Members inst_admitted) example_key = Some member_admitted"
    by (simp add: mget_def inst_admitted_def example_instance_def example_key_def)
  have i: "mget (instances (hub_store (hub_of inst_admitted lhs_open))) example_id = Some inst_admitted" by simp
  have "paddr (mem_Address member_admitted) \<noteq> AddrNone" by (simp add: member_admitted_def example_member_def)
  then show ?thesis
    using member_addresses_unique [OF example_reachable(4) i m o'(1)] o'(2) by (simp add: example_key_def)
qed

text \<open>
  C18: in every reachable state a name has one owner: two instances never share a name, nor two
  members of an instance a non-empty one; the instance's owner is a member, the only one of its kind.
\<close>

theorem names_have_one_owner:
  assumes "reachable V h" and "mget (instances (hub_store h)) iid = Some inst"
  shows "(\<forall>jid other. mget (instances (hub_store h)) jid = Some other \<longrightarrow> inst_Name other = inst_Name inst \<longrightarrow> jid = iid)
    \<and> (\<forall>fp gp m n. mget (inst_Members inst) fp = Some m \<longrightarrow> mget (inst_Members inst) gp = Some n
         \<longrightarrow> mem_Name m = mem_Name n \<longrightarrow> mem_Name m \<noteq> [] \<longrightarrow> fp = gp)
    \<and> (\<exists>m. mget (inst_Members inst) (inst_Owner inst) = Some m)
    \<and> (\<forall>fp m. mget (inst_Members inst) fp = Some m \<longrightarrow> (mem_Kind m = KindOwner \<longleftrightarrow> fp = inst_Owner inst))"
proof (intro conjI allI impI)
  have ok: "inst_ok inst" and st: "state_ok (st_state (hub_store h))" using reachable_instance [OF assms] by blast+
  show "jid = iid" if "mget (instances (hub_store h)) jid = Some other" "inst_Name other = inst_Name inst" for jid other
    using state_ok_named [OF st that(1) assms(2) that(2)] .
  show "fp = gp" if "mget (inst_Members inst) fp = Some m" "mget (inst_Members inst) gp = Some n"
    "mem_Name m = mem_Name n" "mem_Name m \<noteq> []" for fp gp m n
    using ok that unfolding inst_ok_def members_ok_def names_unique_def by blast
  show "\<exists>m. mget (inst_Members inst) (inst_Owner inst) = Some m"
    using ok by (auto simp: inst_ok_def members_ok_def)
  show "mem_Kind m = KindOwner \<longleftrightarrow> fp = inst_Owner inst" if "mget (inst_Members inst) fp = Some m" for fp m
    using owner_kind [OF ok that] by simp
qed

theorem names_have_one_owner_witness:
  "\<exists>m. mget (inst_Members inst_admitted) (inst_Owner inst_admitted) = Some m \<and> mem_Kind m = KindOwner"
proof -
  have i: "mget (instances (hub_store (hub_of inst_admitted lhs_open))) example_id = Some inst_admitted" by simp
  from names_have_one_owner [OF example_reachable(4) i] show ?thesis by blast
qed

section \<open>Removal\<close>

lemma Validate_key: "Validate U r = Inr q \<Longrightarrow> req_PublicKey q = req_PublicKey r"
  by (auto simp: Validate_def check_hints_def split: if_splits option.splits sum.splits)

lemma name_request_key: "\<exists>q. name_request U who r = Some q \<and> req_PublicKey q = req_PublicKey r"
  by (auto simp: name_request_def ensure_def split: sum.split option.split)

lemma enroll_burned:
  assumes "Resolve (env_unicode V) ref (hub_store h) = Ret inst" and "mget (instances (hub_store h)) (inst_ID inst) = Some inst"
    and "burned inst (fingerprintOf V (req_PublicKey req))"
  shows "\<exists>e. snd (Enroll V io now nid ref req who h) = Fail e"
proof (cases "Validate (env_unicode V) req")
  case (Inl e)
  then show ?thesis by (simp add: Enroll_def)
next
  case (Inr r)
  obtain q where q: "name_request (env_unicode V) who r = Some q" "req_PublicKey q = req_PublicKey req"
    using name_request_key [of "env_unicode V" who r] Validate_key [OF Inr] by auto
  let ?c = "enroll_closure V now nid q who (fingerprintOf V (req_PublicKey q))"
  have "burned (ensureMaps inst) (fingerprintOf V (req_PublicKey q))"
    using assms(3) q(2) by (simp add: burned_def ensureMaps_def)
  then have "\<exists>e. ?c (ensureMaps inst) = (ensureMaps inst, Fail e)" by (simp add: enroll_closure_def)
  then obtain e where "?c (ensureMaps inst) = (ensureMaps inst, Fail e)" by blast
  then have "snd (on_store (Update io (inst_ID inst) ?c) h) = Fail e"
    using Update_eq [where io = io and fn = ?c, OF assms(2)] by (simp add: on_store_snd)
  then show ?thesis using Inr q assms(1) by (auto simp: Enroll_def split: option.split)
qed

lemma RemoveMember_Ret:
  assumes "hub_inv inst_ok h" and "RemoveMember io iid ref h = (h', Ret m)"
  obtains i fp where "mget (instances (hub_store h)) iid = Some i" and "memberIn (ensureMaps i) ref = Inr (fp, m)"
    and "mget (inst_Members i) fp = Some m" and "mem_Kind m \<noteq> KindOwner" and "Banned m" and "mem_Fingerprint m = fp"
    and "mget (instances (hub_store h')) iid = Some (without_member (ensureMaps i) fp m)"
    and "hub_lhs h' = hub_lhs h" and "hub_cfg h' = hub_cfg h"
    and "fs_file (st_fs (hub_store h')) = Some (Whole (json_state (st_state (hub_store h'))))"
proof -
  obtain s' where s: "Update io iid (remove_closure ref) (hub_store h) = (s', Ret m)" and h': "h' = h\<lparr>hub_store := s'\<rparr>"
    using assms(2) by (auto simp: RemoveMember_def on_store_def split: prod.splits)
  obtain i j where i: "mget (instances (hub_store h)) iid = Some i" and j: "remove_closure ref (ensureMaps i) = (j, Ret m)"
    and saved: "fs_file (st_fs s') = Some (Whole (json_state (st_state s')))"
    using Update_Ret [OF s] by metis
  obtain fp where fp: "memberIn (ensureMaps i) ref = Inr (fp, m)" "mem_Kind m \<noteq> KindOwner" "Banned m"
    "j = without_member (ensureMaps i) fp m"
    using remove_closure_Ret [OF j] by metis
  have ok: "inst_ok i" using assms(1) i by (auto simp: hub_inv_def store_inv_def all_instances_def)
  then have "wf_map (inst_Members (ensureMaps i))" by (simp add: ensureMaps_def inst_ok_def members_ok_def)
  then have "mget (inst_Members (ensureMaps i)) fp = Some m" using memberIn_get(1) fp(1) by blast
  then have mem: "mget (inst_Members i) fp = Some m" by (simp add: ensureMaps_def)
  then have "mem_Fingerprint m = fp"
    using ok owner_kind [OF ok mem] fp(2) unfolding inst_ok_def members_ok_def member_ok_def by metis
  moreover have "mget (instances s') iid = Some j"
    using Update_get [of io iid "remove_closure ref" "hub_store h" iid] s i j by simp
  ultimately show ?thesis using that [OF i fp(1) mem fp(2,3)] saved h' fp(4) by simp
qed

lemma removed_inv:
  assumes inv: "hub_inv inst_ok h" and run: "RemoveMember io iid ref h = (h', Ret m)"
  shows "hub_inv (\<lambda>i. inst_ok i \<and> (inst_ID i = iid \<longrightarrow> burned i (mem_Fingerprint m))) h'"
proof -
  obtain i fp where R: "mget (instances (hub_store h)) iid = Some i" "memberIn (ensureMaps i) ref = Inr (fp, m)"
    "mget (inst_Members i) fp = Some m" "mem_Kind m \<noteq> KindOwner" "Banned m" "mem_Fingerprint m = fp"
    "mget (instances (hub_store h')) iid = Some (without_member (ensureMaps i) fp m)"
    "hub_lhs h' = hub_lhs h" "hub_cfg h' = hub_cfg h"
    "fs_file (st_fs (hub_store h')) = Some (Whole (json_state (st_state (hub_store h'))))"
    using RemoveMember_Ret [OF inv run] by metis
  let ?I = "\<lambda>i. inst_ok i \<and> (inst_ID i = iid \<longrightarrow> burned i fp)"
  have "hub_inv inst_ok h'"
    using hub_ok.hub_steps_inv [OF simple_steps(5) [of _ "{}" h io iid ref] inv] run by simp
  then have ok: "state_ok (st_state (hub_store h'))" "all_instances inst_ok (st_state (hub_store h'))"
    "lhs_ok (hub_lhs h')" "cfg_ok (hub_cfg h')"
    by (auto simp: hub_inv_def store_inv_def)
  have "burned (without_member (ensureMaps i) fp m) fp" by (simp add: burned_def without_member_def)
  then have I: "all_instances ?I (st_state (hub_store h'))"
    using ok(1,2) R(7) unfolding all_instances_def by (metis option.sel state_ok_id)
  then have "state_ok (json_state (st_state (hub_store h'))) \<and> all_instances ?I (json_state (st_state (hub_store h')))"
    using burned_key.json_inv [OF ok(1) I] by blast
  then show ?thesis using ok I R(6,10) by (simp add: hub_inv_def store_inv_def)
qed

text \<open>
  C3: removal is final. Once \<open>RemoveMember\<close> has answered, the key it removed is refused by every
  enrollment into that instance and appears nowhere in it, in every later state: after any other
  operations, in any interleaving, and after any number of crashes and restarts. The one assumption
  is that the random generator does not draw the instance's id again.
\<close>

theorem removed_key_stays_out:
  assumes "reachable V h" and "RemoveMember io iid ref h = (h1, Ret m)" and "(hub_step V {iid})\<^sup>*\<^sup>* h1 h2"
    and "mget (instances (hub_store h2)) iid = Some inst"
  shows "absent inst (mem_Fingerprint m)
    \<and> (\<forall>io now nid ref req who. Resolve (env_unicode V) ref (hub_store h2) = Ret inst \<longrightarrow>
        fingerprintOf V (req_PublicKey req) = mem_Fingerprint m \<longrightarrow>
        (\<exists>e. snd (Enroll V io now nid ref req who h2) = Fail e))"
proof -
  have inv: "hub_inv (\<lambda>i. inst_ok i \<and> (inst_ID i = iid \<longrightarrow> burned i (mem_Fingerprint m))) h2"
    using burned_key.hub_steps_inv [OF assms(3)] removed_inv [OF reachable_inv [OF assms(1)] assms(2)] by blast
  then have st: "state_ok (st_state (hub_store h2))" by (simp add: hub_inv_def store_inv_def)
  have ok: "inst_ok inst" "burned inst (mem_Fingerprint m)" "inst_ID inst = iid"
    using inv assms(4) state_ok_id [OF st assms(4)] by (auto simp: hub_inv_def store_inv_def all_instances_def)
  show ?thesis
  proof (intro conjI allI impI)
    show "absent inst (mem_Fingerprint m)" using ok by (simp add: inst_ok_def burned_ok_def)
    fix io now nid ref who and req :: Request
    assume "Resolve (env_unicode V) ref (hub_store h2) = Ret inst" "fingerprintOf V (req_PublicKey req) = mem_Fingerprint m"
    then show "\<exists>e. snd (Enroll V io now nid ref req who h2) = Fail e"
      using enroll_burned [of V ref h2 inst req] assms(4) ok by simp
  qed
qed

lemma example_remove:
  "RemoveMember None example_id ''web'' (hub_of inst_banned lhs_blocked)
   = (hub_of (without_member inst_banned example_key (add_event EventBan ''left'' 4 member_admitted)) lhs_blocked,
      Ret (add_event EventBan ''left'' 4 member_admitted))"
proof -
  have "remove_closure ''web'' inst_banned = (without_member inst_banned example_key (add_event EventBan ''left'' 4 member_admitted),
      Ret (add_event EventBan ''left'' 4 member_admitted))"
    by (simp add: remove_closure_def memberIn_def HasPrefix_def Banned_def add_event_def without_member_def example_defs
        KindConnector_def KindOwner_def)
  from hub_of_update [where fn = "remove_closure ''web''", OF this example_ensure(5)]
  show ?thesis by (simp add: RemoveMember_def)
qed

theorem removed_key_stays_out_witness:
  "\<exists>e. snd (Enroll example_env None 9 ''r2'' example_id example_request example_applicant
     (fst (RemoveMember None example_id ''web'' (hub_of inst_banned lhs_blocked)))) = Fail e"
proof -
  let ?m = "add_event EventBan ''left'' 4 member_admitted"
  let ?j = "without_member inst_banned example_key ?m"
  have j: "mget (instances (hub_store (hub_of ?j lhs_blocked))) example_id = Some ?j" by simp
  have r: "Resolve (env_unicode example_env) example_id (hub_store (hub_of ?j lhs_blocked)) = Ret ?j"
    by (simp add: Resolve_def)
  have "mem_Fingerprint ?m = example_key" by (simp add: add_event_def member_admitted_def)
  then show ?thesis
    using removed_key_stays_out [OF example_reachable(5) example_remove rtranclp.rtrancl_refl j] r
    by (simp add: example_remove example_fingerprint)
qed

lemma sort_mset_eq: "mset (xs :: string list) = mset ys \<Longrightarrow> sort xs = sort ys"
  by (metis mset_sort sorted_list_of_multiset_mset)

lemma blockedIn_without:
  assumes "wf_map (inst_Members i)" and "mget (inst_Members i) fp = Some m" and "Banned m"
  shows "blockedIn (without_member i fp m) = blockedIn i"
proof -
  let ?P = "\<lambda>m. Banned m \<and> mem_CertFingerprint m \<noteq> []"
  let ?g = "\<lambda>ms. map mem_CertFingerprint (filter ?P (map snd ms))"
  let ?c = "map bur_CertFingerprint (filter (\<lambda>b. bur_CertFingerprint b \<noteq> []) [\<lparr>bur_Fingerprint = fp, bur_CertFingerprint = mem_CertFingerprint m\<rparr>])"
  have "mset (?g l) = mset (?g (AList.delete fp l)) + mset ?c" if "distinct (map fst l)" "map_of l fp = Some m" for l
    using that
  proof (induction l)
    case (Cons p l)
    show ?case
    proof (cases "fst p = fp")
      case True
      then have "fp \<notin> fst ` set l" "snd p = m" using Cons.prems by auto
      then show ?thesis using True assms(3) by (cases p) (simp add: delete_id)
    qed (use Cons in \<open>auto simp: AList.delete_eq\<close>)
  qed simp
  moreover obtain l where "inst_Members i = Some l" using assms(2) by (cases "inst_Members i") (auto simp: mget_def)
  ultimately have "mset (?g (items (inst_Members i))) = mset (?g (items (mdel fp (inst_Members i)))) + mset ?c"
    using assms(1,2) by (simp add: wf_map_def mget_def)
  then show ?thesis
    unfolding blockedIn_def by (intro sort_mset_eq) (simp add: without_member_def vals_def)
qed

text \<open>
  Removing a banned member changes nobody's blocklist: the certificate stays on it, now as a
  burned one, so no lighthouse needs a reload, and the addresses the member held are free again. Only
  a banned member can be removed, and never the owner.
\<close>

theorem remove_keeps_blocklist:
  assumes "reachable V h" and "RemoveMember io iid ref h = (h', Ret m)"
  shows "Banned m \<and> mem_Kind m \<noteq> KindOwner \<and> hub_lhs h' = hub_lhs h
    \<and> (\<exists>i j. mget (instances (hub_store h)) iid = Some i \<and> mget (instances (hub_store h')) iid = Some j
        \<and> mget (inst_Members i) (mem_Fingerprint m) = Some m \<and> mget (inst_Members j) (mem_Fingerprint m) = None
        \<and> blockedIn j = blockedIn i
        \<and> (paddr (mem_Address m) \<noteq> AddrNone \<longrightarrow> paddr (mem_Address m) \<notin> set (vals (inst_Allocations j))))"
proof -
  have inv: "hub_inv inst_ok h" by (rule reachable_inv [OF assms(1)])
  obtain i fp where R: "mget (instances (hub_store h)) iid = Some i" "memberIn (ensureMaps i) ref = Inr (fp, m)"
    "mget (inst_Members i) fp = Some m" "mem_Kind m \<noteq> KindOwner" "Banned m" "mem_Fingerprint m = fp"
    "mget (instances (hub_store h')) iid = Some (without_member (ensureMaps i) fp m)" "hub_lhs h' = hub_lhs h"
    using RemoveMember_Ret [OF inv assms(2)] by metis
  let ?e = "ensureMaps i" and ?a = "paddr (mem_Address m)"
  have ok: "inst_ok ?e" using similar_ok [OF similar_ensure] reachable_instance(1) [OF assms(1) R(1)] .
  have mem: "mget (inst_Members ?e) fp = Some m" using R(3) by (simp add: ensureMaps_def)
  have wf: "wf_map (inst_Members ?e)" "wf_map (inst_Allocations ?e)"
    using ok plan4_wf by (auto simp: inst_ok_def members_ok_def)
  have "blockedIn ?e = blockedIn i" by (simp add: blockedIn_def ensureMaps_def vals_def)
  then have "blockedIn (without_member ?e fp m) = blockedIn i"
    using blockedIn_without [OF wf(1) mem R(5)] by simp
  moreover have "?a \<notin> set (vals (inst_Allocations (without_member ?e fp m)))" if "?a \<noteq> AddrNone"
  proof
    assume "?a \<in> set (vals (inst_Allocations (without_member ?e fp m)))"
    then obtain gp where gp: "gp \<noteq> fp" "mget (inst_Allocations ?e) gp = Some ?a"
      using vals_iff [OF wf_map_del [OF wf(2)]] by (auto simp: without_member_def mget_del [OF wf(2)] split: if_splits)
    moreover have "mget (inst_Allocations ?e) fp = Some ?a"
      using member_address(1) [OF ok mem] that owner_kind [OF ok mem] R(4) by auto
    ultimately show False using ok by (auto simp: inst_ok_def plan4_ok_def addr_plan_def)
  qed
  moreover have "mget (inst_Members (without_member ?e fp m)) fp = None"
    by (simp add: without_member_def mget_del [OF wf(1)])
  ultimately show ?thesis using R by auto
qed

theorem remove_keeps_blocklist_witness:
  "blockedIn (without_member inst_banned example_key (add_event EventBan ''left'' 4 member_admitted)) = blockedIn inst_banned
   \<and> blockedIn inst_banned = [''c1'']"
proof -
  have "blockedIn inst_banned = [''c1'']"
    by (simp add: blockedIn_def vals_def Banned_def add_event_def example_defs)
  then show ?thesis using remove_keeps_blocklist [OF example_reachable(5) example_remove] by simp
qed

end
