(* ===== verification/Enforce.thy ===== *)
theory Enforce
  imports Guarantees
begin

text \<open>
  Bans: that one reaches the route table, the blocklist and the running lighthouse, and that lifting
  it restores what every member sees.
\<close>

section \<open>What a ban and its lifting have in common\<close>

text \<open>A member's change of state: what the closures of \<open>Ban\<close> and \<open>Unban\<close> have in common.\<close>

lemma and_then_Ret:
  assumes "and_then x f = (h', Ret b)"
  obtains g a where "x = (g, Ret a)" and "f g = (h', Ret b)"
  using assms by (cases x; cases "snd x") (auto simp: and_then_def)

lemma on_store_Ret:
  assumes "on_store f h = (h', Ret a)"
  obtains s' where "f (hub_store h) = (s', Ret a)" and "h' = h\<lparr>hub_store := s'\<rparr>"
  using assms by (auto simp: on_store_def split: prod.splits)

lemma event_blocklist:
  assumes inv: "hub_inv inst_ok h" and run: "and_then (on_store (Update io iid fn) h) (applyBlocklist V iid) = (h', Ret ())"
    and rt: "yaml_roundtrip (env_nebula V)" and keep: "\<And>i. inst_ok i \<Longrightarrow> writable i \<Longrightarrow> keeps_name i (fst (fn i))"
  obtains i j where "mget (instances (hub_store h)) iid = Some i" and "fn (ensureMaps i) = (j, Ret ())"
    and "mget (instances (hub_store h')) iid = Some j" and "inst_ok i"
    and "isRunning iid (hub_lhs h) \<Longrightarrow> running_blocklist (env_nebula V) (hub_lhs h') iid = Some (blockedIn j)"
proof -
  obtain g a where g: "on_store (Update io iid fn) h = (g, Ret a)" and ap: "applyBlocklist V iid g = (h', Ret ())"
    using and_then_Ret [OF run] by metis
  obtain s' where s: "Update io iid fn (hub_store h) = (s', Ret a)" and gs: "g = h\<lparr>hub_store := s'\<rparr>"
    using on_store_Ret [OF g] by metis
  obtain i j where i: "mget (instances (hub_store h)) iid = Some i" and f: "fn (ensureMaps i) = (j, Ret a)"
    using Update_Ret [OF s] by metis
  have j: "mget (instances s') iid = Some j" using Update_get [of io iid fn "hub_store h" iid] s i f by simp
  have ok: "inst_ok i" "state_ok (st_state (hub_store h))"
    using inv i by (auto simp: hub_inv_def store_inv_def all_instances_def)
  have "keeps_name (ensureMaps i) j"
    using keep [OF similar_ok [OF similar_ensure ok(1)] writable_ensure] f by simp
  then have id: "inst_ID j = iid" using state_ok_id [OF ok(2) i] by (simp add: keeps_name_def ensureMaps_def)
  obtain ls where ls: "reload_lh (env_nebula V) j (cfg_NebulaBind (hub_cfg h)) (hub_lhs h) = (ls, Ret ())"
    and h': "h' = h\<lparr>hub_store := s', hub_lhs := ls\<rparr>"
    using ap j by (auto simp: gs applyBlocklist_def Get_def split: prod.splits out.splits)
  have "running_blocklist (env_nebula V) (hub_lhs h') iid = Some (blockedIn j)" if "isRunning iid (hub_lhs h)"
    using reload_lh_blocklist [OF rt _ _ ls] that inv id h' by (simp add: hub_inv_def)
  moreover have "fn (ensureMaps i) = (j, Ret ())" using f by (cases a) simp
  ultimately show ?thesis using that i j ok(1) h' by simp
qed

lemma Banned_event [simp]: "Banned (add_event kind note now m) \<longleftrightarrow> kind = EventBan"
  by (simp add: Banned_def add_event_def)

lemma add_event_name [simp]: "mem_Name (add_event k note now m) = mem_Name m" "mem_Kind (add_event k note now m) = mem_Kind m"
  "mem_CertFingerprint (add_event k note now m) = mem_CertFingerprint m"
  by (simp_all add: add_event_def)

lemma EventBan_ne [simp]: "EventUnban \<noteq> EventBan" "EventBan \<noteq> EventUnban"
  by (simp_all add: EventBan_def EventUnban_def)

lemma ban_closure_Ret:
  assumes "ban_closure now ref note i = (j, Ret ())" and "wf_map (inst_Members i)"
  obtains fp m where "memberIn i ref = Inr (fp, m)" and "mget (inst_Members i) fp = Some m" and "\<not> Banned m"
    and "j = i\<lparr>inst_Members := madjust fp (add_event EventBan note now) (inst_Members i)\<rparr>"
  using assms memberIn_get(1) by (auto simp: ban_closure_def split: sum.splits if_splits)

lemma unban_closure_Ret:
  assumes "unban_closure now ref note i = (j, Ret ())" and "wf_map (inst_Members i)"
  obtains fp m where "memberIn i ref = Inr (fp, m)" and "mget (inst_Members i) fp = Some m" and "Banned m"
    and "j = i\<lparr>inst_Members := madjust fp (add_event EventUnban note now) (inst_Members i)\<rparr>"
  using assms memberIn_get(1) by (auto simp: unban_closure_def split: sum.splits if_splits)

section \<open>Properties\<close>

text \<open>
  C6: a ban that succeeds is in force: the member stays in the instance, marked; its certificate is
  on the blocklist every member reads, none of its prefixes is in the route table any more, and a
  lighthouse that is running refuses exactly the new blocklist. Nobody else's record changes.
\<close>

theorem ban_takes_effect:
  assumes "reachable V h" and "yaml_roundtrip (env_nebula V)" and "Ban V io now iid ref note h = (h', Ret ())"
  shows "\<exists>i j fp m. mget (instances (hub_store h)) iid = Some i \<and> mget (instances (hub_store h')) iid = Some j
    \<and> mget (inst_Members i) fp = Some m \<and> \<not> Banned m \<and> (HasPrefix fp ref \<or> mem_Name m = ref)
    \<and> (\<forall>gp. mget (inst_Members j) gp = (if gp = fp then Some (add_event EventBan note now m) else mget (inst_Members i) gp))
    \<and> (mem_CertFingerprint m \<noteq> [] \<longrightarrow> mem_CertFingerprint m \<in> set (rtab_Blocked (RouteTableOf (hub_cfg h) j)))
    \<and> (mem_Name m \<noteq> [] \<longrightarrow> (\<forall>r \<in> set (rtab_Routes (RouteTableOf (hub_cfg h) j)). rt_Connector r \<noteq> mem_Name m))
    \<and> (isRunning iid (hub_lhs h) \<longrightarrow> running_blocklist (env_nebula V) (hub_lhs h') iid = Some (blockedIn j))"
proof -
  let ?e = "\<lambda>i. ensureMaps i"
  obtain i j where i: "mget (instances (hub_store h)) iid = Some i" and f: "ban_closure now ref note (?e i) = (j, Ret ())"
    and j: "mget (instances (hub_store h')) iid = Some j" and ok: "inst_ok i"
    and run: "isRunning iid (hub_lhs h) \<Longrightarrow> running_blocklist (env_nebula V) (hub_lhs h') iid = Some (blockedIn j)"
    using event_blocklist [OF reachable_inv [OF assms(1)] assms(3) [unfolded Ban_def] assms(2)] ban_safe
    unfolding safe_closure_def by metis
  have oke: "inst_ok (?e i)" by (rule similar_ok [OF similar_ensure ok])
  then have wf: "wf_map (inst_Members (?e i))" by (simp add: inst_ok_def members_ok_def)
  obtain fp m where m: "memberIn (?e i) ref = Inr (fp, m)" "mget (inst_Members (?e i)) fp = Some m" "\<not> Banned m"
    and jm: "j = (?e i)\<lparr>inst_Members := madjust fp (add_event EventBan note now) (inst_Members (?e i))\<rparr>"
    using ban_closure_Ret [OF f wf] by metis
  have okj: "inst_ok j" using ban_safe oke f unfolding safe_closure_def by (metis fst_conv writable_ensure)
  then have wfj: "wf_map (inst_Members j)" and uq: "names_unique (inst_Members j)"
    by (simp_all add: inst_ok_def members_ok_def)
  have get: "mget (inst_Members j) gp = (if gp = fp then Some (add_event EventBan note now m) else mget (inst_Members (?e i)) gp)" for gp
    using m(2) by (simp add: jm mget_adjust)
  have blk: "mem_CertFingerprint m \<in> set (blockedIn j)" if "mem_CertFingerprint m \<noteq> []"
  proof -
    have "mget (inst_Members j) fp = Some (add_event EventBan note now m)" using get [of fp] by simp
    then show ?thesis unfolding set_blockedIn [OF wfj] using that by (metis Banned_event add_event_name(3))
  qed
  have "rt_Connector r \<noteq> mem_Name m" if nm: "mem_Name m \<noteq> []" and rin: "r \<in> set (routesOf j)" for r
  proof
    assume "rt_Connector r = mem_Name m"
    then obtain gp n where n: "mget (inst_Members j) gp = Some n" "\<not> Banned n" "mem_Name n = mem_Name m"
      using rin unfolding set_routesOf [OF wfj] by auto
    moreover have "gp \<noteq> fp" using n get [of fp] by auto
    ultimately show False using uq get [of fp] nm unfolding names_unique_def by (metis add_event_name)
  qed
  moreover have "HasPrefix fp ref \<or> mem_Name m = ref" using memberIn_get(2) [OF wf m(1)] .
  moreover have "mget (inst_Members (?e i)) gp = mget (inst_Members i) gp" for gp by (simp add: ensureMaps_def)
  ultimately show ?thesis
    using i j m(2,3) get blk run by (intro exI [of _ i] exI [of _ j] exI [of _ fp] exI [of _ m]) (simp add: RouteTableOf_def)
qed

theorem ban_takes_effect_witness:
  "running_blocklist (env_nebula example_env) (hub_lhs (fst (Ban example_env None 4 example_id ''web'' ''left''
     (hub_of inst_admitted lhs_open)))) example_id = Some [''c1'']"
proof -
  have rt: "yaml_roundtrip (env_nebula example_env)" by (simp add: example_env_def two_trees_roundtrip)
  have "isRunning example_id lhs_open" by (simp add: isRunning_def lhs_open_def mget_def)
  moreover have "blockedIn inst_banned = [''c1'']"
    by (simp add: blockedIn_def vals_def Banned_def add_event_def example_defs)
  ultimately show ?thesis
    using ban_takes_effect [OF example_reachable(4) rt example_ban] by (auto simp: example_ban)
qed

section \<open>Lifting a ban\<close>

text \<open>A change of a member nobody looking at the instance can see: its history, but not whether it is banned.\<close>

definition same_view :: "Member \<Rightarrow> Member \<Rightarrow> bool" where
  "same_view m n \<longleftrightarrow> n = m\<lparr>mem_Events := mem_Events n\<rparr> \<and> Banned n = Banned m"

lemma same_view_refl [simp]: "same_view m m"
  by (simp add: same_view_def)

lemma same_view_fields:
  assumes "same_view m n"
  shows "mem_Kind n = mem_Kind m" "mem_Name n = mem_Name m" "mem_Address n = mem_Address m" "mem_Address6 n = mem_Address6 m"
    "mem_Routes n = mem_Routes m" "mem_Domain n = mem_Domain m" "mem_CertFingerprint n = mem_CertFingerprint m"
    "mem_Identity n = mem_Identity m" "Banned n = Banned m"
proof -
  have n: "n = m\<lparr>mem_Events := mem_Events n\<rparr>" using assms by (simp add: same_view_def)
  show "mem_Kind n = mem_Kind m" "mem_Name n = mem_Name m" "mem_Address n = mem_Address m" "mem_Address6 n = mem_Address6 m"
    "mem_Routes n = mem_Routes m" "mem_Domain n = mem_Domain m" "mem_CertFingerprint n = mem_CertFingerprint m"
    "mem_Identity n = mem_Identity m"
    by (subst n, simp)+
  show "Banned n = Banned m" using assms by (simp add: same_view_def)
qed

lemma map_filter_view:
  assumes "list_all2 same_view xs ys" and "\<And>m n. same_view m n \<Longrightarrow> P n = P m \<and> f n = f m"
  shows "map f (filter P ys) = map f (filter P xs)"
  using assms(1) by (induction rule: list_all2_induct) (auto simp: assms(2))

lemma views_same:
  assumes v: "list_all2 same_view (vals (inst_Members i)) (vals (inst_Members j))" and b: "inst_Burned j = inst_Burned i"
  shows "routesOf j = routesOf i" and "resolversOf j = resolversOf i" and "blockedIn j = blockedIn i" and "MemberCount j = MemberCount i"
proof -
  note mf = map_filter_view [OF v] and sv = same_view_fields
  show "routesOf j = routesOf i" unfolding routesOf_def by (subst mf) (simp_all add: sv)
  show "resolversOf j = resolversOf i" unfolding resolversOf_def by (subst mf) (simp_all add: sv)
  show "blockedIn j = blockedIn i" unfolding blockedIn_def b by (subst mf) (simp_all add: sv)
  have "map (\<lambda>_. ()) (filter (\<lambda>m. mem_Kind m \<noteq> KindOwner \<and> \<not> Banned m) (vals (inst_Members j)))
    = map (\<lambda>_. ()) (filter (\<lambda>m. mem_Kind m \<noteq> KindOwner \<and> \<not> Banned m) (vals (inst_Members i)))"
    by (rule mf) (simp add: sv)
  from arg_cong [OF this, of length] show "MemberCount j = MemberCount i" by (simp add: MemberCount_def)
qed

lemma memberIn_adjust:
  assumes "\<And>m. mem_Name (f m) = mem_Name m"
  shows "memberIn (i\<lparr>inst_Members := madjust fp f (inst_Members i)\<rparr>) ref =
    (case memberIn i ref of Inl e \<Rightarrow> Inl e | Inr (gp, m) \<Rightarrow> Inr (gp, if gp = fp then f m else m))"
proof -
  have "find (\<lambda>(k, m). k = ref \<or> HasPrefix k ref \<or> mem_Name m = ref) (map (\<lambda>(k, v). (k, if k = fp then f v else v)) l)
    = map_option (\<lambda>(k, v). (k, if k = fp then f v else v)) (find (\<lambda>(k, m). k = ref \<or> HasPrefix k ref \<or> mem_Name m = ref) l)" for l
    by (induction l) (simp_all add: if_distrib [of mem_Name] assms split_beta)
  then show ?thesis by (auto simp: memberIn_def items_adjust split: option.split)
qed

lemma adjust_adjust: "madjust k f (madjust k g m) = madjust k (\<lambda>v. f (g v)) m"
  by (cases m) (auto simp: madjust_def)

lemma ban_unban_views:
  assumes wf: "wf_map (inst_Members i)"
    and ban: "ban_closure t ref note i = (j, Ret ())" and unban: "unban_closure u ref note' j = (k, Ret ())"
  shows "list_all2 same_view (vals (inst_Members i)) (vals (inst_Members k)) \<and> inst_Burned k = inst_Burned i"
proof -
  obtain fp m where b: "memberIn i ref = Inr (fp, m)" "mget (inst_Members i) fp = Some m" "\<not> Banned m"
    "j = i\<lparr>inst_Members := madjust fp (add_event EventBan note t) (inst_Members i)\<rparr>"
    using ban_closure_Ret [OF ban wf] by metis
  have wfj: "wf_map (inst_Members j)" using wf by (simp add: b(4))
  obtain gp n where u: "memberIn j ref = Inr (gp, n)"
    "k = j\<lparr>inst_Members := madjust gp (add_event EventUnban note' u) (inst_Members j)\<rparr>"
    using unban_closure_Ret [OF unban wfj] by metis
  have "gp = fp" using u(1) b(1) by (simp add: b(4) memberIn_adjust)
  then have k: "inst_Members k = madjust fp (\<lambda>v. add_event EventUnban note' u (add_event EventBan note t v)) (inst_Members i)"
    by (simp add: u(2) b(4) adjust_adjust)
  have "same_view v (add_event EventUnban note' u (add_event EventBan note t v))" if "(fp, v) \<in> set (items (inst_Members i))" for v
  proof -
    have "mget (inst_Members i) fp = Some v" using that mget_items [OF wf] by simp
    then have "\<not> Banned v" using b(2,3) by simp
    then show ?thesis by (simp add: same_view_def) (simp add: add_event_def)
  qed
  then have "list_all2 same_view (vals (inst_Members i)) (vals (inst_Members k))"
    by (auto simp: vals_def k items_adjust list_all2_map1 list_all2_map2 intro!: list.rel_refl_strong)
  then show ?thesis by (simp add: u(2) b(4))
qed

lemma ensureMaps_writable: "writable i \<Longrightarrow> ensureMaps i = i"
  by (auto simp: writable_def ensureMaps_def ensure_def)

lemma RouteTableOf_same:
  assumes "list_all2 same_view (vals (inst_Members i)) (vals (inst_Members k))" and "k = i\<lparr>inst_Members := ms\<rparr>"
  shows "RouteTableOf cfg k = RouteTableOf cfg i"
proof -
  have "inst_Burned k = inst_Burned i" by (simp add: assms(2))
  note v = views_same [OF assms(1) this]
  show ?thesis by (simp add: RouteTableOf_def v) (simp add: assms(2))
qed

text \<open>
  Lifting a ban undoes it: after \<open>Ban\<close> and \<open>Unban\<close> of the same reference the route table, the
  resolvers, the blocklist and the number of members are what they were before, nothing has to be
  issued again, and a running lighthouse refuses exactly what it refused before. The member's record
  has both events in it.
\<close>

theorem unban_restores:
  assumes "reachable V h" and "yaml_roundtrip (env_nebula V)"
    and "Ban V io t iid ref note h = (h1, Ret ())" and "Unban V io' u iid ref note' h1 = (h2, Ret ())"
  shows "\<exists>i k. mget (instances (hub_store h)) iid = Some i \<and> mget (instances (hub_store h2)) iid = Some k
    \<and> RouteTableOf (hub_cfg h) k = RouteTableOf (hub_cfg h) i \<and> MemberCount k = MemberCount i
    \<and> (isRunning iid (hub_lhs h1) \<longrightarrow> running_blocklist (env_nebula V) (hub_lhs h2) iid = Some (blockedIn i))"
proof -
  have inv: "hub_inv inst_ok h" by (rule reachable_inv [OF assms(1)])
  have inv1: "hub_inv inst_ok h1" using hub_ok.hub_steps_inv [OF simple_steps(3) inv] assms(3) by (metis fst_conv)
  obtain i j where i: "mget (instances (hub_store h)) iid = Some i" "inst_ok i"
    and f: "ban_closure t ref note (ensureMaps i) = (j, Ret ())" and j: "mget (instances (hub_store h1)) iid = Some j"
    using event_blocklist [OF inv assms(3) [unfolded Ban_def] assms(2)] ban_safe unfolding safe_closure_def by metis
  obtain j' k where j': "mget (instances (hub_store h1)) iid = Some j'" and g: "unban_closure u ref note' (ensureMaps j') = (k, Ret ())"
    and k: "mget (instances (hub_store h2)) iid = Some k"
    and run: "isRunning iid (hub_lhs h1) \<Longrightarrow> running_blocklist (env_nebula V) (hub_lhs h2) iid = Some (blockedIn k)"
    using event_blocklist [OF inv1 assms(4) [unfolded Unban_def] assms(2)] unban_safe unfolding safe_closure_def by metis
  have wf: "wf_map (inst_Members (ensureMaps i))" using i(2) by (simp add: ensureMaps_def inst_ok_def members_ok_def)
  obtain fp where jm: "j = (ensureMaps i)\<lparr>inst_Members := madjust fp (add_event EventBan note t) (inst_Members (ensureMaps i))\<rparr>"
    using ban_closure_Ret [OF f wf] by metis
  then have "writable j" using writable_ensure [of i] by (simp add: writable_def)
  then have g': "unban_closure u ref note' j = (k, Ret ())" using g j j' ensureMaps_writable by simp
  have "wf_map (inst_Members j)" using wf by (simp add: jm)
  from unban_closure_Ret [OF g' this] have "\<exists>ms. k = j\<lparr>inst_Members := ms\<rparr>" by blast
  then obtain ms where km: "k = (ensureMaps i)\<lparr>inst_Members := ms\<rparr>" using jm by auto
  note v = ban_unban_views [OF wf f g']
  have "RouteTableOf (hub_cfg h) k = RouteTableOf (hub_cfg h) (ensureMaps i)"
    by (rule RouteTableOf_same [OF conjunct1 [OF v] km])
  moreover have "blockedIn k = blockedIn (ensureMaps i)" "MemberCount k = MemberCount (ensureMaps i)"
    using views_same [OF conjunct1 [OF v] conjunct2 [OF v]] by simp_all
  moreover have "RouteTableOf cfg (ensureMaps i) = RouteTableOf cfg i" "blockedIn (ensureMaps i) = blockedIn i"
    "MemberCount (ensureMaps i) = MemberCount i" for cfg
    by (simp_all add: RouteTableOf_def routesOf_def resolversOf_def blockedIn_def MemberCount_def ensureMaps_def vals_def)
  ultimately show ?thesis using i(1) k run by simp
qed

lemma example_unban:
  "Unban example_env None 5 example_id ''web'' ''back'' (hub_of inst_banned lhs_blocked)
   = (hub_of (inst_banned\<lparr>inst_Members := Some (items (inst_Members example_instance)
       @ [(example_key, add_event EventUnban ''back'' 5 (add_event EventBan ''left'' 4 member_admitted))])\<rparr>) lhs_open, Ret ())"
proof -
  let ?m = "Some (items (inst_Members example_instance)
       @ [(example_key, add_event EventUnban ''back'' 5 (add_event EventBan ''left'' 4 member_admitted))])"
  let ?k = "inst_banned\<lparr>inst_Members := ?m\<rparr>"
  have c: "unban_closure 5 ''web'' ''back'' inst_banned = (?k, Ret ())"
    by (simp add: unban_closure_def memberIn_def Banned_def madjust_def HasPrefix_def inst_banned_def)
      (simp add: add_event_def example_defs Banned_def madjust_def)
  have "blockedIn ?k = []" by (simp add: blockedIn_def vals_def) (simp add: Banned_def example_defs)
  moreover have "?k = example_active\<lparr>inst_Allocations := inst_Allocations ?k, inst_Requests := inst_Requests ?k, inst_Members := ?m\<rparr>"
    by (simp add: inst_banned_def inst_admitted_def inst_enrolled_def)
  ultimately have "lighthouseConfig (env_nebula example_env) ?k ''0.0.0.0'' True False = Inr ''t''"
    by (rule example_config_open)
  then have "reload_lh (env_nebula example_env) ?k ''0.0.0.0'' lhs_blocked = (lhs_open, Ret ())"
    by (simp add: reload_lh_def lhs_blocked_def mget_def)
      (simp add: lhs_open_def madjust_def example_env_def two_trees_def inst_banned_def inst_admitted_def inst_enrolled_def
        example_active_def example_instance_def)
  then show ?thesis
    using hub_of_update [where fn = "unban_closure 5 ''web'' ''back''", OF c example_ensure(5)]
    by (simp add: Unban_def and_then_def applyBlocklist_def Get_def)
qed

theorem unban_restores_witness:
  "running_blocklist (env_nebula example_env) (hub_lhs (fst (Unban example_env None 5 example_id ''web'' ''back''
     (hub_of inst_banned lhs_blocked)))) example_id = Some []"
proof -
  have rt: "yaml_roundtrip (env_nebula example_env)" by (simp add: example_env_def two_trees_roundtrip)
  have "isRunning example_id lhs_blocked" by (simp add: isRunning_def lhs_blocked_def mget_def)
  moreover have "blockedIn inst_admitted = []" by (simp add: blockedIn_def vals_def Banned_def example_defs)
  ultimately show ?thesis
    using unban_restores [OF example_reachable(4) rt example_ban example_unban] by (simp add: example_unban)
qed

end
