(* ===== verification/Api.thy ===== *)
theory Api
  imports Settings Enforce
begin

text \<open>
  The hub's HTTP API, \<open>src/internal/hub/api.go\<close>: the routes, the three guards (a signature, the owner,
  a member), every handler, the rate limiter of the endpoints that need no credentials.

  A handler maps the server to the server it leaves behind and its response. A response is a status
  and a payload; \<open>None\<close> is a handler that panicked, which \<open>net/http\<close> answers by closing the
  connection. The payload is kept as the value that is encoded, an error as what the message is made
  of.

  Outside the repository are \<open>encoding/json\<close> (the record \<open>json\<close>: what decoding a stream into each of
  the request types gives) and what one request draws from the machine (the record \<open>draw\<close>: the time,
  the fate of the write, a random id, a key pair). The clock is read once per request.
\<close>

section \<open>The rate limiter\<close>

record bucket =
  bk_count :: nat
  bk_reset :: time

record rateLimiter =
  rl_window :: time
  rl_limit :: nat
  rl_buckets :: "(string, bucket) gomap"

definition newRateLimiter :: "nat \<Rightarrow> time \<Rightarrow> rateLimiter" where
  "newRateLimiter limit window = \<lparr>rl_window = window, rl_limit = limit, rl_buckets = Some []\<rparr>"

text \<open>The map is made with the limiter and never replaced, so writing to it does not panic.\<close>

definition allow :: "rateLimiter \<Rightarrow> time \<Rightarrow> string \<Rightarrow> rateLimiter \<times> bool" where
  "allow rl now key =
     (let fresh = rl\<lparr>rl_buckets := the_default None
                     (mput key \<lparr>bk_count = 1, bk_reset = now + rl_window rl\<rparr> (rl_buckets rl))\<rparr>
      in case mget (rl_buckets rl) key of
           None \<Rightarrow> (fresh, True)
         | Some b \<Rightarrow>
             if bk_reset b < now then (fresh, True)
             else (rl\<lparr>rl_buckets := madjust key (\<lambda>b. b\<lparr>bk_count := bk_count b + 1\<rparr>) (rl_buckets rl)\<rparr>,
                   bk_count b + 1 \<le> rl_limit rl))"

section \<open>Requests and responses\<close>

record RegisterRequest =
  rr_Name :: string
  rr_Identity :: string
  rr_Signature :: string

record RegisterResponse =
  rs_Identity :: string
  rs_Binder :: string
  rs_Key :: string

record CreateInstanceRequest =
  cq_Name :: string
  cq_SharedToken :: string

record CreateInstanceResponse =
  cs_ID :: string
  cs_Name :: string
  cs_Binder :: string
  cs_Overlay :: prefix
  cs_Overlay6 :: prefix
  cs_Port :: "16 word"
  cs_LighthouseAddress :: addr
  cs_LighthouseAddress6 :: addr
  cs_TenantAddress :: addr
  cs_TenantAddress6 :: addr
  cs_LighthousePublicKey :: string
  cs_Endpoint :: string
  cs_MTU :: "32 word"
  cs_Relay :: bool

record InstanceSummary =
  is_ID :: string
  is_Name :: string
  is_Binder :: string
  is_Overlay :: prefix
  is_Overlay6 :: prefix
  is_Role :: string
  is_Owner :: string
  is_OwnerMachine :: string
  is_Yours :: bool
  is_Address :: prefix
  is_Address6 :: prefix
  is_Routes :: "Route list"
  is_Members :: nat
  is_Pending :: nat
  is_Lighthouse :: addr
  is_Running :: bool

record LighthouseRequest =
  lq_CA :: string
  lq_Certificate :: string

record BanRequest =
  bq_Member :: string
  bq_Note :: string

record TokenRequest =
  tq_SharedToken :: string

record JoinRequest =
  jq_Name :: string
  jq_PublicKey :: string

datatype why =
    Says string
  | OfHub hub_err
  | OfWrak wrak_err
  | OfName name_err
  | OfJSON
  | OfRead

datatype payload =
    NoBody
  | Problem string why
  | Registered RegisterResponse
  | Created CreateInstanceResponse
  | Summaries "InstanceSummary list"
  | Removed Member
  | Running bool
  | Waiting "Record list"
  | Accepted string string nat
  | Answer Result
  | MemberList "Member list"
  | RouteList RouteTable

type_synonym response = "(nat \<times> payload) option"

definition writeJSON :: "nat \<Rightarrow> payload \<Rightarrow> response" where
  "writeJSON status v = Some (status, v)"

definition writeError :: "nat \<Rightarrow> string \<Rightarrow> why \<Rightarrow> response" where
  "writeError status code message = writeJSON status (Problem code message)"

definition writeMemberError :: "hub_err \<Rightarrow> response" where
  "writeMemberError e =
     (if is_not_found e then writeError 404 ''not_found'' (OfHub e)
      else writeError 400 ''bad_request'' (OfHub e))"

text \<open>
  A body is a stream: the bytes that arrive, and whether the stream ends there or breaks off. A
  decoder stops behind the first value it can read.
\<close>

type_synonym stream = "string \<times> bool"

record json =
  js_Register :: "stream \<Rightarrow> RegisterRequest option"
  js_Create :: "stream \<Rightarrow> CreateInstanceRequest option"
  js_Lighthouse :: "stream \<Rightarrow> LighthouseRequest option"
  js_Decision :: "stream \<Rightarrow> Decision option"
  js_Ban :: "stream \<Rightarrow> BanRequest option"
  js_Token :: "stream \<Rightarrow> TokenRequest option"
  js_Join :: "stream \<Rightarrow> JoinRequest option"
  js_Request :: "stream \<Rightarrow> Request option"

record world =
  w_env :: env
  w_crypto :: crypto
  w_ssh :: sshlib
  w_json :: json

record draw =
  dr_Now :: time
  dr_IO :: "io_fault option"
  dr_ID :: string
  dr_HostKey :: "(string \<times> string) option"

record call =
  cl_Request :: http_request
  cl_EscapedPath :: string
  cl_Body :: string
  cl_Broken :: bool

record Server =
  srv_Hub :: Hub
  srv_Nonces :: MemoryNonces
  srv_Limiter :: rateLimiter

abbreviation srv_store :: "Server \<Rightarrow> Store" where
  "srv_store s \<equiv> hub_store (srv_Hub s)"

definition maxBodyBytes :: nat where "maxBodyBytes = 64 * 1024"

text \<open>
  The body as \<open>MaxBytesHandler\<close> lets it through, and as \<open>readBody\<close> reads it: up to the limit, where it
  stops without an error.
\<close>

definition body_stream :: "call \<Rightarrow> stream" where
  "body_stream c = (take maxBodyBytes (cl_Body c), length (cl_Body c) \<le> maxBodyBytes \<and> \<not> cl_Broken c)"

definition readBody :: "call \<Rightarrow> string option" where
  "readBody c =
     (if cl_Broken c \<and> length (cl_Body c) < maxBodyBytes then None
      else Some (take maxBodyBytes (cl_Body c)))"

definition sourceAddr :: "http_request \<Rightarrow> string" where
  "sourceAddr r = (case SplitHostPort (hr_RemoteAddr r) of None \<Rightarrow> hr_RemoteAddr r | Some (host, _) \<Rightarrow> host)"

definition decode :: "(stream \<Rightarrow> 'a option) \<Rightarrow> stream \<Rightarrow> ('a \<Rightarrow> Server \<Rightarrow> Server \<times> response) \<Rightarrow> Server \<Rightarrow> Server \<times> response" where
  "decode dec body k s =
     (case dec body of
        None \<Rightarrow> (s, writeError 400 ''bad_request'' OfJSON)
      | Some v \<Rightarrow> k v s)"

text \<open>An operation of the hub and what is answered to its outcome.\<close>

definition run ::
  "(Hub \<Rightarrow> Hub \<times> (hub_err, 'a) out) \<Rightarrow> (Hub \<Rightarrow> 'a \<Rightarrow> response) \<Rightarrow> (hub_err \<Rightarrow> response) \<Rightarrow> Server \<Rightarrow> Server \<times> response" where
  "run f ok bad s =
     (case f (srv_Hub s) of
        (h, Ret a) \<Rightarrow> (s\<lparr>srv_Hub := h\<rparr>, ok h a)
      | (h, Fail e) \<Rightarrow> (s\<lparr>srv_Hub := h\<rparr>, bad e)
      | (h, Panic) \<Rightarrow> (s\<lparr>srv_Hub := h\<rparr>, None))"

definition limited :: "draw \<Rightarrow> call \<Rightarrow> string \<Rightarrow> (Server \<Rightarrow> Server \<times> response) \<Rightarrow> Server \<Rightarrow> Server \<times> response" where
  "limited D c message next s =
     (case allow (srv_Limiter s) (dr_Now D) (sourceAddr (cl_Request c)) of
        (rl, True) \<Rightarrow> next (s\<lparr>srv_Limiter := rl\<rparr>)
      | (rl, False) \<Rightarrow> (s\<lparr>srv_Limiter := rl\<rparr>, writeError 429 ''slow_down'' (Says message)))"

section \<open>Guards\<close>

definition signed ::
  "world \<Rightarrow> draw \<Rightarrow> call \<Rightarrow> (Registration \<Rightarrow> stream \<Rightarrow> Server \<Rightarrow> Server \<times> response) \<Rightarrow> Server \<Rightarrow> Server \<times> response" where
  "signed W D c next s =
     (case readBody c of
        None \<Rightarrow> (s, writeError 400 ''bad_request'' OfRead)
      | Some body \<Rightarrow>
          (case VerifyRequest (w_crypto W) (env_unicode (w_env W)) (Some Use) (dr_Now D) (cl_Request c) body (srv_Nonces s) of
             (ns, Inl e) \<Rightarrow> (s\<lparr>srv_Nonces := ns\<rparr>, writeError 401 ''unauthorized'' (OfWrak e))
           | (ns, Inr identity) \<Rightarrow>
               (case Identity identity (srv_store s) of
                  Fail _ \<Rightarrow> (s\<lparr>srv_Nonces := ns\<rparr>, writeError 401 ''unauthorized'' (Says ''this machine is not registered here''))
                | Panic \<Rightarrow> (s\<lparr>srv_Nonces := ns\<rparr>, None)
                | Ret who \<Rightarrow> next who (body, True) (s\<lparr>srv_Nonces := ns\<rparr>))))"

definition ownerOnly ::
  "world \<Rightarrow> draw \<Rightarrow> call \<Rightarrow> string \<Rightarrow> (Instance \<Rightarrow> stream \<Rightarrow> Server \<Rightarrow> Server \<times> response) \<Rightarrow> Server \<Rightarrow> Server \<times> response" where
  "ownerOnly W D c ref next = signed W D c (\<lambda>who body s.
     (case Resolve (env_unicode (w_env W)) ref (srv_store s) of
        Fail _ \<Rightarrow> (s, writeError 404 ''not_found'' (Says ''no such instance''))
      | Panic \<Rightarrow> (s, None)
      | Ret inst \<Rightarrow>
          if \<not> ConstantTimeEqual (reg_Identity who) (inst_Owner inst)
          then (s, writeError 403 ''forbidden'' (Says ''only the owner of that instance may do that''))
          else next inst body s))"

definition memberOnly ::
  "world \<Rightarrow> draw \<Rightarrow> call \<Rightarrow> string \<Rightarrow> (Instance \<Rightarrow> Server \<Rightarrow> Server \<times> response) \<Rightarrow> Server \<Rightarrow> Server \<times> response" where
  "memberOnly W D c ref next = signed W D c (\<lambda>who body s.
     (case Resolve (env_unicode (w_env W)) ref (srv_store s) of
        Fail _ \<Rightarrow> (s, writeError 404 ''not_found'' (Says ''no such instance''))
      | Panic \<Rightarrow> (s, None)
      | Ret inst \<Rightarrow>
          (case MemberOf inst (reg_Identity who) of
             None \<Rightarrow> (s, writeError 403 ''forbidden'' (Says ''this machine does not belong to that instance''))
           | Some _ \<Rightarrow> next inst s)))"

section \<open>Machines\<close>

definition handleRegister :: "world \<Rightarrow> draw \<Rightarrow> call \<Rightarrow> Server \<Rightarrow> Server \<times> response" where
  "handleRegister W D c = limited D c ''too many attempts''
     (decode (js_Register (w_json W)) (body_stream c) (\<lambda>req s.
        let U = env_unicode (w_env W); cfg = hub_cfg (srv_Hub s);
            rejected = (s, writeError 401 ''unauthorized'' (Says ''registration rejected''))
        in if TrimSpace U (rr_Name req) = [] then (s, writeError 400 ''bad_request'' (Says ''name is required''))
        else case ParsePublicIdentity (rr_Identity req) of
               Inl e \<Rightarrow> (s, writeError 400 ''bad_request'' (OfWrak e))
             | Inr _ \<Rightarrow>
        (case BootstrapVerify (w_crypto W) U (w_ssh W)
                \<lparr>boot_API = hr_Host (cl_Request c), boot_Token = cfg_Token cfg,
                 boot_Name = rr_Name req, boot_Identity = rr_Identity req\<rparr>
                (rr_Signature req) (AllKeys (cfg_Binders cfg)) of
               Inl _ \<Rightarrow> rejected
             | Inr key \<Rightarrow>
        (case Match (cfg_Binders cfg) key of
               None \<Rightarrow> rejected
             | Some bndr \<Rightarrow>
        run (on_store (Register (dr_IO D) (dr_Now D)
               \<lparr>reg_Identity = rr_Identity req, reg_Binder = bndr, reg_Name = rr_Name req,
                reg_Key = AuthorizedKey U (w_ssh W) key, reg_RegisteredAt = 0, reg_LastSeenAt = 0\<rparr>))
          (\<lambda>h _. writeJSON 201 (Registered \<lparr>rs_Identity = rr_Identity req, rs_Binder = bndr,
                   rs_Key = AuthorizedKey U (w_ssh W) key\<rparr>))
          (\<lambda>e. writeError 500 ''error'' (OfHub e)) s))))"

definition handleCreateInstance :: "world \<Rightarrow> draw \<Rightarrow> Registration \<Rightarrow> stream \<Rightarrow> Server \<Rightarrow> Server \<times> response" where
  "handleCreateInstance W D who body = decode (js_Create (w_json W)) body (\<lambda>req s.
     case ParseName (env_unicode (w_env W)) (cq_Name req) of
       Inl e \<Rightarrow> (s, writeError 400 ''bad_request'' (OfName e))
     | Inr name \<Rightarrow>
         run (CreateInstance (dr_IO D) (dr_Now D) (dr_ID D) (dr_HostKey D)
                (reg_Binder who) (reg_Identity who) name (cq_SharedToken req))
           (\<lambda>h inst. writeJSON 201 (Created
              \<lparr>cs_ID = inst_ID inst, cs_Name = inst_Name inst, cs_Binder = inst_Binder inst,
               cs_Overlay = inst_Overlay inst, cs_Overlay6 = inst_Overlay6 inst, cs_Port = inst_Port inst,
               cs_LighthouseAddress = inst_LighthouseAddress inst, cs_LighthouseAddress6 = inst_LighthouseAddress6 inst,
               cs_TenantAddress = inst_TenantAddress inst, cs_TenantAddress6 = inst_TenantAddress6 inst,
               cs_LighthousePublicKey = inst_LighthousePublicKey inst, cs_Endpoint = cfg_PublicEndpoint (hub_cfg h),
               cs_MTU = cfg_MTU (hub_cfg h), cs_Relay = inst_Relay inst\<rparr>))
           (\<lambda>e. writeError 400 ''bad_request'' (OfHub e)) s)"

definition pending_count :: "Instance \<Rightarrow> nat" where
  "pending_count inst = length (filter (\<lambda>r. rec_Status r = StatusPending) (vals (inst_Requests inst)))"

definition summary_of :: "Hub \<Rightarrow> Registration \<Rightarrow> Instance \<Rightarrow> InstanceSummary" where
  "summary_of h who inst =
     (let summary =
        \<lparr>is_ID = inst_ID inst, is_Name = inst_Name inst, is_Binder = inst_Binder inst,
         is_Overlay = inst_Overlay inst, is_Overlay6 = inst_Overlay6 inst, is_Role = [],
         is_Owner = inst_Binder inst,
         is_OwnerMachine = (case Identity (inst_Owner inst) (hub_store h) of Ret own \<Rightarrow> reg_Name own | _ \<Rightarrow> []),
         is_Yours = (inst_Binder inst \<noteq> [] \<and> inst_Binder inst = reg_Binder who),
         is_Address = PrefixNone, is_Address6 = PrefixNone, is_Routes = [], is_Members = 0, is_Pending = 0,
         is_Lighthouse = inst_LighthouseAddress inst, is_Running = isRunning (inst_ID inst) (hub_lhs h)\<rparr>
      in case MemberOf inst (reg_Identity who) of
           None \<Rightarrow> summary
         | Some m \<Rightarrow>
             (let s1 = summary\<lparr>is_Role := mem_Kind m, is_Address := mem_Address m, is_Address6 := mem_Address6 m,
                        is_Members := length (vals (inst_Members inst)), is_Routes := routesOf inst\<rparr>
              in if inst_Owner inst = reg_Identity who
                 then s1\<lparr>is_Role := KindOwner, is_Pending := pending_count inst\<rparr> else s1))"

definition handleListInstances :: "Registration \<Rightarrow> Server \<Rightarrow> Server \<times> response" where
  "handleListInstances who s =
     (s, writeJSON 200 (Summaries (sort_key is_Name (map (summary_of (srv_Hub s) who) (ListInstances (srv_store s))))))"

section \<open>What only the owner may do\<close>

definition handleRemoveMember :: "draw \<Rightarrow> string \<Rightarrow> Instance \<Rightarrow> Server \<Rightarrow> Server \<times> response" where
  "handleRemoveMember D member inst =
     run (RemoveMember (dr_IO D) (inst_ID inst) member) (\<lambda>h m. writeJSON 200 (Removed m)) writeMemberError"

definition handleDeleteInstance :: "draw \<Rightarrow> Instance \<Rightarrow> Server \<Rightarrow> Server \<times> response" where
  "handleDeleteInstance D inst =
     run (Delete (dr_IO D) (inst_ID inst)) (\<lambda>h _. writeJSON 204 NoBody) (\<lambda>e. writeError 500 ''error'' (OfHub e))"

definition handleLighthouse :: "world \<Rightarrow> draw \<Rightarrow> Instance \<Rightarrow> stream \<Rightarrow> Server \<Rightarrow> Server \<times> response" where
  "handleLighthouse W D inst body = decode (js_Lighthouse (w_json W)) body (\<lambda>req.
     run (ActivateInstance (w_env W) (dr_IO D) (inst_ID inst) (lq_CA req) (lq_Certificate req))
       (\<lambda>h _. writeJSON 200 (Running (isRunning (inst_ID inst) (hub_lhs h))))
       (\<lambda>e. writeError 400 ''bad_request'' (OfHub e)))"

definition handlePending :: "Instance \<Rightarrow> Server \<Rightarrow> Server \<times> response" where
  "handlePending inst = run (\<lambda>h. (h, Pending (inst_ID inst) h)) (\<lambda>h rs. writeJSON 200 (Waiting rs))
     (\<lambda>e. writeError 404 ''not_found'' (OfHub e))"

definition handleDecision :: "world \<Rightarrow> draw \<Rightarrow> string \<Rightarrow> Instance \<Rightarrow> stream \<Rightarrow> Server \<Rightarrow> Server \<times> response" where
  "handleDecision W D rid inst body = decode (js_Decision (w_json W)) body (\<lambda>d.
     run (Decide (dr_IO D) (dr_Now D) (inst_ID inst) rid d) (\<lambda>h _. writeJSON 204 NoBody)
       (\<lambda>e. writeError (if is_not_found e then 404 else 400) ''bad_request'' (OfHub e)))"

definition handleForget :: "draw \<Rightarrow> string \<Rightarrow> Instance \<Rightarrow> Server \<Rightarrow> Server \<times> response" where
  "handleForget D rid inst =
     run (Forget (dr_IO D) (inst_ID inst) rid) (\<lambda>h _. writeJSON 204 NoBody) (\<lambda>e. writeError 404 ''not_found'' (OfHub e))"

definition handleBan :: "world \<Rightarrow> draw \<Rightarrow> Instance \<Rightarrow> stream \<Rightarrow> Server \<Rightarrow> Server \<times> response" where
  "handleBan W D inst body = decode (js_Ban (w_json W)) body (\<lambda>req.
     run (Ban (w_env W) (dr_IO D) (dr_Now D) (inst_ID inst) (bq_Member req) (bq_Note req))
       (\<lambda>h _. writeJSON 204 NoBody) writeMemberError)"

definition handleUnban :: "world \<Rightarrow> draw \<Rightarrow> Instance \<Rightarrow> stream \<Rightarrow> Server \<Rightarrow> Server \<times> response" where
  "handleUnban W D inst body = decode (js_Ban (w_json W)) body (\<lambda>req.
     run (Unban (w_env W) (dr_IO D) (dr_Now D) (inst_ID inst) (bq_Member req) (bq_Note req))
       (\<lambda>h _. writeJSON 204 NoBody) writeMemberError)"

definition handleSetToken :: "world \<Rightarrow> draw \<Rightarrow> Instance \<Rightarrow> stream \<Rightarrow> Server \<Rightarrow> Server \<times> response" where
  "handleSetToken W D inst body = decode (js_Token (w_json W)) body (\<lambda>req.
     run (SetSharedToken (dr_IO D) (inst_ID inst) (tq_SharedToken req))
       (\<lambda>h _. writeJSON 204 NoBody) (\<lambda>e. writeError 400 ''bad_request'' (OfHub e)))"

section \<open>Joining and enrolling\<close>

text \<open>A record that is nil, or a fingerprint shorter than what is logged of it, panics.\<close>

definition accepted :: "bool \<Rightarrow> Hub \<Rightarrow> Record option \<Rightarrow> response" where
  "accepted logs h r =
     (case r of
        None \<Rightarrow> None
      | Some rec \<Rightarrow>
          if logs \<and> length (rec_Fingerprint rec) < 16 then None
          else writeJSON 202 (Accepted (rec_ID rec) (rec_Status rec) 5))"

definition handleJoin :: "world \<Rightarrow> draw \<Rightarrow> call \<Rightarrow> string \<Rightarrow> Registration \<Rightarrow> stream \<Rightarrow> Server \<Rightarrow> Server \<times> response" where
  "handleJoin W D c ref who body = decode (js_Join (w_json W)) body (\<lambda>req.
     run (Enroll (w_env W) (dr_IO D) (dr_Now D) (dr_ID D) ref
            \<lparr>req_PublicKey = jq_PublicKey req, req_Name = (if jq_Name req = [] then reg_Name who else jq_Name req),
             req_Routes = [], req_Domain = [], req_Hints = None\<rparr>
            \<lparr>app_Kind = KindTenant, app_Identity = reg_Identity who, app_Binder = reg_Binder who, app_MAC = [],
             app_SourceAddr = sourceAddr (cl_Request c)\<rparr>)
       (accepted False)
       (\<lambda>e. if is_not_found e then writeError 404 ''not_found'' (Says ''no such instance'')
            else writeError 400 ''bad_request'' (OfHub e)))"

definition handleJoinResult :: "world \<Rightarrow> string \<Rightarrow> Registration \<Rightarrow> Server \<Rightarrow> Server \<times> response" where
  "handleJoinResult W ref who s =
     (case Resolve (env_unicode (w_env W)) ref (srv_store s) of
        Fail _ \<Rightarrow> (s, writeError 404 ''not_found'' (Says ''no such instance''))
      | Panic \<Rightarrow> (s, None)
      | Ret inst \<Rightarrow>
          (case find (\<lambda>r. rec_Identity r = reg_Identity who) (vals (inst_Requests inst)) of
             None \<Rightarrow> (s, writeError 404 ''not_found'' (Says ''no request from this machine''))
           | Some record \<Rightarrow>
               (s, writeJSON 200 (Answer
                 (if rec_Status record = StatusApproved
                  then \<lparr>res_Status = rec_Status record, res_RetryAfter = 0,
                        res_Bundle = withBlocklist (rec_Bundle record) inst, res_Reason = rec_Reason record\<rparr>
                  else \<lparr>res_Status = rec_Status record, res_RetryAfter = 15, res_Bundle = None,
                        res_Reason = rec_Reason record\<rparr>)))))"

definition handleMembers :: "Instance \<Rightarrow> Server \<Rightarrow> Server \<times> response" where
  "handleMembers inst = run (\<lambda>h. (h, Members (inst_ID inst) h)) (\<lambda>h ms. writeJSON 200 (MemberList ms))
     (\<lambda>e. writeError 404 ''not_found'' (OfHub e))"

definition handleRoutes :: "Instance \<Rightarrow> Server \<Rightarrow> Server \<times> response" where
  "handleRoutes inst s = (s, writeJSON 200 (RouteList (RouteTableOf (hub_cfg (srv_Hub s)) inst)))"

definition MACHeader :: string where "MACHeader = ''Robinet-Mac''"

definition handleEnroll :: "world \<Rightarrow> draw \<Rightarrow> call \<Rightarrow> string \<Rightarrow> Server \<Rightarrow> Server \<times> response" where
  "handleEnroll W D c ref = limited D c ''too many enrollment attempts''
     (decode (js_Request (w_json W)) (body_stream c) (\<lambda>req.
        run (Enroll (w_env W) (dr_IO D) (dr_Now D) (dr_ID D) ref req
               \<lparr>app_Kind = KindConnector, app_Identity = [], app_Binder = [],
                app_MAC = header (cl_Request c) MACHeader, app_SourceAddr = sourceAddr (cl_Request c)\<rparr>)
          (accepted True)
          (\<lambda>e. if is_not_found e then writeError 404 ''not_found'' (Says ''no such instance'')
               else if e = ErrAmbiguous
               then writeError 409 ''ambiguous'' (Says ''more than one instance has that name, use its id'')
               else writeError 400 ''bad_request'' (OfHub e))))"

definition handleResult :: "world \<Rightarrow> string \<Rightarrow> string \<Rightarrow> Server \<Rightarrow> Server \<times> response" where
  "handleResult W ref rid = run (\<lambda>h. (h, ResultOf (w_env W) ref rid h)) (\<lambda>h res. writeJSON 200 (Answer res))
     (\<lambda>e. writeError 404 ''not_found'' (Says ''no such request''))"

section \<open>Routes\<close>

text \<open>
  The patterns of \<open>http.ServeMux\<close>. A path is matched by its segments, each unescaped on its own; a
  path that is not clean is redirected to the clean one; \<open>GET\<close> also takes \<open>HEAD\<close>; a path that only
  other methods have is a 405.
\<close>

datatype endpoint =
    Healthz
  | RegisterMachine
  | CreateEp
  | ListEp
  | LighthouseEp string
  | PendingEp string
  | DecisionEp string string
  | ForgetEp string string
  | BanEp string
  | UnbanEp string
  | TokenEp string
  | DeleteEp string
  | RemoveMemberEp string string
  | JoinEp string
  | JoinResultEp string
  | RoutesEp string
  | MembersEp string
  | EnrollEp string
  | ResultEp string string

fun unescape :: "string \<Rightarrow> string option" where
  "unescape [] = Some []"
| "unescape (c # s) =
     (if c = CHR ''%'' then
        (case s of
           a # b # t \<Rightarrow>
             (case (unhex a, unhex b) of
                (Some x, Some y) \<Rightarrow> map_option (\<lambda>r. char_of (16 * x + y) # r) (unescape t)
              | _ \<Rightarrow> None)
         | _ \<Rightarrow> None)
      else map_option (\<lambda>r. c # r) (unescape s))"

definition pathUnescape :: "string \<Rightarrow> string" where
  "pathUnescape s = the_default s (unescape s)"

definition clean_path :: "string \<Rightarrow> bool" where
  "clean_path p \<longleftrightarrow> (case split_on (CHR ''/'') p of
     [] # segs \<Rightarrow> [] \<notin> set (butlast segs) \<and> ''.'' \<notin> set segs \<and> ''..'' \<notin> set segs
   | _ \<Rightarrow> False)"

definition instance_routes :: "string \<Rightarrow> string \<Rightarrow> (string \<times> endpoint) list" where
  "instance_routes x what =
     (if what = ''lighthouse'' then [(''POST'', LighthouseEp x)]
      else if what = ''requests'' then [(''GET'', PendingEp x)]
      else if what = ''ban'' then [(''POST'', BanEp x)]
      else if what = ''unban'' then [(''POST'', UnbanEp x)]
      else if what = ''token'' then [(''POST'', TokenEp x)]
      else if what = ''join'' then [(''POST'', JoinEp x), (''GET'', JoinResultEp x)]
      else if what = ''routes'' then [(''GET'', RoutesEp x)]
      else if what = ''members'' then [(''GET'', MembersEp x)]
      else [])"

definition path_routes :: "string list \<Rightarrow> (string \<times> endpoint) list" where
  "path_routes segs =
     (case segs of
        [a] \<Rightarrow> if a = ''healthz'' then [(''GET'', Healthz)] else []
      | [v, a] \<Rightarrow>
          if v = ''v1'' \<and> a = ''register'' then [(''POST'', RegisterMachine)]
          else if v = ''v1'' \<and> a = ''instances'' then [(''POST'', CreateEp), (''GET'', ListEp)]
          else []
      | [v, a, x] \<Rightarrow>
          if v = ''v1'' \<and> a = ''instances'' then [(''DELETE'', DeleteEp x)]
          else if v = ''v1'' \<and> a = ''enroll'' then [(''POST'', EnrollEp x)]
          else []
      | [v, a, x, b] \<Rightarrow>
          if v = ''v1'' \<and> a = ''instances'' then instance_routes x b
          else if v = ''v1'' \<and> a = ''enroll'' then [(''GET'', ResultEp x b)]
          else []
      | [v, a, x, b, y] \<Rightarrow>
          if v = ''v1'' \<and> a = ''instances'' \<and> b = ''requests'' then [(''POST'', DecisionEp x y), (''DELETE'', ForgetEp x y)]
          else if v = ''v1'' \<and> a = ''instances'' \<and> b = ''members'' then [(''DELETE'', RemoveMemberEp x y)]
          else []
      | _ \<Rightarrow> [])"

definition handle :: "world \<Rightarrow> draw \<Rightarrow> call \<Rightarrow> endpoint \<Rightarrow> Server \<Rightarrow> Server \<times> response" where
  "handle W D c e =
     (case e of
        Healthz \<Rightarrow> (\<lambda>s. (s, writeJSON 200 NoBody))
      | RegisterMachine \<Rightarrow> handleRegister W D c
      | CreateEp \<Rightarrow> signed W D c (handleCreateInstance W D)
      | ListEp \<Rightarrow> signed W D c (\<lambda>who _. handleListInstances who)
      | LighthouseEp x \<Rightarrow> ownerOnly W D c x (handleLighthouse W D)
      | PendingEp x \<Rightarrow> ownerOnly W D c x (\<lambda>inst _. handlePending inst)
      | DecisionEp x rid \<Rightarrow> ownerOnly W D c x (handleDecision W D rid)
      | ForgetEp x rid \<Rightarrow> ownerOnly W D c x (\<lambda>inst _. handleForget D rid inst)
      | BanEp x \<Rightarrow> ownerOnly W D c x (handleBan W D)
      | UnbanEp x \<Rightarrow> ownerOnly W D c x (handleUnban W D)
      | TokenEp x \<Rightarrow> ownerOnly W D c x (handleSetToken W D)
      | DeleteEp x \<Rightarrow> ownerOnly W D c x (\<lambda>inst _. handleDeleteInstance D inst)
      | RemoveMemberEp x m \<Rightarrow> ownerOnly W D c x (\<lambda>inst _. handleRemoveMember D m inst)
      | JoinEp x \<Rightarrow> signed W D c (handleJoin W D c x)
      | JoinResultEp x \<Rightarrow> signed W D c (\<lambda>who _. handleJoinResult W x who)
      | RoutesEp x \<Rightarrow> memberOnly W D c x handleRoutes
      | MembersEp x \<Rightarrow> memberOnly W D c x handleMembers
      | EnrollEp x \<Rightarrow> handleEnroll W D c x
      | ResultEp x rid \<Rightarrow> handleResult W x rid)"

definition serve :: "world \<Rightarrow> draw \<Rightarrow> call \<Rightarrow> Server \<Rightarrow> Server \<times> response" where
  "serve W D c s =
     (if \<not> clean_path (cl_EscapedPath c) then (s, writeJSON 301 NoBody)
      else
        (let segs = map pathUnescape (tl (split_on (CHR ''/'') (cl_EscapedPath c)));
             routes = (if last segs = [] then [] else path_routes segs);
             method = hr_Method (cl_Request c)
         in case find (\<lambda>(m, _). m = method \<or> m = ''GET'' \<and> method = ''HEAD'') routes of
              Some (_, e) \<Rightarrow> handle W D c e s
            | None \<Rightarrow> (s, writeJSON (if routes = [] then 404 else 405) NoBody)))"

text \<open>A server that has just been started: nothing was signed yet and nobody has been counted.\<close>

definition start_server :: "Hub \<Rightarrow> Server" where
  "start_server h =
     \<lparr>srv_Hub = h, srv_Nonces = NewMemoryNonces, srv_Limiter = newRateLimiter 30 (60 * second)\<rparr>"

end
