(* ===== verification/Admission.thy ===== *)
theory Admission
  imports Enforce
begin

text \<open>
  From a request to a certificate: creating an instance, enrolling, deciding, and collecting the
  result, with the two places where the code hands out something it has refused.
\<close>

section \<open>Creating an instance\<close>

lemma port_loop_spec:
  assumes "p \<le> hi"
  shows "case port_loop used p hi of
      Some q \<Rightarrow> p \<le> q \<and> q \<le> hi \<and> q \<notin> set used \<and> (\<forall>x. p \<le> x \<longrightarrow> x < q \<longrightarrow> x \<in> set used)
    | None \<Rightarrow> \<forall>x. p \<le> x \<longrightarrow> x \<le> hi \<longrightarrow> x \<in> set used"
  using assms
proof (induction used p hi rule: port_loop.induct)
  case (1 used p hi)
  show ?case
  proof (cases "p \<notin> set used \<or> p = hi")
    case True
    then show ?thesis using 1(2) by (auto simp: port_loop.simps [of used p hi])
  next
    case False
    then have lt: "p < hi" using 1(2) by (simp add: order.strict_iff_order)
    then have n: "p + 1 \<le> hi" and s: "\<And>x. p \<le> x \<longleftrightarrow> x = p \<or> p + 1 \<le> x"
      using unat_next [OF lt] by (auto simp: word_le_nat_alt word_less_nat_alt word_unat_eq_iff)
    have "port_loop used p hi = port_loop used (p + 1) hi"
      using False 1(2) by (simp add: port_loop.simps [of used p hi])
    then show ?thesis using 1(1) [OF 1(2)] False n s by (auto split: option.splits)
  qed
qed

text \<open>
  \<open>freePort\<close> answers with the lowest port of the configured range that no instance has, and fails
  exactly when every one is taken; a range that ends at 65535 does not wrap around.
\<close>

theorem freePort_lowest:
  assumes "cfg_PortMin (hub_cfg h) \<le> cfg_PortMax (hub_cfg h)"
  shows "case freePort h of
      Inr p \<Rightarrow> cfg_PortMin (hub_cfg h) \<le> p \<and> p \<le> cfg_PortMax (hub_cfg h) \<and> p \<notin> set (UsedPorts (hub_store h))
        \<and> (\<forall>q. cfg_PortMin (hub_cfg h) \<le> q \<longrightarrow> q < p \<longrightarrow> q \<in> set (UsedPorts (hub_store h)))
    | Inl e \<Rightarrow> e = NoFreePort (cfg_PortMin (hub_cfg h)) (cfg_PortMax (hub_cfg h))
        \<and> (\<forall>q. cfg_PortMin (hub_cfg h) \<le> q \<longrightarrow> q \<le> cfg_PortMax (hub_cfg h) \<longrightarrow> q \<in> set (UsedPorts (hub_store h)))"
  using port_loop_spec [OF assms, of "UsedPorts (hub_store h)"] by (auto simp: freePort_def split: option.splits)

definition edge_hub :: Hub where
  "edge_hub = hub_empty\<lparr>hub_cfg := example_config\<lparr>cfg_PortMin := 65535, cfg_PortMax := 65535\<rparr>,
     hub_store := example_store\<lparr>st_state := (st_state example_store)
       \<lparr>st_Instances := Some [(example_id, example_instance\<lparr>inst_Port := 65535\<rparr>)]\<rparr>\<rparr>\<rparr>"

theorem freePort_lowest_witness:
  "freePort edge_hub = Inl (NoFreePort 65535 65535)"
proof -
  have u: "UsedPorts (hub_store edge_hub) = [65535]" "cfg_PortMin (hub_cfg edge_hub) = 65535"
    "cfg_PortMax (hub_cfg edge_hub) = 65535"
    by (simp_all add: UsedPorts_def edge_hub_def example_store_def vals_def hub_empty_def)
  show ?thesis using freePort_lowest [of edge_hub] by (auto simp: u split: sum.splits)
qed

text \<open>No two instances on the same port or in the same prefix.\<close>

definition apart :: "Hub \<Rightarrow> bool" where
  "apart h \<longleftrightarrow> (\<forall>k l i j. mget (instances (hub_store h)) k = Some i \<longrightarrow> mget (instances (hub_store h)) l = Some j \<longrightarrow> k \<noteq> l
     \<longrightarrow> inst_Port i \<noteq> inst_Port j \<and> inst_Overlay i \<noteq> inst_Overlay j
       \<and> (PrefixIsValid (inst_Overlay6 i) \<longrightarrow> inst_Overlay6 i \<noteq> inst_Overlay6 j))"

lemma add_instance_Ret:
  assumes "add_instance io inst h = (h', Ret x)"
  obtains m where "mput (inst_ID inst) inst (instances (hub_store h)) = Some m" and "instances (hub_store h') = m" and "x = inst"
proof -
  have ret: "snd (Add io inst (hub_store h)) = Ret ()" and x: "x = inst"
    and h': "h' = h\<lparr>hub_store := fst (Add io inst (hub_store h))\<rparr>"
    using assms by (auto simp: add_instance_def on_store_def split: prod.splits out.splits)
  show ?thesis
  proof (cases rule: Add_cases [of io inst "hub_store h"])
    case (stored m)
    then show ?thesis using that [of m] x by (simp add: h')
  qed (use ret in simp_all)
qed

lemma used_lists:
  assumes "wf_map (instances s)" and "mget (instances s) k = Some i"
  shows "inst_Overlay i \<in> set (UsedOverlays s)" and "inst_Port i \<in> set (UsedPorts s)"
    and "PrefixIsValid (inst_Overlay6 i) \<Longrightarrow> inst_Overlay6 i \<in> set (UsedOverlays6 s)"
proof -
  have "i \<in> set (vals (instances s))" unfolding vals_iff [OF assms(1)] using assms(2) by blast
  then show "inst_Overlay i \<in> set (UsedOverlays s)" and "inst_Port i \<in> set (UsedPorts s)"
    and "PrefixIsValid (inst_Overlay6 i) \<Longrightarrow> inst_Overlay6 i \<in> set (UsedOverlays6 s)"
    by (auto simp: UsedOverlays_def UsedPorts_def UsedOverlays6_def)
qed

lemma freePort_unused: "freePort h = Inr p \<Longrightarrow> p \<notin> set (UsedPorts (hub_store h))"
  using port_loop_spec [of "cfg_PortMin (hub_cfg h)" "cfg_PortMax (hub_cfg h)" "UsedPorts (hub_store h)"]
  by (cases "cfg_PortMin (hub_cfg h) \<le> cfg_PortMax (hub_cfg h)")
    (auto simp: freePort_def port_loop.simps [of _ "cfg_PortMin (hub_cfg h)"] split: option.splits)

text \<open>
  A \<open>CreateInstance\<close> that runs alone gives the new instance a port and prefixes no other instance
  has, so instances that were apart stay apart; the new instance is stored under its own id.
\<close>

theorem create_keeps_apart:
  assumes "reachable V h" and "apart h" and "\<not> list_all alnum owner"
    and "CreateInstance io now nid hk bndr owner name tok h = (h', Ret inst)"
  shows "apart h' \<and> mget (instances (hub_store h')) nid = Some inst \<and> inst_Name inst = name"
proof -
  have inv: "hub_inv inst_ok h" by (rule reachable_inv [OF assms(1)])
  then have cfg: "cfg_ok (hub_cfg h)" and wf: "wf_map (instances (hub_store h))"
    by (auto simp: hub_inv_def store_inv_def state_ok_def)
  obtain i where p: "prepare_instance now nid hk bndr owner name tok h = Inr i" and a: "add_instance io i h = (h', Ret inst)"
    using assms(4) by (auto simp: CreateInstance_def split: sum.splits)
  obtain m where m: "mput (inst_ID i) i (instances (hub_store h)) = Some m" "instances (hub_store h') = m" and i: "i = inst"
    using add_instance_Ret [OF a] by metis
  note P = prepare_ok [OF cfg assms(3) p [unfolded i]]
  have get: "mget (instances (hub_store h')) k = (if k = nid then Some inst else mget (instances (hub_store h)) k)" for k
    using mget_put [OF m(1)] m(2) P(2) i by simp
  have new: "inst_Port inst \<noteq> inst_Port j \<and> inst_Overlay inst \<noteq> inst_Overlay j
      \<and> (PrefixIsValid (inst_Overlay6 inst) \<or> PrefixIsValid (inst_Overlay6 j) \<longrightarrow> inst_Overlay6 inst \<noteq> inst_Overlay6 j)"
    if "mget (instances (hub_store h)) k = Some j" for k j
    using used_lists [OF wf that] P(4,5) freePort_unused [OF P(6)] by metis
  have "apart h'"
    unfolding apart_def get using assms(2) [unfolded apart_def] new by (metis option.inject)
  then show ?thesis using get P(3) by simp
qed

theorem create_keeps_apart_witness:
  "apart (hub_of example_instance (newLighthouses True False))"
proof -
  have "apart hub_empty" by (simp add: apart_def hub_empty_def mget_def)
  then show ?thesis using create_keeps_apart [OF empty_reachable _ example_owner example_create] by blast
qed

lemma example_prepare2:
  "prepare_instance 1 ''77'' (Some (''P'', ''K'')) ''mara'' ''ed25519:o'' ''harbour'' [] hub_empty
   = Inr (example_instance\<lparr>inst_ID := ''77'', inst_Name := ''harbour'',
       inst_Members := map_option (map (\<lambda>(k, m). (k, m\<lparr>mem_Name := ''harbour''\<rparr>))) (inst_Members example_instance)\<rparr>)"
  by code_simp


lemma member_key_unique:
  assumes "inst_ok i" and "mget (inst_Members i) fp = Some m" and "mget (inst_Members i) gp = Some m"
  shows "fp = gp"
proof -
  have "member_ok i fp m" "member_ok i gp m" using assms by (simp_all add: inst_ok_def members_ok_def)
  then show ?thesis
    using owner_kind [OF assms(1,2)] owner_kind [OF assms(1,3)] unfolding member_ok_def by metis
qed

section \<open>Enrolling\<close>

lemma Enroll_Ret:
  assumes "Enroll V io now nid ref req who h = (h', Ret x)"
  obtains target q s' where "Resolve (env_unicode V) ref (hub_store h) = Ret target" and "req_PublicKey q = req_PublicKey req"
    and "Update io (inst_ID target) (enroll_closure V now nid q who (fingerprintOf V (req_PublicKey req))) (hub_store h) = (s', Ret x)"
    and "h' = h\<lparr>hub_store := s'\<rparr>"
proof -
  obtain r where v: "Validate (env_unicode V) req = Inr r" using assms by (auto simp: Enroll_def split: sum.splits)
  obtain q where q: "name_request (env_unicode V) who r = Some q" "req_PublicKey q = req_PublicKey r"
    using name_request_key by blast
  note k = Validate_key [OF v]
  obtain target where t: "Resolve (env_unicode V) ref (hub_store h) = Ret target"
    using assms v q(1) by (auto simp: Enroll_def split: option.splits if_splits out.splits)
  have "on_store (Update io (inst_ID target) (enroll_closure V now nid q who (fingerprintOf V (req_PublicKey req)))) h = (h', Ret x)"
    using assms v q k t by (auto simp: Enroll_def split: option.splits if_splits)
  then show ?thesis using that [OF t] q(2) k on_store_Ret by metis
qed

lemma enroll_closure_Ret:
  assumes ok: "inst_ok i" and w: "writable i" and fp: "list_all alnum fp" and kind: "app_Kind who \<noteq> KindOwner"
    and run: "enroll_closure V now nid req who fp i = (j, Ret x)"
  obtains (again) k old where "mget (inst_Requests i) k = Some old" and "rec_Fingerprint old = fp"
      and "x = Some (refresh_record req who old)" and "mget (inst_Requests j) k = Some (refresh_record req who old)"
  | (new) r where "x = Some r" and "\<forall>k old. mget (inst_Requests i) k = Some old \<longrightarrow> rec_Fingerprint old \<noteq> fp"
      and "mget (inst_Requests j) nid = Some r" and "rec_ID r = nid" and "rec_Status r = StatusPending"
      and "rec_Fingerprint r = fp" and "rec_Request r = req"
proof -
  have wf: "wf_map (inst_Requests i)" using ok by (simp add: inst_ok_def requests_ok_def)
  have adm: "\<not> burned i fp" "\<not> (app_Kind who = KindConnector \<and> inst_SharedToken i \<noteq> []
      \<and> \<not> VerifyMAC (env_hmac V) (env_unicode V) req (inst_SharedToken i) (app_MAC who))"
    using run by (auto simp: enroll_closure_def split: if_splits)
  show ?thesis
  proof (cases "same_key_request i fp")
    case (Some kr)
    then obtain k old where kr: "same_key_request i fp = Some (k, old)" by (cases kr) auto
    note s = same_key_Some [OF wf kr]
    have "j = i\<lparr>inst_Requests := madjust k (\<lambda>_. refresh_record req who old) (inst_Requests i)\<rparr>"
      and "x = Some (refresh_record req who old)"
      using run adm kr by (auto simp: enroll_closure_def)
    then show ?thesis using again [OF s] s(1) by (simp add: mget_adjust)
  next
    case None
    obtain i4 r4 i6 r6 where a: "allocate i fp (app_Kind who) = (i4, r4)" "allocate6 i4 fp (app_Kind who) = (i6, r6)"
      by (metis prod.exhaust)
    note N = enroll_new [OF ok w adm(1) fp kind None a]
    let ?rec = "new_record now nid req who fp i6 (out_addr r4) (out_addr r6)"
    obtain m where m: "mput nid ?rec (inst_Requests i6) = Some m"
      using N(6) w by (cases "inst_Requests i") (auto simp: writable_def)
    have "out_err r4 \<noteq> None" if "\<not> IsValid (out_addr r4)" using N(7) that by (cases "out_addr r4") auto
    then have "j = i6\<lparr>inst_Requests := m\<rparr>" "x = Some ?rec"
      using run adm None a N(2,3) m
      by (auto simp: enroll_closure_def Let_def split: if_splits option.splits)
    then show ?thesis
      using new [of ?rec] same_key_None [OF None] mget_put [OF m, of nid] by (simp add: new_record_def)
  qed
qed

text \<open>The instance an enrollment went to, before and after.\<close>

lemma Enroll_stored:
  assumes "reachable V h" and "app_Kind who \<noteq> KindOwner" and "Enroll V io now nid ref req who h = (h', Ret x)"
  obtains i j q where "Resolve (env_unicode V) ref (hub_store h) = Ret i" and "mget (instances (hub_store h)) (inst_ID i) = Some i"
    and "mget (instances (hub_store h')) (inst_ID i) = Some j" and "req_PublicKey q = req_PublicKey req"
    and "enroll_closure V now nid q who (fingerprintOf V (req_PublicKey req)) (ensureMaps i) = (j, Ret x)"
    and "inst_ok (ensureMaps i)" and "inst_ok j" and "keeps_name i j"
    and "\<And>k. k \<noteq> inst_ID i \<Longrightarrow> mget (instances (hub_store h')) k = mget (instances (hub_store h)) k"
proof -
  obtain i q s' where r: "Resolve (env_unicode V) ref (hub_store h) = Ret i" and q: "req_PublicKey q = req_PublicKey req"
    and u: "Update io (inst_ID i) (enroll_closure V now nid q who (fingerprintOf V (req_PublicKey req))) (hub_store h) = (s', Ret x)"
    and h': "h' = h\<lparr>hub_store := s'\<rparr>"
    using Enroll_Ret [OF assms(3)] by metis
  let ?c = "enroll_closure V now nid q who (fingerprintOf V (req_PublicKey req))"
  have st: "state_ok (st_state (hub_store h))" using reachable_inv [OF assms(1)] by (simp add: hub_inv_def store_inv_def)
  have i: "mget (instances (hub_store h)) (inst_ID i) = Some i" by (rule Resolve_stored [OF st r])
  obtain j where j: "?c (ensureMaps i) = (j, Ret x)" using Update_Ret [OF u] i by (metis option.inject)
  have ok: "inst_ok (ensureMaps i)" by (rule similar_ok [OF similar_ensure reachable_instance(1) [OF assms(1) i]])
  have g: "mget (instances s') k = (if k = inst_ID i then Some j else mget (instances (hub_store h)) k)" for k
    using Update_get [of io "inst_ID i" ?c "hub_store h" k] u i j by simp
  have "inst_ok j \<and> keeps_name i j"
    using enroll_safe [OF fingerprint_alnum assms(2), of V now nid q V "req_PublicKey req"] ok j writable_ensure [of i]
    unfolding safe_closure_def by (metis fst_conv keeps_name_ensure)
  then show ?thesis using that [OF r i _ q j ok] g h' by simp
qed

text \<open>
  An accepted enrollment is on record: the answer is never empty, it is what is stored under its
  id, it carries the fingerprint of the submitted key, and it waits for a decision unless the same
  key had been approved before.
\<close>

theorem enroll_records_request:
  assumes "reachable V h" and "app_Kind who \<noteq> KindOwner" and "Enroll V io now nid ref req who h = (h', Ret x)"
  shows "\<exists>r i j. x = Some r \<and> Resolve (env_unicode V) ref (hub_store h) = Ret i
    \<and> mget (instances (hub_store h')) (inst_ID i) = Some j \<and> mget (inst_Requests j) (rec_ID r) = Some r
    \<and> rec_Fingerprint r = fingerprintOf V (req_PublicKey req)
    \<and> (rec_Status r = StatusPending \<and> rec_Bundle r = None
       \<or> (\<exists>old. mget (inst_Requests i) (rec_ID r) = Some old \<and> rec_Status old = StatusApproved
            \<and> rec_Status r = StatusApproved \<and> rec_Bundle r = rec_Bundle old))"
proof -
  let ?fp = "fingerprintOf V (req_PublicKey req)"
  obtain i j q where E: "Resolve (env_unicode V) ref (hub_store h) = Ret i" "mget (instances (hub_store h')) (inst_ID i) = Some j"
    "enroll_closure V now nid q who ?fp (ensureMaps i) = (j, Ret x)" "inst_ok (ensureMaps i)" "inst_ok j"
    using Enroll_stored [OF assms] by metis
  have st: "status_ok r \<and> rec_ID r = k" if "mget (inst_Requests j) k = Some r" for k r
    using E(5) that by (auto simp: inst_ok_def requests_ok_def request_ok_def)
  from E(4) writable_ensure fingerprint_alnum assms(2) E(3) show ?thesis
  proof (cases rule: enroll_closure_Ret)
    case (again k old)
    let ?r = "refresh_record q who old"
    have old: "mget (inst_Requests i) k = Some old" using again(1) by (simp add: ensureMaps_def)
    have f: "rec_Fingerprint ?r = rec_Fingerprint old" "rec_Bundle ?r = rec_Bundle old"
      "rec_Status ?r = (if rec_Status old = StatusRejected then StatusPending else rec_Status old)"
      by (simp_all add: refresh_record_def Let_def)
    have so: "status_ok old" using E(4) again(1) by (auto simp: inst_ok_def requests_ok_def request_ok_def)
    have "rec_Status ?r = StatusPending \<and> rec_Bundle ?r = None \<or> rec_Status old = StatusApproved \<and> rec_Status ?r = StatusApproved"
      using so f by (auto simp: status_ok_def)
    then show ?thesis using E(1,2) again(2-4) st [OF again(4)] f(1,2) old by metis
  next
    case (new r)
    have "rec_Bundle r = None" using st [OF new(3)] new(5) by (simp add: status_ok_def)
    then show ?thesis using E(1,2) new by blast
  qed
qed

theorem enroll_records_request_witness:
  "\<exists>j. mget (instances (hub_store (hub_of inst_enrolled lhs_open))) example_id = Some j
     \<and> mget (inst_Requests j) (rec_ID record_pending) = Some record_pending"
proof -
  have "inst_Name example_active = ''railway''" "inst_ID example_active = example_id"
    by (simp_all add: example_active_def example_instance_def)
  then have "Resolve (env_unicode example_env) ''railway'' (hub_store (hub_of example_active lhs_open)) = Ret i \<Longrightarrow> inst_ID i = example_id" for i
    using example_resolve [of example_active lhs_open] by auto
  then show ?thesis
    using enroll_records_request [OF example_reachable(2) example_kind example_enroll] by (metis option.inject)
qed

text \<open>
  A machine that enrolls again with its key, whatever else its request says by then, gets its own
  record back: the same id, the same addresses in both families, the same identity, and the bundle it
  was approved with if it was.
\<close>

theorem reenroll_keeps_record:
  assumes "reachable V h" and "app_Kind who \<noteq> KindOwner" and "app_Kind who' \<noteq> KindOwner"
    and "Enroll V io now nid ref req who h = (h1, Ret (Some r))"
    and "Resolve (env_unicode V) ref (hub_store h) = Ret i" and "Resolve (env_unicode V) ref' (hub_store h1) = Ret j"
    and "inst_ID j = inst_ID i"
    and "fingerprintOf V (req_PublicKey req') = fingerprintOf V (req_PublicKey req)"
    and "Enroll V io' now' nid' ref' req' who' h1 = (h2, Ret (Some q))"
  shows "rec_ID q = rec_ID r \<and> rec_OverlayAddress q = rec_OverlayAddress r \<and> rec_OverlayAddress6 q = rec_OverlayAddress6 r
    \<and> rec_Kind q = rec_Kind r \<and> rec_Identity q = rec_Identity r \<and> rec_Status q = rec_Status r \<and> rec_Bundle q = rec_Bundle r"
proof -
  let ?fp = "fingerprintOf V (req_PublicKey req)"
  obtain k1 q1 where E: "mget (instances (hub_store h1)) (inst_ID i) = Some k1"
    "enroll_closure V now nid q1 who ?fp (ensureMaps i) = (k1, Ret (Some r))" "inst_ok (ensureMaps i)" "inst_ok k1"
    using Enroll_stored [OF assms(1,2,4)] assms(5) by (metis out.inject(1))
  have reach1: "reachable V h1" using reachable_steps [OF enroll_steps [OF assms(2)] assms(1)] assms(4) by (metis fst_conv)
  have r: "mget (inst_Requests k1) (rec_ID r) = Some r \<and> rec_Fingerprint r = ?fp \<and> rec_Status r \<noteq> StatusRejected"
    using E(3) writable_ensure fingerprint_alnum assms(2) E(2)
  proof (cases rule: enroll_closure_Ret)
    case (again k old)
    moreover have "rec_ID old = k" using E(3) again(1) by (auto simp: inst_ok_def requests_ok_def request_ok_def)
    ultimately show ?thesis by (auto simp: refresh_record_def Let_def)
  next
    case (new r')
    then show ?thesis by auto
  qed
  obtain k2 q2 where F: "enroll_closure V now' nid' q2 who' ?fp (ensureMaps k1) = (k2, Ret (Some q))" "inst_ok (ensureMaps k1)"
    using Enroll_stored [OF reach1 assms(3,9)] assms(6,7,8) E(1) by (metis option.inject out.inject(1))
  have r1: "mget (inst_Requests (ensureMaps k1)) (rec_ID r) = Some r" using r by (simp add: ensureMaps_def)
  from F(2) writable_ensure fingerprint_alnum assms(3) F(1) show ?thesis
  proof (cases rule: enroll_closure_Ret)
    case (again k old)
    have "one_per_key (inst_Requests (ensureMaps k1))" using F(2) by (simp add: inst_ok_def requests_ok_def)
    then have "k = rec_ID r" using again(1,2) r r1 unfolding one_per_key_def by metis
    then have "old = r" using again(1) r1 by simp
    then show ?thesis using again(3) r by (simp add: refresh_record_def Let_def)
  next
    case (new q')
    then show ?thesis using r r1 by blast
  qed
qed

theorem reenroll_keeps_record_witness:
  "\<exists>q. snd (Enroll example_env None 7 ''r9'' ''railway'' example_request example_applicant (hub_of inst_enrolled lhs_open))
      = Ret (Some q) \<and> rec_ID q = ''r1'' \<and> rec_OverlayAddress q = Prefix (Addr4 0xC61300FE) 24"
proof -
  have i: "inst_Name example_active = ''railway''" "inst_Name inst_enrolled = ''railway''" "inst_ID inst_enrolled = inst_ID example_active"
    by (simp_all add: inst_enrolled_def example_active_def example_instance_def)
  have "rec_ID record_pending = ''r1''" "rec_OverlayAddress record_pending = Prefix (Addr4 0xC61300FE) 24"
    by (simp_all add: record_pending_def)
  then show ?thesis
    using reenroll_keeps_record [OF example_reachable(2) example_kind example_kind example_enroll
        example_resolve [OF i(1)] example_resolve [OF i(2)] i(3) refl example_reenroll] example_reenroll by simp
qed

section \<open>Collecting the result\<close>

lemma ResultOf_cases:
  assumes "ResultOf V ref rid h = Ret res"
  obtains inst r where "Resolve (env_unicode V) ref (hub_store h) = Ret inst" and "mget (inst_Requests inst) rid = Some r"
    and "res_Status res = rec_Status r"
    and "res_Bundle res = (if rec_Status r = StatusApproved then withBlocklist (rec_Bundle r) inst else None)"
    and "res_RetryAfter res = (if rec_Status r = StatusApproved then 0 else 30)"
  using assms by (auto simp: ResultOf_def split: out.splits option.splits if_splits)

text \<open>
  A result carries a certificate exactly when the request is approved, with the blocklist as it is
  at that moment and everything else as it was signed; a request that is waiting or rejected gets no
  bundle and is told when to ask again.
\<close>

theorem result_hands_out:
  assumes "reachable V h" and "ResultOf V ref rid h = Ret res"
  shows "\<exists>inst r. Resolve (env_unicode V) ref (hub_store h) = Ret inst \<and> mget (inst_Requests inst) rid = Some r
    \<and> res_Status res = rec_Status r \<and> (res_Bundle res \<noteq> None \<longleftrightarrow> rec_Status r = StatusApproved)
    \<and> (\<forall>b. res_Bundle res = Some b \<longrightarrow> (\<exists>signed. rec_Bundle r = Some signed \<and> b = signed\<lparr>bnd_Blocked := blockedIn inst\<rparr>))
    \<and> (res_RetryAfter res = 0 \<longleftrightarrow> rec_Status r = StatusApproved)"
proof -
  obtain inst r where R: "Resolve (env_unicode V) ref (hub_store h) = Ret inst" "mget (inst_Requests inst) rid = Some r"
    "res_Status res = rec_Status r"
    "res_Bundle res = (if rec_Status r = StatusApproved then withBlocklist (rec_Bundle r) inst else None)"
    "res_RetryAfter res = (if rec_Status r = StatusApproved then 0 else 30)"
    using ResultOf_cases [OF assms(2)] by metis
  have st: "state_ok (st_state (hub_store h))" using reachable_inv [OF assms(1)] by (simp add: hub_inv_def store_inv_def)
  have "inst_ok inst" by (rule reachable_instance(1) [OF assms(1) Resolve_stored [OF st R(1)]])
  then have "status_ok r" using R(2) by (auto simp: inst_ok_def requests_ok_def request_ok_def)
  then have "rec_Bundle r \<noteq> None \<longleftrightarrow> rec_Status r = StatusApproved" by (simp add: status_ok_def)
  then show ?thesis
    using R by (intro exI [of _ inst] exI [of _ r]) (auto simp: withBlocklist_def split: option.splits if_splits)
qed

theorem result_hands_out_witness:
  "\<exists>res. ResultOf example_env example_id ''r1'' (hub_of inst_admitted lhs_open) = Ret res \<and> res_Bundle res \<noteq> None"
proof -
  have res: "Resolve (env_unicode example_env) example_id (hub_store (hub_of inst_admitted lhs_open)) = Ret inst_admitted"
    by (simp add: Resolve_def)
  have m: "mget (inst_Requests inst_admitted) ''r1'' = Some record_approved" "rec_Status record_approved = StatusApproved"
    by (simp_all add: inst_admitted_def mget_def record_approved_def)
  obtain x where x: "ResultOf example_env example_id ''r1'' (hub_of inst_admitted lhs_open) = Ret x"
    using res m by (simp add: ResultOf_def)
  show ?thesis using result_hands_out [OF example_reachable(4) x] x res m by auto
qed

section \<open>Deciding\<close>

lemma Decide_closure:
  assumes "reachable V h" and "Decide io now iid rid d h = (h', res)" and "res \<noteq> Fail ErrNotFound"
  obtains i j r where "mget (instances (hub_store h)) iid = Some i"
    and "decide_closure (hub_cfg h) now rid d (ensureMaps i) = (j, r)" and "mget (instances (hub_store h')) iid = Some j"
    and "res = r \<or> (\<exists>e. res = Fail (SaveFailed e))" and "inst_ok (ensureMaps i)" and "inst_ok j" and "keeps_name i j"
    and "state_ok (st_state (hub_store h'))"
proof (cases "mget (instances (hub_store h)) iid")
  case None
  then show ?thesis using assms(2,3) by (simp add: Decide_def on_store_def Update_missing)
next
  case (Some i)
  let ?c = "decide_closure (hub_cfg h) now rid d"
  obtain j r where c: "?c (ensureMaps i) = (j, r)" by fastforce
  have up: "res = snd (Update io iid ?c (hub_store h))" "hub_store h' = fst (Update io iid ?c (hub_store h))"
    using assms(2) by (auto simp: Decide_def on_store_def split: prod.splits)
  have "mget (instances (hub_store h')) iid = Some j"
    using Update_get [of io iid ?c "hub_store h" iid] up Some c by simp
  moreover have "res = r \<or> (\<exists>e. res = Fail (SaveFailed e))"
    using Update_eq [where io = io and fn = ?c, OF Some c] up by (cases r; cases io) auto
  moreover have ok: "inst_ok (ensureMaps i)" by (rule similar_ok [OF similar_ensure reachable_instance(1) [OF assms(1) Some]])
  moreover have "inst_ok j \<and> keeps_name i j"
    using decide_safe [of "hub_cfg h" now rid d] ok c unfolding safe_closure_def
    by (metis fst_conv keeps_name_ensure writable_ensure)
  moreover have "state_ok (st_state (hub_store h'))"
    using hub_ok.hub_steps_inv [OF simple_steps(1) reachable_inv [OF assms(1)]] assms(2)
    by (metis fst_conv hub_inv_def store_inv_def)
  ultimately show ?thesis using that Some c by blast
qed

lemma Decide_approved:
  assumes "reachable V h" and "Decide io now iid rid d h = (h', Ret ())" and "dec_Status d = StatusApproved"
  obtains i j r b name where "mget (instances (hub_store h)) iid = Some i" and "mget (instances (hub_store h')) iid = Some j"
    and "mget (inst_Requests i) rid = Some r" and "dec_Bundle d = Some b" and "bnd_Certificate b \<noteq> []"
    and "name = (if dec_Name d = [] then req_Name (rec_Request r) else dec_Name d)"
    and "mget (inst_Requests j) rid = Some (r\<lparr>rec_Bundle := Some (approved_bundle (hub_cfg h) i r b), rec_Status := StatusApproved, rec_DecidedAt := now\<rparr>)"
    and "\<forall>fp. mget (inst_Members j) fp = (if fp = rec_Fingerprint r then Some (decided_member now r name d) else mget (inst_Members i) fp)"
    and "\<forall>fp n. mget (inst_Members i) fp = Some n \<longrightarrow> fp \<noteq> rec_Fingerprint r \<longrightarrow> mem_Name n = name \<longrightarrow> name = []"
proof -
  obtain i j where i: "mget (instances (hub_store h)) iid = Some i" "mget (instances (hub_store h')) iid = Some j"
    and c: "decide_closure (hub_cfg h) now rid d (ensureMaps i) = (j, Ret ())"
    using Decide_closure [OF assms(1,2)] by blast
  have mem: "inst_Members (ensureMaps i) \<noteq> None" by (simp add: ensureMaps_def ensure_def)
  have e: "mget (inst_Requests (ensureMaps i)) k = mget (inst_Requests i) k" "mget (inst_Members (ensureMaps i)) k = mget (inst_Members i) k"
    "approved_bundle (hub_cfg h) (ensureMaps i) r b = approved_bundle (hub_cfg h) i r b" for k r b
    by (simp_all add: ensureMaps_def approved_bundle_def blockedIn_def vals_def)
  from c mem show ?thesis
  proof (cases rule: decide_cases)
    case rejected
    then show ?thesis using assms(3) by (simp add: StatusApproved_def StatusRejected_def)
  next
    case (approved r b name ms i1)
    have "\<forall>fp. mget (inst_Members j) fp = (if fp = rec_Fingerprint r then Some (decided_member now r name d) else mget (inst_Members i) fp)"
      using mget_put [OF approved(9)] e(2) by (simp add: approved(10) set_record_def)
    moreover have "\<forall>fp n. mget (inst_Members i) fp = Some n \<longrightarrow> fp \<noteq> rec_Fingerprint r \<longrightarrow> mem_Name n = name \<longrightarrow> name = []"
      using name_holder_None [OF approved(6)] e(2) by auto
    moreover have "mget (inst_Requests j) rid = Some (r\<lparr>rec_Bundle := Some (approved_bundle (hub_cfg h) i r b),
        rec_Status := StatusApproved, rec_DecidedAt := now\<rparr>)"
      using approved(1) e(3) by (simp add: approved(8,10) set_record_def mget_adjust)
    moreover have "mget (inst_Requests i) rid = Some r" using approved(1) e(1) by simp
    ultimately show ?thesis using that i approved(3-5) by blast
  qed auto
qed

text \<open>
  C13: an approval that succeeds admits exactly one member, under the key and with the addresses of the
  request and a name nobody else has, and stores the bundle the applicant will collect: the
  certificate that was sent, the request's addresses, the instance's lighthouse and the blocklist. A
  rejection that succeeds changes no member and leaves no bundle. Nothing else succeeds.
\<close>

theorem decide_outcome:
  assumes "reachable V h" and "Decide io now iid rid d h = (h', Ret ())"
  shows "\<exists>i j r q. mget (instances (hub_store h)) iid = Some i \<and> mget (instances (hub_store h')) iid = Some j
    \<and> mget (inst_Requests i) rid = Some r \<and> mget (inst_Requests j) rid = Some q \<and> rec_Status q = dec_Status d
    \<and> (if dec_Status d = StatusApproved
       then (\<exists>b m name. dec_Bundle d = Some b \<and> bnd_Certificate b \<noteq> [] \<and> rec_Bundle q = Some (approved_bundle (hub_cfg h) i r b)
           \<and> name = (if dec_Name d = [] then req_Name (rec_Request r) else dec_Name d) \<and> m = decided_member now r name d \<and> \<not> Banned m
           \<and> (\<forall>fp. mget (inst_Members j) fp = (if fp = rec_Fingerprint r then Some m else mget (inst_Members i) fp))
           \<and> (\<forall>fp n. mget (inst_Members i) fp = Some n \<longrightarrow> fp \<noteq> rec_Fingerprint r \<longrightarrow> mem_Name n = name \<longrightarrow> name = []))
       else dec_Status d = StatusRejected \<and> rec_Bundle q = None
           \<and> (\<forall>fp. mget (inst_Members j) fp = mget (inst_Members i) fp))"
proof (cases "dec_Status d = StatusApproved")
  case True
  obtain i j r b name where a: "mget (instances (hub_store h)) iid = Some i" "mget (instances (hub_store h')) iid = Some j"
      "mget (inst_Requests i) rid = Some r" "dec_Bundle d = Some b" "bnd_Certificate b \<noteq> []"
      "name = (if dec_Name d = [] then req_Name (rec_Request r) else dec_Name d)"
      "mget (inst_Requests j) rid = Some (r\<lparr>rec_Bundle := Some (approved_bundle (hub_cfg h) i r b), rec_Status := StatusApproved, rec_DecidedAt := now\<rparr>)"
      "\<forall>fp. mget (inst_Members j) fp = (if fp = rec_Fingerprint r then Some (decided_member now r name d) else mget (inst_Members i) fp)"
      "\<forall>fp n. mget (inst_Members i) fp = Some n \<longrightarrow> fp \<noteq> rec_Fingerprint r \<longrightarrow> mem_Name n = name \<longrightarrow> name = []"
    by (rule Decide_approved [OF assms True])
  have "\<not> Banned (decided_member now r name d)" by (simp add: Banned_def decided_member_def)
  then show ?thesis
    using True a(1-5,7-9) unfolding a(6) by (rule_tac x = i in exI, rule_tac x = j in exI, rule_tac x = r in exI) simp
next
  case False
  obtain i j where i: "mget (instances (hub_store h)) iid = Some i" "mget (instances (hub_store h')) iid = Some j"
    and c: "decide_closure (hub_cfg h) now rid d (ensureMaps i) = (j, Ret ())"
    using Decide_closure [OF assms] by blast
  have mem: "inst_Members (ensureMaps i) \<noteq> None" by (simp add: ensureMaps_def ensure_def)
  have e: "mget (inst_Requests (ensureMaps i)) k = mget (inst_Requests i) k" "mget (inst_Members (ensureMaps i)) k = mget (inst_Members i) k" for k
    by (simp_all add: ensureMaps_def)
  from c mem show ?thesis
  proof (cases rule: decide_cases)
    case rejected
    have "\<exists>r. mget (inst_Requests i) rid = Some r" using c e(1) by (auto simp: decide_closure_def split: option.splits)
    then show ?thesis using i False rejected(1) e by (auto simp: rejected(3) set_record_def mget_adjust)
  qed (use False in auto)
qed

theorem decide_outcome_witness:
  "\<exists>q. mget (inst_Requests inst_admitted) ''r1'' = Some q \<and> rec_Status q = StatusApproved
     \<and> mget (inst_Members inst_admitted) example_key = Some (decided_member 3 record_pending ''web'' example_approval)"
proof -
  have "dec_Status example_approval = StatusApproved" "mget (inst_Requests inst_enrolled) ''r1'' = Some record_pending"
    "(if dec_Name example_approval = [] then req_Name (rec_Request record_pending) else dec_Name example_approval) = ''web''"
    "rec_Fingerprint record_pending = example_key"
    by (simp_all add: example_approval_def inst_enrolled_def mget_def record_pending_def example_request_def)
  then show ?thesis using decide_outcome [OF example_reachable(3) example_decide] by auto
qed

text \<open>
  C34: an approval refused because the name is taken has already marked the request approved. The
  error comes back and no member is added, yet the applicant collects the certificate: \<open>Result\<close>
  answers "approved" with the bundle of the decision that failed.
\<close>

theorem refused_approval_hands_out:
  assumes "reachable V h" and "Decide io now iid rid d h = (h', Fail (MemberNameTaken kind n))"
  shows "\<exists>i j b res c. mget (instances (hub_store h)) iid = Some i \<and> mget (instances (hub_store h')) iid = Some j
    \<and> (\<forall>fp. mget (inst_Members j) fp = mget (inst_Members i) fp)
    \<and> dec_Bundle d = Some b \<and> ResultOf V iid rid h' = Ret res \<and> res_Status res = StatusApproved
    \<and> res_Bundle res = Some c \<and> bnd_Certificate c = bnd_Certificate b"
proof -
  have ne: "(Fail (MemberNameTaken kind n) :: (hub_err, unit) out) \<noteq> Fail ErrNotFound" by simp
  obtain i j r where i: "mget (instances (hub_store h)) iid = Some i" and j: "mget (instances (hub_store h')) iid = Some j"
    and c: "decide_closure (hub_cfg h) now rid d (ensureMaps i) = (j, r)"
    and r: "Fail (MemberNameTaken kind n) = r \<or> (\<exists>e. (Fail (MemberNameTaken kind n) :: (hub_err, unit) out) = Fail (SaveFailed e))"
    using Decide_closure [OF assms ne] by metis
  have r: "r = Fail (MemberNameTaken kind n)" using r by auto
  have mem: "inst_Members (ensureMaps i) \<noteq> None" by (simp add: ensureMaps_def ensure_def)
  from c mem show ?thesis
  proof (cases rule: decide_cases)
    case (refused e)
    then show ?thesis using r by blast
  next
    case (taken q b fp m name)
    let ?b = "approved_bundle (hub_cfg h) (ensureMaps i) q b"
    have res: "Resolve (env_unicode V) iid (hub_store h') = Ret j" using j by (simp add: Resolve_def)
    have q: "mget (inst_Requests j) rid = Some (q\<lparr>rec_Bundle := Some ?b, rec_Status := StatusApproved\<rparr>)"
      using taken(1) by (simp add: taken(7) set_record_def mget_adjust)
    have "ResultOf V iid rid h' = Ret \<lparr>res_Status = StatusApproved, res_RetryAfter = 0,
        res_Bundle = Some (?b\<lparr>bnd_Blocked := blockedIn j\<rparr>), res_Reason = rec_Reason q\<rparr>"
      by (simp add: ResultOf_def res q withBlocklist_def)
    moreover have "mget (inst_Members j) fp = mget (inst_Members i) fp" for fp
      by (simp add: taken(7) set_record_def ensureMaps_def)
    moreover have "bnd_Certificate (?b\<lparr>bnd_Blocked := blockedIn j\<rparr>) = bnd_Certificate b" by (simp add: approved_bundle_def)
    ultimately show ?thesis using i j taken(3) by force
  qed (use r in auto)
qed

lemma example_taken:
  "snd (Decide None 3 example_id ''r1'' (example_approval\<lparr>dec_Name := ''railway''\<rparr>) (hub_of inst_enrolled lhs_open))
   = Fail (MemberNameTaken KindOwner ''railway'')"
proof -
  let ?d = "example_approval\<lparr>dec_Name := ''railway''\<rparr>"
  have r: "mget (inst_Requests inst_enrolled) ''r1'' = Some record_pending" by (simp add: inst_enrolled_def mget_def)
  have d: "dec_Status ?d = StatusApproved" "dec_Bundle ?d = Some example_bundle" "bnd_Certificate example_bundle \<noteq> []"
    by (simp_all add: example_approval_def example_bundle_def)
  obtain o' where h: "name_holder inst_enrolled (rec_Fingerprint record_pending) ''railway'' = Some (''ed25519:o'', o')" "mem_Kind o' = KindOwner"
    by (simp add: name_holder_def inst_enrolled_def example_active_def example_instance_def record_pending_def example_key_def)
  have m: "inst_Members inst_enrolled = Some (items (inst_Members example_instance))"
    by (simp add: inst_enrolled_def example_active_def example_instance_def)
  have "snd (decide_closure example_config 3 ''r1'' ?d inst_enrolled) = Fail (MemberNameTaken KindOwner ''railway'')"
    unfolding decide_approve_eq [OF r d m refl refl] using h by simp
  then obtain j where c: "decide_closure example_config 3 ''r1'' ?d (ensureMaps inst_enrolled) = (j, Fail (MemberNameTaken KindOwner ''railway''))"
    unfolding example_ensure(3) by (metis prod.collapse)
  have g: "mget (instances (hub_store (hub_of inst_enrolled lhs_open))) example_id = Some inst_enrolled" by simp
  show ?thesis
    using Update_eq [where io = None and fn = "decide_closure example_config 3 ''r1'' ?d", OF g c]
    by (simp add: Decide_def on_store_snd)
qed

theorem refused_approval_hands_out_witness:
  "\<exists>res c. ResultOf example_env example_id ''r1'' (fst (Decide None 3 example_id ''r1''
      (example_approval\<lparr>dec_Name := ''railway''\<rparr>) (hub_of inst_enrolled lhs_open))) = Ret res
    \<and> res_Bundle res = Some c \<and> bnd_Certificate c = ''CERT''"
proof -
  let ?x = "Decide None 3 example_id ''r1'' (example_approval\<lparr>dec_Name := ''railway''\<rparr>) (hub_of inst_enrolled lhs_open)"
  have "?x = (fst ?x, Fail (MemberNameTaken KindOwner ''railway''))" using example_taken by (metis prod.collapse)
  from refused_approval_hands_out [OF example_reachable(3) this] show ?thesis
    by (auto simp: example_approval_def example_bundle_def)
qed

text \<open>
  C36: approving a request of a banned member lifts the ban without a trace: the member is entered
  anew with an empty history, and the certificate the ban was to make useless comes off the blocklist
  though it is as valid as before.
\<close>

theorem reapproval_lifts_ban:
  assumes "reachable V h" and "mget (instances (hub_store h)) iid = Some i" and "mget (inst_Requests i) rid = Some r"
    and "mget (inst_Members i) (rec_Fingerprint r) = Some m" and "Banned m" and "mem_CertFingerprint m \<noteq> []"
    and "\<forall>fp n. mget (inst_Members i) fp = Some n \<longrightarrow> Banned n \<longrightarrow> mem_CertFingerprint n = mem_CertFingerprint m \<longrightarrow> n = m"
    and "\<forall>b \<in> set (inst_Burned i). bur_CertFingerprint b \<noteq> mem_CertFingerprint m"
    and "Decide io now iid rid d h = (h', Ret ())" and "dec_Status d = StatusApproved"
  shows "mem_CertFingerprint m \<in> set (blockedIn i) \<and> (\<exists>j n. mget (instances (hub_store h')) iid = Some j
    \<and> mem_CertFingerprint m \<notin> set (blockedIn j)
    \<and> mget (inst_Members j) (rec_Fingerprint r) = Some n \<and> mem_Events n = [] \<and> \<not> Banned n)"
proof -
  have ne: "(Ret () :: (hub_err, unit) out) \<noteq> Fail ErrNotFound" by simp
  obtain j where j: "mget (instances (hub_store h')) iid = Some j" "inst_ok j" "inst_ok (ensureMaps i)"
    and c: "decide_closure (hub_cfg h) now rid d (ensureMaps i) = (j, Ret ())"
    using Decide_closure [OF assms(1,9) ne] assms(2) by (metis option.inject out.distinct(1))
  have wf: "wf_map (inst_Members i)" "wf_map (inst_Members j)"
    using j(2,3) by (auto simp: inst_ok_def members_ok_def ensureMaps_def)
  have mem: "inst_Members (ensureMaps i) \<noteq> None" by (simp add: ensureMaps_def ensure_def)
  have e: "mget (inst_Requests (ensureMaps i)) k = mget (inst_Requests i) k" "mget (inst_Members (ensureMaps i)) k = mget (inst_Members i) k"
    "inst_Burned (ensureMaps i) = inst_Burned i" for k
    by (simp_all add: ensureMaps_def)
  have on: "mem_CertFingerprint m \<in> set (blockedIn i)"
    unfolding set_blockedIn [OF wf(1)] using assms(4,5,6) by blast
  from c mem show ?thesis
  proof (cases rule: decide_cases)
    case (approved r' b name ms i1)
    have r': "r' = r" using approved(1) e(1) assms(3) by simp
    let ?n = "decided_member now r name d"
    have get: "mget (inst_Members j) fp = (if fp = rec_Fingerprint r then Some ?n else mget (inst_Members i) fp)" for fp
      using mget_put [OF approved(9)] e(2) by (simp add: approved(10) set_record_def r')
    have nb: "\<not> Banned ?n" "mem_Events ?n = []" by (simp_all add: Banned_def decided_member_def)
    have bur: "inst_Burned j = inst_Burned i" using e(3) by (simp add: approved(8,10) set_record_def)
    have uniq: "fp = rec_Fingerprint r" if n: "mget (inst_Members i) fp = Some m" for fp
      using n assms(4) member_key_unique [OF j(3)] e(2) by metis
    have "mem_CertFingerprint m \<notin> set (blockedIn j)"
      unfolding set_blockedIn [OF wf(2)] bur using get nb assms(7,8) uniq by (metis option.inject)
    then show ?thesis using on j(1) get [of "rec_Fingerprint r"] nb by auto
  qed (use assms(10) in auto)
qed

lemma example_reapprove:
  "snd (Decide None 6 example_id ''r1'' (example_approval\<lparr>dec_CertFingerprint := ''c2''\<rparr>) (hub_of inst_banned lhs_blocked)) = Ret ()"
proof -
  let ?d = "example_approval\<lparr>dec_CertFingerprint := ''c2''\<rparr>"
  have r: "mget (inst_Requests inst_banned) ''r1'' = Some record_approved"
    by (simp add: inst_banned_def inst_admitted_def mget_def)
  have d: "dec_Status ?d = StatusApproved" "dec_Bundle ?d = Some example_bundle" "bnd_Certificate example_bundle \<noteq> []"
    by (simp_all add: example_approval_def example_bundle_def)
  have n: "name_holder inst_banned (rec_Fingerprint record_approved) ''web'' = None"
    by (simp add: name_holder_def example_defs)
  have nm: "(if dec_Name ?d = [] then req_Name (rec_Request record_approved) else dec_Name ?d) = ''web''"
    by (simp add: example_approval_def record_approved_def record_pending_def example_request_def)
  obtain l where m: "inst_Members inst_banned = Some l" by (simp add: inst_banned_def)
  have "snd (decide_closure example_config 6 ''r1'' ?d inst_banned) = Ret ()"
    unfolding decide_approve_eq [OF r d m refl refl] nm using n by simp
  then obtain j where c: "decide_closure example_config 6 ''r1'' ?d inst_banned = (j, Ret ())" by (metis prod.collapse)
  from hub_of_update [where fn = "decide_closure example_config 6 ''r1'' ?d", OF c example_ensure(5), of lhs_blocked]
  show ?thesis by (simp add: Decide_def)
qed

theorem reapproval_lifts_ban_witness:
  "\<exists>j. mget (instances (hub_store (fst (Decide None 6 example_id ''r1'' (example_approval\<lparr>dec_CertFingerprint := ''c2''\<rparr>)
      (hub_of inst_banned lhs_blocked))))) example_id = Some j \<and> ''c1'' \<in> set (blockedIn inst_banned) \<and> ''c1'' \<notin> set (blockedIn j)"
proof -
  let ?x = "Decide None 6 example_id ''r1'' (example_approval\<lparr>dec_CertFingerprint := ''c2''\<rparr>) (hub_of inst_banned lhs_blocked)"
  let ?m = "add_event EventBan ''left'' 4 member_admitted"
  have run: "?x = (fst ?x, Ret ())" using example_reapprove by (metis prod.collapse)
  have i: "mget (instances (hub_store (hub_of inst_banned lhs_blocked))) example_id = Some inst_banned" by simp
  have r: "mget (inst_Requests inst_banned) ''r1'' = Some record_approved"
    by (simp add: inst_banned_def inst_admitted_def mget_def)
  have m: "mget (inst_Members inst_banned) (rec_Fingerprint record_approved) = Some ?m" "Banned ?m" "mem_CertFingerprint ?m = ''c1''"
    by (simp_all add: mget_def example_defs)
  have o: "\<forall>fp n. mget (inst_Members inst_banned) fp = Some n \<longrightarrow> Banned n \<longrightarrow> mem_CertFingerprint n = mem_CertFingerprint ?m \<longrightarrow> n = ?m"
    by (simp add: inst_banned_def mget_def) (simp add: example_defs Banned_def)
  have b: "\<forall>b \<in> set (inst_Burned inst_banned). bur_CertFingerprint b \<noteq> mem_CertFingerprint ?m" by (simp add: example_defs)
  have a: "dec_Status (example_approval\<lparr>dec_CertFingerprint := ''c2''\<rparr>) = StatusApproved" by (simp add: example_approval_def)
  have ne: "mem_CertFingerprint ?m \<noteq> []" using m(3) by simp
  show ?thesis using reapproval_lifts_ban [OF example_reachable(5) i r m(1,2) ne o b run a] m(3) by auto
qed

section \<open>Authentication of a request the hub rewrites\<close>

text \<open>
  The authentication code is checked on the request after its domain and its name have been
  rewritten. A connector that knows the token and signs the request it sends is turned away whenever
  the rewriting changes the bytes under the code: a name in capitals is enough, and so is one that
  was to be dropped rather than refused.
\<close>

theorem rewritten_request_refused:
  assumes "reachable V h" and "app_Kind who = KindConnector"
    and "Resolve (env_unicode V) ref (hub_store h) = Ret i" and "inst_SharedToken i \<noteq> []"
    and "app_MAC who = MAC (env_hmac V) (env_unicode V) req (inst_SharedToken i)"
    and "Validate (env_unicode V) req = Inr req1" and "name_request (env_unicode V) who req1 = Some req2"
    and "env_hmac V (inst_SharedToken i) (Canonical (env_unicode V) req2)
      \<noteq> env_hmac V (inst_SharedToken i) (Canonical (env_unicode V) req)"
  shows "snd (Enroll V io now nid ref req who h) = Fail BadAuthentication"
proof -
  have st: "state_ok (st_state (hub_store h))" using reachable_inv [OF assms(1)] by (simp add: hub_inv_def store_inv_def)
  have g: "mget (instances (hub_store h)) (inst_ID i) = Some i" by (rule Resolve_stored [OF st assms(3)])
  let ?c = "enroll_closure V now nid req2 who (fingerprintOf V (req_PublicKey req2))"
  have "inst_SharedToken (ensureMaps i) = inst_SharedToken i" by (simp add: ensureMaps_def)
  moreover have "\<not> VerifyMAC (env_hmac V) (env_unicode V) req2 (inst_SharedToken i) (app_MAC who)"
    using assms(5,8) by (simp add: VerifyMAC_def MAC_def)
  ultimately have "?c (ensureMaps i) = (ensureMaps i, Fail BadAuthentication)"
    using assms(2,4) by (simp add: enroll_closure_def)
  from Update_eq [where io = io and fn = ?c, OF g this]
  have "snd (on_store (Update io (inst_ID i) ?c) h) = Fail BadAuthentication" by (simp add: on_store_snd)
  moreover have "KindConnector \<noteq> KindTenant" by (simp add: KindConnector_def KindTenant_def)
  ultimately show ?thesis using assms(2,3,6,7) by (simp add: Enroll_def owns_already_def)
qed

definition shouting_request :: Request where
  "shouting_request = \<lparr>req_PublicKey = ''KEY'', req_Name = ''Web'', req_Routes = [], req_Domain = [], req_Hints = None\<rparr>"

lemma example_token:
  "reachable example_env (hub_of (example_active\<lparr>inst_SharedToken := ''t''\<rparr>) lhs_open)"
proof -
  have "token_closure ''t'' example_active = (example_active\<lparr>inst_SharedToken := ''t''\<rparr>, Ret ())" by (simp add: token_closure_def)
  from hub_of_update [where fn = "token_closure ''t''", OF this example_ensure(2), of lhs_open]
  have "fst (SetSharedToken None example_id ''t'' (hub_of example_active lhs_open)) = hub_of (example_active\<lparr>inst_SharedToken := ''t''\<rparr>) lhs_open"
    by (simp add: SetSharedToken_def)
  then show ?thesis using reachable_steps [OF simple_steps(6) example_reachable(2)] by metis
qed

theorem rewritten_request_refused_witness:
  "snd (Enroll example_env None 9 ''r2'' ''railway'' shouting_request
     (example_applicant\<lparr>app_MAC := MAC (env_hmac example_env) no_unicode shouting_request ''t''\<rparr>)
     (hub_of (example_active\<lparr>inst_SharedToken := ''t''\<rparr>) lhs_open)) = Fail BadAuthentication"
proof -
  let ?i = "example_active\<lparr>inst_SharedToken := ''t''\<rparr>"
  let ?who = "example_applicant\<lparr>app_MAC := MAC (env_hmac example_env) no_unicode shouting_request ''t''\<rparr>"
  have u: "env_unicode example_env = no_unicode" "env_hmac example_env k m = k @ m" for k m by (simp_all add: example_env_def)
  have i: "inst_Name ?i = ''railway''" by (simp add: example_active_def example_instance_def)
  have v: "Validate no_unicode shouting_request = Inr shouting_request" by code_simp
  have p: "ParseMemberName no_unicode ''Web'' = Inr ''web''" by code_simp
  have n: "name_request no_unicode ?who shouting_request = Some (shouting_request\<lparr>req_Name := ''web''\<rparr>)"
    using p by (simp add: name_request_def shouting_request_def example_applicant_def)
  have c: "Canonical no_unicode (shouting_request\<lparr>req_Name := ''web''\<rparr>) \<noteq> Canonical no_unicode shouting_request" by code_simp
  show ?thesis
    by (rule rewritten_request_refused [OF example_token, where i = ?i])
      (use v n c example_resolve [OF i] in \<open>simp_all add: u example_applicant_def\<close>)
qed

end
