(* ===== verification/Service.thy ===== *)
theory Service
  imports Api Admission
begin

text \<open>
  What the API promises. The registered identities are a further invariant of the hub: each is kept
  under its own name, and none can be taken for a fingerprint. With it every request the server
  answers is a sequence of steps of the hub, so everything that holds of reachable hubs holds of a
  hub that serves requests.
\<close>

section \<open>Registered identities\<close>

definition ids_ok :: "state \<Rightarrow> bool" where
  "ids_ok st \<longleftrightarrow> (\<forall>k r. mget (st_Identities st) k = Some r \<longrightarrow> reg_Identity r = k \<and> \<not> list_all alnum k)"

definition ids_inv :: "Store \<Rightarrow> bool" where
  "ids_inv s \<longleftrightarrow> ids_ok (st_state s) \<and> (\<forall>st. fs_file (st_fs s) = Some (Whole st) \<longrightarrow> ids_ok st)"

lemma ids_ok_json [simp]: "ids_ok (json_state st) = ids_ok st"
  by (simp add: ids_ok_def json_state_def)

lemma ids_ok_set [simp]: "ids_ok (st_state (set_instances m s)) = ids_ok (st_state s)"
  by (simp add: ids_ok_def set_instances_def)

lemma trace_file:
  "f \<in> set (save_trace io st fs) \<Longrightarrow> fs_file f = fs_file fs \<or> fs_file f = Some (Whole (json_state st))"
  by (auto simp: save_trace_def Let_def split: option.splits io_fault.splits)

lemma save_ids:
  assumes "ids_inv s" and "ids_ok (st_state s')" and "st_fs s' = st_fs s"
  shows "ids_inv s'" and "ids_inv (fst (save io s'))"
proof -
  have "fs_file (last (save_trace io (st_state s') (st_fs s'))) = fs_file (st_fs s)
      \<or> fs_file (last (save_trace io (st_state s') (st_fs s'))) = Some (Whole (json_state (st_state s')))"
    using trace_file [OF last_in_set [OF save_trace_ne]] assms(3) by metis
  then show "ids_inv (fst (save io s'))" using assms by (auto simp: ids_inv_def save_def)
  show "ids_inv s'" using assms by (simp add: ids_inv_def)
qed

lemma Update_ids: "ids_inv s \<Longrightarrow> ids_inv (fst (Update io iid fn s))"
proof (cases "mget (instances s) iid")
  case (Some inst)
  assume inv: "ids_inv s"
  obtain inst' r where f: "fn (ensureMaps inst) = (inst', r)" by fastforce
  let ?s = "set_instances (madjust iid (\<lambda>_. inst') (instances s)) s"
  have "ids_ok (st_state ?s)" using inv by (simp add: ids_inv_def)
  moreover have "st_fs ?s = st_fs s" by (simp add: set_instances_def)
  ultimately have "ids_inv ?s" "ids_inv (fst (save io ?s))" by (fact save_ids [OF inv])+
  then show ?thesis using Update_eq [where io = io and fn = fn, OF Some f] by (cases r) simp_all
qed (simp add: Update_missing)

lemma Add_ids: "ids_inv s \<Longrightarrow> ids_inv (fst (Add io inst s))"
proof -
  assume inv: "ids_inv s"
  have "ids_inv (fst (save io (set_instances m s)))" for m
    using inv by (intro save_ids(2) [OF inv]) (auto simp: ids_inv_def set_instances_def ids_ok_def)
  then show ?thesis using inv by (cases rule: Add_cases [of io inst s]) simp_all
qed

lemma Remove_ids: "ids_inv s \<Longrightarrow> ids_inv (fst (Remove io iid s))"
  using save_ids(2) [of s "set_instances (mdel iid (instances s)) s" io]
  by (auto simp: Remove_def ids_inv_def set_instances_def ids_ok_def)

lemma Register_ids:
  assumes "ids_inv s" and "\<not> list_all alnum (reg_Identity r)"
  shows "ids_inv (fst (Register io now r s))"
proof (cases "mget (identities s) (reg_Identity r)")
  case None
  show ?thesis
  proof (cases "mput (reg_Identity r) (r\<lparr>reg_RegisteredAt := now\<rparr>) (identities s)")
    case (Some m)
    have "ids_ok (st_state (set_identities m s))"
      using assms mget_put [OF Some] by (auto simp: ids_inv_def ids_ok_def set_identities_def split: if_splits)
    from save_ids(2) [OF assms(1) this, of io] None Some show ?thesis by (simp add: Register_def set_identities_def)
  qed (use None assms in \<open>simp add: Register_def\<close>)
next
  case (Some e)
  let ?m = "madjust (reg_Identity r) (\<lambda>e. e\<lparr>reg_Binder := reg_Binder r, reg_Name := reg_Name r, reg_Key := reg_Key r, reg_LastSeenAt := now\<rparr>) (identities s)"
  have "ids_ok (st_state (set_identities ?m s))"
    using assms by (auto simp: ids_inv_def ids_ok_def set_identities_def mget_adjust split: if_splits)
  from save_ids(2) [OF assms(1) this, of io] Some show ?thesis by (simp add: Register_def set_identities_def)
qed

lemma OpenStore_ids:
  assumes "OpenStore readable f = Inr s" and "\<And>st. fs_file f = Some (Whole st) \<Longrightarrow> ids_ok st"
  shows "ids_inv s"
  using assms by (auto simp: OpenStore_def ids_inv_def ids_ok_def mget_def split: if_splits option.splits image.splits)

lemma New_ids:
  assumes "New V cfg readable f = Inr h" and "\<And>st. fs_file f = Some (Whole st) \<Longrightarrow> ids_ok st"
  shows "ids_inv (hub_store h)"
proof -
  from assms(1) obtain s where "OpenStore readable f = Inr s" "hub_store h = s"
    by (auto simp: New_def split: if_splits sum.splits)
  with OpenStore_ids assms(2) show ?thesis by blast
qed

lemma hub_step_ids:
  assumes "hub_step V X h h'" and "hub_inv inst_ok h" and "ids_inv (hub_store h)"
  shows "ids_inv (hub_store h')"
  using assms
proof (induction rule: hub_step.induct)
  case (restart f io h cfg readable h')
  have "ids_ok st" if "fs_file f = Some (Whole st)" for st
    using trace_file [OF restart(1)] that restart(5) by (auto simp: ids_inv_def)
  with restart(3) show ?case by (rule New_ids)
next
  case (reorder h st)
  have "wf_map (st_Identities (st_state (hub_store h)))" using reorder(2) by (simp add: hub_inv_def store_inv_def state_ok_def)
  with same_map_get have "mget (st_Identities st) k = mget (identities (hub_store h)) k" for k
    using reorder(1) by (metis same_state_def)
  then show ?case using reorder(3) by (simp add: ids_inv_def ids_ok_def)
qed (simp_all add: on_store_fst add_instance_fst Update_ids Add_ids Remove_ids Register_ids)

lemma reachable_ids:
  assumes "reachable V h"
  shows "ids_inv (hub_store h)"
  using assms
proof induction
  case (fresh cfg readable h)
  then show ?case by (intro New_ids) auto
next
  case (step h h')
  then show ?case using hub_step_ids reachable_inv by blast
qed

lemma reachable_Identity:
  assumes "reachable V h" and "Identity identity (hub_store h) = Ret who"
  shows "reg_Identity who = identity" and "\<not> list_all alnum identity"
  using reachable_ids [OF assms(1)] assms(2)
  by (auto simp: Identity_def ids_inv_def ids_ok_def split: option.splits)

section \<open>Going through a handler\<close>

text \<open>
  \<open>post P x\<close> says \<open>P\<close> of the hub a handler leaves behind and of its response. One rule per way of
  composing handlers.
\<close>

definition post :: "(Hub \<Rightarrow> response \<Rightarrow> bool) \<Rightarrow> Server \<times> response \<Rightarrow> bool" where
  "post P x \<longleftrightarrow> P (srv_Hub (fst x)) (snd x)"

named_theorems post_rules

lemma post_run [post_rules]:
  assumes "\<And>h a. f (srv_Hub s) = (h, Ret a) \<Longrightarrow> P h (ok h a)" and "\<And>h e. f (srv_Hub s) = (h, Fail e) \<Longrightarrow> P h (bad e)"
    and "\<And>h. f (srv_Hub s) = (h, Panic) \<Longrightarrow> P h None"
  shows "post P (run f ok bad s)"
  using assms by (auto simp: post_def run_def split: prod.split out.split)

lemma post_decode [post_rules]:
  assumes "P (srv_Hub s) (writeError 400 ''bad_request'' OfJSON)" and "\<And>v. dec body = Some v \<Longrightarrow> post P (k v s)"
  shows "post P (decode dec body k s)"
  using assms by (auto simp: post_def decode_def split: option.split)

lemma post_limited [post_rules]:
  assumes "P (srv_Hub s) (writeError 429 ''slow_down'' (Says message))"
    and "\<And>rl. post P (next (s\<lparr>srv_Limiter := rl\<rparr>))"
  shows "post P (limited D c message next s)"
  using assms by (auto simp: post_def limited_def split: prod.split bool.split)

text \<open>Whose request it is: the signature verified, the nonce was new, the identity is registered.\<close>

definition signed_by :: "world \<Rightarrow> draw \<Rightarrow> call \<Rightarrow> Server \<Rightarrow> string \<Rightarrow> bool" where
  "signed_by W D c s identity \<longleftrightarrow>
     (\<exists>body ns. readBody c = Some body \<and> Identity identity (srv_store s) \<in> range Ret
       \<and> VerifyRequest (w_crypto W) (env_unicode (w_env W)) (Some Use) (dr_Now D) (cl_Request c) body (srv_Nonces s) = (ns, Inr identity))"

text \<open>A request that is turned away: an error status and nothing but the reason.\<close>

definition refusal :: "response \<Rightarrow> bool" where
  "refusal r \<longleftrightarrow> (\<exists>status code w. r = Some (status, Problem code w) \<and> 400 \<le> status)"

lemma refusal_writeError [simp]: "refusal (writeError status code w) \<longleftrightarrow> 400 \<le> status"
  by (simp add: refusal_def writeError_def writeJSON_def)

lemma post_signed:
  assumes "\<And>r. refusal r \<Longrightarrow> P (srv_Hub s) r"
    and "\<And>identity who body ns. signed_by W D c s identity \<Longrightarrow> Identity identity (srv_store s) = Ret who
        \<Longrightarrow> post P (next who (body, True) (s\<lparr>srv_Nonces := ns\<rparr>))"
  shows "post P (signed W D c next s)"
proof (cases "readBody c")
  case None
  then show ?thesis using assms(1) by (simp add: post_def signed_def)
next
  case (Some body)
  obtain ns v where v: "VerifyRequest (w_crypto W) (env_unicode (w_env W)) (Some Use) (dr_Now D) (cl_Request c) body (srv_Nonces s) = (ns, v)"
    by fastforce
  show ?thesis
  proof (cases v)
    case (Inl e)
    then show ?thesis using Some v assms(1) by (simp add: post_def signed_def)
  next
    case (Inr identity)
    have np: "Identity identity (srv_store s) \<noteq> Panic" by (simp add: Identity_def split: option.split)
    show ?thesis
    proof (cases "Identity identity (srv_store s)")
      case (Ret who)
      then have "signed_by W D c s identity" using Some v Inr unfolding signed_by_def by (metis rangeI)
      from assms(2) [OF this Ret, of body ns] show ?thesis using Some v Inr Ret by (simp add: post_def signed_def)
    qed (use Some v Inr np assms(1) in \<open>simp_all add: post_def signed_def\<close>)
  qed
qed

lemma Resolve_not_panic: "Resolve U ref s \<noteq> Panic"
proof -
  have "resolve_loop name found is \<noteq> Panic" for name found "is"
    by (induction name found "is" rule: resolve_loop.induct) (simp_all split: option.split)
  then show ?thesis by (simp add: Resolve_def split: option.split)
qed

lemma post_ownerOnly:
  assumes "\<And>r. refusal r \<Longrightarrow> P (srv_Hub s) r"
    and "\<And>identity who inst body ns. signed_by W D c s identity \<Longrightarrow> Identity identity (srv_store s) = Ret who
        \<Longrightarrow> Resolve (env_unicode (w_env W)) ref (srv_store s) = Ret inst \<Longrightarrow> reg_Identity who = inst_Owner inst
        \<Longrightarrow> post P (next inst (body, True) (s\<lparr>srv_Nonces := ns\<rparr>))"
  shows "post P (ownerOnly W D c ref next s)"
  unfolding ownerOnly_def
proof (rule post_signed)
  fix identity who body ns
  assume i: "signed_by W D c s identity" "Identity identity (srv_store s) = Ret who"
  show "post P (case Resolve (env_unicode (w_env W)) ref (srv_store (s\<lparr>srv_Nonces := ns\<rparr>)) of
        Ret inst \<Rightarrow> if \<not> ConstantTimeEqual (reg_Identity who) (inst_Owner inst)
          then (s\<lparr>srv_Nonces := ns\<rparr>, writeError 403 ''forbidden'' (Says ''only the owner of that instance may do that''))
          else next inst (body, True) (s\<lparr>srv_Nonces := ns\<rparr>)
      | Fail _ \<Rightarrow> (s\<lparr>srv_Nonces := ns\<rparr>, writeError 404 ''not_found'' (Says ''no such instance''))
      | Panic \<Rightarrow> (s\<lparr>srv_Nonces := ns\<rparr>, None))"
    using assms(1) assms(2) [OF i] Resolve_not_panic [of "env_unicode (w_env W)" ref "srv_store s"]
    by (auto simp: post_def ConstantTimeEqual_def split: out.split)
qed (fact assms(1))

lemma post_memberOnly:
  assumes "\<And>r. refusal r \<Longrightarrow> P (srv_Hub s) r"
    and "\<And>identity who inst ns m. signed_by W D c s identity \<Longrightarrow> Identity identity (srv_store s) = Ret who
        \<Longrightarrow> Resolve (env_unicode (w_env W)) ref (srv_store s) = Ret inst \<Longrightarrow> MemberOf inst (reg_Identity who) = Some m
        \<Longrightarrow> post P (next inst (s\<lparr>srv_Nonces := ns\<rparr>))"
  shows "post P (memberOnly W D c ref next s)"
  unfolding memberOnly_def
proof (rule post_signed)
  fix identity who body ns
  assume i: "signed_by W D c s identity" "Identity identity (srv_store s) = Ret who"
  show "post P (case Resolve (env_unicode (w_env W)) ref (srv_store (s\<lparr>srv_Nonces := ns\<rparr>)) of
        Ret inst \<Rightarrow> (case MemberOf inst (reg_Identity who) of
            None \<Rightarrow> (s\<lparr>srv_Nonces := ns\<rparr>, writeError 403 ''forbidden'' (Says ''this machine does not belong to that instance''))
          | Some _ \<Rightarrow> next inst (s\<lparr>srv_Nonces := ns\<rparr>))
      | Fail _ \<Rightarrow> (s\<lparr>srv_Nonces := ns\<rparr>, writeError 404 ''not_found'' (Says ''no such instance''))
      | Panic \<Rightarrow> (s\<lparr>srv_Nonces := ns\<rparr>, None))"
    using assms(1) assms(2) [OF i] Resolve_not_panic [of "env_unicode (w_env W)" ref "srv_store s"]
    by (auto simp: post_def split: out.split option.split)
qed (fact assms(1))

section \<open>The server runs the hub\<close>

text \<open>Every request is a sequence of steps of the hub, and it is answered.\<close>

definition sound :: "env \<Rightarrow> Hub \<Rightarrow> Hub \<Rightarrow> response \<Rightarrow> bool" where
  "sound V h h' r \<longleftrightarrow> (hub_step V {})\<^sup>*\<^sup>* h h' \<and> r \<noteq> None"

lemma sound_refusal: "refusal r \<Longrightarrow> sound V h h r"
  by (auto simp: sound_def refusal_def)

lemma sound_run:
  assumes "(hub_step V {})\<^sup>*\<^sup>* (srv_Hub s) (fst (f (srv_Hub s)))" and "snd (f (srv_Hub s)) \<noteq> Panic"
    and "\<And>h a. f (srv_Hub s) = (h, Ret a) \<Longrightarrow> ok h a \<noteq> None" and "\<And>e. bad e \<noteq> None"
  shows "post (sound V (srv_Hub s)) (run f ok bad s)"
  using assms by (intro post_run) (auto simp: sound_def)

lemma ParsePublicIdentity_alnum: "ParsePublicIdentity i = Inr pub \<Longrightarrow> \<not> list_all alnum i"
proof -
  assume "ParsePublicIdentity i = Inr pub"
  then obtain e where "CutPrefix i IdentityPrefix = Some e" by (auto simp: ParsePublicIdentity_def split: option.splits)
  then have "i = IdentityPrefix @ e" by (auto simp: CutPrefix_def HasPrefix_def split: if_splits) (metis append_take_drop_id)
  then show ?thesis by (simp add: IdentityPrefix_def) (simp add: alnum_def is_digit_def is_lower_def)
qed

lemma Register_no_panic:
  assumes "hub_inv inst_ok h"
  shows "snd (on_store (Register io now r) h) \<noteq> Panic"
proof -
  have "identities (hub_store h) \<noteq> None" using assms by (auto simp: hub_inv_def store_inv_def state_ok_def)
  then show ?thesis
    using save_not_panic by (auto simp: on_store_snd Register_def split: option.split)
qed

lemma sound_register:
  assumes r: "reachable V (srv_Hub s)" and V: "V = w_env W"
  shows "post (sound V (srv_Hub s)) (handleRegister W D c s)"
proof -
  have go: "post (sound V (srv_Hub s)) (run (on_store (Register (dr_IO D) (dr_Now D) reg)) ok bad t)"
    if "srv_Hub t = srv_Hub s" "\<not> list_all alnum (reg_Identity reg)" "\<And>h a. ok h a \<noteq> None" "\<And>e. bad e \<noteq> None" for reg ok bad t
    using that Register_no_panic [OF reachable_inv [OF r]]
    by (auto simp: that(1) [symmetric] intro!: sound_run intro: step1 hub_step.register)
  show ?thesis unfolding handleRegister_def
  proof (intro post_limited post_decode, goal_cases)
    case (3 rl req)
    show ?case
      using go [of "s\<lparr>srv_Limiter := rl\<rparr>"] ParsePublicIdentity_alnum
      by (auto simp: Let_def post_def sound_def writeError_def writeJSON_def split: sum.split option.split)
  qed (simp_all add: sound_def writeError_def writeJSON_def)
qed

lemma sound_create:
  assumes r: "reachable (w_env W) (srv_Hub s)" and who: "\<not> list_all alnum (reg_Identity who)"
  shows "post (sound (w_env W) (srv_Hub s)) (handleCreateInstance W D who body s)"
proof -
  have go: "post (sound (w_env W) (srv_Hub s)) (run (CreateInstance io now nid hk bndr (reg_Identity who) name tok) ok bad s)"
    if "\<And>h a. ok h a \<noteq> None" "\<And>e. bad e \<noteq> None" for io now nid hk bndr name tok ok bad
    using create_steps [OF who] create_no_panic [OF reachable_inv [OF r]] that by (intro sound_run) auto
  show ?thesis unfolding handleCreateInstance_def
    by (intro post_decode)
      (auto simp: go post_def [of _ "(_, _)"] sound_def writeError_def writeJSON_def split: sum.split)
qed

lemma enroll_accepted:
  assumes r: "reachable V h" and sha: "\<And>x. 8 \<le> length (env_sha256 V x)" and k: "app_Kind who \<noteq> KindOwner"
    and run: "Enroll V io now nid ref req who h = (h', Ret x)"
  shows "accepted logs h' x \<noteq> None"
proof -
  let ?fp = "fingerprintOf V (req_PublicKey req)"
  obtain i j q where E: "enroll_closure V now nid q who ?fp (ensureMaps i) = (j, Ret x)" "inst_ok (ensureMaps i)"
    using Enroll_stored [OF r k run] by metis
  have "length (hex_encode t) = 2 * length t" for t
    by (induction t) (simp_all add: hex_encode_def)
  then have l: "16 \<le> length ?fp"
    using sha [of "join '' '' (Fields (env_unicode V) (req_PublicKey req))"] by (simp add: fingerprintOf_def)
  from E(2) writable_ensure fingerprint_alnum k E(1) show ?thesis
  proof (cases rule: enroll_closure_Ret)
    case (again _ old)
    have "rec_Fingerprint (refresh_record q who old) = rec_Fingerprint old" by (simp add: refresh_record_def Let_def)
    with again(2,3) l show ?thesis by (simp add: accepted_def writeJSON_def)
  next
    case (new rec)
    with l show ?thesis by (simp add: accepted_def writeJSON_def)
  qed
qed

lemma sound_enroll:
  assumes r: "reachable (w_env W) (srv_Hub s)" and sha: "\<And>x. 8 \<le> length (env_sha256 (w_env W) x)"
    and k: "app_Kind who \<noteq> KindOwner" and b: "\<And>e. bad e \<noteq> None" and t: "srv_Hub t = srv_Hub s"
  shows "post (sound (w_env W) (srv_Hub s)) (run (Enroll (w_env W) io now nid ref req who) (accepted logs) bad t)"
  using enroll_steps [OF k] enroll_no_panic [OF reachable_inv [OF r] k] b enroll_accepted [OF r sha k]
  by (simp only: t [symmetric]) (rule sound_run; metis)

lemma sound_owner:
  assumes r: "reachable (w_env W) (srv_Hub s)"
  shows "post (sound (w_env W) (srv_Hub s)) (handleRemoveMember D m inst s)"
    and "post (sound (w_env W) (srv_Hub s)) (handleDeleteInstance D inst s)"
    and "post (sound (w_env W) (srv_Hub s)) (handleLighthouse W D inst body s)"
    and "post (sound (w_env W) (srv_Hub s)) (handlePending inst s)"
    and "post (sound (w_env W) (srv_Hub s)) (handleDecision W D rid inst body s)"
    and "post (sound (w_env W) (srv_Hub s)) (handleForget D rid inst s)"
    and "post (sound (w_env W) (srv_Hub s)) (handleBan W D inst body s)"
    and "post (sound (w_env W) (srv_Hub s)) (handleUnban W D inst body s)"
    and "post (sound (w_env W) (srv_Hub s)) (handleSetToken W D inst body s)"
    and "post (sound (w_env W) (srv_Hub s)) (handleMembers inst s)"
    and "post (sound (w_env W) (srv_Hub s)) (handleResult W ref rid s)"
    and "post (sound (w_env W) (srv_Hub s)) (handleRoutes inst s)"
proof -
  note inv = reachable_inv [OF r]
  have e: "sound (w_env W) h h (writeError st code w)" for h st code w by (simp add: sound_def writeError_def writeJSON_def)
  have k: "KindConnector \<noteq> KindOwner" by (simp add: KindConnector_def KindOwner_def)
  note np = UpdateNP [OF inv, of "\<lparr>app_Kind = KindConnector, app_Identity = [], app_Binder = [], app_MAC = [], app_SourceAddr = []\<rparr>", simplified, OF k]
  have read: "Pending iid h \<noteq> Panic" "Members iid h \<noteq> Panic" "ResultOf V ref rid h \<noteq> Panic" for iid h V
    using Resolve_not_panic [of "env_unicode V" ref "hub_store h"]
    by (auto simp: Pending_def Members_def ResultOf_def Get_def split: option.split out.split)
  have tok: "snd (SetSharedToken io iid tk h) \<noteq> Panic" if "h = srv_Hub s" for io iid tk h
    using np(8) that by (simp add: SetSharedToken_def)
  note defs = handleRemoveMember_def handleDeleteInstance_def handleLighthouse_def handlePending_def handleDecision_def
    handleForget_def handleBan_def handleUnban_def handleSetToken_def handleMembers_def handleResult_def handleRoutes_def
  show "post (sound (w_env W) (srv_Hub s)) (handleRemoveMember D m inst s)"
    and "post (sound (w_env W) (srv_Hub s)) (handleDeleteInstance D inst s)"
    and "post (sound (w_env W) (srv_Hub s)) (handleLighthouse W D inst body s)"
    and "post (sound (w_env W) (srv_Hub s)) (handlePending inst s)"
    and "post (sound (w_env W) (srv_Hub s)) (handleDecision W D rid inst body s)"
    and "post (sound (w_env W) (srv_Hub s)) (handleForget D rid inst s)"
    and "post (sound (w_env W) (srv_Hub s)) (handleBan W D inst body s)"
    and "post (sound (w_env W) (srv_Hub s)) (handleUnban W D inst body s)"
    and "post (sound (w_env W) (srv_Hub s)) (handleSetToken W D inst body s)"
    and "post (sound (w_env W) (srv_Hub s)) (handleMembers inst s)"
    and "post (sound (w_env W) (srv_Hub s)) (handleResult W ref rid s)"
    unfolding defs
    by (intro post_decode sound_run e operation_steps;
        simp add: writeError_def writeJSON_def writeMemberError_def read tok activate_no_panic [OF inv] delete_no_panic
          ban_no_panic [OF inv] Decide_def Forget_def RemoveMember_def np post_def sound_def)+
  show "post (sound (w_env W) (srv_Hub s)) (handleRoutes inst s)"
    by (simp add: handleRoutes_def post_def sound_def writeJSON_def)
qed

lemma sound_join:
  assumes "reachable (w_env W) (srv_Hub s)" and "\<And>x. 8 \<le> length (env_sha256 (w_env W) x)"
  shows "post (sound (w_env W) (srv_Hub s)) (handleJoin W D c ref who body s)"
    and "post (sound (w_env W) (srv_Hub s)) (handleEnroll W D c ref s)"
    and "post (sound (w_env W) (srv_Hub s)) (handleJoinResult W ref who s)"
    and "post (sound (w_env W) (srv_Hub s)) (handleListInstances who s)"
proof -
  have k: "KindConnector \<noteq> KindOwner" "KindTenant \<noteq> KindOwner" by (simp_all add: KindConnector_def KindTenant_def KindOwner_def)
  have e: "sound (w_env W) h h (writeError st code w)" for h st code w by (simp add: sound_def writeError_def writeJSON_def)
  show "post (sound (w_env W) (srv_Hub s)) (handleJoin W D c ref who body s)"
    unfolding handleJoin_def
    by (intro post_decode sound_enroll [OF assms] e) (simp_all add: k e writeError_def writeJSON_def)
  show "post (sound (w_env W) (srv_Hub s)) (handleEnroll W D c ref s)"
    unfolding handleEnroll_def
    by (intro post_limited post_decode sound_enroll [OF assms]) (simp_all add: k e, simp_all add: writeError_def writeJSON_def)
  show "post (sound (w_env W) (srv_Hub s)) (handleJoinResult W ref who s)"
    using Resolve_not_panic [of "env_unicode (w_env W)" ref "srv_store s"]
    by (auto simp: handleJoinResult_def post_def sound_def writeError_def writeJSON_def split: out.split option.split)
  show "post (sound (w_env W) (srv_Hub s)) (handleListInstances who s)"
    by (simp add: handleListInstances_def post_def sound_def writeJSON_def)
qed

lemma sound_handle:
  assumes r: "reachable (w_env W) (srv_Hub s)" and sha: "\<And>x. 8 \<le> length (env_sha256 (w_env W) x)"
  shows "post (sound (w_env W) (srv_Hub s)) (handle W D c e s)"
proof -
  note owner = sound_owner [where s = "s\<lparr>srv_Nonces := ns\<rparr>" and W = W for ns, simplified, OF r]
  note join = sound_join [where s = "s\<lparr>srv_Nonces := ns\<rparr>" and W = W for ns, simplified, OF r sha]
  have create: "post (sound (w_env W) (srv_Hub s)) (handleCreateInstance W D who body (s\<lparr>srv_Nonces := ns\<rparr>))"
    if "Identity identity (srv_store s) = Ret who" for identity who body ns
    using sound_create [of W "s\<lparr>srv_Nonces := ns\<rparr>" who D body] r reachable_Identity [OF r that] by simp
  have health: "post (sound (w_env W) (srv_Hub s)) (s, writeJSON 200 NoBody)" by (simp add: post_def sound_def writeJSON_def)
  show ?thesis
    by (cases e)
      (auto simp: handle_def health sound_register [OF r refl] sound_owner [OF r] sound_join [OF r sha] owner join
        intro!: post_ownerOnly post_memberOnly post_signed intro: create sound_refusal)
qed

lemma serve_cases:
  obtains (plain) status where "serve W D c s = (s, Some (status, NoBody))"
  | (handled) e where "serve W D c s = handle W D c e s"
  by (fastforce simp: serve_def writeJSON_def Let_def split: if_splits option.splits prod.splits)

lemma sound_serve:
  assumes "reachable (w_env W) (srv_Hub s)" and "\<And>x. 8 \<le> length (env_sha256 (w_env W) x)"
  shows "post (sound (w_env W) (srv_Hub s)) (serve W D c s)"
proof (cases rule: serve_cases [of W D c s])
  case (handled e)
  then show ?thesis using sound_handle [OF assms] by simp
qed (simp add: post_def sound_def)

section \<open>What a stranger can change\<close>

text \<open>
  Everything that decides who belongs to an instance and what it is: all but the requests and the
  addresses set aside for them. A request may come in or be renewed, but none becomes approved.
\<close>

definition kept :: "Instance \<Rightarrow> Instance \<Rightarrow> bool" where
  "kept i j \<longleftrightarrow>
     j\<lparr>inst_Requests := inst_Requests i, inst_Allocations := inst_Allocations i, inst_Allocations6 := inst_Allocations6 i,
       inst_Members := inst_Members i\<rparr> = i
     \<and> mget (inst_Members j) = mget (inst_Members i)
     \<and> (\<forall>rid r. mget (inst_Requests j) rid = Some r \<longrightarrow> rec_Status r = StatusApproved \<longrightarrow>
          (\<exists>q. mget (inst_Requests i) rid = Some q \<and> rec_Status q = StatusApproved \<and> rec_Bundle q = rec_Bundle r))"

lemma kept_refl [simp]: "kept i i"
  by (simp add: kept_def)

lemma kept_ensure: "kept (ensureMaps i) j \<Longrightarrow> kept i j"
  by (cases i; cases j) (auto simp: kept_def ensureMaps_def)

lemma allocate_fields: "\<exists>a. fst (allocate i fp k) = i\<lparr>inst_Allocations := a\<rparr>"
  by (auto simp: allocate_def Let_def split: sum.split option.split)

lemma allocate6_fields: "\<exists>a. fst (allocate6 i fp k) = i\<lparr>inst_Allocations6 := a\<rparr>"
  by (auto simp: allocate6_def Let_def split: sum.split option.split intro: exI [of _ "inst_Allocations6 i"])

lemma kept_alloc: "kept i (i\<lparr>inst_Allocations := a, inst_Allocations6 := b\<rparr>)"
  by (simp add: kept_def)

lemma enroll_kept:
  assumes "wf_map (inst_Requests i)"
  shows "kept i (fst (enroll_closure V now nid req who fp i))"
proof (cases "same_key_request i fp")
  case (Some kr)
  obtain k old where kr: "kr = (k, old)" by fastforce
  have old: "mget (inst_Requests i) k = Some old" using same_key_Some [OF assms] Some kr by blast
  have "kept i (i\<lparr>inst_Requests := madjust k (\<lambda>_. refresh_record req who old) (inst_Requests i)\<rparr>)"
    using old by (auto simp: kept_def mget_adjust refresh_record_def Let_def split: if_splits)
  then show ?thesis using Some kr by (simp add: enroll_closure_def)
next
  case None
  obtain i4 r4 i6 r6 where a: "allocate i fp (app_Kind who) = (i4, r4)" "allocate6 i4 fp (app_Kind who) = (i6, r6)"
    by (metis prod.exhaust)
  obtain x where x: "i4 = i\<lparr>inst_Allocations := x\<rparr>" using allocate_fields [of i fp "app_Kind who"] a(1) by auto
  obtain y where y: "i6 = i4\<lparr>inst_Allocations6 := y\<rparr>" using allocate6_fields [of i4 fp "app_Kind who"] a(2) by auto
  have k4: "kept i i4" and k6: "kept i i6" by (simp_all add: kept_def x y)
  let ?rec = "new_record now nid req who fp i6 (out_addr r4) (out_addr r6)"
  have kn: "kept i (i6\<lparr>inst_Requests := m\<rparr>)" if "mput nid ?rec (inst_Requests i6) = Some m" for m
  proof -
    have "mget m rid = (if rid = nid then Some ?rec else mget (inst_Requests i) rid)" for rid
      using mget_put [OF that] by (simp add: x y)
    then show ?thesis by (auto simp: kept_def x y new_record_def split: if_splits)
  qed
  show ?thesis
    unfolding enroll_closure_def None option.case a Let_def prod.case
    using k4 k6 kn by (simp split: option.split)
qed

lemma Update_kept:
  assumes "mget (instances s) k = Some i"
    and "iid = k \<Longrightarrow> kept (ensureMaps i) (fst (fn (ensureMaps i)))"
  shows "\<exists>j. mget (instances (fst (Update io iid fn s))) k = Some j \<and> kept i j"
  using assms by (auto simp: Update_get intro: kept_ensure)

lemma Enroll_kept:
  assumes "mget (instances (hub_store h)) k = Some i" and "wf_map (inst_Requests i)"
  shows "\<exists>j. mget (instances (hub_store (fst (Enroll V io now nid ref req who h)))) k = Some j \<and> kept i j"
proof -
  have same: "\<exists>j. mget (instances (hub_store h)) k = Some j \<and> kept i j" using assms(1) by auto
  have "\<exists>j. mget (instances (fst (Update io iid (enroll_closure V now nid q who fp) (hub_store h)))) k = Some j \<and> kept i j" for iid q fp
    using assms enroll_kept [of "ensureMaps i"] by (intro Update_kept) (auto simp: ensureMaps_def)
  then show ?thesis using same by (auto simp: Enroll_def on_store_fst split: sum.split option.split out.split)
qed

text \<open>An operation on one instance leaves the others alone.\<close>

lemma others_untouched:
  assumes "k \<noteq> iid"
  shows "mget (instances (hub_store (fst (RemoveMember io iid ref h)))) k = mget (instances (hub_store h)) k"
    and "mget (instances (hub_store (fst (Decide io now iid rid d h)))) k = mget (instances (hub_store h)) k"
    and "mget (instances (hub_store (fst (Forget io iid rid h)))) k = mget (instances (hub_store h)) k"
    and "mget (instances (hub_store (fst (SetSharedToken io iid tok h)))) k = mget (instances (hub_store h)) k"
    and "mget (instances (hub_store (fst (Ban V io now iid ref note h)))) k = mget (instances (hub_store h)) k"
    and "mget (instances (hub_store (fst (Unban V io now iid ref note h)))) k = mget (instances (hub_store h)) k"
    and "mget (instances (hub_store (fst (ActivateInstance V io iid ca cert h)))) k = mget (instances (hub_store h)) k"
proof -
  show "mget (instances (hub_store (fst (RemoveMember io iid ref h)))) k = mget (instances (hub_store h)) k"
    "mget (instances (hub_store (fst (Decide io now iid rid d h)))) k = mget (instances (hub_store h)) k"
    "mget (instances (hub_store (fst (Forget io iid rid h)))) k = mget (instances (hub_store h)) k"
    "mget (instances (hub_store (fst (SetSharedToken io iid tok h)))) k = mget (instances (hub_store h)) k"
    using assms by (simp_all add: RemoveMember_def Decide_def Forget_def SetSharedToken_def on_store_fst Update_get)
  have ap: "hub_store (fst (applyBlocklist V iid g)) = hub_store g" for g
    by (auto simp: applyBlocklist_def split: out.split prod.split)
  have th: "hub_store (fst (and_then x (applyBlocklist V iid))) = hub_store (fst x)" for x :: "Hub \<times> (hub_err, unit) out"
    using ap by (cases x; cases "snd x") (simp_all add: and_then_def)
  show "mget (instances (hub_store (fst (Ban V io now iid ref note h)))) k = mget (instances (hub_store h)) k"
    "mget (instances (hub_store (fst (Unban V io now iid ref note h)))) k = mget (instances (hub_store h)) k"
    using assms by (simp_all add: Ban_def Unban_def th on_store_fst Update_get)
  let ?x = "on_store (Update io iid (activate_closure (env_unicode V) ca cert)) h"
  have "hub_store (fst (ActivateInstance V io iid ca cert h)) = hub_store (fst ?x)"
    by (cases ?x; cases "snd ?x") (auto simp: ActivateInstance_def split: out.split prod.split)
  then show "mget (instances (hub_store (fst (ActivateInstance V io iid ca cert h)))) k = mget (instances (hub_store h)) k"
    using assms by (simp add: on_store_fst Update_get)
qed

lemma save_instances [simp]: "instances (fst (save io s)) = instances s"
  by (simp add: save_def)

lemma delete_others:
  assumes "state_ok (st_state (hub_store h))" and "k \<noteq> iid"
  shows "mget (instances (hub_store (fst (Delete io iid h)))) k = mget (instances (hub_store h)) k"
proof (cases "mget (instances (hub_store h)) iid")
  case (Some inst)
  have "inst_ID inst = iid" and wf: "wf_map (instances (hub_store h))" using assms(1) Some by (auto simp: state_ok_def)
  then show ?thesis using Some assms(2) mget_del [OF wf]
    by (auto simp: Delete_def Get_def on_store_fst Remove_def set_instances_def)
qed (simp add: Delete_def Get_def)

lemma create_others:
  assumes "mget (instances (hub_store h)) k = Some i"
  shows "mget (instances (hub_store (fst (CreateInstance io now nid hk bndr owner name tok h)))) k = Some i"
proof -
  have "mget (instances (fst (Add io inst (hub_store h)))) k = Some i" for inst
    using assms
  proof (cases rule: Add_cases [of io inst "hub_store h"])
    case (stored m)
    with assms mget_put [OF stored(3), of k] show ?thesis by (auto simp: set_instances_def)
  qed simp_all
  then show ?thesis using assms by (auto simp: CreateInstance_def add_instance_fst split: sum.split)
qed

lemma register_others: "instances (hub_store (fst (on_store (Register io now r) h))) = instances (hub_store h)"
  by (auto simp: on_store_fst Register_def set_identities_def split: option.split)

text \<open>What a request may do to the instance \<open>i\<close> stored under \<open>k\<close>.\<close>

definition spares :: "world \<Rightarrow> draw \<Rightarrow> call \<Rightarrow> Server \<Rightarrow> string \<Rightarrow> Instance \<Rightarrow> Hub \<Rightarrow> response \<Rightarrow> bool" where
  "spares W D c s k i h r \<longleftrightarrow>
     signed_by W D c s (inst_Owner i) \<or> (\<exists>j. mget (instances (hub_store h)) k = Some j \<and> kept i j)"

lemma spares_same: "mget (instances (hub_store h)) k = Some i \<Longrightarrow> spares W D c s k i h r"
  by (auto simp: spares_def)

lemma spares_run:
  assumes "\<exists>j. mget (instances (hub_store (fst (f (srv_Hub t))))) k = Some j \<and> kept i j"
  shows "post (spares W D c s k i) (run f ok bad t)"
  using assms by (intro post_run) (auto simp: spares_def)

lemma spares_owner:
  assumes "mget (instances (srv_store t)) k = Some i" and "k \<noteq> inst_ID inst" and "state_ok (st_state (srv_store t))"
  shows "post (spares W D c s k i) (handleRemoveMember D m inst t)"
    and "post (spares W D c s k i) (handleDeleteInstance D inst t)"
    and "post (spares W D c s k i) (handleLighthouse W D inst body t)"
    and "post (spares W D c s k i) (handleDecision W D rid inst body t)"
    and "post (spares W D c s k i) (handleForget D rid inst t)"
    and "post (spares W D c s k i) (handleBan W D inst body t)"
    and "post (spares W D c s k i) (handleUnban W D inst body t)"
    and "post (spares W D c s k i) (handleSetToken W D inst body t)"
  unfolding handleRemoveMember_def handleDeleteInstance_def handleLighthouse_def handleDecision_def handleForget_def
    handleBan_def handleUnban_def handleSetToken_def
  using assms
  by (intro post_decode spares_run spares_same; simp add: others_untouched delete_others)+

lemma spares_read:
  assumes "mget (instances (srv_store t)) k = Some i"
  shows "post (spares W D c s k i) (handlePending inst t)" and "post (spares W D c s k i) (handleMembers inst t)"
    and "post (spares W D c s k i) (handleResult W ref rid t)" and "post (spares W D c s k i) (handleRoutes inst t)"
    and "post (spares W D c s k i) (handleListInstances who t)" and "post (spares W D c s k i) (handleJoinResult W ref who t)"
proof -
  show "post (spares W D c s k i) (handlePending inst t)" "post (spares W D c s k i) (handleMembers inst t)"
    "post (spares W D c s k i) (handleResult W ref rid t)"
    using assms by (auto simp: handlePending_def handleMembers_def handleResult_def intro!: spares_run)
  show "post (spares W D c s k i) (handleRoutes inst t)" "post (spares W D c s k i) (handleListInstances who t)"
    "post (spares W D c s k i) (handleJoinResult W ref who t)"
    using assms spares_same by (auto simp: handleRoutes_def handleListInstances_def handleJoinResult_def post_def split: out.split option.split)
qed

lemma spares_anyone:
  assumes i: "mget (instances (srv_store t)) k = Some i" and wf: "wf_map (inst_Requests i)"
  shows "post (spares W D c s k i) (handleRegister W D c' t)"
    and "post (spares W D c s k i) (handleCreateInstance W D who body t)"
    and "post (spares W D c s k i) (handleJoin W D c' ref who body t)"
    and "post (spares W D c s k i) (handleEnroll W D c' ref t)"
proof -
  show "post (spares W D c s k i) (handleRegister W D c' t)"
    unfolding handleRegister_def
  proof (intro post_limited post_decode, goal_cases)
    case (3 rl req)
    have "post (spares W D c s k i) (run (on_store (Register io now reg)) ok bad (t\<lparr>srv_Limiter := rl\<rparr>))" for io now reg ok bad
      using i by (intro spares_run) (simp add: register_others)
    then show ?case using i by (auto simp: Let_def spares_same post_def split: sum.split option.split)
  qed (use i in \<open>simp_all add: spares_same\<close>)
  show "post (spares W D c s k i) (handleCreateInstance W D who body t)"
    unfolding handleCreateInstance_def
  proof (intro post_decode, goal_cases)
    case (2 req)
    have "post (spares W D c s k i) (run (CreateInstance io now nid hk bndr owner name tok) ok bad t)" for io now nid hk bndr owner name tok ok bad
      using i by (intro spares_run) (simp add: create_others)
    then show ?case using i by (auto simp: spares_same post_def split: sum.split)
  qed (use i in \<open>simp add: spares_same\<close>)
  show "post (spares W D c s k i) (handleJoin W D c' ref who body t)"
    unfolding handleJoin_def using i wf by (intro post_decode spares_run spares_same Enroll_kept) simp_all
  show "post (spares W D c s k i) (handleEnroll W D c' ref t)"
    unfolding handleEnroll_def using i wf by (intro post_limited post_decode spares_run spares_same Enroll_kept) simp_all
qed

lemma spares_handle:
  assumes r: "reachable (w_env W) (srv_Hub s)" and i: "mget (instances (srv_store s)) k = Some i"
  shows "post (spares W D c s k i) (handle W D c e s)"
proof -
  have ok: "state_ok (st_state (srv_store s))" and wf: "wf_map (inst_Requests i)"
    using reachable_instance [OF r i] by (auto simp: inst_ok_def requests_ok_def)
  have own: "post (spares W D c s k i) (ownerOnly W D c ref next s)"
    if n: "\<And>inst body ns. k \<noteq> inst_ID inst \<Longrightarrow> post (spares W D c s k i) (next inst body (s\<lparr>srv_Nonces := ns\<rparr>))" for ref "next"
  proof (rule post_ownerOnly)
    fix identity who inst body ns
    assume a: "signed_by W D c s identity" "Identity identity (srv_store s) = Ret who"
      "Resolve (env_unicode (w_env W)) ref (srv_store s) = Ret inst" "reg_Identity who = inst_Owner inst"
    have st: "mget (instances (srv_store s)) (inst_ID inst) = Some inst" by (rule Resolve_stored [OF ok a(3)])
    show "post (spares W D c s k i) (next inst (body, True) (s\<lparr>srv_Nonces := ns\<rparr>))"
    proof (cases "k = inst_ID inst")
      case True
      then have "signed_by W D c s (inst_Owner i)" using a(1,4) st i reachable_Identity(1) [OF r a(2)] by simp
      then show ?thesis by (simp add: post_def spares_def)
    qed (rule n)
  qed (use i in \<open>simp add: spares_same\<close>)
  have sig: "post (spares W D c s k i) (signed W D c next s)"
    if "\<And>who body ns. post (spares W D c s k i) (next who body (s\<lparr>srv_Nonces := ns\<rparr>))" for "next"
    using that i by (intro post_signed) (simp_all add: spares_same)
  have mem: "post (spares W D c s k i) (memberOnly W D c ref next s)"
    if "\<And>inst ns. post (spares W D c s k i) (next inst (s\<lparr>srv_Nonces := ns\<rparr>))" for ref "next"
    using that i by (intro post_memberOnly) (simp_all add: spares_same)
  note o = spares_owner [where t = "s\<lparr>srv_Nonces := ns\<rparr>" for ns, simplified, OF i _ ok]
  note rd = spares_read [where t = "s\<lparr>srv_Nonces := ns\<rparr>" for ns, simplified, OF i] spares_read [OF i]
  note an = spares_anyone [where t = "s\<lparr>srv_Nonces := ns\<rparr>" for ns, simplified, OF i wf] spares_anyone [OF i wf]
  have "post (spares W D c s k i) (s, writeJSON 200 NoBody)" using i by (simp add: post_def spares_same)
  then show ?thesis by (cases e) (auto simp: handle_def o rd an intro!: own sig mem)
qed

section \<open>Properties\<close>

text \<open>
  A server from its configuration file on: it is started, it serves requests, it dies at some point
  of a save and is started again on what it finds, its maps are walked in another order.
\<close>

abbreviation configured :: "world \<Rightarrow> Config \<Rightarrow> bool" where
  "configured W cfg \<equiv> (\<exists>order f. File_Config (w_crypto W) (env_unicode (w_env W)) (w_ssh W) order f = Ret cfg)"

inductive served :: "world \<Rightarrow> Server \<Rightarrow> bool" for W :: world where
  boot: "configured W cfg \<Longrightarrow> New (w_env W) cfg readable \<lparr>fs_file = None, fs_tmp = None\<rparr> = Inr h \<Longrightarrow> served W (start_server h)"
| request: "served W s \<Longrightarrow> served W (fst (serve W D c s))"
| restart: "served W s \<Longrightarrow> f \<in> set (save_trace io (st_state (srv_store s)) (st_fs (srv_store s))) \<Longrightarrow>
    configured W cfg \<Longrightarrow> New (w_env W) cfg readable f = Inr h \<Longrightarrow> served W (start_server h)"
| reorder: "served W s \<Longrightarrow> same_state (st_state (srv_store s)) st \<Longrightarrow>
    served W (s\<lparr>srv_Hub := (srv_Hub s)\<lparr>hub_store := (srv_store s)\<lparr>st_state := st\<rparr>\<rparr>\<rparr>)"

lemma served_reachable:
  assumes "served W s" and sha: "\<forall>x. length (env_sha256 (w_env W) x) = 32"
  shows "reachable (w_env W) (srv_Hub s)"
  using assms(1)
proof induction
  case (boot cfg readable h)
  then have "cfg_ok cfg" using File_Config_ok(2) by blast
  then show ?case using boot(2) by (simp add: start_server_def reachable.fresh)
next
  case (request s D c)
  have "post (sound (w_env W) (srv_Hub s)) (serve W D c s)" by (rule sound_serve [OF request(2)]) (simp add: sha)
  then show ?case using reachable_steps [OF _ request(2)] by (simp add: post_def sound_def)
next
  case (restart s f io cfg readable h)
  then have "hub_step (w_env W) {} (srv_Hub s) h" using File_Config_ok(2) hub_step.restart by blast
  then show ?case using restart(5) reachable.step by (simp add: start_server_def)
next
  case (reorder s st)
  then show ?case using hub_step.reorder [OF reorder(2)] reachable.step by simp
qed

text \<open>
  C7: the API runs the hub and nothing else: from an accepted configuration, through any sequence of
  requests, crashes in the middle of a write and restarts, the hub behind the API is in a state
  reachable by the hub's own steps. What is proved of those states holds of the service.
\<close>

theorem api_refines_hub:
  assumes "served W s" and "\<forall>x. length (env_sha256 (w_env W) x) = 32"
  shows "reachable (w_env W) (srv_Hub s) \<and> (hub_step (w_env W) {})\<^sup>*\<^sup>* (srv_Hub s) (srv_Hub (fst (serve W D c s)))"
  using served_reachable [OF assms] sound_serve [OF served_reachable [OF assms], of D c] assms(2)
  by (simp add: post_def sound_def)


text \<open>
  C1: only the owner decides. A request that is not signed by the identity that owns an instance does
  not delete it and changes nothing of it but its waiting requests and the addresses set aside for
  them: not its members, its bans, its token, its certificates, and it approves nothing.
\<close>

theorem only_the_owner_decides:
  assumes "reachable (w_env W) (srv_Hub s)" and "mget (instances (srv_store s)) k = Some i"
    and "\<not> signed_by W D c s (inst_Owner i)"
  shows "\<exists>j. mget (instances (srv_store (fst (serve W D c s)))) k = Some j \<and> kept i j"
proof (cases rule: serve_cases [of W D c s])
  case (handled e)
  then show ?thesis using spares_handle [OF assms(1,2), of D c e] assms(3) by (simp add: post_def spares_def)
qed (use assms(2) in simp)

text \<open>Where a table of routes or a list of members comes from.\<close>

definition inside :: "payload \<Rightarrow> bool" where
  "inside v \<longleftrightarrow> (case v of RouteList _ \<Rightarrow> True | MemberList _ \<Rightarrow> True | _ \<Rightarrow> False)"

definition belongs :: "world \<Rightarrow> draw \<Rightarrow> call \<Rightarrow> Server \<Rightarrow> Hub \<Rightarrow> response \<Rightarrow> bool" where
  "belongs W D c s h r \<longleftrightarrow>
     (\<forall>status v. r = Some (status, v) \<longrightarrow> inside v \<longrightarrow>
       (\<exists>identity inst. signed_by W D c s identity \<and> mget (instances (srv_store s)) (inst_ID inst) = Some inst
          \<and> MemberOf inst identity \<noteq> None
          \<and> (v = RouteList (RouteTableOf (hub_cfg (srv_Hub s)) inst) \<or> (\<exists>ms. v = MemberList ms \<and> set ms = set (vals (inst_Members inst))))))"

lemma belongs_refusal: "refusal r \<Longrightarrow> belongs W D c s h r"
  by (auto simp: refusal_def belongs_def inside_def)

lemma belongs_run:
  assumes "\<And>h a st v. ok h a = Some (st, v) \<Longrightarrow> \<not> inside v" and "\<And>e st v. bad e = Some (st, v) \<Longrightarrow> \<not> inside v"
  shows "post (belongs W D c s) (run f ok bad t)"
  by (rule post_run) (auto simp: belongs_def dest: assms)

lemma belongs_plain:
  "post (belongs W D c s) (handleRegister W D c t)"
  "post (belongs W D c s) (handleCreateInstance W D who body t)"
  "post (belongs W D c s) (handleListInstances who t)"
  "post (belongs W D c s) (handleLighthouse W D inst body t)"
  "post (belongs W D c s) (handlePending inst t)"
  "post (belongs W D c s) (handleDecision W D rid inst body t)"
  "post (belongs W D c s) (handleForget D rid inst t)"
  "post (belongs W D c s) (handleBan W D inst body t)"
  "post (belongs W D c s) (handleUnban W D inst body t)"
  "post (belongs W D c s) (handleSetToken W D inst body t)"
  "post (belongs W D c s) (handleDeleteInstance D inst t)"
  "post (belongs W D c s) (handleRemoveMember D m inst t)"
  "post (belongs W D c s) (handleJoin W D c ref who body t)"
  "post (belongs W D c s) (handleJoinResult W ref who t)"
  "post (belongs W D c s) (handleEnroll W D c ref t)"
  "post (belongs W D c s) (handleResult W ref rid t)"
proof -
  have e: "belongs W D c s h (writeError st code w)" for h st code w by (simp add: belongs_def writeError_def writeJSON_def inside_def)
  have p: "post (belongs W D c s) (t, Some (st, v))" if "\<not> inside v" for st v t using that by (simp add: post_def belongs_def)
  have n: "post (belongs W D c s) (t, None)" for t by (simp add: post_def belongs_def)
  note j = writeError_def writeJSON_def writeMemberError_def accepted_def inside_def
  show "post (belongs W D c s) (handleRegister W D c t)"
    unfolding handleRegister_def
    by (intro post_limited post_decode e)
      (auto simp: Let_def j intro!: p belongs_run split: sum.split option.split)
  show "post (belongs W D c s) (handleCreateInstance W D who body t)"
    unfolding handleCreateInstance_def
    by (intro post_decode e) (auto simp: j intro!: p belongs_run split: sum.split)
  show "post (belongs W D c s) (handleListInstances who t)" by (simp add: handleListInstances_def j p)
  show "post (belongs W D c s) (handleJoinResult W ref who t)"
    by (auto simp: handleJoinResult_def j p n split: out.split option.split)
  show "post (belongs W D c s) (handleLighthouse W D inst body t)" "post (belongs W D c s) (handlePending inst t)"
    "post (belongs W D c s) (handleDecision W D rid inst body t)" "post (belongs W D c s) (handleForget D rid inst t)"
    "post (belongs W D c s) (handleBan W D inst body t)" "post (belongs W D c s) (handleUnban W D inst body t)"
    "post (belongs W D c s) (handleSetToken W D inst body t)" "post (belongs W D c s) (handleDeleteInstance D inst t)"
    "post (belongs W D c s) (handleRemoveMember D m inst t)" "post (belongs W D c s) (handleResult W ref rid t)"
    "post (belongs W D c s) (handleJoin W D c ref who body t)" "post (belongs W D c s) (handleEnroll W D c ref t)"
    unfolding handleLighthouse_def handlePending_def handleDecision_def handleForget_def handleBan_def handleUnban_def
      handleSetToken_def handleDeleteInstance_def handleRemoveMember_def handleResult_def handleJoin_def handleEnroll_def
    by (intro post_limited post_decode belongs_run e; auto simp: j split: if_splits option.splits)+
qed

lemma belongs_members:
  assumes "signed_by W D c s identity" and "mget (instances (srv_store s)) (inst_ID inst) = Some inst"
    and "MemberOf inst identity \<noteq> None" and "srv_Hub t = srv_Hub s"
  shows "post (belongs W D c s) (handleRoutes inst t)" and "post (belongs W D c s) (handleMembers inst t)"
proof -
  show "post (belongs W D c s) (handleRoutes inst t)"
    using assms by (auto simp: handleRoutes_def post_def belongs_def writeJSON_def)
  have "Members (inst_ID inst) (srv_Hub t) = Ret (sort_key mem_Name (vals (inst_Members inst)))"
    using assms(2,4) by (simp add: Members_def Get_def)
  then show "post (belongs W D c s) (handleMembers inst t)"
    using assms(1,2,3) by (auto simp: handleMembers_def run_def post_def belongs_def writeJSON_def)
qed

lemma belongs_handle:
  assumes r: "reachable (w_env W) (srv_Hub s)"
  shows "post (belongs W D c s) (handle W D c e s)"
proof -
  have st: "state_ok (st_state (srv_store s))" using reachable_inv [OF r] by (simp add: hub_inv_def store_inv_def)
  have mem: "post (belongs W D c s) (memberOnly W D c ref next s)"
    if "\<And>identity inst t. signed_by W D c s identity \<Longrightarrow> mget (instances (srv_store s)) (inst_ID inst) = Some inst
      \<Longrightarrow> MemberOf inst identity \<noteq> None \<Longrightarrow> srv_Hub t = srv_Hub s \<Longrightarrow> post (belongs W D c s) (next inst t)" for ref "next"
    by (rule post_memberOnly, erule belongs_refusal, rule that)
      (use reachable_Identity(1) [OF r] Resolve_stored [OF st] in auto)
  have "post (belongs W D c s) (s, writeJSON 200 NoBody)" by (simp add: post_def belongs_def inside_def writeJSON_def)
  then show ?thesis
    by (cases e) (auto simp: handle_def belongs_plain intro!: post_ownerOnly post_signed mem belongs_members intro: belongs_refusal)
qed

text \<open>
  C8: routes and members are for those who belong. An answer that holds a table of routes or a list
  of members goes to a machine whose signature was checked and that is a member of that very
  instance: its owner, or one that was let in and is not banned.
\<close>

theorem routes_are_for_members:
  assumes "reachable (w_env W) (srv_Hub s)" and "snd (serve W D c s) = Some (status, v)" and "inside v"
  shows "\<exists>identity inst. signed_by W D c s identity \<and> mget (instances (srv_store s)) (inst_ID inst) = Some inst
    \<and> (identity = inst_Owner inst \<or> (\<exists>fp m. mget (inst_Members inst) fp = Some m \<and> mem_Identity m = identity \<and> \<not> Banned m))
    \<and> (v = RouteList (RouteTableOf (hub_cfg (srv_Hub s)) inst) \<or> (\<exists>ms. v = MemberList ms \<and> set ms = set (vals (inst_Members inst))))"
proof -
  have "post (belongs W D c s) (serve W D c s)"
  proof (cases rule: serve_cases [of W D c s])
    case (handled e)
    then show ?thesis using belongs_handle [OF assms(1)] by simp
  qed (simp add: post_def belongs_def inside_def)
  with assms(2,3) obtain identity inst where b: "signed_by W D c s identity" "mget (instances (srv_store s)) (inst_ID inst) = Some inst"
    "MemberOf inst identity \<noteq> None"
    "v = RouteList (RouteTableOf (hub_cfg (srv_Hub s)) inst) \<or> (\<exists>ms. v = MemberList ms \<and> set ms = set (vals (inst_Members inst)))"
    by (auto simp: post_def belongs_def simp del: not_None_eq)
  have wf: "wf_map (inst_Members inst)"
    using reachable_instance(1) [OF assms(1) b(2)] by (simp add: inst_ok_def members_ok_def)
  have loop: "member_loop identity ms = Some m \<Longrightarrow> m \<in> set ms \<and> mem_Identity m = identity \<and> \<not> Banned m" for ms m
    by (induction ms) (auto split: if_splits)
  have "identity = inst_Owner inst \<or> (\<exists>fp m. mget (inst_Members inst) fp = Some m \<and> mem_Identity m = identity \<and> \<not> Banned m)"
    using b(3) loop vals_iff [OF wf] by (auto simp: MemberOf_def split: if_splits option.splits) blast
  with b show ?thesis by blast
qed

section \<open>Running it\<close>

text \<open>A world to run the server in: no request decodes but an enrollment.\<close>

definition example_json :: json where
  "example_json = \<lparr>js_Register = (\<lambda>_. None), js_Create = (\<lambda>_. None), js_Lighthouse = (\<lambda>_. None), js_Decision = (\<lambda>_. None),
     js_Ban = (\<lambda>_. None), js_Token = (\<lambda>_. None), js_Join = (\<lambda>_. None), js_Request = (\<lambda>_. Some example_request)\<rparr>"

definition example_world :: world where
  "example_world = \<lparr>w_env = example_env, w_crypto = example_crypto, w_ssh = example_sshlib, w_json = example_json\<rparr>"

definition strict_world :: world where
  "strict_world = example_world\<lparr>w_env := example_env\<lparr>env_sha256 := (\<lambda>s. take 32 (s @ replicate 32 CHR ''x''))\<rparr>\<rparr>"

definition example_draw :: draw where
  "example_draw = \<lparr>dr_Now = second, dr_IO = None, dr_ID = ''r1'', dr_HostKey = None\<rparr>"

definition enroll_call :: call where
  "enroll_call = \<lparr>cl_Request = example_call\<lparr>hr_Method := ''POST'', hr_Path := ''/v1/enroll/railway''\<rparr>,
     cl_EscapedPath = ''/v1/enroll/railway'', cl_Body = ''{}'', cl_Broken = False\<rparr>"

lemma strict_sha: "\<forall>x. length (env_sha256 (w_env strict_world) x) = 32"
  by (auto simp: strict_world_def min_def)

lemma strict_served: "served strict_world (start_server (hub_empty\<lparr>hub_cfg := file_config\<rparr>))"
proof (rule served.boot)
  show "configured strict_world file_config"
    using file_config_ret by (auto simp: strict_world_def example_world_def example_env_def)
  show "New (w_env strict_world) file_config True \<lparr>fs_file = None, fs_tmp = None\<rparr> = Inr (hub_empty\<lparr>hub_cfg := file_config\<rparr>)"
    by (simp add: New_def hub_empty_def OpenStore_def file_config_def ListInstances_def start_all_def vals_def)
qed

theorem api_refines_hub_witness:
  "reachable (w_env strict_world) (hub_empty\<lparr>hub_cfg := file_config\<rparr>)"
  using api_refines_hub [OF strict_served strict_sha] by (simp add: start_server_def)


lemma enroll_unsigned: "\<not> signed_by W D enroll_call s identity"
  by (auto simp: signed_by_def VerifyRequest_def header_def enroll_call_def example_call_def)

theorem only_the_owner_decides_witness:
  "\<exists>j. mget (instances (srv_store (fst (serve example_world example_draw enroll_call (start_server (hub_of inst_admitted lhs_open)))))) example_id
     = Some j \<and> kept inst_admitted j"
proof -
  let ?s = "start_server (hub_of inst_admitted lhs_open)"
  have "reachable (w_env example_world) (srv_Hub ?s)" "mget (instances (srv_store ?s)) example_id = Some inst_admitted"
    using example_reachable(4) by (simp_all add: example_world_def start_server_def)
  then show ?thesis using only_the_owner_decides [OF _ _ enroll_unsigned] by blast
qed

text \<open>A machine that registered and owns an instance, and asks for its routes.\<close>

definition me :: string where
  "me = PublicIdentity (ed_Public example_crypto example_priv)"

definition my_registration :: Registration where
  "my_registration = \<lparr>reg_Identity = me, reg_Binder = ''mara'', reg_Name = ''laptop'', reg_Key = ''key'', reg_RegisteredAt = 0, reg_LastSeenAt = 0\<rparr>"

definition my_hub :: Hub where
  "my_hub = fst (CreateInstance None 1 example_id (Some (''P'', ''K'')) ''mara'' me ''railway'' []
     (fst (on_store (Register None 1 my_registration) hub_empty)))"

definition my_instance :: Instance where
  "my_instance = example_instance\<lparr>inst_Owner := me,
     inst_Members := Some [(me, owner_member ''mara'' me ''railway'' (inst_Overlay example_instance) (inst_TenantAddress example_instance) PrefixNone AddrNone 1)]\<rparr>"

lemma me_alnum: "\<not> list_all alnum me"
  using ParsePublicIdentity_alnum [OF Parse_PublicIdentity [OF example_laws(1)]] by (simp add: me_def)

lemma my_hub_reachable: "reachable example_env my_hub"
proof -
  have "hub_step example_env {} hub_empty (fst (on_store (Register None 1 my_registration) hub_empty))"
    by (rule hub_step.register) (simp add: my_registration_def me_alnum)
  then have "reachable example_env (fst (on_store (Register None 1 my_registration) hub_empty))"
    using empty_reachable reachable.step by blast
  from reachable_steps [OF create_steps [OF me_alnum] this] show ?thesis by (simp add: my_hub_def)
qed

lemma my_hub_stored: "mget (instances (hub_store my_hub)) example_id = Some my_instance"
  "Identity me (hub_store my_hub) = Ret (my_registration\<lparr>reg_RegisteredAt := 1\<rparr>)"
  by code_simp+

lemma my_hub_only: "mget (instances (hub_store my_hub)) k = Some i \<Longrightarrow> i = my_instance"
proof -
  have "instances (hub_store my_hub) = Some [(example_id, my_instance)]" by code_simp
  then show "mget (instances (hub_store my_hub)) k = Some i \<Longrightarrow> i = my_instance" by (simp add: mget_def split: if_splits)
qed

lemma my_instance_owner: "inst_Owner my_instance = me"
  by (simp add: my_instance_def)

definition routes_call :: call where
  "routes_call = \<lparr>cl_Request = SignRequest example_crypto no_unicode example_priv second ''nonce''
       (example_call\<lparr>hr_Path := ''/v1/instances/railway/routes''\<rparr>) [],
     cl_EscapedPath = ''/v1/instances/railway/routes'', cl_Body = [], cl_Broken = False\<rparr>"

lemma routes_call_verifies:
  "\<exists>ns. VerifyRequest example_crypto no_unicode (Some Use) second (cl_Request routes_call) [] NewMemoryNonces = (ns, Inr me)"
proof -
  obtain ns where "Use NewMemoryNonces second (PublicIdentity (ed_Public example_crypto example_priv)) (b64url_encode ''nonce'') Window = (ns, True)"
    using Use_fresh [OF example_laws(6,7)] .
  then show ?thesis
    using signed_verifies [OF example_laws(1,2,3,4,5), of "''nonce''" second _ _ no_unicode Use
        "example_call\<lparr>hr_Path := ''/v1/instances/railway/routes''\<rparr>" "[]" NewMemoryNonces]
    by (simp add: routes_call_def me_def Window_def second_def)
qed

lemma routes_call_route: "serve W D routes_call s = handle W D routes_call (RoutesEp ''railway'') s"
proof -
  have "split_on (CHR ''/'') ([] @ CHR ''/'' # ''v1'' @ CHR ''/'' # ''instances'' @ CHR ''/'' # ''railway'' @ CHR ''/'' # ''routes'')
      = [[], ''v1'', ''instances'', ''railway'', ''routes'']"
    by (subst split_on_append, simp)+ (simp add: split_on_def)
  then have "split_on (CHR ''/'') ''/v1/instances/railway/routes'' = [[], ''v1'', ''instances'', ''railway'', ''routes'']" by simp
  moreover from this have "clean_path ''/v1/instances/railway/routes''" by (simp add: clean_path_def)
  moreover have "map pathUnescape [''v1'', ''instances'', ''railway'', ''routes''] = [''v1'', ''instances'', ''railway'', ''routes'']"
    by (simp add: pathUnescape_def)
  moreover have "hr_Method (cl_Request routes_call) = ''GET''"
    by (simp add: routes_call_def SignRequest_def Let_def set_header_other example_call_def)
  ultimately show ?thesis
    by (simp add: serve_def routes_call_def path_routes_def instance_routes_def)
qed

lemma routes_call_answer:
  "snd (serve example_world example_draw routes_call (start_server my_hub)) = Some (200, RouteList (RouteTableOf (hub_cfg my_hub) my_instance))"
proof -
  obtain ns where v: "VerifyRequest example_crypto no_unicode (Some Use) second (cl_Request routes_call) [] NewMemoryNonces = (ns, Inr me)"
    using routes_call_verifies by blast
  have res: "Resolve no_unicode ''railway'' (hub_store my_hub) = Ret my_instance" by code_simp
  have "MemberOf my_instance me \<noteq> None"
    using me_alnum by (auto simp: MemberOf_def my_instance_def split: option.split)
  then show ?thesis
    unfolding routes_call_route
    using v res my_hub_stored(2)
    by (auto simp: handle_def memberOnly_def signed_def readBody_def routes_call_def start_server_def example_world_def example_env_def
        example_draw_def handleRoutes_def writeJSON_def my_registration_def)
qed

theorem routes_are_for_members_witness:
  "\<exists>identity inst. signed_by example_world example_draw routes_call (start_server my_hub) identity
     \<and> mget (instances (hub_store my_hub)) (inst_ID inst) = Some inst \<and> identity = inst_Owner inst"
proof -
  have r: "reachable (w_env example_world) (srv_Hub (start_server my_hub))"
    using my_hub_reachable by (simp add: example_world_def start_server_def)
  from routes_are_for_members [OF r routes_call_answer] obtain identity inst where
    "signed_by example_world example_draw routes_call (start_server my_hub) identity"
    "mget (instances (hub_store my_hub)) (inst_ID inst) = Some inst"
    "identity = inst_Owner inst \<or> (\<exists>fp m. mget (inst_Members inst) fp = Some m \<and> mem_Identity m = identity \<and> \<not> Banned m)"
    by (auto simp: inside_def start_server_def)
  moreover have "inst = my_instance" using calculation(2) my_hub_only by blast
  moreover have "mem_Identity m = me" if "mget (inst_Members my_instance) fp = Some m" for fp m
    using that by (auto simp: my_instance_def owner_member_def mget_def split: if_splits)
  ultimately show ?thesis by (metis my_instance_owner)
qed

end
