(* ===== verification/Limits.thy ===== *)
theory Limits
  imports Api
begin

text \<open>
  What the rate limiter of the endpoints without credentials guarantees: a bound on what one source
  gets through in any stretch of time, that a source is let in again, and that sources do not use up
  each other's share.
\<close>

section \<open>A sequence of attempts\<close>

type_synonym attempt = "time \<times> string"

fun attempts :: "rateLimiter \<Rightarrow> attempt list \<Rightarrow> rateLimiter \<times> bool list" where
  "attempts rl [] = (rl, [])"
| "attempts rl ((now, key) # es) =
     (let (rl1, ok) = allow rl now key; (rl2, oks) = attempts rl1 es in (rl2, ok # oks))"

text \<open>How many attempts of one source were let through.\<close>

definition let_in :: "string \<Rightarrow> rateLimiter \<Rightarrow> attempt list \<Rightarrow> nat" where
  "let_in key rl es = length (filter (\<lambda>((_, k), ok). k = key \<and> ok) (zip es (snd (attempts rl es))))"

lemma let_in_Nil [simp]: "let_in key rl [] = 0"
  by (simp add: let_in_def)

lemma let_in_Cons:
  "let_in key rl ((now, k) # es) = (if k = key \<and> snd (allow rl now k) then 1 else 0) + let_in key (fst (allow rl now k)) es"
  by (simp add: let_in_def split: prod.split)

lemma allow_keeps [simp]:
  "rl_window (fst (allow rl now k)) = rl_window rl" "rl_limit (fst (allow rl now k)) = rl_limit rl"
  by (simp_all add: allow_def Let_def split: option.split)

lemma allow_made: "rl_buckets rl \<noteq> None \<Longrightarrow> rl_buckets (fst (allow rl now k)) \<noteq> None"
  by (cases "rl_buckets rl") (auto simp: allow_def Let_def madjust_def split: option.split)

text \<open>The bucket of a source after an attempt.\<close>

lemma allow_bucket:
  assumes "rl_buckets rl \<noteq> None"
  shows "mget (rl_buckets (fst (allow rl now k))) x =
    (if x \<noteq> k then mget (rl_buckets rl) x
     else case mget (rl_buckets rl) k of
            Some b \<Rightarrow> Some (if bk_reset b < now then \<lparr>bk_count = 1, bk_reset = now + rl_window rl\<rparr> else b\<lparr>bk_count := bk_count b + 1\<rparr>)
          | None \<Rightarrow> Some \<lparr>bk_count = 1, bk_reset = now + rl_window rl\<rparr>)"
proof -
  let ?b = "\<lparr>bk_count = 1, bk_reset = now + rl_window rl\<rparr>"
  obtain m where m: "mput k ?b (rl_buckets rl) = Some m" using assms by (cases "rl_buckets rl") auto
  show ?thesis
    using mget_put [OF m, of x] m by (cases "mget (rl_buckets rl) k") (auto simp: allow_def Let_def mget_adjust)
qed

lemma allow_ok:
  "snd (allow rl now k) \<longleftrightarrow>
     (case mget (rl_buckets rl) k of None \<Rightarrow> True | Some b \<Rightarrow> bk_reset b < now \<or> bk_count b + 1 \<le> rl_limit rl)"
  by (simp add: allow_def Let_def split: option.split)

section \<open>The bound\<close>

text \<open>A source whose bucket outlasts the stretch has what is left in it.\<close>

lemma let_in_bucket:
  assumes "rl_buckets rl \<noteq> None" and "\<forall>(now, k) \<in> set es. now \<le> hi"
    and "mget (rl_buckets rl) key = Some b" and "hi \<le> bk_reset b"
  shows "let_in key rl es \<le> rl_limit rl - bk_count b"
  using assms
proof (induction es arbitrary: rl b)
  case (Cons e es)
  obtain now k where e: "e = (now, k)" by fastforce
  let ?rl = "fst (allow rl now k)"
  have made: "rl_buckets ?rl \<noteq> None" using Cons.prems(1) allow_made by blast
  have later: "\<forall>(now, k) \<in> set es. now \<le> hi" using Cons.prems(2) by auto
  have old: "\<not> bk_reset b < now" using Cons.prems(2,4) e by auto
  show ?case
  proof (cases "k = key")
    case True
    have "mget (rl_buckets ?rl) key = Some (b\<lparr>bk_count := bk_count b + 1\<rparr>)"
      using allow_bucket [OF Cons.prems(1), of now k key] Cons.prems(3) old True by simp
    from Cons.IH [OF made later this] Cons.prems(4)
    have "let_in key ?rl es \<le> rl_limit rl - (bk_count b + 1)" by simp
    then show ?thesis using allow_ok [of rl now k] Cons.prems(3) old True by (simp add: e let_in_Cons) linarith
  next
    case False
    then have "mget (rl_buckets ?rl) key = Some b"
      using allow_bucket [OF Cons.prems(1), of now k key] Cons.prems(3) by simp
    from Cons.IH [OF made later this Cons.prems(4)] False show ?thesis by (simp add: e let_in_Cons)
  qed
qed simp

lemma let_in_fresh:
  assumes "rl_buckets rl \<noteq> None" and "\<forall>(now, k) \<in> set es. now \<le> hi" and "hi \<le> now + rl_window rl" and "1 \<le> rl_limit rl"
    and "case mget (rl_buckets rl) key of None \<Rightarrow> True | Some b \<Rightarrow> bk_reset b < now"
  shows "let_in key rl ((now, key) # es) \<le> rl_limit rl"
proof -
  let ?rl = "fst (allow rl now key)"
  have "rl_buckets ?rl \<noteq> None" using assms(1) allow_made by blast
  moreover have "mget (rl_buckets ?rl) key = Some \<lparr>bk_count = 1, bk_reset = now + rl_window rl\<rparr>"
    using allow_bucket [OF assms(1), of now key key] assms(5) by (simp split: option.splits)
  ultimately have "let_in key ?rl es \<le> rl_limit ?rl - 1" using let_in_bucket [OF _ assms(2)] assms(3) by fastforce
  then show ?thesis using assms(4) by (simp add: let_in_Cons) linarith
qed

lemma let_in_bound:
  assumes "rl_buckets rl \<noteq> None" and "\<forall>(now, k) \<in> set es. t \<le> now \<and> now \<le> t + rl_window rl" and "1 \<le> rl_limit rl"
  shows "let_in key rl es \<le> rl_limit rl + (case mget (rl_buckets rl) key of None \<Rightarrow> 0 | Some b \<Rightarrow> rl_limit rl - bk_count b)"
  using assms
proof (induction es arbitrary: rl)
  case (Cons e es)
  obtain now k where e: "e = (now, k)" by fastforce
  let ?rl = "fst (allow rl now k)"
  have made: "rl_buckets ?rl \<noteq> None" using Cons.prems(1) allow_made by blast
  have IH: "let_in key ?rl es \<le> rl_limit rl + (case mget (rl_buckets ?rl) key of None \<Rightarrow> 0 | Some b \<Rightarrow> rl_limit rl - bk_count b)"
    using Cons.IH [OF made] Cons.prems(2,3) by (simp cong: option.case_cong)
  show ?case
  proof (cases "k = key")
    case False
    then show ?thesis using IH allow_bucket [OF Cons.prems(1), of now k key] by (simp add: e let_in_Cons)
  next
    case True
    show ?thesis
    proof (cases "case mget (rl_buckets rl) key of None \<Rightarrow> True | Some b \<Rightarrow> bk_reset b < now")
      case fresh: True
      have "\<forall>(now, k) \<in> set es. now \<le> t + rl_window rl" "t + rl_window rl \<le> now + rl_window rl" using Cons.prems(2) e by auto
      from let_in_fresh [OF Cons.prems(1) this Cons.prems(3) fresh] True show ?thesis by (simp add: e)
    next
      case False
      then obtain b where b: "mget (rl_buckets rl) key = Some b" "\<not> bk_reset b < now" by (auto split: option.splits)
      then have "mget (rl_buckets ?rl) key = Some (b\<lparr>bk_count := bk_count b + 1\<rparr>)"
        using allow_bucket [OF Cons.prems(1), of now k key] True by simp
      with IH b True allow_ok [of rl now k] show ?thesis by (simp add: e let_in_Cons) linarith
    qed
  qed
qed simp

text \<open>
  C29: in any stretch of time no longer than the window, one source gets at most twice the limit
  through, whatever the limiter had counted before and whatever other sources do. That is what a
  window that is fixed rather than sliding allows, and it is no more.
\<close>

theorem limiter_bound:
  assumes "rl_buckets rl \<noteq> None" and "1 \<le> rl_limit rl" and "\<forall>(now, k) \<in> set es. t \<le> now \<and> now \<le> t + rl_window rl"
  shows "let_in key rl es \<le> 2 * rl_limit rl"
proof -
  have "(case mget (rl_buckets rl) key of None \<Rightarrow> 0 | Some b \<Rightarrow> rl_limit rl - bk_count b) \<le> rl_limit rl"
    by (simp split: option.split)
  with let_in_bound [OF assms(1,3,2), of key] show ?thesis by linarith
qed

theorem limiter_bound_witness:
  "let_in ''a'' (newRateLimiter 1 10) [(1, ''a''), (2, ''b''), (11, ''a'')] \<le> 2"
  using limiter_bound [of "newRateLimiter 1 10" "[(1, ''a''), (2, ''b''), (11, ''a'')]" 1 "''a''"]
  by (simp add: newRateLimiter_def)

section \<open>No source is locked out\<close>

lemma attempts_reset:
  assumes "rl_buckets rl \<noteq> None" and "\<forall>(now, k) \<in> set es. now \<le> t"
    and "\<forall>k b. mget (rl_buckets rl) k = Some b \<longrightarrow> bk_reset b \<le> t + rl_window rl"
  shows "\<forall>k b. mget (rl_buckets (fst (attempts rl es))) k = Some b \<longrightarrow> bk_reset b \<le> t + rl_window rl"
  using assms
proof (induction es arbitrary: rl)
  case (Cons e es)
  obtain now key where e: "e = (now, key)" by fastforce
  let ?rl = "fst (allow rl now key)"
  have "bk_reset b \<le> t + rl_window rl" if "mget (rl_buckets ?rl) k = Some b" for k b
    using that Cons.prems(2,3) allow_bucket [OF Cons.prems(1), of now key k] by (auto simp: e split: if_splits option.splits)
  then have "\<forall>k b. mget (rl_buckets (fst (attempts ?rl es))) k = Some b \<longrightarrow> bk_reset b \<le> t + rl_window rl"
    using Cons.IH [of ?rl] allow_made [OF Cons.prems(1)] Cons.prems(2) by simp
  then show ?case by (simp add: e split_beta)
qed simp

text \<open>
  Nobody is locked out: however many attempts a source and others made up to some moment, once
  the window has passed since then the next attempt is let through.
\<close>

theorem limiter_recovers:
  assumes "\<forall>(now, k) \<in> set es. now \<le> t" and "t + window < later"
  shows "snd (allow (fst (attempts (newRateLimiter limit window) es)) later key)"
proof -
  have w: "rl_window (newRateLimiter limit window) = window" by (simp add: newRateLimiter_def)
  have "bk_reset b < later" if "mget (rl_buckets (fst (attempts (newRateLimiter limit window) es))) key = Some b" for b
    using attempts_reset [of "newRateLimiter limit window" es t] that assms by (fastforce simp: newRateLimiter_def mget_def)
  then show ?thesis by (simp add: allow_ok split: option.split)
qed

theorem limiter_recovers_witness:
  "snd (allow (fst (attempts (newRateLimiter 1 10) [(1, ''a''), (2, ''a''), (3, ''a'')])) 14 ''a'')"
  by (rule limiter_recovers [of _ 3]) simp_all

end
