(* ===== verification/Discover.thy ===== *)
theory Discover
  imports Protocol
begin

text \<open>
  What a connector finds out about where it runs, \<open>src/internal/connector/discover.go\<close> and the size of
  the link in \<open>nebconfig.go\<close>: the prefixes it is attached to, the platform it runs on, the zone and the
  hints it announces, and the MTU of its stack. The machine (its environment, its interfaces, two files)
  is the record \<open>machine\<close>.
\<close>

section \<open>The machine\<close>

text \<open>An address of an interface, with the two numbers \<open>Mask.Size\<close> gives, or something that is no network.\<close>

datatype ifaddr = IPNet "8 word list" nat nat | OtherAddr

record iface =
  if_Name :: string
  if_Up :: bool
  if_Loopback :: bool
  if_MTU :: int
  if_Addrs :: "ifaddr list option"

record machine =
  mc_Getenv :: "string \<Rightarrow> string"
  mc_Hostname :: "string option"
  mc_Dockerenv :: bool
  mc_NetRoute :: "string option"
  mc_Interfaces :: "iface list option"
  mc_InterfaceByName :: "string \<Rightarrow> iface option"

fun IsLoopback :: "addr \<Rightarrow> bool" where
  "IsLoopback (Addr4 w) = (drop_bit 24 w = 127)"
| "IsLoopback (Addr6 w) = (w = 1)"
| "IsLoopback AddrNone = False"

fun IsLinkLocalUnicast :: "addr \<Rightarrow> bool" where
  "IsLinkLocalUnicast (Addr4 w) = (drop_bit 16 w = 0xA9FE)"
| "IsLinkLocalUnicast (Addr6 w) = (drop_bit 118 w = 0x3FA)"
| "IsLinkLocalUnicast AddrNone = False"

fun IsUnspecified :: "addr \<Rightarrow> bool" where
  "IsUnspecified (Addr4 w) = (w = 0)"
| "IsUnspecified (Addr6 w) = (w = 0)"
| "IsUnspecified AddrNone = False"

section \<open>Platforms\<close>

record platform =
  pf_name :: string
  pf_dropIPv4 :: bool
  pf_detect :: string
  pf_domainVar :: string
  pf_domainZone :: string
  pf_fields :: "(string \<times> string) list"

definition simple_platform :: "string \<Rightarrow> string \<Rightarrow> (string \<times> string) list \<Rightarrow> platform" where
  "simple_platform name detect vars =
     \<lparr>pf_name = name, pf_dropIPv4 = False, pf_detect = detect, pf_domainVar = [], pf_domainZone = [], pf_fields = vars\<rparr>"

definition platforms :: "platform list" where
  "platforms =
     [\<lparr>pf_name = ''railway'', pf_dropIPv4 = True, pf_detect = ''RAILWAY_ENVIRONMENT_NAME'',
       pf_domainVar = ''RAILWAY_PRIVATE_DOMAIN'', pf_domainZone = ''railway.internal'',
       pf_fields = [(''project'', ''RAILWAY_PROJECT_NAME''), (''environment'', ''RAILWAY_ENVIRONMENT_NAME''),
         (''service'', ''RAILWAY_SERVICE_NAME''), (''region'', ''RAILWAY_REPLICA_REGION'')]\<rparr>,
      simple_platform ''fly'' ''FLY_APP_NAME'' [(''service'', ''FLY_APP_NAME''), (''region'', ''FLY_REGION'')],
      simple_platform ''render'' ''RENDER_SERVICE_NAME''
        [(''service'', ''RENDER_SERVICE_NAME''), (''environment'', ''RENDER_GIT_BRANCH'')],
      simple_platform ''koyeb'' ''KOYEB_SERVICE_NAME''
        [(''project'', ''KOYEB_APP_NAME''), (''service'', ''KOYEB_SERVICE_NAME''), (''region'', ''KOYEB_REGION'')],
      simple_platform ''cloud-run'' ''K_SERVICE'' [(''service'', ''K_SERVICE''), (''environment'', ''K_REVISION'')],
      simple_platform ''cloudflare-pages'' ''CF_PAGES_BRANCH''
        [(''project'', ''CF_PAGES_URL''), (''environment'', ''CF_PAGES_BRANCH'')],
      simple_platform ''kubernetes'' ''KUBERNETES_SERVICE_HOST''
        [(''project'', ''POD_NAMESPACE''), (''service'', ''POD_NAME'')]]"

definition detectPlatform :: "machine \<Rightarrow> platform option" where
  "detectPlatform m = find (\<lambda>p. mc_Getenv m (pf_detect p) \<noteq> []) platforms"

definition keepPlatformIPv4 :: "machine \<Rightarrow> bool" where
  "keepPlatformIPv4 m \<longleftrightarrow> mc_Getenv m ''ROBINET_KEEP_PLATFORM_IPV4'' \<notin> {[], ''0'', ''false'', ''no'', ''off''}"

definition put_hint :: "machine \<Rightarrow> string \<times> string \<Rightarrow> (string \<times> string) list \<Rightarrow> (string \<times> string) list" where
  "put_hint m f hints = (if mc_Getenv m (snd f) \<noteq> [] then AList.update (fst f) (mc_Getenv m (snd f)) hints else hints)"

definition DiscoverHints :: "machine \<Rightarrow> (string, string) gomap" where
  "DiscoverHints m =
     (let hints = (case mc_Hostname m of Some host \<Rightarrow> if host \<noteq> [] then [(''hostname'', host)] else [] | None \<Rightarrow> [])
      in case detectPlatform m of
           Some p \<Rightarrow> Some (fold (put_hint m) (pf_fields p) (AList.update ''platform'' (pf_name p) hints))
         | None \<Rightarrow> Some (if mc_Dockerenv m then AList.update ''platform'' ''container'' hints else hints))"

definition DiscoverDomain :: "unicode \<Rightarrow> machine \<Rightarrow> string" where
  "DiscoverDomain U m =
     (case detectPlatform m of
        None \<Rightarrow> []
      | Some p \<Rightarrow>
          if pf_domainVar p = [] then []
          else
            (let v = ToLower U (TrimSuffix (TrimSpace U (mc_Getenv m (pf_domainVar p))) [dot]) in
             if v \<noteq> pf_domainZone p \<and> \<not> HasSuffix v (dot # pf_domainZone p) then [] else pf_domainZone p))"

definition announcedDomain :: "bool \<Rightarrow> string \<Rightarrow> string \<Rightarrow> string" where
  "announcedDomain dns given detected =
     (if \<not> dns then [] else if given \<noteq> [] then given else if detected \<noteq> [] then detected else RootDomain)"

section \<open>Attached networks\<close>

definition attached_prefix :: "ifaddr \<Rightarrow> prefix option" where
  "attached_prefix a =
     (case a of
        OtherAddr \<Rightarrow> None
      | IPNet bytes ones bits \<Rightarrow>
          (case AddrFromSlice bytes of
             None \<Rightarrow> None
           | Some addr \<Rightarrow>
               (let addr = Unmap addr in
                if IsLoopback addr \<or> IsLinkLocalUnicast addr \<or> IsUnspecified addr then None
                else if ones = 0 \<or> ones = bits then None
                else Some (Masked (PrefixFrom addr (int ones))))))"

definition add_new :: "'a \<Rightarrow> 'a list \<Rightarrow> 'a list" where
  "add_new p out = (if p \<in> set out then out else out @ [p])"

definition attach :: "ifaddr \<Rightarrow> prefix list \<Rightarrow> prefix list" where
  "attach a out = (case attached_prefix a of None \<Rightarrow> out | Some p \<Rightarrow> add_new p out)"

definition attach_iface :: "iface \<Rightarrow> prefix list \<Rightarrow> prefix list" where
  "attach_iface i out =
     (if \<not> if_Up i \<or> if_Loopback i then out
      else (case if_Addrs i of None \<Rightarrow> out | Some addrs \<Rightarrow> fold attach addrs out))"

definition attachedPrefixes :: "machine \<Rightarrow> prefix list" where
  "attachedPrefixes m = (case mc_Interfaces m of None \<Rightarrow> [] | Some ifaces \<Rightarrow> fold attach_iface ifaces [])"

definition platformFilter :: "machine \<Rightarrow> prefix list \<Rightarrow> prefix list" where
  "platformFilter m routes =
     (case detectPlatform m of
        None \<Rightarrow> routes
      | Some p \<Rightarrow>
          if \<not> pf_dropIPv4 p \<or> keepPlatformIPv4 m then routes
          else
            (let kept = filter (\<lambda>r. \<not> Is4 (paddr r)) routes in
             if kept = [] then routes else kept))"

definition DiscoverRoutes :: "machine \<Rightarrow> prefix list" where
  "DiscoverRoutes m = platformFilter m (attachedPrefixes m)"

section \<open>The size of the link\<close>

definition nebulaOverhead :: "32 word" where "nebulaOverhead = 60"

definition minimumMTU :: "32 word" where "minimumMTU = 1280"

definition default_line :: "unicode \<Rightarrow> string \<Rightarrow> string option" where
  "default_line U line =
     (case Fields U line of
        n # dest # _ # _ \<Rightarrow> if dest = ''00000000'' then Some n else None
      | _ \<Rightarrow> None)"

fun first_some :: "('a \<Rightarrow> 'b option) \<Rightarrow> 'a list \<Rightarrow> 'b option" where
  "first_some f [] = None"
| "first_some f (x # xs) = (case f x of Some y \<Rightarrow> Some y | None \<Rightarrow> first_some f xs)"

definition defaultRouteInterface :: "unicode \<Rightarrow> machine \<Rightarrow> string" where
  "defaultRouteInterface U m =
     (case mc_NetRoute m of
        None \<Rightarrow> []
      | Some raw \<Rightarrow> the_default [] (first_some (default_line U) (tl (split_on nl raw))))"

definition uint32 :: "int \<Rightarrow> 32 word" where "uint32 n = word_of_int n"

definition widest :: "iface \<Rightarrow> 32 word \<Rightarrow> 32 word" where
  "widest i best =
     (if \<not> if_Up i \<or> if_Loopback i \<or> if_MTU i \<le> 0 then best
      else if best < uint32 (if_MTU i) then uint32 (if_MTU i) else best)"

definition widestMTU :: "machine \<Rightarrow> 32 word" where
  "widestMTU m =
     (case mc_Interfaces m of
        None \<Rightarrow> 1500
      | Some ifaces \<Rightarrow> (let best = fold widest ifaces 0 in if best = 0 then 1500 else best))"

definition tunnelLinkMTU :: "unicode \<Rightarrow> machine \<Rightarrow> 32 word" where
  "tunnelLinkMTU U m =
     (let name = defaultRouteInterface U m in
      case (if name \<noteq> [] then mc_InterfaceByName m name else None) of
        Some i \<Rightarrow> if 0 < if_MTU i then uint32 (if_MTU i) else widestMTU m
      | None \<Rightarrow> widestMTU m)"

definition overlayMTU :: "unicode \<Rightarrow> machine \<Rightarrow> 32 word \<Rightarrow> 32 word \<Rightarrow> 32 word" where
  "overlayMTU U m hubMTU override =
     (if 0 < override then override
      else
        (let link = tunnelLinkMTU U m;
             link = (if 0 < hubMTU \<and> hubMTU < link then hubMTU else link)
         in if nebulaOverhead + minimumMTU < link then link - nebulaOverhead else minimumMTU))"

text \<open>The two functions the source keeps without calling them.\<close>

definition carriesAny :: "iface \<Rightarrow> prefix list \<Rightarrow> bool" where
  "carriesAny i routes =
     (case if_Addrs i of
        None \<Rightarrow> False
      | Some addrs \<Rightarrow>
          list_ex (\<lambda>a. case a of
              OtherAddr \<Rightarrow> False
            | IPNet bytes _ _ \<Rightarrow>
                (case AddrFromSlice bytes of
                   None \<Rightarrow> False
                 | Some addr \<Rightarrow> list_ex (\<lambda>r. Contains r (Unmap addr)) routes)) addrs)"

definition narrowest :: "prefix list \<Rightarrow> iface \<Rightarrow> 32 word \<Rightarrow> 32 word" where
  "narrowest routes i best =
     (if \<not> if_Up i \<or> if_Loopback i \<or> if_MTU i \<le> 0 then best
      else if routes \<noteq> [] \<and> \<not> carriesAny i routes then best
      else if best = 0 \<or> uint32 (if_MTU i) < best then uint32 (if_MTU i) else best)"

definition localLinkMTU :: "machine \<Rightarrow> prefix list \<Rightarrow> 32 word" where
  "localLinkMTU m routes =
     (case mc_Interfaces m of
        None \<Rightarrow> 1500
      | Some ifaces \<Rightarrow> (let best = fold (narrowest routes) ifaces 0 in if best = 0 then 1500 else best))"

section \<open>Properties\<close>

text \<open>
  Unless it is set by hand, the MTU of the stack is what is left of the path after the overhead, where
  the path is the smaller of the link that carries the default route and what the hub says; it is never
  below what IPv6 requires. A value set by hand is used as it is.
\<close>

theorem overlayMTU_fits_path:
  "overlayMTU U m hubMTU override =
     (if override \<noteq> 0 then override
      else word_of_int (max 1280 (uint (if hubMTU = 0 then tunnelLinkMTU U m else min hubMTU (tunnelLinkMTU U m)) - 60)))
   \<and> (override = 0 \<longrightarrow> 1280 \<le> overlayMTU U m hubMTU override)
   \<and> (override = 0 \<longrightarrow> 1340 \<le> tunnelLinkMTU U m \<longrightarrow> hubMTU = 0 \<or> 1340 \<le> hubMTU \<longrightarrow>
        overlayMTU U m hubMTU override + nebulaOverhead \<le> tunnelLinkMTU U m
        \<and> (hubMTU \<noteq> 0 \<longrightarrow> overlayMTU U m hubMTU override + nebulaOverhead \<le> hubMTU))"
proof -
  define path where "path = (if hubMTU = 0 then tunnelLinkMTU U m else min hubMTU (tunnelLinkMTU U m))"
  have path: "(if 0 < hubMTU \<and> hubMTU < tunnelLinkMTU U m then hubMTU else tunnelLinkMTU U m) = path"
    by (auto simp: path_def word_gt_0 min_def)
  define v where "v = (if 1340 < path then path - 60 else 1280)"
  have o: "overlayMTU U m hubMTU override = (if override \<noteq> 0 then override else v)"
    unfolding overlayMTU_def Let_def path by (simp add: nebulaOverhead_def minimumMTU_def word_gt_0 v_def)
  have sub: "uint (path - 60) = uint path - 60" if "1340 < path"
    using that by (simp add: uint_sub_if' word_less_def)
  have eq: "word_of_int (max 1280 (uint path - 60)) = v"
    by (auto simp: v_def word_less_def max_def sub [unfolded word_less_def] simp flip: word_of_int_uint)
  have low: "1280 \<le> v" using sub by (auto simp: v_def word_le_def word_less_def)
  have fits: "v + 60 \<le> path" if "1340 \<le> path"
    using that by (auto simp: v_def word_le_def word_less_def uint_sub_if' dest!: order_antisym)
  have "path \<le> tunnelLinkMTU U m" "hubMTU \<noteq> 0 \<Longrightarrow> path \<le> hubMTU" by (simp_all add: path_def)
  moreover have "1340 \<le> tunnelLinkMTU U m \<Longrightarrow> hubMTU = 0 \<or> 1340 \<le> hubMTU \<Longrightarrow> 1340 \<le> path" by (auto simp: path_def)
  ultimately show ?thesis unfolding o path_def [symmetric] eq nebulaOverhead_def
    using low fits by (auto intro: order_trans)
qed

theorem overlayMTU_fits_path_witness:
  "overlayMTU no_unicode \<lparr>mc_Getenv = (\<lambda>_. []), mc_Hostname = None, mc_Dockerenv = True, mc_NetRoute = None, mc_Interfaces = None,
     mc_InterfaceByName = (\<lambda>_. None)\<rparr> 1400 0 + nebulaOverhead \<le> 1400"
proof -
  let ?m = "\<lparr>mc_Getenv = (\<lambda>_. []), mc_Hostname = None, mc_Dockerenv = True, mc_NetRoute = None, mc_Interfaces = None,
     mc_InterfaceByName = (\<lambda>_. None)\<rparr>"
  have "tunnelLinkMTU no_unicode ?m = 1500" by (simp add: tunnelLinkMTU_def defaultRouteInterface_def widestMTU_def)
  then show ?thesis using overlayMTU_fits_path [of no_unicode ?m 1400 0] by (simp add: nebulaOverhead_def)
qed

lemma in_fold:
  "(\<And>x out. p \<in> set (f x out) \<longleftrightarrow> p \<in> set out \<or> Q x) \<Longrightarrow> p \<in> set (fold f xs out) \<longleftrightarrow> p \<in> set out \<or> (\<exists>x \<in> set xs. Q x)"
  by (induction xs arbitrary: out) auto

lemma in_attach: "p \<in> set (attach a out) \<longleftrightarrow> p \<in> set out \<or> attached_prefix a = Some p"
  by (auto simp: attach_def add_new_def split: option.splits)

lemma in_attach_iface:
  "p \<in> set (attach_iface i out) \<longleftrightarrow> p \<in> set out
     \<or> (if_Up i \<and> \<not> if_Loopback i \<and> (\<exists>addrs. if_Addrs i = Some addrs \<and> (\<exists>a \<in> set addrs. attached_prefix a = Some p)))"
  by (auto simp: attach_iface_def in_fold [OF in_attach] split: option.splits)

lemma set_attached:
  "p \<in> set (attachedPrefixes m) \<longleftrightarrow>
     (\<exists>ifaces. mc_Interfaces m = Some ifaces \<and> (\<exists>i \<in> set ifaces. if_Up i \<and> \<not> if_Loopback i
        \<and> (\<exists>addrs. if_Addrs i = Some addrs \<and> (\<exists>a \<in> set addrs. attached_prefix a = Some p))))"
  by (cases "mc_Interfaces m") (simp_all add: attachedPrefixes_def in_fold [OF in_attach_iface])

lemma distinct_fold: "(\<And>x out. distinct out \<Longrightarrow> distinct (f x out)) \<Longrightarrow> distinct out \<Longrightarrow> distinct (fold f xs out)"
  by (induction xs arbitrary: out) auto

lemma distinct_attach: "distinct out \<Longrightarrow> distinct (attach a out)"
  by (simp add: attach_def add_new_def split: option.splits)

lemma distinct_attached: "distinct (attachedPrefixes m)"
  unfolding attachedPrefixes_def
  by (auto simp: attach_iface_def split: option.splits intro!: distinct_fold distinct_attach)

lemma platformFilter_part: "set (platformFilter m routes) \<subseteq> set routes \<and> (platformFilter m routes = [] \<longleftrightarrow> routes = [])"
  by (auto simp: platformFilter_def Let_def split: option.splits)

lemma detectPlatform_listed: "detectPlatform m = Some p \<Longrightarrow> p \<in> set platforms \<and> mc_Getenv m (pf_detect p) \<noteq> []"
  unfolding detectPlatform_def by (drule find_SomeD) auto

lemma DiscoverDomain_zone: "DiscoverDomain U m \<in> {[], ''railway.internal''}"
proof (cases "detectPlatform m")
  case (Some p)
  then have "pf_domainVar p = [] \<or> pf_domainZone p = ''railway.internal''"
    using detectPlatform_listed [OF Some] by (auto simp: platforms_def simple_platform_def)
  with Some show ?thesis by (auto simp: DiscoverDomain_def Let_def)
qed (simp add: DiscoverDomain_def)

end
