(* ===== verification/Dnsrouter.thy ===== *)
theory Dnsrouter
  imports Views
begin

text \<open>
  The DNS router of a tenant's daemon, \<open>src/internal/tenant/dnsrouter.go\<close>: the table of name spaces
  that is built from the hub's route table, the match by the longest suffix, the rewriting of names
  on the way out and back, the answer to one query over UDP and over TCP, and the aliases.

  The packages \<open>golang.org/x/net/dns/dnsmessage\<close> and \<open>net\<close> are parameters: \<open>dnsmessage\<close> holds the
  calls of the parser and of the builder, each a function of the bytes (or of the calls made before
  it), and \<open>network\<close> holds one exchange with a connector. Of a DNS header, a question and a resource
  the model has the fields that the router reads or writes; \<open>hd_Rest\<close> and \<open>rh_Rest\<close> are the others.
\<close>

section \<open>Routes\<close>

definition RouterPort :: "16 word" where "RouterPort = 5354"

definition Suffix :: string where "Suffix = ''robinet''"

record routerRoute =
  rr_Virtual :: string
  rr_Real :: string
  rr_Via :: addr
  rr_IPv4 :: bool
  rr_IPv6 :: bool

record routerTable =
  rtb_routes :: "routerRoute list"

definition under :: "string \<Rightarrow> routerRoute \<Rightarrow> bool" where
  "under name r \<longleftrightarrow> name = rr_Virtual r \<or> HasSuffix name (dot # rr_Virtual r)"

fun match_loop :: "string \<Rightarrow> routerRoute option \<Rightarrow> routerRoute list \<Rightarrow> routerRoute option" where
  "match_loop name best [] = best"
| "match_loop name best (r # rs) =
     (if \<not> under name r then match_loop name best rs
      else if (case best of None \<Rightarrow> True | Some b \<Rightarrow> length (rr_Virtual r) > length (rr_Virtual b))
      then match_loop name (Some r) rs
      else match_loop name best rs)"

definition table_match :: "unicode \<Rightarrow> routerTable \<Rightarrow> string \<Rightarrow> routerRoute option" where
  "table_match U t name = match_loop (ToLower U (TrimSuffix name [dot])) None (rtb_routes t)"

definition bare :: "routerRoute \<Rightarrow> bool" where
  "bare r \<longleftrightarrow> rr_Real r = RootDomain"

definition rewrite :: "unicode \<Rightarrow> routerRoute \<Rightarrow> string \<Rightarrow> string" where
  "rewrite U r name =
     (let trimmed = TrimSuffix (ToLower U name) [dot] in
      if trimmed = rr_Virtual r then RootDomain
      else (let asked = TrimSuffix trimmed (dot # rr_Virtual r) in
        if bare r then asked @ [dot] else asked @ [dot] @ rr_Real r @ [dot]))"

definition route_restore :: "unicode \<Rightarrow> routerRoute \<Rightarrow> string \<Rightarrow> string" where
  "route_restore U r name =
     (let trimmed = TrimSuffix (ToLower U name) [dot] in
      if bare r then
        (if trimmed \<noteq> [] \<and> \<not> contains_str trimmed [dot] then trimmed @ [dot] @ rr_Virtual r @ [dot] else name)
      else if trimmed = rr_Real r then rr_Virtual r @ [dot]
      else if HasSuffix trimmed (dot # rr_Real r)
        then TrimSuffix trimmed (dot # rr_Real r) @ [dot] @ rr_Virtual r @ [dot]
      else name)"

section \<open>The table\<close>

definition carry :: "Route \<Rightarrow> (addr \<Rightarrow> bool \<times> bool) \<Rightarrow> addr \<Rightarrow> bool \<times> bool" where
  "carry route carries =
     (let c = carries (rt_Via route) in
      carries(rt_Via route := (if Is4 (paddr (rt_Prefix route)) then (True, snd c) else (fst c, True))))"

definition carries :: "RouteTable \<Rightarrow> addr \<Rightarrow> bool \<times> bool" where
  "carries table = fold carry (rtab_Routes table) (\<lambda>_. (False, False))"

definition replace_char :: "char \<Rightarrow> char \<Rightarrow> string \<Rightarrow> string" where
  "replace_char c d = map (\<lambda>x. if x = c then d else x)"

definition connector_label :: "Resolver \<Rightarrow> string" where
  "connector_label r =
     (if rsv_Connector r = [] then replace_char CHR '':'' hyphen (replace_char dot hyphen (AddrString (rsv_Via r)))
      else rsv_Connector r)"

definition resolver_route :: "unicode \<Rightarrow> RouteTable \<Rightarrow> string \<Rightarrow> Resolver \<Rightarrow> routerRoute" where
  "resolver_route U table inst r =
     (let real = ToLower U (TrimSpace U (rsv_Domain r)); c = carries table (rsv_Via r) in
      \<lparr>rr_Virtual = ToLower U (connector_label r @ [dot] @ inst @ [dot] @ Suffix),
       rr_Real = (if real \<noteq> RootDomain then TrimSuffix real [dot] else real),
       rr_Via = rsv_Via r, rr_IPv4 = fst c, rr_IPv6 = snd c\<rparr>)"

definition lighthouse_route :: "unicode \<Rightarrow> addr \<Rightarrow> string \<Rightarrow> routerRoute" where
  "lighthouse_route U lh inst =
     (let name = ToLower U (inst @ [dot] @ CertSuffix) in
      \<lparr>rr_Virtual = name, rr_Real = name, rr_Via = lh, rr_IPv4 = True, rr_IPv6 = True\<rparr>)"

definition routerTableFor :: "unicode \<Rightarrow> RouteTable \<Rightarrow> string \<Rightarrow> routerTable" where
  "routerTableFor U table inst =
     \<lparr>rtb_routes = map (resolver_route U table inst) (filter (\<lambda>r. IsValid (rsv_Via r)) (rtab_Resolvers table))
        @ (let lh = lh_OverlayAddress (rtab_Lighthouse table) in
           if IsValid lh then [lighthouse_route U lh inst] else [])\<rparr>"

fun domains_loop :: "string list \<Rightarrow> routerRoute list \<Rightarrow> string list" where
  "domains_loop seen [] = []"
| "domains_loop seen (r # rs) =
     (if rr_Virtual r \<in> set seen then domains_loop seen rs
      else rr_Virtual r # domains_loop (rr_Virtual r # seen) rs)"

definition Domains :: "routerTable \<Rightarrow> string list" where
  "Domains t = domains_loop [] (rtb_routes t)"

fun withAliases :: "unicode \<Rightarrow> routerTable \<Rightarrow> (string \<times> string) list \<Rightarrow> routerTable" where
  "withAliases U t [] = t"
| "withAliases U t ((alias, canonical) # rest) =
     (case table_match U t canonical of
        None \<Rightarrow> withAliases U t rest
      | Some route \<Rightarrow> withAliases U
          (t\<lparr>rtb_routes := rtb_routes t @ [route\<lparr>rr_Virtual := ToLower U (TrimSuffix alias [dot])\<rparr>]\<rparr>) rest)"

section \<open>Messages\<close>

datatype dns_err = SectionDone | DnsFailed string | BadLength nat | ShortRead | NetFailed string

record dnsHeader =
  hd_Response :: bool
  hd_Authoritative :: bool
  hd_Truncated :: bool
  hd_RCode :: "16 word"
  hd_Rest :: string

record Question =
  qu_Name :: string
  qu_Type :: "16 word"
  qu_Class :: "16 word"

record ResourceHeader =
  rh_Name :: string
  rh_Rest :: string

datatype ResourceBody = AResource string | AAAAResource string | CNAMEResource string | OtherResource

record Resource =
  rs_Header :: ResourceHeader
  rs_Body :: ResourceBody

datatype builder_call =
    StartQuestions
  | PutQuestion Question
  | StartAnswers
  | PutA ResourceHeader string
  | PutAAAA ResourceHeader string
  | PutCNAME ResourceHeader string

record dnsmessage =
  dm_Start :: "string \<Rightarrow> dns_err + dnsHeader"
  dm_Question :: "string \<Rightarrow> dns_err + Question"
  dm_AllQuestions :: "string \<Rightarrow> dns_err option"
  dm_AllAnswers :: "string \<Rightarrow> Resource list \<times> dns_err option"
  dm_SkipAllQuestions :: "string \<Rightarrow> dns_err option"
  dm_SkipAllAnswers :: "string \<Rightarrow> dns_err option"
  dm_SkipAllAuthorities :: "string \<Rightarrow> dns_err option"
  dm_AdditionalHeader :: "string \<Rightarrow> nat \<Rightarrow> dns_err + 16 word \<times> 16 word"
  dm_SkipAdditional :: "string \<Rightarrow> nat \<Rightarrow> dns_err option"
  dm_NewName :: "string \<Rightarrow> dns_err + string"
  dm_Put :: "dnsHeader \<Rightarrow> bool \<Rightarrow> builder_call list \<Rightarrow> builder_call \<Rightarrow> dns_err option"
  dm_Finish :: "dnsHeader \<Rightarrow> bool \<Rightarrow> builder_call list \<Rightarrow> dns_err + string"

definition TypeA :: "16 word" where "TypeA = 1"
definition TypeAAAA :: "16 word" where "TypeAAAA = 28"
definition TypeOPT :: "16 word" where "TypeOPT = 41"
definition RCodeSuccess :: "16 word" where "RCodeSuccess = 0"
definition RCodeNameError :: "16 word" where "RCodeNameError = 3"

text \<open>
  The calls made on one builder, in order; the first that fails is the result.
\<close>

fun put_all :: "dnsmessage \<Rightarrow> dnsHeader \<Rightarrow> bool \<Rightarrow> builder_call list \<Rightarrow> builder_call list \<Rightarrow> dns_err + string" where
  "put_all D h compress made [] = dm_Finish D h compress made"
| "put_all D h compress made (c # cs) =
     (case dm_Put D h compress made c of Some e \<Rightarrow> Inl e | None \<Rightarrow> put_all D h compress (made @ [c]) cs)"

definition rebuild :: "dnsmessage \<Rightarrow> dnsHeader \<Rightarrow> Question \<Rightarrow> string \<Rightarrow> dns_err + string" where
  "rebuild D header question name =
     (case dm_NewName D name of
        Inl e \<Rightarrow> Inl e
      | Inr renamed \<Rightarrow> put_all D header True []
          [StartQuestions, PutQuestion \<lparr>qu_Name = renamed, qu_Type = qu_Type question, qu_Class = qu_Class question\<rparr>])"

definition restored_record :: "dnsmessage \<Rightarrow> unicode \<Rightarrow> routerRoute \<Rightarrow> Resource \<Rightarrow> builder_call option" where
  "restored_record D U route a =
     (case dm_NewName D (route_restore U route (rh_Name (rs_Header a))) of
        Inl _ \<Rightarrow> None
      | Inr name \<Rightarrow>
          (let h = (rs_Header a)\<lparr>rh_Name := name\<rparr> in
           case rs_Body a of
             AResource body \<Rightarrow> if rr_IPv4 route then Some (PutA h body) else None
           | AAAAResource body \<Rightarrow> if rr_IPv6 route then Some (PutAAAA h body) else None
           | CNAMEResource cname \<Rightarrow>
               (case dm_NewName D (route_restore U route cname) of
                  Inl _ \<Rightarrow> None
                | Inr target \<Rightarrow> Some (PutCNAME h target))
           | OtherResource \<Rightarrow> None))"

definition restore :: "dnsmessage \<Rightarrow> unicode \<Rightarrow> string \<Rightarrow> Question \<Rightarrow> routerRoute \<Rightarrow> dns_err + string" where
  "restore D U reply question route =
     (case dm_Start D reply of
        Inl e \<Rightarrow> Inl e
      | Inr header \<Rightarrow>
          (case dm_AllQuestions D reply of
             Some e \<Rightarrow> Inl e
           | None \<Rightarrow>
               (case dm_AllAnswers D reply of (answers, err) \<Rightarrow>
                  (case err of
                     Some e \<Rightarrow> if e \<noteq> SectionDone then Inl e else
                       put_all D (header\<lparr>hd_Response := True\<rparr>) True []
                         ([StartQuestions, PutQuestion question, StartAnswers]
                            @ List.map_filter (restored_record D U route) answers)
                   | None \<Rightarrow>
                       put_all D (header\<lparr>hd_Response := True\<rparr>) True []
                         ([StartQuestions, PutQuestion question, StartAnswers]
                            @ List.map_filter (restored_record D U route) answers)))))"

definition refuse :: "dnsmessage \<Rightarrow> dnsHeader \<Rightarrow> Question \<Rightarrow> 16 word \<Rightarrow> dns_err + string" where
  "refuse D header question code =
     put_all D (header\<lparr>hd_Response := True, hd_RCode := code, hd_Authoritative := True\<rparr>) False []
       [StartQuestions, PutQuestion question]"

definition truncate_answer :: "dnsmessage \<Rightarrow> string \<Rightarrow> dns_err + string" where
  "truncate_answer D query =
     (case dm_Start D query of
        Inl e \<Rightarrow> Inl e
      | Inr header \<Rightarrow>
          (case dm_Question D query of
             Inl e \<Rightarrow> Inl e
           | Inr question \<Rightarrow>
               put_all D (header\<lparr>hd_Response := True, hd_Truncated := True\<rparr>) False []
                 [StartQuestions, PutQuestion question]))"

section \<open>Transport\<close>

definition readTCPMessage :: "string \<Rightarrow> dns_err + string \<times> string" where
  "readTCPMessage stream =
     (case stream of
        a # b # rest \<Rightarrow>
          (let n = of_char a * 256 + of_char b in
           if n = 0 then Inl (BadLength n)
           else if length rest < n then Inl ShortRead
           else Inr (take n rest, drop n rest))
      | _ \<Rightarrow> Inl ShortRead)"

definition writeTCPMessage :: "string \<Rightarrow> dns_err + string" where
  "writeTCPMessage msg =
     (if 65535 < length msg then Inl (BadLength (length msg))
      else Inr ([char_of (length msg div 256), char_of (length msg)] @ msg))"

record network =
  nw_dial :: "addr \<times> 16 word \<Rightarrow> dns_err option"
  nw_stream :: "addr \<times> 16 word \<Rightarrow> string \<Rightarrow> dns_err + string"
  nw_datagram :: "addr \<times> 16 word \<Rightarrow> string \<Rightarrow> dns_err + string"

definition ask :: "network \<Rightarrow> addr \<Rightarrow> string \<Rightarrow> bool \<Rightarrow> dns_err + string" where
  "ask W via query overTCP =
     (let place = (via, 53) in
      if overTCP then
        (case nw_dial W place of
           Some e \<Rightarrow> Inl e
         | None \<Rightarrow>
             (case writeTCPMessage query of
                Inl e \<Rightarrow> Inl e
              | Inr framed \<Rightarrow>
                  (case nw_stream W place framed of
                     Inl e \<Rightarrow> Inl e
                   | Inr got \<Rightarrow> map_sum id fst (readTCPMessage got))))
      else
        (case nw_datagram W place query of
           Inl e \<Rightarrow> Inl e
         | Inr got \<Rightarrow> Inr (take 4096 got)))"

definition family_refused :: "routerRoute \<Rightarrow> Question \<Rightarrow> bool" where
  "family_refused route question \<longleftrightarrow>
     qu_Type question = TypeA \<and> \<not> rr_IPv4 route \<or> qu_Type question = TypeAAAA \<and> \<not> rr_IPv6 route"

definition answer :: "dnsmessage \<Rightarrow> unicode \<Rightarrow> network \<Rightarrow> routerTable \<Rightarrow> string \<Rightarrow> bool \<Rightarrow> dns_err + string" where
  "answer D U W table query overTCP =
     (case dm_Start D query of
        Inl e \<Rightarrow> Inl e
      | Inr header \<Rightarrow>
          (case dm_Question D query of
             Inl e \<Rightarrow> Inl e
           | Inr question \<Rightarrow>
               (case table_match U table (qu_Name question) of
                  None \<Rightarrow> refuse D header question RCodeNameError
                | Some route \<Rightarrow>
                    if family_refused route question then refuse D header question RCodeSuccess
                    else
                      (case rebuild D header question (rewrite U route (qu_Name question)) of
                         Inl e \<Rightarrow> Inl e
                       | Inr asked \<Rightarrow>
                           (case ask W (rr_Via route) asked overTCP of
                              Inl e \<Rightarrow> Inl e
                            | Inr reply \<Rightarrow> restore D U reply question route)))))"

partial_function (option) opt_loop :: "dnsmessage \<Rightarrow> string \<Rightarrow> nat \<Rightarrow> nat option" where
  "opt_loop D query i =
     (case dm_AdditionalHeader D query i of
        Inl _ \<Rightarrow> Some 512
      | Inr (kind, cls) \<Rightarrow>
          if kind = TypeOPT then Some (if unat cls > 512 then unat cls else 512)
          else if dm_SkipAdditional D query i \<noteq> None then Some 512
          else opt_loop D query (Suc i))"

definition udpLimit :: "dnsmessage \<Rightarrow> string \<Rightarrow> nat option" where
  "udpLimit D query =
     (case dm_Start D query of
        Inl _ \<Rightarrow> Some 512
      | Inr _ \<Rightarrow>
          if dm_SkipAllQuestions D query \<noteq> None then Some 512
          else if dm_SkipAllAnswers D query \<noteq> None then Some 512
          else if dm_SkipAllAuthorities D query \<noteq> None then Some 512
          else opt_loop D query 0)"

text \<open>
  One datagram: \<open>None\<close> when the loop of \<open>udpLimit\<close> does not end, otherwise the datagram sent back, if any.
\<close>

definition serve_udp :: "dnsmessage \<Rightarrow> unicode \<Rightarrow> network \<Rightarrow> routerTable \<Rightarrow> string \<Rightarrow> string option option" where
  "serve_udp D U W table datagram =
     (let query = take 4096 datagram in
      case answer D U W table query False of
        Inl _ \<Rightarrow> Some None
      | Inr reply \<Rightarrow>
          if reply = [] then Some None
          else
            (case udpLimit D query of
               None \<Rightarrow> None
             | Some limit \<Rightarrow>
                 if limit < length reply then
                   (case truncate_answer D query of Inl _ \<Rightarrow> Some None | Inr short \<Rightarrow> Some (Some short))
                 else Some (Some reply)))"

text \<open>
  One TCP connection: the bytes the client sends before it closes, and the bytes sent back.
\<close>

lemma readTCPMessage_shorter: "readTCPMessage stream = Inr (msg, rest) \<Longrightarrow> length rest < length stream"
  by (auto simp: readTCPMessage_def Let_def split: list.splits if_splits)

function serve_tcp :: "(string \<Rightarrow> dns_err + string) \<Rightarrow> string \<Rightarrow> string" where
  "serve_tcp reply stream =
     (case readTCPMessage stream of
        Inl _ \<Rightarrow> []
      | Inr (query, rest) \<Rightarrow>
          (case reply query of
             Inl _ \<Rightarrow> []
           | Inr msg \<Rightarrow>
               if msg = [] then []
               else
                 (case writeTCPMessage msg of
                    Inl _ \<Rightarrow> []
                  | Inr framed \<Rightarrow> framed @ serve_tcp reply rest)))"
  by pat_completeness auto
termination
  by (relation "measure (length \<circ> snd)") (auto dest: readTCPMessage_shorter)

declare serve_tcp.simps [simp del]

definition serveTCP :: "dnsmessage \<Rightarrow> unicode \<Rightarrow> network \<Rightarrow> routerTable \<Rightarrow> string \<Rightarrow> string" where
  "serveTCP D U W table = serve_tcp (\<lambda>query. answer D U W table query True)"

section \<open>The best match\<close>

lemma match_loop_None: "match_loop name best rs = None \<longleftrightarrow> best = None \<and> (\<forall>r \<in> set rs. \<not> under name r)"
  by (induction rs arbitrary: best) (auto split: option.splits)

lemma match_loop_Some:
  assumes "match_loop name best rs = Some r"
  shows "(best = Some r \<or> r \<in> set rs \<and> under name r)
    \<and> (\<forall>b. best = Some b \<longrightarrow> length (rr_Virtual b) \<le> length (rr_Virtual r))
    \<and> (\<forall>q \<in> set rs. under name q \<longrightarrow> length (rr_Virtual q) \<le> length (rr_Virtual r))"
  using assms
proof (induction rs arbitrary: best)
  case (Cons q rs)
  show ?case
  proof (cases "under name q \<and> (case best of None \<Rightarrow> True | Some b \<Rightarrow> length (rr_Virtual q) > length (rr_Virtual b))")
    case True
    with Cons.prems have "match_loop name (Some q) rs = Some r" by simp
    from Cons.IH [OF this] True show ?thesis by (auto split: option.splits)
  next
    case False
    then have m: "match_loop name best rs = Some r" using Cons.prems by (auto split: if_splits)
    from False have "\<not> under name q \<or> (\<exists>b. best = Some b \<and> length (rr_Virtual q) \<le> length (rr_Virtual b))"
      by (auto split: option.splits)
    with Cons.IH [OF m] show ?thesis by fastforce
  qed
qed simp

lemma under_shorter:
  assumes "under name r" and "under name q" and "length (rr_Virtual q) \<le> length (rr_Virtual r)"
  shows "under (rr_Virtual r) q"
proof -
  from assms(1) obtain u where u: "name = u @ rr_Virtual r"
    by (auto simp: under_def HasSuffix_iff intro: that [of "[]"] that [of "_ @ [dot]"])
  show ?thesis
  proof (cases "name = rr_Virtual q")
    case True
    then have "u = []" using u assms(3) by (metis add_le_same_cancel2 le_zero_eq length_0_conv length_append)
    with True u show ?thesis by (simp add: under_def)
  next
    case False
    then obtain v where v: "name = v @ dot # rr_Virtual q" using assms(2) by (auto simp: under_def HasSuffix_iff)
    with u have e: "u @ rr_Virtual r = (v @ [dot]) @ rr_Virtual q" by simp
    define w where "w = take (length (rr_Virtual r) - length (rr_Virtual q)) (rr_Virtual r)"
    define vd where "vd = v @ [dot]"
    have e': "u @ rr_Virtual r = vd @ rr_Virtual q" using e by (simp add: vd_def)
    have "length u + length (rr_Virtual r) = length vd + length (rr_Virtual q)"
      using arg_cong [OF e', of length] by (simp only: length_append)
    then have "length vd = length u + (length (rr_Virtual r) - length (rr_Virtual q))" using assms(3) by linarith
    then have "rr_Virtual q = drop (length (rr_Virtual r) - length (rr_Virtual q)) (rr_Virtual r)"
      using arg_cong [OF e', of "drop (length vd)"] by simp
    then have w: "rr_Virtual r = w @ rr_Virtual q" unfolding w_def by (metis append_take_drop_id)
    with e have vd: "v @ [dot] = u @ w" by simp
    show ?thesis
    proof (cases w rule: rev_cases)
      case (snoc w' c)
      with vd have "c = dot" by simp
      with snoc w show ?thesis by (simp add: under_def HasSuffix_iff)
    qed (use w in \<open>simp add: under_def\<close>)
  qed
qed

text \<open>
  A question goes to the most specific of the name spaces it lies in: every other name space that
  covers the name also covers the one that was chosen. A name is unknown only when no name space
  covers it.
\<close>

theorem match_most_specific:
  defines "n \<equiv> \<lambda>U name. ToLower U (TrimSuffix name [dot])"
  shows "(table_match U t name = None \<longleftrightarrow> (\<forall>r \<in> set (rtb_routes t). \<not> under (n U name) r))
    \<and> (\<forall>r. table_match U t name = Some r \<longrightarrow>
        r \<in> set (rtb_routes t) \<and> under (n U name) r
        \<and> (\<forall>q \<in> set (rtb_routes t). under (n U name) q \<longrightarrow> under (rr_Virtual r) q))"
proof (intro conjI allI impI ballI)
  show "table_match U t name = None \<longleftrightarrow> (\<forall>r \<in> set (rtb_routes t). \<not> under (n U name) r)"
    by (simp add: table_match_def n_def match_loop_None)
next
  fix r assume "table_match U t name = Some r"
  then have m: "match_loop (n U name) None (rtb_routes t) = Some r" by (simp add: table_match_def n_def)
  show "r \<in> set (rtb_routes t)" and r: "under (n U name) r" using match_loop_Some [OF m] by simp_all
  show "under (rr_Virtual r) q" if "q \<in> set (rtb_routes t)" "under (n U name) q" for q
    using match_loop_Some [OF m] that by (intro under_shorter [OF r]) simp_all
qed

lemma table_match_Some:
  assumes "table_match U t name = Some r"
  shows "r \<in> set (rtb_routes t)" and "under (ToLower U (TrimSuffix name [dot])) r"
  using match_loop_Some assms unfolding table_match_def by fastforce+

section \<open>Rewriting\<close>

lemma lower_char_dot [simp]: "lower_char c = dot \<longleftrightarrow> c = dot"
proof (cases "is_upper c")
  case True
  then have "65 \<le> (of_char c :: nat)" "of_char c \<le> (90 :: nat)" by (auto simp: is_upper_def Let_def)
  then have "of_char (lower_char c) = of_char c + (32 :: nat)" using True by (simp add: lower_char_def of_char_char_of_nat)
  moreover have "of_char dot = (46 :: nat)" by (simp add: dot_def)
  ultimately show ?thesis using \<open>65 \<le> (of_char c :: nat)\<close> by auto
qed (simp add: lower_char_def)

lemma TrimSuffix_dot_lower: "TrimSuffix (map lower_char s) [dot] = map lower_char (TrimSuffix s [dot])"
proof (cases s rule: rev_cases)
  case (snoc t c)
  then show ?thesis by (cases "c = dot") (auto simp: TrimSuffix_def HasSuffix_def)
qed (simp add: TrimSuffix_def HasSuffix_def)

lemma ToLower_trim: "ascii s \<Longrightarrow> TrimSuffix (ToLower U s) [dot] = ToLower U (TrimSuffix s [dot])"
  using set_TrimSuffix [of s "[dot]"] by (auto simp: ToLower_def TrimSuffix_dot_lower ascii_iff)

lemma ascii_TrimSuffix: "ascii s \<Longrightarrow> ascii (TrimSuffix s t)"
  using set_TrimSuffix [of s t] by (auto simp: ascii_iff)

lemma ascii_ToLower: "ascii s \<Longrightarrow> ascii (ToLower U s)"
  by (simp add: ToLower_def ascii_map_lower)

lemma ToLower_idem: "ascii s \<Longrightarrow> ToLower U (ToLower U s) = ToLower U s"
  by (simp add: ToLower_def ascii_map_lower)

lemma ToLower_append: "ascii s \<Longrightarrow> ascii t \<Longrightarrow> ToLower U (s @ t) = ToLower U s @ ToLower U t"
  by (auto simp: ToLower_def ascii_iff)

lemma is_ascii_dot [simp]: "is_ascii dot"
  by (simp add: dot_def is_ascii_def)

lemma ToLower_dot [simp]: "ascii s \<Longrightarrow> ToLower U (dot # s) = dot # ToLower U s"
  by (simp add: ToLower_def)

lemma ascii_append [simp]: "ascii (s @ t) \<longleftrightarrow> ascii s \<and> ascii t"
  by (auto simp: ascii_iff)

lemma ToLower_Nil [simp]: "ToLower U [] = []"
  by (simp add: ToLower_def)

lemma length_ToLower: "ascii s \<Longrightarrow> length (ToLower U s) = length s"
  by (simp add: ToLower_def)

lemma trim_qualified: "ascii s \<Longrightarrow> TrimSuffix (ToLower U (s @ [dot])) [dot] = ToLower U s"
  by (simp add: ToLower_append)

lemma contains_dot: "contains_str s [dot] \<longleftrightarrow> dot \<in> set s"
  by (auto simp: contains_str_iff in_set_conv_decomp)

lemma rewrite_under:
  assumes "TrimSuffix (ToLower U name) [dot] = asked @ dot # rr_Virtual r"
  shows "rewrite U r name = (if bare r then asked @ [dot] else asked @ [dot] @ rr_Real r @ [dot])"
  using assms by (simp add: rewrite_def Let_def)

text \<open>
  C24: what the asker sees is the name it asked for: a question is rewritten onto the connector's own name
  space and the same name in the answer is turned back, whatever the platform calls its network. The
  name space itself, which has no name in front of it, is asked as the root; in a network without a
  suffix only a single label is turned back.
\<close>

theorem rewrite_then_restore:
  assumes "table_match U t name = Some r" and "ascii name"
    and "ascii (rr_Real r)" and "ToLower U (rr_Real r) = rr_Real r"
  defines "n \<equiv> ToLower U (TrimSuffix name [dot])"
  defines "asked \<equiv> TrimSuffix n (dot # rr_Virtual r)"
  assumes "n \<noteq> rr_Virtual r" and "bare r \<Longrightarrow> asked \<noteq> [] \<and> dot \<notin> set asked"
  shows "route_restore U r (rewrite U r name) = n @ [dot] \<and> rewrite U r (n @ [dot]) = rewrite U r name"
proof
  have n: "n = asked @ dot # rr_Virtual r"
    using table_match_Some(2) [OF assms(1)] assms(7) unfolding asked_def n_def by (auto simp: under_def HasSuffix_iff)
  have an: "ascii n" unfolding n_def by (intro ascii_ToLower ascii_TrimSuffix assms(2))
  have aa: "ascii asked" unfolding asked_def by (rule ascii_TrimSuffix [OF an])
  have idem: "ToLower U n = n" unfolding n_def by (rule ToLower_idem [OF ascii_TrimSuffix [OF assms(2)]])
  then have "ToLower U asked @ dot # ToLower U (rr_Virtual r) = asked @ dot # rr_Virtual r"
    using an unfolding n by (simp add: ToLower_append)
  then have la: "ToLower U asked = asked" using length_ToLower [OF aa, of U] by (simp add: append_eq_append_conv)
  have trim: "TrimSuffix (ToLower U name) [dot] = asked @ dot # rr_Virtual r"
    using ToLower_trim [OF assms(2)] n by (simp add: n_def)
  note rw = rewrite_under [OF trim]
  show "route_restore U r (rewrite U r name) = n @ [dot]"
  proof (cases "bare r")
    case True
    then have "TrimSuffix (ToLower U (asked @ [dot])) [dot] = asked" using aa la by (simp add: ToLower_append)
    with True rw assms(8) show ?thesis by (simp add: route_restore_def Let_def contains_dot n)
  next
    case False
    have "TrimSuffix (ToLower U ((asked @ dot # rr_Real r) @ [dot])) [dot] = asked @ dot # rr_Real r"
      using trim_qualified [of "asked @ dot # rr_Real r" U] aa la assms(3,4) by (simp add: ToLower_append)
    then show ?thesis using False rw by (simp add: route_restore_def Let_def n)
  qed
  have "TrimSuffix (ToLower U (n @ [dot])) [dot] = asked @ dot # rr_Virtual r"
    using trim_qualified [OF an, of U] idem n by simp
  from rewrite_under [OF this] show "rewrite U r (n @ [dot]) = rewrite U r name" using rw by simp
qed

text \<open>
  An alias gives a second name to a name space, not to a name in it: whatever lies below the alias is
  asked as it would be below the name space that the canonical name falls into, and the alias itself is
  asked as the root. The labels of a canonical name in front of its name space are dropped.
\<close>

theorem alias_names_the_name_space:
  assumes "table_match U t canonical = Some r" and "ascii alias" and "ascii x" and "ascii (rr_Virtual r)"
    and "ToLower U (rr_Virtual r) = rr_Virtual r"
  defines "a \<equiv> r\<lparr>rr_Virtual := ToLower U (TrimSuffix alias [dot])\<rparr>"
  shows "rtb_routes (withAliases U t [(alias, canonical)]) = rtb_routes t @ [a]
    \<and> rewrite U a alias = RootDomain
    \<and> rewrite U a (x @ dot # TrimSuffix alias [dot] @ [dot]) = rewrite U r (x @ dot # rr_Virtual r @ [dot])"
proof (intro conjI)
  show "rtb_routes (withAliases U t [(alias, canonical)]) = rtb_routes t @ [a]" using assms(1) by (simp add: a_def)
  show "rewrite U a alias = RootDomain" using ToLower_trim [OF assms(2)] by (simp add: rewrite_def a_def)
  have fq: "rewrite U q (x @ dot # v @ [dot]) = (if bare q then ToLower U x @ [dot] else ToLower U x @ [dot] @ rr_Real q @ [dot])"
    if "ascii v" "rr_Virtual q = ToLower U v" for q :: routerRoute and v
  proof (rule rewrite_under)
    show "TrimSuffix (ToLower U (x @ dot # v @ [dot])) [dot] = ToLower U x @ dot # rr_Virtual q"
      using trim_qualified [of "x @ dot # v" U] assms(3) that by (simp add: ToLower_append)
  qed
  show "rewrite U a (x @ dot # TrimSuffix alias [dot] @ [dot]) = rewrite U r (x @ dot # rr_Virtual r @ [dot])"
    using fq [of "TrimSuffix alias [dot]" a] fq [of "rr_Virtual r" r] assms(2,4,5)
    by (simp add: ascii_TrimSuffix a_def bare_def)
qed

section \<open>Families\<close>

lemma put_all_Inr: "put_all D h c made calls = Inr m \<Longrightarrow> dm_Finish D h c (made @ calls) = Inr m"
proof (induction calls arbitrary: made)
  case (Cons c' calls)
  then have "put_all D h c (made @ [c']) calls = Inr m" by (auto split: option.splits)
  from Cons.IH [OF this] show ?case by simp
qed simp

definition carried :: "routerRoute \<Rightarrow> builder_call \<Rightarrow> bool" where
  "carried route c =
     (case c of
        PutA _ _ \<Rightarrow> rr_IPv4 route
      | PutAAAA _ _ \<Rightarrow> rr_IPv6 route
      | PutCNAME _ _ \<Rightarrow> True
      | _ \<Rightarrow> False)"

lemma restored_carried: "restored_record D U route a = Some c \<Longrightarrow> carried route c"
  by (auto simp: restored_record_def carried_def Let_def split: sum.splits ResourceBody.splits if_splits)

lemma restore_Inr:
  assumes "restore D U reply question route = Inr m"
  shows "\<exists>h calls. dm_Finish D h True ([StartQuestions, PutQuestion question, StartAnswers] @ calls) = Inr m
    \<and> hd_Response h \<and> list_all (carried route) calls"
proof -
  obtain header answers where
    "put_all D (header\<lparr>hd_Response := True\<rparr>) True []
       ([StartQuestions, PutQuestion question, StartAnswers] @ List.map_filter (restored_record D U route) answers) = Inr m"
    using assms by (auto simp: restore_def split: sum.splits option.splits prod.splits if_splits)
  from put_all_Inr [OF this] have "dm_Finish D (header\<lparr>hd_Response := True\<rparr>) True
     ([StartQuestions, PutQuestion question, StartAnswers] @ List.map_filter (restored_record D U route) answers) = Inr m"
    by simp
  moreover have "list_all (carried route) (List.map_filter (restored_record D U route) answers)"
    by (auto simp: list_all_iff map_filter_def dest: restored_carried)
  ultimately show ?thesis by (intro exI conjI) auto
qed

lemma refuse_Inr:
  assumes "refuse D header question code = Inr m"
  shows "dm_Finish D (header\<lparr>hd_Response := True, hd_RCode := code, hd_Authoritative := True\<rparr>) False
    [StartQuestions, PutQuestion question] = Inr m"
  using put_all_Inr [OF assms [unfolded refuse_def]] by simp

text \<open>
  C25: an answer repeats the question it answers. A name no name space covers does not exist; a question
  about a family the connector does not carry is answered empty without asking anybody; and an answer
  that was asked for holds no address of a family the connector does not carry.
\<close>

theorem answers_only_carried_families:
  assumes "answer D U W table query overTCP = Inr m"
  shows "\<exists>header question. dm_Start D query = Inr header \<and> dm_Question D query = Inr question \<and>
    (case table_match U table (qu_Name question) of
       None \<Rightarrow> dm_Finish D (header\<lparr>hd_Response := True, hd_RCode := RCodeNameError, hd_Authoritative := True\<rparr>) False
          [StartQuestions, PutQuestion question] = Inr m
     | Some route \<Rightarrow>
         if family_refused route question
         then dm_Finish D (header\<lparr>hd_Response := True, hd_RCode := RCodeSuccess, hd_Authoritative := True\<rparr>) False
          [StartQuestions, PutQuestion question] = Inr m
         else \<exists>asked reply h calls. rebuild D header question (rewrite U route (qu_Name question)) = Inr asked
           \<and> ask W (rr_Via route) asked overTCP = Inr reply
           \<and> dm_Finish D h True ([StartQuestions, PutQuestion question, StartAnswers] @ calls) = Inr m
           \<and> hd_Response h \<and> list_all (carried route) calls)"
proof -
  obtain header question where q: "dm_Start D query = Inr header" "dm_Question D query = Inr question"
    using assms by (auto simp: answer_def split: sum.splits)
  show ?thesis
  proof (cases "table_match U table (qu_Name question)")
    case None
    with assms q have "refuse D header question RCodeNameError = Inr m" by (simp add: answer_def)
    from refuse_Inr [OF this] None q show ?thesis by simp
  next
    case (Some route)
    show ?thesis
    proof (cases "family_refused route question")
      case True
      with assms q Some have "refuse D header question RCodeSuccess = Inr m" by (simp add: answer_def)
      from refuse_Inr [OF this] True Some q show ?thesis by simp
    next
      case False
      with assms q Some obtain asked reply where
        "rebuild D header question (rewrite U route (qu_Name question)) = Inr asked"
        "ask W (rr_Via route) asked overTCP = Inr reply" "restore D U reply question route = Inr m"
        by (auto simp: answer_def split: sum.splits)
      with False Some q restore_Inr show ?thesis by fastforce
    qed
  qed
qed

section \<open>Limits and framing\<close>

lemma opt_loop_ends:
  assumes "dm_AdditionalHeader D query (i + k) = Inl e"
  shows "\<exists>limit. opt_loop D query i = Some limit \<and> 512 \<le> limit \<and> limit < 2 ^ 16"
  using assms
proof (induction k arbitrary: i)
  case 0
  then show ?case by (subst opt_loop.simps) simp
next
  case (Suc k)
  have "dm_AdditionalHeader D query (Suc i + k) = Inl e" using Suc.prems by simp
  from Suc.IH [OF this] obtain limit where l: "opt_loop D query (Suc i) = Some limit" "512 \<le> limit" "limit < 2 ^ 16"
    by blast
  have w: "unat c < 2 ^ 16" for c :: "16 word" using unsigned_less [of c] by simp
  have "(512 :: nat) < 2 ^ 16" by simp
  with l w show ?case by (subst opt_loop.simps) (auto split: sum.splits)
qed

text \<open>
  C30: when the additional section of a query ends, as it does after the 16 bit count in its header, the
  limit for an answer over UDP is found: at least the 512 bytes every client takes, and never more than
  the 16 bit size a client can state. A datagram is then always dealt with, and what is sent back fits
  the limit unless it is the short answer that tells the client to ask again over TCP.
\<close>

theorem udp_answers_fit:
  assumes "\<And>query. \<exists>i e. dm_AdditionalHeader D query i = Inl e"
  shows "\<exists>limit sent. udpLimit D (take 4096 datagram) = Some limit \<and> 512 \<le> limit \<and> limit < 2 ^ 16
    \<and> serve_udp D U W table datagram = Some sent
    \<and> (\<forall>m. sent = Some m \<longrightarrow> length m \<le> limit \<or> truncate_answer D (take 4096 datagram) = Inr m)"
proof -
  obtain i e where "dm_AdditionalHeader D (take 4096 datagram) (0 + i) = Inl e" using assms by fastforce
  from opt_loop_ends [OF this] have "\<exists>limit. udpLimit D (take 4096 datagram) = Some limit \<and> 512 \<le> limit \<and> limit < 2 ^ 16"
    by (auto simp: udpLimit_def split: sum.splits)
  then obtain limit where "udpLimit D (take 4096 datagram) = Some limit" "512 \<le> limit" "limit < 2 ^ 16" by blast
  then show ?thesis
    by (auto simp: serve_udp_def Let_def split: sum.splits)
qed

lemma read_written:
  assumes "writeTCPMessage msg = Inr framed" and "msg \<noteq> []"
  shows "readTCPMessage (framed @ rest) = Inr (msg, rest)"
proof -
  have f: "framed = [char_of (length msg div 256), char_of (length msg)] @ msg" and n: "length msg \<le> 65535"
    using assms(1) by (auto simp: writeTCPMessage_def split: if_splits)
  have "length msg div 256 < 256" using n by simp
  then have "of_char (char_of (length msg div 256) :: char) = length msg div 256"
    "of_char (char_of (length msg) :: char) = length msg mod 256" by simp_all
  then have "of_char (char_of (length msg div 256) :: char) * 256 + of_char (char_of (length msg) :: char) = length msg"
    by simp
  moreover have "0 < length msg" using assms(2) by simp
  ultimately show ?thesis unfolding f readTCPMessage_def by (simp only: append.simps list.case Let_def) simp
qed

text \<open>
  Queries that are framed one after the other on a TCP connection are read back one by one and each is
  answered in turn, until the first that has no answer; what follows that one is not read.
\<close>

theorem tcp_answers_in_turn:
  assumes "list_all2 (\<lambda>q f. writeTCPMessage q = Inr f \<and> q \<noteq> []) queries frames"
    and "list_all2 (\<lambda>q f. \<exists>a. answer D U W table q True = Inr a \<and> a \<noteq> [] \<and> writeTCPMessage a = Inr f) queries sent"
  shows "serveTCP D U W table (concat frames) = concat sent
    \<and> (\<forall>q f rest e. writeTCPMessage q = Inr f \<longrightarrow> q \<noteq> [] \<longrightarrow> answer D U W table q True = Inl e
        \<longrightarrow> serveTCP D U W table (concat frames @ f @ rest) = concat sent)"
proof -
  let ?reply = "\<lambda>q. answer D U W table q True"
  have step: "serve_tcp ?reply (concat frames @ tail) = concat sent @ serve_tcp ?reply tail" for tail
    using assms
  proof (induction queries arbitrary: frames sent)
    case (Cons q qs)
    then obtain f fs a s ss where "frames = f # fs" "sent = s # ss" and f: "writeTCPMessage q = Inr f" "q \<noteq> []"
      and a: "?reply q = Inr a" "a \<noteq> []" "writeTCPMessage a = Inr s"
      and rest: "list_all2 (\<lambda>q f. writeTCPMessage q = Inr f \<and> q \<noteq> []) qs fs"
        "list_all2 (\<lambda>q f. \<exists>a. ?reply q = Inr a \<and> a \<noteq> [] \<and> writeTCPMessage a = Inr f) qs ss"
      by (auto simp: list_all2_Cons1)
    with Cons.IH [OF rest] read_written [OF f, of "concat fs @ tail"] show ?case
      by (subst serve_tcp.simps) simp
  qed simp
  have "serve_tcp ?reply [] = []" by (subst serve_tcp.simps) (simp add: readTCPMessage_def)
  moreover have "serve_tcp ?reply (f @ rest) = []"
    if "writeTCPMessage q = Inr f" "q \<noteq> []" "?reply q = Inl e" for q f rest e
    using read_written [OF that(1,2)] that(3) by (subst serve_tcp.simps) simp
  ultimately show ?thesis using step [of "[]"] step unfolding serveTCP_def by simp
qed

section \<open>The table of the hub\<close>

lemma carries_iff:
  "(fst (carries table via) \<longleftrightarrow> (\<exists>r \<in> set (rtab_Routes table). rt_Via r = via \<and> Is4 (paddr (rt_Prefix r))))
   \<and> (snd (carries table via) \<longleftrightarrow> (\<exists>r \<in> set (rtab_Routes table). rt_Via r = via \<and> \<not> Is4 (paddr (rt_Prefix r))))"
proof -
  have "(fst (fold carry rs c via) \<longleftrightarrow> fst (c via) \<or> (\<exists>r \<in> set rs. rt_Via r = via \<and> Is4 (paddr (rt_Prefix r))))
     \<and> (snd (fold carry rs c via) \<longleftrightarrow> snd (c via) \<or> (\<exists>r \<in> set rs. rt_Via r = via \<and> \<not> Is4 (paddr (rt_Prefix r))))" for rs c
    by (induction rs arbitrary: c) (auto simp: carry_def Let_def)
  from this [of "rtab_Routes table" "\<lambda>_. (False, False)"] show ?thesis unfolding carries_def by simp
qed

lemma set_routerTableFor:
  "r \<in> set (rtb_routes (routerTableFor U table inst)) \<longleftrightarrow>
     (\<exists>s \<in> set (rtab_Resolvers table). IsValid (rsv_Via s) \<and> r = resolver_route U table inst s)
     \<or> IsValid (lh_OverlayAddress (rtab_Lighthouse table)) \<and> r = lighthouse_route U (lh_OverlayAddress (rtab_Lighthouse table)) inst"
  by (auto simp: routerTableFor_def Let_def)

lemma domains_loop_spec:
  "set (domains_loop seen rs) = rr_Virtual ` set rs - set seen \<and> distinct (domains_loop seen rs)"
  by (induction rs arbitrary: seen) auto

text \<open>
  The domains a resolver is told to send here are exactly the name spaces of the table, each once; so a
  name that falls under one of them is routed, and one that does not is not.
\<close>

lemma table_match_Domains:
  "distinct (Domains t)
   \<and> (table_match U t name \<noteq> None \<longleftrightarrow>
       (\<exists>d \<in> set (Domains t). ToLower U (TrimSuffix name [dot]) = d \<or> HasSuffix (ToLower U (TrimSuffix name [dot])) (dot # d)))"
  using domains_loop_spec [of "[]" "rtb_routes t"]
  by (auto simp: Domains_def table_match_def match_loop_None under_def simp del: not_None_eq)

section \<open>Examples\<close>

text \<open>
  A message format that is small enough to read: one byte for the type, then the name. A reply answers
  with one address of each family and an alias, under the name it was asked for.
\<close>

definition plain_call :: "builder_call \<Rightarrow> string" where
  "plain_call c =
     (case c of
        PutQuestion q \<Rightarrow> char_of (unat (qu_Type q)) # qu_Name q
      | PutA h body \<Rightarrow> ''!A '' @ rh_Name h @ body
      | PutAAAA h body \<Rightarrow> ''!AAAA '' @ rh_Name h @ body
      | PutCNAME h target \<Rightarrow> ''!CNAME '' @ rh_Name h @ target
      | _ \<Rightarrow> [])"

definition plain_dns :: dnsmessage where
  "plain_dns =
     \<lparr>dm_Start = (\<lambda>m. if m = [] then Inl (DnsFailed ''start'') else
         Inr \<lparr>hd_Response = False, hd_Authoritative = False, hd_Truncated = False, hd_RCode = 0, hd_Rest = []\<rparr>),
      dm_Question = (\<lambda>m. Inr \<lparr>qu_Name = tl m, qu_Type = of_nat (of_char (hd m)), qu_Class = 1\<rparr>),
      dm_AllQuestions = (\<lambda>_. None),
      dm_AllAnswers = (\<lambda>m. (map (Resource.make \<lparr>rh_Name = tl m, rh_Rest = []\<rparr>)
         [AResource ''1'', AAAAResource ''2'', CNAMEResource (tl m), OtherResource], None)),
      dm_SkipAllQuestions = (\<lambda>_. None), dm_SkipAllAnswers = (\<lambda>_. None), dm_SkipAllAuthorities = (\<lambda>_. None),
      dm_AdditionalHeader = (\<lambda>_ _. Inl SectionDone), dm_SkipAdditional = (\<lambda>_ _. None),
      dm_NewName = (\<lambda>s. if length s \<le> 255 then Inr s else Inl (DnsFailed ''name'')),
      dm_Put = (\<lambda>_ _ _ _. None), dm_Finish = (\<lambda>_ _ made. Inr (concat (map plain_call made)))\<rparr>"

definition echo_network :: network where
  "echo_network = \<lparr>nw_dial = (\<lambda>_. None), nw_stream = (\<lambda>_. Inr), nw_datagram = (\<lambda>_. Inr)\<rparr>"

definition example_route :: routerRoute where
  "example_route = \<lparr>rr_Virtual = ''web.acme.robinet'', rr_Real = ''prod.internal'', rr_Via = Addr4 0xC61300FE,
     rr_IPv4 = True, rr_IPv6 = False\<rparr>"

definition example_routes :: routerTable where
  "example_routes = \<lparr>rtb_routes = [example_route]\<rparr>"

definition example_query :: string where
  "example_query = CHR 0x01 # ''DB.web.acme.robinet.''"

lemma example_match: "table_match no_unicode example_routes ''DB.web.acme.robinet.'' = Some example_route"
  by code_simp

theorem match_most_specific_witness:
  "under ''db.web.acme.robinet'' example_route"
proof -
  have "ToLower no_unicode (TrimSuffix ''DB.web.acme.robinet.'' [dot]) = ''db.web.acme.robinet''" by code_simp
  with match_most_specific [of no_unicode example_routes "''DB.web.acme.robinet.''"] example_match show ?thesis by simp
qed

theorem rewrite_then_restore_witness:
  "rewrite no_unicode example_route ''DB.web.acme.robinet.'' = ''db.prod.internal.''
   \<and> route_restore no_unicode example_route ''db.prod.internal.'' = ''db.web.acme.robinet.''"
proof -
  have n: "ToLower no_unicode (TrimSuffix ''DB.web.acme.robinet.'' [dot]) = ''db.web.acme.robinet''" by code_simp
  have r: "rewrite no_unicode example_route ''DB.web.acme.robinet.'' = ''db.prod.internal.''" by code_simp
  have "ascii ''DB.web.acme.robinet.''" "ascii (rr_Real example_route)"
    "ToLower no_unicode (rr_Real example_route) = rr_Real example_route" "\<not> bare example_route"
    "rr_Virtual example_route \<noteq> ''db.web.acme.robinet''" by code_simp+
  with rewrite_then_restore [OF example_match] n r show ?thesis by (simp add: dot_def)
qed

theorem alias_names_the_name_space_witness:
  "rewrite no_unicode (example_route\<lparr>rr_Virtual := ''db''\<rparr>) ''db'' = RootDomain
   \<and> rewrite no_unicode example_route ''DB.web.acme.robinet.'' = ''db.prod.internal.''"
proof -
  have "ascii ''db''" "ascii []" "ascii (rr_Virtual example_route)"
    "ToLower no_unicode (rr_Virtual example_route) = rr_Virtual example_route" by code_simp+
  note a = alias_names_the_name_space [OF example_match this]
  have "ToLower no_unicode (TrimSuffix ''db'' [dot]) = ''db''"
    "rewrite no_unicode example_route ''DB.web.acme.robinet.'' = ''db.prod.internal.''" by code_simp+
  with a show ?thesis by simp
qed

theorem answers_only_carried_families_witness:
  "\<exists>m calls. answer plain_dns no_unicode echo_network example_routes example_query False = Inr m
     \<and> list_all (carried example_route) calls \<and> m = example_query @ concat (map plain_call calls)"
proof -
  have a: "answer plain_dns no_unicode echo_network example_routes example_query False
      = Inr (example_query @ ''!A db.web.acme.robinet.1!CNAME db.web.acme.robinet.db.web.acme.robinet.'')" by code_simp
  have q: "\<not> family_refused example_route \<lparr>qu_Name = ''DB.web.acme.robinet.'', qu_Type = 1, qu_Class = 1\<rparr>" by code_simp
  from answers_only_carried_families [OF a] q obtain h calls where
    "dm_Finish plain_dns h True ([StartQuestions, PutQuestion \<lparr>qu_Name = ''DB.web.acme.robinet.'', qu_Type = 1, qu_Class = 1\<rparr>,
       StartAnswers] @ calls) = Inr (example_query @ ''!A db.web.acme.robinet.1!CNAME db.web.acme.robinet.db.web.acme.robinet.'')"
    "list_all (carried example_route) calls"
    by (auto simp: plain_dns_def example_query_def example_match)
  with a show ?thesis by (auto simp: plain_dns_def plain_call_def example_query_def)
qed

theorem udp_answers_fit_witness:
  "udpLimit plain_dns (take 4096 example_query) = Some 512"
proof -
  have "\<exists>i e. dm_AdditionalHeader plain_dns query i = Inl e" for query by (simp add: plain_dns_def)
  from udp_answers_fit [of plain_dns, OF this, of example_query no_unicode echo_network example_routes]
  obtain limit where l: "udpLimit plain_dns (take 4096 example_query) = Some limit" by blast
  moreover have "opt_loop plain_dns (take 4096 example_query) 0 = Some 512" by (subst opt_loop.simps) (simp add: plain_dns_def)
  ultimately show ?thesis by (simp add: udpLimit_def plain_dns_def split: if_splits)
qed

theorem tcp_answers_in_turn_witness:
  "\<exists>sent. serveTCP plain_dns no_unicode echo_network \<lparr>rtb_routes = []\<rparr> (concat [[CHR 0x00, CHR 0x02, CHR 0x01, CHR ''x'']])
     = concat [sent] \<and> sent = [CHR 0x00, CHR 0x02, CHR 0x01, CHR ''x'']"
proof -
  let ?f = "[CHR 0x00, CHR 0x02, CHR 0x01, CHR ''x'']" and ?q = "[CHR 0x01, CHR ''x'']"
  have w: "writeTCPMessage ?q = Inr ?f" by (simp add: writeTCPMessage_def) code_simp
  have a: "answer plain_dns no_unicode echo_network \<lparr>rtb_routes = []\<rparr> ?q True = Inr ?q" by code_simp
  have "list_all2 (\<lambda>q f. writeTCPMessage q = Inr f \<and> q \<noteq> []) [?q] [?f]"
    "list_all2 (\<lambda>q f. \<exists>a. answer plain_dns no_unicode echo_network \<lparr>rtb_routes = []\<rparr> q True = Inr a \<and> a \<noteq> []
       \<and> writeTCPMessage a = Inr f) [?q] [?f]"
    using w a by simp_all
  from tcp_answers_in_turn [OF this] show ?thesis by simp
qed

end
