(* ===== verification/Tenant.thy ===== *)
theory Tenant
  imports Dnsrouter
begin

text \<open>
  What a tenant's machine keeps, \<open>src/internal/tenant/state.go\<close>: the authorities of the instances it
  owns, its connections, its choices (families, inbound, cheats) and its aliases, in one file that is
  replaced as a whole. \<open>encoding/json\<close> is modelled by what a written state reads back as; a fault of the
  file system is a parameter of every write.
\<close>

section \<open>Data\<close>

record Owned =
  own_InstanceID :: string
  own_Name :: string
  own_CACert :: string
  own_CAKey :: string
  own_SharedToken :: string

record Connection =
  con_InstanceID :: string
  con_Name :: string
  con_Role :: string
  con_PublicKey :: string
  con_PrivateKey :: string
  con_Certificate :: string
  con_CA :: string
  con_Address :: prefix
  con_Address6 :: prefix
  con_Lighthouse :: Lighthouse
  con_MTU :: "32 word"
  con_Device :: string
  con_ListenPort :: int
  con_RequestedAt :: time
  con_JoinedAt :: time

definition Ready :: "Connection \<Rightarrow> bool" where
  "Ready c \<longleftrightarrow> con_Certificate c \<noteq> [] \<and> con_CA c \<noteq> [] \<and> IsValid (lh_OverlayAddress (con_Lighthouse c))"

record data =
  da_HubURL :: string
  da_Identity :: string
  da_Binder :: string
  da_Name :: string
  da_Insecure :: bool
  da_Pin :: string
  da_Families :: string
  da_Inbound :: string
  da_Cheats :: "(string, bool) gomap"
  da_Aliases :: "(string, string) gomap"
  da_Owner :: string
  da_OwnerUID :: int
  da_OwnerGID :: int
  da_Owned :: "(string, Owned) gomap"
  da_Connections :: "(string, Connection) gomap"

definition zero_data :: data where
  "zero_data = \<lparr>da_HubURL = [], da_Identity = [], da_Binder = [], da_Name = [], da_Insecure = False, da_Pin = [],
     da_Families = [], da_Inbound = [], da_Cheats = None, da_Aliases = None, da_Owner = [], da_OwnerUID = 0,
     da_OwnerGID = 0, da_Owned = None, da_Connections = None\<rparr>"

section \<open>The file\<close>

definition json_data :: "data \<Rightarrow> data" where
  "json_data d = d\<lparr>da_Cheats := omitempty (da_Cheats d), da_Aliases := omitempty (da_Aliases d),
     da_Owned := omitempty (da_Owned d), da_Connections := omitempty (da_Connections d)\<rparr>"

datatype tenant_image = WholeData data | TornData

record tenant_fs =
  tf_file :: "tenant_image option"
  tf_tmp :: "tenant_image option"

record State =
  sta_data :: data
  sta_fs :: tenant_fs

definition OpenState :: "bool \<Rightarrow> tenant_fs \<Rightarrow> open_err + State" where
  "OpenState readable f =
     (if tf_file f = None
      then Inr \<lparr>sta_data = zero_data\<lparr>da_Owned := Some [], da_Connections := Some []\<rparr>, sta_fs = f\<rparr>
      else if \<not> readable then Inl CouldNotRead
      else case tf_file f of
             Some (WholeData d) \<Rightarrow>
               Inr \<lparr>sta_data = d\<lparr>da_Owned := ensure (da_Owned d), da_Connections := ensure (da_Connections d)\<rparr>, sta_fs = f\<rparr>
           | _ \<Rightarrow> Inl CouldNotParse)"

definition Registered :: "State \<Rightarrow> bool" where
  "Registered s \<longleftrightarrow> da_HubURL (sta_data s) \<noteq> [] \<and> da_Identity (sta_data s) \<noteq> []"

datatype tenant_fault = TMarshal | TMkdir | TWrite | TRename

datatype tenant_err =
    NotSaved tenant_fault
  | BadFamilies string
  | BadInbound string
  | UnknownCheat string
  | BadAlias string name_err
  | NothingAnswers string
  | OwnName string
  | NotListening addr

definition tenant_trace :: "tenant_fault option \<Rightarrow> data \<Rightarrow> tenant_fs \<Rightarrow> tenant_fs list" where
  "tenant_trace io d f =
     (let begun = f\<lparr>tf_tmp := Some TornData\<rparr>;
          written = f\<lparr>tf_tmp := Some (WholeData (json_data d))\<rparr>
      in case io of
           Some TMarshal \<Rightarrow> [f]
         | Some TMkdir \<Rightarrow> [f]
         | Some TWrite \<Rightarrow> [f, begun]
         | Some TRename \<Rightarrow> [f, begun, written]
         | None \<Rightarrow> [f, begun, written, \<lparr>tf_file = Some (WholeData (json_data d)), tf_tmp = None\<rparr>])"

definition save_data :: "tenant_fault option \<Rightarrow> State \<Rightarrow> State \<times> (tenant_err + unit)" where
  "save_data io s =
     (s\<lparr>sta_fs := last (tenant_trace io (sta_data s) (sta_fs s))\<rparr>,
      case io of None \<Rightarrow> Inr () | Some e \<Rightarrow> Inl (NotSaved e))"

definition Write :: "tenant_fault option \<Rightarrow> (data \<Rightarrow> data \<times> tenant_err option) \<Rightarrow> State \<Rightarrow> State \<times> (tenant_err + unit)" where
  "Write io fn s =
     (case fn (sta_data s) of
        (d, Some e) \<Rightarrow> (s\<lparr>sta_data := d\<rparr>, Inl e)
      | (d, None) \<Rightarrow> save_data io (s\<lparr>sta_data := d\<rparr>))"

section \<open>Readers\<close>

definition Connections :: "State \<Rightarrow> Connection list" where
  "Connections s = vals (da_Connections (sta_data s))"

definition ConnectionOf :: "string \<Rightarrow> State \<Rightarrow> Connection option" where
  "ConnectionOf iid s = mget (da_Connections (sta_data s)) iid"

definition OwnedOf :: "string \<Rightarrow> State \<Rightarrow> Owned option" where
  "OwnedOf iid s = mget (da_Owned (sta_data s)) iid"

definition device_name :: "nat \<Rightarrow> string" where
  "device_name i = ''robinet'' @ digits_of i"

fun device_loop :: "string list \<Rightarrow> nat list \<Rightarrow> string" where
  "device_loop taken [] = ''robinet255''"
| "device_loop taken (i # is) =
     (let name = device_name i in if name \<notin> set taken then name else device_loop taken is)"

definition nextDevice :: "data \<Rightarrow> string" where
  "nextDevice d = device_loop (map con_Device (vals (da_Connections d))) [0..<256]"

section \<open>Choices\<close>

definition FamiliesBoth :: string where "FamiliesBoth = ''both''"
definition FamiliesIPv4 :: string where "FamiliesIPv4 = ''ipv4''"
definition FamiliesIPv6 :: string where "FamiliesIPv6 = ''ipv6''"

definition ValidFamilies :: "string \<Rightarrow> bool" where
  "ValidFamilies f \<longleftrightarrow> f = FamiliesBoth \<or> f = FamiliesIPv4 \<or> f = FamiliesIPv6"

definition Families :: "State \<Rightarrow> string" where
  "Families s = (if ValidFamilies (da_Families (sta_data s)) then da_Families (sta_data s) else FamiliesBoth)"

definition SetFamilies :: "tenant_fault option \<Rightarrow> string \<Rightarrow> State \<Rightarrow> State \<times> (tenant_err + unit)" where
  "SetFamilies io f s =
     (if \<not> ValidFamilies f then (s, Inl (BadFamilies f))
      else Write io (\<lambda>d. (d\<lparr>da_Families := f\<rparr>, None)) s)"

definition wantedFamily :: "string \<Rightarrow> prefix \<Rightarrow> bool" where
  "wantedFamily families p =
     (if families = FamiliesIPv4 then Is4 (paddr p)
      else if families = FamiliesIPv6 then \<not> Is4 (paddr p)
      else True)"

definition InboundPing :: string where "InboundPing = ''ping''"
definition InboundOpen :: string where "InboundOpen = ''open''"
definition InboundNone :: string where "InboundNone = ''none''"

definition ValidInbound :: "string \<Rightarrow> bool" where
  "ValidInbound v \<longleftrightarrow> v = InboundPing \<or> v = InboundOpen \<or> v = InboundNone"

definition Inbound :: "State \<Rightarrow> string" where
  "Inbound s = (if ValidInbound (da_Inbound (sta_data s)) then da_Inbound (sta_data s) else InboundPing)"

definition SetInbound :: "tenant_fault option \<Rightarrow> string \<Rightarrow> State \<Rightarrow> State \<times> (tenant_err + unit)" where
  "SetInbound io v s =
     (if \<not> ValidInbound v then (s, Inl (BadInbound v))
      else Write io (\<lambda>d. (d\<lparr>da_Inbound := v\<rparr>, None)) s)"

record firewall_rule =
  fw_port :: string
  fw_proto :: string
  fw_host :: string

definition inboundRules :: "string \<Rightarrow> firewall_rule list" where
  "inboundRules inbound =
     (if inbound = InboundOpen then [\<lparr>fw_port = ''any'', fw_proto = ''any'', fw_host = ''any''\<rparr>]
      else if inbound = InboundNone then []
      else [\<lparr>fw_port = ''any'', fw_proto = ''icmp'', fw_host = ''any''\<rparr>])"

definition CheatChromium :: string where "CheatChromium = ''chromium''"
definition CheatChromiumProbeRoute :: string where
  "CheatChromiumProbeRoute = ''fake-aaaa-global-conectivity-route''"

definition ValidCheat :: "string \<Rightarrow> string \<Rightarrow> bool" where
  "ValidCheat vendor name \<longleftrightarrow> vendor = CheatChromium \<and> name = CheatChromiumProbeRoute"

definition cheatKey :: "string \<Rightarrow> string \<Rightarrow> string" where
  "cheatKey vendor name = vendor @ ''/'' @ name"

definition Cheat :: "string \<Rightarrow> string \<Rightarrow> State \<Rightarrow> bool" where
  "Cheat vendor name s = the_default False (mget (da_Cheats (sta_data s)) (cheatKey vendor name))"

definition SetCheat :: "tenant_fault option \<Rightarrow> string \<Rightarrow> string \<Rightarrow> bool \<Rightarrow> State \<Rightarrow> State \<times> (tenant_err + unit)" where
  "SetCheat io vendor name on s =
     (if \<not> ValidCheat vendor name then (s, Inl (UnknownCheat (cheatKey vendor name)))
      else Write io (\<lambda>d.
        (if \<not> on then d\<lparr>da_Cheats := mdel (cheatKey vendor name) (da_Cheats d)\<rparr>
         else d\<lparr>da_Cheats := the (mput (cheatKey vendor name) True (ensure (da_Cheats d)))\<rparr>, None)) s)"

definition CheatsOn :: "bool \<Rightarrow> State \<Rightarrow> string list" where
  "CheatsOn cheating s =
     (if \<not> cheating then [] else sort (map fst (filter snd (items (da_Cheats (sta_data s))))))"

record choices =
  ch_families :: string
  ch_inbound :: string
  ch_chromiumProbeRoute :: bool

definition choices_of :: "bool \<Rightarrow> State \<Rightarrow> choices" where
  "choices_of cheating s =
     \<lparr>ch_families = (if ValidFamilies (da_Families (sta_data s)) then da_Families (sta_data s) else FamiliesBoth),
      ch_inbound = (if ValidInbound (da_Inbound (sta_data s)) then da_Inbound (sta_data s) else InboundPing),
      ch_chromiumProbeRoute = (cheating \<and>
        the_default False (mget (da_Cheats (sta_data s)) (cheatKey CheatChromium CheatChromiumProbeRoute)))\<rparr>"

definition Aliases :: "State \<Rightarrow> (string \<times> string) list" where
  "Aliases s = items (da_Aliases (sta_data s))"

definition State_SetAlias :: "tenant_fault option \<Rightarrow> string \<Rightarrow> string \<Rightarrow> State \<Rightarrow> State \<times> (tenant_err + unit)" where
  "State_SetAlias io alias canonical s =
     Write io (\<lambda>d.
       (if canonical = [] then d\<lparr>da_Aliases := mdel alias (da_Aliases d)\<rparr>
        else d\<lparr>da_Aliases := the (mput alias canonical (ensure (da_Aliases d)))\<rparr>, None)) s"

section \<open>Properties\<close>

lemma device_loop_taken: "(\<forall>i \<in> set is. device_name i \<in> set taken) \<Longrightarrow> device_loop taken is = ''robinet255''"
  by (induction "is") (auto simp: Let_def)

lemma device_loop_free:
  "device_name i \<notin> set taken \<Longrightarrow> (\<forall>j \<in> set before. device_name j \<in> set taken) \<Longrightarrow> device_loop taken (before @ i # after) = device_name i"
  by (induction before) (auto simp: Let_def)

lemma upt_split: "i < n \<Longrightarrow> [0..<n] = [0..<i] @ i # [Suc i..<n]"
  by (metis less_imp_le_nat upt_add_eq_append upt_conv_Cons zero_le le_add_diff_inverse)

text \<open>
  A new connection is given the lowest device name that no connection has, as long as one of the 256
  is free. With all of them taken it is given the last one, which another connection already runs on.
\<close>

theorem nextDevice_lowest_free:
  defines "taken \<equiv> \<lambda>d. con_Device ` set (vals (da_Connections d))"
  shows "(\<forall>i < 256. device_name i \<notin> taken d \<longrightarrow>
      (\<exists>j \<le> i. nextDevice d = device_name j \<and> device_name j \<notin> taken d \<and> (\<forall>k < j. device_name k \<in> taken d)))
    \<and> ((\<forall>i < 256. device_name i \<in> taken d) \<longrightarrow> nextDevice d = device_name 255 \<and> nextDevice d \<in> taken d)"
proof (intro conjI allI impI)
  fix i assume i: "i < 256" "device_name i \<notin> taken d"
  define j where "j = (LEAST j. device_name j \<notin> taken d)"
  have j: "device_name j \<notin> taken d" "j \<le> i" using i(2) unfolding j_def by (rule LeastI, rule Least_le)
  have least: "device_name k \<in> taken d" if "k < j" for k using not_less_Least that unfolding j_def by blast
  have "[0..<256] = [0..<j] @ j # [Suc j..<256]" using i(1) j(2) by (intro upt_split) simp
  then have "nextDevice d = device_name j"
    using device_loop_free [of j "map con_Device (vals (da_Connections d))" "[0..<j]" "[Suc j..<256]"] j(1) least
    by (auto simp: nextDevice_def taken_def simp del: upt_Suc)
  with j least show "\<exists>j \<le> i. nextDevice d = device_name j \<and> device_name j \<notin> taken d \<and> (\<forall>k < j. device_name k \<in> taken d)" by blast
next
  assume all: "\<forall>i < 256. device_name i \<in> taken d"
  have last: "device_name 255 = ''robinet255''" by code_simp
  have "nextDevice d = ''robinet255''" unfolding nextDevice_def
    by (rule device_loop_taken) (use all in \<open>auto simp: taken_def simp del: upt_Suc\<close>)
  with last show "nextDevice d = device_name 255" by simp
  with all show "nextDevice d \<in> taken d" by simp
qed

theorem nextDevice_lowest_free_witness:
  "nextDevice zero_data = ''robinet0''"
proof -
  have "device_name 0 \<notin> con_Device ` set (vals (da_Connections zero_data))" by (simp add: zero_data_def vals_def)
  then have "nextDevice zero_data = device_name 0"
    using nextDevice_lowest_free [THEN conjunct1, rule_format, of 0 zero_data] by auto
  then show ?thesis by simp code_simp
qed

lemma items_omitempty_data [simp]:
  "items (da_Cheats (json_data d)) = items (da_Cheats d)" "items (da_Aliases (json_data d)) = items (da_Aliases d)"
  "items (da_Owned (json_data d)) = items (da_Owned d)" "items (da_Connections (json_data d)) = items (da_Connections d)"
  by (simp_all add: json_data_def)

lemma tenant_trace_last: "io \<noteq> None \<Longrightarrow> tf_file (last (tenant_trace io d f)) = tf_file f"
  by (cases io) (auto simp: tenant_trace_def Let_def split: tenant_fault.split)

lemma Write_cases:
  assumes "Write io fn s = (s', res)"
  shows "sta_data s' = fst (fn (sta_data s))"
    and "res = Inr () \<longleftrightarrow> snd (fn (sta_data s)) = None \<and> io = None"
    and "res = Inr () \<Longrightarrow> sta_fs s' = \<lparr>tf_file = Some (WholeData (json_data (sta_data s'))), tf_tmp = None\<rparr>"
    and "res \<noteq> Inr () \<Longrightarrow> tf_file (sta_fs s') = tf_file (sta_fs s)"
  using assms tenant_trace_last [of io]
  by (auto simp: Write_def save_data_def tenant_trace_def Let_def split: prod.splits option.splits)

text \<open>
  A write is kept as a whole or not at all: at every moment of it the file is the old one or the new
  one. Once it has returned, a daemon that starts from the file reads the same choices, aliases,
  cheats, authorities and connections. When it fails, the file is the old one, although the running
  daemon goes on with the change.
\<close>

theorem Write_survives_restart:
  assumes "Write io fn s = (s', res)"
  shows "(\<forall>f \<in> set (tenant_trace io (sta_data s') (sta_fs s)).
        tf_file f = tf_file (sta_fs s) \<or> tf_file f = Some (WholeData (json_data (sta_data s'))))
    \<and> (res = Inr () \<longrightarrow> (\<exists>t. OpenState True (sta_fs s') = Inr t \<and> (\<forall>cheating. choices_of cheating t = choices_of cheating s'
        \<and> CheatsOn cheating t = CheatsOn cheating s') \<and> Aliases t = Aliases s' \<and> Connections t = Connections s'
        \<and> OwnedOf iid t = OwnedOf iid s' \<and> Registered t = Registered s'))
    \<and> (res \<noteq> Inr () \<longrightarrow> tf_file (sta_fs s') = tf_file (sta_fs s) \<and> sta_data s' = fst (fn (sta_data s)))"
proof (intro conjI impI)
  show "\<forall>f \<in> set (tenant_trace io (sta_data s') (sta_fs s)).
      tf_file f = tf_file (sta_fs s) \<or> tf_file f = Some (WholeData (json_data (sta_data s')))"
    by (auto simp: tenant_trace_def Let_def split: option.split tenant_fault.split)
next
  assume ok: "res = Inr ()"
  let ?d = "json_data (sta_data s')"
  let ?t = "\<lparr>sta_data = ?d\<lparr>da_Owned := ensure (da_Owned ?d), da_Connections := ensure (da_Connections ?d)\<rparr>, sta_fs = sta_fs s'\<rparr>"
  have "OpenState True (sta_fs s') = Inr ?t" using Write_cases(3) [OF assms ok] by (simp add: OpenState_def)
  moreover have "choices_of c ?t = choices_of c s' \<and> CheatsOn c ?t = CheatsOn c s'" for c
    by (simp add: choices_of_def CheatsOn_def mget_def) (simp add: json_data_def)
  moreover have "Aliases ?t = Aliases s' \<and> Connections ?t = Connections s' \<and> OwnedOf iid ?t = OwnedOf iid s'"
    by (simp add: Aliases_def Connections_def OwnedOf_def vals_def mget_def)
  moreover have "Registered ?t = Registered s'" by (simp add: Registered_def json_data_def)
  ultimately show "\<exists>t. OpenState True (sta_fs s') = Inr t \<and> (\<forall>c. choices_of c t = choices_of c s'
        \<and> CheatsOn c t = CheatsOn c s') \<and> Aliases t = Aliases s' \<and> Connections t = Connections s'
        \<and> OwnedOf iid t = OwnedOf iid s' \<and> Registered t = Registered s'" by blast
next
  assume "res \<noteq> Inr ()"
  then show "tf_file (sta_fs s') = tf_file (sta_fs s)" "sta_data s' = fst (fn (sta_data s))"
    using Write_cases(1,4) [OF assms] by blast+
qed

definition fresh_state :: State where
  "fresh_state = \<lparr>sta_data = zero_data\<lparr>da_Owned := Some [], da_Connections := Some []\<rparr>,
     sta_fs = \<lparr>tf_file = None, tf_tmp = None\<rparr>\<rparr>"

theorem Write_survives_restart_witness:
  "\<exists>t. OpenState True (sta_fs (fst (SetFamilies None ''ipv6'' fresh_state))) = Inr t
     \<and> ch_families (choices_of False t) = ''ipv6''"
proof -
  let ?fn = "\<lambda>d :: data. (d\<lparr>da_Families := ''ipv6''\<rparr>, None :: tenant_err option)"
  obtain s' res where w: "Write None ?fn fresh_state = (s', res)" by fastforce
  have "SetFamilies None ''ipv6'' fresh_state = Write None ?fn fresh_state"
    by (simp add: SetFamilies_def ValidFamilies_def FamiliesIPv6_def)
  moreover have "res = Inr ()" using Write_cases(2) [OF w] by simp
  moreover have "ch_families (choices_of False s') = ''ipv6''"
    using Write_cases(1) [OF w] by (simp add: choices_of_def ValidFamilies_def FamiliesIPv6_def)
  ultimately show ?thesis using Write_survives_restart [OF w] w by (metis fst_conv)
qed

text \<open>
  What a machine decides for itself: a valid setting is the one that is used from then on, in one
  consistent set of choices, and an invalid one changes nothing. Members of an instance reach more of
  the machine than its answer to a ping only after it was opened on purpose.
\<close>

theorem settings_take_effect:
  "(ValidFamilies f \<longrightarrow> (let s' = fst (SetFamilies io f s) in
       Families s' = f \<and> ch_families (choices_of cheating s') = f \<and> Inbound s' = Inbound s))
   \<and> (\<not> ValidFamilies f \<longrightarrow> SetFamilies io f s = (s, Inl (BadFamilies f)))
   \<and> (ValidInbound v \<longrightarrow> (let s' = fst (SetInbound io v s) in
       Inbound s' = v \<and> ch_inbound (choices_of cheating s') = v \<and> Families s' = Families s))
   \<and> (\<not> ValidInbound v \<longrightarrow> SetInbound io v s = (s, Inl (BadInbound v)))
   \<and> ((\<exists>r \<in> set (inboundRules (ch_inbound (choices_of cheating s))). fw_proto r \<noteq> ''icmp'')
       \<longleftrightarrow> da_Inbound (sta_data s) = InboundOpen)"
proof (intro conjI impI)
  show "let s' = fst (SetFamilies io f s) in Families s' = f \<and> ch_families (choices_of cheating s') = f \<and> Inbound s' = Inbound s"
    if "ValidFamilies f"
    using that Write_cases(1) [of io "\<lambda>d. (d\<lparr>da_Families := f\<rparr>, None)" s, OF surjective_pairing]
    by (simp add: SetFamilies_def Families_def Inbound_def choices_of_def)
  show "let s' = fst (SetInbound io v s) in Inbound s' = v \<and> ch_inbound (choices_of cheating s') = v \<and> Families s' = Families s"
    if "ValidInbound v"
    using that Write_cases(1) [of io "\<lambda>d. (d\<lparr>da_Inbound := v\<rparr>, None)" s, OF surjective_pairing]
    by (simp add: SetInbound_def Families_def Inbound_def choices_of_def)
  show "(\<exists>r \<in> set (inboundRules (ch_inbound (choices_of cheating s))). fw_proto r \<noteq> ''icmp'')
      \<longleftrightarrow> da_Inbound (sta_data s) = InboundOpen"
    by (auto simp: inboundRules_def choices_of_def ValidInbound_def InboundOpen_def InboundNone_def InboundPing_def)
qed (simp_all add: SetFamilies_def SetInbound_def)

theorem settings_take_effect_witness:
  "Inbound (fst (SetInbound None ''open'' fresh_state)) = ''open''"
  using settings_take_effect [of "''both''" None fresh_state False "''open''"]
  by (simp add: ValidInbound_def InboundOpen_def Let_def)

end
