(* ===== verification/Runner.thy ===== *)
theory Runner
  imports Tenant Lighthouse
begin

text \<open>
  The nebula of a tenant's connections, \<open>src/internal/tenant/runner.go\<close>: the configuration rendered from
  a connection, the hub's route table and the machine's own choices, and the map of the connections
  whose nebula is up with the text each was last handed. Nebula and yaml are the record \<open>nebula\<close> of the
  lighthouses.
\<close>

section \<open>Rendering\<close>

definition chromiumProbe :: prefix where
  "chromiumProbe = Prefix (Addr6 0x20014860486000000000000000008888) 128"

definition route_yaml :: "string \<Rightarrow> string \<Rightarrow> yaml" where
  "route_yaml route via = YMap [(''route'', YStr route), (''via'', YStr via)]"

definition rule_yaml :: "firewall_rule \<Rightarrow> yaml" where
  "rule_yaml r = YMap [(''port'', YStr (fw_port r)), (''proto'', YStr (fw_proto r)), (''host'', YStr (fw_host r))]"

definition installed_routes :: "Connection \<Rightarrow> RouteTable \<Rightarrow> choices \<Rightarrow> Route list" where
  "installed_routes conn table local =
     filter (\<lambda>r. rt_Via r \<noteq> paddr (con_Address conn) \<and> wantedFamily (ch_families local) (rt_Prefix r)) (rtab_Routes table)"

definition probe_route :: "Connection \<Rightarrow> choices \<Rightarrow> yaml list" where
  "probe_route conn local =
     (if ch_chromiumProbeRoute local \<and> PrefixIsValid (con_Address6 conn) \<and> wantedFamily (ch_families local) chromiumProbe
      then [route_yaml (PrefixString chromiumProbe) (AddrString (lh_OverlayAddress (con_Lighthouse conn)))] else [])"

definition unsafe_routes :: "Connection \<Rightarrow> RouteTable \<Rightarrow> choices \<Rightarrow> yaml list" where
  "unsafe_routes conn table local =
     map (\<lambda>r. route_yaml (PrefixString (rt_Prefix r)) (AddrString (rt_Via r))) (installed_routes conn table local)
     @ probe_route conn local"

definition blocklist_yaml :: "string list \<Rightarrow> (string \<times> yaml) list" where
  "blocklist_yaml blocked = (if 0 < length blocked then [(''blocklist'', YList (map YStr blocked))] else [])"

definition member_tree ::
  "(string \<times> yaml) list \<Rightarrow> Lighthouse \<Rightarrow> int \<Rightarrow> (string \<times> yaml) list \<Rightarrow> yaml list \<Rightarrow> yaml" where
  "member_tree pki lighthouse port tun inbound =
     (let lh = AddrString (lh_OverlayAddress lighthouse) in YMap
     ([(''pki'', YMap pki),
       (''static_host_map'', YMap [(lh, YList (map YStr (lh_Endpoints lighthouse)))]),
       (''lighthouse'', YMap
         [(''am_lighthouse'', YBool False), (''interval'', YInt 5), (''hosts'', YList [YStr lh])]),
       (''listen'', YMap [(''host'', YStr ''0.0.0.0''), (''port'', YInt port)]),
       (''punchy'', YMap [(''punch'', YBool True), (''respond'', YBool True), (''target_all_remotes'', YBool True)]),
       (''relay'', YMap [(''am_relay'', YBool False), (''use_relays'', YBool (lh_Relay lighthouse))]),
       (''handshakes'', YMap [(''try_interval'', YStr ''100ms''), (''retries'', YInt 40)]),
       (''timers'', YMap [(''connection_alive_interval'', YInt 2), (''pending_deletion_interval'', YInt 3)])]
      @ tun @
      [(''firewall'', YMap
         [(''default_local_cidr_any'', YBool True), (''outbound'', YList [any_rule]), (''inbound'', YList inbound)]),
       (''logging'', YMap [(''level'', YStr ''info''), (''format'', YStr ''text'')])]))"

definition tenant_tree :: "Connection \<Rightarrow> RouteTable \<Rightarrow> choices \<Rightarrow> yaml" where
  "tenant_tree conn table local =
     (let routes = unsafe_routes conn table local in
      member_tree
        ([(''ca'', YStr (con_CA conn)), (''cert'', YStr (con_Certificate conn)), (''key'', YStr (con_PrivateKey conn))]
           @ blocklist_yaml (rtab_Blocked table))
        (con_Lighthouse conn) (con_ListenPort conn)
        [(''tun'', YMap ([(''dev'', YStr (con_Device conn)), (''disabled'', YBool False)]
           @ (if 0 < length routes then [(''unsafe_routes'', YList routes)] else [])))]
        (map rule_yaml (inboundRules (ch_inbound local))))"

datatype run_err = NoCertificate string | NoEndpoint string | NotRendered | NotLoaded | NotStarted | NotReloaded

definition renderConfig :: "nebula \<Rightarrow> Connection \<Rightarrow> RouteTable \<Rightarrow> choices \<Rightarrow> run_err + string" where
  "renderConfig N conn table local =
     (if \<not> Ready conn then Inl (NoCertificate (con_Name conn))
      else if lh_Endpoints (con_Lighthouse conn) = [] then Inl (NoEndpoint (con_Name conn))
      else (case yaml_Marshal N (tenant_tree conn table local) of None \<Rightarrow> Inl NotRendered | Some raw \<Rightarrow> Inr raw))"

section \<open>Running\<close>

record runner =
  run_instance :: string
  run_raw :: string

type_synonym runners = "(string \<times> runner) list"

definition newRunners :: runners where "newRunners = []"

definition start_runner :: "nebula \<Rightarrow> Connection \<Rightarrow> RouteTable \<Rightarrow> choices \<Rightarrow> runners \<Rightarrow> runners \<times> (run_err + unit)" where
  "start_runner N conn table local rs =
     (if map_of rs (con_InstanceID conn) \<noteq> None then (rs, Inr ())
      else
        (case renderConfig N conn table local of
           Inl e \<Rightarrow> (rs, Inl e)
         | Inr raw \<Rightarrow>
             if \<not> neb_LoadString N raw then (rs, Inl NotLoaded)
             else if \<not> neb_Main N raw then (rs, Inl NotStarted)
             else (AList.update (con_InstanceID conn) \<lparr>run_instance = con_InstanceID conn, run_raw = raw\<rparr> rs, Inr ())))"

definition reload_runner :: "nebula \<Rightarrow> Connection \<Rightarrow> RouteTable \<Rightarrow> choices \<Rightarrow> runners \<Rightarrow> runners \<times> (run_err + unit)" where
  "reload_runner N conn table local rs =
     (case map_of rs (con_InstanceID conn) of
        None \<Rightarrow> (rs, Inr ())
      | Some r \<Rightarrow>
          (case renderConfig N conn table local of
             Inl e \<Rightarrow> (rs, Inl e)
           | Inr raw \<Rightarrow>
               if \<not> neb_ReloadConfigString N (run_raw r) raw then (rs, Inl NotReloaded)
               else (AList.update (con_InstanceID conn) (r\<lparr>run_raw := raw\<rparr>) rs, Inr ())))"

definition loaded :: "string \<Rightarrow> runners \<Rightarrow> string option" where
  "loaded inst rs = map_option run_raw (map_of rs inst)"

definition stop_runner :: "string \<Rightarrow> runners \<Rightarrow> runners" where
  "stop_runner inst rs = AList.delete inst rs"

definition stopAll_runners :: "runners \<Rightarrow> runners" where
  "stopAll_runners rs = fold (\<lambda>(k, _). AList.delete k) rs rs"

definition runner_isRunning :: "string \<Rightarrow> runners \<Rightarrow> bool" where
  "runner_isRunning inst rs \<longleftrightarrow> map_of rs inst \<noteq> None"

section \<open>Collisions\<close>

fun first_overlap :: "prefix list \<Rightarrow> prefix list \<Rightarrow> prefix option" where
  "first_overlap [] wanted = None"
| "first_overlap (a # held) wanted =
     (case find (Overlaps a) wanted of Some b \<Rightarrow> Some b | None \<Rightarrow> first_overlap held wanted)"

fun collides :: "(string \<times> prefix list) list \<Rightarrow> string \<Rightarrow> prefix list \<Rightarrow> (string \<times> prefix) option" where
  "collides [] inst wanted = None"
| "collides ((other, held) # rest) inst wanted =
     (if other = inst then collides rest inst wanted
      else (case first_overlap held wanted of Some b \<Rightarrow> Some (other, b) | None \<Rightarrow> collides rest inst wanted))"

section \<open>Properties\<close>

fun yget :: "string \<Rightarrow> yaml \<Rightarrow> yaml option" where
  "yget k (YMap m) = map_of m k"
| "yget k _ = None"

lemma blocklist_member_tree:
  "map_of pki ''blocklist'' = None \<Longrightarrow> tree_blocklist (member_tree (pki @ blocklist_yaml blocked) lh port tun inbound) = blocked"
  by (simp add: tree_blocklist_def member_tree_def blocklist_yaml_def Let_def map_add_def o_def)

lemma first_overlap_None: "first_overlap held wanted = None \<longleftrightarrow> (\<forall>a \<in> set held. \<forall>b \<in> set wanted. \<not> Overlaps a b)"
proof (induction held)
  case (Cons a held)
  show ?case
  proof (cases "find (Overlaps a) wanted")
    case None
    then have "\<forall>b \<in> set wanted. \<not> Overlaps a b" by (auto simp: find_None_iff)
    with None Cons.IH show ?thesis by simp
  next
    case (Some b)
    with find_SomeD [OF Some] show ?thesis by auto
  qed
qed simp

lemma first_overlap_Some: "first_overlap held wanted = Some b \<Longrightarrow> b \<in> set wanted \<and> (\<exists>a \<in> set held. Overlaps a b)"
  by (induction held) (auto split: option.splits dest: find_SomeD)

lemma collides_Some:
  "collides existing inst wanted = Some (other, b) \<Longrightarrow>
     other \<noteq> inst \<and> b \<in> set wanted \<and> (\<exists>held a. (other, held) \<in> set existing \<and> a \<in> set held \<and> Overlaps a b)"
proof (induction existing)
  case (Cons p rest)
  obtain o' held where p: "p = (o', held)" by fastforce
  consider "o' \<noteq> inst" "o' = other" "first_overlap held wanted = Some b" | "collides rest inst wanted = Some (other, b)"
    using Cons.prems by (auto simp: p split: if_splits option.splits)
  then show ?case
  proof cases
    case 1
    with first_overlap_Some [OF 1(3)] show ?thesis by (auto simp: p)
  next
    case 2
    from Cons.IH [OF this] show ?thesis by auto
  qed
qed simp

text \<open>
  A collision is reported exactly when some prefix of another instance overlaps a wanted one, and what
  is reported is such an instance and such a prefix.
\<close>

theorem collides_finds_overlaps:
  "(collides existing inst wanted = None \<longleftrightarrow>
      (\<forall>(other, held) \<in> set existing. other \<noteq> inst \<longrightarrow> (\<forall>a \<in> set held. \<forall>b \<in> set wanted. \<not> Overlaps a b)))
   \<and> (\<forall>other b. collides existing inst wanted = Some (other, b) \<longrightarrow>
      other \<noteq> inst \<and> b \<in> set wanted \<and> (\<exists>held a. (other, held) \<in> set existing \<and> a \<in> set held \<and> Overlaps a b))"
proof (intro conjI allI impI)
  show "collides existing inst wanted = None \<longleftrightarrow>
      (\<forall>(other, held) \<in> set existing. other \<noteq> inst \<longrightarrow> (\<forall>a \<in> set held. \<forall>b \<in> set wanted. \<not> Overlaps a b))"
  proof (induction existing inst wanted rule: collides.induct)
    case (2 other held rest inst wanted)
    show ?case
    proof (cases "first_overlap held wanted")
      case None
      then have "\<forall>a \<in> set held. \<forall>b \<in> set wanted. \<not> Overlaps a b" by (simp add: first_overlap_None)
      with None 2 show ?thesis by simp
    next
      case (Some b)
      with 2(1) first_overlap_Some [OF Some] show ?thesis by auto
    qed
  qed simp
next
  fix other b assume "collides existing inst wanted = Some (other, b)"
  then have "other \<noteq> inst \<and> b \<in> set wanted \<and> (\<exists>held a. (other, held) \<in> set existing \<and> a \<in> set held \<and> Overlaps a b)"
    by (rule collides_Some)
  then show "other \<noteq> inst" "b \<in> set wanted" "\<exists>held a. (other, held) \<in> set existing \<and> a \<in> set held \<and> Overlaps a b" by blast+
qed

theorem collides_finds_overlaps_witness:
  "collides [(''a'', [Prefix (Addr4 0x0A000000) 8])] ''b'' [Prefix (Addr4 0x0A000000) 8] = Some (''a'', Prefix (Addr4 0x0A000000) 8)"
proof -
  define p where "p = Prefix (Addr4 0x0A000000) 8"
  have p: "Overlaps p p" by (simp add: p_def Overlaps_def PrefixIsValid_def)
  have "collides [(''a'', [p])] ''b'' [p] \<noteq> None" using collides_finds_overlaps [of "[(''a'', [p])]" "''b''" "[p]"] p by simp
  then obtain other b where c: "collides [(''a'', [p])] ''b'' [p] = Some (other, b)" by fastforce
  from collides_finds_overlaps [THEN conjunct2, rule_format, OF c] have "b = p" "other = ''a''" by auto
  with c show ?thesis by (simp add: p_def)
qed

lemma renderConfig_Inr:
  "renderConfig N conn table local = Inr raw \<longleftrightarrow> Ready conn \<and> lh_Endpoints (con_Lighthouse conn) \<noteq> []
    \<and> yaml_Marshal N (tenant_tree conn table local) = Some raw"
  by (auto simp: renderConfig_def split: option.splits)

lemma blocklist_tenant_tree: "tree_blocklist (tenant_tree conn table local) = rtab_Blocked table"
  unfolding tenant_tree_def Let_def by (rule blocklist_member_tree) simp

text \<open>
  What a tenant's nebula is handed, once it is up and after every reload that succeeds: it refuses the
  certificates on the hub's blocklist, it installs the routes of others in the families the machine
  wants and, apart from the probe route when that was asked for, nothing else, and its inbound rules are
  those of the machine's own choice. A configuration that nebula refuses is not recorded.
\<close>

theorem runner_holds_the_table:
  assumes "reload_runner N conn table local rs = (rs', Inr ())" and "runner_isRunning (con_InstanceID conn) rs"
    and "yaml_roundtrip N"
  shows "\<exists>raw t tun firewall. loaded (con_InstanceID conn) rs' = Some raw \<and> yaml_Unmarshal N raw = Some t
    \<and> tree_blocklist t = rtab_Blocked table
    \<and> yget ''tun'' t = Some tun \<and> yget ''firewall'' t = Some firewall
    \<and> (case yget ''unsafe_routes'' tun of Some (YList l) \<Rightarrow> l | _ \<Rightarrow> []) =
        map (\<lambda>r. route_yaml (PrefixString (rt_Prefix r)) (AddrString (rt_Via r)))
          (filter (\<lambda>r. rt_Via r \<noteq> paddr (con_Address conn) \<and> wantedFamily (ch_families local) (rt_Prefix r)) (rtab_Routes table))
        @ probe_route conn local
    \<and> yget ''inbound'' firewall = Some (YList (map rule_yaml (inboundRules (ch_inbound local))))"
proof -
  obtain r raw where raw: "renderConfig N conn table local = Inr raw"
    and rs': "rs' = AList.update (con_InstanceID conn) (r\<lparr>run_raw := raw\<rparr>) rs"
    using assms(1,2) by (auto simp: reload_runner_def runner_isRunning_def split: option.splits sum.splits if_splits)
  let ?t = "tenant_tree conn table local"
  let ?tun = "YMap ([(''dev'', YStr (con_Device conn)), (''disabled'', YBool False)]
    @ (if 0 < length (unsafe_routes conn table local) then [(''unsafe_routes'', YList (unsafe_routes conn table local))] else []))"
  let ?fw = "YMap [(''default_local_cidr_any'', YBool True), (''outbound'', YList [any_rule]),
    (''inbound'', YList (map rule_yaml (inboundRules (ch_inbound local))))]"
  have "loaded (con_InstanceID conn) rs' = Some raw" by (simp add: loaded_def rs' update_conv')
  moreover have "yaml_Unmarshal N raw = Some ?t" using raw assms(3) by (simp add: renderConfig_Inr yaml_roundtrip_def)
  moreover have "yget ''tun'' ?t = Some ?tun" "yget ''firewall'' ?t = Some ?fw"
    by (simp_all add: tenant_tree_def member_tree_def Let_def)
  moreover have "(case yget ''unsafe_routes'' ?tun of Some (YList l) \<Rightarrow> l | _ \<Rightarrow> []) = unsafe_routes conn table local" by simp
  moreover have "yget ''inbound'' ?fw = Some (YList (map rule_yaml (inboundRules (ch_inbound local))))" by simp
  ultimately show ?thesis
    unfolding unsafe_routes_def [symmetric] installed_routes_def [symmetric] using blocklist_tenant_tree by blast
qed

definition example_connection :: Connection where
  "example_connection = \<lparr>con_InstanceID = ''i1'', con_Name = ''acme'', con_Role = ''tenant'', con_PublicKey = ''p'',
     con_PrivateKey = ''k'', con_Certificate = ''c'', con_CA = ''a'', con_Address = Prefix (Addr4 0xC6130003) 24,
     con_Address6 = PrefixNone,
     con_Lighthouse = \<lparr>lh_OverlayAddress = Addr4 0xC6130001, lh_OverlayAddress6 = AddrNone, lh_Endpoints = [''hub.example:4242''],
       lh_Relay = True\<rparr>,
     con_MTU = 1300, con_Device = ''robinet0'', con_ListenPort = 0, con_RequestedAt = 1, con_JoinedAt = 2\<rparr>"

definition example_table :: RouteTable where
  "example_table = \<lparr>rtab_Instance = ''acme'', rtab_Overlay = Prefix (Addr4 0xC6130000) 24,
     rtab_Lighthouse = con_Lighthouse example_connection,
     rtab_Routes = [\<lparr>rt_Prefix = Prefix (Addr4 0x0A000000) 8, rt_Via = Addr4 0xC61300FE, rt_Connector = ''web''\<rparr>],
     rtab_Resolvers = [], rtab_Blocked = [''c1''], rtab_MTU = 1300\<rparr>"

definition example_choices :: choices where
  "example_choices = \<lparr>ch_families = FamiliesBoth, ch_inbound = InboundPing, ch_chromiumProbeRoute = False\<rparr>"

theorem runner_holds_the_table_witness:
  "\<exists>N rs' raw t. reload_runner N example_connection example_table example_choices [(''i1'', \<lparr>run_instance = ''i1'', run_raw = []\<rparr>)]
       = (rs', Inr ()) \<and> loaded ''i1'' rs' = Some raw \<and> yaml_Unmarshal N raw = Some t \<and> tree_blocklist t = [''c1'']"
proof -
  let ?t = "tenant_tree example_connection example_table example_choices" and ?rs = "[(''i1'', \<lparr>run_instance = ''i1'', run_raw = []\<rparr>)]"
  define N where "N = two_trees ?t ?t"
  have rt: "yaml_roundtrip N" by (simp add: N_def two_trees_roundtrip)
  have "renderConfig N example_connection example_table example_choices = Inr ''t''"
    by (simp add: renderConfig_Inr N_def two_trees_def Ready_def example_connection_def)
  then obtain rs' where r: "reload_runner N example_connection example_table example_choices ?rs = (rs', Inr ())"
    by (simp add: reload_runner_def N_def two_trees_def example_connection_def)
  moreover have "runner_isRunning (con_InstanceID example_connection) ?rs"
    by (simp add: runner_isRunning_def example_connection_def)
  ultimately show ?thesis
    using runner_holds_the_table [OF r _ rt] by (fastforce simp: example_connection_def example_table_def)
qed

end
