(* ===== verification/Ca.thy ===== *)
theory Ca
  imports Protocol
begin

text \<open>
  The certificate authority of an instance, \<open>src/internal/ca/ca.go\<close> and \<open>hostkey.go\<close>: generating an
  authority, reading it back, issuing a certificate that never outlives it, and host keys.

  The certificate library of nebula is the record \<open>certlib\<close>: signing a certificate, and the PEM form of
  certificates, signing keys and public keys. A certificate is the fields that were signed and the
  signature over them. Random keys and the clock are arguments.
\<close>

datatype curve = Curve25519 | CurveP256

record TBSCertificate =
  tbs_Name :: string
  tbs_Networks :: "prefix list"
  tbs_UnsafeNetworks :: "prefix list"
  tbs_Groups :: "string list"
  tbs_NotBefore :: time
  tbs_NotAfter :: time
  tbs_PublicKey :: string
  tbs_IsCA :: bool
  tbs_Curve :: curve

record Certificate =
  crt_TBS :: TBSCertificate
  crt_Signature :: string

record certlib =
  cl_Sign :: "TBSCertificate \<Rightarrow> Certificate option \<Rightarrow> curve \<Rightarrow> string \<Rightarrow> Certificate option"
  cl_MarshalPEM :: "Certificate \<Rightarrow> string option"
  cl_UnmarshalCertificate :: "string \<Rightarrow> Certificate option"
  cl_MarshalSigningKey :: "curve \<Rightarrow> string \<Rightarrow> string"
  cl_UnmarshalSigningKey :: "string \<Rightarrow> (string \<times> curve) option"
  cl_MarshalPublicKey :: "curve \<Rightarrow> string \<Rightarrow> string"
  cl_MarshalPrivateKey :: "curve \<Rightarrow> string \<Rightarrow> string"
  cl_UnmarshalPublicKey :: "string \<Rightarrow> (string \<times> curve) option"
  cl_VerifyPrivateKey :: "Certificate \<Rightarrow> curve \<Rightarrow> string \<Rightarrow> bool"
  cl_PublicOf :: "string \<Rightarrow> string"
  cl_Fingerprint :: "Certificate \<Rightarrow> string option"

datatype ca_err =
    NoSigningKey
  | CouldNotSelfSign
  | CouldNotEncode
  | BadAuthority
  | NotAnAuthority string
  | BadSigningKey
  | CurveMismatch
  | ForeignKey
  | BadPublicKey
  | CouldNotSign

section \<open>The authority\<close>

definition day :: time where "day = 24 * 3600 * 1000000000"

definition DefaultCADuration :: time where "DefaultCADuration = 20 * 365 * day"

definition DefaultCertDuration :: time where "DefaultCertDuration = 10 * 365 * day"

record CA =
  ca_cert :: Certificate
  ca_key :: string

definition Generate :: "certlib \<Rightarrow> time \<Rightarrow> (string \<times> string) option \<Rightarrow> string \<Rightarrow> prefix list \<Rightarrow> time
    \<Rightarrow> ca_err + CA \<times> string \<times> string" where
  "Generate L now drawn name networks duration =
     (let duration = (if duration \<le> 0 then DefaultCADuration else duration) in
      case drawn of
        None \<Rightarrow> Inl NoSigningKey
      | Some (pub, priv) \<Rightarrow>
          (case cl_Sign L \<lparr>tbs_Name = name, tbs_Networks = networks, tbs_UnsafeNetworks = [], tbs_Groups = [],
                  tbs_NotBefore = now, tbs_NotAfter = now + duration, tbs_PublicKey = pub, tbs_IsCA = True,
                  tbs_Curve = Curve25519\<rparr> None Curve25519 priv of
             None \<Rightarrow> Inl CouldNotSelfSign
           | Some c \<Rightarrow>
               (case cl_MarshalPEM L c of
                  None \<Rightarrow> Inl CouldNotEncode
                | Some certPEM \<Rightarrow> Inr (\<lparr>ca_cert = c, ca_key = priv\<rparr>, certPEM, cl_MarshalSigningKey L Curve25519 priv))))"

definition Load :: "certlib \<Rightarrow> string \<Rightarrow> string \<Rightarrow> ca_err + CA" where
  "Load L certPEM keyPEM =
     (case cl_UnmarshalCertificate L certPEM of
        None \<Rightarrow> Inl BadAuthority
      | Some c \<Rightarrow>
          if \<not> tbs_IsCA (crt_TBS c) then Inl (NotAnAuthority (tbs_Name (crt_TBS c)))
          else
            (case cl_UnmarshalSigningKey L keyPEM of
               None \<Rightarrow> Inl BadSigningKey
             | Some (key, curve) \<Rightarrow>
                 if curve \<noteq> tbs_Curve (crt_TBS c) then Inl CurveMismatch
                 else if \<not> cl_VerifyPrivateKey L c curve key then Inl ForeignKey
                 else Inr \<lparr>ca_cert = c, ca_key = key\<rparr>))"

record Host =
  ho_Name :: string
  ho_PublicKeyPEM :: string
  ho_Networks :: "prefix list"
  ho_UnsafeNetworks :: "prefix list"
  ho_Groups :: "string list"
  ho_Duration :: time

definition Sign :: "certlib \<Rightarrow> time \<Rightarrow> CA \<Rightarrow> Host \<Rightarrow> ca_err + string" where
  "Sign L now ca h =
     (case cl_UnmarshalPublicKey L (ho_PublicKeyPEM h) of
        None \<Rightarrow> Inl BadPublicKey
      | Some (pub, curve) \<Rightarrow>
          if curve \<noteq> tbs_Curve (crt_TBS (ca_cert ca)) then Inl CurveMismatch
          else
            (let duration = (if ho_Duration h \<le> 0 then DefaultCertDuration else ho_Duration h);
                 notAfter = (if tbs_NotAfter (crt_TBS (ca_cert ca)) < now + duration
                             then tbs_NotAfter (crt_TBS (ca_cert ca)) else now + duration)
             in case cl_Sign L \<lparr>tbs_Name = ho_Name h, tbs_Networks = ho_Networks h, tbs_UnsafeNetworks = ho_UnsafeNetworks h,
                       tbs_Groups = ho_Groups h, tbs_NotBefore = now, tbs_NotAfter = notAfter, tbs_PublicKey = pub,
                       tbs_IsCA = False, tbs_Curve = curve\<rparr> (Some (ca_cert ca)) curve (ca_key ca) of
                  None \<Rightarrow> Inl CouldNotSign
                | Some c \<Rightarrow> (case cl_MarshalPEM L c of None \<Rightarrow> Inl CouldNotEncode | Some pem \<Rightarrow> Inr pem)))"

text \<open>The key pair of a host, as PEM; the random pair is the argument.\<close>

definition GenerateHostKey :: "certlib \<Rightarrow> (string \<times> string) option \<Rightarrow> (string \<times> string) option" where
  "GenerateHostKey L drawn =
     (case drawn of
        None \<Rightarrow> None
      | Some (pub, priv) \<Rightarrow> Some (cl_MarshalPublicKey L Curve25519 pub, cl_MarshalPrivateKey L Curve25519 priv))"

section \<open>What the library promises\<close>

text \<open>
  A certificate holds what was signed, with its networks in an order of the library's own and its times
  in whole seconds; PEM is read back as what was written; and a private key belongs to the authority
  made for its public key.
\<close>

definition seconds :: "time \<Rightarrow> time" where "seconds t = t div 1000000000 * 1000000000"

definition holds_signed :: "Certificate \<Rightarrow> TBSCertificate \<Rightarrow> bool" where
  "holds_signed c tbs \<longleftrightarrow>
     (let t = crt_TBS c in
      tbs_Name t = tbs_Name tbs \<and> set (tbs_Networks t) = set (tbs_Networks tbs)
      \<and> set (tbs_UnsafeNetworks t) = set (tbs_UnsafeNetworks tbs) \<and> tbs_Groups t = tbs_Groups tbs
      \<and> tbs_NotBefore t = seconds (tbs_NotBefore tbs) \<and> tbs_NotAfter t = seconds (tbs_NotAfter tbs)
      \<and> tbs_PublicKey t = tbs_PublicKey tbs \<and> tbs_IsCA t = tbs_IsCA tbs \<and> tbs_Curve t = tbs_Curve tbs)"

definition certlib_ok :: "certlib \<Rightarrow> bool" where
  "certlib_ok L \<longleftrightarrow>
     (\<forall>tbs signer curve key c. cl_Sign L tbs signer curve key = Some c \<longrightarrow> holds_signed c tbs)
   \<and> (\<forall>c pem. cl_MarshalPEM L c = Some pem \<longrightarrow> cl_UnmarshalCertificate L pem = Some c)
   \<and> (\<forall>curve key. cl_UnmarshalSigningKey L (cl_MarshalSigningKey L curve key) = Some (key, curve))
   \<and> (\<forall>curve pub. cl_UnmarshalPublicKey L (cl_MarshalPublicKey L curve pub) = Some (pub, curve))
   \<and> (\<forall>c key. tbs_IsCA (crt_TBS c) \<longrightarrow> tbs_PublicKey (crt_TBS c) = cl_PublicOf L key
        \<longrightarrow> cl_VerifyPrivateKey L c (tbs_Curve (crt_TBS c)) key)"

lemma certlib_laws:
  assumes "certlib_ok L"
  shows sign_tbs: "cl_Sign L tbs signer curve key = Some c \<Longrightarrow> holds_signed c tbs"
    and cert_pem: "cl_MarshalPEM L c = Some pem \<Longrightarrow> cl_UnmarshalCertificate L pem = Some c"
    and key_pem: "cl_UnmarshalSigningKey L (cl_MarshalSigningKey L curve key) = Some (key, curve)"
    and public_pem: "cl_UnmarshalPublicKey L (cl_MarshalPublicKey L curve pub) = Some (pub, curve)"
    and own_key: "tbs_IsCA (crt_TBS c) \<Longrightarrow> tbs_PublicKey (crt_TBS c) = cl_PublicOf L key
      \<Longrightarrow> cl_VerifyPrivateKey L c (tbs_Curve (crt_TBS c)) key"
  using assms by (auto simp: certlib_ok_def)

lemma seconds_le: "seconds t \<le> t"
  by (simp add: seconds_def div_times_less_eq_dividend)

lemma Sign_content:
  assumes "certlib_ok L" and "Sign L now ca h = Inr pem"
  shows "\<exists>c. cl_UnmarshalCertificate L pem = Some c
    \<and> cl_UnmarshalPublicKey L (ho_PublicKeyPEM h) = Some (tbs_PublicKey (crt_TBS c), tbs_Curve (crt_TBS (ca_cert ca)))
    \<and> tbs_Name (crt_TBS c) = ho_Name h \<and> set (tbs_Networks (crt_TBS c)) = set (ho_Networks h)
    \<and> set (tbs_UnsafeNetworks (crt_TBS c)) = set (ho_UnsafeNetworks h) \<and> \<not> tbs_IsCA (crt_TBS c)
    \<and> tbs_NotAfter (crt_TBS c) \<le> tbs_NotAfter (crt_TBS (ca_cert ca))"
proof -
  obtain pub c notAfter where pub: "cl_UnmarshalPublicKey L (ho_PublicKeyPEM h) = Some (pub, tbs_Curve (crt_TBS (ca_cert ca)))"
    and c: "cl_Sign L \<lparr>tbs_Name = ho_Name h, tbs_Networks = ho_Networks h, tbs_UnsafeNetworks = ho_UnsafeNetworks h,
        tbs_Groups = ho_Groups h, tbs_NotBefore = now, tbs_NotAfter = notAfter, tbs_PublicKey = pub,
        tbs_IsCA = False, tbs_Curve = tbs_Curve (crt_TBS (ca_cert ca))\<rparr> (Some (ca_cert ca)) (tbs_Curve (crt_TBS (ca_cert ca))) (ca_key ca)
      = Some c" "notAfter \<le> tbs_NotAfter (crt_TBS (ca_cert ca))" "cl_MarshalPEM L c = Some pem"
    using assms(2) by (auto simp: Sign_def Let_def not_less split: option.splits prod.splits if_splits)
  have s: "holds_signed c \<lparr>tbs_Name = ho_Name h, tbs_Networks = ho_Networks h, tbs_UnsafeNetworks = ho_UnsafeNetworks h,
        tbs_Groups = ho_Groups h, tbs_NotBefore = now, tbs_NotAfter = notAfter, tbs_PublicKey = pub,
        tbs_IsCA = False, tbs_Curve = tbs_Curve (crt_TBS (ca_cert ca))\<rparr>" by (rule sign_tbs [OF assms(1) c(1)])
  then have "tbs_NotAfter (crt_TBS c) \<le> tbs_NotAfter (crt_TBS (ca_cert ca))"
    using c(2) seconds_le [of notAfter] by (simp add: holds_signed_def Let_def)
  with s pub cert_pem [OF assms(1) c(3)] show ?thesis by (auto simp: holds_signed_def Let_def)
qed

lemma Load_Generate:
  assumes "certlib_ok L" and "Generate L now (Some (cl_PublicOf L priv, priv)) name networks duration = Inr (ca, certPEM, keyPEM)"
  shows "Load L certPEM keyPEM = Inr ca \<and> tbs_IsCA (crt_TBS (ca_cert ca))
    \<and> set (tbs_Networks (crt_TBS (ca_cert ca))) = set networks"
proof -
  obtain c tbs where d: "cl_MarshalPEM L c = Some certPEM"
    "ca = \<lparr>ca_cert = c, ca_key = priv\<rparr>" "keyPEM = cl_MarshalSigningKey L Curve25519 priv"
    and c: "cl_Sign L tbs None Curve25519 priv = Some c"
    and tbs: "tbs_Networks tbs = networks" "tbs_PublicKey tbs = cl_PublicOf L priv" "tbs_IsCA tbs" "tbs_Curve tbs = Curve25519"
    using assms(2) by (auto simp: Generate_def Let_def split: option.splits)
  have h: "tbs_IsCA (crt_TBS c)" "tbs_PublicKey (crt_TBS c) = cl_PublicOf L priv" "tbs_Curve (crt_TBS c) = Curve25519"
    "set (tbs_Networks (crt_TBS c)) = set networks"
    using sign_tbs [OF assms(1) c] tbs by (simp_all add: holds_signed_def Let_def)
  with own_key [OF assms(1) h(1,2)] show ?thesis using d cert_pem [OF assms(1) d(1)] key_pem [OF assms(1)] by (simp add: Load_def)
qed

text \<open>
  C15: an authority that is generated can be loaded from what was kept of it, and what it signs holds exactly
  the name, the key, the addresses and the networks it was asked for, is no authority itself, and ends
  no later than the authority does.
\<close>

theorem certificate_within_authority:
  assumes "certlib_ok L" and "Generate L now (Some (cl_PublicOf L priv, priv)) name networks duration = Inr (ca, certPEM, keyPEM)"
  shows "Load L certPEM keyPEM = Inr ca
    \<and> (\<forall>later h pem. Sign L later ca h = Inr pem \<longrightarrow>
        (\<exists>c. cl_UnmarshalCertificate L pem = Some c
          \<and> cl_UnmarshalPublicKey L (ho_PublicKeyPEM h) = Some (tbs_PublicKey (crt_TBS c), tbs_Curve (crt_TBS (ca_cert ca)))
          \<and> tbs_Name (crt_TBS c) = ho_Name h \<and> set (tbs_Networks (crt_TBS c)) = set (ho_Networks h)
          \<and> set (tbs_UnsafeNetworks (crt_TBS c)) = set (ho_UnsafeNetworks h) \<and> \<not> tbs_IsCA (crt_TBS c)
          \<and> tbs_NotAfter (crt_TBS c) \<le> tbs_NotAfter (crt_TBS (ca_cert ca))))"
  using Load_Generate [OF assms] Sign_content [OF assms(1)] by blast

section \<open>An example\<close>

text \<open>
  A library for the examples: the certificates it can write are listed with their PEM form, a signature
  is the key it was made with, and a key is written behind a tag for its curve.
\<close>

definition tag :: "curve \<Rightarrow> char" where
  "tag curve = (case curve of Curve25519 \<Rightarrow> CHR ''x'' | CurveP256 \<Rightarrow> CHR ''p'')"

definition untag :: "string \<Rightarrow> (string \<times> curve) option" where
  "untag s = (case s of c # k \<Rightarrow> if c = CHR ''x'' then Some (k, Curve25519) else if c = CHR ''p'' then Some (k, CurveP256) else None
    | [] \<Rightarrow> None)"

definition listed_certlib :: "(string \<times> Certificate) list \<Rightarrow> certlib" where
  "listed_certlib certs =
     \<lparr>cl_Sign = (\<lambda>tbs signer curve key. Some \<lparr>crt_TBS = tbs\<lparr>tbs_NotBefore := seconds (tbs_NotBefore tbs),
         tbs_NotAfter := seconds (tbs_NotAfter tbs)\<rparr>, crt_Signature = key\<rparr>),
      cl_MarshalPEM = (\<lambda>c. map_option fst (find (\<lambda>(_, d). d = c) certs)),
      cl_UnmarshalCertificate = map_of certs,
      cl_MarshalSigningKey = (\<lambda>curve key. tag curve # key), cl_UnmarshalSigningKey = untag,
      cl_MarshalPublicKey = (\<lambda>curve key. tag curve # key), cl_MarshalPrivateKey = (\<lambda>curve key. tag curve # key),
      cl_UnmarshalPublicKey = untag, cl_VerifyPrivateKey = (\<lambda>c curve key. tbs_PublicKey (crt_TBS c) = ''P'' @ key), cl_PublicOf = (@) ''P'',
      cl_Fingerprint = (\<lambda>c. Some (tbs_Name (crt_TBS c)))\<rparr>"

lemma untag_tag [simp]: "untag (tag curve # k) = Some (k, curve)"
  by (cases curve) (simp_all add: untag_def tag_def)

lemma listed_certlib_ok: "distinct (map fst certs) \<Longrightarrow> certlib_ok (listed_certlib certs)"
  by (auto simp: certlib_ok_def listed_certlib_def holds_signed_def dest!: find_SomeD)

definition example_authority :: Certificate where
  "example_authority = \<lparr>crt_TBS = \<lparr>tbs_Name = ''robinet-acme'', tbs_Networks = [], tbs_UnsafeNetworks = [], tbs_Groups = [],
     tbs_NotBefore = 0, tbs_NotAfter = day, tbs_PublicKey = ''PK'', tbs_IsCA = True, tbs_Curve = Curve25519\<rparr>, crt_Signature = ''K''\<rparr>"

definition example_host :: Host where
  "example_host = \<lparr>ho_Name = ''web'', ho_PublicKeyPEM = ''xh'', ho_Networks = [], ho_UnsafeNetworks = [], ho_Groups = [], ho_Duration = 0\<rparr>"

definition example_cert :: Certificate where
  "example_cert = \<lparr>crt_TBS = \<lparr>tbs_Name = ''web'', tbs_Networks = [], tbs_UnsafeNetworks = [], tbs_Groups = [],
     tbs_NotBefore = 0, tbs_NotAfter = day, tbs_PublicKey = ''h'', tbs_IsCA = False, tbs_Curve = Curve25519\<rparr>, crt_Signature = ''K''\<rparr>"

definition example_certlib :: certlib where
  "example_certlib = listed_certlib [(''A'', example_authority), (''C'', example_cert)]"

theorem certificate_within_authority_witness:
  "Load example_certlib ''A'' ''xK'' = Inr \<lparr>ca_cert = example_authority, ca_key = ''K''\<rparr>
   \<and> (\<exists>c. cl_UnmarshalCertificate example_certlib ''C'' = Some c \<and> tbs_NotAfter (crt_TBS c) \<le> day \<and> tbs_Name (crt_TBS c) = ''web'')"
proof -
  have ok: "certlib_ok example_certlib" unfolding example_certlib_def by (rule listed_certlib_ok) simp
  have g: "Generate example_certlib 0 (Some (cl_PublicOf example_certlib ''K'', ''K'')) ''robinet-acme'' [] day
      = Inr (\<lparr>ca_cert = example_authority, ca_key = ''K''\<rparr>, ''A'', ''xK'')"
    and h: "Sign example_certlib 7 \<lparr>ca_cert = example_authority, ca_key = ''K''\<rparr> example_host = Inr ''C''"
    by (simp_all add: example_certlib_def listed_certlib_def Generate_def Sign_def example_authority_def example_cert_def
        example_host_def untag_def tag_def DefaultCertDuration_def day_def seconds_def)
  note t = certificate_within_authority [OF ok g]
  from t [THEN conjunct2, rule_format, OF h] obtain c where "cl_UnmarshalCertificate example_certlib ''C'' = Some c"
    "tbs_NotAfter (crt_TBS c) \<le> day" "tbs_Name (crt_TBS c) = ''web''"
    by (auto simp: example_host_def example_authority_def)
  with t [THEN conjunct1] show ?thesis by blast
qed

end
