(* ===== verification/Pin.thy ===== *)
theory Pin
  imports Bootstrap Parse
begin

text \<open>
  Pinning a hub by the hash of its public key, \<open>src/internal/pin/pin.go\<close>: writing a pin, reading one
  in either notation and either alphabet, and checking what a peer presents.

  A certificate is its \<open>SubjectPublicKeyInfo\<close>, the only part that is looked at; \<open>crypto/x509\<close> is the
  parameter that reads one out of the bytes presented. The letters of the prefix are ASCII, and so
  is whatever \<open>strings.EqualFold\<close> finds equal to it in as many bytes.
\<close>

definition Prefix_pin :: string where "Prefix_pin = ''SHA256:''"
definition legacyPrefix :: string where "legacyPrefix = ''sha256/''"

definition sumOf :: "crypto \<Rightarrow> string \<Rightarrow> string" where
  "sumOf C spki = cr_sha256 C spki"

definition Of :: "crypto \<Rightarrow> string \<Rightarrow> string" where
  "Of C spki = Prefix_pin @ b64url_encode (sumOf C spki)"

definition EqualFold :: "string \<Rightarrow> string \<Rightarrow> bool" where
  "EqualFold s t \<longleftrightarrow> map lower_char s = map lower_char t"

definition has_prefix_fold :: "string \<Rightarrow> string \<Rightarrow> bool" where
  "has_prefix_fold value p \<longleftrightarrow> length p \<le> length value \<and> EqualFold (take (length p) value) p"

definition Written :: "unicode \<Rightarrow> string \<Rightarrow> bool" where
  "Written U raw \<longleftrightarrow> has_prefix_fold (TrimSpace U raw) Prefix_pin"

text \<open>The standard alphabet differs from the one of URLs in two characters.\<close>

definition b64std_digit :: "char \<Rightarrow> nat option" where
  "b64std_digit c =
     (if c = CHR ''+'' then Some 62 else if c = CHR ''/'' then Some 63
      else if c = CHR ''-'' \<or> c = CHR ''_'' then None else b64_digit c)"

definition b64std_decode :: "string \<Rightarrow> string option" where
  "b64std_decode s =
     (case all_some (map b64std_digit (filter (\<lambda>c. c \<noteq> CHR 0x0A \<and> c \<noteq> CHR 0x0D) s)) of
        None \<Rightarrow> None
      | Some ns \<Rightarrow> map_option (map char_of) (octets ns))"

definition decode_pin :: "string \<Rightarrow> string option" where
  "decode_pin raw =
     (let value = trim_right (\<lambda>c. c = CHR ''='') raw in
      case b64url_decode value of
        Some digest \<Rightarrow> Some digest
      | None \<Rightarrow> b64std_decode value)"

datatype pin_err = PinEmpty | PinNotBase64 string | PinLength string nat

definition strip_prefix :: "string \<Rightarrow> string" where
  "strip_prefix value =
     (case find (has_prefix_fold value) [Prefix_pin, legacyPrefix] of
        Some p \<Rightarrow> drop (length p) value
      | None \<Rightarrow> value)"

definition ParsePin :: "unicode \<Rightarrow> string \<Rightarrow> pin_err + string" where
  "ParsePin U raw =
     (let value = TrimSpace U raw in
      if value = [] then Inl PinEmpty
      else case decode_pin (strip_prefix value) of
             None \<Rightarrow> Inl (PinNotBase64 raw)
           | Some digest \<Rightarrow> if length digest \<noteq> 32 then Inl (PinLength raw (length digest)) else Inr digest)"

definition Rewritten :: "unicode \<Rightarrow> string \<Rightarrow> pin_err + string" where
  "Rewritten U raw =
     (case ParsePin U raw of
        Inl e \<Rightarrow> Inl e
      | Inr digest \<Rightarrow> Inr (Prefix_pin @ b64url_encode digest))"

text \<open>What \<open>TLSConfig\<close> gives the handshake to check the presented certificates with, the peer's own first.\<close>

definition VerifyPeerCertificate :: "crypto \<Rightarrow> (string \<Rightarrow> string option) \<Rightarrow> string \<Rightarrow> string list \<Rightarrow> bool" where
  "VerifyPeerCertificate C x509 want rawCerts \<longleftrightarrow>
     (\<exists>der \<in> set rawCerts. case x509 der of None \<Rightarrow> False | Some spki \<Rightarrow> sumOf C spki = want)"

definition TLSConfig :: "crypto \<Rightarrow> unicode \<Rightarrow> (string \<Rightarrow> string option) \<Rightarrow> string \<Rightarrow> pin_err + (string list \<Rightarrow> bool)" where
  "TLSConfig C U x509 raw =
     (case ParsePin U raw of
        Inl e \<Rightarrow> Inl e
      | Inr want \<Rightarrow> Inr (VerifyPeerCertificate C x509 want))"

section \<open>Facts\<close>

lemma b64url_ok_plain: "b64url_ok c \<Longrightarrow> is_ascii c \<and> \<not> is_space c \<and> c \<noteq> CHR ''=''"
  unfolding b64url_ok_def
  by (elim disjE) (auto simp: is_ascii_def is_space_def is_upper_def is_lower_def is_digit_def Let_def)

lemma b64_trim:
  assumes "\<forall>c \<in> set s. b64url_ok c"
  shows "trim_right (\<lambda>c. c = CHR ''='') s = s"
proof (cases "s = []")
  case False
  then have "last s \<noteq> CHR ''=''" using assms b64url_ok_plain last_in_set by blast
  then show ?thesis by (simp add: trim_right_id)
qed (simp add: trim_right_id)

lemma decode_pin_encode: "decode_pin (b64url_encode s) = Some s"
  using b64_trim [of "b64url_encode s"] b64url_encode_ok [of _ s] by (simp add: decode_pin_def b64url_decode_encode Let_def)

lemma strip_written: "strip_prefix (Prefix_pin @ s) = s"
  by (simp add: strip_prefix_def has_prefix_fold_def EqualFold_def)

lemma pin_printable:
  assumes "\<forall>c \<in> set s. b64url_ok c"
  shows "TrimSpace U (Prefix_pin @ s) = Prefix_pin @ s"
proof -
  have "list_all (\<lambda>c. is_ascii c \<and> \<not> is_space c) Prefix_pin" by code_simp
  then have "\<forall>c \<in> set (Prefix_pin @ s). is_ascii c \<and> \<not> is_space c"
    using assms b64url_ok_plain unfolding list_all_iff set_append by blast
  then show ?thesis by (simp add: TrimSpace_def ascii_iff trim_by_none del: set_append)
qed

lemma ParsePin_written:
  assumes "length digest = 32"
  shows "ParsePin U (Prefix_pin @ b64url_encode digest) = Inr digest"
proof -
  have "Prefix_pin @ b64url_encode digest \<noteq> []" by (simp add: Prefix_pin_def)
  then show ?thesis
    using pin_printable [of "b64url_encode digest" U] b64url_encode_ok [of _ digest] assms
    by (simp add: ParsePin_def strip_written decode_pin_encode Let_def)
qed

section \<open>Properties\<close>

text \<open>
  Whatever notation and alphabet a pin was written in, rewriting it keeps the key it names, and
  the rewritten pin reads back as that hash, is recognizable as a pin, holds no slash, plus or padding
  and so can travel in an endpoint, and is left alone by another rewriting.
\<close>

theorem Rewritten_keeps_key:
  assumes "ParsePin U raw = Inr digest"
  shows "\<exists>pin. Rewritten U raw = Inr pin \<and> ParsePin U pin = Inr digest \<and> Rewritten U pin = Inr pin \<and> Written U pin
    \<and> CHR ''/'' \<notin> set pin \<and> CHR ''+'' \<notin> set pin \<and> CHR ''='' \<notin> set pin"
proof -
  let ?pin = "Prefix_pin @ b64url_encode digest"
  have l: "length digest = 32" using assms by (auto simp: ParsePin_def Let_def split: if_splits option.splits)
  have ok: "\<forall>c \<in> set (b64url_encode digest). b64url_ok c" using b64url_encode_ok by blast
  have "\<not> b64url_ok CHR ''/''" "\<not> b64url_ok CHR ''+''" "\<not> b64url_ok CHR ''=''"
    by (simp_all add: b64url_ok_def is_upper_def is_lower_def is_digit_def)
  with ok have "CHR ''/'' \<notin> set ?pin" "CHR ''+'' \<notin> set ?pin" "CHR ''='' \<notin> set ?pin" by (auto simp: Prefix_pin_def)
  moreover have "Written U ?pin"
    unfolding Written_def pin_printable [OF ok] by (simp add: has_prefix_fold_def EqualFold_def)
  ultimately show ?thesis
    using assms ParsePin_written [OF l, of U] by (simp add: Rewritten_def)
qed

text \<open>
  C40: the check is over all the certificates that are presented, not over the one the peer proved to
  hold the key of. A peer with a key of its own that sends the hub's certificate along behind its
  own is accepted, whatever its own is.
\<close>

theorem pin_matches_any_certificate:
  assumes "TLSConfig C U x509 (Of C spki) = Inr check" and "length (sumOf C spki) = 32" and "x509 der = Some spki"
  shows "check (leaf # der # rest)"
  using assms ParsePin_written [OF assms(2), of U]
  by (auto simp: TLSConfig_def Of_def VerifyPeerCertificate_def)

definition sha_pad :: crypto where
  "sha_pad = example_crypto\<lparr>cr_sha256 := (\<lambda>s. take 32 (s @ replicate 32 CHR ''x''))\<rparr>"

lemma sha_pad_length: "length (sumOf sha_pad s) = 32"
  by (auto simp: sumOf_def sha_pad_def min_def)

theorem Rewritten_keeps_key_witness:
  "\<exists>pin. Rewritten no_unicode (Of sha_pad ''key'') = Inr pin \<and> CHR ''/'' \<notin> set pin"
proof -
  have "ParsePin no_unicode (Of sha_pad ''key'') = Inr (sumOf sha_pad ''key'')"
    using ParsePin_written [OF sha_pad_length] by (simp add: Of_def)
  from Rewritten_keeps_key [OF this] show ?thesis by blast
qed

theorem pin_matches_any_certificate_witness:
  "\<exists>check. TLSConfig sha_pad no_unicode Some (Of sha_pad ''hub'') = Inr check \<and> check [''mallory'', ''hub''] \<and> \<not> check [''mallory'']"
proof -
  have p: "ParsePin no_unicode (Of sha_pad ''hub'') = Inr (sumOf sha_pad ''hub'')"
    using ParsePin_written [OF sha_pad_length] by (simp add: Of_def)
  then have t: "TLSConfig sha_pad no_unicode Some (Of sha_pad ''hub'') = Inr (VerifyPeerCertificate sha_pad Some (sumOf sha_pad ''hub''))"
    by (simp add: TLSConfig_def)
  have "sumOf sha_pad ''mallory'' \<noteq> sumOf sha_pad ''hub''" by (simp add: sumOf_def sha_pad_def numeral_eq_Suc)
  then have "\<not> VerifyPeerCertificate sha_pad Some (sumOf sha_pad ''hub'') [''mallory'']" by (simp add: VerifyPeerCertificate_def)
  then show ?thesis using t pin_matches_any_certificate [OF t sha_pad_length refl, of "''mallory''" "[]"] by blast
qed

end
