(* ===== verification/Connector.thy ===== *)
theory Connector
  imports Discover Runner Ca Pin Service
begin

text \<open>
  The connector, \<open>src/internal/connector\<close>: the directory with its identity (\<open>state.go\<close>), the client of
  the enrollment mailbox with its wait for a decision (\<open>enroll.go\<close>), the nebula configuration
  (\<open>nebconfig.go\<close>), and a run from the first start to the watch over the blocklist (\<open>connector.go\<close>).

  A request over HTTP changes whatever is at the other end, a state of any type \<open>'h\<close>, and gives a status
  and a body, or \<open>None\<close> when nothing was answered. Waiting is the argument \<open>pass\<close>: what the world is after
  a while, and whether the context is still alive then. \<open>encoding/json\<close> is the record \<open>cjson\<close>, the fate of
  file operations the record \<open>disk\<close>, and the certificate library, nebula and the machine are the records
  of the other components.
\<close>

section \<open>The state directory\<close>

type_synonym directory = "string \<rightharpoonup> string"

text \<open>
  Whether the directory can be made, whether a file that exists can be read, what a write that fails
  leaves behind, and whether a rename succeeds.
\<close>

record disk =
  dk_MkdirAll :: bool
  dk_Readable :: "string \<Rightarrow> bool"
  dk_Torn :: "string \<Rightarrow> string option"
  dk_Rename :: "string \<Rightarrow> bool"

definition good_disk :: disk where
  "good_disk = \<lparr>dk_MkdirAll = True, dk_Readable = (\<lambda>_. True), dk_Torn = (\<lambda>_. None), dk_Rename = (\<lambda>_. True)\<rparr>"

record cjson =
  cj_Request :: "Request \<Rightarrow> string option"
  cj_ID :: "string \<Rightarrow> string option"
  cj_Result :: "string \<Rightarrow> Result option"
  cj_Error :: "string \<Rightarrow> Error option"
  cj_Bundle :: "Bundle \<Rightarrow> string option"
  cj_readBundle :: "string \<Rightarrow> Bundle option"

record cworld =
  cw_env :: env
  cw_crypto :: crypto
  cw_x509 :: "string \<Rightarrow> string option"
  cw_cert :: certlib
  cw_json :: cjson
  cw_machine :: machine

datatype conn_err =
    NoDirectory
  | NoKey
  | KeyUnreadable
  | PublicKeyUnreadable
  | NotWritten string
  | NotMarshalled
  | HubRequired
  | BadZone name_err
  | BadPin pin_err
  | Unreachable
  | HubError nat Error
  | HubSaid nat string
  | BadAnswer
  | NoRequestID
  | ApprovedWithout
  | EnrollmentRejected string
  | Cancelled
  | NoLighthouseAddress
  | NoLighthouseEndpoint
  | ConfigNotRendered
  | ConfigNotLoaded
  | NebulaNotStarted
  | StackNotStarted

record cstate =
  cst_PublicKeyPEM :: string
  cst_PrivateKeyPEM :: string
  cst_RequestID :: string
  cst_Bundle :: "Bundle option"

definition fileKey :: string where "fileKey = ''host.key''"
definition filePublicKey :: string where "filePublicKey = ''host.pub''"
definition fileRequest :: string where "fileRequest = ''request.id''"
definition fileBundle :: string where "fileBundle = ''bundle.json''"

definition write_state :: "disk \<Rightarrow> string \<Rightarrow> string \<Rightarrow> directory \<Rightarrow> directory \<times> (conn_err + unit)" where
  "write_state K name content dir =
     (let tmp = name @ ''.tmp'' in
      case dk_Torn K tmp of
        Some torn \<Rightarrow> (dir(tmp \<mapsto> torn), Inl (NotWritten name))
      | None \<Rightarrow>
          if \<not> dk_Rename K name then (dir(tmp \<mapsto> content), Inl (NotWritten name))
          else (dir(name \<mapsto> content, tmp := None), Inr ()))"

definition read_state :: "disk \<Rightarrow> string \<Rightarrow> directory \<Rightarrow> string option" where
  "read_state K name dir = (if dk_Readable K name then dir name else None)"

definition load_rest :: "cworld \<Rightarrow> disk \<Rightarrow> string \<Rightarrow> string \<Rightarrow> directory \<Rightarrow> cstate" where
  "load_rest W K pub priv dir =
     \<lparr>cst_PublicKeyPEM = pub, cst_PrivateKeyPEM = priv,
      cst_RequestID = the_default [] (read_state K fileRequest dir),
      cst_Bundle = (case read_state K fileBundle dir of None \<Rightarrow> None | Some raw \<Rightarrow> cj_readBundle (cw_json W) raw)\<rparr>"

definition LoadState :: "cworld \<Rightarrow> disk \<Rightarrow> (string \<times> string) option \<Rightarrow> directory \<Rightarrow> directory \<times> (conn_err + cstate)" where
  "LoadState W K drawn dir =
     (if \<not> dk_MkdirAll K then (dir, Inl NoDirectory)
      else
        (case dir fileKey of
           None \<Rightarrow>
             (case GenerateHostKey (cw_cert W) drawn of
                None \<Rightarrow> (dir, Inl NoKey)
              | Some (pub, priv) \<Rightarrow>
                  (case write_state K fileKey priv dir of
                     (dir, Inl e) \<Rightarrow> (dir, Inl e)
                   | (dir, Inr _) \<Rightarrow>
                       (case write_state K filePublicKey pub dir of
                          (dir, Inl e) \<Rightarrow> (dir, Inl e)
                        | (dir, Inr _) \<Rightarrow> (dir, Inr (load_rest W K pub priv dir)))))
         | Some _ \<Rightarrow>
             (case read_state K fileKey dir of
                None \<Rightarrow> (dir, Inl KeyUnreadable)
              | Some priv \<Rightarrow>
                  (case read_state K filePublicKey dir of
                     None \<Rightarrow> (dir, Inl PublicKeyUnreadable)
                   | Some pub \<Rightarrow> (dir, Inr (load_rest W K pub priv dir))))))"

definition SaveRequestID :: "disk \<Rightarrow> string \<Rightarrow> cstate \<Rightarrow> directory \<Rightarrow> directory \<times> cstate \<times> (conn_err + unit)" where
  "SaveRequestID K rid s dir =
     (case write_state K fileRequest rid dir of (dir, r) \<Rightarrow> (dir, s\<lparr>cst_RequestID := rid\<rparr>, r))"

definition SaveBundle :: "cworld \<Rightarrow> disk \<Rightarrow> Bundle \<Rightarrow> cstate \<Rightarrow> directory \<Rightarrow> directory \<times> cstate \<times> (conn_err + unit)" where
  "SaveBundle W K b s dir =
     (case cj_Bundle (cw_json W) b of
        None \<Rightarrow> (dir, s, Inl NotMarshalled)
      | Some raw \<Rightarrow>
          (case write_state K fileBundle raw dir of
             (dir, Inl e) \<Rightarrow> (dir, s, Inl e)
           | (dir, Inr _) \<Rightarrow> (dir, s\<lparr>cst_Bundle := Some b\<rparr>, Inr ())))"

text \<open>A removal that fails leaves the file and is not reported.\<close>

definition Reset :: "(string \<Rightarrow> bool) \<Rightarrow> cstate \<Rightarrow> directory \<Rightarrow> directory \<times> cstate" where
  "Reset removable s dir =
     ((\<lambda>f. if (f = fileBundle \<or> f = fileRequest) \<and> removable f then None else dir f),
      s\<lparr>cst_Bundle := None, cst_RequestID := []\<rparr>)"

definition state_Fingerprint :: "cworld \<Rightarrow> cstate \<Rightarrow> string" where
  "state_Fingerprint W s = hex_encode (env_sha256 (cw_env W) (join '' '' (Fields (env_unicode (cw_env W)) (cst_PublicKeyPEM s))))"

section \<open>The enrollment mailbox\<close>

text \<open>Which certificates of the hub a client takes: those a public authority vouches for, any, or the pinned key.\<close>

datatype tls = SystemRoots | SkipVerify | Pinned "string list \<Rightarrow> bool"

record hubClient =
  hc_base :: string
  hc_token :: string
  hc_tls :: tls

record 'h http =
  ht_Do :: "tls \<Rightarrow> string \<Rightarrow> string \<Rightarrow> (string \<times> string) list \<Rightarrow> string \<Rightarrow> 'h \<Rightarrow> 'h \<times> (nat \<times> string) option"

definition slash :: char where "slash = CHR ''/''"

definition newHubClient :: "cworld \<Rightarrow> string \<Rightarrow> string \<Rightarrow> bool \<Rightarrow> string \<Rightarrow> conn_err + hubClient" where
  "newHubClient W url sharedToken insecure hubPin =
     (let client = (\<lambda>t. \<lparr>hc_base = trim_right (\<lambda>c. c = slash) url, hc_token = sharedToken, hc_tls = t\<rparr>) in
      if hubPin \<noteq> [] then
        (case TLSConfig (cw_crypto W) (env_unicode (cw_env W)) (cw_x509 W) hubPin of
           Inl e \<Rightarrow> Inl (BadPin e)
         | Inr cfg \<Rightarrow> Inr (client (Pinned cfg)))
      else Inr (client (if insecure then SkipVerify else SystemRoots)))"

definition responseError :: "cworld \<Rightarrow> nat \<Rightarrow> string \<Rightarrow> conn_err" where
  "responseError W code body =
     (let body = take 4096 body in
      case cj_Error (cw_json W) body of
        Some e \<Rightarrow> if err_Code e \<noteq> [] then HubError code e else HubSaid code (TrimSpace (env_unicode (cw_env W)) body)
      | None \<Rightarrow> HubSaid code (TrimSpace (env_unicode (cw_env W)) body))"

definition submit :: "cworld \<Rightarrow> 'h http \<Rightarrow> hubClient \<Rightarrow> string \<Rightarrow> Request \<Rightarrow> 'h \<Rightarrow> 'h \<times> (conn_err + string)" where
  "submit W net c inst req h =
     (case cj_Request (cw_json W) req of
        None \<Rightarrow> (h, Inl NotMarshalled)
      | Some body \<Rightarrow>
          (let headers = [(''Content-Type'', ''application/json'')]
                 @ (if hc_token c \<noteq> []
                    then [(MACHeader, MAC (env_hmac (cw_env W)) (env_unicode (cw_env W)) req (hc_token c))] else [])
           in case ht_Do net (hc_tls c) ''POST'' (hc_base c @ ''/v1/enroll/'' @ inst) headers body h of
                (h, None) \<Rightarrow> (h, Inl Unreachable)
              | (h, Some (code, out)) \<Rightarrow>
                  if 300 \<le> code then (h, Inl (responseError W code out))
                  else
                    (case cj_ID (cw_json W) out of
                       None \<Rightarrow> (h, Inl BadAnswer)
                     | Some rid \<Rightarrow> if rid = [] then (h, Inl NoRequestID) else (h, Inr rid))))"

definition result :: "cworld \<Rightarrow> 'h http \<Rightarrow> hubClient \<Rightarrow> string \<Rightarrow> string \<Rightarrow> 'h \<Rightarrow> 'h \<times> (conn_err + Result)" where
  "result W net c inst rid h =
     (case ht_Do net (hc_tls c) ''GET'' (hc_base c @ ''/v1/enroll/'' @ inst @ ''/'' @ rid) [] [] h of
        (h, None) \<Rightarrow> (h, Inl Unreachable)
      | (h, Some (code, out)) \<Rightarrow>
          if 300 \<le> code then (h, Inl (responseError W code out))
          else (case cj_Result (cw_json W) out of None \<Rightarrow> (h, Inl BadAnswer) | Some res \<Rightarrow> (h, Inr res)))"

definition refusedBackoff :: time where "refusedBackoff = 30 * 1000000000"

type_synonym 'h waiting = "time \<Rightarrow> 'h \<Rightarrow> 'h \<times> bool"

definition refused :: "'h waiting \<Rightarrow> conn_err \<Rightarrow> 'h \<Rightarrow> 'h \<times> conn_err" where
  "refused pass e h = (case pass refusedBackoff h of (h, alive) \<Rightarrow> (h, if alive then e else Cancelled))"

text \<open>One question for the result, and then the answer or the next question, after a wait.\<close>

datatype 'h turn = Decided 'h "conn_err + Bundle" | Again time 'h

definition wait_turn :: "'h waiting \<Rightarrow> time \<Rightarrow> 'h \<Rightarrow> 'h turn" where
  "wait_turn pass backoff h =
     (case pass backoff h of (h, alive) \<Rightarrow> if alive then Again backoff h else Decided h (Inl Cancelled))"

definition ask_once ::
  "cworld \<Rightarrow> 'h http \<Rightarrow> 'h waiting \<Rightarrow> hubClient \<Rightarrow> string \<Rightarrow> string \<Rightarrow> time \<Rightarrow> 'h \<Rightarrow> 'h turn" where
  "ask_once W net pass c inst rid backoff h =
     (case result W net c inst rid h of
        (h, Inl e) \<Rightarrow> wait_turn pass backoff h
      | (h, Inr res) \<Rightarrow>
          if res_Status res = StatusApproved then
            Decided h (case res_Bundle res of None \<Rightarrow> Inl ApprovedWithout | Some b \<Rightarrow> Inr b)
          else if res_Status res = StatusRejected then
            (case refused pass (EnrollmentRejected (res_Reason res)) h of (h, e) \<Rightarrow> Decided h (Inl e))
          else wait_turn pass (if 0 < res_RetryAfter res then res_RetryAfter res * 1000000000 else backoff) h)"

text \<open>The loop, which may never end: \<open>None\<close> is a connector that waits forever.\<close>

partial_function (option) poll :: "(time \<Rightarrow> 'h \<Rightarrow> 'h turn) \<Rightarrow> time \<Rightarrow> 'h \<Rightarrow> ('h \<times> (conn_err + Bundle)) option" where
  [code]: "poll turns backoff h =
     (case turns backoff h of
        Decided h r \<Rightarrow> Some (h, r)
      | Again backoff h \<Rightarrow> poll turns backoff h)"

definition firstBackoff :: time where "firstBackoff = 5 * 1000000000"

definition waitForApproval ::
  "cworld \<Rightarrow> disk \<Rightarrow> 'h http \<Rightarrow> 'h waiting \<Rightarrow> hubClient \<Rightarrow> string \<Rightarrow> Request \<Rightarrow> cstate \<Rightarrow> directory \<Rightarrow> 'h
    \<Rightarrow> ('h \<times> directory \<times> cstate \<times> (conn_err + Bundle)) option" where
  "waitForApproval W K net pass c inst req s dir h =
     (let wait = (\<lambda>s dir h. map_option (\<lambda>(h, r). (h, dir, s, r)) (poll (ask_once W net pass c inst (cst_RequestID s)) firstBackoff h)) in
      if cst_RequestID s = [] then
        (case submit W net c inst req h of
           (h, Inl e) \<Rightarrow> (case refused pass e h of (h, e) \<Rightarrow> Some (h, dir, s, Inl e))
         | (h, Inr rid) \<Rightarrow>
             (case SaveRequestID K rid s dir of
                (dir, s, Inl e) \<Rightarrow> Some (h, dir, s, Inl e)
              | (dir, s, Inr _) \<Rightarrow> wait s dir h))
      else wait s dir h)"

section \<open>Configuration\<close>

definition connector_tree :: "Bundle \<Rightarrow> string \<Rightarrow> yaml" where
  "connector_tree bundle keyPEM =
     member_tree
       ([(''ca'', YStr (bnd_CA bundle)), (''cert'', YStr (bnd_Certificate bundle)), (''key'', YStr keyPEM)]
          @ blocklist_yaml (bnd_Blocked bundle))
       (bnd_Lighthouse bundle) 0 [] [any_rule]"

definition nebulaConfig :: "nebula \<Rightarrow> Bundle \<Rightarrow> string \<Rightarrow> conn_err + string" where
  "nebulaConfig N bundle keyPEM =
     (if \<not> IsValid (lh_OverlayAddress (bnd_Lighthouse bundle)) then Inl NoLighthouseAddress
      else if lh_Endpoints (bnd_Lighthouse bundle) = [] then Inl NoLighthouseEndpoint
      else (case yaml_Marshal N (connector_tree bundle keyPEM) of None \<Rightarrow> Inl ConfigNotRendered | Some raw \<Rightarrow> Inr raw))"

record CConfig =
  cc_HubURL :: string
  cc_Instance :: string
  cc_SharedToken :: string
  cc_Name :: string
  cc_Routes :: "prefix list"
  cc_Domain :: string
  cc_DisableAutodiscover :: bool
  cc_MTU :: "32 word"
  cc_Insecure :: bool
  cc_Pin :: string
  cc_DNS :: bool

fun dedupe_loop :: "prefix list \<Rightarrow> prefix list \<Rightarrow> prefix list" where
  "dedupe_loop out [] = out"
| "dedupe_loop out (p # ps) = dedupe_loop (add_new (Masked p) out) ps"

definition dedupe :: "prefix list \<Rightarrow> prefix list" where
  "dedupe ps = sort_key PrefixString (dedupe_loop [] ps)"

definition dedupeStrings :: "string list \<Rightarrow> string list" where
  "dedupeStrings xs = fold add_new xs []"

definition without :: "string list \<Rightarrow> string \<Rightarrow> string list" where
  "without entries gone =
     (if gone = [] \<or> gone \<notin> set entries then entries else filter (\<lambda>v. v \<noteq> gone) entries)"

definition ownFingerprint :: "certlib \<Rightarrow> Bundle option \<Rightarrow> string option" where
  "ownFingerprint L bundle =
     (case bundle of
        None \<Rightarrow> None
      | Some b \<Rightarrow>
          if bnd_Certificate b = [] then None
          else (case cl_UnmarshalCertificate L (bnd_Certificate b) of None \<Rightarrow> None | Some issued \<Rightarrow> cl_Fingerprint L issued))"

text \<open>The networks that are warned of: detected, and not among the granted ones.\<close>

definition compareRoutes :: "certlib \<Rightarrow> prefix list \<Rightarrow> Bundle option \<Rightarrow> prefix list" where
  "compareRoutes L detected bundle =
     (case bundle of
        None \<Rightarrow> []
      | Some b \<Rightarrow>
          if detected = [] then []
          else
            (case cl_UnmarshalCertificate L (bnd_Certificate b) of
               None \<Rightarrow> []
             | Some c \<Rightarrow> filter (\<lambda>p. Masked p \<notin> Masked ` set (tbs_UnsafeNetworks (crt_TBS c))) detected))"

section \<open>A run\<close>

text \<open>What is announced, and the request made of it.\<close>

definition announced_routes :: "machine \<Rightarrow> CConfig \<Rightarrow> prefix list" where
  "announced_routes m cfg = dedupe (cc_Routes cfg @ (if cc_DisableAutodiscover cfg then [] else DiscoverRoutes m))"

definition announced_zone :: "unicode \<Rightarrow> machine \<Rightarrow> CConfig \<Rightarrow> string" where
  "announced_zone U m cfg =
     announcedDomain (cc_DNS cfg) (cc_Domain cfg) (if cc_DisableAutodiscover cfg then [] else DiscoverDomain U m)"

definition enroll_request :: "cworld \<Rightarrow> CConfig \<Rightarrow> cstate \<Rightarrow> Request" where
  "enroll_request W cfg s =
     \<lparr>req_PublicKey = cst_PublicKeyPEM s, req_Name = cc_Name cfg, req_Routes = announced_routes (cw_machine W) cfg,
      req_Domain = announced_zone (env_unicode (cw_env W)) (cw_machine W) cfg, req_Hints = DiscoverHints (cw_machine W)\<rparr>"

text \<open>
  A connector that is up: its state, its directory, the configuration its nebula runs on, the MTU of its
  stack, the fingerprint it knows as its own, and whether it last saw itself banned.
\<close>

record running =
  rn_state :: cstate
  rn_dir :: directory
  rn_raw :: string
  rn_mtu :: "32 word"
  rn_self :: string
  rn_banned :: bool

definition connect ::
  "cworld \<Rightarrow> bool \<Rightarrow> CConfig \<Rightarrow> cstate \<Rightarrow> Bundle \<Rightarrow> directory \<Rightarrow> conn_err + running" where
  "connect W stack cfg s bundle dir =
     (let N = env_nebula (cw_env W) in
      case nebulaConfig N bundle (cst_PrivateKeyPEM s) of
        Inl e \<Rightarrow> Inl e
      | Inr raw \<Rightarrow>
          if \<not> neb_LoadString N raw then Inl ConfigNotLoaded
          else if \<not> neb_Main N raw then Inl NebulaNotStarted
          else if \<not> stack then Inl StackNotStarted
          else Inr \<lparr>rn_state = s, rn_dir = dir, rn_raw = raw,
                    rn_mtu = overlayMTU (env_unicode (cw_env W)) (cw_machine W) (bnd_MTU bundle) (cc_MTU cfg),
                    rn_self = the_default [] (ownFingerprint (cw_cert W) (cst_Bundle s)), rn_banned = False\<rparr>)"

definition check_domain :: "unicode \<Rightarrow> CConfig \<Rightarrow> conn_err + CConfig" where
  "check_domain U cfg =
     (if cc_Domain cfg = [] then Inr cfg
      else (case ParseDomain U (cc_Domain cfg) of Inl e \<Rightarrow> Inl (BadZone e) | Inr name \<Rightarrow> Inr (cfg\<lparr>cc_Domain := name\<rparr>)))"

definition Run ::
  "cworld \<Rightarrow> disk \<Rightarrow> 'h http \<Rightarrow> 'h waiting \<Rightarrow> (string \<times> string) option \<Rightarrow> bool \<Rightarrow> CConfig \<Rightarrow> directory \<Rightarrow> 'h
    \<Rightarrow> ('h \<times> directory \<times> (conn_err + running)) option" where
  "Run W K net pass drawn stack cfg dir h =
     (if cc_HubURL cfg = [] \<or> cc_Instance cfg = [] then Some (h, dir, Inl HubRequired)
      else
        (case check_domain (env_unicode (cw_env W)) cfg of
           Inl e \<Rightarrow> Some (h, dir, Inl e)
         | Inr cfg \<Rightarrow>
             (case LoadState W K drawn dir of
                (dir, Inl e) \<Rightarrow> Some (h, dir, Inl e)
              | (dir, Inr s) \<Rightarrow>
                  (case cst_Bundle s of
                     Some bundle \<Rightarrow> Some (h, dir, connect W stack cfg s bundle dir)
                   | None \<Rightarrow>
                       (case newHubClient W (cc_HubURL cfg) (cc_SharedToken cfg) (cc_Insecure cfg) (cc_Pin cfg) of
                          Inl e \<Rightarrow> Some (h, dir, Inl e)
                        | Inr client \<Rightarrow>
                            (case waitForApproval W K net pass client (cc_Instance cfg) (enroll_request W cfg s) s dir h of
                               None \<Rightarrow> None
                             | Some (h, dir, s, Inl e) \<Rightarrow> Some (h, dir, Inl e)
                             | Some (h, dir, s, Inr bundle) \<Rightarrow>
                                 (case SaveBundle W K bundle s dir of
                                    (dir, s, Inl e) \<Rightarrow> Some (h, dir, Inl e)
                                  | (dir, s, Inr _) \<Rightarrow> Some (h, dir, connect W stack cfg s bundle dir))))))))"

section \<open>The watch over the blocklist\<close>

definition apply_blocklist :: "cworld \<Rightarrow> disk \<Rightarrow> Bundle \<Rightarrow> Bundle \<Rightarrow> running \<Rightarrow> running" where
  "apply_blocklist W K held received r =
     (let N = env_nebula (cw_env W);
          fresh = without (bnd_Blocked received) (rn_self r);
          updated = held\<lparr>bnd_Blocked := fresh\<rparr>
      in if fresh = bnd_Blocked held then r
         else
           (case nebulaConfig N updated (cst_PrivateKeyPEM (rn_state r)) of
              Inl e \<Rightarrow> r
            | Inr raw \<Rightarrow>
                if \<not> neb_ReloadConfigString N (rn_raw r) raw then r
                else
                  (case SaveBundle W K updated (rn_state r) (rn_dir r) of
                     (dir, s, _) \<Rightarrow> r\<lparr>rn_raw := raw, rn_dir := dir, rn_state := s\<lparr>cst_Bundle := Some updated\<rparr>\<rparr>)))"

definition watch_tick :: "cworld \<Rightarrow> disk \<Rightarrow> 'h http \<Rightarrow> hubClient \<Rightarrow> string \<Rightarrow> running \<Rightarrow> 'h \<Rightarrow> 'h \<times> running" where
  "watch_tick W K net c inst r h =
     (case result W net c inst (cst_RequestID (rn_state r)) h of
        (h, Inl e) \<Rightarrow> (h, r)
      | (h, Inr res) \<Rightarrow>
          (case (res_Bundle res, cst_Bundle (rn_state r)) of
             (Some received, Some held) \<Rightarrow>
               (h, apply_blocklist W K held received
                     (r\<lparr>rn_banned := rn_self r \<noteq> [] \<and> rn_self r \<in> set (bnd_Blocked received)\<rparr>))
           | _ \<Rightarrow> (h, r)))"

text \<open>The watch until the context ends; what happens to the world before each tick is the list.\<close>

fun watch_loop :: "cworld \<Rightarrow> disk \<Rightarrow> 'h http \<Rightarrow> hubClient \<Rightarrow> string \<Rightarrow> ('h \<Rightarrow> 'h) list \<Rightarrow> running \<Rightarrow> 'h \<Rightarrow> 'h \<times> running" where
  "watch_loop W K net c inst [] r h = (h, r)"
| "watch_loop W K net c inst (world # rest) r h =
     (case watch_tick W K net c inst r (world h) of (h, r) \<Rightarrow> watch_loop W K net c inst rest r h)"

definition watchBlocklist :: "cworld \<Rightarrow> disk \<Rightarrow> 'h http \<Rightarrow> CConfig \<Rightarrow> ('h \<Rightarrow> 'h) list \<Rightarrow> running \<Rightarrow> 'h \<Rightarrow> 'h \<times> running" where
  "watchBlocklist W K net cfg ticks r h =
     (if cst_RequestID (rn_state r) = [] then (h, r)
      else
        (case newHubClient W (cc_HubURL cfg) (cc_SharedToken cfg) (cc_Insecure cfg) (cc_Pin cfg) of
           Inl e \<Rightarrow> (h, r)
         | Inr c \<Rightarrow> watch_loop W K net c (cc_Instance cfg) ticks r h))"

end
