(* ===== verification/Endpoint.thy ===== *)
theory Endpoint
  imports Connector
begin

text \<open>
  The endpoint, the one line an owner hands out and a connector is configured with: written by
  \<open>shorthandEndpoint\<close> in \<open>src/internal/tenant/socket.go\<close>, read by \<open>parseEndpoint\<close> in
  \<open>src/cmd/robinet/connect.go\<close>, together with the rest of what the \<open>connect\<close> command makes of its flags.

  Of \<open>url.Parse\<close> only the host is used. It is written out for text without percent escapes in the host;
  one with them counts as not readable here.
\<close>

section \<open>The host of a URL\<close>

definition is_letter :: "char \<Rightarrow> bool" where "is_letter c \<longleftrightarrow> is_lower c \<or> is_upper c"

definition scheme_char :: "char \<Rightarrow> bool" where
  "scheme_char c \<longleftrightarrow> is_letter c \<or> is_digit c \<or> c \<in> {CHR ''+'', CHR ''-'', CHR ''.''}"

definition getScheme :: "string \<Rightarrow> (string \<times> string) option" where
  "getScheme raw =
     (let pre = takeWhile scheme_char raw; rest = dropWhile scheme_char raw in
      case rest of
        c # r \<Rightarrow>
          if c \<noteq> CHR '':'' then Some ([], raw)
          else if pre = [] then None
          else if is_letter (hd pre) then Some (pre, r) else Some ([], raw)
      | [] \<Rightarrow> Some ([], raw))"

definition before :: "char \<Rightarrow> string \<Rightarrow> string" where
  "before c s = takeWhile (\<lambda>d. d \<noteq> c) s"

definition host_char :: "char \<Rightarrow> bool" where
  "host_char c \<longleftrightarrow> \<not> is_ascii c \<or> is_letter c \<or> is_digit c \<or> c \<in> set ''-_.~!$&()*+,;=:[]<>'' \<or> c = CHR 0x27 \<or> c = CHR 0x22"

definition validOptionalPort :: "string \<Rightarrow> bool" where
  "validOptionalPort p \<longleftrightarrow> p = [] \<or> hd p = CHR '':'' \<and> list_all is_digit (tl p)"

definition parseHost :: "string \<Rightarrow> string option" where
  "parseHost host =
     (let port = (if HasPrefix host ''['' then map_option snd (cut_last (CHR '']'') host)
                  else Some (case cut_last (CHR '':'') host of None \<Rightarrow> [] | Some (_, p) \<Rightarrow> CHR '':'' # p))
      in case port of
           None \<Rightarrow> None
         | Some p \<Rightarrow> if validOptionalPort p \<and> list_all host_char host then Some host else None)"

definition control_char :: "char \<Rightarrow> bool" where
  "control_char c \<longleftrightarrow> (let n = of_char c :: nat in n < 32 \<or> n = 127)"

definition urlHost :: "string \<Rightarrow> string option" where
  "urlHost raw =
     (let u = before (CHR ''#'') raw in
      if list_ex control_char u then None
      else
        (case getScheme u of
           None \<Rightarrow> None
         | Some (scheme, rest) \<Rightarrow>
             (let rest = before (CHR ''?'') rest in
              if \<not> HasPrefix rest ''/'' \<and> scheme \<noteq> [] then Some []
              else if \<not> HasPrefix rest ''/'' \<and> CHR '':'' \<in> set (before slash rest) then None
              else if HasPrefix rest ''//'' \<and> (scheme \<noteq> [] \<or> \<not> HasPrefix rest ''///'') then
                (let authority = before slash (drop 2 rest); path = dropWhile (\<lambda>d. d \<noteq> slash) (drop 2 rest) in
                 if unescape path = None then None
                 else parseHost (case cut_last (CHR ''@'') authority of None \<Rightarrow> authority | Some (_, h) \<Rightarrow> h))
              else if unescape rest = None then None else Some [])))"

section \<open>Writing\<close>

definition shorthandEndpoint :: "string \<Rightarrow> string \<Rightarrow> string \<Rightarrow> string \<Rightarrow> string" where
  "shorthandEndpoint hubURL ref token hubPin =
     (let host = (case urlHost hubURL of Some h \<Rightarrow> if h \<noteq> [] then h else hubURL | None \<Rightarrow> hubURL);
          host = TrimSuffix host '':8443''
      in host @ ''/'' @ ref @ (if token \<noteq> [] then ''/'' @ token else []) @ (if hubPin \<noteq> [] then ''/'' @ hubPin else []))"

definition hubAddress :: "unicode \<Rightarrow> State \<Rightarrow> string \<times> string" where
  "hubAddress U s =
     (let d = sta_data s in
      if da_Pin d = [] then (da_HubURL d, [])
      else (case Rewritten U (da_Pin d) of Inl _ \<Rightarrow> (da_HubURL d, []) | Inr written \<Rightarrow> (da_HubURL d, written)))"

definition instanceRef :: "Connection \<Rightarrow> string" where
  "instanceRef conn = (if con_Name conn \<noteq> [] then con_Name conn else con_InstanceID conn)"

record InstanceInfo =
  ii_id :: string
  ii_overlay :: string
  ii_endpoint :: string
  ii_url :: string

definition instanceInfo :: "unicode \<Rightarrow> State \<Rightarrow> string \<Rightarrow> string \<Rightarrow> string \<Rightarrow> string \<Rightarrow> InstanceInfo" where
  "instanceInfo U s iid ref overlay sharedToken =
     (let (hubURL, hubPin) = hubAddress U s; ref = (if ref = [] then iid else ref) in
      \<lparr>ii_id = iid, ii_overlay = overlay, ii_endpoint = shorthandEndpoint hubURL ref sharedToken hubPin,
       ii_url = hubURL @ ''/v1/enroll/'' @ iid\<rparr>)"

section \<open>Reading\<close>

definition DefaultAPIPort :: string where "DefaultAPIPort = ''8443''"

record endpoint_parts =
  ep_base :: string
  ep_instance :: string
  ep_token :: string
  ep_pin :: string

datatype endpoint_err = NamesNoInstance string | NotAnEndpoint string | TooManyParts string | TwoPins string | PinUnreadable string pin_err
  | EndpointRequired | BadRoute string | NotConfigured

fun endpoint_tail :: "unicode \<Rightarrow> string \<Rightarrow> string list \<Rightarrow> string \<Rightarrow> string \<Rightarrow> endpoint_err + string \<times> string" where
  "endpoint_tail U raw [] token hubPin = Inr (token, hubPin)"
| "endpoint_tail U raw (part # parts) token hubPin =
     (if Written U part then
        if hubPin \<noteq> [] then Inl (TwoPins raw)
        else (case ParsePin U part of Inl e \<Rightarrow> Inl (PinUnreadable raw e) | Inr _ \<Rightarrow> endpoint_tail U raw parts token part)
      else if token \<noteq> [] then Inl (TooManyParts raw)
      else endpoint_tail U raw parts part hubPin)"

definition endpoint_host :: "string \<Rightarrow> string" where
  "endpoint_host host =
     (case SplitHostPort host of
        None \<Rightarrow> JoinHostPort (trim_by (\<lambda>c. c = CHR ''['' \<or> c = CHR '']'') host) DefaultAPIPort
      | Some _ \<Rightarrow> host)"

definition no_parts :: endpoint_parts where
  "no_parts = \<lparr>ep_base = [], ep_instance = [], ep_token = [], ep_pin = []\<rparr>"

definition enrollMarker :: string where "enrollMarker = ''/v1/enroll/''"

definition parseEndpoint :: "unicode \<Rightarrow> string \<Rightarrow> endpoint_err + endpoint_parts" where
  "parseEndpoint U raw0 =
     (let raw = TrimSpace U raw0; slashes = (\<lambda>c. c = slash) in
      if raw = [] then Inr no_parts
      else if HasPrefix raw ''http://'' \<or> HasPrefix raw ''https://'' then
        (case Cut raw enrollMarker of
           None \<Rightarrow> Inr (no_parts\<lparr>ep_base := trim_right slashes raw\<rparr>)
         | Some (url, behind) \<Rightarrow>
             if trim_by slashes behind = [] then Inl (NamesNoInstance raw)
             else Inr (no_parts\<lparr>ep_base := url, ep_instance := trim_by slashes behind\<rparr>))
      else
        (case split_on slash (trim_by slashes raw) of
           host # inst # rest \<Rightarrow>
             if 2 < length rest then Inl (TooManyParts raw)
             else
               (case endpoint_tail U raw rest [] [] of
                  Inl e \<Rightarrow> Inl e
                | Inr (token, hubPin) \<Rightarrow>
                    Inr \<lparr>ep_base = ''https://'' @ endpoint_host host, ep_instance = inst, ep_token = token, ep_pin = hubPin\<rparr>)
         | _ \<Rightarrow> Inl (NotAnEndpoint raw)))"

section \<open>The command\<close>

definition Placeholder :: string where "Placeholder = ''CHANGEME''"

definition isPlaceholder :: "unicode \<Rightarrow> string \<Rightarrow> bool" where
  "isPlaceholder U endpoint \<longleftrightarrow> EqualFold (TrimSpace U endpoint) Placeholder"

definition envList :: "string \<Rightarrow> string list" where
  "envList v = (if v = [] then [] else split_on (CHR '','') v)"

definition envUint :: "string \<Rightarrow> nat \<Rightarrow> nat" where
  "envUint v fallback =
     (if v = [] then fallback else (case decimal v of None \<Rightarrow> fallback | Some n \<Rightarrow> if n < 2 ^ 32 then n else fallback))"

record flags =
  fl_endpoint :: string
  fl_instance :: string
  fl_token :: string
  fl_name :: string
  fl_routes :: "string list"
  fl_domain :: string
  fl_noDiscover :: bool
  fl_mtu :: "32 word"
  fl_insecure :: bool
  fl_dns :: bool

fun read_routes :: "unicode \<Rightarrow> string list \<Rightarrow> prefix list \<Rightarrow> endpoint_err + prefix list" where
  "read_routes U [] out = Inr out"
| "read_routes U (raw # raws) out =
     (let raw = TrimSpace U raw in
      if raw = [] then read_routes U raws out
      else (case ParsePrefix raw of None \<Rightarrow> Inl (BadRoute raw) | Some p \<Rightarrow> read_routes U raws (out @ [p])))"

definition connect_cmd :: "unicode \<Rightarrow> flags \<Rightarrow> endpoint_err + CConfig" where
  "connect_cmd U f =
     (if isPlaceholder U (fl_endpoint f) then Inl NotConfigured
      else
        (case parseEndpoint U (fl_endpoint f) of
           Inl e \<Rightarrow> Inl e
         | Inr ep \<Rightarrow>
             (let inst = (if ep_instance ep \<noteq> [] then ep_instance ep else fl_instance f);
                  token = (if ep_token ep \<noteq> [] \<and> fl_token f = [] then ep_token ep else fl_token f)
              in if ep_base ep = [] \<or> inst = [] then Inl EndpointRequired
                 else
                   (case read_routes U (fl_routes f) [] of
                      Inl e \<Rightarrow> Inl e
                    | Inr routes \<Rightarrow>
                        Inr \<lparr>cc_HubURL = ep_base ep, cc_Instance = inst, cc_SharedToken = token, cc_Name = fl_name f,
                             cc_Routes = routes, cc_Domain = fl_domain f, cc_DisableAutodiscover = fl_noDiscover f,
                             cc_MTU = fl_mtu f, cc_Insecure = fl_insecure f, cc_Pin = ep_pin ep, cc_DNS = fl_dns f\<rparr>))))"

section \<open>Properties\<close>

text \<open>The characters of a host name, and a part of an endpoint: not empty, plain text, no slash.\<close>

definition plain_host :: "string \<Rightarrow> bool" where
  "plain_host h \<longleftrightarrow> h \<noteq> [] \<and> list_all (\<lambda>c. alnum c \<or> c = CHR ''.'' \<or> c = CHR ''-'') h"

definition plain_part :: "string \<Rightarrow> bool" where
  "plain_part s \<longleftrightarrow> s \<noteq> [] \<and> slash \<notin> set s \<and> (\<forall>c \<in> set s. is_ascii c \<and> \<not> is_space c)"

lemma alnum_facts:
  assumes "alnum c \<or> c = CHR ''.'' \<or> c = CHR ''-''"
  shows "is_ascii c" "\<not> is_space c" "c \<noteq> slash" "c \<noteq> CHR '':''" "c \<noteq> CHR ''#''" "c \<noteq> CHR ''?''" "c \<noteq> CHR ''@''"
    "c \<noteq> CHR ''[''" "c \<noteq> CHR '']''" "\<not> control_char c" "host_char c" "c \<noteq> CHR ''%''"
  using assms
  by (auto simp: alnum_def is_ascii_def is_space_def slash_def control_char_def host_char_def is_letter_def
      is_lower_def is_upper_def is_digit_def Let_def)

lemma digit_alnum: "is_digit c \<Longrightarrow> alnum c"
  by (simp add: alnum_def)

lemma before_none: "c \<notin> set s \<Longrightarrow> before c s = s"
  by (auto simp: before_def takeWhile_eq_all_conv)

lemma before_append: "c \<notin> set s \<Longrightarrow> before c (s @ c # t) = s"
  by (induction s) (auto simp: before_def)

text \<open>A host with or without a port.\<close>

definition host_port :: "string \<Rightarrow> string \<Rightarrow> string" where
  "host_port h port = (if port = [] then h else h @ '':'' @ port)"

definition host_ok :: "char \<Rightarrow> bool" where
  "host_ok c \<longleftrightarrow> is_ascii c \<and> \<not> is_space c \<and> c \<noteq> slash \<and> c \<noteq> CHR ''#'' \<and> c \<noteq> CHR ''?'' \<and> c \<noteq> CHR ''@'' \<and> c \<noteq> CHR ''['' \<and> c \<noteq> CHR '']''
    \<and> \<not> control_char c \<and> host_char c"

lemma host_ok_plain: "alnum c \<or> c = CHR ''.'' \<or> c = CHR ''-'' \<Longrightarrow> host_ok c"
  unfolding host_ok_def by (intro conjI; rule alnum_facts; assumption)

lemma host_ok_colon: "host_ok (CHR '':'')"
  by code_simp

lemma colon_facts: "\<not> is_digit (CHR '':'')" "\<not> alnum (CHR '':'')"
  by code_simp+

lemma host_no_colon: "plain_host h \<Longrightarrow> CHR '':'' \<notin> set h \<and> h \<noteq> []"
  using colon_facts(2) by (auto simp: plain_host_def list_all_iff)

lemma digits_no_colon: "list_all is_digit port \<Longrightarrow> CHR '':'' \<notin> set port"
  using colon_facts(1) by (auto simp: list_all_iff)

lemma host_port_chars:
  assumes "plain_host h" and "list_all is_digit port" and "c \<in> set (host_port h port)"
  shows "host_ok c"
proof -
  consider "c \<in> set h" | "c \<in> set port" | "c = CHR '':''" using assms(3) by (auto simp: host_port_def split: if_splits)
  then show ?thesis
  proof cases
    case 1
    with assms(1) show ?thesis by (intro host_ok_plain) (simp add: plain_host_def list_all_iff)
  next
    case 2
    with assms(2) show ?thesis by (intro host_ok_plain) (simp add: digit_alnum list_all_iff)
  next
    case 3
    then show ?thesis using host_ok_colon by simp
  qed
qed

lemma cut_host_port:
  assumes "plain_host h" and "list_all is_digit port"
  shows "cut_last (CHR '':'') (host_port h port) = (if port = [] then None else Some (h, port))"
  using host_no_colon [OF assms(1)] cut_last_append [OF digits_no_colon [OF assms(2)], of h] cut_last_none [of "CHR '':''" h]
  by (simp add: host_port_def)

lemma parseHost_plain:
  assumes "plain_host h" and "list_all is_digit port"
  shows "parseHost (host_port h port) = Some (host_port h port)"
proof -
  let ?hp = "host_port h port"
  have ne: "?hp \<noteq> []" using host_no_colon [OF assms(1)] by (simp add: host_port_def)
  then have "hd ?hp \<noteq> CHR ''[''" using host_port_chars [OF assms, of "hd ?hp"] by (simp add: host_ok_def)
  then have "\<not> HasPrefix ?hp ''[''" using ne by (cases ?hp) (auto simp: HasPrefix_def)
  moreover have "list_all host_char ?hp" using host_port_chars [OF assms] by (simp add: list_all_iff host_ok_def)
  ultimately show ?thesis using assms(2) by (simp add: parseHost_def cut_host_port [OF assms] validOptionalPort_def)
qed

lemma https_scheme: "getScheme (''https'' @ CHR '':'' # t) = Some (''https'', t)"
proof -
  have "list_all scheme_char ''https''" "\<not> scheme_char (CHR '':'')" "is_letter (hd ''https'')" by code_simp+
  then have "takeWhile scheme_char (''https'' @ CHR '':'' # t) = ''https''" "dropWhile scheme_char (''https'' @ CHR '':'' # t) = CHR '':'' # t"
    "is_letter (hd ''https'')"
    by (simp_all add: takeWhile_append2 dropWhile_append2 list_all_iff)
  then show ?thesis by (simp add: getScheme_def Let_def)
qed

lemma urlHost_plain:
  assumes "plain_host h" and "list_all is_digit port"
  shows "urlHost (''https://'' @ host_port h port) = Some (host_port h port)"
proof -
  let ?hp = "host_port h port"
  note c = host_port_chars [OF assms]
  have no: "CHR ''#'' \<notin> set ?hp" "CHR ''?'' \<notin> set ?hp" "CHR ''@'' \<notin> set ?hp" "slash \<notin> set ?hp" using c by (auto simp: host_ok_def)
  have h: "before (CHR ''#'') (''https://'' @ ?hp) = ''https://'' @ ?hp" using no by (intro before_none) simp
  have q: "before (CHR ''?'') (''//'' @ ?hp) = ''//'' @ ?hp" using no by (intro before_none) simp
  have "\<not> list_ex control_char ''https://''" by code_simp
  then have ctl: "\<not> list_ex control_char (''https://'' @ ?hp)" using c unfolding list_ex_append by (auto simp: list_ex_iff host_ok_def)
  have s: "getScheme (''https://'' @ ?hp) = Some (''https'', ''//'' @ ?hp)" using https_scheme [of "''//'' @ ?hp"] by simp
  have b: "before slash ?hp = ?hp" "dropWhile (\<lambda>d. d \<noteq> slash) ?hp = []" using no(4) before_none by (auto simp: dropWhile_eq_Nil_conv)
  have a: "cut_last (CHR ''@'') ?hp = None" using no(3) by (simp add: cut_last_none)
  have p: "HasPrefix (''//'' @ ?hp) ''/''" "HasPrefix (''//'' @ ?hp) ''//''" "drop 2 (''//'' @ ?hp) = ?hp" by (simp_all add: HasPrefix_def)
  show ?thesis
    unfolding urlHost_def Let_def h s option.case prod.case q p(3) b a using ctl p(1,2) parseHost_plain [OF assms] by simp
qed

lemma trim_port:
  assumes "plain_host h" and "list_all is_digit port"
  shows "TrimSuffix (host_port h port) '':8443'' = (if port = ''8443'' then h else host_port h port)"
proof (cases "HasSuffix (host_port h port) '':8443''")
  case True
  then obtain u where u: "host_port h port = u @ CHR '':'' # ''8443''" by (auto simp: HasSuffix_iff)
  have "cut_last (CHR '':'') (u @ CHR '':'' # ''8443'') = Some (u, ''8443'')" by (rule cut_last_append) simp
  then have "port = ''8443'' \<and> h = u" using cut_host_port [OF assms] by (simp add: u split: if_splits)
  then show ?thesis using u TrimSuffix_append [of h "'':8443''"] by simp
next
  case False
  moreover have "port \<noteq> ''8443''"
  proof
    assume "port = ''8443''"
    then have "host_port h port = h @ '':8443''" by (simp add: host_port_def)
    with False show False by (metis HasSuffix_append)
  qed
  ultimately show ?thesis by (simp add: TrimSuffix_no)
qed

lemma endpoint_host_plain:
  assumes "plain_host h" and "list_all is_digit port" and "port \<noteq> []"
  shows "endpoint_host (host_port h port) = host_port h port"
    and "endpoint_host h = host_port h DefaultAPIPort"
proof -
  have "set h \<subseteq> set (host_port h port)" "set port \<subseteq> set (host_port h port)" by (auto simp: host_port_def)
  then have ok: "\<forall>c \<in> set h. host_ok c" "\<forall>c \<in> set port. host_ok c" using host_port_chars [OF assms(1,2)] by blast+
  have nb: "\<not> host_ok (CHR ''['')" "\<not> host_ok (CHR '']'')" by (simp_all add: host_ok_def)
  have b: "CHR ''['' \<notin> set h" "CHR '']'' \<notin> set h" "CHR ''['' \<notin> set port" "CHR '']'' \<notin> set port"
    using ok nb by blast+
  have j: "JoinHostPort h q = h @ '':'' @ q" for q using host_no_colon [OF assms(1)] by (simp add: JoinHostPort_def)
  have "SplitHostPort (JoinHostPort h port) = Some (h, port)"
    using b digits_no_colon [OF assms(2)] by (intro SplitHostPort_JoinHostPort)
  then show "endpoint_host (host_port h port) = host_port h port" using assms(3) by (simp add: endpoint_host_def j host_port_def)
  have "trim_by (\<lambda>c. c = CHR ''['' \<or> c = CHR '']'') h = h" using b(1,2) by (intro trim_by_none) blast
  moreover have "cut_last (CHR '':'') h = None" using host_no_colon [OF assms(1)] by (simp add: cut_last_none)
  then have "SplitHostPort h = None" by (simp add: SplitHostPort_def)
  ultimately show "endpoint_host h = host_port h DefaultAPIPort" by (simp add: endpoint_host_def j host_port_def DefaultAPIPort_def)
qed

text \<open>What is joined from parts that are not empty, hold no slash and no space.\<close>

lemma plain_part_iff: "plain_part s \<longleftrightarrow> s \<noteq> [] \<and> list_all (\<lambda>c. is_ascii c \<and> \<not> is_space c \<and> c \<noteq> slash) s"
  by (auto simp: plain_part_def list_all_iff)

lemma ends_differ: "s \<noteq> [] \<Longrightarrow> c \<notin> set s \<Longrightarrow> hd s \<noteq> c \<and> last s \<noteq> c"
  using hd_in_set last_in_set by metis

lemma join_parts:
  assumes "ss \<noteq> []" and "list_all plain_part ss"
  shows "join [slash] ss \<noteq> [] \<and> hd (join [slash] ss) \<noteq> slash \<and> last (join [slash] ss) \<noteq> slash
    \<and> (\<forall>c \<in> set (join [slash] ss). is_ascii c \<and> \<not> is_space c)"
  using assms
proof (induction ss)
  case (Cons s ss)
  have sl: "is_ascii slash \<and> \<not> is_space slash" by code_simp
  have s: "s \<noteq> []" "hd s \<noteq> slash" "last s \<noteq> slash" "\<forall>c \<in> set s. is_ascii c \<and> \<not> is_space c"
    using Cons.prems(2) ends_differ [of s slash] by (auto simp: plain_part_def)
  show ?case
  proof (cases "ss = []")
    case True
    with s show ?thesis by simp
  next
    case False
    then have "join [slash] ss \<noteq> []" "last (join [slash] ss) \<noteq> slash" "\<forall>c \<in> set (join [slash] ss). is_ascii c \<and> \<not> is_space c"
      using Cons by simp_all
    with s sl False show ?thesis by (simp add: join_Cons ball_Un)
  qed
qed simp

lemma join_trim:
  assumes "ss \<noteq> []" and "list_all plain_part ss"
  shows "TrimSpace U (join [slash] ss) = join [slash] ss" and "trim_by (\<lambda>c. c = slash) (join [slash] ss) = join [slash] ss"
    and "split_on slash (join [slash] ss) = ss"
proof -
  note f = join_parts [OF assms]
  then show "TrimSpace U (join [slash] ss) = join [slash] ss" by (simp add: TrimSpace_def ascii_iff trim_by_none)
  show "trim_by (\<lambda>c. c = slash) (join [slash] ss) = join [slash] ss" using f by (intro trim_by_id) simp
  show "split_on slash (join [slash] ss) = ss" using assms by (intro split_on_join) (auto simp: plain_part_def list_all_iff)
qed

text \<open>What \<open>shorthandEndpoint\<close> leaves of the hub's address.\<close>

definition shown_host :: "string \<Rightarrow> string \<Rightarrow> string" where
  "shown_host h port = (if port = ''8443'' then h else host_port h port)"

lemma shown_host_ok:
  assumes "plain_host h" and "list_all is_digit port"
  shows "plain_part (shown_host h port)" and "endpoint_host (shown_host h port) = host_port h (if port = [] then DefaultAPIPort else port)"
    and "last (shown_host h port) \<noteq> CHR '':''"
proof -
  have ne: "shown_host h port \<noteq> []" using host_no_colon [OF assms(1)] by (simp add: shown_host_def host_port_def)
  have "set h \<subseteq> set (host_port h port)" by (auto simp: host_port_def)
  then have "set (shown_host h port) \<subseteq> set (host_port h port)" by (auto simp: shown_host_def)
  with ne show "plain_part (shown_host h port)" using host_port_chars [OF assms] by (auto simp: plain_part_def host_ok_def)
  have d: "list_all is_digit DefaultAPIPort" "DefaultAPIPort \<noteq> []" by code_simp+
  show "endpoint_host (shown_host h port) = host_port h (if port = [] then DefaultAPIPort else port)"
    using endpoint_host_plain [OF assms] endpoint_host_plain(2) [OF assms(1) d]
    by (simp add: shown_host_def host_port_def DefaultAPIPort_def)
  show "last (shown_host h port) \<noteq> CHR '':''"
    using host_no_colon [OF assms(1)] digits_no_colon [OF assms(2)] ends_differ [of h "CHR '':''"] ends_differ [of port "CHR '':''"]
    by (auto simp: shown_host_def host_port_def)
qed

lemma not_a_url:
  assumes "slash \<notin> set H" and "last H \<noteq> CHR '':''"
  shows "\<not> HasPrefix (H @ slash # t) ''http://''" and "\<not> HasPrefix (H @ slash # t) ''https://''"
proof -
  have b: "before slash (H @ slash # t) = H" using assms(1) by (rule before_append)
  show "\<not> HasPrefix (H @ slash # t) ''http://''"
  proof
    assume "HasPrefix (H @ slash # t) ''http://''"
    then obtain r where "H @ slash # t = ''http://'' @ r" by (auto simp: HasPrefix_iff)
    with b have "H = ''http:''" by (simp add: before_def slash_def)
    with assms(2) show False by simp
  qed
  show "\<not> HasPrefix (H @ slash # t) ''https://''"
  proof
    assume "HasPrefix (H @ slash # t) ''https://''"
    then obtain r where "H @ slash # t = ''https://'' @ r" by (auto simp: HasPrefix_iff)
    with b have "H = ''https:''" by (simp add: before_def slash_def)
    with assms(2) show False by simp
  qed
qed

lemma hub_pin_plain:
  assumes "snd (hubAddress U s) \<noteq> []"
  shows "plain_part (snd (hubAddress U s)) \<and> Written U (snd (hubAddress U s)) \<and> (\<exists>d. ParsePin U (snd (hubAddress U s)) = Inr d)"
proof -
  obtain w where w: "Rewritten U (da_Pin (sta_data s)) = Inr w" "snd (hubAddress U s) = w"
    using assms by (auto simp: hubAddress_def Let_def split: if_splits sum.splits)
  then obtain d where d: "ParsePin U (da_Pin (sta_data s)) = Inr d" "w = Prefix_pin @ b64url_encode d"
    by (auto simp: Rewritten_def split: sum.splits)
  have l: "length d = 32" using d(1) by (auto simp: ParsePin_def Let_def split: if_splits option.splits)
  have ok: "\<forall>c \<in> set (b64url_encode d). b64url_ok c" using b64url_encode_ok by blast
  have "\<not> b64url_ok slash" by code_simp
  then have b: "plain_part (b64url_encode d) \<or> b64url_encode d = []" using ok b64url_ok_plain by (auto simp: plain_part_def)
  have "list_all (\<lambda>c. is_ascii c \<and> \<not> is_space c \<and> c \<noteq> slash) Prefix_pin" "Prefix_pin \<noteq> []" by code_simp+
  with b have "plain_part w" by (auto simp: plain_part_iff d(2))
  moreover have "Written U w" unfolding Written_def d(2) pin_printable [OF ok] by (simp add: has_prefix_fold_def EqualFold_def)
  ultimately show ?thesis using ParsePin_written [OF l, of U] by (auto simp: w(2) d(2))
qed

lemma shorthand_join:
  assumes "plain_host h" and "list_all is_digit port"
  shows "shorthandEndpoint (''https://'' @ host_port h port) ref token hubPin
    = join [slash] ([shown_host h port, ref] @ (if token \<noteq> [] then [token] else []) @ (if hubPin \<noteq> [] then [hubPin] else []))"
proof -
  have "host_port h port \<noteq> []" using host_no_colon [OF assms(1)] by (simp add: host_port_def)
  then show ?thesis
    unfolding shorthandEndpoint_def urlHost_plain [OF assms] by (simp add: trim_port [OF assms] shown_host_def slash_def)
qed


text \<open>A hub on the default port, with a pin of thirty two zero octets.\<close>

definition pinned_state :: State where
  "pinned_state = \<lparr>sta_data = zero_data\<lparr>da_HubURL := ''https://hub.example:8443'',
     da_Pin := Prefix_pin @ replicate 43 (CHR ''A'')\<rparr>,
     sta_fs = \<lparr>tf_file = None, tf_tmp = None\<rparr>\<rparr>"


end
