(* ===== verification/Labels.thy ===== *)
theory Labels
  imports Tenant Ca Codec
begin

text \<open>
  What an owner decides with, the helpers of \<open>src/internal/tenant/tenant.go\<close>: finding the request that is
  meant, the routes a certificate can carry, and the name a member is given when it asked for none.
\<close>

section \<open>Requests\<close>

record PendingEntry =
  pe_Instance :: string
  pe_InstanceID :: string
  pe_Record :: Record
  pe_Address :: prefix
  pe_WillBeCalled :: string
  pe_Routes :: "prefix list"
  pe_Dropped :: "prefix list"
  pe_Domain :: string

datatype pending_err = NoPending string | AmbiguousPending string nat

fun pending_loop :: "PendingEntry list \<Rightarrow> string \<Rightarrow> PendingEntry list \<Rightarrow> PendingEntry + PendingEntry list" where
  "pending_loop [] requestID found = Inr found"
| "pending_loop (entry # entries) requestID found =
     (if rec_ID (pe_Record entry) = requestID then Inl entry
      else if HasPrefix (rec_ID (pe_Record entry)) requestID then pending_loop entries requestID (found @ [entry])
      else pending_loop entries requestID found)"

definition matchPending :: "PendingEntry list \<Rightarrow> string \<Rightarrow> pending_err + PendingEntry" where
  "matchPending entries requestID =
     (case pending_loop entries requestID [] of
        Inl entry \<Rightarrow> Inr entry
      | Inr [] \<Rightarrow> Inl (NoPending requestID)
      | Inr [entry] \<Rightarrow> Inr entry
      | Inr found \<Rightarrow> Inl (AmbiguousPending requestID (length found)))"

section \<open>Routes\<close>

definition carriable :: "prefix list \<Rightarrow> prefix list \<Rightarrow> prefix list \<times> prefix list" where
  "carriable routes addrs =
     (let has4 = list_ex (\<lambda>a. Is4 (paddr a)) addrs; has6 = list_ex (\<lambda>a. \<not> Is4 (paddr a)) addrs;
          fits = (\<lambda>r. Is4 (paddr r) \<and> has4 \<or> \<not> Is4 (paddr r) \<and> has6)
      in (filter fits routes, filter (\<lambda>r. \<not> fits r) routes))"

definition addresses :: "prefix list \<Rightarrow> prefix list" where
  "addresses ps = filter PrefixIsValid ps"

section \<open>Names\<close>

definition label_of_rune :: "nat \<Rightarrow> char option" where
  "label_of_rune r =
     (if 97 \<le> r \<and> r \<le> 122 \<or> 48 \<le> r \<and> r \<le> 57 then Some (char_of r)
      else if r \<in> {45, 95, 46, 32, 47} then Some hyphen
      else None)"

definition asLabel :: "unicode \<Rightarrow> string \<Rightarrow> string option" where
  "asLabel U raw =
     (case all_some (map label_of_rune (runes (ToLower U (TrimSpace U raw)))) of
        None \<Rightarrow> None
      | Some b \<Rightarrow>
          (let name = collapse (trim_by (\<lambda>c. c = hyphen) b);
               name = (if MaxNameLength < length name then trim_by (\<lambda>c. c = hyphen) (take MaxNameLength name) else name)
           in if name = [] then None else Some name))"

definition hint :: "Record \<Rightarrow> string \<Rightarrow> string" where
  "hint r k = the_default [] (mget (req_Hints (rec_Request r)) k)"

text \<open>The result is \<open>None\<close> when the slice of the fingerprint panics.\<close>

definition defaultName :: "unicode \<Rightarrow> Record \<Rightarrow> string option" where
  "defaultName U record =
     (case (asLabel U (hint record ''environment''), asLabel U (hint record ''project'')) of
        (Some env, Some project) \<Rightarrow> Some (env @ ''.'' @ project)
      | _ \<Rightarrow>
          (case find (\<lambda>x. x \<noteq> None) (map (asLabel U) [hint record ''service'', hint record ''project'', hint record ''hostname'']) of
             Some (Some name) \<Rightarrow> Some name
           | _ \<Rightarrow>
               if length (rec_Fingerprint record) < 8 then None
               else Some (rec_Kind record @ ''-'' @ take 8 (rec_Fingerprint record))))"

definition fitsInAName :: "string \<Rightarrow> string \<Rightarrow> string \<Rightarrow> bool" where
  "fitsInAName kind member inst \<longleftrightarrow>
     list_all (\<lambda>full. length full \<le> 253) [member @ ''.'' @ inst @ ''.'' @ Suffix, MemberCertName kind member inst]"

definition machineName :: "State \<Rightarrow> string" where
  "machineName s = (if da_Name (sta_data s) \<noteq> [] then da_Name (sta_data s) else ''node'')"

text \<open>Twelve random bytes, or the time in the form of the format when there are none.\<close>

definition newSharedToken :: "(time \<Rightarrow> string) \<Rightarrow> string option \<Rightarrow> time \<Rightarrow> string" where
  "newSharedToken format drawn now = (case drawn of Some raw \<Rightarrow> hex_encode raw | None \<Rightarrow> CHR ''t'' # format now)"

section \<open>Properties\<close>

lemma pending_loop_eq:
  "pending_loop entries requestID found =
     (case find (\<lambda>e. rec_ID (pe_Record e) = requestID) entries of
        Some e \<Rightarrow> Inl e
      | None \<Rightarrow> Inr (found @ filter (\<lambda>e. HasPrefix (rec_ID (pe_Record e)) requestID) entries))"
  by (induction entries requestID found rule: pending_loop.induct) (auto split: option.splits)

text \<open>
  A request is the one whose identifier is given, or the only one whose identifier starts with what is
  given; with several of those nothing is decided.
\<close>

theorem matchPending_unambiguous:
  "(matchPending entries ref = Inr e \<longrightarrow> e \<in> set entries \<and> HasPrefix (rec_ID (pe_Record e)) ref
      \<and> (rec_ID (pe_Record e) = ref \<or> filter (\<lambda>x. HasPrefix (rec_ID (pe_Record x)) ref) entries = [e]))
   \<and> (ref \<in> (\<lambda>x. rec_ID (pe_Record x)) ` set entries \<longrightarrow> (\<exists>x. matchPending entries ref = Inr x \<and> rec_ID (pe_Record x) = ref))
   \<and> (matchPending entries ref = Inl (NoPending ref) \<longleftrightarrow> (\<forall>x \<in> set entries. \<not> HasPrefix (rec_ID (pe_Record x)) ref))"
proof (cases "find (\<lambda>x. rec_ID (pe_Record x) = ref) entries")
  case (Some x)
  then have x: "x \<in> set entries" "rec_ID (pe_Record x) = ref" by (auto dest: find_SomeD)
  have h: "HasPrefix (rec_ID (pe_Record x)) ref" using x(2) by (simp add: HasPrefix_def)
  have "matchPending entries ref = Inr x" using Some by (simp add: matchPending_def pending_loop_eq)
  then show ?thesis using h x by (auto intro: bexI [of _ x] simp: HasPrefix_def)
next
  case None
  then have n: "\<forall>x \<in> set entries. rec_ID (pe_Record x) \<noteq> ref" by (auto simp: find_None_iff)
  let ?f = "filter (\<lambda>x. HasPrefix (rec_ID (pe_Record x)) ref) entries"
  have m: "matchPending entries ref = (case ?f of [] \<Rightarrow> Inl (NoPending ref) | [e] \<Rightarrow> Inr e | _ \<Rightarrow> Inl (AmbiguousPending ref (length ?f)))"
    using None by (simp add: matchPending_def pending_loop_eq split: list.split)
  have in_f: "e \<in> set ?f \<Longrightarrow> e \<in> set entries \<and> HasPrefix (rec_ID (pe_Record e)) ref" for e by auto
  have "?f = [] \<longleftrightarrow> (\<forall>x \<in> set entries. \<not> HasPrefix (rec_ID (pe_Record x)) ref)" by (simp add: filter_empty_conv)
  moreover have e: "matchPending entries ref = Inr e \<longleftrightarrow> ?f = [e]" and "matchPending entries ref = Inl (NoPending ref) \<longleftrightarrow> ?f = []"
    unfolding m by (simp_all split: list.split)
  moreover have "?f = [e] \<Longrightarrow> e \<in> set entries \<and> HasPrefix (rec_ID (pe_Record e)) ref" using in_f [of e] by simp
  moreover have "ref \<notin> (\<lambda>x. rec_ID (pe_Record x)) ` set entries" using n by blast
  ultimately show ?thesis by blast
qed

lemma carriable_split:
  "set (fst (carriable routes addrs)) \<union> set (snd (carriable routes addrs)) = set routes"
  "r \<in> set (fst (carriable routes addrs)) \<longleftrightarrow> r \<in> set routes \<and> (\<exists>a \<in> set addrs. Is4 (paddr a) = Is4 (paddr r))"
  by (auto simp: carriable_def Let_def list_ex_iff)

lemma all_some_mapped: "all_some (map f xs) = Some ys \<Longrightarrow> (\<And>x y. f x = Some y \<Longrightarrow> g x = y) \<Longrightarrow> map g xs = ys"
proof (induction xs arbitrary: ys)
  case (Cons x xs)
  then show ?case by (cases "f x"; cases "all_some (map f xs)") auto
qed simp

lemma label_fold: "label_of_rune r = Some c \<Longrightarrow> fold_rune r = c"
  by (auto simp: label_of_rune_def fold_rune_def split: if_splits)

text \<open>Where it gives a label at all, it is the one the hub would fold the text to.\<close>

lemma asLabel_FoldLabel:
  assumes "asLabel U raw = Some name"
  shows "name = FoldLabel U raw"
proof -
  obtain b where b: "all_some (map label_of_rune (runes (ToLower U (TrimSpace U raw)))) = Some b"
    using assms by (auto simp: asLabel_def split: option.splits)
  then have "map fold_rune (runes (ToLower U (TrimSpace U raw))) = b" by (rule all_some_mapped) (rule label_fold)
  with b assms show ?thesis by (auto simp: asLabel_def FoldLabel_def Let_def split: if_splits)
qed

lemma asLabel_label: "asLabel U raw = Some name \<Longrightarrow> dns_label name \<and> name \<noteq> []"
  using asLabel_FoldLabel [of U raw name] FoldLabel_folded [of U raw] by (simp add: folded_def dns_label_def)

lemma dns_label_split: "dns_label l \<Longrightarrow> split_on dot l = [l]"
  unfolding split_on_def using label_char_facts(4) by (intro split_by_no) (auto simp: dns_label_def list_all_iff)

lemma find_candidates:
  "find (\<lambda>x. x \<noteq> None) (map (asLabel U) l) = Some y \<Longrightarrow> \<exists>raw name. y = Some name \<and> asLabel U raw = Some name"
  by (drule find_SomeD) auto

text \<open>
  The name a member is given when it asked for none is a name: one or two DNS labels, made of what it
  said about itself or of its kind and the start of its fingerprint. And with an instance's name, which is
  one label, it fits in a DNS name, so an approval never fails over a name nobody chose.
\<close>

theorem default_name_is_a_name:
  assumes "rec_Kind record \<in> {KindConnector, KindTenant}" and "8 \<le> length (rec_Fingerprint record)"
    and "list_all label_char (rec_Fingerprint record)" and "hyphen \<notin> set (rec_Fingerprint record)"
    and "length inst \<le> 63"
  shows "\<exists>name. defaultName U record = Some name \<and> list_all dns_label (split_on dot name)
    \<and> length (split_on dot name) \<le> 2 \<and> length name \<le> 127 \<and> fitsInAName (rec_Kind record) name inst"
proof -
  have fits: "fitsInAName (rec_Kind record) name inst" if "length name \<le> 127" for name
    using that assms(1,5) by (auto simp: fitsInAName_def Suffix_def MemberCertName_def certKind_def CertSuffix_def KindConnector_def KindTenant_def)
  have one: "list_all dns_label (split_on dot name) \<and> length (split_on dot name) \<le> 2 \<and> length name \<le> 127" if "dns_label name" for name
    using that dns_label_split [OF that] by (simp add: dns_label_def)
  let ?fallback = "rec_Kind record @ ''-'' @ take 8 (rec_Fingerprint record)"
  have ne: "take 8 (rec_Fingerprint record) \<noteq> []" using assms(2) by (cases "rec_Fingerprint record") auto
  then have "last (take 8 (rec_Fingerprint record)) \<in> set (rec_Fingerprint record)" using in_set_takeD last_in_set by metis
  then have lst: "last (take 8 (rec_Fingerprint record)) \<noteq> hyphen" using assms(4) by auto
  have tk: "list_all label_char (take 8 (rec_Fingerprint record))" using assms(3) by (auto simp: list_all_iff dest: in_set_takeD)
  have fb: "dns_label ?fallback"
    using assms(1,2) ne lst tk
    by (auto simp: dns_label_def KindConnector_def KindTenant_def label_char_def label_rune_def hyphen_def)
  show ?thesis
  proof (cases "asLabel U (hint record ''environment'') = None \<or> asLabel U (hint record ''project'') = None")
    case False
    then obtain env project where e: "asLabel U (hint record ''environment'') = Some env" "asLabel U (hint record ''project'') = Some project" by auto
    then have l: "dns_label env" "dns_label project" using asLabel_label by auto
    have "dot \<notin> set env" using l(1) label_char_facts(4) by (auto simp: dns_label_def list_all_iff)
    then have "split_on dot (env @ ''.'' @ project) = [env, project]"
      using dns_label_split [OF l(2)] by (simp add: dot_string split_on_append)
    then show ?thesis using e l fits [of "env @ ''.'' @ project"] by (simp add: defaultName_def dns_label_def)
  next
    case True
    obtain name where "defaultName U record = Some name" "dns_label name"
    proof (cases "find (\<lambda>x. x \<noteq> None) (map (asLabel U) [hint record ''service'', hint record ''project'', hint record ''hostname''])")
      case None
      with True assms(2) have "defaultName U record = Some ?fallback" by (auto simp: defaultName_def split: option.splits)
      with fb that show ?thesis by blast
    next
      case (Some y)
      then obtain raw name where y: "y = Some name" "asLabel U raw = Some name" using find_candidates by blast
      with True Some have "defaultName U record = Some name" by (auto simp: defaultName_def split: option.splits)
      with asLabel_label [OF y(2)] that show ?thesis by blast
    qed
    then show ?thesis using one fits by blast
  qed
qed

end
