(* ===== verification/Resolvers.thy ===== *)
theory Resolvers
  imports Runner Guarantees
begin

text \<open>
  How a tenant's machine is told which names go where, \<open>src/internal/tenant/dns.go\<close>, and the routers
  the daemon runs, the second half of \<open>src/internal/tenant/dnsrouter.go\<close>.

  The daemon makes a plan from the hub's route tables; a command line that runs as root applies it to
  systemd-resolved. The machine is the directory of link units and what each link was told; whether a
  call of the system succeeds is the parameter \<open>machine_env\<close>. The hub is the parameter \<open>routes\<close>, one answer
  per instance. A Go map of aliases is walked in the order the model stores it.
\<close>

section \<open>Routers of the daemon\<close>

record router =
  rou_instance :: string
  rou_table :: routerTable

record Daemon =
  dae_state :: State
  dae_routers :: "(string \<times> router) list"
  dae_run :: runners

record listeners =
  ls_udp :: "addr \<Rightarrow> bool"
  ls_tcp :: "addr \<Rightarrow> bool"

definition tableFor :: "unicode \<Rightarrow> Daemon \<Rightarrow> Connection \<Rightarrow> RouteTable \<Rightarrow> routerTable" where
  "tableFor U d conn table = withAliases U (routerTableFor U table (con_Name conn)) (Aliases (dae_state d))"

definition startRouter :: "unicode \<Rightarrow> listeners \<Rightarrow> Connection \<Rightarrow> RouteTable \<Rightarrow> Daemon \<Rightarrow> Daemon \<times> (tenant_err + unit)" where
  "startRouter U L conn table d =
     (if \<not> PrefixIsValid (con_Address conn) then (d, Inr ())
      else
        (let t = tableFor U d conn table; a = paddr (con_Address conn) in
         case map_of (dae_routers d) (con_InstanceID conn) of
           Some r \<Rightarrow> (d\<lparr>dae_routers := AList.update (con_InstanceID conn) (r\<lparr>rou_table := t\<rparr>) (dae_routers d)\<rparr>, Inr ())
         | None \<Rightarrow>
             if \<not> ls_udp L a then (d, Inl (NotListening a))
             else if \<not> ls_tcp L a then (d, Inl (NotListening a))
             else (d\<lparr>dae_routers := AList.update (con_InstanceID conn)
                      \<lparr>rou_instance = con_Name conn, rou_table = t\<rparr> (dae_routers d)\<rparr>, Inr ())))"

definition stopRouter :: "string \<Rightarrow> Daemon \<Rightarrow> Daemon" where
  "stopRouter inst d = d\<lparr>dae_routers := AList.delete inst (dae_routers d)\<rparr>"

definition routerTableOf :: "string \<Rightarrow> Daemon \<Rightarrow> routerTable option" where
  "routerTableOf inst d = map_option rou_table (map_of (dae_routers d) inst)"

section \<open>The plan\<close>

record DNSEntry =
  de_Instance :: string
  de_Device :: string
  de_Servers :: "string list"
  de_Domains :: "string list"

definition plan_entry :: "unicode \<Rightarrow> listeners \<Rightarrow> (string \<Rightarrow> string + RouteTable) \<Rightarrow> bool \<Rightarrow> Connection \<Rightarrow> Daemon
    \<Rightarrow> Daemon \<times> DNSEntry" where
  "plan_entry U L routes remove conn d =
     (let entry = \<lparr>de_Instance = con_Name conn, de_Device = con_Device conn, de_Servers = [], de_Domains = []\<rparr> in
      if remove \<or> \<not> Ready conn then (d, entry)
      else
        (case routes (con_InstanceID conn) of
           Inl _ \<Rightarrow> (d, entry)
         | Inr table \<Rightarrow>
             (let rt = tableFor U d conn table; d' = fst (startRouter U L conn table d); domains = Domains rt in
              (d', entry\<lparr>de_Domains := domains,
                         de_Servers := (if domains \<noteq> [] then
                            [JoinHostPort (AddrString (paddr (con_Address conn))) (digits_of (unat RouterPort))] else [])\<rparr>))))"

fun plan_loop :: "unicode \<Rightarrow> listeners \<Rightarrow> (string \<Rightarrow> string + RouteTable) \<Rightarrow> bool \<Rightarrow> Connection list \<Rightarrow> Daemon
    \<Rightarrow> Daemon \<times> DNSEntry list" where
  "plan_loop U L routes remove [] d = (d, [])"
| "plan_loop U L routes remove (conn # conns) d =
     (let (d1, e) = plan_entry U L routes remove conn d; (d2, es) = plan_loop U L routes remove conns d1 in (d2, e # es))"

definition DNSPlan :: "unicode \<Rightarrow> listeners \<Rightarrow> (string \<Rightarrow> string + RouteTable) \<Rightarrow> bool \<Rightarrow> Daemon \<Rightarrow> Daemon \<times> DNSEntry list" where
  "DNSPlan U L routes remove d = plan_loop U L routes remove (Connections (dae_state d)) d"

section \<open>The machine\<close>

record machine =
  mc_units :: "string \<rightharpoonup> string"
  mc_servers :: "string \<Rightarrow> string list"
  mc_domains :: "string \<Rightarrow> string list"

record machine_env =
  me_resolvectl :: bool
  me_mkdir :: bool
  me_write :: "string \<Rightarrow> bool"
  me_unlink :: "string \<Rightarrow> bool"
  me_ctl :: "string list \<Rightarrow> bool"

datatype resolver_err = ErrNoResolver | UnknownMode string | MkdirFailed | UnitNotWritten string | CtlFailed "string list"
  | EntryFailed string resolver_err

definition ModeSystemd :: string where "ModeSystemd = ''systemd''"

definition unitPrefix :: string where "unitPrefix = ''90-robinet-''"

definition networkUnitPath :: "string \<Rightarrow> string" where
  "networkUnitPath device = unitPrefix @ device @ ''.network''"

definition unit_text :: "string \<Rightarrow> string list \<Rightarrow> string list \<Rightarrow> string" where
  "unit_text device servers routing = join [nl]
     [''# Written by robinet dns. Removed by robinet dns --remove.'',
      ''#'',
      ''# The addresses and routes on this link belong to nebula. This file says which'',
      ''# names go to it, and nothing else.'',
      '''',
      ''[Match]'',
      ''Name='' @ device,
      '''',
      ''[Network]'',
      ''KeepConfiguration=yes'',
      ''ConfigureWithoutCarrier=yes'',
      ''IgnoreCarrierLoss=yes'',
      ''LinkLocalAddressing=no'',
      ''LLMNR=no'',
      ''DNS='' @ join '' '' servers,
      ''Domains='' @ join '' '' routing,
      '''']"

definition haveResolved :: "machine_env \<Rightarrow> resolver_err option" where
  "haveResolved E = (if me_resolvectl E then None else Some ErrNoResolver)"

definition systemdInstall :: "machine_env \<Rightarrow> string \<Rightarrow> string list \<Rightarrow> string list \<Rightarrow> machine
    \<Rightarrow> machine \<times> (resolver_err + unit)" where
  "systemdInstall E device servers domains m =
     (case haveResolved E of
        Some e \<Rightarrow> (m, Inl e)
      | None \<Rightarrow>
          (let routing = map (\<lambda>d. CHR ''~'' # d) domains; path = networkUnitPath device in
           if \<not> me_mkdir E then (m, Inl MkdirFailed)
           else if \<not> me_write E path then (m, Inl (UnitNotWritten path))
           else
             (let m1 = m\<lparr>mc_units := (mc_units m)(path \<mapsto> unit_text device servers routing)\<rparr> in
              if \<not> me_ctl E ([''dns'', device] @ servers) then (m1, Inl (CtlFailed ([''dns'', device] @ servers)))
              else
                (let m2 = m1\<lparr>mc_servers := (mc_servers m1)(device := servers)\<rparr> in
                 if \<not> me_ctl E ([''domain'', device] @ routing) then (m2, Inl (CtlFailed ([''domain'', device] @ routing)))
                 else (m2\<lparr>mc_domains := (mc_domains m2)(device := routing)\<rparr>, Inr ())))))"

definition systemdRemove :: "machine_env \<Rightarrow> string \<Rightarrow> machine \<Rightarrow> machine \<times> (resolver_err + unit)" where
  "systemdRemove E device m =
     (case haveResolved E of
        Some e \<Rightarrow> (m, Inl e)
      | None \<Rightarrow>
          (let path = networkUnitPath device;
               m1 = (if me_unlink E path then m\<lparr>mc_units := (mc_units m)(path := None)\<rparr> else m) in
           if \<not> me_ctl E [''domain'', device] then (m1, Inl (CtlFailed [''domain'', device]))
           else
             (let m2 = m1\<lparr>mc_domains := (mc_domains m1)(device := [])\<rparr> in
              if \<not> me_ctl E [''dns'', device] then (m2, Inl (CtlFailed [''dns'', device]))
              else (m2\<lparr>mc_servers := (mc_servers m2)(device := [])\<rparr>, Inr ()))))"

definition is_unit :: "string \<Rightarrow> bool" where
  "is_unit path \<longleftrightarrow> HasPrefix path unitPrefix \<and> HasSuffix (drop (length unitPrefix) path) ''.network''"

definition unit_device :: "string \<Rightarrow> string" where
  "unit_device path = TrimSuffix (drop (length unitPrefix) path) ''.network''"

definition sweep_units :: "machine_env \<Rightarrow> string list \<Rightarrow> machine \<Rightarrow> machine" where
  "sweep_units E keep m = m\<lparr>mc_units := (\<lambda>path.
     if is_unit path \<and> unit_device path \<notin> set keep \<and> me_unlink E path then None else mc_units m path)\<rparr>"

definition RemoveAll :: "machine_env \<Rightarrow> machine \<Rightarrow> machine" where
  "RemoveAll E m = sweep_units E [] m"

record mode =
  mo_name :: string
  mo_install :: "machine_env \<Rightarrow> string \<Rightarrow> string list \<Rightarrow> string list \<Rightarrow> machine \<Rightarrow> machine \<times> (resolver_err + unit)"
  mo_remove :: "machine_env \<Rightarrow> string \<Rightarrow> machine \<Rightarrow> machine \<times> (resolver_err + unit)"

definition modes :: "mode list" where
  "modes = [\<lparr>mo_name = ModeSystemd, mo_install = systemdInstall, mo_remove = systemdRemove\<rparr>]"

definition lookupMode :: "string \<Rightarrow> resolver_err + mode" where
  "lookupMode name =
     (case find (\<lambda>m. mo_name m = name) modes of Some m \<Rightarrow> Inr m | None \<Rightarrow> Inl (UnknownMode name))"

definition apply_entry :: "machine_env \<Rightarrow> mode \<Rightarrow> DNSEntry \<Rightarrow> machine \<Rightarrow> machine \<times> (resolver_err + unit)" where
  "apply_entry E md e m =
     (if de_Domains e = [] then mo_remove md E (de_Device e) m
      else mo_install md E (de_Device e) (de_Servers e) (de_Domains e) m)"

fun apply_loop :: "machine_env \<Rightarrow> mode \<Rightarrow> DNSEntry list \<Rightarrow> machine \<Rightarrow> machine \<times> (resolver_err + unit)" where
  "apply_loop E md [] m = (m, Inr ())"
| "apply_loop E md (e # es) m =
     (case apply_entry E md e m of
        (m', Inl err) \<Rightarrow> (m', Inl (EntryFailed (de_Instance e) err))
      | (m', Inr _) \<Rightarrow> apply_loop E md es m')"

definition Apply :: "machine_env \<Rightarrow> string \<Rightarrow> DNSEntry list \<Rightarrow> machine \<Rightarrow> machine \<times> (resolver_err + unit)" where
  "Apply E name plan m =
     (case lookupMode name of
        Inl e \<Rightarrow> (m, Inl e)
      | Inr md \<Rightarrow> apply_loop E md plan
          (sweep_units E (map de_Device (filter (\<lambda>e. de_Domains e \<noteq> []) plan)) m))"

section \<open>What can be reached\<close>

record Reach =
  rea_Instance :: string
  rea_Network :: prefix
  rea_Carrier :: string
  rea_Names :: string
  rea_Installed :: bool

definition names_of :: "routerTable \<Rightarrow> addr \<Rightarrow> string" where
  "names_of t via = fold (\<lambda>r names. names(rr_Via r := rr_Virtual r)) (rtb_routes t) (\<lambda>_. []) via"

definition reach_of :: "unicode \<Rightarrow> Daemon \<Rightarrow> Connection \<Rightarrow> RouteTable \<Rightarrow> Reach list" where
  "reach_of U d conn table =
     (let names = names_of (routerTableFor U table (con_Name conn));
          installed = (case routerTableOf (con_InstanceID conn) d of Some rt \<Rightarrow> Domains rt | None \<Rightarrow> []) in
      map (\<lambda>route. \<lparr>rea_Instance = con_Name conn, rea_Network = rt_Prefix route, rea_Carrier = rt_Connector route,
                    rea_Names = names (rt_Via route), rea_Installed = (names (rt_Via route) \<in> set installed)\<rparr>)
        (filter (\<lambda>route. rt_Via route \<noteq> paddr (con_Address conn)) (rtab_Routes table)))"

definition Reachable :: "unicode \<Rightarrow> (string \<Rightarrow> string + RouteTable) \<Rightarrow> Daemon \<Rightarrow> Reach list" where
  "Reachable U routes d =
     sort_key rea_Instance (sort_key (\<lambda>r. PrefixString (rea_Network r))
       (concat (map (\<lambda>conn. if \<not> Ready conn then [] else
          (case routes (con_InstanceID conn) of Inl _ \<Rightarrow> [] | Inr table \<Rightarrow> reach_of U d conn table)) (Connections (dae_state d)))))"

section \<open>Aliases\<close>

definition answered :: "unicode \<Rightarrow> (string \<Rightarrow> string + RouteTable) \<Rightarrow> string \<Rightarrow> Connection \<Rightarrow> bool" where
  "answered U routes target conn \<longleftrightarrow> Ready conn \<and>
     (case routes (con_InstanceID conn) of
        Inl _ \<Rightarrow> False
      | Inr table \<Rightarrow> table_match U (routerTableFor U table (con_Name conn)) target \<noteq> None)"

definition SetAlias :: "unicode \<Rightarrow> (string \<Rightarrow> string + RouteTable) \<Rightarrow> tenant_fault option \<Rightarrow> string \<Rightarrow> string \<Rightarrow> Daemon
    \<Rightarrow> Daemon \<times> (tenant_err + unit)" where
  "SetAlias U routes io alias canonical d =
     (let store = (\<lambda>name target. case State_SetAlias io name target (dae_state d) of (s, res) \<Rightarrow> (d\<lparr>dae_state := s\<rparr>, res)) in
      if alias = [] \<and> canonical = [] then (d, Inr ())
      else
        (case ParseMemberName U alias of
           Inl e \<Rightarrow> (d, Inl (BadAlias alias e))
         | Inr name \<Rightarrow>
             if canonical = [] then store name []
             else
               (case ParseMemberName U canonical of
                  Inl e \<Rightarrow> (d, Inl (BadAlias canonical e))
                | Inr target \<Rightarrow>
                    if \<not> list_ex (answered U routes target) (Connections (dae_state d)) then (d, Inl (NothingAnswers target))
                    else if name = target then (d, Inl (OwnName name))
                    else store name target)))"

section \<open>Applying a plan\<close>

definition view :: "machine \<Rightarrow> string \<Rightarrow> string option \<times> string list \<times> string list" where
  "view m dev = (mc_units m (networkUnitPath dev), mc_servers m dev, mc_domains m dev)"

definition wanted :: "DNSEntry \<Rightarrow> string option \<times> string list \<times> string list" where
  "wanted e =
     (if de_Domains e = [] then (None, [], [])
      else (let routing = map (\<lambda>d. CHR ''~'' # d) (de_Domains e) in
        (Some (unit_text (de_Device e) (de_Servers e) routing), de_Servers e, routing)))"

definition configure :: "DNSEntry \<Rightarrow> machine \<Rightarrow> machine" where
  "configure e m = m\<lparr>mc_units := (mc_units m)(networkUnitPath (de_Device e) := fst (wanted e)),
     mc_servers := (mc_servers m)(de_Device e := fst (snd (wanted e))),
     mc_domains := (mc_domains m)(de_Device e := snd (snd (wanted e)))\<rparr>"

lemma networkUnitPath_inj [simp]: "networkUnitPath a = networkUnitPath b \<longleftrightarrow> a = b"
  by (simp add: networkUnitPath_def)

lemma is_unit_path [simp]: "is_unit (networkUnitPath dev)" "unit_device (networkUnitPath dev) = dev"
  by (simp_all add: is_unit_def unit_device_def networkUnitPath_def HasPrefix_iff)

lemma is_unit_iff: "is_unit path \<longleftrightarrow> path = networkUnitPath (unit_device path)"
proof
  assume "is_unit path"
  then obtain rest dev where "path = unitPrefix @ rest" "rest = dev @ ''.network''"
    by (auto simp: is_unit_def HasPrefix_iff HasSuffix_iff)
  then show "path = networkUnitPath (unit_device path)" by (simp add: unit_device_def networkUnitPath_def)
qed (metis is_unit_path(1))

definition systemd :: mode where
  "systemd = \<lparr>mo_name = ModeSystemd, mo_install = systemdInstall, mo_remove = systemdRemove\<rparr>"

lemma lookupMode_systemd: "lookupMode name = (if name = ModeSystemd then Inr systemd else Inl (UnknownMode name))"
  by (simp add: lookupMode_def modes_def systemd_def)

lemma apply_entry_Inr:
  assumes "\<And>path. me_unlink E path" and "apply_entry E systemd e m = (m', Inr r)"
  shows "m' = configure e m \<and> (\<forall>n. apply_entry E systemd e n = (configure e n, Inr r))"
  using assms
  by (auto simp: apply_entry_def systemd_def systemdInstall_def systemdRemove_def configure_def wanted_def Let_def
      split: option.splits if_splits)

lemma view_configure: "view (configure e m) dev = (if dev = de_Device e then wanted e else view m dev)"
  by (simp add: view_def configure_def)

lemma configure_done: "view m (de_Device e) = wanted e \<Longrightarrow> configure e m = m"
  unfolding view_def configure_def by (cases "wanted e") (auto simp: fun_upd_idem)

lemma apply_loop_Inr:
  assumes "\<And>path. me_unlink E path" and "apply_loop E systemd plan m = (m', Inr r)"
  shows "m' = fold configure plan m \<and> (\<forall>n. apply_loop E systemd plan n = (fold configure plan n, Inr r))"
  using assms(2)
proof (induction plan arbitrary: m)
  case (Cons e es)
  then obtain m1 r1 where e: "apply_entry E systemd e m = (m1, Inr r1)" and es: "apply_loop E systemd es m1 = (m', Inr r)"
    by (auto split: prod.splits sum.splits)
  from apply_entry_Inr [OF assms(1) e] Cons.IH [OF es] show ?case by simp
qed simp

lemma view_fold:
  assumes "distinct (map de_Device plan)"
  shows "(\<forall>e \<in> set plan. view (fold configure plan m) (de_Device e) = wanted e)
    \<and> (\<forall>dev. dev \<notin> de_Device ` set plan \<longrightarrow> view (fold configure plan m) dev = view m dev)
    \<and> (\<forall>path. \<not> is_unit path \<longrightarrow> mc_units (fold configure plan m) path = mc_units m path)"
  using assms
proof (induction plan arbitrary: m)
  case (Cons e es)
  then have d: "distinct (map de_Device es)" "de_Device e \<notin> de_Device ` set es" by auto
  note IH = Cons.IH [OF d(1), of "configure e m"]
  have "view (fold configure es (configure e m)) (de_Device e) = wanted e" using IH d(2) by (simp add: view_configure)
  moreover have "mc_units (configure e m) path = mc_units m path" if "\<not> is_unit path" for path
    using that is_unit_path(1) by (auto simp: configure_def)
  ultimately show ?case using IH by (auto simp: view_configure)
qed simp

lemma fold_configure_done: "(\<forall>e \<in> set plan. view m (de_Device e) = wanted e) \<Longrightarrow> fold configure plan m = m"
  by (induction plan) (simp_all add: configure_done)

lemma sweep_done:
  assumes "\<And>dev. dev \<notin> set keep \<Longrightarrow> mc_units m (networkUnitPath dev) = None"
  shows "sweep_units E keep m = m"
proof -
  have "mc_units m path = None" if "is_unit path" "unit_device path \<notin> set keep" for path
    using assms [OF that(2)] that(1) is_unit_iff [of path] by simp
  then have "(\<lambda>path. if is_unit path \<and> unit_device path \<notin> set keep \<and> me_unlink E path then None else mc_units m path) = mc_units m"
    by auto
  then show ?thesis by (simp add: sweep_units_def)
qed

text \<open>
  Once a plan was applied the machine is as the plan says: every device with domains has its unit and
  its link is told the servers and the domains, every device without them and every device that is not
  in the plan has no unit, and no other file is touched. Applying the plan again changes nothing.
\<close>

theorem Apply_installs_the_plan:
  assumes "Apply E name plan m = (m', Inr ())" and "distinct (map de_Device plan)" and "\<And>path. me_unlink E path"
  shows "(\<forall>e \<in> set plan. view m' (de_Device e) = wanted e)
    \<and> (\<forall>dev. dev \<notin> de_Device ` set plan \<longrightarrow> mc_units m' (networkUnitPath dev) = None)
    \<and> (\<forall>path. \<not> is_unit path \<longrightarrow> mc_units m' path = mc_units m path)
    \<and> Apply E name plan m' = (m', Inr ())"
proof -
  define keep where "keep = map de_Device (filter (\<lambda>e. de_Domains e \<noteq> []) plan)"
  have n: "name = ModeSystemd" and l: "apply_loop E systemd plan (sweep_units E keep m) = (m', Inr ())"
    using assms(1) by (auto simp: Apply_def lookupMode_systemd keep_def split: if_splits)
  from apply_loop_Inr [OF assms(3) l] have m': "m' = fold configure plan (sweep_units E keep m)"
    and again: "apply_loop E systemd plan k = (fold configure plan k, Inr ())" for k by auto
  note V = view_fold [OF assms(2), of "sweep_units E keep m", folded m']
  have swept: "mc_units (sweep_units E keep m) (networkUnitPath dev) = None" if "dev \<notin> set keep" for dev
    using that assms(3) by (simp add: sweep_units_def)
  have gone: "mc_units m' (networkUnitPath dev) = None" if "dev \<notin> de_Device ` set plan" for dev
    using V swept [of dev] that by (auto simp: view_def keep_def)
  have "mc_units m' (networkUnitPath dev) = None" if "dev \<notin> set keep" for dev
  proof (cases "dev \<in> de_Device ` set plan")
    case True
    then obtain e where e: "e \<in> set plan" "dev = de_Device e" by blast
    with that have "de_Domains e = []" by (auto simp: keep_def)
    with V e show ?thesis by (auto simp: view_def wanted_def)
  qed (rule gone)
  then have "sweep_units E keep m' = m'" by (rule sweep_done)
  then have "Apply E name plan m' = (m', Inr ())"
    using again [of m'] fold_configure_done [of plan m'] V n by (simp add: Apply_def lookupMode_systemd keep_def)
  moreover have "mc_units m' path = mc_units m path" if "\<not> is_unit path" for path
    using V that by (simp add: sweep_units_def)
  ultimately show ?thesis using V gone by blast
qed

definition open_env :: machine_env where
  "open_env = \<lparr>me_resolvectl = True, me_mkdir = True, me_write = (\<lambda>_. True), me_unlink = (\<lambda>_. True), me_ctl = (\<lambda>_. True)\<rparr>"

definition example_plan :: "DNSEntry list" where
  "example_plan =
     [\<lparr>de_Instance = ''acme'', de_Device = ''robinet0'', de_Servers = [''10.0.0.1:5354''], de_Domains = [''web.acme.robinet'']\<rparr>,
      \<lparr>de_Instance = ''old'', de_Device = ''robinet1'', de_Servers = [], de_Domains = []\<rparr>]"

definition bare_machine :: machine where
  "bare_machine = \<lparr>mc_units = (\<lambda>path. if path = ''90-robinet-robinet7.network'' then Some ''stale'' else None),
     mc_servers = (\<lambda>_. []), mc_domains = (\<lambda>_. [])\<rparr>"

theorem Apply_installs_the_plan_witness:
  "\<exists>m'. Apply open_env ModeSystemd example_plan bare_machine = (m', Inr ())
     \<and> mc_domains m' ''robinet0'' = [''~web.acme.robinet''] \<and> mc_units m' (networkUnitPath ''robinet7'') = None"
proof -
  obtain m' where a: "Apply open_env ModeSystemd example_plan bare_machine = (m', Inr ())"
    by (simp add: Apply_def lookupMode_systemd example_plan_def apply_entry_def systemd_def systemdInstall_def systemdRemove_def
        haveResolved_def open_env_def Let_def)
  have "distinct (map de_Device example_plan)" by (simp add: example_plan_def)
  moreover have "me_unlink open_env path" for path by (simp add: open_env_def)
  ultimately have "view m' ''robinet0'' = wanted (hd example_plan)" "mc_units m' (networkUnitPath ''robinet7'') = None"
    using Apply_installs_the_plan [OF a] by (simp_all add: example_plan_def)
  with a show ?thesis by (auto simp: view_def wanted_def example_plan_def Let_def)
qed

section \<open>The plan and the routers agree\<close>

lemma startRouter_state [simp]: "dae_state (fst (startRouter U L conn table d)) = dae_state d"
  by (simp add: startRouter_def Let_def split: option.splits)

lemma startRouter_other:
  "iid \<noteq> con_InstanceID conn \<Longrightarrow> routerTableOf iid (fst (startRouter U L conn table d)) = routerTableOf iid d"
  by (simp add: startRouter_def routerTableOf_def Let_def update_conv' split: option.splits)

lemma startRouter_table:
  assumes "PrefixIsValid (con_Address conn)"
    and "routerTableOf (con_InstanceID conn) d = None \<longrightarrow> ls_udp L (paddr (con_Address conn)) \<and> ls_tcp L (paddr (con_Address conn))"
  shows "routerTableOf (con_InstanceID conn) (fst (startRouter U L conn table d)) = Some (tableFor U d conn table)"
  using assms by (auto simp: startRouter_def routerTableOf_def Let_def update_conv' split: option.splits)

lemma plan_entry_other:
  "iid \<noteq> con_InstanceID conn \<Longrightarrow> routerTableOf iid (fst (plan_entry U L routes remove conn d)) = routerTableOf iid d"
  "dae_state (fst (plan_entry U L routes remove conn d)) = dae_state d"
  by (auto simp: plan_entry_def Let_def startRouter_other split: sum.splits)

lemma plan_loop_other:
  "iid \<notin> con_InstanceID ` set conns \<Longrightarrow> routerTableOf iid (fst (plan_loop U L routes remove conns d)) = routerTableOf iid d"
proof (induction conns arbitrary: d)
  case (Cons c conns)
  then show ?case using plan_entry_other(1) [of iid c U L routes remove d]
    by (auto simp: Let_def split: prod.splits) (metis fst_conv)
qed simp

lemma plan_loop_agrees:
  assumes "conn \<in> set conns" and "distinct (map con_InstanceID conns)" and "Ready conn" and "PrefixIsValid (con_Address conn)"
    and "routes (con_InstanceID conn) = Inr table"
    and "routerTableOf (con_InstanceID conn) d = None \<longrightarrow> ls_udp L (paddr (con_Address conn)) \<and> ls_tcp L (paddr (con_Address conn))"
    and "plan_loop U L routes False conns d = (d', plan)"
  shows "\<exists>e \<in> set plan. de_Device e = con_Device conn \<and> routerTableOf (con_InstanceID conn) d' = Some (tableFor U d conn table)
    \<and> de_Domains e = Domains (tableFor U d conn table)"
  using assms
proof (induction conns arbitrary: d plan)
  case (Cons c conns)
  obtain d1 e es where e: "plan_entry U L routes False c d = (d1, e)" and es: "plan_loop U L routes False conns d1 = (d', es)"
    and plan: "plan = e # es" using Cons.prems(7) by (auto simp: Let_def split: prod.splits)
  show ?case
  proof (cases "c = conn")
    case True
    have "routerTableOf (con_InstanceID conn) d1 = Some (tableFor U d conn table)"
      and "de_Domains e = Domains (tableFor U d conn table)" and "de_Device e = con_Device conn"
      using startRouter_table [OF Cons.prems(4,6), of U table] e True Cons.prems(3,5) by (auto simp: plan_entry_def Let_def)
    moreover have "routerTableOf (con_InstanceID conn) d' = routerTableOf (con_InstanceID conn) d1"
      using plan_loop_other [of "con_InstanceID conn" conns U L routes False d1] Cons.prems(2) True es by auto
    ultimately show ?thesis using plan by auto
  next
    case False
    with Cons.prems(1) have mem: "conn \<in> set conns" by simp
    then have "con_InstanceID conn \<noteq> con_InstanceID c" using Cons.prems(2) by (auto intro: rev_image_eqI)
    then have "routerTableOf (con_InstanceID conn) d1 = routerTableOf (con_InstanceID conn) d"
      and "dae_state d1 = dae_state d" using plan_entry_other(1) [of "con_InstanceID conn" c U L routes False d] plan_entry_other(2) [of U L routes False c d] e
      by auto
    moreover from this(2) have "tableFor U d1 conn table = tableFor U d conn table" by (simp add: tableFor_def)
    ultimately show ?thesis using Cons.IH [OF mem _ Cons.prems(3-5) _ es] Cons.prems(2,6) plan by auto
  qed
qed simp


section \<open>Names of the hub\<close>

lemma address_owner:
  assumes ok: "inst_ok i" and m: "mget (inst_Members i) fp = Some m" and n: "mget (inst_Members i) gp = Some n"
    and eq: "paddr (mem_Address m) = paddr (mem_Address n)" and valid: "IsValid (paddr (mem_Address m))"
  shows "m = n"
proof (rule ccontr)
  assume "m \<noteq> n"
  then have "fp \<noteq> gp" using m n by auto
  then have own: "\<not> (fp = inst_Owner i \<and> gp = inst_Owner i)" by blast
  have "paddr (mem_Address m) \<noteq> AddrNone" using valid by auto
  moreover have "addr_plan (inst_Overlay i) [inst_LighthouseAddress i, inst_TenantAddress i] (inst_Allocations i)"
    using ok by (simp add: inst_ok_def plan4_ok_def)
  ultimately show False
    using member_address(1) [OF ok m] member_address(1) [OF ok n] plan_distinct [OF _ _ _ own \<open>fp \<noteq> gp\<close>] eq by metis
qed

text \<open>
  C14: the names of an instance lead to the lighthouse or to a connector that is a member of it and not
  banned, and a name space is said to carry a family exactly when that connector announced a network of
  the family; nobody else is ever asked. This holds in every state the hub can reach.
\<close>

theorem names_lead_to_admitted_connectors:
  assumes "reachable V h" and "mget (instances (hub_store h)) iid = Some inst"
    and "r \<in> set (rtb_routes (routerTableFor U (RouteTableOf cfg inst) name))"
  shows "r = lighthouse_route U (inst_LighthouseAddress inst) name
    \<or> (\<exists>fp m. mget (inst_Members inst) fp = Some m \<and> mem_Kind m = KindConnector \<and> \<not> Banned m
        \<and> rr_Via r = paddr (mem_Address m)
        \<and> (rr_IPv4 r \<longleftrightarrow> (\<exists>p \<in> set (mem_Routes m). Is4 (paddr p)))
        \<and> (rr_IPv6 r \<longleftrightarrow> (\<exists>p \<in> set (mem_Routes m). \<not> Is4 (paddr p)))
        \<and> (mem_Name m = [] \<or> rr_Virtual r = ToLower U (mem_Name m @ [dot] @ name @ [dot] @ Suffix)))"
proof -
  have ok: "inst_ok inst" by (rule reachable_instance [OF assms(1,2)])
  then have wf: "wf_map (inst_Members inst)" by (simp add: inst_ok_def members_ok_def)
  let ?t = "RouteTableOf cfg inst"
  have t: "rtab_Routes ?t = routesOf inst" "rtab_Resolvers ?t = resolversOf inst"
    "lh_OverlayAddress (rtab_Lighthouse ?t) = inst_LighthouseAddress inst" by (simp_all add: RouteTableOf_def)
  show ?thesis
  proof (cases "r = lighthouse_route U (inst_LighthouseAddress inst) name")
    case False
    then obtain s where s: "s \<in> set (resolversOf inst)" "IsValid (rsv_Via s)" "r = resolver_route U ?t name s"
      using assms(3) t by (auto simp: set_routerTableFor)
    from set_resolversOf [OF wf s(1)] obtain fp m where m: "mget (inst_Members inst) fp = Some m" "mem_Kind m = KindConnector"
      "\<not> Banned m" "rsv_Via s = paddr (mem_Address m)" "rsv_Connector s = mem_Name m" by blast
    have only: "(\<exists>x \<in> set (routesOf inst). rt_Via x = paddr (mem_Address m) \<and> P (rt_Prefix x)) \<longleftrightarrow> (\<exists>p \<in> set (mem_Routes m). P p)" for P
    proof
      assume "\<exists>x \<in> set (routesOf inst). rt_Via x = paddr (mem_Address m) \<and> P (rt_Prefix x)"
      then obtain x where x: "x \<in> set (routesOf inst)" "rt_Via x = paddr (mem_Address m)" "P (rt_Prefix x)" by blast
      from x(1) obtain gp n where "mget (inst_Members inst) gp = Some n" "rt_Prefix x \<in> set (mem_Routes n)"
        "paddr (mem_Address m) = paddr (mem_Address n)" unfolding set_routesOf [OF wf] x(2) by blast
      with x(3) address_owner [OF ok m(1)] s(2) m(4) show "\<exists>p \<in> set (mem_Routes m). P p" by metis
    next
      assume "\<exists>p \<in> set (mem_Routes m). P p"
      then obtain p where p: "p \<in> set (mem_Routes m)" "P p" by blast
      let ?x = "\<lparr>rt_Prefix = p, rt_Via = paddr (mem_Address m), rt_Connector = mem_Name m\<rparr>"
      have "?x \<in> set (routesOf inst)" using m p(1) by (auto simp: set_routesOf [OF wf])
      with p(2) show "\<exists>x \<in> set (routesOf inst). rt_Via x = paddr (mem_Address m) \<and> P (rt_Prefix x)" by force
    qed
    have "(rr_IPv4 r \<longleftrightarrow> (\<exists>p \<in> set (mem_Routes m). Is4 (paddr p))) \<and> (rr_IPv6 r \<longleftrightarrow> (\<exists>p \<in> set (mem_Routes m). \<not> Is4 (paddr p)))"
      unfolding only [of "\<lambda>p. Is4 (paddr p)", symmetric] only [of "\<lambda>p. \<not> Is4 (paddr p)", symmetric]
      using carries_iff [of ?t "rsv_Via s"] s(3) m(4) t by (simp add: resolver_route_def Let_def)
    moreover have "rr_Via r = paddr (mem_Address m)"
      "mem_Name m = [] \<or> rr_Virtual r = ToLower U (mem_Name m @ [dot] @ name @ [dot] @ Suffix)"
      using s(3) m(4,5) by (auto simp: resolver_route_def connector_label_def Let_def)
    ultimately show ?thesis using m(1-3) by blast
  qed simp
qed

section \<open>Recording an alias\<close>

lemma State_SetAlias_get:
  assumes "State_SetAlias io alias canonical s = (s', res)" and "canonical \<noteq> []"
  shows "mget (da_Aliases (sta_data s')) x = (if x = alias then Some canonical else mget (da_Aliases (sta_data s)) x)"
    and "Connections s' = Connections s"
proof -
  obtain l where l: "mput alias canonical (ensure (da_Aliases (sta_data s))) = Some l" by (simp add: ensure_def)
  from Write_cases(1) [OF assms(1) [unfolded State_SetAlias_def]] assms(2) l
  have d: "sta_data s' = (sta_data s)\<lparr>da_Aliases := l\<rparr>" by simp
  show "mget (da_Aliases (sta_data s')) x = (if x = alias then Some canonical else mget (da_Aliases (sta_data s)) x)"
    using mget_put [OF l] by (simp add: d)
  show "Connections s' = Connections s" by (simp add: Connections_def d)
qed

text \<open>
  An alias is recorded for a name that something answers for, under a name other than its own, both
  spelled the way member names are stored; every other alias stays. A request that is refused, for a bad
  name, for a name nothing answers for or for its own name, leaves the daemon as it was.
\<close>

theorem SetAlias_records:
  assumes "SetAlias U routes io alias canonical d = (d', res)" and "canonical \<noteq> []"
  shows "(res = Inr () \<longrightarrow> (\<exists>name target conn. ParseMemberName U alias = Inr name \<and> ParseMemberName U canonical = Inr target
        \<and> name \<noteq> target \<and> conn \<in> set (Connections (dae_state d)) \<and> answered U routes target conn
        \<and> (\<forall>x. mget (da_Aliases (sta_data (dae_state d'))) x =
            (if x = name then Some target else mget (da_Aliases (sta_data (dae_state d))) x))))
    \<and> (\<forall>e. res = Inl e \<longrightarrow> (\<exists>f. e = NotSaved f) \<or> d' = d)"
proof -
  have saved: "\<exists>f. e = NotSaved f" if "State_SetAlias io a c s = (s', Inl e)" for a c s s' e
    using that by (auto simp: State_SetAlias_def Write_def save_data_def split: option.splits)
  have ne: "n \<noteq> []" if "ParseMemberName U raw = Inr n" for raw n using that unfolding ParseMemberName_Inr by blast
  show ?thesis
  proof (intro conjI impI allI)
    assume "res = Inr ()"
    with assms obtain name target s' conn where p: "ParseMemberName U alias = Inr name" "ParseMemberName U canonical = Inr target"
      "name \<noteq> target" "conn \<in> set (Connections (dae_state d))" "answered U routes target conn"
      and w: "State_SetAlias io name target (dae_state d) = (s', Inr ())" "d' = d\<lparr>dae_state := s'\<rparr>"
      by (auto simp: SetAlias_def Let_def list_ex_iff split: sum.splits prod.splits if_splits)
    with State_SetAlias_get(1) [OF w(1) ne [OF p(2)]] show "\<exists>name target conn. ParseMemberName U alias = Inr name
        \<and> ParseMemberName U canonical = Inr target \<and> name \<noteq> target \<and> conn \<in> set (Connections (dae_state d))
        \<and> answered U routes target conn \<and> (\<forall>x. mget (da_Aliases (sta_data (dae_state d'))) x =
            (if x = name then Some target else mget (da_Aliases (sta_data (dae_state d))) x))" by auto
  next
    fix e assume "res = Inl e"
    with assms show "(\<exists>f. e = NotSaved f) \<or> d' = d"
      by (auto simp: SetAlias_def Let_def split: sum.splits prod.splits if_splits dest: saved)
  qed
qed

section \<open>Examples\<close>

definition acme_table :: RouteTable where
  "acme_table = RouteTableOf example_config inst_admitted"

definition acme_routes :: "routerRoute list" where
  "acme_routes =
     [\<lparr>rr_Virtual = ''web.acme.robinet'', rr_Real = ''prod.internal'', rr_Via = Addr4 0xC61300FE, rr_IPv4 = True, rr_IPv6 = False\<rparr>,
      lighthouse_route no_unicode (inst_LighthouseAddress inst_admitted) ''acme'']"

lemma acme_router: "routerTableFor no_unicode acme_table ''acme'' = \<lparr>rtb_routes = acme_routes\<rparr>"
proof -
  have "rtab_Routes acme_table = [\<lparr>rt_Prefix = Prefix (Addr4 0x0A000000) 8, rt_Via = Addr4 0xC61300FE, rt_Connector = ''web''\<rparr>]"
    by (simp add: acme_table_def RouteTableOf_def routesOf_def vals_def Banned_def example_defs)
  moreover have "rtab_Resolvers acme_table = [\<lparr>rsv_Domain = ''prod.internal'', rsv_Via = Addr4 0xC61300FE, rsv_Via6 = AddrNone,
      rsv_Connector = ''web''\<rparr>]"
    by (simp add: acme_table_def RouteTableOf_def resolversOf_def vals_def Banned_def PrefixIsValid_def PrefixNone_def example_defs)
  moreover have "lh_OverlayAddress (rtab_Lighthouse acme_table) = inst_LighthouseAddress inst_admitted"
    "IsValid (inst_LighthouseAddress inst_admitted)"
    by (simp_all add: acme_table_def RouteTableOf_def example_defs)
  moreover have "ToLower no_unicode (''web'' @ [dot] @ ''acme'' @ [dot] @ Suffix) = ''web.acme.robinet''"
    "ToLower no_unicode (TrimSpace no_unicode ''prod.internal'') = ''prod.internal''"
    "TrimSuffix ''prod.internal'' [dot] = ''prod.internal''" "''prod.internal'' \<noteq> RootDomain" by code_simp+
  ultimately show ?thesis
    by (simp add: routerTableFor_def resolver_route_def connector_label_def carries_def carry_def acme_routes_def Let_def)
qed

theorem names_lead_to_admitted_connectors_witness:
  "\<exists>fp m. mget (inst_Members inst_admitted) fp = Some m \<and> mem_Kind m = KindConnector \<and> \<not> Banned m
     \<and> paddr (mem_Address m) = Addr4 0xC61300FE"
proof -
  have "hd acme_routes \<in> set (rtb_routes (routerTableFor no_unicode (RouteTableOf example_config inst_admitted) ''acme''))"
    using acme_router by (simp add: acme_table_def acme_routes_def)
  moreover have "hd acme_routes \<noteq> lighthouse_route no_unicode (inst_LighthouseAddress inst_admitted) ''acme''"
    by (simp add: acme_routes_def lighthouse_route_def Let_def)
  moreover have "mget (instances (hub_store (hub_of inst_admitted lhs_open))) example_id = Some inst_admitted" by simp
  ultimately show ?thesis
    using names_lead_to_admitted_connectors [OF example_reachable(4)] by (fastforce simp: acme_routes_def)
qed

definition acme_connection :: Connection where
  "acme_connection = \<lparr>con_InstanceID = example_id, con_Name = ''acme'', con_Role = ''tenant'', con_PublicKey = ''p'',
     con_PrivateKey = ''k'', con_Certificate = ''c'', con_CA = ''a'', con_Address = Prefix (Addr4 0xC6130003) 24,
     con_Address6 = PrefixNone, con_Lighthouse = rtab_Lighthouse acme_table, con_MTU = 1300, con_Device = ''robinet0'',
     con_ListenPort = 0, con_RequestedAt = 1, con_JoinedAt = 2\<rparr>"

definition acme_daemon :: Daemon where
  "acme_daemon = \<lparr>dae_state = fresh_state\<lparr>sta_data := (sta_data fresh_state)\<lparr>da_Connections := Some [(example_id, acme_connection)]\<rparr>\<rparr>,
     dae_routers = [], dae_run = newRunners\<rparr>"

definition open_listeners :: listeners where
  "open_listeners = \<lparr>ls_udp = (\<lambda>_. True), ls_tcp = (\<lambda>_. True)\<rparr>"

lemma acme_ready: "Ready acme_connection" "PrefixIsValid (con_Address acme_connection)"
  "Connections (dae_state acme_daemon) = [acme_connection]"
  by (simp_all add: Ready_def acme_connection_def acme_table_def RouteTableOf_def PrefixIsValid_def acme_daemon_def
      Connections_def vals_def example_defs)


lemma acme_answered: "answered no_unicode (\<lambda>_. Inr acme_table) ''web.acme.robinet'' acme_connection"
proof -
  have "con_Name acme_connection = ''acme''" by (simp add: acme_connection_def)
  moreover have "ToLower no_unicode (TrimSuffix ''web.acme.robinet'' [dot]) = ''web.acme.robinet''" by code_simp
  ultimately show ?thesis
    by (simp add: answered_def acme_ready acme_router table_match_def match_loop_None acme_routes_def under_def del: not_None_eq)
qed

theorem SetAlias_records_witness:
  "mget (da_Aliases (sta_data (dae_state (fst (SetAlias no_unicode (\<lambda>_. Inr acme_table) None ''db'' ''web.acme.robinet'' acme_daemon))))) ''db''
     = Some ''web.acme.robinet''"
proof -
  let ?S = "SetAlias no_unicode (\<lambda>_. Inr acme_table) None ''db'' ''web.acme.robinet'' acme_daemon"
  have labels: "\<exists>m. ParseName no_unicode l = Inr m" if "l \<in> {''db'', ''web'', ''acme'', ''robinet''}" for l
  proof -
    have "ParseName no_unicode ''db'' = Inr ''db''" "ParseName no_unicode ''web'' = Inr ''web''"
      "ParseName no_unicode ''acme'' = Inr ''acme''" "ParseName no_unicode ''robinet'' = Inr ''robinet''" by code_simp+
    with that show ?thesis by auto
  qed
  have "split_on dot (''web'' @ dot # ''acme'' @ dot # ''robinet'') = [''web'', ''acme'', ''robinet'']"
    by (subst split_on_append, simp add: dot_def, subst split_on_append, simp add: dot_def)
      (simp add: split_on_def split_by_no dot_def)
  moreover have "''web'' @ dot # ''acme'' @ dot # ''robinet'' = ''web.acme.robinet''" by (simp add: dot_def)
  moreover have "TrimSuffix (ToLower no_unicode (TrimSpace no_unicode ''web.acme.robinet'')) [dot] = ''web.acme.robinet''"
    "TrimSuffix (ToLower no_unicode (TrimSpace no_unicode ''db'')) [dot] = ''db''" "split_on dot ''db'' = [''db'']" by code_simp+
  ultimately have p: "ParseMemberName no_unicode ''db'' = Inr ''db''"
    "ParseMemberName no_unicode ''web.acme.robinet'' = Inr ''web.acme.robinet''"
    using labels by (simp_all add: ParseMemberName_Inr)
  have "\<exists>d'. ?S = (d', Inr ())"
    using p acme_answered by (auto simp: SetAlias_def Let_def acme_ready State_SetAlias_def Write_def save_data_def)
  then obtain d' where d': "?S = (d', Inr ())" by blast
  from SetAlias_records [OF d'] p show ?thesis by (auto simp: d')
qed

end
