(* ===== verification/Hubclient.thy ===== *)
theory Hubclient
  imports Endpoint Labels Resolvers
begin

text \<open>
  A tenant's client of the hub, \<open>src/internal/tenant/hubclient.go\<close>: the registration that is signed with an
  ssh key, and the calls that are signed with the machine's own identity.

  What is at the other end is a state of any type \<open>'h\<close>, as for the connector; the record \<open>line\<close> has the time
  there and the random bytes of a nonce as well, since every call draws them anew. A call is the request as
  it is sent. \<open>encoding/json\<close> is the record \<open>tjson\<close>, the libraries and the machine the record \<open>tworld\<close>.
\<close>

section \<open>Requests\<close>

text \<open>The path of a URL, decoded and as it is sent, and its query.\<close>

definition path_plain :: "char \<Rightarrow> bool" where
  "path_plain c \<longleftrightarrow> is_letter c \<or> is_digit c \<or> c \<in> set ''-_.~$&+,/:;=@''"

definition path_written :: "char \<Rightarrow> bool" where
  "path_written c \<longleftrightarrow> path_plain c \<or> c \<in> set ''!()*[]%'' \<or> c = CHR 0x27"

definition path_escape :: "string \<Rightarrow> string" where
  "path_escape s = concat (map (\<lambda>c. if path_plain c then [c]
     else [CHR ''%'', upper_hex ((of_char c :: nat) div 16), upper_hex ((of_char c :: nat) mod 16)]) s)"

definition urlPath :: "string \<Rightarrow> (string \<times> string \<times> string) option" where
  "urlPath raw =
     (case getScheme (before (CHR ''#'') raw) of
        None \<Rightarrow> None
      | Some (scheme, rest) \<Rightarrow>
          (let q = drop (Suc (length (before (CHR ''?'') rest))) rest;
               rest = before (CHR ''?'') rest;
               p = (if scheme \<noteq> [] \<and> \<not> HasPrefix rest ''/'' then []
                    else if HasPrefix rest ''//'' \<and> (scheme \<noteq> [] \<or> \<not> HasPrefix rest ''///'')
                    then dropWhile (\<lambda>d. d \<noteq> slash) (drop 2 rest) else rest)
           in map_option (\<lambda>path. (path, if list_all path_written p then p else path_escape path, q)) (unescape p)))"

definition query_unescape :: "string \<Rightarrow> string option" where
  "query_unescape s = unescape (map (\<lambda>c. if c = CHR ''+'' then CHR '' '' else c) s)"

definition put_query :: "string \<Rightarrow> (string \<times> string list) list \<Rightarrow> (string \<times> string list) list" where
  "put_query part m =
     (if part = [] \<or> CHR '';'' \<in> set part then m
      else
        (let (k, v) = (case cut_char (CHR ''='') part of None \<Rightarrow> (part, []) | Some kv \<Rightarrow> kv) in
         case (query_unescape k, query_unescape v) of
           (Some k, Some v) \<Rightarrow> AList.update k (the_default [] (map_of m k) @ [v]) m
         | _ \<Rightarrow> m))"

definition ParseQuery :: "string \<Rightarrow> (string, string list) gomap" where
  "ParseQuery q = Some (fold put_query (split_on (CHR ''&'') q) [])"

definition NewRequest :: "string \<Rightarrow> string \<Rightarrow> string \<Rightarrow> call option" where
  "NewRequest method url body =
     (case (urlHost url, urlPath url) of
        (Some host, Some (path, escaped, q)) \<Rightarrow>
          Some \<lparr>cl_Request = \<lparr>hr_Host = host, hr_Method = method, hr_Path = path, hr_Query = ParseQuery q,
                             hr_Header = [], hr_RemoteAddr = []\<rparr>,
                cl_EscapedPath = escaped, cl_Body = body, cl_Broken = False\<rparr>
      | _ \<Rightarrow> None)"

record 'h line =
  ln_Now :: "'h \<Rightarrow> time"
  ln_Nonce :: "'h \<Rightarrow> string option"
  ln_Do :: "tls \<Rightarrow> string \<Rightarrow> call \<Rightarrow> 'h \<Rightarrow> 'h \<times> (nat \<times> string) option"

record tjson =
  tj_Register :: "RegisterRequest \<Rightarrow> string option"
  tj_Create :: "CreateInstanceRequest \<Rightarrow> string option"
  tj_Lighthouse :: "LighthouseRequest \<Rightarrow> string option"
  tj_Decision :: "Decision \<Rightarrow> string option"
  tj_Ban :: "BanRequest \<Rightarrow> string option"
  tj_Token :: "TokenRequest \<Rightarrow> string option"
  tj_Join :: "JoinRequest \<Rightarrow> string option"
  tj_readRegistered :: "string \<Rightarrow> RegisterResponse option"
  tj_readCreated :: "string \<Rightarrow> CreateInstanceResponse option"
  tj_readSummaries :: "string \<Rightarrow> InstanceSummary list option"
  tj_readRecords :: "string \<Rightarrow> Record list option"
  tj_readResult :: "string \<Rightarrow> Result option"
  tj_readMember :: "string \<Rightarrow> Member option"
  tj_readMembers :: "string \<Rightarrow> Member list option"
  tj_readRoutes :: "string \<Rightarrow> RouteTable option"
  tj_readError :: "string \<Rightarrow> Error option"

record tworld =
  tw_unicode :: unicode
  tw_Fold :: "string \<Rightarrow> string \<Rightarrow> bool"
  tw_crypto :: crypto
  tw_x509 :: "string \<Rightarrow> string option"
  tw_ssh :: sshlib
  tw_FingerprintSHA256 :: "ssh_key \<Rightarrow> string"
  tw_cert :: certlib
  tw_nebula :: nebula
  tw_json :: tjson
  tw_cheating :: bool

datatype daemon_err =
    Unencodable
  | BadHubURL string
  | NoRandom
  | NoAnswer
  | HubMessage string
  | HubStatus nat string
  | BadReply
  | BadMachineKey wrak_err
  | BadHubPin pin_err
  | KeyWillNotSign sig_err
  | RegistrationRejected "string list"
  | NoSSHKey
  | NoAgent
  | KeyNotHeld string "string list"
  | KeyFileUnreadable string
  | KeyFilePassphrase string
  | NameRequired
  | OtherHub string
  | NoOwnerIdentity
  | StateNotKept tenant_err
  | NotRegistered
  | RouteTaken string prefix
  | RunFailed run_err
  | GrantedWithout
  | Refused string
  | StillPending
  | WentAway
  | AuthorityFailed ca_err
  | NoHostKey
  | NoInstance string
  | NotConnected string
  | NotOwnedHere string
  | HasMembers string nat
  | NoMemberNamed
  | NoSuchMember string string
  | AmbiguousMember string "string list"
  | NotPending pending_err
  | CannotCarry "prefix list"
  | NameTooLong string string
  | CertificateUnreadable
  | NoFingerprint
  | NotRedacted
  | DaemonPanic

section \<open>The client\<close>

record tclient =
  tc_base :: string
  tc_identity :: string
  tc_tls :: tls

definition httpClient :: "tworld \<Rightarrow> bool \<Rightarrow> string \<Rightarrow> daemon_err + tls" where
  "httpClient W insecure hubPin =
     (if hubPin \<noteq> [] then
        (case TLSConfig (tw_crypto W) (tw_unicode W) (tw_x509 W) hubPin of Inl e \<Rightarrow> Inl (BadHubPin e) | Inr cfg \<Rightarrow> Inr (Pinned cfg))
      else Inr (if insecure then SkipVerify else SystemRoots))"

definition tenant_newHubClient :: "tworld \<Rightarrow> string \<Rightarrow> string \<Rightarrow> bool \<Rightarrow> string \<Rightarrow> daemon_err + tclient" where
  "tenant_newHubClient W url identity insecure hubPin =
     (case ParseIdentity identity of
        Inl e \<Rightarrow> Inl (BadMachineKey e)
      | Inr key \<Rightarrow>
          (case httpClient W insecure hubPin of
             Inl e \<Rightarrow> Inl e
           | Inr t \<Rightarrow> Inr \<lparr>tc_base = trim_right (\<lambda>c. c = slash) url, tc_identity = key, tc_tls = t\<rparr>))"

definition tenant_responseError :: "tworld \<Rightarrow> nat \<Rightarrow> string \<Rightarrow> daemon_err" where
  "tenant_responseError W code body =
     (let body = take 4096 body; plain = HubStatus code (TrimSpace (tw_unicode W) body) in
      case tj_readError (tw_json W) body of
        Some e \<Rightarrow>
          if err_Code e \<noteq> [] then (if err_Message e \<noteq> [] then HubMessage (err_Message e) else HubStatus code (err_Code e)) else plain
      | None \<Rightarrow> plain)"

text \<open>What is sent along: nothing, or a value, which may not be encodable.\<close>

definition hub_do ::
  "tworld \<Rightarrow> 'h line \<Rightarrow> tclient \<Rightarrow> string \<Rightarrow> string \<Rightarrow> string option option \<Rightarrow> 'h \<Rightarrow> 'h \<times> (daemon_err + string)" where
  "hub_do W N c method path sent h =
     (if sent = Some None then (h, Inl Unencodable)
      else
        (let raw = the_default [] (the_default None sent) in
         case NewRequest method (tc_base c @ path) raw of
           None \<Rightarrow> (h, Inl (BadHubURL (tc_base c @ path)))
         | Some q \<Rightarrow>
             (case ln_Nonce N h of
                None \<Rightarrow> (h, Inl NoRandom)
              | Some nonce \<Rightarrow>
                  (let r = (if sent = None then cl_Request q else set_header ''Content-Type'' ''application/json'' (cl_Request q));
                       r = SignRequest (tw_crypto W) (tw_unicode W) (tc_identity c) (ln_Now N h) nonce r raw
                   in case ln_Do N (tc_tls c) (tc_base c) (q\<lparr>cl_Request := r\<rparr>) h of
                        (h, None) \<Rightarrow> (h, Inl NoAnswer)
                      | (h, Some (code, out)) \<Rightarrow>
                          if 300 \<le> code then (h, Inl (tenant_responseError W code out)) else (h, Inr out)))))"

definition reading :: "(string \<Rightarrow> 'a option) \<Rightarrow> 'h \<times> (daemon_err + string) \<Rightarrow> 'h \<times> (daemon_err + 'a)" where
  "reading dec r =
     (case r of
        (h, Inl e) \<Rightarrow> (h, Inl e)
      | (h, Inr out) \<Rightarrow> (h, case dec out of None \<Rightarrow> Inl BadReply | Some v \<Rightarrow> Inr v))"

definition instance_path :: "string \<Rightarrow> string \<Rightarrow> string" where
  "instance_path iid what = ''/v1/instances/'' @ iid @ what"

definition hub_createInstance :: "tworld \<Rightarrow> 'h line \<Rightarrow> tclient \<Rightarrow> string \<Rightarrow> string \<Rightarrow> 'h \<Rightarrow> 'h \<times> (daemon_err + CreateInstanceResponse)" where
  "hub_createInstance W N c name token h = reading (tj_readCreated (tw_json W))
     (hub_do W N c ''POST'' ''/v1/instances'' (Some (tj_Create (tw_json W) \<lparr>cq_Name = name, cq_SharedToken = token\<rparr>)) h)"

definition hub_instances :: "tworld \<Rightarrow> 'h line \<Rightarrow> tclient \<Rightarrow> 'h \<Rightarrow> 'h \<times> (daemon_err + InstanceSummary list)" where
  "hub_instances W N c h = reading (tj_readSummaries (tw_json W)) (hub_do W N c ''GET'' ''/v1/instances'' None h)"

definition hub_activate :: "tworld \<Rightarrow> 'h line \<Rightarrow> tclient \<Rightarrow> string \<Rightarrow> string \<Rightarrow> string \<Rightarrow> 'h \<Rightarrow> 'h \<times> (daemon_err + unit)" where
  "hub_activate W N c iid caPEM certPEM h = reading (\<lambda>_. Some ())
     (hub_do W N c ''POST'' (instance_path iid ''/lighthouse'')
        (Some (tj_Lighthouse (tw_json W) \<lparr>lq_CA = caPEM, lq_Certificate = certPEM\<rparr>)) h)"

definition hub_pending :: "tworld \<Rightarrow> 'h line \<Rightarrow> tclient \<Rightarrow> string \<Rightarrow> 'h \<Rightarrow> 'h \<times> (daemon_err + Record list)" where
  "hub_pending W N c iid h = reading (tj_readRecords (tw_json W)) (hub_do W N c ''GET'' (instance_path iid ''/requests'') None h)"

definition hub_decide :: "tworld \<Rightarrow> 'h line \<Rightarrow> tclient \<Rightarrow> string \<Rightarrow> string \<Rightarrow> Decision \<Rightarrow> 'h \<Rightarrow> 'h \<times> (daemon_err + unit)" where
  "hub_decide W N c iid rid d h = reading (\<lambda>_. Some ())
     (hub_do W N c ''POST'' (instance_path iid (''/requests/'' @ rid)) (Some (tj_Decision (tw_json W) d)) h)"

definition hub_forget :: "tworld \<Rightarrow> 'h line \<Rightarrow> tclient \<Rightarrow> string \<Rightarrow> string \<Rightarrow> 'h \<Rightarrow> 'h \<times> (daemon_err + unit)" where
  "hub_forget W N c iid rid h = reading (\<lambda>_. Some ()) (hub_do W N c ''DELETE'' (instance_path iid (''/requests/'' @ rid)) None h)"

definition hub_ban :: "tworld \<Rightarrow> 'h line \<Rightarrow> tclient \<Rightarrow> string \<Rightarrow> string \<Rightarrow> string \<Rightarrow> 'h \<Rightarrow> 'h \<times> (daemon_err + unit)" where
  "hub_ban W N c iid member note h = reading (\<lambda>_. Some ())
     (hub_do W N c ''POST'' (instance_path iid ''/ban'') (Some (tj_Ban (tw_json W) \<lparr>bq_Member = member, bq_Note = note\<rparr>)) h)"

definition hub_unban :: "tworld \<Rightarrow> 'h line \<Rightarrow> tclient \<Rightarrow> string \<Rightarrow> string \<Rightarrow> string \<Rightarrow> 'h \<Rightarrow> 'h \<times> (daemon_err + unit)" where
  "hub_unban W N c iid member note h = reading (\<lambda>_. Some ())
     (hub_do W N c ''POST'' (instance_path iid ''/unban'') (Some (tj_Ban (tw_json W) \<lparr>bq_Member = member, bq_Note = note\<rparr>)) h)"

definition hub_setToken :: "tworld \<Rightarrow> 'h line \<Rightarrow> tclient \<Rightarrow> string \<Rightarrow> string \<Rightarrow> 'h \<Rightarrow> 'h \<times> (daemon_err + unit)" where
  "hub_setToken W N c iid token h = reading (\<lambda>_. Some ())
     (hub_do W N c ''POST'' (instance_path iid ''/token'') (Some (tj_Token (tw_json W) \<lparr>tq_SharedToken = token\<rparr>)) h)"

definition hub_join :: "tworld \<Rightarrow> 'h line \<Rightarrow> tclient \<Rightarrow> string \<Rightarrow> string \<Rightarrow> string \<Rightarrow> 'h \<Rightarrow> 'h \<times> (daemon_err + unit)" where
  "hub_join W N c iid name publicKey h = reading (\<lambda>_. Some ())
     (hub_do W N c ''POST'' (instance_path iid ''/join'') (Some (tj_Join (tw_json W) \<lparr>jq_Name = name, jq_PublicKey = publicKey\<rparr>)) h)"

definition hub_joinResult :: "tworld \<Rightarrow> 'h line \<Rightarrow> tclient \<Rightarrow> string \<Rightarrow> 'h \<Rightarrow> 'h \<times> (daemon_err + Result)" where
  "hub_joinResult W N c iid h = reading (tj_readResult (tw_json W)) (hub_do W N c ''GET'' (instance_path iid ''/join'') None h)"

definition hub_deleteInstance :: "tworld \<Rightarrow> 'h line \<Rightarrow> tclient \<Rightarrow> string \<Rightarrow> 'h \<Rightarrow> 'h \<times> (daemon_err + unit)" where
  "hub_deleteInstance W N c iid h = reading (\<lambda>_. Some ()) (hub_do W N c ''DELETE'' (instance_path iid []) None h)"

definition hub_removeMember :: "tworld \<Rightarrow> 'h line \<Rightarrow> tclient \<Rightarrow> string \<Rightarrow> string \<Rightarrow> 'h \<Rightarrow> 'h \<times> (daemon_err + Member)" where
  "hub_removeMember W N c iid member h = reading (tj_readMember (tw_json W))
     (hub_do W N c ''DELETE'' (instance_path iid (''/members/'' @ member)) None h)"

definition hub_members :: "tworld \<Rightarrow> 'h line \<Rightarrow> tclient \<Rightarrow> string \<Rightarrow> 'h \<Rightarrow> 'h \<times> (daemon_err + Member list)" where
  "hub_members W N c iid h = reading (tj_readMembers (tw_json W)) (hub_do W N c ''GET'' (instance_path iid ''/members'') None h)"

definition hub_routes :: "tworld \<Rightarrow> 'h line \<Rightarrow> tclient \<Rightarrow> string \<Rightarrow> 'h \<Rightarrow> 'h \<times> (daemon_err + RouteTable)" where
  "hub_routes W N c iid h = reading (tj_readRoutes (tw_json W)) (hub_do W N c ''GET'' (instance_path iid ''/routes'') None h)"

section \<open>Registration\<close>

record JoinOptions =
  jo_HubURL :: string
  jo_Token :: string
  jo_Name :: string
  jo_SSHKeyPath :: string
  jo_SSHFingerprint :: string
  jo_Signer :: "Signer option"
  jo_Insecure :: bool
  jo_Pin :: string

text \<open>The keys of the agent, and what reading a key file gives: a signer, or that it needs a passphrase.\<close>

datatype key_file = KeyFile Signer | Passphrase | Unreadable

record keyring =
  ks_Agent :: "Signer list option"
  ks_File :: "string \<Rightarrow> key_file"

definition signerFromFile :: "keyring \<Rightarrow> string \<Rightarrow> daemon_err + Signer" where
  "signerFromFile K path =
     (case ks_File K path of
        KeyFile s \<Rightarrow> Inr s
      | Passphrase \<Rightarrow> Inl (KeyFilePassphrase path)
      | Unreadable \<Rightarrow> Inl (KeyFileUnreadable path))"

definition bootstrapSigners :: "tworld \<Rightarrow> keyring \<Rightarrow> JoinOptions \<Rightarrow> daemon_err + Signer list" where
  "bootstrapSigners W K opts =
     (let fp = (\<lambda>s. tw_FingerprintSHA256 W (sgn_PublicKey s)) in
      case jo_Signer opts of
        Some s \<Rightarrow> Inr [s]
      | None \<Rightarrow>
          if jo_SSHKeyPath opts \<noteq> [] then map_sum (\<lambda>e. e) (\<lambda>s. [s]) (signerFromFile K (jo_SSHKeyPath opts))
          else
            (case ks_Agent K of
               None \<Rightarrow> Inl NoAgent
             | Some signers \<Rightarrow>
                 if jo_SSHFingerprint opts \<noteq> [] then
                   (case find (\<lambda>s. fp s = jo_SSHFingerprint opts) signers of
                      Some s \<Rightarrow> Inr [s]
                    | None \<Rightarrow> Inl (KeyNotHeld (jo_SSHFingerprint opts) (map fp signers)))
                 else Inr signers))"

definition hostOf :: "string \<Rightarrow> daemon_err + string" where
  "hostOf url = (case urlHost url of None \<Rightarrow> Inl (BadHubURL url) | Some h \<Rightarrow> if h = [] then Inl (BadHubURL url) else Inr h)"

definition register_call :: "string \<Rightarrow> string \<Rightarrow> call option" where
  "register_call endpoint body =
     map_option (\<lambda>q. q\<lparr>cl_Request := set_header ''Content-Type'' ''application/json'' (cl_Request q)\<rparr>) (NewRequest ''POST'' endpoint body)"

fun register_loop ::
  "tworld \<Rightarrow> 'h line \<Rightarrow> tls \<Rightarrow> string \<Rightarrow> Bootstrap \<Rightarrow> Signer list \<Rightarrow> string list \<Rightarrow> 'h \<Rightarrow> 'h \<times> (daemon_err + RegisterResponse \<times> string)" where
  "register_loop W N t endpoint b [] tried h = (h, Inl NoSSHKey)"
| "register_loop W N t endpoint b (signer # rest) tried h =
     (case BootstrapSign (tw_crypto W) (tw_unicode W) (tw_ssh W) b signer of
        Inl e \<Rightarrow> (h, Inl (KeyWillNotSign e))
      | Inr signature \<Rightarrow>
          (case tj_Register (tw_json W) \<lparr>rr_Name = boot_Name b, rr_Identity = boot_Identity b, rr_Signature = signature\<rparr> of
             None \<Rightarrow> (h, Inl Unencodable)
           | Some body \<Rightarrow>
               (case register_call endpoint body of
                  None \<Rightarrow> (h, Inl (BadHubURL endpoint))
                | Some q \<Rightarrow>
                    (let fp = tw_FingerprintSHA256 W (sgn_PublicKey signer) in
                     case ln_Do N t endpoint q h of
                       (h, None) \<Rightarrow> (h, Inl NoAnswer)
                     | (h, Some (code, out)) \<Rightarrow>
                         if code = 401 then
                           (if rest \<noteq> [] then register_loop W N t endpoint b rest (tried @ [fp]) h
                            else (h, Inl (RegistrationRejected (tried @ [fp]))))
                         else if 300 \<le> code then (h, Inl (tenant_responseError W code out))
                         else
                           (h, case tj_readRegistered (tw_json W) out of None \<Rightarrow> Inl BadReply | Some r \<Rightarrow> Inr (r, fp))))))"

definition register :: "tworld \<Rightarrow> 'h line \<Rightarrow> keyring \<Rightarrow> JoinOptions \<Rightarrow> string \<Rightarrow> 'h \<Rightarrow> 'h \<times> (daemon_err + RegisterResponse \<times> string)" where
  "register W N K opts identity h =
     (let endpoint = trim_right (\<lambda>c. c = slash) (jo_HubURL opts) @ ''/v1/register'' in
      case hostOf endpoint of
        Inl e \<Rightarrow> (h, Inl e)
      | Inr host \<Rightarrow>
          (case bootstrapSigners W K opts of
             Inl e \<Rightarrow> (h, Inl e)
           | Inr signers \<Rightarrow>
               (case httpClient W (jo_Insecure opts) (jo_Pin opts) of
                  Inl e \<Rightarrow> (h, Inl e)
                | Inr t \<Rightarrow>
                    register_loop W N t endpoint
                      \<lparr>boot_API = host, boot_Token = jo_Token opts, boot_Name = jo_Name opts, boot_Identity = identity\<rparr>
                      signers [] h)))"

end
