(* ===== verification/Daemon.thy ===== *)
theory Daemon
  imports Hubclient
begin

text \<open>
  The tenant's daemon, \<open>src/internal/tenant/tenant.go\<close>: registering a machine, the connections it keeps up,
  and what an owner does with the instances whose authority the machine holds. The daemon is the record
  \<open>Daemon\<close>: its state, its DNS routers and its running connections; its client of the hub is an argument.

  An operation takes what it draws from the machine (the record \<open>draws\<close>), the daemon and what is at the other
  end of the line, and returns both with its outcome. What is copied out of the state before a call stays as
  it was, and what was done before an error stays done, as in the code.
\<close>

section \<open>Joining a hub\<close>

record Joined =
  jd_Hub :: string
  jd_Name :: string
  jd_Binder :: string
  jd_Refreshed :: bool

definition DefaultNameMarker :: string where "DefaultNameMarker = CHR 0x00 # ''default''"

definition knownName :: "State \<Rightarrow> string" where "knownName s = da_Name (sta_data s)"

definition after_write :: "State \<times> (tenant_err + unit) \<Rightarrow> 'a \<Rightarrow> State \<times> (daemon_err + 'a)" where
  "after_write w a = (case w of (s, Inl e) \<Rightarrow> (s, Inl (StateNotKept e)) | (s, Inr _) \<Rightarrow> (s, Inr a))"

text \<open>The name to register with: the one of before when none was chosen and there is one.\<close>

definition join_name :: "State \<Rightarrow> JoinOptions \<Rightarrow> string" where
  "join_name s opts =
     (if da_Identity (sta_data s) \<noteq> [] \<and> jo_Name opts = DefaultNameMarker \<and> da_Name (sta_data s) \<noteq> []
      then da_Name (sta_data s) else jo_Name opts)"

definition registered_data :: "string \<Rightarrow> string \<Rightarrow> string \<Rightarrow> string \<Rightarrow> JoinOptions \<Rightarrow> string \<times> int \<times> int \<Rightarrow> data \<Rightarrow> data" where
  "registered_data hubURL key bndr name opts owner d =
     d\<lparr>da_HubURL := hubURL, da_Identity := PrivateIdentity key, da_Binder := bndr, da_Name := name,
       da_Insecure := jo_Insecure opts, da_Pin := jo_Pin opts,
       da_Owner := fst owner, da_OwnerUID := fst (snd owner), da_OwnerGID := snd (snd owner)\<rparr>"

text \<open>
  A new identity is drawn even when the one of before is used; \<open>owner\<close> is what \<open>ownerIdentity\<close> says about the
  person the machine belongs to.
\<close>

definition Join ::
  "tworld \<Rightarrow> 'h line \<Rightarrow> keyring \<Rightarrow> string option \<Rightarrow> (string \<times> int \<times> int) option \<Rightarrow> tenant_fault option \<Rightarrow> JoinOptions \<Rightarrow> State \<Rightarrow> 'h
    \<Rightarrow> 'h \<times> State \<times> (daemon_err + Joined)" where
  "Join W N K drawn owner io opts s h =
     (let knownHub = da_HubURL (sta_data s); existing = da_Identity (sta_data s);
          hubURL = trim_right (\<lambda>c. c = slash) (jo_HubURL opts); name = join_name s opts
      in if jo_Name opts = [] \<or> jo_Name opts = DefaultNameMarker \<and> knownName s = [] then (h, s, Inl NameRequired)
         else if knownHub \<noteq> [] \<and> knownHub \<noteq> hubURL then (h, s, Inl (OtherHub knownHub))
         else
           (case drawn of
              None \<Rightarrow> (h, s, Inl NoRandom)
            | Some fresh \<Rightarrow>
                (case (if existing = [] then Inr fresh else ParseIdentity existing) of
                   Inl e \<Rightarrow> (h, s, Inl (BadMachineKey e))
                 | Inr key \<Rightarrow>
                     (case register W N K (opts\<lparr>jo_Name := name\<rparr>) (PublicIdentity (ed_Public (tw_crypto W) key)) h of
                        (h, Inl e) \<Rightarrow> (h, s, Inl e)
                      | (h, Inr (registered, _)) \<Rightarrow>
                          (case owner of
                             None \<Rightarrow> (h, s, Inl NoOwnerIdentity)
                           | Some own \<Rightarrow>
                               (h, after_write (Write io (\<lambda>d. (registered_data hubURL key (rs_Binder registered) name opts own d, None)) s)
                                  \<lparr>jd_Hub = hubURL, jd_Name = name, jd_Binder = rs_Binder registered, jd_Refreshed = (existing \<noteq> [])\<rparr>))))))"

section \<open>Starting and stopping\<close>

definition NewDaemon :: "tworld \<Rightarrow> State \<Rightarrow> daemon_err + Daemon \<times> tclient" where
  "NewDaemon W s =
     (let d = sta_data s in
      if \<not> Tenant.Registered s then Inl NotRegistered
      else
        (case tenant_newHubClient W (da_HubURL d) (da_Identity d) (da_Insecure d) (da_Pin d) of
           Inl e \<Rightarrow> Inl e
         | Inr client \<Rightarrow> Inr (\<lparr>dae_state = s, dae_routers = [], dae_run = newRunners\<rparr>, client)))"

definition Stop :: "Daemon \<Rightarrow> Daemon" where
  "Stop d = d\<lparr>dae_routers := [], dae_run := stopAll_runners (dae_run d)\<rparr>"

section \<open>Keeping connections up\<close>

definition daemon_choices :: "tworld \<Rightarrow> Daemon \<Rightarrow> choices" where
  "daemon_choices W d = choices_of (tw_cheating W) (dae_state d)"

fun held_loop ::
  "tworld \<Rightarrow> 'h line \<Rightarrow> tclient \<Rightarrow> string \<Rightarrow> runners \<Rightarrow> Connection list \<Rightarrow> (string \<times> prefix list) list \<Rightarrow> 'h
    \<Rightarrow> 'h \<times> (string \<times> prefix list) list" where
  "held_loop W N c iid rs [] held h = (h, held)"
| "held_loop W N c iid rs (other # others) held h =
     (if con_InstanceID other = iid \<or> \<not> runner_isRunning (con_InstanceID other) rs then held_loop W N c iid rs others held h
      else
        (case hub_routes W N c (con_InstanceID other) h of
           (h, Inl _) \<Rightarrow> held_loop W N c iid rs others held h
         | (h, Inr table) \<Rightarrow>
             held_loop W N c iid rs others
               (if rtab_Routes table = [] then held
                else AList.update (con_Name other) (the_default [] (map_of held (con_Name other)) @ map rt_Prefix (rtab_Routes table)) held)
               h))"

definition startConnection ::
  "tworld \<Rightarrow> 'h line \<Rightarrow> tclient \<Rightarrow> Connection \<Rightarrow> RouteTable \<Rightarrow> Daemon \<Rightarrow> 'h \<Rightarrow> 'h \<times> Daemon \<times> (daemon_err + unit)" where
  "startConnection W N c conn table d h =
     (case held_loop W N c (con_InstanceID conn) (dae_run d) (Connections (dae_state d)) [] h of
        (h, held) \<Rightarrow>
          (case collides held (con_Name conn) (map rt_Prefix (rtab_Routes table)) of
             Some (other, p) \<Rightarrow> (h, d, Inl (RouteTaken other p))
           | None \<Rightarrow>
               (case start_runner (tw_nebula W) conn table (daemon_choices W d) (dae_run d) of
                  (rs, Inl e) \<Rightarrow> (h, d\<lparr>dae_run := rs\<rparr>, Inl (RunFailed e))
                | (rs, Inr _) \<Rightarrow> (h, d\<lparr>dae_run := rs\<rparr>, Inr ()))))"

definition admit :: "Bundle \<Rightarrow> time \<Rightarrow> Connection \<Rightarrow> Connection" where
  "admit b now stored = stored\<lparr>con_Certificate := bnd_Certificate b, con_CA := bnd_CA b, con_Address := bnd_OverlayAddress b,
     con_Address6 := bnd_OverlayAddress6 b, con_Lighthouse := bnd_Lighthouse b, con_MTU := bnd_MTU b, con_JoinedAt := now\<rparr>"

text \<open>A connection that went away meanwhile is reported as an error of its own, and nothing is saved.\<close>

definition collect ::
  "tworld \<Rightarrow> 'h line \<Rightarrow> tclient \<Rightarrow> tenant_fault option \<Rightarrow> Connection \<Rightarrow> Daemon \<Rightarrow> 'h \<Rightarrow> 'h \<times> Daemon \<times> (daemon_err + unit)" where
  "collect W N c io conn d h =
     (case hub_joinResult W N c (con_InstanceID conn) h of
        (h, Inl e) \<Rightarrow> (h, d, Inl e)
      | (h, Inr res) \<Rightarrow>
          if res_Status res = StatusApproved then
            (case res_Bundle res of
               None \<Rightarrow> (h, d, Inl GrantedWithout)
             | Some b \<Rightarrow>
                 if mget (da_Connections (sta_data (dae_state d))) (con_InstanceID conn) = None then (h, d, Inl WentAway)
                 else
                   (case after_write (Write io (\<lambda>s.
                       (s\<lparr>da_Connections := madjust (con_InstanceID conn) (admit b (ln_Now N h)) (da_Connections s)\<rparr>, None)) (dae_state d)) () of
                      (s, r) \<Rightarrow> (h, d\<lparr>dae_state := s\<rparr>, r)))
          else if res_Status res = StatusRejected then (h, d, Inl (Refused (res_Reason res)))
          else (h, d, Inl StillPending))"

text \<open>One connection of a refresh. Its errors are logged and nothing else.\<close>

definition refresh_one ::
  "tworld \<Rightarrow> 'h line \<Rightarrow> tclient \<Rightarrow> listeners \<Rightarrow> (string \<Rightarrow> tenant_fault option) \<Rightarrow> Connection \<Rightarrow> Daemon \<Rightarrow> 'h \<Rightarrow> 'h \<times> Daemon" where
  "refresh_one W N c L io conn d h =
     (if \<not> Ready conn then (case collect W N c (io (con_InstanceID conn)) conn d h of (h, d, _) \<Rightarrow> (h, d))
      else
        (case hub_routes W N c (con_InstanceID conn) h of
           (h, Inl _) \<Rightarrow> (h, d)
         | (h, Inr table) \<Rightarrow>
             (let d = fst (startRouter (tw_unicode W) L conn table d) in
              if \<not> runner_isRunning (con_InstanceID conn) (dae_run d)
              then (case startConnection W N c conn table d h of (h, d, _) \<Rightarrow> (h, d))
              else (h, d\<lparr>dae_run := fst (reload_runner (tw_nebula W) conn table (daemon_choices W d) (dae_run d))\<rparr>))))"

fun refresh_loop ::
  "tworld \<Rightarrow> 'h line \<Rightarrow> tclient \<Rightarrow> listeners \<Rightarrow> (string \<Rightarrow> tenant_fault option) \<Rightarrow> Connection list \<Rightarrow> Daemon \<Rightarrow> 'h \<Rightarrow> 'h \<times> Daemon" where
  "refresh_loop W N c L io [] d h = (h, d)"
| "refresh_loop W N c L io (conn # conns) d h =
     (case refresh_one W N c L io conn d h of (h, d) \<Rightarrow> refresh_loop W N c L io conns d h)"

definition Refresh ::
  "tworld \<Rightarrow> 'h line \<Rightarrow> tclient \<Rightarrow> listeners \<Rightarrow> (string \<Rightarrow> tenant_fault option) \<Rightarrow> Daemon \<Rightarrow> 'h \<Rightarrow> 'h \<times> Daemon" where
  "Refresh W N c L io d h = refresh_loop W N c L io (Connections (dae_state d)) d h"

section \<open>Making an instance\<close>

text \<open>What an operation draws: random bytes for a token, key pairs, and the fate of the write.\<close>

record draws =
  dw_Token :: "string option"
  dw_Stamp :: "time \<Rightarrow> string"
  dw_CAKey :: "(string \<times> string) option"
  dw_HostKey :: "(string \<times> string) option"
  dw_IO :: "tenant_fault option"

text \<open>The two maps are made by \<open>OpenState\<close> and never replaced, so writing to them does not panic.\<close>

definition put_in :: "string \<Rightarrow> 'v \<Rightarrow> (string, 'v) gomap \<Rightarrow> (string, 'v) gomap" where
  "put_in k v m = the_default m (mput k v m)"

definition write_daemon :: "tenant_fault option \<Rightarrow> (data \<Rightarrow> data) \<Rightarrow> Daemon \<Rightarrow> 'a \<Rightarrow> Daemon \<times> (daemon_err + 'a)" where
  "write_daemon io f d a =
     (case after_write (Write io (\<lambda>s. (f s, None)) (dae_state d)) a of (s, r) \<Rightarrow> (d\<lparr>dae_state := s\<rparr>, r))"

definition created_connection ::
  "CreateInstanceResponse \<Rightarrow> string \<Rightarrow> string \<times> string \<Rightarrow> string \<Rightarrow> string \<Rightarrow> time \<Rightarrow> data \<Rightarrow> Connection" where
  "created_connection r name keypair ownCert caPEM now s =
     \<lparr>con_InstanceID = cs_ID r, con_Name = name, con_Role = KindOwner, con_PublicKey = fst keypair, con_PrivateKey = snd keypair,
      con_Certificate = ownCert, con_CA = caPEM, con_Address = PrefixFrom (cs_TenantAddress r) (pbits (cs_Overlay r)),
      con_Address6 = prefixOf (cs_TenantAddress6 r) (cs_Overlay6 r),
      con_Lighthouse = \<lparr>lh_OverlayAddress = cs_LighthouseAddress r, lh_OverlayAddress6 = cs_LighthouseAddress6 r,
        lh_Endpoints = [cs_Endpoint r @ '':'' @ digits_of (unat (cs_Port r))], lh_Relay = cs_Relay r\<rparr>,
      con_MTU = cs_MTU r, con_Device = nextDevice s, con_ListenPort = 0, con_RequestedAt = 0, con_JoinedAt = now\<rparr>"

definition lighthouse_host :: "CreateInstanceResponse \<Rightarrow> string \<Rightarrow> Host" where
  "lighthouse_host r name =
     \<lparr>ho_Name = LighthouseCertName name, ho_PublicKeyPEM = cs_LighthousePublicKey r,
      ho_Networks = addresses [PrefixFrom (cs_LighthouseAddress r) (pbits (cs_Overlay r)), prefixOf (cs_LighthouseAddress6 r) (cs_Overlay6 r)],
      ho_UnsafeNetworks = [], ho_Groups = [], ho_Duration = 0\<rparr>"

definition own_host :: "unicode \<Rightarrow> string \<Rightarrow> string \<Rightarrow> string \<Rightarrow> prefix \<Rightarrow> prefix \<Rightarrow> Host" where
  "own_host U machine_name inst pub address address6 =
     \<lparr>ho_Name = MemberCertName KindTenant (FoldLabel U machine_name) inst, ho_PublicKeyPEM = pub,
      ho_Networks = addresses [address, address6], ho_UnsafeNetworks = [], ho_Groups = [], ho_Duration = 0\<rparr>"

text \<open>What is done with an instance the hub has made: the authority, the two certificates, and what is written down.\<close>

definition furnish ::
  "tworld \<Rightarrow> 'h line \<Rightarrow> tclient \<Rightarrow> draws \<Rightarrow> CreateInstanceResponse \<Rightarrow> string \<Rightarrow> string \<Rightarrow> Daemon \<Rightarrow> 'h
    \<Rightarrow> 'h \<times> Daemon \<times> (daemon_err + CreateInstanceResponse \<times> string)" where
  "furnish W N c D r name token d h =
     (let L = tw_cert W; overlays = cs_Overlay r # (if PrefixIsValid (cs_Overlay6 r) then [cs_Overlay6 r] else []) in
      case Generate L (ln_Now N h) (dw_CAKey D) (''robinet-'' @ name) overlays 0 of
        Inl e \<Rightarrow> (h, d, Inl (AuthorityFailed e))
      | Inr (authority, caPEM, caKeyPEM) \<Rightarrow>
          (case Sign L (ln_Now N h) authority (lighthouse_host r name) of
             Inl e \<Rightarrow> (h, d, Inl (AuthorityFailed e))
           | Inr lighthouseCert \<Rightarrow>
               (case hub_activate W N c (cs_ID r) caPEM lighthouseCert h of
                  (h, Inl e) \<Rightarrow> (h, d, Inl e)
                | (h, Inr _) \<Rightarrow>
                    (case GenerateHostKey L (dw_HostKey D) of
                       None \<Rightarrow> (h, d, Inl NoHostKey)
                     | Some (pub, key) \<Rightarrow>
                         (case Sign L (ln_Now N h) authority
                                 (own_host (tw_unicode W) (machineName (dae_state d)) name pub
                                    (PrefixFrom (cs_TenantAddress r) (pbits (cs_Overlay r))) (prefixOf (cs_TenantAddress6 r) (cs_Overlay6 r))) of
                            Inl e \<Rightarrow> (h, d, Inl (AuthorityFailed e))
                          | Inr ownCert \<Rightarrow>
                              (h, write_daemon (dw_IO D) (\<lambda>s. let conn = created_connection r name (pub, key) ownCert caPEM (ln_Now N h) s in
                                    s\<lparr>da_Owned := put_in (cs_ID r) \<lparr>own_InstanceID = cs_ID r, own_Name = name, own_CACert = caPEM,
                                          own_CAKey = caKeyPEM, own_SharedToken = token\<rparr> (da_Owned s),
                                      da_Connections := put_in (cs_ID r) conn (da_Connections s)\<rparr>) d (r, token)))))))"

definition daemon_Create ::
  "tworld \<Rightarrow> 'h line \<Rightarrow> tclient \<Rightarrow> draws \<Rightarrow> string \<Rightarrow> string \<Rightarrow> Daemon \<Rightarrow> 'h
    \<Rightarrow> 'h \<times> Daemon \<times> (daemon_err + CreateInstanceResponse \<times> string)" where
  "daemon_Create W N c D name sharedToken d h =
     (let token = (if sharedToken = [] then newSharedToken (dw_Stamp D) (dw_Token D) (ln_Now N h) else sharedToken) in
      case hub_createInstance W N c name token h of
        (h, Inl e) \<Rightarrow> (h, d, Inl e)
      | (h, Inr r) \<Rightarrow> furnish W N c D r (if cs_Name r \<noteq> [] then cs_Name r else name) token d h)"

section \<open>What this machine knows\<close>

definition folds :: "tworld \<Rightarrow> string \<Rightarrow> string \<Rightarrow> bool" where
  "folds W s t = (if ascii s \<and> ascii t then EqualFold s t else tw_Fold W s t)"

definition owned :: "Daemon \<Rightarrow> Owned list" where
  "owned d = vals (da_Owned (sta_data (dae_state d)))"

definition tokenOf :: "Owned option \<Rightarrow> string" where
  "tokenOf o1 = (case o1 of None \<Rightarrow> [] | Some x \<Rightarrow> own_SharedToken x)"

definition meant :: "unicode \<Rightarrow> string \<Rightarrow> InstanceSummary \<Rightarrow> bool" where
  "meant U want inst \<longleftrightarrow>
     is_ID inst = want \<or> ToLower U (is_Name inst) = ToLower U (TrimSpace U want) \<or> HasPrefix (is_ID inst) want"

definition resolveInstance :: "tworld \<Rightarrow> 'h line \<Rightarrow> tclient \<Rightarrow> string \<Rightarrow> 'h \<Rightarrow> 'h \<times> (daemon_err + InstanceSummary)" where
  "resolveInstance W N c want h =
     (case hub_instances W N c h of
        (h, Inl e) \<Rightarrow> (h, Inl e)
      | (h, Inr insts) \<Rightarrow>
          (h, case find (meant (tw_unicode W) want) insts of None \<Rightarrow> Inl (NoInstance want) | Some inst \<Rightarrow> Inr inst))"

definition List :: "tworld \<Rightarrow> 'h line \<Rightarrow> tclient \<Rightarrow> 'h \<Rightarrow> 'h \<times> (daemon_err + InstanceSummary list)" where
  "List W N c h = hub_instances W N c h"

record Shown =
  sh_ID :: string
  sh_Name :: string
  sh_Overlay :: string
  sh_Overlay6 :: "string option"
  sh_Owner :: string
  sh_Role :: string
  sh_Running :: bool
  sh_Owned :: bool
  sh_Endpoint :: "string option"
  sh_URL :: "string option"

definition Show :: "tworld \<Rightarrow> 'h line \<Rightarrow> tclient \<Rightarrow> string \<Rightarrow> Daemon \<Rightarrow> 'h \<Rightarrow> 'h \<times> (daemon_err + Shown)" where
  "Show W N c want d h =
     (case hub_instances W N c h of
        (h, Inl e) \<Rightarrow> (h, Inl e)
      | (h, Inr insts) \<Rightarrow>
          (h, case find (meant (tw_unicode W) want) insts of
                None \<Rightarrow> Inl (NoInstance want)
              | Some inst \<Rightarrow>
                  (let own = OwnedOf (is_ID inst) (dae_state d);
                       info = instanceInfo (tw_unicode W) (dae_state d) (is_ID inst) (is_Name inst) (PrefixString (is_Overlay inst)) (tokenOf own);
                       mine = (\<lambda>s. if own = None then None else Some s)
                   in Inr \<lparr>sh_ID = ii_id info, sh_Name = is_Name inst, sh_Overlay = ii_overlay info,
                           sh_Overlay6 = (if PrefixIsValid (is_Overlay6 inst) then Some (PrefixString (is_Overlay6 inst)) else None),
                           sh_Owner = is_Owner inst, sh_Role = is_Role inst, sh_Running = is_Running inst, sh_Owned = (own \<noteq> None),
                           sh_Endpoint = mine (ii_endpoint info), sh_URL = mine (ii_url info)\<rparr>)))"

definition connectionFor :: "tworld \<Rightarrow> string \<Rightarrow> Daemon \<Rightarrow> Connection option" where
  "connectionFor W ref d =
     (let U = tw_unicode W in
      case ConnectionOf ref (dae_state d) of
        Some conn \<Rightarrow> Some conn
      | None \<Rightarrow> find (\<lambda>conn. ToLower U (con_Name conn) = ToLower U (TrimSpace U ref)) (Connections (dae_state d)))"

definition live_header :: string where
  "live_header = ''# what nebula is running on, as it was last loaded'' @ [nl]"

definition rendered_header :: string where
  "rendered_header = ''# nothing is running for this instance: rendered now, from the hub'' @ [CHR 0x27] @ ''s route table'' @ [nl]"

definition ConnectionConfig ::
  "tworld \<Rightarrow> 'h line \<Rightarrow> tclient \<Rightarrow> string \<Rightarrow> bool \<Rightarrow> Daemon \<Rightarrow> 'h \<Rightarrow> 'h \<times> (daemon_err + string)" where
  "ConnectionConfig W N c ref showKeys d h =
     (case connectionFor W ref d of
        None \<Rightarrow> (h, Inl (NotConnected ref))
      | Some conn \<Rightarrow>
          (let shown = (\<lambda>header raw.
             if showKeys then Inr (header @ raw)
             else (case RedactKey (tw_nebula W) raw of Inl _ \<Rightarrow> Inl NotRedacted | Inr raw \<Rightarrow> Inr (header @ raw)))
           in case loaded (con_InstanceID conn) (dae_run d) of
                Some raw \<Rightarrow> (h, shown live_header raw)
              | None \<Rightarrow>
                  (case hub_routes W N c (con_InstanceID conn) h of
                     (h, Inl e) \<Rightarrow> (h, Inl e)
                   | (h, Inr table) \<Rightarrow>
                       (h, case renderConfig (tw_nebula W) conn table (daemon_choices W d) of
                             Inl e \<Rightarrow> Inl (RunFailed e)
                           | Inr raw \<Rightarrow> shown rendered_header raw))))"

record TokenResult =
  tr_Instance :: string
  tr_Token :: string
  tr_Endpoint :: string

definition daemon_SetToken ::
  "tworld \<Rightarrow> 'h line \<Rightarrow> tclient \<Rightarrow> draws \<Rightarrow> string \<Rightarrow> string \<Rightarrow> Daemon \<Rightarrow> 'h \<Rightarrow> 'h \<times> Daemon \<times> (daemon_err + TokenResult)" where
  "daemon_SetToken W N c D ref token d h =
     (case find (\<lambda>x. own_InstanceID x = ref \<or> folds W (own_Name x) ref \<or> HasPrefix (own_InstanceID x) ref) (owned d) of
        None \<Rightarrow> (h, d, Inl (NotOwnedHere ref))
      | Some own \<Rightarrow>
          (let token = (if token = [] then newSharedToken (dw_Stamp D) (dw_Token D) (ln_Now N h) else token) in
           case hub_setToken W N c (own_InstanceID own) token h of
             (h, Inl e) \<Rightarrow> (h, d, Inl e)
           | (h, Inr _) \<Rightarrow>
               (case write_daemon (dw_IO D) (\<lambda>s. s\<lparr>da_Owned := madjust (own_InstanceID own) (\<lambda>x. x\<lparr>own_SharedToken := token\<rparr>) (da_Owned s)\<rparr>) d () of
                  (d, Inl e) \<Rightarrow> (h, d, Inl e)
                | (d, Inr _) \<Rightarrow>
                    (let (hubURL, hubPin) = hubAddress (tw_unicode W) (dae_state d) in
                     (h, d, Inr \<lparr>tr_Instance = own_Name own, tr_Token = token,
                                 tr_Endpoint = shorthandEndpoint hubURL (own_Name own) token hubPin\<rparr>)))))"

section \<open>Entering and leaving\<close>

definition rejoined_connection :: "InstanceSummary \<Rightarrow> Owned \<Rightarrow> RouteTable \<Rightarrow> string \<times> string \<Rightarrow> string \<Rightarrow> time \<Rightarrow> data \<Rightarrow> Connection" where
  "rejoined_connection inst own table keypair certPEM now s =
     \<lparr>con_InstanceID = is_ID inst, con_Name = own_Name own, con_Role = KindOwner, con_PublicKey = fst keypair, con_PrivateKey = snd keypair,
      con_Certificate = certPEM, con_CA = own_CACert own, con_Address = is_Address inst, con_Address6 = is_Address6 inst,
      con_Lighthouse = rtab_Lighthouse table, con_MTU = rtab_MTU table, con_Device = nextDevice s, con_ListenPort = 0,
      con_RequestedAt = 0, con_JoinedAt = now\<rparr>"

definition rejoinOwn ::
  "tworld \<Rightarrow> 'h line \<Rightarrow> tclient \<Rightarrow> draws \<Rightarrow> InstanceSummary \<Rightarrow> Owned \<Rightarrow> Daemon \<Rightarrow> 'h \<Rightarrow> 'h \<times> Daemon \<times> (daemon_err + unit)" where
  "rejoinOwn W N c D inst own d h =
     (case Load (tw_cert W) (own_CACert own) (own_CAKey own) of
        Inl e \<Rightarrow> (h, d, Inl (AuthorityFailed e))
      | Inr authority \<Rightarrow>
          (case hub_routes W N c (is_ID inst) h of
             (h, Inl e) \<Rightarrow> (h, d, Inl e)
           | (h, Inr table) \<Rightarrow>
               (case GenerateHostKey (tw_cert W) (dw_HostKey D) of
                  None \<Rightarrow> (h, d, Inl NoHostKey)
                | Some (pub, key) \<Rightarrow>
                    (case Sign (tw_cert W) (ln_Now N h) authority
                            (own_host (tw_unicode W) (da_Name (sta_data (dae_state d))) (own_Name own) pub (is_Address inst) (is_Address6 inst)) of
                       Inl e \<Rightarrow> (h, d, Inl (AuthorityFailed e))
                     | Inr certPEM \<Rightarrow>
                         (h, write_daemon (dw_IO D) (\<lambda>s. s\<lparr>da_Connections := put_in (is_ID inst)
                               (rejoined_connection inst own table (pub, key) certPEM (ln_Now N h) s) (da_Connections s)\<rparr>) d ())))))"

definition asked_connection :: "InstanceSummary \<Rightarrow> string \<times> string \<Rightarrow> time \<Rightarrow> data \<Rightarrow> Connection" where
  "asked_connection inst keypair now s =
     \<lparr>con_InstanceID = is_ID inst, con_Name = is_Name inst, con_Role = KindTenant, con_PublicKey = fst keypair, con_PrivateKey = snd keypair,
      con_Certificate = [], con_CA = [], con_Address = PrefixNone, con_Address6 = PrefixNone,
      con_Lighthouse = \<lparr>lh_OverlayAddress = AddrNone, lh_OverlayAddress6 = AddrNone, lh_Endpoints = [], lh_Relay = False\<rparr>,
      con_MTU = 0, con_Device = nextDevice s, con_ListenPort = 0, con_RequestedAt = now, con_JoinedAt = 0\<rparr>"

definition Connect ::
  "tworld \<Rightarrow> 'h line \<Rightarrow> tclient \<Rightarrow> draws \<Rightarrow> string \<Rightarrow> Daemon \<Rightarrow> 'h \<Rightarrow> 'h \<times> Daemon \<times> (daemon_err + unit)" where
  "Connect W N c D want d h =
     (if connectionFor W want d \<noteq> None then (h, d, Inr ())
      else
        (case resolveInstance W N c want h of
           (h, Inl e) \<Rightarrow> (h, d, Inl e)
         | (h, Inr target) \<Rightarrow>
             (case OwnedOf (is_ID target) (dae_state d) of
                Some own \<Rightarrow> rejoinOwn W N c D target own d h
              | None \<Rightarrow>
                  (case GenerateHostKey (tw_cert W) (dw_HostKey D) of
                     None \<Rightarrow> (h, d, Inl NoHostKey)
                   | Some (pub, key) \<Rightarrow>
                       (let name = da_Name (sta_data (dae_state d)) in
                        case write_daemon (dw_IO D) (\<lambda>s. s\<lparr>da_Connections := put_in (is_ID target)
                               (asked_connection target (pub, key) (ln_Now N h) s) (da_Connections s)\<rparr>) d () of
                          (d, Inl e) \<Rightarrow> (h, d, Inl e)
                        | (d, Inr _) \<Rightarrow> (case hub_join W N c (is_ID target) name pub h of (h, r) \<Rightarrow> (h, d, r)))))))"

record DeleteResult =
  dl_Instance :: string
  dl_ID :: string
  dl_Members :: nat
  dl_Owned :: bool

definition daemon_Delete ::
  "tworld \<Rightarrow> 'h line \<Rightarrow> tclient \<Rightarrow> tenant_fault option \<Rightarrow> string \<Rightarrow> bool \<Rightarrow> Daemon \<Rightarrow> 'h \<Rightarrow> 'h \<times> Daemon \<times> (daemon_err + DeleteResult)" where
  "daemon_Delete W N c io want force d h =
     (case resolveInstance W N c want h of
        (h, Inl e) \<Rightarrow> (h, d, Inl e)
      | (h, Inr target) \<Rightarrow>
          if OwnedOf (is_ID target) (dae_state d) = None then (h, d, Inl (NotOwnedHere (is_Name target)))
          else if 1 < is_Members target \<and> \<not> force then (h, d, Inl (HasMembers (is_Name target) (is_Members target - 1)))
          else
            (case hub_deleteInstance W N c (is_ID target) h of
               (h, Inl e) \<Rightarrow> (h, d, Inl e)
             | (h, Inr _) \<Rightarrow>
                 (let d = stopRouter (is_ID target) (d\<lparr>dae_run := stop_runner (is_ID target) (dae_run d)\<rparr>) in
                  (h, write_daemon io (\<lambda>s. s\<lparr>da_Owned := mdel (is_ID target) (da_Owned s), da_Connections := mdel (is_ID target) (da_Connections s)\<rparr>) d
                        \<lparr>dl_Instance = is_Name target, dl_ID = is_ID target, dl_Members = is_Members target, dl_Owned = True\<rparr>))))"

definition Disconnect :: "tworld \<Rightarrow> tenant_fault option \<Rightarrow> string \<Rightarrow> Daemon \<Rightarrow> Daemon \<times> (daemon_err + unit)" where
  "Disconnect W io ref d =
     (case connectionFor W ref d of
        None \<Rightarrow> (d, Inl (NotConnected ref))
      | Some conn \<Rightarrow>
          (let iid = con_InstanceID conn; d = stopRouter iid (d\<lparr>dae_run := stop_runner iid (dae_run d)\<rparr>) in
           write_daemon io (\<lambda>s. s\<lparr>da_Connections := mdel iid (da_Connections s)\<rparr>) d ()))"

section \<open>Members\<close>

record ownedMember =
  om_owned :: Owned
  om_member :: Member

fun find_loop ::
  "tworld \<Rightarrow> 'h line \<Rightarrow> tclient \<Rightarrow> string \<Rightarrow> string \<Rightarrow> Owned list \<Rightarrow> ownedMember list \<Rightarrow> daemon_err option \<Rightarrow> 'h
    \<Rightarrow> 'h \<times> ownedMember list \<times> daemon_err option" where
  "find_loop W N c ref inst [] found unread h = (h, found, unread)"
| "find_loop W N c ref inst (own # rest) found unread h =
     (if inst \<noteq> [] \<and> \<not> folds W (own_Name own) inst \<and> own_InstanceID own \<noteq> inst then find_loop W N c ref inst rest found unread h
      else
        (case hub_members W N c (own_InstanceID own) h of
           (h, Inl e) \<Rightarrow> find_loop W N c ref inst rest found (Some e) h
         | (h, Inr members) \<Rightarrow>
             find_loop W N c ref inst rest
               (found @ map (\<lambda>m. \<lparr>om_owned = own, om_member = m\<rparr>)
                  (filter (\<lambda>m. mem_Name m = ref \<or> HasPrefix (mem_Fingerprint m) ref) members))
               unread h))"

definition findMember :: "tworld \<Rightarrow> 'h line \<Rightarrow> tclient \<Rightarrow> string \<Rightarrow> string \<Rightarrow> Daemon \<Rightarrow> 'h \<Rightarrow> 'h \<times> (daemon_err + ownedMember)" where
  "findMember W N c ref inst d h =
     (if ref = [] then (h, Inl NoMemberNamed)
      else
        (case find_loop W N c ref inst (owned d) [] None h of
           (h, [m], _) \<Rightarrow> (h, Inr m)
         | (h, [], Some e) \<Rightarrow> (h, Inl e)
         | (h, [], None) \<Rightarrow> (h, Inl (NoSuchMember ref inst))
         | (h, found, _) \<Rightarrow> (h, Inl (AmbiguousMember ref (sort (map (\<lambda>f. own_Name (om_owned f)) found))))))"

record MemberEntry =
  mbe_Instance :: string
  mbe_InstanceID :: string
  mbe_Member :: Member

record daemon_BanRequest =
  db_Member :: string
  db_Instance :: string
  db_Note :: string

definition daemon_RemoveMember ::
  "tworld \<Rightarrow> 'h line \<Rightarrow> tclient \<Rightarrow> daemon_BanRequest \<Rightarrow> Daemon \<Rightarrow> 'h \<Rightarrow> 'h \<times> (daemon_err + MemberEntry)" where
  "daemon_RemoveMember W N c req d h =
     (case findMember W N c (db_Member req) (db_Instance req) d h of
        (h, Inl e) \<Rightarrow> (h, Inl e)
      | (h, Inr found) \<Rightarrow>
          (case hub_removeMember W N c (own_InstanceID (om_owned found)) (mem_Fingerprint (om_member found)) h of
             (h, Inl e) \<Rightarrow> (h, Inl e)
           | (h, Inr m) \<Rightarrow> (h, Inr \<lparr>mbe_Instance = own_Name (om_owned found), mbe_InstanceID = own_InstanceID (om_owned found), mbe_Member = m\<rparr>)))"

fun members_loop :: "tworld \<Rightarrow> 'h line \<Rightarrow> tclient \<Rightarrow> Connection list \<Rightarrow> MemberEntry list \<Rightarrow> 'h \<Rightarrow> 'h \<times> MemberEntry list" where
  "members_loop W N c [] out h = (h, out)"
| "members_loop W N c (conn # conns) out h =
     (case hub_members W N c (con_InstanceID conn) h of
        (h, Inl _) \<Rightarrow> members_loop W N c conns out h
      | (h, Inr ms) \<Rightarrow>
          members_loop W N c conns
            (out @ map (\<lambda>m. \<lparr>mbe_Instance = con_Name conn, mbe_InstanceID = con_InstanceID conn, mbe_Member = m\<rparr>) ms) h)"

definition daemon_Members :: "tworld \<Rightarrow> 'h line \<Rightarrow> tclient \<Rightarrow> Daemon \<Rightarrow> 'h \<Rightarrow> 'h \<times> MemberEntry list" where
  "daemon_Members W N c d h = members_loop W N c (Connections (dae_state d)) [] h"

definition daemon_Ban :: "tworld \<Rightarrow> 'h line \<Rightarrow> tclient \<Rightarrow> daemon_BanRequest \<Rightarrow> Daemon \<Rightarrow> 'h \<Rightarrow> 'h \<times> (daemon_err + unit)" where
  "daemon_Ban W N c req d h =
     (case findMember W N c (db_Member req) (db_Instance req) d h of
        (h, Inl e) \<Rightarrow> (h, Inl e)
      | (h, Inr found) \<Rightarrow> hub_ban W N c (own_InstanceID (om_owned found)) (mem_Fingerprint (om_member found)) (db_Note req) h)"

definition daemon_Unban :: "tworld \<Rightarrow> 'h line \<Rightarrow> tclient \<Rightarrow> daemon_BanRequest \<Rightarrow> Daemon \<Rightarrow> 'h \<Rightarrow> 'h \<times> (daemon_err + unit)" where
  "daemon_Unban W N c req d h =
     (case findMember W N c (db_Member req) (db_Instance req) d h of
        (h, Inl e) \<Rightarrow> (h, Inl e)
      | (h, Inr found) \<Rightarrow> hub_unban W N c (own_InstanceID (om_owned found)) (mem_Fingerprint (om_member found)) (db_Note req) h)"

section \<open>Decisions\<close>

text \<open>A record whose name has to be made of a fingerprint that is too short panics.\<close>

definition pending_entry :: "unicode \<Rightarrow> Owned \<Rightarrow> Record \<Rightarrow> PendingEntry option" where
  "pending_entry U own record =
     map_option (\<lambda>name. \<lparr>pe_Instance = own_Name own, pe_InstanceID = own_InstanceID own, pe_Record = record,
         pe_Address = rec_OverlayAddress record, pe_WillBeCalled = name, pe_Routes = [], pe_Dropped = [], pe_Domain = []\<rparr>)
       (if req_Name (rec_Request record) = [] then defaultName U record else Some (req_Name (rec_Request record)))"

fun pending_walk :: "tworld \<Rightarrow> 'h line \<Rightarrow> tclient \<Rightarrow> Owned list \<Rightarrow> PendingEntry list \<Rightarrow> 'h \<Rightarrow> 'h \<times> (daemon_err + PendingEntry list)" where
  "pending_walk W N c [] out h = (h, Inr out)"
| "pending_walk W N c (own # rest) out h =
     (case hub_pending W N c (own_InstanceID own) h of
        (h, Inl _) \<Rightarrow> pending_walk W N c rest out h
      | (h, Inr records) \<Rightarrow>
          (case all_some (map (pending_entry (tw_unicode W) own) records) of
             None \<Rightarrow> (h, Inl DaemonPanic)
           | Some es \<Rightarrow> pending_walk W N c rest (out @ es) h))"

definition daemon_Pending :: "tworld \<Rightarrow> 'h line \<Rightarrow> tclient \<Rightarrow> Daemon \<Rightarrow> 'h \<Rightarrow> 'h \<times> (daemon_err + PendingEntry list)" where
  "daemon_Pending W N c d h = pending_walk W N c (owned d) [] h"

definition findPending :: "tworld \<Rightarrow> 'h line \<Rightarrow> tclient \<Rightarrow> string \<Rightarrow> Daemon \<Rightarrow> 'h \<Rightarrow> 'h \<times> (daemon_err + PendingEntry)" where
  "findPending W N c requestID d h =
     (case daemon_Pending W N c d h of
        (h, Inl e) \<Rightarrow> (h, Inl e)
      | (h, Inr entries) \<Rightarrow> (h, case matchPending entries requestID of Inl e \<Rightarrow> Inl (NotPending e) | Inr entry \<Rightarrow> Inr entry))"

text \<open>What is offered: the routes and the domain, whether somebody asked for just these routes, and what cannot be carried.\<close>

definition offered :: "Record \<Rightarrow> prefix list option \<Rightarrow> bool \<Rightarrow> prefix list \<times> string \<times> bool" where
  "offered record routes noDomain =
     (if rec_Kind record = KindTenant then ([], [], False)
      else (case routes of None \<Rightarrow> req_Routes (rec_Request record) | Some rs \<Rightarrow> rs,
            if noDomain then [] else req_Domain (rec_Request record), routes \<noteq> None))"

definition given_name :: "unicode \<Rightarrow> Record \<Rightarrow> string \<Rightarrow> string option" where
  "given_name U record want =
     (let name = (if want = [] then req_Name (rec_Request record) else want) in
      if name = [] then defaultName U record else Some name)"

text \<open>The certificate for a request, as PEM, and its fingerprint.\<close>

definition issue ::
  "tworld \<Rightarrow> time \<Rightarrow> Owned \<Rightarrow> PendingEntry \<Rightarrow> prefix list \<Rightarrow> string \<Rightarrow> daemon_err + string \<times> string \<times> string" where
  "issue W now own entry routes want =
     (let record = pe_Record entry; L = tw_cert W in
      case Load L (own_CACert own) (own_CAKey own) of
        Inl e \<Rightarrow> Inl (AuthorityFailed e)
      | Inr authority \<Rightarrow>
          (case given_name (tw_unicode W) record want of
             None \<Rightarrow> Inl DaemonPanic
           | Some name \<Rightarrow>
               if \<not> fitsInAName (rec_Kind record) name (pe_Instance entry) then Inl (NameTooLong name (pe_Instance entry))
               else
                 (case Sign L now authority
                         \<lparr>ho_Name = MemberCertName (rec_Kind record) name (pe_Instance entry), ho_PublicKeyPEM = req_PublicKey (rec_Request record),
                          ho_Networks = addresses [rec_OverlayAddress record, rec_OverlayAddress6 record], ho_UnsafeNetworks = routes,
                          ho_Groups = [], ho_Duration = 0\<rparr> of
                    Inl e \<Rightarrow> Inl (AuthorityFailed e)
                  | Inr certPEM \<Rightarrow>
                      (case cl_UnmarshalCertificate L certPEM of
                         None \<Rightarrow> Inl CertificateUnreadable
                       | Some issued \<Rightarrow>
                           (case cl_Fingerprint L issued of None \<Rightarrow> Inl NoFingerprint | Some fp \<Rightarrow> Inr (name, certPEM, fp))))))"

definition approval :: "Owned \<Rightarrow> string \<Rightarrow> string \<Rightarrow> string \<Rightarrow> prefix list \<Rightarrow> string \<Rightarrow> Decision" where
  "approval own name certPEM fp routes domain =
     \<lparr>dec_Status = StatusApproved,
      dec_Bundle = Some \<lparr>bnd_Certificate = certPEM, bnd_CA = own_CACert own, bnd_OverlayAddress = PrefixNone, bnd_OverlayAddress6 = PrefixNone,
        bnd_Lighthouse = \<lparr>lh_OverlayAddress = AddrNone, lh_OverlayAddress6 = AddrNone, lh_Endpoints = [], lh_Relay = False\<rparr>,
        bnd_MTU = 0, bnd_Instance = own_Name own, bnd_Blocked = []\<rparr>,
      dec_Reason = [], dec_Name = name, dec_Routes = routes, dec_Domain = domain, dec_CertFingerprint = fp\<rparr>"

definition Approve ::
  "tworld \<Rightarrow> 'h line \<Rightarrow> tclient \<Rightarrow> string \<Rightarrow> prefix list option \<Rightarrow> bool \<Rightarrow> string \<Rightarrow> Daemon \<Rightarrow> 'h \<Rightarrow> 'h \<times> (daemon_err + PendingEntry)" where
  "Approve W N c requestID routes0 noDomain want d h =
     (case findPending W N c requestID d h of
        (h, Inl e) \<Rightarrow> (h, Inl e)
      | (h, Inr entry) \<Rightarrow>
          (case OwnedOf (pe_InstanceID entry) (dae_state d) of
             None \<Rightarrow> (h, Inl (NotOwnedHere (pe_Instance entry)))
           | Some own \<Rightarrow>
               (let record = pe_Record entry;
                    (announced, domain, asked) = offered record routes0 noDomain;
                    (routes, dropped) = carriable announced (addresses [rec_OverlayAddress record, rec_OverlayAddress6 record])
                in if asked \<and> 0 < length dropped then (h, Inl (CannotCarry dropped))
                   else
                     (case issue W (ln_Now N h) own entry routes want of
                        Inl e \<Rightarrow> (h, Inl e)
                      | Inr (name, certPEM, fp) \<Rightarrow>
                          (case hub_decide W N c (pe_InstanceID entry) (rec_ID record) (approval own name certPEM fp routes domain) h of
                             (h, Inl e) \<Rightarrow> (h, Inl e)
                           | (h, Inr _) \<Rightarrow> (h, Inr (entry\<lparr>pe_Routes := routes, pe_Dropped := dropped, pe_Domain := domain\<rparr>)))))))"

definition rejection :: "string \<Rightarrow> Decision" where
  "rejection reason =
     \<lparr>dec_Status = StatusRejected, dec_Bundle = None, dec_Reason = reason, dec_Name = [], dec_Routes = [], dec_Domain = [], dec_CertFingerprint = []\<rparr>"

definition Reject :: "tworld \<Rightarrow> 'h line \<Rightarrow> tclient \<Rightarrow> string \<Rightarrow> string \<Rightarrow> Daemon \<Rightarrow> 'h \<Rightarrow> 'h \<times> (daemon_err + unit)" where
  "Reject W N c requestID reason d h =
     (case findPending W N c requestID d h of
        (h, Inl e) \<Rightarrow> (h, Inl e)
      | (h, Inr entry) \<Rightarrow> hub_decide W N c (pe_InstanceID entry) (rec_ID (pe_Record entry)) (rejection reason) h)"

definition daemon_Forget :: "tworld \<Rightarrow> 'h line \<Rightarrow> tclient \<Rightarrow> string \<Rightarrow> Daemon \<Rightarrow> 'h \<Rightarrow> 'h \<times> (daemon_err + unit)" where
  "daemon_Forget W N c requestID d h =
     (case findPending W N c requestID d h of
        (h, Inl e) \<Rightarrow> (h, Inl e)
      | (h, Inr entry) \<Rightarrow> hub_forget W N c (pe_InstanceID entry) (rec_ID (pe_Record entry)) h)"

end
