(* ===== verification/Ownership.thy ===== *)
theory Ownership
  imports Daemon
begin

text \<open>
  What the daemon's operations promise, whatever is at the other end of the line: registering, asking to
  be let in, keeping connections on the current table, making an instance, finding a member and admitting
  one.
\<close>

lemma daemon_Write_Inr:
  assumes "write_daemon io f d a = (d', Inr b)"
  shows "b = a \<and> sta_data (dae_state d') = f (sta_data (dae_state d)) \<and> dae_run d' = dae_run d \<and> dae_routers d' = dae_routers d"
proof -
  obtain s' r where w: "Write io (\<lambda>s. (f s, None)) (dae_state d) = (s', r)" by fastforce
  then have "d' = d\<lparr>dae_state := s'\<rparr> \<and> b = a" using assms by (cases r) (simp_all add: write_daemon_def after_write_def)
  then show ?thesis using Write_cases(1) [OF w] by simp
qed

section \<open>Registering\<close>

lemma register_Inr:
  assumes "register W N K opts identity h = (h', Inr r)"
  shows "trim_right (\<lambda>c. c = slash) (jo_HubURL opts) \<noteq> [] \<and> (\<exists>t. httpClient W (jo_Insecure opts) (jo_Pin opts) = Inr t)"
proof -
  have no: "urlHost ''/v1/register'' = Some []" by code_simp
  have "hostOf (trim_right (\<lambda>c. c = slash) (jo_HubURL opts) @ ''/v1/register'') \<noteq> Inl (BadHubURL ''/v1/register'')"
    using assms by (auto simp: register_def Let_def)
  then have "trim_right (\<lambda>c. c = slash) (jo_HubURL opts) \<noteq> []" using no by (auto simp: hostOf_def)
  with assms show ?thesis by (auto simp: register_def Let_def split: sum.splits)
qed


section \<open>Asking to be let in\<close>

lemma put_in_get: "m \<noteq> None \<Longrightarrow> mget (put_in k v m) k = Some v"
  by (cases m) (auto simp: put_in_def mget_def update_conv')


section \<open>Admitting\<close>

lemma issue_Inr:
  assumes "certlib_ok (tw_cert W)" and "issue W now own entry routes want = Inr (name, certPEM, fp)"
  shows "\<exists>c. cl_UnmarshalCertificate (tw_cert W) certPEM = Some c \<and> cl_Fingerprint (tw_cert W) c = Some fp
    \<and> given_name (tw_unicode W) (pe_Record entry) want = Some name
    \<and> fitsInAName (rec_Kind (pe_Record entry)) name (pe_Instance entry)
    \<and> map_option fst (cl_UnmarshalPublicKey (tw_cert W) (req_PublicKey (rec_Request (pe_Record entry)))) = Some (tbs_PublicKey (crt_TBS c))
    \<and> tbs_Name (crt_TBS c) = MemberCertName (rec_Kind (pe_Record entry)) name (pe_Instance entry)
    \<and> set (tbs_Networks (crt_TBS c)) = set (addresses [rec_OverlayAddress (pe_Record entry), rec_OverlayAddress6 (pe_Record entry)])
    \<and> set (tbs_UnsafeNetworks (crt_TBS c)) = set routes \<and> \<not> tbs_IsCA (crt_TBS c)"
proof -
  let ?r = "pe_Record entry"
  let ?host = "\<lambda>name. \<lparr>ho_Name = MemberCertName (rec_Kind ?r) name (pe_Instance entry), ho_PublicKeyPEM = req_PublicKey (rec_Request ?r),
      ho_Networks = addresses [rec_OverlayAddress ?r, rec_OverlayAddress6 ?r], ho_UnsafeNetworks = routes, ho_Groups = [], ho_Duration = 0\<rparr>"
  obtain ca c where n: "given_name (tw_unicode W) ?r want = Some name" "fitsInAName (rec_Kind ?r) name (pe_Instance entry)"
    and s: "Sign (tw_cert W) now ca (?host name) = Inr certPEM"
    and c: "cl_UnmarshalCertificate (tw_cert W) certPEM = Some c" "cl_Fingerprint (tw_cert W) c = Some fp"
    using assms(2) by (auto simp: issue_def Let_def split: sum.splits option.splits if_splits)
  with Sign_content [OF assms(1) s] show ?thesis by auto
qed

lemma Approve_Inr:
  assumes "Approve W N c rid routes noDomain want d h = (h', Inr entry)"
  obtains h1 e0 announced domain asked kept dropped own name certPEM fp where "findPending W N c rid d h = (h1, Inr e0)"
    and "offered (pe_Record e0) routes noDomain = (announced, domain, asked)"
    and "carriable announced (addresses [rec_OverlayAddress (pe_Record e0), rec_OverlayAddress6 (pe_Record e0)]) = (kept, dropped)"
    and "OwnedOf (pe_InstanceID e0) (dae_state d) = Some own" and "\<not> (asked \<and> 0 < length dropped)"
    and "issue W (ln_Now N h1) own e0 kept want = Inr (name, certPEM, fp)"
    and "hub_decide W N c (pe_InstanceID e0) (rec_ID (pe_Record e0)) (approval own name certPEM fp kept domain) h1 = (h', Inr ())"
    and "entry = e0\<lparr>pe_Routes := kept, pe_Dropped := dropped, pe_Domain := domain\<rparr>"
proof -
  obtain h1 e0 where f: "findPending W N c rid d h = (h1, Inr e0)" using assms by (auto simp: Approve_def split: prod.splits sum.splits)
  obtain announced domain asked where o: "offered (pe_Record e0) routes noDomain = (announced, domain, asked)" by (cases "offered (pe_Record e0) routes noDomain")
  obtain kept dropped where k: "carriable announced (addresses [rec_OverlayAddress (pe_Record e0), rec_OverlayAddress6 (pe_Record e0)]) = (kept, dropped)"
    by fastforce
  show ?thesis
    using assms that f o k by (auto simp: Approve_def f o k Let_def split: option.splits sum.splits prod.splits if_splits)
qed

text \<open>
  An approval that goes through has handed the hub a decision whose certificate is the one the authority of
  the instance signed for the request: it holds the key that was announced, exactly the addresses the hub gave,
  and exactly the routes the decision speaks of, so what members are told to route is what the certificate
  lets the member carry. Those routes were announced by the applicant or given by the owner, and each has an
  address of its family; what the owner gave is granted whole or refused; a tenant is granted none.
\<close>

theorem approval_grants_what_was_decided:
  assumes "certlib_ok (tw_cert W)" and "Approve W N c rid routes noDomain want d h = (h', Inr entry)"
  shows "\<exists>h1 e0 own name certPEM fp crt. findPending W N c rid d h = (h1, Inr e0)
    \<and> pe_Record entry = pe_Record e0 \<and> pe_InstanceID entry = pe_InstanceID e0
    \<and> OwnedOf (pe_InstanceID entry) (dae_state d) = Some own
    \<and> hub_decide W N c (pe_InstanceID entry) (rec_ID (pe_Record entry)) (approval own name certPEM fp (pe_Routes entry) (pe_Domain entry)) h1 = (h', Inr ())
    \<and> cl_UnmarshalCertificate (tw_cert W) certPEM = Some crt \<and> cl_Fingerprint (tw_cert W) crt = Some fp \<and> \<not> tbs_IsCA (crt_TBS crt)
    \<and> map_option fst (cl_UnmarshalPublicKey (tw_cert W) (req_PublicKey (rec_Request (pe_Record entry)))) = Some (tbs_PublicKey (crt_TBS crt))
    \<and> set (tbs_Networks (crt_TBS crt)) = {p \<in> {rec_OverlayAddress (pe_Record entry), rec_OverlayAddress6 (pe_Record entry)}. PrefixIsValid p}
    \<and> set (tbs_UnsafeNetworks (crt_TBS crt)) = set (pe_Routes entry)
    \<and> (\<forall>r \<in> set (pe_Routes entry). r \<in> set (case routes of None \<Rightarrow> req_Routes (rec_Request (pe_Record entry)) | Some rs \<Rightarrow> rs)
        \<and> (\<exists>a \<in> set (tbs_Networks (crt_TBS crt)). Is4 (paddr a) = Is4 (paddr r)))
    \<and> (rec_Kind (pe_Record entry) = KindTenant \<longrightarrow> pe_Routes entry = [] \<and> pe_Domain entry = [])
    \<and> (rec_Kind (pe_Record entry) \<noteq> KindTenant \<longrightarrow> (\<forall>rs. routes = Some rs \<longrightarrow> set (pe_Routes entry) = set rs))"
proof -
  obtain h1 e0 announced domain asked kept dropped own name certPEM fp where f: "findPending W N c rid d h = (h1, Inr e0)"
    and o: "offered (pe_Record e0) routes noDomain = (announced, domain, asked)"
    and k: "carriable announced (addresses [rec_OverlayAddress (pe_Record e0), rec_OverlayAddress6 (pe_Record e0)]) = (kept, dropped)"
    and own: "OwnedOf (pe_InstanceID e0) (dae_state d) = Some own" and a: "\<not> (asked \<and> 0 < length dropped)"
    and i: "issue W (ln_Now N h1) own e0 kept want = Inr (name, certPEM, fp)"
    and dec: "hub_decide W N c (pe_InstanceID e0) (rec_ID (pe_Record e0)) (approval own name certPEM fp kept domain) h1 = (h', Inr ())"
    and e: "entry = e0\<lparr>pe_Routes := kept, pe_Dropped := dropped, pe_Domain := domain\<rparr>"
    by (rule Approve_Inr [OF assms(2)])
  let ?r = "pe_Record e0"
  let ?addrs = "addresses [rec_OverlayAddress ?r, rec_OverlayAddress6 ?r]"
  obtain crt where crt: "cl_UnmarshalCertificate (tw_cert W) certPEM = Some crt" "cl_Fingerprint (tw_cert W) crt = Some fp"
      "map_option fst (cl_UnmarshalPublicKey (tw_cert W) (req_PublicKey (rec_Request ?r))) = Some (tbs_PublicKey (crt_TBS crt))"
      "set (tbs_Networks (crt_TBS crt)) = set ?addrs" "set (tbs_UnsafeNetworks (crt_TBS crt)) = set kept" "\<not> tbs_IsCA (crt_TBS crt)"
    using issue_Inr [OF assms(1) i] by blast
  have split: "set kept \<union> set dropped = set announced" "r \<in> set kept \<longleftrightarrow> r \<in> set announced \<and> (\<exists>a \<in> set ?addrs. Is4 (paddr a) = Is4 (paddr r))" for r
    using carriable_split [where routes = announced and addrs = ?addrs] by (auto simp: k)
  have tenant: "rec_Kind ?r = KindTenant \<longrightarrow> kept = [] \<and> domain = []"
    using o split(1) by (auto simp: offered_def split: if_splits)
  have ann: "announced = (if rec_Kind ?r = KindTenant then [] else case routes of None \<Rightarrow> req_Routes (rec_Request ?r) | Some rs \<Rightarrow> rs)"
    using o by (auto simp: offered_def split: if_splits)
  have whole: "set kept = set rs" if "rec_Kind ?r \<noteq> KindTenant" "routes = Some rs" for rs
    using that a o split(1) by (auto simp: offered_def)
  have routes: "\<forall>r \<in> set kept. r \<in> set (case routes of None \<Rightarrow> req_Routes (rec_Request ?r) | Some rs \<Rightarrow> rs)
      \<and> (\<exists>a \<in> set (tbs_Networks (crt_TBS crt)). Is4 (paddr a) = Is4 (paddr r))"
    using split(2) ann crt(4) by (auto split: if_splits)
  have nets: "set (tbs_Networks (crt_TBS crt)) = {p \<in> {rec_OverlayAddress ?r, rec_OverlayAddress6 ?r}. PrefixIsValid p}"
    by (auto simp: crt(4) addresses_def)
  have fields: "pe_Record entry = ?r" "pe_InstanceID entry = pe_InstanceID e0" "pe_Routes entry = kept" "pe_Domain entry = domain"
    by (simp_all add: e)
  show ?thesis unfolding fields
    by (rule exI [of _ h1], rule exI [of _ e0], rule exI [of _ own], rule exI [of _ name], rule exI [of _ certPEM], rule exI [of _ fp],
        rule exI [of _ crt])
      (use f own dec crt(1,2,3,5,6) tenant whole routes nets in blast)
qed

section \<open>Finding a member\<close>

definition in_scope :: "tworld \<Rightarrow> string \<Rightarrow> Owned \<Rightarrow> bool" where
  "in_scope W inst own \<longleftrightarrow> inst = [] \<or> folds W (own_Name own) inst \<or> own_InstanceID own = inst"

definition is_meant :: "string \<Rightarrow> Member \<Rightarrow> bool" where
  "is_meant ref m \<longleftrightarrow> mem_Name m = ref \<or> HasPrefix (mem_Fingerprint m) ref"

definition matches :: "tworld \<Rightarrow> (string \<Rightarrow> daemon_err + Member list) \<Rightarrow> string \<Rightarrow> string \<Rightarrow> Owned \<Rightarrow> ownedMember list" where
  "matches W ans ref inst own =
     (if in_scope W inst own
      then (case ans (own_InstanceID own) of Inl _ \<Rightarrow> [] | Inr ms \<Rightarrow> map (\<lambda>m. \<lparr>om_owned = own, om_member = m\<rparr>) (filter (is_meant ref) ms))
      else [])"

lemma find_loop_eq:
  assumes "\<forall>iid h. snd (hub_members W N c iid h) = ans iid"
  shows "fst (snd (find_loop W N c ref inst owns found unread h)) = found @ concat (map (matches W ans ref inst) owns)"
proof (induction owns arbitrary: found unread h)
  case (Cons own owns)
  obtain h1 where h1: "hub_members W N c (own_InstanceID own) h = (h1, ans (own_InstanceID own))"
    using assms by (metis prod.collapse)
  show ?case
    using Cons by (auto simp: h1 matches_def in_scope_def is_meant_def [abs_def] split: sum.splits)
qed simp

text \<open>
  A member is acted on only when exactly one member of the instances that can be read is meant, by its name or by
  the start of its fingerprint: with several of them, in one instance or in several, nothing is done.
\<close>

theorem findMember_unambiguous:
  assumes "\<forall>iid h. snd (hub_members W N c iid h) = ans iid" and "snd (findMember W N c ref inst d h) = Inr m"
  shows "ref \<noteq> [] \<and> concat (map (matches W ans ref inst) (owned d)) = [m]
    \<and> om_owned m \<in> set (owned d) \<and> in_scope W inst (om_owned m)
    \<and> (\<exists>ms. ans (own_InstanceID (om_owned m)) = Inr ms \<and> filter (is_meant ref) ms = [om_member m])"
proof -
  obtain h1 found unread where f: "find_loop W N c ref inst (owned d) [] None h = (h1, found, unread)" by (metis prod_cases3)
  have c: "found = concat (map (matches W ans ref inst) (owned d))" using find_loop_eq [OF assms(1)] f by (metis append_Nil fst_conv snd_conv)
  have r: "ref \<noteq> []" and m: "found = [m]"
    using assms(2) by (auto simp: findMember_def f split: if_splits list.splits option.splits)
  then have "m \<in> set (concat (map (matches W ans ref inst) (owned d)))" using c by simp
  then obtain own where own: "own \<in> set (owned d)" "m \<in> set (matches W ans ref inst own)" unfolding set_concat set_map by blast
  have scope: "in_scope W inst own" using own(2) by (cases "in_scope W inst own") (simp_all add: matches_def)
  then obtain ms where ans: "ans (own_InstanceID own) = Inr ms" using own(2) by (cases "ans (own_InstanceID own)") (simp_all add: matches_def)
  have ms: "in_scope W inst own" "ans (own_InstanceID own) = Inr ms" "om_owned m = own" "om_member m \<in> set (filter (is_meant ref) ms)"
    using own(2) scope ans by (auto simp: matches_def)
  obtain xs ys where xs: "owned d = xs @ own # ys" using own(1) by (meson split_list)
  have "length (concat (map (matches W ans ref inst) (xs @ own # ys))) = 1" unfolding xs [symmetric] c [symmetric] m by simp
  then have "length (matches W ans ref inst own) \<le> 1" by simp
  then have "length (filter (is_meant ref) ms) \<le> 1" using ms by (simp add: matches_def)
  with ms(4) have "filter (is_meant ref) ms = [om_member m]" by (cases "filter (is_meant ref) ms") auto
  with r m c own ms show ?thesis by auto
qed

section \<open>Keeping connections on the current table\<close>

lemma start_runner_other: "k \<noteq> con_InstanceID conn \<Longrightarrow> map_of (fst (start_runner N conn table local rs)) k = map_of rs k"
  by (simp add: start_runner_def update_conv' split: sum.split)

lemma reload_runner_other: "k \<noteq> con_InstanceID conn \<Longrightarrow> map_of (fst (reload_runner N conn table local rs)) k = map_of rs k"
  by (simp add: reload_runner_def update_conv' split: sum.split option.split)

lemma startRouter_run: "dae_run (fst (startRouter U L conn table d)) = dae_run d" "dae_state (fst (startRouter U L conn table d)) = dae_state d"
  by (simp_all add: startRouter_def Let_def split: option.split)

text \<open>Everything this machine remembers apart from its connections.\<close>

abbreviation settings :: "Daemon \<Rightarrow> data" where
  "settings d \<equiv> (sta_data (dae_state d))\<lparr>da_Connections := None\<rparr>"

lemma settings_choices:
  assumes "settings d' = settings d"
  shows "daemon_choices W d' = daemon_choices W d" and "da_Cheats (sta_data (dae_state d')) = da_Cheats (sta_data (dae_state d))"
    and "da_Inbound (sta_data (dae_state d')) = da_Inbound (sta_data (dae_state d))"
proof -
  have "g (sta_data (dae_state d')) = g (sta_data (dae_state d))" if "\<And>x. g (x\<lparr>da_Connections := None\<rparr>) = g x" for g :: "data \<Rightarrow> 'b"
    using arg_cong [OF assms, of g] that by simp
  note f = this [of da_Families] this [of da_Inbound] this [of da_Cheats]
  then show "daemon_choices W d' = daemon_choices W d"
    by (simp add: daemon_choices_def choices_of_def Families_def Inbound_def Cheat_def)
  show "da_Cheats (sta_data (dae_state d')) = da_Cheats (sta_data (dae_state d))"
    "da_Inbound (sta_data (dae_state d')) = da_Inbound (sta_data (dae_state d))" using arg_cong [OF assms, of da_Cheats] arg_cong [OF assms, of da_Inbound] by simp_all
qed

lemma collect_keeps:
  assumes "collect W N c io conn d h = (h', d', r)"
  shows "dae_run d' = dae_run d \<and> settings d' = settings d"
proof (cases "d' = d")
  case False
  then obtain b now s' r' where "Write io (\<lambda>s. (s\<lparr>da_Connections := madjust (con_InstanceID conn) (admit b now) (da_Connections s)\<rparr>, None)) (dae_state d) = (s', r')"
      "d' = d\<lparr>dae_state := s'\<rparr>"
    using assms by (auto simp: collect_def after_write_def split: prod.split_asm sum.split_asm if_split_asm option.split_asm)
  then show ?thesis using Write_cases(1) by fastforce
qed simp

lemma startConnection_keeps:
  assumes "startConnection W N c conn table d h = (h', d', r)"
  shows "dae_state d' = dae_state d \<and> (\<forall>k. k \<noteq> con_InstanceID conn \<longrightarrow> map_of (dae_run d') k = map_of (dae_run d) k)"
proof (cases "d' = d")
  case False
  then have "d' = d\<lparr>dae_run := fst (start_runner (tw_nebula W) conn table (daemon_choices W d) (dae_run d))\<rparr>"
    using assms by (auto simp: startConnection_def split: prod.split_asm sum.split_asm option.split_asm)
  then show ?thesis by (simp add: start_runner_other)
qed simp

lemma refresh_one_keeps:
  assumes "refresh_one W N c L io conn d h = (h', d')"
  shows "settings d' = settings d" and "k \<noteq> con_InstanceID conn \<Longrightarrow> map_of (dae_run d') k = map_of (dae_run d) k"
proof -
  have "settings d' = settings d \<and> (\<forall>k. k \<noteq> con_InstanceID conn \<longrightarrow> map_of (dae_run d') k = map_of (dae_run d) k)"
  proof (cases "Ready conn")
    case False
    then obtain r where "collect W N c (io (con_InstanceID conn)) conn d h = (h', d', r)"
      using assms by (auto simp: refresh_one_def split: prod.split_asm)
    then show ?thesis using collect_keeps by fastforce
  next
    case True
    obtain h1 a where a: "hub_routes W N c (con_InstanceID conn) h = (h1, a)" by fastforce
    show ?thesis
    proof (cases a)
      case (Inl e)
      then show ?thesis using assms True a by (simp add: refresh_one_def)
    next
      case (Inr table)
      let ?d = "fst (startRouter (tw_unicode W) L conn table d)"
      show ?thesis
      proof (cases "runner_isRunning (con_InstanceID conn) (dae_run ?d)")
        case True
        then have "d' = ?d\<lparr>dae_run := fst (reload_runner (tw_nebula W) conn table (daemon_choices W ?d) (dae_run ?d))\<rparr>"
          using assms \<open>Ready conn\<close> a Inr by (simp add: refresh_one_def Let_def)
        then show ?thesis by (simp add: startRouter_run reload_runner_other)
      next
        case False
        then obtain r where "startConnection W N c conn table ?d h1 = (h', d', r)"
          using assms \<open>Ready conn\<close> a Inr by (auto simp: refresh_one_def Let_def split: prod.split_asm)
        then show ?thesis using startConnection_keeps by (fastforce simp: startRouter_run)
      qed
    qed
  qed
  then show "settings d' = settings d" "k \<noteq> con_InstanceID conn \<Longrightarrow> map_of (dae_run d') k = map_of (dae_run d) k" by blast+
qed

lemma refresh_loop_keeps: "refresh_loop W N c L io conns d h = (h', d') \<Longrightarrow> settings d' = settings d"
proof (induction conns arbitrary: d h)
  case (Cons conn conns)
  obtain h1 d1 where s: "refresh_one W N c L io conn d h = (h1, d1)" by fastforce
  then have "settings d' = settings d1" using Cons by simp
  with refresh_one_keeps(1) [OF s] show ?case by simp
qed simp

lemma refresh_loop_other:
  assumes "refresh_loop W N c L io conns d h = (h', d')" and "k \<notin> con_InstanceID ` set conns"
  shows "map_of (dae_run d') k = map_of (dae_run d) k"
  using assms
proof (induction conns arbitrary: d h)
  case (Cons conn conns)
  obtain h1 d1 where s: "refresh_one W N c L io conn d h = (h1, d1)" by fastforce
  then have "refresh_loop W N c L io conns d1 h1 = (h', d')" using Cons.prems(1) by simp
  then have "map_of (dae_run d') k = map_of (dae_run d1) k" using Cons.IH Cons.prems(2) by simp
  also have "\<dots> = map_of (dae_run d) k" using refresh_one_keeps(2) [OF s] Cons.prems(2) by simp
  finally show ?case .
qed simp

lemma refresh_one_reloads:
  assumes "refresh_one W N c L io conn d h = (h', d')" and "snd (hub_routes W N c (con_InstanceID conn) h) = Inr table" and "Ready conn"
    and "runner_isRunning (con_InstanceID conn) (dae_run d)"
    and "renderConfig (tw_nebula W) conn table (daemon_choices W d) = Inr raw" and "\<forall>old. neb_ReloadConfigString (tw_nebula W) old raw"
  shows "loaded (con_InstanceID conn) (dae_run d') = Some raw"
proof -
  obtain h1 where a: "hub_routes W N c (con_InstanceID conn) h = (h1, Inr table)" using assms(2) by (metis prod.collapse)
  obtain r where r: "map_of (dae_run d) (con_InstanceID conn) = Some r" using assms(4) by (auto simp: runner_isRunning_def)
  let ?d = "fst (startRouter (tw_unicode W) L conn table d)"
  have "d' = ?d\<lparr>dae_run := fst (reload_runner (tw_nebula W) conn table (daemon_choices W d) (dae_run d))\<rparr>"
    using assms(1,3,4) a by (simp add: refresh_one_def Let_def startRouter_run daemon_choices_def)
  then show ?thesis using r assms(5,6) by (simp add: reload_runner_def loaded_def update_conv')
qed

text \<open>
  A refresh puts every connection that is up on what the hub says now: for each one whose table the hub
  gives, whose configuration can be rendered and is taken by nebula, what nebula runs on afterwards is that
  configuration, with the certificates the hub refuses in its blocklist.
\<close>

theorem refresh_puts_on_current_table:
  assumes "Refresh W N c L io d h = (h', d')" and "\<forall>iid h. snd (hub_routes W N c iid h) = ans iid"
    and "conn \<in> set (Connections (dae_state d))" and "distinct (map con_InstanceID (Connections (dae_state d)))"
    and "Ready conn" and "ans (con_InstanceID conn) = Inr table" and "runner_isRunning (con_InstanceID conn) (dae_run d)"
    and "renderConfig (tw_nebula W) conn table (daemon_choices W d) = Inr raw" and "\<forall>old. neb_ReloadConfigString (tw_nebula W) old raw"
    and "yaml_roundtrip (tw_nebula W)"
  shows "loaded (con_InstanceID conn) (dae_run d') = Some raw
    \<and> (\<exists>t. yaml_Unmarshal (tw_nebula W) raw = Some t \<and> tree_blocklist t = rtab_Blocked table)"
proof -
  obtain xs ys where xs: "Connections (dae_state d) = xs @ conn # ys" using assms(3) by (meson split_list)
  have split: "refresh_loop W N c L io (as @ bs) e g = (case refresh_loop W N c L io as e g of (g, e) \<Rightarrow> refresh_loop W N c L io bs e g)" for as bs e g
    by (induction as arbitrary: e g) (simp_all split: prod.split)
  obtain h1 d1 where 1: "refresh_loop W N c L io xs d h = (h1, d1)" by fastforce
  obtain h2 d2 where 2: "refresh_one W N c L io conn d1 h1 = (h2, d2)" by fastforce
  have 3: "refresh_loop W N c L io ys d2 h2 = (h', d')" using assms(1) by (simp add: Refresh_def xs split 1 2)
  have out: "con_InstanceID conn \<notin> con_InstanceID ` set xs" "con_InstanceID conn \<notin> con_InstanceID ` set ys" using assms(4) by (auto simp: xs)
  have run: "runner_isRunning (con_InstanceID conn) (dae_run d1)"
    using assms(7) refresh_loop_other [OF 1 out(1)] by (simp add: runner_isRunning_def)
  have "loaded (con_InstanceID conn) (dae_run d2) = Some raw"
    by (rule refresh_one_reloads [OF 2 _ assms(5) run _ assms(9)]) (use assms(2,6,8) settings_choices(1) [OF refresh_loop_keeps [OF 1]] in simp_all)
  then have "loaded (con_InstanceID conn) (dae_run d') = Some raw" using refresh_loop_other [OF 3 out(2)] by (simp add: loaded_def)
  moreover have "yaml_Marshal (tw_nebula W) (tenant_tree conn table (daemon_choices W d)) = Some raw"
    using assms(8) renderConfig_Inr by blast
  then have "yaml_Unmarshal (tw_nebula W) raw = Some (tenant_tree conn table (daemon_choices W d))" using assms(10) by (auto simp: yaml_roundtrip_def)
  ultimately show ?thesis using blocklist_tenant_tree by auto
qed

section \<open>Making an instance\<close>

lemma furnish_Inr:
  assumes "furnish W N c D r name token d h = (h', d', Inr res)"
  shows "\<exists>ca caPEM caKeyPEM lhPEM pub key ownPEM.
      Generate (tw_cert W) (ln_Now N h) (dw_CAKey D) (''robinet-'' @ name) (cs_Overlay r # (if PrefixIsValid (cs_Overlay6 r) then [cs_Overlay6 r] else [])) 0
        = Inr (ca, caPEM, caKeyPEM)
    \<and> Sign (tw_cert W) (ln_Now N h) ca (lighthouse_host r name) = Inr lhPEM
    \<and> hub_activate W N c (cs_ID r) caPEM lhPEM h = (h', Inr ())
    \<and> GenerateHostKey (tw_cert W) (dw_HostKey D) = Some (pub, key)
    \<and> Sign (tw_cert W) (ln_Now N h') ca (own_host (tw_unicode W) (machineName (dae_state d)) name pub
          (PrefixFrom (cs_TenantAddress r) (pbits (cs_Overlay r))) (prefixOf (cs_TenantAddress6 r) (cs_Overlay6 r))) = Inr ownPEM
    \<and> write_daemon (dw_IO D) (\<lambda>s. let conn = created_connection r name (pub, key) ownPEM caPEM (ln_Now N h') s in
          s\<lparr>da_Owned := put_in (cs_ID r) \<lparr>own_InstanceID = cs_ID r, own_Name = name, own_CACert = caPEM,
                own_CAKey = caKeyPEM, own_SharedToken = token\<rparr> (da_Owned s),
            da_Connections := put_in (cs_ID r) conn (da_Connections s)\<rparr>) d (r, token) = (d', Inr res)"
  using assms unfolding furnish_def Let_def
  by (auto split: sum.split_asm prod.split_asm option.split_asm)

lemma daemon_Create_Inr:
  assumes "daemon_Create W N c D name sharedToken d h = (h', d', Inr (r, token))"
  shows "\<exists>h1 name'. hub_createInstance W N c name token h = (h1, Inr r) \<and> furnish W N c D r name' token d h1 = (h', d', Inr (r, token))
    \<and> (cs_Name r \<noteq> [] \<longrightarrow> name' = cs_Name r)
    \<and> token = (if sharedToken = [] then newSharedToken (dw_Stamp D) (dw_Token D) (ln_Now N h) else sharedToken)"
proof -
  define tok where "tok = (if sharedToken = [] then newSharedToken (dw_Stamp D) (dw_Token D) (ln_Now N h) else sharedToken)"
  obtain h1 r' where c: "hub_createInstance W N c name tok h = (h1, Inr r')"
    and f: "furnish W N c D r' (if cs_Name r' \<noteq> [] then cs_Name r' else name) tok d h1 = (h', d', Inr (r, token))"
    using assms unfolding daemon_Create_def Let_def tok_def [symmetric] by (auto split: prod.split_asm sum.split_asm)
  from furnish_Inr [OF f] obtain g where "write_daemon (dw_IO D) g d (r', tok) = (d', Inr (r, token))" by (elim exE conjE)
  from daemon_Write_Inr [OF this] have "r' = r \<and> token = tok" by simp
  with c f show ?thesis by (auto simp: tok_def)
qed


end
