(* ===== verification/Enrollment.thy ===== *)
theory Enrollment
  imports Connector
begin

text \<open>
  What the connector's operations guarantee, alone and with the hub of the other theories at the end of
  the line.
\<close>

section \<open>Waiting\<close>

text \<open>The state after a number of turns that all ended in another question.\<close>

fun after :: "(time \<Rightarrow> 'h \<Rightarrow> 'h turn) \<Rightarrow> nat \<Rightarrow> time \<times> 'h \<Rightarrow> (time \<times> 'h) option" where
  "after t 0 x = Some x"
| "after t (Suc n) (b, h) = (case t b h of Again b' h' \<Rightarrow> after t n (b', h') | Decided _ _ \<Rightarrow> None)"

lemma poll_turn:
  "t b h = Decided h' r \<Longrightarrow> poll t b h = Some (h', r)"
  "t b h = Again b' h' \<Longrightarrow> poll t b h = poll t b' h'"
  by (subst poll.simps, simp)+

lemma poll_after: "after t n (b, h) = Some (b', h') \<Longrightarrow> poll t b h = poll t b' h'"
  by (induction n arbitrary: b h) (auto simp: poll_turn split: turn.splits)

lemma poll_Some:
  assumes "poll t b h = Some y"
  shows "\<exists>n b' h'. after t n (b, h) = Some (b', h') \<and> t b' h' = Decided (fst y) (snd y)"
proof (rule poll.raw_induct
    [where P = "\<lambda>t b h y. \<exists>n b' h'. after t n (b, h) = Some (b', h') \<and> t b' h' = Decided (fst y) (snd y)", OF _ assms])
  fix p :: "(time \<Rightarrow> 'a \<Rightarrow> 'a turn) \<Rightarrow> time \<Rightarrow> 'a \<Rightarrow> ('a \<times> (conn_err + Bundle)) option" and t b h y
  assume IH: "\<And>t b h y. p t b h = Some y \<Longrightarrow> \<exists>n b' h'. after t n (b, h) = Some (b', h') \<and> t b' h' = Decided (fst y) (snd y)"
    and y: "(case t b h of Decided h r \<Rightarrow> Some (h, r) | Again b' h' \<Rightarrow> p t b' h') = Some y"
  show "\<exists>n b' h'. after t n (b, h) = Some (b', h') \<and> t b' h' = Decided (fst y) (snd y)"
  proof (cases "t b h")
    case (Decided h' r)
    with y show ?thesis by - (rule exI [of _ 0], auto)
  next
    case (Again b' h')
    with y IH obtain n b2 h2 where "after t n (b', h') = Some (b2, h2)" "t b2 h2 = Decided (fst y) (snd y)" by fastforce
    with Again show ?thesis by - (rule exI [of _ "Suc n"], auto)
  qed
qed

lemma poll_iff:
  "poll t b h = Some (h2, r) \<longleftrightarrow> (\<exists>n b' h'. after t n (b, h) = Some (b', h') \<and> t b' h' = Decided h2 r)"
proof
  assume "\<exists>n b' h'. after t n (b, h) = Some (b', h') \<and> t b' h' = Decided h2 r"
  then obtain n b' h' where n: "after t n (b, h) = Some (b', h')" "t b' h' = Decided h2 r" by blast
  from n(2) have "poll t b' h' = Some (h2, r)" by (rule poll_turn)
  with poll_after [OF n(1)] show "poll t b h = Some (h2, r)" by simp
qed (use poll_Some in fastforce)

lemma poll_stuck:
  assumes "\<And>b. \<exists>b'. t b h = Again b' h"
  shows "poll t b h = None"
proof (rule ccontr)
  assume "poll t b h \<noteq> None"
  then obtain n b' h' y where n: "after t n (b, h) = Some (b', h')" "t b' h' = Decided (fst y) (snd y)" using poll_Some by fastforce
  have "after t n (b, h) = Some (b', h') \<Longrightarrow> h' = h" for n b
  proof (induction n arbitrary: b)
    case (Suc n)
    obtain b2 where "t b h = Again b2 h" using assms by blast
    with Suc show ?case by simp
  qed simp
  then have "h' = h" using n(1) by blast
  with n(2) assms [of b'] show False by auto
qed

section \<open>The state directory\<close>

lemma files_differ [simp]:
  "fileKey \<noteq> filePublicKey" "fileKey \<noteq> fileRequest" "fileKey \<noteq> fileBundle" "filePublicKey \<noteq> fileRequest"
  "filePublicKey \<noteq> fileBundle" "fileRequest \<noteq> fileBundle"
  "filePublicKey \<noteq> fileKey" "fileRequest \<noteq> fileKey" "fileBundle \<noteq> fileKey" "fileRequest \<noteq> filePublicKey"
  "fileBundle \<noteq> filePublicKey" "fileBundle \<noteq> fileRequest"
  by (simp_all add: fileKey_def filePublicKey_def fileRequest_def fileBundle_def)

lemma tmp_differ [simp]:
  "f \<in> {fileKey, filePublicKey, fileRequest, fileBundle} \<Longrightarrow> g \<in> {fileKey, filePublicKey, fileRequest, fileBundle} \<Longrightarrow> f \<noteq> g @ ''.tmp''"
  by (auto simp: fileKey_def filePublicKey_def fileRequest_def fileBundle_def)

definition state_files :: "string set" where
  "state_files = {fileKey, filePublicKey, fileRequest, fileBundle}"

lemma write_state_files:
  assumes "write_state K f content dir = (dir', r)" and "f \<in> state_files" and "g \<in> state_files"
  shows "dir' g = (if g = f \<and> r = Inr () then Some content else dir g)"
proof -
  have "g \<noteq> f @ ''.tmp''" using assms(2,3) tmp_differ unfolding state_files_def by blast
  then show ?thesis using assms(1) by (auto simp: write_state_def Let_def split: option.splits if_splits)
qed

lemma load_rest_fields [simp]:
  "cst_PublicKeyPEM (load_rest W K pub priv dir) = pub" "cst_PrivateKeyPEM (load_rest W K pub priv dir) = priv"
  by (simp_all add: load_rest_def)

text \<open>
  An identity that was loaded once is the identity of every later start, whatever was written in
  between of requests and bundles; and the request and the bundle that were saved last are read back.
\<close>

lemma LoadState_again:
  assumes "LoadState W K drawn dir = (dir', Inr s)"
    and "dir2 fileKey = dir' fileKey" "dir2 filePublicKey = dir' filePublicKey"
  shows "LoadState W good_disk other dir2 =
    (dir2, Inr (load_rest W good_disk (cst_PublicKeyPEM s) (cst_PrivateKeyPEM s) dir2))"
proof -
  have "dir' fileKey = Some (cst_PrivateKeyPEM s) \<and> dir' filePublicKey = Some (cst_PublicKeyPEM s)"
  proof (cases "dir fileKey")
    case None
    then obtain pub priv dir1 where w: "write_state K fileKey priv dir = (dir1, Inr ())"
      "write_state K filePublicKey pub dir1 = (dir', Inr ())" "s = load_rest W K pub priv dir'"
      using assms(1) by (auto simp: LoadState_def split: if_splits option.splits prod.splits sum.splits)
    have "dir1 fileKey = Some priv" using write_state_files [OF w(1), of fileKey] by (simp add: state_files_def)
    then show ?thesis
      using write_state_files [OF w(2), of fileKey] write_state_files [OF w(2), of filePublicKey] w(3) by (simp add: state_files_def)
  next
    case (Some x)
    then show ?thesis
      using assms(1) by (auto simp: LoadState_def read_state_def split: if_splits option.splits)
  qed
  with assms(2,3) show ?thesis by (simp add: LoadState_def good_disk_def read_state_def)
qed

text \<open>
  The key is written before its public half and never looked at again: when the second of the two
  writes fails, or the machine stops between them, every later start fails, however good the disk is.
\<close>

theorem half_written_identity_is_stuck:
  assumes "dir fileKey = None" and "dir filePublicKey = None"
    and "LoadState W K drawn dir = (dir', Inl (NotWritten filePublicKey))"
  shows "LoadState W good_disk again dir' = (dir', Inl PublicKeyUnreadable)"
proof -
  obtain pub priv dir1 e where w: "write_state K fileKey priv dir = (dir1, Inr ())"
    "write_state K filePublicKey pub dir1 = (dir', Inl e)"
    using assms(1,3) by (auto simp: LoadState_def write_state_def Let_def split: if_splits option.splits prod.splits sum.splits)
  have "dir' fileKey = Some priv" "dir' filePublicKey = None"
    using write_state_files [OF w(1), of fileKey] write_state_files [OF w(1), of filePublicKey]
      write_state_files [OF w(2), of fileKey] write_state_files [OF w(2), of filePublicKey] assms(2)
    by (simp_all add: state_files_def)
  then show ?thesis by (simp add: LoadState_def good_disk_def read_state_def)
qed

section \<open>The request\<close>

text \<open>What the operating system gives as a mask: its length is that of the family, and the ones fit in.\<close>

fun ifaddr_ok :: "ifaddr \<Rightarrow> bool" where
  "ifaddr_ok OtherAddr = True"
| "ifaddr_ok (IPNet bytes ones bits) =
     (case AddrFromSlice bytes of None \<Rightarrow> True | Some a \<Rightarrow> bits = BitLen (Unmap a) \<and> ones \<le> bits)"

definition machine_ok :: "machine \<Rightarrow> bool" where
  "machine_ok m \<longleftrightarrow> (case mc_Interfaces m of
     None \<Rightarrow> True
   | Some ifaces \<Rightarrow> list_all (\<lambda>i. case if_Addrs i of None \<Rightarrow> True | Some addrs \<Rightarrow> list_all ifaddr_ok addrs) ifaces)"

lemma Masked_Masked: "Masked (Masked p) = Masked p" if "wf_prefix p"
  using that by (cases "paddr p") (simp_all add: Masked_def wf_prefix_def PrefixFrom_def and.assoc)

lemma AddrFromSlice_some: "AddrFromSlice bytes = Some a \<Longrightarrow> Unmap a \<noteq> AddrNone"
  by (cases a) (auto simp: AddrFromSlice_def split: if_splits)

lemma attached_prefix_wf:
  assumes "ifaddr_ok a" and "attached_prefix a = Some p"
  shows "\<exists>q. wf_prefix q \<and> p = Masked q \<and> 0 < pbits q \<and> pbits q < int (BitLen (paddr q))"
proof -
  obtain bytes ones bits addr where a: "a = IPNet bytes ones bits" "AddrFromSlice bytes = Some addr"
    "ones \<noteq> 0" "ones \<noteq> bits" "p = Masked (PrefixFrom (Unmap addr) (int ones))"
    using assms(2) by (auto simp: attached_prefix_def Let_def split: ifaddr.splits option.splits if_splits)
  with assms(1) have b: "bits = BitLen (Unmap addr)" "ones \<le> bits" by simp_all
  have "Unmap addr \<noteq> AddrNone" using AddrFromSlice_some [OF a(2)] .
  with a b show ?thesis by (intro exI [of _ "PrefixFrom (Unmap addr) (int ones)"]) (simp add: wf_PrefixFrom)
qed

lemma discovered_wf:
  assumes "machine_ok m" and "p \<in> set (DiscoverRoutes m)"
  shows "\<exists>q. wf_prefix q \<and> p = Masked q \<and> 0 < pbits q \<and> pbits q < int (BitLen (paddr q))"
proof -
  have "p \<in> set (attachedPrefixes m)" using assms(2) platformFilter_part unfolding DiscoverRoutes_def by blast
  then obtain ifaces i addrs a where i: "mc_Interfaces m = Some ifaces" "i \<in> set ifaces" "if_Addrs i = Some addrs" "a \<in> set addrs"
    "attached_prefix a = Some p" unfolding set_attached by blast
  then have "ifaddr_ok a" using assms(1) by (fastforce simp: machine_ok_def list_all_iff)
  then show ?thesis using attached_prefix_wf i(5) by blast
qed

lemma set_dedupe_loop: "set (dedupe_loop out ps) = set out \<union> Masked ` set ps"
  by (induction out ps rule: dedupe_loop.induct) (auto simp: add_new_def)

lemma distinct_dedupe_loop: "distinct out \<Longrightarrow> distinct (dedupe_loop out ps)"
  by (induction out ps rule: dedupe_loop.induct) (auto simp: add_new_def)

lemma dedupe_facts: "set (dedupe ps) = Masked ` set ps" "distinct (dedupe ps)" "sorted (map PrefixString (dedupe ps))"
  by (simp_all add: dedupe_def set_dedupe_loop distinct_dedupe_loop)

lemma announced_wf:
  assumes "machine_ok m" and "\<forall>p \<in> set (cc_Routes cfg). wf_prefix p" and "p \<in> set (announced_routes m cfg)"
  shows "\<exists>q. wf_prefix q \<and> p = Masked q"
proof -
  obtain q where q: "p = Masked q" "q \<in> set (cc_Routes cfg) \<or> q \<in> set (DiscoverRoutes m)"
    using assms(3) by (auto simp: announced_routes_def dedupe_facts split: if_splits)
  then consider "wf_prefix q" | r where "wf_prefix r" "q = Masked r" using assms(2) discovered_wf [OF assms(1)] by blast
  then show ?thesis using q(1) Masked_Masked Masked_wf by cases blast+
qed

lemma route_ok: "wf_prefix q \<Longrightarrow> route_error (Masked q) = None"
  using Masked_wf [of q] by (simp add: route_error_def Masked_Masked wf_prefix_valid)

lemma length_update_le: "length (AList.update k v l) \<le> Suc (length l)"
  by (induction l) auto

lemma length_put_hints: "length (fold (put_hint m) fs l) \<le> length fs + length l"
proof (induction fs arbitrary: l)
  case (Cons f fs)
  have "length (put_hint m f l) \<le> Suc (length l)" by (simp add: put_hint_def length_update_le)
  with Cons [of "put_hint m f l"] show ?case by simp
qed simp

lemma few_fields: "p \<in> set platforms \<Longrightarrow> length (pf_fields p) \<le> 4"
  by (auto simp: platforms_def simple_platform_def)

lemma few_hints: "length (items (DiscoverHints m)) \<le> 6"
proof -
  let ?l = "case mc_Hostname m of Some host \<Rightarrow> if host \<noteq> [] then [(''hostname'', host)] else [] | None \<Rightarrow> []"
  have l: "length (AList.update k v ?l) \<le> 2" for k v
    using length_update_le [of k v ?l] by (auto split: option.splits)
  show ?thesis
  proof (cases "detectPlatform m")
    case None
    then show ?thesis using l [of "''platform''" "''container''"]
      by (auto simp: DiscoverHints_def Let_def split: option.splits)
  next
    case (Some p)
    have "length (fold (put_hint m) (pf_fields p) (AList.update ''platform'' (pf_name p) ?l)) \<le> 6"
      using length_put_hints [of m "pf_fields p" "AList.update ''platform'' (pf_name p) ?l"]
        few_fields l [of "''platform''" "pf_name p"] detectPlatform_listed [OF Some] by fastforce
    with Some show ?thesis by (simp add: DiscoverHints_def Let_def)
  qed
qed

lemma railway_domain: "wf_domain ''railway.internal''"
  by code_simp

lemma zone_ok:
  assumes "check_domain U cfg0 = Inr cfg" and "announced_zone U m cfg \<noteq> []"
  shows "ParseDomain U (announced_zone U m cfg) = Inr (announced_zone U m cfg)"
proof -
  have "wf_domain (cc_Domain cfg)" if "cc_Domain cfg \<noteq> []"
    using assms(1) that domain_parser.parse_wf by (auto simp: check_domain_def split: if_splits sum.splits)
  then have "wf_domain (announced_zone U m cfg)"
    using assms(2) DiscoverDomain_zone [of U m] railway_domain
    by (auto simp: announced_zone_def announcedDomain_def wf_domain_def split: if_splits)
  then show ?thesis by (rule domain_parser.parse_fixes)
qed

text \<open>
  C26: what a connector asks is what the hub takes: when the routes it was given are prefixes and it
  announces no more than 64, its request passes the checks of the hub as it is, so the code it was
  authenticated with stands; a connector that knows the token and whose name is one the hub keeps is
  never refused as malformed or not authenticated.
\<close>

theorem connector_request_passes:
  assumes "check_domain U cfg0 = Inr cfg" and "machine_ok (cw_machine W)" and "\<forall>p \<in> set (cc_Routes cfg). wf_prefix p"
    and "length (announced_routes (cw_machine W) cfg) \<le> 64" and "TrimSpace U (cst_PublicKeyPEM s) \<noteq> []"
    and "cw_env W = V" and "env_unicode V = U" and "app_Kind who = KindConnector"
    and "cc_Name cfg = [] \<or> ParseMemberName U (cc_Name cfg) = Inr (cc_Name cfg)"
    and "reachable V h" and "Resolve U ref (hub_store h) = Ret i"
    and "app_MAC who = MAC (env_hmac V) U (enroll_request W cfg s) (inst_SharedToken i)"
  shows "Validate U (enroll_request W cfg s) = Inr (enroll_request W cfg s)
    \<and> snd (Enroll V io now nid ref (enroll_request W cfg s) who h) \<noteq> Fail BadAuthentication
    \<and> (\<forall>e. snd (Enroll V io now nid ref (enroll_request W cfg s) who h) \<noteq> Fail (BadRequest e))"
proof -
  let ?r = "enroll_request W cfg s" and ?m = "cw_machine W"
  have "first_error route_error (announced_routes ?m cfg) = None"
    using announced_wf [OF assms(2,3)] route_ok unfolding first_error_None by metis
  then have v: "Validate U ?r = Inr ?r"
    using assms(4,5,7) few_hints [of ?m] zone_ok [OF assms(1), of ?m]
    by (auto simp: Validate_def enroll_request_def assms(6) check_hints_def)
  have n: "name_request U who ?r = Some ?r"
    using assms(9) by (auto simp: name_request_def enroll_request_def)
  have st: "state_ok (st_state (hub_store h))" using reachable_inv [OF assms(10)] by (simp add: hub_inv_def store_inv_def)
  have g: "mget (instances (hub_store h)) (inst_ID i) = Some i" by (rule Resolve_stored [OF st]) (use assms(7,11) in simp)
  let ?c = "enroll_closure V now nid ?r who (fingerprintOf V (req_PublicKey ?r))"
  have "inst_SharedToken (ensureMaps i) = inst_SharedToken i" by (simp add: ensureMaps_def)
  then have ok: "VerifyMAC (env_hmac V) U ?r (inst_SharedToken (ensureMaps i)) (app_MAC who)"
    by (simp add: assms(12) VerifyMAC_iff MAC_def)
  then have c: "snd (?c (ensureMaps i)) \<noteq> Fail BadAuthentication \<and> (\<forall>e. snd (?c (ensureMaps i)) \<noteq> Fail (BadRequest e))"
    by (auto simp: enroll_closure_def assms(7) Let_def split: option.splits prod.splits if_splits)
  obtain j res where res: "?c (ensureMaps i) = (j, res)" by fastforce
  have "snd (on_store (Update io (inst_ID i) ?c) h) \<notin> {Fail BadAuthentication} \<union> range (\<lambda>e. Fail (BadRequest e))"
    using c Update_eq [where io = io and fn = ?c, OF g res] by (auto simp: on_store_snd res split: out.splits option.splits)
  moreover have "KindConnector \<noteq> KindTenant" by (simp add: KindConnector_def KindTenant_def)
  moreover have "Enroll V io now nid ref ?r who h = on_store (Update io (inst_ID i) ?c) h"
    using assms(7,8,11) v n \<open>KindConnector \<noteq> KindTenant\<close> by (simp add: Enroll_def owns_already_def)
  ultimately show ?thesis using v by auto
qed

section \<open>The hub at the other end\<close>

text \<open>
  The connection to a hub that is reached at \<open>url\<close> from the address \<open>remote\<close>: the request as the server of
  the hub sees it, and the answer as it is encoded.
\<close>

definition hub_call :: "string \<Rightarrow> string \<Rightarrow> string \<Rightarrow> (string \<times> string) list \<Rightarrow> string \<Rightarrow> call" where
  "hub_call remote method path headers body =
     \<lparr>cl_Request = \<lparr>hr_Host = [], hr_Method = method, hr_Path = path, hr_Query = None, hr_Header = headers, hr_RemoteAddr = remote\<rparr>,
      cl_EscapedPath = path, cl_Body = body, cl_Broken = False\<rparr>"

definition hub_http :: "world \<Rightarrow> draw \<Rightarrow> (payload \<Rightarrow> string) \<Rightarrow> string \<Rightarrow> string \<Rightarrow> Server http" where
  "hub_http X D enc remote url =
     \<lparr>ht_Do = (\<lambda>t method full headers body srv.
        if HasPrefix full url then
          (case serve X D (hub_call remote method (drop (length url) full) headers body) srv of
             (srv, None) \<Rightarrow> (srv, None)
           | (srv, Some (code, p)) \<Rightarrow> (srv, Some (code, enc p)))
        else (srv, None))\<rparr>"

text \<open>A reference that is one segment of a path as it is written.\<close>

definition segment :: "string \<Rightarrow> bool" where
  "segment s \<longleftrightarrow> s \<noteq> [] \<and> slash \<notin> set s \<and> CHR ''%'' \<notin> set s \<and> s \<noteq> ''.'' \<and> s \<noteq> ''..''"

lemma unescape_plain: "CHR ''%'' \<notin> set s \<Longrightarrow> unescape s = Some s"
  by (induction s) auto

lemma segment_unescape: "segment s \<Longrightarrow> pathUnescape s = s"
  by (simp add: segment_def pathUnescape_def unescape_plain)

lemma split_last: "c \<notin> set s \<Longrightarrow> split_on c s = [s]"
  unfolding split_on_def by (rule split_by_no) auto

lemma split_result_path:
  assumes "segment inst" and "segment rid"
  shows "split_on slash (''/v1/enroll/'' @ inst @ ''/'' @ rid) = [[], ''v1'', ''enroll'', inst, rid]"
proof -
  have p: "''/v1/enroll/'' @ inst @ ''/'' @ rid = [] @ slash # ''v1'' @ slash # ''enroll'' @ slash # inst @ slash # rid"
    by (simp add: slash_def)
  have q: "split_on slash rid = [rid]" using assms(2) by (simp add: segment_def split_last)
  have "split_on slash (inst @ slash # rid) = [inst, rid]" using assms(1) q by (simp add: segment_def split_on_append)
  then have "split_on slash (''enroll'' @ slash # inst @ slash # rid) = [''enroll'', inst, rid]"
    by (subst split_on_append) (simp_all add: slash_def)
  then have "split_on slash (''v1'' @ slash # ''enroll'' @ slash # inst @ slash # rid) = [''v1'', ''enroll'', inst, rid]"
    by (subst split_on_append) (simp_all add: slash_def)
  then show ?thesis unfolding p by (subst split_on_append) simp_all
qed

lemma serve_result:
  assumes "segment inst" and "segment rid"
  shows "serve X D (hub_call remote ''GET'' (''/v1/enroll/'' @ inst @ ''/'' @ rid) headers body) srv = handleResult X inst rid srv"
proof -
  let ?p = "''/v1/enroll/'' @ inst @ ''/'' @ rid"
  note split = split_result_path [OF assms, unfolded slash_def]
  have d: "inst \<noteq> []" "inst \<noteq> ''.''" "inst \<noteq> ''..''" "rid \<noteq> []" "rid \<noteq> ''.''" "rid \<noteq> ''..''"
    using assms by (auto simp: segment_def)
  have clean: "clean_path ?p" unfolding clean_path_def split using d by simp
  have segs: "map pathUnescape (tl (split_on (CHR ''/'') ?p)) = [''v1'', ''enroll'', inst, rid]"
    unfolding split using assms segment_unescape [of "''v1''"] segment_unescape [of "''enroll''"]
    by (simp add: segment_unescape segment_def [of "''v1''"] segment_def [of "''enroll''"] slash_def)
  show ?thesis
    unfolding serve_def hub_call_def call.simps http_request.simps segs Let_def
    using clean d by (simp add: path_routes_def handle_def)
qed

lemma HasPrefix_append [simp]: "HasPrefix (u @ p) u"
  by (simp add: HasPrefix_def)

text \<open>What the connector learns by asking for its result, over a line that works.\<close>

lemma result_of_hub:
  assumes "segment inst" and "segment rid" and "hc_base c = url"
    and "\<And>res. ResultOf (w_env X) inst rid (srv_Hub srv) = Ret res \<Longrightarrow> cj_Result (cw_json W) (enc (Answer res)) = Some res"
  shows "result W (hub_http X D enc remote url) c inst rid srv =
    (case ResultOf (w_env X) inst rid (srv_Hub srv) of
       Ret res \<Rightarrow> (srv, Inr res)
     | Fail _ \<Rightarrow> (srv, Inl (responseError W 404 (enc (Problem ''not_found'' (Says ''no such request'')))))
     | Panic \<Rightarrow> (srv, Inl Unreachable))"
  unfolding result_def hub_http_def http.simps assms(3)
  using serve_result [OF assms(1,2), of X D remote "[]" "[]" srv] assms(4)
  by (simp add: handleResult_def run_def writeJSON_def writeError_def split: out.splits)

section \<open>Decisions reach the connector\<close>

text \<open>A world in which nothing happens while the connector waits.\<close>

definition quiet :: "'h waiting" where "quiet d h = (h, True)"

text \<open>
  A connector that holds a request and no bundle asks for that request and submits no other.
\<close>

lemma Run_waiting:
  assumes "cc_HubURL cfg \<noteq> []" and "cc_Instance cfg \<noteq> []" and "check_domain (env_unicode (cw_env W)) cfg = Inr cfg'"
    and "LoadState W K drawn dir = (dir, Inr s)" and "cst_Bundle s = None" and "cst_RequestID s \<noteq> []"
    and "newHubClient W (cc_HubURL cfg) (cc_SharedToken cfg) (cc_Insecure cfg) (cc_Pin cfg) = Inr c"
  shows "Run W K net pass drawn stack cfg dir h =
    (case poll (ask_once W net pass c (cc_Instance cfg) (cst_RequestID s)) firstBackoff h of
       None \<Rightarrow> None
     | Some (h, Inl e) \<Rightarrow> Some (h, dir, Inl e)
     | Some (h, Inr bundle) \<Rightarrow>
         (case SaveBundle W K bundle s dir of
            (dir, s, Inl e) \<Rightarrow> Some (h, dir, Inl e)
          | (dir, s, Inr _) \<Rightarrow> Some (h, dir, connect W stack cfg' s bundle dir)))"
proof -
  have "cc_HubURL cfg' = cc_HubURL cfg \<and> cc_SharedToken cfg' = cc_SharedToken cfg \<and> cc_Insecure cfg' = cc_Insecure cfg
    \<and> cc_Pin cfg' = cc_Pin cfg \<and> cc_Instance cfg' = cc_Instance cfg"
    using assms(3) by (auto simp: check_domain_def split: if_splits sum.splits)
  then show ?thesis
    using assms by (simp add: Run_def waitForApproval_def split: option.splits prod.splits sum.splits)
qed

lemma newHubClient_base: "newHubClient W url token insecure hubPin = Inr c \<Longrightarrow> hc_base c = trim_right (\<lambda>c. c = slash) url"
  by (auto simp: newHubClient_def Let_def split: if_splits sum.splits)

text \<open>
  A rejected connector that is restarted does not ask again: it finds the request it holds, reads that
  it was rejected, and stops with nothing changed at the hub or in its directory. And one whose request
  was forgotten by the hub waits for it forever. In both cases the way back is to remove the file by hand.
\<close>

theorem restart_does_not_ask_again:
  assumes "cc_HubURL cfg \<noteq> []" and "check_domain (env_unicode (cw_env W)) cfg = Inr cfg'"
    and "LoadState W K drawn dir = (dir, Inr s)" and "cst_Bundle s = None"
    and "newHubClient W (cc_HubURL cfg) (cc_SharedToken cfg) (cc_Insecure cfg) (cc_Pin cfg) = Inr c"
    and "segment (cc_Instance cfg)" and "segment (cst_RequestID s)"
    and "\<And>res. ResultOf (w_env X) (cc_Instance cfg) (cst_RequestID s) (srv_Hub srv) = Ret res
      \<Longrightarrow> cj_Result (cw_json W) (enc (Answer res)) = Some res"
    and net: "net = hub_http X D enc remote (trim_right (\<lambda>c. c = slash) (cc_HubURL cfg))"
  shows "(\<forall>res. ResultOf (w_env X) (cc_Instance cfg) (cst_RequestID s) (srv_Hub srv) = Ret res \<longrightarrow> res_Status res = StatusRejected
      \<longrightarrow> Run W K net quiet drawn stack cfg dir srv = Some (srv, dir, Inl (EnrollmentRejected (res_Reason res))))
    \<and> (\<forall>e. ResultOf (w_env X) (cc_Instance cfg) (cst_RequestID s) (srv_Hub srv) = Fail e
      \<longrightarrow> Run W K net quiet drawn stack cfg dir srv = None)"
proof -
  have ne: "cc_Instance cfg \<noteq> []" "cst_RequestID s \<noteq> []" using assms(6,7) by (auto simp: segment_def)
  note run = Run_waiting [OF assms(1) ne(1) assms(2-4) ne(2) assms(5), of net quiet stack srv]
  have ask: "result W net c (cc_Instance cfg) (cst_RequestID s) srv =
    (case ResultOf (w_env X) (cc_Instance cfg) (cst_RequestID s) (srv_Hub srv) of
       Ret res \<Rightarrow> (srv, Inr res)
     | Fail _ \<Rightarrow> (srv, Inl (responseError W 404 (enc (Problem ''not_found'' (Says ''no such request'')))))
     | Panic \<Rightarrow> (srv, Inl Unreachable))"
    unfolding net by (rule result_of_hub [OF assms(6,7) newHubClient_base [OF assms(5)] assms(8)])
  let ?t = "ask_once W net quiet c (cc_Instance cfg) (cst_RequestID s)"
  have "Run W K net quiet drawn stack cfg dir srv = Some (srv, dir, Inl (EnrollmentRejected (res_Reason res)))"
    if "ResultOf (w_env X) (cc_Instance cfg) (cst_RequestID s) (srv_Hub srv) = Ret res" "res_Status res = StatusRejected" for res
  proof -
    have "?t firstBackoff srv = Decided srv (Inl (EnrollmentRejected (res_Reason res)))"
      unfolding ask_once_def ask using that by (simp add: StatusRejected_def StatusApproved_def refused_def quiet_def)
    from poll_turn(1) [of ?t, OF this] show ?thesis unfolding run by simp
  qed
  moreover have "Run W K net quiet drawn stack cfg dir srv = None"
    if "ResultOf (w_env X) (cc_Instance cfg) (cst_RequestID s) (srv_Hub srv) = Fail e" for e
  proof -
    have "\<exists>b'. ?t b srv = Again b' srv" for b
      unfolding ask_once_def ask using that by (simp add: wait_turn_def quiet_def)
    from poll_stuck [of ?t, OF this] show ?thesis unfolding run by simp
  qed
  ultimately show ?thesis by blast
qed

section \<open>Coming up\<close>

lemma nebulaConfig_Inr:
  "nebulaConfig N b key = Inr raw \<longleftrightarrow> IsValid (lh_OverlayAddress (bnd_Lighthouse b)) \<and> lh_Endpoints (bnd_Lighthouse b) \<noteq> []
    \<and> yaml_Marshal N (connector_tree b key) = Some raw"
  by (auto simp: nebulaConfig_def split: option.splits)

lemma blocklist_connector_tree: "tree_blocklist (connector_tree b key) = bnd_Blocked b"
  unfolding connector_tree_def by (rule blocklist_member_tree) simp

lemma connect_Inr:
  assumes "connect W stack cfg s bundle dir = Inr r"
  shows "nebulaConfig (env_nebula (cw_env W)) bundle (cst_PrivateKeyPEM s) = Inr (rn_raw r)"
    and "rn_state r = s" and "rn_dir r = dir"
    and "rn_mtu r = overlayMTU (env_unicode (cw_env W)) (cw_machine W) (bnd_MTU bundle) (cc_MTU cfg)"
    and "rn_self r = the_default [] (ownFingerprint (cw_cert W) (cst_Bundle s))"
  using assms by (auto simp: connect_def Let_def split: sum.splits if_splits)

lemma SaveBundle_Inr:
  assumes "SaveBundle W K b s dir = (dir', s', Inr u)"
  shows "s' = s\<lparr>cst_Bundle := Some b\<rparr>" and "\<exists>raw. cj_Bundle (cw_json W) b = Some raw \<and> dir' fileBundle = Some raw"
    and "g \<in> state_files \<Longrightarrow> g \<noteq> fileBundle \<Longrightarrow> dir' g = dir g"
proof -
  obtain raw where w: "cj_Bundle (cw_json W) b = Some raw" "write_state K fileBundle raw dir = (dir', Inr ())" "s' = s\<lparr>cst_Bundle := Some b\<rparr>"
    using assms by (auto simp: SaveBundle_def split: option.splits prod.splits sum.splits)
  then show "s' = s\<lparr>cst_Bundle := Some b\<rparr>" by simp
  show "\<exists>raw. cj_Bundle (cw_json W) b = Some raw \<and> dir' fileBundle = Some raw"
    using w(1) write_state_files [OF w(2), of fileBundle] by (simp add: state_files_def)
  show "g \<in> state_files \<Longrightarrow> g \<noteq> fileBundle \<Longrightarrow> dir' g = dir g"
    using write_state_files [OF w(2), of g] by (simp add: state_files_def)
qed

lemma SaveRequestID_files:
  assumes "SaveRequestID K rid s dir = (dir', s', r)"
  shows "s' = s\<lparr>cst_RequestID := rid\<rparr>" and "g \<in> state_files \<Longrightarrow> g \<noteq> fileRequest \<Longrightarrow> dir' g = dir g"
    and "r = Inr () \<Longrightarrow> dir' fileRequest = Some rid"
proof -
  obtain r' where w: "write_state K fileRequest rid dir = (dir', r')" "s' = s\<lparr>cst_RequestID := rid\<rparr>" "r' = r"
    using assms by (auto simp: SaveRequestID_def split: prod.splits)
  then show "s' = s\<lparr>cst_RequestID := rid\<rparr>" by simp
  show "g \<in> state_files \<Longrightarrow> g \<noteq> fileRequest \<Longrightarrow> dir' g = dir g"
    using write_state_files [OF w(1), of g] by (simp add: state_files_def)
  show "r = Inr () \<Longrightarrow> dir' fileRequest = Some rid"
    using write_state_files [OF w(1), of fileRequest] w(3) by (simp add: state_files_def)
qed

text \<open>What a wait leaves behind: the keys as they were, and the request it waited for on record.\<close>

lemma waitForApproval_state:
  assumes "waitForApproval W K net pass c inst req s dir h = Some (h', dir', s', Inr b)"
  shows "cst_PublicKeyPEM s' = cst_PublicKeyPEM s \<and> cst_PrivateKeyPEM s' = cst_PrivateKeyPEM s
    \<and> dir' fileKey = dir fileKey \<and> dir' filePublicKey = dir filePublicKey
    \<and> (cst_RequestID s \<noteq> [] \<and> s' = s \<and> dir' = dir \<or> cst_RequestID s = [] \<and> dir' fileRequest = Some (cst_RequestID s'))"
proof (cases "cst_RequestID s = []")
  case True
  then obtain rid h1 h2 where sv: "submit W net c inst req h = (h1, Inr rid)" "SaveRequestID K rid s dir = (dir', s', Inr h2)"
    using assms by (auto simp: waitForApproval_def Let_def refused_def split: prod.splits sum.splits)
  note f = SaveRequestID_files [OF sv(2)]
  show ?thesis using True f(1,3) f(2) [of fileKey] f(2) [of filePublicKey] by (simp add: state_files_def)
next
  case False
  then show ?thesis using assms by (auto simp: waitForApproval_def)
qed

lemma LoadState_rest:
  "LoadState W K drawn dir = (dir', Inr s) \<Longrightarrow> s = load_rest W K (cst_PublicKeyPEM s) (cst_PrivateKeyPEM s) dir'"
  by (auto simp: LoadState_def split: if_splits option.splits prod.splits sum.splits)

lemma load_rest_good: "(\<And>f. dk_Readable K f) \<Longrightarrow> load_rest W K pub priv dir = load_rest W good_disk pub priv dir"
  by (simp add: load_rest_def read_state_def good_disk_def)

lemma connect_again:
  assumes "connect W stack cfg s bundle dir = Inr r" and "cst_PrivateKeyPEM s' = cst_PrivateKeyPEM s"
  shows "\<exists>r'. connect W True cfg s' bundle dir' = Inr r' \<and> rn_raw r' = rn_raw r \<and> rn_mtu r' = rn_mtu r \<and> rn_state r' = s'"
  using assms by (auto simp: connect_def Let_def split: sum.splits if_splits)

text \<open>The two ways a run comes up, from the bundle it held or from the one it was granted.\<close>

lemma Run_up:
  assumes "Run W K net pass drawn stack cfg dir h = Some (h', dir', Inr r)"
  obtains (held) cfg' s grant where "check_domain (env_unicode (cw_env W)) cfg = Inr cfg'" "LoadState W K drawn dir = (dir', Inr s)"
      "cst_Bundle s = Some grant" "connect W stack cfg' s grant dir' = Inr r"
  | (granted) cfg' c dir1 dir2 s s2 s3 grant where "check_domain (env_unicode (cw_env W)) cfg = Inr cfg'"
      "LoadState W K drawn dir = (dir1, Inr s)" "cst_Bundle s = None"
      "waitForApproval W K net pass c (cc_Instance cfg') (enroll_request W cfg' s) s dir1 h = Some (h', dir2, s2, Inr grant)"
      "SaveBundle W K grant s2 dir2 = (dir', s3, Inr ())" "connect W stack cfg' s3 grant dir' = Inr r"
  using assms by (auto simp: Run_def split: if_splits sum.splits prod.splits option.splits)

text \<open>
  C21: a connector that has come up comes up again from its directory alone, with the same keys, the same
  certificate and the same blocklist, whatever the hub or the network does.
\<close>

theorem restart_needs_no_hub:
  assumes "Run W K net pass drawn stack cfg dir h = Some (h', dir', Inr r)" and "\<And>f. dk_Readable K f"
    and "\<And>b raw. cj_Bundle (cw_json W) b = Some raw \<Longrightarrow> cj_readBundle (cw_json W) raw = Some b"
  shows "\<exists>r'. Run W good_disk net' pass' drawn' True cfg dir' h2 = Some (h2, dir', Inr r') \<and> rn_raw r' = rn_raw r
    \<and> rn_mtu r' = rn_mtu r \<and> rn_state r' = rn_state r"
proof -
  have goal: ?thesis if cfg: "check_domain (env_unicode (cw_env W)) cfg = Inr cfg'"
    and load: "LoadState W good_disk drawn' dir' = (dir', Inr (rn_state r))" and "cst_Bundle (rn_state r) = Some grant"
    and up: "connect W stack cfg' (rn_state r) grant dir' = Inr r" for cfg' grant
  proof -
    from connect_again [OF up refl] obtain r' where "connect W True cfg' (rn_state r) grant dir' = Inr r'" "rn_raw r' = rn_raw r"
      "rn_mtu r' = rn_mtu r" "rn_state r' = rn_state r" by blast
    moreover have "cc_HubURL cfg \<noteq> []" "cc_Instance cfg \<noteq> []" using assms(1) by (auto simp: Run_def split: if_splits)
    ultimately show ?thesis using that by (simp add: Run_def)
  qed
  from assms(1) show ?thesis
  proof (cases rule: Run_up)
    case (held cfg' s grant)
    have "LoadState W good_disk drawn' dir' = (dir', Inr s)"
      using LoadState_again [OF held(2) refl refl, of drawn'] LoadState_rest [OF held(2)] load_rest_good [of K, OF assms(2)] by metis
    with held goal [of cfg' grant] connect_Inr(2) [OF held(4)] show ?thesis by simp
  next
    case (granted cfg' c dir1 dir2 s s2 s3 grant)
    note w = waitForApproval_state [OF granted(4)] and b = SaveBundle_Inr [OF granted(5)]
    have keys: "dir' fileKey = dir1 fileKey" "dir' filePublicKey = dir1 filePublicKey" "dir' fileRequest = dir2 fileRequest"
      using w b(3) [of fileKey] b(3) [of filePublicKey] b(3) [of fileRequest] by (simp_all add: state_files_def)
    have rq: "cst_RequestID s = the_default [] (dir1 fileRequest)"
      using LoadState_rest [OF granted(2)] assms(2) by (metis load_rest_def read_state_def cstate.select_convs(3))
    obtain raw where raw: "cj_Bundle (cw_json W) grant = Some raw" "dir' fileBundle = Some raw" using b(2) by blast
    have "load_rest W good_disk (cst_PublicKeyPEM s) (cst_PrivateKeyPEM s) dir' = s3"
      using w b(1) keys rq raw(2) assms(3) [OF raw(1)] by (auto simp: load_rest_def read_state_def good_disk_def)
    then have "LoadState W good_disk drawn' dir' = (dir', Inr s3)"
      using LoadState_again [OF granted(2) keys(1,2), of drawn'] by simp
    moreover have "rn_state r = s3" "cst_Bundle s3 = Some grant" using connect_Inr(2) [OF granted(6)] b(1) by simp_all
    ultimately show ?thesis using goal [of cfg' grant] granted(1,6) by simp
  qed
qed

section \<open>Bans\<close>

text \<open>
  The blocklist a running connector's nebula holds, and the invariant of the watch: nebula runs on the
  configuration of the bundle the connector holds.
\<close>

definition in_force :: "cworld \<Rightarrow> running \<Rightarrow> string list option" where
  "in_force W r = map_option tree_blocklist (yaml_Unmarshal (env_nebula (cw_env W)) (rn_raw r))"

definition settled :: "cworld \<Rightarrow> running \<Rightarrow> bool" where
  "settled W r \<longleftrightarrow> (\<exists>held. cst_Bundle (rn_state r) = Some held
     \<and> nebulaConfig (env_nebula (cw_env W)) held (cst_PrivateKeyPEM (rn_state r)) = Inr (rn_raw r))"

text \<open>Whether nebula renders and takes the configuration of a bundle.\<close>

definition takes :: "cworld \<Rightarrow> running \<Rightarrow> Bundle \<Rightarrow> bool" where
  "takes W r b \<longleftrightarrow> (\<exists>raw. nebulaConfig (env_nebula (cw_env W)) b (cst_PrivateKeyPEM (rn_state r)) = Inr raw
     \<and> neb_ReloadConfigString (env_nebula (cw_env W)) (rn_raw r) raw)"

lemma connect_settled: "connect W stack cfg s b dir = Inr r \<Longrightarrow> cst_Bundle s = Some b \<Longrightarrow> settled W r"
  using connect_Inr [of W stack cfg s b dir r] by (simp add: settled_def)

lemma SaveBundle_key: "SaveBundle W K b s dir = (dir', s', x) \<Longrightarrow> cst_PrivateKeyPEM s' = cst_PrivateKeyPEM s \<and> cst_RequestID s' = cst_RequestID s"
  by (auto simp: SaveBundle_def split: option.splits prod.splits sum.splits)

lemma apply_settled:
  assumes "settled W r" and "cst_Bundle (rn_state r) = Some held"
  shows "settled W (apply_blocklist W K held b r) \<and> rn_self (apply_blocklist W K held b r) = rn_self r
    \<and> cst_RequestID (rn_state (apply_blocklist W K held b r)) = cst_RequestID (rn_state r)"
  using assms SaveBundle_key
  by (auto simp: apply_blocklist_def Let_def settled_def split: sum.splits prod.splits)

lemma tick_settled:
  assumes "settled W r"
  shows "settled W (snd (watch_tick W K net c inst r h)) \<and> rn_self (snd (watch_tick W K net c inst r h)) = rn_self r
    \<and> cst_RequestID (rn_state (snd (watch_tick W K net c inst r h))) = cst_RequestID (rn_state r)"
proof -
  have "settled W (r\<lparr>rn_banned := x\<rparr>)" for x using assms by (simp add: settled_def)
  then show ?thesis
    using assms apply_settled [of W "r\<lparr>rn_banned := _\<rparr>" _ K]
    by (auto simp: watch_tick_def split: prod.splits sum.splits option.splits)
qed

lemma loop_settled:
  "settled W r \<Longrightarrow> settled W (snd (watch_loop W K net c inst ticks r h))
     \<and> cst_RequestID (rn_state (snd (watch_loop W K net c inst ticks r h))) = cst_RequestID (rn_state r)
     \<and> rn_self (snd (watch_loop W K net c inst ticks r h)) = rn_self r"
proof (induction ticks arbitrary: r h)
  case (Cons t ticks)
  obtain h1 r1 where t: "watch_tick W K net c inst r (t h) = (h1, r1)" by fastforce
  then show ?case using tick_settled [OF Cons.prems, of K net c inst "t h"] Cons.IH [of r1 h1] by simp
qed simp

lemma tick_enforces:
  assumes "settled W r" and "cst_Bundle (rn_state r) = Some held" and "yaml_roundtrip (env_nebula (cw_env W))"
    and "result W net c inst (cst_RequestID (rn_state r)) h = (h', Inr res)" and "res_Bundle res = Some b"
    and "takes W r (held\<lparr>bnd_Blocked := without (bnd_Blocked b) (rn_self r)\<rparr>)"
  shows "in_force W (snd (watch_tick W K net c inst r h)) = Some (without (bnd_Blocked b) (rn_self r))"
proof -
  let ?N = "env_nebula (cw_env W)" and ?fresh = "without (bnd_Blocked b) (rn_self r)"
  have u: "yaml_Unmarshal ?N raw = Some (connector_tree x (cst_PrivateKeyPEM (rn_state r)))"
    if "nebulaConfig ?N x (cst_PrivateKeyPEM (rn_state r)) = Inr raw" for x raw
    using that assms(3) by (simp add: nebulaConfig_Inr yaml_roundtrip_def)
  obtain raw where raw: "nebulaConfig ?N (held\<lparr>bnd_Blocked := ?fresh\<rparr>) (cst_PrivateKeyPEM (rn_state r)) = Inr raw"
    "neb_ReloadConfigString ?N (rn_raw r) raw" using assms(6) by (auto simp: takes_def)
  have held: "nebulaConfig ?N held (cst_PrivateKeyPEM (rn_state r)) = Inr (rn_raw r)" using assms(1,2) by (simp add: settled_def)
  define r1 where "r1 = r\<lparr>rn_banned := rn_self r \<noteq> [] \<and> rn_self r \<in> set (bnd_Blocked b)\<rparr>"
  have r1: "rn_raw r1 = rn_raw r" "rn_self r1 = rn_self r" "rn_state r1 = rn_state r" "rn_dir r1 = rn_dir r" by (simp_all add: r1_def)
  have "yaml_Unmarshal ?N (rn_raw (apply_blocklist W K held b r1)) = Some (connector_tree (held\<lparr>bnd_Blocked := ?fresh\<rparr>) (cst_PrivateKeyPEM (rn_state r)))"
  proof (cases "?fresh = bnd_Blocked held")
    case True
    then have "held\<lparr>bnd_Blocked := ?fresh\<rparr> = held" by simp
    then show ?thesis using True u [OF held] by (simp add: apply_blocklist_def Let_def r1)
  next
    case False
    then show ?thesis using raw u [OF raw(1)] by (simp add: apply_blocklist_def Let_def r1 split: prod.split)
  qed
  then show ?thesis
    using assms(2,4,5) by (simp add: watch_tick_def in_force_def blocklist_connector_tree r1_def)
qed

lemma without_iff: "x \<in> set (without l y) \<longleftrightarrow> x \<in> set l \<and> (x \<noteq> y \<or> y = [])"
  by (auto simp: without_def)

lemma ban_stored:
  assumes "reachable V h" and "yaml_roundtrip (env_nebula V)" and "Ban V io now iid ref note h = (h', Ret ())"
  shows "reachable V h' \<and> (\<exists>j fp m. mget (instances (hub_store h')) iid = Some j \<and> mget (inst_Members j) fp = Some m \<and> Banned m
    \<and> (HasPrefix fp ref \<or> mem_Name m = ref) \<and> (mem_CertFingerprint m \<noteq> [] \<longrightarrow> mem_CertFingerprint m \<in> set (blockedIn j)))"
proof -
  obtain i j where i: "mget (instances (hub_store h)) iid = Some i" and f: "ban_closure now ref note (ensureMaps i) = (j, Ret ())"
    and j: "mget (instances (hub_store h')) iid = Some j" and ok: "inst_ok i"
    using event_blocklist [OF reachable_inv [OF assms(1)] assms(3) [unfolded Ban_def] assms(2)] ban_safe
    unfolding safe_closure_def by metis
  have oke: "inst_ok (ensureMaps i)" by (rule similar_ok [OF similar_ensure ok])
  then have wf: "wf_map (inst_Members (ensureMaps i))" by (simp add: inst_ok_def members_ok_def)
  obtain fp m where m: "memberIn (ensureMaps i) ref = Inr (fp, m)" "mget (inst_Members (ensureMaps i)) fp = Some m"
    and jm: "j = (ensureMaps i)\<lparr>inst_Members := madjust fp (add_event EventBan note now) (inst_Members (ensureMaps i))\<rparr>"
    using ban_closure_Ret [OF f wf] by metis
  have "inst_ok j" using ban_safe oke f unfolding safe_closure_def by (metis fst_conv writable_ensure)
  then have wfj: "wf_map (inst_Members j)" by (simp add: inst_ok_def members_ok_def)
  have get: "mget (inst_Members j) fp = Some (add_event EventBan note now m)" using m(2) by (simp add: jm mget_adjust)
  then have "mem_CertFingerprint m \<noteq> [] \<longrightarrow> mem_CertFingerprint m \<in> set (blockedIn j)"
    unfolding set_blockedIn [OF wfj] by (metis Banned_event add_event_name(3))
  moreover have "reachable V h'" using reachable_steps [OF simple_steps(3) assms(1)] assms(3) by (metis fst_conv)
  ultimately show ?thesis using get j memberIn_get(2) [OF wf m(1)] by (metis Banned_event add_event_name(1,3))
qed

lemma tick_over_hub:
  assumes "settled W r" and "cst_Bundle (rn_state r) = Some held" and "yaml_roundtrip (env_nebula (cw_env W))"
    and seg: "segment inst" "segment (cst_RequestID (rn_state r))"
    and res: "Resolve (env_unicode (w_env X)) inst (hub_store (srv_Hub srv)) = Ret j"
    and req: "mget (inst_Requests j) (cst_RequestID (rn_state r)) = Some req" "rec_Status req = StatusApproved" "rec_Bundle req = Some got"
    and takes: "takes W r (held\<lparr>bnd_Blocked := without (blockedIn j) (rn_self r)\<rparr>)"
    and json: "\<And>res. ResultOf (w_env X) inst (cst_RequestID (rn_state r)) (srv_Hub srv) = Ret res
      \<Longrightarrow> cj_Result (cw_json W) (enc (Answer res)) = Some res"
  shows "in_force W (snd (watch_tick W K (hub_http X D enc remote (hc_base c)) c inst r srv)) = Some (without (blockedIn j) (rn_self r))"
proof -
  obtain a where a: "ResultOf (w_env X) inst (cst_RequestID (rn_state r)) (srv_Hub srv) = Ret a"
    "res_Bundle a = Some (got\<lparr>bnd_Blocked := blockedIn j\<rparr>)"
    using res req by (simp add: ResultOf_def withBlocklist_def)
  have "result W (hub_http X D enc remote (hc_base c)) c inst (cst_RequestID (rn_state r)) srv = (srv, Inr a)"
    using result_of_hub [where D = D and remote = remote and X = X and srv = srv, OF seg refl json] a(1) by simp
  from tick_enforces [OF assms(1-3) this a(2)] takes show ?thesis by simp
qed

lemma reload_blocklist:
  assumes "reload_runner N conn table local rs = (rs', Inr ())" and "runner_isRunning (con_InstanceID conn) rs" and "yaml_roundtrip N"
  shows "\<exists>raw t. loaded (con_InstanceID conn) rs' = Some raw \<and> yaml_Unmarshal N raw = Some t \<and> tree_blocklist t = rtab_Blocked table"
proof -
  obtain r raw where raw: "renderConfig N conn table local = Inr raw"
    and rs': "rs' = AList.update (con_InstanceID conn) (r\<lparr>run_raw := raw\<rparr>) rs"
    using assms(1,2) by (auto simp: reload_runner_def runner_isRunning_def split: option.splits sum.splits if_splits)
  have "yaml_Unmarshal N raw = Some (tenant_tree conn table local)"
    using raw assms(3) by (simp add: renderConfig_Inr yaml_roundtrip_def)
  then show ?thesis by (simp add: loaded_def rs' update_conv' blocklist_tenant_tree)
qed

text \<open>
  C5: a ban reaches every end. Once the hub has recorded it, a member of the instance it was spoken in is
  banned, and if it holds a certificate then every connector of that instance, other than the banned one
  itself, refuses it from its next look at the blocklist on, and every tenant from its next reload with the
  routes the hub hands out, provided their nebula takes the new configuration.
\<close>

theorem ban_reaches_every_end:
  assumes "reachable V h" and "yaml_roundtrip (env_nebula V)" and "Ban V io now iid ref note h = (h', Ret ())"
    and "srv_Hub srv = h'" and "w_env X = V" and "yaml_roundtrip (env_nebula (cw_env W))"
    and "\<forall>inst rid res. ResultOf V inst rid h' = Ret res \<longrightarrow> cj_Result (cw_json W) (enc (Answer res)) = Some res"
  shows "\<exists>j fp m. mget (instances (hub_store h')) iid = Some j \<and> mget (inst_Members j) fp = Some m \<and> Banned m
    \<and> (HasPrefix fp ref \<or> mem_Name m = ref)
    \<and> (mem_CertFingerprint m \<noteq> [] \<longrightarrow>
        (\<forall>r held req got c inst K D remote. settled W r \<longrightarrow> cst_Bundle (rn_state r) = Some held
          \<longrightarrow> segment inst \<longrightarrow> segment (cst_RequestID (rn_state r)) \<longrightarrow> Resolve (env_unicode V) inst (hub_store h') = Ret j
          \<longrightarrow> mget (inst_Requests j) (cst_RequestID (rn_state r)) = Some req
          \<longrightarrow> rec_Status req = StatusApproved \<longrightarrow> rec_Bundle req = Some got
          \<longrightarrow> takes W r (held\<lparr>bnd_Blocked := without (blockedIn j) (rn_self r)\<rparr>) \<longrightarrow> rn_self r \<noteq> mem_CertFingerprint m
          \<longrightarrow> (\<exists>l. in_force W (snd (watch_tick W K (hub_http X D enc remote (hc_base c)) c inst r srv)) = Some l
                 \<and> mem_CertFingerprint m \<in> set l))
        \<and> (\<forall>N conn local rs rs'. yaml_roundtrip N \<longrightarrow> reload_runner N conn (RouteTableOf (hub_cfg h') j) local rs = (rs', Inr ())
          \<longrightarrow> runner_isRunning (con_InstanceID conn) rs
          \<longrightarrow> (\<exists>raw t. loaded (con_InstanceID conn) rs' = Some raw \<and> yaml_Unmarshal N raw = Some t
                 \<and> mem_CertFingerprint m \<in> set (tree_blocklist t))))"
proof -
  obtain j fp m where m: "mget (instances (hub_store h')) iid = Some j" "mget (inst_Members j) fp = Some m" "Banned m"
    "HasPrefix fp ref \<or> mem_Name m = ref" "mem_CertFingerprint m \<noteq> [] \<longrightarrow> mem_CertFingerprint m \<in> set (blockedIn j)"
    using ban_stored [OF assms(1-3)] by blast
  have tick: "\<exists>l. in_force W (snd (watch_tick W K (hub_http X D enc remote (hc_base c)) c inst r srv)) = Some l
      \<and> mem_CertFingerprint m \<in> set l"
    if "mem_CertFingerprint m \<noteq> []" "rn_self r \<noteq> mem_CertFingerprint m" and "settled W r" "cst_Bundle (rn_state r) = Some held"
      "segment inst" "segment (cst_RequestID (rn_state r))" "Resolve (env_unicode V) inst (hub_store h') = Ret j"
      "mget (inst_Requests j) (cst_RequestID (rn_state r)) = Some req" "rec_Status req = StatusApproved" "rec_Bundle req = Some got"
      "takes W r (held\<lparr>bnd_Blocked := without (blockedIn j) (rn_self r)\<rparr>)" for r held req got c inst K D remote
    using tick_over_hub [of W r held inst X srv j req got enc K D remote c] that m(5) assms(2,4-7) by (simp add: without_iff)
  have tenant: "\<exists>raw t. loaded (con_InstanceID conn) rs' = Some raw \<and> yaml_Unmarshal N raw = Some t
      \<and> mem_CertFingerprint m \<in> set (tree_blocklist t)"
    if "mem_CertFingerprint m \<noteq> []" "yaml_roundtrip N" "reload_runner N conn (RouteTableOf (hub_cfg h') j) local rs = (rs', Inr ())"
      "runner_isRunning (con_InstanceID conn) rs" for N conn local rs rs'
    using reload_blocklist [OF that(3,4,2)] m(5) that(1) by (auto simp: RouteTableOf_def)
  show ?thesis using m(1-4) tick tenant by (intro exI [of _ j] exI [of _ fp] exI [of _ m] conjI) blast+
qed

section \<open>An example\<close>

text \<open>
  A connector with one route on a machine with one interface, whose nebula knows two configurations,
  with an empty blocklist and with one certificate on it, and whose reader knows one answer of the hub.
\<close>

definition granted_bundle :: Bundle where
  "granted_bundle = example_bundle\<lparr>bnd_Lighthouse := \<lparr>lh_OverlayAddress = Addr4 0xC6130001, lh_OverlayAddress6 = AddrNone,
     lh_Endpoints = [''hub:4242''], lh_Relay = False\<rparr>\<rparr>"

definition connector_env :: env where
  "connector_env = example_env\<lparr>env_nebula := two_trees (connector_tree granted_bundle ''k'')
     (connector_tree (granted_bundle\<lparr>bnd_Blocked := [''c1'']\<rparr>) ''k'')\<rparr>"

definition example_machine :: machine where
  "example_machine = \<lparr>mc_Getenv = (\<lambda>_. []), mc_Hostname = None, mc_Dockerenv = True, mc_NetRoute = None,
     mc_Interfaces = Some [\<lparr>if_Name = ''eth0'', if_Up = True, if_Loopback = False, if_MTU = 1500, if_Addrs = Some []\<rparr>],
     mc_InterfaceByName = (\<lambda>_. None)\<rparr>"

definition example_cworld :: "Result \<Rightarrow> cworld" where
  "example_cworld res = \<lparr>cw_env = connector_env, cw_crypto = example_crypto, cw_x509 = (\<lambda>_. None), cw_cert = example_certlib,
     cw_json = \<lparr>cj_Request = (\<lambda>_. Some ''Q''), cj_ID = (\<lambda>_. Some ''r1''), cj_Result = (\<lambda>_. Some res), cj_Error = (\<lambda>_. None),
       cj_Bundle = (\<lambda>b. if b = granted_bundle then Some ''B'' else None),
       cj_readBundle = (\<lambda>s. if s = ''B'' then Some granted_bundle else None)\<rparr>,
     cw_machine = example_machine\<rparr>"

definition example_cconfig :: CConfig where
  "example_cconfig = \<lparr>cc_HubURL = ''https://hub:8443'', cc_Instance = example_id, cc_SharedToken = [], cc_Name = [],
     cc_Routes = [Prefix (Addr4 0x0A000000) 8], cc_Domain = [], cc_DisableAutodiscover = False, cc_MTU = 0, cc_Insecure = False,
     cc_Pin = [], cc_DNS = True\<rparr>"

definition example_directory :: directory where
  "example_directory = [fileKey \<mapsto> ''k'', filePublicKey \<mapsto> ''p'', fileRequest \<mapsto> ''r1'']"

definition example_state :: cstate where
  "example_state = \<lparr>cst_PublicKeyPEM = ''p'', cst_PrivateKeyPEM = ''k'', cst_RequestID = ''r1'', cst_Bundle = None\<rparr>"

definition example_net :: "'h \<Rightarrow> 'h http" where
  "example_net x = \<lparr>ht_Do = (\<lambda>_ _ _ _ _ h. (h, Some (200, ''A'')))\<rparr>"

lemmas connector_example = granted_bundle_def connector_env_def example_machine_def example_cworld_def example_cconfig_def
  example_directory_def example_state_def example_net_def

lemma example_loaded: "LoadState (example_cworld res) good_disk drawn example_directory = (example_directory, Inr example_state)"
  by (simp add: LoadState_def good_disk_def read_state_def load_rest_def example_directory_def example_state_def)

lemma example_segments: "segment example_id" "segment ''r1''"
  by (simp_all add: segment_def slash_def)

lemma example_domain: "check_domain U example_cconfig = Inr example_cconfig"
  by (simp add: check_domain_def example_cconfig_def)

definition rejected_hub :: Hub where
  "rejected_hub = hub_of (inst_enrolled\<lparr>inst_Requests := Some [(''r1'', record_pending\<lparr>rec_Status := StatusRejected, rec_Reason := ''who?''\<rparr>)]\<rparr>) lhs_open"

definition rejected_answer :: Result where
  "rejected_answer = \<lparr>res_Status = StatusRejected, res_RetryAfter = 30, res_Bundle = None, res_Reason = ''who?''\<rparr>"

theorem half_written_identity_is_stuck_witness:
  "LoadState (example_cworld rejected_answer) good_disk None
     (fst (LoadState (example_cworld rejected_answer) (good_disk\<lparr>dk_Rename := (\<lambda>f. f = fileKey)\<rparr>) (Some (''p'', ''k'')) (\<lambda>_. None)))
   = (fst (LoadState (example_cworld rejected_answer) (good_disk\<lparr>dk_Rename := (\<lambda>f. f = fileKey)\<rparr>) (Some (''p'', ''k'')) (\<lambda>_. None)),
      Inl PublicKeyUnreadable)"
proof -
  let ?K = "good_disk\<lparr>dk_Rename := (\<lambda>f. f = fileKey)\<rparr>"
  obtain dir' where d: "LoadState (example_cworld rejected_answer) ?K (Some (''p'', ''k'')) (\<lambda>_. None) = (dir', Inl (NotWritten filePublicKey))"
    by (simp add: LoadState_def GenerateHostKey_def good_disk_def write_state_def Let_def)
  from half_written_identity_is_stuck [OF _ _ this] show ?thesis by (simp add: d)
qed

lemma rejected_result: "ResultOf example_env example_id ''r1'' rejected_hub = Ret rejected_answer"
proof -
  let ?i = "inst_enrolled\<lparr>inst_Requests := Some [(''r1'', record_pending\<lparr>rec_Status := StatusRejected, rec_Reason := ''who?''\<rparr>)]\<rparr>"
  have "Resolve (env_unicode example_env) example_id (hub_store rejected_hub) = Ret ?i"
    by (simp add: Resolve_def rejected_hub_def)
  then show ?thesis
    by (simp add: ResultOf_def mget_def rejected_answer_def StatusRejected_def StatusApproved_def record_pending_def)
qed

theorem restart_does_not_ask_again_witness:
  "\<exists>net. Run (example_cworld rejected_answer) good_disk net quiet None True example_cconfig example_directory (start_server rejected_hub)
     = Some (start_server rejected_hub, example_directory, Inl (EnrollmentRejected ''who?''))"
proof -
  let ?W = "example_cworld rejected_answer" and ?c = "\<lparr>hc_base = ''https://hub:8443'', hc_token = [], hc_tls = SystemRoots\<rparr>"
  have c: "newHubClient ?W (cc_HubURL example_cconfig) (cc_SharedToken example_cconfig) (cc_Insecure example_cconfig) (cc_Pin example_cconfig) = Inr ?c"
    by (simp add: newHubClient_def example_cconfig_def trim_right_def slash_def)
  have url: "cc_HubURL example_cconfig \<noteq> []" by (simp add: example_cconfig_def)
  have b: "cst_Bundle example_state = None" by (simp add: example_state_def)
  have seg: "segment (cc_Instance example_cconfig)" "segment (cst_RequestID example_state)"
    using example_segments by (simp_all add: example_cconfig_def example_state_def)
  have r: "ResultOf (w_env example_world) (cc_Instance example_cconfig) (cst_RequestID example_state) (srv_Hub (start_server rejected_hub))
      = Ret rejected_answer"
    using rejected_result by (simp add: example_world_def example_cconfig_def example_state_def start_server_def)
  have j: "cj_Result (cw_json ?W) ((\<lambda>_. ''A'') (Answer res)) = Some res"
    if "ResultOf (w_env example_world) (cc_Instance example_cconfig) (cst_RequestID example_state) (srv_Hub (start_server rejected_hub)) = Ret res" for res
    using that r by (simp add: example_cworld_def)
  have s: "res_Status rejected_answer = StatusRejected" "res_Reason rejected_answer = ''who?''" by (simp_all add: rejected_answer_def)
  define net where "net = hub_http example_world example_draw (\<lambda>_. ''A'') ''192.0.2.7:9'' (trim_right (\<lambda>c. c = slash) (cc_HubURL example_cconfig))"
  note t = restart_does_not_ask_again [where X = example_world and srv = "start_server rejected_hub" and enc = "\<lambda>_. ''A''",
      OF url example_domain example_loaded b c seg _ net_def, of None True]
  have "Run ?W good_disk net quiet None True example_cconfig example_directory (start_server rejected_hub)
      = Some (start_server rejected_hub, example_directory, Inl (EnrollmentRejected (res_Reason rejected_answer)))"
    by (rule t [THEN conjunct1, rule_format]) (use j r s(1) in simp_all)
  with s(2) show ?thesis by auto
qed

definition granting_answer :: Result where
  "granting_answer = \<lparr>res_Status = StatusApproved, res_RetryAfter = 0, res_Bundle = Some granted_bundle, res_Reason = []\<rparr>"

lemma granted_config:
  "nebulaConfig (env_nebula connector_env) granted_bundle ''k'' = Inr ''t''"
  "nebulaConfig (env_nebula connector_env) (granted_bundle\<lparr>bnd_Blocked := [''c1'']\<rparr>) ''k'' = Inr ''u''"
proof -
  have "connector_tree (granted_bundle\<lparr>bnd_Blocked := [''c1'']\<rparr>) ''k'' \<noteq> connector_tree granted_bundle ''k''"
    using blocklist_connector_tree [of granted_bundle "''k''"] blocklist_connector_tree [of "granted_bundle\<lparr>bnd_Blocked := [''c1'']\<rparr>" "''k''"]
    by (auto simp: granted_bundle_def example_bundle_def)
  then show "nebulaConfig (env_nebula connector_env) granted_bundle ''k'' = Inr ''t''"
    "nebulaConfig (env_nebula connector_env) (granted_bundle\<lparr>bnd_Blocked := [''c1'']\<rparr>) ''k'' = Inr ''u''"
    by (simp_all add: nebulaConfig_Inr connector_env_def two_trees_def) (simp_all add: granted_bundle_def)
qed

lemma example_grant:
  "\<exists>dir r. Run (example_cworld granting_answer) good_disk (example_net ()) quiet None True example_cconfig example_directory ()
     = Some ((), dir, Inr r) \<and> rn_raw r = ''t''"
proof -
  let ?W = "example_cworld granting_answer" and ?c = "\<lparr>hc_base = ''https://hub:8443'', hc_token = [], hc_tls = SystemRoots\<rparr>"
  have c: "newHubClient ?W (cc_HubURL example_cconfig) (cc_SharedToken example_cconfig) (cc_Insecure example_cconfig) (cc_Pin example_cconfig) = Inr ?c"
    by (simp add: newHubClient_def example_cconfig_def trim_right_def slash_def)
  have e: "cc_HubURL example_cconfig \<noteq> []" "cc_Instance example_cconfig \<noteq> []" "cst_Bundle example_state = None" "cst_RequestID example_state \<noteq> []"
    by (simp_all add: example_cconfig_def example_state_def)
  note run = Run_waiting [where net = "example_net ()" and pass = quiet and stack = True and h = "()", OF e(1,2) example_domain example_loaded e(3,4) c]
  have "ask_once ?W (example_net ()) quiet ?c (cc_Instance example_cconfig) (cst_RequestID example_state) firstBackoff () = Decided () (Inr granted_bundle)"
    by (simp add: ask_once_def result_def example_net_def example_cworld_def granting_answer_def)
  note p = poll_turn(1) [of "ask_once ?W (example_net ()) quiet ?c (cc_Instance example_cconfig) (cst_RequestID example_state)", OF this]
  have n: "neb_LoadString (env_nebula connector_env) raw" "neb_Main (env_nebula connector_env) raw" for raw
    by (simp_all add: connector_env_def two_trees_def)
  show ?thesis unfolding run p using granted_config(1) n
    by (simp add: SaveBundle_def write_state_def good_disk_def Let_def example_cworld_def connect_def example_state_def)
qed

theorem restart_needs_no_hub_witness:
  "\<exists>dir r. Run (example_cworld granting_answer) good_disk \<lparr>ht_Do = (\<lambda>_ _ _ _ _ h. (h, None))\<rparr> quiet None True example_cconfig dir ()
     = Some ((), dir, Inr r) \<and> rn_raw r = ''t''"
proof -
  obtain dir r where run: "Run (example_cworld granting_answer) good_disk (example_net ()) quiet None True example_cconfig example_directory ()
     = Some ((), dir, Inr r)" "rn_raw r = ''t''" using example_grant by blast
  have d: "dk_Readable good_disk f" for f by (simp add: good_disk_def)
  have j: "cj_readBundle (cw_json (example_cworld granting_answer)) raw = Some b"
    if "cj_Bundle (cw_json (example_cworld granting_answer)) b = Some raw" for b raw
    using that by (simp add: example_cworld_def split: if_splits)
  from restart_needs_no_hub [OF run(1) d j] run(2) show ?thesis by metis
qed

definition signed_applicant :: Applicant where
  "signed_applicant = example_applicant\<lparr>app_MAC := MAC (env_hmac connector_env) no_unicode
     (enroll_request (example_cworld granting_answer) example_cconfig example_state) (inst_SharedToken example_active)\<rparr>"

theorem connector_request_passes_witness:
  "snd (Enroll example_env None 5 ''r2'' example_id (enroll_request ((example_cworld granting_answer)\<lparr>cw_env := example_env\<rparr>) example_cconfig example_state)
      signed_applicant (hub_of example_active lhs_open)) \<noteq> Fail BadAuthentication"
proof -
  let ?W = "(example_cworld granting_answer)\<lparr>cw_env := example_env\<rparr>"
  have r: "announced_routes (cw_machine ?W) example_cconfig = [Prefix (Addr4 0x0A000000) 8]"
    by (simp add: example_cworld_def announced_routes_def example_cconfig_def dedupe_def add_new_def DiscoverRoutes_def
        attachedPrefixes_def attach_iface_def example_machine_def platformFilter_def Masked_def PrefixFrom_def mask_eq_exp_minus_1
        split: option.splits)
  have m: "machine_ok (cw_machine ?W)" by (simp add: machine_ok_def example_cworld_def example_machine_def)
  have w: "\<forall>p \<in> set (cc_Routes example_cconfig). wf_prefix p" by (simp add: example_cconfig_def wf_prefix_def)
  have l: "length (announced_routes (cw_machine ?W) example_cconfig) \<le> 64" unfolding r by simp
  have k: "TrimSpace no_unicode (cst_PublicKeyPEM example_state) \<noteq> []" by (simp add: example_state_def) code_simp
  have n: "cc_Name example_cconfig = [] \<or> ParseMemberName no_unicode (cc_Name example_cconfig) = Inr (cc_Name example_cconfig)"
    by (simp add: example_cconfig_def)
  have e: "cw_env ?W = example_env" "env_unicode example_env = no_unicode" by (simp_all add: example_env_def)
  have a: "app_Kind signed_applicant = KindConnector" by (simp add: signed_applicant_def example_applicant_def)
  have res: "Resolve no_unicode example_id (hub_store (hub_of example_active lhs_open)) = Ret example_active" by (simp add: Resolve_def)
  have "enroll_request (example_cworld granting_answer) example_cconfig example_state = enroll_request ?W example_cconfig example_state"
    by (simp add: enroll_request_def example_cworld_def connector_env_def)
  then have mac: "app_MAC signed_applicant = MAC (env_hmac example_env) no_unicode (enroll_request ?W example_cconfig example_state) (inst_SharedToken example_active)"
    by (simp add: signed_applicant_def connector_env_def)
  from connector_request_passes [OF example_domain m w l k e a n example_reachable(2) res mac] show ?thesis by blast
qed

definition banned_answer :: Result where
  "banned_answer = \<lparr>res_Status = StatusApproved, res_RetryAfter = 0,
     res_Bundle = withBlocklist (rec_Bundle record_approved) inst_banned, res_Reason = []\<rparr>"

definition watching :: running where
  "watching = \<lparr>rn_state = example_state\<lparr>cst_Bundle := Some granted_bundle\<rparr>, rn_dir = example_directory, rn_raw = ''t'',
     rn_mtu = 1440, rn_self = [], rn_banned = False\<rparr>"

lemma banned_result:
  assumes "ResultOf example_env inst rid (hub_of inst_banned lhs_blocked) = Ret res"
  shows "res = banned_answer"
proof -
  have st: "state_ok (st_state (hub_store (hub_of inst_banned lhs_blocked)))"
    using reachable_inv [OF example_reachable(5)] by (simp add: hub_inv_def store_inv_def)
  obtain i where i: "Resolve (env_unicode example_env) inst (hub_store (hub_of inst_banned lhs_blocked)) = Ret i"
    using assms by (auto simp: ResultOf_def split: out.splits)
  have "i = inst_banned" using Resolve_stored [OF st i] by (simp add: mget_def split: if_splits)
  moreover obtain rec where "mget (inst_Requests i) rid = Some rec" using assms i by (auto simp: ResultOf_def split: option.splits)
  moreover have "inst_Requests inst_banned = Some [(''r1'', record_approved)]" by (simp add: inst_banned_def inst_admitted_def)
  ultimately have "mget (inst_Requests i) rid = Some record_approved" "i = inst_banned" by (auto simp: mget_def split: if_splits)
  then show ?thesis using assms i by (simp add: ResultOf_def banned_answer_def record_approved_def record_pending_def)
qed

theorem ban_reaches_every_end_witness:
  "\<exists>l net. in_force (example_cworld banned_answer) (snd (watch_tick (example_cworld banned_answer) good_disk net
      \<lparr>hc_base = ''https://hub:8443'', hc_token = [], hc_tls = SystemRoots\<rparr> example_id watching
      (start_server (hub_of inst_banned lhs_blocked)))) = Some l \<and> ''c1'' \<in> set l"
proof -
  let ?W = "example_cworld banned_answer" and ?srv = "start_server (hub_of inst_banned lhs_blocked)"
  let ?c = "\<lparr>hc_base = ''https://hub:8443'', hc_token = [], hc_tls = SystemRoots\<rparr>"
  have rt: "yaml_roundtrip (env_nebula example_env)" "yaml_roundtrip (env_nebula (cw_env ?W))"
    by (simp_all add: example_env_def example_cworld_def connector_env_def two_trees_roundtrip)
  have s: "srv_Hub ?srv = hub_of inst_banned lhs_blocked" "w_env example_world = example_env"
    by (simp_all add: start_server_def example_world_def)
  have j: "\<forall>inst rid res. ResultOf example_env inst rid (hub_of inst_banned lhs_blocked) = Ret res
      \<longrightarrow> cj_Result (cw_json ?W) ((\<lambda>_. ''A'') (Answer res)) = Some res"
    using banned_result by (fastforce simp: example_cworld_def)
  obtain j fp m where m: "mget (instances (hub_store (hub_of inst_banned lhs_blocked))) example_id = Some j" "mget (inst_Members j) fp = Some m" "Banned m"
    and reach: "mem_CertFingerprint m \<noteq> [] \<longrightarrow>
        (\<forall>r held req got c inst K D remote. settled ?W r \<longrightarrow> cst_Bundle (rn_state r) = Some held
          \<longrightarrow> segment inst \<longrightarrow> segment (cst_RequestID (rn_state r))
          \<longrightarrow> Resolve (env_unicode example_env) inst (hub_store (hub_of inst_banned lhs_blocked)) = Ret j
          \<longrightarrow> mget (inst_Requests j) (cst_RequestID (rn_state r)) = Some req
          \<longrightarrow> rec_Status req = StatusApproved \<longrightarrow> rec_Bundle req = Some got
          \<longrightarrow> takes ?W r (held\<lparr>bnd_Blocked := without (blockedIn j) (rn_self r)\<rparr>) \<longrightarrow> rn_self r \<noteq> mem_CertFingerprint m
          \<longrightarrow> (\<exists>l. in_force ?W (snd (watch_tick ?W K (hub_http example_world D (\<lambda>_. ''A'') remote (hc_base c)) c inst r ?srv)) = Some l
                 \<and> mem_CertFingerprint m \<in> set l))"
    using ban_reaches_every_end [where enc = "\<lambda>_. ''A''", OF example_reachable(4) rt(1) example_ban s rt(2) j] by blast
  have jb: "j = inst_banned" using m(1) by simp
  have c1: "mem_CertFingerprint m = ''c1''"
    using m(2,3) unfolding jb by (auto simp: mget_def example_defs Banned_def split: if_splits)
  have "blockedIn inst_banned = [''c1'']" by (simp add: blockedIn_def vals_def Banned_def add_event_def example_defs)
  then have t: "takes ?W watching (granted_bundle\<lparr>bnd_Blocked := without (blockedIn j) (rn_self watching)\<rparr>)"
    using granted_config(2) by (simp add: takes_def jb watching_def without_def example_cworld_def example_state_def)
      (simp add: connector_env_def two_trees_def)
  have w: "settled ?W watching" "cst_Bundle (rn_state watching) = Some granted_bundle" "cst_RequestID (rn_state watching) = ''r1''" "rn_self watching = []"
    using granted_config(1) by (simp_all add: settled_def watching_def example_state_def example_cworld_def)
  have res: "Resolve (env_unicode example_env) example_id (hub_store (hub_of inst_banned lhs_blocked)) = Ret j" by (simp add: Resolve_def jb)
  obtain got where rq: "mget (inst_Requests j) ''r1'' = Some record_approved" "rec_Status record_approved = StatusApproved" "rec_Bundle record_approved = Some got"
    by (simp add: jb inst_banned_def inst_admitted_def mget_def record_approved_def)
  have "\<exists>l. in_force ?W (snd (watch_tick ?W good_disk (hub_http example_world example_draw (\<lambda>_. ''A'') ''192.0.2.7:9'' (hc_base ?c)) ?c example_id watching ?srv)) = Some l
       \<and> mem_CertFingerprint m \<in> set l"
    using reach [rule_format, where r = watching and held = granted_bundle and inst = example_id and req = record_approved
        and got = got and K = good_disk and D = example_draw and remote = "''192.0.2.7:9''" and c = ?c] w t res rq c1 example_segments by simp
  then show ?thesis unfolding c1 by blast
qed

end
