(* ===== verification/Online.thy ===== *)
theory Online
  imports Ownership Enrollment
begin

text \<open>
  The daemon in front of the hub: its calls go through \<open>Api.serve\<close>, signed by its client and verified by the
  hub. What an owner's machine reports as done is then what the hub has recorded.
\<close>

section \<open>The line\<close>

definition hub_line ::
  "world \<Rightarrow> (Server \<Rightarrow> draw) \<Rightarrow> (payload \<Rightarrow> string) \<Rightarrow> string \<Rightarrow> (Server \<Rightarrow> time) \<Rightarrow> (Server \<Rightarrow> string option) \<Rightarrow> Server line" where
  "hub_line X D enc remote now nonce =
     \<lparr>ln_Now = now, ln_Nonce = nonce,
      ln_Do = (\<lambda>t url q srv.
        case serve X (D srv) (q\<lparr>cl_Request := (cl_Request q)\<lparr>hr_RemoteAddr := remote\<rparr>\<rparr>) srv of
          (srv, None) \<Rightarrow> (srv, None)
        | (srv, Some (code, p)) \<Rightarrow> (srv, Some (code, enc p)))\<rparr>"

text \<open>A part of a path that is sent as it is written.\<close>

definition plain_segment :: "string \<Rightarrow> bool" where
  "plain_segment s \<longleftrightarrow> segment s \<and> list_all (\<lambda>c. is_letter c \<or> is_digit c \<or> c \<in> {CHR ''-'', CHR ''_'', CHR ''.''}) s"

definition path_of :: "string list \<Rightarrow> string" where
  "path_of segs = concat (map ((#) slash) segs)"

lemma path_of_join: "segs \<noteq> [] \<Longrightarrow> path_of segs = slash # join [slash] segs"
proof (induction segs)
  case (Cons s segs)
  then show ?case by (cases "segs = []") (simp_all add: path_of_def join_Cons)
qed simp

lemma path_of_split:
  assumes "segs \<noteq> []" and "list_all segment segs"
  shows "split_on slash (path_of segs) = [] # segs"
proof -
  have "\<forall>s \<in> set segs. slash \<notin> set s" using assms(2) by (auto simp: list_all_iff segment_def)
  then have "split_on slash (join [slash] segs) = segs" using assms(1) by (intro split_on_join)
  then show ?thesis using split_on_append [of slash "[]" "join [slash] segs"] by (simp add: path_of_join [OF assms(1)])
qed

lemma serve_segments:
  assumes "segs \<noteq> []" and "list_all segment segs" and "cl_EscapedPath q = path_of segs"
    and "find (\<lambda>(m, _). m = hr_Method (cl_Request q) \<or> m = ''GET'' \<and> hr_Method (cl_Request q) = ''HEAD'') (path_routes segs) = Some (m, e)"
  shows "serve X D q srv = handle X D q e srv"
proof -
  note split = path_of_split [OF assms(1,2), unfolded slash_def]
  have d: "\<forall>s \<in> set segs. s \<noteq> [] \<and> s \<noteq> ''.'' \<and> s \<noteq> ''..''" using assms(2) by (auto simp: list_all_iff segment_def)
  have clean: "clean_path (cl_EscapedPath q)"
    unfolding clean_path_def assms(3) split using d in_set_butlastD [of "[]" segs] by auto
  have segs: "map pathUnescape segs = segs" using assms(2) by (intro map_idI) (auto simp: list_all_iff intro: segment_unescape)
  have last: "last segs \<noteq> []" using d assms(1) by simp
  show ?thesis
    unfolding serve_def assms(3) Let_def split list.sel segs using clean last assms(3,4) by simp
qed

lemma written_char:
  assumes "is_letter c \<or> is_digit c \<or> c \<in> {CHR ''-'', CHR ''_'', CHR ''.''}"
  shows "path_written c" "c \<noteq> CHR ''#''" "c \<noteq> CHR ''?''" "c \<noteq> CHR ''%''" "\<not> control_char c"
  using assms
  by (auto simp: path_written_def path_plain_def is_letter_def is_lower_def is_upper_def is_digit_def control_char_def Let_def)

definition url_ok :: "char \<Rightarrow> bool" where
  "url_ok c \<longleftrightarrow> path_written c \<and> c \<noteq> CHR ''#'' \<and> c \<noteq> CHR ''?'' \<and> c \<noteq> CHR ''%'' \<and> \<not> control_char c"

lemma url_ok_slash: "url_ok slash"
  by code_simp

lemma url_ok_written: "is_letter c \<or> is_digit c \<or> c \<in> {CHR ''-'', CHR ''_'', CHR ''.''} \<Longrightarrow> url_ok c"
  unfolding url_ok_def by (intro conjI; rule written_char; assumption)

lemma path_of_chars:
  assumes "list_all plain_segment segs" and "c \<in> set (path_of segs)"
  shows "url_ok c"
proof -
  have "c = slash \<or> (\<exists>s \<in> set segs. c \<in> set s)" using assms(2) by (auto simp: path_of_def split: if_split_asm)
  then show ?thesis using url_ok_slash assms(1) url_ok_written unfolding plain_segment_def list_all_iff by blast
qed

lemma NewRequest_plain:
  assumes "plain_host hst" and "list_all is_digit port" and "segs \<noteq> []" and "list_all plain_segment segs"
  shows "NewRequest verb ((''https://'' @ host_port hst port) @ path_of segs) body =
    Some \<lparr>cl_Request = \<lparr>hr_Host = host_port hst port, hr_Method = verb, hr_Path = path_of segs, hr_Query = Some [], hr_Header = [], hr_RemoteAddr = []\<rparr>,
          cl_EscapedPath = path_of segs, cl_Body = body, cl_Broken = False\<rparr>"
proof -
  let ?hp = "host_port hst port" and ?p = "path_of segs"
  let ?url = "''https://'' @ ?hp @ ?p"
  note c = host_port_chars [OF assms(1,2)] and p = path_of_chars [OF assms(4)]
  have slash: "slash \<notin> set ?hp" using c by (auto simp: host_ok_def)
  obtain t where t: "?p = slash # t" using path_of_join [OF assms(3)] by blast
  have no: "CHR ''#'' \<notin> set (?hp @ ?p)" "CHR ''?'' \<notin> set (?hp @ ?p)" "CHR ''%'' \<notin> set ?p" "CHR ''@'' \<notin> set ?hp"
    using c p by (auto simp: host_ok_def url_ok_def)
  have h: "before (CHR ''#'') ?url = ?url" using no(1) by (intro before_none) simp
  have q: "before (CHR ''?'') (''//'' @ ?hp @ ?p) = ''//'' @ ?hp @ ?p" using no(2) by (intro before_none) simp
  have "\<not> list_ex control_char ''https://''" by code_simp
  then have ctl: "\<not> list_ex control_char ?url" using c p unfolding list_ex_append by (auto simp: list_ex_iff host_ok_def url_ok_def)
  have s: "getScheme ?url = Some (''https'', ''//'' @ ?hp @ ?p)"
    using https_scheme [of "''//'' @ ?hp @ ?p"] by simp
  have b: "before slash (?hp @ ?p) = ?hp" using before_append [OF slash] t by simp
  have dw: "dropWhile (\<lambda>d. d \<noteq> slash) (?hp @ ?p) = ?p"
    using slash t by (subst dropWhile_append2) auto
  have u: "unescape ?p = Some ?p" using no(3) by (rule unescape_plain)
  have at: "cut_last (CHR ''@'') ?hp = None" using no(4) by (simp add: cut_last_none)
  have pre: "HasPrefix (''//'' @ ?hp @ ?p) ''/''" "HasPrefix (''//'' @ ?hp @ ?p) ''//''" "drop 2 (''//'' @ ?hp @ ?p) = ?hp @ ?p"
    by (simp_all add: HasPrefix_def)
  have host: "urlHost ?url = Some ?hp"
    unfolding urlHost_def Let_def h s option.case prod.case q pre(3) b dw u at using ctl pre(1,2) parseHost_plain [OF assms(1,2)] by simp
  have w: "list_all path_written ?p" using p by (auto simp: list_all_iff url_ok_def)
  have path: "urlPath ?url = Some (?p, ?p, [])"
    unfolding urlPath_def Let_def h s option.case prod.case q pre(3) dw using pre(1,2) w u by simp
  have "ParseQuery [] = Some []" by (simp add: ParseQuery_def put_query_def)
  then show ?thesis unfolding NewRequest_def append_assoc host path by simp
qed

section \<open>What is reported and what is recorded\<close>

text \<open>Whatever is called, the hub stays in a state its steps lead to.\<close>

lemma serve_reachable:
  assumes "reachable (w_env X) (srv_Hub srv)" and "\<forall>x. 8 \<le> length (env_sha256 (w_env X) x)"
  shows "reachable (w_env X) (srv_Hub (fst (serve X D q srv)))"
proof -
  have "post (sound (w_env X) (srv_Hub srv)) (serve X D q srv)" by (rule sound_serve [OF assms(1)]) (simp add: assms(2))
  then show ?thesis using reachable_steps [OF _ assms(1)] by (simp add: post_def sound_def)
qed

lemma hub_do_reachable:
  assumes "reachable (w_env X) (srv_Hub srv)" and "\<forall>x. 8 \<le> length (env_sha256 (w_env X) x)"
  shows "reachable (w_env X) (srv_Hub (fst (hub_do W (hub_line X D enc remote now nonce) c m path sent srv)))"
proof -
  have "reachable (w_env X) (srv_Hub srv')" if "serve X E q srv = (srv', r)" for E q srv' r
    using serve_reachable [OF assms, of E q] that by simp
  then show ?thesis using assms(1) by (auto simp: hub_do_def hub_line_def Let_def split: option.split prod.split)
qed

lemma hub_members_reachable:
  assumes "reachable (w_env X) (srv_Hub srv)" and "\<forall>x. 8 \<le> length (env_sha256 (w_env X) x)"
  shows "reachable (w_env X) (srv_Hub (fst (hub_members W (hub_line X D enc remote now nonce) c iid srv)))"
  using hub_do_reachable [OF assms, of W D enc remote now nonce c "''GET''" "instance_path iid ''/members''" None]
  by (auto simp: hub_members_def reading_def split: prod.split sum.split)

lemma find_loop_reachable:
  assumes "reachable (w_env X) (srv_Hub srv)" and "\<forall>x. 8 \<le> length (env_sha256 (w_env X) x)"
  shows "reachable (w_env X) (srv_Hub (fst (find_loop W (hub_line X D enc remote now nonce) c ref inst owns found unread srv)))"
  using assms(1)
proof (induction owns arbitrary: found unread srv)
  case (Cons own owns)
  obtain srv1 r where r: "hub_members W (hub_line X D enc remote now nonce) c (own_InstanceID own) srv = (srv1, r)" by fastforce
  then have "reachable (w_env X) (srv_Hub srv1)"
    using hub_members_reachable [OF Cons.prems assms(2), of W D enc remote now nonce c "own_InstanceID own"] by simp
  then show ?case using Cons.IH Cons.prems by (cases r) (simp_all add: r)
qed simp

lemma findMember_reachable:
  assumes "reachable (w_env X) (srv_Hub srv)" and "\<forall>x. 8 \<le> length (env_sha256 (w_env X) x)"
  shows "reachable (w_env X) (srv_Hub (fst (findMember W (hub_line X D enc remote now nonce) c ref inst d srv)))"
  using assms(1) find_loop_reachable [OF assms, of W D enc remote now nonce c ref inst "owned d" "[]" None]
  by (auto simp: findMember_def split: prod.split list.split option.split)

lemma reading_Inr: "reading dec r = (h, Inr v) \<Longrightarrow> \<exists>out. r = (h, Inr out) \<and> dec out = Some v"
  by (auto simp: reading_def split: prod.split_asm sum.split_asm option.split_asm)

lemma find_loop_from:
  assumes "find_loop W N c ref inst owns found unread h = (h', found', unread')" and "x \<in> set found'" and "x \<notin> set found"
  shows "om_owned x \<in> set owns \<and> in_scope W inst (om_owned x) \<and> is_meant ref (om_member x)"
  using assms
proof (induction owns arbitrary: found unread h)
  case (Cons own owns)
  obtain h1 r where r: "hub_members W N c (own_InstanceID own) h = (h1, r)" by fastforce
  show ?case
  proof (cases "inst \<noteq> [] \<and> \<not> folds W (own_Name own) inst \<and> own_InstanceID own \<noteq> inst")
    case True
    then show ?thesis using Cons.IH [of found unread h] Cons.prems by auto
  next
    case False
    note scope = False
    show ?thesis
    proof (cases r)
      case (Inl e)
      then show ?thesis using Cons.IH [of found "Some e" h1] Cons.prems False by (auto simp: r)
    next
      case (Inr ms)
      let ?new = "map (\<lambda>m. \<lparr>om_owned = own, om_member = m\<rparr>) (filter (\<lambda>m. mem_Name m = ref \<or> HasPrefix (mem_Fingerprint m) ref) ms)"
      have l: "find_loop W N c ref inst owns (found @ ?new) unread h1 = (h', found', unread')" using Cons.prems(1) False Inr by (simp add: r)
      show ?thesis
      proof (cases "x \<in> set ?new")
        case True
        then have "om_owned x = own" "is_meant ref (om_member x)" by (auto simp: is_meant_def)
        with scope show ?thesis by (simp add: in_scope_def)
      next
        case False
        then show ?thesis using Cons.IH [OF l Cons.prems(2)] Cons.prems(3) by auto
      qed
    qed
  qed
qed simp

lemma findMember_from_owned:
  assumes "findMember W N c ref inst d h = (h', Inr x)"
  shows "om_owned x \<in> set (owned d) \<and> in_scope W inst (om_owned x) \<and> is_meant ref (om_member x)"
proof -
  obtain h1 found unread where f: "find_loop W N c ref inst (owned d) [] None h = (h1, found, unread)" by (metis prod_cases3)
  then have "found = [x]" using assms by (auto simp: findMember_def split: if_split_asm list.split_asm option.split_asm)
  then show ?thesis using find_loop_from [OF f] by simp
qed

text \<open>A call that is taken by an operation of the owner was signed, resolved and let through with its body whole.\<close>

lemma ownerOnly_taken:
  assumes "ownerOnly X D q ref next s = (s', Some (code, p))" and "code < 300"
    and "length (cl_Body q) \<le> maxBodyBytes" and "\<not> cl_Broken q"
  shows "\<exists>inst who ns. Resolve (env_unicode (w_env X)) ref (srv_store s) = Ret inst \<and> reg_Identity who = inst_Owner inst
    \<and> (\<exists>identity. signed_by X D q s identity \<and> Identity identity (srv_store s) = Ret who)
    \<and> next inst (cl_Body q, True) (s\<lparr>srv_Nonces := ns\<rparr>) = (s', Some (code, p))"
proof -
  have body: "readBody q = Some (cl_Body q)" using assms(3,4) by (simp add: readBody_def)
  obtain ns v where v: "VerifyRequest (w_crypto X) (env_unicode (w_env X)) (Some Use) (dr_Now D) (cl_Request q) (cl_Body q) (srv_Nonces s) = (ns, v)"
    by fastforce
  have ne: "writeError n t w \<noteq> Some (code, p)" if "300 \<le> n" for n t w using that assms(2) by (simp add: writeError_def writeJSON_def)
  obtain identity who where i: "v = Inr identity" "Identity identity (srv_store s) = Ret who"
    using assms(1) ne by (auto simp: ownerOnly_def signed_def body v split: sum.split_asm out.split_asm)
  then have "signed_by X D q s identity" using body v by (auto simp: signed_by_def)
  moreover obtain inst where "Resolve (env_unicode (w_env X)) ref (srv_store s) = Ret inst" "reg_Identity who = inst_Owner inst"
      "next inst (cl_Body q, True) (s\<lparr>srv_Nonces := ns\<rparr>) = (s', Some (code, p))"
    using assms(1) ne i by (auto simp: ownerOnly_def signed_def body v ConstantTimeEqual_def split: out.split_asm if_split_asm)
  ultimately show ?thesis using i(2) by blast
qed

lemma run_taken:
  assumes "run f ok bad s = (s', Some (code, p))" and "code < 300" and "\<And>e. \<exists>n t w. bad e = writeError n t w \<and> 300 \<le> n"
  shows "\<exists>a. f (srv_Hub s) = (srv_Hub s', Ret a)"
proof (cases "f (srv_Hub s)")
  case (Pair h r)
  then show ?thesis
  proof (cases r)
    case (Fail e)
    obtain n t w where "bad e = writeError n t w" "300 \<le> n" using assms(3) by blast
    then show ?thesis using assms(1,2) Pair Fail by (simp add: run_def writeError_def writeJSON_def)
  qed (use assms(1) Pair in \<open>auto simp: run_def\<close>)
qed

text \<open>The call as it arrives at the hub, and what a call of the client that succeeds was to the hub.\<close>

definition sent_call :: "tworld \<Rightarrow> tclient \<Rightarrow> string \<Rightarrow> string \<Rightarrow> string \<Rightarrow> string list \<Rightarrow> string option option \<Rightarrow> time \<Rightarrow> string \<Rightarrow> call" where
  "sent_call W c host remote verb segs sent t x =
     (let raw = the_default [] (the_default None sent);
          r = \<lparr>hr_Host = host, hr_Method = verb, hr_Path = path_of segs, hr_Query = Some [], hr_Header = [], hr_RemoteAddr = []\<rparr>;
          r = (if sent = None then r else set_header ''Content-Type'' ''application/json'' r)
      in \<lparr>cl_Request = (SignRequest (tw_crypto W) (tw_unicode W) (tc_identity c) t x r raw)\<lparr>hr_RemoteAddr := remote\<rparr>,
          cl_EscapedPath = path_of segs, cl_Body = raw, cl_Broken = False\<rparr>)"

lemma sent_call_fields:
  "cl_EscapedPath (sent_call W c host remote verb segs sent t x) = path_of segs"
  "cl_Body (sent_call W c host remote verb segs sent t x) = the_default [] (the_default None sent)"
  "\<not> cl_Broken (sent_call W c host remote verb segs sent t x)"
  "hr_Method (cl_Request (sent_call W c host remote verb segs sent t x)) = verb"
  by (simp_all add: sent_call_def Let_def SignRequest_def set_header_def)

lemma hub_do_eq:
  assumes "tc_base c = ''https://'' @ host_port hst port" and "plain_host hst" and "list_all is_digit port"
    and "segs \<noteq> []" and "list_all plain_segment segs" and "nonce srv = Some x" and "sent \<noteq> Some None"
    and "find (\<lambda>(m, _). m = verb \<or> m = ''GET'' \<and> verb = ''HEAD'') (path_routes segs) = Some (m, e)"
    and "q = sent_call W c (host_port hst port) remote verb segs sent (now srv) x"
  shows "hub_do W (hub_line X D enc remote now nonce) c verb (path_of segs) sent srv =
    (case handle X (D srv) q e srv of
       (srv, None) \<Rightarrow> (srv, Inl NoAnswer)
     | (srv, Some (code, p)) \<Rightarrow> if 300 \<le> code then (srv, Inl (tenant_responseError W code (enc p))) else (srv, Inr (enc p)))"
proof -
  note new = NewRequest_plain [OF assms(2-5), of verb "the_default [] (the_default None sent)"]
  have seg: "list_all segment segs" using assms(5) by (auto simp: list_all_iff plain_segment_def)
  have s: "serve X (D srv) q srv = handle X (D srv) q e srv"
    by (rule serve_segments [OF assms(4) seg]) (use assms(8) in \<open>simp_all add: assms(9) sent_call_fields\<close>)
  have "hub_do W (hub_line X D enc remote now nonce) c verb (path_of segs) sent srv =
    (case serve X (D srv) q srv of
       (srv, None) \<Rightarrow> (srv, Inl NoAnswer)
     | (srv, Some (code, p)) \<Rightarrow> if 300 \<le> code then (srv, Inl (tenant_responseError W code (enc p))) else (srv, Inr (enc p)))"
    unfolding hub_do_def assms(1) new Let_def
    by (simp add: hub_line_def assms(6,7,9) sent_call_def Let_def split: prod.split option.split)
  then show ?thesis unfolding s .
qed

lemma hub_do_taken:
  assumes "hub_do W (hub_line X D enc remote now nonce) c verb (path_of segs) sent srv = (srv', Inr out)"
    and "tc_base c = ''https://'' @ host_port hst port" and "plain_host hst" and "list_all is_digit port"
    and "segs \<noteq> []" and "list_all plain_segment segs"
    and "find (\<lambda>(m, _). m = verb \<or> m = ''GET'' \<and> verb = ''HEAD'') (path_routes segs) = Some (m, e)"
  shows "\<exists>q code p. handle X (D srv) q e srv = (srv', Some (code, p)) \<and> code < 300 \<and> out = enc p \<and> \<not> cl_Broken q
    \<and> cl_Body q = the_default [] (the_default None sent) \<and> sent \<noteq> Some None"
proof -
  obtain x where x: "nonce srv = Some x" "sent \<noteq> Some None"
    using assms(1) by (auto simp: hub_do_def hub_line_def Let_def split: if_split_asm option.split_asm)
  let ?q = "sent_call W c (host_port hst port) remote verb segs sent (now srv) x"
  obtain srv1 res where s: "handle X (D srv) ?q e srv = (srv1, res)" by fastforce
  have "srv1 = srv' \<and> (\<exists>code p. res = Some (code, p) \<and> code < 300 \<and> out = enc p)"
    using assms(1) hub_do_eq [where nonce = nonce and srv = srv and now = now and X = X and D = D and enc = enc and remote = remote and W = W
        and verb = verb and q = ?q, OF assms(2-6) x assms(7) refl] s
    by (auto split: option.split_asm if_split_asm)
  then obtain code p where "srv1 = srv'" "res = Some (code, p)" "code < 300" "out = enc p" by blast
  then show ?thesis using s x(2) sent_call_fields(2,3) [of W c "host_port hst port" remote verb segs sent "now srv" x]
    by (intro exI [of _ ?q] exI [of _ code] exI [of _ p]) simp
qed

lemma SignRequest_remote: "(SignRequest C U priv t x r body)\<lparr>hr_RemoteAddr := a\<rparr> = SignRequest C U priv t x (r\<lparr>hr_RemoteAddr := a\<rparr>) body"
  by (simp add: SignRequest_def Let_def set_header_def canonical_of_def)

text \<open>What the two ends rely on: a key signs so that its public half verifies, and a time is read as it was written, to the second.\<close>

definition signs_well :: "crypto \<Rightarrow> string \<Rightarrow> time \<Rightarrow> bool" where
  "signs_well C priv t \<longleftrightarrow> length (ed_Public C priv) = 32 \<and> (\<forall>m. ed_Verify C (ed_Public C priv) m (ed_Sign C priv m))
     \<and> (\<forall>m. ed_Sign C priv m \<noteq> []) \<and> tm_Parse C (tm_Format C t) = Some (t - t mod second) \<and> tm_Format C t \<noteq> []"

text \<open>
  The client and the hub agree on how things are signed and on the time, and the hub knows the machine: a call that it signs
  within the window and with a fresh nonce passes.
\<close>

definition known_signer :: "tworld \<Rightarrow> world \<Rightarrow> tclient \<Rightarrow> draw \<Rightarrow> time \<Rightarrow> string \<Rightarrow> Registration \<Rightarrow> Server \<Rightarrow> bool" where
  "known_signer W X c E t x who s \<longleftrightarrow>
     (let ident = PublicIdentity (ed_Public (tw_crypto W) (tc_identity c)) in
      signs_well (tw_crypto W) (tc_identity c) t \<and> w_crypto X = tw_crypto W \<and> env_unicode (w_env X) = tw_unicode W
      \<and> x \<noteq> [] \<and> t - Window \<le> dr_Now E \<and> dr_Now E \<le> t + Window - second
      \<and> nonces_ok (srv_Nonces s) \<and> \<not> nonce_spent (srv_Nonces s) (dr_Now E) ident (b64url_encode x)
      \<and> Identity ident (srv_store s) = Ret who)"

lemma signer_passes:
  assumes "known_signer W X c E t x who s" and "length (cl_Body q) \<le> maxBodyBytes" and "\<not> cl_Broken q"
    and "cl_Request q = SignRequest (tw_crypto W) (tw_unicode W) (tc_identity c) t x r (cl_Body q)"
  obtains ns where "Use (srv_Nonces s) (dr_Now E) (PublicIdentity (ed_Public (tw_crypto W) (tc_identity c))) (b64url_encode x) Window = (ns, True)"
    and "\<And>next. signed X E q next s = next who (cl_Body q, True) (s\<lparr>srv_Nonces := ns\<rparr>)"
proof -
  let ?ident = "PublicIdentity (ed_Public (tw_crypto W) (tc_identity c))"
  note l = assms(1) [unfolded known_signer_def Let_def signs_well_def]
  obtain ns where u: "Use (srv_Nonces s) (dr_Now E) ?ident (b64url_encode x) Window = (ns, True)"
    using l by (meson Use_fresh)
  have eq: "w_crypto X = tw_crypto W" "env_unicode (w_env X) = tw_unicode W" using l by simp_all
  have v: "VerifyRequest (w_crypto X) (env_unicode (w_env X)) (Some Use) (dr_Now E) (cl_Request q) (cl_Body q) (srv_Nonces s) = (ns, Inr ?ident)"
    unfolding assms(4) eq using l u by (subst signed_verifies [OF _ _ _ _ _ _ _ _ refl refl]) simp_all
  have "readBody q = Some (cl_Body q)" using assms(2,3) by (simp add: readBody_def)
  then have "signed X E q next s = next who (cl_Body q, True) (s\<lparr>srv_Nonces := ns\<rparr>)" for "next"
    using v l by (simp add: signed_def)
  with u that show ?thesis by blast
qed

lemma hub_do_signed:
  assumes "tc_base c = ''https://'' @ host_port hst port" and "plain_host hst" and "list_all is_digit port"
    and "segs \<noteq> []" and "list_all plain_segment segs" and "nonce srv = Some x" and "sent \<noteq> Some None"
    and "find (\<lambda>(m, _). m = verb \<or> m = ''GET'' \<and> verb = ''HEAD'') (path_routes segs) = Some (m, e)"
    and "known_signer W X c (D srv) (now srv) x who srv" and "length (the_default [] (the_default None sent)) \<le> maxBodyBytes"
    and "\<And>q. handle X (D srv) q e = signed X (D srv) q next"
  obtains ns where "Use (srv_Nonces srv) (dr_Now (D srv)) (PublicIdentity (ed_Public (tw_crypto W) (tc_identity c))) (b64url_encode x) Window = (ns, True)"
    and "hub_do W (hub_line X D enc remote now nonce) c verb (path_of segs) sent srv =
      (case next who (the_default [] (the_default None sent), True) (srv\<lparr>srv_Nonces := ns\<rparr>) of
         (srv, None) \<Rightarrow> (srv, Inl NoAnswer)
       | (srv, Some (code, p)) \<Rightarrow> if 300 \<le> code then (srv, Inl (tenant_responseError W code (enc p))) else (srv, Inr (enc p)))"
proof -
  let ?q = "sent_call W c (host_port hst port) remote verb segs sent (now srv) x"
  obtain r where r: "cl_Request ?q = SignRequest (tw_crypto W) (tw_unicode W) (tc_identity c) (now srv) x r (cl_Body ?q)"
    by (simp add: sent_call_def Let_def SignRequest_remote)
  have body: "length (cl_Body ?q) \<le> maxBodyBytes" "\<not> cl_Broken ?q" using assms(10) by (simp_all add: sent_call_fields)
  obtain ns where ns: "Use (srv_Nonces srv) (dr_Now (D srv)) (PublicIdentity (ed_Public (tw_crypto W) (tc_identity c))) (b64url_encode x) Window = (ns, True)"
      "\<And>next. signed X (D srv) ?q next srv = next who (cl_Body ?q, True) (srv\<lparr>srv_Nonces := ns\<rparr>)"
    using signer_passes [OF assms(9) body r] by blast
  show ?thesis
    by (rule that [OF ns(1)])
      (use hub_do_eq [where nonce = nonce and srv = srv and now = now and X = X and D = D and enc = enc and remote = remote and W = W
        and verb = verb and q = ?q, OF assms(1-8) refl] in \<open>simp add: assms(11) ns(2) sent_call_fields\<close>)
qed

text \<open>Afterwards that nonce is spent and no other.\<close>

lemma Use_other:
  assumes "nonces_ok st" and "Use st now i n ttl = (st', True)" and "m \<noteq> n" and "\<not> nonce_spent st t i m"
  shows "nonces_ok st' \<and> \<not> nonce_spent st' t i m"
proof -
  have ok: "nonces_ok (swept now ttl st)" by (rule swept_ok [OF assms(1)])
  have "\<not> nonce_spent (swept now ttl st) t i m"
    using assms(1,4) by (auto simp: nonce_spent_def swept_def nonces_ok_def mget_sweep split: option.split_asm if_split_asm)
  moreover have "st' = (swept now ttl st)\<lparr>mn_seen := Some (AList.update (nonce_key i n) (now + ttl) (items (mn_seen (swept now ttl st))))\<rparr>"
    using assms(2) by (auto simp: Use_eq [OF assms(1)] split: if_split_asm)
  ultimately show ?thesis
    using ok assms(3) by (auto simp: nonces_ok_def nonce_spent_def wf_map_def mget_def update_conv' nonce_key_def distinct_update)
qed

section \<open>Bans\<close>

lemma member_error: "\<exists>n t w. writeMemberError e = writeError n t w \<and> 300 \<le> n"
  by (cases "is_not_found e") (force simp: writeMemberError_def)+

lemma plain_words: "list_all plain_segment [''v1'', ''instances'', ''ban'', ''requests'', ''members'']"
  by code_simp

lemma hub_ban_recorded:
  assumes "hub_ban W (hub_line X D enc remote now nonce) c iid ref note srv = (srv', Inr ())"
    and "tc_base c = ''https://'' @ host_port hst port" and "plain_host hst" and "list_all is_digit port" and "plain_segment iid"
    and "\<forall>req raw. tj_Ban (tw_json W) req = Some raw \<longrightarrow> js_Ban (w_json X) (raw, True) = Some req \<and> length raw \<le> maxBodyBytes"
  shows "\<exists>inst. Resolve (env_unicode (w_env X)) iid (srv_store srv) = Ret inst
    \<and> Ban (w_env X) (dr_IO (D srv)) (dr_Now (D srv)) (inst_ID inst) ref note (srv_Hub srv) = (srv_Hub srv', Ret ())"
proof -
  let ?segs = "[''v1'', ''instances'', iid, ''ban'']" and ?req = "\<lparr>bq_Member = ref, bq_Note = note\<rparr>"
  have path: "instance_path iid ''/ban'' = path_of ?segs" by (simp add: instance_path_def path_of_def slash_def)
  have segs: "list_all plain_segment ?segs" using assms(5) plain_words by simp
  have route: "find (\<lambda>(m, _). m = ''POST'' \<or> m = ''GET'' \<and> ''POST'' = ''HEAD'') (path_routes ?segs) = Some (''POST'', BanEp iid)"
    by (simp add: path_routes_def instance_routes_def)
  obtain out where "hub_do W (hub_line X D enc remote now nonce) c ''POST'' (path_of ?segs) (Some (tj_Ban (tw_json W) ?req)) srv = (srv', Inr out)"
    using reading_Inr [OF assms(1) [unfolded hub_ban_def path]] by blast
  from hub_do_taken [OF this assms(2-4) _ segs route] obtain q code p where h: "handle X (D srv) q (BanEp iid) srv = (srv', Some (code, p))" "code < 300"
      "\<not> cl_Broken q" "cl_Body q = the_default [] (tj_Ban (tw_json W) ?req)" "tj_Ban (tw_json W) ?req \<noteq> None" by auto
  then obtain raw where raw: "tj_Ban (tw_json W) ?req = Some raw" "cl_Body q = raw" by auto
  then have js: "js_Ban (w_json X) (cl_Body q, True) = Some ?req" "length (cl_Body q) \<le> maxBodyBytes" using assms(6) by auto
  from h(1) have "ownerOnly X (D srv) q iid (handleBan X (D srv)) srv = (srv', Some (code, p))" by (simp add: handle_def)
  from ownerOnly_taken [OF this h(2) js(2) h(3)] obtain inst ns where inst: "Resolve (env_unicode (w_env X)) iid (srv_store srv) = Ret inst"
      "handleBan X (D srv) inst (cl_Body q, True) (srv\<lparr>srv_Nonces := ns\<rparr>) = (srv', Some (code, p))" by blast
  then have "run (Ban (w_env X) (dr_IO (D srv)) (dr_Now (D srv)) (inst_ID inst) ref note) (\<lambda>h _. writeJSON 204 NoBody) writeMemberError
      (srv\<lparr>srv_Nonces := ns\<rparr>) = (srv', Some (code, p))" by (simp add: handleBan_def decode_def js(1))
  from run_taken [OF this h(2) member_error] show ?thesis using inst(1) by simp
qed

text \<open>
  What an owner bans from the machine that holds the authority is banned at the hub: when the daemon reports
  that a member was banned, the one that was found is in an instance this machine owns and is what the request means,
  and the hub has put down, in the instance that answers to the identifier of the one that is owned, a ban of a
  member that answers to the fingerprint that was found; its certificate is on the blocklist, and the state is
  one the hub can be in.
\<close>

theorem reported_ban_is_recorded:
  assumes "reachable (w_env X) (srv_Hub srv)" and "\<forall>x. 8 \<le> length (env_sha256 (w_env X) x)" and "yaml_roundtrip (env_nebula (w_env X))"
    and "tc_base c = ''https://'' @ host_port hst port" and "plain_host hst" and "list_all is_digit port"
    and "\<forall>own \<in> set (owned d). plain_segment (own_InstanceID own)"
    and "\<forall>req raw. tj_Ban (tw_json W) req = Some raw \<longrightarrow> js_Ban (w_json X) (raw, True) = Some req \<and> length raw \<le> maxBodyBytes"
    and "daemon_Ban W (hub_line X D enc remote now nonce) c req d srv = (srv', Inr ())"
  shows "\<exists>own told srv1 inst. own \<in> set (owned d) \<and> in_scope W (db_Instance req) own \<and> is_meant (db_Member req) told
    \<and> reachable (w_env X) (srv_Hub srv1) \<and> Resolve (env_unicode (w_env X)) (own_InstanceID own) (srv_store srv1) = Ret inst
    \<and> reachable (w_env X) (srv_Hub srv')
    \<and> (\<exists>j k m. mget (instances (srv_store srv')) (inst_ID inst) = Some j \<and> mget (inst_Members j) k = Some m \<and> Banned m
        \<and> (HasPrefix k (mem_Fingerprint told) \<or> mem_Name m = mem_Fingerprint told)
        \<and> (mem_CertFingerprint m \<noteq> [] \<longrightarrow> mem_CertFingerprint m \<in> set (blockedIn j)))"
proof -
  let ?N = "hub_line X D enc remote now nonce"
  obtain srv1 found where f: "findMember W ?N c (db_Member req) (db_Instance req) d srv = (srv1, Inr found)"
    and b: "hub_ban W ?N c (own_InstanceID (om_owned found)) (mem_Fingerprint (om_member found)) (db_Note req) srv1 = (srv', Inr ())"
    using assms(9) by (auto simp: daemon_Ban_def split: prod.split_asm sum.split_asm)
  note own = findMember_from_owned [OF f]
  have r1: "reachable (w_env X) (srv_Hub srv1)" using findMember_reachable [OF assms(1,2)] f by (metis fst_conv)
  obtain inst where inst: "Resolve (env_unicode (w_env X)) (own_InstanceID (om_owned found)) (srv_store srv1) = Ret inst"
    and ban: "Ban (w_env X) (dr_IO (D srv1)) (dr_Now (D srv1)) (inst_ID inst) (mem_Fingerprint (om_member found)) (db_Note req) (srv_Hub srv1) = (srv_Hub srv', Ret ())"
    using hub_ban_recorded [OF b assms(4-6) _ assms(8)] own assms(7) by blast
  show ?thesis
    by (rule exI [of _ "om_owned found"], rule exI [of _ "om_member found"], rule exI [of _ srv1], rule exI [of _ inst])
      (use own r1 inst ban_stored [OF r1 assms(3) ban] in blast)
qed

end
