(* ===== verification/Granted.thy ===== *)
theory Granted
  imports Online
begin

text \<open>
  An approval from end to end: what the owner's machine decides about a request the hub keeps, and what the
  hub then holds for the member and hands out to it.
\<close>

section \<open>Reading what waits\<close>

lemma hub_do_keeps:
  assumes "tc_base c = ''https://'' @ host_port hst port" and "plain_host hst" and "list_all is_digit port"
    and "segs \<noteq> []" and "list_all plain_segment segs"
    and "find (\<lambda>(m, _). m = verb \<or> m = ''GET'' \<and> verb = ''HEAD'') (path_routes segs) = Some (m, e)"
    and "\<And>q. srv_Hub (fst (handle X (D srv) q e srv)) = srv_Hub srv"
  shows "srv_Hub (fst (hub_do W (hub_line X D enc remote now nonce) c verb (path_of segs) sent srv)) = srv_Hub srv"
proof (cases "sent = Some None \<or> nonce srv = None")
  case True
  then show ?thesis by (auto simp: hub_do_def hub_line_def Let_def split: option.split)
next
  case False
  then obtain x where x: "nonce srv = Some x" "sent \<noteq> Some None" by auto
  let ?q = "sent_call W c (host_port hst port) remote verb segs sent (now srv) x"
  obtain srv1 res where h: "handle X (D srv) ?q e srv = (srv1, res)" by fastforce
  then show ?thesis
    using assms(7) [of ?q] hub_do_eq [where nonce = nonce and srv = srv and now = now and X = X and D = D and enc = enc and remote = remote and W = W
        and verb = verb and q = ?q, OF assms(1-5) x assms(6) refl]
    by (auto split: option.split)
qed

lemma pending_path: "instance_path iid ''/requests'' = path_of [''v1'', ''instances'', iid, ''requests'']"
  by (simp add: instance_path_def path_of_def slash_def)

lemma pending_route:
  "find (\<lambda>(m, _). m = ''GET'' \<or> m = ''GET'' \<and> ''GET'' = ''HEAD'') (path_routes [''v1'', ''instances'', iid, ''requests'']) = Some (''GET'', PendingEp iid)"
  by (simp add: path_routes_def instance_routes_def)

lemma pending_handle_keeps: "srv_Hub (fst (handle X E q (PendingEp iid) srv)) = srv_Hub srv"
proof -
  have "post (\<lambda>h _. h = srv_Hub srv) (ownerOnly X E q iid (\<lambda>inst _. handlePending inst) srv)"
    by (rule post_ownerOnly) (auto simp: handlePending_def intro!: post_run)
  then show ?thesis by (simp add: handle_def post_def)
qed

lemma hub_pending_keeps:
  assumes "tc_base c = ''https://'' @ host_port hst port" and "plain_host hst" and "list_all is_digit port" and "plain_segment iid"
    and "hub_pending W (hub_line X D enc remote now nonce) c iid srv = (srv', r)"
  shows "srv_Hub srv' = srv_Hub srv"
proof -
  have segs: "list_all plain_segment [''v1'', ''instances'', iid, ''requests'']" using assms(4) plain_words by simp
  have "srv_Hub (fst (hub_do W (hub_line X D enc remote now nonce) c ''GET'' (path_of [''v1'', ''instances'', iid, ''requests'']) None srv)) = srv_Hub srv"
    by (rule hub_do_keeps [OF assms(1-3) _ segs pending_route pending_handle_keeps]) simp
  then show ?thesis using assms(5) by (auto simp: hub_pending_def reading_def pending_path split: prod.split_asm sum.split_asm)
qed

lemma pending_answer:
  assumes "handle X E q (PendingEp iid) srv = (srv', Some (code, p))" and "code < 300"
  shows "\<exists>inst rs. Resolve (env_unicode (w_env X)) iid (srv_store srv) = Ret inst \<and> p = Waiting rs \<and> Pending (inst_ID inst) (srv_Hub srv) = Ret rs"
proof -
  let ?P = "\<lambda>h r. \<forall>code p. r = Some (code, p) \<longrightarrow> code < 300 \<longrightarrow>
      (\<exists>inst rs. Resolve (env_unicode (w_env X)) iid (srv_store srv) = Ret inst \<and> p = Waiting rs \<and> Pending (inst_ID inst) (srv_Hub srv) = Ret rs)"
  have "post ?P (ownerOnly X E q iid (\<lambda>inst _. handlePending inst) srv)"
    by (rule post_ownerOnly) (auto simp: refusal_def handlePending_def writeJSON_def writeError_def intro!: post_run)
  then show ?thesis using assms by (auto simp: handle_def post_def)
qed

text \<open>The daemon reads what the hub writes about the requests that wait in an instance.\<close>

definition read_back :: "tworld \<Rightarrow> world \<Rightarrow> (payload \<Rightarrow> string) \<Rightarrow> Hub \<Rightarrow> string \<Rightarrow> bool" where
  "read_back W X enc h iid \<longleftrightarrow> (\<forall>inst rs. Resolve (env_unicode (w_env X)) iid (hub_store h) = Ret inst
     \<longrightarrow> Pending (inst_ID inst) h = Ret rs \<longrightarrow> tj_readRecords (tw_json W) (enc (Waiting rs)) = Some rs)"

lemma hub_pending_reads:
  assumes "tc_base c = ''https://'' @ host_port hst port" and "plain_host hst" and "list_all is_digit port" and "plain_segment iid"
    and "read_back W X enc (srv_Hub srv) iid"
    and "hub_pending W (hub_line X D enc remote now nonce) c iid srv = (srv', Inr rs)"
  shows "\<exists>inst. Resolve (env_unicode (w_env X)) iid (srv_store srv) = Ret inst \<and> Pending (inst_ID inst) (srv_Hub srv) = Ret rs"
proof -
  let ?segs = "[''v1'', ''instances'', iid, ''requests'']"
  have segs: "list_all plain_segment ?segs" using assms(4) plain_words by simp
  obtain out where out: "hub_do W (hub_line X D enc remote now nonce) c ''GET'' (path_of ?segs) None srv = (srv', Inr out)"
    "tj_readRecords (tw_json W) out = Some rs"
    using reading_Inr [OF assms(6) [unfolded hub_pending_def pending_path]] by blast
  from hub_do_taken [OF out(1) assms(1-3) _ segs pending_route] obtain q code p where
    h: "handle X (D srv) q (PendingEp iid) srv = (srv', Some (code, p))" "code < 300" "out = enc p" by auto
  from pending_answer [OF h(1,2)] show ?thesis using out(2) h(3) assms(5) by (auto simp: read_back_def)
qed

text \<open>An entry that stands for a request which waits in the instance an authority of this machine answers for.\<close>

definition waits :: "world \<Rightarrow> Hub \<Rightarrow> Owned \<Rightarrow> PendingEntry \<Rightarrow> bool" where
  "waits X h own e \<longleftrightarrow> pe_InstanceID e = own_InstanceID own
     \<and> (\<exists>inst. Resolve (env_unicode (w_env X)) (own_InstanceID own) (hub_store h) = Ret inst
          \<and> mget (inst_Requests inst) (rec_ID (pe_Record e)) = Some (pe_Record e) \<and> rec_Status (pe_Record e) = StatusPending)"

lemma all_some_eq: "all_some xs = Some ys \<Longrightarrow> xs = map Some ys"
  by (induction xs arbitrary: ys rule: all_some.induct) auto

lemma pending_waits:
  assumes "reachable (w_env X) h" and "Resolve (env_unicode (w_env X)) (own_InstanceID own) (hub_store h) = Ret inst"
    and "Pending (inst_ID inst) h = Ret rs" and "all_some (map (pending_entry U own) rs) = Some es" and "e \<in> set es"
  shows "waits X h own e"
proof -
  have st: "mget (instances (hub_store h)) (inst_ID inst) = Some inst"
    using Resolve_stored [OF _ assms(2)] reachable_inv [OF assms(1)] by (auto simp: hub_inv_def store_inv_def)
  note ok = reachable_instance(1) [OF assms(1) st]
  have rs: "rs = filter (\<lambda>r. rec_Status r = StatusPending) (vals (inst_Requests inst))" using assms(3) st by (simp add: Pending_def Get_def)
  have "map (pending_entry U own) rs = map Some es" using all_some_eq [OF assms(4)] .
  then obtain r where r: "r \<in> set rs" "pending_entry U own r = Some e"
    using assms(5) by (metis (no_types, lifting) image_iff list.set_map)
  then have e: "pe_InstanceID e = own_InstanceID own" "pe_Record e = r" by (auto simp: pending_entry_def)
  have wf: "wf_map (inst_Requests inst)" using ok by (simp add: inst_ok_def requests_ok_def)
  then obtain k where k: "mget (inst_Requests inst) k = Some r" using r(1) by (auto simp: rs vals_iff)
  then have "rec_ID r = k" using ok by (simp add: inst_ok_def requests_ok_def request_ok_def)
  with k e r(1) assms(2) show ?thesis by (auto simp: waits_def rs)
qed

lemma pending_walk_waits:
  assumes "reachable (w_env X) (srv_Hub srv)" and "tc_base c = ''https://'' @ host_port hst port" and "plain_host hst" and "list_all is_digit port"
    and "\<forall>own \<in> set owns. plain_segment (own_InstanceID own)" and "\<forall>own \<in> set owns. read_back W X enc (srv_Hub srv) (own_InstanceID own)"
    and "pending_walk W (hub_line X D enc remote now nonce) c owns out srv = (srv', Inr es)"
  shows "srv_Hub srv' = srv_Hub srv \<and> (\<forall>e \<in> set es. e \<in> set out \<or> (\<exists>own \<in> set owns. waits X (srv_Hub srv) own e))"
  using assms(1,5,6,7)
proof (induction owns arbitrary: out srv)
  case (Cons own owns)
  obtain srv1 r where r: "hub_pending W (hub_line X D enc remote now nonce) c (own_InstanceID own) srv = (srv1, r)" by fastforce
  have own: "plain_segment (own_InstanceID own)" and owns: "\<forall>own \<in> set owns. plain_segment (own_InstanceID own)" using Cons.prems(2) by simp_all
  have rb: "read_back W X enc (srv_Hub srv) (own_InstanceID own)" using Cons.prems(3) by simp
  note keep = hub_pending_keeps [OF assms(2-4) own r]
  then have re: "reachable (w_env X) (srv_Hub srv1)" and rbs: "\<forall>own \<in> set owns. read_back W X enc (srv_Hub srv1) (own_InstanceID own)"
    using Cons.prems(1,3) by simp_all
  show ?case
  proof (cases r)
    case (Inl e)
    then have "pending_walk W (hub_line X D enc remote now nonce) c owns out srv1 = (srv', Inr es)" using Cons.prems(4) by (simp add: r)
    then show ?thesis using Cons.IH [OF re owns rbs] keep by auto
  next
    case (Inr rs)
    then obtain new where new: "all_some (map (pending_entry (tw_unicode W) own) rs) = Some new"
      "pending_walk W (hub_line X D enc remote now nonce) c owns (out @ new) srv1 = (srv', Inr es)"
      using Cons.prems(4) by (auto simp: r split: option.split_asm)
    obtain inst where "Resolve (env_unicode (w_env X)) (own_InstanceID own) (srv_store srv) = Ret inst" "Pending (inst_ID inst) (srv_Hub srv) = Ret rs"
      using hub_pending_reads [OF assms(2-4) own rb] r Inr by blast
    with pending_waits [OF Cons.prems(1) _ _ new(1)] have "\<forall>e \<in> set new. waits X (srv_Hub srv) own e" by blast
    then show ?thesis using Cons.IH [OF re owns rbs new(2)] keep by auto
  qed
qed simp

lemma matchPending_in:
  assumes "matchPending es rid = Inr e"
  shows "e \<in> set es"
proof (cases "find (\<lambda>x. rec_ID (pe_Record x) = rid) es")
  case None
  then have "filter (\<lambda>x. HasPrefix (rec_ID (pe_Record x)) rid) es = [e]"
    using assms by (simp add: matchPending_def pending_loop_eq split: list.split_asm)
  then have "e \<in> set (filter (\<lambda>x. HasPrefix (rec_ID (pe_Record x)) rid) es)" by simp
  then show ?thesis by simp
next
  case (Some x)
  then have "e = x" using assms by (simp add: matchPending_def pending_loop_eq)
  with Some show ?thesis by (metis find_Some_iff nth_mem)
qed

lemma findPending_waits:
  assumes "reachable (w_env X) (srv_Hub srv)" and "tc_base c = ''https://'' @ host_port hst port" and "plain_host hst" and "list_all is_digit port"
    and "\<forall>own \<in> set (owned d). plain_segment (own_InstanceID own)" and "\<forall>own \<in> set (owned d). read_back W X enc (srv_Hub srv) (own_InstanceID own)"
    and "findPending W (hub_line X D enc remote now nonce) c rid d srv = (srv', Inr e)"
  shows "srv_Hub srv' = srv_Hub srv \<and> (\<exists>own \<in> set (owned d). waits X (srv_Hub srv) own e)"
proof -
  obtain es where w: "pending_walk W (hub_line X D enc remote now nonce) c (owned d) [] srv = (srv', Inr es)" "matchPending es rid = Inr e"
    using assms(7) by (auto simp: findPending_def daemon_Pending_def split: prod.split_asm sum.split_asm)
  have "e \<in> set es" using w(2) by (rule matchPending_in)
  then show ?thesis using pending_walk_waits [OF assms(1-6) w(1)] by auto
qed

section \<open>Deciding\<close>

lemma decision_path: "instance_path iid (''/requests/'' @ rid) = path_of [''v1'', ''instances'', iid, ''requests'', rid]"
  by (simp add: instance_path_def path_of_def slash_def)

lemma decision_route:
  "find (\<lambda>(m, _). m = ''POST'' \<or> m = ''GET'' \<and> ''POST'' = ''HEAD'') (path_routes [''v1'', ''instances'', iid, ''requests'', rid])
     = Some (''POST'', DecisionEp iid rid)"
  by (simp add: path_routes_def)

lemma hub_decide_recorded:
  assumes "hub_decide W (hub_line X D enc remote now nonce) c iid rid dec srv = (srv', Inr ())"
    and "tc_base c = ''https://'' @ host_port hst port" and "plain_host hst" and "list_all is_digit port" and "plain_segment iid" and "plain_segment rid"
    and "\<forall>dec raw. tj_Decision (tw_json W) dec = Some raw \<longrightarrow> js_Decision (w_json X) (raw, True) = Some dec \<and> length raw \<le> maxBodyBytes"
  shows "\<exists>inst. Resolve (env_unicode (w_env X)) iid (srv_store srv) = Ret inst
    \<and> Decide (dr_IO (D srv)) (dr_Now (D srv)) (inst_ID inst) rid dec (srv_Hub srv) = (srv_Hub srv', Ret ())"
proof -
  let ?segs = "[''v1'', ''instances'', iid, ''requests'', rid]"
  have segs: "list_all plain_segment ?segs" using assms(5,6) plain_words by simp
  obtain out where "hub_do W (hub_line X D enc remote now nonce) c ''POST'' (path_of ?segs) (Some (tj_Decision (tw_json W) dec)) srv = (srv', Inr out)"
    using reading_Inr [OF assms(1) [unfolded hub_decide_def decision_path]] by blast
  from hub_do_taken [OF this assms(2-4) _ segs decision_route] obtain q code p where h: "handle X (D srv) q (DecisionEp iid rid) srv = (srv', Some (code, p))" "code < 300"
      "\<not> cl_Broken q" "cl_Body q = the_default [] (tj_Decision (tw_json W) dec)" "tj_Decision (tw_json W) dec \<noteq> None" by auto
  then have js: "js_Decision (w_json X) (cl_Body q, True) = Some dec" "length (cl_Body q) \<le> maxBodyBytes" using assms(7) by auto
  from h(1) have "ownerOnly X (D srv) q iid (handleDecision X (D srv) rid) srv = (srv', Some (code, p))" by (simp add: handle_def)
  from ownerOnly_taken [OF this h(2) js(2) h(3)] obtain inst ns where inst: "Resolve (env_unicode (w_env X)) iid (srv_store srv) = Ret inst"
      "handleDecision X (D srv) rid inst (cl_Body q, True) (srv\<lparr>srv_Nonces := ns\<rparr>) = (srv', Some (code, p))" by blast
  then have "run (Decide (dr_IO (D srv)) (dr_Now (D srv)) (inst_ID inst) rid dec) (\<lambda>h _. writeJSON 204 NoBody)
      (\<lambda>e. writeError (if is_not_found e then 404 else 400) ''bad_request'' (OfHub e)) (srv\<lparr>srv_Nonces := ns\<rparr>) = (srv', Some (code, p))"
    by (simp add: handleDecision_def decode_def js(1))
  from run_taken [OF this h(2)] show ?thesis using inst(1) by fastforce
qed

lemma hub_do_owner:
  assumes "tc_base c = ''https://'' @ host_port hst port" and "plain_host hst" and "list_all is_digit port"
    and "segs \<noteq> []" and "list_all plain_segment segs" and "nonce srv = Some x" and "sent \<noteq> Some None"
    and "find (\<lambda>(m, _). m = verb \<or> m = ''GET'' \<and> verb = ''HEAD'') (path_routes segs) = Some (m, e)"
    and "known_signer W X c (D srv) (now srv) x who srv" and "length (the_default [] (the_default None sent)) \<le> maxBodyBytes"
    and "\<And>q. handle X (D srv) q e = ownerOnly X (D srv) q iid f"
    and "Resolve (env_unicode (w_env X)) iid (srv_store srv) = Ret inst" and "reg_Identity who = inst_Owner inst"
  obtains ns where "Use (srv_Nonces srv) (dr_Now (D srv)) (PublicIdentity (ed_Public (tw_crypto W) (tc_identity c))) (b64url_encode x) Window = (ns, True)"
    and "hub_do W (hub_line X D enc remote now nonce) c verb (path_of segs) sent srv =
      (case f inst (the_default [] (the_default None sent), True) (srv\<lparr>srv_Nonces := ns\<rparr>) of
         (srv, None) \<Rightarrow> (srv, Inl NoAnswer)
       | (srv, Some (code, p)) \<Rightarrow> if 300 \<le> code then (srv, Inl (tenant_responseError W code (enc p))) else (srv, Inr (enc p)))"
proof -
  define own where "own = (\<lambda>(who :: Registration) body (s :: Server). case Resolve (env_unicode (w_env X)) iid (srv_store s) of
      Ret inst \<Rightarrow> if \<not> ConstantTimeEqual (reg_Identity who) (inst_Owner inst)
        then (s, writeError 403 ''forbidden'' (Says ''only the owner of that instance may do that'')) else f inst body s
    | Fail _ \<Rightarrow> (s, writeError 404 ''not_found'' (Says ''no such instance'')) | Panic \<Rightarrow> (s, None))"
  have h: "handle X (D srv) q e = signed X (D srv) q own" for q
    by (simp add: assms(11) ownerOnly_def own_def cong: out.case_cong)
  have o: "own who body (srv\<lparr>srv_Nonces := ns\<rparr>) = f inst body (srv\<lparr>srv_Nonces := ns\<rparr>)" for body ns
    using assms(12,13) by (simp add: own_def ConstantTimeEqual_def)
  show ?thesis
    by (rule hub_do_signed [where nonce = nonce and srv = srv and now = now and D = D and enc = enc and remote = remote and verb = verb
        and sent = sent and X = X and W = W and c = c, OF assms(1-10) h]) (rule that, assumption, simp only: o)
qed

lemma hub_decide_owner:
  assumes "tc_base c = ''https://'' @ host_port hst port" and "plain_host hst" and "list_all is_digit port" and "plain_segment iid" and "plain_segment rid"
    and "nonce srv = Some x" and "known_signer W X c (D srv) (now srv) x who srv"
    and "Resolve (env_unicode (w_env X)) iid (srv_store srv) = Ret inst" and "reg_Identity who = inst_Owner inst"
    and "tj_Decision (tw_json W) dec = Some raw" and "js_Decision (w_json X) (raw, True) = Some dec" and "length raw \<le> maxBodyBytes"
    and "Decide (dr_IO (D srv)) (dr_Now (D srv)) (inst_ID inst) rid dec (srv_Hub srv) = (h', res)"
  obtains ns err where "hub_decide W (hub_line X D enc remote now nonce) c iid rid dec srv =
      (srv\<lparr>srv_Nonces := ns, srv_Hub := h'\<rparr>, case res of Ret _ \<Rightarrow> Inr () | Fail e \<Rightarrow> Inl (err e) | Panic \<Rightarrow> Inl NoAnswer)"
proof -
  let ?segs = "[''v1'', ''instances'', iid, ''requests'', rid]" and ?raw = "Some (Some raw)"
  have segs: "list_all plain_segment ?segs" using assms(4,5) plain_words by simp
  have h: "handle X (D srv) q (DecisionEp iid rid) = ownerOnly X (D srv) q iid (handleDecision X (D srv) rid)" for q by (simp add: handle_def)
  obtain ns where d: "hub_do W (hub_line X D enc remote now nonce) c ''POST'' (path_of ?segs) ?raw srv =
      (case handleDecision X (D srv) rid inst (raw, True) (srv\<lparr>srv_Nonces := ns\<rparr>) of
         (srv, None) \<Rightarrow> (srv, Inl NoAnswer)
       | (srv, Some (code, p)) \<Rightarrow> if 300 \<le> code then (srv, Inl (tenant_responseError W code (enc p))) else (srv, Inr (enc p)))"
    by (rule hub_do_owner [where nonce = nonce and srv = srv and now = now and D = D and enc = enc and remote = remote and verb = "''POST''"
        and sent = ?raw, OF assms(1-3) _ segs assms(6) _ decision_route assms(7) _ h assms(8,9)]) (use assms(12) in simp_all)
  have "handleDecision X (D srv) rid inst (raw, True) (srv\<lparr>srv_Nonces := ns\<rparr>) =
      (srv\<lparr>srv_Nonces := ns, srv_Hub := h'\<rparr>, case res of Ret a \<Rightarrow> writeJSON 204 NoBody | Panic \<Rightarrow> None
         | Fail e \<Rightarrow> writeError (if is_not_found e then 404 else 400) ''bad_request'' (OfHub e))"
    using assms(11,13) by (simp add: handleDecision_def decode_def run_def split: out.split)
  note d = d [unfolded this]
  define err where "err = (\<lambda>e. tenant_responseError W (if is_not_found e then 404 else 400) (enc (Problem ''bad_request'' (OfHub e))))"
  have "hub_decide W (hub_line X D enc remote now nonce) c iid rid dec srv =
      (srv\<lparr>srv_Nonces := ns, srv_Hub := h'\<rparr>, case res of Ret _ \<Rightarrow> Inr () | Fail e \<Rightarrow> Inl (err e) | Panic \<Rightarrow> Inl NoAnswer)"
    unfolding hub_decide_def decision_path reading_def assms(10) d by (cases res) (simp_all add: writeJSON_def writeError_def err_def)
  then show ?thesis by (rule that)
qed

lemma hub_pending_owner:
  assumes "tc_base c = ''https://'' @ host_port hst port" and "plain_host hst" and "list_all is_digit port" and "plain_segment iid"
    and "nonce srv = Some x" and "known_signer W X c (D srv) (now srv) x who srv"
    and "Resolve (env_unicode (w_env X)) iid (srv_store srv) = Ret inst" and "reg_Identity who = inst_Owner inst"
    and "Pending (inst_ID inst) (srv_Hub srv) = Ret rs" and "tj_readRecords (tw_json W) (enc (Waiting rs)) = Some rs"
  obtains ns where "Use (srv_Nonces srv) (dr_Now (D srv)) (PublicIdentity (ed_Public (tw_crypto W) (tc_identity c))) (b64url_encode x) Window = (ns, True)"
    and "hub_pending W (hub_line X D enc remote now nonce) c iid srv = (srv\<lparr>srv_Nonces := ns\<rparr>, Inr rs)"
proof -
  let ?segs = "[''v1'', ''instances'', iid, ''requests'']"
  have segs: "list_all plain_segment ?segs" using assms(4) plain_words by simp
  have h: "handle X (D srv) q (PendingEp iid) = ownerOnly X (D srv) q iid (\<lambda>inst _. handlePending inst)" for q by (simp add: handle_def)
  obtain ns where ns: "Use (srv_Nonces srv) (dr_Now (D srv)) (PublicIdentity (ed_Public (tw_crypto W) (tc_identity c))) (b64url_encode x) Window = (ns, True)"
    and d: "hub_do W (hub_line X D enc remote now nonce) c ''GET'' (path_of ?segs) None srv =
      (case handlePending inst (srv\<lparr>srv_Nonces := ns\<rparr>) of
         (srv, None) \<Rightarrow> (srv, Inl NoAnswer)
       | (srv, Some (code, p)) \<Rightarrow> if 300 \<le> code then (srv, Inl (tenant_responseError W code (enc p))) else (srv, Inr (enc p)))"
    by (rule hub_do_owner [where nonce = nonce and srv = srv and now = now and D = D and enc = enc and remote = remote and verb = "''GET''"
        and sent = None, OF assms(1-3) _ segs assms(5) _ pending_route assms(6) _ h assms(7,8)]) simp_all
  have "handlePending inst (srv\<lparr>srv_Nonces := ns\<rparr>) = (srv\<lparr>srv_Nonces := ns\<rparr>, writeJSON 200 (Waiting rs))"
    using assms(9) by (simp add: handlePending_def run_def)
  then have "hub_pending W (hub_line X D enc remote now nonce) c iid srv = (srv\<lparr>srv_Nonces := ns\<rparr>, Inr rs)"
    unfolding hub_pending_def pending_path reading_def d using assms(10) by (simp add: writeJSON_def)
  with ns show ?thesis by (rule that)
qed

text \<open>
  C9: an owner's decision goes through. Called from the machine whose key owns the instance, within the window and with a
  fresh nonce, the client runs the hub's own decision and nothing else: the hub ends in the state its decision leads to, and
  the client reports success exactly when the hub has succeeded.
\<close>

theorem owner_decision_goes_through:
  assumes "tc_base c = ''https://'' @ host_port hst port" and "plain_host hst" and "list_all is_digit port" and "plain_segment iid" and "plain_segment rid"
    and "nonce srv = Some x" and "known_signer W X c (D srv) (now srv) x who srv"
    and "Resolve (env_unicode (w_env X)) iid (srv_store srv) = Ret inst" and "reg_Identity who = inst_Owner inst"
    and "tj_Decision (tw_json W) dec = Some raw" and "js_Decision (w_json X) (raw, True) = Some dec" and "length raw \<le> maxBodyBytes"
  shows "\<exists>srv' r. hub_decide W (hub_line X D enc remote now nonce) c iid rid dec srv = (srv', r)
    \<and> srv_Hub srv' = fst (Decide (dr_IO (D srv)) (dr_Now (D srv)) (inst_ID inst) rid dec (srv_Hub srv))
    \<and> (r = Inr () \<longleftrightarrow> snd (Decide (dr_IO (D srv)) (dr_Now (D srv)) (inst_ID inst) rid dec (srv_Hub srv)) = Ret ())"
proof -
  obtain h' res where d: "Decide (dr_IO (D srv)) (dr_Now (D srv)) (inst_ID inst) rid dec (srv_Hub srv) = (h', res)" by fastforce
  obtain ns err where "hub_decide W (hub_line X D enc remote now nonce) c iid rid dec srv =
      (srv\<lparr>srv_Nonces := ns, srv_Hub := h'\<rparr>, case res of Ret _ \<Rightarrow> Inr () | Fail e \<Rightarrow> Inl (err e) | Panic \<Rightarrow> Inl NoAnswer)"
    by (rule hub_decide_owner [where nonce = nonce and srv = srv and now = now and D = D and enc = enc and remote = remote, OF assms d])
  then show ?thesis by (cases res) (simp_all add: d)
qed

text \<open>
  What is approved from the owner's machine is what the hub holds and hands out. The request waited in an
  instance whose authority the machine holds. Afterwards it is approved, and the bundle its applicant collects has
  a certificate for the key of the request and for exactly the addresses and the routes of the one member the hub
  keeps for it: the routes others are told to send there are those its certificate lets it carry, the
  addresses are those it was given, and the fingerprint a ban would put on the blocklist is that certificate's.
\<close>

lemma Approve_end_to_end:
  assumes "reachable (w_env X) (srv_Hub srv)" and "certlib_ok (tw_cert W)"
    and "tc_base c = ''https://'' @ host_port hst port" and "plain_host hst" and "list_all is_digit port"
    and "\<forall>own \<in> set (owned d). plain_segment (own_InstanceID own)" and "plain_segment (rec_ID (pe_Record entry))"
    and "\<forall>own \<in> set (owned d). read_back W X enc (srv_Hub srv) (own_InstanceID own)"
    and "\<forall>dec raw. tj_Decision (tw_json W) dec = Some raw \<longrightarrow> js_Decision (w_json X) (raw, True) = Some dec \<and> length raw \<le> maxBodyBytes"
    and "Approve W (hub_line X D enc remote now nonce) c rid routes noDomain want d srv = (srv', Inr entry)"
  shows "\<exists>own i j q b m crt. own \<in> set (owned d) \<and> Resolve (env_unicode (w_env X)) (own_InstanceID own) (srv_store srv) = Ret i
    \<and> mget (inst_Requests i) (rec_ID (pe_Record entry)) = Some (pe_Record entry) \<and> rec_Status (pe_Record entry) = StatusPending
    \<and> mget (instances (srv_store srv')) (inst_ID i) = Some j
    \<and> mget (inst_Requests j) (rec_ID (pe_Record entry)) = Some q \<and> rec_Status q = StatusApproved \<and> rec_Bundle q = Some b
    \<and> mget (inst_Members j) (rec_Fingerprint (pe_Record entry)) = Some m \<and> \<not> Banned m
    \<and> cl_UnmarshalCertificate (tw_cert W) (bnd_Certificate b) = Some crt \<and> \<not> tbs_IsCA (crt_TBS crt)
    \<and> map_option fst (cl_UnmarshalPublicKey (tw_cert W) (req_PublicKey (rec_Request (pe_Record entry)))) = Some (tbs_PublicKey (crt_TBS crt))
    \<and> set (tbs_Networks (crt_TBS crt)) = set (addresses [mem_Address m, mem_Address6 m])
    \<and> bnd_OverlayAddress b = mem_Address m \<and> bnd_OverlayAddress6 b = mem_Address6 m
    \<and> mem_Routes m = pe_Routes entry \<and> set (tbs_UnsafeNetworks (crt_TBS crt)) = set (mem_Routes m)
    \<and> cl_Fingerprint (tw_cert W) crt = Some (mem_CertFingerprint m)"
proof -
  let ?N = "hub_line X D enc remote now nonce" and ?rid = "rec_ID (pe_Record entry)"
  obtain srv1 e0 kept dropped domain own name certPEM fp where f: "findPending W ?N c rid d srv = (srv1, Inr e0)"
    and i: "issue W (ln_Now ?N srv1) own e0 kept want = Inr (name, certPEM, fp)"
    and dec: "hub_decide W ?N c (pe_InstanceID e0) (rec_ID (pe_Record e0)) (approval own name certPEM fp kept domain) srv1 = (srv', Inr ())"
    and e: "entry = e0\<lparr>pe_Routes := kept, pe_Dropped := dropped, pe_Domain := domain\<rparr>"
    by (rule Approve_Inr [OF assms(10)])
  have rec: "pe_Record entry = pe_Record e0" "pe_Routes entry = kept" by (simp_all add: e)
  obtain own0 where hub: "srv_Hub srv1 = srv_Hub srv" and own0: "own0 \<in> set (owned d)" and w: "waits X (srv_Hub srv) own0 e0"
    using findPending_waits [OF assms(1,3-6,8) f] by blast
  have id: "pe_InstanceID e0 = own_InstanceID own0" using w by (simp add: waits_def)
  have plain: "plain_segment (pe_InstanceID e0)" "plain_segment (rec_ID (pe_Record e0))" using id own0 assms(6,7) rec by simp_all
  obtain i where inst: "Resolve (env_unicode (w_env X)) (own_InstanceID own0) (srv_store srv) = Ret i"
    and wait: "mget (inst_Requests i) ?rid = Some (pe_Record entry)" "rec_Status (pe_Record entry) = StatusPending"
    using w by (auto simp: waits_def rec)
  have d: "Decide (dr_IO (D srv1)) (dr_Now (D srv1)) (inst_ID i) ?rid (approval own name certPEM fp kept domain) (srv_Hub srv) = (srv_Hub srv', Ret ())"
    using hub_decide_recorded [OF dec assms(3-5) plain assms(9)] inst hub id rec by simp
  have st: "mget (instances (srv_store srv)) (inst_ID i) = Some i"
    using Resolve_stored [OF _ inst] reachable_inv [OF assms(1)] by (auto simp: hub_inv_def store_inv_def)
  let ?dec = "approval own name certPEM fp kept domain"
  have ok: "dec_Status ?dec = StatusApproved" by (simp add: approval_def)
  obtain i' j r b n where i': "mget (instances (srv_store srv)) (inst_ID i) = Some i'" and j: "mget (instances (srv_store srv')) (inst_ID i) = Some j"
    and r: "mget (inst_Requests i') ?rid = Some r" and b: "dec_Bundle ?dec = Some b"
    and q: "mget (inst_Requests j) ?rid = Some (r\<lparr>rec_Bundle := Some (approved_bundle (hub_cfg (srv_Hub srv)) i' r b), rec_Status := StatusApproved,
        rec_DecidedAt := dr_Now (D srv1)\<rparr>)"
    and m: "\<forall>fp. mget (inst_Members j) fp = (if fp = rec_Fingerprint r then Some (decided_member (dr_Now (D srv1)) r n ?dec) else mget (inst_Members i') fp)"
    by (rule Decide_approved [OF assms(1) d ok])
  have r: "i' = i" "r = pe_Record entry" using i' st r wait(1) by simp_all
  obtain crt where crt: "cl_UnmarshalCertificate (tw_cert W) certPEM = Some crt" "cl_Fingerprint (tw_cert W) crt = Some fp"
      "map_option fst (cl_UnmarshalPublicKey (tw_cert W) (req_PublicKey (rec_Request (pe_Record e0)))) = Some (tbs_PublicKey (crt_TBS crt))"
      "set (tbs_Networks (crt_TBS crt)) = set (addresses [rec_OverlayAddress (pe_Record e0), rec_OverlayAddress6 (pe_Record e0)])"
      "set (tbs_UnsafeNetworks (crt_TBS crt)) = set kept" "\<not> tbs_IsCA (crt_TBS crt)"
    using issue_Inr [OF assms(2) i] by blast
  let ?q = "r\<lparr>rec_Bundle := Some (approved_bundle (hub_cfg (srv_Hub srv)) i' r b), rec_Status := StatusApproved, rec_DecidedAt := dr_Now (D srv1)\<rparr>"
  let ?b = "approved_bundle (hub_cfg (srv_Hub srv)) i' r b" and ?m = "decided_member (dr_Now (D srv1)) r n ?dec"
  have q': "rec_Status ?q = StatusApproved" "rec_Bundle ?q = Some ?b" by simp_all
  have m': "mget (inst_Members j) (rec_Fingerprint (pe_Record entry)) = Some ?m" "\<not> Banned ?m" using m r(2) by (simp_all add: Banned_def decided_member_def)
  have b': "bnd_Certificate ?b = certPEM" "bnd_OverlayAddress ?b = rec_OverlayAddress r" "bnd_OverlayAddress6 ?b = rec_OverlayAddress6 r"
    using b by (auto simp: approved_bundle_def approval_def)
  have f': "mem_Routes ?m = kept" "mem_Address ?m = rec_OverlayAddress r" "mem_Address6 ?m = rec_OverlayAddress6 r" "mem_CertFingerprint ?m = fp"
    by (simp_all add: decided_member_def approval_def)
  have r0: "r = pe_Record e0" using r(2) rec(1) by simp
  show ?thesis
    by (rule exI [of _ own0], rule exI [of _ i], rule exI [of _ j], rule exI [of _ ?q], rule exI [of _ ?b], rule exI [of _ ?m], rule exI [of _ crt])
      (use own0 inst wait j q q' m' crt in \<open>simp only: b' [unfolded r0] f' [unfolded r0] r0 rec simp_thms\<close>)
qed

end
