(* ===== verification/Control.thy ===== *)
theory Control
  imports Ownership
begin

text \<open>
  The control socket of the tenant's daemon, \<open>src/internal/tenant/socket.go\<close>: the requests of the command line,
  one handler for each, and the table that leads to them. A request is a verb, a path as it was escaped and a
  body; \<open>encoding/json\<close> is the record \<open>sjson\<close>. What happens at the moment of a request (keys that are drawn, writes
  that fail, sockets that can be bound) is the record \<open>ctx\<close>.

  The answer to a request is a status and what is written, as a value; it is \<open>None\<close> when the handler panics,
  for then the connection is closed. Who may reach the socket is decided by its owner and its mode,
  \<open>applySocketPermissions\<close>.
\<close>

section \<open>Requests and answers\<close>

record ConnectRequest =
  cnq_Instance :: string

record ConfigRequest =
  cfq_Instance :: string
  cfq_ShowKeys :: bool

record ApproveRequest =
  apq_ID :: string
  apq_Name :: string
  apq_Routes :: "prefix list option"
  apq_NoDomain :: bool

record DecisionRequest =
  deq_ID :: string
  deq_Reason :: string

record DeleteRequest =
  dlq_Instance :: string
  dlq_Force :: bool

record control_TokenRequest =
  tkq_Instance :: string
  tkq_Token :: string

record InboundRequest =
  ibq_Inbound :: string

record AliasRequest =
  alq_Alias :: string
  alq_Canonical :: string

record DNSRequest =
  dnq_Mode :: string
  dnq_Remove :: bool

record FamiliesRequest =
  fmq_Families :: string

record CheatRequest =
  chq_Vendor :: string
  chq_Name :: string
  chq_On :: bool

record CreateRequest =
  crq_Name :: string
  crq_SharedToken :: string

record ConnectionStatus =
  cns_Instance :: string
  cns_InstanceID :: string
  cns_Role :: string
  cns_Address :: prefix
  cns_Address6 :: prefix
  cns_Device :: string
  cns_Running :: bool
  cns_Waiting :: bool
  cns_Routes :: "Route list"
  cns_Endpoint :: string

record Status =
  sts_Hub :: string
  sts_Identity :: string
  sts_Binder :: string
  sts_Name :: string
  sts_Families :: string
  sts_Inbound :: string
  sts_Cheats :: "string list"
  sts_Version :: string
  sts_Connections :: "ConnectionStatus list"
  sts_Pending :: "PendingEntry list"

record CreatedReply =
  cre_ID :: string
  cre_Name :: string
  cre_Overlay :: prefix
  cre_Overlay6 :: "prefix option"
  cre_Endpoint :: string
  cre_EnrollURL :: string
  cre_SharedToken :: string

datatype control_err = NotDecoded | OfDaemon daemon_err | OfState tenant_err | OfMode resolver_err

datatype reply =
    StatusIs Status
  | Visible "InstanceSummary list"
  | Inside "MemberEntry list"
  | Reaches "Reach list"
  | Info Shown
  | Rendered string
  | Waits "PendingEntry list"
  | Made CreatedReply
  | Asked string
  | Admitted PendingEntry
  | Gone MemberEntry
  | NewToken TokenResult
  | Restarts string
  | FamiliesAre string
  | CheatIs string string bool
  | Plan "DNSEntry list"
  | AliasesAre "(string \<times> string) list"
  | InboundIs string
  | Deleted DeleteResult
  | NoContent
  | Failed control_err
  | OfMux

type_synonym control_answer = "(nat \<times> reply) option"

record sjson =
  sj_Connect :: "string \<Rightarrow> ConnectRequest option"
  sj_Config :: "string \<Rightarrow> ConfigRequest option"
  sj_Approve :: "string \<Rightarrow> ApproveRequest option"
  sj_Decision :: "string \<Rightarrow> DecisionRequest option"
  sj_Ban :: "string \<Rightarrow> daemon_BanRequest option"
  sj_Delete :: "string \<Rightarrow> DeleteRequest option"
  sj_Token :: "string \<Rightarrow> control_TokenRequest option"
  sj_Inbound :: "string \<Rightarrow> InboundRequest option"
  sj_Alias :: "string \<Rightarrow> AliasRequest option"
  sj_DNS :: "string \<Rightarrow> DNSRequest option"
  sj_Families :: "string \<Rightarrow> FamiliesRequest option"
  sj_Cheat :: "string \<Rightarrow> CheatRequest option"
  sj_Create :: "string \<Rightarrow> CreateRequest option"

text \<open>\<open>cx_IO\<close> is the fate of each write of a refresh; the write of the operation itself is among the draws.\<close>

record ctx =
  cx_json :: sjson
  cx_Draws :: draws
  cx_IO :: "string \<Rightarrow> tenant_fault option"
  cx_Listeners :: listeners
  cx_Version :: string

definition control_writeJSON :: "nat \<Rightarrow> reply \<Rightarrow> control_answer" where
  "control_writeJSON status v = Some (status, v)"

definition control_writeError :: "control_err \<Rightarrow> control_answer" where
  "control_writeError e = (if e = OfDaemon DaemonPanic then None else control_writeJSON 400 (Failed e))"

text \<open>A body that cannot be decoded, and the two ways a handler ends.\<close>

type_synonym 'h turn = "Daemon \<Rightarrow> 'h \<Rightarrow> 'h \<times> Daemon \<times> control_answer"

definition body_of :: "(string \<Rightarrow> 'a option) \<Rightarrow> string \<Rightarrow> ('a \<Rightarrow> 'h turn) \<Rightarrow> 'h turn" where
  "body_of dec body k d h =
     (case dec body of None \<Rightarrow> (h, d, control_writeError NotDecoded) | Some req \<Rightarrow> k req d h)"

definition concluded :: "('a \<Rightarrow> control_answer) \<Rightarrow> daemon_err + 'a \<Rightarrow> control_answer" where
  "concluded ok r = (case r of Inl e \<Rightarrow> control_writeError (OfDaemon e) | Inr a \<Rightarrow> ok a)"

abbreviation shown_as :: "('a \<Rightarrow> reply) \<Rightarrow> 'a \<Rightarrow> control_answer" where
  "shown_as f a \<equiv> control_writeJSON 200 (f a)"

section \<open>Asking\<close>

fun status_loop :: "tworld \<Rightarrow> 'h line \<Rightarrow> tclient \<Rightarrow> Daemon \<Rightarrow> Connection list \<Rightarrow> 'h \<Rightarrow> 'h \<times> ConnectionStatus list" where
  "status_loop W N c d [] h = (h, [])"
| "status_loop W N c d (conn # conns) h =
     (let (h, routes) = (case hub_routes W N c (con_InstanceID conn) h of (h, Inl _) \<Rightarrow> (h, []) | (h, Inr table) \<Rightarrow> (h, rtab_Routes table));
          endpoint = (case OwnedOf (con_InstanceID conn) (dae_state d) of
             None \<Rightarrow> []
           | Some own \<Rightarrow> (let (hubURL, hubPin) = hubAddress (tw_unicode W) (dae_state d) in
                          shorthandEndpoint hubURL (instanceRef conn) (own_SharedToken own) hubPin));
          entry = \<lparr>cns_Instance = con_Name conn, cns_InstanceID = con_InstanceID conn, cns_Role = con_Role conn, cns_Address = con_Address conn,
             cns_Address6 = con_Address6 conn, cns_Device = con_Device conn, cns_Running = runner_isRunning (con_InstanceID conn) (dae_run d),
             cns_Waiting = (\<not> Ready conn), cns_Routes = routes, cns_Endpoint = endpoint\<rparr>;
          (h, rest) = status_loop W N c d conns h
      in (h, entry # rest))"

definition control_Status :: "tworld \<Rightarrow> 'h line \<Rightarrow> tclient \<Rightarrow> ctx \<Rightarrow> 'h turn" where
  "control_Status W N c X d h =
     (let s = dae_state d; (h, conns) = status_loop W N c d (Connections s) h;
          status = (\<lambda>pending. \<lparr>sts_Hub = da_HubURL (sta_data s), sts_Identity = [], sts_Binder = da_Binder (sta_data s), sts_Name = da_Name (sta_data s),
             sts_Families = Families s, sts_Inbound = Inbound s, sts_Cheats = CheatsOn (tw_cheating W) s, sts_Version = cx_Version X,
             sts_Connections = conns, sts_Pending = pending\<rparr>)
      in case daemon_Pending W N c d h of
           (h, Inr pending) \<Rightarrow> (h, d, shown_as StatusIs (status pending))
         | (h, Inl DaemonPanic) \<Rightarrow> (h, d, None)
         | (h, Inl _) \<Rightarrow> (h, d, shown_as StatusIs (status [])))"

definition control_List :: "tworld \<Rightarrow> 'h line \<Rightarrow> tclient \<Rightarrow> 'h turn" where
  "control_List W N c d h = (case List W N c h of (h, r) \<Rightarrow> (h, d, concluded (shown_as Visible) r))"

definition control_Members :: "tworld \<Rightarrow> 'h line \<Rightarrow> tclient \<Rightarrow> 'h turn" where
  "control_Members W N c d h = (case daemon_Members W N c d h of (h, ms) \<Rightarrow> (h, d, shown_as Inside ms))"

definition control_Pending :: "tworld \<Rightarrow> 'h line \<Rightarrow> tclient \<Rightarrow> 'h turn" where
  "control_Pending W N c d h = (case daemon_Pending W N c d h of (h, r) \<Rightarrow> (h, d, concluded (shown_as Waits) r))"

definition control_Show :: "tworld \<Rightarrow> 'h line \<Rightarrow> tclient \<Rightarrow> ctx \<Rightarrow> string \<Rightarrow> 'h turn" where
  "control_Show W N c X body = body_of (sj_Connect (cx_json X)) body (\<lambda>req d h.
     case Show W N c (cnq_Instance req) d h of (h, r) \<Rightarrow> (h, d, concluded (shown_as Info) r))"

definition control_Config :: "tworld \<Rightarrow> 'h line \<Rightarrow> tclient \<Rightarrow> ctx \<Rightarrow> string \<Rightarrow> 'h turn" where
  "control_Config W N c X body = body_of (sj_Config (cx_json X)) body (\<lambda>req d h.
     case ConnectionConfig W N c (cfq_Instance req) (cfq_ShowKeys req) d h of (h, r) \<Rightarrow> (h, d, concluded (shown_as Rendered) r))"

text \<open>
  The route tables of the connections that are ready, asked for one after the other until one is found that
  \<open>stop\<close> is after. They are what \<open>Reachable\<close>, \<open>DNSPlan\<close> and \<open>SetAlias\<close> work on.
\<close>

fun ask_routes ::
  "tworld \<Rightarrow> 'h line \<Rightarrow> tclient \<Rightarrow> (Connection \<Rightarrow> RouteTable \<Rightarrow> bool) \<Rightarrow> Connection list \<Rightarrow> 'h \<Rightarrow> 'h \<times> (string \<times> RouteTable) list" where
  "ask_routes W N c stop [] h = (h, [])"
| "ask_routes W N c stop (conn # conns) h =
     (if \<not> Ready conn then ask_routes W N c stop conns h
      else
        (case hub_routes W N c (con_InstanceID conn) h of
           (h, Inl _) \<Rightarrow> ask_routes W N c stop conns h
         | (h, Inr table) \<Rightarrow>
             if stop conn table then (h, [(con_InstanceID conn, table)])
             else (case ask_routes W N c stop conns h of (h, rest) \<Rightarrow> (h, (con_InstanceID conn, table) # rest))))"

definition answers :: "(string \<times> RouteTable) list \<Rightarrow> string \<Rightarrow> string + RouteTable" where
  "answers tables iid = (case map_of tables iid of None \<Rightarrow> Inl [] | Some table \<Rightarrow> Inr table)"

definition control_Reach :: "tworld \<Rightarrow> 'h line \<Rightarrow> tclient \<Rightarrow> 'h turn" where
  "control_Reach W N c d h =
     (case ask_routes W N c (\<lambda>_ _. False) (Connections (dae_state d)) h of
        (h, tables) \<Rightarrow> (h, d, shown_as Reaches (Reachable (tw_unicode W) (answers tables) d)))"

definition control_DNSPlan :: "tworld \<Rightarrow> 'h line \<Rightarrow> tclient \<Rightarrow> ctx \<Rightarrow> string \<Rightarrow> 'h turn" where
  "control_DNSPlan W N c X body = body_of (sj_DNS (cx_json X)) body (\<lambda>req d h.
     case lookupMode (dnq_Mode req) of
       Inl e \<Rightarrow> (h, d, control_writeError (OfMode e))
     | Inr _ \<Rightarrow>
         (case ask_routes W N c (\<lambda>_ _. False) (if dnq_Remove req then [] else Connections (dae_state d)) h of
            (h, tables) \<Rightarrow>
              (case DNSPlan (tw_unicode W) (cx_Listeners X) (answers tables) (dnq_Remove req) d of
                 (d, plan) \<Rightarrow> (h, d, shown_as Plan plan))))"

section \<open>Changing this machine\<close>

text \<open>What is set takes effect with the refresh that follows; its own errors are only logged.\<close>

definition control_refresh :: "tworld \<Rightarrow> 'h line \<Rightarrow> tclient \<Rightarrow> ctx \<Rightarrow> (State \<Rightarrow> reply) \<Rightarrow> 'h turn" where
  "control_refresh W N c X ok d h =
     (case Refresh W N c (cx_Listeners X) (cx_IO X) d h of (h, d) \<Rightarrow> (h, d, control_writeJSON 200 (ok (dae_state d))))"

definition control_set ::
  "tworld \<Rightarrow> 'h line \<Rightarrow> tclient \<Rightarrow> ctx \<Rightarrow> (State \<Rightarrow> State \<times> (tenant_err + unit)) \<Rightarrow> (State \<Rightarrow> reply) \<Rightarrow> 'h turn" where
  "control_set W N c X change ok d h =
     (case change (dae_state d) of
        (s, Inl e) \<Rightarrow> (h, d\<lparr>dae_state := s\<rparr>, control_writeError (OfState e))
      | (s, Inr _) \<Rightarrow> control_refresh W N c X ok (d\<lparr>dae_state := s\<rparr>) h)"

definition control_Inbound :: "tworld \<Rightarrow> 'h line \<Rightarrow> tclient \<Rightarrow> ctx \<Rightarrow> string \<Rightarrow> 'h turn" where
  "control_Inbound W N c X body = body_of (sj_Inbound (cx_json X)) body (\<lambda>req.
     control_set W N c X (SetInbound (dw_IO (cx_Draws X)) (ibq_Inbound req)) (\<lambda>s. InboundIs (Inbound s)))"

definition control_Families :: "tworld \<Rightarrow> 'h line \<Rightarrow> tclient \<Rightarrow> ctx \<Rightarrow> string \<Rightarrow> 'h turn" where
  "control_Families W N c X body = body_of (sj_Families (cx_json X)) body (\<lambda>req.
     control_set W N c X (SetFamilies (dw_IO (cx_Draws X)) (fmq_Families req)) (\<lambda>s. FamiliesAre (Families s)))"

definition control_Cheat :: "tworld \<Rightarrow> 'h line \<Rightarrow> tclient \<Rightarrow> ctx \<Rightarrow> string \<Rightarrow> 'h turn" where
  "control_Cheat W N c X body = body_of (sj_Cheat (cx_json X)) body (\<lambda>req.
     control_set W N c X (SetCheat (dw_IO (cx_Draws X)) (chq_Vendor req) (chq_Name req) (chq_On req))
       (\<lambda>s. CheatIs (chq_Vendor req) (chq_Name req) (Cheat (chq_Vendor req) (chq_Name req) s)))"

text \<open>The name an alias is asked for, once both names can be read; only then is the hub asked.\<close>

definition alias_target :: "unicode \<Rightarrow> string \<Rightarrow> string \<Rightarrow> string option" where
  "alias_target U alias canonical =
     (if canonical = [] then None
      else (case (ParseMemberName U alias, ParseMemberName U canonical) of (Inr _, Inr target) \<Rightarrow> Some target | _ \<Rightarrow> None))"

definition control_Alias :: "tworld \<Rightarrow> 'h line \<Rightarrow> tclient \<Rightarrow> ctx \<Rightarrow> string \<Rightarrow> 'h turn" where
  "control_Alias W N c X body = body_of (sj_Alias (cx_json X)) body (\<lambda>req d h.
     let U = tw_unicode W;
         (h, tables) = (case alias_target U (alq_Alias req) (alq_Canonical req) of
            None \<Rightarrow> (h, [])
          | Some target \<Rightarrow>
              ask_routes W N c (\<lambda>conn table. table_match U (routerTableFor U table (con_Name conn)) target \<noteq> None) (Connections (dae_state d)) h)
     in case SetAlias U (answers tables) (dw_IO (cx_Draws X)) (alq_Alias req) (alq_Canonical req) d of
          (d, Inl e) \<Rightarrow> (h, d, control_writeError (OfState e))
        | (d, Inr _) \<Rightarrow> (h, d, shown_as AliasesAre (Aliases (dae_state d))))"

definition control_Restart :: "ctx \<Rightarrow> 'h turn" where
  "control_Restart X d h = (h, d, shown_as Restarts (cx_Version X))"

section \<open>Instances and members\<close>

definition control_Create :: "tworld \<Rightarrow> 'h line \<Rightarrow> tclient \<Rightarrow> ctx \<Rightarrow> string \<Rightarrow> 'h turn" where
  "control_Create W N c X body = body_of (sj_Create (cx_json X)) body (\<lambda>req d h.
     case daemon_Create W N c (cx_Draws X) (crq_Name req) (crq_SharedToken req) d h of
       (h, d, r) \<Rightarrow> (h, d, concluded (\<lambda>(created, token).
         let (hubURL, hubPin) = hubAddress (tw_unicode W) (dae_state d) in
         shown_as Made \<lparr>cre_ID = cs_ID created, cre_Name = cs_Name created, cre_Overlay = cs_Overlay created,
           cre_Overlay6 = (if PrefixIsValid (cs_Overlay6 created) then Some (cs_Overlay6 created) else None),
           cre_Endpoint = shorthandEndpoint hubURL (cs_Name created) token hubPin,
           cre_EnrollURL = hubURL @ ''/v1/enroll/'' @ cs_ID created, cre_SharedToken = token\<rparr>) r))"

definition control_Connect :: "tworld \<Rightarrow> 'h line \<Rightarrow> tclient \<Rightarrow> ctx \<Rightarrow> string \<Rightarrow> 'h turn" where
  "control_Connect W N c X body = body_of (sj_Connect (cx_json X)) body (\<lambda>req d h.
     case Connect W N c (cx_Draws X) (cnq_Instance req) d h of
       (h, d, Inl e) \<Rightarrow> (h, d, control_writeError (OfDaemon e))
     | (h, d, Inr _) \<Rightarrow> control_refresh W N c X (\<lambda>_. Asked (cnq_Instance req)) d h)"

definition control_Disconnect :: "tworld \<Rightarrow> ctx \<Rightarrow> string \<Rightarrow> 'h turn" where
  "control_Disconnect W X body = body_of (sj_Connect (cx_json X)) body (\<lambda>req d h.
     case Disconnect W (dw_IO (cx_Draws X)) (cnq_Instance req) d of (d, r) \<Rightarrow> (h, d, concluded (\<lambda>_. Some (204, NoContent)) r))"

definition control_Approve :: "tworld \<Rightarrow> 'h line \<Rightarrow> tclient \<Rightarrow> ctx \<Rightarrow> string \<Rightarrow> 'h turn" where
  "control_Approve W N c X body = body_of (sj_Approve (cx_json X)) body (\<lambda>req d h.
     case Approve W N c (apq_ID req) (apq_Routes req) (apq_NoDomain req) (apq_Name req) d h of
       (h, r) \<Rightarrow> (h, d, concluded (shown_as Admitted) r))"

definition control_Reject :: "tworld \<Rightarrow> 'h line \<Rightarrow> tclient \<Rightarrow> ctx \<Rightarrow> string \<Rightarrow> 'h turn" where
  "control_Reject W N c X body = body_of (sj_Decision (cx_json X)) body (\<lambda>req d h.
     case Reject W N c (deq_ID req) (deq_Reason req) d h of (h, r) \<Rightarrow> (h, d, concluded (\<lambda>_. Some (204, NoContent)) r))"

definition control_Forget :: "tworld \<Rightarrow> 'h line \<Rightarrow> tclient \<Rightarrow> ctx \<Rightarrow> string \<Rightarrow> 'h turn" where
  "control_Forget W N c X body = body_of (sj_Decision (cx_json X)) body (\<lambda>req d h.
     case daemon_Forget W N c (deq_ID req) d h of (h, r) \<Rightarrow> (h, d, concluded (\<lambda>_. Some (204, NoContent)) r))"

definition control_Ban :: "tworld \<Rightarrow> 'h line \<Rightarrow> tclient \<Rightarrow> ctx \<Rightarrow> string \<Rightarrow> 'h turn" where
  "control_Ban W N c X body = body_of (sj_Ban (cx_json X)) body (\<lambda>req d h.
     case daemon_Ban W N c req d h of (h, r) \<Rightarrow> (h, d, concluded (\<lambda>_. Some (204, NoContent)) r))"

definition control_Unban :: "tworld \<Rightarrow> 'h line \<Rightarrow> tclient \<Rightarrow> ctx \<Rightarrow> string \<Rightarrow> 'h turn" where
  "control_Unban W N c X body = body_of (sj_Ban (cx_json X)) body (\<lambda>req d h.
     case daemon_Unban W N c req d h of (h, r) \<Rightarrow> (h, d, concluded (\<lambda>_. Some (204, NoContent)) r))"

definition control_RemoveMember :: "tworld \<Rightarrow> 'h line \<Rightarrow> tclient \<Rightarrow> ctx \<Rightarrow> string \<Rightarrow> 'h turn" where
  "control_RemoveMember W N c X body = body_of (sj_Ban (cx_json X)) body (\<lambda>req d h.
     case daemon_RemoveMember W N c req d h of (h, r) \<Rightarrow> (h, d, concluded (shown_as Gone) r))"

definition control_SetToken :: "tworld \<Rightarrow> 'h line \<Rightarrow> tclient \<Rightarrow> ctx \<Rightarrow> string \<Rightarrow> 'h turn" where
  "control_SetToken W N c X body = body_of (sj_Token (cx_json X)) body (\<lambda>req d h.
     case daemon_SetToken W N c (cx_Draws X) (tkq_Instance req) (tkq_Token req) d h of (h, d, r) \<Rightarrow> (h, d, concluded (shown_as NewToken) r))"

definition control_Delete :: "tworld \<Rightarrow> 'h line \<Rightarrow> tclient \<Rightarrow> ctx \<Rightarrow> string \<Rightarrow> 'h turn" where
  "control_Delete W N c X body = body_of (sj_Delete (cx_json X)) body (\<lambda>req d h.
     case daemon_Delete W N c (dw_IO (cx_Draws X)) (dlq_Instance req) (dlq_Force req) d h of (h, d, r) \<Rightarrow> (h, d, concluded (shown_as Deleted) r))"

section \<open>The table\<close>

datatype control_endpoint =
    StatusC | ListC | MembersC | ReachC | ShowC | ConfigC | PendingC | CreateC | ConnectC | DisconnectC | ApproveC | RejectC | ForgetC
  | BanC | UnbanC | RemoveC | TokenC | RestartC | FamiliesC | CheatC | DNSC | AliasC | InboundC | DeleteC

definition control_routes :: "bool \<Rightarrow> (string \<times> string list \<times> control_endpoint) list" where
  "control_routes cheating =
     [(''GET'', [''status''], StatusC), (''GET'', [''list''], ListC), (''GET'', [''members''], MembersC), (''GET'', [''reach''], ReachC),
      (''POST'', [''show''], ShowC), (''POST'', [''config''], ConfigC), (''GET'', [''pending''], PendingC), (''POST'', [''create''], CreateC),
      (''POST'', [''connect''], ConnectC), (''POST'', [''disconnect''], DisconnectC), (''POST'', [''approve''], ApproveC),
      (''POST'', [''reject''], RejectC), (''POST'', [''forget''], ForgetC), (''POST'', [''ban''], BanC), (''POST'', [''unban''], UnbanC),
      (''POST'', [''member'', ''remove''], RemoveC), (''POST'', [''instance'', ''token''], TokenC), (''POST'', [''restart''], RestartC),
      (''POST'', [''families''], FamiliesC)]
     @ (if cheating then [(''POST'', [''cheat''], CheatC)] else [])
     @ [(''POST'', [''dns''], DNSC), (''POST'', [''alias''], AliasC), (''POST'', [''inbound''], InboundC), (''POST'', [''delete''], DeleteC)]"

definition control_handle :: "tworld \<Rightarrow> 'h line \<Rightarrow> tclient \<Rightarrow> ctx \<Rightarrow> string \<Rightarrow> control_endpoint \<Rightarrow> 'h turn" where
  "control_handle W N c X body e =
     (case e of
        StatusC \<Rightarrow> control_Status W N c X
      | ListC \<Rightarrow> control_List W N c
      | MembersC \<Rightarrow> control_Members W N c
      | ReachC \<Rightarrow> control_Reach W N c
      | ShowC \<Rightarrow> control_Show W N c X body
      | ConfigC \<Rightarrow> control_Config W N c X body
      | PendingC \<Rightarrow> control_Pending W N c
      | CreateC \<Rightarrow> control_Create W N c X body
      | ConnectC \<Rightarrow> control_Connect W N c X body
      | DisconnectC \<Rightarrow> control_Disconnect W X body
      | ApproveC \<Rightarrow> control_Approve W N c X body
      | RejectC \<Rightarrow> control_Reject W N c X body
      | ForgetC \<Rightarrow> control_Forget W N c X body
      | BanC \<Rightarrow> control_Ban W N c X body
      | UnbanC \<Rightarrow> control_Unban W N c X body
      | RemoveC \<Rightarrow> control_RemoveMember W N c X body
      | TokenC \<Rightarrow> control_SetToken W N c X body
      | RestartC \<Rightarrow> control_Restart X
      | FamiliesC \<Rightarrow> control_Families W N c X body
      | CheatC \<Rightarrow> control_Cheat W N c X body
      | DNSC \<Rightarrow> control_DNSPlan W N c X body
      | AliasC \<Rightarrow> control_Alias W N c X body
      | InboundC \<Rightarrow> control_Inbound W N c X body
      | DeleteC \<Rightarrow> control_Delete W N c X body)"

definition control :: "tworld \<Rightarrow> 'h line \<Rightarrow> tclient \<Rightarrow> ctx \<Rightarrow> string \<Rightarrow> string \<Rightarrow> string \<Rightarrow> 'h turn" where
  "control W N c X verb path body d h =
     (if \<not> clean_path path then (h, d, control_writeJSON 301 OfMux)
      else
        (let segs = map pathUnescape (tl (split_on slash path)); here = filter (\<lambda>(_, p, _). p = segs) (control_routes (tw_cheating W)) in
         case find (\<lambda>(m, _, _). m = verb \<or> m = ''GET'' \<and> verb = ''HEAD'') here of
           Some (_, _, e) \<Rightarrow> control_handle W N c X body e d h
         | None \<Rightarrow> (h, d, control_writeJSON (if here = [] then 404 else 405) OfMux)))"

section \<open>The socket\<close>

record socket_file =
  sf_owner :: "int \<times> int"
  sf_mode :: nat

datatype socket_err = NotGiven int | NotClosedOff

definition applySocketPermissions ::
  "(int \<Rightarrow> int \<Rightarrow> bool) \<Rightarrow> bool \<Rightarrow> State \<Rightarrow> socket_file \<Rightarrow> socket_file \<times> (socket_err + unit)" where
  "applySocketPermissions chown chmod s f =
     (let uid = da_OwnerUID (sta_data s); gid = da_OwnerGID (sta_data s) in
      if 0 < uid \<and> \<not> chown uid gid then (f, Inl (NotGiven uid))
      else
        (let f = (if 0 < uid then f\<lparr>sf_owner := (uid, gid)\<rparr> else f) in
         if chmod then (f\<lparr>sf_mode := 6 * 64\<rparr>, Inr ()) else (f, Inl NotClosedOff)))"

fun dir_loop :: "string \<Rightarrow> string" where
  "dir_loop [] = ''.''"
| "dir_loop (c # rest) = (if c = slash then rev rest else dir_loop rest)"

definition dirOf :: "string \<Rightarrow> string" where
  "dirOf path = dir_loop (rev path)"

section \<open>What is promised\<close>

lemma control_post:
  assumes "path = slash # name" and "slash \<notin> set name" and "name \<noteq> []" and "name \<noteq> ''.''" and "name \<noteq> ''..''" and "pathUnescape name = name"
    and "filter (\<lambda>(_, p, _). p = [name]) (control_routes (tw_cheating W)) = [(''POST'', [name], e)]"
  shows "control W N c X ''POST'' path body = control_handle W N c X body e"
proof -
  have "split_on slash path = [[], name]"
    using assms(1,2) split_on_append [of slash "[]" name] split_by_no [of name "\<lambda>d. d = slash"] by (auto simp: split_on_def)
  then show ?thesis using assms(3-7) by (intro ext) (simp add: control_def clean_path_def slash_def)
qed

definition tree_key :: "yaml \<Rightarrow> yaml option" where
  "tree_key t =
     (case t of YMap tree \<Rightarrow> (case map_of tree ''pki'' of Some (YMap pki) \<Rightarrow> map_of pki ''key'' | _ \<Rightarrow> None) | _ \<Rightarrow> None)"

lemma redact_tree_key: "tree_key (redact_tree t) = None \<or> tree_key (redact_tree t) = Some (YStr RedactedKey)"
  by (cases t) (auto simp: tree_key_def update_conv' split: option.splits yaml.splits)

text \<open>
  C17: unless it is asked for, the key of this machine does not cross the socket: what is answered is a header and a
  configuration whose key is not there or is blotted out, and which otherwise is the one nebula runs on, or
  the one that would be rendered now.
\<close>

theorem config_keeps_the_key:
  assumes "control W N c X ''POST'' ''/config'' body d h = (h', d', Some (200, Rendered out))"
    and "sj_Config (cx_json X) body = Some req" and "\<not> cfq_ShowKeys req" and "yaml_roundtrip (tw_nebula W)"
  shows "d' = d \<and> (\<exists>conn header raw old t. connectionFor W (cfq_Instance req) d = Some conn \<and> out = header @ raw \<and> header \<in> {live_header, rendered_header}
    \<and> (loaded (con_InstanceID conn) (dae_run d) = Some old \<or> (\<exists>table. renderConfig (tw_nebula W) conn table (daemon_choices W d) = Inr old))
    \<and> yaml_Unmarshal (tw_nebula W) old = Some t \<and> yaml_Unmarshal (tw_nebula W) raw = Some (redact_tree t)
    \<and> tree_key (redact_tree t) \<in> {None, Some (YStr RedactedKey)})"
proof -
  have "control W N c X ''POST'' ''/config'' body = control_handle W N c X body ConfigC"
    by (rule control_post [of _ "''config''"]) (simp_all add: slash_def pathUnescape_def control_routes_def)
  with assms(1-3) obtain r where r: "ConnectionConfig W N c (cfq_Instance req) False d h = (h', r)" and d: "d' = d"
    and a: "concluded (shown_as Rendered) r = Some (200, Rendered out)"
    by (auto simp: control_handle_def control_Config_def body_of_def split: prod.split_asm)
  have out: "r = Inr out" using a by (auto simp: concluded_def control_writeError_def control_writeJSON_def split: sum.split_asm if_split_asm)
  obtain conn where conn: "connectionFor W (cfq_Instance req) d = Some conn" using r out by (auto simp: ConnectionConfig_def split: option.split_asm)
  have "\<exists>header old raw. header \<in> {live_header, rendered_header} \<and> RedactKey (tw_nebula W) old = Inr raw \<and> out = header @ raw
      \<and> (loaded (con_InstanceID conn) (dae_run d) = Some old \<or> (\<exists>table. renderConfig (tw_nebula W) conn table (daemon_choices W d) = Inr old))"
    using r out conn by (auto simp: ConnectionConfig_def Let_def split: option.split_asm prod.split_asm sum.split_asm)
  then obtain header old raw where k: "header \<in> {live_header, rendered_header}" "RedactKey (tw_nebula W) old = Inr raw" "out = header @ raw"
      "loaded (con_InstanceID conn) (dae_run d) = Some old \<or> (\<exists>table. renderConfig (tw_nebula W) conn table (daemon_choices W d) = Inr old)" by blast
  obtain tree where t: "yaml_Unmarshal (tw_nebula W) old = Some (YMap tree)" "yaml_Marshal (tw_nebula W) (redact_tree (YMap tree)) = Some raw"
    using k(2) by (auto simp: RedactKey_def split: option.split_asm yaml.split_asm)
  then have "yaml_Unmarshal (tw_nebula W) raw = Some (redact_tree (YMap tree))" using assms(4) by (simp add: yaml_roundtrip_def)
  with d conn k t redact_tree_key [of "YMap tree"] show ?thesis by blast
qed

definition tree_inbound :: "yaml \<Rightarrow> yaml option" where
  "tree_inbound t =
     (case t of YMap tree \<Rightarrow> (case map_of tree ''firewall'' of Some (YMap fw) \<Rightarrow> map_of fw ''inbound'' | _ \<Rightarrow> None) | _ \<Rightarrow> None)"

lemma tree_inbound_tenant: "tree_inbound (tenant_tree conn table local) = Some (YList (map rule_yaml (inboundRules (ch_inbound local))))"
  by (simp add: tree_inbound_def tenant_tree_def member_tree_def Let_def)

text \<open>
  What members may reach on this machine changes with the answer: once the daemon answers that it is set, every
  connection that is up, and whose table the hub gives, runs on a configuration with the rules of what was
  asked for, provided nebula takes it.
\<close>

theorem inbound_takes_effect:
  assumes "control W N c X ''POST'' ''/inbound'' body d h = (h', d', Some (200, InboundIs v))"
    and "\<forall>iid h. snd (hub_routes W N c iid h) = ans iid"
    and "conn \<in> set (Connections (dae_state d))" and "distinct (map con_InstanceID (Connections (dae_state d)))"
    and "Ready conn" and "ans (con_InstanceID conn) = Inr table" and "runner_isRunning (con_InstanceID conn) (dae_run d)"
    and "renderConfig (tw_nebula W) conn table ((daemon_choices W d)\<lparr>ch_inbound := v\<rparr>) = Inr raw"
    and "\<forall>old. neb_ReloadConfigString (tw_nebula W) old raw" and "yaml_roundtrip (tw_nebula W)"
  shows "\<exists>req t. sj_Inbound (cx_json X) body = Some req \<and> ibq_Inbound req = v \<and> ValidInbound v \<and> Inbound (dae_state d') = v
    \<and> loaded (con_InstanceID conn) (dae_run d') = Some raw
    \<and> yaml_Unmarshal (tw_nebula W) raw = Some t \<and> tree_inbound t = Some (YList (map rule_yaml (inboundRules v)))"
proof -
  have "control W N c X ''POST'' ''/inbound'' body = control_handle W N c X body InboundC"
    by (rule control_post [of _ "''inbound''"]) (simp_all add: slash_def pathUnescape_def control_routes_def)
  with assms(1) have a: "control_Inbound W N c X body d h = (h', d', Some (200, InboundIs v))" by (simp add: control_handle_def)
  then obtain req where req: "sj_Inbound (cx_json X) body = Some req"
    by (auto simp: control_Inbound_def body_of_def control_writeError_def control_writeJSON_def split: option.split_asm)
  let ?w = "ibq_Inbound req"
  obtain s r where s: "SetInbound (dw_IO (cx_Draws X)) ?w (dae_state d) = (s, r)" by fastforce
  have r: "r = Inr ()" "control_refresh W N c X (\<lambda>s. InboundIs (Inbound s)) (d\<lparr>dae_state := s\<rparr>) h = (h', d', Some (200, InboundIs v))"
    using a req s by (cases r; simp add: control_Inbound_def body_of_def control_set_def control_writeError_def control_writeJSON_def)+
  have valid: "ValidInbound ?w" and data: "sta_data s = (sta_data (dae_state d))\<lparr>da_Inbound := ?w\<rparr>"
    using s r(1) Write_cases(1) by (fastforce simp: SetInbound_def split: if_split_asm)+
  let ?d = "d\<lparr>dae_state := s\<rparr>"
  have ref: "Refresh W N c (cx_Listeners X) (cx_IO X) ?d h = (h', d')" and v: "v = Inbound (dae_state d')"
    using r(2) by (auto simp: control_refresh_def control_writeJSON_def split: prod.split_asm)
  have "settings d' = settings ?d" by (rule refresh_loop_keeps [OF ref [unfolded Refresh_def]])
  then have "v = ?w" using settings_choices(3) [of d' ?d] data valid v by (simp add: Inbound_def)
  have ch: "daemon_choices W ?d = (daemon_choices W d)\<lparr>ch_inbound := v\<rparr>"
    using data valid \<open>v = ?w\<close> by (simp add: daemon_choices_def choices_of_def Families_def Inbound_def Cheat_def)
  have conns: "Connections (dae_state ?d) = Connections (dae_state d)" using data by (simp add: Connections_def)
  have l: "loaded (con_InstanceID conn) (dae_run d') = Some raw"
    using refresh_puts_on_current_table [OF ref assms(2) _ _ assms(5,6) _ _ assms(9,10)] assms(3,4,7,8) conns ch by simp
  have "yaml_Unmarshal (tw_nebula W) raw = Some (tenant_tree conn table ((daemon_choices W d)\<lparr>ch_inbound := v\<rparr>))"
    using assms(8,10) by (simp add: renderConfig_Inr yaml_roundtrip_def)
  with l req valid v \<open>v = ?w\<close> show ?thesis by (auto simp: tree_inbound_tenant)
qed

section \<open>Workarounds\<close>

abbreviation cheats :: "Daemon \<Rightarrow> (string, bool) gomap" where
  "cheats d \<equiv> da_Cheats (sta_data (dae_state d))"

named_theorems keeps_cheats

lemma write_daemon_data: "write_daemon io f d a = (d', r) \<Longrightarrow> sta_data (dae_state d') = f (sta_data (dae_state d))"
  by (auto simp: write_daemon_def after_write_def split: prod.split_asm sum.split_asm dest: Write_cases(1))

lemma furnish_cheats [keeps_cheats]: "furnish W N c D r name token d h = (h', d', res) \<Longrightarrow> cheats d' = cheats d"
  by (auto simp: furnish_def Let_def split: sum.split_asm prod.split_asm option.split_asm dest!: write_daemon_data)

lemma daemon_Create_cheats [keeps_cheats]: "daemon_Create W N c D name token d h = (h', d', res) \<Longrightarrow> cheats d' = cheats d"
  by (auto simp: daemon_Create_def Let_def split: prod.split_asm sum.split_asm dest!: furnish_cheats)

lemma daemon_SetToken_cheats [keeps_cheats]: "daemon_SetToken W N c D ref token d h = (h', d', res) \<Longrightarrow> cheats d' = cheats d"
  by (auto simp: daemon_SetToken_def Let_def split: prod.split_asm sum.split_asm option.split_asm dest!: write_daemon_data)

lemma rejoinOwn_cheats [keeps_cheats]: "rejoinOwn W N c D inst own d h = (h', d', res) \<Longrightarrow> cheats d' = cheats d"
  by (auto simp: rejoinOwn_def split: prod.split_asm sum.split_asm option.split_asm dest!: write_daemon_data)

lemma Connect_cheats [keeps_cheats]: "Connect W N c D want d h = (h', d', res) \<Longrightarrow> cheats d' = cheats d"
  by (auto simp: Connect_def Let_def split: prod.split_asm sum.split_asm option.split_asm if_split_asm dest!: write_daemon_data rejoinOwn_cheats)

lemma daemon_Delete_cheats [keeps_cheats]: "daemon_Delete W N c io want force d h = (h', d', res) \<Longrightarrow> cheats d' = cheats d"
  by (auto simp: daemon_Delete_def Let_def stopRouter_def split: prod.split_asm sum.split_asm option.split_asm if_split_asm dest!: write_daemon_data)

lemma Disconnect_cheats [keeps_cheats]: "Disconnect W io ref d = (d', res) \<Longrightarrow> cheats d' = cheats d"
  by (auto simp: Disconnect_def Let_def stopRouter_def split: option.split_asm dest!: write_daemon_data)

lemma Refresh_cheats [keeps_cheats]: "Refresh W N c L io d h = (h', d') \<Longrightarrow> cheats d' = cheats d"
  unfolding Refresh_def by (rule settings_choices(2) [OF refresh_loop_keeps])

lemma control_refresh_cheats [keeps_cheats]: "control_refresh W N c X ok d h = (h', d', a) \<Longrightarrow> cheats d' = cheats d"
  by (auto simp: control_refresh_def split: prod.split_asm dest!: Refresh_cheats)

lemma control_set_cheats:
  assumes "control_set W N c X change ok d h = (h', d', a)" and "\<And>s s' r. change s = (s', r) \<Longrightarrow> da_Cheats (sta_data s') = da_Cheats (sta_data s)"
  shows "cheats d' = cheats d"
proof -
  obtain s r where s: "change (dae_state d) = (s, r)" by fastforce
  then show ?thesis using assms(1) assms(2) [OF s] by (cases r) (auto simp: control_set_def dest!: control_refresh_cheats)
qed

lemma set_cheats:
  "SetInbound io v s = (s', r) \<Longrightarrow> da_Cheats (sta_data s') = da_Cheats (sta_data s)"
  "SetFamilies io v s = (s', r) \<Longrightarrow> da_Cheats (sta_data s') = da_Cheats (sta_data s)"
  by (auto simp: SetInbound_def SetFamilies_def split: if_split_asm dest!: Write_cases(1))

lemma SetAlias_cheats [keeps_cheats]: "SetAlias U routes io alias canonical d = (d', r) \<Longrightarrow> cheats d' = cheats d"
  by (auto simp: SetAlias_def State_SetAlias_def Let_def split: prod.split_asm sum.split_asm if_split_asm dest!: Write_cases(1))

lemma DNSPlan_cheats [keeps_cheats]: "DNSPlan U L routes remove d = (d', es) \<Longrightarrow> cheats d' = cheats d"
proof -
  have "plan_entry U L routes remove conn d = (d', e) \<Longrightarrow> dae_state d' = dae_state d" for conn d d' e
    by (auto simp: plan_entry_def Let_def startRouter_run split: if_split_asm sum.split_asm)
  then have "plan_loop U L routes remove conns d = (d', es) \<Longrightarrow> dae_state d' = dae_state d" for conns d d' es
    by (induction conns arbitrary: d d' es) (fastforce simp: Let_def split: prod.split_asm)+
  then show "DNSPlan U L routes remove d = (d', es) \<Longrightarrow> cheats d' = cheats d" by (simp add: DNSPlan_def)
qed

lemma control_handle_cheats:
  assumes "control_handle W N c X body e d h = (h', d', a)" and "e \<noteq> CheatC"
  shows "cheats d' = cheats d"
proof (cases e)
  case InboundC
  show ?thesis
    using assms(1) unfolding InboundC control_handle_def control_Inbound_def body_of_def control_endpoint.case
    by (auto split: option.split_asm intro: control_set_cheats set_cheats)
next
  case FamiliesC
  show ?thesis
    using assms(1) unfolding FamiliesC control_handle_def control_Families_def body_of_def control_endpoint.case
    by (auto split: option.split_asm intro: control_set_cheats set_cheats)
qed (use assms in \<open>auto simp: control_handle_def body_of_def Let_def control_Status_def control_List_def control_Members_def control_Reach_def
    control_Show_def control_Config_def control_Pending_def control_Create_def control_Connect_def control_Disconnect_def control_Approve_def
    control_Reject_def control_Forget_def control_Ban_def control_Unban_def control_RemoveMember_def control_SetToken_def control_Restart_def
    control_DNSPlan_def control_Alias_def control_Delete_def
    split: option.split_asm prod.split_asm sum.split_asm daemon_err.split_asm dest!: keeps_cheats\<close>)

text \<open>
  A build that does not allow the workarounds cannot be asked for one: no request to its socket, whatever its verb,
  its path and its body, changes which of them are on, and none of them has an effect on a connection.
\<close>

theorem plain_build_has_no_workarounds:
  assumes "\<not> tw_cheating W" and "control W N c X verb path body d h = (h', d', a)"
  shows "da_Cheats (sta_data (dae_state d')) = da_Cheats (sta_data (dae_state d)) \<and> \<not> ch_chromiumProbeRoute (daemon_choices W d')"
proof -
  have no: "e \<noteq> CheatC" if "(m, p, e) \<in> set (control_routes False)" for m p e using that by (auto simp: control_routes_def)
  have "cheats d' = cheats d"
  proof (cases "find (\<lambda>(m, _, _). m = verb \<or> m = ''GET'' \<and> verb = ''HEAD'')
      (filter (\<lambda>(_, p, _). p = map pathUnescape (tl (split_on slash path))) (control_routes False))")
    case None
    then show ?thesis using assms by (auto simp: control_def Let_def split: if_split_asm)
  next
    case (Some x)
    obtain m p e where x: "x = (m, p, e)" by (cases x)
    have "x \<in> set (control_routes False)" using Some by (metis (no_types, lifting) filter_is_subset find_Some_iff nth_mem subsetD)
    then have "e \<noteq> CheatC" using no x by simp
    then show ?thesis using assms Some x control_handle_cheats by (fastforce simp: control_def Let_def split: if_split_asm)
  qed
  then show ?thesis using assms(1) by (simp add: daemon_choices_def choices_of_def)
qed

end
