(* ===== verification/Rehearsal.thy ===== *)
theory Rehearsal
  imports Granted Control
begin

text \<open>
  The machine of an owner in front of a hub, played through: a connector has asked to be let in, and the
  owner's daemon sees it, admits it and is asked things on its socket. What holds of every daemon is applied to
  this one.
\<close>

section \<open>The hub\<close>

definition my_asked :: Instance where
  "my_asked = my_instance\<lparr>inst_Allocations := Some [(example_key, Addr4 0xC61300FE)], inst_Requests := Some [(''r1'', record_pending)]\<rparr>"

definition asked_hub :: Hub where
  "asked_hub = fst (on_store (Update None example_id (enroll_closure example_env 2 ''r1'' example_request example_applicant example_key)) my_hub)"

lemma asked_hub_reachable: "reachable example_env asked_hub"
proof -
  have "hub_step example_env {} my_hub asked_hub"
    unfolding asked_hub_def example_fingerprint [symmetric]
    by (rule hub_step.enroll) (simp add: example_applicant_def KindConnector_def KindOwner_def)
  then show ?thesis using my_hub_reachable reachable.step by blast
qed

lemma my_allocate:
  "allocate my_instance example_key KindConnector
   = (my_instance\<lparr>inst_Allocations := Some [(example_key, Addr4 0xC61300FE)]\<rparr>, Ret (Addr4 0xC61300FE))"
proof -
  have wf: "wf_prefix (Prefix (Addr4 0xC6130000) 24)" by (simp add: wf_prefix_def)
  have "lastAddr (Prefix (Addr4 0xC6130000) 24) = Addr4 0xC61300FF"
    using wf by (intro lastAddr_eqI) (simp_all add: same_family_def top_def base_def hostbits_def)
  then have "highestFree (Prefix (Addr4 0xC6130000) 24) [Addr4 0xC6130002, Addr4 0xC6130001, Addr4 0xC6130002] = Inr (Addr4 0xC61300FE)"
    by (simp add: walk_eval)
  then show ?thesis
    by (simp add: allocate_eq fromPool_def memberAddresses_def mget_def vals_def my_instance_def example_instance_def
        owner_member_def zero_member_def example_key_def PrefixFrom_def)
qed

lemma my_enroll_closure:
  "enroll_closure example_env 2 ''r1'' example_request example_applicant example_key my_instance = (my_asked, Ret (Some record_pending))"
proof -
  have a: "app_Kind example_applicant = KindConnector" by (simp add: example_applicant_def)
  have six: "allocate6 i fp k = (i, Ret AddrNone)" if "inst_Overlay6 i = PrefixNone" for i fp k
    using that by (simp add: allocate6_eq PrefixIsValid_def PrefixNone_def)
  show ?thesis
    unfolding enroll_closure_def a my_allocate
    by (simp add: six burned_def same_key_request_def new_record_def prefixOf_def PrefixFrom_def PrefixNone_def
        my_asked_def record_pending_def my_instance_def example_instance_def example_applicant_def Let_def)
qed

lemma my_ensure: "ensureMaps my_instance = my_instance" "ensureMaps my_asked = my_asked"
  by (simp_all add: ensureMaps_def ensure_def my_instance_def my_asked_def example_instance_def)

lemma my_hub_instances: "instances (hub_store my_hub) = Some [(example_id, my_instance)]"
  by code_simp

lemma asked_hub_stored: "instances (hub_store asked_hub) = Some [(example_id, my_asked)]"
  and asked_hub_me: "Identity me (hub_store asked_hub) = Ret (my_registration\<lparr>reg_RegisteredAt := 1\<rparr>)"
proof -
  let ?fn = "enroll_closure example_env 2 ''r1'' example_request example_applicant example_key"
  have u: "instances (hub_store asked_hub) = madjust example_id (\<lambda>_. my_asked) (instances (hub_store my_hub))"
    "identities (hub_store asked_hub) = identities (hub_store my_hub)"
    using Update_instances [OF my_hub_stored(1), of None ?fn] my_enroll_closure by (simp_all add: asked_hub_def on_store_fst my_ensure)
  then show "instances (hub_store asked_hub) = Some [(example_id, my_asked)]" by (simp add: my_hub_instances madjust_def)
  show "Identity me (hub_store asked_hub) = Ret (my_registration\<lparr>reg_RegisteredAt := 1\<rparr>)"
    using my_hub_stored(2) u(2) by (simp add: Identity_def)
qed

section \<open>The machine\<close>

definition my_cert :: Certificate where
  "my_cert = \<lparr>crt_TBS = \<lparr>tbs_Name = MemberCertName KindConnector ''web'' ''railway'', tbs_Networks = [Prefix (Addr4 0xC61300FE) 24],
     tbs_UnsafeNetworks = [Prefix (Addr4 0x0A000000) 8], tbs_Groups = [],
     tbs_NotBefore = second, tbs_NotAfter = day, tbs_PublicKey = ''h'', tbs_IsCA = False, tbs_Curve = Curve25519\<rparr>, crt_Signature = ''K''\<rparr>"

definition my_certlib :: certlib where
  "my_certlib = (listed_certlib [(''A'', example_authority), (''C'', my_cert)])
     \<lparr>cl_UnmarshalPublicKey := (\<lambda>s. if s = ''KEY'' then Some (''h'', Curve25519) else untag s)\<rparr>"

definition my_own :: Owned where
  "my_own = \<lparr>own_InstanceID = example_id, own_Name = ''railway'', own_CACert = ''A'', own_CAKey = ''xK'', own_SharedToken = []\<rparr>"

definition my_approval :: Decision where
  "my_approval = approval my_own ''web'' ''C'' (MemberCertName KindConnector ''web'' ''railway'') [Prefix (Addr4 0x0A000000) 8] ''prod.internal''"

definition my_tjson :: tjson where
  "my_tjson = \<lparr>tj_Register = (\<lambda>_. None), tj_Create = (\<lambda>_. None), tj_Lighthouse = (\<lambda>_. None),
     tj_Decision = (\<lambda>d. if d = my_approval then Some ''D'' else None), tj_Ban = (\<lambda>_. None), tj_Token = (\<lambda>_. None), tj_Join = (\<lambda>_. None),
     tj_readRegistered = (\<lambda>_. None), tj_readCreated = (\<lambda>_. None), tj_readSummaries = (\<lambda>_. None), tj_readRecords = (\<lambda>_. Some [record_pending]),
     tj_readResult = (\<lambda>_. None), tj_readMember = (\<lambda>_. None), tj_readMembers = (\<lambda>_. None), tj_readRoutes = (\<lambda>_. None), tj_readError = (\<lambda>_. None)\<rparr>"

definition my_machine :: tworld where
  "my_machine = \<lparr>tw_unicode = no_unicode, tw_Fold = (=), tw_crypto = example_crypto, tw_x509 = (\<lambda>_. None), tw_ssh = example_sshlib,
     tw_FingerprintSHA256 = (\<lambda>_. []), tw_cert = my_certlib, tw_nebula = two_trees (YList []) (YMap []), tw_json = my_tjson, tw_cheating = False\<rparr>"

definition my_client :: tclient where
  "my_client = \<lparr>tc_base = ''https://hub:8443'', tc_identity = example_priv, tc_tls = SystemRoots\<rparr>"

definition deciding_world :: world where
  "deciding_world = example_world\<lparr>w_json := example_json\<lparr>js_Decision := (\<lambda>_. Some my_approval)\<rparr>\<rparr>"

abbreviation my_nonce :: "Server \<Rightarrow> string option" where
  "my_nonce \<equiv> (\<lambda>srv. Some (if srv_Nonces srv = NewMemoryNonces then ''a'' else ''b''))"

abbreviation my_line :: "Server line" where
  "my_line \<equiv> hub_line deciding_world (\<lambda>_. example_draw) (\<lambda>_. []) ''192.0.2.7:9'' (\<lambda>_. second) my_nonce"

lemma my_address: "tc_base my_client = ''https://'' @ host_port ''hub'' ''8443''" "plain_host ''hub''" "list_all is_digit ''8443''"
  by (simp add: my_client_def host_port_def) code_simp+

lemma my_segments: "plain_segment example_id" "plain_segment ''r1''"
  by code_simp+

lemma my_simps [simp]:
  "w_env deciding_world = example_env" "w_crypto deciding_world = example_crypto" "tw_crypto my_machine = example_crypto"
  "tw_unicode my_machine = no_unicode" "env_unicode example_env = no_unicode" "tc_identity my_client = example_priv"
  "tw_json my_machine = my_tjson" "dr_Now example_draw = second" "dr_IO example_draw = None"
  "js_Decision (w_json deciding_world) b = Some my_approval" "tw_cert my_machine = my_certlib"
  by (simp_all add: deciding_world_def example_world_def my_machine_def example_env_def my_client_def example_draw_def)

lemma my_signer:
  assumes "nonces_ok (srv_Nonces s)" and "\<not> nonce_spent (srv_Nonces s) second me (b64url_encode x)" and "x \<noteq> []"
    and "Identity me (srv_store s) = Ret who"
  shows "known_signer my_machine deciding_world my_client example_draw second x who s"
  using assms example_laws(1-5)
  by (simp add: known_signer_def Let_def signs_well_def me_def [symmetric]) (simp add: Window_def second_def)

lemma my_resolve:
  assumes "instances s = Some [(example_id, i)]"
  shows "Resolve no_unicode example_id s = Ret i"
proof -
  have "ToLower no_unicode (TrimSpace no_unicode example_id) = example_id" by code_simp
  then show ?thesis by (simp add: Resolve_def mget_def assms)
qed

lemma my_decision:
  "\<exists>h. Decide None second example_id ''r1'' my_approval asked_hub = (h, Ret ()) \<and> Identity me (hub_store h) = Identity me (hub_store asked_hub)"
proof -
  let ?fn = "decide_closure (hub_cfg asked_hub) second ''r1'' my_approval"
  have g: "mget (instances (hub_store asked_hub)) example_id = Some my_asked" by (simp add: asked_hub_stored mget_def)
  have q: "mget (inst_Requests my_asked) ''r1'' = Some record_pending" by (simp add: my_asked_def mget_def)
  have d: "dec_Status my_approval = StatusApproved" "dec_Bundle my_approval \<noteq> None" "bnd_Certificate (the (dec_Bundle my_approval)) \<noteq> []"
    "dec_Name my_approval = ''web''" by (simp_all add: my_approval_def approval_def)
  have h: "name_holder (i\<lparr>inst_Members := ensure (inst_Members my_instance)\<rparr>) k ''web'' = None" for i k
    by (simp add: name_holder_def my_instance_def owner_member_def ensure_def)
  obtain j r where f: "?fn my_asked = (j, r)" by fastforce
  have "r = Ret ()"
    using f q d h by (auto simp: decide_closure_def Let_def set_record_def my_asked_def ensure_def my_instance_def split: option.split_asm)
  then show ?thesis
    using Update_eq [where io = None and fn = ?fn, OF g] f Update_instances(2) [OF g, of None ?fn]
    by (simp add: my_ensure Decide_def on_store_def Identity_def split: prod.split)
qed

section \<open>Admitting\<close>

lemma my_certlib_ok: "certlib_ok my_certlib"
proof -
  have "certlib_ok (listed_certlib [(''A'', example_authority), (''C'', my_cert)])" by (rule listed_certlib_ok) simp
  moreover have "tag curve # pub \<noteq> ''KEY''" for curve pub by (cases curve) (simp_all add: tag_def)
  ultimately show ?thesis by (simp add: certlib_ok_def my_certlib_def) (simp add: listed_certlib_def)
qed

abbreviation my_server :: Server where
  "my_server \<equiv> start_server asked_hub"

theorem owner_decision_goes_through_witness:
  "\<exists>srv'. hub_decide my_machine my_line my_client example_id ''r1'' my_approval my_server = (srv', Inr ())
     \<and> srv_Hub srv' = fst (Decide None second example_id ''r1'' my_approval asked_hub)"
proof -
  have s: "srv_Nonces my_server = NewMemoryNonces" "srv_Hub my_server = asked_hub" by (simp_all add: start_server_def)
  have k: "known_signer my_machine deciding_world my_client example_draw second ''a'' (my_registration\<lparr>reg_RegisteredAt := 1\<rparr>) my_server"
    by (rule my_signer) (simp_all add: s example_laws(6,7) asked_hub_me)
  have r: "Resolve (env_unicode (w_env deciding_world)) example_id (srv_store my_server) = Ret my_asked" using asked_hub_stored s(2) by (simp add: my_resolve)
  have i: "inst_ID my_asked = example_id" "inst_Owner my_asked = me" by (simp_all add: my_asked_def my_instance_def example_instance_def)
  note t = owner_decision_goes_through [where nonce = my_nonce and srv = my_server and D = "\<lambda>_. example_draw" and now = "\<lambda>_. second" and raw = "''D''"
      and dec = my_approval and enc = "\<lambda>_. []" and remote = "''192.0.2.7:9''" and x = "''a''", OF my_address my_segments _ k r]
  show ?thesis using t my_decision i s by (fastforce simp: my_tjson_def my_registration_def maxBodyBytes_def)
qed

definition my_daemon :: Daemon where
  "my_daemon = \<lparr>dae_state = \<lparr>sta_data = zero_data\<lparr>da_HubURL := ''https://hub:8443'', da_Name := ''laptop'', da_Owned := Some [(example_id, my_own)],
       da_Connections := Some []\<rparr>, sta_fs = \<lparr>tf_file = None, tf_tmp = None\<rparr>\<rparr>, dae_routers = [], dae_run = newRunners\<rparr>"

definition my_entry :: PendingEntry where
  "my_entry = \<lparr>pe_Instance = ''railway'', pe_InstanceID = example_id, pe_Record = record_pending, pe_Address = Prefix (Addr4 0xC61300FE) 24,
     pe_WillBeCalled = ''web'', pe_Routes = [], pe_Dropped = [], pe_Domain = []\<rparr>"

lemma my_owned: "owned my_daemon = [my_own]" "OwnedOf example_id (dae_state my_daemon) = Some my_own"
  by (simp_all add: my_daemon_def owned_def vals_def OwnedOf_def mget_def)

lemma my_pending: "Pending example_id asked_hub = Ret [record_pending]"
  by (simp add: Pending_def Get_def asked_hub_stored mget_def my_asked_def vals_def) (simp add: record_pending_def)

lemma my_issue:
  "issue my_machine second my_own my_entry [Prefix (Addr4 0x0A000000) 8] [] = Inr (''web'', ''C'', MemberCertName KindConnector ''web'' ''railway'')"
proof -
  have fits: "fitsInAName KindConnector ''web'' ''railway''" by code_simp
  have r: "rec_Kind record_pending = KindConnector" "req_Name (rec_Request record_pending) = ''web''" "req_PublicKey (rec_Request record_pending) = ''KEY''"
    "rec_OverlayAddress record_pending = Prefix (Addr4 0xC61300FE) 24" "rec_OverlayAddress6 record_pending = PrefixNone"
    by (simp_all add: record_pending_def example_request_def)
  have load: "Load my_certlib ''A'' ''xK'' = Inr \<lparr>ca_cert = example_authority, ca_key = ''K''\<rparr>"
    by (simp add: Load_def my_certlib_def listed_certlib_def untag_def example_authority_def)
  have a: "addresses [Prefix (Addr4 0xC61300FE) 24, PrefixNone] = [Prefix (Addr4 0xC61300FE) 24]"
    by (simp add: addresses_def PrefixIsValid_def PrefixNone_def)
  have sign: "Sign my_certlib second \<lparr>ca_cert = example_authority, ca_key = ''K''\<rparr> \<lparr>ho_Name = MemberCertName KindConnector ''web'' ''railway'',
      ho_PublicKeyPEM = ''KEY'', ho_Networks = [Prefix (Addr4 0xC61300FE) 24], ho_UnsafeNetworks = [Prefix (Addr4 0x0A000000) 8], ho_Groups = [], ho_Duration = 0\<rparr> = Inr ''C''"
    by (simp add: Sign_def my_certlib_def listed_certlib_def example_authority_def my_cert_def DefaultCertDuration_def day_def seconds_def second_def)
  show ?thesis
    using fits load sign
    by (simp add: issue_def Let_def my_entry_def my_own_def given_name_def r a)
      (simp add: my_certlib_def listed_certlib_def my_cert_def)
qed

lemma my_found:
  obtains ns where "nonces_ok ns" and "ns \<noteq> NewMemoryNonces" and "\<not> nonce_spent ns second me (b64url_encode ''b'')"
    and "findPending my_machine my_line my_client ''r1'' my_daemon my_server = (my_server\<lparr>srv_Nonces := ns\<rparr>, Inr my_entry)"
proof -
  have s: "srv_Nonces my_server = NewMemoryNonces" "srv_Hub my_server = asked_hub" by (simp_all add: start_server_def)
  have k: "known_signer my_machine deciding_world my_client example_draw second ''a'' (my_registration\<lparr>reg_RegisteredAt := 1\<rparr>) my_server"
    by (rule my_signer) (simp_all add: s example_laws(6,7) asked_hub_me)
  have r: "Resolve (env_unicode (w_env deciding_world)) example_id (srv_store my_server) = Ret my_asked" using asked_hub_stored s(2) by (simp add: my_resolve)
  have i: "inst_ID my_asked = example_id" "inst_Owner my_asked = me" by (simp_all add: my_asked_def my_instance_def example_instance_def)
  obtain ns where u: "Use NewMemoryNonces second me (b64url_encode ''a'') Window = (ns, True)"
    and p: "hub_pending my_machine my_line my_client example_id my_server = (my_server\<lparr>srv_Nonces := ns\<rparr>, Inr [record_pending])"
    by (rule hub_pending_owner [where nonce = my_nonce and srv = my_server and D = "\<lambda>_. example_draw" and now = "\<lambda>_. second" and rs = "[record_pending]"
      and enc = "\<lambda>_. []" and remote = "''192.0.2.7:9''" and x = "''a''", OF my_address my_segments(1) _ k r])
      (use i s my_pending in \<open>simp_all add: my_registration_def my_tjson_def me_def\<close>)
  have ne: "b64url_encode ''b'' \<noteq> b64url_encode ''a''" by code_simp
  have spent: "nonce_spent ns second me (b64url_encode ''a'')" using memory.spends [OF example_laws(6) u] by (simp add: Window_def second_def)
  then have "ns \<noteq> NewMemoryNonces" using example_laws(7) by blast
  moreover have "nonces_ok ns \<and> \<not> nonce_spent ns second me (b64url_encode ''b'')" by (rule Use_other [OF example_laws(6) u ne example_laws(7)])
  moreover have "pending_entry no_unicode my_own record_pending = Some my_entry"
    by (simp add: pending_entry_def my_own_def my_entry_def) (simp add: record_pending_def example_request_def)
  moreover have "matchPending [my_entry] ''r1'' = Inr my_entry"
    by (simp add: matchPending_def pending_loop_eq my_entry_def record_pending_def)
  moreover have "own_InstanceID my_own = example_id" by (simp add: my_own_def)
  ultimately show ?thesis using p by (intro that [of ns]) (simp_all add: findPending_def daemon_Pending_def my_owned)
qed
lemma my_admitted:
  "\<exists>srv'. Approve my_machine my_line my_client ''r1'' None False [] my_daemon my_server
     = (srv', Inr (my_entry\<lparr>pe_Routes := [Prefix (Addr4 0x0A000000) 8], pe_Domain := ''prod.internal''\<rparr>))"
proof -
  obtain ns where ns: "nonces_ok ns" "ns \<noteq> NewMemoryNonces" "\<not> nonce_spent ns second me (b64url_encode ''b'')"
    and f: "findPending my_machine my_line my_client ''r1'' my_daemon my_server = (my_server\<lparr>srv_Nonces := ns\<rparr>, Inr my_entry)" by (rule my_found)
  let ?s = "my_server\<lparr>srv_Nonces := ns\<rparr>"
  have s: "srv_Nonces ?s = ns" "srv_Hub ?s = asked_hub" by (simp_all add: start_server_def)
  have k: "known_signer my_machine deciding_world my_client example_draw second ''b'' (my_registration\<lparr>reg_RegisteredAt := 1\<rparr>) ?s"
    by (rule my_signer) (use ns s in \<open>simp_all add: asked_hub_me\<close>)
  have r: "Resolve (env_unicode (w_env deciding_world)) example_id (srv_store ?s) = Ret my_asked" using asked_hub_stored s(2) by (simp add: my_resolve)
  have i: "inst_ID my_asked = example_id" "inst_Owner my_asked = me" by (simp_all add: my_asked_def my_instance_def example_instance_def)
  obtain h where h: "Decide None second example_id ''r1'' my_approval asked_hub = (h, Ret ())" using my_decision by blast
  obtain srv' where d: "hub_decide my_machine my_line my_client example_id ''r1'' my_approval ?s = (srv', Inr ())"
    by (rule hub_decide_owner [where nonce = my_nonce and srv = ?s and D = "\<lambda>_. example_draw" and now = "\<lambda>_. second" and raw = "''D''"
      and dec = my_approval and enc = "\<lambda>_. []" and remote = "''192.0.2.7:9''" and x = "''b''" and res = "Ret ()" and h' = h, OF my_address my_segments _ k r])
      (use ns i h s in \<open>simp_all add: my_tjson_def my_registration_def maxBodyBytes_def\<close>)
  have e: "pe_Record my_entry = record_pending" "pe_InstanceID my_entry = example_id" by (simp_all add: my_entry_def)
  have o: "offered record_pending None False = ([Prefix (Addr4 0x0A000000) 8], ''prod.internal'', False)" "rec_ID record_pending = ''r1''"
    by (simp_all add: offered_def record_pending_def example_request_def KindTenant_def KindConnector_def)
  have c: "carriable [Prefix (Addr4 0x0A000000) 8] (addresses [rec_OverlayAddress record_pending, rec_OverlayAddress6 record_pending]) = ([Prefix (Addr4 0x0A000000) 8], [])"
    by code_simp
  have n: "ln_Now my_line ?s = second" by (simp add: hub_line_def)
  have "my_entry\<lparr>pe_Routes := rs, pe_Dropped := [], pe_Domain := dom\<rparr> = my_entry\<lparr>pe_Routes := rs, pe_Domain := dom\<rparr>" for rs dom by (simp add: my_entry_def)
  then show ?thesis unfolding Approve_def f using my_issue d [unfolded my_approval_def] by (simp add: e o c n my_owned)
qed

lemma my_hub_reads:
  "reachable (w_env deciding_world) (srv_Hub my_server)"
  "\<forall>own \<in> set (owned my_daemon). plain_segment (own_InstanceID own)"
  "\<forall>own \<in> set (owned my_daemon). read_back my_machine deciding_world (\<lambda>_. []) (srv_Hub my_server) (own_InstanceID own)"
  "\<forall>dec raw. tj_Decision (tw_json my_machine) dec = Some raw \<longrightarrow> js_Decision (w_json deciding_world) (raw, True) = Some dec \<and> length raw \<le> maxBodyBytes"
  "Resolve no_unicode example_id (srv_store my_server) = Ret my_asked" "inst_ID my_asked = example_id" "own_InstanceID my_own = example_id"
proof -
  show o: "own_InstanceID my_own = example_id" by (simp add: my_own_def)
  show r: "Resolve no_unicode example_id (srv_store my_server) = Ret my_asked" using asked_hub_stored by (simp add: my_resolve start_server_def)
  show i: "inst_ID my_asked = example_id" by (simp add: my_asked_def my_instance_def example_instance_def)
  have "read_back my_machine deciding_world (\<lambda>_. []) (srv_Hub my_server) example_id"
    using r my_pending by (auto simp: read_back_def my_tjson_def i start_server_def)
  then show "\<forall>own \<in> set (owned my_daemon). plain_segment (own_InstanceID own)"
    "\<forall>own \<in> set (owned my_daemon). read_back my_machine deciding_world (\<lambda>_. []) (srv_Hub my_server) (own_InstanceID own)"
    using my_segments by (simp_all add: my_owned o)
  show "reachable (w_env deciding_world) (srv_Hub my_server)" using asked_hub_reachable by (simp add: start_server_def)
  show "\<forall>dec raw. tj_Decision (tw_json my_machine) dec = Some raw \<longrightarrow> js_Decision (w_json deciding_world) (raw, True) = Some dec \<and> length raw \<le> maxBodyBytes"
    by (simp add: my_tjson_def maxBodyBytes_def)
qed

section \<open>On the socket\<close>

text \<open>A hub that keeps no state: it answers every request without a body, and refuses the others when it is not at ease.\<close>

definition steady :: "bool \<Rightarrow> unit line" where
  "steady ease = \<lparr>ln_Now = (\<lambda>_. second), ln_Nonce = (\<lambda>_. Some ''n''),
     ln_Do = (\<lambda>_ _ q h. (h, Some (if ease \<or> cl_Body q = [] then 200 else 500, [])))\<rparr>"

lemma steady_do:
  assumes "segs \<noteq> []" and "list_all plain_segment segs" and "sent \<noteq> Some None"
  shows "hub_do W (steady ease) my_client verb (path_of segs) sent () =
    ((), if ease \<or> the_default [] (the_default None sent) = [] then Inr [] else Inl (tenant_responseError W 500 []))"
proof -
  note new = NewRequest_plain [OF my_address(2,3) assms(1,2), of verb "the_default [] (the_default None sent)"]
  show ?thesis unfolding hub_do_def my_address(1) Let_def new using assms(3) by (simp add: steady_def)
qed

definition up_daemon :: Daemon where
  "up_daemon = \<lparr>dae_state = \<lparr>sta_data = zero_data\<lparr>da_HubURL := ''https://hub:8443'', da_Name := ''laptop'', da_Owned := Some [],
       da_Connections := Some [(''i1'', example_connection)], da_Cheats := Some [(cheatKey CheatChromium CheatChromiumProbeRoute, True)]\<rparr>,
       sta_fs = \<lparr>tf_file = None, tf_tmp = None\<rparr>\<rparr>,
     dae_routers = [], dae_run = [(''i1'', \<lparr>run_instance = ''i1'', run_raw = ''t''\<rparr>)]\<rparr>"

definition up_tree :: "string \<Rightarrow> yaml" where
  "up_tree inbound = tenant_tree example_connection example_table (example_choices\<lparr>ch_inbound := inbound\<rparr>)"

definition up_machine :: "yaml \<Rightarrow> tworld" where
  "up_machine u = my_machine\<lparr>tw_nebula := two_trees (up_tree InboundPing) u, tw_json := my_tjson\<lparr>tj_readRoutes := (\<lambda>_. Some example_table)\<rparr>\<rparr>"

definition up_sjson :: sjson where
  "up_sjson = \<lparr>sj_Connect = (\<lambda>_. None), sj_Config = (\<lambda>_. Some \<lparr>cfq_Instance = ''i1'', cfq_ShowKeys = False\<rparr>), sj_Approve = (\<lambda>_. None), sj_Decision = (\<lambda>_. None),
     sj_Ban = (\<lambda>_. None), sj_Delete = (\<lambda>_. None), sj_Token = (\<lambda>_. None), sj_Inbound = (\<lambda>_. Some \<lparr>ibq_Inbound = InboundOpen\<rparr>), sj_Alias = (\<lambda>_. None),
     sj_DNS = (\<lambda>_. None), sj_Families = (\<lambda>_. None), sj_Cheat = (\<lambda>_. Some \<lparr>chq_Vendor = CheatChromium, chq_Name = CheatChromiumProbeRoute, chq_On = False\<rparr>),
     sj_Create = (\<lambda>_. None)\<rparr>"

definition my_draws :: draws where
  "my_draws = \<lparr>dw_Token = Some ''t'', dw_Stamp = (\<lambda>_. []), dw_CAKey = Some (''PK'', ''K''), dw_HostKey = Some (''h'', ''k''), dw_IO = None\<rparr>"

definition up_ctx :: ctx where
  "up_ctx = \<lparr>cx_json = up_sjson, cx_Draws = my_draws, cx_IO = (\<lambda>_. None), cx_Listeners = \<lparr>ls_udp = (\<lambda>_. True), ls_tcp = (\<lambda>_. True)\<rparr>, cx_Version = ''dev''\<rparr>"

theorem plain_build_has_no_workarounds_witness:
  "\<exists>d' a. control (up_machine (YList [])) (steady True) my_client up_ctx ''POST'' ''/cheat'' [] up_daemon () = ((), d', a)
     \<and> da_Cheats (sta_data (dae_state d')) = Some [(cheatKey CheatChromium CheatChromiumProbeRoute, True)]
     \<and> \<not> ch_chromiumProbeRoute (daemon_choices (up_machine (YList [])) d')"
proof -
  define r where "r = control (up_machine (YList [])) (steady True) my_client up_ctx ''POST'' ''/cheat'' [] up_daemon ()"
  then have c: "control (up_machine (YList [])) (steady True) my_client up_ctx ''POST'' ''/cheat'' [] up_daemon () = ((), fst (snd r), snd (snd r))"
    by (simp add: prod_eq_iff)
  have "\<not> tw_cheating (up_machine (YList []))" by (simp add: up_machine_def my_machine_def)
  note p = plain_build_has_no_workarounds [OF this c]
  have "da_Cheats (sta_data (dae_state up_daemon)) = Some [(cheatKey CheatChromium CheatChromiumProbeRoute, True)]" by (simp add: up_daemon_def)
  with p c show ?thesis by metis
qed

lemma up_connection: "connectionFor W ''i1'' up_daemon = Some example_connection" "con_InstanceID example_connection = ''i1''"
  by (simp_all add: connectionFor_def Let_def ConnectionOf_def up_daemon_def mget_def example_connection_def)

lemma up_map: "\<exists>tree. up_tree v = YMap tree" "tree_key (up_tree v) = Some (YStr ''k'')"
  by (simp_all add: up_tree_def tenant_tree_def member_tree_def Let_def tree_key_def example_connection_def)

theorem config_keeps_the_key_witness:
  "\<exists>header raw t. control (up_machine (redact_tree (up_tree InboundPing))) (steady True) my_client up_ctx ''POST'' ''/config'' [] up_daemon ()
       = ((), up_daemon, Some (200, Rendered (header @ raw)))
     \<and> yaml_Unmarshal (tw_nebula (up_machine (redact_tree (up_tree InboundPing)))) raw = Some t \<and> tree_key t \<noteq> Some (YStr ''k'')"
proof -
  let ?W = "up_machine (redact_tree (up_tree InboundPing))"
  have ne: "redact_tree (up_tree InboundPing) \<noteq> up_tree InboundPing"
    using redact_tree_key [of "up_tree InboundPing"] up_map(2) [of InboundPing] by (auto simp: RedactedKey_def)
  obtain tree where tree: "up_tree InboundPing = YMap tree" using up_map(1) by blast
  have n: "tw_nebula ?W = two_trees (up_tree InboundPing) (redact_tree (up_tree InboundPing))" by (simp add: up_machine_def)
  have red: "RedactKey (tw_nebula ?W) ''t'' = Inr ''u''" unfolding RedactKey_def n using ne tree by (simp add: two_trees_def del: redact_tree.simps)
  have "control ?W (steady True) my_client up_ctx ''POST'' ''/config'' [] = control_handle ?W (steady True) my_client up_ctx [] ConfigC"
    by (rule control_post [of _ "''config''"]) (simp_all add: slash_def pathUnescape_def control_routes_def)
  then have c: "control ?W (steady True) my_client up_ctx ''POST'' ''/config'' [] up_daemon () = ((), up_daemon, Some (200, Rendered (live_header @ ''u'')))"
    using red by (simp add: control_handle_def control_Config_def body_of_def up_ctx_def up_sjson_def ConnectionConfig_def up_connection Let_def
        loaded_def concluded_def control_writeJSON_def) (simp add: up_daemon_def concluded_def control_writeJSON_def)
  have j: "sj_Config (cx_json up_ctx) [] = Some \<lparr>cfq_Instance = ''i1'', cfq_ShowKeys = False\<rparr>" by (simp add: up_ctx_def up_sjson_def)
  have "yaml_roundtrip (tw_nebula ?W)" by (simp add: n two_trees_roundtrip)
  from config_keeps_the_key [OF c j _ this] obtain header raw t where "live_header @ ''u'' = header @ raw"
      "yaml_Unmarshal (tw_nebula ?W) raw = Some (redact_tree t)" "tree_key (redact_tree t) \<in> {None, Some (YStr RedactedKey)}" by auto
  moreover from this have "tree_key (redact_tree t) \<noteq> Some (YStr ''k'')" by (auto simp: RedactedKey_def)
  ultimately show ?thesis using c by (intro exI [of _ header] exI [of _ raw] exI [of _ "redact_tree t"]) simp
qed

lemma up_routes: "hub_routes (up_machine u) (steady ease) my_client ''i1'' () = ((), Inr example_table)"
proof -
  have "instance_path ''i1'' ''/routes'' = path_of [''v1'', ''instances'', ''i1'', ''routes'']" by (simp add: instance_path_def path_of_def slash_def)
  moreover have "list_all plain_segment [''v1'', ''instances'', ''i1'', ''routes'']" by code_simp
  ultimately show ?thesis by (simp add: hub_routes_def steady_do reading_def) (simp add: up_machine_def)
qed

theorem inbound_takes_effect_witness:
  "\<exists>d'. control (up_machine (up_tree InboundOpen)) (steady True) my_client up_ctx ''POST'' ''/inbound'' [] up_daemon ()
       = ((), d', Some (200, InboundIs InboundOpen)) \<and> loaded ''i1'' (dae_run d') = Some ''u''"
proof -
  let ?W = "up_machine (up_tree InboundOpen)"
  have "tree_inbound (up_tree InboundOpen) \<noteq> tree_inbound (up_tree InboundPing)"
    by (simp add: up_tree_def tree_inbound_tenant inboundRules_def rule_yaml_def InboundOpen_def InboundPing_def InboundNone_def)
  then have ne: "up_tree InboundOpen \<noteq> up_tree InboundPing" by metis
  have n: "tw_nebula ?W = two_trees (up_tree InboundPing) (up_tree InboundOpen)" by (simp add: up_machine_def)
  have ch: "(daemon_choices ?W up_daemon)\<lparr>ch_inbound := InboundOpen\<rparr> = example_choices\<lparr>ch_inbound := InboundOpen\<rparr>"
    by (simp add: daemon_choices_def choices_of_def example_choices_def up_machine_def my_machine_def up_daemon_def zero_data_def ValidFamilies_def
        FamiliesBoth_def FamiliesIPv4_def FamiliesIPv6_def)
  have render: "renderConfig (tw_nebula ?W) example_connection example_table ((daemon_choices ?W up_daemon)\<lparr>ch_inbound := InboundOpen\<rparr>) = Inr ''u''"
    unfolding ch n using ne by (simp add: renderConfig_Inr two_trees_def up_tree_def [symmetric] Ready_def) (simp add: example_connection_def)
  obtain st where s: "SetInbound None InboundOpen (dae_state up_daemon) = (st, Inr ())" "Inbound st = InboundOpen"
    by (simp add: SetInbound_def ValidInbound_def Write_def save_data_def Inbound_def)
  define r where "r = Refresh ?W (steady True) my_client (cx_Listeners up_ctx) (cx_IO up_ctx) (up_daemon\<lparr>dae_state := st\<rparr>) ()"
  have ref: "Refresh ?W (steady True) my_client (cx_Listeners up_ctx) (cx_IO up_ctx) (up_daemon\<lparr>dae_state := st\<rparr>) () = ((), snd r)" by (simp add: r_def prod_eq_iff)
  have set: "Inbound (dae_state (snd r)) = InboundOpen"
    using settings_choices(3) [OF refresh_loop_keeps [OF ref [unfolded Refresh_def]]] s(2) by (simp add: Inbound_def split: if_split_asm)
  have h: "control ?W (steady True) my_client up_ctx ''POST'' ''/inbound'' [] = control_handle ?W (steady True) my_client up_ctx [] InboundC"
    by (rule control_post [of _ "''inbound''"]) (simp_all add: slash_def pathUnescape_def control_routes_def)
  have x: "sj_Inbound (cx_json up_ctx) [] = Some \<lparr>ibq_Inbound = InboundOpen\<rparr>" "dw_IO (cx_Draws up_ctx) = None"
    by (simp_all add: up_ctx_def up_sjson_def my_draws_def)
  have c: "control ?W (steady True) my_client up_ctx ''POST'' ''/inbound'' [] up_daemon () = ((), snd r, Some (200, InboundIs InboundOpen))"
    unfolding h using ref set s(1) by (simp add: x control_handle_def control_Inbound_def body_of_def control_set_def control_refresh_def control_writeJSON_def)
  have up: "example_connection \<in> set (Connections (dae_state up_daemon))" "distinct (map con_InstanceID (Connections (dae_state up_daemon)))"
    "runner_isRunning (con_InstanceID example_connection) (dae_run up_daemon)" "Ready example_connection"
    by (simp_all add: up_daemon_def Connections_def vals_def runner_isRunning_def Ready_def example_connection_def)
  have "loaded (con_InstanceID example_connection) (dae_run (snd r)) = Some ''u''"
    using inbound_takes_effect [where ans = "\<lambda>iid. snd (hub_routes ?W (steady True) my_client iid ())", OF c _ up(1,2,4) _ up(3) render] n
    by (simp add: up_connection(2) up_routes two_trees_roundtrip) (auto simp: two_trees_def)
  with c show ?thesis by (auto simp: up_connection(2))
qed

section \<open>Joining and making\<close>

definition other_instance :: InstanceSummary where
  "other_instance = \<lparr>is_ID = ''i2'', is_Name = ''acme'', is_Binder = ''mara'', is_Overlay = Prefix (Addr4 0xC6130000) 24, is_Overlay6 = PrefixNone,
     is_Role = [], is_Owner = ''mara'', is_OwnerMachine = ''desk'', is_Yours = False, is_Address = PrefixNone, is_Address6 = PrefixNone, is_Routes = [],
     is_Members = 1, is_Pending = 0, is_Lighthouse = Addr4 0xC6130001, is_Running = True\<rparr>"

definition asking_machine :: tworld where
  "asking_machine = my_machine\<lparr>tw_json := my_tjson\<lparr>tj_readSummaries := (\<lambda>_. Some [other_instance]), tj_Join := (\<lambda>_. Some ''J'')\<rparr>\<rparr>"


definition new_instance :: CreateInstanceResponse where
  "new_instance = \<lparr>cs_ID = ''i3'', cs_Name = ''new'', cs_Binder = ''mara'', cs_Overlay = Prefix (Addr4 0xC6130000) 24, cs_Overlay6 = PrefixNone, cs_Port = 20000,
     cs_LighthouseAddress = Addr4 0xC6130001, cs_LighthouseAddress6 = AddrNone, cs_TenantAddress = Addr4 0xC6130002, cs_TenantAddress6 = AddrNone,
     cs_LighthousePublicKey = ''xl'', cs_Endpoint = ''hub.example'', cs_MTU = 1300, cs_Relay = True\<rparr>"

definition new_authority :: Certificate where
  "new_authority = \<lparr>crt_TBS = \<lparr>tbs_Name = ''robinet-new'', tbs_Networks = [Prefix (Addr4 0xC6130000) 24], tbs_UnsafeNetworks = [], tbs_Groups = [],
     tbs_NotBefore = second, tbs_NotAfter = second + DefaultCADuration, tbs_PublicKey = ''PK'', tbs_IsCA = True, tbs_Curve = Curve25519\<rparr>, crt_Signature = ''K''\<rparr>"

definition new_cert :: "string \<Rightarrow> string \<Rightarrow> addr \<Rightarrow> Certificate" where
  "new_cert name pub a = \<lparr>crt_TBS = \<lparr>tbs_Name = name, tbs_Networks = [Prefix a 24], tbs_UnsafeNetworks = [], tbs_Groups = [],
     tbs_NotBefore = second, tbs_NotAfter = second + DefaultCertDuration, tbs_PublicKey = pub, tbs_IsCA = False, tbs_Curve = Curve25519\<rparr>, crt_Signature = ''K''\<rparr>"

definition new_certlib :: certlib where
  "new_certlib = listed_certlib [(''A'', new_authority), (''L'', new_cert (LighthouseCertName ''new'') ''l'' (Addr4 0xC6130001)),
     (''O'', new_cert (MemberCertName KindTenant ''laptop'' ''new'') ''h'' (Addr4 0xC6130002))]"

definition making_machine :: tworld where
  "making_machine = my_machine\<lparr>tw_cert := new_certlib, tw_json := my_tjson\<lparr>tj_Create := (\<lambda>_. Some ''I''), tj_Lighthouse := (\<lambda>_. Some ''L''),
     tj_readCreated := (\<lambda>_. Some new_instance)\<rparr>\<rparr>"

lemma new_generate:
  "Generate new_certlib second (Some (''PK'', ''K'')) ''robinet-new'' [Prefix (Addr4 0xC6130000) 24] 0 = Inr (\<lparr>ca_cert = new_authority, ca_key = ''K''\<rparr>, ''A'', ''xK'')"
  by (simp add: Generate_def new_certlib_def listed_certlib_def new_authority_def tag_def seconds_def DefaultCADuration_def day_def second_def)

lemma new_sign:
  assumes "cl_MarshalPEM new_certlib (new_cert name pub a) = Some pem"
  shows "Sign new_certlib second \<lparr>ca_cert = new_authority, ca_key = ''K''\<rparr>
    \<lparr>ho_Name = name, ho_PublicKeyPEM = CHR ''x'' # pub, ho_Networks = [Prefix a 24], ho_UnsafeNetworks = [], ho_Groups = [], ho_Duration = 0\<rparr> = Inr pem"
proof -
  have "seconds (second + DefaultCertDuration) = second + DefaultCertDuration" "seconds second = second"
    "\<not> second + DefaultCADuration < second + DefaultCertDuration"
    by (simp_all add: seconds_def DefaultCertDuration_def DefaultCADuration_def day_def second_def)
  moreover have "cl_UnmarshalPublicKey new_certlib (CHR ''x'' # pub) = Some (pub, Curve25519)" by (simp add: new_certlib_def listed_certlib_def untag_def)
  moreover have "cl_Sign new_certlib tbs signer curve key = Some \<lparr>crt_TBS = tbs\<lparr>tbs_NotBefore := seconds (tbs_NotBefore tbs),
      tbs_NotAfter := seconds (tbs_NotAfter tbs)\<rparr>, crt_Signature = key\<rparr>" for tbs signer curve key by (simp add: new_certlib_def listed_certlib_def)
  ultimately show ?thesis using assms by (simp add: Sign_def new_authority_def Let_def new_cert_def)
qed


definition my_options :: JoinOptions where
  "my_options = \<lparr>jo_HubURL = ''https://hub:8443'', jo_Token = ''t'', jo_Name = ''laptop'', jo_SSHKeyPath = [], jo_SSHFingerprint = [],
     jo_Signer = None, jo_Insecure = False, jo_Pin = []\<rparr>"

definition my_keyring :: keyring where
  "my_keyring = \<lparr>ks_Agent = Some [\<lparr>sgn_PublicKey = ''key'', sgn_Sign = (\<lambda>_. Some ''s'')\<rparr>], ks_File = (\<lambda>_. Unreadable)\<rparr>"

definition joining_machine :: tworld where
  "joining_machine = my_machine\<lparr>tw_json := my_tjson\<lparr>tj_Register := (\<lambda>_. Some ''R''),
     tj_readRegistered := (\<lambda>_. Some \<lparr>rs_Identity = me, rs_Binder = ''mara'', rs_Key = ''key''\<rparr>)\<rparr>\<rparr>"

definition blank_state :: State where
  "blank_state = \<lparr>sta_data = zero_data\<lparr>da_Owned := Some [], da_Connections := Some []\<rparr>, sta_fs = \<lparr>tf_file = None, tf_tmp = None\<rparr>\<rparr>"

lemma my_join:
  "\<exists>s' j. Join joining_machine (steady True) my_keyring (Some example_priv) (Some own) None my_options blank_state () = ((), s', Inr j)
     \<and> jd_Hub j = ''https://hub:8443'' \<and> da_Identity (sta_data s') = PrivateIdentity example_priv"
proof -
  let ?url = "''https://'' @ host_port ''hub'' ''8443''" and ?segs = "[''v1'', ''register'']"
  have segs: "list_all plain_segment ?segs" by code_simp
  have url: "trim_right (\<lambda>c. c = slash) ''https://hub:8443'' = ''https://hub:8443''" by code_simp
  have path: "''/v1/register'' = path_of ?segs" "''https://hub:8443'' = ?url" by (simp_all add: path_of_def slash_def host_port_def)
  note new = NewRequest_plain [OF my_address(2,3) _ segs, of "''POST''" "''R''"]
  have host: "hostOf (?url @ path_of ?segs) = Inr (host_port ''hub'' ''8443'')"
    using new by (auto simp: NewRequest_def hostOf_def host_port_def split: option.split_asm)
  have sign: "\<exists>a. BootstrapSign example_crypto no_unicode (tw_ssh joining_machine) b \<lparr>sgn_PublicKey = ''key'', sgn_Sign = (\<lambda>_. Some ''s'')\<rparr> = Inr a" for b
    by (simp add: BootstrapSign_def SignSSHSIG_def hash_def Let_def)
  obtain call where call: "register_call (?url @ path_of ?segs) ''R'' = Some call" using new by (simp add: register_call_def)
  have W: "tw_crypto joining_machine = example_crypto" "tw_unicode joining_machine = no_unicode" "tw_FingerprintSHA256 joining_machine k = []"
    "tj_Register (tw_json joining_machine) rq = Some ''R''" "tj_readRegistered (tw_json joining_machine) out = Some \<lparr>rs_Identity = me, rs_Binder = ''mara'', rs_Key = ''key''\<rparr>"
    for k rq out by (simp_all add: joining_machine_def) (simp add: my_machine_def)
  have t: "httpClient joining_machine False [] = Inr SystemRoots" by (simp add: httpClient_def)
  have reg: "register joining_machine (steady True) my_keyring my_options i () = ((), Inr (\<lparr>rs_Identity = me, rs_Binder = ''mara'', rs_Key = ''key''\<rparr>, []))" for i
  proof -
    let ?b = "\<lparr>boot_API = host_port ''hub'' ''8443'', boot_Token = ''t'', boot_Name = ''laptop'', boot_Identity = i\<rparr>"
    obtain a where a: "BootstrapSign example_crypto no_unicode (tw_ssh joining_machine) ?b \<lparr>sgn_PublicKey = ''key'', sgn_Sign = (\<lambda>_. Some ''s'')\<rparr> = Inr a"
      using sign by blast
    have o: "jo_HubURL my_options = ''https://hub:8443''" "bootstrapSigners joining_machine my_keyring my_options = Inr [\<lparr>sgn_PublicKey = ''key'', sgn_Sign = (\<lambda>_. Some ''s'')\<rparr>]"
      "jo_Insecure my_options = False" "jo_Pin my_options = []" "jo_Token my_options = ''t''" "jo_Name my_options = ''laptop''"
      by (simp_all add: my_options_def my_keyring_def bootstrapSigners_def)
    show ?thesis unfolding register_def Let_def o url path(1) unfolding path(2) host sum.case t register_loop.simps W a option.case call
      by (simp add: steady_def W)
  qed
  have n: "my_options\<lparr>jo_Name := join_name blank_state my_options\<rparr> = my_options" "jo_Name my_options \<noteq> []" "jo_Name my_options \<noteq> DefaultNameMarker"
    "jo_HubURL my_options = ''https://hub:8443''" "da_Identity (sta_data blank_state) = []" "da_HubURL (sta_data blank_state) = []"
    by (simp_all add: join_name_def my_options_def blank_state_def zero_data_def DefaultNameMarker_def)
  show ?thesis
    unfolding Join_def Let_def n(1) n(5,6) using n(2,3)
    by (simp add: reg url n(4) after_write_def Write_def save_data_def registered_data_def)
qed


end
