(* ===== verification/Readback.thy ===== *)
theory Readback
  imports Parse
begin

text \<open>
  Addresses are read back as they were written, those of IPv6 with their run of zeros left out included, and with
  them prefixes and what is joined of an address and a port.
\<close>

section \<open>Groups\<close>

lemma unhex_hexdigit_some: "n < 16 \<Longrightarrow> unhex (hexdigit n) \<noteq> None"
  by (simp add: unhex_hexdigit)

lemma hex_of_unhex: "c \<in> set (hex_of n) \<Longrightarrow> unhex c \<noteq> None"
proof (induction n rule: hex_of.induct)
  case (1 n)
  then show ?case using unhex_hexdigit_some [of n] unhex_hexdigit_some [of "n mod 16"]
    by (cases "n < 16") (auto simp: hex_of.simps [of n])
qed

lemma hex_of_ne [simp]: "hex_of n \<noteq> []"
  by (simp add: hex_of.simps [of n])

lemma hex_val_append: "hex_val (s @ [c]) = 16 * hex_val s + the_default 0 (unhex c)"
  by (simp add: hex_val_def)

lemma hex_val_of [simp]: "hex_val (hex_of n) = n"
proof (induction n rule: hex_of.induct)
  case (1 n)
  show ?case
  proof (cases "n < 16")
    case True
    then show ?thesis by (simp add: hex_of.simps [of n] hex_val_def unhex_hexdigit)
  next
    case False
    have "n mod 16 < 16" by simp
    then show ?thesis using 1 [OF False] False by (simp add: hex_of.simps [of n] hex_val_append unhex_hexdigit)
  qed
qed

lemma hex_of_short: "n < 16 ^ Suc k \<Longrightarrow> length (hex_of n) \<le> Suc k"
proof (induction k arbitrary: n)
  case 0
  then show ?case by (simp add: hex_of.simps [of n])
next
  case (Suc k)
  have "n div 16 < 16 ^ Suc k" using Suc.prems by (simp add: less_mult_imp_div_less)
  from Suc.IH [OF this] show ?case by (simp add: hex_of.simps [of n])
qed

lemma hex_run_of:
  assumes "rest = [] \<or> unhex (hd rest) = None"
  shows "hex_run (hex_of n @ rest) = hex_of n"
  using assms hex_of_unhex [of _ n] unfolding hex_run_def
  by (cases rest) (auto simp: takeWhile_append)

lemma unhex_colon [simp]: "unhex (CHR '':'') = None" "unhex dot = None"
  by code_simp+

definition small :: "nat list \<Rightarrow> bool" where
  "small gs \<longleftrightarrow> list_all (\<lambda>g. g < 2 ^ 16) gs"

lemma hex_of_four: "g < 2 ^ 16 \<Longrightarrow> length (hex_of g) \<le> 4"
  using hex_of_short [of g 3] by simp

lemma hex_of_head: "hd (hex_of n @ s) \<noteq> CHR '':''"
  using hex_of_unhex [of "hd (hex_of n)" n] unhex_colon(1) by (cases "hex_of n") auto

text \<open>One group and what follows it.\<close>

lemma groups_loop_step:
  assumes "g < 2 ^ 16" and "length gs < 8"
  shows "groups_loop (hex_of g) gs ell = Some (gs @ [g], ell)"
    and "s \<noteq> [] \<Longrightarrow> hd s \<noteq> CHR '':'' \<Longrightarrow> groups_loop (hex_of g @ CHR '':'' # s) gs ell = groups_loop s (gs @ [g]) ell"
    and "groups_loop (hex_of g @ ''::'') gs None = Some (gs @ [g], Some (length gs + 1))"
    and "s \<noteq> [] \<Longrightarrow> groups_loop (hex_of g @ ''::'' @ s) gs None = groups_loop s (gs @ [g]) (Some (length gs + 1))"
proof -
  note four = hex_of_four [OF assms(1)] and l = assms(2)
  show "groups_loop (hex_of g) gs ell = Some (gs @ [g], ell)"
    using hex_run_of [of "[]" g] four l by (simp add: groups_loop.simps [of "hex_of g"] Let_def)
  have r: "hex_run (hex_of g @ CHR '':'' # t) = hex_of g" for t by (rule hex_run_of) simp
  have d: "CHR '':'' \<noteq> dot" by (simp add: dot_def)
  show "groups_loop (hex_of g @ CHR '':'' # s) gs ell = groups_loop s (gs @ [g]) ell" if "s \<noteq> []" "hd s \<noteq> CHR '':''"
    using r [of s] four l that d by (subst groups_loop.simps) (simp add: Let_def)
  show "groups_loop (hex_of g @ ''::'') gs None = Some (gs @ [g], Some (length gs + 1))"
    using r [of "'':''"] four l d by (subst groups_loop.simps) (simp add: Let_def)
  show "groups_loop (hex_of g @ ''::'' @ s) gs None = groups_loop s (gs @ [g]) (Some (length gs + 1))" if "s \<noteq> []"
    using r [of "'':'' @ s"] four l that d by (subst groups_loop.simps) (simp add: Let_def)
qed

lemma join_hex: "gs \<noteq> [] \<Longrightarrow> join '':'' (map hex_of (g # gs)) = hex_of g @ CHR '':'' # join '':'' (map hex_of gs)"
  by (simp add: join_Cons)

lemma join_hex_head: "gs \<noteq> [] \<Longrightarrow> join '':'' (map hex_of gs) @ s \<noteq> [] \<and> hd (join '':'' (map hex_of gs) @ s) \<noteq> CHR '':''"
proof (cases gs)
  case (Cons g rest)
  then show ?thesis
    using hex_of_head [of g s] hex_of_head [of g "CHR '':'' # join '':'' (map hex_of rest) @ s"] by (cases "rest = []") (simp_all add: join_Cons)
qed simp

lemma groups_loop_join:
  assumes "small gs" and "gs \<noteq> []" and "length acc + length gs \<le> 8"
  shows "groups_loop (join '':'' (map hex_of gs)) acc ell = Some (acc @ gs, ell)"
  using assms
proof (induction gs arbitrary: acc)
  case (Cons g gs)
  show ?case
  proof (cases "gs = []")
    case True
    then show ?thesis using Cons.prems groups_loop_step(1) by (simp add: small_def)
  next
    case False
    then have "groups_loop (join '':'' (map hex_of (g # gs))) acc ell = groups_loop (join '':'' (map hex_of gs)) (acc @ [g]) ell"
      unfolding join_hex [OF False] using Cons.prems join_hex_head [OF False, of "[]"] by (intro groups_loop_step(2)) (simp_all add: small_def)
    then show ?thesis using Cons.IH [of "acc @ [g]"] Cons.prems False by (simp add: small_def)
  qed
qed simp

lemma groups_loop_ellipsis:
  assumes "small as" and "small bs" and "as \<noteq> []" and "length acc + length as + length bs \<le> 8" and "length acc + length as < 8"
  shows "groups_loop (join '':'' (map hex_of as) @ ''::'' @ join '':'' (map hex_of bs)) acc None = Some (acc @ as @ bs, Some (length acc + length as))"
  using assms
proof (induction as arbitrary: acc)
  case (Cons g as)
  have g: "g < 2 ^ 16" "length acc < 8" using Cons.prems by (simp_all add: small_def)
  show ?case
  proof (cases "as = []")
    case True
    show ?thesis
    proof (cases "bs = []")
      case True
      then show ?thesis using \<open>as = []\<close> groups_loop_step(3) [OF g] by simp
    next
      case False
      then have "join '':'' (map hex_of bs) \<noteq> []" using join_hex_head [OF False, of "[]"] by simp
      from groups_loop_step(4) [OF g this] show ?thesis
        using \<open>as = []\<close> groups_loop_join [of bs "acc @ [g]"] Cons.prems False by simp
    qed
  next
    case False
    let ?t = "''::'' @ join '':'' (map hex_of bs)"
    have "groups_loop (join '':'' (map hex_of (g # as)) @ ?t) acc None = groups_loop (join '':'' (map hex_of as) @ ?t) (acc @ [g]) None"
      unfolding join_hex [OF False] using groups_loop_step(2) [OF g, of "join '':'' (map hex_of as) @ ?t"] join_hex_head [OF False, of ?t] by simp
    then show ?thesis using Cons.IH [of "acc @ [g]"] Cons.prems False by (simp add: small_def)
  qed
qed simp

section \<open>The run of zeros\<close>

definition run_ok :: "nat list \<Rightarrow> nat \<times> nat \<Rightarrow> bool" where
  "run_ok gs r \<longleftrightarrow> snd r = 0 \<or> 2 \<le> snd r \<and> fst r + snd r \<le> length gs \<and> take (snd r) (drop (fst r) gs) = replicate (snd r) 0"

lemma takeWhile_zero: "take (length (takeWhile (\<lambda>g. g = 0) xs)) xs = replicate (length (takeWhile (\<lambda>g. g = 0) xs)) (0 :: nat)"
  by (induction xs) auto

lemma run_ok_zero_run: "run_ok gs (zero_run gs)"
proof -
  let ?f = "\<lambda>(start, len) i. let l = length (takeWhile (\<lambda>g. g = 0) (drop i gs)) in if 2 \<le> l \<and> len < l then (i, l) else (start, len)"
  have step: "run_ok gs (?f r i)" if "run_ok gs r" "i \<le> length gs" for r i
    using that takeWhile_zero [of "drop i gs"] length_takeWhile_le [of "\<lambda>g. g = 0" "drop i gs"]
    by (cases r) (auto simp: run_ok_def Let_def simp del: length_takeWhile_le)
  have "run_ok gs (foldl ?f r is)" if "run_ok gs r" "\<forall>i \<in> set is. i \<le> length gs" for r "is"
    using that by (induction "is" arbitrary: r) (use step in \<open>simp_all del: split_paired_All\<close>)
  moreover have "run_ok gs (0, 0)" by (simp add: run_ok_def)
  ultimately show ?thesis unfolding zero_run_def by simp
qed

lemma run_splits:
  assumes "run_ok gs (start, len)" and "len \<noteq> 0"
  shows "gs = take start gs @ replicate len 0 @ drop (start + len) gs" and "2 \<le> len" and "start + len \<le> length gs"
proof -
  note r = assms(1) [unfolded run_ok_def fst_conv snd_conv]
  have "gs = take start gs @ take len (drop start gs) @ drop len (drop start gs)" by (simp only: append_take_drop_id)
  then show "gs = take start gs @ replicate len 0 @ drop (start + len) gs" using r assms(2) by (metis add.commute drop_drop)
qed (use assms in \<open>auto simp: run_ok_def\<close>)

lemma small_parts: "small gs \<Longrightarrow> small (take n gs)" "small gs \<Longrightarrow> small (drop n gs)"
  by (auto simp: small_def list_all_iff dest: in_set_takeD in_set_dropD)

lemma not_double: "hd s \<noteq> CHR '':'' \<Longrightarrow> s \<noteq> ''::'' \<and> \<not> HasPrefix s ''::''"
  by (auto simp: HasPrefix_iff)

lemma parse6_string6:
  assumes "small gs" and "length gs = 8"
  shows "parse6 (string6 gs) = Some (groups_val gs)"
proof -
  obtain start len where z: "zero_run gs = (start, len)" by fastforce
  note ok = run_ok_zero_run [of gs, unfolded z]
  let ?as = "take start gs" and ?bs = "drop (start + len) gs"
  show ?thesis
  proof (cases "len = 0")
    case True
    have "gs \<noteq> []" using assms(2) by auto
    from join_hex_head [OF this, of "[]"] not_double have "join '':'' (map hex_of gs) \<noteq> ''::'' \<and> \<not> HasPrefix (join '':'' (map hex_of gs)) ''::''" by simp
    moreover have "groups_loop (join '':'' (map hex_of gs)) [] None = Some (gs, None)"
      using groups_loop_join [OF assms(1) \<open>gs \<noteq> []\<close>, of "[]"] assms(2) by simp
    ultimately show ?thesis using True by (simp add: string6_def z parse6_def fill_groups_def assms(2))
  next
    case False
    note s = run_splits [OF ok False]
    have str: "string6 gs = join '':'' (map hex_of ?as) @ ''::'' @ join '':'' (map hex_of ?bs)" using False by (simp add: string6_def z)
    have len: "8 - (length ?as + length ?bs) = len" "length ?as = start" "length ?as + length ?bs \<le> 6" using s(2,3) assms(2) by simp_all
    show ?thesis
    proof (cases "start = 0")
      case True
      then have gs: "gs = replicate len 0 @ ?bs" using s(1) by simp
      show ?thesis
      proof (cases "?bs = []")
        case True
        have e: "gs = replicate len 0" using gs unfolding True by simp
        then have "len = 8" using assms(2) by (metis length_replicate)
        then have g: "gs = replicate 8 0" using e by simp
        have "string6 gs = ''::''" using str True \<open>start = 0\<close> by (simp only: take_0 list.map join.simps append_Nil append_Nil2)
        have "groups_val (replicate n 0) = 0" for n by (induction n) (simp_all add: groups_val_def)
        then show ?thesis using \<open>string6 gs = ''::''\<close> g by (metis parse6_def)
      next
        case False
        have p: "HasPrefix (string6 gs) ''::''" "string6 gs \<noteq> ''::''" "drop 2 (string6 gs) = join '':'' (map hex_of ?bs)"
          using str \<open>start = 0\<close> join_hex_head [OF False, of "[]"] by (auto simp: HasPrefix_iff)
        have "groups_loop (join '':'' (map hex_of ?bs)) [] (Some 0) = Some (?bs, Some 0)"
          using groups_loop_join [OF small_parts(2) [OF assms(1)] False, of "[]" "Some 0"] assms(2) by simp
        moreover have "fill_groups ?bs (Some 0) = Some (replicate len 0 @ ?bs)"
          using len \<open>start = 0\<close> unfolding fill_groups_def by simp
        ultimately show ?thesis using p unfolding gs [symmetric] by (simp add: parse6_def)
      qed
    next
      case False
      then have as: "?as \<noteq> []" using s(3) assms(2) by auto
      then have p: "string6 gs \<noteq> ''::''" "\<not> HasPrefix (string6 gs) ''::''"
        using not_double join_hex_head [OF as] unfolding str by auto
      have "groups_loop (string6 gs) [] None = Some (?as @ ?bs, Some start)"
        using groups_loop_ellipsis [OF small_parts(1) [OF assms(1)] small_parts(2) [OF assms(1)] as, of "[]"] len unfolding str by simp
      moreover have "fill_groups (?as @ ?bs) (Some start) = Some (?as @ replicate len 0 @ ?bs)"
        using len unfolding fill_groups_def by simp
      ultimately show ?thesis using p unfolding s(1) [symmetric] by (simp add: parse6_def)
    qed
  qed
qed

section \<open>Addresses\<close>

lemma groups_val_snoc: "groups_val (gs @ [g]) = 2 ^ 16 * groups_val gs + g"
  by (simp add: groups_val_def)

lemma small_groups6: "small (groups6 w)" "length (groups6 w) = 8"
  by (simp_all add: groups6_def small_def list_all_iff)

lemma groups_val_groups6: "groups_val (groups6 w) = unat w"
proof -
  let ?n = "unat w"
  have "groups_val (map (\<lambda>i. ?n div 2 ^ (16 * (7 - i)) mod 2 ^ 16) [0..<k]) = ?n div 2 ^ (16 * (8 - k))" if "k \<le> 8" for k
    using that
  proof (induction k)
    case 0
    have "?n < 2 ^ 128" using unsigned_less [of w] by simp
    then show ?case by (simp add: groups_val_def)
  next
    case (Suc k)
    have e: "16 * (8 - k) = 16 * (7 - k) + 16" using Suc.prems by simp
    have "?n div 2 ^ (16 * (7 - k)) = 2 ^ 16 * (?n div 2 ^ (16 * (8 - k))) + ?n div 2 ^ (16 * (7 - k)) mod 2 ^ 16"
      unfolding e power_add by (simp add: div_mult2_eq)
    then show ?case using Suc by (simp add: groups_val_snoc)
  qed
  from this [of 8] show ?thesis by (simp add: groups6_def)
qed

lemma join_chars: "c \<in> set (join '':'' ss) \<Longrightarrow> c = CHR '':'' \<or> (\<exists>s \<in> set ss. c \<in> set s)"
  by (induction "'':''" ss rule: join.induct) auto

lemma string6_chars: "c \<in> set (string6 gs) \<Longrightarrow> c = CHR '':'' \<or> unhex c \<noteq> None"
  by (auto simp: string6_def Let_def split: prod.split_asm if_split_asm dest!: join_chars hex_of_unhex)

lemma string6_colon:
  assumes "length gs = 8"
  shows "CHR '':'' \<in> set (string6 gs)"
proof (cases "zero_run gs")
  case (Pair start len)
  have "CHR '':'' \<in> set (join '':'' (map hex_of gs))"
    using assms by (cases gs; cases "tl gs") (simp_all add: join_Cons)
  then show ?thesis using Pair by (simp add: string6_def)
qed

lemma unhex_others: "unhex (CHR ''%'') = None" "unhex (CHR ''['') = None" "unhex (CHR '']'') = None"
  by code_simp+

lemma digits_of_short: "n < 10 ^ Suc k \<Longrightarrow> length (digits_of n) \<le> Suc k"
proof (induction k arbitrary: n)
  case 0
  then show ?case by (simp add: digits_of.simps [of n])
next
  case (Suc k)
  have "n div 10 < 10 ^ Suc k" using Suc.prems by (simp add: less_mult_imp_div_less)
  from Suc.IH [OF this] show ?case by (simp add: digits_of.simps [of n])
qed

lemma unhex_digit: "is_digit c \<Longrightarrow> unhex c \<noteq> None"
  by (auto simp: is_digit_def unhex_def Let_def)

lemma string4_head:
  obtains ds where "string4 m = digits_of (m div 256 ^ 3 mod 256) @ dot # ds"
  by (simp add: string4_def upt_rec dot_def)

lemma groups_loop_string4:
  assumes "m < 2 ^ 32" and "length gs \<le> 6"
  shows "groups_loop (string4 m) gs (Some k) = Some (gs @ [m div 2 ^ 16, m mod 2 ^ 16], Some k)"
proof -
  let ?d = "digits_of (m div 256 ^ 3 mod 256)"
  obtain ds where s: "string4 m = ?d @ dot # ds" by (rule string4_head)
  have "takeWhile (\<lambda>c. unhex c \<noteq> None) (?d @ dot # ds) = ?d"
    using unhex_digit digits_of_digits by (subst takeWhile_append) auto
  then have run: "hex_run (string4 m) = ?d" "drop (length ?d) (string4 m) = dot # ds" by (simp_all add: hex_run_def s)
  have "length ?d \<le> 3" using digits_of_short [of "m div 256 ^ 3 mod 256" 2] by simp
  then show ?thesis
    using run parse4_string4 [OF assms(1)] assms(2) by (subst groups_loop.simps) (simp add: Let_def)
qed

lemma mapped_parse:
  assumes "m < 2 ^ 32"
  shows "parse6 (''::ffff:'' @ string4 m) = Some (2 ^ 32 * 0xffff + m)"
proof -
  have f: "hex_of 65535 = ''ffff''" by (simp add: hex_of.simps hexdigit_def) code_simp
  obtain ds where s: "string4 m = digits_of (m div 256 ^ 3 mod 256) @ dot # ds" by (rule string4_head)
  have "is_digit (hd (digits_of (m div 256 ^ 3 mod 256)))" by (rule digits_of_digits [OF hd_in_set]) simp
  then have "string4 m \<noteq> []" "hd (string4 m) \<noteq> CHR '':''" by (auto simp: s is_digit_def)
  then have "groups_loop (''ffff'' @ CHR '':'' # string4 m) [] (Some 0) = groups_loop (string4 m) [65535] (Some 0)"
    using groups_loop_step(2) [of 65535 "[]" "string4 m" "Some 0"] f by simp
  then have g: "groups_loop (''ffff:'' @ string4 m) [] (Some 0) = Some ([65535, m div 2 ^ 16, m mod 2 ^ 16], Some 0)"
    using groups_loop_string4 [OF assms, of "[65535]" 0] by simp
  have v: "groups_val (replicate 5 0 @ [65535, m div 2 ^ 16, m mod 2 ^ 16]) = 2 ^ 32 * 0xffff + m"
  proof -
    have "foldl (\<lambda>n g. 2 ^ 16 * n + g) 0 (replicate k 0) = (0 :: nat)" for k by (induction k) simp_all
    then have "groups_val (replicate 5 0 @ [65535, m div 2 ^ 16, m mod 2 ^ 16]) = 2 ^ 16 * (2 ^ 16 * 65535 + m div 2 ^ 16) + m mod 2 ^ 16"
      by (simp add: groups_val_def)
    also have "\<dots> = 2 ^ 32 * 0xffff + (2 ^ 16 * (m div 2 ^ 16) + m mod 2 ^ 16)" by simp
    finally show ?thesis by (simp only: mult_div_mod_eq)
  qed
  have "fill_groups [65535, m div 2 ^ 16, m mod 2 ^ 16] (Some 0) = Some (replicate 5 0 @ [65535, m div 2 ^ 16, m mod 2 ^ 16])"
    by (simp add: fill_groups_def)
  with v g show ?thesis by (simp add: parse6_def HasPrefix_def)
qed

text \<open>What is written of an address is read as that address.\<close>

theorem ParseAddr_AddrString:
  assumes "IsValid a"
  shows "ParseAddr (AddrString a) = Some (a, [])"
proof (cases a)
  case (Addr4 w)
  then show ?thesis using ParseAddr_string4 [of w] by (simp only:)
next
  case (Addr6 w)
  let ?s = "AddrString (Addr6 w)"
  have six: "parse6 ?s = Some (unat w) \<and> CHR ''%'' \<notin> set ?s \<and> find (\<lambda>c. c \<in> {dot, CHR '':'', CHR ''%''}) ?s = Some (CHR '':'')"
  proof (cases "unat w div 2 ^ 32 = 0xffff")
    case True
    let ?m = "unat w mod 2 ^ 32"
    have "2 ^ 32 * 0xffff + ?m = unat w" using True by (metis mult_div_mod_eq)
    moreover have "?m < 2 ^ 32" by simp
    ultimately have "parse6 (''::ffff:'' @ string4 ?m) = Some (unat w)" using mapped_parse [of ?m] by simp
    moreover have "CHR ''%'' \<notin> set (string4 ?m)" using string4_chars [of "CHR ''%''" ?m] by (auto simp: is_digit_def dot_def)
    ultimately show ?thesis using True by (simp add: dot_def)
  next
    case False
    then have s: "?s = string6 (groups6 w)" by simp
    have "CHR ''%'' \<notin> set ?s" "dot \<notin> set ?s"
      unfolding s using string6_chars [of "CHR ''%''" "groups6 w"] string6_chars [of dot "groups6 w"] unhex_others(1) unhex_colon(2) by (auto simp: dot_def)
    moreover have "CHR '':'' \<in> set ?s" unfolding s by (rule string6_colon [OF small_groups6(2)])
    then obtain c where c: "find (\<lambda>c. c \<in> {dot, CHR '':'', CHR ''%''}) ?s = Some c"
      using find_NoneD [of "\<lambda>c. c \<in> {dot, CHR '':'', CHR ''%''}" ?s "CHR '':''"] by fastforce
    then have "c \<in> {dot, CHR '':'', CHR ''%''} \<and> c \<in> set ?s" using find_SomeD by fastforce
    ultimately have "c = CHR '':''" by auto
    moreover have "parse6 ?s = Some (unat w)" unfolding s using parse6_string6 [OF small_groups6] groups_val_groups6 by simp
    ultimately show ?thesis using c \<open>CHR ''%'' \<notin> set ?s\<close> by simp
  qed
  then have "cut_char (CHR ''%'') ?s = None" by (simp only: cut_char_none not_False_eq_True)
  with six have "ParseAddr ?s = Some (Addr6 w, [])" unfolding ParseAddr_def by (simp add: dot_def del: AddrString.simps)
  then show ?thesis using Addr6 by (simp only:)
qed (use assms in simp)

lemma AddrString_chars:
  assumes "IsValid a" and "c \<in> set (AddrString a)"
  shows "c = CHR '':'' \<or> c = dot \<or> unhex c \<noteq> None"
proof (cases a)
  case (Addr4 w)
  then show ?thesis using assms(2) string4_chars [of c "unat w"] unhex_digit [of c] by auto
next
  case (Addr6 w)
  have "unhex (CHR ''f'') \<noteq> None" by code_simp
  then show ?thesis
    using assms(2) Addr6 string4_chars [of c "unat w mod 2 ^ 32"] unhex_digit [of c] string6_chars [of c "groups6 w"]
    by (auto split: if_split_asm)
qed (use assms in simp)

lemma AddrString_plain:
  assumes "IsValid a"
  shows "CHR ''['' \<notin> set (AddrString a)" "CHR '']'' \<notin> set (AddrString a)" "CHR ''/'' \<notin> set (AddrString a)" "AddrString a \<noteq> []"
proof -
  have "unhex (CHR ''/'') = None" by code_simp
  then show "CHR ''['' \<notin> set (AddrString a)" "CHR '']'' \<notin> set (AddrString a)" "CHR ''/'' \<notin> set (AddrString a)"
    using AddrString_chars [OF assms] unhex_others by (fastforce simp: dot_def)+
  have "ParseAddr [] = None" by (simp add: ParseAddr_def)
  then show "AddrString a \<noteq> []" using ParseAddr_AddrString [OF assms] by auto
qed

lemma host_port_reads:
  assumes "IsValid a"
  shows "SplitHostPort (JoinHostPort (AddrString a) (digits_of n)) = Some (AddrString a, digits_of n)"
  using AddrString_plain [OF assms] digits_of_no [of _ n] by (intro SplitHostPort_JoinHostPort) (simp_all add: is_digit_def)

theorem ParsePrefix_PrefixString:
  assumes "wf_prefix p"
  shows "ParsePrefix (PrefixString p) = Some p"
proof (cases p)
  case (Prefix a n)
  have v: "IsValid a" "0 \<le> n" "n \<le> int (BitLen a)" "PrefixIsValid p" using assms by (auto simp: wf_prefix_def Prefix PrefixIsValid_def)
  have "BitLen a \<le> 128" by (cases a) simp_all
  then have "nat n < 2 ^ 63" using v(3) by simp
  then have "Atoi (digits_of (nat n)) = Some n" using Atoi_digits_of [of "nat n"] v(2) by simp
  moreover have "CHR ''/'' \<notin> set (digits_of (nat n))" by (rule digits_of_no) (simp add: is_digit_def)
  ultimately show ?thesis
    using v ParseAddr_AddrString [OF v(1)] bits_lead [of "nat n"]
    by (auto simp: ParsePrefix_def PrefixString_def Prefix cut_last_append)
qed

end
