(* ===== verification/Netstack.thy ===== *)
theory Netstack
  imports Connector Readback
begin

text \<open>
  The network stack of a connector, \<open>src/internal/netstack\<close>: which resolver it forwards queries to, what becomes of
  a flow that arrives from the mesh, and how a flow is carried to the host network and back.

  The stack itself is gvisor. What it is asked to do, and whether it does, is the record \<open>gvisor\<close>; a flow is
  what its forwarder hands over, the address and the port it was sent to. What becomes of the flow is a value: it
  is reset, dropped, given to a listener, or spliced to an address of the host network.
\<close>

section \<open>Lines of a file\<close>

text \<open>\<open>bufio.Scanner\<close>: the lines up to the first that does not fit into its buffer, and whether there is one.\<close>

definition drop_cr :: "string \<Rightarrow> string" where
  "drop_cr l = (if l \<noteq> [] \<and> last l = CHR 0x0D then butlast l else l)"

definition scan_lines :: "string \<Rightarrow> string list \<times> bool" where
  "scan_lines s =
     (let raw = split_on nl s; raw = (if last raw = [] then butlast raw else raw); fit = takeWhile (\<lambda>l. length l < 65536) raw
      in (map drop_cr fit, length fit < length raw))"

section \<open>Options\<close>

record Options =
  op_Gateway :: bool
  op_GatewayUDPTimeout :: time
  op_DNS :: bool
  op_DNSUpstreams :: "string list"
  op_DNSResolvConf :: string
  op_DNSPort :: "16 word"
  op_DNSIdleTimeout :: time
  op_HostDialTimeout :: time
  op_MTU :: "32 word"

definition netstack_applyDefaults :: "Options \<Rightarrow> Options" where
  "netstack_applyDefaults o1 =
     o1\<lparr>op_HostDialTimeout := (if op_HostDialTimeout o1 = 0 then 10 * second else op_HostDialTimeout o1),
       op_GatewayUDPTimeout := (if op_GatewayUDPTimeout o1 = 0 then 60 * second else op_GatewayUDPTimeout o1),
       op_DNSPort := (if op_DNSPort o1 = 0 then 53 else op_DNSPort o1),
       op_DNSIdleTimeout := (if op_DNSIdleTimeout o1 = 0 then 10 * second else op_DNSIdleTimeout o1),
       op_MTU := (if op_MTU o1 = 0 then 1280 else op_MTU o1)\<rparr>"

section \<open>Resolvers\<close>

datatype upstream_err = EmptyAddress | NoHostPort | NotAnAddress string | NoPort

definition normalizeResolver :: "string \<Rightarrow> upstream_err + string" where
  "normalizeResolver s =
     (if s = [] then Inl EmptyAddress
      else
        (case ParseAddr s of
           Some (a, zone) \<Rightarrow>
             Inr (JoinHostPort (AddrString (Unmap a) @ (if zone = [] \<or> Unmap a \<noteq> a then [] else CHR ''%'' # zone)) ''53'')
         | None \<Rightarrow>
             (case SplitHostPort s of
                None \<Rightarrow> Inl NoHostPort
              | Some (host, port) \<Rightarrow>
                  if ParseAddr host = None then Inl (NotAnAddress host)
                  else if port = [] then Inl NoPort
                  else Inr (JoinHostPort host port))))"

datatype stack_err =
    BadUpstream string upstream_err
  | ResolvConfUnreadable
  | NoNameserver string
  | NotStarted
  | NoSack
  | NoNIC
  | AddressNotAdded addr
  | NotPromiscuous
  | NotSpoofing

definition nameserver_line :: "unicode \<Rightarrow> string \<Rightarrow> string list" where
  "nameserver_line U line =
     (let fields = Fields U (takeWhile (\<lambda>c. c \<noteq> CHR ''#'' \<and> c \<noteq> CHR '';'') line) in
      if length fields < 2 \<or> hd fields \<noteq> ''nameserver'' then []
      else (case normalizeResolver (fields ! 1) of Inl _ \<Rightarrow> [] | Inr a \<Rightarrow> [a]))"

definition nameserversFromResolvConf :: "unicode \<Rightarrow> (string \<Rightarrow> string option) \<Rightarrow> string \<Rightarrow> stack_err + string list" where
  "nameserversFromResolvConf U files path =
     (case files path of
        None \<Rightarrow> Inl ResolvConfUnreadable
      | Some raw \<Rightarrow>
          (let (lines, broken) = scan_lines raw in
           if broken then Inl ResolvConfUnreadable else Inr (concat (map (nameserver_line U) lines))))"

fun normalize_all :: "string list \<Rightarrow> stack_err + string list" where
  "normalize_all [] = Inr []"
| "normalize_all (u # us) =
     (case normalizeResolver u of
        Inl e \<Rightarrow> Inl (BadUpstream u e)
      | Inr a \<Rightarrow> (case normalize_all us of Inl e \<Rightarrow> Inl e | Inr as \<Rightarrow> Inr (a # as)))"

definition defaultResolvConf :: string where
  "defaultResolvConf = ''/etc/resolv.conf''"

definition resolveDNSUpstreams :: "unicode \<Rightarrow> (string \<Rightarrow> string option) \<Rightarrow> Options \<Rightarrow> stack_err + Options" where
  "resolveDNSUpstreams U files o1 =
     (if 0 < length (op_DNSUpstreams o1) then
        (case normalize_all (op_DNSUpstreams o1) of Inl e \<Rightarrow> Inl e | Inr us \<Rightarrow> Inr (o1\<lparr>op_DNSUpstreams := us\<rparr>))
      else
        (let path = (if op_DNSResolvConf o1 = [] then defaultResolvConf else op_DNSResolvConf o1) in
         case nameserversFromResolvConf U files path of
           Inl e \<Rightarrow> Inl e
         | Inr us \<Rightarrow> if length us = 0 then Inl (NoNameserver path) else Inr (o1\<lparr>op_DNSUpstreams := us\<rparr>)))"

section \<open>The service\<close>

text \<open>A listener is known by a number of its own, so that two that had the same port one after the other are told apart.\<close>

record tcpListener =
  tl_id :: nat
  tl_port :: "16 word"

record NetService =
  sv_opts :: Options
  sv_localAddrs :: "addr list"
  sv_listeners :: "(16 word \<times> tcpListener) list"
  sv_closed :: "nat set"
  sv_promiscuous :: bool
  sv_udp :: bool

record gvisor =
  gv_Sack :: bool
  gv_CreateNIC :: "32 word \<Rightarrow> bool"
  gv_AddAddress :: "addr \<Rightarrow> bool"
  gv_Promiscuous :: bool
  gv_Spoofing :: bool

fun add_addresses :: "gvisor \<Rightarrow> prefix list \<Rightarrow> stack_err + addr list" where
  "add_addresses G [] = Inr []"
| "add_addresses G (n # ns) =
     (let a = Unmap (paddr n) in
      if \<not> gv_AddAddress G a then Inl (AddressNotAdded a)
      else (case add_addresses G ns of Inl e \<Rightarrow> Inl e | Inr as \<Rightarrow> Inr (a # as)))"

definition new_stack :: "gvisor \<Rightarrow> prefix list \<Rightarrow> Options \<Rightarrow> stack_err + NetService" where
  "new_stack G networks o1 =
     (if \<not> gv_Sack G then Inl NoSack
      else if \<not> gv_CreateNIC G (op_MTU o1) then Inl NoNIC
      else
        (case add_addresses G networks of
           Inl e \<Rightarrow> Inl e
         | Inr as \<Rightarrow>
             if op_Gateway o1 \<and> \<not> gv_Promiscuous G then Inl NotPromiscuous
             else if op_Gateway o1 \<and> \<not> gv_Spoofing G then Inl NotSpoofing
             else Inr \<lparr>sv_opts = o1, sv_localAddrs = as, sv_listeners = [], sv_closed = {}, sv_promiscuous = op_Gateway o1,
                      sv_udp = (op_Gateway o1 \<or> op_DNS o1)\<rparr>))"

text \<open>The first component says whether nebula is left running.\<close>

definition netstack_New ::
  "unicode \<Rightarrow> (string \<Rightarrow> string option) \<Rightarrow> gvisor \<Rightarrow> bool \<Rightarrow> prefix list \<Rightarrow> Options \<Rightarrow> bool \<times> (stack_err + NetService)" where
  "netstack_New U files G start networks opts =
     (let o1 = netstack_applyDefaults opts in
      case (if op_DNS o1 then resolveDNSUpstreams U files o1 else Inr o1) of
        Inl e \<Rightarrow> (False, Inl e)
      | Inr o1 \<Rightarrow>
          if \<not> start then (False, Inl NotStarted)
          else (case new_stack G networks o1 of Inl e \<Rightarrow> (False, Inl e) | Inr s \<Rightarrow> (True, Inr s)))"

definition dnsUpstream :: "NetService \<Rightarrow> string" where
  "dnsUpstream s = (case op_DNSUpstreams (sv_opts s) of [] \<Rightarrow> [] | u # _ \<Rightarrow> u)"

definition isLocalAddress :: "NetService \<Rightarrow> addr \<Rightarrow> bool" where
  "isLocalAddress s a \<longleftrightarrow> a \<in> set (sv_localAddrs s)"

section \<open>Listening\<close>

datatype listen_err = OnlyTCP | NotResolved | NotWildcard | BadPort int | Taken "16 word"

definition Listen ::
  "(string \<Rightarrow> string \<Rightarrow> (nat list option \<times> int) option) \<Rightarrow> nat \<Rightarrow> string \<Rightarrow> string \<Rightarrow> NetService \<Rightarrow> NetService \<times> (listen_err + tcpListener)" where
  "Listen resolve fresh network address s =
     (if network \<noteq> ''tcp'' \<and> network \<noteq> ''tcp4'' then (s, Inl OnlyTCP)
      else
        (case resolve network address of
           None \<Rightarrow> (s, Inl NotResolved)
         | Some (ip, port) \<Rightarrow>
             if ip \<noteq> None \<and> ip \<noteq> Some [0, 0, 0, 0] then (s, Inl NotWildcard)
             else if port \<le> 0 \<or> 65535 \<le> port then (s, Inl (BadPort port))
             else
               (let p = word_of_int port; l = \<lparr>tl_id = fresh, tl_port = p\<rparr> in
                if map_of (sv_listeners s) p \<noteq> None then (s, Inl (Taken p))
                else (s\<lparr>sv_listeners := AList.update p l (sv_listeners s)\<rparr>, Inr l))))"

definition listener_Close :: "tcpListener \<Rightarrow> NetService \<Rightarrow> NetService" where
  "listener_Close l s = s\<lparr>sv_listeners := AList.delete (tl_port l) (sv_listeners s), sv_closed := insert (tl_id l) (sv_closed s)\<rparr>"

section \<open>Flows\<close>

record flow =
  fl_LocalAddress :: addr
  fl_LocalPort :: "16 word"

datatype fate = ResetFlow | Dropped | Accepted tcpListener | Spliced string | SplicedUDP string time

definition hostAddress :: "flow \<Rightarrow> string" where
  "hostAddress f =
     (if fl_LocalAddress f = AddrNone then []
      else JoinHostPort (AddrString (Unmap (fl_LocalAddress f))) (digits_of (unat (fl_LocalPort f))))"

text \<open>\<open>ep\<close> says whether the stack makes an endpoint for the flow, \<open>dial\<close> whether the host network can be reached there.\<close>

definition forwardTCP :: "bool \<Rightarrow> (string \<Rightarrow> bool) \<Rightarrow> string \<Rightarrow> fate" where
  "forwardTCP ep dial dst =
     (if dst = [] then ResetFlow else if \<not> ep then ResetFlow else if \<not> dial dst then Dropped else Spliced dst)"

definition forwardUDP :: "bool \<Rightarrow> (string \<Rightarrow> bool) \<Rightarrow> string \<Rightarrow> time \<Rightarrow> fate" where
  "forwardUDP ep dial dst timeout =
     (if dst = [] then Dropped else if \<not> ep then Dropped else if \<not> dial dst then Dropped else SplicedUDP dst timeout)"

definition tcpHandler :: "bool \<Rightarrow> (string \<Rightarrow> bool) \<Rightarrow> flow \<Rightarrow> NetService \<Rightarrow> fate" where
  "tcpHandler ep dial f s =
     (if \<not> isLocalAddress s (fl_LocalAddress f) then
        (if op_Gateway (sv_opts s) then forwardTCP ep dial (hostAddress f) else ResetFlow)
      else
        (case map_of (sv_listeners s) (fl_LocalPort f) of
           None \<Rightarrow>
             if op_DNS (sv_opts s) \<and> fl_LocalPort f = op_DNSPort (sv_opts s) then forwardTCP ep dial (dnsUpstream s) else ResetFlow
         | Some l \<Rightarrow> if \<not> ep then ResetFlow else if tl_id l \<in> sv_closed s then Dropped else Accepted l))"

definition udpHandler :: "bool \<Rightarrow> (string \<Rightarrow> bool) \<Rightarrow> flow \<Rightarrow> NetService \<Rightarrow> fate" where
  "udpHandler ep dial f s =
     (if isLocalAddress s (fl_LocalAddress f) then
        (if op_DNS (sv_opts s) \<and> fl_LocalPort f = op_DNSPort (sv_opts s)
         then forwardUDP ep dial (dnsUpstream s) (op_DNSIdleTimeout (sv_opts s)) else Dropped)
      else if \<not> op_Gateway (sv_opts s) then Dropped
      else forwardUDP ep dial (hostAddress f) (op_GatewayUDPTimeout (sv_opts s)))"

section \<open>Carrying\<close>

text \<open>
  \<open>spliceTCP\<close>: two directions that run side by side. Of each it is known what was read at its source, what was
  written at its end, and whether it is still copying; one that ended at the end of its source has passed the end on, unless the far side
  knows no half close. The two connections are closed when both directions have ended.
\<close>

datatype copying = Copying | EndedPassed | EndedSilent

record direction =
  di_read :: string
  di_written :: string
  di_state :: copying

record splice =
  sp_out :: direction
  sp_in :: direction
  sp_closed :: bool

definition splice_start :: splice where
  "splice_start = (let d = \<lparr>di_read = [], di_written = [], di_state = Copying\<rparr> in \<lparr>sp_out = d, sp_in = d, sp_closed = False\<rparr>)"

inductive copy_step :: "bool \<Rightarrow> direction \<Rightarrow> direction \<Rightarrow> bool" where
  chunk: "di_state d = Copying \<Longrightarrow> copy_step cw d (d\<lparr>di_read := di_read d @ s, di_written := di_written d @ s\<rparr>)"
| write_error: "di_state d = Copying \<Longrightarrow>
    copy_step cw d (d\<lparr>di_read := di_read d @ s, di_written := di_written d @ take n s, di_state := EndedSilent\<rparr>)"
| read_error: "di_state d = Copying \<Longrightarrow> copy_step cw d (d\<lparr>di_state := EndedSilent\<rparr>)"
| at_end: "di_state d = Copying \<Longrightarrow> copy_step cw d (d\<lparr>di_state := (if cw then EndedPassed else EndedSilent)\<rparr>)"

inductive splice_step :: "bool \<Rightarrow> bool \<Rightarrow> splice \<Rightarrow> splice \<Rightarrow> bool" where
  outward: "copy_step cwOut (sp_out s) d \<Longrightarrow> \<not> sp_closed s \<Longrightarrow> splice_step cwOut cwIn s (s\<lparr>sp_out := d\<rparr>)"
| inward: "copy_step cwIn (sp_in s) d \<Longrightarrow> \<not> sp_closed s \<Longrightarrow> splice_step cwOut cwIn s (s\<lparr>sp_in := d\<rparr>)"
| finish: "di_state (sp_out s) \<noteq> Copying \<Longrightarrow> di_state (sp_in s) \<noteq> Copying \<Longrightarrow> \<not> sp_closed s \<Longrightarrow>
    splice_step cwOut cwIn s (s\<lparr>sp_closed := True\<rparr>)"

text \<open>
  \<open>spliceUDP\<close>: the datagrams of a flow in the order they arrive, with the deadlines of the two directions. A
  direction that has read nothing until its deadline ends, and so does the flow; so it does when a datagram cannot be
  written. An empty datagram is not passed on, but counts as read. The result is what was passed on, and when the flow ended.
\<close>

datatype way = Outward | Inward

record datagram =
  dg_at :: time
  dg_way :: way
  dg_data :: string
  dg_sent :: bool

fun spliceUDP :: "time \<Rightarrow> time \<Rightarrow> time \<Rightarrow> datagram list \<Rightarrow> (way \<times> string) list \<times> time" where
  "spliceUDP timeout dOut dIn [] = ([], min dOut dIn)"
| "spliceUDP timeout dOut dIn (g # gs) =
     (if min dOut dIn \<le> dg_at g then ([], min dOut dIn)
      else if dg_data g \<noteq> [] \<and> \<not> dg_sent g then ([], dg_at g)
      else
        (let d = dg_at g + timeout;
             (out, done) = (case dg_way g of Outward \<Rightarrow> spliceUDP timeout d dIn gs | Inward \<Rightarrow> spliceUDP timeout dOut d gs)
         in (if dg_data g = [] then out else (dg_way g, dg_data g) # out, done)))"

definition udp_flow :: "time \<Rightarrow> time \<Rightarrow> datagram list \<Rightarrow> (way \<times> string) list \<times> time" where
  "udp_flow timeout start gs = spliceUDP timeout (start + timeout) (start + timeout) gs"

section \<open>What a flow reaches\<close>

lemma normalize_all_in: "normalize_all us = Inr as \<Longrightarrow> a \<in> set as \<Longrightarrow> \<exists>u \<in> set us. normalizeResolver u = Inr a"
  by (induction us arbitrary: as) (fastforce split: sum.splits)+

lemma normalize_all_length: "normalize_all us = Inr as \<Longrightarrow> length as = length us"
  by (induction us arbitrary: as) (auto split: sum.splits)

lemma nameserver_line_in: "a \<in> set (nameserver_line U line) \<Longrightarrow> \<exists>u. normalizeResolver u = Inr a"
  by (auto simp: nameserver_line_def Let_def split: if_split_asm sum.splits)

lemma resolveDNSUpstreams_Inr:
  assumes "resolveDNSUpstreams U files o1 = Inr o2"
  shows "\<exists>us. o2 = o1\<lparr>op_DNSUpstreams := us\<rparr> \<and> us \<noteq> [] \<and> (\<forall>a \<in> set us. \<exists>u. normalizeResolver u = Inr a)"
proof (cases "op_DNSUpstreams o1 = []")
  case True
  then obtain us where us: "nameserversFromResolvConf U files (if op_DNSResolvConf o1 = [] then defaultResolvConf else op_DNSResolvConf o1) = Inr us"
    "us \<noteq> []" "o2 = o1\<lparr>op_DNSUpstreams := us\<rparr>"
    using assms by (auto simp: resolveDNSUpstreams_def Let_def split: sum.split_asm if_split_asm)
  then have "\<forall>a \<in> set us. \<exists>u. normalizeResolver u = Inr a"
    by (auto simp: nameserversFromResolvConf_def Let_def dest!: nameserver_line_in split: option.split_asm prod.split_asm if_split_asm)
  with us show ?thesis by blast
next
  case False
  then obtain us where us: "normalize_all (op_DNSUpstreams o1) = Inr us" "o2 = o1\<lparr>op_DNSUpstreams := us\<rparr>"
    using assms by (auto simp: resolveDNSUpstreams_def split: sum.split_asm)
  then have "us \<noteq> []" using normalize_all_length [OF us(1)] False by auto
  with us normalize_all_in [OF us(1)] show ?thesis by blast
qed

lemma add_addresses_Inr: "add_addresses G ns = Inr as \<Longrightarrow> as = map (Unmap \<circ> paddr) ns"
  by (induction ns arbitrary: as) (auto simp: Let_def split: if_split_asm sum.split_asm)

lemma netstack_New_Inr:
  assumes "netstack_New U files G start networks opts = (up, Inr s)"
  shows "up \<and> sv_localAddrs s = map (Unmap \<circ> paddr) networks \<and> sv_listeners s = [] \<and> sv_closed s = {}
    \<and> (\<exists>us. sv_opts s = (netstack_applyDefaults opts)\<lparr>op_DNSUpstreams := us\<rparr>
        \<and> (op_DNS opts \<longrightarrow> us \<noteq> [] \<and> (\<forall>a \<in> set us. \<exists>u. normalizeResolver u = Inr a)))"
proof -
  let ?o = "netstack_applyDefaults opts"
  obtain o2 where o2: "(if op_DNS ?o then resolveDNSUpstreams U files ?o else Inr ?o) = Inr o2" and s: "new_stack G networks o2 = Inr s" "up"
    using assms by (auto simp: netstack_New_def Let_def split: sum.split_asm if_split_asm)
  have dns: "op_DNS ?o = op_DNS opts" by (simp add: netstack_applyDefaults_def)
  have "\<exists>us. o2 = ?o\<lparr>op_DNSUpstreams := us\<rparr> \<and> (op_DNS opts \<longrightarrow> us \<noteq> [] \<and> (\<forall>a \<in> set us. \<exists>u. normalizeResolver u = Inr a))"
  proof (cases "op_DNS opts")
    case True
    then show ?thesis using o2 resolveDNSUpstreams_Inr dns by fastforce
  next
    case False
    then show ?thesis using o2 dns by (intro exI [of _ "op_DNSUpstreams ?o"]) simp
  qed
  with s show ?thesis by (auto simp: new_stack_def split: if_split_asm sum.split_asm dest!: add_addresses_Inr)
qed

lemma Unmap_valid: "IsValid a \<Longrightarrow> IsValid (Unmap a)"
  by (cases a) auto

lemma hostAddress_reads:
  assumes "IsValid (fl_LocalAddress f)"
  shows "\<exists>host. SplitHostPort (hostAddress f) = Some (host, digits_of (unat (fl_LocalPort f))) \<and> ParseAddr host = Some (Unmap (fl_LocalAddress f), [])"
proof -
  let ?a = "Unmap (fl_LocalAddress f)"
  have v: "IsValid ?a" using Unmap_valid [OF assms] .
  have "fl_LocalAddress f \<noteq> AddrNone" using assms by auto
  then have "hostAddress f = JoinHostPort (AddrString ?a) (digits_of (unat (fl_LocalPort f)))" by (simp add: hostAddress_def)
  then show ?thesis using host_port_reads [OF v] ParseAddr_AddrString [OF v] by simp
qed

lemma hostAddress_ne:
  assumes "IsValid (fl_LocalAddress f)"
  shows "hostAddress f \<noteq> []"
proof
  assume "hostAddress f = []"
  then show False using hostAddress_reads [OF assms] by (auto simp: SplitHostPort_def cut_last_def cut_char_def)
qed


section \<open>Resolvers that can be dialed\<close>

lemma tl_subset: "x \<in> set (tl xs) \<Longrightarrow> x \<in> set xs"
  by (cases xs) simp_all

lemma SplitHostPort_parts:
  assumes "SplitHostPort s = Some (h, p)"
  shows "CHR ''['' \<notin> set h" "CHR '']'' \<notin> set h" "CHR ''['' \<notin> set p" "CHR '']'' \<notin> set p" "CHR '':'' \<notin> set p" "set h \<subseteq> set s"
  using assms by (auto simp: SplitHostPort_def cut_last_Some cut_char_Some dest!: tl_subset split: option.split_asm if_split_asm prod.split_asm)

lemma JoinHostPort_not_addr:
  assumes "ParseAddr h \<noteq> None" and "CHR ''%'' \<notin> set h" and "CHR ''%'' \<notin> set p"
  shows "ParseAddr (JoinHostPort h p) = None"
proof (cases "CHR '':'' \<in> set h")
  case True
  let ?s = "JoinHostPort h p"
  have s: "?s = ''['' @ h @ '']:'' @ p" using True by (simp add: JoinHostPort_def)
  have "cut_char (CHR ''%'') ?s = None" using assms(2,3) by (simp add: s cut_char_none)
  moreover have "hex_run ?s = []" by (simp add: s hex_run_def unhex_others)
  then have "groups_loop ?s [] None = None" by (subst groups_loop.simps) (simp add: Let_def)
  then have "parse6 ?s = None" by (simp add: parse6_def s HasPrefix_def)
  moreover have "find (\<lambda>c. c \<in> {dot, CHR '':'', CHR ''%''}) ?s = Some c \<Longrightarrow> c = dot \<Longrightarrow> parse4 ?s = None" for c
    using parse4_chars [of ?s _ "CHR ''[''"] by (cases "parse4 ?s") (auto simp: s is_digit_def dot_def)
  ultimately show ?thesis unfolding ParseAddr_def by (auto split: option.split)
next
  case False
  have s: "JoinHostPort h p = h @ '':'' @ p" using False by (simp add: JoinHostPort_def)
  obtain c where c: "find (\<lambda>c. c \<in> {dot, CHR '':'', CHR ''%''}) h = Some c" using assms(1) by (auto simp: ParseAddr_def split: option.split_asm)
  then have "c = dot" using find_SomeD [OF c] False assms(2) by auto
  moreover have "find (\<lambda>c. c \<in> {dot, CHR '':'', CHR ''%''}) (h @ '':'' @ p) = Some c" using c by (induction h) auto
  moreover have "parse4 (h @ '':'' @ p) = None"
    using parse4_chars [of "h @ '':'' @ p" _ "CHR '':''"] by (cases "parse4 (h @ '':'' @ p)") (auto simp: is_digit_def dot_def)
  ultimately show ?thesis by (simp add: ParseAddr_def s)
qed

text \<open>
  A resolver that is accepted can be dialed: it is an address and a port, the one that was given or 53, and
  normalizing it again leaves it as it is. A zone in the address is left out of this, for it may hold anything.
\<close>

theorem normalizeResolver_dialable:
  assumes "normalizeResolver s = Inr d" and "CHR ''%'' \<notin> set s"
  shows "normalizeResolver d = Inr d \<and> (\<exists>host port. SplitHostPort d = Some (host, port) \<and> ParseAddr host \<noteq> None \<and> port \<noteq> []
    \<and> (SplitHostPort s = Some (host, port) \<or> port = ''53'' \<and> (\<exists>a. ParseAddr s = Some (a, []) \<and> ParseAddr host = Some (Unmap a, []))))"
proof -
  have again: "normalizeResolver (JoinHostPort h p) = Inr (JoinHostPort h p)"
    if "ParseAddr h \<noteq> None" "CHR ''%'' \<notin> set h" "CHR ''%'' \<notin> set p" "SplitHostPort (JoinHostPort h p) = Some (h, p)" "p \<noteq> []" for h p
  proof -
    have "JoinHostPort h p \<noteq> []" by (simp add: JoinHostPort_def)
    then show ?thesis using JoinHostPort_not_addr [OF that(1-3)] that by (simp add: normalizeResolver_def)
  qed
  show ?thesis
  proof (cases "ParseAddr s")
    case None
    then obtain h p where hp: "SplitHostPort s = Some (h, p)" "ParseAddr h \<noteq> None" "p \<noteq> []" "d = JoinHostPort h p"
      using assms(1) by (auto simp: normalizeResolver_def split: if_split_asm option.split_asm prod.split_asm)
    note parts = SplitHostPort_parts [OF hp(1)]
    have split: "SplitHostPort d = Some (h, p)" unfolding hp(4) by (rule SplitHostPort_JoinHostPort [OF parts(1-5)])
    have "CHR ''%'' \<notin> set p" using hp(1) assms(2)
      by (auto simp: SplitHostPort_def cut_last_Some cut_char_Some split: option.split_asm if_split_asm prod.split_asm)
    with again [OF hp(2) _ this] split parts(6) assms(2) hp show ?thesis by auto
  next
    case (Some x)
    obtain a zone where x: "x = (a, zone)" by fastforce
    have z: "zone = []" using Some assms(2) unfolding x ParseAddr_def
      by (auto simp: cut_char_Some split: option.split_asm if_split_asm prod.split_asm)
    let ?h = "AddrString (Unmap a)"
    have v: "IsValid (Unmap a)" using Unmap_valid [OF ParseAddr_valid] Some x by simp
    note pl = AddrString_plain [OF v] and rd = ParseAddr_AddrString [OF v]
    have d: "d = JoinHostPort ?h ''53''" using assms(1) Some by (auto simp: normalizeResolver_def x z split: if_split_asm)
    have split: "SplitHostPort d = Some (?h, ''53'')" unfolding d by (rule SplitHostPort_JoinHostPort) (use pl in simp_all)
    have "CHR ''%'' \<notin> set ?h" using AddrString_chars [OF v, of "CHR ''%''"] unhex_others(1) by (auto simp: dot_def)
    with again [of ?h "''53''"] split rd have "normalizeResolver d = Inr d" unfolding d by simp
    with split rd Some x z show ?thesis by simp
  qed
qed

section \<open>What is carried\<close>

definition direction_ok :: "direction \<Rightarrow> bool" where
  "direction_ok d \<longleftrightarrow> (\<exists>rest. di_read d = di_written d @ rest \<and> (di_state d \<noteq> EndedSilent \<longrightarrow> rest = []))"

lemma copy_step_ok: "copy_step cw d d' \<Longrightarrow> direction_ok d \<Longrightarrow> direction_ok d'"
proof (induction rule: copy_step.induct)
  case (write_error d cw n s)
  then have "di_read d = di_written d" by (auto simp: direction_ok_def)
  then show ?case by (auto simp: direction_ok_def intro: exI [of _ "drop n s"])
qed (auto simp: direction_ok_def)

text \<open>
  A spliced connection keeps its streams: whatever has happened, what came out on a side begins what went in on the
  other, and it is all of it when the end was passed on, so nobody is told of an end before the last byte. And neither
  connection is closed before both directions have ended, so a side that has said all it has to say still gets its answer.
\<close>

theorem splice_keeps_streams:
  assumes "(splice_step cwOut cwIn)\<^sup>*\<^sup>* splice_start s"
  shows "direction_ok (sp_out s) \<and> direction_ok (sp_in s)
    \<and> (di_state (sp_out s) = EndedPassed \<longrightarrow> di_written (sp_out s) = di_read (sp_out s))
    \<and> (di_state (sp_in s) = EndedPassed \<longrightarrow> di_written (sp_in s) = di_read (sp_in s))
    \<and> (sp_closed s \<longrightarrow> di_state (sp_out s) \<noteq> Copying \<and> di_state (sp_in s) \<noteq> Copying)
    \<and> (di_state (sp_in s) = Copying \<longrightarrow> (\<forall>more. splice_step cwOut cwIn s (s\<lparr>sp_in := (sp_in s)\<lparr>di_read := di_read (sp_in s) @ more,
        di_written := di_written (sp_in s) @ more\<rparr>\<rparr>)))"
proof -
  have ok: "direction_ok (sp_out s) \<and> direction_ok (sp_in s) \<and> (sp_closed s \<longrightarrow> di_state (sp_out s) \<noteq> Copying \<and> di_state (sp_in s) \<noteq> Copying)"
    using assms
  proof (induction rule: rtranclp_induct)
    case base
    show ?case by (simp add: splice_start_def direction_ok_def Let_def)
  next
    case (step s s')
    from step.hyps(2) step.IH show ?case by (cases rule: splice_step.cases) (auto dest: copy_step_ok)
  qed
  moreover have "splice_step cwOut cwIn s (s\<lparr>sp_in := (sp_in s)\<lparr>di_read := di_read (sp_in s) @ more, di_written := di_written (sp_in s) @ more\<rparr>\<rparr>)"
    if "di_state (sp_in s) = Copying" for more
    using ok that by (intro splice_step.inward copy_step.chunk) auto
  ultimately show ?thesis by (auto simp: direction_ok_def)
qed

text \<open>
  A flow in which all datagrams go one way is cut: it ends when the other direction has been silent for the
  timeout, however much is sent, and what is sent afterwards is not passed on.
\<close>

theorem one_way_flow_is_cut:
  assumes "\<forall>g \<in> set gs. dg_way g = Outward"
  shows "snd (udp_flow timeout start gs) \<le> start + timeout
    \<and> (\<forall>g gs'. start + timeout \<le> dg_at g \<longrightarrow> fst (udp_flow timeout start (gs @ g # gs')) = fst (udp_flow timeout start gs))"
proof -
  have e: "snd (spliceUDP timeout dOut dIn gs) \<le> dIn" for dOut dIn
    using assms by (induction gs arbitrary: dOut) (auto simp: Let_def case_prod_beta)
  have a: "fst (spliceUDP timeout dOut dIn (gs @ g # gs')) = fst (spliceUDP timeout dOut dIn gs)" if "dIn \<le> dg_at g" for dOut dIn g gs'
    using assms that by (induction gs arbitrary: dOut) (auto simp: Let_def case_prod_beta)
  show ?thesis using e a by (simp add: udp_flow_def)
qed

lemma spliceUDP_after:
  assumes "x < dOut" and "x < dIn" and "0 < timeout" and "\<forall>g \<in> set gs. x \<le> dg_at g \<and> dg_sent g"
  shows "x < snd (spliceUDP timeout dOut dIn gs)"
  using assms by (induction timeout dOut dIn gs rule: spliceUDP.induct) (auto simp: Let_def case_prod_beta split: way.split)

lemma spliceUDP_passes:
  assumes "0 < timeout" and "sorted (map dg_at gs)" and "\<forall>g \<in> set gs. dg_sent g"
  shows "fst (spliceUDP timeout dOut dIn gs)
    = map (\<lambda>g. (dg_way g, dg_data g)) (filter (\<lambda>g. dg_data g \<noteq> [] \<and> dg_at g < snd (spliceUDP timeout dOut dIn gs)) gs)"
  using assms
proof (induction timeout dOut dIn gs rule: spliceUDP.induct)
  case (2 timeout dOut dIn g gs)
  show ?case
  proof (cases "min dOut dIn \<le> dg_at g")
    case True
    then have "\<forall>h \<in> set (g # gs). \<not> dg_at h < min dOut dIn" using 2(4) by fastforce
    then show ?thesis using True by (auto simp: filter_empty_conv)
  next
    case False
    have sent: "dg_sent g" using 2(5) by simp
    have le: "\<forall>h \<in> set gs. dg_at g \<le> dg_at h \<and> dg_sent h" using 2(4,5) by simp
    show ?thesis
    proof (cases "dg_way g")
      case Outward
      have "dg_at g < snd (spliceUDP timeout (dg_at g + timeout) dIn gs)" by (rule spliceUDP_after) (use False le 2(3) in auto)
      moreover have "fst (spliceUDP timeout (dg_at g + timeout) dIn gs) = map (\<lambda>g. (dg_way g, dg_data g))
          (filter (\<lambda>h. dg_data h \<noteq> [] \<and> dg_at h < snd (spliceUDP timeout (dg_at g + timeout) dIn gs)) gs)"
        by (rule 2(1) [OF False _ refl Outward]) (use 2(3-5) in simp_all)
      ultimately show ?thesis using False sent Outward by (simp add: Let_def case_prod_beta)
    next
      case Inward
      have "dg_at g < snd (spliceUDP timeout dOut (dg_at g + timeout) gs)" by (rule spliceUDP_after) (use False le 2(3) in auto)
      moreover have "fst (spliceUDP timeout dOut (dg_at g + timeout) gs) = map (\<lambda>g. (dg_way g, dg_data g))
          (filter (\<lambda>h. dg_data h \<noteq> [] \<and> dg_at h < snd (spliceUDP timeout dOut (dg_at g + timeout) gs)) gs)"
        by (rule 2(2) [OF False _ refl Inward]) (use 2(3-5) in simp_all)
      ultimately show ?thesis using False sent Inward by (simp add: Let_def case_prod_beta)
    qed
  qed
qed simp

text \<open>Until the flow ends every datagram that is not empty is passed on, unchanged and in order, and afterwards none.\<close>

theorem udp_flow_passes_in_order:
  assumes "0 < timeout" and "sorted (map dg_at gs)" and "\<forall>g \<in> set gs. dg_sent g"
  shows "fst (udp_flow timeout start gs)
    = map (\<lambda>g. (dg_way g, dg_data g)) (filter (\<lambda>g. dg_data g \<noteq> [] \<and> dg_at g < snd (udp_flow timeout start gs)) gs)"
  unfolding udp_flow_def by (rule spliceUDP_passes [OF assms])

lemma Listen_Inr:
  assumes "Listen res i net adr s = (s1, Inr l)"
  shows "tl_id l = i \<and> tl_port l = word_of_int (snd (the (res net adr))) \<and> s1 = s\<lparr>sv_listeners := AList.update (tl_port l) l (sv_listeners s)\<rparr>"
  using assms by (auto simp: Listen_def Let_def split: if_split_asm option.split_asm)

text \<open>
  A listener that is closed once more takes the port from whoever listens there now: flows to it are reset although
  its own listener was never closed.
\<close>

theorem closing_again_closes_another:
  assumes "Listen res i net adr s = (s1, Inr l)" and "Listen res j net adr (listener_Close l s1) = (s2, Inr k)"
    and "fl_LocalPort f = tl_port k" and "isLocalAddress s (fl_LocalAddress f)" and "j \<notin> insert i (sv_closed s)"
    and "\<not> (op_DNS (sv_opts s) \<and> tl_port k = op_DNSPort (sv_opts s))"
  shows "tcpHandler True dial f s2 = Accepted k \<and> tl_id k \<notin> sv_closed (listener_Close l s2) \<and> tcpHandler True dial f (listener_Close l s2) = ResetFlow"
proof -
  note l = Listen_Inr [OF assms(1)] and k = Listen_Inr [OF assms(2)]
  have id: "tl_id k = j" "tl_port k = tl_port l" "sv_opts s2 = sv_opts s" "sv_localAddrs s2 = sv_localAddrs s" "sv_closed s2 = insert i (sv_closed s)"
    and on: "map_of (sv_listeners s2) (tl_port k) = Some k"
    using l k by (auto simp: listener_Close_def update_conv')
  have off: "map_of (sv_listeners (listener_Close l s2)) (tl_port k) = None" "sv_closed (listener_Close l s2) = insert i (sv_closed s)"
      "sv_opts (listener_Close l s2) = sv_opts s" "sv_localAddrs (listener_Close l s2) = sv_localAddrs s"
    using id l by (auto simp: listener_Close_def delete_conv')
  show ?thesis
    using assms(3-6) id on off by (auto simp: tcpHandler_def isLocalAddress_def)
qed

section \<open>The stack of a connector\<close>

definition connector_options :: "CConfig \<Rightarrow> 32 word \<Rightarrow> Options" where
  "connector_options cfg mtu =
     \<lparr>op_Gateway = True, op_GatewayUDPTimeout = 0, op_DNS = cc_DNS cfg, op_DNSUpstreams = [], op_DNSResolvConf = [], op_DNSPort = 0,
      op_DNSIdleTimeout = 0, op_HostDialTimeout = 0, op_MTU = mtu\<rparr>"

definition gateway_config :: CConfig where
  "gateway_config = \<lparr>cc_HubURL = ''https://hub:8443'', cc_Instance = ''railway'', cc_SharedToken = [], cc_Name = ''web'', cc_Routes = [], cc_Domain = [],
     cc_DisableAutodiscover = True, cc_MTU = 0, cc_Insecure = False, cc_Pin = [], cc_DNS = True\<rparr>"

definition gateway_host :: gvisor where
  "gateway_host = \<lparr>gv_Sack = True, gv_CreateNIC = (\<lambda>_. True), gv_AddAddress = (\<lambda>_. True), gv_Promiscuous = True, gv_Spoofing = True\<rparr>"

definition resolv_conf :: "string \<Rightarrow> string option" where
  "resolv_conf path = (if path = defaultResolvConf then Some (unlines [''# by hand'', ''nameserver 10.0.0.2'']) else None)"

lemma gateway_digits: "digits_of 10 = ''10''" "digits_of 2 = ''2''" "digits_of 5 = ''5''"
  by code_simp+

lemma gateway_strings: "AddrString (Addr4 0x0A000002) = ''10.0.0.2''"
proof -
  have "[0..<4] = [0, 1, 2, 3 :: nat]" by (simp add: upt_rec)
  then show ?thesis by (simp add: string4_def gateway_digits)
qed

lemma gateway_normal: "normalizeResolver ''10.0.0.2'' = Inr ''10.0.0.2:53''"
  using ParseAddr_AddrString [of "Addr4 0x0A000002"] by (simp add: normalizeResolver_def gateway_strings JoinHostPort_def del: AddrString.simps)

lemma gateway_fields: "Fields no_unicode ''nameserver 10.0.0.2'' = [''nameserver'', ''10.0.0.2'']"
proof -
  have "split_by is_space (''nameserver'' @ CHR '' '' # ''10.0.0.2'') = [''nameserver'', ''10.0.0.2'']"
    by (subst split_by_append, (code_simp)+)
  moreover have "ascii ''nameserver 10.0.0.2''" by code_simp
  ultimately show ?thesis by (simp add: Fields_def)
qed

lemma gateway_resolver:
  assumes "op_DNSUpstreams o1 = []" and "op_DNSResolvConf o1 = []"
  shows "resolveDNSUpstreams no_unicode resolv_conf o1 = Inr (o1\<lparr>op_DNSUpstreams := [''10.0.0.2:53'']\<rparr>)"
proof -
  have "split_on nl (unlines [''# by hand'', ''nameserver 10.0.0.2'']) = [''# by hand'', ''nameserver 10.0.0.2''] @ [[]]"
    by (rule split_unlines) (simp add: nl_def)
  then have s: "scan_lines (unlines [''# by hand'', ''nameserver 10.0.0.2'']) = ([''# by hand'', ''nameserver 10.0.0.2''], False)"
    by (simp add: scan_lines_def drop_cr_def)
  have "Fields no_unicode [] = []" by code_simp
  then have "nameserver_line no_unicode ''# by hand'' = []" "nameserver_line no_unicode ''nameserver 10.0.0.2'' = [''10.0.0.2:53'']"
    by (simp_all add: nameserver_line_def gateway_fields gateway_normal)
  then show ?thesis using assms s by (simp add: resolveDNSUpstreams_def nameserversFromResolvConf_def resolv_conf_def)
qed

definition gateway :: NetService where
  "gateway = \<lparr>sv_opts = (netstack_applyDefaults (connector_options gateway_config 1300))\<lparr>op_DNSUpstreams := [''10.0.0.2:53'']\<rparr>,
     sv_localAddrs = [Addr4 0xC61300FE], sv_listeners = [], sv_closed = {}, sv_promiscuous = True, sv_udp = True\<rparr>"

lemma gateway_up:
  "netstack_New no_unicode resolv_conf gateway_host True [Prefix (Addr4 0xC61300FE) 24] (connector_options gateway_config 1300) = (True, Inr gateway)"
proof -
  let ?o = "netstack_applyDefaults (connector_options gateway_config 1300)"
  have o: "op_DNS ?o" "op_Gateway ?o" "op_DNSUpstreams ?o = []" "op_DNSResolvConf ?o = []"
    by (simp_all add: netstack_applyDefaults_def connector_options_def gateway_config_def)
  have "new_stack gateway_host [Prefix (Addr4 0xC61300FE) 24] (?o\<lparr>op_DNSUpstreams := [''10.0.0.2:53'']\<rparr>) = Inr gateway"
    using o by (simp add: new_stack_def gateway_host_def gateway_def)
  then show ?thesis using gateway_resolver [OF o(3,4)] o(1) by (simp add: netstack_New_def)
qed


theorem one_way_flow_is_cut_witness:
  "snd (udp_flow (60 * second) 0 (map (\<lambda>i. \<lparr>dg_at = i * second, dg_way = Outward, dg_data = ''x'', dg_sent = True\<rparr>) [1, 30, 59])) \<le> 60 * second"
  using one_way_flow_is_cut [of "map (\<lambda>i. \<lparr>dg_at = i * second, dg_way = Outward, dg_data = ''x'', dg_sent = True\<rparr>) [1, 30, 59]" "60 * second" 0] by simp

theorem udp_flow_passes_in_order_witness:
  "fst (udp_flow (60 * second) 0 [\<lparr>dg_at = 1, dg_way = Outward, dg_data = ''q'', dg_sent = True\<rparr>, \<lparr>dg_at = 2, dg_way = Inward, dg_data = ''a'', dg_sent = True\<rparr>])
     = [(Outward, ''q''), (Inward, ''a'')]"
proof -
  let ?gs = "[\<lparr>dg_at = 1, dg_way = Outward, dg_data = ''q'', dg_sent = True\<rparr>, \<lparr>dg_at = 2, dg_way = Inward, dg_data = ''a'', dg_sent = True\<rparr>]"
  have "snd (udp_flow (60 * second) 0 ?gs) > 2" by (simp add: udp_flow_def second_def Let_def)
  then show ?thesis using udp_flow_passes_in_order [of "60 * second" ?gs 0] by (simp add: second_def)
qed

theorem splice_keeps_streams_witness:
  "di_written (sp_out (splice_start\<lparr>sp_out := \<lparr>di_read = ''hi'', di_written = ''hi'', di_state = EndedPassed\<rparr>\<rparr>)) = ''hi''"
proof -
  let ?c = "\<lparr>di_read = ''hi'', di_written = ''hi'', di_state = Copying\<rparr>" and ?e = "\<lparr>di_read = ''hi'', di_written = ''hi'', di_state = EndedPassed\<rparr>"
  have d: "sp_out splice_start = \<lparr>di_read = [], di_written = [], di_state = Copying\<rparr>" "\<not> sp_closed splice_start" by (simp_all add: splice_start_def Let_def)
  have "copy_step True (sp_out splice_start) ?c" using copy_step.chunk [of "sp_out splice_start" True "''hi''"] by (simp add: d)
  then have 1: "splice_step True True splice_start (splice_start\<lparr>sp_out := ?c\<rparr>)" using d by (intro splice_step.outward)
  have "copy_step True ?c ?e" using copy_step.at_end [of ?c True] by simp
  then have "splice_step True True (splice_start\<lparr>sp_out := ?c\<rparr>) (splice_start\<lparr>sp_out := ?e\<rparr>)"
    using splice_step.outward [of True "splice_start\<lparr>sp_out := ?c\<rparr>" ?e True] d by simp
  with 1 have "(splice_step True True)\<^sup>*\<^sup>* splice_start (splice_start\<lparr>sp_out := ?e\<rparr>)" by (rule converse_rtranclp_into_rtranclp [OF _ r_into_rtranclp])
  from splice_keeps_streams [OF this] show ?thesis by simp
qed

theorem normalizeResolver_dialable_witness:
  "normalizeResolver ''10.0.0.2:53'' = Inr ''10.0.0.2:53''"
proof -
  have "CHR ''%'' \<notin> set ''10.0.0.2''" by simp
  from normalizeResolver_dialable [OF gateway_normal this] show ?thesis by simp
qed

end
