(* ===== verification/Machine.thy ===== *)
theory Machine
  imports Rehearsal Netstack
begin

text \<open>
  The machine a tenant runs on: where its state and its socket lie and whose they are (\<open>src/internal/tenant/paths.go\<close>),
  whether the process may bring up a device (\<open>capability.go\<close>), what was built into the binary (\<open>src/internal/variant\<close>),
  the user space device of a connector (\<open>src/internal/userdev\<close>), and the command that installs the daemon as a service and
  removes it again (\<open>src/cmd/robinet/setup.go\<close>, \<open>setupcleanup.go\<close>).

  The environment, the user database and the effective user of a process are the record \<open>osworld\<close>; what else a
  host answers is the record \<open>host\<close>. What a command leaves behind is the record \<open>box\<close>: the unit, the files with their
  owners, the resolver configuration, and the calls of \<open>systemctl\<close> in their order.
\<close>

section \<open>Paths\<close>

text \<open>\<open>path/filepath\<close> on Unix.\<close>

fun clean_elems :: "bool \<Rightarrow> string list \<Rightarrow> string list \<Rightarrow> string list" where
  "clean_elems rooted done [] = rev done"
| "clean_elems rooted done (e # es) =
     (if e = [] \<or> e = ''.'' then clean_elems rooted done es
      else if e = ''..'' then
        (case done of
           [] \<Rightarrow> clean_elems rooted (if rooted then [] else [''..'']) es
         | d # ds \<Rightarrow> clean_elems rooted (if d = ''..'' then ''..'' # d # ds else ds) es)
      else clean_elems rooted (e # done) es)"

definition filepath_Clean :: "string \<Rightarrow> string" where
  "filepath_Clean p =
     (let rooted = HasPrefix p ''/''; es = clean_elems rooted [] (split_on slash p)
      in if rooted then slash # join ''/'' es else if es = [] then ''.'' else join ''/'' es)"

definition filepath_Join :: "string list \<Rightarrow> string" where
  "filepath_Join es = (case dropWhile (\<lambda>e. e = []) es of [] \<Rightarrow> [] | fs \<Rightarrow> filepath_Clean (join ''/'' fs))"

definition filepath_Dir :: "string \<Rightarrow> string" where
  "filepath_Dir p = filepath_Clean (case cut_last slash p of None \<Rightarrow> [] | Some (d, _) \<Rightarrow> d @ ''/'')"

record User =
  us_Username :: string
  us_HomeDir :: string
  us_Uid :: string
  us_Gid :: string

record osworld =
  os_Getenv :: "string \<Rightarrow> string"
  os_Geteuid :: nat
  os_Current :: "User option"
  os_Lookup :: "string \<Rightarrow> User option"

datatype path_err = NoCurrentUser | NotInDatabase string | NoHome string | NotANumber string

definition ownerName :: "osworld \<Rightarrow> path_err + string" where
  "ownerName O1 =
     (let name = os_Getenv O1 ''SUDO_USER'' in
      if os_Geteuid O1 = 0 \<and> name \<noteq> [] \<and> name \<noteq> ''root'' then Inr name
      else (case os_Current O1 of None \<Rightarrow> Inl NoCurrentUser | Some u \<Rightarrow> Inr (us_Username u)))"

definition ownerHome :: "osworld \<Rightarrow> path_err + string" where
  "ownerHome O1 =
     (case ownerName O1 of
        Inl e \<Rightarrow> Inl e
      | Inr name \<Rightarrow>
          (case os_Lookup O1 name of
             None \<Rightarrow> Inl (NotInDatabase name)
           | Some u \<Rightarrow> if us_HomeDir u = [] then Inl (NoHome name) else Inr (us_HomeDir u)))"

definition ownerIDs :: "osworld \<Rightarrow> path_err + int \<times> int" where
  "ownerIDs O1 =
     (case ownerName O1 of
        Inl e \<Rightarrow> Inl e
      | Inr name \<Rightarrow>
          (case os_Lookup O1 name of
             None \<Rightarrow> Inl (NotInDatabase name)
           | Some u \<Rightarrow>
               (case Atoi (us_Uid u) of
                  None \<Rightarrow> Inl (NotANumber (us_Uid u))
                | Some uid \<Rightarrow> (case Atoi (us_Gid u) of None \<Rightarrow> Inl (NotANumber (us_Gid u)) | Some gid \<Rightarrow> Inr (uid, gid)))))"

definition ownerIdentity :: "osworld \<Rightarrow> path_err + string \<times> int \<times> int" where
  "ownerIdentity O1 =
     (case ownerName O1 of
        Inl e \<Rightarrow> Inl e
      | Inr name \<Rightarrow> (case ownerIDs O1 of Inl e \<Rightarrow> Inl e | Inr (uid, gid) \<Rightarrow> Inr (name, uid, gid)))"

definition DefaultStatePath :: "osworld \<Rightarrow> path_err + string" where
  "DefaultStatePath O1 =
     (case ownerHome O1 of
        Inl e \<Rightarrow> Inl e
      | Inr home \<Rightarrow>
          (let xdg = os_Getenv O1 ''XDG_STATE_HOME'' in
           if xdg \<noteq> [] \<and> os_Geteuid O1 \<noteq> 0 then Inr (filepath_Join [xdg, ''robinet'', ''tenant.json''])
           else Inr (filepath_Join [home, ''.local'', ''state'', ''robinet'', ''tenant.json''])))"

definition DefaultSocketPath :: "path_err + string" where
  "DefaultSocketPath = Inr ''/run/robinet/robinet.sock''"

definition statePath :: "osworld \<Rightarrow> string \<Rightarrow> path_err + string" where
  "statePath O1 flag = (if flag \<noteq> [] then Inr flag else DefaultStatePath O1)"

definition socketPath :: "string \<Rightarrow> path_err + string" where
  "socketPath flag = (if flag \<noteq> [] then Inr flag else DefaultSocketPath)"

section \<open>Capabilities\<close>

definition capNetAdmin :: nat where
  "capNetAdmin = 12"

definition ParseUint64_16 :: "string \<Rightarrow> 64 word option" where
  "ParseUint64_16 s =
     (if s = [] \<or> \<not> list_all (\<lambda>c. unhex c \<noteq> None) s then None
      else if 2 ^ 64 \<le> hex_val s then None else Some (of_nat (hex_val s)))"

datatype cap_err = StatusUnreadable | NotANumberOfCaps | NoCapLine | NoNetAdmin

definition effectiveCaps :: "unicode \<Rightarrow> string option \<Rightarrow> cap_err + 64 word" where
  "effectiveCaps U status =
     (case status of
        None \<Rightarrow> Inl StatusUnreadable
      | Some raw \<Rightarrow>
          (let (lines, broken) = scan_lines raw in
           case find (\<lambda>l. HasPrefix l ''CapEff:'') lines of
             Some l \<Rightarrow> (case ParseUint64_16 (TrimSpace U (drop 7 l)) of None \<Rightarrow> Inl NotANumberOfCaps | Some m \<Rightarrow> Inr m)
           | None \<Rightarrow> if broken then Inl StatusUnreadable else Inl NoCapLine))"

definition CheckNetAdmin :: "unicode \<Rightarrow> nat \<Rightarrow> string option \<Rightarrow> cap_err option" where
  "CheckNetAdmin U euid status =
     (if euid = 0 then None
      else
        (case effectiveCaps U status of
           Inl e \<Rightarrow> Some e
         | Inr m \<Rightarrow> if and m (push_bit capNetAdmin 1) \<noteq> 0 then None else Some NoNetAdmin))"

section \<open>Variants\<close>

record VariantConfig =
  vc_Hub :: string
  vc_Token :: string
  vc_Insecure :: bool
  vc_Pin :: string
  vc_Note :: string
  vc_Cheat :: bool

text \<open>\<open>base64.StdEncoding\<close>: padded, the alphabet with plus and slash.\<close>

definition b64padded_decode :: "string \<Rightarrow> string option" where
  "b64padded_decode s =
     (let t = filter (\<lambda>c. c \<noteq> CHR 0x0A \<and> c \<noteq> CHR 0x0D) s;
          body = (if HasSuffix t ''=='' then take (length t - 2) t else if HasSuffix t ''='' then take (length t - 1) t else t)
      in if length t mod 4 \<noteq> 0 then None else b64std_decode body)"

definition variant_Load :: "unicode \<Rightarrow> (string \<Rightarrow> VariantConfig option) \<Rightarrow> string \<Rightarrow> VariantConfig option" where
  "variant_Load U json Encoded =
     (if TrimSpace U Encoded = [] then None
      else (case b64padded_decode Encoded of None \<Rightarrow> None | Some raw \<Rightarrow> json raw))"

definition Cheating :: "unicode \<Rightarrow> (string \<Rightarrow> VariantConfig option) \<Rightarrow> string \<Rightarrow> bool" where
  "Cheating U json Encoded = (case variant_Load U json Encoded of None \<Rightarrow> False | Some cfg \<Rightarrow> vc_Cheat cfg)"

definition variant_String :: "unicode \<Rightarrow> (string \<Rightarrow> VariantConfig option) \<Rightarrow> string \<Rightarrow> string \<Rightarrow> string" where
  "variant_String U json Name Encoded =
     (if Name = [] then []
      else (case variant_Load U json Encoded of
              None \<Rightarrow> Name @ '' (no configuration baked in)''
            | Some cfg \<Rightarrow> Name @ '' ('' @ vc_Hub cfg @ '')''))"

section \<open>The user space device\<close>

text \<open>The table is that of a library; \<open>'t\<close> is its type.\<close>

record DeviceRoute =
  dr_Prefix :: prefix
  dr_Gateway :: addr

record 't bart =
  bt_empty :: 't
  bt_Insert :: "prefix \<Rightarrow> addr \<Rightarrow> 't \<Rightarrow> 't"
  bt_Lookup :: "'t \<Rightarrow> addr \<Rightarrow> addr option"

record 't Device =
  dv_networks :: "prefix list"
  dv_routes :: "'t option"
  dv_open :: bool

definition SetRoutes :: "'t bart \<Rightarrow> DeviceRoute list \<Rightarrow> 't Device \<Rightarrow> 't Device" where
  "SetRoutes B routes d =
     d\<lparr>dv_routes := (if length routes = 0 then None
        else Some (foldl (\<lambda>t r. bt_Insert B (dr_Prefix r) (dr_Gateway r) t) (bt_empty B) routes))\<rparr>"

definition device_New :: "'t bart \<Rightarrow> prefix list \<Rightarrow> DeviceRoute list \<Rightarrow> 't Device" where
  "device_New B networks routes = SetRoutes B routes \<lparr>dv_networks = networks, dv_routes = None, dv_open = True\<rparr>"

definition RoutesFor :: "'t bart \<Rightarrow> addr \<Rightarrow> 't Device \<Rightarrow> addr list" where
  "RoutesFor B ip d =
     (case dv_routes d of
        None \<Rightarrow> [ip]
      | Some table \<Rightarrow> (case bt_Lookup B table ip of Some g \<Rightarrow> [g] | None \<Rightarrow> [ip]))"

definition device_Close :: "'t Device \<Rightarrow> 't Device" where
  "device_Close d = d\<lparr>dv_open := False\<rparr>"

section \<open>The service\<close>

record host =
  ho_os :: osworld
  ho_LookupId :: "string \<Rightarrow> string option"
  ho_Executable :: "string option"
  ho_EvalSymlinks :: "string \<Rightarrow> string option"
  ho_LookPath :: "string \<Rightarrow> string option"
  ho_write :: bool
  ho_systemctl :: "string list \<Rightarrow> bool"
  ho_remove :: "string \<Rightarrow> bool"

record box =
  bx_unit :: "string option"
  bx_files :: "(string \<times> nat) list"
  bx_machine :: machine
  bx_ran :: "string list list"

datatype setup_err =
    NoPath path_err
  | NotJoined
  | NoSudo
  | NoBinary
  | BinaryNotResolved
  | NoOwner string
  | SetupNotWritten
  | SystemctlFailed "string list"
  | NeedsForce "string list"
  | DirNotRemoved string

datatype setup_end = Elevated "string list" | OnlyWritten | Running | CleanedUp

definition elevate :: "host \<Rightarrow> string list \<Rightarrow> setup_err + setup_end" where
  "elevate H args =
     (if ho_LookPath H ''sudo'' = None then Inl NoSudo
      else
        (case ho_Executable H of
           None \<Rightarrow> Inl NoBinary
         | Some exe \<Rightarrow> Inr (Elevated ([''sudo'', ''--'', the_default exe (ho_EvalSymlinks H exe)] @ args))))"

definition unit_lines :: "string \<Rightarrow> string \<Rightarrow> string \<Rightarrow> string \<Rightarrow> string \<Rightarrow> string list" where
  "unit_lines exePath state sock logLevel owner =
     [''[Unit]'',
      ''Description=robinet tenant daemon'',
      ''Documentation=https://github.com/rjsocha/robinet'',
      ''After=network-online.target'',
      ''Wants=network-online.target'',
      ''StartLimitIntervalSec=60'',
      ''StartLimitBurst=5'',
      [],
      ''[Service]'',
      ''Type=simple'',
      ''User='' @ owner,
      ''ExecStart='' @ exePath @ '' up --state '' @ state @ '' --socket '' @ sock @ '' --log '' @ logLevel,
      ''AmbientCapabilities=CAP_NET_ADMIN'',
      ''CapabilityBoundingSet=CAP_NET_ADMIN'',
      ''DeviceAllow=/dev/net/tun rw'',
      ''RuntimeDirectory=robinet'',
      ''RuntimeDirectoryMode=0750'',
      ''NoNewPrivileges=yes'',
      ''ProtectSystem=strict'',
      ''ProtectHome=read-only'',
      ''ReadWritePaths='' @ filepath_Dir state,
      ''PrivateTmp=yes'',
      ''Restart=always'',
      ''RestartSec=500ms'',
      [],
      ''[Install]'',
      ''WantedBy=multi-user.target'']"

definition renderUnit :: "string \<Rightarrow> string \<Rightarrow> string \<Rightarrow> string \<Rightarrow> string \<Rightarrow> string" where
  "renderUnit exePath state sock logLevel owner = unlines (unit_lines exePath state sock logLevel owner)"

definition ownerOf :: "host \<Rightarrow> string \<Rightarrow> box \<Rightarrow> string option" where
  "ownerOf H path b = (case map_of (bx_files b) path of None \<Rightarrow> None | Some uid \<Rightarrow> ho_LookupId H (digits_of uid))"

fun run_systemctl :: "host \<Rightarrow> string list list \<Rightarrow> box \<Rightarrow> box \<times> (setup_err + unit)" where
  "run_systemctl H [] b = (b, Inr ())"
| "run_systemctl H (args # rest) b =
     (let b = b\<lparr>bx_ran := bx_ran b @ [args]\<rparr> in
      if ho_systemctl H args then run_systemctl H rest b else (b, Inl (SystemctlFailed args)))"

record setup_flags =
  su_state :: string
  su_socket :: string
  su_binary :: string
  su_noEnable :: bool
  su_cleanup :: bool
  su_force :: bool
  su_log :: string

definition setup_binary :: "host \<Rightarrow> string \<Rightarrow> setup_err + string" where
  "setup_binary H flag =
     (if flag \<noteq> [] then Inr flag
      else
        (case ho_Executable H of
           None \<Rightarrow> Inl NoBinary
         | Some exe \<Rightarrow> (case ho_EvalSymlinks H exe of None \<Rightarrow> Inl BinaryNotResolved | Some p \<Rightarrow> Inr p)))"

definition setup_install :: "host \<Rightarrow> setup_flags \<Rightarrow> string \<Rightarrow> box \<Rightarrow> box \<times> (setup_err + setup_end)" where
  "setup_install H fl path b =
     (case socketPath (su_socket fl) of
        Inl e \<Rightarrow> (b, Inl (NoPath e))
      | Inr sockPath \<Rightarrow>
          (case setup_binary H (su_binary fl) of
             Inl e \<Rightarrow> (b, Inl e)
           | Inr exePath \<Rightarrow>
               (case ownerOf H path b of
                  None \<Rightarrow> (b, Inl (NoOwner path))
                | Some owner \<Rightarrow>
                    if \<not> ho_write H then (b, Inl SetupNotWritten)
                    else
                      (let b = b\<lparr>bx_unit := Some (renderUnit exePath path sockPath (su_log fl) owner)\<rparr> in
                       if su_noEnable fl then (b, Inr OnlyWritten)
                       else
                         (case run_systemctl H [[''daemon-reload''], [''enable'', ''robinet''], [''restart'', ''robinet'']] b of
                            (b, Inl e) \<Rightarrow> (b, Inl e)
                          | (b, Inr _) \<Rightarrow> (b, Inr Running))))))"

definition ownedInstances :: "data option \<Rightarrow> string list" where
  "ownedInstances state = (case state of None \<Rightarrow> [] | Some d \<Rightarrow> sort (map own_Name (vals (da_Owned d))))"

definition in_dir :: "string \<Rightarrow> string \<Rightarrow> bool" where
  "in_dir dir p \<longleftrightarrow> p = dir \<or> HasPrefix p (if dir = ''/'' then dir else dir @ ''/'')"

text \<open>\<open>os.RemoveAll\<close> refuses the directory it stands in.\<close>

definition remove_all :: "host \<Rightarrow> string \<Rightarrow> box \<Rightarrow> box \<times> (setup_err + unit)" where
  "remove_all H dir b =
     (if dir = ''.'' \<or> \<not> ho_remove H dir then (b, Inl (DirNotRemoved dir))
      else (b\<lparr>bx_files := filter (\<lambda>(p, _). \<not> in_dir dir p) (bx_files b)\<rparr>, Inr ()))"

definition stop_service :: "host \<Rightarrow> box \<Rightarrow> box" where
  "stop_service H b =
     (if ho_LookPath H ''systemctl'' = None then b
      else
        (let b = b\<lparr>bx_ran := bx_ran b @ [[''stop'', ''robinet.service''], [''disable'', ''robinet.service'']]\<rparr> in
         if bx_unit b = None then b else b\<lparr>bx_unit := None, bx_ran := bx_ran b @ [[''daemon-reload'']]\<rparr>))"

definition cleanupTenant :: "host \<Rightarrow> machine_env \<Rightarrow> data option \<Rightarrow> string \<Rightarrow> bool \<Rightarrow> box \<Rightarrow> box \<times> (setup_err + setup_end)" where
  "cleanupTenant H E held stateFlag force b =
     (case statePath (ho_os H) stateFlag of
        Inl e \<Rightarrow> (b, Inl (NoPath e))
      | Inr path \<Rightarrow>
          if \<not> force then (b, Inl (NeedsForce (ownedInstances held)))
          else
            (let b = stop_service H b; b = b\<lparr>bx_machine := RemoveAll E (bx_machine b)\<rparr>
             in case remove_all H (filepath_Dir path) b of (b, Inl e) \<Rightarrow> (b, Inl e) | (b, Inr _) \<Rightarrow> (b, Inr CleanedUp)))"

definition setup_run :: "host \<Rightarrow> machine_env \<Rightarrow> data option \<Rightarrow> setup_flags \<Rightarrow> string list \<Rightarrow> box \<Rightarrow> box \<times> (setup_err + setup_end)" where
  "setup_run H E held fl args b =
     (if su_cleanup fl then
        (if os_Geteuid (ho_os H) \<noteq> 0 then (b, elevate H args) else cleanupTenant H E held (su_state fl) (su_force fl) b)
      else
        (case statePath (ho_os H) (su_state fl) of
           Inl e \<Rightarrow> (b, Inl (NoPath e))
         | Inr path \<Rightarrow>
             if map_of (bx_files b) path = None then (b, Inl NotJoined)
             else if os_Geteuid (ho_os H) \<noteq> 0 then (b, elevate H args)
             else setup_install H fl path b))"

section \<open>Joining and starting\<close>

record join_flags =
  jf_hub :: string
  jf_token :: string
  jf_name :: string
  jf_sshKey :: string
  jf_sshFinger :: string
  jf_state :: string
  jf_insecure :: "bool option"
  jf_pin :: string
  jf_noSetup :: bool
  jf_socket :: string

text \<open>\<open>jf_insecure\<close> is \<open>None\<close> when the flag was not given.\<close>

definition preset_flags :: "VariantConfig option \<Rightarrow> join_flags \<Rightarrow> join_flags" where
  "preset_flags preset fl =
     (case preset of
        None \<Rightarrow> fl
      | Some p \<Rightarrow>
          fl\<lparr>jf_hub := over (vc_Hub p) (jf_hub fl), jf_token := over (vc_Token p) (jf_token fl),
             jf_insecure := (if jf_insecure fl = None \<and> vc_Insecure p then Some True else jf_insecure fl), jf_pin := over (vc_Pin p) (jf_pin fl)\<rparr>)"

definition defaultMachineName :: "osworld \<Rightarrow> string option \<Rightarrow> string" where
  "defaultMachineName O1 hostname =
     (case hostname of
        None \<Rightarrow> ''robinet''
      | Some name \<Rightarrow>
          if name = [] then ''robinet''
          else
            (case os_Current O1 of
               None \<Rightarrow> name
             | Some u \<Rightarrow> if us_Username u = [] then name else us_Username u @ ''@'' @ name))"

definition runSetup :: "host \<Rightarrow> setup_err + string list" where
  "runSetup H =
     (case ho_Executable H of
        None \<Rightarrow> Inl NoBinary
      | Some exe \<Rightarrow>
          (let exe = the_default exe (ho_EvalSymlinks H exe) in
           if os_Geteuid (ho_os H) \<noteq> 0 then
             (case ho_LookPath H ''sudo'' of None \<Rightarrow> Inl NoSudo | Some sudo \<Rightarrow> Inr [sudo, ''--'', exe, ''setup''])
           else Inr [exe, ''setup'']))"

datatype join_err = HubRequired | OfPath path_err | NotOpened open_err | OfJoin daemon_err | OfSetup setup_err | SetupFailed

definition join_options :: "join_flags \<Rightarrow> string \<Rightarrow> JoinOptions" where
  "join_options fl name =
     \<lparr>jo_HubURL = jf_hub fl, jo_Token = jf_token fl, jo_Name = name, jo_SSHKeyPath = jf_sshKey fl, jo_SSHFingerprint = jf_sshFinger fl,
      jo_Signer = None, jo_Insecure = (jf_insecure fl = Some True), jo_Pin = jf_pin fl\<rparr>"

text \<open>
  The state that is joined with is the one at the path, \<open>up\<close> whether a daemon answers on the socket, \<open>child\<close> whether
  the command that was started ends well. The result holds the command, when one was needed.
\<close>

definition join_run ::
  "tworld \<Rightarrow> 'h line \<Rightarrow> keyring \<Rightarrow> string option \<Rightarrow> tenant_fault option \<Rightarrow> host \<Rightarrow> string option \<Rightarrow> VariantConfig option \<Rightarrow>
    (string \<Rightarrow> bool \<times> tenant_fs) \<Rightarrow> bool \<Rightarrow> (string list \<Rightarrow> bool) \<Rightarrow> join_flags \<Rightarrow> 'h \<Rightarrow> 'h \<times> (join_err + Joined \<times> State \<times> string list option)" where
  "join_run W N K drawn io H hostname preset disk up child fl h =
     (let fl = preset_flags preset fl in
      if jf_hub fl = [] \<or> jf_token fl = [] then (h, Inl HubRequired)
      else
        (case statePath (ho_os H) (jf_state fl) of
           Inl e \<Rightarrow> (h, Inl (OfPath e))
         | Inr path \<Rightarrow>
             (case OpenState (fst (disk path)) (snd (disk path)) of
                Inl e \<Rightarrow> (h, Inl (NotOpened e))
              | Inr st \<Rightarrow>
                  (let name = (if jf_name fl \<noteq> [] then jf_name fl else if Tenant.Registered st then DefaultNameMarker
                               else defaultMachineName (ho_os H) hostname);
                       owner = (case ownerIdentity (ho_os H) of Inl _ \<Rightarrow> None | Inr own \<Rightarrow> Some own)
                   in case Join W N K drawn owner io (join_options fl name) st h of
                        (h, st, Inl e) \<Rightarrow> (h, Inl (OfJoin e))
                      | (h, st, Inr j) \<Rightarrow>
                          if jf_noSetup fl \<or> up then (h, Inr (j, st, None))
                          else
                            (case runSetup H of
                               Inl e \<Rightarrow> (h, Inl (OfSetup e))
                             | Inr cmd \<Rightarrow> if child cmd then (h, Inr (j, st, Some cmd)) else (h, Inl SetupFailed))))))"

datatype up_err = NoCapability cap_err | UpPath path_err | UpNotOpened open_err | UpNotReady daemon_err

definition up_start ::
  "tworld \<Rightarrow> osworld \<Rightarrow> string option \<Rightarrow> (string \<Rightarrow> bool \<times> tenant_fs) \<Rightarrow> string \<Rightarrow> string \<Rightarrow> up_err + (string \<times> Daemon \<times> tclient)" where
  "up_start W O1 status disk state sock =
     (case CheckNetAdmin (tw_unicode W) (os_Geteuid O1) status of
        Some e \<Rightarrow> Inl (NoCapability e)
      | None \<Rightarrow>
          (case statePath O1 state of
             Inl e \<Rightarrow> Inl (UpPath e)
           | Inr path \<Rightarrow>
               (case socketPath sock of
                  Inl e \<Rightarrow> Inl (UpPath e)
                | Inr sockPath \<Rightarrow>
                    (case OpenState (fst (disk path)) (snd (disk path)) of
                       Inl e \<Rightarrow> Inl (UpNotOpened e)
                     | Inr st \<Rightarrow> (case NewDaemon W st of Inl e \<Rightarrow> Inl (UpNotReady e) | Inr (d, c) \<Rightarrow> Inr (sockPath, d, c))))))"

section \<open>Whose machine it is\<close>

text \<open>The same person before and after the password: root knows who called and has the same user database.\<close>

definition elevated_from :: "host \<Rightarrow> host \<Rightarrow> bool" where
  "elevated_from H R \<longleftrightarrow> os_Geteuid (ho_os H) \<noteq> 0 \<and> os_Geteuid (ho_os R) = 0
     \<and> (\<exists>u. os_Current (ho_os H) = Some u \<and> us_Username u \<notin> {[], ''root''} \<and> os_Getenv (ho_os R) ''SUDO_USER'' = us_Username u)
     \<and> os_Lookup (ho_os R) = os_Lookup (ho_os H)"

lemma elevated_owner: "elevated_from H R \<Longrightarrow> ownerName (ho_os R) = ownerName (ho_os H)"
  by (auto simp: elevated_from_def ownerName_def Let_def)

lemma elevated_identity:
  assumes "elevated_from H R"
  shows "ownerHome (ho_os R) = ownerHome (ho_os H)" "ownerIdentity (ho_os R) = ownerIdentity (ho_os H)"
proof -
  have "os_Lookup (ho_os R) = os_Lookup (ho_os H)" using assms by (simp add: elevated_from_def)
  then show "ownerHome (ho_os R) = ownerHome (ho_os H)" "ownerIdentity (ho_os R) = ownerIdentity (ho_os H)"
    using elevated_owner [OF assms] by (simp_all add: ownerHome_def ownerIdentity_def ownerIDs_def split: sum.split)
qed

lemma elevated_statePath:
  assumes "elevated_from H R" and "flag \<noteq> [] \<or> os_Getenv (ho_os H) ''XDG_STATE_HOME'' = []"
  shows "statePath (ho_os R) flag = statePath (ho_os H) flag"
  using assms elevated_identity(1) [OF assms(1)]
  by (auto simp: statePath_def DefaultStatePath_def elevated_from_def Let_def split: sum.split)

lemma run_systemctl_all:
  assumes "\<forall>a \<in> set cmds. ho_systemctl H a"
  shows "run_systemctl H cmds b = (b\<lparr>bx_ran := bx_ran b @ cmds\<rparr>, Inr ())"
  using assms by (induction cmds arbitrary: b) simp_all

text \<open>
  The service that is installed is the one of the person who asked for it. Without a state directory of
  its own choice, what the command finds before it asks for the password it finds afterwards: the unit runs as the owner of the
  state file, on that file, and may write its directory.
\<close>

theorem setup_serves_its_caller:
  assumes "elevated_from H R" and "su_state fl \<noteq> [] \<or> os_Getenv (ho_os H) ''XDG_STATE_HOME'' = []"
    and "setup_run H E held fl args b = (b, Inr (Elevated argv))" and "\<not> su_cleanup fl" and "\<not> su_noEnable fl"
    and "ho_write R" and "\<forall>a. ho_systemctl R a" and "setup_binary R (su_binary fl) = Inr exe"
    and "statePath (ho_os H) (su_state fl) = Inr path" and "ownerOf R path b = Some owner"
  shows "\<exists>b' sock. setup_run R E held fl args b = (b', Inr Running) \<and> bx_unit b' = Some (renderUnit exe path sock (su_log fl) owner)
    \<and> {''User='' @ owner, ''ReadWritePaths='' @ filepath_Dir path} \<subseteq> set (unit_lines exe path sock (su_log fl) owner)
    \<and> bx_files b' = bx_files b \<and> last (bx_ran b') = [''restart'', ''robinet'']"
proof -
  have there: "map_of (bx_files b) path \<noteq> None" using assms(3,4,9) by (auto simp: setup_run_def split: if_split_asm)
  obtain sock where sock: "socketPath (su_socket fl) = Inr sock" by (cases "su_socket fl = []") (simp_all add: socketPath_def DefaultSocketPath_def)
  have path: "statePath (ho_os R) (su_state fl) = Inr path" using elevated_statePath [OF assms(1,2)] assms(9) by simp
  show ?thesis
    using assms(1,4-8,10) there sock path
    by (auto simp: setup_run_def setup_install_def elevated_from_def run_systemctl_all unit_lines_def Let_def)
qed

text \<open>
  C39: a person whose state directory is chosen with \<open>XDG_STATE_HOME\<close> cannot install the service without naming the file: the
  command finds the state, asks for the password, and as root looks into the home directory instead and says that the
  machine is not registered.
\<close>

theorem chosen_state_is_not_found_by_root:
  assumes "elevated_from H R" and "os_Getenv (ho_os H) ''XDG_STATE_HOME'' = xdg" and "xdg \<noteq> []" and "ownerHome (ho_os H) = Inr home"
    and "map_of (bx_files b) (filepath_Join [xdg, ''robinet'', ''tenant.json'']) = Some uid"
    and "map_of (bx_files b) (filepath_Join [home, ''.local'', ''state'', ''robinet'', ''tenant.json'']) = None"
    and "su_state fl = []" and "\<not> su_cleanup fl" and "elevate H args = Inr (Elevated argv)"
  shows "setup_run H E held fl args b = (b, Inr (Elevated argv)) \<and> setup_run R E held fl args b = (b, Inl NotJoined)"
  using assms elevated_identity(1) [OF assms(1)]
  by (auto simp: setup_run_def statePath_def DefaultStatePath_def elevated_from_def Let_def)

text \<open>
  Cleaning up asks first: without being forced it changes nothing and names the instances whose authority would be lost. When it
  has been done, the service is gone, nothing is left in the directory of the state file, whatever it was, and everything
  outside is as before.
\<close>

theorem cleanup_takes_the_directory:
  assumes "statePath (ho_os H) flag = Inr path" and "ho_LookPath H ''systemctl'' \<noteq> None"
  shows "cleanupTenant H E held flag False b = (b, Inl (NeedsForce (ownedInstances held)))
    \<and> (\<forall>b'. cleanupTenant H E held flag True b = (b', Inr CleanedUp) \<longrightarrow>
      bx_unit b' = None \<and> (\<forall>p. in_dir (filepath_Dir path) p \<longrightarrow> map_of (bx_files b') p = None)
      \<and> (\<forall>p. \<not> in_dir (filepath_Dir path) p \<longrightarrow> map_of (bx_files b') p = map_of (bx_files b) p)
      \<and> (\<forall>u. is_unit u \<and> me_unlink E u \<longrightarrow> mc_units (bx_machine b') u = None))"
proof -
  have f: "map_of (filter (\<lambda>(p, _). \<not> in_dir d p) xs) p = (if in_dir d p then None else map_of xs p)" for d xs p
    by (induction xs) auto
  show ?thesis
    using assms
    by (auto simp: cleanupTenant_def remove_all_def stop_service_def f RemoveAll_def sweep_units_def Let_def split: if_split_asm)
qed

section \<open>The socket and its owner\<close>

lemma Join_owner:
  assumes "Join W N K drawn owner io opts s h = (h', s', Inr j)"
  shows "\<exists>own. owner = Some own \<and> da_Owner (sta_data s') = fst own \<and> da_OwnerUID (sta_data s') = fst (snd own) \<and> da_OwnerGID (sta_data s') = snd (snd own)"
  using assms unfolding Join_def Let_def
  by (auto simp: after_write_def Write_def save_data_def registered_data_def split: if_split_asm sum.split_asm prod.split_asm option.split_asm)

text \<open>
  C19: whoever registers the machine drives it: after joining, also under \<open>sudo\<close>, the socket a daemon opens belongs to the
  person who called, and nobody else may open it.
\<close>

theorem socket_is_the_callers:
  assumes "join_run W N K drawn io H hostname preset disk up child fl h = (h', Inr (j, s', cmd))"
    and "ownerName (ho_os H) = Inr name" and "os_Lookup (ho_os H) name = Some u" and "Atoi (us_Uid u) = Some uid" and "Atoi (us_Gid u) = Some gid"
    and "0 < uid" and "chown uid gid"
  shows "applySocketPermissions chown True s' f = (f\<lparr>sf_owner := (uid, gid), sf_mode := 6 * 64\<rparr>, Inr ()) \<and> da_Owner (sta_data s') = name
    \<and> (os_Geteuid (ho_os H) = 0 \<and> os_Getenv (ho_os H) ''SUDO_USER'' \<notin> {[], ''root''} \<longrightarrow> name = os_Getenv (ho_os H) ''SUDO_USER'')"
proof -
  have own: "ownerIdentity (ho_os H) = Inr (name, uid, gid)" using assms(2-5) by (simp add: ownerIdentity_def ownerIDs_def)
  obtain st opts where "Join W N K drawn (Some (name, uid, gid)) io opts st h = (h', s', Inr j)"
    using assms(1) own by (auto simp: join_run_def Let_def split: if_split_asm sum.split_asm prod.split_asm)
  from Join_owner [OF this] show ?thesis
    using assms(2,6,7) by (auto simp: applySocketPermissions_def ownerName_def Let_def)
qed

section \<open>The capability\<close>

lemma hex_digit_char:
  assumes "unhex c \<noteq> None"
  shows "is_ascii c" "\<not> is_space c" "c \<noteq> CHR 0x0D" "c \<noteq> nl"
  using assms by (auto simp: unhex_def is_ascii_def is_space_def nl_def is_digit_def Let_def split: if_split_asm)

lemma hex_val_bound: "list_all (\<lambda>c. unhex c \<noteq> None) s \<Longrightarrow> hex_val s < 16 ^ length s"
proof (induction s rule: rev_induct)
  case (snoc c s)
  have "the_default 0 (unhex c) < 16" by (auto simp: unhex_def Let_def)
  with snoc show ?case by (auto simp: hex_val_append)
qed (simp add: hex_val_def)

lemma scan_lines_unlines:
  assumes "\<forall>l \<in> set ls. nl \<notin> set l"
  shows "scan_lines (unlines ls) = (map drop_cr (takeWhile (\<lambda>l. length l < 65536) ls), \<not> (\<forall>l \<in> set ls. length l < 65536))"
proof -
  have "length (takeWhile P ls) < length ls \<longleftrightarrow> \<not> (\<forall>l \<in> set ls. P l)" for P
    using length_takeWhile_le [of P ls] by (metis nat_less_le takeWhile_eq_all_conv takeWhile_eq_take take_all_iff le_refl)
  then show ?thesis using split_unlines [OF assms] by (simp add: scan_lines_def Let_def)
qed

lemma drop_cr_prefix: "HasPrefix (drop_cr l) p \<Longrightarrow> HasPrefix l p"
proof -
  have "take n (butlast l) = p \<Longrightarrow> n = length p \<Longrightarrow> take n l = p" for n
    by (metis butlast_conv_take length_take min.bounded_iff order_refl take_take min.absorb1)
  then show "HasPrefix (drop_cr l) p \<Longrightarrow> HasPrefix l p" by (auto simp: drop_cr_def HasPrefix_def split: if_split_asm)
qed

lemma find_map_drop_cr:
  assumes "\<forall>l \<in> set ls. \<not> HasPrefix l p" and "HasPrefix m p"
  shows "find (\<lambda>l. HasPrefix l p) (map drop_cr ls @ m # ms) = Some m"
  using assms drop_cr_prefix by (induction ls) auto

lemma odd_digit:
  assumes "list_all (\<lambda>c. unhex c \<noteq> None) (u @ [x, a, b, c])"
  shows "odd (hex_val (u @ [x, a, b, c]) div 2 ^ 12) \<longleftrightarrow> odd (the (unhex x))"
proof -
  obtain x' a' b' c' where d: "unhex x = Some x'" "unhex a = Some a'" "unhex b = Some b'" "unhex c = Some c'" using assms by auto
  have lt: "unhex y = Some y' \<Longrightarrow> y' < 16" for y y' by (auto simp: unhex_def Let_def split: if_split_asm)
  have "hex_val (u @ [x, a, b, c]) = (16 * hex_val u + x') * 4096 + (a' * 256 + b' * 16 + c')"
    using hex_val_append [of "u @ [x, a, b]" c] hex_val_append [of "u @ [x, a]" b] hex_val_append [of "u @ [x]" a] hex_val_append [of u x] d by simp
  moreover have "a' * 256 + b' * 16 + c' < 4096" using lt [OF d(2)] lt [OF d(3)] lt [OF d(4)] by linarith
  ultimately have "hex_val (u @ [x, a, b, c]) div 2 ^ 12 = 16 * hex_val u + x'" by simp
  then show ?thesis using d by simp
qed

lemma word_bit_twelve: "and (of_nat n :: 64 word) (push_bit 12 1) \<noteq> 0 \<longleftrightarrow> odd (n div 2 ^ 12)"
proof -
  have "and (of_nat n :: 64 word) (2 ^ 12) = 0 \<longleftrightarrow> \<not> bit (of_nat n :: 64 word) 12" by (rule and_exp_eq_0_iff_not_bit)
  moreover have "bit (of_nat n :: 64 word) 12 \<longleftrightarrow> bit n 12" by (simp add: bit_simps)
  ultimately show ?thesis by (simp add: push_bit_eq_mult bit_iff_odd)
qed

text \<open>
  A process that is not root may bring up a device exactly when the kernel granted it \<open>CAP_NET_ADMIN\<close>: bit 12 of the mask, the lowest bit of
  the fourth digit from the right, whatever stands in the lines before and after.
\<close>

theorem capability_is_bit_twelve:
  assumes "euid \<noteq> 0" and "\<forall>l \<in> set ls. nl \<notin> set l \<and> length l < 65536 \<and> \<not> HasPrefix l ''CapEff:''" and "\<forall>l \<in> set ms. nl \<notin> set l"
    and "caps = u @ [x, a, b, c]" and "list_all (\<lambda>c. unhex c \<noteq> None) caps" and "length caps = 16"
  shows "CheckNetAdmin U euid (Some (unlines (ls @ [''CapEff:'' @ CHR 0x09 # caps] @ ms))) = (if odd (the (unhex x)) then None else Some NoNetAdmin)"
proof -
  let ?l = "''CapEff:'' @ CHR 0x09 # caps"
  have ne: "caps \<noteq> []" using assms(4) by simp
  have ch: "d \<in> set caps \<Longrightarrow> unhex d \<noteq> None" for d using assms(5) by (auto simp: list_all_iff)
  have last: "last caps \<noteq> CHR 0x0D" using hex_digit_char(3) [OF ch] ne by (metis last_in_set)
  have cr: "drop_cr ?l = ?l" using last ne by (simp add: drop_cr_def)
  have nonl: "\<forall>l \<in> set (ls @ [?l] @ ms). nl \<notin> set l" using assms(2,3) hex_digit_char(4) [OF ch] by (auto simp: nl_def)
  have tw: "takeWhile (\<lambda>l. length l < 65536) (ls @ [?l] @ ms) = ls @ ?l # takeWhile (\<lambda>l. length l < 65536) ms"
    using assms(2,6) by (subst takeWhile_append2) auto
  have f: "find (\<lambda>l. HasPrefix l ''CapEff:'') (map drop_cr ls @ ?l # map drop_cr (takeWhile (\<lambda>l. length l < 65536) ms)) = Some ?l"
    by (rule find_map_drop_cr) (use assms(2) in \<open>auto simp: HasPrefix_def\<close>)
  have "trim_left is_space (CHR 0x09 # caps) = caps" using trim_left_id [of caps is_space] hex_digit_char(2) [OF ch] ne by (simp add: is_space_def)
  moreover have "trim_right is_space caps = caps" using trim_right_id [of caps is_space] hex_digit_char(2) [OF ch] ne by simp
  moreover have "ascii (CHR 0x09 # caps)" using hex_digit_char(1) [OF ch] by (auto simp: ascii_def list_all_iff is_ascii_def)
  ultimately have t: "TrimSpace U (CHR 0x09 # caps) = caps" by (simp add: TrimSpace_def trim_by_def)
  have b: "hex_val caps < 2 ^ 64" using hex_val_bound [OF assms(5)] assms(6) by simp
  have e: "effectiveCaps U (Some (unlines (ls @ [?l] @ ms))) = Inr (of_nat (hex_val caps))"
  proof -
    obtain broken where "scan_lines (unlines (ls @ [?l] @ ms)) = (map drop_cr ls @ ?l # map drop_cr (takeWhile (\<lambda>l. length l < 65536) ms), broken)"
      unfolding scan_lines_unlines [OF nonl] tw using cr by simp
    then show ?thesis using f t b ne assms(5) unfolding effectiveCaps_def by (simp add: ParseUint64_16_def del: unlines_simps)
  qed
  have "and (of_nat (hex_val caps) :: 64 word) (push_bit capNetAdmin 1) \<noteq> 0 \<longleftrightarrow> odd (hex_val caps div 2 ^ 12)"
    unfolding capNetAdmin_def by (rule word_bit_twelve)
  then show ?thesis using e assms(1,5) odd_digit [of u x a b c] unfolding assms(4) by (simp add: CheckNetAdmin_def)
qed

section \<open>What is built in\<close>

text \<open>
  The workarounds are a matter of the build alone. In a binary without a readable configuration that asks for them, no request
  to the socket switches one on, and what a machine runs on holds none.
\<close>

theorem plain_binary_has_no_workarounds:
  assumes "tw_cheating W = Cheating U json Encoded" and "\<forall>cfg. variant_Load U json Encoded = Some cfg \<longrightarrow> \<not> vc_Cheat cfg"
    and "control W N c X verb path body d h = (h', d', a)"
  shows "da_Cheats (sta_data (dae_state d')) = da_Cheats (sta_data (dae_state d)) \<and> \<not> ch_chromiumProbeRoute (daemon_choices W d')"
  using plain_build_has_no_workarounds [OF _ assms(3)] assms(1,2) by (simp add: Cheating_def split: option.split_asm)

section \<open>Where packets go\<close>

text \<open>What the library promises of its table: the answer is the gateway of the longest prefix that was inserted and holds the address.\<close>

definition covers :: "addr \<Rightarrow> DeviceRoute \<Rightarrow> bool" where
  "covers ip r \<longleftrightarrow> Contains (dr_Prefix r) ip"

definition longest_match :: "'t bart \<Rightarrow> bool" where
  "longest_match B \<longleftrightarrow> (\<forall>rs ip.
     (let t = foldl (\<lambda>t r. bt_Insert B (dr_Prefix r) (dr_Gateway r) t) (bt_empty B) rs in
      case bt_Lookup B t ip of
        None \<Rightarrow> \<forall>r \<in> set rs. \<not> covers ip r
      | Some g \<Rightarrow> \<exists>r \<in> set rs. covers ip r \<and> dr_Gateway r = g \<and> (\<forall>q \<in> set rs. covers ip q \<longrightarrow> pbits (dr_Prefix q) \<le> pbits (dr_Prefix r))))"

text \<open>
  A packet for an address goes to the gateway of the most specific route that holds it, and to the address itself when none
  does; a device without routes, like that of a connector, sends every packet straight to its address.
\<close>

theorem RoutesFor_most_specific:
  assumes "longest_match B"
  shows "\<exists>g. RoutesFor B ip (device_New B networks routes) = [g] \<and> RoutesFor B ip (device_New B networks []) = [ip]
    \<and> ((\<forall>r \<in> set routes. \<not> covers ip r) \<and> g = ip
       \<or> (\<exists>r \<in> set routes. covers ip r \<and> dr_Gateway r = g \<and> (\<forall>q \<in> set routes. covers ip q \<longrightarrow> pbits (dr_Prefix q) \<le> pbits (dr_Prefix r))))"
proof -
  let ?t = "foldl (\<lambda>t r. bt_Insert B (dr_Prefix r) (dr_Gateway r) t) (bt_empty B) routes"
  from assms have "case bt_Lookup B ?t ip of
        None \<Rightarrow> \<forall>r \<in> set routes. \<not> covers ip r
      | Some g \<Rightarrow> \<exists>r \<in> set routes. covers ip r \<and> dr_Gateway r = g \<and> (\<forall>q \<in> set routes. covers ip q \<longrightarrow> pbits (dr_Prefix q) \<le> pbits (dr_Prefix r))"
    unfolding longest_match_def Let_def by blast
  then show ?thesis by (cases "bt_Lookup B ?t ip") (auto simp: RoutesFor_def device_New_def SetRoutes_def)
qed

section \<open>A laptop\<close>

lemma clean_elems_plain:
  "\<forall>e \<in> set es. e \<notin> {''.'', ''..''} \<Longrightarrow> clean_elems rooted acc es = rev acc @ filter (\<lambda>e. e \<noteq> []) es"
  by (induction es arbitrary: acc) auto

lemma Clean_plain:
  assumes "es \<noteq> []" and "\<forall>e \<in> set es. e \<notin> {''.'', ''..''} \<and> slash \<notin> set e"
  shows "filepath_Clean (slash # join ''/'' es) = slash # join ''/'' (filter (\<lambda>e. e \<noteq> []) es)"
proof -
  have sl: "''/'' = [slash]" by (simp add: slash_def)
  have "split_on slash ([] @ slash # join [slash] es) = [] # es" by (subst split_on_append) (use assms in \<open>simp_all add: split_on_join\<close>)
  then show ?thesis using assms clean_elems_plain [of es True "[]"] by (simp add: filepath_Clean_def sl HasPrefix_def)
qed

definition mara :: User where
  "mara = \<lparr>us_Username = ''mara'', us_HomeDir = ''/home/mara'', us_Uid = ''1000'', us_Gid = ''1000''\<rparr>"

definition laptop_os :: "string \<Rightarrow> osworld" where
  "laptop_os xdg = \<lparr>os_Getenv = (\<lambda>v. if v = ''XDG_STATE_HOME'' then xdg else []), os_Geteuid = 1000, os_Current = Some mara,
     os_Lookup = (\<lambda>n. if n = ''mara'' then Some mara else None)\<rparr>"

definition laptop_host :: "osworld \<Rightarrow> host" where
  "laptop_host O1 = \<lparr>ho_os = O1, ho_LookupId = (\<lambda>i. if i = ''1000'' then Some ''mara'' else None), ho_Executable = Some ''/home/mara/.local/bin/robinet'',
     ho_EvalSymlinks = (\<lambda>p. Some p), ho_LookPath = (\<lambda>c. Some (''/usr/bin/'' @ c)), ho_write = True, ho_systemctl = (\<lambda>_. True), ho_remove = (\<lambda>_. True)\<rparr>"

definition laptop :: "string \<Rightarrow> host" where
  "laptop xdg = laptop_host (laptop_os xdg)"

definition root_laptop :: host where
  "root_laptop = laptop_host ((laptop_os [])\<lparr>os_Geteuid := 0, os_Getenv := (\<lambda>v. if v = ''SUDO_USER'' then ''mara'' else [])\<rparr>)"

definition laptop_box :: "string list \<Rightarrow> box" where
  "laptop_box files = \<lparr>bx_unit = None, bx_files = map (\<lambda>p. (p, 1000)) files, bx_machine = bare_machine, bx_ran = []\<rparr>"

definition plain_flags :: setup_flags where
  "plain_flags = \<lparr>su_state = [], su_socket = [], su_binary = [], su_noEnable = False, su_cleanup = False, su_force = False, su_log = ''info''\<rparr>"

lemmas laptop_defs = laptop_def laptop_host_def laptop_os_def root_laptop_def mara_def laptop_box_def plain_flags_def

lemma laptop_elevated: "elevated_from (laptop xdg) root_laptop"
  by (simp add: elevated_from_def laptop_defs)

definition home_state :: string where
  "home_state = filepath_Join [''/home/mara'', ''.local'', ''state'', ''robinet'', ''tenant.json'']"

definition data_state :: string where
  "data_state = filepath_Join [''/data'', ''robinet'', ''tenant.json'']"

lemma home_state: "home_state = ''/home/mara/.local/state/robinet/tenant.json''"
proof -
  have "filepath_Clean (slash # join ''/'' [''home'', ''mara'', ''.local'', ''state'', ''robinet'', ''tenant.json''])
      = slash # join ''/'' (filter (\<lambda>e. e \<noteq> []) [''home'', ''mara'', ''.local'', ''state'', ''robinet'', ''tenant.json''])"
    by (rule Clean_plain) (simp_all add: slash_def)
  then show ?thesis by (simp add: home_state_def filepath_Join_def slash_def)
qed

lemma data_state: "data_state = ''/data/robinet/tenant.json''"
proof -
  have "filepath_Clean (slash # join ''/'' [''data'', ''robinet'', ''tenant.json'']) = slash # join ''/'' (filter (\<lambda>e. e \<noteq> []) [''data'', ''robinet'', ''tenant.json''])"
    by (rule Clean_plain) (simp_all add: slash_def)
  then show ?thesis by (simp add: data_state_def filepath_Join_def slash_def)
qed

lemma laptop_home: "ownerHome (ho_os (laptop xdg)) = Inr ''/home/mara''"
  by (simp add: ownerHome_def ownerName_def laptop_defs)

lemma laptop_path: "statePath (ho_os (laptop [])) [] = Inr home_state"
proof -
  have "os_Getenv (ho_os (laptop [])) v = []" for v by (simp add: laptop_defs)
  then show ?thesis using laptop_home [of "[]"] by (simp add: statePath_def DefaultStatePath_def home_state_def)
qed

lemma digits_thousand: "digits_of 1000 = ''1000''"
  by code_simp

theorem setup_serves_its_caller_witness:
  "\<exists>b' sock. setup_run root_laptop open_env None plain_flags [''setup''] (laptop_box [home_state]) = (b', Inr Running)
     \<and> bx_unit b' = Some (renderUnit ''/home/mara/.local/bin/robinet'' home_state sock ''info'' ''mara'')"
proof -
  have path: "statePath (ho_os (laptop [])) (su_state plain_flags) = Inr home_state" using laptop_path by (simp add: plain_flags_def)
  have up: "setup_run (laptop []) open_env None plain_flags [''setup''] (laptop_box [home_state])
      = (laptop_box [home_state], Inr (Elevated [''sudo'', ''--'', ''/home/mara/.local/bin/robinet'', ''setup'']))"
    using path by (simp add: setup_run_def elevate_def laptop_defs)
  have own: "ownerOf root_laptop home_state (laptop_box [home_state]) = Some ''mara''" by (simp add: ownerOf_def laptop_defs digits_thousand)
  have bin: "setup_binary root_laptop (su_binary plain_flags) = Inr ''/home/mara/.local/bin/robinet''" by (simp add: setup_binary_def laptop_defs)
  have fl: "su_state plain_flags \<noteq> [] \<or> os_Getenv (ho_os (laptop [])) ''XDG_STATE_HOME'' = []" "\<not> su_cleanup plain_flags" "\<not> su_noEnable plain_flags"
    "ho_write root_laptop" "\<forall>a. ho_systemctl root_laptop a" "su_log plain_flags = ''info''" by (simp_all add: laptop_defs)
  show ?thesis using setup_serves_its_caller [OF laptop_elevated fl(1) up fl(2-5) bin path own] fl(6) by auto
qed

theorem chosen_state_is_not_found_by_root_witness:
  "setup_run (laptop ''/data'') open_env None plain_flags [''setup''] (laptop_box [data_state])
     = (laptop_box [data_state], Inr (Elevated [''sudo'', ''--'', ''/home/mara/.local/bin/robinet'', ''setup'']))
   \<and> setup_run root_laptop open_env None plain_flags [''setup''] (laptop_box [data_state]) = (laptop_box [data_state], Inl NotJoined)"
proof -
  have ne: "home_state \<noteq> data_state" by (simp add: home_state data_state)
  have env: "os_Getenv (ho_os (laptop ''/data'')) ''XDG_STATE_HOME'' = ''/data''" "su_state plain_flags = []" "\<not> su_cleanup plain_flags"
    "elevate (laptop ''/data'') [''setup''] = Inr (Elevated [''sudo'', ''--'', ''/home/mara/.local/bin/robinet'', ''setup''])"
    by (simp_all add: elevate_def laptop_defs)
  show ?thesis
    by (rule chosen_state_is_not_found_by_root [OF laptop_elevated env(1) _ laptop_home _ _ env(2-4)])
       (use ne in \<open>simp_all add: data_state_def [symmetric] home_state_def [symmetric] laptop_box_def\<close>)
qed

theorem cleanup_takes_the_directory_witness:
  "cleanupTenant root_laptop open_env None home_state False (laptop_box [home_state, ''/home/mara/x'']) = (laptop_box [home_state, ''/home/mara/x''], Inl (NeedsForce []))
   \<and> (\<exists>b'. cleanupTenant root_laptop open_env None home_state True (laptop_box [home_state, ''/home/mara/x'']) = (b', Inr CleanedUp)
       \<and> map_of (bx_files b') home_state = None \<and> map_of (bx_files b') ''/home/mara/x'' = Some 1000)"
proof -
  have path: "statePath (ho_os root_laptop) home_state = Inr home_state" by (simp add: statePath_def home_state)
  have ctl: "ho_LookPath root_laptop ''systemctl'' \<noteq> None" by (simp add: laptop_defs)
  have "filepath_Clean (slash # join ''/'' [''home'', ''mara'', ''.local'', ''state'', ''robinet'', []])
      = slash # join ''/'' (filter (\<lambda>e. e \<noteq> []) [''home'', ''mara'', ''.local'', ''state'', ''robinet'', []])"
    by (rule Clean_plain) (simp_all add: slash_def)
  moreover have "cut_last slash home_state = Some (''/home/mara/.local/state/robinet'', ''tenant.json'')" unfolding home_state by code_simp
  ultimately have dir: "filepath_Dir home_state = ''/home/mara/.local/state/robinet''" by (simp add: filepath_Dir_def slash_def)
  have ins: "in_dir (filepath_Dir home_state) home_state" "\<not> in_dir (filepath_Dir home_state) ''/home/mara/x''"
    unfolding dir unfolding home_state by (simp_all add: in_dir_def HasPrefix_def)
  let ?b = "laptop_box [home_state, ''/home/mara/x'']"
  have "\<exists>b'. cleanupTenant root_laptop open_env None home_state True ?b = (b', Inr CleanedUp)"
    unfolding cleanupTenant_def path using ctl by (simp add: remove_all_def dir stop_service_def Let_def) (simp add: laptop_defs)
  then obtain b' where b': "cleanupTenant root_laptop open_env None home_state True ?b = (b', Inr CleanedUp)" by blast
  have "map_of (bx_files ?b) ''/home/mara/x'' = Some 1000" by (simp add: laptop_box_def home_state)
  with cleanup_takes_the_directory [OF path ctl, of open_env None ?b] b' ins show ?thesis by (auto simp: ownedInstances_def)
qed

theorem socket_is_the_callers_witness:
  "\<exists>s' j. join_run joining_machine (steady True) my_keyring (Some example_priv) None root_laptop (Some ''laptop'') None (\<lambda>_. (True, sta_fs blank_state)) True (\<lambda>_. True)
      \<lparr>jf_hub = ''https://hub:8443'', jf_token = ''t'', jf_name = ''laptop'', jf_sshKey = [], jf_sshFinger = [], jf_state = [], jf_insecure = None, jf_pin = [],
        jf_noSetup = False, jf_socket = []\<rparr> () = ((), Inr (j, s', None))
    \<and> applySocketPermissions (\<lambda>_ _. True) True s' \<lparr>sf_owner = (0, 0), sf_mode = 0\<rparr> = (\<lparr>sf_owner = (1000, 1000), sf_mode = 6 * 64\<rparr>, Inr ())"
proof -
  let ?fl = "\<lparr>jf_hub = ''https://hub:8443'', jf_token = ''t'', jf_name = ''laptop'', jf_sshKey = [], jf_sshFinger = [], jf_state = [], jf_insecure = None, jf_pin = [],
        jf_noSetup = False, jf_socket = []\<rparr>"
  have opts: "join_options ?fl ''laptop'' = my_options" by (simp add: join_options_def my_options_def)
  have name: "ownerName (ho_os root_laptop) = Inr ''mara''" "os_Lookup (ho_os root_laptop) ''mara'' = Some mara" by (simp_all add: ownerName_def laptop_defs)
  have ids: "Atoi (us_Uid mara) = Some 1000" "Atoi (us_Gid mara) = Some 1000" using Atoi_digits_of [of 1000] by (simp_all add: mara_def digits_thousand)
  have own: "ownerIdentity (ho_os root_laptop) = Inr (''mara'', 1000, 1000)" by (simp add: ownerIdentity_def ownerIDs_def name ids)
  obtain s' j where j: "Join joining_machine (steady True) my_keyring (Some example_priv) (Some (''mara'', 1000, 1000)) None my_options blank_state () = ((), s', Inr j)"
    using my_join by blast
  have "OpenState True (sta_fs blank_state) = Inr blank_state" by (simp add: OpenState_def blank_state_def)
  moreover have "statePath (ho_os root_laptop) [] = Inr home_state"
    using elevated_statePath [OF laptop_elevated [of "[]"], of "[]"] laptop_path by (simp add: laptop_defs)
  ultimately have run: "join_run joining_machine (steady True) my_keyring (Some example_priv) None root_laptop (Some ''laptop'') None (\<lambda>_. (True, sta_fs blank_state)) True (\<lambda>_. True) ?fl ()
      = ((), Inr (j, s', None))"
    using j by (simp add: join_run_def preset_flags_def own opts)
  show ?thesis using socket_is_the_callers [OF run name ids, of "\<lambda>_ _. True"] run by auto
qed

theorem capability_is_bit_twelve_witness:
  "CheckNetAdmin no_unicode 1000 (Some (unlines [''Name: robinet'', ''CapEff:'' @ CHR 0x09 # ''0000000000001000''])) = None
   \<and> CheckNetAdmin no_unicode 1000 (Some (unlines [''CapEff:'' @ CHR 0x09 # ''000001ffffffefff''])) = Some NoNetAdmin"
proof -
  have "list_all (\<lambda>c. unhex c \<noteq> None) ''0000000000001000''" "list_all (\<lambda>c. unhex c \<noteq> None) ''000001ffffffefff''" by code_simp+
  moreover have "unhex (CHR ''1'') = Some 1" "unhex (CHR ''e'') = Some 14" by code_simp+
  ultimately show ?thesis
    using capability_is_bit_twelve [of 1000 "[''Name: robinet'']" "[]" "''0000000000001000''" "''000000000000''" "CHR ''1''" "CHR ''0''" "CHR ''0''" "CHR ''0''" no_unicode]
      capability_is_bit_twelve [of 1000 "[]" "[]" "''000001ffffffefff''" "''000001ffffff''" "CHR ''e''" "CHR ''f''" "CHR ''f''" "CHR ''f''" no_unicode]
    by (simp add: nl_def HasPrefix_def)
qed

end
