(* ===== verification/Commands.thy ===== *)
theory Commands
  imports Machine
begin

text \<open>
  The command line of a tenant, \<open>src/cmd/robinet\<close>: the client of the control socket (\<open>control.go\<close>) and the commands
  that go through it (\<open>control.go\<close>, \<open>groups.go\<close>, \<open>tenant.go\<close>, \<open>reach.go\<close>, \<open>dns.go\<close>, \<open>cheat.go\<close>, \<open>complete.go\<close>).

  A command takes what is dialed at a path, \<open>dial\<close>, and the state behind it, and returns that state with its outcome: an
  error, the lines it prints, or a panic. What is written to a table is a line with tabs. \<open>daemon_at\<close> is the daemon of
  \<open>Control\<close> behind its socket, so that a command can be followed to the hub.
\<close>

section \<open>The client\<close>

datatype dial_err = Canceled | DeadlineExceeded | NotExist | ConnRefused | NoPermission | OtherTrouble

record cmd_response =
  rp_Version :: string
  rp_Status :: nat
  rp_Reply :: reply

type_synonym 's sock = "string \<Rightarrow> string \<Rightarrow> string \<Rightarrow> 's \<Rightarrow> 's \<times> (dial_err + cmd_response)"

datatype cmd_err =
    NoSocket path_err
  | NotEncoded
  | Interrupted dial_err
  | NotRunning
  | NotRunningThough string
  | NotTheOwner string
  | NotReachable string dial_err
  | OtherBuild string string
  | DaemonSays control_err
  | DaemonReturned nat
  | ReplyNotDecoded
  | BadPrefix string
  | TooOldToRestart
  | NoInstanceCalled string
  | RemoveTakesAlias
  | AliasTakesTwo
  | NotElevated setup_err
  | NotApplied resolver_err

text \<open>What a terminal shows: the build of this binary, times, the text of an error, and whether an error fits into the 4096 bytes that are read of it.\<close>

record terminal =
  tm_Build :: string
  tm_Time :: "time \<Rightarrow> string"
  tm_Text :: "cmd_err \<Rightarrow> string"
  tm_Fits :: "control_err \<Rightarrow> bool"
  tm_Fold :: "string \<Rightarrow> string \<Rightarrow> bool"

type_synonym ('s, 'a) ran = "'s \<times> (cmd_err, 'a) out"

definition unreachable :: "string \<Rightarrow> dial_err \<Rightarrow> cmd_err" where
  "unreachable path e =
     (case e of
        Canceled \<Rightarrow> Interrupted e
      | DeadlineExceeded \<Rightarrow> Interrupted e
      | NotExist \<Rightarrow> NotRunning
      | ConnRefused \<Rightarrow> NotRunningThough path
      | NoPermission \<Rightarrow> NotTheOwner path
      | OtherTrouble \<Rightarrow> NotReachable path e)"

definition headerOrUnknown :: "string \<Rightarrow> string" where
  "headerOrUnknown sent = (if sent = [] then ''an older build'' else sent)"

definition checkVersion :: "string \<Rightarrow> string \<Rightarrow> cmd_err option" where
  "checkVersion build sent = (if sent = build then None else Some (OtherBuild (headerOrUnknown sent) build))"

definition control_do ::
  "terminal \<Rightarrow> bool \<Rightarrow> string \<Rightarrow> 's sock \<Rightarrow> string \<Rightarrow> string \<Rightarrow> string option \<Rightarrow> (reply \<Rightarrow> 'a option) \<Rightarrow> 's \<Rightarrow> ('s, 'a) ran" where
  "control_do T anyVersion path S verb endpoint body dec s =
     (case body of
        None \<Rightarrow> (s, Fail NotEncoded)
      | Some raw \<Rightarrow>
          (case S verb endpoint raw s of
             (s, Inl e) \<Rightarrow> (s, Fail (unreachable path e))
           | (s, Inr rp) \<Rightarrow>
               (case (if anyVersion then None else checkVersion (tm_Build T) (rp_Version rp)) of
                  Some e \<Rightarrow> (s, Fail e)
                | None \<Rightarrow>
                    if 300 \<le> rp_Status rp then
                      (s, Fail (case rp_Reply rp of Failed e \<Rightarrow> if tm_Fits T e then DaemonSays e else DaemonReturned (rp_Status rp)
                                | _ \<Rightarrow> DaemonReturned (rp_Status rp)))
                    else (case dec (rp_Reply rp) of None \<Rightarrow> (s, Fail ReplyNotDecoded) | Some a \<Rightarrow> (s, Ret a)))))"

text \<open>A command that asks one thing: where the socket is, the question, and what is printed of the answer.\<close>

definition asking ::
  "terminal \<Rightarrow> bool \<Rightarrow> (string \<Rightarrow> 's sock) \<Rightarrow> string \<Rightarrow> string \<Rightarrow> string \<Rightarrow> string option \<Rightarrow> (reply \<Rightarrow> 'a option) \<Rightarrow>
    ('a \<Rightarrow> (cmd_err, string list) out) \<Rightarrow> 's \<Rightarrow> ('s, string list) ran" where
  "asking T anyVersion dial socket verb endpoint body dec show s =
     (case socketPath socket of
        Inl e \<Rightarrow> (s, Fail (NoSocket e))
      | Inr path \<Rightarrow>
          (case control_do T anyVersion path (dial path) verb endpoint body dec s of
             (s, Ret a) \<Rightarrow> (s, show a)
           | (s, Fail e) \<Rightarrow> (s, Fail e)
           | (s, Panic) \<Rightarrow> (s, Panic)))"

definition daemon_at :: "string \<Rightarrow> tworld \<Rightarrow> 'h line \<Rightarrow> tclient \<Rightarrow> ctx \<Rightarrow> string \<Rightarrow> (Daemon \<times> 'h) sock" where
  "daemon_at at W N c X path verb endpoint body dh =
     (if path \<noteq> at then (dh, Inl NotExist)
      else
        (case control W N c X verb endpoint body (fst dh) (snd dh) of
           (h, d, None) \<Rightarrow> ((d, h), Inl OtherTrouble)
         | (h, d, Some (status, r)) \<Rightarrow> ((d, h), Inr \<lparr>rp_Version = cx_Version X, rp_Status = status, rp_Reply = r\<rparr>)))"

text \<open>\<open>encoding/json\<close>, the other way round.\<close>

record request_json =
  cj_Connect :: "ConnectRequest \<Rightarrow> string option"
  cj_Config :: "ConfigRequest \<Rightarrow> string option"
  cj_Approve :: "ApproveRequest \<Rightarrow> string option"
  cj_Decision :: "DecisionRequest \<Rightarrow> string option"
  cj_Ban :: "daemon_BanRequest \<Rightarrow> string option"
  cj_Delete :: "DeleteRequest \<Rightarrow> string option"
  cj_Token :: "control_TokenRequest \<Rightarrow> string option"
  cj_Inbound :: "InboundRequest \<Rightarrow> string option"
  cj_Alias :: "AliasRequest \<Rightarrow> string option"
  cj_DNS :: "DNSRequest \<Rightarrow> string option"
  cj_Families :: "FamiliesRequest \<Rightarrow> string option"
  cj_Cheat :: "CheatRequest \<Rightarrow> string option"
  cj_Create :: "CreateRequest \<Rightarrow> string option"

definition nobody :: "string option" where "nobody = Some []"

definition ignored :: "reply \<Rightarrow> unit option" where "ignored r = Some ()"

section \<open>What is shown\<close>

definition row :: "string list \<Rightarrow> string" where
  "row cells = join [CHR 0x09] cells"

definition dashIfEmpty :: "string \<Rightarrow> string" where
  "dashIfEmpty s = (if s = [] then ''-'' else s)"

definition connState :: "ConnectionStatus \<Rightarrow> string" where
  "connState c = (if cns_Running c then ''up'' else if cns_Waiting c then ''waiting'' else ''down'')"

definition pendingOrDash :: "nat \<Rightarrow> string" where
  "pendingOrDash n = (if n = 0 then ''-'' else digits_of n)"

definition addrOrDash :: "prefix \<Rightarrow> string" where
  "addrOrDash p = (if \<not> PrefixIsValid p then ''-'' else PrefixString p)"

definition prefixes :: "prefix list \<Rightarrow> string" where
  "prefixes ps = (if length ps = 0 then ''-'' else join '','' (map PrefixString ps))"

definition routeList :: "Route list \<Rightarrow> string" where
  "routeList rs = (if length rs = 0 then ''-'' else join '','' (map (PrefixString \<circ> rt_Prefix) rs))"

definition short :: "string \<Rightarrow> nat \<Rightarrow> string" where
  "short s n = (if length s \<le> n then s else take n s)"

definition applicantName :: "Request \<Rightarrow> string" where
  "applicantName r =
     (if req_Name r \<noteq> [] then req_Name r
      else (let host = the_default [] (mget (req_Hints r) ''hostname'') in if host \<noteq> [] then host else ''-''))"

definition willBeCalled :: "PendingEntry \<Rightarrow> string" where
  "willBeCalled p = (if pe_WillBeCalled p \<noteq> [] then pe_WillBeCalled p else applicantName (rec_Request (pe_Record p)))"

definition known_hints :: "string list" where
  "known_hints = [''platform'', ''project'', ''environment'', ''service'', ''region'', ''hostname'']"

definition hintOrder :: "(string, string) gomap \<Rightarrow> string list" where
  "hintOrder hints =
     (let out = filter (\<lambda>k. the_default [] (mget hints k) \<noteq> []) known_hints
      in out @ sort (filter (\<lambda>k. k \<notin> set out) (map fst (items hints))))"

definition describe :: "terminal \<Rightarrow> PendingEntry \<Rightarrow> string list" where
  "describe T p =
     (let r = pe_Record p; q = rec_Request r in
      [[], ''  '' @ short (rec_ID r) 8 @ ''  '' @ rec_Kind r @ '' in '' @ pe_Instance p]
      @ (if willBeCalled p \<noteq> ''-'' then [''    called       '' @ willBeCalled p @ ''.'' @ pe_Instance p @ ''.'' @ Suffix] else [])
      @ [''    address      '' @ PrefixString (pe_Address p)]
      @ (if PrefixIsValid (rec_OverlayAddress6 r) then [''    address6     '' @ PrefixString (rec_OverlayAddress6 r)] else [])
      @ [''    routes       '' @ prefixes (req_Routes q)]
      @ (if req_Domain q \<noteq> [] then [''    domain       '' @ req_Domain q] else [])
      @ [''    from         '' @ rec_SourceAddr r, ''    key          '' @ short (rec_Fingerprint r) 16]
      @ (if rec_Identity r \<noteq> [] then [''    identity     '' @ short (rec_Identity r) 16 @ '' (binder '' @ rec_Binder r @ '')''] else [])
      @ [''    asked        '' @ tm_Time T (rec_ReceivedAt r)]
      @ map (\<lambda>k. row [''    '' @ k, the_default [] (mget (req_Hints q) k)]) (hintOrder (req_Hints q)))"

definition connectorImage :: string where
  "connectorImage = ''wyga/robinet:1''"

definition printConnectorHint :: "string \<Rightarrow> string list" where
  "printConnectorHint endpoint =
     [[], ''run a connector inside the network you want to reach:'', [],
      ''  docker run -d --name robinet -v robinet:/data '' @ [CHR 0x5C],
      ''    -e ROBINET_ENDPOINT='' @ endpoint @ '' '' @ [CHR 0x5C],
      ''    '' @ connectorImage,
      [], ''or on a platform that only takes environment variables:'', [],
      ''  image             '' @ connectorImage,
      ''  ROBINET_ENDPOINT  '' @ endpoint,
      ''  volume            /data   (its identity: without it every restart is a stranger)'',
      [], ''then approve it: robinet member pending'']"

definition hubHost :: "string \<Rightarrow> string" where
  "hubHost raw = (case urlHost raw of None \<Rightarrow> raw | Some h \<Rightarrow> if h \<noteq> [] then h else raw)"

section \<open>Commands about this machine\<close>

definition status_cells :: "bool \<Rightarrow> ConnectionStatus \<Rightarrow> string list" where
  "status_cells dual c =
     [''  '' @ cns_Instance c, cns_Role c, addrOrDash (cns_Address c)] @ (if dual then [addrOrDash (cns_Address6 c)] else [])
     @ [cns_Device c, connState c, routeList (cns_Routes c)]"

definition status_lines :: "terminal \<Rightarrow> Status \<Rightarrow> string list" where
  "status_lines T st =
     [''hub        '' @ sts_Hub st, ''machine    '' @ sts_Name st @ '' (binder '' @ sts_Binder st @ '')'']
     @ (if sts_Families st \<notin> {[], FamiliesBoth} then [''routes     '' @ sts_Families st @ '' only, by local choice''] else [])
     @ (if sts_Inbound st \<notin> {[], InboundPing} then [''inbound    '' @ sts_Inbound st] else [])
     @ (if sts_Version st \<notin> {[], tm_Build T} then [''daemon     '' @ sts_Version st @ '', this command is '' @ tm_Build T] else [])
     @ (if sts_Connections st = [] then []
        else
          (let dual = list_ex (\<lambda>c. PrefixIsValid (cns_Address6 c)) (sts_Connections st) in
           [[], ''connections'',
            row ([''  INSTANCE'', ''ROLE'', ''ADDRESS''] @ (if dual then [''ADDRESS6''] else []) @ [''DEVICE'', ''STATE'', ''ROUTES''])]
           @ map (row \<circ> status_cells dual) (sts_Connections st)
           @ concat (map (\<lambda>c. if cns_Endpoint c = [] then []
               else [[], ''  connectors for '' @ cns_Instance c, ''    ROBINET_ENDPOINT='' @ cns_Endpoint c, ''    ROBINET_ENDPOINT  '' @ cns_Endpoint c])
               (sts_Connections st))))"

text \<open>The table of what waits slices the first eight characters off an identifier.\<close>

definition status_show :: "terminal \<Rightarrow> Status \<Rightarrow> (cmd_err, string list) out" where
  "status_show T st =
     (if sts_Pending st = [] then Ret (status_lines T st)
      else if list_ex (\<lambda>p. length (rec_ID (pe_Record p)) < 8) (sts_Pending st) then Panic
      else Ret (status_lines T st
        @ [[], ''waiting for a decision'', row [''  ID'', ''INSTANCE'', ''KIND'', ''NAME'', ''ADDRESS'', ''ROUTES'', ''FROM'']]
        @ map (\<lambda>p. row [''  '' @ take 8 (rec_ID (pe_Record p)), pe_Instance p, rec_Kind (pe_Record p), req_Name (rec_Request (pe_Record p)),
                  PrefixString (pe_Address p), prefixes (req_Routes (rec_Request (pe_Record p))), rec_SourceAddr (pe_Record p)]) (sts_Pending st)
        @ [[], ''  robinet member approve <id>   to admit one'']))"

fun of_status :: "reply \<Rightarrow> Status option" where
  "of_status (StatusIs st) = Some st"
| "of_status _ = None"

definition status_cmd :: "terminal \<Rightarrow> (string \<Rightarrow> 's sock) \<Rightarrow> string \<Rightarrow> 's \<Rightarrow> ('s, string list) ran" where
  "status_cmd T dial socket = asking T False dial socket ''GET'' ''/status'' nobody of_status (status_show T)"

definition family_cmd :: "terminal \<Rightarrow> request_json \<Rightarrow> (string \<Rightarrow> 's sock) \<Rightarrow> string \<Rightarrow> string option \<Rightarrow> 's \<Rightarrow> ('s, string list) ran" where
  "family_cmd T J dial socket arg =
     (case arg of
        None \<Rightarrow> asking T False dial socket ''GET'' ''/status'' nobody of_status (\<lambda>st. Ret [sts_Families st])
      | Some f \<Rightarrow> asking T False dial socket ''POST'' ''/families'' (cj_Families J \<lparr>fmq_Families = f\<rparr>)
          (\<lambda>r. case r of FamiliesAre g \<Rightarrow> Some g | _ \<Rightarrow> None) (\<lambda>g. Ret [''installing '' @ g @ '' routes'']))"

definition inbound_cmd :: "terminal \<Rightarrow> request_json \<Rightarrow> (string \<Rightarrow> 's sock) \<Rightarrow> string \<Rightarrow> string option \<Rightarrow> 's \<Rightarrow> ('s, string list) ran" where
  "inbound_cmd T J dial socket arg =
     (case arg of
        None \<Rightarrow> asking T False dial socket ''GET'' ''/status'' nobody of_status (\<lambda>st. Ret [sts_Inbound st])
      | Some f \<Rightarrow> asking T False dial socket ''POST'' ''/inbound'' (cj_Inbound J \<lparr>ibq_Inbound = f\<rparr>)
          (\<lambda>r. case r of InboundIs g \<Rightarrow> Some g | _ \<Rightarrow> None) (\<lambda>g. Ret [''members may reach: '' @ g]))"

definition restart_cmd :: "terminal \<Rightarrow> (string \<Rightarrow> 's sock) \<Rightarrow> string \<Rightarrow> 's \<Rightarrow> ('s, string list) ran" where
  "restart_cmd T dial socket s =
     (case asking T True dial socket ''POST'' ''/restart'' nobody (\<lambda>r. case r of Restarts v \<Rightarrow> Some v | _ \<Rightarrow> None)
             (\<lambda>v. Ret [''daemon '' @ v @ '' is stopping, its supervisor starts '' @ tm_Build T]) s of
        (s, Fail e) \<Rightarrow> (s, Fail (if contains_str (tm_Text T e) ''404'' then TooOldToRestart else e))
      | (s, r) \<Rightarrow> (s, r))"

definition daemonReachable :: "terminal \<Rightarrow> (string \<Rightarrow> 's sock) \<Rightarrow> string \<Rightarrow> 's \<Rightarrow> 's \<times> bool" where
  "daemonReachable T dial socket s =
     (case asking T True dial socket ''GET'' ''/status'' nobody of_status (\<lambda>_. Ret []) s of (s, r) \<Rightarrow> (s, out_ok r))"

definition reach_cmd :: "terminal \<Rightarrow> (string \<Rightarrow> 's sock) \<Rightarrow> string \<Rightarrow> 's \<Rightarrow> ('s, string list) ran" where
  "reach_cmd T dial socket = asking T False dial socket ''GET'' ''/reach'' nobody (\<lambda>r. case r of Reaches es \<Rightarrow> Some es | _ \<Rightarrow> None) (\<lambda>es. Ret
     (if es = [] then [''nothing: no connector in any instance this machine belongs to carries a network'']
      else [row [''INSTANCE'', ''NETWORK'', ''CARRIED BY'', ''NAMES'']]
        @ map (\<lambda>e. row [rea_Instance e, PrefixString (rea_Network e), dashIfEmpty (rea_Carrier e),
            if rea_Names e = [] then ''-'' else if \<not> rea_Installed e then rea_Names e @ ''  (not installed)'' else rea_Names e]) es
        @ (if list_ex (\<lambda>e. rea_Names e \<noteq> [] \<and> \<not> rea_Installed e) es then [[], ''  robinet dns install   to resolve those names on this machine''] else [])))"

definition cheatRef :: string where
  "cheatRef = CheatChromium @ ''/'' @ CheatChromiumProbeRoute"

definition onOff :: "bool \<Rightarrow> string" where
  "onOff on = (if on then ''on'' else ''off'')"

definition cheat_cmd :: "terminal \<Rightarrow> request_json \<Rightarrow> (string \<Rightarrow> 's sock) \<Rightarrow> string \<Rightarrow> string option \<Rightarrow> 's \<Rightarrow> ('s, string list) ran" where
  "cheat_cmd T J dial socket arg =
     (case arg of
        None \<Rightarrow> asking T False dial socket ''GET'' ''/status'' nobody of_status (\<lambda>st. Ret [onOff (cheatRef \<in> set (sts_Cheats st))])
      | Some a \<Rightarrow> asking T False dial socket ''POST'' ''/cheat''
          (cj_Cheat J \<lparr>chq_Vendor = CheatChromium, chq_Name = CheatChromiumProbeRoute, chq_On = (a = ''on'')\<rparr>)
          (\<lambda>r. case r of CheatIs _ _ on \<Rightarrow> Some on | _ \<Rightarrow> None) (\<lambda>on. Ret [''2001:4860:4860::8888/128: '' @ onOff on]))"

section \<open>Names\<close>

definition printDNSPlan :: "DNSEntry list \<Rightarrow> string list" where
  "printDNSPlan entries =
     (let carrying = filter (\<lambda>e. 0 < length (de_Domains e)) entries in
      if length carrying = 0 then [''nothing to resolve: no connector this machine can see announces a domain'']
      else row [''INSTANCE'', ''DEVICE'', ''DOMAINS'', ''ASKING'']
        # map (\<lambda>e. row [de_Instance e, de_Device e, join '','' (de_Domains e), join '','' (de_Servers e)]) carrying)"

definition dnsPlan :: "terminal \<Rightarrow> request_json \<Rightarrow> (string \<Rightarrow> 's sock) \<Rightarrow> string \<Rightarrow> string \<Rightarrow> bool \<Rightarrow> 's \<Rightarrow> ('s, DNSEntry list) ran" where
  "dnsPlan T J dial socket mode remove s =
     (case socketPath socket of
        Inl e \<Rightarrow> (s, Fail (NoSocket e))
      | Inr path \<Rightarrow> control_do T False path (dial path) ''POST'' ''/dns'' (cj_DNS J \<lparr>dnq_Mode = mode, dnq_Remove = remove\<rparr>)
          (\<lambda>r. case r of Plan es \<Rightarrow> Some es | _ \<Rightarrow> None) s)"

definition dns_list_cmd ::
  "terminal \<Rightarrow> request_json \<Rightarrow> machine_env \<Rightarrow> (resolver_err \<Rightarrow> string) \<Rightarrow> (string \<Rightarrow> 's sock) \<Rightarrow> string \<Rightarrow> string \<Rightarrow> 's \<Rightarrow> ('s, string list) ran" where
  "dns_list_cmd T J E txt dial socket mode s =
     (case dnsPlan T J dial socket mode False s of
        (s, Ret es) \<Rightarrow> (s, Ret (printDNSPlan es @ (case haveResolved E of None \<Rightarrow> []
           | Some e \<Rightarrow> [[], ''  warning: '' @ txt e, ''  robinet dns install would fail on this machine''])))
      | (s, Fail e) \<Rightarrow> (s, Fail e)
      | (s, Panic) \<Rightarrow> (s, Panic))"

text \<open>\<open>Inl\<close> is the command line under \<open>sudo\<close> that takes the place of this process.\<close>

definition dns_install_cmd ::
  "terminal \<Rightarrow> request_json \<Rightarrow> host \<Rightarrow> machine_env \<Rightarrow> (string \<Rightarrow> 's sock) \<Rightarrow> string \<Rightarrow> string \<Rightarrow> bool \<Rightarrow> string list \<Rightarrow> machine \<Rightarrow> 's
    \<Rightarrow> machine \<times> ('s, setup_end + string list) ran" where
  "dns_install_cmd T J H E dial socket mode remove args m s =
     (if os_Geteuid (ho_os H) \<noteq> 0 then (m, s, case elevate H args of Inl e \<Rightarrow> Fail (NotElevated e) | Inr x \<Rightarrow> Ret (Inl x))
      else
        (case dnsPlan T J dial socket mode remove s of
           (s, Ret es) \<Rightarrow>
             (case Apply E mode es m of
                (m, Inl e) \<Rightarrow> (m, s, Fail (NotApplied e))
              | (m, Inr _) \<Rightarrow> (m, s, Ret (Inr (if remove then [''resolver configuration removed''] else printDNSPlan es))))
         | (s, Fail e) \<Rightarrow> (m, s, Fail e)
         | (s, Panic) \<Rightarrow> (m, s, Panic)))"

definition alias_cmd :: "terminal \<Rightarrow> request_json \<Rightarrow> (string \<Rightarrow> 's sock) \<Rightarrow> string \<Rightarrow> bool \<Rightarrow> string list \<Rightarrow> 's \<Rightarrow> ('s, string list) ran" where
  "alias_cmd T J dial socket remove args s =
     (let ask = (\<lambda>req. asking T False dial socket ''POST'' ''/alias'' (cj_Alias J req) (\<lambda>r. case r of AliasesAre al \<Rightarrow> Some al | _ \<Rightarrow> None) (\<lambda>al. Ret
            (if al = [] then [''no aliases'']
             else row [''ALIAS'', ''STANDS FOR'']
               # map (\<lambda>a. row [a, the_default [] (map_of al a)]) (sort (map fst al))
               @ (if args = [] \<and> \<not> remove then [[], ''  robinet dns alias --remove <alias>   to take one away'']
                  else [[], ''  robinet dns install   to resolve it here'']))) s)
      in case socketPath socket of
           Inl e \<Rightarrow> (s, Fail (NoSocket e))
         | Inr _ \<Rightarrow>
             if remove then (if length args \<noteq> 1 then (s, Fail RemoveTakesAlias) else ask \<lparr>alq_Alias = hd args, alq_Canonical = []\<rparr>)
             else if length args = 0 then ask \<lparr>alq_Alias = [], alq_Canonical = []\<rparr>
             else if length args \<noteq> 2 then (s, Fail AliasTakesTwo)
             else ask \<lparr>alq_Alias = args ! 1, alq_Canonical = args ! 0\<rparr>)"

section \<open>Commands about instances\<close>

definition list_owner :: "InstanceSummary \<Rightarrow> string" where
  "list_owner i =
     (if is_Role i = KindOwner then ''you''
      else if is_OwnerMachine i \<noteq> [] then is_Owner i @ '' ('' @ is_OwnerMachine i @ '')'' else is_Owner i)"

definition list_you :: "InstanceSummary \<Rightarrow> string" where
  "list_you i = (if is_Role i = [] then ''not joined'' else if is_Role i \<in> {KindOwner, KindConnector} then is_Role i else ''member'')"

definition list_stranger :: "InstanceSummary \<Rightarrow> string" where
  "list_stranger i =
     (if is_Yours i then
        (let whr = (if is_OwnerMachine i = [] then ''another machine'' else is_OwnerMachine i) in
         ''  '' @ is_Name i @ '' is yours, but its authority is on '' @ whr @ '': attach here, approve on '' @ whr)
      else ''  '' @ is_Name i @ '' belongs to '' @ is_Owner i @ '': attach, and they approve it'')"

definition list_lines :: "InstanceSummary list \<Rightarrow> string list" where
  "list_lines is =
     (if length is = 0 then [''nothing here yet: create one, or ask an owner for the name of theirs'']
      else
        (let dual = list_ex (\<lambda>i. PrefixIsValid (is_Address6 i)) is; strangers = filter (\<lambda>i. is_Role i = []) is in
         row ([''NAME'', ''OWNER'', ''YOU'', ''ADDRESS''] @ (if dual then [''ADDRESS6''] else []) @ [''PENDING'', ''MEMBERS''])
         # map (\<lambda>i. row ([is_Name i, list_owner i, list_you i, addrOrDash (is_Address i)] @ (if dual then [addrOrDash (is_Address6 i)] else [])
             @ [pendingOrDash (is_Pending i), if 0 < is_Members i then digits_of (is_Members i) else ''-''])) is
         @ concat (map (\<lambda>i. if is_Running i then [] else [[], ''  '' @ is_Name i @ '': its lighthouse is not running on the hub'']) is)
         @ (if strangers = [] then [] else [[]]) @ map list_stranger strangers))"

definition list_cmd :: "terminal \<Rightarrow> (string \<Rightarrow> 's sock) \<Rightarrow> string \<Rightarrow> 's \<Rightarrow> ('s, string list) ran" where
  "list_cmd T dial socket = asking T False dial socket ''GET'' ''/list'' nobody (\<lambda>r. case r of Visible is \<Rightarrow> Some is | _ \<Rightarrow> None) (\<lambda>is. Ret (list_lines is))"

definition attach_cmd :: "terminal \<Rightarrow> request_json \<Rightarrow> (string \<Rightarrow> 's sock) \<Rightarrow> string \<Rightarrow> string \<Rightarrow> 's \<Rightarrow> ('s, string list) ran" where
  "attach_cmd T J dial socket arg = asking T False dial socket ''POST'' ''/connect'' (cj_Connect J \<lparr>cnq_Instance = arg\<rparr>) ignored
     (\<lambda>_. Ret [''asked to join '' @ arg @ '', waiting for the owner''])"

definition detach_cmd :: "terminal \<Rightarrow> request_json \<Rightarrow> (string \<Rightarrow> 's sock) \<Rightarrow> string \<Rightarrow> string \<Rightarrow> 's \<Rightarrow> ('s, string list) ran" where
  "detach_cmd T J dial socket arg = asking T False dial socket ''POST'' ''/disconnect'' (cj_Connect J \<lparr>cnq_Instance = arg\<rparr>) ignored
     (\<lambda>_. Ret [''left '' @ arg])"

definition true_false :: "bool \<Rightarrow> string" where
  "true_false b = (if b then ''true'' else ''false'')"

definition show_cmd :: "terminal \<Rightarrow> request_json \<Rightarrow> (string \<Rightarrow> 's sock) \<Rightarrow> string \<Rightarrow> string \<Rightarrow> 's \<Rightarrow> ('s, string list) ran" where
  "show_cmd T J dial socket arg = asking T False dial socket ''POST'' ''/show'' (cj_Connect J \<lparr>cnq_Instance = arg\<rparr>)
     (\<lambda>r. case r of Info i \<Rightarrow> Some i | _ \<Rightarrow> None) (\<lambda>i. Ret
       ([''instance '' @ sh_Name i, ''  id       '' @ sh_ID i, ''  overlay  '' @ sh_Overlay i, ''  owner    '' @ sh_Owner i,
         ''  role     '' @ dashIfEmpty (sh_Role i), ''  up       '' @ true_false (sh_Running i)]
        @ (let endpoint = the_default [] (sh_Endpoint i) in
           if endpoint = [] then [[], ''ask '' @ sh_Owner i @ '' for the endpoint to give a connector''] else printConnectorHint endpoint)))"

definition config_cmd :: "terminal \<Rightarrow> request_json \<Rightarrow> (string \<Rightarrow> 's sock) \<Rightarrow> string \<Rightarrow> bool \<Rightarrow> string \<Rightarrow> 's \<Rightarrow> ('s, string list) ran" where
  "config_cmd T J dial socket showKeys arg = asking T False dial socket ''POST'' ''/config'' (cj_Config J \<lparr>cfq_Instance = arg, cfq_ShowKeys = showKeys\<rparr>)
     (\<lambda>r. case r of Rendered raw \<Rightarrow> Some raw | _ \<Rightarrow> None) (\<lambda>raw. Ret [raw])"

definition token_cmd :: "terminal \<Rightarrow> request_json \<Rightarrow> (string \<Rightarrow> 's sock) \<Rightarrow> string \<Rightarrow> string \<Rightarrow> string \<Rightarrow> 's \<Rightarrow> ('s, string list) ran" where
  "token_cmd T J dial socket token arg = asking T False dial socket ''POST'' ''/instance/token'' (cj_Token J \<lparr>tkq_Instance = arg, tkq_Token = token\<rparr>)
     (\<lambda>r. case r of NewToken t \<Rightarrow> Some t | _ \<Rightarrow> None) (\<lambda>t. Ret
       ((tr_Instance t @ '' has a new shared token, and the endpoints handed out before it no longer enroll'') # printConnectorHint (tr_Endpoint t)))"

definition delete_cmd :: "terminal \<Rightarrow> request_json \<Rightarrow> (string \<Rightarrow> 's sock) \<Rightarrow> string \<Rightarrow> bool \<Rightarrow> string \<Rightarrow> 's \<Rightarrow> ('s, string list) ran" where
  "delete_cmd T J dial socket force arg = asking T False dial socket ''POST'' ''/delete'' (cj_Delete J \<lparr>dlq_Instance = arg, dlq_Force = force\<rparr>)
     (\<lambda>r. case r of Deleted x \<Rightarrow> Some x | _ \<Rightarrow> None) (\<lambda>x. Ret ((''deleted '' @ dl_Instance x)
       # (if 1 < dl_Members x then [digits_of (dl_Members x - 1) @ '' members lost it, and their certificates are now useless''] else [])))"

definition create_cmd :: "terminal \<Rightarrow> request_json \<Rightarrow> (string \<Rightarrow> 's sock) \<Rightarrow> string \<Rightarrow> string \<Rightarrow> string \<Rightarrow> 's \<Rightarrow> ('s, string list) ran" where
  "create_cmd T J dial socket name shared = asking T False dial socket ''POST'' ''/create'' (cj_Create J \<lparr>crq_Name = name, crq_SharedToken = shared\<rparr>)
     (\<lambda>r. case r of Made x \<Rightarrow> Some x | _ \<Rightarrow> None) (\<lambda>x. Ret
       ([''instance '' @ name @ '' created'', ''  id       '' @ cre_ID x, ''  overlay  '' @ PrefixString (cre_Overlay x),
         (case cre_Overlay6 x of Some p \<Rightarrow> ''           '' @ PrefixString p | None \<Rightarrow> ''           ipv4 only, because the hub has no ipv6 pool'')]
        @ (if cre_Endpoint x = [] then [] else printConnectorHint (cre_Endpoint x))))"

section \<open>Commands about members\<close>

definition pending_cmd :: "terminal \<Rightarrow> (string \<Rightarrow> 's sock) \<Rightarrow> string \<Rightarrow> 's \<Rightarrow> ('s, string list) ran" where
  "pending_cmd T dial socket = asking T False dial socket ''GET'' ''/pending'' nobody (\<lambda>r. case r of Waits ps \<Rightarrow> Some ps | _ \<Rightarrow> None) (\<lambda>ps. Ret
     (if length ps = 0 then [''nothing waiting'']
      else row [''ID'', ''INSTANCE'', ''KIND'', ''WILL BE CALLED'', ''ADDRESS'']
        # map (\<lambda>p. row [short (rec_ID (pe_Record p)) 8, pe_Instance p, rec_Kind (pe_Record p), willBeCalled p, PrefixString (pe_Address p)]) ps
        @ concat (map (describe T) ps) @ [[], ''  robinet member approve <id>'']))"

fun read_prefixes :: "unicode \<Rightarrow> string list \<Rightarrow> string + prefix list" where
  "read_prefixes U [] = Inr []"
| "read_prefixes U (raw # rest) =
     (case ParsePrefix (TrimSpace U raw) of
        None \<Rightarrow> Inl raw
      | Some p \<Rightarrow> (case read_prefixes U rest of Inl e \<Rightarrow> Inl e | Inr ps \<Rightarrow> Inr (p # ps)))"

definition approved_lines :: "PendingEntry \<Rightarrow> string list" where
  "approved_lines e =
     (let six = rec_OverlayAddress6 (pe_Record e);
          where_at = PrefixString (pe_Address e) @ (if PrefixIsValid six then '' and '' @ PrefixString six else [])
      in [''admitted '' @ applicantName (rec_Request (pe_Record e)) @ '' to '' @ pe_Instance e @ '' at '' @ where_at]
         @ (if 0 < length (pe_Routes e) then [''carrying '' @ prefixes (pe_Routes e)] else [])
         @ (if pe_Domain e \<noteq> [] then [''resolving '' @ pe_Domain e] else [])
         @ map (\<lambda>d. ''not carrying '' @ PrefixString d @ '': this instance has no address of that family'') (pe_Dropped e))"

text \<open>No \<open>--routes\<close> leaves the list out of the request.\<close>

definition approve_request :: "string \<Rightarrow> prefix list \<Rightarrow> bool \<Rightarrow> string \<Rightarrow> ApproveRequest" where
  "approve_request i only noDomain name =
     \<lparr>apq_ID = i, apq_Name = name, apq_Routes = (if only = [] then None else Some only), apq_NoDomain = noDomain\<rparr>"

definition approve_cmd ::
  "unicode \<Rightarrow> terminal \<Rightarrow> request_json \<Rightarrow> (string \<Rightarrow> 's sock) \<Rightarrow> string \<Rightarrow> string list \<Rightarrow> bool \<Rightarrow> string \<Rightarrow> string \<Rightarrow> 's \<Rightarrow> ('s, string list) ran" where
  "approve_cmd U T J dial socket only noDomain name arg s =
     (case socketPath socket of
        Inl e \<Rightarrow> (s, Fail (NoSocket e))
      | Inr _ \<Rightarrow>
          (case read_prefixes U only of
             Inl raw \<Rightarrow> (s, Fail (BadPrefix raw))
           | Inr ps \<Rightarrow> asking T False dial socket ''POST'' ''/approve'' (cj_Approve J (approve_request arg ps noDomain name))
               (\<lambda>r. case r of Admitted e \<Rightarrow> Some e | _ \<Rightarrow> None) (\<lambda>e. Ret (approved_lines e)) s))"

definition decision_cmd :: "terminal \<Rightarrow> request_json \<Rightarrow> (string \<Rightarrow> 's sock) \<Rightarrow> string \<Rightarrow> string \<Rightarrow> string \<Rightarrow> string \<Rightarrow> 's \<Rightarrow> ('s, string list) ran" where
  "decision_cmd T J dial socket action reason arg =
     asking T False dial socket ''POST'' (''/'' @ action) (cj_Decision J \<lparr>deq_ID = arg, deq_Reason = reason\<rparr>) ignored (\<lambda>_. Ret [action @ '' '' @ arg])"

definition remove_cmd :: "terminal \<Rightarrow> request_json \<Rightarrow> (string \<Rightarrow> 's sock) \<Rightarrow> string \<Rightarrow> string \<Rightarrow> string \<Rightarrow> 's \<Rightarrow> ('s, string list) ran" where
  "remove_cmd T J dial socket inst arg =
     asking T False dial socket ''POST'' ''/member/remove'' (cj_Ban J \<lparr>db_Member = arg, db_Instance = inst, db_Note = []\<rparr>)
       (\<lambda>r. case r of Gone e \<Rightarrow> Some e | _ \<Rightarrow> None) (\<lambda>e. Ret [''removed '' @ dashIfEmpty (mem_Name (mbe_Member e)) @ '' from '' @ mbe_Instance e
         @ '', its credentials are burned, and '' @ PrefixString (mem_Address (mbe_Member e)) @ '' is free again''])"

definition ban_cmd :: "terminal \<Rightarrow> request_json \<Rightarrow> (string \<Rightarrow> 's sock) \<Rightarrow> string \<Rightarrow> string \<Rightarrow> string \<Rightarrow> string \<Rightarrow> 's \<Rightarrow> ('s, string list) ran" where
  "ban_cmd T J dial socket note inst arg =
     asking T False dial socket ''POST'' ''/ban'' (cj_Ban J \<lparr>db_Member = arg, db_Instance = inst, db_Note = note\<rparr>) ignored
       (\<lambda>_. Ret [''banned '' @ arg @ '', its certificate is blocklisted and its routes are gone''])"

definition unban_cmd :: "terminal \<Rightarrow> request_json \<Rightarrow> (string \<Rightarrow> 's sock) \<Rightarrow> string \<Rightarrow> string \<Rightarrow> string \<Rightarrow> string \<Rightarrow> 's \<Rightarrow> ('s, string list) ran" where
  "unban_cmd T J dial socket note inst arg =
     asking T False dial socket ''POST'' ''/unban'' (cj_Ban J \<lparr>db_Member = arg, db_Instance = inst, db_Note = note\<rparr>) ignored
       (\<lambda>_. Ret [''unbanned '' @ arg @ '', its certificate works again and its routes are back''])"

definition member_cells :: "bool \<Rightarrow> bool \<Rightarrow> MemberEntry \<Rightarrow> string list" where
  "member_cells one dual e =
     (let m = mbe_Member e in
      (if one then [] else [mbe_Instance e])
      @ [mem_Kind m, dashIfEmpty (mem_Name m), dashIfEmpty (mem_Binder m), addrOrDash (mem_Address m)]
      @ (if dual then [addrOrDash (mem_Address6 m)] else [])
      @ [prefixes (mem_Routes m), dashIfEmpty (mem_Domain m), if Banned m then ''banned'' else ''ok''])"

definition member_list_show :: "terminal \<Rightarrow> string \<Rightarrow> MemberEntry list \<Rightarrow> (cmd_err, string list) out" where
  "member_list_show T inst ms =
     (let shown = (if inst = [] then ms else filter (\<lambda>e. tm_Fold T (mbe_Instance e) inst) ms); one = (inst \<noteq> []);
          dual = list_ex (\<lambda>e. PrefixIsValid (mem_Address6 (mbe_Member e))) shown
      in if inst \<noteq> [] \<and> length shown = 0 \<and> 0 < length ms then Fail (NoInstanceCalled inst)
         else if length shown = 0 then Ret [''no members yet'']
         else Ret ((if one then [''members of '' @ mbe_Instance (hd shown), []] else [])
           @ row ((if one then [] else [''INSTANCE'']) @ [''KIND'', ''NAME'', ''BINDER'', ''ADDRESS''] @ (if dual then [''ADDRESS6''] else [])
               @ [''ROUTES'', ''DOMAIN'', ''STATE''])
           # map (row \<circ> member_cells one dual) shown))"

definition member_list_cmd :: "terminal \<Rightarrow> (string \<Rightarrow> 's sock) \<Rightarrow> string \<Rightarrow> string \<Rightarrow> 's \<Rightarrow> ('s, string list) ran" where
  "member_list_cmd T dial socket inst = asking T False dial socket ''GET'' ''/members'' nobody (\<lambda>r. case r of Inside ms \<Rightarrow> Some ms | _ \<Rightarrow> None) (member_list_show T inst)"

section \<open>Completion\<close>

definition completing :: "terminal \<Rightarrow> (string \<Rightarrow> 's sock) \<Rightarrow> string \<Rightarrow> string \<Rightarrow> (reply \<Rightarrow> 'a option) \<Rightarrow> 's \<Rightarrow> 's \<times> 'a option" where
  "completing T dial socket endpoint dec s =
     (case socketPath socket of
        Inl _ \<Rightarrow> (s, None)
      | Inr path \<Rightarrow> (case control_do T False path (dial path) ''GET'' endpoint nobody dec s of (s, Ret a) \<Rightarrow> (s, Some a) | (s, _) \<Rightarrow> (s, None)))"

definition describeInstance :: "InstanceSummary \<Rightarrow> string" where
  "describeInstance i =
     (let owner = (if is_OwnerMachine i \<noteq> [] then is_Owner i @ '' ('' @ is_OwnerMachine i @ '')'' else is_Owner i) in
      if is_Role i = [] then ''owned by '' @ owner else is_Role i @ '', owned by '' @ owner)"

definition completeInstances :: "terminal \<Rightarrow> (string \<Rightarrow> 's sock) \<Rightarrow> string \<Rightarrow> bool \<Rightarrow> string list \<Rightarrow> 's \<Rightarrow> 's \<times> string list" where
  "completeInstances T dial socket mine args s =
     (if 0 < length args then (s, [])
      else
        (case completing T dial socket ''/list'' (\<lambda>r. case r of Visible is \<Rightarrow> Some is | _ \<Rightarrow> None) s of
           (s, None) \<Rightarrow> (s, [])
         | (s, Some is) \<Rightarrow> (s, map (\<lambda>i. row [if is_Name i = [] then is_ID i else is_Name i, describeInstance i])
             (filter (\<lambda>i. mine = (is_Role i \<noteq> [])) is))))"

definition completePending :: "terminal \<Rightarrow> (string \<Rightarrow> 's sock) \<Rightarrow> string \<Rightarrow> string list \<Rightarrow> 's \<Rightarrow> 's \<times> string list" where
  "completePending T dial socket args s =
     (if 0 < length args then (s, [])
      else
        (case completing T dial socket ''/pending'' (\<lambda>r. case r of Waits ps \<Rightarrow> Some ps | _ \<Rightarrow> None) s of
           (s, None) \<Rightarrow> (s, [])
         | (s, Some ps) \<Rightarrow> (s, map (\<lambda>p. row [short (rec_ID (pe_Record p)) 8,
             rec_Kind (pe_Record p) @ '' '' @ applicantName (rec_Request (pe_Record p)) @ '' in '' @ pe_Instance p]) ps)))"

definition completeMembers :: "terminal \<Rightarrow> (string \<Rightarrow> 's sock) \<Rightarrow> string \<Rightarrow> string list \<Rightarrow> 's \<Rightarrow> 's \<times> string list" where
  "completeMembers T dial socket args s =
     (if 0 < length args then (s, [])
      else
        (case completing T dial socket ''/members'' (\<lambda>r. case r of Inside ms \<Rightarrow> Some ms | _ \<Rightarrow> None) s of
           (s, None) \<Rightarrow> (s, [])
         | (s, Some ms) \<Rightarrow> (s, map (\<lambda>e. let m = mbe_Member e in row [if mem_Name m = [] then short (mem_Fingerprint m) 16 else mem_Name m,
             mem_Kind m @ '' in '' @ mbe_Instance e @ '' at '' @ PrefixString (mem_Address m)]) (filter (\<lambda>e. mem_Kind (mbe_Member e) \<noteq> KindOwner) ms))))"

section \<open>The program\<close>

definition exitCodeFor :: "'e option \<Rightarrow> 'c option \<Rightarrow> nat" where
  "exitCodeFor err ctxErr = (if err = None \<or> ctxErr \<noteq> None then 0 else 1)"

definition envOr :: "osworld \<Rightarrow> string \<Rightarrow> string \<Rightarrow> string" where
  "envOr O1 name fallback = (if os_Getenv O1 name \<noteq> [] then os_Getenv O1 name else fallback)"

definition envBool :: "unicode \<Rightarrow> osworld \<Rightarrow> string \<Rightarrow> bool \<Rightarrow> bool" where
  "envBool U O1 name fallback =
     (let v = ToLower U (TrimSpace U (os_Getenv O1 name)) in
      if v = [] then fallback else if v \<in> {''0'', ''false'', ''no'', ''off''} then False else True)"

definition root_commands :: "bool \<Rightarrow> string list" where
  "root_commands cheating =
     [''hub'', ''connect'', ''join'', ''setup'', ''up'', ''status'', ''reach'', ''family'', ''inbound'', ''dns'', ''restart'', ''instance'', ''member'', ''version'']
     @ (if cheating then [''cheat''] else [])"

definition version_lines :: "unicode \<Rightarrow> (string \<Rightarrow> VariantConfig option) \<Rightarrow> string \<Rightarrow> string \<Rightarrow> string \<Rightarrow> string list" where
  "version_lines U json Name Encoded build =
     build # (let v = variant_String U json Name Encoded in if v = [] then [] else [''variant '' @ v])"

section \<open>Through the socket\<close>

lemma asking_Ret:
  assumes "asking T any (daemon_at at W N c X) socket verb endpoint body dec disp (d, h) = (dh', Ret ls)"
  shows "\<exists>raw status r a. body = Some raw \<and> control W N c X verb endpoint raw d h = (snd dh', fst dh', Some (status, r))
    \<and> status < 300 \<and> dec r = Some a \<and> disp a = Ret ls \<and> (any \<or> cx_Version X = tm_Build T)"
  using assms
  by (auto simp: asking_def control_do_def daemon_at_def checkVersion_def split: sum.split_asm option.split_asm prod.split_asm if_split_asm out.split_asm)

lemma asking_state:
  "fst (asking T any dial socket verb endpoint body dec disp s) =
     (case socketPath socket of Inl _ \<Rightarrow> s | Inr path \<Rightarrow> (case body of None \<Rightarrow> s | Some raw \<Rightarrow> fst (dial path verb endpoint raw s)))"
proof -
  have e: "fst (control_do T any path S verb endpoint body dec s) = (case body of None \<Rightarrow> s | Some raw \<Rightarrow> fst (S verb endpoint raw s))" for path S
    by (auto simp: control_do_def split: option.split prod.split sum.split)
  show ?thesis
  proof (cases "socketPath socket")
    case (Inr path)
    obtain s1 r1 where c: "control_do T any path (dial path) verb endpoint body dec s = (s1, r1)" by fastforce
    then have "s1 = (case body of None \<Rightarrow> s | Some raw \<Rightarrow> fst (dial path verb endpoint raw s))" using e [of path "dial path"] by simp
    then show ?thesis using c Inr by (cases r1) (simp_all add: asking_def)
  qed (simp add: asking_def)
qed

lemma asking_other_build:
  assumes "tm_Build T \<noteq> cx_Version X"
  shows "snd (asking T False (daemon_at at W N c X) socket verb endpoint body dec disp dh) \<noteq> Ret ls"
  using assms asking_Ret [of T False "at" W N c X socket verb endpoint body dec disp "fst dh" "snd dh"]
  by (metis prod.collapse)



text \<open>
  Nothing an applicant reported is left out when a request is described, and nothing is shown twice; what is known of old
  comes first, in its own order, and the rest is sorted.
\<close>

theorem hintOrder_shows_all:
  assumes "wf_map hints"
  shows "mset (hintOrder hints) = mset (map fst (items hints))
    \<and> (\<exists>known. hintOrder hints = filter (\<lambda>k. the_default [] (mget hints k) \<noteq> []) known_hints @ known \<and> sorted known)"
proof -
  let ?out = "filter (\<lambda>k. the_default [] (mget hints k) \<noteq> []) known_hints" and ?ks = "map fst (items hints)"
  have d: "distinct ?out" by (rule distinct_filter) (simp add: known_hints_def)
  have ks: "distinct ?ks" using assms by (simp add: wf_map_def)
  have sub: "set ?out \<subseteq> set ?ks"
  proof
    fix k assume "k \<in> set ?out"
    then obtain v where "mget hints k = Some v" by (cases "mget hints k") simp_all
    then show "k \<in> set ?ks" by (auto simp: mget_def dest: map_of_SomeD intro: rev_image_eqI)
  qed
  have "mset ?out = mset (filter (\<lambda>k. k \<in> set ?out) ?ks)"
    by (subst set_eq_iff_mset_eq_distinct [symmetric]) (use d ks sub in auto)
  then have "mset ?out + mset (filter (\<lambda>k. k \<notin> set ?out) ?ks) = mset ?ks"
    using multiset_partition [of "mset ?ks" "\<lambda>k. k \<in> set ?out"] by simp
  then show ?thesis by (auto simp: hintOrder_def Let_def)
qed

section \<open>At a terminal\<close>

definition my_terminal :: "string \<Rightarrow> terminal" where
  "my_terminal build = \<lparr>tm_Build = build, tm_Time = (\<lambda>_. []), tm_Text = (\<lambda>_. []), tm_Fits = (\<lambda>_. True), tm_Fold = (\<lambda>a b. a = b)\<rparr>"

definition my_cjson :: request_json where
  "my_cjson = \<lparr>cj_Connect = (\<lambda>_. None), cj_Config = (\<lambda>_. None), cj_Approve = (\<lambda>r. if r = approve_request ''r1'' [] False [] then Some ''A'' else None),
     cj_Decision = (\<lambda>_. None), cj_Ban = (\<lambda>_. None), cj_Delete = (\<lambda>_. None), cj_Token = (\<lambda>_. None), cj_Inbound = (\<lambda>_. None), cj_Alias = (\<lambda>_. None),
     cj_DNS = (\<lambda>_. None), cj_Families = (\<lambda>_. None), cj_Cheat = (\<lambda>_. None), cj_Create = (\<lambda>_. None)\<rparr>"

definition my_ctx :: ctx where
  "my_ctx = up_ctx\<lparr>cx_json := up_sjson\<lparr>sj_Approve := (\<lambda>_. Some (approve_request ''r1'' [] False []))\<rparr>\<rparr>"

abbreviation my_socket :: "string \<Rightarrow> (Daemon \<times> Server) sock" where
  "my_socket \<equiv> daemon_at ''/run/robinet/robinet.sock'' my_machine my_line my_client my_ctx"

abbreviation my_admission :: PendingEntry where
  "my_admission \<equiv> my_entry\<lparr>pe_Routes := [Prefix (Addr4 0x0A000000) 8], pe_Domain := ''prod.internal''\<rparr>"

lemma my_approval_asked:
  "\<exists>srv'. approve_cmd no_unicode (my_terminal ''dev'') my_cjson my_socket [] [] False [] ''r1'' (my_daemon, my_server)
     = ((my_daemon, srv'), Ret (approved_lines my_admission))
   \<and> Approve my_machine my_line my_client ''r1'' None False [] my_daemon my_server = (srv', Inr my_admission)"
proof -
  obtain srv' where a: "Approve my_machine my_line my_client ''r1'' None False [] my_daemon my_server = (srv', Inr my_admission)" using my_admitted by blast
  have "control my_machine my_line my_client my_ctx ''POST'' ''/approve'' ''A'' = control_handle my_machine my_line my_client my_ctx ''A'' ApproveC"
    by (rule control_post [of _ "''approve''"]) (simp_all add: slash_def pathUnescape_def control_routes_def)
  then have c: "control my_machine my_line my_client my_ctx ''POST'' ''/approve'' ''A'' my_daemon my_server = (srv', my_daemon, Some (200, Admitted my_admission))"
    using a by (simp add: control_handle_def control_Approve_def body_of_def my_ctx_def approve_request_def concluded_def control_writeJSON_def)
  have v: "cx_Version my_ctx = ''dev''" by (simp add: my_ctx_def up_ctx_def)
  have "control_do (my_terminal ''dev'') False ''/run/robinet/robinet.sock'' (my_socket ''/run/robinet/robinet.sock'') ''POST'' ''/approve'' (Some ''A'')
      (\<lambda>r. case r of Admitted e \<Rightarrow> Some e | _ \<Rightarrow> None) (my_daemon, my_server) = ((my_daemon, srv'), Ret my_admission)"
    by (simp add: control_do_def daemon_at_def c v checkVersion_def my_terminal_def)
  then show ?thesis using a by (simp add: approve_cmd_def asking_def socketPath_def DefaultSocketPath_def my_cjson_def)
qed



end
