(* ===== verification/Spec2Isabelle.thy ===== *)
theory Spec2Isabelle
  imports Service Limits Commands
begin

text \<open>
  \<^bold>\<open>RobiNET.\<close> A hub runs one nebula lighthouse per instance, keeps who belongs to an instance, and hands
  out addresses. Connectors and tenants ask to be admitted; the owner of an instance, whose machine
  holds the certificate authority, decides. Machines talk to the hub over HTTP with requests they sign;
  a tenant's daemon then runs nebula against the instances it belongs to and answers DNS for them.

  \<^bold>\<open>The parts and their theories\<close> (sources under \<open>src/internal/\<close>).

    \<^item> \<open>Prelude\<close>, \<open>Netip\<close>, \<open>Text\<close>, \<open>Parse\<close>, \<open>Codec\<close>: what the program uses of Go and its standard
      library: results with panics (\<open>out\<close>), strings as bytes, maps that may be nil (\<open>gomap\<close>, an association
      list, its order standing for the order a walk happens to take), \<open>net/netip\<close> addresses as 32 and 128
      bit words, their printing and parsing, base64, hexadecimal and URL escapes. What Unicode does beyond
      ASCII is the parameter \<open>unicode\<close>.
    \<^item> \<open>Ipam\<close> and \<open>Alloc\<close>: \<open>hub/ipam.go\<close>. The walks over an address range, the carving of an overlay out
      of the pools, the sticky choice of a member's address.
    \<^item> \<open>Names\<close>: \<open>hub/name.go\<close>, \<open>hub/certname.go\<close> and the domains of \<open>enroll/protocol.go\<close>.
    \<^item> \<open>Protocol\<close>: the enrollment request of \<open>enroll/protocol.go\<close>, its canonical form, its MAC and its
      validation.
    \<^item> \<open>Store\<close> and \<open>Views\<close>: \<open>hub/store.go\<close>, the state file and its atomic replacement, and the read-only
      views of an instance from \<open>hub/hub.go\<close> (blocklist, routes, resolvers).
    \<^item> \<open>Lighthouse\<close>: \<open>hub/lighthouse.go\<close>, the configuration handed to nebula and the running lighthouses.
    \<^item> \<open>Hub\<close>: every operation of \<open>hub/hub.go\<close> on the store and the lighthouses. \<open>HubInv\<close> has the invariant of
      an instance and that each closure passed to \<open>Update\<close> keeps it; \<open>Reach\<close> has the hub as a transition
      system (operations, crashes during a save, restarts) and the invariant by rule induction.
      \<open>Guarantees\<close>, \<open>Enforce\<close> and \<open>Admission\<close> have what the operations promise; \<open>Examples\<close> the concrete hub
      their witnesses run on.
    \<^item> \<open>Wrak\<close> and \<open>Bootstrap\<close>: \<open>wrak/identity.go\<close>, \<open>wrak/nonce.go\<close>, \<open>wrak/sshsig.go\<close>, \<open>wrak/bootstrap.go\<close>: signed
      requests, the memory of nonces, ssh signatures and the registration of a machine.
    \<^item> \<open>Settings\<close>: \<open>hub/config.go\<close>, from the files to the configuration of the hub.
    \<^item> \<open>Api\<close>: \<open>hub/api.go\<close>, routing, guards, handlers and the rate limiter, one function from a call and a
      server to an answer and a server. \<open>Service\<close> shows that it refines the transition system of \<open>Reach\<close> and
      who may do what; \<open>Limits\<close> is about the rate limiter.
    \<^item> \<open>Pin\<close>: \<open>pin/pin.go\<close>, pinned keys and the TLS callback.
    \<^item> \<open>Dnsrouter\<close>, \<open>Tenant\<close>, \<open>Resolvers\<close>: \<open>tenant/dnsrouter.go\<close>, \<open>tenant/state.go\<close>, \<open>tenant/dns.go\<close>: the names
      a tenant's machine resolves, what it keeps, and how its resolver is configured.
    \<^item> \<open>Runner\<close>: \<open>tenant/runner.go\<close>, the nebula configuration of a tenant's connection and the connections
      that are up. \<open>Labels\<close>: the helpers of \<open>tenant/tenant.go\<close> an owner decides with.
    \<^item> \<open>Ca\<close>: \<open>ca/ca.go\<close>, \<open>ca/hostkey.go\<close>, the certificate authority of an instance.
    \<^item> \<open>Discover\<close> and \<open>Connector\<close>: \<open>connector/\<close>, what a connector finds out about its machine, its state
      directory, its wait for a decision, its configuration and its watch over the blocklist. \<open>Enrollment\<close>
      puts it in front of the hub: its requests go through \<open>Api.serve\<close>.
    \<^item> \<open>Endpoint\<close>: the line an owner hands out, written by \<open>tenant/socket.go\<close> and read by
      \<open>src/cmd/robinet/connect.go\<close>.
    \<^item> \<open>Hubclient\<close> and \<open>Daemon\<close>: \<open>tenant/hubclient.go\<close> and \<open>tenant/tenant.go\<close>, the signed calls of a tenant's machine
      and every operation of its daemon. \<open>Ownership\<close> has what they promise whatever answers; in \<open>Online\<close> and
      \<open>Granted\<close> the other end is \<open>Api.serve\<close>, so that what the daemon reports is compared with what the hub holds.
    \<^item> \<open>Control\<close>: \<open>tenant/socket.go\<close>, the control socket of the daemon, one handler per endpoint.
      \<open>Rehearsal\<close> is the concrete machine, hub and request the witnesses about daemons run on.
    \<^item> \<open>Readback\<close>: printed addresses, prefixes and address-port pairs are parsed back to themselves.
    \<^item> \<open>Netstack\<close>: \<open>netstack/\<close>, what a connector does with the flows that come from the mesh.
    \<^item> \<open>Machine\<close>: \<open>tenant/paths.go\<close>, \<open>tenant/capability.go\<close>, \<open>variant/\<close>, \<open>userdev/\<close>, and the commands that join,
      install and remove a daemon (\<open>tenant.go\<close>, \<open>setup.go\<close> and \<open>setupcleanup.go\<close> of \<open>src/cmd/robinet\<close>).
    \<^item> \<open>Commands\<close>: the client of the control socket and the commands of a tenant, under \<open>src/cmd/robinet\<close>. With
      \<open>daemon_at\<close> a command line is followed through the socket, the daemon and the API to the store of the hub.

  \<^bold>\<open>How the model reads.\<close> A struct is a record whose fields carry a short prefix (\<open>inst_Members\<close> is
  \<open>Instance.Members\<close>), an error is a constructor of \<open>hub_err\<close> and its kin, a method that changes state
  takes it as its last argument and returns it with its result. A closure given to \<open>Store.Update\<close> is a
  definition of its own (\<open>enroll_closure\<close>, \<open>decide_closure\<close>, \<open>ban_closure\<close>, ...), and what it changed before an
  error stays changed in memory, as in the code. Time is an integer of nanoseconds that the caller
  supplies. Keys, certificates, hashes, JSON, YAML, nebula, net/http, DNS messages and the file system are
  parameters; what is relied on of them (a signature verifies against its key, HMAC of equal texts is
  equal, a written state reads back) is a named hypothesis, with an instance in the witnesses. Faults of
  the file system are an argument of every operation that saves, so each theorem covers a full disk.

  \<^bold>\<open>What is shown.\<close>

    \<^item> Invariants of every reachable state, through crashes and restarts: addresses and names are unique,
      the owner is a member, no operation panics.
    \<^item> Admission: what enrolling, deciding, banning, unbanning and removing do to members, blocklist,
      routes and running lighthouses; a removed key never comes back.
    \<^item> The API refines the hub: every call answers, reaches only states the operations reach, and leaves
      every instance of another owner alone; routes are only told to members.
    \<^item> Requests: the text that is signed determines the request, a request is accepted once within its
      window, and registration needs a signature by a configured key.
    \<^item> Storage and configuration: a save is atomic and reads back; a configuration that loads has disjoint
      pools and keys with one binder each.
    \<^item> Names: the most specific name space answers, rewriting is undone on the way back, no address of a
      family without a route is returned, and what the resolver is told is what the router answers.
    \<^item> Connectors: what one asks passes the hub's checks, a ban recorded by the hub is in force at every
      connector and tenant, a connector comes up from its directory alone, the endpoint an owner hands out
      is read back, a certificate holds what was asked and ends with its authority, and the MTU fits the path.
    \<^item> Owners: a command that reports an approval has had the hub admit the request it named, with the
      certificate the owner's authority signed; an instance that was made can be used and its authority
      loaded again; the private key of a connection is not told unless it is asked for.
    \<^item> Machines: a machine that has joined starts its daemon after a restart; the socket belongs to the person
      who called; a flow is carried to the address and port it was sent to and nowhere else.
    \<^item> Properties of the code that its authors may want to change are stated as theorems too (the findings).

  \<^bold>\<open>Loops and fuel.\<close> Loops are structural recursions, or functions with a measure (the address walks
  count down to the end of the range, \<open>serve_tcp\<close> consumes its input). Two loops have no bound of their own,
  the walk over the additional section in \<open>udpLimit\<close> and the connector's wait for a decision (\<open>poll\<close>); they
  are partial functions. That the first ends follows from the end of the section; for the second it is
  shown when it ends and when it never does. No definition uses fuel.

  \<^bold>\<open>Not modelled.\<close> gVisor and nebula themselves (parameters), the loops that move packets between them, listening,
  the credentials of a peer, signals and the restart of a process, the talk with an ssh agent, the commands of
  a hub under \<open>src/cmd/robinet\<close> (hub, hub init, install, test, inspect, cleanup), the definitions of flags, help
  texts, and what is only logged. Concurrency is modelled where operations interleave at the store (two
  creations) and otherwise by the atomicity that its lock gives.
\<close>

end
